(* ===== verification/Prelude.thy ===== *)
theory Prelude
  imports Main "HOL-Library.AList"
begin

text \<open>
  Shared vocabulary of the development: Go's \<open>error\<close> results, the part of package
  \<open>strings\<close> the code uses, \<open>map[string]any\<close> values, and generic lemmas on maps, filters
  and association lists that several components use.

  A Go string is a list of bytes, \<^typ>\<open>string\<close>. \<open>TrimSpace\<close> is the ASCII case of
  \<open>strings.TrimSpace\<close> (the Unicode spaces beyond ASCII are not trimmed here).
\<close>

named_theorems trim_simps \<open>facts about TrimSpace\<close>

section \<open>Errors\<close>

text \<open>A Go \<open>error\<close> return: \<open>None\<close> is \<open>nil\<close>.\<close>

type_synonym go_error = "string option"

abbreviation nil_error :: go_error where
  "nil_error \<equiv> None"

section \<open>Package strings\<close>

definition isSpace :: "char \<Rightarrow> bool" where
  "isSpace c = (c \<in> {CHR '' '', CHR 0x09, CHR 0x0A, CHR 0x0B, CHR 0x0C, CHR 0x0D})"

definition TrimLeft :: "string \<Rightarrow> string" where
  "TrimLeft s = dropWhile isSpace s"

definition TrimSpace :: "string \<Rightarrow> string" where
  "TrimSpace s = rev (TrimLeft (rev (TrimLeft s)))"

definition HasPrefix :: "string \<Rightarrow> string \<Rightarrow> bool" where
  "HasPrefix s p = (take (length p) s = p)"

definition HasSuffix :: "string \<Rightarrow> string \<Rightarrow> bool" where
  "HasSuffix s p = HasPrefix (rev s) (rev p)"

text \<open>\<open>strings.IndexByte\<close>: the first index of the byte, \<open>None\<close> for \<open>-1\<close>.\<close>

fun IndexByte :: "string \<Rightarrow> char \<Rightarrow> nat option" where
  "IndexByte [] c = None"
| "IndexByte (x # xs) c = (if x = c then Some 0 else map_option Suc (IndexByte xs c))"

lemma dropWhile_id: "(xs = [] \<or> \<not> P (hd xs)) \<Longrightarrow> dropWhile P xs = xs"
  by (cases xs) auto

lemma hd_dropWhile_not: "dropWhile P xs \<noteq> [] \<Longrightarrow> \<not> P (hd (dropWhile P xs))"
  by (rule hd_dropWhile)

lemma last_dropWhile: "dropWhile P xs \<noteq> [] \<Longrightarrow> last (dropWhile P xs) = last xs"
  by (induction xs) (auto split: if_splits)

lemma TrimSpace_idem [trim_simps, simp]: "TrimSpace (TrimSpace s) = TrimSpace s"
proof -
  define a where "a = dropWhile isSpace s"
  define b where "b = rev (dropWhile isSpace (rev a))"
  have bt: "TrimSpace s = b"
    by (simp add: TrimSpace_def TrimLeft_def a_def b_def)
  have left: "dropWhile isSpace b = b"
  proof (cases "b = []")
    case True
    then show ?thesis by simp
  next
    case False
    then have ne: "dropWhile isSpace (rev a) \<noteq> []" by (simp add: b_def)
    then have "a \<noteq> []" by auto
    have "hd b = last (dropWhile isSpace (rev a))" using ne by (simp add: b_def hd_rev)
    also have "\<dots> = last (rev a)" using ne by (rule last_dropWhile)
    also have "\<dots> = hd a" using \<open>a \<noteq> []\<close> by (simp add: last_rev)
    finally have "\<not> isSpace (hd b)" using \<open>a \<noteq> []\<close> hd_dropWhile_not [of isSpace s]
      by (simp add: a_def)
    then show ?thesis by (simp add: dropWhile_id)
  qed
  have "dropWhile isSpace (rev b) = rev b"
    by (simp add: b_def)
  with left have "TrimSpace b = b"
    by (simp add: TrimSpace_def TrimLeft_def)
  then show ?thesis by (simp add: bt)
qed

lemma TrimSpace_Nil [trim_simps, simp]: "TrimSpace [] = []"
  by (simp add: TrimSpace_def TrimLeft_def)

lemma IndexByte_Some:
  "IndexByte s c = Some i \<Longrightarrow> i < length s \<and> s ! i = c \<and> c \<notin> set (take i s)"
  by (induction s c arbitrary: i rule: IndexByte.induct) (auto split: if_splits)

lemma IndexByte_None: "IndexByte s c = None \<longleftrightarrow> c \<notin> set s"
  by (induction s c rule: IndexByte.induct) auto

section \<open>Values of map[string]any\<close>

text \<open>The dynamic values that JSON decoding and the configuration produce and the code inspects.\<close>

datatype goval = VNil | VBool bool | VInt int | VStr string | VList "goval list"

text \<open>
  A \<open>map[string]any\<close> is an association list with distinct keys; \<open>None\<close> is the nil map, which
  Go distinguishes from an empty one.
\<close>

type_synonym gomap = "(string \<times> goval) list option"

section \<open>Lists\<close>

lemma distinct_map_filter_names: "distinct (map f xs) \<Longrightarrow> distinct (map f (filter P xs))"
  by (rule distinct_map_filter)

end
