(* ===== verification/Strconv.thy ===== *)
theory Strconv
  imports Prelude
begin

text \<open>
  The part of Go's \<open>strconv\<close> and \<open>strings\<close> packages the code calls: \<open>Atoi\<close>,
  \<open>FormatInt\<close>, \<open>ParseBool\<close>, \<open>ToLower\<close>, \<open>Split\<close>, \<open>Replace\<close> of a byte and
  \<open>Contains\<close>. \<open>int\<close> is 64 bits wide: \<open>Atoi\<close> reports a range error and returns the
  nearest bound outside of it, and callers that ignore the error see that bound.
\<close>

definition max_int64 :: int where
  "max_int64 = 9223372036854775807"

definition min_int64 :: int where
  "min_int64 = -9223372036854775808"

definition is_digit :: "char \<Rightarrow> bool" where
  "is_digit c = (48 \<le> (of_char c :: nat) \<and> (of_char c :: nat) \<le> 57)"

fun digits_value :: "nat \<Rightarrow> string \<Rightarrow> nat option" where
  "digits_value acc [] = Some acc"
| "digits_value acc (c # cs) =
     (if is_digit c then digits_value (10 * acc + (of_char c - 48)) cs else None)"

definition ErrSyntax :: string where
  "ErrSyntax = ''invalid syntax''"

definition ErrRange :: string where
  "ErrRange = ''value out of range''"

definition clamp_int64 :: "int \<Rightarrow> int \<times> go_error" where
  "clamp_int64 n =
     (if n > max_int64 then (max_int64, Some ErrRange)
      else if n < min_int64 then (min_int64, Some ErrRange)
      else (n, nil_error))"

definition Atoi :: "string \<Rightarrow> int \<times> go_error" where
  "Atoi s =
     (let neg = (s \<noteq> [] \<and> hd s = CHR ''-'');
          body = (if s \<noteq> [] \<and> (hd s = CHR ''-'' \<or> hd s = CHR ''+'') then tl s else s)
      in if body = [] then (0, Some ErrSyntax)
         else case digits_value 0 body of
                None \<Rightarrow> (0, Some ErrSyntax)
              | Some n \<Rightarrow> clamp_int64 (if neg then - int n else int n))"

fun show_nat :: "nat \<Rightarrow> string" where
  "show_nat n =
     (if n < 10 then [char_of (48 + n)]
      else show_nat (n div 10) @ [char_of (48 + n mod 10)])"

declare show_nat.simps [simp del]

definition FormatInt :: "int \<Rightarrow> string" where
  "FormatInt n = (if n < 0 then CHR ''-'' # show_nat (nat (- n)) else show_nat (nat n))"

definition ParseBool :: "string \<Rightarrow> bool \<times> go_error" where
  "ParseBool s =
     (if s \<in> {''1'', ''t'', ''T'', ''true'', ''TRUE'', ''True''} then (True, nil_error)
      else if s \<in> {''0'', ''f'', ''F'', ''false'', ''FALSE'', ''False''} then (False, nil_error)
      else (False, Some ErrSyntax))"

definition FormatBool :: "bool \<Rightarrow> string" where
  "FormatBool b = (if b then ''true'' else ''false'')"

definition lower_char :: "char \<Rightarrow> char" where
  "lower_char c =
     (if 65 \<le> (of_char c :: nat) \<and> (of_char c :: nat) \<le> 90
      then char_of ((of_char c :: nat) + 32) else c)"

text \<open>\<open>strings.ToLower\<close> on ASCII letters.\<close>

definition ToLower :: "string \<Rightarrow> string" where
  "ToLower s = map lower_char s"

definition upper_char :: "char \<Rightarrow> char" where
  "upper_char c =
     (if 97 \<le> (of_char c :: nat) \<and> (of_char c :: nat) \<le> 122
      then char_of ((of_char c :: nat) - 32) else c)"

text \<open>\<open>strings.ToUpper\<close> on ASCII letters.\<close>

definition ToUpper :: "string \<Rightarrow> string" where
  "ToUpper s = map upper_char s"

text \<open>\<open>strings.Split\<close> by a one-byte separator: always at least one field.\<close>

fun Split :: "string \<Rightarrow> char \<Rightarrow> string list" where
  "Split [] c = [[]]"
| "Split (x # xs) c =
     (if x = c then [] # Split xs c
      else case Split xs c of [] \<Rightarrow> [[x]] | f # fs \<Rightarrow> (x # f) # fs)"

fun ContainsSub :: "string \<Rightarrow> string \<Rightarrow> bool" where
  "ContainsSub [] p = (p = [])"
| "ContainsSub (x # xs) p = (HasPrefix (x # xs) p \<or> ContainsSub xs p)"

definition ContainsAny :: "string \<Rightarrow> string \<Rightarrow> bool" where
  "ContainsAny s cs = list_ex (\<lambda>c. c \<in> set cs) s"

definition ReplaceTabs :: "string \<Rightarrow> string" where
  "ReplaceTabs s = map (\<lambda>c. if c = CHR 0x09 then CHR '' '' else c) s"

text \<open>The non-empty blank-separated fields of a line, as the line parsers collect them.\<close>

definition blank_fields :: "string \<Rightarrow> string list" where
  "blank_fields s = filter (\<lambda>f. f \<noteq> []) (Split s (CHR '' ''))"

section \<open>Laws\<close>

lemma Split_not_Nil [simp]: "Split s c \<noteq> []"
  by (cases s) (auto split: list.splits)

lemma digits_value_append:
  "digits_value acc xs = Some n \<Longrightarrow> digits_value acc (xs @ ys) = digits_value n ys"
  by (induction xs arbitrary: acc) (auto split: if_splits)

lemma is_digit_char_of: "n < 10 \<Longrightarrow> is_digit (char_of (48 + n :: nat))"
  by (simp add: is_digit_def)

lemma digits_value_show_nat: "digits_value 0 (show_nat n) = Some n"
proof (induction n rule: show_nat.induct)
  case (1 n)
  show ?case
  proof (cases "n < 10")
    case True
    then show ?thesis by (simp add: show_nat.simps [of n] is_digit_char_of)
  next
    case False
    then have "digits_value 0 (show_nat (n div 10)) = Some (n div 10)" by (rule 1)
    then have "digits_value 0 (show_nat (n div 10) @ [char_of (48 + n mod 10)])
        = digits_value (n div 10) [char_of (48 + n mod 10)]"
      by (rule digits_value_append)
    with False show ?thesis by (simp add: show_nat.simps [of n] is_digit_char_of)
  qed
qed

lemma show_nat_not_Nil [simp]: "show_nat n \<noteq> []"
  by (simp add: show_nat.simps [of n])

lemma hd_show_nat: "is_digit (hd (show_nat n))"
proof (induction n rule: show_nat.induct)
  case (1 n)
  then show ?case
    by (cases "n < 10") (simp_all add: show_nat.simps [of n] is_digit_char_of)
qed

lemma is_digit_not_sign: "is_digit c \<Longrightarrow> c \<noteq> CHR ''-'' \<and> c \<noteq> CHR ''+''"
  by (auto simp: is_digit_def)

lemma Atoi_show_nat:
  "int n \<le> max_int64 \<Longrightarrow> Atoi (show_nat n) = (int n, nil_error)"
  using is_digit_not_sign [OF hd_show_nat, of n]
  by (simp add: Atoi_def Let_def digits_value_show_nat clamp_int64_def min_int64_def)

lemma ParseBool_FormatBool: "ParseBool (FormatBool b) = (b, nil_error)"
  by (simp add: ParseBool_def FormatBool_def)

lemma ToLower_idem [simp]: "ToLower (ToLower s) = ToLower s"
proof -
  have "lower_char (lower_char c) = lower_char c" for c
  proof (cases "65 \<le> (of_char c :: nat) \<and> (of_char c :: nat) \<le> 90")
    case True
    then show ?thesis by (auto simp: lower_char_def)
  next
    case False
    then show ?thesis by (auto simp: lower_char_def)
  qed
  then show ?thesis by (simp add: ToLower_def)
qed

lemma Atoi_FormatInt:
  assumes "min_int64 \<le> n" "n \<le> max_int64"
  shows "Atoi (FormatInt n) = (n, nil_error)"
proof (cases "n < 0")
  case True
  with assms show ?thesis
    by (simp add: Atoi_def FormatInt_def Let_def digits_value_show_nat clamp_int64_def)
next
  case False
  with assms show ?thesis by (simp add: FormatInt_def Atoi_show_nat)
qed

end
