(* ===== verification/Metadata.thy ===== *)
theory Metadata
  imports Strconv
begin

text \<open>
  \<open>x/metadata/metadata.go\<close> and the typed readers of \<open>x/metadata/util/util.go\<close>. A metadata
  object is a map with lower-case keys; \<open>None\<close> is the nil interface \<open>NewMetadata\<close>
  returns for an empty map. \<open>time.ParseDuration\<close> is an argument of \<open>GetDuration\<close>, the
  nanoseconds of the text or \<open>None\<close>; float values are not modelled.
\<close>

type_synonym mapMetadata = "string \<rightharpoonup> goval"
type_synonym metadata = "mapMetadata option"

text \<open>
  Keys that differ in case only collide in \<open>NewMetadata\<close>, and Go's map iteration order decides
  which value stays; the model iterates in the order of the association list.
\<close>

fun lower_entries :: "(string \<times> goval) list \<Rightarrow> mapMetadata \<Rightarrow> mapMetadata" where
  "lower_entries [] md = md"
| "lower_entries ((k, v) # kvs) md = lower_entries kvs (md(ToLower k \<mapsto> v))"

definition NewMetadata :: "gomap \<Rightarrow> metadata" where
  "NewMetadata m =
     (case m of
        None \<Rightarrow> None
      | Some kvs \<Rightarrow> if kvs = [] then None else Some (lower_entries kvs Map.empty))"

definition md_IsExists :: "mapMetadata \<Rightarrow> string \<Rightarrow> bool" where
  "md_IsExists md key = (md (ToLower key) \<noteq> None)"

definition md_Set :: "string \<Rightarrow> goval \<Rightarrow> mapMetadata \<Rightarrow> mapMetadata" where
  "md_Set key value md = md(ToLower key \<mapsto> value)"

definition md_Get :: "mapMetadata \<Rightarrow> string \<Rightarrow> goval" where
  "md_Get md key = (case md (ToLower key) of None \<Rightarrow> VNil | Some v \<Rightarrow> v)"

fun IsExists :: "metadata \<Rightarrow> string list \<Rightarrow> bool" where
  "IsExists None keys = False"
| "IsExists (Some md) [] = False"
| "IsExists (Some md) (k # ks) = (md_IsExists md k \<or> IsExists (Some md) ks)"

text \<open>The loop all the readers share: the value under the first key that exists.\<close>

fun first_key :: "metadata \<Rightarrow> string list \<Rightarrow> goval option" where
  "first_key None keys = None"
| "first_key (Some md) [] = None"
| "first_key (Some md) (k # ks) =
     (if md_IsExists md k then Some (md_Get md k) else first_key (Some md) ks)"

definition GetBool :: "metadata \<Rightarrow> string list \<Rightarrow> bool" where
  "GetBool md keys =
     (case first_key md keys of
        Some (VBool b) \<Rightarrow> b
      | Some (VInt n) \<Rightarrow> n \<noteq> 0
      | Some (VStr s) \<Rightarrow> fst (ParseBool s)
      | _ \<Rightarrow> False)"

definition GetInt :: "metadata \<Rightarrow> string list \<Rightarrow> int" where
  "GetInt md keys =
     (case first_key md keys of
        Some (VBool b) \<Rightarrow> (if b then 1 else 0)
      | Some (VInt n) \<Rightarrow> n
      | Some (VStr s) \<Rightarrow> fst (Atoi s)
      | _ \<Rightarrow> 0)"

definition second :: int where
  "second = 1000000000"

definition GetDuration :: "(string \<Rightarrow> int option) \<Rightarrow> metadata \<Rightarrow> string list \<Rightarrow> int" where
  "GetDuration parseDuration md keys =
     (case first_key md keys of
        Some (VInt n) \<Rightarrow> n * second
      | Some (VStr s) \<Rightarrow>
          (let v = (case parseDuration s of None \<Rightarrow> 0 | Some d \<Rightarrow> d)
           in if v = 0 then fst (Atoi s) * second else v)
      | _ \<Rightarrow> 0)"

definition GetString :: "metadata \<Rightarrow> string list \<Rightarrow> string" where
  "GetString md keys =
     (case first_key md keys of
        Some (VStr s) \<Rightarrow> s
      | Some (VInt n) \<Rightarrow> FormatInt n
      | Some (VBool b) \<Rightarrow> FormatBool b
      | _ \<Rightarrow> [])"

fun only_strings :: "goval list \<Rightarrow> string list" where
  "only_strings [] = []"
| "only_strings (VStr s # vs) = s # only_strings vs"
| "only_strings (_ # vs) = only_strings vs"

definition GetStrings :: "metadata \<Rightarrow> string list \<Rightarrow> string list" where
  "GetStrings md keys =
     (case first_key md keys of
        Some (VList vs) \<Rightarrow> only_strings vs
      | _ \<Rightarrow> [])"

section \<open>Laws\<close>

lemma md_Get_Set: "md_Get (md_Set k v md) k' = (if ToLower k' = ToLower k then v else md_Get md k')"
  by (simp add: md_Get_def md_Set_def)

lemma md_IsExists_Set: "md_IsExists (md_Set k v md) k' \<longleftrightarrow> ToLower k' = ToLower k \<or> md_IsExists md k'"
  by (simp add: md_IsExists_def md_Set_def)

lemma first_key_exists: "first_key md keys \<noteq> None \<longleftrightarrow> IsExists md keys"
  by (induction md keys rule: first_key.induct) auto

lemma lower_entries_other:
  "k \<notin> (\<lambda>e. ToLower (fst e)) ` set kvs \<Longrightarrow> lower_entries kvs md k = md k"
  by (induction kvs md rule: lower_entries.induct) auto

lemma lower_entries_mem:
  "distinct (map (\<lambda>e. ToLower (fst e)) kvs) \<Longrightarrow> (k, v) \<in> set kvs \<Longrightarrow>
   lower_entries kvs md (ToLower k) = Some v"
proof (induction kvs md rule: lower_entries.induct)
  case (2 k' v' kvs md)
  show ?case
  proof (cases "(k, v) = (k', v')")
    case True
    with 2 show ?thesis by (simp add: lower_entries_other)
  next
    case False
    with "2.prems" have d: "distinct (map (\<lambda>e. ToLower (fst e)) kvs)" and m: "(k, v) \<in> set kvs"
      by auto
    show ?thesis unfolding lower_entries.simps by (rule "2.IH" [OF d m])
  qed
qed simp

text \<open>Lookups are case-insensitive: any spelling of a configured key finds its value.\<close>

lemma NewMetadata_lookup:
  assumes "distinct (map (\<lambda>e. ToLower (fst e)) kvs)" "(k, v) \<in> set kvs" "ToLower k' = ToLower k"
  shows "first_key (NewMetadata (Some kvs)) [k'] = Some v"
  using lower_entries_mem [OF assms(1,2), of Map.empty] assms(2,3)
  by (auto simp: NewMetadata_def md_IsExists_def md_Get_def)

lemma NewMetadata_absent:
  assumes "ToLower k \<notin> (\<lambda>e. ToLower (fst e)) ` set kvs"
  shows "first_key (NewMetadata (Some kvs)) [k] = None"
  using lower_entries_other [OF assms, of Map.empty]
  by (auto simp: NewMetadata_def md_IsExists_def)

end
