(* ===== verification/Registry.thy ===== *)
theory Registry
  imports Prelude
begin

text \<open>
  The generic object registry of \<open>x/registry/registry.go\<close>. The \<open>sync.Map\<close> of a registry is a
  partial map from names to objects. An operation that closes the object it drops
  (\<open>Unregister\<close>) takes the object's \<open>Close\<close> as an effect on an abstract state \<open>'s\<close>; an object
  that is no \<open>io.Closer\<close> has the identity there.

  The locale \<open>registry_api\<close> is the contract the users of a registry rely on, the interpretation
  \<open>regi\<close> discharges it for the code's operations.
\<close>

named_theorems registry_simps \<open>how a registry answers after an operation\<close>

type_synonym 'v registry = "string \<rightharpoonup> 'v"

definition ErrDup :: string where
  "ErrDup = ''registry: duplicate object''"

definition Register :: "string \<Rightarrow> 'v \<Rightarrow> 'v registry \<Rightarrow> go_error \<times> 'v registry" where
  "Register name v m =
     (if name = [] then (nil_error, m)
      else case m name of
        Some _ \<Rightarrow> (Some ErrDup, m)
      | None \<Rightarrow> (nil_error, m(name \<mapsto> v)))"

definition Unregister ::
    "('v \<Rightarrow> 's \<Rightarrow> 's) \<Rightarrow> string \<Rightarrow> 'v registry \<Rightarrow> 's \<Rightarrow> 'v registry \<times> 's" where
  "Unregister close name m s =
     (case m name of
        Some v \<Rightarrow> (m(name := None), close v s)
      | None \<Rightarrow> (m, s))"

definition IsRegistered :: "string \<Rightarrow> 'v registry \<Rightarrow> bool" where
  "IsRegistered name m = (m name \<noteq> None)"

text \<open>\<open>None\<close> is the zero value of an interface type, \<open>nil\<close>.\<close>

definition Get :: "string \<Rightarrow> 'v registry \<Rightarrow> 'v option" where
  "Get name m = (if name = [] then None else m name)"

definition GetAll :: "'v registry \<Rightarrow> 'v registry" where
  "GetAll m = m"

section \<open>The contract of a registry\<close>

locale registry_api =
  fixes register :: "string \<Rightarrow> 'v \<Rightarrow> 'm \<Rightarrow> go_error \<times> 'm"
    and unregister :: "('v \<Rightarrow> 's \<Rightarrow> 's) \<Rightarrow> string \<Rightarrow> 'm \<Rightarrow> 's \<Rightarrow> 'm \<times> 's"
    and isRegistered :: "string \<Rightarrow> 'm \<Rightarrow> bool"
    and lookup :: "string \<Rightarrow> 'm \<Rightarrow> 'v option"
  assumes register_free:
      "name \<noteq> [] \<Longrightarrow> \<not> isRegistered name m \<Longrightarrow> fst (register name v m) = nil_error"
    and register_dup:
      "name \<noteq> [] \<Longrightarrow> isRegistered name m \<Longrightarrow> register name v m = (Some ErrDup, m)"
    and lookup_register:
      "name \<noteq> [] \<Longrightarrow> \<not> isRegistered name m \<Longrightarrow>
         lookup k (snd (register name v m)) = (if k = name then Some v else lookup k m)"
    and lookup_unregister:
      "lookup k (fst (unregister c name m s)) = (if k = name then None else lookup k m)"
    and lookup_registered: "k \<noteq> [] \<Longrightarrow> lookup k m \<noteq> None \<longleftrightarrow> isRegistered k m"
    and lookup_empty_name: "lookup [] m = None"
begin

lemma unregister_free:
  assumes "name \<noteq> []"
  shows "\<not> isRegistered name (fst (unregister c name m s))"
  using lookup_registered [OF assms, of "fst (unregister c name m s)"]
  by (simp add: lookup_unregister)

text \<open>Replacing an object under its name (unregister, then register) never reports a duplicate.\<close>

lemma replace_ok:
  assumes "name \<noteq> []"
  shows "fst (register name v (fst (unregister c name m s))) = nil_error"
proof -
  have "\<not> isRegistered name (fst (unregister c name m s))"
    by (rule unregister_free [OF assms])
  with assms show ?thesis by (rule register_free)
qed

lemma replace_lookup:
  assumes "name \<noteq> []"
  shows "lookup k (snd (register name v (fst (unregister c name m s)))) =
           (if k = name then Some v else lookup k m)"
proof -
  have "\<not> isRegistered name (fst (unregister c name m s))"
    by (rule unregister_free [OF assms])
  with assms show ?thesis by (simp add: lookup_register lookup_unregister)
qed

text \<open>A registration that is undone leaves every answer as it was.\<close>

lemma register_unregister:
  assumes "name \<noteq> []" "\<not> isRegistered name m"
  shows "lookup k (fst (unregister c name (snd (register name v m)) s)) = lookup k m"
  using assms lookup_registered [of name m] by (simp add: lookup_unregister lookup_register)

end

interpretation regi: registry_api Register Unregister IsRegistered Get
  by unfold_locales
    (auto simp: Register_def Unregister_def IsRegistered_def Get_def split: option.splits)

lemma IsRegistered_dom [registry_simps]: "IsRegistered name m \<longleftrightarrow> name \<in> dom m"
  by (auto simp: IsRegistered_def)

lemma Register_new [registry_simps]:
  "name \<noteq> [] \<Longrightarrow> m name = None \<Longrightarrow> Register name v m = (nil_error, m(name \<mapsto> v))"
  by (simp add: Register_def)

lemma Register_taken [registry_simps]:
  "name \<noteq> [] \<Longrightarrow> m name = Some u \<Longrightarrow> Register name v m = (Some ErrDup, m)"
  by (simp add: Register_def)

lemma Get_nonempty [registry_simps]: "name \<noteq> [] \<Longrightarrow> Get name m = m name"
  by (simp add: Get_def)

lemma fst_Unregister [registry_simps]: "fst (Unregister c name m s) = m(name := None)"
  by (auto simp: Unregister_def split: option.splits)

end
