(* ===== verification/ServiceWorld.thy ===== *)
theory ServiceWorld
  imports Metadata Registry
begin

text \<open>
  What the service commands of the agent act on: the service registry, the \<open>Services\<close> of the
  global configuration (\<open>x/config/config.go\<close>), the bound listeners, and a trace of the calls on
  service instances. Also the construction of a service, \<open>ParseService\<close> of
  \<open>x/config/parsing/service/parse.go\<close>.

  A service instance is identified by the number of the \<open>ParseService\<close> call that made it. What
  that call meets outside the repository (certificate files, network namespaces, binding the
  listener, the handler's own \<open>Init\<close>) is the environment \<open>'r env\<close>, whose outcome may differ
  from call to call.
\<close>

named_theorems world_simps \<open>how the primitive effects read back\<close>

section \<open>Configuration of a service\<close>

text \<open>
  \<open>config.ServiceConfig\<close>. \<open>sc_listener\<close> and \<open>sc_handler\<close> are the \<open>Type\<close> behind the pointers
  \<open>Listener\<close> and \<open>Handler\<close> (\<open>None\<close> for nil); the fields no command looks at are \<open>sc_rest\<close>.
\<close>

record 'r service_config =
  sc_name :: string
  sc_addr :: string
  sc_listener :: "string option"
  sc_handler :: "string option"
  sc_meta :: gomap
  sc_rest :: 'r

datatype svc_event = EvNew nat | EvServe nat | EvClose nat | EvKill string

record 'r world =
  w_reg :: "nat registry"
  w_cfgs :: "'r service_config list"
  w_calls :: nat
  w_open :: "nat list"
  w_trace :: "svc_event list"

section \<open>Service instances\<close>

text \<open>\<open>defaultService.Close\<close> closes the handler and the listener; closing again changes nothing.\<close>

definition svcClose :: "nat \<Rightarrow> 'r world \<Rightarrow> 'r world" where
  "svcClose i w = w\<lparr>w_open := removeAll i (w_open w), w_trace := w_trace w @ [EvClose i]\<rparr>"

definition svcServe :: "nat \<Rightarrow> 'r world \<Rightarrow> 'r world" where
  "svcServe i w = w\<lparr>w_trace := w_trace w @ [EvServe i]\<rparr>"

definition regUnregister :: "string \<Rightarrow> 'r world \<Rightarrow> 'r world" where
  "regUnregister name w =
     (case Unregister svcClose name (w_reg w) w of (m, w') \<Rightarrow> w'\<lparr>w_reg := m\<rparr>)"

definition regRegister :: "string \<Rightarrow> nat \<Rightarrow> 'r world \<Rightarrow> go_error \<times> 'r world" where
  "regRegister name i w =
     (case Register name i (w_reg w) of (e, m) \<Rightarrow> (e, w\<lparr>w_reg := m\<rparr>))"

text \<open>\<open>config.OnUpdate\<close>: the callback edits the global configuration in place.\<close>

definition OnUpdate ::
    "('r service_config list \<Rightarrow> go_error \<times> 'r service_config list) \<Rightarrow> 'r world \<Rightarrow> go_error \<times> 'r world" where
  "OnUpdate f w = (case f (w_cfgs w) of (e, cs) \<Rightarrow> (e, w\<lparr>w_cfgs := cs\<rparr>))"

definition edit :: "('c \<Rightarrow> 'c) \<Rightarrow> 'c \<Rightarrow> go_error \<times> 'c" where
  "edit f c = (nil_error, f c)"

section \<open>Building a service\<close>

record parse_outcome =
  po_listener_tls :: go_error
  po_netns :: go_error
  po_listener_init :: go_error
  po_handler_tls :: go_error
  po_forwarder :: go_error
  po_handler_init :: go_error

record env =
  env_listeners :: "string \<Rightarrow> bool"
  env_handlers :: "string \<Rightarrow> bool"
  env_isForwarder :: "string \<Rightarrow> bool"
  env_outcome :: "nat \<Rightarrow> parse_outcome"

definition default_type :: "string \<Rightarrow> string option \<Rightarrow> string" where
  "default_type d t =
     (case t of None \<Rightarrow> d | Some s \<Rightarrow> if TrimSpace s = [] then d else s)"

definition fill_defaults :: "'r service_config \<Rightarrow> 'r service_config" where
  "fill_defaults c =
     c\<lparr>sc_listener := Some (default_type ''tcp'' (sc_listener c)),
       sc_handler := Some (default_type ''auto'' (sc_handler c))\<rparr>"

text \<open>
  A second copy of the same \<open>ServiceConfig\<close> struct shares the \<open>ListenerConfig\<close> and the
  \<open>HandlerConfig\<close> its pointers name: what \<open>ParseService\<close> writes through them is seen there, a
  nil pointer it replaces is not.
\<close>

definition shared_defaults :: "'r service_config \<Rightarrow> 'r service_config" where
  "shared_defaults c =
     c\<lparr>sc_listener := map_option (\<lambda>t. default_type ''tcp'' (Some t)) (sc_listener c),
       sc_handler := map_option (\<lambda>t. default_type ''auto'' (Some t)) (sc_handler c)\<rparr>"

definition bindListener :: "nat \<Rightarrow> 'r world \<Rightarrow> 'r world" where
  "bindListener i w = w\<lparr>w_open := w_open w @ [i]\<rparr>"

definition NewService :: "nat \<Rightarrow> 'r world \<Rightarrow> 'r world" where
  "NewService i w = w\<lparr>w_trace := w_trace w @ [EvNew i]\<rparr>"

text \<open>The configuration is filled in place before anything can fail, so it is returned too.\<close>

definition ParseService ::
    "env \<Rightarrow> 'r service_config \<Rightarrow> 'r world \<Rightarrow> (string + nat) \<times> 'r service_config \<times> 'r world" where
  "ParseService E c w =
     (let i = w_calls w;
          w0 = w\<lparr>w_calls := Suc i\<rparr>;
          cfg = fill_defaults c;
          out = env_outcome E i;
          ltype = the (sc_listener cfg);
          htype = the (sc_handler cfg);
          netnsIn = GetString (NewMetadata (sc_meta cfg)) [''netns'']
      in case po_listener_tls out of Some e \<Rightarrow> (Inl e, cfg, w0) | None \<Rightarrow>
         (case (if netnsIn \<noteq> [] then po_netns out else nil_error) of
            Some e \<Rightarrow> (Inl e, cfg, w0)
          | None \<Rightarrow>
         (if \<not> env_listeners E ltype then (Inl (''unknown listener: '' @ ltype), cfg, w0) else
         (case po_listener_init out of Some e \<Rightarrow> (Inl e, cfg, w0) | None \<Rightarrow>
         (let w1 = bindListener i w0 in
         (case po_handler_tls out of Some e \<Rightarrow> (Inl e, cfg, w1) | None \<Rightarrow>
         (if \<not> env_handlers E htype then (Inl (''unknown handler: '' @ htype), cfg, w1) else
         (case (if env_isForwarder E htype then po_forwarder out else nil_error) of
            Some e \<Rightarrow> (Inl e, cfg, w1)
          | None \<Rightarrow>
         (case po_handler_init out of Some e \<Rightarrow> (Inl e, cfg, w1) | None \<Rightarrow>
            (Inr i, cfg, NewService i w1))))))))))"

section \<open>How the effects read back\<close>

lemma svcClose_fields [world_simps, simp]:
  "w_reg (svcClose i w) = w_reg w" "w_cfgs (svcClose i w) = w_cfgs w"
  "w_calls (svcClose i w) = w_calls w" "w_open (svcClose i w) = removeAll i (w_open w)"
  "w_trace (svcClose i w) = w_trace w @ [EvClose i]"
  by (simp_all add: svcClose_def)

lemma svcServe_fields [world_simps, simp]:
  "w_reg (svcServe i w) = w_reg w" "w_cfgs (svcServe i w) = w_cfgs w"
  "w_calls (svcServe i w) = w_calls w" "w_open (svcServe i w) = w_open w"
  "w_trace (svcServe i w) = w_trace w @ [EvServe i]"
  by (simp_all add: svcServe_def)

lemma regUnregister_fields [world_simps, simp]:
  "w_reg (regUnregister name w) = (w_reg w)(name := None)"
  "w_cfgs (regUnregister name w) = w_cfgs w"
  "w_calls (regUnregister name w) = w_calls w"
  "w_open (regUnregister name w) =
     (case w_reg w name of None \<Rightarrow> w_open w | Some i \<Rightarrow> removeAll i (w_open w))"
  "w_trace (regUnregister name w) =
     (case w_reg w name of None \<Rightarrow> w_trace w | Some i \<Rightarrow> w_trace w @ [EvClose i])"
  by (auto simp: regUnregister_def Unregister_def split: option.splits)

lemma regRegister_new [world_simps]:
  "name \<noteq> [] \<Longrightarrow> w_reg w name = None \<Longrightarrow>
   regRegister name i w = (nil_error, w\<lparr>w_reg := (w_reg w)(name \<mapsto> i)\<rparr>)"
  by (simp add: regRegister_def Register_new)

lemma regRegister_taken [world_simps]:
  "name \<noteq> [] \<Longrightarrow> w_reg w name = Some j \<Longrightarrow> regRegister name i w = (Some ErrDup, w)"
  by (simp add: regRegister_def Register_taken)

lemma OnUpdate_edit [world_simps, simp]:
  "OnUpdate (edit f) w = (nil_error, w\<lparr>w_cfgs := f (w_cfgs w)\<rparr>)"
  by (simp add: OnUpdate_def edit_def)

lemma fill_defaults_name [simp]: "sc_name (fill_defaults c) = sc_name c"
  and fill_defaults_meta [simp]: "sc_meta (fill_defaults c) = sc_meta c"
  and fill_defaults_addr [simp]: "sc_addr (fill_defaults c) = sc_addr c"
  by (simp_all add: fill_defaults_def)

lemma shared_defaults_name [simp]: "sc_name (shared_defaults c) = sc_name c"
  and shared_defaults_meta [simp]: "sc_meta (shared_defaults c) = sc_meta c"
  by (simp_all add: shared_defaults_def)

lemma default_type_idem [simp]:
  "TrimSpace d \<noteq> [] \<Longrightarrow> default_type d (Some (default_type d t)) = default_type d t"
  by (auto simp: default_type_def split: option.splits)

lemma fill_defaults_idem [simp]: "fill_defaults (fill_defaults c) = fill_defaults c"
proof -
  have "TrimSpace ''tcp'' \<noteq> []" "TrimSpace ''auto'' \<noteq> []"
    by (simp_all add: TrimSpace_def TrimLeft_def isSpace_def)
  then show ?thesis by (simp add: fill_defaults_def)
qed

text \<open>
  \<open>ParseService\<close> never touches the registry or the configuration list; it counts itself, and the
  only listener it may leave bound is its own.
\<close>

lemma ParseService_frame:
  assumes "ParseService E c w = (r, c', w')"
  shows "w_reg w' = w_reg w" "w_cfgs w' = w_cfgs w" "w_calls w' = Suc (w_calls w)"
    and "c' = fill_defaults c"
    and "w_open w' = w_open w \<or> w_open w' = w_open w @ [w_calls w]"
  using assms
  by (auto simp: ParseService_def Let_def bindListener_def NewService_def
      split: option.splits if_splits)

lemma ParseService_ok:
  assumes "ParseService E c w = (Inr i, c', w')"
  shows "i = w_calls w" "w_open w' = w_open w @ [i]" "w_trace w' = w_trace w @ [EvNew i]"
  using assms
  by (auto simp: ParseService_def Let_def bindListener_def NewService_def
      split: option.splits if_splits)

lemma ParseService_err:
  assumes "ParseService E c w = (Inl e, c', w')"
  shows "w_trace w' = w_trace w"
  using assms
  by (auto simp: ParseService_def Let_def bindListener_def NewService_def
      split: option.splits if_splits)

section \<open>A concrete environment and configuration\<close>

text \<open>An environment in which nothing fails, used to evaluate the commands on concrete requests.\<close>

definition ok_outcome :: parse_outcome where
  "ok_outcome = \<lparr>po_listener_tls = None, po_netns = None, po_listener_init = None,
     po_handler_tls = None, po_forwarder = None, po_handler_init = None\<rparr>"

definition sample_env :: env where
  "sample_env = \<lparr>env_listeners = (\<lambda>t. t = ''tcp''), env_handlers = (\<lambda>t. t = ''auto''),
     env_isForwarder = (\<lambda>t. False), env_outcome = (\<lambda>_. ok_outcome)\<rparr>"

text \<open>The same, where every handler fails to initialise.\<close>

definition failing_env :: env where
  "failing_env = sample_env\<lparr>env_outcome := (\<lambda>_. ok_outcome\<lparr>po_handler_init := Some ''init''\<rparr>)\<rparr>"

definition sample_cfg :: "string \<Rightarrow> unit service_config" where
  "sample_cfg n = \<lparr>sc_name = n, sc_addr = '':80'', sc_listener = None, sc_handler = None,
     sc_meta = None, sc_rest = ()\<rparr>"

definition empty_world :: "unit world" where
  "empty_world = \<lparr>w_reg = Map.empty, w_cfgs = [], w_calls = 0, w_open = [], w_trace = []\<rparr>"

text \<open>One running service \<open>a\<close>, instance 0.\<close>

definition one_world :: "unit world" where
  "one_world = \<lparr>w_reg = [''a'' \<mapsto> 0], w_cfgs = [fill_defaults (sample_cfg ''a'')], w_calls = 1,
     w_open = [0], w_trace = [EvNew 0, EvServe 0]\<rparr>"

end
