(* ===== verification/SocketServices.thy ===== *)
theory SocketServices
  imports ServiceWorld
begin

text \<open>
  The service commands of the agent, \<open>x/socket/service.go\<close>: creating, updating, deleting,
  pausing and resuming batches of services against the service registry and the global
  configuration. Each command validates its whole request before it acts; the phases of a
  command are the functions below, composed as the code composes them.
\<close>

named_theorems cmd_defs \<open>the bodies of the commands\<close>

section \<open>Finding and editing a service's configuration\<close>

text \<open>The loops \<open>for i := range c.Services { if c.Services[i].Name == name { ..; break } }\<close>.\<close>

fun update_first ::
    "string \<Rightarrow> ('r service_config \<Rightarrow> 'r service_config) \<Rightarrow> 'r service_config list \<Rightarrow> 'r service_config list" where
  "update_first name f [] = []"
| "update_first name f (c # cs) =
     (if sc_name c = name then f c # cs else c # update_first name f cs)"

fun find_cfg :: "string \<Rightarrow> 'r service_config list \<Rightarrow> nat option" where
  "find_cfg name [] = None"
| "find_cfg name (c # cs) =
     (if sc_name c = name then Some 0 else map_option Suc (find_cfg name cs))"

text \<open>The map \<open>serviceConfigs\<close> of \<open>pauseServices\<close>: a later entry of the same name wins.\<close>

fun find_last_cfg :: "string \<Rightarrow> 'r service_config list \<Rightarrow> nat option" where
  "find_last_cfg name [] = None"
| "find_last_cfg name (c # cs) =
     (case find_last_cfg name cs of
        Some i \<Rightarrow> Some (Suc i)
      | None \<Rightarrow> if sc_name c = name then Some 0 else None)"

definition set_paused :: "'r service_config \<Rightarrow> 'r service_config" where
  "set_paused c =
     c\<lparr>sc_meta := Some (AList.update ''paused'' (VBool True)
                        (case sc_meta c of None \<Rightarrow> [] | Some m \<Rightarrow> m))\<rparr>"

definition clear_paused :: "'r service_config \<Rightarrow> 'r service_config" where
  "clear_paused c =
     (case sc_meta c of
        None \<Rightarrow> c
      | Some m \<Rightarrow>
          (let m' = AList.delete ''paused'' m
           in c\<lparr>sc_meta := (if m' = [] then None else Some m')\<rparr>))"

definition is_paused :: "'r service_config \<Rightarrow> bool" where
  "is_paused c =
     (case sc_meta c of None \<Rightarrow> False | Some m \<Rightarrow> map_of m ''paused'' = Some (VBool True))"

fun update_each ::
    "string list \<Rightarrow> ('r service_config \<Rightarrow> 'r service_config) \<Rightarrow> 'r service_config list \<Rightarrow> 'r service_config list" where
  "update_each [] f cs = cs"
| "update_each (n # ns) f cs = update_each ns f (update_first n f cs)"

section \<open>createServices\<close>

fun create_validate ::
    "env \<Rightarrow> 'r service_config list \<Rightarrow> 'r world \<Rightarrow>
       (string + ('r service_config \<times> nat) list) \<times> 'r world" where
  "create_validate E [] w = (Inr [], w)"
| "create_validate E (c # cs) w =
     (let name = TrimSpace (sc_name c) in
      if name = [] then (Inl ''service name is required'', w)
      else if IsRegistered name (w_reg w) then (Inl (''service '' @ name @ '' already exists''), w)
      else (case ParseService E (c\<lparr>sc_name := name\<rparr>) w of
          (Inl e, c', w1) \<Rightarrow> (Inl (''create service '' @ name @ '' failed: '' @ e), w1)
        | (Inr i, c', w1) \<Rightarrow>
            (case create_validate E cs w1 of
               (Inl e, w2) \<Rightarrow> (Inl e, w2)
             | (Inr ps, w2) \<Rightarrow> (Inr ((c', i) # ps), w2))))"

fun create_rollback :: "string list \<Rightarrow> 'r world \<Rightarrow> 'r world" where
  "create_rollback [] w = w"
| "create_rollback (n # ns) w =
     (case Get n (w_reg w) of
        None \<Rightarrow> create_rollback ns w
      | Some i \<Rightarrow> create_rollback ns (svcClose i (regUnregister n w)))"

fun create_register ::
    "('r service_config \<times> nat) list \<Rightarrow> string list \<Rightarrow> 'r world \<Rightarrow> go_error \<times> 'r world" where
  "create_register [] registered w = (nil_error, w)"
| "create_register ((c, i) # ps) registered w =
     (case regRegister (sc_name c) i w of
        (Some _, w1) \<Rightarrow>
          (Some (''service '' @ sc_name c @ '' already exists''), create_rollback registered w1)
      | (None, w1) \<Rightarrow> create_register ps (registered @ [sc_name c]) w1)"

fun create_serve :: "('r service_config \<times> nat) list \<Rightarrow> 'r world \<Rightarrow> 'r world" where
  "create_serve [] w = w"
| "create_serve ((c, i) # ps) w =
     create_serve ps (case Get (sc_name c) (w_reg w) of None \<Rightarrow> w | Some j \<Rightarrow> svcServe j w)"

definition createServices ::
    "env \<Rightarrow> 'r service_config list \<Rightarrow> 'r world \<Rightarrow> go_error \<times> 'r world" where
  "createServices E req w =
     (if req = [] then (Some ''services list cannot be empty'', w)
      else case create_validate E req w of
        (Inl e, w1) \<Rightarrow> (Some e, w1)
      | (Inr ps, w1) \<Rightarrow>
          (case create_register ps [] w1 of
             (Some e, w2) \<Rightarrow> (Some e, w2)
           | (None, w2) \<Rightarrow>
               (let w3 = create_serve ps w2;
                    w4 = snd (OnUpdate (edit (\<lambda>cs. cs @ map fst ps)) w3)
                in (nil_error, w4))))"

section \<open>updateServices\<close>

fun update_validate :: "'r service_config list \<Rightarrow> 'r world \<Rightarrow> go_error" where
  "update_validate [] w = nil_error"
| "update_validate (c # cs) w =
     (let name = TrimSpace (sc_name c) in
      if name = [] then Some ''service name is required''
      else case Get name (w_reg w) of
        None \<Rightarrow> Some (''service '' @ name @ '' not found'')
      | Some _ \<Rightarrow> update_validate cs w)"

text \<open>
  \<open>old.Close()\<close> on an instance the previous round replaced is a call on the new instance: \<open>Get\<close>
  is asked again in every round.
\<close>

fun update_loop :: "env \<Rightarrow> 'r service_config list \<Rightarrow> 'r world \<Rightarrow> go_error \<times> 'r world" where
  "update_loop E [] w = (nil_error, w)"
| "update_loop E (c # cs) w =
     (let name = TrimSpace (sc_name c);
          w1 = (case Get name (w_reg w) of None \<Rightarrow> w | Some old \<Rightarrow> svcClose old w);
          w2 = regUnregister name w1
      in case ParseService E (c\<lparr>sc_name := name\<rparr>) w2 of
           (Inl e, _, w3) \<Rightarrow> (Some (''create service '' @ name @ '' failed: '' @ e), w3)
         | (Inr i, _, w3) \<Rightarrow>
             (case regRegister name i w3 of
                (Some _, w4) \<Rightarrow>
                  (Some (''service '' @ name @ '' already exists''), svcClose i w4)
              | (None, w4) \<Rightarrow> update_loop E cs (svcServe i w4)))"

text \<open>
  The last phase compares with the name as it was sent: the trimmed name was written to the
  loop's own copy only.
\<close>

fun update_configs ::
    "'r service_config list \<Rightarrow> 'r service_config list \<Rightarrow> 'r service_config list" where
  "update_configs [] cs = cs"
| "update_configs (c # req) cs =
     update_configs req (update_first (sc_name c) (\<lambda>_. shared_defaults c) cs)"

definition updateServices ::
    "env \<Rightarrow> 'r service_config list \<Rightarrow> 'r world \<Rightarrow> go_error \<times> 'r world" where
  "updateServices E req w =
     (if req = [] then (Some ''services list cannot be empty'', w)
      else case update_validate req w of
        Some e \<Rightarrow> (Some e, w)
      | None \<Rightarrow>
          (case update_loop E req w of
             (Some e, w1) \<Rightarrow> (Some e, w1)
           | (None, w1) \<Rightarrow> (nil_error, snd (OnUpdate (edit (update_configs req)) w1))))"

section \<open>deleteServices\<close>

fun lookup_services :: "string list \<Rightarrow> 'r world \<Rightarrow> string + (string \<times> nat) list" where
  "lookup_services [] w = Inr []"
| "lookup_services (n # ns) w =
     (let name = TrimSpace n in
      if name = [] then Inl ''service name is required''
      else case Get name (w_reg w) of
        None \<Rightarrow> Inl (''service '' @ name @ '' not found'')
      | Some i \<Rightarrow>
          (case lookup_services ns w of Inl e \<Rightarrow> Inl e | Inr xs \<Rightarrow> Inr ((name, i) # xs)))"

fun delete_loop :: "(string \<times> nat) list \<Rightarrow> 'r world \<Rightarrow> 'r world" where
  "delete_loop [] w = w"
| "delete_loop ((name, i) # xs) w = delete_loop xs (svcClose i (regUnregister name w))"

definition drop_configs :: "string list \<Rightarrow> 'r service_config list \<Rightarrow> 'r service_config list" where
  "drop_configs names cs = filter (\<lambda>c. sc_name c \<notin> set names) cs"

definition deleteServices :: "string list \<Rightarrow> 'r world \<Rightarrow> go_error \<times> 'r world" where
  "deleteServices names w =
     (if names = [] then (Some ''services list cannot be empty'', w)
      else case lookup_services names w of
        Inl e \<Rightarrow> (Some e, w)
      | Inr xs \<Rightarrow>
          (nil_error, snd (OnUpdate (edit (drop_configs (map fst xs))) (delete_loop xs w))))"

section \<open>pauseServices\<close>

text \<open>A service a command has acted on: its name, its instance and the index of its configuration.\<close>

type_synonym acted = "string \<times> nat \<times> nat"

fun rollbackPausedServices :: "env \<Rightarrow> acted list \<Rightarrow> 'r world \<Rightarrow> 'r world" where
  "rollbackPausedServices E [] w = w"
| "rollbackPausedServices E ((name, i, k) # ps) w =
     (case ParseService E (w_cfgs w ! k) w of (r, c', w1) \<Rightarrow>
        (let w2 = w1\<lparr>w_cfgs := (w_cfgs w1)[k := c']\<rparr> in
         case r of
           Inl _ \<Rightarrow> rollbackPausedServices E ps w2
         | Inr j \<Rightarrow>
             (case regRegister name j w2 of
                (Some _, w3) \<Rightarrow> rollbackPausedServices E ps (svcClose j w3)
              | (None, w3) \<Rightarrow>
                  rollbackPausedServices E ps
                    (snd (OnUpdate (edit (update_first name clear_paused)) (svcServe j w3))))))"

definition forceClose :: "string \<Rightarrow> 'r world \<Rightarrow> 'r world" where
  "forceClose addr w = (if addr = [] then w else w\<lparr>w_trace := w_trace w @ [EvKill addr]\<rparr>)"

fun pause_loop ::
    "env \<Rightarrow> 'r service_config list \<Rightarrow> (string \<times> nat) list \<Rightarrow> acted list \<Rightarrow> 'r world \<Rightarrow>
       (string + acted list) \<times> 'r world" where
  "pause_loop E cfg [] paused w = (Inr paused, w)"
| "pause_loop E cfg ((name, i) # xs) paused w =
     (case find_last_cfg name cfg of
        None \<Rightarrow> (Inl (''service '' @ name @ '' configuration not found''),
                 rollbackPausedServices E paused w)
      | Some k \<Rightarrow>
          pause_loop E cfg xs (paused @ [(name, i, k)])
            (forceClose (sc_addr (cfg ! k)) (svcClose i w)))"

definition pauseServices :: "env \<Rightarrow> string list \<Rightarrow> 'r world \<Rightarrow> go_error \<times> 'r world" where
  "pauseServices E names w =
     (if names = [] then (Some ''services list cannot be empty'', w)
      else case lookup_services names w of
        Inl e \<Rightarrow> (Some e, w)
      | Inr xs \<Rightarrow>
          (case pause_loop E (w_cfgs w) xs [] w of
             (Inl e, w1) \<Rightarrow> (Some e, w1)
           | (Inr paused, w1) \<Rightarrow>
               (case OnUpdate (edit (update_each (map fst xs) set_paused)) w1 of
                  (Some e, w2) \<Rightarrow>
                    (Some (''Failed to update config, rolling back paused services: '' @ e),
                     rollbackPausedServices E paused w2)
                | (None, w2) \<Rightarrow> (nil_error, w2))))"

section \<open>resumeServices\<close>

fun resume_validate ::
    "'r service_config list \<Rightarrow> string list \<Rightarrow> 'r world \<Rightarrow> string + acted list" where
  "resume_validate cfg [] w = Inr []"
| "resume_validate cfg (n # ns) w =
     (let name = TrimSpace n in
      if name = [] then Inl ''service name is required''
      else case Get name (w_reg w) of
        None \<Rightarrow> Inl (''service '' @ name @ '' not found'')
      | Some i \<Rightarrow>
          (case find_cfg name cfg of
             None \<Rightarrow> Inl (''service '' @ name @ '' configuration not found'')
           | Some k \<Rightarrow>
               (case resume_validate cfg ns w of
                  Inl e \<Rightarrow> Inl e
                | Inr xs \<Rightarrow> Inr (if is_paused (cfg ! k) then (name, i, k) # xs else xs))))"

fun rollbackResumedServices :: "acted list \<Rightarrow> 'r world \<Rightarrow> 'r world" where
  "rollbackResumedServices [] w = w"
| "rollbackResumedServices ((name, i, k) # xs) w =
     (let w1 = (case Get name (w_reg w) of None \<Rightarrow> w | Some j \<Rightarrow> svcClose j w)
      in rollbackResumedServices xs (snd (OnUpdate (edit (update_first name set_paused)) w1)))"

fun resume_loop ::
    "env \<Rightarrow> acted list \<Rightarrow> acted list \<Rightarrow> 'r world \<Rightarrow> (string + acted list) \<times> 'r world" where
  "resume_loop E [] resumed w = (Inr resumed, w)"
| "resume_loop E ((name, i, k) # xs) resumed w =
     (let w1 = regUnregister name (svcClose i w) in
      case ParseService E (w_cfgs w1 ! k) w1 of (r, c', w2) \<Rightarrow>
        (let w3 = w2\<lparr>w_cfgs := (w_cfgs w2)[k := c']\<rparr> in
         case r of
           Inl e \<Rightarrow> (Inl (''resume service '' @ name @ '' failed: '' @ e),
                     rollbackResumedServices resumed w3)
         | Inr j \<Rightarrow>
             (case regRegister name j w3 of
                (Some _, w4) \<Rightarrow>
                  (Inl (''service '' @ name @ '' already exists''),
                   rollbackResumedServices resumed (svcClose j w4))
              | (None, w4) \<Rightarrow>
                  resume_loop E xs (resumed @ [(name, i, k)]) (svcServe j w4))))"

definition resumeServices :: "env \<Rightarrow> string list \<Rightarrow> 'r world \<Rightarrow> go_error \<times> 'r world" where
  "resumeServices E names w =
     (if names = [] then (Some ''services list cannot be empty'', w)
      else case resume_validate (w_cfgs w) names w of
        Inl e \<Rightarrow> (Some e, w)
      | Inr xs \<Rightarrow>
          (case resume_loop E xs [] w of
             (Inl e, w1) \<Rightarrow> (Some e, w1)
           | (Inr resumed, w1) \<Rightarrow>
               (case OnUpdate (edit (update_each (map fst xs) clear_paused)) w1 of
                  (Some e, w2) \<Rightarrow>
                    (Some (''Failed to update config, rolling back resumed services: '' @ e),
                     rollbackResumedServices resumed w2)
                | (None, w2) \<Rightarrow> (nil_error, w2))))"

end
