(* ===== verification/SocketCreate.thy ===== *)
theory SocketCreate
  imports SocketServices
begin

text \<open>
  What \<open>createServices\<close> and \<open>deleteServices\<close> guarantee: a failed creation leaves registry and
  configuration untouched, a successful one adds exactly the requested services, a deletion
  removes exactly the named ones. The listeners a failed creation leaves behind are shown too.
\<close>

section \<open>Observations on the trace\<close>

text \<open>The instances whose \<open>Serve\<close> has been launched, and the instances closed, in order.\<close>

fun serve_of :: "svc_event \<Rightarrow> nat list" where
  "serve_of (EvServe i) = [i]"
| "serve_of _ = []"

fun close_of :: "svc_event \<Rightarrow> nat list" where
  "close_of (EvClose i) = [i]"
| "close_of _ = []"

definition served :: "'r world \<Rightarrow> nat list" where
  "served w = concat (map serve_of (w_trace w))"

definition closed :: "'r world \<Rightarrow> nat list" where
  "closed w = concat (map close_of (w_trace w))"

lemma served_prims [world_simps, simp]:
  "served (svcClose i w) = served w" "served (svcServe i w) = served w @ [i]"
  "served (regUnregister n w) = served w" "served (w\<lparr>w_reg := m\<rparr>) = served w"
  "served (w\<lparr>w_cfgs := cs\<rparr>) = served w"
  by (auto simp: served_def split: option.splits)

lemma closed_prims [world_simps, simp]:
  "closed (svcClose i w) = closed w @ [i]" "closed (svcServe i w) = closed w"
  "closed (regUnregister n w) = closed w @ (case w_reg w n of None \<Rightarrow> [] | Some i \<Rightarrow> [i])"
  "closed (w\<lparr>w_reg := m\<rparr>) = closed w" "closed (w\<lparr>w_cfgs := cs\<rparr>) = closed w"
  by (auto simp: closed_def split: option.splits)

lemma served_ParseService [simp]: "ParseService E c w = (r, c', w') \<Longrightarrow> served w' = served w"
  by (cases r) (auto simp: served_def dest: ParseService_ok(3) ParseService_err)

lemma closed_ParseService [simp]: "ParseService E c w = (r, c', w') \<Longrightarrow> closed w' = closed w"
  by (cases r) (auto simp: closed_def dest: ParseService_ok(3) ParseService_err)

section \<open>Creation\<close>

text \<open>The configuration a created service is recorded with.\<close>

definition accepted :: "'r service_config \<Rightarrow> 'r service_config" where
  "accepted c = fill_defaults (c\<lparr>sc_name := TrimSpace (sc_name c)\<rparr>)"

lemma accepted_name [simp]: "sc_name (accepted c) = TrimSpace (sc_name c)"
  by (simp add: accepted_def)

lemma accepted_names [simp]: "sc_name \<circ> accepted = TrimSpace \<circ> sc_name"
  by (simp add: fun_eq_iff)

lemma create_validate_frame:
  "create_validate E cs w = (r, w1) \<Longrightarrow>
     w_reg w1 = w_reg w \<and> w_cfgs w1 = w_cfgs w \<and> served w1 = served w \<and> closed w1 = closed w"
proof (induction cs arbitrary: w r w1)
  case (Cons c cs)
  then show ?case
    by (auto simp: Let_def split: if_splits prod.splits sum.splits
        dest: ParseService_frame(1,2) served_ParseService closed_ParseService)
qed simp

lemma create_validate_ok:
  "create_validate E cs w = (Inr ps, w1) \<Longrightarrow>
     map fst ps = map accepted cs \<and>
     map snd ps = [w_calls w ..< w_calls w + length cs] \<and>
     w_calls w1 = w_calls w + length cs \<and>
     w_open w1 = w_open w @ map snd ps \<and>
     (\<forall>p \<in> set ps. sc_name (fst p) \<noteq> [] \<and> w_reg w (sc_name (fst p)) = None)"
proof (induction cs arbitrary: w ps w1)
  case (Cons c cs)
  let ?n = "TrimSpace (sc_name c)"
  from Cons.prems obtain i c' w' qs where
    n: "?n \<noteq> []" "w_reg w ?n = None"
    and p: "ParseService E (c\<lparr>sc_name := ?n\<rparr>) w = (Inr i, c', w')"
    and v: "create_validate E cs w' = (Inr qs, w1)" and ps: "ps = (c', i) # qs"
    by (auto simp: Let_def IsRegistered_def split: if_splits prod.splits sum.splits)
  note f = ParseService_frame [OF p] and o = ParseService_ok [OF p]
  have up: "[w_calls w ..< w_calls w + length (c # cs)] =
      w_calls w # [Suc (w_calls w) ..< Suc (w_calls w) + length cs]"
    using upt_conv_Cons [of "w_calls w" "w_calls w + length (c # cs)"] by simp
  show ?case
    unfolding up using Cons.IH [OF v] f o n ps by (auto simp: accepted_def)
qed simp

lemma create_rollback_eq:
  "[] \<notin> set ns \<Longrightarrow>
     w_reg (create_rollback ns w) = (\<lambda>n. if n \<in> set ns then None else w_reg w n) \<and>
     w_cfgs (create_rollback ns w) = w_cfgs w \<and> served (create_rollback ns w) = served w"
  by (induction ns arbitrary: w) (auto simp: Get_def fun_eq_iff split: option.splits)

lemma create_register_fail:
  assumes "create_register ps rs w = (Some e, w')"
    and "[] \<notin> set rs" "\<forall>n \<in> set rs. base n = None"
    and "\<forall>n. n \<notin> set rs \<longrightarrow> w_reg w n = base n"
    and "\<forall>p \<in> set ps. sc_name (fst p) \<noteq> [] \<and> base (sc_name (fst p)) = None"
  shows "w_reg w' = base \<and> w_cfgs w' = w_cfgs w \<and> served w' = served w"
  using assms
proof (induction ps arbitrary: rs w)
  case (Cons p ps)
  obtain c i where p: "p = (c, i)" by (cases p)
  let ?n = "sc_name c"
  from Cons.prems(5) have n: "?n \<noteq> []" "base ?n = None" by (auto simp: p)
  show ?case
  proof (cases "w_reg w ?n")
    case None
    let ?w1 = "w\<lparr>w_reg := (w_reg w)(?n \<mapsto> i)\<rparr>"
    from Cons.prems(1) have "create_register ps (rs @ [?n]) ?w1 = (Some e, w')"
      using None n by (simp add: p regRegister_new)
    then have "w_reg w' = base \<and> w_cfgs w' = w_cfgs ?w1 \<and> served w' = served ?w1"
      by (rule Cons.IH) (use Cons.prems n in auto)
    then show ?thesis by simp
  next
    case (Some j)
    with Cons.prems(1) n have "w' = create_rollback rs w" by (auto simp: p regRegister_taken)
    then show ?thesis
      using create_rollback_eq [OF Cons.prems(2), of w] Cons.prems(3,4) by (auto simp: fun_eq_iff)
  qed
qed simp

text \<open>The name and the instance of a parsed service, as the registry stores them.\<close>

definition entries :: "('r service_config \<times> nat) list \<Rightarrow> (string \<times> nat) list" where
  "entries ps = map (\<lambda>p. (sc_name (fst p), snd p)) ps"

lemma entries_simps [simp]:
  "entries [] = []" "entries ((c, i) # ps) = (sc_name c, i) # entries ps"
  by (simp_all add: entries_def)

lemma entries_keys:
  "map fst (entries ps) = map sc_name (map fst ps)" "map snd (entries ps) = map snd ps"
  by (simp_all add: entries_def)

lemma create_register_ok:
  assumes "create_register ps rs w = (None, w')" "\<forall>p \<in> set ps. sc_name (fst p) \<noteq> []"
  shows "w' = w\<lparr>w_reg := w_reg w ++ map_of (entries ps)\<rparr> \<and>
     distinct (map fst (entries ps)) \<and> (\<forall>n \<in> set (map fst (entries ps)). w_reg w n = None)"
  using assms
proof (induction ps arbitrary: rs w)
  case (Cons p ps)
  obtain c i where p: "p = (c, i)" by (cases p)
  let ?n = "sc_name c" and ?w1 = "w\<lparr>w_reg := (w_reg w)(sc_name c \<mapsto> i)\<rparr>"
  from Cons.prems(2) have n: "?n \<noteq> []" by (simp add: p)
  have free: "w_reg w ?n = None"
    using Cons.prems(1) n by (cases "w_reg w ?n") (auto simp: p regRegister_taken)
  with n Cons.prems(1) have "create_register ps (rs @ [?n]) ?w1 = (None, w')"
    by (simp add: p regRegister_new)
  then have IH: "w' = ?w1\<lparr>w_reg := w_reg ?w1 ++ map_of (entries ps)\<rparr> \<and>
     distinct (map fst (entries ps)) \<and> (\<forall>k \<in> set (map fst (entries ps)). w_reg ?w1 k = None)"
    by (rule Cons.IH) (use Cons.prems in auto)
  then have new: "?n \<notin> fst ` set (entries ps)" by force
  then have "(w_reg w)(?n \<mapsto> i) ++ map_of (entries ps) = w_reg w ++ map_of (entries (p # ps))"
    by (simp add: p map_add_upd_left dom_map_of_conv_image_fst)
  with IH have "w' = w\<lparr>w_reg := w_reg w ++ map_of (entries (p # ps))\<rparr>" by simp
  moreover have "distinct (map fst (entries (p # ps))) \<and>
      (\<forall>k \<in> set (map fst (entries (p # ps))). w_reg w k = None)"
    using IH new free by (auto simp: p split: if_splits)
  ultimately show ?case by blast
qed simp

lemma create_serve_eq:
  "\<forall>p \<in> set ps. sc_name (fst p) \<noteq> [] \<and> w_reg w (sc_name (fst p)) = Some (snd p) \<Longrightarrow>
     w_reg (create_serve ps w) = w_reg w \<and> w_cfgs (create_serve ps w) = w_cfgs w \<and>
     w_open (create_serve ps w) = w_open w \<and> w_calls (create_serve ps w) = w_calls w \<and>
     served (create_serve ps w) = served w @ map snd ps \<and>
     closed (create_serve ps w) = closed w"
  by (induction ps w rule: create_serve.induct) (auto simp: Get_def)

lemma createServices_atomic_fact:
  assumes "createServices E req w = (Some e, w')"
  shows "w_reg w' = w_reg w \<and> w_cfgs w' = w_cfgs w \<and> served w' = served w"
proof (cases "req = []")
  case True
  with assms show ?thesis by (simp add: createServices_def)
next
  case False
  obtain r w1 where v: "create_validate E req w = (r, w1)" by fastforce
  note f = create_validate_frame [OF v]
  show ?thesis
  proof (cases r)
    case (Inl e')
    with assms v f False show ?thesis by (simp add: createServices_def)
  next
    case (Inr ps)
    note o = create_validate_ok [OF v [unfolded Inr]]
    from assms v Inr False have "create_register ps [] w1 = (Some e, w')"
      by (auto simp: createServices_def Let_def split: prod.splits option.splits)
    then have "w_reg w' = w_reg w \<and> w_cfgs w' = w_cfgs w1 \<and> served w' = served w1"
      by (rule create_register_fail) (use f o in auto)
    with f show ?thesis by simp
  qed
qed

text \<open>
  (C17) A failed \<open>createServices\<close> is atomic: whatever the reason (an empty name, a name in use, a
  service that cannot be built, a name twice in the batch, where registered services are rolled
  back), the registry and the configuration are as before and no \<open>Serve\<close> has been launched.
\<close>

theorem createServices_atomic:
  assumes "createServices E req w = (Some e, w')"
  shows "w_reg w' = w_reg w \<and> w_cfgs w' = w_cfgs w \<and> served w' = served w"
  using assms by (rule createServices_atomic_fact)

lemma createServices_facts:
  assumes "createServices E req w = (None, w')"
  shows "w_reg w' = w_reg w ++ map_of (zip (map (TrimSpace \<circ> sc_name) req)
                                            [w_calls w ..< w_calls w + length req])"
    and "w_cfgs w' = w_cfgs w @ map accepted req"
    and "distinct (map (TrimSpace \<circ> sc_name) req)"
    and "\<forall>c \<in> set req. TrimSpace (sc_name c) \<noteq> [] \<and> w_reg w (TrimSpace (sc_name c)) = None"
    and "served w' = served w @ [w_calls w ..< w_calls w + length req]"
    and "w_open w' = w_open w @ [w_calls w ..< w_calls w + length req]"
proof -
  from assms obtain ps w1 w2 where
    v: "create_validate E req w = (Inr ps, w1)" and r: "create_register ps [] w1 = (None, w2)"
    and w': "w' = snd (OnUpdate (edit (\<lambda>cs. cs @ map fst ps)) (create_serve ps w2))"
    by (auto simp: createServices_def Let_def split: if_splits prod.splits sum.splits option.splits)
  note f = create_validate_frame [OF v] and o = create_validate_ok [OF v]
  have reg: "w2 = w1\<lparr>w_reg := w_reg w1 ++ map_of (entries ps)\<rparr>"
    "distinct (map fst (entries ps))" "\<forall>n \<in> set (map fst (entries ps)). w_reg w1 n = None"
    using create_register_ok [OF r] o by auto
  have names: "map fst (entries ps) = map (TrimSpace \<circ> sc_name) req"
    using o by (simp add: entries_keys(1) del: map_map) simp
  have ents: "entries ps = zip (map (TrimSpace \<circ> sc_name) req) [w_calls w ..< w_calls w + length req]"
    using names o zip_map_fst_snd [of "entries ps"] by (simp add: entries_keys(2))
  have "w_reg w2 (sc_name (fst p)) = Some (snd p)" if "p \<in> set ps" for p
  proof -
    have "(sc_name (fst p), snd p) \<in> set (entries ps)" using that by (auto simp: entries_def)
    then show ?thesis using reg by (simp add: map_of_is_SomeI)
  qed
  then have s: "\<forall>p \<in> set ps. sc_name (fst p) \<noteq> [] \<and> w_reg w2 (sc_name (fst p)) = Some (snd p)"
    using o by auto
  note sv = create_serve_eq [OF s]
  show "w_reg w' = w_reg w ++ map_of (zip (map (TrimSpace \<circ> sc_name) req)
                                           [w_calls w ..< w_calls w + length req])"
    using w' sv reg f ents by simp
  show "w_cfgs w' = w_cfgs w @ map accepted req" using w' sv reg f o by simp
  show "distinct (map (TrimSpace \<circ> sc_name) req)" using reg(2) names by simp
  show "\<forall>c \<in> set req. TrimSpace (sc_name c) \<noteq> [] \<and> w_reg w (TrimSpace (sc_name c)) = None"
  proof
    fix c assume "c \<in> set req"
    then have "TrimSpace (sc_name c) \<in> set (map fst (entries ps))" unfolding names by simp
    then obtain p where "p \<in> set ps" "sc_name (fst p) = TrimSpace (sc_name c)"
      by (auto simp: entries_def)
    with o show "TrimSpace (sc_name c) \<noteq> [] \<and> w_reg w (TrimSpace (sc_name c)) = None" by metis
  qed
  show "served w' = served w @ [w_calls w ..< w_calls w + length req]" using w' sv reg f o by simp
  show "w_open w' = w_open w @ [w_calls w ..< w_calls w + length req]" using w' sv reg f o by simp
qed

text \<open>
  A successful \<open>createServices\<close> does exactly what was asked: under each trimmed name a new
  instance is registered, bound and served, in the order of the request, the names are new and
  distinct, and the configuration grows by the accepted configurations.
\<close>

theorem createServices_ok:
  assumes "createServices E req w = (None, w')"
  shows "w_reg w' = w_reg w ++ map_of (zip (map (TrimSpace \<circ> sc_name) req)
                                            [w_calls w ..< w_calls w + length req]) \<and>
     w_cfgs w' = w_cfgs w @ map accepted req \<and>
     distinct (map (TrimSpace \<circ> sc_name) req) \<and>
     (\<forall>c \<in> set req. TrimSpace (sc_name c) \<noteq> [] \<and> w_reg w (TrimSpace (sc_name c)) = None) \<and>
     served w' = served w @ [w_calls w ..< w_calls w + length req] \<and>
     w_open w' = w_open w @ [w_calls w ..< w_calls w + length req]"
  using createServices_facts [OF assms] by blast

lemma createServices_ok_witness:
  "\<exists>w'. createServices sample_env [sample_cfg '' a'', sample_cfg ''b''] empty_world = (None, w') \<and>
        served w' = [0, 1] \<and> map sc_name (w_cfgs w') = [''a'', ''b'']"
proof -
  let ?r = "createServices sample_env [sample_cfg '' a'', sample_cfg ''b''] empty_world"
  have "fst ?r = None" by code_simp
  then obtain w' where r: "?r = (None, w')" by (cases ?r) auto
  moreover have "TrimSpace '' a'' = ''a''" "TrimSpace ''b'' = ''b''" by code_simp+
  ultimately show ?thesis
    using createServices_ok [OF r]
    by (simp add: empty_world_def served_def sample_cfg_def upt_rec)
qed

lemma createServices_atomic_witness:
  "\<exists>e w'. createServices sample_env [sample_cfg ''a'', sample_cfg ''a''] empty_world = (Some e, w') \<and>
          w_reg w' = Map.empty \<and> w_cfgs w' = []"
proof -
  let ?r = "createServices sample_env [sample_cfg ''a'', sample_cfg ''a''] empty_world"
  have "fst ?r = Some ''service a already exists''" by code_simp
  then obtain w' where r: "?r = (Some ''service a already exists'', w')" by (cases ?r) auto
  with createServices_atomic [OF r] show ?thesis by (simp add: empty_world_def)
qed

text \<open>
  Atomicity stops at the listeners. In a batch that names a service twice the second instance
  is built, its listener is bound, and when its registration fails nobody closes it: the command
  reports an error and a port stays taken.
\<close>

theorem createServices_leaks_listener:
  "fst (createServices sample_env [sample_cfg ''a'', sample_cfg ''a''] empty_world) \<noteq> None \<and>
   w_open (snd (createServices sample_env [sample_cfg ''a'', sample_cfg ''a''] empty_world)) = [1]"
  by code_simp

end
