(* ===== verification/SocketCommands.thy ===== *)
theory SocketCommands
  imports SocketCreate
begin

text \<open>
  What the deleting, updating, pausing and resuming commands guarantee, and the invariant that
  ties the registry to the configuration (\<open>in_sync\<close>): which commands keep it, in every run, and
  which one breaks it when it fails.
\<close>

section \<open>Editing the configuration list\<close>

lemma update_first_names:
  "(\<And>c. sc_name c = n \<Longrightarrow> sc_name (f c) = n) \<Longrightarrow>
   map sc_name (update_first n f cs) = map sc_name cs"
  by (induction cs) auto

lemma update_first_absent: "n \<notin> sc_name ` set cs \<Longrightarrow> update_first n f cs = cs"
  by (induction cs) auto

lemma set_paused_name [simp]: "sc_name (set_paused c) = sc_name c"
  by (simp add: set_paused_def)

lemma clear_paused_name [simp]: "sc_name (clear_paused c) = sc_name c"
  by (simp add: clear_paused_def Let_def split: option.splits)

lemma update_each_names:
  "(\<And>c. sc_name (f c) = sc_name c) \<Longrightarrow> map sc_name (update_each ns f cs) = map sc_name cs"
  by (induction ns arbitrary: cs) (simp_all add: update_first_names)

lemma update_configs_names: "map sc_name (update_configs req cs) = map sc_name cs"
proof (induction req arbitrary: cs)
  case (Cons c req)
  have "map sc_name (update_first (sc_name c) (\<lambda>_. shared_defaults c) cs) = map sc_name cs"
    by (rule update_first_names) simp
  with Cons.IH show ?case by simp
qed simp

lemma is_paused_set_paused [simp]: "is_paused (set_paused c)"
  by (simp add: is_paused_def set_paused_def update_conv)

lemma clear_set_paused:
  assumes "sc_meta c \<noteq> Some []" "\<And>m. sc_meta c = Some m \<Longrightarrow> ''paused'' \<notin> fst ` set m"
  shows "clear_paused (set_paused c) = c"
proof (cases "sc_meta c")
  case None
  then show ?thesis by (simp add: clear_paused_def set_paused_def)
next
  case (Some m)
  with assms have "AList.delete ''paused'' (AList.update ''paused'' (VBool True) m) = m"
    by (simp add: delete_update_same)
  with Some assms(1) show ?thesis by (simp add: clear_paused_def set_paused_def)
qed

section \<open>Looking services up\<close>

lemma lookup_services_ok:
  "lookup_services ns w = Inr xs \<Longrightarrow>
     map fst xs = map TrimSpace ns \<and> (\<forall>(n, i) \<in> set xs. n \<noteq> [] \<and> w_reg w n = Some i)"
proof (induction ns arbitrary: xs)
  case (Cons n ns)
  then show ?case
    by (fastforce simp: Let_def Get_def split: if_splits option.splits sum.splits)
qed simp

lemma lookup_services_keys:
  assumes "lookup_services ns w = Inr xs"
  shows "fst ` set xs = TrimSpace ` set ns"
  using arg_cong [OF conjunct1 [OF lookup_services_ok [OF assms]], of set] by simp

lemma lookup_services_instances:
  assumes "lookup_services ns w = Inr xs"
  shows "snd ` set xs = {i. \<exists>n \<in> set ns. w_reg w (TrimSpace n) = Some i}"
proof (intro set_eqI iffI)
  fix i assume "i \<in> snd ` set xs"
  then obtain n where n: "(n, i) \<in> set xs" by auto
  then have "n \<in> TrimSpace ` set ns"
    unfolding lookup_services_keys [OF assms, symmetric] by force
  moreover have "w_reg w n = Some i" using n lookup_services_ok [OF assms] by blast
  ultimately show "i \<in> {i. \<exists>n \<in> set ns. w_reg w (TrimSpace n) = Some i}" by auto
next
  fix i assume "i \<in> {i. \<exists>n \<in> set ns. w_reg w (TrimSpace n) = Some i}"
  then obtain n where n: "n \<in> set ns" "w_reg w (TrimSpace n) = Some i" by auto
  then have "TrimSpace n \<in> fst ` set xs" unfolding lookup_services_keys [OF assms] by simp
  then obtain j where j: "(TrimSpace n, j) \<in> set xs" by auto
  with lookup_services_ok [OF assms] have "w_reg w (TrimSpace n) = Some j" by blast
  with n j show "i \<in> snd ` set xs" by force
qed

section \<open>deleteServices\<close>

lemma delete_loop_eq:
  "w_reg (delete_loop xs w) = (\<lambda>n. if n \<in> fst ` set xs then None else w_reg w n) \<and>
   w_cfgs (delete_loop xs w) = w_cfgs w \<and> served (delete_loop xs w) = served w \<and>
   set (w_open (delete_loop xs w)) \<subseteq> set (w_open w) - snd ` set xs"
proof (induction xs arbitrary: w)
  case (Cons x xs)
  obtain n i where x: "x = (n, i)" by (cases x)
  show ?case
    using Cons.IH [of "svcClose i (regUnregister n w)"]
    by (auto simp: x fun_eq_iff split: option.splits)
qed simp

lemma deleteServices_fact:
  assumes "deleteServices names w = (None, w')"
  shows "(\<forall>n. w_reg w' n = (if n \<in> TrimSpace ` set names then None else w_reg w n)) \<and>
     w_cfgs w' = filter (\<lambda>c. sc_name c \<notin> TrimSpace ` set names) (w_cfgs w) \<and>
     (\<forall>n \<in> set names. \<forall>i. w_reg w (TrimSpace n) = Some i \<longrightarrow> i \<notin> set (w_open w')) \<and>
     served w' = served w"
proof -
  from assms obtain xs where l: "lookup_services names w = Inr xs"
    and w': "w' = snd (OnUpdate (edit (drop_configs (map fst xs))) (delete_loop xs w))"
    by (auto simp: deleteServices_def split: if_splits sum.splits)
  note d = delete_loop_eq [of xs w]
  note keys = lookup_services_keys [OF l]
  have inst: "i \<in> snd ` set xs" if "n \<in> set names" "w_reg w (TrimSpace n) = Some i" for n i
    using that unfolding lookup_services_instances [OF l] by blast
  have keys': "set (map fst xs) = TrimSpace ` set names" using keys by simp
  show ?thesis
    using d inst unfolding w' keys by (auto simp: drop_configs_def keys' simp del: set_map)
qed

text \<open>
  A successful \<open>deleteServices\<close> removes exactly the named services: from the registry and
  from the configuration, with their listeners closed, and nothing else is touched.
\<close>

theorem deleteServices_ok:
  assumes "deleteServices names w = (None, w')"
  shows "(\<forall>n. w_reg w' n = (if n \<in> TrimSpace ` set names then None else w_reg w n)) \<and>
     w_cfgs w' = filter (\<lambda>c. sc_name c \<notin> TrimSpace ` set names) (w_cfgs w) \<and>
     (\<forall>n \<in> set names. \<forall>i. w_reg w (TrimSpace n) = Some i \<longrightarrow> i \<notin> set (w_open w')) \<and>
     served w' = served w"
  using assms by (rule deleteServices_fact)

lemma deleteServices_ok_witness:
  "\<exists>w'. deleteServices ['' a''] one_world = (None, w') \<and> w_reg w' ''a'' = None \<and> w_cfgs w' = []"
proof -
  let ?r = "deleteServices ['' a''] one_world"
  have "fst ?r = None" by code_simp
  then obtain w' where r: "?r = (None, w')" by (cases ?r) auto
  moreover have "TrimSpace '' a'' = ''a''" by code_simp
  ultimately show ?thesis
    using deleteServices_ok [OF r] by (simp add: one_world_def sample_cfg_def)
qed

lemma delete_loop_closed:
  "distinct (map fst xs) \<Longrightarrow> \<forall>(n, i) \<in> set xs. w_reg w n = Some i \<Longrightarrow>
   closed (delete_loop xs w) = closed w @ concat (map (\<lambda>(n, i). [i, i]) xs)"
proof (induction xs arbitrary: w)
  case (Cons x xs)
  obtain n i where x: "x = (n, i)" by (cases x)
  have "\<forall>(m, j) \<in> set xs. w_reg (svcClose i (regUnregister n w)) m = Some j"
    using Cons.prems by (force simp: x)
  then have "closed (delete_loop xs (svcClose i (regUnregister n w))) =
      closed (svcClose i (regUnregister n w)) @ concat (map (\<lambda>(n, i). [i, i]) xs)"
    using Cons.prems by (intro Cons.IH) (auto simp: x)
  then show ?case using Cons.prems by (simp add: x)
qed simp

text \<open>
  Every deleted service is closed twice, by \<open>Unregister\<close> and by the command itself, so its
  pre-down and post-down commands run twice.
\<close>

theorem deleteServices_closes_twice:
  assumes "deleteServices names w = (None, w')" "distinct (map TrimSpace names)"
  shows "\<exists>is. map Some is = map (\<lambda>n. w_reg w (TrimSpace n)) names \<and>
              closed w' = closed w @ concat (map (\<lambda>i. [i, i]) is)"
proof -
  from assms(1) obtain xs where l: "lookup_services names w = Inr xs"
    and w': "w' = snd (OnUpdate (edit (drop_configs (map fst xs))) (delete_loop xs w))"
    by (auto simp: deleteServices_def split: if_splits sum.splits)
  note k = lookup_services_ok [OF l]
  have "closed w' = closed w @ concat (map (\<lambda>(n, i). [i, i]) xs)"
    using delete_loop_closed [of xs w] k assms(2) by (fastforce simp: w')
  moreover have "map (\<lambda>(n, i). [i, i]) xs = map (\<lambda>i. [i, i]) (map snd xs)" by auto
  moreover have "map Some (map snd xs) = map (\<lambda>n. w_reg w (TrimSpace n)) names"
  proof -
    have "map Some (map snd xs) = map (w_reg w) (map fst xs)" using conjunct2 [OF k] by auto
    also have "\<dots> = map (w_reg w) (map TrimSpace names)" using k by simp
    finally show ?thesis by (simp add: comp_def)
  qed
  ultimately show ?thesis by (intro exI [of _ "map snd xs"]) simp
qed

lemma deleteServices_closes_twice_witness:
  "\<exists>w'. deleteServices [''a''] one_world = (None, w') \<and> closed w' = [0, 0]"
proof -
  let ?r = "deleteServices [''a''] one_world"
  have "fst ?r = None" by code_simp
  then obtain w' where r: "?r = (None, w')" by (cases ?r) auto
  moreover have "TrimSpace ''a'' = ''a''" by code_simp
  ultimately show ?thesis
    using deleteServices_closes_twice [OF r] by (auto simp: one_world_def closed_def)
qed

section \<open>updateServices\<close>

lemma update_validate_ok:
  "update_validate req w = None \<Longrightarrow>
   \<forall>c \<in> set req. TrimSpace (sc_name c) \<noteq> [] \<and> w_reg w (TrimSpace (sc_name c)) \<noteq> None"
  by (induction req) (auto simp: Let_def Get_def split: if_splits option.splits)

text \<open>One round of the loop: the old instance goes, and the build decides.\<close>

lemma update_round:
  assumes "TrimSpace (sc_name c) \<noteq> []"
  obtains e w3 where "update_loop E (c # cs) w = (Some e, w3)"
      "w_reg w3 = (w_reg w)(TrimSpace (sc_name c) := None)" "w_cfgs w3 = w_cfgs w"
  | w4 where "update_loop E (c # cs) w = update_loop E cs w4"
      "w_reg w4 = (w_reg w)(TrimSpace (sc_name c) \<mapsto> w_calls w)" "w_cfgs w4 = w_cfgs w"
      "w_calls w4 = Suc (w_calls w)" "served w4 = served w @ [w_calls w]"
      "set (w_open w4) \<subseteq> insert (w_calls w) (set (w_open w))"
      "\<forall>i. w_reg w (TrimSpace (sc_name c)) = Some i \<and> i \<noteq> w_calls w \<longrightarrow> i \<notin> set (w_open w4)"
      "\<forall>i \<in> set (w_open w). w_reg w (TrimSpace (sc_name c)) \<noteq> Some i \<longrightarrow> i \<in> set (w_open w4)"
      "w_calls w \<in> set (w_open w4)"
proof -
  let ?n = "TrimSpace (sc_name c)"
  let ?w1 = "case Get ?n (w_reg w) of None \<Rightarrow> w | Some old \<Rightarrow> svcClose old w"
  let ?w2 = "regUnregister ?n ?w1"
  obtain r c' w3 where p: "ParseService E (c\<lparr>sc_name := ?n\<rparr>) ?w2 = (r, c', w3)"
    by (cases "ParseService E (c\<lparr>sc_name := ?n\<rparr>) ?w2") auto
  note f = ParseService_frame [OF p]
  have w2: "w_reg ?w2 = (w_reg w)(?n := None)" "w_cfgs ?w2 = w_cfgs w" "w_calls ?w2 = w_calls w"
    "served ?w2 = served w"
    "set (w_open ?w2) = set (w_open w) - {i. w_reg w ?n = Some i}"
    using assms by (auto simp: Get_def split: option.splits)
  show thesis
  proof (cases r)
    case (Inl e)
    then have "update_loop E (c # cs) w = (Some (''create service '' @ ?n @ '' failed: '' @ e), w3)"
      using p by (simp add: Let_def)
    then show thesis using that(1) f w2 by simp
  next
    case (Inr i)
    note o = ParseService_ok [OF p [unfolded Inr]]
    have free: "w_reg w3 ?n = None" using f w2 by simp
    let ?w4 = "svcServe i (w3\<lparr>w_reg := (w_reg w3)(?n \<mapsto> i)\<rparr>)"
    have u: "update_loop E (c # cs) w = update_loop E cs ?w4"
      using p Inr regRegister_new [where i = i, OF assms free] by (simp add: Let_def)
    show thesis
      by (rule that(2) [OF u]) (use f o w2 served_ParseService [OF p] in auto)
  qed
qed

lemma update_loop_fail:
  assumes "update_loop E req w = (Some e, w')" "\<forall>c \<in> set req. TrimSpace (sc_name c) \<noteq> []"
  shows "w_cfgs w' = w_cfgs w \<and> (\<exists>c \<in> set req. w_reg w' (TrimSpace (sc_name c)) = None)"
  using assms
proof (induction req arbitrary: w)
  case (Cons c cs)
  from Cons.prems(2) have n: "TrimSpace (sc_name c) \<noteq> []" by simp
  show ?case
  proof (cases rule: update_round [OF n, of E cs w])
    case (1 e w3)
    with Cons.prems(1) show ?thesis by auto
  next
    case (2 w4)
    with Cons.prems(1) have "update_loop E cs w4 = (Some e, w')" by simp
    from Cons.IH [OF this] Cons.prems(2) 2(3) show ?thesis by auto
  qed
qed simp

lemma updateServices_failure_fact:
  assumes "updateServices E req w = (Some e, w')" "req \<noteq> []" "update_validate req w = None"
  shows "w_cfgs w' = w_cfgs w \<and>
     (\<exists>c \<in> set req. w_reg w (TrimSpace (sc_name c)) \<noteq> None \<and> w_reg w' (TrimSpace (sc_name c)) = None)"
proof -
  from assms have "update_loop E req w = (Some e, w')"
    by (auto simp: updateServices_def split: prod.splits option.splits)
  then show ?thesis
    using update_loop_fail update_validate_ok [OF assms(3)] by blast
qed

text \<open>
  \<open>updateServices\<close> is not atomic: when it fails after its validation, a service of the
  request is gone from the registry while the configuration still lists everything it did before.
\<close>

theorem updateServices_failure_loses_service:
  assumes "updateServices E req w = (Some e, w')" "req \<noteq> []" "update_validate req w = None"
  shows "w_cfgs w' = w_cfgs w \<and>
     (\<exists>c \<in> set req. w_reg w (TrimSpace (sc_name c)) \<noteq> None \<and> w_reg w' (TrimSpace (sc_name c)) = None)"
  using assms by (rule updateServices_failure_fact)

lemma updateServices_failure_loses_service_witness:
  "\<exists>e w'. updateServices failing_env [sample_cfg ''a''] one_world = (Some e, w') \<and>
          w_reg w' ''a'' = None \<and> map sc_name (w_cfgs w') = [''a'']"
proof -
  let ?r = "updateServices failing_env [sample_cfg ''a''] one_world"
  have "fst ?r = Some ''create service a failed: init''" by code_simp
  then obtain w' where r: "?r = (Some ''create service a failed: init'', w')" by (cases ?r) auto
  have v: "update_validate [sample_cfg ''a''] one_world = None" by code_simp
  have t: "TrimSpace (sc_name (sample_cfg ''a'')) = ''a''" by code_simp
  show ?thesis
    using updateServices_failure_loses_service [OF r _ v] r t
    by (simp add: one_world_def) (simp add: sample_cfg_def)
qed

text \<open>The trimmed names of a request.\<close>

definition req_names :: "'r service_config list \<Rightarrow> string set" where
  "req_names req = (\<lambda>c. TrimSpace (sc_name c)) ` set req"

lemma req_names_simps [simp]:
  "req_names [] = {}" "req_names (c # cs) = insert (TrimSpace (sc_name c)) (req_names cs)"
  by (simp_all add: req_names_def)

lemma update_loop_frame:
  assumes "update_loop E req w = (None, w')" "[] \<notin> req_names req"
  shows "w_cfgs w' = w_cfgs w \<and> w_calls w \<le> w_calls w' \<and>
     (\<forall>n. n \<notin> req_names req \<longrightarrow> w_reg w' n = w_reg w n) \<and>
     (\<forall>i \<in> set (w_open w'). i \<in> set (w_open w) \<or> w_calls w \<le> i)"
  using assms
proof (induction req arbitrary: w)
  case (Cons c cs)
  from Cons.prems(2) have n: "TrimSpace (sc_name c) \<noteq> []" and ns: "[] \<notin> req_names cs" by auto
  show ?case
  proof (cases rule: update_round [OF n, of E cs w])
    case (1 e w3)
    with Cons.prems(1) show ?thesis by simp
  next
    case (2 w4)
    with Cons.prems(1) have "update_loop E cs w4 = (None, w')" by simp
    from Cons.IH [OF this ns] 2(2,3,4,6) show ?thesis by force
  qed
qed simp

lemma update_loop_new:
  assumes "update_loop E req w = (None, w')" "[] \<notin> req_names req" "n \<in> req_names req"
  shows "\<exists>i. w_calls w \<le> i \<and> w_reg w' n = Some i"
  using assms
proof (induction req arbitrary: w)
  case (Cons c cs)
  from Cons.prems(2) have m: "TrimSpace (sc_name c) \<noteq> []" and ns: "[] \<notin> req_names cs" by auto
  show ?case
  proof (cases rule: update_round [OF m, of E cs w])
    case (1 e w3)
    with Cons.prems(1) show ?thesis by simp
  next
    case (2 w4)
    with Cons.prems(1) have l: "update_loop E cs w4 = (None, w')" by simp
    show ?thesis
    proof (cases "n \<in> req_names cs")
      case True
      with Cons.IH [OF l ns] 2(4) show ?thesis by force
    next
      case False
      with update_loop_frame [OF l ns] Cons.prems(3) 2(2) show ?thesis by auto
    qed
  qed
qed simp

lemma update_loop_old_closed:
  assumes "update_loop E req w = (None, w')" "[] \<notin> req_names req" "n \<in> req_names req"
    and "w_reg w n = Some i" "i < w_calls w"
  shows "i \<notin> set (w_open w')"
  using assms
proof (induction req arbitrary: w)
  case (Cons c cs)
  from Cons.prems(2) have m: "TrimSpace (sc_name c) \<noteq> []" and ns: "[] \<notin> req_names cs" by auto
  show ?case
  proof (cases rule: update_round [OF m, of E cs w])
    case (1 e w3)
    with Cons.prems(1) show ?thesis by simp
  next
    case (2 w4)
    with Cons.prems(1) have l: "update_loop E cs w4 = (None, w')" by simp
    show ?thesis
    proof (cases "n = TrimSpace (sc_name c)")
      case True
      with update_loop_frame [OF l ns] 2(4,7) Cons.prems(4,5) show ?thesis by force
    next
      case False
      with Cons.prems 2(2,4) show ?thesis by (intro Cons.IH [OF l ns]) auto
    qed
  qed
qed simp

lemma updateServices_success:
  assumes "updateServices E req w = (None, w')"
  obtains w1 where "update_validate req w = None" "update_loop E req w = (None, w1)"
    "w' = w1\<lparr>w_cfgs := update_configs req (w_cfgs w1)\<rparr>" "[] \<notin> req_names req"
    "\<forall>n \<in> req_names req. w_reg w n \<noteq> None"
proof -
  from assms obtain w1 where v: "update_validate req w = None"
    and l: "update_loop E req w = (None, w1)"
    and w': "w' = w1\<lparr>w_cfgs := update_configs req (w_cfgs w1)\<rparr>"
    by (auto simp: updateServices_def split: if_splits prod.splits option.splits)
  moreover have "[] \<notin> req_names req" "\<forall>n \<in> req_names req. w_reg w n \<noteq> None"
    using update_validate_ok [OF v] by (auto simp: req_names_def)
  ultimately show thesis using that by blast
qed

lemma updateServices_keeps_names:
  assumes "updateServices E req w = (None, w')"
  shows "dom (w_reg w') = dom (w_reg w) \<and> map sc_name (w_cfgs w') = map sc_name (w_cfgs w)"
proof -
  from assms obtain w1 where l: "update_loop E req w = (None, w1)"
    and w': "w' = w1\<lparr>w_cfgs := update_configs req (w_cfgs w1)\<rparr>" and ns: "[] \<notin> req_names req"
    and old: "\<forall>n \<in> req_names req. w_reg w n \<noteq> None"
    by (rule updateServices_success)
  have "n \<in> dom (w_reg w1) \<longleftrightarrow> n \<in> dom (w_reg w)" for n
  proof (cases "n \<in> req_names req")
    case True
    with update_loop_new [OF l ns] old show ?thesis by (auto simp: dom_def)
  next
    case False
    with update_loop_frame [OF l ns] show ?thesis by (auto simp: dom_def)
  qed
  then have "dom (w_reg w1) = dom (w_reg w)" by blast
  with update_loop_frame [OF l ns] show ?thesis by (simp add: w' update_configs_names)
qed

lemma updateServices_fact:
  assumes "updateServices E req w = (None, w')" "\<forall>n i. w_reg w n = Some i \<longrightarrow> i < w_calls w"
  shows "(\<forall>n \<in> req_names req. \<exists>i j. w_reg w n = Some j \<and> w_reg w' n = Some i \<and>
            j < w_calls w \<and> w_calls w \<le> i \<and> j \<notin> set (w_open w')) \<and>
     (\<forall>n. n \<notin> req_names req \<longrightarrow> w_reg w' n = w_reg w n) \<and>
     map sc_name (w_cfgs w') = map sc_name (w_cfgs w)"
proof -
  from assms(1) obtain w1 where l: "update_loop E req w = (None, w1)"
    and w': "w' = w1\<lparr>w_cfgs := update_configs req (w_cfgs w1)\<rparr>" and ns: "[] \<notin> req_names req"
    and old: "\<forall>n \<in> req_names req. w_reg w n \<noteq> None"
    by (rule updateServices_success)
  have "\<exists>i j. w_reg w n = Some j \<and> w_reg w1 n = Some i \<and> j < w_calls w \<and> w_calls w \<le> i \<and>
          j \<notin> set (w_open w1)" if n: "n \<in> req_names req" for n
  proof -
    from n old obtain j where j: "w_reg w n = Some j" by auto
    with assms(2) have "j < w_calls w" by blast
    with j update_loop_new [OF l ns n] update_loop_old_closed [OF l ns n j] show ?thesis by blast
  qed
  with update_loop_frame [OF l ns] show ?thesis by (auto simp: w' update_configs_names)
qed

text \<open>
  A successful \<open>updateServices\<close> replaces every requested service: a new instance is
  registered under its name, the instance that was there is closed, the other services keep
  theirs, and the configuration lists the same names in the same order.
\<close>

theorem updateServices_ok:
  assumes "updateServices E req w = (None, w')" "\<forall>n i. w_reg w n = Some i \<longrightarrow> i < w_calls w"
  shows "(\<forall>n \<in> req_names req. \<exists>i j. w_reg w n = Some j \<and> w_reg w' n = Some i \<and>
            j < w_calls w \<and> w_calls w \<le> i \<and> j \<notin> set (w_open w')) \<and>
     (\<forall>n. n \<notin> req_names req \<longrightarrow> w_reg w' n = w_reg w n) \<and>
     map sc_name (w_cfgs w') = map sc_name (w_cfgs w)"
  using assms by (rule updateServices_fact)

lemma updateServices_ok_witness:
  "\<exists>w'. updateServices sample_env [sample_cfg '' a''] one_world = (None, w') \<and>
        w_reg w' ''a'' \<noteq> Some 0 \<and> 0 \<notin> set (w_open w')"
proof -
  let ?r = "updateServices sample_env [sample_cfg '' a''] one_world"
  have "fst ?r = None" by code_simp
  then obtain w' where r: "?r = (None, w')" by (cases ?r) auto
  have t: "TrimSpace (sc_name (sample_cfg '' a'')) = ''a''" by code_simp
  have "\<forall>n i. w_reg one_world n = Some i \<longrightarrow> i < w_calls one_world"
    by (simp add: one_world_def)
  from updateServices_ok [OF r this] r t show ?thesis by (auto simp: one_world_def)
qed

lemma update_configs_absent:
  "\<forall>c \<in> set req. sc_name c \<notin> sc_name ` set cs \<Longrightarrow> update_configs req cs = cs"
  by (induction req) (auto simp: update_first_absent)

text \<open>
  The configuration phase compares names as they were sent: for a request whose names all
  carry surrounding blanks, on a configuration of trimmed names, a successful \<open>updateServices\<close>
  has replaced the running services and left the configuration unchanged, so the stored
  configuration no longer describes what runs.
\<close>

theorem updateServices_untrimmed_skips_config:
  assumes "updateServices E req w = (None, w')"
    and "\<forall>c \<in> set req. TrimSpace (sc_name c) \<noteq> sc_name c"
    and "\<forall>c \<in> set (w_cfgs w). TrimSpace (sc_name c) = sc_name c"
  shows "w_cfgs w' = w_cfgs w"
proof -
  from assms(1) obtain w1 where l: "update_loop E req w = (None, w1)"
    and w': "w' = w1\<lparr>w_cfgs := update_configs req (w_cfgs w1)\<rparr>" and ns: "[] \<notin> req_names req"
    by (rule updateServices_success)
  from update_loop_frame [OF l ns] have "w_cfgs w1 = w_cfgs w" by simp
  moreover have "\<forall>c \<in> set req. sc_name c \<notin> sc_name ` set (w_cfgs w)" using assms(2,3) by force
  ultimately show ?thesis by (simp add: w' update_configs_absent)
qed

lemma updateServices_untrimmed_skips_config_witness:
  "\<exists>w'. updateServices sample_env [(sample_cfg '' a'')\<lparr>sc_addr := '':81''\<rparr>] one_world = (None, w') \<and>
        map sc_addr (w_cfgs w') = ['':80'']"
proof -
  let ?r = "updateServices sample_env [(sample_cfg '' a'')\<lparr>sc_addr := '':81''\<rparr>] one_world"
  have "fst ?r = None" by code_simp
  then obtain w' where r: "?r = (None, w')" by (cases ?r) auto
  have t: "TrimSpace '' a'' = ''a''" "TrimSpace ''a'' = ''a''" by code_simp+
  have "w_cfgs w' = w_cfgs one_world"
    by (rule updateServices_untrimmed_skips_config [OF r])
      (simp_all add: sample_cfg_def one_world_def t)
  with r show ?thesis by (simp add: one_world_def sample_cfg_def)
qed

end
