(* ===== verification/SocketResume.thy ===== *)
theory SocketResume
  imports SocketCommands
begin

text \<open>
  Resuming services, the round trip of pausing and resuming, and the invariant \<open>in_sync\<close> over
  all runs of the commands: the registry and the configuration list the same services.
\<close>

section \<open>Pausing\<close>

text \<open>
  Pausing and resuming: what a successful pause and a successful resume do, that resuming undoes
  pausing in the configuration, and what the two rollbacks achieve. Also the invariant
  \<open>in_sync\<close> over all runs of the commands.
\<close>

section \<open>Pausing\<close>

lemma forceClose_fields [world_simps, simp]:
  "w_reg (forceClose a w) = w_reg w" "w_cfgs (forceClose a w) = w_cfgs w"
  "w_calls (forceClose a w) = w_calls w" "w_open (forceClose a w) = w_open w"
  "served (forceClose a w) = served w"
  by (simp_all add: forceClose_def served_def)

lemma OnUpdate_edit_fields [world_simps]:
  "w_reg (snd (OnUpdate (edit f) w)) = w_reg w" "served (snd (OnUpdate (edit f) w)) = served w"
  by simp_all

text \<open>
  The rollback of a failed pause: registering the rebuilt service always fails, because pausing
  never unregistered the old one, and the rebuilt service is closed again.
\<close>


lemma is_paused_fill_defaults [simp]: "is_paused (fill_defaults c) = is_paused c"
  by (simp add: is_paused_def)

lemma map_update_same: "f y = f (xs ! k) \<Longrightarrow> map f (xs[k := y]) = map f xs"
  by (cases "k < length xs") (auto simp: map_update list_update_beyond intro: list_update_same_conv [THEN iffD2])

lemma rollbackPaused_names:
  "map sc_name (w_cfgs (rollbackPausedServices E ps w)) = map sc_name (w_cfgs w)"
proof (induction ps arbitrary: w)
  case (Cons p ps)
  obtain n i k where p: "p = (n, i, k)" by (cases p)
  obtain r c' w1 where q: "ParseService E (w_cfgs w ! k) w = (r, c', w1)"
    by (cases "ParseService E (w_cfgs w ! k) w") auto
  let ?w2 = "w1\<lparr>w_cfgs := (w_cfgs w1)[k := c']\<rparr>"
  have w2: "map sc_name (w_cfgs ?w2) = map sc_name (w_cfgs w)"
    using ParseService_frame [OF q] by (simp add: map_update_same)
  show ?case
  proof (cases r)
    case (Inl e)
    then have "rollbackPausedServices E (p # ps) w = rollbackPausedServices E ps ?w2"
      by (simp add: p q Let_def)
    with Cons.IH w2 show ?thesis by metis
  next
    case (Inr m)
    obtain e w3 where g: "regRegister n m ?w2 = (e, w3)" by (cases "regRegister n m ?w2") auto
    then have w3: "w_cfgs w3 = w_cfgs ?w2" by (auto simp: regRegister_def split: prod.splits)
    show ?thesis
    proof (cases e)
      case None
      then have "rollbackPausedServices E (p # ps) w =
          rollbackPausedServices E ps (snd (OnUpdate (edit (update_first n clear_paused)) (svcServe m w3)))"
        using g Inr by (simp add: p q Let_def)
      moreover have "map sc_name (w_cfgs (snd (OnUpdate (edit (update_first n clear_paused)) (svcServe m w3))))
          = map sc_name (w_cfgs w)"
        using w2 w3 by (simp add: update_first_names)
      ultimately show ?thesis using Cons.IH by metis
    next
      case (Some x)
      then have "rollbackPausedServices E (p # ps) w = rollbackPausedServices E ps (svcClose m w3)"
        using g Inr by (simp add: p q Let_def)
      with Cons.IH w2 w3 show ?thesis by (metis svcClose_fields(2))
    qed
  qed
qed simp

lemma rollbackPaused_noop:
  assumes "\<forall>(n, i, k) \<in> set ps. n \<noteq> [] \<and> w_reg w n \<noteq> None"
  shows "w_reg (rollbackPausedServices E ps w) = w_reg w \<and>
     served (rollbackPausedServices E ps w) = served w \<and>
     map is_paused (w_cfgs (rollbackPausedServices E ps w)) = map is_paused (w_cfgs w) \<and>
     (\<forall>i < w_calls w. i \<in> set (w_open (rollbackPausedServices E ps w)) \<longleftrightarrow> i \<in> set (w_open w))"
  using assms
proof (induction ps arbitrary: w)
  case (Cons p ps)
  obtain n i k where p: "p = (n, i, k)" by (cases p)
  obtain r c' w1 where q: "ParseService E (w_cfgs w ! k) w = (r, c', w1)"
    by (cases "ParseService E (w_cfgs w ! k) w") auto
  note f = ParseService_frame [OF q]
  let ?w2 = "w1\<lparr>w_cfgs := (w_cfgs w1)[k := c']\<rparr>"
  from Cons.prems have n: "n \<noteq> []" and "w_reg ?w2 n \<noteq> None"
    and rest: "\<forall>(n, i, k) \<in> set ps. n \<noteq> [] \<and> w_reg w n \<noteq> None" using f by (auto simp: p)
  then obtain j where j: "w_reg ?w2 n = Some j" by auto
  have paused: "map is_paused ((w_cfgs w)[k := c']) = map is_paused (w_cfgs w)"
    using f by (simp add: map_update_same)
  show ?case
  proof (cases r)
    case (Inl e)
    then have "rollbackPausedServices E (p # ps) w = rollbackPausedServices E ps ?w2"
      by (simp add: p q Let_def)
    with Cons.IH [of ?w2] rest f paused served_ParseService [OF q] show ?thesis by auto
  next
    case (Inr m)
    note o = ParseService_ok [OF q [unfolded Inr]]
    have "rollbackPausedServices E (p # ps) w = rollbackPausedServices E ps (svcClose m ?w2)"
      using regRegister_taken [OF n j] Inr by (simp add: p q Let_def)
    with Cons.IH [of "svcClose m ?w2"] rest f o paused served_ParseService [OF q] show ?thesis by auto
  qed
qed simp

lemma pause_loop_names:
  "pause_loop E cfg xs paused w = (r, w') \<Longrightarrow> map sc_name (w_cfgs w') = map sc_name (w_cfgs w)"
proof (induction xs arbitrary: w paused)
  case (Cons x xs)
  then show ?case
    by (cases x) (auto simp: rollbackPaused_names split: option.splits)
qed simp

lemma pause_loop_ok:
  "pause_loop E cfg xs paused w = (Inr ps, w') \<Longrightarrow>
     w_reg w' = w_reg w \<and> w_cfgs w' = w_cfgs w \<and> served w' = served w \<and>
     set (w_open w') = set (w_open w) - snd ` set xs"
proof (induction xs arbitrary: w paused)
  case (Cons x xs)
  obtain n i where x: "x = (n, i)" by (cases x)
  from Cons.prems obtain k where k: "find_last_cfg n cfg = Some k"
    by (auto simp: x split: option.splits)
  let ?w1 = "forceClose (sc_addr (cfg ! k)) (svcClose i w)"
  from Cons.prems k have "pause_loop E cfg xs (paused @ [(n, i, k)]) ?w1 = (Inr ps, w')"
    by (simp add: x)
  from Cons.IH [OF this] show ?case by (auto simp: x)
qed simp

lemma pause_loop_fail:
  assumes "pause_loop E cfg xs paused w = (Inl e, w')"
    and "\<forall>(n, i, k) \<in> set paused. n \<noteq> [] \<and> w_reg w n \<noteq> None"
    and "\<forall>(n, i) \<in> set xs. n \<noteq> [] \<and> w_reg w n \<noteq> None"
  shows "w_reg w' = w_reg w \<and> served w' = served w \<and>
     (\<forall>i < w_calls w. i \<in> set (w_open w') \<longrightarrow> i \<in> set (w_open w)) \<and>
     (\<forall>(n, i) \<in> set (takeWhile (\<lambda>(n, i). find_last_cfg n cfg \<noteq> None) xs).
        i < w_calls w \<longrightarrow> i \<notin> set (w_open w'))"
  using assms
proof (induction xs arbitrary: w paused)
  case (Cons x xs)
  obtain n i where x: "x = (n, i)" by (cases x)
  show ?case
  proof (cases "find_last_cfg n cfg")
    case None
    with Cons.prems(1) have "w' = rollbackPausedServices E paused w" by (simp add: x)
    with rollbackPaused_noop [OF Cons.prems(2)] None show ?thesis by (auto simp: x)
  next
    case (Some k)
    let ?w1 = "forceClose (sc_addr (cfg ! k)) (svcClose i w)"
    from Cons.prems(1) Some have l: "pause_loop E cfg xs (paused @ [(n, i, k)]) ?w1 = (Inl e, w')"
      by (simp add: x)
    have "\<forall>(n, i, k) \<in> set (paused @ [(n, i, k)]). n \<noteq> [] \<and> w_reg ?w1 n \<noteq> None"
      using Cons.prems(2,3) by (auto simp: x)
    moreover have "\<forall>(n, i) \<in> set xs. n \<noteq> [] \<and> w_reg ?w1 n \<noteq> None"
      using Cons.prems(3) by auto
    ultimately have IH: "w_reg w' = w_reg ?w1 \<and> served w' = served ?w1 \<and>
       (\<forall>i < w_calls ?w1. i \<in> set (w_open w') \<longrightarrow> i \<in> set (w_open ?w1)) \<and>
       (\<forall>(n, i) \<in> set (takeWhile (\<lambda>(n, i). find_last_cfg n cfg \<noteq> None) xs).
          i < w_calls ?w1 \<longrightarrow> i \<notin> set (w_open w'))"
      using Cons.IH [OF l] by simp
    then show ?thesis using Some by (auto simp: x)
  qed
qed simp

lemma pauseServices_facts:
  assumes "pauseServices E names w = (None, w')"
  shows "w_reg w' = w_reg w \<and> served w' = served w \<and>
     set (w_open w') = set (w_open w) - {i. \<exists>n \<in> set names. w_reg w (TrimSpace n) = Some i} \<and>
     w_cfgs w' = update_each (map TrimSpace names) set_paused (w_cfgs w)"
proof -
  from assms obtain xs ps w1 where l: "lookup_services names w = Inr xs"
    and q: "pause_loop E (w_cfgs w) xs [] w = (Inr ps, w1)"
    and w': "w' = w1\<lparr>w_cfgs := update_each (map fst xs) set_paused (w_cfgs w1)\<rparr>"
    by (auto simp: pauseServices_def split: if_splits prod.splits option.splits sum.splits)
  note k = lookup_services_ok [OF l] and p = pause_loop_ok [OF q]
  show ?thesis
    using p lookup_services_instances [OF l] conjunct1 [OF k] by (simp add: w')
qed

lemmas pauseServices_ok_cfgs = pauseServices_facts [THEN conjunct2, THEN conjunct2, THEN conjunct2]

text \<open>
  A successful \<open>pauseServices\<close> closes the named services and marks their configurations,
  keeping them registered: every other instance and the launch history are untouched.
\<close>

theorem pauseServices_ok:
  assumes "pauseServices E names w = (None, w')"
  shows "w_reg w' = w_reg w \<and> served w' = served w \<and>
     set (w_open w') = set (w_open w) - {i. \<exists>n \<in> set names. w_reg w (TrimSpace n) = Some i} \<and>
     w_cfgs w' = update_each (map TrimSpace names) set_paused (w_cfgs w)"
  using assms by (rule pauseServices_facts)

lemma pauseServices_ok_witness:
  "\<exists>w'. pauseServices sample_env [''a''] one_world = (None, w') \<and>
        w_reg w' ''a'' = Some 0 \<and> w_open w' = []"
proof -
  let ?r = "pauseServices sample_env [''a''] one_world"
  have "fst ?r = None" by code_simp
  then obtain w' where r: "?r = (None, w')" by (cases ?r) auto
  have t: "TrimSpace ''a'' = ''a''" by code_simp
  show ?thesis using pauseServices_ok [OF r] r t by (simp add: one_world_def)
qed

text \<open>
  The rollback of a failed pause restores nothing. When a service of the batch has no
  configuration, the services already closed stay closed: no instance is launched, no instance
  that was closed is open again, and the registry still answers with the closed ones.
\<close>

theorem pauseServices_rollback_restarts_nothing:
  assumes "pauseServices E names w = (Some e, w')" "names \<noteq> []" "lookup_services names w = Inr xs"
  shows "w_reg w' = w_reg w \<and> served w' = served w \<and>
     (\<forall>(n, i) \<in> set (takeWhile (\<lambda>(n, i). find_last_cfg n (w_cfgs w) \<noteq> None) xs).
        i < w_calls w \<longrightarrow> i \<notin> set (w_open w'))"
proof -
  note k = lookup_services_ok [OF assms(3)]
  from assms obtain e' where q: "pause_loop E (w_cfgs w) xs [] w = (Inl e', w')"
    by (auto simp: pauseServices_def split: prod.splits sum.splits option.splits)
  show ?thesis
    using pause_loop_fail [OF q] k by fastforce
qed

text \<open>Two running services, where the second has lost its configuration.\<close>

definition half_world :: "unit world" where
  "half_world = one_world\<lparr>w_reg := [''a'' \<mapsto> 0, ''b'' \<mapsto> 1], w_calls := 2, w_open := [0, 1]\<rparr>"

lemma pauseServices_rollback_restarts_nothing_witness:
  "\<exists>e w'. pauseServices sample_env [''a'', ''b''] half_world = (Some e, w') \<and>
          w_reg w' ''a'' = Some 0 \<and> 0 \<notin> set (w_open w')"
proof -
  let ?r = "pauseServices sample_env [''a'', ''b''] half_world"
  have "fst ?r = Some ''service b configuration not found''" by code_simp
  then obtain w' where r: "?r = (Some ''service b configuration not found'', w')" by (cases ?r) auto
  have l: "lookup_services [''a'', ''b''] half_world = Inr [(''a'', 0), (''b'', 1)]" by code_simp
  have f: "find_last_cfg ''a'' (w_cfgs half_world) = Some 0" "find_last_cfg ''b'' (w_cfgs half_world) = None"
    by code_simp+
  show ?thesis
    using pauseServices_rollback_restarts_nothing [OF r _ l] r f by (simp add: half_world_def one_world_def)
qed


section \<open>Indices of configurations\<close>

lemma find_cfg_Some:
  "find_cfg n cs = Some k \<Longrightarrow>
   k < length cs \<and> sc_name (cs ! k) = n \<and> update_first n f cs = cs[k := f (cs ! k)]"
  by (induction cs arbitrary: k) (auto split: if_splits)

lemma find_cfg_names:
  "map sc_name cs = map sc_name ds \<Longrightarrow> find_cfg n cs = find_cfg n ds"
proof (induction cs arbitrary: ds)
  case (Cons c cs)
  then show ?case by (cases ds) auto
qed simp

lemma find_cfg_None: "find_cfg n cs = None \<longleftrightarrow> n \<notin> sc_name ` set cs"
  by (induction cs) auto

section \<open>The loop\<close>

text \<open>One round: the paused instance goes, and the build decides.\<close>

lemma resume_round:
  assumes "name \<noteq> []" "w_reg w name \<noteq> None"
  obtains e w3 where "resume_loop E ((name, i, k) # xs) resumed w = (Inl e, rollbackResumedServices resumed w3)"
      "w_reg w3 = (w_reg w)(name := None)"
  | w4 where "resume_loop E ((name, i, k) # xs) resumed w = resume_loop E xs (resumed @ [(name, i, k)]) w4"
      "w_reg w4 = (w_reg w)(name \<mapsto> w_calls w)"
      "w_cfgs w4 = (w_cfgs w)[k := fill_defaults (w_cfgs w ! k)]"
      "w_calls w4 = Suc (w_calls w)" "served w4 = served w @ [w_calls w]"
      "w_calls w \<in> set (w_open w4)"
proof -
  let ?w1 = "regUnregister name (svcClose i w)"
  obtain r c' w2 where p: "ParseService E (w_cfgs w ! k) ?w1 = (r, c', w2)"
    by (cases "ParseService E (w_cfgs w ! k) ?w1") auto
  note f = ParseService_frame [OF p]
  let ?w3 = "w2\<lparr>w_cfgs := (w_cfgs w2)[k := c']\<rparr>"
  show thesis
  proof (cases r)
    case (Inl e)
    then have "resume_loop E ((name, i, k) # xs) resumed w =
        (Inl (''resume service '' @ name @ '' failed: '' @ e), rollbackResumedServices resumed ?w3)"
      using p by (simp add: Let_def)
    then show thesis by (rule that(1)) (use f in simp)
  next
    case (Inr j)
    note o = ParseService_ok [OF p [unfolded Inr]]
    have free: "w_reg ?w3 name = None" using f by simp
    let ?w4 = "svcServe j (?w3\<lparr>w_reg := (w_reg ?w3)(name \<mapsto> j)\<rparr>)"
    have "resume_loop E ((name, i, k) # xs) resumed w = resume_loop E xs (resumed @ [(name, i, k)]) ?w4"
      using p Inr regRegister_new [where i = j, OF assms(1) free] by (simp add: Let_def)
    then show thesis
      by (rule that(2)) (use f o served_ParseService [OF p] in auto)
  qed
qed

lemma rollbackResumed_reg: "w_reg (rollbackResumedServices xs w) = w_reg w"
  by (induction xs arbitrary: w) (auto simp: Let_def split: option.splits)

lemma rollbackResumed_names:
  "map sc_name (w_cfgs (rollbackResumedServices xs w)) = map sc_name (w_cfgs w)"
  by (induction xs arbitrary: w) (auto simp: Let_def update_first_names split: option.splits)

lemma resume_validate_ok:
  "resume_validate cfg ns w = Inr xs \<Longrightarrow>
   \<forall>(n, i, k) \<in> set xs. n \<noteq> [] \<and> w_reg w n = Some i \<and> find_cfg n cfg = Some k \<and> is_paused (cfg ! k)"
proof (induction ns arbitrary: xs)
  case (Cons n ns)
  then show ?case
    by (fastforce simp: Let_def Get_def split: if_splits option.splits sum.splits)
qed simp

lemma resume_loop_ok:
  assumes "resume_loop E xs resumed w = (Inr ys, w')"
    and "\<forall>(n, i, k) \<in> set xs. n \<noteq> [] \<and> w_reg w n \<noteq> None"
  shows "dom (w_reg w') = dom (w_reg w) \<and> w_calls w \<le> w_calls w' \<and>
     map sc_name (w_cfgs w') = map sc_name (w_cfgs w) \<and>
     (\<forall>n. n \<notin> fst ` set xs \<longrightarrow> w_reg w' n = w_reg w n) \<and>
     (\<forall>n \<in> fst ` set xs. \<exists>i. w_calls w \<le> i \<and> i < w_calls w' \<and> w_reg w' n = Some i \<and>
         i \<in> set (served w')) \<and>
     set (served w) \<subseteq> set (served w')"
  using assms
proof (induction xs arbitrary: resumed w)
  case (Cons x xs)
  obtain n i k where x: "x = (n, i, k)" by (cases x)
  from Cons.prems(2) have n: "n \<noteq> []" "w_reg w n \<noteq> None" by (auto simp: x)
  show ?case
  proof (cases rule: resume_round [OF n, of E i k xs resumed])
    case (1 e w3)
    with Cons.prems(1) show ?thesis by (simp add: x)
  next
    case (2 w4)
    with Cons.prems(1) have l: "resume_loop E xs (resumed @ [(n, i, k)]) w4 = (Inr ys, w')"
      by (simp add: x)
    have "\<forall>(n, i, k) \<in> set xs. n \<noteq> [] \<and> w_reg w4 n \<noteq> None"
      using Cons.prems(2) 2(2) by auto
    note IH = Cons.IH [OF l this]
    have names: "map sc_name (w_cfgs w4) = map sc_name (w_cfgs w)"
      using 2(3) by (simp add: map_update_same)
    have mem: "\<exists>j. w_calls w \<le> j \<and> j < w_calls w' \<and> w_reg w' m = Some j \<and> j \<in> set (served w')"
      if "m \<in> fst ` set (x # xs)" for m
    proof (cases "m \<in> fst ` set xs")
      case True
      with IH 2(4) show ?thesis by force
    next
      case False
      with that have "m = n" by (auto simp: x)
      with False IH 2(2,4,5) show ?thesis by auto
    qed
    have d: "dom (w_reg w4) = dom (w_reg w)" using 2(2) n(2) by auto
    show ?thesis
    proof (intro conjI)
      show "dom (w_reg w') = dom (w_reg w)" using IH d by simp
      show "w_calls w \<le> w_calls w'" using IH 2(4) by simp
      show "map sc_name (w_cfgs w') = map sc_name (w_cfgs w)" using IH names by simp
      show "\<forall>m. m \<notin> fst ` set (x # xs) \<longrightarrow> w_reg w' m = w_reg w m" using IH 2(2) by (simp add: x)
      show "\<forall>m \<in> fst ` set (x # xs). \<exists>i. w_calls w \<le> i \<and> i < w_calls w' \<and> w_reg w' m = Some i \<and>
          i \<in> set (served w')" using mem by blast
      show "set (served w) \<subseteq> set (served w')" using IH 2(5) by auto
    qed
  qed
qed auto

lemma resume_loop_fail:
  assumes "resume_loop E xs resumed w = (Inl e, w')"
    and "\<forall>(n, i, k) \<in> set xs. n \<noteq> [] \<and> w_reg w n \<noteq> None"
  shows "\<exists>n \<in> fst ` set xs. w_reg w' n = None"
  using assms
proof (induction xs arbitrary: resumed w)
  case (Cons x xs)
  obtain n i k where x: "x = (n, i, k)" by (cases x)
  from Cons.prems(2) have n: "n \<noteq> []" "w_reg w n \<noteq> None" by (auto simp: x)
  show ?case
  proof (cases rule: resume_round [OF n, of E i k xs resumed])
    case (1 e w3)
    with Cons.prems(1) show ?thesis by (auto simp: x rollbackResumed_reg)
  next
    case (2 w4)
    with Cons.prems(1) have l: "resume_loop E xs (resumed @ [(n, i, k)]) w4 = (Inl e, w')"
      by (simp add: x)
    have "\<forall>(n, i, k) \<in> set xs. n \<noteq> [] \<and> w_reg w4 n \<noteq> None"
      using Cons.prems(2) 2(2) by auto
    with Cons.IH [OF l] show ?thesis by auto
  qed
qed simp

section \<open>resumeServices\<close>

lemma resumeServices_success:
  assumes "resumeServices E names w = (None, w')"
  obtains xs ys w1 where "resume_validate (w_cfgs w) names w = Inr xs"
    "resume_loop E xs [] w = (Inr ys, w1)"
    "w' = w1\<lparr>w_cfgs := update_each (map fst xs) clear_paused (w_cfgs w1)\<rparr>"
  using assms
  by (auto simp: resumeServices_def split: if_splits prod.splits option.splits sum.splits)

lemma resume_validate_names:
  "resume_validate cfg ns w = Inr xs \<Longrightarrow>
   fst ` set xs = {n \<in> TrimSpace ` set ns. \<exists>k. find_cfg n cfg = Some k \<and> is_paused (cfg ! k)}"
proof (induction ns arbitrary: xs)
  case (Cons n ns)
  let ?n = "TrimSpace n"
  from Cons.prems obtain i k ys where
    k: "find_cfg ?n cfg = Some k" and v: "resume_validate cfg ns w = Inr ys"
    and xs: "xs = (if is_paused (cfg ! k) then (?n, i, k) # ys else ys)"
    by (auto simp: Let_def split: if_splits option.splits sum.splits)
  show ?case
    using Cons.IH [OF v] k by (auto simp: xs)
qed simp

lemma resumeServices_fact:
  assumes "resumeServices E names w = (None, w')"
  defines "P \<equiv> {n \<in> TrimSpace ` set names. \<exists>k. find_cfg n (w_cfgs w) = Some k \<and> is_paused (w_cfgs w ! k)}"
  shows "(\<forall>n \<in> P. \<exists>i. w_calls w \<le> i \<and> w_reg w' n = Some i \<and> i \<in> set (served w')) \<and>
     (\<forall>n. n \<notin> P \<longrightarrow> w_reg w' n = w_reg w n) \<and>
     dom (w_reg w') = dom (w_reg w) \<and>
     map sc_name (w_cfgs w') = map sc_name (w_cfgs w)"
proof -
  from assms(1) obtain xs ys w1 where v: "resume_validate (w_cfgs w) names w = Inr xs"
    and l: "resume_loop E xs [] w = (Inr ys, w1)"
    and w': "w' = w1\<lparr>w_cfgs := update_each (map fst xs) clear_paused (w_cfgs w1)\<rparr>"
    by (rule resumeServices_success)
  have "\<forall>(n, i, k) \<in> set xs. n \<noteq> [] \<and> w_reg w n \<noteq> None"
    using resume_validate_ok [OF v] by fastforce
  note f = resume_loop_ok [OF l this]
  have P: "P = fst ` set xs" unfolding P_def resume_validate_names [OF v] ..
  show ?thesis
    using f unfolding P by (auto simp: w' update_each_names)
qed

text \<open>
  A successful \<open>resumeServices\<close> restarts the paused services of the request, each as a new
  registered and launched instance; services that were not paused keep their instance, and the
  set of registered names and the names in the configuration stay as they were.
\<close>

theorem resumeServices_ok:
  assumes "resumeServices E names w = (None, w')"
  defines "P \<equiv> {n \<in> TrimSpace ` set names. \<exists>k. find_cfg n (w_cfgs w) = Some k \<and> is_paused (w_cfgs w ! k)}"
  shows "(\<forall>n \<in> P. \<exists>i. w_calls w \<le> i \<and> w_reg w' n = Some i \<and> i \<in> set (served w')) \<and>
     (\<forall>n. n \<notin> P \<longrightarrow> w_reg w' n = w_reg w n) \<and>
     dom (w_reg w') = dom (w_reg w) \<and>
     map sc_name (w_cfgs w') = map sc_name (w_cfgs w)"
  using resumeServices_fact [OF assms(1)] unfolding P_def .

text \<open>A world whose only service is paused.\<close>

definition paused_world :: "unit world" where
  "paused_world = one_world\<lparr>w_open := [], w_cfgs := [set_paused (fill_defaults (sample_cfg ''a''))]\<rparr>"

lemma resumeServices_ok_witness:
  "\<exists>w'. resumeServices sample_env [''a''] paused_world = (None, w') \<and>
        (\<exists>i \<ge> 1. w_reg w' ''a'' = Some i)"
proof -
  let ?r = "resumeServices sample_env [''a''] paused_world"
  have "fst ?r = None" by code_simp
  then obtain w' where r: "?r = (None, w')" by (cases ?r) auto
  have t: "TrimSpace ''a'' = ''a''" "find_cfg ''a'' (w_cfgs paused_world) = Some 0"
    "is_paused (w_cfgs paused_world ! 0)" "w_calls paused_world = 1" by code_simp+
  show ?thesis using resumeServices_ok [OF r] r t by auto
qed

text \<open>
  When \<open>resumeServices\<close> fails after its validation, a service of the request is no longer
  registered: its paused instance was unregistered before the new one could be built, and the
  rollback does not put it back.
\<close>

theorem resumeServices_failure_loses_service:
  assumes "resumeServices E names w = (Some e, w')" "names \<noteq> []"
    and "resume_validate (w_cfgs w) names w = Inr xs"
  shows "\<exists>n \<in> fst ` set xs. w_reg w n \<noteq> None \<and> w_reg w' n = None"
proof -
  from assms obtain e' where l: "resume_loop E xs [] w = (Inl e', w')"
    by (auto simp: resumeServices_def split: prod.splits option.splits sum.splits)
  have r: "\<forall>(n, i, k) \<in> set xs. n \<noteq> [] \<and> w_reg w n \<noteq> None"
    using resume_validate_ok [OF assms(3)] by fastforce
  obtain n where n: "n \<in> fst ` set xs" "w_reg w' n = None" using resume_loop_fail [OF l r] by blast
  then obtain i k where "(n, i, k) \<in> set xs" by auto
  with r have "w_reg w n \<noteq> None" by blast
  with n show ?thesis by blast
qed

lemma resumeServices_failure_loses_service_witness:
  "\<exists>e w'. resumeServices failing_env [''a''] paused_world = (Some e, w') \<and> w_reg w' ''a'' = None"
proof -
  let ?r = "resumeServices failing_env [''a''] paused_world"
  have "fst ?r = Some ''resume service a failed: init''" by code_simp
  then obtain w' where r: "?r = (Some ''resume service a failed: init'', w')" by (cases ?r) auto
  have v: "resume_validate (w_cfgs paused_world) [''a''] paused_world = Inr [(''a'', 0, 0)]" by code_simp
  show ?thesis using resumeServices_failure_loses_service [OF r _ v] r by simp
qed

section \<open>Pausing and resuming\<close>

lemma pauseServices_single:
  assumes "pauseServices E [n] w = (None, w')" "find_cfg (TrimSpace n) (w_cfgs w) = Some k"
  shows "w_cfgs w' = (w_cfgs w)[k := set_paused (w_cfgs w ! k)]"
  using pauseServices_ok_cfgs [OF assms(1)] find_cfg_Some [OF assms(2), of set_paused] by simp

lemma resumeServices_single:
  assumes "resumeServices E [n] w = (None, w')" "find_cfg (TrimSpace n) (w_cfgs w) = Some k"
    and "is_paused (w_cfgs w ! k)"
  shows "w_cfgs w' = (w_cfgs w)[k := clear_paused (fill_defaults (w_cfgs w ! k))]"
proof -
  let ?n = "TrimSpace n"
  note fc = find_cfg_Some [OF assms(2)]
  from assms(1) obtain xs ys w1 where v: "resume_validate (w_cfgs w) [n] w = Inr xs"
    and l: "resume_loop E xs [] w = (Inr ys, w1)"
    and w': "w' = w1\<lparr>w_cfgs := update_each (map fst xs) clear_paused (w_cfgs w1)\<rparr>"
    by (rule resumeServices_success)
  obtain i where xs: "xs = [(?n, i, k)]"
    using v assms(2,3) by (auto simp: Let_def split: if_splits option.splits)
  have n: "?n \<noteq> []" "w_reg w ?n \<noteq> None" using resume_validate_ok [OF v] by (auto simp: xs)
  have w1: "w_cfgs w1 = (w_cfgs w)[k := fill_defaults (w_cfgs w ! k)]"
    using l by (cases rule: resume_round [OF n, of E i k "[]" "[]"]) (auto simp: xs)
  have "map sc_name (w_cfgs w1) = map sc_name (w_cfgs w)" by (simp add: w1 map_update_same)
  then have "find_cfg ?n (w_cfgs w1) = Some k" using assms(2) find_cfg_names by metis
  from find_cfg_Some [OF this, of clear_paused] show ?thesis
    using fc by (simp add: w' xs w1)
qed

lemma is_paused_nth_update:
  "k < length cs \<Longrightarrow> is_paused (cs[k := set_paused c] ! k)"
  by simp

lemma fill_set_paused [simp]: "fill_defaults (set_paused c) = set_paused (fill_defaults c)"
  by (simp add: fill_defaults_def set_paused_def)

text \<open>
  (C35) Resuming undoes pausing: for a service whose stored configuration is normalised and has no
  \<open>paused\<close> entry of its own (and no empty metadata map, which would come back as nil), a pause
  and a resume that both succeed leave the whole configuration as it was, and under the service's
  name a new instance is registered and launched.
\<close>

theorem pause_resume_roundtrip:
  assumes "pauseServices E [n] w = (None, w1)" "resumeServices E [n] w1 = (None, w2)"
    and "find_cfg (TrimSpace n) (w_cfgs w) = Some k"
    and "fill_defaults (w_cfgs w ! k) = w_cfgs w ! k"
    and "sc_meta (w_cfgs w ! k) \<noteq> Some []"
    and "\<And>m. sc_meta (w_cfgs w ! k) = Some m \<Longrightarrow> ''paused'' \<notin> fst ` set m"
  shows "w_cfgs w2 = w_cfgs w \<and>
     (\<exists>i. w_calls w1 \<le> i \<and> w_reg w2 (TrimSpace n) = Some i \<and> i \<in> set (served w2))"
proof -
  let ?n = "TrimSpace n" and ?c = "w_cfgs w ! k"
  have k: "k < length (w_cfgs w)" using find_cfg_Some [OF assms(3)] by blast
  have w1: "w_cfgs w1 = (w_cfgs w)[k := set_paused ?c]"
    by (rule pauseServices_single [OF assms(1,3)])
  have "map sc_name (w_cfgs w1) = map sc_name (w_cfgs w)" by (simp add: w1 map_update_same)
  then have f1: "find_cfg ?n (w_cfgs w1) = Some k" using assms(3) find_cfg_names by metis
  have p1: "is_paused (w_cfgs w1 ! k)" using k by (simp add: w1)
  have "w_cfgs w2 = (w_cfgs w)[k := clear_paused (fill_defaults (set_paused ?c))]"
    using resumeServices_single [OF assms(2) f1 p1] k by (simp add: w1)
  also have "\<dots> = w_cfgs w" using clear_set_paused [OF assms(5,6)] assms(4) by simp
  finally have "w_cfgs w2 = w_cfgs w" .
  moreover have "\<exists>i. w_calls w1 \<le> i \<and> w_reg w2 ?n = Some i \<and> i \<in> set (served w2)"
    using resumeServices_fact [OF assms(2)] f1 p1 by auto
  ultimately show ?thesis by blast
qed

lemma pause_resume_roundtrip_witness:
  "\<exists>w1 w2. pauseServices sample_env [''a''] one_world = (None, w1) \<and>
     resumeServices sample_env [''a''] w1 = (None, w2) \<and> w_cfgs w2 = w_cfgs one_world"
proof -
  let ?p = "pauseServices sample_env [''a''] one_world"
  have "fst ?p = None" "fst (resumeServices sample_env [''a''] (snd ?p)) = None" by code_simp+
  then obtain w1 w2 where r: "?p = (None, w1)" "resumeServices sample_env [''a''] w1 = (None, w2)"
    by (metis prod.collapse)
  have t: "find_cfg (TrimSpace ''a'') (w_cfgs one_world) = Some 0" by code_simp
  have "w_cfgs w2 = w_cfgs one_world"
    using pause_resume_roundtrip [OF r t] by (simp add: one_world_def sample_cfg_def)
  with r show ?thesis by blast
qed

section \<open>Registry and configuration in step\<close>

datatype 'r command =
    CreateServices "'r service_config list"
  | UpdateServices "'r service_config list"
  | DeleteServices "string list"
  | PauseServices "string list"
  | ResumeServices "string list"

fun exec :: "env \<Rightarrow> 'r command \<Rightarrow> 'r world \<Rightarrow> go_error \<times> 'r world" where
  "exec E (CreateServices req) w = createServices E req w"
| "exec E (UpdateServices req) w = updateServices E req w"
| "exec E (DeleteServices ns) w = deleteServices ns w"
| "exec E (PauseServices ns) w = pauseServices E ns w"
| "exec E (ResumeServices ns) w = resumeServices E ns w"

text \<open>Updating and resuming are the commands whose failure may lose a service.\<close>

fun atomic_on_failure :: "'r command \<Rightarrow> bool" where
  "atomic_on_failure (UpdateServices req) = False"
| "atomic_on_failure (ResumeServices ns) = False"
| "atomic_on_failure _ = True"

definition in_sync :: "'r world \<Rightarrow> bool" where
  "in_sync w = (dom (w_reg w) = sc_name ` set (w_cfgs w) \<and> distinct (map sc_name (w_cfgs w)))"

text \<open>A world reached from an agent without services by commands, as long as no update or resume fails.\<close>

inductive reached :: "env \<Rightarrow> 'r world \<Rightarrow> bool" for E where
  start: "w_reg w = Map.empty \<Longrightarrow> w_cfgs w = [] \<Longrightarrow> reached E w"
| step: "reached E w \<Longrightarrow> exec E c w = (e, w') \<Longrightarrow> e = None \<or> atomic_on_failure c \<Longrightarrow> reached E w'"

lemma in_syncI:
  "in_sync w \<Longrightarrow> dom (w_reg w') = dom (w_reg w) \<Longrightarrow>
   map sc_name (w_cfgs w') = map sc_name (w_cfgs w) \<Longrightarrow> in_sync w'"
  unfolding in_sync_def by (metis list.set_map)

lemma distinct_map_append_iff:
  "distinct (map f (xs @ ys)) \<longleftrightarrow> distinct (map f xs) \<and> distinct (map f ys) \<and> f ` set xs \<inter> f ` set ys = {}"
  by auto

lemma createServices_in_sync:
  assumes "createServices E req w = (e, w')" "in_sync w"
  shows "in_sync w'"
proof (cases e)
  case None
  note f = createServices_facts [OF assms(1) [unfolded None]]
  let ?ns = "map (TrimSpace \<circ> sc_name) req"
  have "dom (map_of (zip ?ns [w_calls w ..< w_calls w + length req])) = set ?ns"
    by (rule dom_map_of_zip) simp
  then have "dom (w_reg w') = set ?ns \<union> dom (w_reg w)"
    unfolding f(1) dom_map_add by (rule arg_cong)
  also have "\<dots> = sc_name ` set (w_cfgs w')"
    using assms(2) unfolding in_sync_def f(2) by (simp add: image_Un image_image Un_commute)
  finally have "dom (w_reg w') = sc_name ` set (w_cfgs w')" .
  moreover have "set ?ns \<inter> sc_name ` set (w_cfgs w) = {}"
  proof -
    have "set ?ns \<inter> dom (w_reg w) = {}" using f(4) by auto
    then show ?thesis using assms(2) by (simp add: in_sync_def)
  qed
  then have "distinct (map sc_name (w_cfgs w'))"
    using assms(2) f(3) unfolding in_sync_def f(2) by (auto simp: distinct_map_append_iff)
  ultimately show ?thesis unfolding in_sync_def by blast
next
  case (Some x)
  from createServices_atomic_fact [OF assms(1) [unfolded Some]] assms(2) show ?thesis
    by (simp add: in_sync_def)
qed

lemma deleteServices_in_sync:
  assumes "deleteServices ns w = (e, w')" "in_sync w"
  shows "in_sync w'"
proof (cases e)
  case None
  note f = deleteServices_fact [OF assms(1) [unfolded None]]
  then have "dom (w_reg w') = dom (w_reg w) - TrimSpace ` set ns"
    by (auto simp: dom_def split: if_splits)
  with f assms(2) show ?thesis
    by (auto simp: in_sync_def intro: distinct_map_filter)
next
  case (Some x)
  with assms have "w' = w" by (auto simp: deleteServices_def split: if_splits sum.splits)
  with assms(2) show ?thesis by simp
qed

lemma pauseServices_keeps_names:
  assumes "pauseServices E ns w = (e, w')"
  shows "w_reg w' = w_reg w \<and> map sc_name (w_cfgs w') = map sc_name (w_cfgs w)"
proof (cases e)
  case None
  from pauseServices_facts [OF assms [unfolded None]] show ?thesis by (simp add: update_each_names)
next
  case (Some x)
  show ?thesis
  proof (cases "\<exists>xs. lookup_services ns w = Inr xs \<and> ns \<noteq> []")
    case False
    with assms Some have "w' = w" by (auto simp: pauseServices_def split: if_splits sum.splits)
    then show ?thesis by simp
  next
    case True
    then obtain xs where l: "lookup_services ns w = Inr xs" and "ns \<noteq> []" by blast
    with assms Some obtain e' where q: "pause_loop E (w_cfgs w) xs [] w = (Inl e', w')"
      by (auto simp: pauseServices_def split: prod.splits sum.splits option.splits)
    have "w_reg w' = w_reg w"
      using pause_loop_fail [OF q] lookup_services_ok [OF l] by fastforce
    with pause_loop_names [OF q] show ?thesis by simp
  qed
qed

lemma run_step_in_sync:
  assumes "exec E c w = (e, w')" "e = None \<or> atomic_on_failure c" "in_sync w"
  shows "in_sync w'"
proof (cases c)
  case (UpdateServices req)
  with assms have "updateServices E req w = (None, w')" by simp
  from in_syncI [OF assms(3)] updateServices_keeps_names [OF this] show ?thesis by blast
next
  case (ResumeServices ns)
  with assms have "resumeServices E ns w = (None, w')" by simp
  from in_syncI [OF assms(3)] resumeServices_fact [OF this] show ?thesis by blast
next
  case (PauseServices ns)
  with assms have "pauseServices E ns w = (e, w')" by simp
  from pauseServices_keeps_names [OF this] show ?thesis by (intro in_syncI [OF assms(3)]) simp_all
next
  case (CreateServices req)
  with assms show ?thesis by (auto intro: createServices_in_sync)
next
  case (DeleteServices ns)
  with assms show ?thesis by (auto intro: deleteServices_in_sync)
qed

text \<open>
  In every run of service commands in which no update and no resume fails, the registry and
  the configuration list the same services, each once: also across failed creations, deletions
  and pauses.
\<close>

theorem reached_in_sync:
  assumes "reached E w"
  shows "in_sync w"
  using assms
proof (induction rule: reached.induct)
  case (start w)
  then show ?case by (simp add: in_sync_def)
next
  case (step w c e w')
  then show ?case using run_step_in_sync by blast
qed

lemma reached_in_sync_witness:
  "\<exists>w. reached sample_env (w :: unit world) \<and> w_reg w ''a'' \<noteq> None \<and> sc_name ` set (w_cfgs w) = dom (w_reg w)"
proof -
  let ?r = "createServices sample_env [sample_cfg ''a''] empty_world"
  have "fst ?r = None" by code_simp
  then obtain w where r: "?r = (None, w)" by (cases ?r) auto
  have s: "reached sample_env empty_world" by (rule reached.start) (simp_all add: empty_world_def)
  have "exec sample_env (CreateServices [sample_cfg ''a'']) empty_world = (None, w)" using r by simp
  from reached.step [OF s this] have w: "reached sample_env w" by simp
  have "w_reg (snd ?r) ''a'' \<noteq> None" by code_simp
  moreover have "w = snd ?r" by (simp add: r)
  moreover have "sc_name ` set (w_cfgs w) = dom (w_reg w)"
    using reached_in_sync [OF w] by (simp add: in_sync_def)
  ultimately show ?thesis using w by metis
qed

text \<open>
  The exception is real: from a world in step, a failed update leaves one out of step. A
  service the configuration still lists has left the registry.
\<close>

theorem failed_update_breaks_sync:
  assumes "in_sync w" "req \<noteq> []" "updateServices E req w = (Some e, w')" "update_validate req w = None"
  shows "\<not> in_sync w'"
proof -
  have "w_cfgs w' = w_cfgs w \<and> (\<exists>n. w_reg w n \<noteq> None \<and> w_reg w' n = None)"
    using updateServices_failure_fact [OF assms(3,2,4)] by blast
  then obtain n where "w_cfgs w' = w_cfgs w" "n \<in> dom (w_reg w)" "n \<notin> dom (w_reg w')" by blast
  with assms(1) show ?thesis unfolding in_sync_def by metis
qed

lemma failed_update_breaks_sync_witness:
  "\<not> in_sync (snd (updateServices failing_env [sample_cfg ''a''] one_world))"
proof -
  let ?r = "updateServices failing_env [sample_cfg ''a''] one_world"
  have "fst ?r = Some ''create service a failed: init''" by code_simp
  then obtain w' where r: "?r = (Some ''create service a failed: init'', w')" by (cases ?r) auto
  have v: "update_validate [sample_cfg ''a''] one_world = None" by code_simp
  have "in_sync one_world" by (simp add: in_sync_def one_world_def sample_cfg_def)
  from failed_update_breaks_sync [OF this _ r v] show ?thesis by (simp add: r)
qed

end
