(* ===== verification/ApiObjects.thy ===== *)
theory ApiObjects
  imports Registry
begin

text \<open>
  The REST handlers that create, update and delete the configurable objects of the agent
  (\<open>x/api/config_*.go\<close>, services apart), and the routes that lead to them (\<open>x/api/api.go\<close>).

  Every kind of object has a registry of live objects and a list of configurations in the global
  configuration. The fifteen files differ in the words of their messages, in whether building an
  object can fail, and in the one place named below. What an object is and how it is built
  (\<open>x/config/parsing\<close>) is left abstract here: a parser may fail and may fill in defaults in the
  configuration, but never changes its name.
\<close>

section \<open>Errors and replies\<close>

text \<open>
  The errors and replies of the REST API: \<open>x/api/error.go\<close>. A reply is the HTTP status together
  with the two fields \<open>code\<close> and \<open>msg\<close> of its JSON body; a successful handler answers
  \<open>ctx.JSON(http.StatusOK, Response{Msg: "OK"})\<close>.
\<close>

section \<open>Status codes and error codes\<close>

definition StatusOK :: int where "StatusOK = 200"

definition StatusBadRequest :: int where "StatusBadRequest = 400"

definition StatusUnauthorized :: int where "StatusUnauthorized = 401"

definition StatusInternalServerError :: int where "StatusInternalServerError = 500"

definition ErrCodeInvalid :: int where "ErrCodeInvalid = 40001"

definition ErrCodeDup :: int where "ErrCodeDup = 40002"

definition ErrCodeFailed :: int where "ErrCodeFailed = 40003"

definition ErrCodeNotFound :: int where "ErrCodeNotFound = 40004"

lemmas status_defs = StatusOK_def StatusBadRequest_def StatusInternalServerError_def
  ErrCodeInvalid_def ErrCodeDup_def ErrCodeFailed_def ErrCodeNotFound_def

section \<open>Errors\<close>

record api_error =
  ae_statusCode :: int
  ae_code :: int
  ae_msg :: string

definition NewError :: "int \<Rightarrow> int \<Rightarrow> string \<Rightarrow> api_error" where
  "NewError status code msg = \<lparr>ae_statusCode = status, ae_code = code, ae_msg = msg\<rparr>"

text \<open>The error handed to \<open>getStatusCode\<close> may be nil or an error of another type.\<close>

datatype any_error = ENil | EApi api_error | EOther string

definition getStatusCode :: "any_error \<Rightarrow> int" where
  "getStatusCode err =
     (case err of
        ENil \<Rightarrow> StatusOK
      | EApi e \<Rightarrow>
          if StatusOK \<le> ae_statusCode e \<and> ae_statusCode e < 600 then ae_statusCode e
          else StatusInternalServerError
      | EOther _ \<Rightarrow> StatusInternalServerError)"

record response =
  rs_status :: int
  rs_code :: int
  rs_msg :: string

definition writeError :: "api_error \<Rightarrow> response" where
  "writeError e =
     \<lparr>rs_status = getStatusCode (EApi e), rs_code = ae_code e, rs_msg = ae_msg e\<rparr>"

definition replyOK :: response where
  "replyOK = \<lparr>rs_status = StatusOK, rs_code = 0, rs_msg = ''OK''\<rparr>"

section \<open>What the replies say\<close>

lemma getStatusCode_range:
  "StatusOK \<le> getStatusCode err \<and> getStatusCode err < 600"
  by (cases err) (auto simp: getStatusCode_def status_defs)

lemma replyOK_status [simp]: "rs_status replyOK = StatusOK" "rs_msg replyOK = ''OK''"
  by (simp_all add: replyOK_def)

lemma writeError_bad [simp]:
  "rs_status (writeError (NewError StatusBadRequest c m)) = StatusBadRequest"
  "rs_status (writeError (NewError StatusInternalServerError c m)) = StatusInternalServerError"
  "rs_msg (writeError (NewError s c m)) = m"
  "rs_code (writeError (NewError s c m)) = c"
  by (simp_all add: writeError_def NewError_def getStatusCode_def status_defs)

lemma error_status_neq [simp]:
  "StatusBadRequest \<noteq> StatusOK" "StatusInternalServerError \<noteq> StatusOK"
  by (simp_all add: status_defs)

lemma error_reply_neq [simp]:
  "writeError (NewError StatusBadRequest c m) \<noteq> replyOK"
  "writeError (NewError StatusInternalServerError c m) \<noteq> replyOK"
  by (metis error_status_neq(1) replyOK_status(1) writeError_bad(1),
      metis error_status_neq(2) replyOK_status(1) writeError_bad(2))

lemma writeError_inject [simp]:
  "writeError (NewError s c m) = writeError (NewError s' c' m') \<Longrightarrow> c = c' \<and> m = m'"
  by (simp add: writeError_def NewError_def)


section \<open>Configurations and stores\<close>

record 'r object_config =
  oc_name :: string
  oc_rest :: 'r

type_synonym ('r, 'v) parser = "'r object_config \<Rightarrow> (string + 'v) \<times> 'r"

text \<open>
  \<open>st_dropped\<close> lists the objects \<open>Unregister\<close> has handed to \<open>Close\<close> (which an object that is no
  \<open>io.Closer\<close> does not have).
\<close>

record ('r, 'v) store =
  st_reg :: "'v registry"
  st_cfgs :: "'r object_config list"
  st_dropped :: "'v list"

definition infallible :: "('r object_config \<Rightarrow> 'v) \<Rightarrow> ('r, 'v) parser" where
  "infallible parse c = (Inr (parse c), oc_rest c)"

definition drop_object :: "'v \<Rightarrow> 'v list \<Rightarrow> 'v list" where
  "drop_object v s = s @ [v]"

text \<open>The loops over the configurations: replace the first of a name, drop all of a name.\<close>

fun replace_config :: "string \<Rightarrow> 'r object_config \<Rightarrow> 'r object_config list \<Rightarrow> 'r object_config list" where
  "replace_config name d [] = []"
| "replace_config name d (c # cs) =
     (if oc_name c = name then d # cs else c # replace_config name d cs)"

fun drop_config :: "string \<Rightarrow> 'r object_config list \<Rightarrow> 'r object_config list" where
  "drop_config name [] = []"
| "drop_config name (c # cs) =
     (if oc_name c = name then drop_config name cs else c # drop_config name cs)"

section \<open>The three handler bodies\<close>

definition dup_reply :: "string \<Rightarrow> string \<Rightarrow> string \<Rightarrow> response" where
  "dup_reply word name err =
     writeError (NewError StatusBadRequest ErrCodeDup (word @ '' '' @ name @ '' already exists''))"

text \<open>Creating a connection limiter reports the error of the registry in its own way.\<close>

definition conn_limiter_dup :: "string \<Rightarrow> string \<Rightarrow> response" where
  "conn_limiter_dup name err =
     writeError (NewError StatusInternalServerError ErrCodeFailed
       (''create limmiter '' @ name @ '' failed: '' @ err))"

definition create_object ::
    "string \<Rightarrow> (string \<Rightarrow> string \<Rightarrow> response) \<Rightarrow> ('r, 'v) parser \<Rightarrow> 'r object_config \<Rightarrow>
       ('r, 'v) store \<Rightarrow> response \<times> ('r, 'v) store" where
  "create_object word onDup parse data st =
     (let name = TrimSpace (oc_name data) in
      if name = [] then
        (writeError (NewError StatusBadRequest ErrCodeInvalid (word @ '' name is required'')), st)
      else if IsRegistered name (st_reg st) then
        (writeError (NewError StatusBadRequest ErrCodeDup
           (word @ '' '' @ name @ '' already exists'')), st)
      else case parse (data\<lparr>oc_name := name\<rparr>) of
        (Inl e, _) \<Rightarrow>
          (writeError (NewError StatusInternalServerError ErrCodeFailed
             (''create '' @ word @ '' '' @ name @ '' failed: '' @ e)), st)
      | (Inr v, r) \<Rightarrow>
          (case Register name v (st_reg st) of
             (Some e, m) \<Rightarrow> (onDup name e, st\<lparr>st_reg := m\<rparr>)
           | (None, m) \<Rightarrow>
               (replyOK, st\<lparr>st_reg := m, st_cfgs := st_cfgs st @ [\<lparr>oc_name = name, oc_rest = r\<rparr>]\<rparr>)))"

definition update_object ::
    "string \<Rightarrow> ('r, 'v) parser \<Rightarrow> string \<Rightarrow> 'r object_config \<Rightarrow>
       ('r, 'v) store \<Rightarrow> response \<times> ('r, 'v) store" where
  "update_object word parse param data st =
     (let name = TrimSpace param in
      if \<not> IsRegistered name (st_reg st) then
        (writeError (NewError StatusBadRequest ErrCodeNotFound
           (word @ '' '' @ name @ '' not found'')), st)
      else case parse (data\<lparr>oc_name := name\<rparr>) of
        (Inl e, _) \<Rightarrow>
          (writeError (NewError StatusInternalServerError ErrCodeFailed
             (''create '' @ word @ '' '' @ name @ '' failed: '' @ e)), st)
      | (Inr v, r) \<Rightarrow>
          (case Unregister drop_object name (st_reg st) (st_dropped st) of (m, dropped) \<Rightarrow>
             (let st1 = st\<lparr>st_reg := m, st_dropped := dropped\<rparr> in
              case Register name v (st_reg st1) of
                (Some e, m') \<Rightarrow> (dup_reply word name e, st1\<lparr>st_reg := m'\<rparr>)
              | (None, m') \<Rightarrow>
                  (replyOK, st1\<lparr>st_reg := m',
                     st_cfgs := replace_config name \<lparr>oc_name = name, oc_rest = r\<rparr> (st_cfgs st1)\<rparr>))))"

definition delete_object :: "string \<Rightarrow> string \<Rightarrow> ('r, 'v) store \<Rightarrow> response \<times> ('r, 'v) store" where
  "delete_object word param st =
     (let name = TrimSpace param in
      if \<not> IsRegistered name (st_reg st) then
        (writeError (NewError StatusBadRequest ErrCodeNotFound
           (word @ '' '' @ name @ '' not found'')), st)
      else case Unregister drop_object name (st_reg st) (st_dropped st) of (m, dropped) \<Rightarrow>
        (replyOK, st\<lparr>st_reg := m, st_dropped := dropped, st_cfgs := drop_config name (st_cfgs st)\<rparr>))"

section \<open>The handlers\<close>

text \<open>\<open>x/api/config_admission.go\<close>\<close>

definition createAdmission ::
    "('r object_config \<Rightarrow> 'v) \<Rightarrow> 'r object_config \<Rightarrow> ('r, 'v) store \<Rightarrow> response \<times> ('r, 'v) store" where
  "createAdmission parse = create_object ''admission'' (dup_reply ''admission'') (infallible parse)"

definition updateAdmission ::
    "('r object_config \<Rightarrow> 'v) \<Rightarrow> string \<Rightarrow> 'r object_config \<Rightarrow> ('r, 'v) store \<Rightarrow> response \<times> ('r, 'v) store" where
  "updateAdmission parse = update_object ''admission'' (infallible parse)"

definition deleteAdmission :: "string \<Rightarrow> ('r, 'v) store \<Rightarrow> response \<times> ('r, 'v) store" where
  "deleteAdmission = delete_object ''admission''"

text \<open>\<open>x/api/config_auther.go\<close>\<close>

definition createAuther ::
    "('r object_config \<Rightarrow> 'v) \<Rightarrow> 'r object_config \<Rightarrow> ('r, 'v) store \<Rightarrow> response \<times> ('r, 'v) store" where
  "createAuther parse = create_object ''auther'' (dup_reply ''auther'') (infallible parse)"

definition updateAuther ::
    "('r object_config \<Rightarrow> 'v) \<Rightarrow> string \<Rightarrow> 'r object_config \<Rightarrow> ('r, 'v) store \<Rightarrow> response \<times> ('r, 'v) store" where
  "updateAuther parse = update_object ''auther'' (infallible parse)"

definition deleteAuther :: "string \<Rightarrow> ('r, 'v) store \<Rightarrow> response \<times> ('r, 'v) store" where
  "deleteAuther = delete_object ''auther''"

text \<open>\<open>x/api/config_bypass.go\<close>\<close>

definition createBypass ::
    "('r object_config \<Rightarrow> 'v) \<Rightarrow> 'r object_config \<Rightarrow> ('r, 'v) store \<Rightarrow> response \<times> ('r, 'v) store" where
  "createBypass parse = create_object ''bypass'' (dup_reply ''bypass'') (infallible parse)"

definition updateBypass ::
    "('r object_config \<Rightarrow> 'v) \<Rightarrow> string \<Rightarrow> 'r object_config \<Rightarrow> ('r, 'v) store \<Rightarrow> response \<times> ('r, 'v) store" where
  "updateBypass parse = update_object ''bypass'' (infallible parse)"

definition deleteBypass :: "string \<Rightarrow> ('r, 'v) store \<Rightarrow> response \<times> ('r, 'v) store" where
  "deleteBypass = delete_object ''bypass''"

text \<open>\<open>x/api/config_chain.go\<close>\<close>

definition createChain ::
    "('r, 'v) parser \<Rightarrow> 'r object_config \<Rightarrow> ('r, 'v) store \<Rightarrow> response \<times> ('r, 'v) store" where
  "createChain parse = create_object ''chain'' (dup_reply ''chain'') parse"

definition updateChain ::
    "('r, 'v) parser \<Rightarrow> string \<Rightarrow> 'r object_config \<Rightarrow> ('r, 'v) store \<Rightarrow> response \<times> ('r, 'v) store" where
  "updateChain parse = update_object ''chain'' parse"

definition deleteChain :: "string \<Rightarrow> ('r, 'v) store \<Rightarrow> response \<times> ('r, 'v) store" where
  "deleteChain = delete_object ''chain''"

text \<open>\<open>x/api/config_conn_limiter.go\<close>\<close>

definition createConnLimiter ::
    "('r object_config \<Rightarrow> 'v) \<Rightarrow> 'r object_config \<Rightarrow> ('r, 'v) store \<Rightarrow> response \<times> ('r, 'v) store" where
  "createConnLimiter parse = create_object ''limiter'' conn_limiter_dup (infallible parse)"

definition updateConnLimiter ::
    "('r object_config \<Rightarrow> 'v) \<Rightarrow> string \<Rightarrow> 'r object_config \<Rightarrow> ('r, 'v) store \<Rightarrow> response \<times> ('r, 'v) store" where
  "updateConnLimiter parse = update_object ''limiter'' (infallible parse)"

definition deleteConnLimiter :: "string \<Rightarrow> ('r, 'v) store \<Rightarrow> response \<times> ('r, 'v) store" where
  "deleteConnLimiter = delete_object ''limiter''"

text \<open>\<open>x/api/config_hop.go\<close>\<close>

definition createHop ::
    "('r, 'v) parser \<Rightarrow> 'r object_config \<Rightarrow> ('r, 'v) store \<Rightarrow> response \<times> ('r, 'v) store" where
  "createHop parse = create_object ''hop'' (dup_reply ''hop'') parse"

definition updateHop ::
    "('r, 'v) parser \<Rightarrow> string \<Rightarrow> 'r object_config \<Rightarrow> ('r, 'v) store \<Rightarrow> response \<times> ('r, 'v) store" where
  "updateHop parse = update_object ''hop'' parse"

definition deleteHop :: "string \<Rightarrow> ('r, 'v) store \<Rightarrow> response \<times> ('r, 'v) store" where
  "deleteHop = delete_object ''hop''"

text \<open>\<open>x/api/config_hosts.go\<close>\<close>

definition createHosts ::
    "('r object_config \<Rightarrow> 'v) \<Rightarrow> 'r object_config \<Rightarrow> ('r, 'v) store \<Rightarrow> response \<times> ('r, 'v) store" where
  "createHosts parse = create_object ''hosts'' (dup_reply ''hosts'') (infallible parse)"

definition updateHosts ::
    "('r object_config \<Rightarrow> 'v) \<Rightarrow> string \<Rightarrow> 'r object_config \<Rightarrow> ('r, 'v) store \<Rightarrow> response \<times> ('r, 'v) store" where
  "updateHosts parse = update_object ''hosts'' (infallible parse)"

definition deleteHosts :: "string \<Rightarrow> ('r, 'v) store \<Rightarrow> response \<times> ('r, 'v) store" where
  "deleteHosts = delete_object ''hosts''"

text \<open>\<open>x/api/config_ingress.go\<close>\<close>

definition createIngress ::
    "('r object_config \<Rightarrow> 'v) \<Rightarrow> 'r object_config \<Rightarrow> ('r, 'v) store \<Rightarrow> response \<times> ('r, 'v) store" where
  "createIngress parse = create_object ''ingress'' (dup_reply ''ingress'') (infallible parse)"

definition updateIngress ::
    "('r object_config \<Rightarrow> 'v) \<Rightarrow> string \<Rightarrow> 'r object_config \<Rightarrow> ('r, 'v) store \<Rightarrow> response \<times> ('r, 'v) store" where
  "updateIngress parse = update_object ''ingress'' (infallible parse)"

definition deleteIngress :: "string \<Rightarrow> ('r, 'v) store \<Rightarrow> response \<times> ('r, 'v) store" where
  "deleteIngress = delete_object ''ingress''"

text \<open>\<open>x/api/config_limiter.go\<close>\<close>

definition createLimiter ::
    "('r object_config \<Rightarrow> 'v) \<Rightarrow> 'r object_config \<Rightarrow> ('r, 'v) store \<Rightarrow> response \<times> ('r, 'v) store" where
  "createLimiter parse = create_object ''limiter'' (dup_reply ''limiter'') (infallible parse)"

definition updateLimiter ::
    "('r object_config \<Rightarrow> 'v) \<Rightarrow> string \<Rightarrow> 'r object_config \<Rightarrow> ('r, 'v) store \<Rightarrow> response \<times> ('r, 'v) store" where
  "updateLimiter parse = update_object ''limiter'' (infallible parse)"

definition deleteLimiter :: "string \<Rightarrow> ('r, 'v) store \<Rightarrow> response \<times> ('r, 'v) store" where
  "deleteLimiter = delete_object ''limiter''"

text \<open>\<open>x/api/config_observer.go\<close>\<close>

definition createObserver ::
    "('r object_config \<Rightarrow> 'v) \<Rightarrow> 'r object_config \<Rightarrow> ('r, 'v) store \<Rightarrow> response \<times> ('r, 'v) store" where
  "createObserver parse = create_object ''observer'' (dup_reply ''observer'') (infallible parse)"

definition updateObserver ::
    "('r object_config \<Rightarrow> 'v) \<Rightarrow> string \<Rightarrow> 'r object_config \<Rightarrow> ('r, 'v) store \<Rightarrow> response \<times> ('r, 'v) store" where
  "updateObserver parse = update_object ''observer'' (infallible parse)"

definition deleteObserver :: "string \<Rightarrow> ('r, 'v) store \<Rightarrow> response \<times> ('r, 'v) store" where
  "deleteObserver = delete_object ''observer''"

text \<open>\<open>x/api/config_rate_limiter.go\<close>\<close>

definition createRateLimiter ::
    "('r object_config \<Rightarrow> 'v) \<Rightarrow> 'r object_config \<Rightarrow> ('r, 'v) store \<Rightarrow> response \<times> ('r, 'v) store" where
  "createRateLimiter parse = create_object ''limiter'' (dup_reply ''limiter'') (infallible parse)"

definition updateRateLimiter ::
    "('r object_config \<Rightarrow> 'v) \<Rightarrow> string \<Rightarrow> 'r object_config \<Rightarrow> ('r, 'v) store \<Rightarrow> response \<times> ('r, 'v) store" where
  "updateRateLimiter parse = update_object ''limiter'' (infallible parse)"

definition deleteRateLimiter :: "string \<Rightarrow> ('r, 'v) store \<Rightarrow> response \<times> ('r, 'v) store" where
  "deleteRateLimiter = delete_object ''limiter''"

text \<open>\<open>x/api/config_recorder.go\<close>\<close>

definition createRecorder ::
    "('r object_config \<Rightarrow> 'v) \<Rightarrow> 'r object_config \<Rightarrow> ('r, 'v) store \<Rightarrow> response \<times> ('r, 'v) store" where
  "createRecorder parse = create_object ''recorder'' (dup_reply ''recorder'') (infallible parse)"

definition updateRecorder ::
    "('r object_config \<Rightarrow> 'v) \<Rightarrow> string \<Rightarrow> 'r object_config \<Rightarrow> ('r, 'v) store \<Rightarrow> response \<times> ('r, 'v) store" where
  "updateRecorder parse = update_object ''recorder'' (infallible parse)"

definition deleteRecorder :: "string \<Rightarrow> ('r, 'v) store \<Rightarrow> response \<times> ('r, 'v) store" where
  "deleteRecorder = delete_object ''recorder''"

text \<open>\<open>x/api/config_resolver.go\<close>\<close>

definition createResolver ::
    "('r, 'v) parser \<Rightarrow> 'r object_config \<Rightarrow> ('r, 'v) store \<Rightarrow> response \<times> ('r, 'v) store" where
  "createResolver parse = create_object ''resolver'' (dup_reply ''resolver'') parse"

definition updateResolver ::
    "('r, 'v) parser \<Rightarrow> string \<Rightarrow> 'r object_config \<Rightarrow> ('r, 'v) store \<Rightarrow> response \<times> ('r, 'v) store" where
  "updateResolver parse = update_object ''resolver'' parse"

definition deleteResolver :: "string \<Rightarrow> ('r, 'v) store \<Rightarrow> response \<times> ('r, 'v) store" where
  "deleteResolver = delete_object ''resolver''"

text \<open>\<open>x/api/config_router.go\<close>\<close>

definition createRouter ::
    "('r object_config \<Rightarrow> 'v) \<Rightarrow> 'r object_config \<Rightarrow> ('r, 'v) store \<Rightarrow> response \<times> ('r, 'v) store" where
  "createRouter parse = create_object ''router'' (dup_reply ''router'') (infallible parse)"

definition updateRouter ::
    "('r object_config \<Rightarrow> 'v) \<Rightarrow> string \<Rightarrow> 'r object_config \<Rightarrow> ('r, 'v) store \<Rightarrow> response \<times> ('r, 'v) store" where
  "updateRouter parse = update_object ''router'' (infallible parse)"

definition deleteRouter :: "string \<Rightarrow> ('r, 'v) store \<Rightarrow> response \<times> ('r, 'v) store" where
  "deleteRouter = delete_object ''router''"

text \<open>\<open>x/api/config_sd.go\<close>\<close>

definition createSD ::
    "('r object_config \<Rightarrow> 'v) \<Rightarrow> 'r object_config \<Rightarrow> ('r, 'v) store \<Rightarrow> response \<times> ('r, 'v) store" where
  "createSD parse = create_object ''sd'' (dup_reply ''sd'') (infallible parse)"

definition updateSD ::
    "('r object_config \<Rightarrow> 'v) \<Rightarrow> string \<Rightarrow> 'r object_config \<Rightarrow> ('r, 'v) store \<Rightarrow> response \<times> ('r, 'v) store" where
  "updateSD parse = update_object ''sd'' (infallible parse)"

definition deleteSD :: "string \<Rightarrow> ('r, 'v) store \<Rightarrow> response \<times> ('r, 'v) store" where
  "deleteSD = delete_object ''sd''"

lemmas object_handlers =
  createAdmission_def updateAdmission_def deleteAdmission_def createAuther_def updateAuther_def deleteAuther_def
  createBypass_def updateBypass_def deleteBypass_def createChain_def updateChain_def deleteChain_def
  createConnLimiter_def updateConnLimiter_def deleteConnLimiter_def createHop_def updateHop_def deleteHop_def
  createHosts_def updateHosts_def deleteHosts_def createIngress_def updateIngress_def deleteIngress_def
  createLimiter_def updateLimiter_def deleteLimiter_def createObserver_def
  updateObserver_def deleteObserver_def createRateLimiter_def updateRateLimiter_def deleteRateLimiter_def
  createRecorder_def updateRecorder_def deleteRecorder_def createResolver_def updateResolver_def deleteResolver_def
  createRouter_def updateRouter_def deleteRouter_def createSD_def updateSD_def deleteSD_def

section \<open>Routing\<close>

datatype kind = KAdmission | KAuther | KBypass | KChain | KConnLimiter | KHop 
  | KHosts | KIngress | KLimiter | KObserver | KRateLimiter | KRecorder 
  | KResolver | KRouter | KSD

text \<open>The parsers of all kinds: those that can fail, and those that cannot.\<close>

record ('r, 'v) parsers =
  ps_fallible :: "kind \<Rightarrow> ('r, 'v) parser"
  ps_total :: "kind \<Rightarrow> 'r object_config \<Rightarrow> 'v"

fun create_handler ::
    "('r, 'v) parsers \<Rightarrow> kind \<Rightarrow> 'r object_config \<Rightarrow> ('r, 'v) store \<Rightarrow> response \<times> ('r, 'v) store" where
  "create_handler P KAdmission = createAdmission (ps_total P KAdmission)"
| "create_handler P KAuther = createAuther (ps_total P KAuther)"
| "create_handler P KBypass = createBypass (ps_total P KBypass)"
| "create_handler P KChain = createChain (ps_fallible P KChain)"
| "create_handler P KConnLimiter = createConnLimiter (ps_total P KConnLimiter)"
| "create_handler P KHop = createHop (ps_fallible P KHop)"
| "create_handler P KHosts = createHosts (ps_total P KHosts)"
| "create_handler P KIngress = createIngress (ps_total P KIngress)"
| "create_handler P KLimiter = createLimiter (ps_total P KLimiter)"
| "create_handler P KObserver = createObserver (ps_total P KObserver)"
| "create_handler P KRateLimiter = createRateLimiter (ps_total P KRateLimiter)"
| "create_handler P KRecorder = createRecorder (ps_total P KRecorder)"
| "create_handler P KResolver = createResolver (ps_fallible P KResolver)"
| "create_handler P KRouter = createRouter (ps_total P KRouter)"
| "create_handler P KSD = createSD (ps_total P KSD)"

fun update_handler ::
    "('r, 'v) parsers \<Rightarrow> kind \<Rightarrow> string \<Rightarrow> 'r object_config \<Rightarrow> ('r, 'v) store \<Rightarrow>
       response \<times> ('r, 'v) store" where
  "update_handler P KAdmission = updateAdmission (ps_total P KAdmission)"
| "update_handler P KAuther = updateAuther (ps_total P KAuther)"
| "update_handler P KBypass = updateBypass (ps_total P KBypass)"
| "update_handler P KChain = updateChain (ps_fallible P KChain)"
| "update_handler P KConnLimiter = updateConnLimiter (ps_total P KConnLimiter)"
| "update_handler P KHop = updateHop (ps_fallible P KHop)"
| "update_handler P KHosts = updateHosts (ps_total P KHosts)"
| "update_handler P KIngress = updateIngress (ps_total P KIngress)"
| "update_handler P KLimiter = updateLimiter (ps_total P KLimiter)"
| "update_handler P KObserver = updateObserver (ps_total P KObserver)"
| "update_handler P KRateLimiter = updateRateLimiter (ps_total P KRateLimiter)"
| "update_handler P KRecorder = updateRecorder (ps_total P KRecorder)"
| "update_handler P KResolver = updateResolver (ps_fallible P KResolver)"
| "update_handler P KRouter = updateRouter (ps_total P KRouter)"
| "update_handler P KSD = updateSD (ps_total P KSD)"

fun delete_handler :: "kind \<Rightarrow> string \<Rightarrow> ('r, 'v) store \<Rightarrow> response \<times> ('r, 'v) store" where
  "delete_handler KAdmission = deleteAdmission"
| "delete_handler KAuther = deleteAuther"
| "delete_handler KBypass = deleteBypass"
| "delete_handler KChain = deleteChain"
| "delete_handler KConnLimiter = deleteConnLimiter"
| "delete_handler KHop = deleteHop"
| "delete_handler KHosts = deleteHosts"
| "delete_handler KIngress = deleteIngress"
| "delete_handler KLimiter = deleteLimiter"
| "delete_handler KObserver = deleteObserver"
| "delete_handler KRateLimiter = deleteRateLimiter"
| "delete_handler KRecorder = deleteRecorder"
| "delete_handler KResolver = deleteResolver"
| "delete_handler KRouter = deleteRouter"
| "delete_handler KSD = deleteSD"

datatype 'r object_request =
    Post kind "'r object_config"
  | Put kind string "'r object_config"
  | Delete kind string

fun request_kind :: "'r object_request \<Rightarrow> kind" where
  "request_kind (Post k _) = k"
| "request_kind (Put k _ _) = k"
| "request_kind (Delete k _) = k"

text \<open>A request runs its handler on the store of its kind and leaves the others alone.\<close>

type_synonym ('r, 'v) stores = "kind \<Rightarrow> ('r, 'v) store"

fun run_handler ::
    "('r, 'v) parsers \<Rightarrow> 'r object_request \<Rightarrow> ('r, 'v) store \<Rightarrow> response \<times> ('r, 'v) store" where
  "run_handler P (Post k c) = create_handler P k c"
| "run_handler P (Put k n c) = update_handler P k n c"
| "run_handler P (Delete k n) = delete_handler k n"

definition serve_request ::
    "('r, 'v) parsers \<Rightarrow> 'r object_request \<Rightarrow> ('r, 'v) stores \<Rightarrow> response \<times> ('r, 'v) stores" where
  "serve_request P req sts =
     (case run_handler P req (sts (request_kind req)) of
        (reply, st) \<Rightarrow> (reply, sts(request_kind req := st)))"

end
