(* ===== verification/ObjectStore.thy ===== *)
theory ObjectStore
  imports ApiObjects
begin

text \<open>
  What the object handlers of the REST API guarantee: the contract \<open>object_api\<close> of a family of
  create/update/delete handlers, its interpretation on the handlers of every kind, and the
  properties of whole request sequences.
\<close>

named_theorems object_simps \<open>the effects of the object handlers on configuration lists\<close>

section \<open>Configuration lists\<close>

abbreviation cfg_names :: "('r, 'v) store \<Rightarrow> string list" where
  "cfg_names st \<equiv> map oc_name (st_cfgs st)"

lemma replace_config_names [object_simps, simp]:
  "oc_name d = n \<Longrightarrow> map oc_name (replace_config n d cs) = map oc_name cs"
  by (induction cs) auto

lemma drop_config_filter [object_simps]:
  "drop_config n cs = filter (\<lambda>c. oc_name c \<noteq> n) cs"
  by (induction cs) auto

lemma drop_config_names [object_simps, simp]:
  "map oc_name (drop_config n cs) = filter (\<lambda>x. x \<noteq> n) (map oc_name cs)"
  by (induction cs) auto

lemma replace_config_image [object_simps, simp]:
  "oc_name d = n \<Longrightarrow> oc_name ` set (replace_config n d cs) = oc_name ` set cs"
  by (induction cs) auto

lemma drop_config_image [object_simps, simp]:
  "oc_name ` set (drop_config n cs) = oc_name ` set cs - {n}"
  by (induction cs) auto

lemma replace_config_map:
  "distinct (map oc_name cs) \<Longrightarrow>
   replace_config n d cs = map (\<lambda>c. if oc_name c = n then d else c) cs"
proof (induction cs)
  case (Cons c cs)
  have "n \<notin> oc_name ` set cs \<Longrightarrow> map (\<lambda>c. if oc_name c = n then d else c) cs = cs"
    by (rule map_idI) auto
  then show ?case using Cons by auto
qed simp

section \<open>The three bodies\<close>

lemma create_object_cases:
  assumes "create_object word onDup parse data st = (reply, st')"
  obtains (refused) "rs_status reply \<noteq> StatusOK" "st' = st"
  | (created) n v r where "reply = replyOK" "n = TrimSpace (oc_name data)" "n \<noteq> []"
      "st_reg st n = None" "parse (data\<lparr>oc_name := n\<rparr>) = (Inr v, r)"
      "st' = st\<lparr>st_reg := (st_reg st)(n \<mapsto> v),
                st_cfgs := st_cfgs st @ [\<lparr>oc_name = n, oc_rest = r\<rparr>]\<rparr>"
  using assms
  by (auto simp: create_object_def Let_def Register_def IsRegistered_def split: if_splits option.splits sum.splits prod.splits)

lemma update_object_cases:
  assumes "update_object word parse param data st = (reply, st')"
  obtains (refused) "rs_status reply \<noteq> StatusOK" "st' = st"
  | (updated) n v r old where "reply = replyOK" "n = TrimSpace param"
      "st_reg st n = Some old" "parse (data\<lparr>oc_name := n\<rparr>) = (Inr v, r)"
      "st_dropped st' = st_dropped st @ [old]"
      "st_reg st' = (if n = [] then (st_reg st)(n := None) else (st_reg st)(n \<mapsto> v))"
      "st_cfgs st' = replace_config n \<lparr>oc_name = n, oc_rest = r\<rparr> (st_cfgs st)"
  using assms
  by (auto simp: update_object_def Let_def Register_def Unregister_def IsRegistered_def
      drop_object_def split: if_splits option.splits sum.splits prod.splits)

lemma delete_object_cases:
  assumes "delete_object word param st = (reply, st')"
  obtains (refused) "rs_status reply \<noteq> StatusOK" "st' = st"
  | (deleted) n old where "reply = replyOK" "n = TrimSpace param" "st_reg st n = Some old"
      "st' = st\<lparr>st_reg := (st_reg st)(n := None), st_dropped := st_dropped st @ [old],
                st_cfgs := drop_config n (st_cfgs st)\<rparr>"
  using assms
  by (auto simp: delete_object_def Let_def Unregister_def IsRegistered_def drop_object_def
      split: if_splits option.splits)

text \<open>Every handler is one of the three bodies, whatever its kind.\<close>

lemma create_handler_cases:
  assumes "create_handler P k data st = (reply, st')"
  obtains (refused) "rs_status reply \<noteq> StatusOK" "st' = st"
  | (created) n v r where "reply = replyOK" "n = TrimSpace (oc_name data)" "n \<noteq> []"
      "st_reg st n = None"
      "st' = st\<lparr>st_reg := (st_reg st)(n \<mapsto> v),
                st_cfgs := st_cfgs st @ [\<lparr>oc_name = n, oc_rest = r\<rparr>]\<rparr>"
proof -
  obtain w d p where "create_object w d p data st = (reply, st')"
    using assms by (cases k) (auto simp: object_handlers)
  then show thesis by (rule create_object_cases) (auto intro: that)
qed

lemma update_handler_cases:
  assumes "update_handler P k param data st = (reply, st')"
  obtains (refused) "rs_status reply \<noteq> StatusOK" "st' = st"
  | (updated) n v r old where "reply = replyOK" "n = TrimSpace param"
      "st_reg st n = Some old"
      "st_dropped st' = st_dropped st @ [old]"
      "st_reg st' = (if n = [] then (st_reg st)(n := None) else (st_reg st)(n \<mapsto> v))"
      "st_cfgs st' = replace_config n \<lparr>oc_name = n, oc_rest = r\<rparr> (st_cfgs st)"
proof -
  obtain w p where "update_object w p param data st = (reply, st')"
    using assms by (cases k) (auto simp: object_handlers)
  then show thesis by (rule update_object_cases) (auto intro: that)
qed

text \<open>The parser a kind of object has, and the object an update registers: the one it has just made.\<close>

fun parser_of :: "('r, 'v) parsers \<Rightarrow> kind \<Rightarrow> ('r, 'v) parser" where
  "parser_of P KChain = ps_fallible P KChain"
| "parser_of P KHop = ps_fallible P KHop"
| "parser_of P KResolver = ps_fallible P KResolver"
| "parser_of P k = infallible (ps_total P k)"

lemma update_handler_parses:
  assumes "update_handler P k param data st = (reply, st')" and "rs_status reply = StatusOK"
  obtains v r old where "st_reg st (TrimSpace param) = Some old"
    and "parser_of P k (data\<lparr>oc_name := TrimSpace param\<rparr>) = (Inr v, r)"
    and "st_reg st' = (if TrimSpace param = [] then (st_reg st)(TrimSpace param := None)
      else (st_reg st)(TrimSpace param \<mapsto> v))"
    and "st_cfgs st' = replace_config (TrimSpace param) \<lparr>oc_name = TrimSpace param, oc_rest = r\<rparr> (st_cfgs st)"
proof -
  obtain w where "update_object w (parser_of P k) param data st = (reply, st')"
    using assms(1) by (cases k) (auto simp: object_handlers)
  then show thesis by (rule update_object_cases) (use assms(2) in \<open>auto intro: that\<close>)
qed

lemma delete_handler_cases:
  assumes "delete_handler k param st = (reply, st')"
  obtains (refused) "rs_status reply \<noteq> StatusOK" "st' = st"
  | (deleted) n old where "reply = replyOK" "n = TrimSpace param" "st_reg st n = Some old"
      "st' = st\<lparr>st_reg := (st_reg st)(n := None), st_dropped := st_dropped st @ [old],
                st_cfgs := drop_config n (st_cfgs st)\<rparr>"
proof -
  obtain w where "delete_object w param st = (reply, st')"
    using assms by (cases k) (auto simp: object_handlers)
  then show thesis by (rule delete_object_cases) (auto intro: that)
qed

section \<open>The contract of the object handlers\<close>

text \<open>
  A store agrees with itself when the names in the registry are the names in the configuration,
  each listed once.
\<close>

definition store_ok :: "('r, 'v) store \<Rightarrow> bool" where
  "store_ok st \<longleftrightarrow> distinct (cfg_names st) \<and> [] \<notin> set (cfg_names st) \<and>
     (\<forall>n. n \<in> set (cfg_names st) \<longleftrightarrow> st_reg st n \<noteq> None)"

locale object_api =
  fixes create :: "'c \<Rightarrow> 's \<Rightarrow> response \<times> 's"
    and update :: "string \<Rightarrow> 'c \<Rightarrow> 's \<Rightarrow> response \<times> 's"
    and delete :: "string \<Rightarrow> 's \<Rightarrow> response \<times> 's"
    and cfg_name :: "'c \<Rightarrow> string"
    and names :: "'s \<Rightarrow> string set"
    and ok :: "'s \<Rightarrow> bool"
  assumes create_refused: "rs_status (fst (create c s)) \<noteq> StatusOK \<Longrightarrow> snd (create c s) = s"
    and update_refused: "rs_status (fst (update n c s)) \<noteq> StatusOK \<Longrightarrow> snd (update n c s) = s"
    and delete_refused: "rs_status (fst (delete n s)) \<noteq> StatusOK \<Longrightarrow> snd (delete n s) = s"
    and create_names: "rs_status (fst (create c s)) = StatusOK \<Longrightarrow>
      TrimSpace (cfg_name c) \<notin> names s \<and>
      names (snd (create c s)) = insert (TrimSpace (cfg_name c)) (names s)"
    and update_names: "ok s \<Longrightarrow> rs_status (fst (update n c s)) = StatusOK \<Longrightarrow>
      TrimSpace n \<in> names s \<and> names (snd (update n c s)) = names s"
    and delete_names: "rs_status (fst (delete n s)) = StatusOK \<Longrightarrow>
      TrimSpace n \<in> names s \<and> names (snd (delete n s)) = names s - {TrimSpace n}"
    and create_ok: "ok s \<Longrightarrow> ok (snd (create c s))"
    and update_ok: "ok s \<Longrightarrow> ok (snd (update n c s))"
    and delete_ok: "ok s \<Longrightarrow> ok (snd (delete n s))"
begin

lemma create_frees_on_delete:
  assumes "rs_status (fst (create c s)) = StatusOK"
    and "rs_status (fst (delete (cfg_name c) (snd (create c s)))) = StatusOK"
  shows "names (snd (delete (cfg_name c) (snd (create c s)))) = names s"
  using create_names [OF assms(1)] delete_names [OF assms(2)] by auto

lemma create_twice_refused:
  assumes "rs_status (fst (create c s)) = StatusOK" "TrimSpace (cfg_name d) = TrimSpace (cfg_name c)"
  shows "rs_status (fst (create d (snd (create c s)))) \<noteq> StatusOK"
  using create_names [OF assms(1)] create_names [of d "snd (create c s)"] assms(2) by auto

lemma deleted_not_updatable:
  assumes "rs_status (fst (delete n s)) = StatusOK" "ok s"
  shows "rs_status (fst (update n c (snd (delete n s)))) \<noteq> StatusOK"
  using delete_names [OF assms(1)] update_names [OF delete_ok [OF assms(2)]] by blast

end

lemma store_ok_create:
  assumes "store_ok st" "st_reg st n = None" "n \<noteq> []"
  shows "store_ok (st\<lparr>st_reg := (st_reg st)(n \<mapsto> v),
                      st_cfgs := st_cfgs st @ [\<lparr>oc_name = n, oc_rest = r\<rparr>]\<rparr>)"
  using assms by (auto simp: store_ok_def)

lemma store_ok_update:
  assumes "store_ok st" "st_reg st n = Some old"
    and "st_reg st' = (if n = [] then (st_reg st)(n := None) else (st_reg st)(n \<mapsto> v))"
    and "st_cfgs st' = replace_config n \<lparr>oc_name = n, oc_rest = r\<rparr> (st_cfgs st)"
  shows "store_ok st'" "n \<noteq> []"
proof -
  show n: "n \<noteq> []" using assms(1,2) by (auto simp: store_ok_def)
  show "store_ok st'" using assms n by (auto simp: store_ok_def)
qed

lemma store_ok_delete:
  assumes "store_ok st"
  shows "store_ok (st\<lparr>st_reg := (st_reg st)(n := None), st_dropped := d,
                      st_cfgs := drop_config n (st_cfgs st)\<rparr>)"
  using assms by (auto simp: store_ok_def)

interpretation crud: object_api "create_handler P k" "update_handler P k" "delete_handler k"
    oc_name "\<lambda>st. dom (st_reg st)" store_ok
  for P :: "('r, 'v) parsers" and k
proof (unfold_locales, goal_cases)
  case (1 c s)
  then show ?case by (cases "create_handler P k c s") (auto elim!: create_handler_cases)
next
  case (2 n c s)
  then show ?case by (cases "update_handler P k n c s") (auto elim!: update_handler_cases)
next
  case (3 n s)
  then show ?case by (cases "delete_handler k n s") (auto elim!: delete_handler_cases)
next
  case (4 c s)
  then show ?case by (cases "create_handler P k c s") (auto elim!: create_handler_cases)
next
  case (5 s n c)
  then show ?case
    by (cases "update_handler P k n c s")
      (auto elim!: update_handler_cases dest: store_ok_update(2) split: if_splits)
next
  case (6 n s)
  then show ?case
    by (cases "delete_handler k n s") (auto elim!: delete_handler_cases split: if_splits)
next
  case (7 s c)
  then show ?case
    by (cases "create_handler P k c s") (auto elim!: create_handler_cases intro: store_ok_create)
next
  case (8 s n c)
  then show ?case
    by (cases "update_handler P k n c s")
      (auto elim!: update_handler_cases intro: store_ok_update(1))
next
  case (9 s n)
  then show ?case
    by (cases "delete_handler k n s") (auto elim!: delete_handler_cases intro: store_ok_delete)
qed

section \<open>Requests against all stores\<close>

lemma run_handler_refused:
  assumes "run_handler P req st = (reply, st')" "rs_status reply \<noteq> StatusOK"
  shows "st' = st"
proof (cases req)
  case (Post k c)
  then show ?thesis using assms crud.create_refused [of P k c st] by simp
next
  case (Put k n c)
  then show ?thesis using assms crud.update_refused [of P k n c st] by simp
next
  case (Delete k n)
  then show ?thesis using assms crud.delete_refused [of k n st] by simp
qed

lemma run_handler_ok: "store_ok st \<Longrightarrow> store_ok (snd (run_handler P req st))"
  by (cases req) (simp_all add: crud.create_ok crud.update_ok crud.delete_ok)

lemma serve_request_refused:
  assumes "serve_request P req sts = (reply, sts')" "rs_status reply \<noteq> StatusOK"
  shows "sts' = sts"
proof -
  obtain st where "run_handler P req (sts (request_kind req)) = (reply, st)"
    and sts': "sts' = sts(request_kind req := st)"
    using assms(1) by (auto simp: serve_request_def split: prod.splits)
  then have "st = sts (request_kind req)" using run_handler_refused assms(2) by blast
  then show ?thesis using sts' by simp
qed

text \<open>
  A request the API refuses, whatever its kind and whatever the reason, changes nothing:
  neither its own store nor that of any other kind, and no object has been closed.
\<close>

theorem refused_request_changes_nothing:
  assumes "serve_request P req sts = (reply, sts')" "rs_status reply \<noteq> StatusOK"
  shows "sts' = sts"
  using assms by (rule serve_request_refused)

text \<open>A configuration parser that fails on the name \<open>bad\<close>, and objects that are numbers.\<close>

definition sample_parsers :: "(nat, nat) parsers" where
  "sample_parsers = \<lparr>ps_fallible = (\<lambda>k c.
       if oc_name c = ''bad'' then (Inl ''no nodes'', oc_rest c) else (Inr (oc_rest c), oc_rest c)),
     ps_total = (\<lambda>k c. oc_rest c)\<rparr>"

definition empty_store :: "(nat, nat) store" where
  "empty_store = \<lparr>st_reg = Map.empty, st_cfgs = [], st_dropped = []\<rparr>"

definition object_named :: "string \<Rightarrow> nat \<Rightarrow> nat object_config" where
  "object_named n x = \<lparr>oc_name = n, oc_rest = x\<rparr>"

theorem refused_request_changes_nothing_witness:
  "\<exists>reply sts'. serve_request sample_parsers (Post KHop (object_named ''bad'' 1)) (\<lambda>_. empty_store)
       = (reply, sts') \<and> rs_status reply = 500 \<and> sts' = (\<lambda>_. empty_store)"
proof -
  let ?r = "serve_request sample_parsers (Post KHop (object_named ''bad'' 1)) (\<lambda>_. empty_store)"
  have s: "rs_status (fst ?r) = 500" by code_simp
  then have "rs_status (fst ?r) \<noteq> StatusOK" by (simp add: StatusOK_def)
  then have "snd ?r = (\<lambda>_. empty_store)"
    by (rule refused_request_changes_nothing [OF prod.collapse [symmetric]])
  then show ?thesis using s by (metis prod.collapse)
qed

text \<open>
  The effect of a successful update: the new object takes the place of the old one, which is
  closed once, and the new configuration the place of the old one.
\<close>

lemma put_replaces_fact:
  assumes req: "serve_request P (Put k param data) sts = (reply, sts')"
    and ok: "rs_status reply = StatusOK" "store_ok (sts k)"
  shows "\<exists>v r old. st_reg (sts k) (TrimSpace param) = Some old \<and>
      st_reg (sts' k) = (st_reg (sts k))(TrimSpace param \<mapsto> v) \<and>
      st_dropped (sts' k) = st_dropped (sts k) @ [old] \<and>
      st_cfgs (sts' k) = map (\<lambda>c. if oc_name c = TrimSpace param
        then \<lparr>oc_name = TrimSpace param, oc_rest = r\<rparr> else c) (st_cfgs (sts k)) \<and>
      (\<forall>j. j \<noteq> k \<longrightarrow> sts' j = sts j)"
proof -
  obtain st where h: "update_handler P k param data (sts k) = (reply, st)" and sts': "sts' = sts(k := st)"
    using req by (auto simp: serve_request_def split: prod.splits)
  from h show ?thesis
  proof (cases rule: update_handler_cases)
    case refused
    then show ?thesis using ok by simp
  next
    case (updated n v r old)
    have ne: "n \<noteq> []" using updated ok(2) by (auto simp: store_ok_def)
    have "distinct (cfg_names (sts k))" using ok(2) by (simp add: store_ok_def)
    then have "st_cfgs st = map (\<lambda>c. if oc_name c = TrimSpace param
        then \<lparr>oc_name = TrimSpace param, oc_rest = r\<rparr> else c) (st_cfgs (sts k))"
      unfolding updated(6) updated(2) by (rule replace_config_map)
    moreover have "\<forall>j. j \<noteq> k \<longrightarrow> sts' j = sts j" "sts' k = st" unfolding sts' by simp_all
    ultimately show ?thesis
      using updated(2-5) ne
      by - (rule exI [of _ v], rule exI [of _ r], rule exI [of _ old], simp only: if_False simp_thms)
  qed
qed

text \<open>
  A successful update of an object, of any kind, replaces the live object of that name and
  closes the old one exactly once, replaces its configuration in place and leaves every other
  object, configuration and kind alone.
\<close>

theorem put_replaces:
  assumes "serve_request P (Put k param data) sts = (reply, sts')"
    and "rs_status reply = StatusOK" "store_ok (sts k)"
  shows "\<exists>v r old. st_reg (sts k) (TrimSpace param) = Some old \<and>
      st_reg (sts' k) = (st_reg (sts k))(TrimSpace param \<mapsto> v) \<and>
      st_dropped (sts' k) = st_dropped (sts k) @ [old] \<and>
      st_cfgs (sts' k) = map (\<lambda>c. if oc_name c = TrimSpace param
        then \<lparr>oc_name = TrimSpace param, oc_rest = r\<rparr> else c) (st_cfgs (sts k)) \<and>
      (\<forall>j. j \<noteq> k \<longrightarrow> sts' j = sts j)"
  using assms by (rule put_replaces_fact)

definition store_a :: "(nat, nat) store" where
  "store_a = \<lparr>st_reg = [''a'' \<mapsto> 1], st_cfgs = [object_named ''a'' 1], st_dropped = []\<rparr>"

lemma store_a_ok: "store_ok store_a"
  by (simp add: store_ok_def store_a_def object_named_def)

theorem put_replaces_witness:
  "st_dropped (snd (serve_request sample_parsers (Put KLimiter '' a'' (object_named ''b'' 2))
     (\<lambda>_. store_a)) KLimiter) = [1]"
proof -
  let ?r = "serve_request sample_parsers (Put KLimiter '' a'' (object_named ''b'' 2)) (\<lambda>_. store_a)"
  have s: "rs_status (fst ?r) = StatusOK" by code_simp
  have t: "TrimSpace '' a'' = ''a''" by code_simp
  then show ?thesis
    using put_replaces [OF prod.collapse [symmetric] s store_a_ok]
    by (auto simp: t store_a_def)
qed

section \<open>Sequences of requests\<close>

inductive requests_run :: "('r, 'v) parsers \<Rightarrow> ('r, 'v) stores \<Rightarrow> bool" for P where
  start: "requests_run P (\<lambda>_. \<lparr>st_reg = Map.empty, st_cfgs = [], st_dropped = []\<rparr>)"
| serve: "requests_run P sts \<Longrightarrow> requests_run P (snd (serve_request P req sts))"

lemma requests_run_ok: "requests_run P sts \<Longrightarrow> store_ok (sts k)"
proof (induction rule: requests_run.induct)
  case start
  then show ?case by (simp add: store_ok_def)
next
  case (serve sts req)
  then show ?case
    using run_handler_ok [of "sts (request_kind req)" P req]
    by (auto simp: serve_request_def split: prod.splits)
qed

text \<open>
  (C18) Whatever sequence of requests the API has served one after the other, and whichever of
  them failed, the live objects of every kind are exactly the configured ones: no name is
  configured twice, none is blank, and a name is registered if and only if it is configured.
\<close>

theorem requests_keep_stores_in_step:
  assumes "requests_run P sts"
  shows "distinct (cfg_names (sts k)) \<and> [] \<notin> set (cfg_names (sts k)) \<and>
    dom (st_reg (sts k)) = set (cfg_names (sts k))"
  using requests_run_ok [OF assms, of k] by (auto simp: store_ok_def)

theorem requests_keep_stores_in_step_witness:
  "dom (st_reg (snd (serve_request sample_parsers (Post KBypass (object_named ''a'' 1))
     (\<lambda>_. empty_store)) KBypass)) = {''a''}"
proof -
  let ?sts = "snd (serve_request sample_parsers (Post KBypass (object_named ''a'' 1)) (\<lambda>_. empty_store))"
  have r: "requests_run sample_parsers ?sts"
    unfolding empty_store_def by (rule requests_run.serve [OF requests_run.start])
  have n: "cfg_names (?sts KBypass) = [''a'']" by code_simp
  show ?thesis using requests_keep_stores_in_step [OF r, of KBypass] unfolding n by simp
qed

end
