(* ===== verification/SocketObjects.thy ===== *)
theory SocketObjects
  imports ObjectStore
begin

text \<open>
  The commands of the agent on chains and limiters, \<open>x/socket/chain.go\<close> and
  \<open>x/socket/limiter.go\<close>. They come in over the panel's websocket and answer with a Go error in
  place of an HTTP reply; both act on the stores of \<open>x/api\<close>.
\<close>

section \<open>Chains\<close>

definition socket_createChain ::
    "('r, 'v) parser \<Rightarrow> 'r object_config \<Rightarrow> ('r, 'v) store \<Rightarrow> go_error \<times> ('r, 'v) store" where
  "socket_createChain ParseChain data st =
     (let name = TrimSpace (oc_name data) in
      if name = [] then (Some ''chain name is required'', st)
      else if IsRegistered name (st_reg st) then (Some (''chain '' @ name @ '' already exists''), st)
      else case ParseChain (data\<lparr>oc_name := name\<rparr>) of
        (Inl e, _) \<Rightarrow> (Some (''create chain '' @ name @ '' failed: '' @ e), st)
      | (Inr v, r) \<Rightarrow>
          (case Register name v (st_reg st) of
             (Some _, m) \<Rightarrow> (Some (''chain '' @ name @ '' already exists''), st\<lparr>st_reg := m\<rparr>)
           | (None, m) \<Rightarrow>
               (nil_error, st\<lparr>st_reg := m, st_cfgs := st_cfgs st @ [\<lparr>oc_name = name, oc_rest = r\<rparr>]\<rparr>)))"

definition socket_updateChain ::
    "('r, 'v) parser \<Rightarrow> string \<Rightarrow> 'r object_config \<Rightarrow> ('r, 'v) store \<Rightarrow> go_error \<times> ('r, 'v) store" where
  "socket_updateChain ParseChain chain data st =
     (let name = TrimSpace chain in
      if \<not> IsRegistered name (st_reg st) then (Some (''chain '' @ name @ '' not found''), st)
      else case ParseChain (data\<lparr>oc_name := name\<rparr>) of
        (Inl e, _) \<Rightarrow> (Some (''create chain '' @ name @ '' failed: '' @ e), st)
      | (Inr v, r) \<Rightarrow>
          (case Unregister drop_object name (st_reg st) (st_dropped st) of (m, dropped) \<Rightarrow>
             (let st1 = st\<lparr>st_reg := m, st_dropped := dropped\<rparr> in
              case Register name v (st_reg st1) of
                (Some _, m') \<Rightarrow>
                  (Some (''chain '' @ name @ '' already exists''), st1\<lparr>st_reg := m'\<rparr>)
              | (None, m') \<Rightarrow>
                  (nil_error, st1\<lparr>st_reg := m',
                     st_cfgs := replace_config name \<lparr>oc_name = name, oc_rest = r\<rparr> (st_cfgs st1)\<rparr>))))"

definition socket_deleteChain :: "string \<Rightarrow> ('r, 'v) store \<Rightarrow> go_error \<times> ('r, 'v) store" where
  "socket_deleteChain chain st =
     (let name = TrimSpace chain in
      if \<not> IsRegistered name (st_reg st) then (Some (''chain '' @ name @ '' not found''), st)
      else case Unregister drop_object name (st_reg st) (st_dropped st) of (m, dropped) \<Rightarrow>
        (nil_error,
         st\<lparr>st_reg := m, st_dropped := dropped, st_cfgs := drop_config name (st_cfgs st)\<rparr>))"

section \<open>Traffic limiters\<close>

definition socket_createLimiter ::
    "('r object_config \<Rightarrow> 'v) \<Rightarrow> 'r object_config \<Rightarrow> ('r, 'v) store \<Rightarrow> go_error \<times> ('r, 'v) store" where
  "socket_createLimiter ParseTrafficLimiter data st =
     (let name = TrimSpace (oc_name data) in
      if name = [] then (Some ''limiter name is required'', st)
      else if IsRegistered name (st_reg st) then
        (Some (''limiter '' @ name @ '' already exists''), st)
      else
        (let data' = data\<lparr>oc_name := name\<rparr>; v = ParseTrafficLimiter data' in
         case Register name v (st_reg st) of
           (Some _, m) \<Rightarrow> (Some (''limiter '' @ name @ '' already exists''), st\<lparr>st_reg := m\<rparr>)
         | (None, m) \<Rightarrow>
             (nil_error, st\<lparr>st_reg := m,
                st_cfgs := st_cfgs st @ [\<lparr>oc_name = name, oc_rest = oc_rest data'\<rparr>]\<rparr>)))"

definition socket_updateLimiter ::
    "('r object_config \<Rightarrow> 'v) \<Rightarrow> string \<Rightarrow> 'r object_config \<Rightarrow> ('r, 'v) store \<Rightarrow>
       go_error \<times> ('r, 'v) store" where
  "socket_updateLimiter ParseTrafficLimiter limiter data st =
     (let name = TrimSpace limiter in
      if \<not> IsRegistered name (st_reg st) then (Some (''limiter '' @ name @ '' not found''), st)
      else
        (let data' = data\<lparr>oc_name := name\<rparr>; v = ParseTrafficLimiter data' in
         case Unregister drop_object name (st_reg st) (st_dropped st) of (m, dropped) \<Rightarrow>
           (let st1 = st\<lparr>st_reg := m, st_dropped := dropped\<rparr> in
            case Register name v (st_reg st1) of
              (Some _, m') \<Rightarrow>
                (Some (''limiter '' @ name @ '' already exists''), st1\<lparr>st_reg := m'\<rparr>)
            | (None, m') \<Rightarrow>
                (nil_error, st1\<lparr>st_reg := m',
                   st_cfgs := replace_config name \<lparr>oc_name = name, oc_rest = oc_rest data'\<rparr>
                     (st_cfgs st1)\<rparr>))))"

definition socket_deleteLimiter :: "string \<Rightarrow> ('r, 'v) store \<Rightarrow> go_error \<times> ('r, 'v) store" where
  "socket_deleteLimiter limiter st =
     (let name = TrimSpace limiter in
      if \<not> IsRegistered name (st_reg st) then (Some (''limiter '' @ name @ '' not found''), st)
      else case Unregister drop_object name (st_reg st) (st_dropped st) of (m, dropped) \<Rightarrow>
        (nil_error,
         st\<lparr>st_reg := m, st_dropped := dropped, st_cfgs := drop_config name (st_cfgs st)\<rparr>))"

section \<open>The two ways in agree\<close>

text \<open>What an HTTP reply tells, read as the error of a command.\<close>

definition reply_error :: "response \<Rightarrow> go_error" where
  "reply_error r = (if rs_status r = StatusOK then nil_error else Some (rs_msg r))"

fun socket_command ::
    "('r, 'v) parsers \<Rightarrow> 'r object_request \<Rightarrow> (('r, 'v) store \<Rightarrow> go_error \<times> ('r, 'v) store) option" where
  "socket_command P (Post k c) =
     (if k = KChain then Some (socket_createChain (ps_fallible P KChain) c)
      else if k = KLimiter then Some (socket_createLimiter (ps_total P KLimiter) c) else None)"
| "socket_command P (Put k n c) =
     (if k = KChain then Some (socket_updateChain (ps_fallible P KChain) n c)
      else if k = KLimiter then Some (socket_updateLimiter (ps_total P KLimiter) n c) else None)"
| "socket_command P (Delete k n) =
     (if k = KChain then Some (socket_deleteChain n)
      else if k = KLimiter then Some (socket_deleteLimiter n) else None)"

lemmas socket_defs = socket_createChain_def socket_updateChain_def socket_deleteChain_def
  socket_createLimiter_def socket_updateLimiter_def socket_deleteLimiter_def

lemma reply_error_simps [simp]:
  "reply_error replyOK = nil_error"
  "reply_error (writeError (NewError StatusBadRequest c m)) = Some m"
  "reply_error (writeError (NewError StatusInternalServerError c m)) = Some m"
  by (simp_all add: reply_error_def)

lemma chain_agree:
  "apfst reply_error (createChain p c st) = socket_createChain p c st"
  "apfst reply_error (updateChain p n c st) = socket_updateChain p n c st"
  "apfst reply_error (deleteChain n st) = socket_deleteChain n st"
  by (auto simp: socket_defs object_handlers create_object_def update_object_def delete_object_def
      dup_reply_def Let_def split: option.split sum.split prod.split)

lemma limiter_agree:
  "apfst reply_error (createLimiter q c st) = socket_createLimiter q c st"
  "apfst reply_error (updateLimiter q n c st) = socket_updateLimiter q n c st"
  "apfst reply_error (deleteLimiter n st) = socket_deleteLimiter n st"
  by (auto simp: socket_defs object_handlers create_object_def update_object_def delete_object_def
      dup_reply_def infallible_def Let_def split: option.split sum.split prod.split)

text \<open>
  The panel's websocket command on a chain or a traffic limiter and the REST request of the
  same content are the same operation: from the same store they leave the same store, and the
  command's error is nil exactly when the reply is 200 and is the message of the reply otherwise.
\<close>

theorem socket_command_agrees_with_api:
  assumes "socket_command P req = Some run"
  shows "run st = apfst reply_error (run_handler P req st)"
  using assms
  by (cases req) (auto simp: chain_agree limiter_agree split: if_splits)

theorem socket_command_agrees_with_api_witness:
  "\<exists>run. socket_command sample_parsers (Delete KChain ''a'') = Some run \<and>
     run store_a = (None, store_a\<lparr>st_reg := Map.empty, st_cfgs := [], st_dropped := [1]\<rparr>)"
proof -
  have "socket_command sample_parsers (Delete KChain ''a'') = Some (socket_deleteChain ''a'')"
    by simp
  note a = this socket_command_agrees_with_api [OF this, of store_a]
  have t: "TrimSpace ''a'' = ''a''" by code_simp
  show ?thesis
    unfolding a by (intro exI conjI, rule refl, subst a(2))
      (simp add: object_handlers delete_object_def t store_a_def object_named_def Unregister_def
        drop_object_def IsRegistered_def Let_def)
qed

end
