(* ===== verification/ApiServices.thy ===== *)
theory ApiServices
  imports SocketResume SocketObjects
begin

text \<open>
  The service handlers of the REST API, \<open>x/api/config_service.go\<close>: one service at a time, and
  the batch requests. They act on the same registry, configuration and service instances as the
  agent's own commands (\<open>SocketServices\<close>), whose loops over the registry and the configuration
  have the same text and are used here again; the validation phases differ in their replies.
\<close>

section \<open>Replies\<close>

definition invalid_reply :: "string \<Rightarrow> response" where
  "invalid_reply msg = writeError (NewError StatusBadRequest ErrCodeInvalid msg)"

definition dup_service :: "string \<Rightarrow> response" where
  "dup_service name =
     writeError (NewError StatusBadRequest ErrCodeDup (''service '' @ name @ '' already exists''))"

definition not_found :: "string \<Rightarrow> response" where
  "not_found name =
     writeError (NewError StatusBadRequest ErrCodeNotFound (''service '' @ name @ '' not found''))"

definition no_config :: "string \<Rightarrow> response" where
  "no_config name =
     writeError (NewError StatusBadRequest ErrCodeNotFound
       (''service '' @ name @ '' configuration not found''))"

definition failed_reply :: "string \<Rightarrow> response" where
  "failed_reply msg = writeError (NewError StatusInternalServerError ErrCodeFailed msg)"

lemmas reply_defs = invalid_reply_def dup_service_def not_found_def no_config_def failed_reply_def

section \<open>One service\<close>

definition createService ::
    "env \<Rightarrow> 'r service_config \<Rightarrow> 'r world \<Rightarrow> response \<times> 'r world" where
  "createService E data w =
     (let name = TrimSpace (sc_name data) in
      if name = [] then (invalid_reply ''service name is required'', w)
      else if IsRegistered name (w_reg w) then (dup_service name, w)
      else case ParseService E (data\<lparr>sc_name := name\<rparr>) w of
        (Inl e, _, w1) \<Rightarrow> (failed_reply (''create service '' @ name @ '' failed: '' @ e), w1)
      | (Inr i, c, w1) \<Rightarrow>
          (case regRegister name i w1 of
             (Some _, w2) \<Rightarrow> (dup_service name, svcClose i w2)
           | (None, w2) \<Rightarrow>
               (replyOK, snd (OnUpdate (edit (\<lambda>cs. cs @ [c])) (svcServe i w2)))))"

definition updateService ::
    "env \<Rightarrow> string \<Rightarrow> 'r service_config \<Rightarrow> 'r world \<Rightarrow> response \<times> 'r world" where
  "updateService E service data w =
     (let name = TrimSpace service in
      case Get name (w_reg w) of
        None \<Rightarrow> (not_found name, w)
      | Some old \<Rightarrow>
          (let w1 = regUnregister name (svcClose old w) in
           case ParseService E (data\<lparr>sc_name := name\<rparr>) w1 of
             (Inl e, _, w2) \<Rightarrow> (failed_reply (''create service '' @ name @ '' failed: '' @ e), w2)
           | (Inr i, c, w2) \<Rightarrow>
               (case regRegister name i w2 of
                  (Some _, w3) \<Rightarrow> (dup_service name, svcClose i w3)
                | (None, w3) \<Rightarrow>
                    (replyOK, snd (OnUpdate (edit (update_first name (\<lambda>_. c))) (svcServe i w3))))))"

definition deleteService :: "string \<Rightarrow> 'r world \<Rightarrow> response \<times> 'r world" where
  "deleteService service w =
     (let name = TrimSpace service in
      case Get name (w_reg w) of
        None \<Rightarrow> (not_found name, w)
      | Some i \<Rightarrow>
          (replyOK,
           snd (OnUpdate (edit (filter (\<lambda>c. sc_name c \<noteq> name)))
             (svcClose i (regUnregister name w)))))"

text \<open>Pausing one service looks its instance up and never closes it.\<close>

definition pauseService :: "string \<Rightarrow> 'r world \<Rightarrow> response \<times> 'r world" where
  "pauseService service w =
     (let name = TrimSpace service in
      case Get name (w_reg w) of
        None \<Rightarrow> (not_found name, w)
      | Some _ \<Rightarrow>
          (let addr = (case find_cfg name (w_cfgs w) of
                         None \<Rightarrow> [] | Some k \<Rightarrow> sc_addr (w_cfgs w ! k))
           in (replyOK, snd (OnUpdate (edit (update_first name set_paused)) (forceClose addr w)))))"

text \<open>A nil \<open>Metadata\<close> is replaced by an empty map in the configuration before it is looked at.\<close>

definition make_meta :: "'r service_config \<Rightarrow> 'r service_config" where
  "make_meta c = c\<lparr>sc_meta := Some (case sc_meta c of None \<Rightarrow> [] | Some m \<Rightarrow> m)\<rparr>"

definition resumeService :: "env \<Rightarrow> string \<Rightarrow> 'r world \<Rightarrow> response \<times> 'r world" where
  "resumeService E service w =
     (let name = TrimSpace service in
      case Get name (w_reg w) of
        None \<Rightarrow> (not_found name, w)
      | Some i \<Rightarrow>
          (case find_cfg name (w_cfgs w) of
             None \<Rightarrow> (no_config name, w)
           | Some k \<Rightarrow>
               (let w0 = w\<lparr>w_cfgs := (w_cfgs w)[k := make_meta (w_cfgs w ! k)]\<rparr> in
                if \<not> is_paused (w_cfgs w0 ! k) then
                  (invalid_reply (''service '' @ name @ '' is not paused''), w0)
                else
                  (let w1 = regUnregister name (svcClose i w0) in
                   case ParseService E (w_cfgs w1 ! k) w1 of (r, c, w2) \<Rightarrow>
                     (let w3 = w2\<lparr>w_cfgs := (w_cfgs w2)[k := c]\<rparr> in
                      case r of
                        Inl e \<Rightarrow> (failed_reply (''resume service '' @ name @ '' failed: '' @ e), w3)
                      | Inr j \<Rightarrow>
                          (case regRegister name j w3 of
                             (Some _, w4) \<Rightarrow> (dup_service name, svcClose j w4)
                           | (None, w4) \<Rightarrow>
                               (replyOK,
                                snd (OnUpdate (edit (update_first name clear_paused)) (svcServe j w4)))))))))"

record service_status_info =
  ssi_name :: string
  ssi_status :: string
  ssi_paused :: bool

definition getServiceStatus :: "string \<Rightarrow> 'r world \<Rightarrow> response + service_status_info" where
  "getServiceStatus service w =
     (let name = TrimSpace service in
      case Get name (w_reg w) of
        None \<Rightarrow> Inl (not_found name)
      | Some _ \<Rightarrow>
          (let paused = (case List.find (\<lambda>c. sc_name c = name \<and> sc_meta c \<noteq> None) (w_cfgs w) of
                           None \<Rightarrow> False | Some c \<Rightarrow> is_paused c)
           in Inr \<lparr>ssi_name = name, ssi_status = (if paused then ''paused'' else ''running''),
                   ssi_paused = paused\<rparr>))"

section \<open>Batches\<close>

fun api_create_validate ::
    "env \<Rightarrow> 'r service_config list \<Rightarrow> 'r world \<Rightarrow>
       (response + ('r service_config \<times> nat) list) \<times> 'r world" where
  "api_create_validate E [] w = (Inr [], w)"
| "api_create_validate E (c # cs) w =
     (let name = TrimSpace (sc_name c) in
      if name = [] then (Inl (invalid_reply ''service name is required''), w)
      else if IsRegistered name (w_reg w) then (Inl (dup_service name), w)
      else (case ParseService E (c\<lparr>sc_name := name\<rparr>) w of
          (Inl e, c', w1) \<Rightarrow>
            (Inl (failed_reply (''create service '' @ name @ '' failed: '' @ e)), w1)
        | (Inr i, c', w1) \<Rightarrow>
            (case api_create_validate E cs w1 of
               (Inl e, w2) \<Rightarrow> (Inl e, w2)
             | (Inr ps, w2) \<Rightarrow> (Inr ((c', i) # ps), w2))))"

fun api_create_register ::
    "('r service_config \<times> nat) list \<Rightarrow> string list \<Rightarrow> 'r world \<Rightarrow> response option \<times> 'r world" where
  "api_create_register [] registered w = (None, w)"
| "api_create_register ((c, i) # ps) registered w =
     (case regRegister (sc_name c) i w of
        (Some _, w1) \<Rightarrow> (Some (dup_service (sc_name c)), create_rollback registered w1)
      | (None, w1) \<Rightarrow> api_create_register ps (registered @ [sc_name c]) w1)"

definition api_createServices ::
    "env \<Rightarrow> 'r service_config list \<Rightarrow> 'r world \<Rightarrow> response \<times> 'r world" where
  "api_createServices E req w =
     (if req = [] then (invalid_reply ''services list cannot be empty'', w)
      else case api_create_validate E req w of
        (Inl e, w1) \<Rightarrow> (e, w1)
      | (Inr ps, w1) \<Rightarrow>
          (case api_create_register ps [] w1 of
             (Some e, w2) \<Rightarrow> (e, w2)
           | (None, w2) \<Rightarrow>
               (let w3 = create_serve ps w2;
                    w4 = snd (OnUpdate (edit (\<lambda>cs. cs @ map fst ps)) w3)
                in (replyOK, w4))))"

fun api_update_validate :: "'r service_config list \<Rightarrow> 'r world \<Rightarrow> response option" where
  "api_update_validate [] w = None"
| "api_update_validate (c # cs) w =
     (let name = TrimSpace (sc_name c) in
      if name = [] then Some (invalid_reply ''service name is required'')
      else case Get name (w_reg w) of
        None \<Rightarrow> Some (not_found name)
      | Some _ \<Rightarrow> api_update_validate cs w)"

fun api_update_loop ::
    "env \<Rightarrow> 'r service_config list \<Rightarrow> 'r world \<Rightarrow> response option \<times> 'r world" where
  "api_update_loop E [] w = (None, w)"
| "api_update_loop E (c # cs) w =
     (let name = TrimSpace (sc_name c);
          w1 = (case Get name (w_reg w) of None \<Rightarrow> w | Some old \<Rightarrow> svcClose old w);
          w2 = regUnregister name w1
      in case ParseService E (c\<lparr>sc_name := name\<rparr>) w2 of
           (Inl e, _, w3) \<Rightarrow>
             (Some (failed_reply (''create service '' @ name @ '' failed: '' @ e)), w3)
         | (Inr i, _, w3) \<Rightarrow>
             (case regRegister name i w3 of
                (Some _, w4) \<Rightarrow> (Some (dup_service name), svcClose i w4)
              | (None, w4) \<Rightarrow> api_update_loop E cs (svcServe i w4)))"

definition api_updateServices ::
    "env \<Rightarrow> 'r service_config list \<Rightarrow> 'r world \<Rightarrow> response \<times> 'r world" where
  "api_updateServices E req w =
     (if req = [] then (invalid_reply ''services list cannot be empty'', w)
      else case api_update_validate req w of
        Some e \<Rightarrow> (e, w)
      | None \<Rightarrow>
          (case api_update_loop E req w of
             (Some e, w1) \<Rightarrow> (e, w1)
           | (None, w1) \<Rightarrow> (replyOK, snd (OnUpdate (edit (update_configs req)) w1))))"

fun api_lookup_services :: "string list \<Rightarrow> 'r world \<Rightarrow> response + (string \<times> nat) list" where
  "api_lookup_services [] w = Inr []"
| "api_lookup_services (n # ns) w =
     (let name = TrimSpace n in
      if name = [] then Inl (invalid_reply ''service name is required'')
      else case Get name (w_reg w) of
        None \<Rightarrow> Inl (not_found name)
      | Some i \<Rightarrow>
          (case api_lookup_services ns w of Inl e \<Rightarrow> Inl e | Inr xs \<Rightarrow> Inr ((name, i) # xs)))"

definition api_deleteServices :: "string list \<Rightarrow> 'r world \<Rightarrow> response \<times> 'r world" where
  "api_deleteServices names w =
     (if names = [] then (invalid_reply ''services list cannot be empty'', w)
      else case api_lookup_services names w of
        Inl e \<Rightarrow> (e, w)
      | Inr xs \<Rightarrow>
          (replyOK, snd (OnUpdate (edit (drop_configs (map fst xs))) (delete_loop xs w))))"

text \<open>A service that is already marked as paused is skipped, and no service is closed.\<close>

fun api_pause_validate ::
    "'r service_config list \<Rightarrow> string list \<Rightarrow> 'r world \<Rightarrow> response + (string \<times> nat) list" where
  "api_pause_validate cfg [] w = Inr []"
| "api_pause_validate cfg (n # ns) w =
     (let name = TrimSpace n in
      if name = [] then Inl (invalid_reply ''service name is required'')
      else case Get name (w_reg w) of
        None \<Rightarrow> Inl (not_found name)
      | Some i \<Rightarrow>
          (let skip = (case find_cfg name cfg of None \<Rightarrow> False | Some k \<Rightarrow> is_paused (cfg ! k)) in
           case api_pause_validate cfg ns w of
             Inl e \<Rightarrow> Inl e
           | Inr xs \<Rightarrow> Inr (if skip then xs else (name, i) # xs)))"

fun api_pause_loop ::
    "env \<Rightarrow> 'r service_config list \<Rightarrow> (string \<times> nat) list \<Rightarrow> acted list \<Rightarrow> 'r world \<Rightarrow>
       (response + acted list) \<times> 'r world" where
  "api_pause_loop E cfg [] paused w = (Inr paused, w)"
| "api_pause_loop E cfg ((name, i) # xs) paused w =
     (case find_last_cfg name cfg of
        None \<Rightarrow> (Inl (failed_reply (''service '' @ name @ '' configuration not found'')),
                 rollbackPausedServices E paused w)
      | Some k \<Rightarrow>
          api_pause_loop E cfg xs (paused @ [(name, i, k)]) (forceClose (sc_addr (cfg ! k)) w))"

definition api_pauseServices :: "env \<Rightarrow> string list \<Rightarrow> 'r world \<Rightarrow> response \<times> 'r world" where
  "api_pauseServices E names w =
     (if names = [] then (invalid_reply ''services list cannot be empty'', w)
      else case api_pause_validate (w_cfgs w) names w of
        Inl e \<Rightarrow> (e, w)
      | Inr xs \<Rightarrow>
          (case api_pause_loop E (w_cfgs w) xs [] w of
             (Inl e, w1) \<Rightarrow> (e, w1)
           | (Inr paused, w1) \<Rightarrow>
               (case OnUpdate (edit (update_each (map fst xs) set_paused)) w1 of
                  (Some e, w2) \<Rightarrow>
                    (failed_reply (''Failed to update config, rolling back paused services: '' @ e),
                     rollbackPausedServices E paused w2)
                | (None, w2) \<Rightarrow> (replyOK, w2))))"

fun api_resume_validate ::
    "'r service_config list \<Rightarrow> string list \<Rightarrow> 'r world \<Rightarrow> response + acted list" where
  "api_resume_validate cfg [] w = Inr []"
| "api_resume_validate cfg (n # ns) w =
     (let name = TrimSpace n in
      if name = [] then Inl (invalid_reply ''service name is required'')
      else case Get name (w_reg w) of
        None \<Rightarrow> Inl (not_found name)
      | Some i \<Rightarrow>
          (case find_cfg name cfg of
             None \<Rightarrow> Inl (no_config name)
           | Some k \<Rightarrow>
               (case api_resume_validate cfg ns w of
                  Inl e \<Rightarrow> Inl e
                | Inr xs \<Rightarrow> Inr (if is_paused (cfg ! k) then (name, i, k) # xs else xs))))"

fun api_resume_loop ::
    "env \<Rightarrow> acted list \<Rightarrow> acted list \<Rightarrow> 'r world \<Rightarrow> (response + acted list) \<times> 'r world" where
  "api_resume_loop E [] resumed w = (Inr resumed, w)"
| "api_resume_loop E ((name, i, k) # xs) resumed w =
     (let w1 = regUnregister name (svcClose i w) in
      case ParseService E (w_cfgs w1 ! k) w1 of (r, c', w2) \<Rightarrow>
        (let w3 = w2\<lparr>w_cfgs := (w_cfgs w2)[k := c']\<rparr> in
         case r of
           Inl e \<Rightarrow> (Inl (failed_reply (''resume service '' @ name @ '' failed: '' @ e)),
                     rollbackResumedServices resumed w3)
         | Inr j \<Rightarrow>
             (case regRegister name j w3 of
                (Some _, w4) \<Rightarrow>
                  (Inl (dup_service name), rollbackResumedServices resumed (svcClose j w4))
              | (None, w4) \<Rightarrow>
                  api_resume_loop E xs (resumed @ [(name, i, k)]) (svcServe j w4))))"

definition api_resumeServices :: "env \<Rightarrow> string list \<Rightarrow> 'r world \<Rightarrow> response \<times> 'r world" where
  "api_resumeServices E names w =
     (if names = [] then (invalid_reply ''services list cannot be empty'', w)
      else case api_resume_validate (w_cfgs w) names w of
        Inl e \<Rightarrow> (e, w)
      | Inr xs \<Rightarrow>
          (case api_resume_loop E xs [] w of
             (Inl e, w1) \<Rightarrow> (e, w1)
           | (Inr resumed, w1) \<Rightarrow>
               (case OnUpdate (edit (update_each (map fst xs) clear_paused)) w1 of
                  (Some e, w2) \<Rightarrow>
                    (failed_reply (''Failed to update config, rolling back resumed services: '' @ e),
                     rollbackResumedServices resumed w2)
                | (None, w2) \<Rightarrow> (replyOK, w2))))"

end
