(* ===== verification/ApiServicesProps.thy ===== *)
theory ApiServicesProps
  imports ApiServices
begin

text \<open>
  The batch requests of the REST API agree with the agent's commands, except for pausing; what
  the REST way of pausing and of replacing one service does.
\<close>

section \<open>The replies as errors\<close>

lemma reply_error_replies [simp]:
  "reply_error (invalid_reply m) = Some m"
  "reply_error (failed_reply m) = Some m"
  "reply_error (dup_service n) = Some (''service '' @ n @ '' already exists'')"
  "reply_error (not_found n) = Some (''service '' @ n @ '' not found'')"
  "reply_error (no_config n) = Some (''service '' @ n @ '' configuration not found'')"
  by (simp_all add: reply_defs)

lemma reply_status [simp]:
  "rs_status (invalid_reply m) = StatusBadRequest" "rs_status (failed_reply m) = StatusInternalServerError"
  "rs_status (dup_service n) = StatusBadRequest" "rs_status (not_found n) = StatusBadRequest"
  "rs_status (no_config n) = StatusBadRequest"
  by (simp_all add: reply_defs)

section \<open>The phases agree\<close>

definition phase_eq :: "(response + 'a) \<times> 'w \<Rightarrow> (string + 'a) \<times> 'w \<Rightarrow> bool" where
  "phase_eq a s \<longleftrightarrow> snd a = snd s \<and> map_sum reply_error id (fst a) = map_sum Some id (fst s)"

definition loop_eq :: "response option \<times> 'w \<Rightarrow> go_error \<times> 'w \<Rightarrow> bool" where
  "loop_eq a s \<longleftrightarrow> snd a = snd s \<and> map_option reply_error (fst a) = map_option Some (fst s)"

lemma phase_eq_simps [simp]:
  "phase_eq (Inl r, w) (x, w') \<longleftrightarrow> w = w' \<and> (\<exists>e. x = Inl e \<and> reply_error r = Some e)"
  "phase_eq (Inr v, w) (x, w') \<longleftrightarrow> w = w' \<and> x = Inr v"
  by (cases x; auto simp: phase_eq_def)+

lemma loop_eq_simps [simp]:
  "loop_eq (None, w) (x, w') \<longleftrightarrow> w = w' \<and> x = None"
  "loop_eq (Some r, w) (x, w') \<longleftrightarrow> w = w' \<and> x \<noteq> None \<and> reply_error r = x"
  by (cases x; auto simp: loop_eq_def)+

lemma create_validate_agrees: "phase_eq (api_create_validate E cs w) (create_validate E cs w)"
proof (induction cs arbitrary: w)
  case (Cons c cs)
  obtain r c' w1 where q: "ParseService E (c\<lparr>sc_name := TrimSpace (sc_name c)\<rparr>) w = (r, c', w1)"
    by (cases "ParseService E (c\<lparr>sc_name := TrimSpace (sc_name c)\<rparr>) w") auto
  obtain a wa where a: "api_create_validate E cs w1 = (a, wa)" by (cases "api_create_validate E cs w1")
  obtain s ws where s: "create_validate E cs w1 = (s, ws)" by (cases "create_validate E cs w1")
  from Cons.IH [of w1] show ?case
    by (cases r; cases a) (auto simp: Let_def q a s)
qed simp

lemma create_register_agrees: "loop_eq (api_create_register ps ns w) (create_register ps ns w)"
proof (induction ps arbitrary: ns w)
  case (Cons p ps)
  obtain c i where p: "p = (c, i)" by (cases p)
  obtain e w1 where g: "regRegister (sc_name c) i w = (e, w1)" by (cases "regRegister (sc_name c) i w")
  show ?case using Cons.IH [of "ns @ [sc_name c]" w1] by (cases e) (simp_all add: p g)
qed simp

lemma update_validate_agrees:
  "map_option reply_error (api_update_validate cs w) = map_option Some (update_validate cs w)"
  by (induction cs) (auto simp: Let_def split: option.splits)

lemma update_loop_agrees: "loop_eq (api_update_loop E cs w) (update_loop E cs w)"
proof (induction cs arbitrary: w)
  case (Cons c cs)
  let ?n = "TrimSpace (sc_name c)"
  let ?w1 = "case Get ?n (w_reg w) of None \<Rightarrow> w | Some old \<Rightarrow> svcClose old w"
  obtain r c' w3 where q: "ParseService E (c\<lparr>sc_name := ?n\<rparr>) (regUnregister ?n ?w1) = (r, c', w3)"
    by (cases "ParseService E (c\<lparr>sc_name := ?n\<rparr>) (regUnregister ?n ?w1)") auto
  show ?case
  proof (cases r)
    case (Inr i)
    obtain e w4 where g: "regRegister ?n i w3 = (e, w4)" by (cases "regRegister ?n i w3")
    show ?thesis using Cons.IH [of "svcServe i w4"] by (cases e) (simp_all add: Let_def q g Inr)
  qed (simp add: Let_def q)
qed simp

lemma lookup_services_agrees:
  "map_sum reply_error id (api_lookup_services ns w) = map_sum Some id (lookup_services ns w)"
proof (induction ns)
  case (Cons n ns)
  then show ?case
    by (cases "api_lookup_services ns w"; cases "lookup_services ns w")
      (auto simp: Let_def split: option.splits)
qed simp

lemma resume_validate_agrees:
  "map_sum reply_error id (api_resume_validate cfg ns w) = map_sum Some id (resume_validate cfg ns w)"
proof (induction ns)
  case (Cons n ns)
  then show ?case
    by (cases "api_resume_validate cfg ns w"; cases "resume_validate cfg ns w")
      (auto simp: Let_def split: option.splits)
qed simp

lemma resume_loop_agrees: "phase_eq (api_resume_loop E xs rs w) (resume_loop E xs rs w)"
proof (induction xs arbitrary: rs w)
  case (Cons x xs)
  obtain n i k where x: "x = (n, i, k)" by (cases x)
  let ?w1 = "regUnregister n (svcClose i w)"
  obtain r c' w2 where q: "ParseService E (w_cfgs ?w1 ! k) ?w1 = (r, c', w2)"
    by (cases "ParseService E (w_cfgs ?w1 ! k) ?w1") auto
  let ?w3 = "w2\<lparr>w_cfgs := (w_cfgs w2)[k := c']\<rparr>"
  show ?case
  proof (cases r)
    case (Inr j)
    obtain e w4 where g: "regRegister n j ?w3 = (e, w4)" by (cases "regRegister n j ?w3")
    show ?thesis using Cons.IH [of "rs @ [(n, i, k)]" "svcServe j w4"] q
      by (cases e) (simp_all add: Let_def x g Inr)
  qed (use q in \<open>simp add: Let_def x\<close>)
qed simp

section \<open>The batches agree\<close>

text \<open>The batch requests of the API on the content of a command.\<close>

fun api_exec :: "env \<Rightarrow> 'r command \<Rightarrow> 'r world \<Rightarrow> response \<times> 'r world" where
  "api_exec E (CreateServices req) w = api_createServices E req w"
| "api_exec E (UpdateServices req) w = api_updateServices E req w"
| "api_exec E (DeleteServices ns) w = api_deleteServices ns w"
| "api_exec E (PauseServices ns) w = api_pauseServices E ns w"
| "api_exec E (ResumeServices ns) w = api_resumeServices E ns w"

fun is_pause :: "'r command \<Rightarrow> bool" where
  "is_pause (PauseServices ns) = True"
| "is_pause _ = False"

lemma createServices_agrees:
  "apfst reply_error (api_createServices E req w) = createServices E req w"
proof -
  obtain a w1 where a: "api_create_validate E req w = (a, w1)" by (cases "api_create_validate E req w")
  obtain s w1' where s: "create_validate E req w = (s, w1')" by (cases "create_validate E req w")
  note v = create_validate_agrees [of E req w, unfolded a s]
  show ?thesis
  proof (cases a)
    case (Inr ps)
    obtain b w2 where b: "api_create_register ps [] w1 = (b, w2)" by (cases "api_create_register ps [] w1")
    obtain t w2' where t: "create_register ps [] w1 = (t, w2')" by (cases "create_register ps [] w1")
    from create_register_agrees [of ps "[]" w1, unfolded b t] v Inr a s b t show ?thesis
      by (cases b) (auto simp: api_createServices_def createServices_def Let_def)
  qed (use v a s in \<open>auto simp: api_createServices_def createServices_def\<close>)
qed

lemma updateServices_agrees:
  "apfst reply_error (api_updateServices E req w) = updateServices E req w"
proof -
  obtain a w1 where a: "api_update_loop E req w = (a, w1)" by (cases "api_update_loop E req w")
  obtain s w1' where s: "update_loop E req w = (s, w1')" by (cases "update_loop E req w")
  from update_loop_agrees [of E req w, unfolded a s] update_validate_agrees [of req w]
  show ?thesis
    by (cases a; cases "api_update_validate req w"; cases "update_validate req w")
      (auto simp: api_updateServices_def updateServices_def a s)
qed

lemma deleteServices_agrees:
  "apfst reply_error (api_deleteServices ns w) = deleteServices ns w"
  using lookup_services_agrees [of ns w]
  by (cases "api_lookup_services ns w"; cases "lookup_services ns w")
    (auto simp: api_deleteServices_def deleteServices_def)

lemma resumeServices_agrees:
  "apfst reply_error (api_resumeServices E ns w) = resumeServices E ns w"
proof (cases "api_resume_validate (w_cfgs w) ns w")
  case (Inl r)
  then show ?thesis using resume_validate_agrees [of "w_cfgs w" ns w]
    by (cases "resume_validate (w_cfgs w) ns w")
      (auto simp: api_resumeServices_def resumeServices_def)
next
  case (Inr xs)
  then have v: "resume_validate (w_cfgs w) ns w = Inr xs"
    using resume_validate_agrees [of "w_cfgs w" ns w]
    by (cases "resume_validate (w_cfgs w) ns w") auto
  obtain a w1 where a: "api_resume_loop E xs [] w = (a, w1)" by (cases "api_resume_loop E xs [] w")
  obtain s w1' where s: "resume_loop E xs [] w = (s, w1')" by (cases "resume_loop E xs [] w")
  from resume_loop_agrees [of E xs "[]" w, unfolded a s] show ?thesis
    by (cases a) (auto simp: api_resumeServices_def resumeServices_def Inr v a s)
qed

text \<open>
  (C34) The REST batch requests and the agent's commands are the same operations, pausing aside:
  on the same world they leave the same world, call the same methods on the same instances in the
  same order, and report the same message. What holds of one way in holds of the other.
\<close>

theorem batch_requests_agree_with_commands:
  assumes "\<not> is_pause c"
  shows "exec E c w = apfst reply_error (api_exec E c w)"
  using assms
  by (cases c) (simp_all add: createServices_agrees updateServices_agrees deleteServices_agrees
      resumeServices_agrees)

theorem batch_requests_agree_with_commands_witness:
  "fst (exec sample_env (DeleteServices ['' '']) one_world) = Some ''service name is required''"
proof -
  have "rs_msg (fst (api_exec sample_env (DeleteServices ['' '']) one_world)) = ''service name is required''"
    "rs_status (fst (api_exec sample_env (DeleteServices ['' '']) one_world)) \<noteq> StatusOK"
    by code_simp+
  then show ?thesis
    by (subst batch_requests_agree_with_commands) (simp_all add: reply_error_def)
qed

section \<open>Pausing over REST\<close>

lemma api_pause_loop_ok:
  "api_pause_loop E cfg xs paused w = (Inr ps, w') \<Longrightarrow>
     w_reg w' = w_reg w \<and> w_cfgs w' = w_cfgs w \<and> served w' = served w \<and> closed w' = closed w \<and>
     w_open w' = w_open w"
proof (induction xs arbitrary: w paused)
  case (Cons x xs)
  obtain n i where x: "x = (n, i)" by (cases x)
  from Cons.prems obtain k where k: "find_last_cfg n cfg = Some k"
    by (auto simp: x split: option.splits)
  from Cons.prems k have "api_pause_loop E cfg xs (paused @ [(n, i, k)])
      (forceClose (sc_addr (cfg ! k)) w) = (Inr ps, w')"
    by (simp add: x)
  from Cons.IH [OF this] show ?case by (simp add: closed_def served_def forceClose_def split: if_splits)
qed simp

lemma api_pauseServices_facts:
  assumes "api_pauseServices E names w = (reply, w')" "rs_status reply = StatusOK"
  shows "w_reg w' = w_reg w \<and> w_open w' = w_open w \<and> served w' = served w \<and> closed w' = closed w \<and>
    (\<exists>xs. api_pause_validate (w_cfgs w) names w = Inr xs \<and>
          w_cfgs w' = update_each (map fst xs) set_paused (w_cfgs w))"
proof -
  have err: "api_pause_validate cfg ns v = Inl r \<Longrightarrow> rs_status r \<noteq> StatusOK" for cfg ns r v
    by (induction ns) (auto simp: Let_def split: if_splits option.splits sum.splits)
  have loop_err: "api_pause_loop E cfg xs ps v = (Inl r, v') \<Longrightarrow> rs_status r \<noteq> StatusOK" for cfg xs ps r v v'
    by (induction xs arbitrary: ps v) (auto split: option.splits)
  from assms obtain xs ps w1 where l: "api_pause_validate (w_cfgs w) names w = Inr xs"
    and q: "api_pause_loop E (w_cfgs w) xs [] w = (Inr ps, w1)"
    and w': "w' = w1\<lparr>w_cfgs := update_each (map fst xs) set_paused (w_cfgs w1)\<rparr>"
    by (auto simp: api_pauseServices_def split: if_splits prod.splits sum.splits dest: err loop_err)
  show ?thesis using api_pause_loop_ok [OF q] l by (simp add: w' served_def closed_def)
qed

text \<open>
  Pausing over REST does not stop a service. A pause the API answers with 200 closes no
  service instance and no listener, unregisters nothing and only marks the configurations, while
  \<open>deleteServices\<close> and the agent's own pause do close: the ``paused'' service goes on accepting
  connections. The API documents that the service ``will be stopped''.
\<close>

theorem rest_pause_keeps_service_running:
  assumes "api_pauseServices E names w = (reply, w')" "rs_status reply = StatusOK"
  shows "w_reg w' = w_reg w \<and> w_open w' = w_open w \<and> served w' = served w \<and> closed w' = closed w"
  using api_pauseServices_facts [OF assms] by simp

theorem rest_pause_keeps_service_running_witness:
  "w_open (snd (api_pauseServices sample_env [''a''] one_world)) = [0] \<and>
   (\<exists>i. getServiceStatus ''a'' (snd (api_pauseServices sample_env [''a''] one_world)) = Inr i \<and>
        ssi_status i = ''paused'')"
proof -
  let ?r = "api_pauseServices sample_env [''a''] one_world"
  have s: "rs_status (fst ?r) = StatusOK" by code_simp
  have "(case getServiceStatus ''a'' (snd ?r) of Inr i \<Rightarrow> ssi_status i = ''paused'' | Inl _ \<Rightarrow> False)"
    by code_simp
  then show ?thesis
    using rest_pause_keeps_service_running [OF prod.collapse [symmetric] s]
    by (simp add: one_world_def split: sum.splits)
qed

section \<open>Replacing one service over REST\<close>

lemma updateService_failure_fact:
  assumes "updateService E service data w = (reply, w')" "rs_status reply \<noteq> StatusOK"
    and "w_reg w (TrimSpace service) \<noteq> None" "TrimSpace service \<noteq> []"
  shows "w_reg w' = (w_reg w)(TrimSpace service := None) \<and> w_cfgs w' = w_cfgs w"
proof -
  let ?n = "TrimSpace service"
  obtain old where old: "Get ?n (w_reg w) = Some old" using assms(3,4) by (auto simp: Get_def)
  let ?w1 = "regUnregister ?n (svcClose old w)"
  obtain r c w2 where q: "ParseService E (data\<lparr>sc_name := ?n\<rparr>) ?w1 = (r, c, w2)"
    by (cases "ParseService E (data\<lparr>sc_name := ?n\<rparr>) ?w1") auto
  have w2: "w_reg w2 = (w_reg w)(?n := None)" "w_cfgs w2 = w_cfgs w"
    using ParseService_frame [OF q] by simp_all
  show ?thesis
  proof (cases r)
    case (Inl e)
    then show ?thesis using assms(1) old q w2 by (simp add: updateService_def Let_def)
  next
    case (Inr i)
    have "regRegister ?n i w2 = (nil_error, w2\<lparr>w_reg := (w_reg w2)(?n \<mapsto> i)\<rparr>)"
      using assms(4) w2 by (intro regRegister_new) simp_all
    then show ?thesis using assms(1,2) old q Inr by (auto simp: updateService_def Let_def)
  qed
qed

text \<open>
  Unlike every other object of the API, a service is not replaced atomically: when
  \<open>PUT /config/services/{service}\<close> of a registered service is refused, the service is gone from
  the registry, with its configuration still in place, so that deleting, pausing or updating it
  again only answers ``not found''.
\<close>

theorem failed_put_loses_service:
  assumes "updateService E service data w = (reply, w')" "rs_status reply \<noteq> StatusOK"
    and "w_reg w (TrimSpace service) \<noteq> None" "TrimSpace service \<noteq> []"
  shows "w_reg w' = (w_reg w)(TrimSpace service := None) \<and> w_cfgs w' = w_cfgs w \<and>
    rs_status (fst (deleteService service w')) = StatusBadRequest \<and>
    rs_status (fst (updateService E' service data' w')) = StatusBadRequest"
  using updateService_failure_fact [OF assms] assms(4)
  by (simp add: deleteService_def updateService_def Get_def Let_def)

theorem failed_put_loses_service_witness:
  "w_reg (snd (updateService failing_env ''a'' (sample_cfg ''a'') one_world)) = Map.empty \<and>
   map sc_name (w_cfgs (snd (updateService failing_env ''a'' (sample_cfg ''a'') one_world))) = [''a'']"
proof -
  let ?r = "updateService failing_env ''a'' (sample_cfg ''a'') one_world"
  have s: "rs_status (fst ?r) \<noteq> StatusOK" by code_simp
  have t: "TrimSpace ''a'' = ''a''" by code_simp
  have "w_reg one_world (TrimSpace ''a'') \<noteq> None" "TrimSpace ''a'' \<noteq> []"
    unfolding t by (simp_all add: one_world_def)
  from failed_put_loses_service [OF prod.collapse [symmetric] s this] show ?thesis
    unfolding t by (simp add: one_world_def sample_cfg_def fill_defaults_def)
qed

end
