(* ===== verification/ApiRace.thy ===== *)
theory ApiRace
  imports ObjectStore "HOL-Library.Multiset"
begin

text \<open>
  The object handlers run concurrently: gin serves every request on its own goroutine, and a
  handler takes no lock of its own. What is atomic is each call on the registry's \<open>sync.Map\<close>
  (\<open>Load\<close>, \<open>LoadOrStore\<close>, \<open>Delete\<close>) and each \<open>config.OnUpdate\<close>. Here the bodies of
  \<open>ApiObjects\<close> are cut at these points; a schedule picks the goroutine that takes the next step.
  A goroutine that runs alone does what the handler of \<open>ApiObjects\<close> does.
\<close>

section \<open>The handlers in steps\<close>

datatype ('r, 'v) goroutine =
    CreateStart "'r object_config"
  | CreateParsed string 'v 'r
  | CreateRegistered string 'r
  | UpdateStart string "'r object_config"
  | UpdateParsed string 'v 'r
  | UpdateClosed string 'v 'r
  | UpdateDropped string 'v 'r
  | UpdateRegistered string 'r
  | DeleteStart string
  | DeleteFound string
  | DeleteClosed string
  | DeleteDropped string
  | Finished response

text \<open>\<open>Unregister\<close> loads and closes the object in one step and deletes the entry in another.\<close>

definition load_and_close :: "string \<Rightarrow> ('r, 'v) store \<Rightarrow> ('r, 'v) store" where
  "load_and_close n st =
     (case st_reg st n of
        None \<Rightarrow> st
      | Some v \<Rightarrow> st\<lparr>st_dropped := drop_object v (st_dropped st)\<rparr>)"

fun go_step ::
    "string \<Rightarrow> (string \<Rightarrow> string \<Rightarrow> response) \<Rightarrow> ('r, 'v) parser \<Rightarrow> ('r, 'v) goroutine \<Rightarrow>
       ('r, 'v) store \<Rightarrow> ('r, 'v) goroutine \<times> ('r, 'v) store" where
  "go_step word onDup parse (CreateStart data) st =
     (let name = TrimSpace (oc_name data) in
      if name = [] then
        (Finished (writeError (NewError StatusBadRequest ErrCodeInvalid (word @ '' name is required''))), st)
      else if IsRegistered name (st_reg st) then
        (Finished (writeError (NewError StatusBadRequest ErrCodeDup
           (word @ '' '' @ name @ '' already exists''))), st)
      else case parse (data\<lparr>oc_name := name\<rparr>) of
        (Inl e, _) \<Rightarrow>
          (Finished (writeError (NewError StatusInternalServerError ErrCodeFailed
             (''create '' @ word @ '' '' @ name @ '' failed: '' @ e))), st)
      | (Inr v, r) \<Rightarrow> (CreateParsed name v r, st))"
| "go_step word onDup parse (CreateParsed name v r) st =
     (case Register name v (st_reg st) of
        (Some e, m) \<Rightarrow> (Finished (onDup name e), st\<lparr>st_reg := m\<rparr>)
      | (None, m) \<Rightarrow> (CreateRegistered name r, st\<lparr>st_reg := m\<rparr>))"
| "go_step word onDup parse (CreateRegistered name r) st =
     (Finished replyOK, st\<lparr>st_cfgs := st_cfgs st @ [\<lparr>oc_name = name, oc_rest = r\<rparr>]\<rparr>)"
| "go_step word onDup parse (UpdateStart param data) st =
     (let name = TrimSpace param in
      if \<not> IsRegistered name (st_reg st) then
        (Finished (writeError (NewError StatusBadRequest ErrCodeNotFound
           (word @ '' '' @ name @ '' not found''))), st)
      else case parse (data\<lparr>oc_name := name\<rparr>) of
        (Inl e, _) \<Rightarrow>
          (Finished (writeError (NewError StatusInternalServerError ErrCodeFailed
             (''create '' @ word @ '' '' @ name @ '' failed: '' @ e))), st)
      | (Inr v, r) \<Rightarrow> (UpdateParsed name v r, st))"
| "go_step word onDup parse (UpdateParsed name v r) st =
     (if st_reg st name = None then (UpdateDropped name v r, st)
      else (UpdateClosed name v r, load_and_close name st))"
| "go_step word onDup parse (UpdateClosed name v r) st =
     (UpdateDropped name v r, st\<lparr>st_reg := (st_reg st)(name := None)\<rparr>)"
| "go_step word onDup parse (UpdateDropped name v r) st =
     (case Register name v (st_reg st) of
        (Some e, m) \<Rightarrow> (Finished (dup_reply word name e), st\<lparr>st_reg := m\<rparr>)
      | (None, m) \<Rightarrow> (UpdateRegistered name r, st\<lparr>st_reg := m\<rparr>))"
| "go_step word onDup parse (UpdateRegistered name r) st =
     (Finished replyOK,
      st\<lparr>st_cfgs := replace_config name \<lparr>oc_name = name, oc_rest = r\<rparr> (st_cfgs st)\<rparr>)"
| "go_step word onDup parse (DeleteStart param) st =
     (let name = TrimSpace param in
      if \<not> IsRegistered name (st_reg st) then
        (Finished (writeError (NewError StatusBadRequest ErrCodeNotFound
           (word @ '' '' @ name @ '' not found''))), st)
      else (DeleteFound name, st))"
| "go_step word onDup parse (DeleteFound name) st =
     (if st_reg st name = None then (DeleteDropped name, st)
      else (DeleteClosed name, load_and_close name st))"
| "go_step word onDup parse (DeleteClosed name) st =
     (DeleteDropped name, st\<lparr>st_reg := (st_reg st)(name := None)\<rparr>)"
| "go_step word onDup parse (DeleteDropped name) st =
     (Finished replyOK, st\<lparr>st_cfgs := drop_config name (st_cfgs st)\<rparr>)"
| "go_step word onDup parse (Finished reply) st = (Finished reply, st)"

fun go_steps ::
    "nat \<Rightarrow> string \<Rightarrow> (string \<Rightarrow> string \<Rightarrow> response) \<Rightarrow> ('r, 'v) parser \<Rightarrow> ('r, 'v) goroutine \<Rightarrow>
       ('r, 'v) store \<Rightarrow> ('r, 'v) goroutine \<times> ('r, 'v) store" where
  "go_steps 0 word onDup parse g st = (g, st)"
| "go_steps (Suc k) word onDup parse g st =
     (case go_step word onDup parse g st of (g', st') \<Rightarrow> go_steps k word onDup parse g' st')"

lemma go_steps_Finished [simp]: "go_steps k w d p (Finished r) st = (Finished r, st)"
  by (induction k) simp_all

fun body_of ::
    "string \<Rightarrow> (string \<Rightarrow> string \<Rightarrow> response) \<Rightarrow> ('r, 'v) parser \<Rightarrow> ('r, 'v) goroutine \<Rightarrow>
       ('r, 'v) store \<Rightarrow> response \<times> ('r, 'v) store" where
  "body_of w d p (CreateStart c) st = create_object w d p c st"
| "body_of w d p (UpdateStart n c) st = update_object w p n c st"
| "body_of w d p (DeleteStart n) st = delete_object w n st"
| "body_of w d p _ st = (replyOK, st)"

fun starting :: "('r, 'v) goroutine \<Rightarrow> bool" where
  "starting (CreateStart c) = True"
| "starting (UpdateStart n c) = True"
| "starting (DeleteStart n) = True"
| "starting _ = False"

lemma create_alone:
  "go_steps 5 w d p (CreateStart c) st = apfst Finished (create_object w d p c st)"
  by (auto simp: numeral_eq_Suc create_object_def Let_def IsRegistered_def Register_def
      split: option.split sum.split prod.split)

lemma update_alone:
  "go_steps 5 w d p (UpdateStart n c) st = apfst Finished (update_object w p n c st)"
  by (auto simp: numeral_eq_Suc update_object_def Let_def IsRegistered_def Register_def
      Unregister_def load_and_close_def split: option.split sum.split prod.split)

lemma delete_alone:
  "go_steps 5 w d p (DeleteStart n) st = apfst Finished (delete_object w n st)"
  by (auto simp: numeral_eq_Suc delete_object_def Let_def IsRegistered_def Unregister_def
      load_and_close_def split: option.split)

text \<open>
  Cut at its calls on the registry and on the configuration, a handler that is not
  interrupted takes at most five steps and does exactly what the handler as a whole does: same
  reply, same store.
\<close>

theorem alone_is_the_handler:
  assumes "starting g"
  shows "go_steps 5 w d p g st = apfst Finished (body_of w d p g st)"
  using assms by (cases g) (simp_all add: create_alone update_alone delete_alone)

theorem alone_is_the_handler_witness:
  "go_steps 5 ''hop'' (dup_reply ''hop'') (ps_fallible sample_parsers KHop) (DeleteStart ''b'') store_a
     = apfst Finished (delete_object ''hop'' ''b'' store_a)"
  by (subst alone_is_the_handler) simp_all

section \<open>Interleavings\<close>

inductive race ::
    "string \<Rightarrow> (string \<Rightarrow> string \<Rightarrow> response) \<Rightarrow> ('r, 'v) parser \<Rightarrow>
       ('r, 'v) goroutine list \<times> ('r, 'v) store \<Rightarrow> ('r, 'v) goroutine list \<times> ('r, 'v) store \<Rightarrow> bool"
    for w d p where
  none: "race w d p s s"
| step: "race w d p s (gs, st) \<Longrightarrow> i < length gs \<Longrightarrow> go_step w d p (gs ! i) st = (g, st') \<Longrightarrow>
    race w d p s (gs[i := g], st')"

text \<open>Creations only: what a goroutine still owes the configuration.\<close>

fun is_create :: "('r, 'v) goroutine \<Rightarrow> bool" where
  "is_create (CreateStart c) = True"
| "is_create (CreateParsed n v r) = (n \<noteq> [])"
| "is_create (CreateRegistered n r) = (n \<noteq> [])"
| "is_create (Finished reply) = True"
| "is_create _ = False"

fun owes :: "('r, 'v) goroutine \<Rightarrow> string list" where
  "owes (CreateRegistered n r) = [n]"
| "owes _ = []"

definition owed :: "('r, 'v) goroutine list \<Rightarrow> string list" where
  "owed gs = concat (map owes gs)"

definition creating_ok :: "('r, 'v) goroutine list \<times> ('r, 'v) store \<Rightarrow> bool" where
  "creating_ok s \<longleftrightarrow> (\<forall>g\<in>set (fst s). is_create g) \<and>
     distinct (cfg_names (snd s) @ owed (fst s)) \<and> [] \<notin> set (cfg_names (snd s) @ owed (fst s)) \<and>
     dom (st_reg (snd s)) = set (cfg_names (snd s) @ owed (fst s))"

lemma owed_simps [simp]:
  "owed [] = []" "owed (g # gs) = owes g @ owed gs" "owed (gs @ hs) = owed gs @ owed hs"
  by (simp_all add: owed_def)

lemma middle_first:
  "distinct (c @ a @ b @ d) \<longleftrightarrow> distinct (b @ c @ a @ d)" "set (c @ a @ b @ d) = set (b @ c @ a @ d)"
  by auto

lemma creating_ok_split:
  "creating_ok (xs @ g # ys, st) \<longleftrightarrow>
     (\<forall>h\<in>set xs \<union> set ys. is_create h) \<and> is_create g \<and>
     distinct (owes g @ cfg_names st @ owed xs @ owed ys) \<and>
     [] \<notin> set (owes g @ cfg_names st @ owed xs @ owed ys) \<and>
     dom (st_reg st) = set (owes g @ cfg_names st @ owed xs @ owed ys)"
  unfolding creating_ok_def fst_conv snd_conv owed_simps set_append [of xs] middle_first [of "cfg_names st"]
  by (simp add: ball_Un Un_assoc del: distinct_append set_append) blast

lemma Register_cases:
  "Register name v m = (if name = [] then (nil_error, m)
     else if name \<in> dom m then (Some ErrDup, m) else (nil_error, m(name \<mapsto> v)))"
  by (auto simp: Register_def split: option.split)

lemma CreateStart_step:
  assumes "go_step w d p (CreateStart c) st = (g', st')"
  shows "st' = st" "owes g' = []" "is_create g'"
  using assms by (auto simp: Let_def split: if_splits sum.splits prod.splits)

lemma creating_ok_step:
  assumes ok: "creating_ok (xs @ g # ys, st)" and step: "go_step w d p g st = (g', st')"
  shows "creating_ok (xs @ g' # ys, st')"
proof (cases g)
  case (CreateStart c)
  then show ?thesis
    using ok CreateStart_step [OF step [unfolded CreateStart]] by (simp add: creating_ok_split)
next
  case (CreateParsed n v r)
  have n: "n \<noteq> []" and owes: "owes g = []" using ok CreateParsed by (simp_all add: creating_ok_split)
  show ?thesis
  proof (cases "n \<in> dom (st_reg st)")
    case True
    then have "g' = Finished (d n ErrDup)" "st' = st" using step CreateParsed n by (simp_all add: Register_cases)
    then show ?thesis using ok owes by (simp add: creating_ok_split)
  next
    case False
    then have "g' = CreateRegistered n r" "st' = st\<lparr>st_reg := (st_reg st)(n \<mapsto> v)\<rparr>"
      using step CreateParsed n by (simp_all add: Register_cases)
    then show ?thesis using ok owes n False by (simp add: creating_ok_split)
  qed
next
  case (CreateRegistered n r)
  then have "g' = Finished replyOK" "st' = st\<lparr>st_cfgs := st_cfgs st @ [\<lparr>oc_name = n, oc_rest = r\<rparr>]\<rparr>"
    using step by simp_all
  moreover have "n \<notin> set (cfg_names st @ owed xs @ owed ys)"
    using ok CreateRegistered by (simp add: creating_ok_split)
  ultimately show ?thesis using ok CreateRegistered by (simp add: creating_ok_split)
next
  case (Finished reply)
  then show ?thesis using ok step by simp
qed (use ok in \<open>simp_all add: creating_ok_split\<close>)

lemma race_creating_ok:
  assumes "race w d p s s'" "creating_ok s"
  shows "creating_ok s'"
  using assms
proof (induction rule: race.induct)
  case (step s gs st i g st')
  have "gs = take i gs @ gs ! i # drop (Suc i) gs"
    using step.hyps(2) by (simp add: id_take_nth_drop)
  then have "creating_ok (take i gs @ gs ! i # drop (Suc i) gs, st)"
    using step.IH step.prems by metis
  then have "creating_ok (take i gs @ g # drop (Suc i) gs, st')"
    using step.hyps(3) by (rule creating_ok_step)
  then show ?case using step.hyps(2) by (simp add: upd_conv_take_nth_drop)
qed

lemma all_create_start:
  "\<forall>g\<in>set gs. \<exists>c. g = CreateStart c \<Longrightarrow> owed gs = [] \<and> (\<forall>g\<in>set gs. is_create g)"
  by (induction gs) auto

fun answered :: "('r, 'v) goroutine \<Rightarrow> bool" where
  "answered (Finished reply) = True"
| "answered _ = False"

lemma answered_owed: "list_all answered gs \<Longrightarrow> owed gs = []"
proof (induction gs)
  case (Cons g gs)
  then show ?case by (cases g) simp_all
qed simp

text \<open>The names of the creations that have been answered with 200.\<close>

fun accepted :: "('r, 'v) goroutine \<times> ('r, 'v) goroutine \<Rightarrow> string list" where
  "accepted (CreateStart c, Finished reply) = (if reply = replyOK then [TrimSpace (oc_name c)] else [])"
| "accepted _ = []"

definition accepted_names :: "('r, 'v) goroutine list \<Rightarrow> ('r, 'v) goroutine list \<Rightarrow> string list" where
  "accepted_names gs gs' = concat (map accepted (zip gs gs'))"

text \<open>A creation keeps the name it has started with.\<close>

fun comes_from :: "('r, 'v) goroutine \<Rightarrow> ('r, 'v) goroutine \<Rightarrow> bool" where
  "comes_from (CreateStart c) (CreateStart c') = (c' = c)"
| "comes_from (CreateStart c) (CreateParsed n v r) = (n = TrimSpace (oc_name c))"
| "comes_from (CreateStart c) (CreateRegistered n r) = (n = TrimSpace (oc_name c))"
| "comes_from (CreateStart c) (Finished reply) = True"
| "comes_from _ _ = False"

definition accounted ::
    "('r, 'v) goroutine list \<Rightarrow> ('r, 'v) store \<Rightarrow> ('r, 'v) goroutine list \<times> ('r, 'v) store \<Rightarrow> bool" where
  "accounted gs0 st0 s \<longleftrightarrow> list_all2 comes_from gs0 (fst s) \<and>
     mset (cfg_names (snd s)) = mset (cfg_names st0) + mset (accepted_names gs0 (fst s))"

lemma create_start_step:
  "go_step w d p (CreateStart c) st = (g', st') \<Longrightarrow>
     st' = st \<and> comes_from (CreateStart c) g' \<and> accepted (CreateStart c, g') = []"
  by (auto simp: Let_def split: if_splits sum.splits prod.splits)

lemma create_step_accounts:
  assumes "go_step w d p g st = (g', st')" "comes_from (CreateStart c) g" "\<And>n e. d n e \<noteq> replyOK"
  shows "comes_from (CreateStart c) g' \<and>
    mset (cfg_names st') + mset (accepted (CreateStart c, g)) = mset (cfg_names st) + mset (accepted (CreateStart c, g'))"
proof (cases g)
  case (CreateStart x)
  then have "x = c" using assms(2) by simp
  then show ?thesis using create_start_step assms(1) CreateStart by fastforce
next
  case (CreateParsed n v r)
  then show ?thesis using assms by (cases "Register n v (st_reg st)") (auto split: option.splits)
next
  case (CreateRegistered n r)
  then show ?thesis using assms by auto
next
  case (Finished r)
  then show ?thesis using assms by simp
qed (use assms(2) in simp_all)

lemma race_accounted:
  assumes "race w d p s s'" "s = (gs0, st0)" "\<forall>g\<in>set gs0. \<exists>c. g = CreateStart c" "\<And>n e. d n e \<noteq> replyOK"
  shows "accounted gs0 st0 s'"
  using assms(1-3)
proof (induction rule: race.induct)
  case (none s)
  have "list_all2 comes_from gs0 gs0 \<and> accepted_names gs0 gs0 = []"
    using none(2) by (induction gs0) (auto simp: accepted_names_def)
  then show ?case using none(1) by (simp add: accounted_def)
next
  case (step s gs st i g st')
  have ih: "list_all2 comes_from gs0 gs" "mset (cfg_names st) = mset (cfg_names st0) + mset (accepted_names gs0 gs)"
    using step.IH step.prems by (simp_all add: accounted_def)
  then have len: "length gs0 = length gs" by (simp add: list_all2_lengthD)
  have i: "i < length gs0" using step.hyps(2) len by simp
  then obtain c where c: "gs0 ! i = CreateStart c" using step.prems(2) nth_mem by blast
  have z: "zip gs0 (gs[i := h]) = take i (zip gs0 gs) @ (gs0 ! i, h) # drop (Suc i) (zip gs0 gs)" for h
  proof -
    have "zip gs0 (gs[i := h]) = (zip gs0 gs)[i := (gs0 ! i, h)]" by (simp add: update_zip)
    then show ?thesis using i len by (simp only: upd_conv_take_nth_drop length_zip min_less_iff_conj simp_thms)
  qed
  have acc: "mset (accepted_names gs0 (gs[i := h])) =
      mset (accepted (CreateStart c, h)) + mset (concat (map accepted (take i (zip gs0 gs) @ drop (Suc i) (zip gs0 gs))))" for h
    unfolding accepted_names_def z c by simp
  have "comes_from (CreateStart c) (gs ! i)" using ih(1) i c by (metis list_all2_nthD)
  note s = create_step_accounts [OF step.hyps(3) this assms(4)]
  have "list_all2 comes_from gs0 (gs[i := g])"
    using ih(1) s c i by (metis list_all2_update_cong list_update_id)
  moreover have "mset (cfg_names st') = mset (cfg_names st0) + mset (accepted_names gs0 (gs[i := g]))"
    using s ih(2) acc [of g] acc [of "gs ! i"] by (simp add: algebra_simps)
  ultimately show ?case by (simp add: accounted_def)
qed

text \<open>
  (C36) Concurrent creations are safe. However any number of create requests of a kind interleave,
  starting from a store in which registry and configuration agree: when all have been answered,
  registry and configuration agree again and no name is configured twice; and the names that are
  configured, and so registered, are those from before and, once for each, those of the requests that
  were answered with 200. So of several requests for one name at most one succeeds, and none for a name
  that was taken, because \<open>LoadOrStore\<close> decides, not the check before it.
\<close>

theorem concurrent_creates_are_safe:
  assumes "race w d p (gs, st) (gs', st')" "store_ok st"
    and "\<forall>g\<in>set gs. \<exists>c. g = CreateStart c" "list_all answered gs'" "\<And>n e. d n e \<noteq> replyOK"
  shows "store_ok st' \<and> mset (cfg_names st') = mset (cfg_names st) + mset (accepted_names gs gs')"
proof -
  have "creating_ok (gs, st)"
    using assms(2) all_create_start [OF assms(3)] by (auto simp: creating_ok_def store_ok_def)
  from race_creating_ok [OF assms(1) this] have "store_ok st'"
    using answered_owed [OF assms(4)] by (auto simp: creating_ok_def store_ok_def)
  moreover have "accounted gs st (gs', st')" by (rule race_accounted [OF assms(1) refl assms(3,5)])
  ultimately show ?thesis by (simp add: accounted_def)
qed

section \<open>Schedules\<close>

fun schedule ::
    "string \<Rightarrow> (string \<Rightarrow> string \<Rightarrow> response) \<Rightarrow> ('r, 'v) parser \<Rightarrow> nat list \<Rightarrow>
       ('r, 'v) goroutine list \<Rightarrow> ('r, 'v) store \<Rightarrow> ('r, 'v) goroutine list \<times> ('r, 'v) store" where
  "schedule w d p [] gs st = (gs, st)"
| "schedule w d p (i # is) gs st =
     (case go_step w d p (gs ! i) st of (g, st') \<Rightarrow> schedule w d p is (gs[i := g]) st')"

lemma schedule_race:
  "race w d p s (gs, st) \<Longrightarrow> \<forall>i\<in>set is. i < length gs \<Longrightarrow>
   race w d p s (schedule w d p is gs st)"
proof (induction "is" arbitrary: gs st)
  case (Cons i "is")
  obtain g st' where g: "go_step w d p (gs ! i) st = (g, st')"
    by (cases "go_step w d p (gs ! i) st")
  have "race w d p s (gs[i := g], st')" using Cons.prems g by (auto intro: race.step)
  then show ?case using Cons.IH [of "gs[i := g]" st'] Cons.prems g by simp
qed simp

theorem concurrent_creates_are_safe_witness:
  "let s = schedule ''hop'' (dup_reply ''hop'') (ps_fallible sample_parsers KHop)
     [0, 1, 1, 1, 0] [CreateStart (object_named ''a'' 1), CreateStart (object_named '' a'' 2)] empty_store
   in store_ok (snd s) \<and> mset (cfg_names (snd s)) = {#''a''#}"
proof -
  let ?gs = "[CreateStart (object_named ''a'' 1), CreateStart (object_named '' a'' 2)]"
  let ?s = "schedule ''hop'' (dup_reply ''hop'') (ps_fallible sample_parsers KHop) [0, 1, 1, 1, 0] ?gs empty_store"
  have r: "race ''hop'' (dup_reply ''hop'') (ps_fallible sample_parsers KHop) (?gs, empty_store) (fst ?s, snd ?s)"
    using schedule_race [OF race.none, of "[0, 1, 1, 1, 0]" ?gs] by simp
  have f: "list_all answered (fst ?s)" by code_simp
  have e: "store_ok empty_store" by (simp add: store_ok_def empty_store_def)
  have d: "dup_reply ''hop'' n x \<noteq> replyOK" for n x by (simp add: dup_reply_def)
  have "accepted_names ?gs (fst ?s) = [''a'']" by code_simp
  moreover have "cfg_names empty_store = []" by (simp add: empty_store_def)
  ultimately show ?thesis using concurrent_creates_are_safe [OF r e _ f d] by (simp add: Let_def)
qed

lemma delete_update_race_fact:
  assumes n: "TrimSpace n = n" "n \<noteq> []" and r: "st_reg st n = Some old"
    and p: "p (c\<lparr>oc_name := n\<rparr>) = (Inr v, x)"
  shows "\<exists>st'. schedule w d p [0, 1, 1, 1, 1, 0, 0, 0] [UpdateStart n c, DeleteStart n] st =
      ([Finished replyOK, Finished replyOK], st') \<and>
    st_reg st' n = Some v \<and> n \<notin> set (cfg_names st')"
  using assms
  by (simp add: Let_def IsRegistered_def load_and_close_def Register_def)

text \<open>
  Updates and deletions are not safe together. For every object there is an interleaving of
  one update and one delete of it in which both are answered with 200 and the new object stays
  live in the registry although no configuration of that name is left: it runs, but it is neither
  saved nor shown.
\<close>

theorem delete_update_race:
  assumes "TrimSpace n = n" "n \<noteq> []" "st_reg st n = Some old"
    and "p (c\<lparr>oc_name := n\<rparr>) = (Inr v, x)"
  shows "\<exists>gs st'. race w d p ([UpdateStart n c, DeleteStart n], st) (gs, st') \<and>
    gs = [Finished replyOK, Finished replyOK] \<and>
    st_reg st' n = Some v \<and> n \<notin> set (cfg_names st')"
proof -
  obtain st' where s: "schedule w d p [0, 1, 1, 1, 1, 0, 0, 0] [UpdateStart n c, DeleteStart n] st =
      ([Finished replyOK, Finished replyOK], st')" "st_reg st' n = Some v" "n \<notin> set (cfg_names st')"
    using delete_update_race_fact [of n st old p c v x w d] assms by blast
  have "race w d p ([UpdateStart n c, DeleteStart n], st)
      (schedule w d p [0, 1, 1, 1, 1, 0, 0, 0] [UpdateStart n c, DeleteStart n] st)"
    by (rule schedule_race [OF race.none]) simp
  then show ?thesis using s by auto
qed

theorem delete_update_race_witness:
  "\<exists>gs st'. race ''hop'' (dup_reply ''hop'') (ps_fallible sample_parsers KHop)
       ([UpdateStart ''a'' (object_named ''a'' 7), DeleteStart ''a''], store_a) (gs, st') \<and>
     gs = [Finished replyOK, Finished replyOK] \<and>
     st_reg st' ''a'' = Some 7 \<and> ''a'' \<notin> set (cfg_names st')"
proof (rule delete_update_race)
  show "TrimSpace ''a'' = ''a''" by code_simp
  show "st_reg store_a ''a'' = Some 1" by (simp add: store_a_def)
  show "ps_fallible sample_parsers KHop ((object_named ''a'' 7)\<lparr>oc_name := ''a''\<rparr>) = (Inr 7, 7)"
    by (simp add: sample_parsers_def object_named_def)
qed simp

end
