(* ===== verification/GoNet.thy ===== *)
theory GoNet
  imports Strconv "HOL-Library.List_Lexorder" "HOL-Library.Char_ord"
begin

text \<open>
  The functions of Go's \<open>net\<close> and \<open>net/netip\<close> the matchers and limiters use: splitting
  \<open>host:port\<close>, parsing addresses and CIDR blocks, the order of addresses. An IPv4 address is its
  32-bit value, an IPv6 address its 128-bit value with its zone; a \<open>net.IP\<close> is always 128 bits
  wide, IPv4 addresses being mapped below \<open>::ffff:0:0/96\<close>.
\<close>

section \<open>host:port\<close>

fun LastIndexByte :: "string \<Rightarrow> char \<Rightarrow> nat option" where
  "LastIndexByte [] c = None"
| "LastIndexByte (x # xs) c =
     (case LastIndexByte xs c of
        Some i \<Rightarrow> Some (Suc i)
      | None \<Rightarrow> if x = c then Some 0 else None)"

text \<open>\<open>None\<close> is an error; the callers go on with two empty strings then.\<close>

definition SplitHostPort :: "string \<Rightarrow> (string \<times> string) option" where
  "SplitHostPort s =
     (case LastIndexByte s CHR '':'' of
        None \<Rightarrow> None
      | Some i \<Rightarrow>
          if hd s = CHR ''['' then
            (case IndexByte s CHR '']'' of
               None \<Rightarrow> None
             | Some e \<Rightarrow>
                 if e + 1 \<noteq> i then None
                 else if CHR ''['' \<in> set (tl s) \<or> CHR '']'' \<in> set (drop (e + 1) s) then None
                 else Some (take (e - 1) (tl s), drop (i + 1) s))
          else if CHR '':'' \<in> set (take i s) \<or> CHR ''['' \<in> set s \<or> CHR '']'' \<in> set s then None
          else Some (take i s, drop (i + 1) s))"

definition split_host :: "string \<Rightarrow> string" where
  "split_host s = (case SplitHostPort s of None \<Rightarrow> [] | Some (h, p) \<Rightarrow> h)"

definition split_port :: "string \<Rightarrow> string" where
  "split_port s = (case SplitHostPort s of None \<Rightarrow> [] | Some (h, p) \<Rightarrow> p)"

definition JoinHostPort :: "string \<Rightarrow> string \<Rightarrow> string" where
  "JoinHostPort h p =
     (if CHR '':'' \<in> set h then ''['' @ h @ '']:'' @ p else h @ '':'' @ p)"

section \<open>Addresses\<close>

datatype addr = V4 int | V6 int string

definition octet :: "string \<Rightarrow> int option" where
  "octet f =
     (if f = [] \<or> (length f > 1 \<and> hd f = CHR ''0'') then None
      else case digits_value 0 f of
        Some v \<Rightarrow> if v \<le> 255 then Some (int v) else None
      | None \<Rightarrow> None)"

definition parse_v4 :: "string \<Rightarrow> int option" where
  "parse_v4 s =
     (case map octet (Split s CHR ''.'') of
        [Some a, Some b, Some c, Some d] \<Rightarrow> Some (((a * 256 + b) * 256 + c) * 256 + d)
      | _ \<Rightarrow> None)"

definition hex_digit :: "char \<Rightarrow> int option" where
  "hex_digit c =
     (let n = of_char c :: nat in
      if 48 \<le> n \<and> n \<le> 57 then Some (int n - 48)
      else if 97 \<le> n \<and> n \<le> 102 then Some (int n - 87)
      else if 65 \<le> n \<and> n \<le> 70 then Some (int n - 55)
      else None)"

fun hex_value :: "int \<Rightarrow> string \<Rightarrow> int option" where
  "hex_value acc [] = Some acc"
| "hex_value acc (c # cs) =
     (case hex_digit c of None \<Rightarrow> None | Some d \<Rightarrow> hex_value (acc * 16 + d) cs)"

definition hex_group :: "string \<Rightarrow> int option" where
  "hex_group f = (if f = [] \<or> 4 < length f then None else hex_value 0 f)"

text \<open>The 16-bit groups of a part of an IPv6 address; the last field may be an IPv4 address.\<close>

fun hex_groups :: "bool \<Rightarrow> string list \<Rightarrow> int list option" where
  "hex_groups v4 [] = Some []"
| "hex_groups v4 (f # fs) =
     (if fs = [] \<and> v4 \<and> CHR ''.'' \<in> set f then
        map_option (\<lambda>n. [n div 65536, n mod 65536]) (parse_v4 f)
      else case hex_group f of
        None \<Rightarrow> None
      | Some g \<Rightarrow> map_option ((#) g) (hex_groups v4 fs))"

fun cut_ellipsis :: "string \<Rightarrow> (string \<times> string) option" where
  "cut_ellipsis [] = None"
| "cut_ellipsis (c # cs) =
     (if c = CHR '':'' \<and> HasPrefix cs '':'' then Some ([], tl cs)
      else map_option (\<lambda>(l, r). (c # l, r)) (cut_ellipsis cs))"

definition fields_of :: "string \<Rightarrow> string list" where
  "fields_of s = (if s = [] then [] else Split s CHR '':'')"

definition v6_groups :: "string \<Rightarrow> int list option" where
  "v6_groups s =
     (case cut_ellipsis s of
        None \<Rightarrow>
          (case hex_groups True (Split s CHR '':'') of
             Some gs \<Rightarrow> if length gs = 8 then Some gs else None
           | None \<Rightarrow> None)
      | Some (l, r) \<Rightarrow>
          (case (hex_groups False (fields_of l), hex_groups True (fields_of r)) of
             (Some gl, Some gr) \<Rightarrow>
               if length gl + length gr \<le> 7
               then Some (gl @ replicate (8 - length gl - length gr) 0 @ gr) else None
           | _ \<Rightarrow> None))"

definition parse_v6 :: "string \<Rightarrow> addr option" where
  "parse_v6 s =
     (case IndexByte s CHR ''%'' of
        None \<Rightarrow> map_option (\<lambda>gs. V6 (foldl (\<lambda>a g. a * 65536 + g) 0 gs) []) (v6_groups s)
      | Some i \<Rightarrow>
          if drop (i + 1) s = [] then None
          else map_option (\<lambda>gs. V6 (foldl (\<lambda>a g. a * 65536 + g) 0 gs) (drop (i + 1) s))
                 (v6_groups (take i s)))"

text \<open>\<open>netip.ParseAddr\<close>: the first of \<open>.\<close>, \<open>:\<close>, \<open>%\<close> tells the family.\<close>

definition ParseAddr :: "string \<Rightarrow> addr option" where
  "ParseAddr s =
     (case List.find (\<lambda>c. c \<in> set ''.:%'') s of
        Some c \<Rightarrow>
          if c = CHR ''.'' then map_option V4 (parse_v4 s)
          else if c = CHR '':'' then parse_v6 s
          else None
      | None \<Rightarrow> None)"

definition mapped_v4 :: "int \<Rightarrow> int" where
  "mapped_v4 n = 65535 * 2 ^ 32 + n"

text \<open>\<open>net.ParseIP\<close> and \<open>IP.To4\<close>.\<close>

definition ParseIP :: "string \<Rightarrow> int option" where
  "ParseIP s =
     (case ParseAddr s of
        Some (V4 n) \<Rightarrow> Some (mapped_v4 n)
      | Some (V6 n z) \<Rightarrow> if z = [] then Some n else None
      | None \<Rightarrow> None)"

definition To4 :: "int \<Rightarrow> int option" where
  "To4 ip = (if ip div 2 ^ 32 = 65535 then Some (ip mod 2 ^ 32) else None)"

text \<open>\<open>net.ParseCIDR\<close>: the width of the family, the prefix length, the network.\<close>

record ip_net =
  in_bits :: nat
  in_ones :: nat
  in_base :: int

definition ParseCIDR :: "string \<Rightarrow> ip_net option" where
  "ParseCIDR s =
     (case IndexByte s CHR ''/'' of
        None \<Rightarrow> None
      | Some i \<Rightarrow>
          (let mask = drop (i + 1) s in
           case (ParseAddr (take i s), if mask = [] then None else digits_value 0 mask) of
             (Some (V4 n), Some m) \<Rightarrow>
               if m \<le> 32 then
                 Some \<lparr>in_bits = 32, in_ones = m, in_base = n div 2 ^ (32 - m) * 2 ^ (32 - m)\<rparr>
               else None
           | (Some (V6 n z), Some m) \<Rightarrow>
               if z = [] \<and> m \<le> 128 then
                 Some \<lparr>in_bits = 128, in_ones = m, in_base = n div 2 ^ (128 - m) * 2 ^ (128 - m)\<rparr>
               else None
           | _ \<Rightarrow> None))"

section \<open>The order of addresses\<close>

text \<open>\<open>netip.Addr.Less\<close>: first the family, then the value, then the zone.\<close>

fun addr_key :: "addr \<Rightarrow> int \<times> int \<times> string" where
  "addr_key (V4 n) = (32, n, [])"
| "addr_key (V6 n z) = (128, n, z)"

lemma addr_key_inject: "addr_key a = addr_key b \<Longrightarrow> a = b"
  by (cases a; cases b) auto

definition key_less :: "int \<times> int \<times> string \<Rightarrow> int \<times> int \<times> string \<Rightarrow> bool" where
  "key_less k l \<longleftrightarrow> fst k < fst l \<or> fst k = fst l \<and>
     (fst (snd k) < fst (snd l) \<or> fst (snd k) = fst (snd l) \<and> snd (snd k) < snd (snd l))"

instantiation addr :: linorder
begin

definition less_addr :: "addr \<Rightarrow> addr \<Rightarrow> bool" where
  "less_addr a b = key_less (addr_key a) (addr_key b)"

definition less_eq_addr :: "addr \<Rightarrow> addr \<Rightarrow> bool" where
  "less_eq_addr a b = (\<not> key_less (addr_key b) (addr_key a))"

instance
proof
  fix a b c :: addr
  show "(a < b) = (a \<le> b \<and> \<not> b \<le> a)"
    by (auto simp: less_addr_def less_eq_addr_def key_less_def)
  show "a \<le> a" by (auto simp: less_eq_addr_def key_less_def)
  show "a \<le> b \<Longrightarrow> b \<le> c \<Longrightarrow> a \<le> c"
    by (auto simp: less_eq_addr_def key_less_def)
  show "a \<le> b \<Longrightarrow> b \<le> a \<Longrightarrow> a = b"
    by (rule addr_key_inject) (auto simp: less_eq_addr_def key_less_def prod_eq_iff)
  show "a \<le> b \<or> b \<le> a" by (auto simp: less_eq_addr_def key_less_def)
qed

end

section \<open>How they read\<close>

lemma LastIndexByte_None: "LastIndexByte s c = None \<longleftrightarrow> c \<notin> set s"
  by (induction s) (auto split: option.splits)

lemma LastIndexByte_append:
  assumes "c \<notin> set p"
  shows "LastIndexByte (h @ c # p) c = Some (length h)"
proof (induction h)
  case Nil
  have "LastIndexByte p c = None" using assms by (simp add: LastIndexByte_None)
  then show ?case by simp
qed simp

text \<open>Joining a plain host with a port and splitting gives both back.\<close>

lemma Split_JoinHostPort:
  assumes "CHR '':'' \<notin> set h" "CHR '':'' \<notin> set p"
    and "CHR ''['' \<notin> set (h @ p)" "CHR '']'' \<notin> set (h @ p)"
  shows "SplitHostPort (JoinHostPort h p) = Some (h, p)"
proof -
  have i: "LastIndexByte (h @ CHR '':'' # p) CHR '':'' = Some (length h)"
    using assms(2) by (rule LastIndexByte_append)
  have "hd (h @ CHR '':'' # p) \<noteq> CHR ''[''" using assms(3) by (cases h) auto
  then show ?thesis using assms i by (auto simp: SplitHostPort_def JoinHostPort_def)
qed

lemma SplitHostPort_plain: "CHR '':'' \<notin> set s \<Longrightarrow> SplitHostPort s = None"
  by (simp add: SplitHostPort_def LastIndexByte_None [THEN iffD2])

lemma split_plain [simp]:
  "CHR '':'' \<notin> set s \<Longrightarrow> split_host s = []" "CHR '':'' \<notin> set s \<Longrightarrow> split_port s = []"
  by (simp_all add: split_host_def split_port_def SplitHostPort_plain)

lemma octet_bound: "octet f = Some v \<Longrightarrow> 0 \<le> v \<and> v \<le> 255"
  by (auto simp: octet_def split: if_splits option.splits)

lemma parse_v4_bound: "parse_v4 s = Some n \<Longrightarrow> 0 \<le> n \<and> n < 2 ^ 32"
  by (auto simp: parse_v4_def split: list.splits option.splits dest!: octet_bound)

lemma To4_mapped: "0 \<le> n \<Longrightarrow> n < 2 ^ 32 \<Longrightarrow> To4 (mapped_v4 n) = Some n"
  unfolding To4_def mapped_v4_def by (simp only: div_mult_self3 mod_mult_self3) simp

text \<open>An IPv4 address in dotted form is an IPv4 address for \<open>To4\<close> too.\<close>

lemma ParseIP_v4: "ParseAddr s = Some (V4 n) \<Longrightarrow> ParseIP s = Some (mapped_v4 n) \<and> To4 (mapped_v4 n) = Some n"
  by (auto simp: ParseIP_def ParseAddr_def parse_v6_def split: option.splits if_splits
      dest!: parse_v4_bound intro: To4_mapped)

section \<open>The text of an address\<close>

text \<open>
  The text of an address as \<open>net.IP.String\<close> writes it: four decimal numbers for an IPv4 address,
  also one mapped into IPv6, and otherwise groups in hexadecimal with the longest run of zero
  groups cut out.
\<close>

section \<open>IPv4\<close>

definition dotted :: "int \<Rightarrow> string" where
  "dotted n =
     show_nat (nat (n div 16777216)) @ CHR ''.'' # show_nat (nat (n div 65536 mod 256)) @
     CHR ''.'' # show_nat (nat (n div 256 mod 256)) @ CHR ''.'' # show_nat (nat (n mod 256))"

lemma digits_only: "c \<in> set (show_nat k) \<Longrightarrow> is_digit c"
proof (induction k rule: show_nat.induct)
  case (1 n)
  then show ?case by (cases "n < 10") (auto simp: is_digit_char_of show_nat.simps [of n])
qed

lemma hd_show_nat_nonzero: "0 < k \<Longrightarrow> hd (show_nat k) \<noteq> CHR ''0''"
proof (induction k rule: show_nat.induct)
  case (1 n)
  then show ?case
  proof (cases "n < 10")
    case True
    have "char_of (48 + n) \<noteq> CHR ''0''" using True 1(2) by (simp add: char_of_eq_iff take_bit_eq_mod)
    then show ?thesis using True by (simp add: show_nat.simps [of n])
  next
    case False
    then show ?thesis using 1 by (simp add: show_nat.simps [of n])
  qed
qed

lemma octet_show:
  assumes "k < 256"
  shows "octet (show_nat k) = Some (int k)"
proof -
  have "length (show_nat k) > 1 \<longrightarrow> hd (show_nat k) \<noteq> CHR ''0''"
    using hd_show_nat_nonzero [of k] by (cases "k = 0") (simp_all add: show_nat.simps [of 0])
  then show ?thesis using assms by (simp add: octet_def digits_value_show_nat show_nat_not_Nil)
qed

lemma no_dot: "CHR ''.'' \<notin> set (show_nat k)"
  using digits_only [of "CHR ''.''" k] by (auto simp: is_digit_def)

lemma no_colon: "CHR '':'' \<notin> set (show_nat k)"
  using digits_only [of "CHR '':''" k] by (auto simp: is_digit_def)

lemma Split_first: "c \<notin> set a \<Longrightarrow> Split (a @ c # s) c = a # Split s c"
  by (induction a) auto

lemma Split_last: "c \<notin> set a \<Longrightarrow> Split a c = [a]"
  by (induction a) auto

lemma four_digits:
  "n = q * 256 + d \<Longrightarrow> q = r * 256 + c \<Longrightarrow> r = a * 256 + b \<Longrightarrow> ((a * 256 + b) * 256 + c) * 256 + d = (n :: int)"
  by simp

lemma octet_show_int: "0 \<le> k \<Longrightarrow> k < 256 \<Longrightarrow> octet (show_nat (nat k)) = Some k"
  using octet_show [of "nat k"] by simp

lemma parse_v4_dotted:
  assumes "0 \<le> n" "n < 2 ^ 32"
  shows "parse_v4 (dotted n) = Some n"
proof -
  let ?a = "n div 16777216" and ?b = "n div 65536 mod 256" and ?c = "n div 256 mod 256" and ?d = "n mod 256"
  have r: "0 \<le> ?a" "?a < 256" "0 \<le> ?b" "?b < 256" "0 \<le> ?c" "?c < 256" "0 \<le> ?d" "?d < 256"
    using assms by auto
  have s: "Split (dotted n) CHR ''.'' =
      [show_nat (nat ?a), show_nat (nat ?b), show_nat (nat ?c), show_nat (nat ?d)]"
    by (simp add: dotted_def Split_first Split_last no_dot)
  note os = octet_show_int [OF r(1,2)] octet_show_int [OF r(3,4)] octet_show_int [OF r(5,6)] octet_show_int [OF r(7,8)]
  have "parse_v4 (dotted n) = Some (((?a * 256 + ?b) * 256 + ?c) * 256 + ?d)"
    by (simp only: parse_v4_def s os list.map list.case option.case)
  moreover have "((?a * 256 + ?b) * 256 + ?c) * 256 + ?d = n"
  proof (rule four_digits [where q = "n div 256" and r = "n div 65536"])
    show "n div 65536 = ?a * 256 + ?b"
      using div_mult_mod_eq [of "n div 65536" 256] by (simp add: zdiv_zmult2_eq [symmetric])
    show "n div 256 = n div 65536 * 256 + ?c"
      using div_mult_mod_eq [of "n div 256" 256] by (simp add: zdiv_zmult2_eq [symmetric])
    show "n = n div 256 * 256 + ?d" by simp
  qed
  ultimately show ?thesis by (simp only:)
qed

lemma first_special_dotted: "List.find (\<lambda>c. c \<in> set ''.:%'') (dotted n) = Some CHR ''.''"
proof -
  have "List.find (\<lambda>c. c \<in> set ''.:%'') (xs @ CHR ''.'' # ys) = Some CHR ''.''"
    if "\<forall>c\<in>set xs. is_digit c" for xs ys
    using that by (induction xs) (auto simp: is_digit_def)
  then show ?thesis unfolding dotted_def using digits_only by blast
qed

lemma ParseAddr_dotted: "0 \<le> n \<Longrightarrow> n < 2 ^ 32 \<Longrightarrow> ParseAddr (dotted n) = Some (V4 n)"
  unfolding ParseAddr_def first_special_dotted by (simp add: parse_v4_dotted)

lemma ParseIP_dotted: "0 \<le> n \<Longrightarrow> n < 2 ^ 32 \<Longrightarrow> ParseIP (dotted n) = Some (mapped_v4 n)"
  by (simp add: ParseIP_def ParseAddr_dotted)

lemma dotted_no_colon: "CHR '':'' \<notin> set (dotted n)"
  by (simp add: dotted_def no_colon)

section \<open>IPv6\<close>

fun show_hex :: "nat \<Rightarrow> string" where
  "show_hex n =
     (let digit = (\<lambda>d. char_of (if d < 10 then 48 + d else 87 + d))
      in if n < 16 then [digit n] else show_hex (n div 16) @ [digit (n mod 16)])"

declare show_hex.simps [simp del]

definition hextets :: "int \<Rightarrow> nat list" where
  "hextets ip = map (\<lambda>i. nat (ip div 65536 ^ (7 - i) mod 65536)) [0..<8]"

text \<open>Where the first longest run of at least two zero groups starts and ends; an empty run if there is none.\<close>

definition zero_run :: "nat list \<Rightarrow> nat \<times> nat" where
  "zero_run gs =
     foldl (\<lambda>(s, e) i. let j = i + length (takeWhile ((=) 0) (drop i gs))
                       in if 2 \<le> j - i \<and> e - s < j - i then (i, j) else (s, e)) (0, 0) [0..<length gs]"

fun join_colon :: "string list \<Rightarrow> string" where
  "join_colon [] = []"
| "join_colon [x] = x"
| "join_colon (x # xs) = x @ CHR '':'' # join_colon xs"

definition string6 :: "nat list \<Rightarrow> string" where
  "string6 gs =
     (case zero_run gs of
        (s, e) \<Rightarrow>
          if s = e then join_colon (map show_hex gs)
          else join_colon (map show_hex (take s gs)) @ ''::'' @ join_colon (map show_hex (drop e gs)))"

definition ip_string :: "int \<Rightarrow> string" where
  "ip_string ip = (case To4 ip of Some n \<Rightarrow> dotted n | None \<Rightarrow> string6 (hextets ip))"

lemma ip_string_samples:
  "ip_string 1 = ''::1''"
  "ip_string (0x20010db8 * 2 ^ 96 + 0x1f) = ''2001:db8::1f''"
  by (simp_all add: ip_string_def To4_def string6_def hextets_def zero_run_def upt_rec show_hex.simps Let_def
      char_of_eq_iff take_bit_eq_mod)

lemma string6_colon:
  assumes "2 \<le> length gs"
  shows "CHR '':'' \<in> set (string6 gs)"
proof -
  obtain x y zs where "gs = x # y # zs" using assms by (cases gs; cases "tl gs") auto
  then show ?thesis by (cases "zero_run gs") (simp add: string6_def)
qed

text \<open>The text of an IPv4 address belongs to no other address.\<close>

lemma ip_string_dotted:
  assumes "0 \<le> n" "n < 2 ^ 32" "0 \<le> ip" "ip < 2 ^ 128"
  shows "ip_string ip = dotted n \<longleftrightarrow> ip = mapped_v4 n"
proof
  assume eq: "ip_string ip = dotted n"
  show "ip = mapped_v4 n"
  proof (cases "To4 ip")
    case None
    have "CHR '':'' \<in> set (string6 (hextets ip))" by (rule string6_colon) (simp add: hextets_def)
    then show ?thesis using eq None dotted_no_colon [of n] by (simp add: ip_string_def)
  next
    case (Some k)
    then have k: "ip div 2 ^ 32 = 65535" "k = ip mod 2 ^ 32" by (auto simp: To4_def split: if_splits)
    then have "0 \<le> k" "k < 2 ^ 32" by auto
    moreover have "dotted k = dotted n" using eq Some by (simp add: ip_string_def)
    ultimately have "k = n" using parse_v4_dotted assms(1,2) by (metis option.inject)
    then show ?thesis using k div_mult_mod_eq [of ip "2 ^ 32"] by (simp add: mapped_v4_def)
  qed
next
  assume "ip = mapped_v4 n"
  then show "ip_string ip = dotted n" using assms by (simp add: ip_string_def To4_mapped)
qed

end
