(* ===== verification/ConnLimiter.thy ===== *)
theory ConnLimiter
  imports GoNet
begin

text \<open>
  The connection limiter: \<open>x/limiter/conn\<close> and the wrappers of \<open>x/limiter/conn/wrapper\<close> that
  count the connections a listener accepts.

  Limiters are shared: the limiter of one address and the global one sit in many groups. They live
  in a store indexed by number; a group is the list of its limiters' numbers. The counter
  \<open>current\<close> is an \<open>int64\<close> that moves by one per connection, so it is an unbounded integer here:
  wrapping around would take 2 to the 63 connections.
\<close>

section \<open>One limiter\<close>

record llimiter =
  ll_limit :: int
  ll_current :: int

type_synonym lim_store = "llimiter list"

definition NewLimiter :: "int \<Rightarrow> lim_store \<Rightarrow> nat \<times> lim_store" where
  "NewLimiter n h = (length h, h @ [\<lparr>ll_limit = n, ll_current = 0\<rparr>])"

definition add_current :: "nat \<Rightarrow> int \<Rightarrow> lim_store \<Rightarrow> lim_store" where
  "add_current a n h = h[a := (h ! a)\<lparr>ll_current := ll_current (h ! a) + n\<rparr>]"

definition llimiter_Allow :: "nat \<Rightarrow> int \<Rightarrow> lim_store \<Rightarrow> bool \<times> lim_store" where
  "llimiter_Allow a n h =
     (let h1 = add_current a n h in
      if ll_current (h1 ! a) > ll_limit (h1 ! a) then
        (False, if n > 0 then add_current a (- n) h1 else h1)
      else (True, h1))"

section \<open>Groups\<close>

text \<open>\<open>sort.Slice\<close> on at most two limiters is an insertion sort.\<close>

definition newLimiterGroup :: "nat list \<Rightarrow> lim_store \<Rightarrow> nat list" where
  "newLimiterGroup ls h = sort_key (\<lambda>a. ll_limit (h ! a)) ls"

text \<open>The loop stops at the first limiter that refuses and tells how many had allowed before.\<close>

fun allow_loop :: "int \<Rightarrow> nat list \<Rightarrow> nat \<Rightarrow> bool \<Rightarrow> lim_store \<Rightarrow> bool \<times> nat \<times> lim_store" where
  "allow_loop n [] i b h = (b, i, h)"
| "allow_loop n (a # as) i b h =
     (case llimiter_Allow a n h of
        (True, h') \<Rightarrow> if as = [] then (True, i, h') else allow_loop n as (Suc i) True h'
      | (False, h') \<Rightarrow> (False, i, h'))"

fun release_all :: "int \<Rightarrow> nat list \<Rightarrow> lim_store \<Rightarrow> lim_store" where
  "release_all n [] h = h"
| "release_all n (a # as) h = release_all n as (snd (llimiter_Allow a (- n) h))"

definition limiterGroup_Allow :: "nat list \<Rightarrow> int \<Rightarrow> lim_store \<Rightarrow> bool \<times> lim_store" where
  "limiterGroup_Allow g n h =
     (case allow_loop n g 0 False h of (b, i, h') \<Rightarrow>
        (b, if \<not> b \<and> i > 0 \<and> n > 0 then release_all n (take i g) h' else h'))"

definition limiterGroup_Limit :: "nat list \<Rightarrow> lim_store \<Rightarrow> int" where
  "limiterGroup_Limit g h = (if g = [] then 0 else ll_limit (h ! hd g))"

section \<open>Generators\<close>

text \<open>A generator makes a new limiter for each key, or holds a single one for all.\<close>

datatype generator = Fresh int | Single "nat option"

definition NewConnLimitGenerator :: "int \<Rightarrow> generator" where
  "NewConnLimitGenerator n = Fresh n"

definition NewConnLimitSingleGenerator :: "int \<Rightarrow> lim_store \<Rightarrow> generator \<times> lim_store" where
  "NewConnLimitSingleGenerator n h =
     (if n > 0 then (case NewLimiter n h of (a, h') \<Rightarrow> (Single (Some a), h'))
      else (Single None, h))"

fun generator_Limiter :: "generator \<Rightarrow> lim_store \<Rightarrow> nat option \<times> lim_store" where
  "generator_Limiter (Fresh n) h =
     (if n \<le> 0 then (None, h) else (case NewLimiter n h of (a, h') \<Rightarrow> (Some a, h')))"
| "generator_Limiter (Single l) h = (l, h)"

section \<open>The limiter of a listener\<close>

definition GlobalLimitKey :: string where "GlobalLimitKey = ''$''"

definition IPLimitKey :: string where "IPLimitKey = ''$$''"

text \<open>
  \<open>cl_cidr\<close> lists the inserted networks; which of them contains an address, the most specific
  first, is the business of the \<open>cidranger\<close> package and a parameter \<open>containing\<close> below.
\<close>

record connLimiter =
  cl_ip :: "string \<rightharpoonup> generator"
  cl_cidr :: "(ip_net \<times> generator) list"
  cl_limits :: "string \<rightharpoonup> nat list option"
  cl_store :: lim_store

definition parse_limit_line :: "string \<Rightarrow> string" where
  "parse_limit_line s =
     TrimSpace (case IndexByte s CHR ''#'' of None \<Rightarrow> s | Some n \<Rightarrow> take n s)"

definition parseLimit :: "string \<Rightarrow> string \<times> int" where
  "parseLimit s =
     (case blank_fields (TrimSpace (ReplaceTabs s)) of
        k # l # _ \<Rightarrow> (k, fst (Atoi l))
      | _ \<Rightarrow> ([], 0))"

definition put_limit :: "string \<Rightarrow> int \<Rightarrow> connLimiter \<Rightarrow> connLimiter" where
  "put_limit key limit l =
     (if key = [] \<or> limit \<le> 0 then l
      else if key = GlobalLimitKey \<or> (key \<noteq> IPLimitKey \<and> ParseIP key \<noteq> None) then
        (case NewConnLimitSingleGenerator limit (cl_store l) of (g, h) \<Rightarrow>
           l\<lparr>cl_ip := (cl_ip l)(key \<mapsto> g), cl_store := h\<rparr>)
      else if key = IPLimitKey then
        l\<lparr>cl_ip := (cl_ip l)(key \<mapsto> NewConnLimitGenerator limit)\<rparr>
      else case ParseCIDR key of
        None \<Rightarrow> l
      | Some net \<Rightarrow> l\<lparr>cl_cidr := cl_cidr l @ [(net, NewConnLimitGenerator limit)]\<rparr>)"

fun load_limits :: "string list \<Rightarrow> connLimiter \<Rightarrow> connLimiter" where
  "load_limits [] l = l"
| "load_limits (s # ss) l =
     (case parseLimit s of (key, limit) \<Rightarrow> load_limits ss (put_limit key limit l))"

text \<open>A reload forgets the groups given out so far; connections they counted keep them.\<close>

definition conn_reload :: "string list \<Rightarrow> connLimiter \<Rightarrow> connLimiter" where
  "conn_reload lines l =
     (load_limits lines (l\<lparr>cl_ip := Map.empty, cl_cidr := []\<rparr>))\<lparr>cl_limits := Map.empty\<rparr>"

text \<open>The limiter of a generator that may be absent, collected into a list.\<close>

definition gen_list :: "generator option \<Rightarrow> lim_store \<Rightarrow> nat list \<times> lim_store" where
  "gen_list g h =
     (case g of
        None \<Rightarrow> ([], h)
      | Some g \<Rightarrow>
          (case generator_Limiter g h of (Some a, h') \<Rightarrow> ([a], h') | (None, h') \<Rightarrow> ([], h')))"

definition conn_Limiter ::
    "((ip_net \<times> generator) list \<Rightarrow> int \<Rightarrow> generator option) \<Rightarrow> string \<Rightarrow> connLimiter \<Rightarrow>
       nat list option \<times> connLimiter" where
  "conn_Limiter containing key l =
     (case cl_limits l key of
        Some g \<Rightarrow> (g, l)
      | None \<Rightarrow>
          (let (own, h1) =
             (case ParseIP key of
                None \<Rightarrow> ([], cl_store l)
              | Some ip \<Rightarrow>
                  (case gen_list (cl_ip l key) (cl_store l) of
                     ([], h) \<Rightarrow> gen_list (containing (cl_cidr l) ip) h
                   | (as, h) \<Rightarrow> (as, h)));
           (dflt, h2) = (if own = [] then gen_list (cl_ip l IPLimitKey) h1 else ([], h1));
           (glob, h3) = gen_list (cl_ip l GlobalLimitKey) h2;
           lims = own @ dflt @ glob;
           group = (if lims = [] then None else Some (newLimiterGroup lims h3))
       in (group, l\<lparr>cl_limits := (cl_limits l)(key \<mapsto> group), cl_store := h3\<rparr>)))"

section \<open>The wrappers\<close>

text \<open>
  An accepted connection: the group that counts it, if any, and whether the underlying connection
  has been closed.
\<close>

record counted_conn =
  cc_group :: "nat list option"
  cc_closed :: bool

text \<open>
  A connection over the limit is closed and returned all the same, as a plain connection, without
  an error.
\<close>

definition conn_Accept ::
    "((ip_net \<times> generator) list \<Rightarrow> int \<Rightarrow> generator option) \<Rightarrow> string \<Rightarrow> connLimiter \<Rightarrow>
       counted_conn \<times> connLimiter" where
  "conn_Accept containing remote l =
     (case conn_Limiter containing (split_host remote) l of
        (None, l') \<Rightarrow> (\<lparr>cc_group = None, cc_closed = False\<rparr>, l')
      | (Some g, l') \<Rightarrow>
          (case limiterGroup_Allow g 1 (cl_store l') of
             (True, h) \<Rightarrow> (\<lparr>cc_group = Some g, cc_closed = False\<rparr>, l'\<lparr>cl_store := h\<rparr>)
           | (False, h) \<Rightarrow> (\<lparr>cc_group = None, cc_closed = True\<rparr>, l'\<lparr>cl_store := h\<rparr>)))"

definition conn_Close :: "counted_conn \<Rightarrow> lim_store \<Rightarrow> counted_conn \<times> lim_store" where
  "conn_Close c h =
     (c\<lparr>cc_closed := True\<rparr>,
      case cc_group c of None \<Rightarrow> h | Some g \<Rightarrow> snd (limiterGroup_Allow g (- 1) h))"

section \<open>Counting\<close>

lemma add_current_fields [simp]:
  "length (add_current a n h) = length h"
  "a < length h \<Longrightarrow> ll_current (add_current a n h ! b) =
     (if b = a then ll_current (h ! a) + n else ll_current (h ! b))"
  "a < length h \<Longrightarrow> ll_limit (add_current a n h ! b) = ll_limit (h ! b)"
  by (auto simp: add_current_def nth_list_update)

lemma add_current_cancel [simp]: "add_current a (- n) (add_current a n h) = h"
proof (cases "a < length h")
  case True
  then show ?thesis by (simp add: add_current_def)
qed (simp add: add_current_def list_update_beyond)

lemma llimiter_refused: "llimiter_Allow a n h = (False, h') \<Longrightarrow> 0 < n \<Longrightarrow> h' = h"
  by (auto simp: llimiter_Allow_def Let_def split: if_splits)

text \<open>No counter of the store exceeds its limit.\<close>

definition within :: "lim_store \<Rightarrow> bool" where
  "within h \<longleftrightarrow> (\<forall>l\<in>set h. ll_current l \<le> ll_limit l)"

lemma within_nth: "within h \<Longrightarrow> a < length h \<Longrightarrow> ll_current (h ! a) \<le> ll_limit (h ! a)"
  by (simp add: within_def)

lemma within_add:
  "within h \<Longrightarrow> ll_current (h ! a) + n \<le> ll_limit (h ! a) \<Longrightarrow> within (add_current a n h)"
  unfolding within_def add_current_def all_set_conv_all_nth
  by (cases "a < length h") (auto simp: nth_list_update list_update_beyond)

lemma release_allowed:
  assumes "within h" "a < length h" "0 < n"
  shows "llimiter_Allow a (- n) h = (True, add_current a (- n) h)"
    and "within (add_current a (- n) h)"
  using assms within_nth [of h a] by (auto simp: llimiter_Allow_def Let_def intro!: within_add)

text \<open>What one call adds to every counter.\<close>

fun add_all :: "int \<Rightarrow> nat list \<Rightarrow> lim_store \<Rightarrow> lim_store" where
  "add_all n [] h = h"
| "add_all n (a # as) h = add_all n as (add_current a n h)"

lemma add_all_length [simp]: "length (add_all n g h) = length h"
  by (induction g arbitrary: h) auto

lemma add_all_append: "add_all n (g @ g') h = add_all n g' (add_all n g h)"
  by (induction g arbitrary: h) auto

lemma add_current_commute: "add_current a m (add_current b n h) = add_current b n (add_current a m h)"
  by (cases "a = b"; cases "a < length h"; cases "b < length h")
    (simp_all add: add_current_def list_update_swap list_update_beyond add.assoc add.left_commute add.commute)

lemma add_all_commute: "add_all n g (add_current b m h) = add_current b m (add_all n g h)"
proof (induction g arbitrary: h)
  case (Cons a g)
  have "add_all n (a # g) (add_current b m h) = add_all n g (add_current b m (add_current a n h))"
    by (simp add: add_current_commute [of a n b m h])
  then show ?case using Cons.IH [of "add_current a n h"] by simp
qed simp

lemma add_all_cancel: "add_all (- n) g (add_all n g h) = h"
proof (induction g arbitrary: h)
  case (Cons a g)
  have "add_all (- n) g (add_current a (- n) (add_all n g (add_current a n h))) = h"
    using Cons.IH [of h] by (simp add: add_all_commute)
  then show ?case by simp
qed simp

lemma release_all_within:
  "within h \<Longrightarrow> \<forall>a\<in>set g. a < length h \<Longrightarrow> 0 < n \<Longrightarrow>
   release_all n g h = add_all (- n) g h \<and> within (add_all (- n) g h)"
proof (induction g arbitrary: h)
  case (Cons a g)
  then have "llimiter_Allow a (- n) h = (True, add_current a (- n) h)" "within (add_current a (- n) h)"
    by (simp_all add: release_allowed)
  then show ?case using Cons by simp
qed simp

lemma allow_loop_result:
  assumes "allow_loop n g i b h = (r, k, h')" "0 < n" "within h" "\<forall>a\<in>set g. a < length h"
    and "g \<noteq> []"
  shows "within h' \<and> length h' = length h \<and>
     (if r then h' = add_all n g h else \<exists>j<length g. k = i + j \<and> h' = add_all n (take j g) h)"
  using assms
proof (induction g arbitrary: i b h)
  case (Cons a g)
  obtain ok h1 where s: "llimiter_Allow a n h = (ok, h1)" by (cases "llimiter_Allow a n h")
  show ?case
  proof (cases ok)
    case False
    then have "h1 = h" using s Cons.prems(2) by (simp add: llimiter_refused)
    then show ?thesis using Cons.prems False s by auto
  next
    case True
    then have h1: "h1 = add_current a n h" and "ll_current (h ! a) + n \<le> ll_limit (h ! a)"
      using s Cons.prems(4) by (auto simp: llimiter_Allow_def Let_def split: if_splits)
    then have w: "within h1" using Cons.prems(3) by (simp add: within_add)
    show ?thesis
    proof (cases "g = []")
      case True
      then show ?thesis using Cons.prems s \<open>ok\<close> h1 w by auto
    next
      case False
      have "allow_loop n g (Suc i) True h1 = (r, k, h')" using Cons.prems(1) s \<open>ok\<close> False by simp
      moreover have "\<forall>a\<in>set g. a < length h1" using Cons.prems(4) h1 by simp
      ultimately have IH: "within h' \<and> length h' = length h1 \<and>
        (if r then h' = add_all n g h1 else \<exists>j<length g. k = Suc i + j \<and> h' = add_all n (take j g) h1)"
        using Cons.prems(2) w False by (intro Cons.IH)
      show ?thesis
      proof (cases r)
        case True
        then show ?thesis using IH h1 by auto
      next
        case False
        then obtain j where "j < length g" "k = Suc i + j" "h' = add_all n (take j g) h1"
          using IH by auto
        then have "Suc j < length (a # g) \<and> k = i + Suc j \<and> h' = add_all n (take (Suc j) (a # g)) h"
          using h1 by simp
        then show ?thesis using False IH h1 by (simp only: if_False) (metis add_current_fields(1))
      qed
    qed
  qed
qed simp

text \<open>
  A group allows for all of its limiters or for none: a refusal leaves every counter as it was.
\<close>

lemma group_allow_result:
  assumes "limiterGroup_Allow g n h = (r, h')" "0 < n" "within h" "\<forall>a\<in>set g. a < length h" "g \<noteq> []"
  shows "within h' \<and> length h' = length h \<and> h' = (if r then add_all n g h else h)"
proof -
  obtain b k h1 where l: "allow_loop n g 0 False h = (b, k, h1)" by (cases "allow_loop n g 0 False h")
  then have r: "r = b" using assms(1) by (simp add: limiterGroup_Allow_def)
  note res = allow_loop_result [OF l assms(2-5)]
  show ?thesis
  proof (cases b)
    case True
    then have "h' = h1" using assms(1) l by (simp add: limiterGroup_Allow_def)
    then show ?thesis using res r True by auto
  next
    case False
    then obtain j where j: "j < length g" "k = j" "h1 = add_all n (take j g) h" using res by auto
    have undone: "release_all n (take j g) h1 = h"
      using release_all_within [of h1 "take j g" n] res assms(2,4) j(3)
      by (auto dest: in_set_takeD simp: add_all_cancel)
    have "h' = h"
      using assms(1,2) l False j undone by (cases "j = 0") (simp_all add: limiterGroup_Allow_def)
    then show ?thesis using False r assms(3) by simp
  qed
qed

lemma group_release_result:
  assumes "within h" "\<forall>a\<in>set g. a < length h"
  shows "snd (limiterGroup_Allow g (- 1) h) = add_all (- 1) g h \<and> within (add_all (- 1) g h)"
proof -
  have "snd (snd (allow_loop (- 1) g i b h)) = add_all (- 1) g h \<and> within (add_all (- 1) g h)" for i b
    using assms
  proof (induction g arbitrary: i b h)
    case (Cons a g)
    then have "llimiter_Allow a (- 1) h = (True, add_current a (- 1) h)" "within (add_current a (- 1) h)"
      using release_allowed [of h a 1] by simp_all
    then show ?case using Cons by (cases "g = []") simp_all
  qed simp
  then show ?thesis
    by (cases "allow_loop (- 1) g 0 False h") (simp add: limiterGroup_Allow_def, metis snd_conv)
qed

end
