(* ===== verification/ConnLimiterProps.thy ===== *)
theory ConnLimiterProps
  imports ConnLimiter
begin

text \<open>
  What the connection limiter guarantees: in every run of a limited listener no limiter has more
  open connections than its limit, as long as a connection is closed once; and what closing one
  twice does.
\<close>

section \<open>Well-formed limiters\<close>

fun gen_ok :: "nat \<Rightarrow> generator \<Rightarrow> bool" where
  "gen_ok m (Fresh n) = True"
| "gen_ok m (Single None) = True"
| "gen_ok m (Single (Some a)) = (a < m)"

definition lim_ok :: "connLimiter \<Rightarrow> bool" where
  "lim_ok l \<longleftrightarrow>
     (\<forall>g\<in>ran (cl_ip l). gen_ok (length (cl_store l)) g) \<and>
     (\<forall>g\<in>snd ` set (cl_cidr l). gen_ok (length (cl_store l)) g) \<and>
     (\<forall>g. Some g \<in> ran (cl_limits l) \<longrightarrow> g \<noteq> [] \<and> (\<forall>a\<in>set g. a < length (cl_store l))) \<and>
     within (cl_store l)"

lemma gen_ok_mono: "gen_ok m g \<Longrightarrow> m \<le> k \<Longrightarrow> gen_ok k g"
  by (induction m g rule: gen_ok.induct) auto

lemma gen_ok_Suc: "gen_ok m g \<Longrightarrow> gen_ok (Suc m) g"
  by (erule gen_ok_mono) simp

text \<open>A store grows by fresh limiters whose counters are zero.\<close>

definition grows :: "lim_store \<Rightarrow> lim_store \<Rightarrow> bool" where
  "grows h h' \<longleftrightarrow> (\<exists>new. h' = h @ new \<and> (\<forall>x\<in>set new. ll_current x = 0 \<and> 0 < ll_limit x))"

lemma grows_refl [simp, intro]: "grows h h"
  by (simp add: grows_def)

lemma grows_trans [trans]: "grows h h' \<Longrightarrow> grows h' h'' \<Longrightarrow> grows h h''"
  unfolding grows_def by fastforce

lemma grows_length: "grows h h' \<Longrightarrow> length h \<le> length h'"
  by (auto simp: grows_def)

lemma grows_nth: "grows h h' \<Longrightarrow> a < length h \<Longrightarrow> h' ! a = h ! a"
  by (auto simp: grows_def nth_append)

lemma grows_new: "grows h h' \<Longrightarrow> length h \<le> a \<Longrightarrow> a < length h' \<Longrightarrow> ll_current (h' ! a) = 0"
  by (auto simp: grows_def nth_append)

lemma grows_within: "grows h h' \<Longrightarrow> within h \<Longrightarrow> within h'"
  unfolding grows_def within_def by fastforce

lemma NewLimiter_grows: "NewLimiter n h = (a, h') \<Longrightarrow> 0 < n \<Longrightarrow> grows h h' \<and> a < length h'"
  by (auto simp: NewLimiter_def grows_def)

lemma generator_Limiter_grows:
  assumes "generator_Limiter g h = (r, h')" "gen_ok (length h) g"
  shows "grows h h' \<and> (\<forall>a. r = Some a \<longrightarrow> a < length h')"
proof (cases g)
  case (Fresh n)
  then show ?thesis using assms(1)
    by (cases "n \<le> 0") (auto simp: NewLimiter_def grows_def)
next
  case (Single l)
  then show ?thesis using assms by (cases l) auto
qed

lemma gen_list_grows:
  assumes "gen_list g h = (as, h')" "\<forall>x. g = Some x \<longrightarrow> gen_ok (length h) x"
  shows "grows h h' \<and> (\<forall>a\<in>set as. a < length h')"
proof (cases g)
  case (Some x)
  obtain r h1 where s: "generator_Limiter x h = (r, h1)" by (cases "generator_Limiter x h")
  have "grows h h1 \<and> (\<forall>a. r = Some a \<longrightarrow> a < length h1)"
    using generator_Limiter_grows [OF s] assms(2) Some by simp
  then show ?thesis using assms(1) Some s by (cases r) (auto simp: gen_list_def)
qed (use assms in \<open>auto simp: gen_list_def\<close>)

lemma put_single_ok:
  assumes ok: "lim_ok l" and n: "0 < limit" "NewConnLimitSingleGenerator limit (cl_store l) = (g, h)"
  shows "lim_ok (l\<lparr>cl_ip := (cl_ip l)(key \<mapsto> g), cl_store := h\<rparr>) \<and> grows (cl_store l) h"
proof -
  have g: "g = Single (Some (length (cl_store l)))" and h: "h = cl_store l @ [\<lparr>ll_limit = limit, ll_current = 0\<rparr>]"
    using n by (auto simp: NewConnLimitSingleGenerator_def NewLimiter_def)
  have gr: "grows (cl_store l) h" using n(1) h by (simp add: grows_def)
  have "x \<in> ran ((cl_ip l)(key \<mapsto> g)) \<Longrightarrow> gen_ok (length h) x" for x
    using ok g h by (auto simp: lim_ok_def ran_def split: if_splits intro: gen_ok_Suc)
  moreover have "x \<in> snd ` set (cl_cidr l) \<Longrightarrow> gen_ok (length h) x" for x
    using ok h by (auto simp: lim_ok_def intro: gen_ok_Suc)
  ultimately show ?thesis
    using ok gr h grows_within [OF gr] by (auto simp: lim_ok_def intro: less_SucI)
qed

lemma put_plain_ok:
  assumes "lim_ok l"
  shows "lim_ok (l\<lparr>cl_ip := (cl_ip l)(key \<mapsto> Fresh n)\<rparr>)"
    and "lim_ok (l\<lparr>cl_cidr := cl_cidr l @ [(net, Fresh n)]\<rparr>)"
  using assms by (auto simp: lim_ok_def ran_def)

lemma put_limit_ok:
  assumes "lim_ok l"
  shows "lim_ok (put_limit key limit l) \<and> grows (cl_store l) (cl_store (put_limit key limit l))"
proof (cases "key = [] \<or> limit \<le> 0")
  case True
  then show ?thesis using assms by (simp add: put_limit_def)
next
  case used: False
  show ?thesis
  proof (cases "key = GlobalLimitKey \<or> (key \<noteq> IPLimitKey \<and> ParseIP key \<noteq> None)")
    case True
    obtain g h where n: "NewConnLimitSingleGenerator limit (cl_store l) = (g, h)"
      by (cases "NewConnLimitSingleGenerator limit (cl_store l)")
    have "put_limit key limit l = l\<lparr>cl_ip := (cl_ip l)(key \<mapsto> g), cl_store := h\<rparr>"
      using used True n unfolding put_limit_def by (simp only: if_True if_False prod.case)
    then show ?thesis using put_single_ok [OF assms _ n] used by simp
  next
    case False
    then have "put_limit key limit l \<in> {l, l\<lparr>cl_ip := (cl_ip l)(key \<mapsto> Fresh limit)\<rparr>} \<union>
        {l\<lparr>cl_cidr := cl_cidr l @ [(net, Fresh limit)]\<rparr> | net. True}"
      using used unfolding put_limit_def NewConnLimitGenerator_def
      by (simp only: if_True if_False) (auto split: option.split)
    then show ?thesis using assms put_plain_ok [OF assms] by auto
  qed
qed

lemma load_limits_ok:
  assumes "lim_ok l"
  shows "lim_ok (load_limits ss l) \<and> grows (cl_store l) (cl_store (load_limits ss l))"
  using assms
proof (induction ss arbitrary: l)
  case (Cons s ss)
  obtain key limit where p: "parseLimit s = (key, limit)" by (cases "parseLimit s")
  then show ?case
    using Cons.IH [of "put_limit key limit l"] put_limit_ok [OF Cons.prems, of key limit]
    by (simp, metis grows_trans)
qed simp

lemma lim_ok_grow:
  assumes "lim_ok l" "grows (cl_store l) h"
  shows "lim_ok (l\<lparr>cl_store := h\<rparr>)"
  using assms grows_length [OF assms(2)] grows_within [OF assms(2)]
  by (fastforce simp: lim_ok_def intro: gen_ok_mono)

lemma sort_group: "set (newLimiterGroup ls h) = set ls" "newLimiterGroup ls h = [] \<longleftrightarrow> ls = []"
proof -
  show "set (newLimiterGroup ls h) = set ls" by (simp add: newLimiterGroup_def)
  then show "newLimiterGroup ls h = [] \<longleftrightarrow> ls = []" by (metis set_empty)
qed

text \<open>The parameter that stands for \<open>cidranger\<close> only ever returns an entry that was inserted.\<close>

definition from_entries :: "((ip_net \<times> generator) list \<Rightarrow> int \<Rightarrow> generator option) \<Rightarrow> bool" where
  "from_entries containing \<longleftrightarrow> (\<forall>es ip g. containing es ip = Some g \<longrightarrow> g \<in> snd ` set es)"

lemma conn_Limiter_ok:
  assumes l: "conn_Limiter containing key l = (g, l')" and ok: "lim_ok l"
    and c: "from_entries containing"
  shows "lim_ok l' \<and> grows (cl_store l) (cl_store l') \<and>
     (\<forall>as. g = Some as \<longrightarrow> as \<noteq> [] \<and> (\<forall>a\<in>set as. a < length (cl_store l')))"
proof (cases "cl_limits l key")
  case (Some g')
  then have "g' = g" "l' = l" using l by (simp_all add: conn_Limiter_def)
  then show ?thesis using Some ok by (auto simp: lim_ok_def ran_def)
next
  case None
  have gen: "gen_ok (length (cl_store l)) x" if "cl_ip l k = Some x" for k x
    using that ok by (auto simp: lim_ok_def ran_def)
  have cid: "gen_ok (length (cl_store l)) x" if "containing (cl_cidr l) ip = Some x" for ip x
    using that ok c by (fastforce simp: lim_ok_def from_entries_def)
  let ?own = "case ParseIP key of
                None \<Rightarrow> ([], cl_store l)
              | Some ip \<Rightarrow>
                  (case gen_list (cl_ip l key) (cl_store l) of
                     ([], h) \<Rightarrow> gen_list (containing (cl_cidr l) ip) h
                   | (as, h) \<Rightarrow> (as, h))"
  obtain own h1 where o: "?own = (own, h1)" by (cases ?own) auto
  have h1: "grows (cl_store l) h1 \<and> (\<forall>a\<in>set own. a < length h1)"
  proof (cases "ParseIP key")
    case (Some ip)
    obtain as h0 where g0: "gen_list (cl_ip l key) (cl_store l) = (as, h0)"
      by (cases "gen_list (cl_ip l key) (cl_store l)")
    have s0: "grows (cl_store l) h0 \<and> (\<forall>a\<in>set as. a < length h0)"
      by (rule gen_list_grows [OF g0]) (use gen in auto)
    show ?thesis
    proof (cases as)
      case Nil
      have "grows h0 h1 \<and> (\<forall>a\<in>set own. a < length h1)"
      proof (rule gen_list_grows)
        show "gen_list (containing (cl_cidr l) ip) h0 = (own, h1)" using o Some g0 Nil by simp
        show "\<forall>x. containing (cl_cidr l) ip = Some x \<longrightarrow> gen_ok (length h0) x"
          using cid gen_ok_mono grows_length s0 by blast
      qed
      then show ?thesis using s0 grows_trans by blast
    qed (use o Some g0 s0 in auto)
  qed (use o in auto)
  let ?dflt = "if own = [] then gen_list (cl_ip l IPLimitKey) h1 else ([], h1)"
  obtain dflt h2 where d: "?dflt = (dflt, h2)" by (cases ?dflt) auto
  have h2: "grows h1 h2 \<and> (\<forall>a\<in>set dflt. a < length h2)"
  proof (cases "own = []")
    case True
    then show ?thesis using d gen_list_grows [of "cl_ip l IPLimitKey" h1 dflt h2] gen h1
      by (auto intro: gen_ok_mono grows_length)
  qed (use d in auto)
  obtain glob h3 where gl: "gen_list (cl_ip l GlobalLimitKey) h2 = (glob, h3)"
    by (cases "gen_list (cl_ip l GlobalLimitKey) h2")
  have g12: "grows (cl_store l) h2" using h1 h2 by (blast intro: grows_trans)
  have h3: "grows h2 h3 \<and> (\<forall>a\<in>set glob. a < length h3)"
  proof (rule gen_list_grows [OF gl], intro allI impI)
    fix x assume "cl_ip l GlobalLimitKey = Some x"
    then show "gen_ok (length h2) x" by (rule gen_ok_mono [OF gen grows_length [OF g12]])
  qed
  let ?lims = "own @ dflt @ glob"
  have grow: "grows (cl_store l) h3" by (rule grows_trans [OF g12]) (use h3 in blast)
  have below: "a < length h3" if "a \<in> set ?lims" for a
  proof -
    have le: "length h1 \<le> length h2" "length h2 \<le> length h3"
      using grows_length [OF conjunct1 [OF h2]] grows_length [OF conjunct1 [OF h3]] by simp_all
    from that consider "a \<in> set own" | "a \<in> set dflt" | "a \<in> set glob" by auto
    then have "a < length h1 \<or> a < length h2 \<or> a < length h3"
      by cases (use h1 h2 h3 in blast)+
    then show ?thesis using le by linarith
  qed
  have res: "g = (if ?lims = [] then None else Some (newLimiterGroup ?lims h3))"
    "l' = l\<lparr>cl_limits := (cl_limits l)(key \<mapsto> g), cl_store := h3\<rparr>"
    using l None o d gl by (auto simp: conn_Limiter_def Let_def)
  have grp: "as \<noteq> [] \<and> (\<forall>a\<in>set as. a < length h3)" if "g = Some as" for as
    using that res(1) below sort_group by (auto split: if_splits)
  have lg: "lim_ok (l\<lparr>cl_store := h3\<rparr>)" by (rule lim_ok_grow [OF ok grow])
  have "lim_ok l'"
    unfolding lim_ok_def
  proof (intro conjI ballI allI impI)
    fix as assume "Some as \<in> ran (cl_limits l')"
    then consider "g = Some as" | "Some as \<in> ran (cl_limits l)"
      using res(2) by (auto simp: ran_def split: if_splits)
    then have "as \<noteq> [] \<and> (\<forall>a\<in>set as. a < length h3)"
      by cases (use grp lg in \<open>auto simp: lim_ok_def\<close>)
    then show "as \<noteq> []" and "\<And>a. a \<in> set as \<Longrightarrow> a < length (cl_store l')" using res(2) by auto
  qed (use lg res(2) in \<open>auto simp: lim_ok_def\<close>)
  then show ?thesis using grow grp res(2) by simp
qed

section \<open>Runs of a listener\<close>

text \<open>
  A limited listener accepts connections, connections are closed, and the limits may be reloaded
  at any time. Here a connection is closed once.
\<close>

definition new_limiter :: connLimiter where
  "new_limiter = \<lparr>cl_ip = Map.empty, cl_cidr = [], cl_limits = Map.empty, cl_store = []\<rparr>"

inductive listener_run ::
    "((ip_net \<times> generator) list \<Rightarrow> int \<Rightarrow> generator option) \<Rightarrow> connLimiter \<Rightarrow> counted_conn list \<Rightarrow> bool"
    for containing where
  start: "listener_run containing (conn_reload lines new_limiter) []"
| accept: "listener_run containing l cs \<Longrightarrow> conn_Accept containing remote l = (c, l') \<Longrightarrow>
    listener_run containing l' (cs @ [c])"
| close: "listener_run containing l cs \<Longrightarrow> i < length cs \<Longrightarrow> \<not> cc_closed (cs ! i) \<Longrightarrow>
    conn_Close (cs ! i) (cl_store l) = (c, h) \<Longrightarrow>
    listener_run containing (l\<lparr>cl_store := h\<rparr>) (cs[i := c])"
| reload: "listener_run containing l cs \<Longrightarrow> listener_run containing (conn_reload lines l) cs"

definition holds :: "nat \<Rightarrow> counted_conn \<Rightarrow> int" where
  "holds a c = (if cc_closed c then 0 else
     case cc_group c of None \<Rightarrow> 0 | Some g \<Rightarrow> int (count_list g a))"

definition open_on :: "nat \<Rightarrow> counted_conn list \<Rightarrow> int" where
  "open_on a cs = (\<Sum>c\<leftarrow>cs. holds a c)"

lemma open_on_append [simp]: "open_on a (cs @ [c]) = open_on a cs + holds a c"
  by (simp add: open_on_def)

lemma open_on_update:
  "i < length cs \<Longrightarrow> open_on a (cs[i := c]) = open_on a cs - holds a (cs ! i) + holds a c"
proof (induction cs arbitrary: i)
  case (Cons x cs)
  then show ?case by (cases i) (simp_all add: open_on_def)
qed simp

lemma add_all_nth:
  "\<forall>x\<in>set g. x < length h \<Longrightarrow> a < length h \<Longrightarrow>
   ll_current (add_all n g h ! a) = ll_current (h ! a) + n * int (count_list g a) \<and>
   ll_limit (add_all n g h ! a) = ll_limit (h ! a)"
  by (induction g arbitrary: h) (auto simp: algebra_simps)

definition counts :: "connLimiter \<Rightarrow> counted_conn list \<Rightarrow> bool" where
  "counts l cs \<longleftrightarrow> lim_ok l \<and>
     (\<forall>c\<in>set cs. \<forall>g. cc_group c = Some g \<longrightarrow> (\<forall>a\<in>set g. a < length (cl_store l))) \<and>
     (\<forall>a. (a < length (cl_store l) \<longrightarrow> ll_current (cl_store l ! a) = open_on a cs) \<and>
          (length (cl_store l) \<le> a \<longrightarrow> open_on a cs = 0))"

lemma lim_ok_store:
  "lim_ok l \<Longrightarrow> length h = length (cl_store l) \<Longrightarrow> within h \<Longrightarrow> lim_ok (l\<lparr>cl_store := h\<rparr>)"
  by (simp add: lim_ok_def)

lemma counts_grow:
  assumes "counts l cs" "lim_ok l'" "grows (cl_store l) (cl_store l')"
  shows "counts l' cs"
proof -
  note le = grows_length [OF assms(3)]
  have "a < length (cl_store l') \<Longrightarrow> ll_current (cl_store l' ! a) = open_on a cs" for a
    using assms(1) grows_nth [OF assms(3), of a] grows_new [OF assms(3), of a]
    by (cases "a < length (cl_store l)") (auto simp: counts_def)
  moreover have "\<forall>c\<in>set cs. \<forall>g. cc_group c = Some g \<longrightarrow> (\<forall>a\<in>set g. a < length (cl_store l'))"
    using assms(1) le unfolding counts_def by (meson less_le_trans)
  ultimately show ?thesis using assms(1,2) le by (simp add: counts_def)
qed

lemma counts_reload:
  assumes "counts l cs"
  shows "counts (conn_reload lines l) cs"
proof -
  let ?l0 = "l\<lparr>cl_ip := Map.empty, cl_cidr := []\<rparr>"
  let ?l1 = "load_limits lines ?l0"
  have "lim_ok ?l0" using assms by (auto simp: counts_def lim_ok_def)
  then have l1: "lim_ok ?l1" "grows (cl_store l) (cl_store ?l1)"
    using load_limits_ok [of ?l0 lines] by simp_all
  then have "lim_ok (conn_reload lines l)" by (simp add: conn_reload_def lim_ok_def)
  then show ?thesis
    by (rule counts_grow [OF assms]) (use l1 in \<open>simp add: conn_reload_def\<close>)
qed

lemma counts_accept:
  assumes cs: "counts l cs" and acc: "conn_Accept containing remote l = (c, l')"
    and ent: "from_entries containing"
  shows "counts l' (cs @ [c])"
proof -
  obtain g l1 where lim: "conn_Limiter containing (split_host remote) l = (g, l1)"
    by (cases "conn_Limiter containing (split_host remote) l")
  have ok: "lim_ok l" using cs by (simp add: counts_def)
  note L = conn_Limiter_ok [OF lim ok ent]
  have c1: "counts l1 cs" using L by (intro counts_grow [OF cs]) simp_all
  show ?thesis
  proof (cases g)
    case None
    then show ?thesis using acc lim c1 by (auto simp: conn_Accept_def counts_def holds_def)
  next
    case (Some as)
    obtain r h where a: "limiterGroup_Allow as 1 (cl_store l1) = (r, h)"
      by (cases "limiterGroup_Allow as 1 (cl_store l1)")
    have as: "as \<noteq> []" "\<forall>x\<in>set as. x < length (cl_store l1)" using L Some by simp_all
    have w: "within (cl_store l1)" using L by (simp add: lim_ok_def)
    have R: "within h \<and> length h = length (cl_store l1) \<and>
        h = (if r then add_all 1 as (cl_store l1) else cl_store l1)"
      by (rule group_allow_result [OF a _ w as(2,1)]) simp
    have ok': "lim_ok (l1\<lparr>cl_store := h\<rparr>)" using L R by (intro lim_ok_store) auto
    show ?thesis
    proof (cases r)
      case False
      then have "c = \<lparr>cc_group = None, cc_closed = True\<rparr>" "l' = l1" using acc lim Some a R
        by (simp_all add: conn_Accept_def)
      then show ?thesis using c1 by (simp add: counts_def holds_def)
    next
      case True
      then have c: "c = \<lparr>cc_group = Some as, cc_closed = False\<rparr>" and l': "l' = l1\<lparr>cl_store := h\<rparr>"
        and h: "h = add_all 1 as (cl_store l1)"
        using acc lim Some a R by (simp_all add: conn_Accept_def)
      have "count_list as x = 0" if "length (cl_store l1) \<le> x" for x
        using that as(2) by (meson count_notin leD)
      then show ?thesis
        using c1 ok' as(2) R unfolding counts_def c l'
        by (simp add: holds_def h add_all_nth)
    qed
  qed
qed

lemma counts_close:
  assumes cs: "counts l cs" and i: "i < length cs" "\<not> cc_closed (cs ! i)"
    and cl: "conn_Close (cs ! i) (cl_store l) = (c, h)"
  shows "counts (l\<lparr>cl_store := h\<rparr>) (cs[i := c])"
proof (cases "cc_group (cs ! i)")
  case None
  then show ?thesis using cs cl i
    by (auto simp: conn_Close_def counts_def holds_def open_on_update
        dest!: set_update_subset_insert [THEN subsetD])
next
  case (Some g)
  have g: "\<forall>a\<in>set g. a < length (cl_store l)"
    using cs Some nth_mem [OF i(1)] unfolding counts_def by blast
  have w: "within (cl_store l)" using cs by (simp add: counts_def lim_ok_def)
  note R = group_release_result [OF w g]
  have c: "c = (cs ! i)\<lparr>cc_closed := True\<rparr>" and h: "h = add_all (- 1) g (cl_store l)"
    using cl Some R by (simp_all add: conn_Close_def)
  have ok: "lim_ok (l\<lparr>cl_store := h\<rparr>)" using cs R h by (simp add: counts_def lim_ok_store)
  have grp: "\<forall>c'\<in>set (cs[i := c]). \<forall>g'. cc_group c' = Some g' \<longrightarrow> (\<forall>a\<in>set g'. a < length (cl_store l))"
    using cs i c Some g by (auto simp: counts_def dest!: set_update_subset_insert [THEN subsetD])
  have cnt: "count_list g x = 0" if "length (cl_store l) \<le> x" for x
    using that g by (meson count_notin leD)
  have upd: "open_on a (cs[i := c]) = open_on a cs - int (count_list g a)" for a
    using i Some c by (simp add: open_on_update holds_def)
  show ?thesis
    using cs ok grp g cnt upd unfolding counts_def by (simp add: h add_all_nth)
qed

lemma listener_run_counts:
  assumes "listener_run containing l cs" "from_entries containing"
  shows "counts l cs"
  using assms
proof (induction rule: listener_run.induct)
  case (start lines)
  have "counts new_limiter []"
    by (auto simp: counts_def new_limiter_def lim_ok_def within_def open_on_def ran_def)
  then show ?case by (rule counts_reload)
next
  case (accept l cs remote c l')
  then show ?case using counts_accept by blast
next
  case (close l cs i c h)
  then show ?case using counts_close by blast
next
  case (reload l cs lines)
  then show ?case using counts_reload by blast
qed

text \<open>
  Where the calls on a limiter do not overlap and each connection is closed at most once, the counter
  of every limiter is exactly the number of open connections it was asked to count, and that number is
  at most its limit, whatever connections were accepted and closed and however often the limits were
  reloaded. \<open>ConnLimiterRace\<close> says what is left of this when the calls do overlap.
\<close>

lemma connection_limit_holds:
  assumes "listener_run containing l cs" "from_entries containing" "a < length (cl_store l)"
  shows "ll_current (cl_store l ! a) = open_on a cs \<and> open_on a cs \<le> ll_limit (cl_store l ! a)"
  using listener_run_counts [OF assms(1,2)] assms(3) within_nth [of "cl_store l" a]
  by (auto simp: counts_def lim_ok_def)

definition no_cidr :: "(ip_net \<times> generator) list \<Rightarrow> int \<Rightarrow> generator option" where
  "no_cidr es ip = None"

text \<open>A listener with one connection allowed in total, after the first was accepted.\<close>

definition one_allowed :: connLimiter where
  "one_allowed = snd (conn_Accept no_cidr ''10.0.0.1:7'' (conn_reload [''$ 1''] new_limiter))"

lemma one_connection_is_counted:
  "ll_current (cl_store one_allowed ! 0) = 1 \<and>
   cc_closed (fst (conn_Accept no_cidr ''10.0.0.2:9'' one_allowed))"
proof -
  let ?a = "conn_Accept no_cidr ''10.0.0.1:7'' (conn_reload [''$ 1''] new_limiter)"
  let ?b = "conn_Accept no_cidr ''10.0.0.2:9'' one_allowed"
  have r: "listener_run no_cidr one_allowed [fst ?a]"
    using listener_run.accept [OF listener_run.start prod.collapse [symmetric]]
    unfolding one_allowed_def by simp
  have e: "from_entries no_cidr" by (simp add: from_entries_def no_cidr_def)
  have l: "0 < length (cl_store one_allowed)" by code_simp
  have f: "fst ?a = \<lparr>cc_group = Some [0], cc_closed = False\<rparr>" by code_simp
  have c: "cc_closed (fst ?b)" by code_simp
  show ?thesis
    using connection_limit_holds [OF r e l] c unfolding f by (simp add: open_on_def holds_def)
qed

section \<open>Closing twice\<close>

text \<open>\<open>admits k g\<close>: the next \<open>k\<close> connections that ask the group are all allowed.\<close>

fun admits :: "nat \<Rightarrow> nat list \<Rightarrow> lim_store \<Rightarrow> bool" where
  "admits 0 g h = True"
| "admits (Suc k) g h =
     (case limiterGroup_Allow g 1 h of (r, h') \<Rightarrow> r \<and> admits k g h')"

lemma single_allow:
  "a < length h \<Longrightarrow> limiterGroup_Allow [a] n h =
     (if ll_current (h ! a) + n > ll_limit (h ! a) then (False, if n > 0 then h else add_current a n h)
      else (True, add_current a n h))"
  by (simp add: limiterGroup_Allow_def llimiter_Allow_def Let_def)

lemma admits_single:
  "a < length h \<Longrightarrow> admits k [a] h \<longleftrightarrow> k = 0 \<or> ll_current (h ! a) + int k \<le> ll_limit (h ! a)"
proof (induction k arbitrary: h)
  case (Suc k)
  then show ?case by (auto simp: single_allow)
qed simp

text \<open>
  \<open>serverConn.Close\<close> is not idempotent: every call gives a slot back. From any state of a
  limiter with a positive limit whose slots are all free, accepting one connection and closing it
  twice leaves the limiter admitting one connection more than its limit at the same time, for the
  rest of its life.
\<close>

theorem double_close_exceeds_limit:
  assumes "a < length h" "ll_current (h ! a) = 0" "0 < ll_limit (h ! a)"
    and "limiterGroup_Allow [a] 1 h = (True, h1)" "c = \<lparr>cc_group = Some [a], cc_closed = False\<rparr>"
    and "conn_Close c h1 = (c', h2)" "conn_Close c' h2 = (c'', h3)"
  shows "\<not> admits (nat (ll_limit (h ! a)) + 1) [a] h2 \<and>
    admits (nat (ll_limit (h ! a)) + 1) [a] h3"
proof -
  have h1: "h1 = add_current a 1 h" using assms(1-4) by (simp add: single_allow)
  have h2: "h2 = h" and c': "cc_group c' = Some [a]"
    using assms(1-3,5,6) h1 by (auto simp: conn_Close_def single_allow)
  have h3: "h3 = add_current a (- 1) h"
    using assms(1-3,7) h2 c' by (simp add: conn_Close_def single_allow)
  show ?thesis using assms(1-3) h2 h3 by (simp add: admits_single del: admits.simps)
qed

theorem double_close_exceeds_limit_witness:
  "admits 2 [0] (snd (conn_Close \<lparr>cc_group = Some [0], cc_closed = True\<rparr>
     (snd (conn_Close \<lparr>cc_group = Some [0], cc_closed = False\<rparr>
        (snd (limiterGroup_Allow [0] 1 [\<lparr>ll_limit = 1, ll_current = 0\<rparr>]))))))"
proof -
  let ?h = "[\<lparr>ll_limit = 1, ll_current = 0\<rparr>]"
  let ?h1 = "snd (limiterGroup_Allow [0] 1 ?h)"
  let ?c = "\<lparr>cc_group = Some [0], cc_closed = False\<rparr>"
  have a: "limiterGroup_Allow [0] 1 ?h = (True, ?h1)" by code_simp
  have c: "conn_Close ?c ?h1 = (\<lparr>cc_group = Some [0], cc_closed = True\<rparr>, snd (conn_Close ?c ?h1))"
    by (simp add: conn_Close_def)
  from double_close_exceeds_limit [OF _ _ _ a refl c prod.collapse [symmetric]]
  show ?thesis by (simp add: eval_nat_numeral)
qed

end
