(* ===== verification/ConnLimiterRace.thy ===== *)
theory ConnLimiterRace
  imports ConnLimiterProps
begin

text \<open>
  The counters of \<open>x/limiter/conn/limiter.go\<close> under concurrency. \<open>Allow\<close> takes no lock: each
  \<open>atomic.AddInt64\<close> is one step, and the goroutines of different connections interleave between
  them. A connection goes through the limiters of its group when it is accepted and again when it
  is closed.
\<close>

section \<open>The life of a connection in atomic steps\<close>

text \<open>
  \<open>Asking i\<close> is about to add to the \<open>i\<close>th limiter of the group; \<open>Undoing i\<close> was refused there
  and is about to take its own addition back; \<open>RollingBack i j\<close> is about to release the \<open>j\<close>th of
  the \<open>i\<close> limiters that had allowed; \<open>Releasing i\<close> belongs to \<open>Close\<close>.
\<close>

datatype phase =
    Asking nat | Undoing nat | RollingBack nat nat | Refused
  | Held | Releasing nat | Gone

record conn_thread =
  ct_group :: "nat list"
  ct_phase :: phase

definition over :: "nat \<Rightarrow> lim_store \<Rightarrow> bool" where
  "over a h \<longleftrightarrow> ll_limit (h ! a) < ll_current (h ! a)"

fun thread_step :: "nat list \<Rightarrow> phase \<Rightarrow> lim_store \<Rightarrow> phase \<times> lim_store" where
  "thread_step g (Asking i) h =
     (let h' = add_current (g ! i) 1 h in
      if over (g ! i) h' then (Undoing i, h')
      else (if Suc i < length g then Asking (Suc i) else Held, h'))"
| "thread_step g (Undoing i) h =
     (if i = 0 then Refused else RollingBack i 0, add_current (g ! i) (- 1) h)"
| "thread_step g (RollingBack i j) h =
     (if Suc j < i then RollingBack i (Suc j) else Refused, add_current (g ! j) (- 1) h)"
| "thread_step g Held h = (Releasing 0, h)"
| "thread_step g (Releasing i) h =
     (let h' = add_current (g ! i) (- 1) h in
      if over (g ! i) h' then (Gone, h')
      else (if Suc i < length g then Releasing (Suc i) else Gone, h'))"
| "thread_step g Refused h = (Refused, h)"
| "thread_step g Gone h = (Gone, h)"

fun phase_ok :: "nat list \<Rightarrow> phase \<Rightarrow> bool" where
  "phase_ok g (Asking i) = (i < length g)"
| "phase_ok g (Undoing i) = (i < length g)"
| "phase_ok g (RollingBack i j) = (j < i \<and> i < length g)"
| "phase_ok g (Releasing i) = (i < length g)"
| "phase_ok g _ = (g \<noteq> [])"

inductive conn_race ::
    "conn_thread list \<times> lim_store \<Rightarrow> conn_thread list \<times> lim_store \<Rightarrow> bool" where
  none: "conn_race s s"
| step: "conn_race s (ts, h) \<Longrightarrow> i < length ts \<Longrightarrow>
    thread_step (ct_group (ts ! i)) (ct_phase (ts ! i)) h = (p, h') \<Longrightarrow>
    conn_race s (ts[i := (ts ! i)\<lparr>ct_phase := p\<rparr>], h')"

section \<open>Alone, a connection does what the functions do\<close>

fun thread_steps :: "nat \<Rightarrow> nat list \<Rightarrow> phase \<Rightarrow> lim_store \<Rightarrow> phase \<times> lim_store" where
  "thread_steps 0 g p h = (p, h)"
| "thread_steps (Suc k) g p h =
     (case thread_step g p h of (p', h') \<Rightarrow> thread_steps k g p' h')"

text \<open>Whatever a group's size, two limiters are the largest a listener makes, besides one.\<close>

lemma pair_alone:
  assumes "a < length h" "b < length h"
  shows "\<exists>k\<le>5. thread_steps k [a, b] (Asking 0) h =
    (case limiterGroup_Allow [a, b] 1 h of (r, h') \<Rightarrow> (if r then Held else Refused, h'))"
proof -
  have k: "limiterGroup_Allow [a, b] 1 h =
     (let h1 = add_current a 1 h; h2 = add_current b 1 h1 in
      if over a h1 then (False, h)
      else if over b h2 then (False, snd (llimiter_Allow a (- 1) h1)) else (True, h2))"
    by (simp add: limiterGroup_Allow_def llimiter_Allow_def Let_def over_def)
  have r: "snd (llimiter_Allow a (- 1) (add_current a 1 h)) = h"
    by (simp add: llimiter_Allow_def Let_def)
  show ?thesis
  proof (cases "over a (add_current a 1 h)")
    case True
    then have "thread_steps 2 [a, b] (Asking 0) h = (Refused, h)"
      by (simp add: numeral_eq_Suc Let_def)
    then show ?thesis using True k by (intro exI [of _ 2]) (simp add: Let_def)
  next
    case o1: False
    show ?thesis
    proof (cases "over b (add_current b 1 (add_current a 1 h))")
      case True
      then have "thread_steps 4 [a, b] (Asking 0) h = (Refused, h)"
        using o1 by (simp add: numeral_eq_Suc Let_def)
      then show ?thesis using True o1 k r by (intro exI [of _ 4]) (simp add: Let_def)
    next
      case False
      then have "thread_steps 2 [a, b] (Asking 0) h = (Held, add_current b 1 (add_current a 1 h))"
        using o1 by (simp add: numeral_eq_Suc Let_def)
      then show ?thesis using False o1 k by (intro exI [of _ 2]) (simp add: Let_def)
    qed
  qed
qed

section \<open>The limit holds under every interleaving\<close>

text \<open>The limiters whose counter a connection has raised and not lowered yet.\<close>

fun raised :: "nat list \<Rightarrow> phase \<Rightarrow> nat list" where
  "raised g (Asking i) = take i g"
| "raised g (Undoing i) = take (Suc i) g"
| "raised g (RollingBack i j) = drop j (take i g)"
| "raised g Held = g"
| "raised g (Releasing i) = drop i g"
| "raised g Refused = []"
| "raised g Gone = []"

text \<open>The limiters that have let the connection through and still count it.\<close>

fun passed :: "nat list \<Rightarrow> phase \<Rightarrow> nat list" where
  "passed g (Undoing i) = take i g"
| "passed g p = raised g p"

definition total :: "(nat list \<Rightarrow> phase \<Rightarrow> nat list) \<Rightarrow> nat \<Rightarrow> conn_thread list \<Rightarrow> int" where
  "total f a ts = (\<Sum>t\<leftarrow>ts. int (count_list (f (ct_group t) (ct_phase t)) a))"

lemma total_update:
  "i < length ts \<Longrightarrow> total f a (ts[i := (ts ! i)\<lparr>ct_phase := p\<rparr>]) =
     total f a ts - int (count_list (f (ct_group (ts ! i)) (ct_phase (ts ! i))) a)
       + int (count_list (f (ct_group (ts ! i)) p) a)"
proof (induction ts arbitrary: i)
  case (Cons t ts)
  then show ?case by (cases i) (simp_all add: total_def)
qed simp

lemma count_take_Suc:
  "i < length g \<Longrightarrow> count_list (take (Suc i) g) a = count_list (take i g) a + (if g ! i = a then 1 else 0)"
  by (simp add: take_Suc_conv_app_nth)

lemma count_drop_Suc:
  "i < length g \<Longrightarrow> count_list (drop i g) a = (if g ! i = a then 1 else 0) + count_list (drop (Suc i) g) a"
  by (simp add: Cons_nth_drop_Suc [symmetric])

lemma passed_le_raised: "count_list (passed g p) a \<le> count_list (raised g p) a"
proof (cases p)
  case (Undoing i)
  then show ?thesis
    by (cases "i < length g") (simp_all add: count_take_Suc)
qed simp_all

lemma total_passed_le: "total passed a ts \<le> total raised a ts"
  unfolding total_def by (intro sum_list_mono) (simp add: passed_le_raised)

definition race_inv :: "conn_thread list \<times> lim_store \<Rightarrow> bool" where
  "race_inv s \<longleftrightarrow>
     (\<forall>t\<in>set (fst s). phase_ok (ct_group t) (ct_phase t) \<and> (\<forall>a\<in>set (ct_group t). a < length (snd s))) \<and>
     (\<forall>a<length (snd s). total raised a (fst s) \<le> ll_current (snd s ! a) \<and>
        total passed a (fst s) \<le> ll_limit (snd s ! a))"

text \<open>One step changes one counter by at least as much as what the connection has raised.\<close>

lemma thread_step_effect:
  assumes "thread_step g p h = (p', h')" "phase_ok g p" "\<forall>a\<in>set g. a < length h"
  shows "phase_ok g p' \<and> length h' = length h \<and>
    (\<forall>a<length h. ll_limit (h' ! a) = ll_limit (h ! a) \<and>
       int (count_list (raised g p') a) - int (count_list (raised g p) a)
         \<le> ll_current (h' ! a) - ll_current (h ! a) \<and>
       (count_list (passed g p') a \<le> count_list (passed g p) a \<or> ll_current (h' ! a) \<le> ll_limit (h' ! a)))"
proof (cases p)
  case (Asking i)
  then have i: "i < length g" "g ! i < length h" using assms(2,3) by simp_all
  show ?thesis
  proof (cases "over (g ! i) (add_current (g ! i) 1 h)")
    case True
    then show ?thesis using Asking assms(1) i by (auto simp: Let_def count_take_Suc)
  next
    case False
    moreover have "take (Suc i) g = g" if "\<not> Suc i < length g" using that i by simp
    ultimately show ?thesis using Asking assms(1) i count_take_Suc [OF i(1)]
      by (cases "Suc i < length g") (auto simp: Let_def over_def)
  qed
next
  case (Undoing i)
  then have i: "i < length g" "g ! i < length h" using assms(2,3) by simp_all
  show ?thesis using Undoing assms(1) i count_take_Suc [OF i(1)]
    by (cases "i = 0") (auto simp: Let_def)
next
  case (RollingBack i j)
  then have j: "j < length (take i g)" "g ! j < length h" "i < length g" "j < i" "g \<noteq> []"
    using assms(2,3) by auto
  show ?thesis using RollingBack assms(1) j count_drop_Suc [OF j(1)]
    by (cases "Suc j < i") (auto simp: Let_def)
next
  case (Releasing i)
  then have i: "i < length g" "g ! i < length h" "g \<noteq> []" using assms(2,3) by auto
  show ?thesis using Releasing assms(1) i count_drop_Suc [OF i(1)]
    by (auto simp: Let_def split: if_splits)
qed (use assms in auto)

lemma race_inv_step:
  assumes inv: "race_inv (ts, h)" and i: "i < length ts"
    and s: "thread_step (ct_group (ts ! i)) (ct_phase (ts ! i)) h = (p, h')"
  shows "race_inv (ts[i := (ts ! i)\<lparr>ct_phase := p\<rparr>], h')"
proof -
  let ?g = "ct_group (ts ! i)" and ?q = "ct_phase (ts ! i)" and ?ts = "ts[i := (ts ! i)\<lparr>ct_phase := p\<rparr>]"
  have ti: "phase_ok ?g ?q" "\<forall>a\<in>set ?g. a < length h"
    using inv nth_mem [OF i] by (auto simp: race_inv_def)
  note E = thread_step_effect [OF s ti]
  have wf: "\<forall>t\<in>set ?ts. phase_ok (ct_group t) (ct_phase t) \<and> (\<forall>a\<in>set (ct_group t). a < length h')"
  proof
    fix t assume "t \<in> set ?ts"
    then have "t = (ts ! i)\<lparr>ct_phase := p\<rparr> \<or> t \<in> set ts"
      using set_update_subset_insert [of ts i "(ts ! i)\<lparr>ct_phase := p\<rparr>"] by blast
    then show "phase_ok (ct_group t) (ct_phase t) \<and> (\<forall>a\<in>set (ct_group t). a < length h')"
      using E ti inv by (auto simp: race_inv_def)
  qed
  have "total raised a ?ts \<le> ll_current (h' ! a) \<and> total passed a ?ts \<le> ll_limit (h' ! a)"
    if "a < length h'" for a
  proof -
    have a: "a < length h" using that E by simp
    then have old: "total raised a ts \<le> ll_current (h ! a)" "total passed a ts \<le> ll_limit (h ! a)"
      using inv by (simp_all add: race_inv_def)
    have r: "total raised a ?ts \<le> ll_current (h' ! a)"
      using conjunct1 [OF conjunct2 [OF E [THEN conjunct2, THEN conjunct2, rule_format, OF a]]]
        old total_update [OF i, of raised a p] by linarith
    have "total passed a ?ts \<le> total passed a ts \<or> ll_current (h' ! a) \<le> ll_limit (h' ! a)"
      using conjunct2 [OF conjunct2 [OF E [THEN conjunct2, THEN conjunct2, rule_format, OF a]]]
        total_update [OF i, of passed a p] by linarith
    then show ?thesis using r total_passed_le [of a ?ts] old E a by auto
  qed
  then show ?thesis using wf by (simp add: race_inv_def)
qed

lemma conn_race_inv: "conn_race s s' \<Longrightarrow> race_inv s \<Longrightarrow> race_inv s'"
proof (induction rule: conn_race.induct)
  case (step s ts h i p h')
  then show ?case using race_inv_step by blast
qed

definition asking :: "nat list \<Rightarrow> conn_thread" where
  "asking g = \<lparr>ct_group = g, ct_phase = Asking 0\<rparr>"

definition held_on :: "nat \<Rightarrow> conn_thread list \<Rightarrow> conn_thread list" where
  "held_on a ts = filter (\<lambda>t. ct_phase t = Held \<and> a \<in> set (ct_group t)) ts"

lemma held_on_passed: "int (length (held_on a ts)) \<le> total passed a ts"
proof (induction ts)
  case (Cons t ts)
  have "1 \<le> count_list (ct_group t) a" if "a \<in> set (ct_group t)"
    using that by (metis One_nat_def Suc_leI count_list_0_iff neq0_conv)
  then show ?case using Cons by (auto simp: held_on_def total_def)
qed (simp add: held_on_def total_def)

lemma asking_inv:
  assumes "\<forall>g\<in>set gs. g \<noteq> [] \<and> (\<forall>a\<in>set g. a < length h)"
    and "\<forall>l\<in>set h. ll_current l = 0 \<and> 0 \<le> ll_limit l"
  shows "race_inv (map asking gs, h)"
proof -
  have "total f a (map asking gs) = 0" if "f \<in> {raised, passed}" for f a
    using that by (induction gs) (auto simp: total_def asking_def)
  then show ?thesis using assms by (auto simp: race_inv_def asking_def)
qed

text \<open>
  (C20) The limit holds under concurrency. However many connections ask their groups of limiters,
  roll back and close at the same time, and however their atomic additions interleave: no limiter
  ever has more connections let through than its limit.
\<close>

theorem limit_holds_under_concurrency:
  assumes "conn_race (map asking gs, h) (ts, h')" "a < length h'"
    and "\<forall>g\<in>set gs. g \<noteq> [] \<and> (\<forall>a\<in>set g. a < length h)"
    and "\<forall>l\<in>set h. ll_current l = 0 \<and> 0 \<le> ll_limit l"
  shows "int (length (held_on a ts)) \<le> ll_limit (h' ! a)"
proof -
  have "race_inv (ts, h')" by (rule conn_race_inv [OF assms(1) asking_inv [OF assms(3,4)]])
  then have "total passed a ts \<le> ll_limit (h' ! a)" using assms(2) by (simp add: race_inv_def)
  then show ?thesis using held_on_passed [of a ts] by simp
qed

section \<open>Schedules\<close>

fun conn_schedule :: "nat list \<Rightarrow> conn_thread list \<Rightarrow> lim_store \<Rightarrow> conn_thread list \<times> lim_store" where
  "conn_schedule [] ts h = (ts, h)"
| "conn_schedule (i # is) ts h =
     (case thread_step (ct_group (ts ! i)) (ct_phase (ts ! i)) h of
        (p, h') \<Rightarrow> conn_schedule is (ts[i := (ts ! i)\<lparr>ct_phase := p\<rparr>]) h')"

lemma conn_schedule_race:
  "conn_race s (ts, h) \<Longrightarrow> \<forall>i\<in>set is. i < length ts \<Longrightarrow> conn_race s (conn_schedule is ts h)"
proof (induction "is" arbitrary: ts h)
  case (Cons i "is")
  obtain p h' where p: "thread_step (ct_group (ts ! i)) (ct_phase (ts ! i)) h = (p, h')"
    by (cases "thread_step (ct_group (ts ! i)) (ct_phase (ts ! i)) h")
  have "conn_race s (ts[i := (ts ! i)\<lparr>ct_phase := p\<rparr>], h')"
    using Cons.prems p by (auto intro: conn_race.step)
  then show ?case using Cons.IH Cons.prems p by simp
qed simp

theorem limit_holds_under_concurrency_witness:
  "length (held_on 0 (fst (conn_schedule [0, 1, 0, 1, 1] (map asking [[0], [0]])
     [\<lparr>ll_limit = 1, ll_current = 0\<rparr>]))) \<le> 1"
proof -
  let ?h = "[\<lparr>ll_limit = 1, ll_current = 0\<rparr>]"
  let ?s = "conn_schedule [0, 1, 0, 1, 1] (map asking [[0], [0]]) ?h"
  have r: "conn_race (map asking [[0], [0]], ?h) (fst ?s, snd ?s)"
    using conn_schedule_race [OF conn_race.none, of "[0, 1, 0, 1, 1]" "map asking [[0], [0]]" ?h] by simp
  have l: "snd ?s = [\<lparr>ll_limit = 1, ll_current = 1\<rparr>]"
    by (simp add: asking_def Let_def add_current_def over_def)
  have "int (length (held_on 0 (fst ?s))) \<le> ll_limit (snd ?s ! 0)"
    by (rule limit_holds_under_concurrency [OF r]) (unfold l, simp_all)
  then show ?thesis unfolding l by simp
qed

text \<open>
  A release can get lost. \<open>Allow\<close> of a negative number answers false when the counter is
  still over the limit, which other goroutines' refused additions can bring about for a moment, and
  a group stops at the first false. For every group of two limiters, the first of limit 1, there is
  an interleaving of one connection that closes and two that are refused in which all three are
  done, none is open, and the second limiter still counts one, for good.
\<close>

theorem release_can_be_lost:
  assumes "h = [\<lparr>ll_limit = 1, ll_current = 0\<rparr>, \<lparr>ll_limit = m, ll_current = 0\<rparr>]" "1 \<le> m"
  shows "\<exists>ts h'. conn_race (map asking [[0, 1], [0, 1], [0, 1]], h) (ts, h') \<and>
    map ct_phase ts = [Gone, Refused, Refused] \<and>
    ll_current (h' ! 0) = 0 \<and> ll_current (h' ! 1) = 1"
proof -
  let ?is = "[0, 0, 0, 1, 2, 0, 1, 2]"
  let ?s = "conn_schedule ?is (map asking [[0, 1], [0, 1], [0, 1]]) h"
  have "conn_race (map asking [[0, 1], [0, 1], [0, 1]], h) (fst ?s, snd ?s)"
    using conn_schedule_race [OF conn_race.none, of ?is "map asking [[0, 1], [0, 1], [0, 1]]" h] by simp
  moreover have "map ct_phase (fst ?s) = [Gone, Refused, Refused] \<and>
      ll_current (snd ?s ! 0) = 0 \<and> ll_current (snd ?s ! 1) = 1"
    using assms by (simp add: asking_def Let_def add_current_def over_def numeral_eq_Suc)
  ultimately show ?thesis
    by - (rule exI [of _ "fst ?s"], rule exI [of _ "snd ?s"], rule conjI)
qed

theorem release_can_be_lost_witness:
  "\<exists>ts h'. conn_race (map asking [[0, 1], [0, 1], [0, 1]],
      [\<lparr>ll_limit = 1, ll_current = 0\<rparr>, \<lparr>ll_limit = 5, ll_current = 0\<rparr>]) (ts, h') \<and>
    ll_current (h' ! 1) = 1"
  using release_can_be_lost [OF refl, of 5] by auto

end
