(* ===== verification/Selector.thy ===== *)
theory Selector
  imports Metadata "HOL-Library.Word"
begin

text \<open>
  Selecting one of several objects, \<open>x/selector\<close>: the filters for dead and for backup objects
  and the four strategies, as \<open>x/config/parsing/selector/parse.go\<close> puts them together. An object
  is any value with a weight, a backup flag and a fail marker.

  Draws of \<open>math/rand\<close> are arguments: \<open>draw n\<close> is what \<open>Intn(n)\<close> returns.
\<close>

section \<open>Objects\<close>

text \<open>What the selector reads of an object; \<open>None\<close> as marker: the object is not \<open>Markable\<close>.\<close>

record marker =
  mk_count :: int
  mk_time :: int

record 'a selectable =
  sl_item :: 'a
  sl_meta :: metadata
  sl_marker :: "marker option"

definition labelWeight :: string where "labelWeight = ''weight''"
definition labelBackup :: string where "labelBackup = ''backup''"
definition labelMaxFails :: string where "labelMaxFails = ''maxFails''"
definition labelFailTimeout :: string where "labelFailTimeout = ''failTimeout''"

definition DefaultMaxFails :: int where "DefaultMaxFails = 1"
definition DefaultFailTimeout :: int where "DefaultFailTimeout = 10 * second"

section \<open>Filters\<close>

definition has_label :: "metadata \<Rightarrow> string \<Rightarrow> bool" where
  "has_label md k = (case md of None \<Rightarrow> False | Some m \<Rightarrow> md_IsExists m k)"

definition max_fails_of :: "int \<Rightarrow> 'a selectable \<Rightarrow> int" where
  "max_fails_of dflt v =
     (let n = (if has_label (sl_meta v) labelMaxFails then GetInt (sl_meta v) [labelMaxFails] else dflt)
      in if n \<le> 0 then 1 else n)"

definition fail_timeout_of :: "(string \<Rightarrow> int option) \<Rightarrow> int \<Rightarrow> 'a selectable \<Rightarrow> int" where
  "fail_timeout_of parseDuration dflt v =
     (let n = (if has_label (sl_meta v) labelFailTimeout
               then GetDuration parseDuration (sl_meta v) [labelFailTimeout] else dflt)
      in if n \<le> 0 then DefaultFailTimeout else n)"

definition alive :: "(string \<Rightarrow> int option) \<Rightarrow> int \<Rightarrow> int \<Rightarrow> int \<Rightarrow> 'a selectable \<Rightarrow> bool" where
  "alive parseDuration now maxFails failTimeout v =
     (case sl_marker v of
        None \<Rightarrow> True
      | Some k \<Rightarrow> mk_count k < max_fails_of maxFails v \<or>
                  now - mk_time k \<ge> fail_timeout_of parseDuration failTimeout v)"

definition failFilter ::
    "(string \<Rightarrow> int option) \<Rightarrow> int \<Rightarrow> int \<Rightarrow> int \<Rightarrow> 'a selectable list \<Rightarrow> 'a selectable list" where
  "failFilter parseDuration now maxFails failTimeout vs =
     (if length vs \<le> 1 then vs else filter (alive parseDuration now maxFails failTimeout) vs)"

definition is_backup :: "'a selectable \<Rightarrow> bool" where
  "is_backup v = GetBool (sl_meta v) [labelBackup]"

definition backupFilter :: "'a selectable list \<Rightarrow> 'a selectable list" where
  "backupFilter vs =
     (if length vs \<le> 1 then vs
      else case filter (\<lambda>v. \<not> is_backup v) vs of [] \<Rightarrow> filter is_backup vs | l \<Rightarrow> l)"

section \<open>Strategies\<close>

datatype strategy = RoundRobin | Random | FIFO | Hash

definition parse_strategy :: "string \<Rightarrow> strategy" where
  "parse_strategy s =
     (if s = ''round'' \<or> s = ''rr'' then RoundRobin
      else if s = ''random'' \<or> s = ''rand'' then Random
      else if s = ''fifo'' \<or> s = ''ha'' then FIFO
      else if s = ''hash'' then Hash
      else RoundRobin)"

text \<open>The round-robin counter is a \<open>uint64\<close> and wraps around.\<close>

definition roundRobin_Apply :: "64 word \<Rightarrow> 'a list \<Rightarrow> 'a option \<times> 64 word" where
  "roundRobin_Apply counter vs =
     (if vs = [] then (None, counter)
      else (Some (vs ! (unat counter mod length vs)), counter + 1))"

definition fifo_Apply :: "'a list \<Rightarrow> 'a option" where
  "fifo_Apply vs = (case vs of [] \<Rightarrow> None | v # _ \<Rightarrow> Some v)"

text \<open>\<open>RandomWeighted\<close>: items with their weights, and the walk of \<open>Next\<close>.\<close>

definition rw_sum :: "('a \<times> int) list \<Rightarrow> int" where
  "rw_sum items = (\<Sum>x\<leftarrow>items. snd x)"

fun rw_walk :: "int \<Rightarrow> ('a \<times> int) list \<Rightarrow> 'a option" where
  "rw_walk w [] = None"
| "rw_walk w ((v, k) # items) = (if w - k \<le> 0 then Some v else rw_walk (w - k) items)"

definition rw_Next :: "(int \<Rightarrow> int) \<Rightarrow> ('a \<times> int) list \<Rightarrow> 'a option" where
  "rw_Next draw items =
     (if items = [] \<or> rw_sum items \<le> 0 then None
      else case rw_walk (draw (rw_sum items) + 1) items of
        Some v \<Rightarrow> Some v
      | None \<Rightarrow> Some (fst (last items)))"

definition weight_of :: "'a selectable \<Rightarrow> int" where
  "weight_of v = (let w = GetInt (sl_meta v) [labelWeight] in if w \<le> 0 then 1 else w)"

definition random_Apply :: "(int \<Rightarrow> int) \<Rightarrow> 'a selectable list \<Rightarrow> 'a selectable option" where
  "random_Apply draw vs =
     (if vs = [] then None else rw_Next draw (map (\<lambda>v. (v, weight_of v)) vs))"

text \<open>\<open>crc32.ChecksumIEEE\<close>, bit by bit.\<close>

unbundle bit_operations_syntax

fun crc32_bits :: "nat \<Rightarrow> 32 word \<Rightarrow> 32 word" where
  "crc32_bits 0 c = c"
| "crc32_bits (Suc k) c =
     crc32_bits k (if bit c 0 then drop_bit 1 c XOR 0xEDB88320 else drop_bit 1 c)"

definition crc32_byte :: "32 word \<Rightarrow> char \<Rightarrow> 32 word" where
  "crc32_byte c b = crc32_bits 8 (c XOR of_nat (of_char b))"

definition crc32 :: "string \<Rightarrow> 32 word" where
  "crc32 s = NOT (foldl crc32_byte 0xFFFFFFFF s)"

text \<open>The check value of the IEEE polynomial.\<close>

lemma crc32_check: "crc32 ''123456789'' = 0xCBF43926"
  by code_simp

definition hash_Apply :: "string option \<Rightarrow> (int \<Rightarrow> int) \<Rightarrow> 'a list \<Rightarrow> 'a option" where
  "hash_Apply src draw vs =
     (if vs = [] then None
      else case src of
        Some s \<Rightarrow> Some (vs ! (unat (crc32 s) mod length vs))
      | None \<Rightarrow> Some (vs ! nat (draw (int (length vs)))))"

section \<open>The selector\<close>

record selector =
  se_strategy :: strategy
  se_maxFails :: int
  se_failTimeout :: int
  se_counter :: "64 word"

text \<open>What a selection finds in its surroundings: the time, the hash source of the context, draws.\<close>

record sel_ctx =
  cx_now :: int
  cx_hash :: "string option"
  cx_draw :: "int \<Rightarrow> int"
  cx_duration :: "string \<Rightarrow> int option"

definition ParseSelector :: "string \<Rightarrow> int \<Rightarrow> int \<Rightarrow> selector" where
  "ParseSelector s maxFails failTimeout =
     \<lparr>se_strategy = parse_strategy s, se_maxFails = maxFails, se_failTimeout = failTimeout,
      se_counter = 0\<rparr>"

definition DefaultNodeSelector :: selector where
  "DefaultNodeSelector =
     \<lparr>se_strategy = RoundRobin, se_maxFails = DefaultMaxFails, se_failTimeout = DefaultFailTimeout,
      se_counter = 0\<rparr>"

definition selected :: "sel_ctx \<Rightarrow> selector \<Rightarrow> 'a selectable list \<Rightarrow> 'a selectable list" where
  "selected cx s vs =
     backupFilter (failFilter (cx_duration cx) (cx_now cx) (se_maxFails s) (se_failTimeout s) vs)"

definition Select :: "sel_ctx \<Rightarrow> selector \<Rightarrow> 'a selectable list \<Rightarrow> 'a selectable option \<times> selector" where
  "Select cx s vs =
     (let vs' = selected cx s vs in
      if vs' = [] then (None, s)
      else case se_strategy s of
        RoundRobin \<Rightarrow>
          (case roundRobin_Apply (se_counter s) vs' of (v, c) \<Rightarrow> (v, s\<lparr>se_counter := c\<rparr>))
      | Random \<Rightarrow> (random_Apply (cx_draw cx) vs', s)
      | FIFO \<Rightarrow> (fifo_Apply vs', s)
      | Hash \<Rightarrow> (hash_Apply (cx_hash cx) (cx_draw cx) vs', s))"

text \<open>\<open>rand.Intn\<close> draws below its argument.\<close>

definition draws_below :: "(int \<Rightarrow> int) \<Rightarrow> bool" where
  "draws_below draw \<longleftrightarrow> (\<forall>n>0. 0 \<le> draw n \<and> draw n < n)"

section \<open>A selection is one of the candidates\<close>

lemma rw_walk_in: "rw_walk w items = Some v \<Longrightarrow> v \<in> fst ` set items"
  by (induction w items rule: rw_walk.induct) (auto split: if_splits)

lemma rw_Next_in: "rw_Next draw items = Some v \<Longrightarrow> v \<in> fst ` set items"
  by (auto simp: rw_Next_def split: if_splits option.splits dest: rw_walk_in)

lemma weight_pos: "0 < weight_of v"
  by (simp add: weight_of_def Let_def)

lemma rw_sum_pos: "items \<noteq> [] \<Longrightarrow> \<forall>x\<in>set items. 0 < snd x \<Longrightarrow> 0 < rw_sum items"
proof (induction items)
  case (Cons x items)
  then show ?case by (cases "items = []") (auto simp: rw_sum_def)
qed simp

lemma random_Apply_in:
  assumes "vs \<noteq> []"
  shows "\<exists>v\<in>set vs. random_Apply draw vs = Some v"
proof -
  let ?items = "map (\<lambda>v. (v, weight_of v)) vs"
  have "0 < rw_sum ?items" by (rule rw_sum_pos) (use assms weight_pos in auto)
  then obtain v where v: "rw_Next draw ?items = Some v"
    using assms by (cases "rw_walk (draw (rw_sum ?items) + 1) ?items") (simp_all add: rw_Next_def)
  then have "v \<in> set vs" using rw_Next_in by force
  then show ?thesis using v assms by (auto simp: random_Apply_def)
qed

lemma Select_in:
  assumes "Select cx s vs = (r, s')" "draws_below (cx_draw cx)"
  shows "if selected cx s vs = [] then r = None else \<exists>v\<in>set (selected cx s vs). r = Some v"
proof (cases "selected cx s vs = []")
  case False
  let ?vs = "selected cx s vs"
  have len: "0 < length ?vs" using False by simp
  have idx: "?vs ! (k mod length ?vs) \<in> set ?vs" for k using len by simp
  have draw: "?vs ! nat (cx_draw cx (int (length ?vs))) \<in> set ?vs"
  proof (rule nth_mem)
    show "nat (cx_draw cx (int (length ?vs))) < length ?vs"
      using assms(2) len unfolding draws_below_def by (smt (verit) nat_less_iff of_nat_0_less_iff)
  qed
  show ?thesis
  proof (cases "se_strategy s")
    case RoundRobin
    then show ?thesis using assms(1) False idx by (auto simp: Select_def roundRobin_Apply_def Let_def)
  next
    case Random
    then show ?thesis using assms(1) False random_Apply_in [OF False] by (auto simp: Select_def Let_def)
  next
    case FIFO
    then show ?thesis using assms(1) False
      by (auto simp: Select_def fifo_Apply_def Let_def split: list.splits)
  next
    case Hash
    then show ?thesis using assms(1) False idx draw
      by (auto simp: Select_def hash_Apply_def Let_def split: option.splits)
  qed
qed (use assms in \<open>simp add: Select_def Let_def\<close>)

lemma backupFilter_subset: "set (backupFilter vs) \<subseteq> set vs"
proof -
  have "backupFilter vs \<in> {vs, filter is_backup vs, filter (\<lambda>v. \<not> is_backup v) vs}"
    by (simp add: backupFilter_def split: list.split)
  then show ?thesis by auto
qed

lemma failFilter_subset: "set (failFilter p now n t vs) \<subseteq> set vs"
  by (auto simp: failFilter_def)

lemma selected_subset: "set (selected cx s vs) \<subseteq> set vs"
  unfolding selected_def using backupFilter_subset failFilter_subset by blast

section \<open>Fairness\<close>

text \<open>
  Round robin is fair: over as many consecutive selections as there are candidates, from any
  state of the counter that does not wrap meanwhile, every candidate is selected exactly once, in
  the order of the list starting at the counter.
\<close>

theorem round_robin_fair:
  assumes "vs \<noteq> []" "unat c + length vs < 2 ^ 64"
  shows "map (\<lambda>i. fst (roundRobin_Apply (c + of_nat i) vs)) [0..<length vs] =
    map Some (rotate (unat c mod length vs) vs)"
proof (rule nth_equalityI)
  fix i assume "i < length (map (\<lambda>i. fst (roundRobin_Apply (c + of_nat i) vs)) [0..<length vs])"
  then have i: "i < length vs" by simp
  have "unat (c + of_nat i) = unat c + i"
  proof -
    have u: "unat (of_nat i :: 64 word) = i"
      using assms(2) i by (simp add: unsigned_of_nat take_bit_nat_eq_self)
    have "unat (c + of_nat i) = unat c + unat (of_nat i :: 64 word)"
      by (rule unat_add_lem [THEN iffD1]) (use assms(2) i u in simp)
    then show ?thesis using u by simp
  qed
  then have "fst (roundRobin_Apply (c + of_nat i) vs) = Some (vs ! ((unat c + i) mod length vs))"
    using assms(1) by (simp add: roundRobin_Apply_def)
  also have "\<dots> = Some (rotate (unat c mod length vs) vs ! i)"
    using i by (simp add: nth_rotate mod_simps add.commute)
  finally show "map (\<lambda>i. fst (roundRobin_Apply (c + of_nat i) vs)) [0..<length vs] ! i =
      map Some (rotate (unat c mod length vs) vs) ! i"
    using i by simp
qed simp

theorem round_robin_fair_witness:
  "map (\<lambda>i. fst (roundRobin_Apply (7 + of_nat i) ''abc'')) [0..<3] = map Some ''bca''"
proof -
  have "map (\<lambda>i. fst (roundRobin_Apply (7 + of_nat i) ''abc'')) [0..<length ''abc''] =
      map Some (rotate (unat (7 :: 64 word) mod length ''abc'') ''abc'')"
    by (rule round_robin_fair) simp_all
  moreover have "length ''abc'' = 3" "unat (7 :: 64 word) mod 3 = 1" "rotate 1 ''abc'' = ''bca''"
    by simp_all
  ultimately show ?thesis by metis
qed

section \<open>Weights\<close>

lemma rw_sum_nonneg: "\<forall>x\<in>set items. 0 < snd x \<Longrightarrow> 0 \<le> rw_sum items"
  by (induction items) (auto simp: rw_sum_def)

lemma rw_walk_draws:
  assumes "distinct (map fst items)" "\<forall>x\<in>set items. 0 < snd x" "(v, k) \<in> set items"
  shows "card {w \<in> {1..rw_sum items}. rw_walk w items = Some v} = nat k"
  using assms
proof (induction items)
  case (Cons x items)
  obtain u j where x: "x = (u, j)" by (cases x)
  have j: "0 < j" using Cons.prems(2) x by simp
  have nonneg: "0 \<le> rw_sum items"
    by (rule rw_sum_nonneg) (use Cons.prems(2) in simp)
  have sum: "rw_sum (x # items) = j + rw_sum items" by (simp add: rw_sum_def x)
  show ?case
  proof (cases "v = u")
    case True
    then have k: "k = j" using Cons.prems(1,3) x by (auto simp: image_iff)
    have "v \<notin> fst ` set items" using Cons.prems(1) True x by auto
    then have "rw_walk w items \<noteq> Some v" for w using rw_walk_in by metis
    then have "{w \<in> {1..rw_sum (x # items)}. rw_walk w (x # items) = Some v} = {1..j}"
      using nonneg True sum unfolding x by (auto split: if_splits)
    then show ?thesis using k by simp
  next
    case False
    then have "(v, k) \<in> set items" using Cons.prems(3) x by simp
    then have IH: "card {w \<in> {1..rw_sum items}. rw_walk w items = Some v} = nat k"
      using Cons by simp
    have "{w \<in> {1..rw_sum (x # items)}. rw_walk w (x # items) = Some v} =
        (\<lambda>w. w + j) ` {w \<in> {1..rw_sum items}. rw_walk w items = Some v}"
    proof (intro set_eqI iffI)
      fix w assume "w \<in> {w \<in> {1..rw_sum (x # items)}. rw_walk w (x # items) = Some v}"
      then have "w - j \<in> {w \<in> {1..rw_sum items}. rw_walk w items = Some v}"
        using False j sum unfolding x by (auto split: if_splits)
      then show "w \<in> (\<lambda>w. w + j) ` {w \<in> {1..rw_sum items}. rw_walk w items = Some v}"
        by (intro image_eqI [of _ _ "w - j"]) simp_all
    qed (use False j sum x in auto)
    then show ?thesis using IH by (simp add: card_image)
  qed
qed simp

text \<open>
  The weighted choice has exactly the advertised distribution: of the possible draws of
  \<open>Intn\<close> over the sum of the weights, an object is returned by exactly as many as its weight, which
  is its \<open>weight\<close> label, or 1 when that is missing or not positive.
\<close>

theorem weighted_choice_is_proportional:
  assumes "distinct vs" "v \<in> set vs"
  shows "card {d \<in> {0..<rw_sum (map (\<lambda>v. (v, weight_of v)) vs)}. random_Apply (\<lambda>_. d) vs = Some v}
    = nat (weight_of v)"
proof -
  let ?items = "map (\<lambda>v. (v, weight_of v)) vs"
  have pos: "\<forall>x\<in>set ?items. 0 < snd x" using weight_pos by auto
  have sum: "0 < rw_sum ?items" by (rule rw_sum_pos [OF _ pos]) (use assms(2) in auto)
  have total: "rw_walk w items \<noteq> None" if "w \<le> rw_sum items" "items \<noteq> []" for w and items :: "('b \<times> int) list"
    using that
  proof (induction w items rule: rw_walk.induct)
    case (2 w u k items)
    then show ?case by (cases "items = []") (auto simp: rw_sum_def)
  qed simp
  have eq: "random_Apply (\<lambda>_. d) vs = rw_walk (d + 1) ?items" if "d < rw_sum ?items" for d
  proof -
    have ne: "vs \<noteq> []" using assms(2) by auto
    have "rw_walk (d + 1) ?items \<noteq> None" by (rule total) (use that ne in auto)
    then show ?thesis using sum ne by (auto simp: random_Apply_def rw_Next_def)
  qed
  have "{d \<in> {0..<rw_sum ?items}. random_Apply (\<lambda>_. d) vs = Some v} =
      (\<lambda>w. w - 1) ` {w \<in> {1..rw_sum ?items}. rw_walk w ?items = Some v}"
  proof (intro set_eqI iffI)
    fix d assume "d \<in> {d \<in> {0..<rw_sum ?items}. random_Apply (\<lambda>_. d) vs = Some v}"
    then show "d \<in> (\<lambda>w. w - 1) ` {w \<in> {1..rw_sum ?items}. rw_walk w ?items = Some v}"
      using eq by (intro image_eqI [of _ _ "d + 1"]) auto
  qed (use eq in auto)
  then have "card {d \<in> {0..<rw_sum ?items}. random_Apply (\<lambda>_. d) vs = Some v} =
      card {w \<in> {1..rw_sum ?items}. rw_walk w ?items = Some v}"
    by (simp add: card_image inj_on_def)
  also have "\<dots> = nat (weight_of v)"
    by (rule rw_walk_draws) (use assms pos in \<open>auto simp: comp_def\<close>)
  finally show ?thesis .
qed

definition plain :: "nat \<Rightarrow> int \<Rightarrow> nat selectable" where
  "plain x w = \<lparr>sl_item = x, sl_meta = NewMetadata (Some [(''weight'', VInt w)]), sl_marker = None\<rparr>"

theorem weighted_choice_is_proportional_witness:
  "card {d \<in> {0..<rw_sum (map (\<lambda>v. (v, weight_of v)) [plain 1 3, plain 2 5])}.
     random_Apply (\<lambda>_. d) [plain 1 3, plain 2 5] = Some (plain 2 5)} = 5"
proof -
  have w: "weight_of (plain 2 5) = 5" by code_simp
  have d: "distinct [plain 1 3, plain 2 5]" by (simp add: plain_def)
  show ?thesis using weighted_choice_is_proportional [OF d, of "plain 2 5"] w by simp
qed

end
