(* ===== verification/Hop.thy ===== *)
theory Hop
  imports Selector GoNet
begin

text \<open>
  A hop of a chain, \<open>x/hop/hop.go\<close>: which of its nodes may carry a connection, and which of
  those is taken. A node's bypass and matcher are interfaces, so they are predicates here; the
  node's marker and labels are those of \<open>Selector\<close>.

  \<open>sort.Slice\<close> is not stable: its result is any permutation in descending priority. The
  contract is the locale \<open>slice_sort\<close>; the stable sort, which Go uses for up to twelve elements,
  meets it.
\<close>

section \<open>Nodes\<close>

record node_filter =
  nf_host :: string
  nf_protocol :: string
  nf_path :: string

record select_options =
  so_network :: string
  so_addr :: string
  so_host :: string
  so_protocol :: string
  so_path :: string
  so_rest :: string

type_synonym bypass_fn = "string \<Rightarrow> string \<Rightarrow> string \<Rightarrow> bool"

record node =
  nd_name :: string
  nd_addr :: string
  nd_bypass :: "bypass_fn option"
  nd_matcher :: "(select_options \<Rightarrow> bool) option"
  nd_filter :: "node_filter option"
  nd_priority :: int
  nd_meta :: metadata
  nd_marker :: "marker option"
  nd_transport :: nat

text \<open>\<open>nd_transport\<close> is a pointer: the number of the node's transport in the store of \<open>ChainRoute\<close>.\<close>

definition as_selectable :: "node \<Rightarrow> node selectable" where
  "as_selectable n = \<lparr>sl_item = n, sl_meta = nd_meta n, sl_marker = nd_marker n\<rparr>"

section \<open>Eligibility\<close>

definition checkHost :: "string \<Rightarrow> node \<Rightarrow> bool" where
  "checkHost host n =
     (let vhost = (case nd_filter n of None \<Rightarrow> [] | Some f \<Rightarrow> nf_host f) in
      if vhost = [] then True
      else if host = [] then False
      else
        (let h = (if split_host host \<noteq> [] then split_host host else host)
         in vhost = h \<or> (hd vhost = CHR ''.'' \<and> HasSuffix h (tl vhost))))"

definition checkProtocol :: "string \<Rightarrow> node \<Rightarrow> bool" where
  "checkProtocol protocol n =
     (let prot = (case nd_filter n of None \<Rightarrow> [] | Some f \<Rightarrow> nf_protocol f)
      in prot = [] \<or> prot = protocol)"

definition checkPath :: "string \<Rightarrow> node \<Rightarrow> bool" where
  "checkPath path n =
     (let p = (case nd_filter n of None \<Rightarrow> [] | Some f \<Rightarrow> nf_path f)
      in p = [] \<or> HasPrefix path p)"

definition isEligible :: "node \<Rightarrow> select_options \<Rightarrow> bool" where
  "isEligible n opts =
     (case nd_filter n of
        None \<Rightarrow> True
      | Some _ \<Rightarrow> checkHost (so_host opts) n \<and> checkProtocol (so_protocol opts) n \<and>
                  checkPath (so_path opts) n)"

definition bypassed :: "bypass_fn option \<Rightarrow> select_options \<Rightarrow> bool" where
  "bypassed b opts =
     (case b of None \<Rightarrow> False | Some f \<Rightarrow> f (so_network opts) (so_addr opts) (so_host opts))"

definition candidate :: "select_options \<Rightarrow> node \<Rightarrow> bool" where
  "candidate opts n \<longleftrightarrow> \<not> bypassed (nd_bypass n) opts \<and>
     (case nd_matcher n of Some mt \<Rightarrow> mt opts | None \<Rightarrow> isEligible n opts)"

section \<open>Selection\<close>

record chainHop =
  ch_nodes :: "node option list"
  ch_bypass :: "bypass_fn option"
  ch_selector :: "selector option"

fun live_nodes :: "node option list \<Rightarrow> node list" where
  "live_nodes [] = []"
| "live_nodes (None # ns) = live_nodes ns"
| "live_nodes (Some n # ns) = n # live_nodes ns"

definition hop_Select ::
    "(node list \<Rightarrow> node list) \<Rightarrow> sel_ctx \<Rightarrow> select_options \<Rightarrow> chainHop \<Rightarrow> node option \<times> chainHop" where
  "hop_Select sort_priority cx opts h =
     (if bypassed (ch_bypass h) opts then (None, h)
      else case filter (candidate opts) (live_nodes (ch_nodes h)) of
        [] \<Rightarrow> (None, h)
      | [n] \<Rightarrow> (Some n, h)
      | ns \<Rightarrow>
          (let sorted = sort_priority ns in
           if nd_priority (hd sorted) > 0 then (Some (hd sorted), h)
           else case ch_selector h of
             Some s \<Rightarrow>
               (case Select cx s (map as_selectable sorted) of
                  (v, s') \<Rightarrow> (map_option sl_item v, h\<lparr>ch_selector := Some s'\<rparr>))
           | None \<Rightarrow> (Some (hd sorted), h)))"

section \<open>The contract of \<open>sort.Slice\<close>\<close>

locale slice_sort =
  fixes srt :: "'a list \<Rightarrow> 'a list"
    and above :: "'a \<Rightarrow> 'a \<Rightarrow> bool"
  assumes sort_set: "set (srt xs) = set xs"
    and sort_length: "length (srt xs) = length xs"
    and sort_first: "xs \<noteq> [] \<Longrightarrow> x \<in> set xs \<Longrightarrow> \<not> above x (hd (srt xs))"
begin

lemma first_in: "xs \<noteq> [] \<Longrightarrow> hd (srt xs) \<in> set xs"
  using sort_set sort_length by (metis hd_in_set length_0_conv)

lemma first_best: "xs \<noteq> [] \<Longrightarrow> \<not> (\<exists>x\<in>set xs. above x (hd (srt xs)))"
  using sort_first by blast

end

definition stable_priority :: "node list \<Rightarrow> node list" where
  "stable_priority ns = sort_key (\<lambda>n. - nd_priority n) ns"

interpretation node_sort: slice_sort stable_priority "\<lambda>a b. nd_priority a > nd_priority b"
proof
  show "set (stable_priority xs) = set xs" for xs by (simp add: stable_priority_def)
  show "length (stable_priority xs) = length xs" for xs by (simp add: stable_priority_def)
  show "\<not> nd_priority x > nd_priority (hd (stable_priority xs))" if "xs \<noteq> []" "x \<in> set xs" for xs x
  proof -
    have s: "sorted (map (\<lambda>n. - nd_priority n) (stable_priority xs))" and "x \<in> set (stable_priority xs)"
      using that by (simp_all add: stable_priority_def)
    then show ?thesis by (cases "stable_priority xs") auto
  qed
qed

text \<open>What a property assumes of an arbitrary sort: the contract on nodes.\<close>

definition sorts_nodes :: "(node list \<Rightarrow> node list) \<Rightarrow> bool" where
  "sorts_nodes srt \<longleftrightarrow> slice_sort srt (\<lambda>a b. nd_priority a > nd_priority b)"

lemma sorts_stable: "sorts_nodes stable_priority"
  unfolding sorts_nodes_def by (rule node_sort.slice_sort_axioms)

section \<open>Who is selected\<close>

lemma Select_item_in:
  assumes "Select cx s (map as_selectable ns) = (v, s')" "draws_below (cx_draw cx)" "v = Some x"
  shows "sl_item x \<in> set ns"
proof -
  have "x \<in> set (selected cx s (map as_selectable ns))"
    using Select_in [OF assms(1,2)] assms(3) by (auto split: if_splits)
  then have "x \<in> as_selectable ` set ns" using selected_subset by fastforce
  then show ?thesis by (auto simp: as_selectable_def)
qed

lemma hop_Select_facts:
  assumes "hop_Select srt cx opts h = (Some n, h')" "sorts_nodes srt" "draws_below (cx_draw cx)"
  shows "Some n \<in> set (ch_nodes h) \<and> candidate opts n \<and> \<not> bypassed (ch_bypass h) opts \<and>
    (\<forall>k\<in>set (live_nodes (ch_nodes h)). candidate opts k \<and> nd_priority k > 0 \<longrightarrow>
       nd_priority k \<le> nd_priority n)"
proof -
  have sorts: "set (srt xs) = set xs" "length (srt xs) = length xs"
    "xs \<noteq> [] \<Longrightarrow> x \<in> set xs \<Longrightarrow> \<not> nd_priority x > nd_priority (hd (srt xs))" for xs x
    using assms(2) by (auto simp: sorts_nodes_def slice_sort_def)
  have live: "k \<in> set (live_nodes ns) \<longleftrightarrow> Some k \<in> set ns" for k ns
    by (induction ns rule: live_nodes.induct) auto
  let ?cs = "filter (candidate opts) (live_nodes (ch_nodes h))"
  have byp: "\<not> bypassed (ch_bypass h) opts" using assms(1) by (auto simp: hop_Select_def)
  have best: "n \<in> set ?cs \<and> (\<forall>k\<in>set ?cs. nd_priority k > 0 \<longrightarrow> nd_priority k \<le> nd_priority n)"
  proof (cases ?cs)
    case Nil
    then show ?thesis using assms(1) byp by (simp add: hop_Select_def)
  next
    case (Cons c cs)
    show ?thesis
    proof (cases cs)
      case Nil
      then show ?thesis using assms(1) byp Cons by (simp add: hop_Select_def)
    next
      case (Cons d ds)
      let ?s = "srt ?cs"
      have ne: "?cs \<noteq> []" "?s \<noteq> []" using \<open>?cs = c # cs\<close> sorts(2) [of ?cs] by auto
      have hd_in: "hd ?s \<in> set ?cs" using ne sorts(1) hd_in_set by blast
      have top: "nd_priority k \<le> nd_priority (hd ?s)" if "k \<in> set ?cs" for k
        using sorts(3) [OF ne(1) that] by simp
      show ?thesis
      proof (cases "nd_priority (hd ?s) > 0")
        case True
        then have "n = hd ?s" using assms(1) byp \<open>?cs = c # cs\<close> Cons by (simp add: hop_Select_def Let_def)
        then show ?thesis using hd_in top by blast
      next
        case False
        have "n \<in> set ?s"
        proof (cases "ch_selector h")
          case None
          then have "n = hd ?s"
            using assms(1) byp \<open>?cs = c # cs\<close> Cons False by (simp add: hop_Select_def Let_def)
          then show ?thesis using ne by simp
        next
          case (Some s)
          obtain v s' where v: "Select cx s (map as_selectable ?s) = (v, s')"
            by (cases "Select cx s (map as_selectable ?s)")
          then obtain x where "v = Some x" "n = sl_item x"
            using assms(1) byp \<open>?cs = c # cs\<close> Cons False Some by (auto simp: hop_Select_def Let_def)
          then show ?thesis using Select_item_in [OF v assms(3)] by simp
        qed
        then show ?thesis using sorts(1) top False by force
      qed
    qed
  qed
  then show ?thesis using byp live by auto
qed

text \<open>
  A hop never gives a connection to a node that may not carry it. A selected node belongs to
  the hop, neither the hop's nor its own bypass contains the address, and its matcher, or else its
  host, protocol and path filter, accepts the request; and while a candidate with a positive
  priority exists, no candidate has a higher priority than the selected one.
\<close>

theorem selected_node_is_eligible:
  assumes "hop_Select srt cx opts h = (Some n, h')" "sorts_nodes srt" "draws_below (cx_draw cx)"
  shows "Some n \<in> set (ch_nodes h) \<and> candidate opts n \<and> \<not> bypassed (ch_bypass h) opts \<and>
    (\<forall>k\<in>set (live_nodes (ch_nodes h)). candidate opts k \<and> nd_priority k > 0 \<longrightarrow>
       nd_priority k \<le> nd_priority n)"
  using assms by (rule hop_Select_facts)

definition sample_node :: "string \<Rightarrow> int \<Rightarrow> node" where
  "sample_node x p = \<lparr>nd_name = x, nd_addr = x, nd_bypass = None, nd_matcher = None, nd_filter = None,
     nd_priority = p, nd_meta = None, nd_marker = Some \<lparr>mk_count = 0, mk_time = 0\<rparr>, nd_transport = 0\<rparr>"

definition sample_ctx :: sel_ctx where
  "sample_ctx = \<lparr>cx_now = 0, cx_hash = None, cx_draw = (\<lambda>_. 0), cx_duration = (\<lambda>_. None)\<rparr>"

definition sample_opts :: select_options where
  "sample_opts = \<lparr>so_network = ''tcp'', so_addr = ''a:80'', so_host = ''a:80'', so_protocol = [],
     so_path = [], so_rest = []\<rparr>"

definition two_nodes :: chainHop where
  "two_nodes = \<lparr>ch_nodes = [Some (sample_node ''n1'' 0), None, Some (sample_node ''n2'' 3)],
     ch_bypass = None, ch_selector = Some DefaultNodeSelector\<rparr>"

lemma sample_draws: "draws_below (cx_draw sample_ctx)"
  by (simp add: draws_below_def sample_ctx_def)

theorem selected_node_is_eligible_witness:
  "\<exists>n h'. hop_Select stable_priority sample_ctx sample_opts two_nodes = (Some n, h') \<and>
     nd_priority n = 3 \<and> candidate sample_opts n"
proof -
  let ?r = "hop_Select stable_priority sample_ctx sample_opts two_nodes"
  have r: "?r = (Some (sample_node ''n2'' 3), two_nodes)"
    by (simp add: hop_Select_def two_nodes_def bypassed_def candidate_def isEligible_def
        sample_node_def stable_priority_def Let_def)
  from selected_node_is_eligible [OF r sorts_stable sample_draws]
  show ?thesis using r by (auto simp: sample_node_def)
qed

section \<open>The host filter\<close>

text \<open>
  A host filter with a leading dot is meant for a domain and its subdomains, but the check
  drops the dot before it compares suffixes: the filter also accepts every host that merely ends
  in the domain's letters, such as \<open>evilexample.com\<close> for \<open>.example.com\<close>.
\<close>

theorem host_filter_accepts_foreign_domain:
  assumes "nd_filter n = Some f" "nf_host f = CHR ''.'' # d" "d \<noteq> []" "CHR '':'' \<notin> set (x @ d)"
  shows "checkHost (x @ d) n"
proof -
  have "split_host (x @ d) = []"
    using assms(4) by (rule split_plain(1))
  moreover have "HasSuffix (x @ d) d" by (simp add: HasSuffix_def HasPrefix_def)
  ultimately show ?thesis using assms(1-3) by (simp add: checkHost_def Let_def)
qed

theorem host_filter_accepts_foreign_domain_witness:
  "checkHost ''evilexample.com'' ((sample_node ''n'' 0)\<lparr>nd_filter :=
     Some \<lparr>nf_host = ''.example.com'', nf_protocol = [], nf_path = []\<rparr>\<rparr>)"
proof -
  have "checkHost (''evil'' @ ''example.com'') ((sample_node ''n'' 0)\<lparr>nd_filter :=
      Some \<lparr>nf_host = ''.example.com'', nf_protocol = [], nf_path = []\<rparr>\<rparr>)"
    by (rule host_filter_accepts_foreign_domain
        [where f = "\<lparr>nf_host = ''.example.com'', nf_protocol = [], nf_path = []\<rparr>"]) simp_all
  then show ?thesis by simp
qed

end
