(* ===== verification/ChainRoute.thy ===== *)
theory ChainRoute
  imports Hop
begin

text \<open>
  Routing through a chain, \<open>x/chain\<close>: picking a node of every hop (\<open>chain.go\<close>), connecting
  through the picked nodes (\<open>route.go\<close>), dialling with retries (\<open>router.go\<close>), and the transport
  of a node (\<open>transport.go\<close>), which several routes may share.

  Transports are mutable and reached through pointers, so they live in a store; a route is the
  list of its nodes, each with the pointer to its transport at the time.
\<close>

section \<open>Transports\<close>

type_synonym route = "(node \<times> nat) list"

text \<open>Whether the dialer multiplexes, and the route it dials through.\<close>

record transport =
  tr_mux :: bool
  tr_route :: "route option"

type_synonym tr_store = "transport list"

text \<open>\<open>Transport.Copy\<close> fills a new transport and returns the old one.\<close>

definition Transport_Copy :: "nat \<Rightarrow> tr_store \<Rightarrow> nat \<times> tr_store" where
  "Transport_Copy t h = (t, h @ [h ! t])"

section \<open>Routes\<close>

fun route_hops ::
    "(node list \<Rightarrow> node list) \<Rightarrow> sel_ctx \<Rightarrow> select_options \<Rightarrow> chainHop list \<Rightarrow> route \<Rightarrow> tr_store \<Rightarrow>
       route \<times> chainHop list \<times> tr_store" where
  "route_hops srt cx opts [] rt h = (rt, [], h)"
| "route_hops srt cx opts (p # ps) rt h =
     (case hop_Select srt cx opts p of
        (None, p') \<Rightarrow> (rt, p' # ps, h)
      | (Some n, p') \<Rightarrow>
          (let t = nd_transport n;
               (rt', h') =
                 (if tr_mux (h ! t) then
                    (let (t', h1) = Transport_Copy t h
                     in ([(n, t')], h1[t' := (h1 ! t')\<lparr>tr_route := Some rt\<rparr>]))
                  else (rt @ [(n, t)], h))
           in case route_hops srt cx opts ps rt' h' of (r, qs, h'') \<Rightarrow> (r, p' # qs, h'')))"

definition chain_Route ::
    "(node list \<Rightarrow> node list) \<Rightarrow> sel_ctx \<Rightarrow> select_options \<Rightarrow> chainHop list \<Rightarrow> tr_store \<Rightarrow>
       route option \<times> chainHop list \<times> tr_store" where
  "chain_Route srt cx opts ps h =
     (if ps = [] then (None, [], h)
      else case route_hops srt cx opts ps [] h of (r, qs, h') \<Rightarrow> (Some r, qs, h'))"

text \<open>
  \<open>routePath\<close> follows the transports' own routes and need not end; with \<open>k\<close> levels of calls left
  it gives \<open>None\<close> when they run out.
\<close>

fun routePath :: "nat \<Rightarrow> tr_store \<Rightarrow> route \<Rightarrow> node list option" where
  "routePath 0 h r = None"
| "routePath (Suc k) h [] = Some []"
| "routePath (Suc k) h ((n, t) # r) =
     (case (case tr_route (h ! t) of None \<Rightarrow> Some [] | Some r' \<Rightarrow> routePath k h r') of
        None \<Rightarrow> None
      | Some p \<Rightarrow> map_option (\<lambda>q. p @ n # q) (routePath k h r))"

section \<open>Connecting through a route\<close>

text \<open>What each step meets on the way to a node: resolving, dialling or connecting, handshake.\<close>

record outcome =
  oc_resolve :: go_error
  oc_link :: go_error
  oc_handshake :: go_error

datatype conn_event =
  Opened | Closed | NodeMark string | NodeReset string | ChainMark | ChainReset

definition mark_node :: "node \<Rightarrow> conn_event list" where
  "mark_node n = (case nd_marker n of None \<Rightarrow> [] | Some _ \<Rightarrow> [NodeMark (nd_name n)])"

definition reset_node :: "node \<Rightarrow> conn_event list" where
  "reset_node n = (case nd_marker n of None \<Rightarrow> [] | Some _ \<Rightarrow> [NodeReset (nd_name n)])"

definition step_error :: "outcome \<Rightarrow> go_error" where
  "step_error out =
     (case oc_resolve out of
        Some e \<Rightarrow> Some e
      | None \<Rightarrow> (case oc_link out of Some e \<Rightarrow> Some e | None \<Rightarrow> oc_handshake out))"

fun connect_rest :: "(node \<times> outcome) list \<Rightarrow> go_error \<times> conn_event list" where
  "connect_rest [] = (nil_error, [])"
| "connect_rest ((n, out) # ns) =
     (case step_error out of
        Some e \<Rightarrow> (Some e, Closed # mark_node n)
      | None \<Rightarrow> (case connect_rest ns of (e, ev) \<Rightarrow> (e, reset_node n @ ev)))"

fun connect_nodes :: "(node \<times> outcome) list \<Rightarrow> go_error \<times> conn_event list" where
  "connect_nodes [] = (nil_error, [])"
| "connect_nodes ((n, out) # ns) =
     (case oc_resolve out of
        Some e \<Rightarrow> (Some e, mark_node n)
      | None \<Rightarrow>
          (case oc_link out of
             Some e \<Rightarrow> (Some e, mark_node n)
           | None \<Rightarrow>
               (case oc_handshake out of
                  Some e \<Rightarrow> (Some e, [Opened, Closed] @ mark_node n)
                | None \<Rightarrow> (case connect_rest ns of (e, ev) \<Rightarrow> (e, Opened # reset_node n @ ev)))))"

definition route_connect :: "(node \<times> outcome) list \<Rightarrow> go_error \<times> conn_event list" where
  "route_connect ns =
     (case connect_nodes ns of
        (e, ev) \<Rightarrow> (e, ev @ [if e = nil_error then ChainReset else ChainMark]))"

text \<open>Where a dial goes: straight to the address, or through the nodes of the route.\<close>

datatype dial_result = Direct | Through "node list" | DialError string

definition route_Dial ::
    "(node \<times> outcome) list \<Rightarrow> go_error \<Rightarrow> dial_result \<times> conn_event list" where
  "route_Dial ns final =
     (if ns = [] then (Direct, [])
      else case route_connect ns of
        (Some e, ev) \<Rightarrow> (DialError e, ev)
      | (None, ev) \<Rightarrow>
          (case final of
             Some e \<Rightarrow> (DialError e, ev @ [Closed])
           | None \<Rightarrow> (Through (map fst ns), ev)))"

section \<open>Dialling with retries\<close>

text \<open>
  One attempt of the router: what resolving the address gives, the route the chain offers then,
  the outcomes along it and of the last connect, and, for a direct dial, what the system says.
\<close>

record attempt =
  at_resolve :: go_error
  at_route :: "(node \<times> outcome) list option"
  at_final :: go_error
  at_direct :: go_error

definition attempt_Dial :: "attempt \<Rightarrow> dial_result" where
  "attempt_Dial a =
     (case at_route a of
        None \<Rightarrow> (case at_direct a of None \<Rightarrow> Direct | Some e \<Rightarrow> DialError e)
      | Some ns \<Rightarrow>
          (case fst (route_Dial ns (at_final a)) of
             Direct \<Rightarrow> (case at_direct a of None \<Rightarrow> Direct | Some e \<Rightarrow> DialError e)
           | r \<Rightarrow> r))"

text \<open>The loop of \<open>Router.dial\<close>: \<open>k\<close> attempts are left after this one, \<open>i\<close> is its number.\<close>

fun dial_loop :: "nat \<Rightarrow> nat \<Rightarrow> (nat \<Rightarrow> attempt) \<Rightarrow> dial_result \<times> nat" where
  "dial_loop k i att =
     (case at_resolve (att i) of
        Some e \<Rightarrow> (DialError e, i)
      | None \<Rightarrow>
          (case attempt_Dial (att i) of
             DialError e \<Rightarrow>
               (case k of 0 \<Rightarrow> (DialError e, Suc i) | Suc k' \<Rightarrow> dial_loop k' (Suc i) att)
           | r \<Rightarrow> (r, Suc i)))"

declare dial_loop.simps [simp del]

definition attempts_of :: "int \<Rightarrow> nat" where
  "attempts_of retries = (if retries + 1 \<le> 0 then 1 else nat (retries + 1))"

definition router_dial :: "int \<Rightarrow> (nat \<Rightarrow> attempt) \<Rightarrow> dial_result \<times> nat" where
  "router_dial retries att = dial_loop (attempts_of retries - 1) 0 att"

section \<open>Binding\<close>

text \<open>A listener on this machine, a listener at the last node of the route, or an error.\<close>

datatype bind_result = Local | Remote "node list" | BindError string

definition ErrEmptyRoute :: string where
  "ErrEmptyRoute = ''empty route''"

definition route_Bind ::
    "(node \<times> outcome) list \<Rightarrow> go_error \<Rightarrow> bind_result \<times> conn_event list" where
  "route_Bind ns final =
     (if ns = [] then (Local, [])
      else case route_connect ns of
        (Some e, ev) \<Rightarrow> (BindError e, ev)
      | (None, ev) \<Rightarrow>
          (case final of
             Some e \<Rightarrow> (BindError e, ev @ [Closed])
           | None \<Rightarrow> (Remote (map fst ns), ev)))"

definition attempt_Bind :: "attempt \<Rightarrow> bind_result" where
  "attempt_Bind a =
     (case fst (route_Bind (case at_route a of None \<Rightarrow> [] | Some ns \<Rightarrow> ns) (at_final a)) of
        Local \<Rightarrow> (case at_direct a of None \<Rightarrow> Local | Some e \<Rightarrow> BindError e)
      | r \<Rightarrow> r)"

text \<open>\<open>chained\<close> says whether the router has a chain; without one \<open>at_route\<close> is not consulted.\<close>

fun bind_loop :: "bool \<Rightarrow> nat \<Rightarrow> nat \<Rightarrow> (nat \<Rightarrow> attempt) \<Rightarrow> bind_result" where
  "bind_loop chained k i att =
     (if chained \<and> (at_route (att i) = None \<or> at_route (att i) = Some []) then BindError ErrEmptyRoute
      else case attempt_Bind (if chained then att i else (att i)\<lparr>at_route := None\<rparr>) of
             BindError e \<Rightarrow>
               (case k of 0 \<Rightarrow> BindError e | Suc k' \<Rightarrow> bind_loop chained k' (Suc i) att)
           | r \<Rightarrow> r)"

declare bind_loop.simps [simp del]

definition router_bind :: "bool \<Rightarrow> int \<Rightarrow> (nat \<Rightarrow> attempt) \<Rightarrow> bind_result" where
  "router_bind chained retries att = bind_loop chained (attempts_of retries - 1) 0 att"

lemma attempt_Bind_local: "attempt_Bind a = Local \<Longrightarrow> at_route a = None \<or> at_route a = Some []"
  by (auto simp: attempt_Bind_def route_Bind_def split: option.splits if_splits prod.splits bind_result.splits)

lemma bind_loop_remote: "bind_loop True k i att \<noteq> Local"
proof (induction k arbitrary: i)
  case 0
  show ?case using attempt_Bind_local [of "att i"]
    by (subst bind_loop.simps) (auto split: bind_result.splits)
next
  case (Suc k)
  show ?case using attempt_Bind_local [of "att i"] Suc
    by (subst bind_loop.simps) (auto split: bind_result.splits)
qed

lemma bind_with_chain_is_remote: "router_bind True retries att \<noteq> Local"
  by (simp add: router_bind_def bind_loop_remote)

section \<open>What connecting does\<close>

lemma connect_rest_error:
  "connect_rest ns = (Some e, ev) \<Longrightarrow>
   \<exists>k<length ns. step_error (snd (ns ! k)) = Some e \<and> (\<forall>j<k. step_error (snd (ns ! j)) = None) \<and>
     ev = concat (map (\<lambda>x. reset_node (fst x)) (take k ns)) @ Closed # mark_node (fst (ns ! k))"
proof (induction ns arbitrary: ev)
  case (Cons x ns)
  obtain n out where x: "x = (n, out)" by (cases x)
  show ?case
  proof (cases "step_error out")
    case (Some e')
    then show ?thesis using Cons.prems x by (intro exI [of _ 0]) simp
  next
    case None
    then obtain ev' where r: "connect_rest ns = (Some e, ev')" and ev: "ev = reset_node n @ ev'"
      using Cons.prems x by (auto split: prod.splits)
    from Cons.IH [OF r] obtain k where k: "k < length ns" "step_error (snd (ns ! k)) = Some e"
      "\<forall>j<k. step_error (snd (ns ! j)) = None"
      "ev' = concat (map (\<lambda>x. reset_node (fst x)) (take k ns)) @ Closed # mark_node (fst (ns ! k))"
      by blast
    have "\<forall>j<Suc k. step_error (snd ((x # ns) ! j)) = None"
      using k(3) None x by (auto simp: nth_Cons split: nat.split)
    then show ?thesis using k ev x by (intro exI [of _ "Suc k"]) simp
  qed
qed simp

lemma connect_rest_ok:
  "connect_rest ns = (None, ev) \<Longrightarrow> ev = concat (map (\<lambda>x. reset_node (fst x)) ns)"
  by (induction ns arbitrary: ev) (auto split: option.splits prod.splits)

definition opens :: "conn_event list \<Rightarrow> nat" where
  "opens ev = count_list ev Opened"

definition closes :: "conn_event list \<Rightarrow> nat" where
  "closes ev = count_list ev Closed"

definition marked :: "conn_event list \<Rightarrow> string list" where
  "marked ev = concat (map (\<lambda>e. case e of NodeMark n \<Rightarrow> [n] | _ \<Rightarrow> []) ev)"

definition resets :: "conn_event list \<Rightarrow> string list" where
  "resets ev = concat (map (\<lambda>e. case e of NodeReset n \<Rightarrow> [n] | _ \<Rightarrow> []) ev)"

lemmas event_defs = opens_def closes_def marked_def resets_def

lemma event_append [simp]:
  "opens (xs @ ys) = opens xs + opens ys" "closes (xs @ ys) = closes xs + closes ys"
  "marked (xs @ ys) = marked xs @ marked ys" "resets (xs @ ys) = resets xs @ resets ys"
  by (simp_all add: event_defs)

definition markable :: "node \<Rightarrow> string list" where
  "markable n = (if nd_marker n = None then [] else [nd_name n])"

lemma mark_node_events [simp]:
  "opens (mark_node n) = 0" "closes (mark_node n) = 0" "marked (mark_node n) = markable n"
  "resets (mark_node n) = []"
  by (auto simp: mark_node_def event_defs markable_def split: option.split)

lemma reset_node_events [simp]:
  "opens (reset_node n) = 0" "closes (reset_node n) = 0" "marked (reset_node n) = []"
  "resets (reset_node n) = markable n"
  by (auto simp: reset_node_def event_defs markable_def split: option.split)

lemma event_single [simp]:
  "opens (Opened # ev) = Suc (opens ev)" "closes (Opened # ev) = closes ev"
  "marked (Opened # ev) = marked ev" "resets (Opened # ev) = resets ev"
  "opens (Closed # ev) = opens ev" "closes (Closed # ev) = Suc (closes ev)"
  "marked (Closed # ev) = marked ev" "resets (Closed # ev) = resets ev"
  "opens (ChainMark # ev) = opens ev" "closes (ChainMark # ev) = closes ev"
  "marked (ChainMark # ev) = marked ev" "resets (ChainMark # ev) = resets ev"
  "opens (ChainReset # ev) = opens ev" "closes (ChainReset # ev) = closes ev"
  "marked (ChainReset # ev) = marked ev" "resets (ChainReset # ev) = resets ev"
  "opens [] = 0" "closes [] = 0" "marked [] = []" "resets [] = []"
  by (simp_all add: event_defs)

lemma reset_many [simp]:
  "opens (concat (map (\<lambda>x. reset_node (f x)) ns)) = 0"
  "closes (concat (map (\<lambda>x. reset_node (f x)) ns)) = 0"
  "marked (concat (map (\<lambda>x. reset_node (f x)) ns)) = []"
  "resets (concat (map (\<lambda>x. reset_node (f x)) ns)) = concat (map (\<lambda>x. markable (f x)) ns)"
  by (induction ns) simp_all

definition names_of :: "(node \<times> outcome) list \<Rightarrow> string list" where
  "names_of ns = concat (map (\<lambda>x. markable (fst x)) ns)"

lemma connect_nodes_ok:
  assumes "connect_nodes ns = (None, ev)" "ns \<noteq> []"
  shows "opens ev = 1 \<and> closes ev = 0 \<and> marked ev = [] \<and> resets ev = names_of ns"
proof -
  obtain n out ns' where ns: "ns = (n, out) # ns'" using assms(2) by (cases ns) auto
  obtain e ev' where r: "connect_rest ns' = (e, ev')" by (cases "connect_rest ns'")
  have "e = None" "ev = Opened # reset_node n @ ev'"
    using assms(1) ns r by (auto split: option.splits)
  then show ?thesis using connect_rest_ok [of ns' ev'] r ns by (simp add: names_of_def)
qed

lemma connect_nodes_error:
  assumes "connect_nodes ns = (Some e, ev)"
  shows "opens ev = closes ev \<and> opens ev \<le> 1 \<and>
    (\<exists>k<length ns. step_error (snd (ns ! k)) = Some e \<and> (\<forall>j<k. step_error (snd (ns ! j)) = None) \<and>
       marked ev = markable (fst (ns ! k)) \<and> resets ev = names_of (take k ns))"
proof -
  obtain n out ns' where ns: "ns = (n, out) # ns'" using assms by (cases ns) auto
  show ?thesis
  proof (cases "step_error out")
    case (Some x)
    then have "x = e" and ev: "ev = mark_node n \<or> ev = Opened # Closed # mark_node n"
      using assms ns by (auto simp: step_error_def split: option.splits)
    then show ?thesis using ns Some by (auto simp: names_of_def intro!: exI [of _ 0])
  next
    case None
    then obtain ev' where r: "connect_rest ns' = (Some e, ev')" and ev: "ev = Opened # reset_node n @ ev'"
      using assms ns by (auto simp: step_error_def split: option.splits prod.splits)
    from connect_rest_error [OF r] obtain k where k: "k < length ns'" "step_error (snd (ns' ! k)) = Some e"
      "\<forall>j<k. step_error (snd (ns' ! j)) = None"
      "ev' = concat (map (\<lambda>x. reset_node (fst x)) (take k ns')) @ Closed # mark_node (fst (ns' ! k))"
      by blast
    have "\<forall>j<Suc k. step_error (snd (ns ! j)) = None"
      using k(3) None ns by (auto simp: nth_Cons split: nat.split)
    then show ?thesis
      using k ev ns by (simp add: names_of_def) (intro exI [of _ "Suc k"], simp)
  qed
qed

text \<open>
  (C21) Connecting through a route keeps its accounts. When it succeeds exactly one connection is
  open, every node's fail counter is reset and so is the chain's. When it fails, everything opened
  has been closed, the counters of the nodes already passed are reset, exactly the node at which it
  failed is marked, and the chain is marked too.
\<close>

theorem connect_keeps_accounts:
  assumes "route_connect ns = (err, ev)" "ns \<noteq> []"
  shows "(err = None \<longrightarrow> opens ev = 1 \<and> closes ev = 0 \<and> marked ev = [] \<and> resets ev = names_of ns \<and>
      last ev = ChainReset) \<and>
    (\<forall>e. err = Some e \<longrightarrow> opens ev = closes ev \<and> last ev = ChainMark \<and>
      (\<exists>k<length ns. step_error (snd (ns ! k)) = Some e \<and> (\<forall>j<k. step_error (snd (ns ! j)) = None) \<and>
         marked ev = markable (fst (ns ! k)) \<and> resets ev = names_of (take k ns)))"
proof -
  obtain x ev' where c: "connect_nodes ns = (x, ev')" by (cases "connect_nodes ns")
  have x: "err = x" "ev = ev' @ [if x = None then ChainReset else ChainMark]"
    using assms(1) c by (auto simp: route_connect_def)
  show ?thesis
  proof (cases x)
    case None
    then show ?thesis using connect_nodes_ok [of ns ev'] c x assms(2) by simp
  next
    case (Some e)
    then show ?thesis using connect_nodes_error [of ns e ev'] c x by auto
  qed
qed

definition good :: outcome where
  "good = \<lparr>oc_resolve = None, oc_link = None, oc_handshake = None\<rparr>"

definition bad :: outcome where
  "bad = good\<lparr>oc_handshake := Some ''refused''\<rparr>"

theorem connect_keeps_accounts_witness:
  "\<exists>e ev. route_connect [(sample_node ''n1'' 0, good), (sample_node ''n2'' 0, bad)] = (Some e, ev) \<and>
     opens ev = closes ev \<and> marked ev = [''n2'']"
proof -
  let ?ns = "[(sample_node ''n1'' 0, good), (sample_node ''n2'' 0, bad)]"
  have r: "route_connect ?ns = (Some ''refused'',
      [Opened, NodeReset ''n1'', Closed, NodeMark ''n2'', ChainMark])"
    by (simp add: route_connect_def good_def bad_def sample_node_def step_error_def mark_node_def reset_node_def)
  from connect_keeps_accounts [OF r] show ?thesis using r
    by (auto simp: marked_def)
qed

section \<open>Retries\<close>

lemma dial_loop_spec:
  assumes "dial_loop k i att = (r, m)"
  shows "m \<le> i + k + 1 \<and>
    (\<forall>j. i \<le> j \<and> Suc j < m \<longrightarrow> at_resolve (att j) = None \<and> (\<exists>e. attempt_Dial (att j) = DialError e)) \<and>
    (\<not> (\<exists>e. r = DialError e) \<longrightarrow> i < m \<and> r = attempt_Dial (att (m - 1)))"
  using assms
proof (induction k i att arbitrary: r m rule: dial_loop.induct)
  case (1 k i att)
  show ?case
  proof (cases "at_resolve (att i)")
    case (Some e)
    then show ?thesis using "1.prems" by (auto simp: dial_loop.simps [of k i])
  next
    case None
    show ?thesis
    proof (cases "attempt_Dial (att i)")
      case (DialError e)
      show ?thesis
      proof (cases k)
        case 0
        then show ?thesis using "1.prems" None DialError by (auto simp: dial_loop.simps [of 0 i])
      next
        case (Suc k')
        then have "dial_loop k' (Suc i) att = (r, m)"
          using "1.prems" None DialError by (simp add: dial_loop.simps [of "Suc k'" i])
        from "1.IH" [OF None DialError Suc this]
        have IH: "m \<le> Suc i + k' + 1"
          "\<forall>j. Suc i \<le> j \<and> Suc j < m \<longrightarrow> at_resolve (att j) = None \<and> (\<exists>e. attempt_Dial (att j) = DialError e)"
          "\<not> (\<exists>e. r = DialError e) \<longrightarrow> Suc i < m \<and> r = attempt_Dial (att (m - 1))"
          by blast+
        have "at_resolve (att j) = None \<and> (\<exists>e. attempt_Dial (att j) = DialError e)"
          if "i \<le> j" "Suc j < m" for j
          using that IH(2) None DialError by (cases "j = i") auto
        then show ?thesis using IH Suc by auto
      qed
    qed (use "1.prems" None in \<open>auto simp: dial_loop.simps [of k i]\<close>)
  qed
qed

text \<open>
  (C37) A dial makes at most \<open>Retries + 1\<close> attempts, at least one being allowed however negative
  \<open>Retries\<close> is; it stops at the first attempt that succeeds and returns its connection; and it goes
  on to another attempt only after one that failed behind a resolved address.
\<close>

theorem dial_retries_bounded:
  assumes "router_dial retries att = (r, m)"
  shows "int m \<le> max 1 (retries + 1) \<and>
    (\<forall>j. Suc j < m \<longrightarrow> at_resolve (att j) = None \<and> (\<exists>e. attempt_Dial (att j) = DialError e)) \<and>
    (\<not> (\<exists>e. r = DialError e) \<longrightarrow> 0 < m \<and> r = attempt_Dial (att (m - 1)))"
proof -
  have "dial_loop (attempts_of retries - 1) 0 att = (r, m)" using assms by (simp add: router_dial_def)
  note spec = dial_loop_spec [OF this]
  have "int (attempts_of retries) = max 1 (retries + 1)" "0 < attempts_of retries"
    by (auto simp: attempts_of_def)
  then have "int m \<le> max 1 (retries + 1)" using spec by linarith
  then show ?thesis using spec by auto
qed

definition failing_attempt :: attempt where
  "failing_attempt = \<lparr>at_resolve = None, at_route = None, at_final = None, at_direct = Some ''timeout''\<rparr>"

theorem dial_retries_bounded_witness:
  "snd (router_dial 2 (\<lambda>i. if i = 1 then failing_attempt\<lparr>at_direct := None\<rparr> else failing_attempt)) \<le> 3"
proof -
  let ?att = "\<lambda>i. if i = 1 then failing_attempt\<lparr>at_direct := None\<rparr> else failing_attempt"
  have "int (snd (router_dial 2 ?att)) \<le> max 1 (2 + 1)"
    using dial_retries_bounded [OF prod.collapse [symmetric], of 2 ?att] by blast
  then show ?thesis by simp
qed

section \<open>When no node is left\<close>

lemma dead_selector:
  assumes "\<forall>v\<in>set vs. \<not> alive (cx_duration cx) (cx_now cx) (se_maxFails s) (se_failTimeout s) v"
    and "2 \<le> length vs"
  shows "Select cx s vs = (None, s)"
proof -
  have "failFilter (cx_duration cx) (cx_now cx) (se_maxFails s) (se_failTimeout s) vs = []"
    using assms by (auto simp: failFilter_def filter_empty_conv)
  then show ?thesis by (simp add: Select_def selected_def backupFilter_def)
qed

lemma dead_hop:
  assumes cs: "cs = filter (candidate opts) (live_nodes (ch_nodes p))" "2 \<le> length cs"
    and dead: "\<forall>n\<in>set cs. nd_priority n \<le> 0 \<and>
      \<not> alive (cx_duration cx) (cx_now cx) (se_maxFails s) (se_failTimeout s) (as_selectable n)"
    and p: "ch_selector p = Some s" "sorts_nodes srt"
  shows "fst (hop_Select srt cx opts p) = None"
proof -
  have sorts: "set (srt cs) = set cs" "length (srt cs) = length cs"
    using p(2) by (auto simp: sorts_nodes_def slice_sort_def)
  obtain a b ds where ab: "cs = a # b # ds" using cs(2) by (cases cs; cases "tl cs") auto
  have ne: "srt cs \<noteq> []" using sorts(2) cs(2) by auto
  then have "hd (srt cs) \<in> set cs" using sorts(1) hd_in_set by blast
  then have le: "\<not> nd_priority (hd (srt cs)) > 0" using dead by force
  have "Select cx s (map as_selectable (srt cs)) = (None, s)"
    by (rule dead_selector) (use dead sorts cs(2) in auto)
  then show ?thesis using cs(1) ab le p(1) by (auto simp: hop_Select_def Let_def split: list.splits)
qed

text \<open>
  A chain whose nodes are all down is bypassed, not unavailable. When the first hop has two or
  more candidates and the fail filter holds all of them for dead, its selector returns nothing, the
  route is empty, and dialling an empty route connects directly to the destination, around every
  hop of the chain.
\<close>

theorem dead_first_hop_dials_directly:
  assumes "cs = filter (candidate opts) (live_nodes (ch_nodes p))" "2 \<le> length cs"
    and "\<forall>n\<in>set cs. nd_priority n \<le> 0 \<and>
      \<not> alive (cx_duration cx) (cx_now cx) (se_maxFails s) (se_failTimeout s) (as_selectable n)"
    and "ch_selector p = Some s" "sorts_nodes srt"
  shows "fst (chain_Route srt cx opts (p # ps) h) = Some [] \<and>
    attempt_Dial \<lparr>at_resolve = None, at_route = Some [], at_final = f, at_direct = None\<rparr> = Direct"
proof -
  obtain p' where "hop_Select srt cx opts p = (None, p')"
    using dead_hop [OF assms] by (cases "hop_Select srt cx opts p") auto
  then show ?thesis by (simp add: chain_Route_def attempt_Dial_def route_Dial_def)
qed

definition dead_node :: "string \<Rightarrow> node" where
  "dead_node x = (sample_node x 0)\<lparr>nd_marker := Some \<lparr>mk_count = 1, mk_time = 0\<rparr>\<rparr>"

definition dead_pair :: chainHop where
  "dead_pair = \<lparr>ch_nodes = [Some (dead_node ''n1''), Some (dead_node ''n2'')], ch_bypass = None,
     ch_selector = Some DefaultNodeSelector\<rparr>"

theorem dead_first_hop_dials_directly_witness:
  "fst (chain_Route stable_priority sample_ctx sample_opts [dead_pair, two_nodes] []) = Some []"
proof -
  have c: "[dead_node ''n1'', dead_node ''n2''] =
      filter (candidate sample_opts) (live_nodes (ch_nodes dead_pair))"
    by (simp add: dead_pair_def candidate_def bypassed_def isEligible_def dead_node_def sample_node_def)
  have d: "\<forall>n\<in>set [dead_node ''n1'', dead_node ''n2'']. nd_priority n \<le> 0 \<and>
      \<not> alive (cx_duration sample_ctx) (cx_now sample_ctx) (se_maxFails DefaultNodeSelector)
          (se_failTimeout DefaultNodeSelector) (as_selectable n)"
    by (simp add: dead_node_def sample_node_def alive_def as_selectable_def max_fails_of_def
        fail_timeout_of_def has_label_def DefaultNodeSelector_def DefaultMaxFails_def
        DefaultFailTimeout_def second_def sample_ctx_def)
  have s: "ch_selector dead_pair = Some DefaultNodeSelector" by (simp add: dead_pair_def)
  show ?thesis
    using dead_first_hop_dials_directly [OF c _ d s sorts_stable, of "[two_nodes]" "[]" None] by simp
qed

section \<open>Shared transports\<close>

lemma self_route_path:
  assumes "tr_route (h ! t) = Some [(n, t)]"
  shows "routePath k h [(n, t)] = None"
  by (induction k) (simp_all add: assms)

text \<open>
  (C38) \<open>Transport.Copy\<close> returns the transport it was called on, so a route that should get a
  private copy rewrites the shared one. A chain that takes the same multiplexing node in two
  consecutive hops ends up with a transport whose own route leads through itself: following the
  path of that route, as every dial does for its log, never ends.
\<close>

theorem multiplexed_node_twice_never_ends:
  assumes "hop_Select srt cx opts p = (Some n, p')" "hop_Select srt cx opts q = (Some n, q')"
    and "nd_transport n < length h" "tr_mux (h ! nd_transport n)"
  shows "\<exists>r hops h'. chain_Route srt cx opts [p, q] h = (Some r, hops, h') \<and>
    (\<forall>k. routePath k h' r = None)"
proof -
  let ?t = "nd_transport n"
  let ?h1 = "(h @ [h ! ?t])[?t := ((h @ [h ! ?t]) ! ?t)\<lparr>tr_route := Some []\<rparr>]"
  let ?h2 = "(?h1 @ [?h1 ! ?t])[?t := ((?h1 @ [?h1 ! ?t]) ! ?t)\<lparr>tr_route := Some [(n, ?t)]\<rparr>]"
  have mux: "tr_mux (?h1 ! ?t)" using assms(3,4) by (simp add: nth_append)
  have "chain_Route srt cx opts [p, q] h = (Some [(n, ?t)], [p', q'], ?h2)"
    using assms(1,2,4) mux by (simp add: chain_Route_def Transport_Copy_def Let_def)
  moreover have "tr_route (?h2 ! ?t) = Some [(n, ?t)]" using assms(3) by simp
  ultimately show ?thesis using self_route_path by blast
qed

theorem multiplexed_node_twice_never_ends_witness:
  "\<exists>r hops h'. chain_Route stable_priority sample_ctx sample_opts [two_nodes, two_nodes]
       [\<lparr>tr_mux = True, tr_route = None\<rparr>] = (Some r, hops, h') \<and> routePath 100 h' r = None"
proof -
  have r: "hop_Select stable_priority sample_ctx sample_opts two_nodes =
      (Some (sample_node ''n2'' 3), two_nodes)"
    by (simp add: hop_Select_def two_nodes_def bypassed_def candidate_def isEligible_def
        sample_node_def stable_priority_def Let_def)
  have "\<exists>r hops h'. chain_Route stable_priority sample_ctx sample_opts [two_nodes, two_nodes]
       [\<lparr>tr_mux = True, tr_route = None\<rparr>] = (Some r, hops, h') \<and> (\<forall>k. routePath k h' r = None)"
    by (rule multiplexed_node_twice_never_ends [OF r r]) (simp_all add: sample_node_def)
  then show ?thesis by blast
qed

end
