(* ===== verification/ServiceRuntime.thy ===== *)
theory ServiceRuntime
  imports GoNet Metadata
begin

text \<open>
  A running service, \<open>x/service/service.go\<close> and \<open>status.go\<close>: the status with its events, the
  accept loop of \<open>Serve\<close>, \<open>Close\<close>, and the detection of protocols on accepted connections.
  Times are counted in nanoseconds, as \<open>time.Duration\<close> does.
\<close>

section \<open>Status\<close>

definition MaxEventSize :: nat where "MaxEventSize = 20"

datatype state = StateRunning | StateReady | StateFailed | StateClosed

fun state_name :: "state \<Rightarrow> string" where
  "state_name StateRunning = ''running''"
| "state_name StateReady = ''ready''"
| "state_name StateFailed = ''failed''"
| "state_name StateClosed = ''closed''"

record status =
  su_state :: state
  su_events :: "(int \<times> string) list"

text \<open>A slice that is full loses its first element before the new one is appended.\<close>

definition addEvent :: "int \<times> string \<Rightarrow> status \<Rightarrow> status" where
  "addEvent ev p = p\<lparr>su_events :=
     (if length (su_events p) = MaxEventSize then tl (su_events p) else su_events p) @ [ev]\<rparr>"

text \<open>\<open>Events\<close> copies into a slice of twenty zero events.\<close>

definition Events :: "int \<times> string \<Rightarrow> status \<Rightarrow> (int \<times> string) list" where
  "Events zero p =
     take MaxEventSize (su_events p) @ replicate (MaxEventSize - length (su_events p)) zero"

definition state_message :: "string \<Rightarrow> state \<Rightarrow> string" where
  "state_message name st = ''service '' @ name @ '' is '' @ state_name st"

definition setState :: "string \<Rightarrow> int \<Rightarrow> state \<Rightarrow> status \<Rightarrow> status" where
  "setState name now st p = addEvent (now, state_message name st) (p\<lparr>su_state := st\<rparr>)"

section \<open>Serve\<close>

text \<open>
  What \<open>Accept\<close> returns: a connection with the address of its client, an error that is
  temporary, or another one. Each comes at a time.
\<close>

datatype accepted = Conn string | TempError string | AcceptError string

datatype serve_action =
  Sleep int | Denied string | Handle string string

definition retry_delay :: "int \<Rightarrow> int" where
  "retry_delay d = min (if d = 0 then second else d * 2) (5 * second)"

record serve_state =
  sv_status :: status
  sv_tempDelay :: int
  sv_actions :: "serve_action list"

text \<open>The client's address without its port, the hash source of the connection.\<close>

definition client_ip :: "string \<Rightarrow> string" where
  "client_ip addr = (if split_host addr \<noteq> [] then split_host addr else addr)"

text \<open>One turn of the loop; the error when it ends.\<close>

fun serve_turn ::
    "string \<Rightarrow> (string \<Rightarrow> bool) option \<Rightarrow> int \<Rightarrow> accepted \<Rightarrow> serve_state \<Rightarrow> serve_state \<times> go_error" where
  "serve_turn name admit now (TempError e) s =
     (let d = retry_delay (sv_tempDelay s) in
      (s\<lparr>sv_tempDelay := d, sv_status := setState name now StateFailed (sv_status s),
         sv_actions := sv_actions s @ [Sleep d]\<rparr>, nil_error))"
| "serve_turn name admit now (AcceptError e) s =
     (s\<lparr>sv_status := setState name now StateClosed (sv_status s)\<rparr>, Some e)"
| "serve_turn name admit now (Conn addr) s =
     (let s' = (if sv_tempDelay s > 0
                then s\<lparr>sv_tempDelay := 0, sv_status := setState name now StateReady (sv_status s)\<rparr>
                else s)
      in (case admit of
            Some f \<Rightarrow> (if f addr then s'\<lparr>sv_actions := sv_actions s' @ [Handle addr (client_ip addr)]\<rparr>
                       else s'\<lparr>sv_actions := sv_actions s' @ [Denied addr]\<rparr>)
          | None \<Rightarrow> s'\<lparr>sv_actions := sv_actions s' @ [Handle addr (client_ip addr)]\<rparr>, nil_error))"

text \<open>
  The loop over what the listener returns, with the times; the error it ends with, or \<open>nil\<close> while
  it still waits for the next connection.
\<close>

fun serve_loop ::
    "string \<Rightarrow> (string \<Rightarrow> bool) option \<Rightarrow> (int \<times> accepted) list \<Rightarrow> serve_state \<Rightarrow> serve_state \<times> go_error" where
  "serve_loop name admit [] s = (s, nil_error)"
| "serve_loop name admit ((now, x) # xs) s =
     (case serve_turn name admit now x s of
        (s', Some e) \<Rightarrow> (s', Some e)
      | (s', None) \<Rightarrow> serve_loop name admit xs s')"

definition Serve ::
    "string \<Rightarrow> string \<Rightarrow> int \<Rightarrow> (string \<Rightarrow> bool) option \<Rightarrow> (int \<times> accepted) list \<Rightarrow> status \<Rightarrow>
       serve_state \<times> go_error" where
  "Serve name laddr now admit xs p =
     serve_loop name admit xs
       \<lparr>sv_status = addEvent (now, ''service '' @ name @ '' is listening on '' @ laddr)
          (setState name now StateReady p),
        sv_tempDelay = 0, sv_actions = []\<rparr>"

text \<open>\<open>NewService\<close> runs the pre-up commands and leaves the status \<open>running\<close>.\<close>

definition new_status :: "string \<Rightarrow> int \<Rightarrow> status" where
  "new_status name now = setState name now StateRunning \<lparr>su_state = StateRunning, su_events = []\<rparr>"

section \<open>Close\<close>

datatype close_action = RunCmd string | CloseHandler | CloseListener

definition execCmds :: "string list \<Rightarrow> close_action list" where
  "execCmds cmds = map RunCmd (filter (\<lambda>c. c \<noteq> []) (map TrimSpace cmds))"

definition service_Close :: "string list \<Rightarrow> bool \<Rightarrow> string list \<Rightarrow> close_action list" where
  "service_Close preDown closer postDown =
     execCmds preDown @ (if closer then [CloseHandler] else []) @ [CloseListener] @ execCmds postDown"

section \<open>Detecting protocols\<close>

text \<open>Bytes are characters.\<close>

definition detectHTTP :: "string \<Rightarrow> bool" where
  "detectHTTP d = (3 \<le> length d \<and>
     (HasPrefix d ''GET'' \<or> HasPrefix d ''POST'' \<or> HasPrefix d ''PUT'' \<or> HasPrefix d ''DELETE'' \<or>
      HasPrefix d ''HEAD'' \<or> HasPrefix d ''OPTIONS'' \<or> HasPrefix d ''PATCH'' \<or>
      HasPrefix d ''CONNECT''))"

definition byte_at :: "string \<Rightarrow> nat \<Rightarrow> nat" where
  "byte_at d i = of_char (d ! i)"

definition detectTLS :: "string \<Rightarrow> bool" where
  "detectTLS d = (5 \<le> length d \<and> byte_at d 0 = 0x16 \<and> byte_at d 1 = 0x03 \<and>
     0x01 \<le> byte_at d 2 \<and> byte_at d 2 \<le> 0x04)"

definition detectSOCKS :: "string \<Rightarrow> bool" where
  "detectSOCKS d =
     (if d = [] then False
      else if byte_at d 0 = 0x04 then
        7 \<le> length d \<and> (byte_at d 1 = 0x01 \<or> byte_at d 1 = 0x02)
      else if byte_at d 0 = 0x05 then
        (if length d < 2 then False
         else
           (let k = byte_at d 1 in
            if length d < 2 + k then False
            else list_ex (\<lambda>c. of_char c = (0x00 :: nat) \<or> of_char c = (0x02 :: nat)) (take k (drop 2 d))))
      else False)"

text \<open>The switches \<open>isHttp\<close>, \<open>isTls\<close> and \<open>isSocks\<close> of the agent; the answer and whether the connection was closed.\<close>

record switches =
  sw_http :: int
  sw_tls :: int
  sw_socks :: int

definition detectProtocol :: "switches \<Rightarrow> string \<Rightarrow> bool \<times> bool" where
  "detectProtocol w d =
     (if sw_http w = 1 \<and> detectHTTP d then (False, True)
      else if sw_tls w = 1 \<and> detectTLS d then (True, True)
      else if sw_socks w = 1 \<and> detectSOCKS d then (True, True)
      else (False, False))"

record detect_conn =
  dc_detected :: bool
  dc_closed :: bool

text \<open>\<open>Read\<close> of a \<open>detectConn\<close>, given the bytes and the error the buffered reader returns.\<close>

definition detect_Read ::
    "switches \<Rightarrow> string \<Rightarrow> go_error \<Rightarrow> detect_conn \<Rightarrow> string \<times> go_error \<times> detect_conn" where
  "detect_Read w d e c =
     (if d \<noteq> [] \<and> \<not> dc_detected c then
        (case detectProtocol w d of
           (blocked, closed) \<Rightarrow>
             (let c' = c\<lparr>dc_detected := True, dc_closed := dc_closed c \<or> closed\<rparr>
              in if blocked then ([], Some ''connection blocked'', c') else (d, e, c')))
      else (d, e, c))"

section \<open>Facts\<close>

lemma addEvent_bound: "length (su_events p) \<le> MaxEventSize \<Longrightarrow> length (su_events (addEvent ev p)) \<le> MaxEventSize"
  by (auto simp: addEvent_def MaxEventSize_def)

lemma addEvent_last:
  "length (su_events p) \<le> MaxEventSize \<Longrightarrow>
   su_events (addEvent ev p) = drop (Suc (length (su_events p)) - MaxEventSize) (su_events p @ [ev])"
  by (auto simp: addEvent_def MaxEventSize_def drop_Suc tl_append split: list.splits)

text \<open>The status keeps the last twenty events, in order.\<close>

lemma events_are_the_last:
  "length (su_events p) \<le> MaxEventSize \<Longrightarrow>
   su_events (foldl (\<lambda>q e. addEvent e q) p evs) =
     drop (length (su_events p) + length evs - MaxEventSize) (su_events p @ evs)"
proof (induction evs arbitrary: p)
  case (Cons e evs)
  let ?q = "addEvent e p"
  have len: "length (su_events ?q) = min (Suc (length (su_events p))) MaxEventSize"
    using Cons.prems by (auto simp: addEvent_def MaxEventSize_def)
  have "su_events (foldl (\<lambda>q e. addEvent e q) ?q evs) =
      drop (length (su_events ?q) + length evs - MaxEventSize) (su_events ?q @ evs)"
    using Cons.IH [OF addEvent_bound [OF Cons.prems]] .
  also have "su_events ?q @ evs = drop (Suc (length (su_events p)) - MaxEventSize) (su_events p @ e # evs)"
    using Cons.prems by (simp add: addEvent_last) (simp add: MaxEventSize_def)
  finally show ?case using len Cons.prems by (simp add: min_def MaxEventSize_def ac_simps split: if_splits)
qed simp

lemma Events_length: "length (su_events p) \<le> MaxEventSize \<Longrightarrow> length (Events z p) = MaxEventSize"
  by (simp add: Events_def)

lemma retry_delay_bounds: "0 \<le> d \<Longrightarrow> second \<le> retry_delay d \<or> d < second \<and> d \<noteq> 0"
  "retry_delay d \<le> 5 * second"
  by (auto simp: retry_delay_def second_def)

text \<open>Consecutive temporary errors are retried after 1, 2, 4 and then always 5 seconds.\<close>

lemma retry_delays: "(retry_delay ^^ Suc k) 0 = min (2 ^ k) 5 * second"
proof (induction k)
  case (Suc k)
  have "(retry_delay ^^ Suc (Suc k)) 0 = retry_delay (min (2 ^ k) 5 * second)" using Suc by simp
  also have "\<dots> = min (2 ^ Suc k) 5 * second"
    by (auto simp: retry_delay_def second_def min_def)
  finally show ?case .
qed (simp add: retry_delay_def second_def)

lemma serve_loop_append:
  "serve_loop name admit (xs @ ys) s =
     (case serve_loop name admit xs s of
        (s', Some e) \<Rightarrow> (s', Some e)
      | (s', None) \<Rightarrow> serve_loop name admit ys s')"
  by (induction name admit xs s rule: serve_loop.induct) (auto split: prod.splits option.splits)

lemma detectProtocol_http: "fst (detectProtocol w d) \<Longrightarrow> \<not> (sw_http w = 1 \<and> detectHTTP d)"
  by (auto simp: detectProtocol_def)

text \<open>
  A request in HTTP closes the connection, but what was read is still handed to the handler:
  \<open>detectProtocol\<close> answers \<open>false\<close> for it, and \<open>true\<close> for the two other protocols.
\<close>

lemma detected_http_is_delivered:
  assumes "sw_http w = 1" "detectHTTP d" "\<not> dc_detected c"
  shows "detect_Read w d e c = (d, e, \<lparr>dc_detected = True, dc_closed = True\<rparr>)"
proof -
  have "d \<noteq> []" using assms(2) by (auto simp: detectHTTP_def)
  then show ?thesis using assms by (cases c) (simp add: detect_Read_def detectProtocol_def)
qed

text \<open>
  Only the first read is looked at: a client that sends a single byte first passes, whatever
  follows.
\<close>

lemma short_first_read_passes:
  assumes "0 < length d" "length d < 2" "\<not> dc_detected c"
  shows "detect_Read w d e c = (d, e, c\<lparr>dc_detected := True\<rparr>) \<and>
    detect_Read w d' e' (c\<lparr>dc_detected := True\<rparr>) = (d', e', c\<lparr>dc_detected := True\<rparr>)"
  using assms
  by (auto simp: detect_Read_def detectProtocol_def detectHTTP_def detectTLS_def detectSOCKS_def)

end
