(* ===== verification/Stats.thy ===== *)
theory Stats
  imports Prelude "HOL-Library.Word"
begin

text \<open>
  The counters of a service, \<open>x/observer/stats/stats.go\<close>, and the loop that reports them to the
  panel, \<open>observeStats\<close> of \<open>x/service/service.go\<close>. Counters are \<open>uint64\<close> and wrap around;
  every atomic operation is a step of its own, because the connections of the service add to the
  counters while the loop reads and resets them.
\<close>

section \<open>Counters\<close>

datatype stat_kind =
  KindTotalConns | KindCurrentConns | KindInputBytes | KindOutputBytes | KindTotalErrs

record stats =
  st_updated :: bool
  st_totalConns :: "64 word"
  st_currentConns :: "64 word"
  st_inputBytes :: "64 word"
  st_outputBytes :: "64 word"
  st_totalErrs :: "64 word"

definition NewStats :: stats where
  "NewStats = \<lparr>st_updated = False, st_totalConns = 0, st_currentConns = 0, st_inputBytes = 0,
     st_outputBytes = 0, st_totalErrs = 0\<rparr>"

text \<open>The amount is an \<open>int64\<close>; the two totals only count positive ones.\<close>

fun stats_add :: "stat_kind \<Rightarrow> 64 word \<Rightarrow> stats \<Rightarrow> stats" where
  "stats_add KindTotalConns n s =
     (if sint n > 0 then s\<lparr>st_totalConns := st_totalConns s + n\<rparr> else s)\<lparr>st_updated := True\<rparr>"
| "stats_add KindCurrentConns n s =
     s\<lparr>st_currentConns := st_currentConns s + n, st_updated := True\<rparr>"
| "stats_add KindInputBytes n s = s\<lparr>st_inputBytes := st_inputBytes s + n, st_updated := True\<rparr>"
| "stats_add KindOutputBytes n s = s\<lparr>st_outputBytes := st_outputBytes s + n, st_updated := True\<rparr>"
| "stats_add KindTotalErrs n s =
     (if sint n > 0 then s\<lparr>st_totalErrs := st_totalErrs s + n\<rparr> else s)\<lparr>st_updated := True\<rparr>"

fun stats_get :: "stat_kind \<Rightarrow> stats \<Rightarrow> 64 word" where
  "stats_get KindTotalConns s = st_totalConns s"
| "stats_get KindCurrentConns s = st_currentConns s"
| "stats_get KindInputBytes s = st_inputBytes s"
| "stats_get KindOutputBytes s = st_outputBytes s"
| "stats_get KindTotalErrs s = st_totalErrs s"

definition ResetTraffic :: "64 word \<Rightarrow> 64 word \<Rightarrow> stats \<Rightarrow> stats" where
  "ResetTraffic i u s = s\<lparr>st_inputBytes := i, st_outputBytes := u\<rparr>"

definition stats_reset :: "stats \<Rightarrow> stats" where
  "stats_reset s = NewStats"

text \<open>\<open>IsUpdated\<close> swaps the flag for \<open>False\<close>.\<close>

definition IsUpdated :: "stats \<Rightarrow> bool \<times> stats" where
  "IsUpdated s = (st_updated s, s\<lparr>st_updated := False\<rparr>)"

section \<open>The reporting loop\<close>

text \<open>
  Where the loop stands: waiting for its ticker, or between two atomic operations of a round,
  with the values it holds in its variables. \<open>OSend\<close> is about to post the report, \<open>OSent\<close> has
  seen it accepted, \<open>OAgain\<close>, \<open>OStore\<close> and \<open>OStoreOut\<close> are inside the call of \<open>ResetTraffic\<close>.
\<close>

datatype obs_pc =
    OIdle
  | OInput
  | OOutput "64 word"
  | OSend "64 word" "64 word"
  | OSent "64 word" "64 word"
  | OAgain "64 word" "64 word" "64 word"
  | OStore "64 word" "64 word"
  | OStoreOut "64 word"
  | OObserve

record obs =
  ob_stats :: stats
  ob_pc :: obs_pc
  ob_pending :: bool

text \<open>
  What posting a report comes to: the panel books it and says so; it is not booked; or it is
  booked and the reply is lost or unreadable, which the loop cannot tell from the second.
\<close>

datatype send_result = Accepted | Refused | ReplyLost

text \<open>
  One atomic step of the loop, given what the post and the observer answer. The second component
  is what the panel has booked in this step, as input and output bytes.
\<close>

fun obs_step :: "send_result \<Rightarrow> bool \<Rightarrow> obs \<Rightarrow> obs \<times> 64 word \<times> 64 word" where
  "obs_step r okay (\<lparr>ob_stats = s, ob_pc = pc, ob_pending = p\<rparr>) =
     (case pc of
        OIdle \<Rightarrow>
          (if p then (\<lparr>ob_stats = s, ob_pc = OIdle, ob_pending = \<not> okay\<rparr>, 0, 0)
           else (case IsUpdated s of
                   (u, s') \<Rightarrow> (\<lparr>ob_stats = s', ob_pc = (if u then OInput else OIdle), ob_pending = p\<rparr>, 0, 0)))
      | OInput \<Rightarrow>
          (\<lparr>ob_stats = s, ob_pc = OOutput (stats_get KindInputBytes s), ob_pending = p\<rparr>, 0, 0)
      | OOutput i \<Rightarrow>
          (let u = stats_get KindOutputBytes s
           in (\<lparr>ob_stats = s, ob_pc = (if 0 < u \<or> 0 < i then OSend i u else OObserve), ob_pending = p\<rparr>, 0, 0))
      | OSend i u \<Rightarrow>
          (case r of
             Accepted \<Rightarrow> (\<lparr>ob_stats = s, ob_pc = OSent i u, ob_pending = p\<rparr>, i, u)
           | Refused \<Rightarrow> (\<lparr>ob_stats = s, ob_pc = OObserve, ob_pending = p\<rparr>, 0, 0)
           | ReplyLost \<Rightarrow> (\<lparr>ob_stats = s, ob_pc = OObserve, ob_pending = p\<rparr>, i, u))
      | OSent i u \<Rightarrow>
          (\<lparr>ob_stats = s, ob_pc = OAgain i u (stats_get KindInputBytes s - i), ob_pending = p\<rparr>, 0, 0)
      | OAgain i u ri \<Rightarrow>
          (\<lparr>ob_stats = s, ob_pc = OStore ri (stats_get KindOutputBytes s - u), ob_pending = p\<rparr>, 0, 0)
      | OStore ri ru \<Rightarrow>
          (\<lparr>ob_stats = s\<lparr>st_inputBytes := ri\<rparr>, ob_pc = OStoreOut ru, ob_pending = p\<rparr>, 0, 0)
      | OStoreOut ru \<Rightarrow>
          (\<lparr>ob_stats = s\<lparr>st_outputBytes := ru\<rparr>, ob_pc = OObserve, ob_pending = p\<rparr>, 0, 0)
      | OObserve \<Rightarrow> (\<lparr>ob_stats = s, ob_pc = OIdle, ob_pending = \<not> okay\<rparr>, 0, 0))"

text \<open>
  What happens to a service: a connection adds to a counter, or the loop takes a step. The
  accounts keep, beside the loop, what was moved and what the panel has booked since the start.
\<close>

datatype obs_event = EvAdd stat_kind "64 word" | EvStep send_result bool

record account =
  ac_obs :: obs
  ac_moved_in :: "64 word"
  ac_moved_out :: "64 word"
  ac_booked_in :: "64 word"
  ac_booked_out :: "64 word"

fun account_step :: "obs_event \<Rightarrow> account \<Rightarrow> account" where
  "account_step (EvAdd k n) a =
     a\<lparr>ac_obs := (ac_obs a)\<lparr>ob_stats := stats_add k n (ob_stats (ac_obs a))\<rparr>,
       ac_moved_in := ac_moved_in a + (if k = KindInputBytes then n else 0),
       ac_moved_out := ac_moved_out a + (if k = KindOutputBytes then n else 0)\<rparr>"
| "account_step (EvStep r okay) a =
     (case obs_step r okay (ac_obs a) of
        (b, i, u) \<Rightarrow> a\<lparr>ac_obs := b, ac_booked_in := ac_booked_in a + i,
                      ac_booked_out := ac_booked_out a + u\<rparr>)"

definition account_run :: "obs_event list \<Rightarrow> account \<Rightarrow> account" where
  "account_run evs a = foldl (\<lambda>b e. account_step e b) a evs"

definition opened :: account where
  "opened = \<lparr>ac_obs = \<lparr>ob_stats = NewStats, ob_pc = OIdle, ob_pending = False\<rparr>, ac_moved_in = 0,
     ac_moved_out = 0, ac_booked_in = 0, ac_booked_out = 0\<rparr>"

text \<open>
  The window of \<open>ResetTraffic\<close>: an addition that lands between the second reading of its counter
  and the store is overwritten. A run is quiet when none does and no reply is lost.
\<close>

fun in_window :: "stat_kind \<Rightarrow> obs_pc \<Rightarrow> bool" where
  "in_window KindInputBytes (OAgain i u ri) = True"
| "in_window KindInputBytes (OStore ri ru) = True"
| "in_window KindOutputBytes (OStore ri ru) = True"
| "in_window KindOutputBytes (OStoreOut ru) = True"
| "in_window k pc = False"

fun quiet_event :: "obs_event \<Rightarrow> account \<Rightarrow> bool" where
  "quiet_event (EvAdd k n) a = (\<not> in_window k (ob_pc (ac_obs a)))"
| "quiet_event (EvStep r okay) a = (r \<noteq> ReplyLost)"

fun quiet :: "obs_event list \<Rightarrow> account \<Rightarrow> bool" where
  "quiet [] a = True"
| "quiet (e # es) a = (quiet_event e a \<and> quiet es (account_step e a))"

section \<open>Every byte is booked once\<close>

fun balanced :: "account \<Rightarrow> bool" where
  "balanced \<lparr>ac_obs = \<lparr>ob_stats = s, ob_pc = pc, ob_pending = p\<rparr>, ac_moved_in = mi, ac_moved_out = mo,
       ac_booked_in = bi, ac_booked_out = bo\<rparr> =
     (case pc of
        OSent i u \<Rightarrow> st_inputBytes s + bi = mi + i \<and> st_outputBytes s + bo = mo + u
      | OAgain i u ri \<Rightarrow> ri + bi = mi \<and> st_outputBytes s + bo = mo + u
      | OStore ri ru \<Rightarrow> ri + bi = mi \<and> ru + bo = mo
      | OStoreOut ru \<Rightarrow> st_inputBytes s + bi = mi \<and> ru + bo = mo
      | _ \<Rightarrow> st_inputBytes s + bi = mi \<and> st_outputBytes s + bo = mo)"

lemma balanced_add:
  assumes "balanced a" "quiet_event (EvAdd k n) a"
  shows "balanced (account_step (EvAdd k n) a)"
proof -
  obtain s pc p mi mo bi bo where a: "a = \<lparr>ac_obs = \<lparr>ob_stats = s, ob_pc = pc, ob_pending = p\<rparr>,
      ac_moved_in = mi, ac_moved_out = mo, ac_booked_in = bi, ac_booked_out = bo\<rparr>"
    by (metis account.surjective obs.surjective old.unit.exhaust)
  show ?thesis using assms by (cases k; cases pc) (simp_all add: a algebra_simps)
qed

lemma balanced_loop:
  assumes "balanced a" "r \<noteq> ReplyLost"
  shows "balanced (account_step (EvStep r okay) a)"
proof -
  obtain s pc p mi mo bi bo where a: "a = \<lparr>ac_obs = \<lparr>ob_stats = s, ob_pc = pc, ob_pending = p\<rparr>,
      ac_moved_in = mi, ac_moved_out = mo, ac_booked_in = bi, ac_booked_out = bo\<rparr>"
    by (metis account.surjective obs.surjective old.unit.exhaust)
  show ?thesis
    using assms
    by (cases pc; cases r)
      (auto simp: a IsUpdated_def Let_def algebra_simps)
qed

lemma account_run_simps [simp]:
  "account_run [] a = a"
  "account_run (e # es) a = account_run es (account_step e a)"
  by (simp_all add: account_run_def)

lemma account_run_append: "account_run (xs @ ys) a = account_run ys (account_run xs a)"
  by (simp add: account_run_def)

lemma quiet_balanced: "balanced a \<Longrightarrow> quiet evs a \<Longrightarrow> balanced (account_run evs a)"
proof (induction evs arbitrary: a)
  case (Cons e evs)
  have "balanced (account_step e a)"
    using Cons.prems balanced_add balanced_loop by (cases e) auto
  then show ?case using Cons by simp
qed simp

lemma balanced_opened: "balanced opened"
  by (simp add: opened_def NewStats_def)

lemma balanced_idle:
  assumes "balanced a" "ob_pc (ac_obs a) = OIdle"
  shows "st_inputBytes (ob_stats (ac_obs a)) + ac_booked_in a = ac_moved_in a \<and>
    st_outputBytes (ob_stats (ac_obs a)) + ac_booked_out a = ac_moved_out a"
  using assms by (cases a rule: balanced.cases) auto

text \<open>
  (C19) Every byte is booked exactly once. However the additions of the connections and the steps
  of the reporting loop interleave, as long as no addition falls into the window of
  \<open>ResetTraffic\<close> and no reply of the panel is lost, whenever the loop waits for its ticker the
  bytes moved so far are those the panel has booked and those still in the counters, as counters
  of 64 bits, in each direction.
\<close>

theorem traffic_booked_once:
  assumes "quiet evs opened" "ob_pc (ac_obs (account_run evs opened)) = OIdle"
  shows "st_inputBytes (ob_stats (ac_obs (account_run evs opened))) +
      ac_booked_in (account_run evs opened) = ac_moved_in (account_run evs opened) \<and>
    st_outputBytes (ob_stats (ac_obs (account_run evs opened))) +
      ac_booked_out (account_run evs opened) = ac_moved_out (account_run evs opened)"
  by (rule balanced_idle [OF quiet_balanced [OF balanced_opened assms(1)] assms(2)])

definition busy_round :: "obs_event list" where
  "busy_round = [EvAdd KindInputBytes 1000, EvAdd KindOutputBytes 50, EvStep Accepted True,
     EvAdd KindInputBytes 7] @ replicate 4 (EvStep Accepted True) @ [EvAdd KindOutputBytes 3] @
     replicate 4 (EvStep Accepted True)"

theorem traffic_booked_once_witness:
  "let a = account_run busy_round opened
   in ac_booked_in a = 1007 \<and> ac_booked_out a = 50 \<and> st_outputBytes (ob_stats (ac_obs a)) = 3 \<and>
      st_inputBytes (ob_stats (ac_obs a)) + ac_booked_in a = ac_moved_in a"
proof -
  have "quiet busy_round opened" "ob_pc (ac_obs (account_run busy_round opened)) = OIdle"
    by code_simp+
  from traffic_booked_once [OF this]
  have "st_inputBytes (ob_stats (ac_obs (account_run busy_round opened))) +
      ac_booked_in (account_run busy_round opened) = ac_moved_in (account_run busy_round opened)"
    by blast
  moreover have "ac_booked_in (account_run busy_round opened) = 1007"
    "ac_booked_out (account_run busy_round opened) = 50"
    "st_outputBytes (ob_stats (ac_obs (account_run busy_round opened))) = 3"
    by code_simp+
  ultimately show ?thesis by (simp add: Let_def)
qed

section \<open>What the loop loses\<close>

lemma obs_fields: "(b :: obs) = \<lparr>ob_stats = ob_stats b, ob_pc = ob_pc b, ob_pending = ob_pending b\<rparr>"
  by simp

text \<open>
  The reset after an accepted report is not atomic. In any run so far quiet, bytes that
  arrive after the loop has read the counter for the second time, and before it stores, are
  neither booked nor left in the counter once the round ends: they are lost for good.
\<close>

theorem reset_window_loses_traffic:
  assumes "quiet evs opened" "ob_pc (ac_obs (account_run evs opened)) = OAgain i u ri"
  shows "let a = account_run (evs @ EvAdd KindInputBytes n # replicate 4 (EvStep r True)) opened
    in ob_pc (ac_obs a) = OIdle \<and>
       st_inputBytes (ob_stats (ac_obs a)) + ac_booked_in a = ac_moved_in a - n"
proof -
  let ?a = "account_run evs opened"
  have bal: "balanced ?a" by (rule quiet_balanced [OF balanced_opened assms(1)])
  obtain s pc p mi mo bi bo where a: "?a = \<lparr>ac_obs = \<lparr>ob_stats = s, ob_pc = pc, ob_pending = p\<rparr>,
      ac_moved_in = mi, ac_moved_out = mo, ac_booked_in = bi, ac_booked_out = bo\<rparr>"
    by (metis account.surjective obs.surjective old.unit.exhaust)
  have pc: "pc = OAgain i u ri" using assms(2) a by simp
  then have "ri + bi = mi" using bal a by simp
  then show ?thesis
    by (simp add: account_run_append a pc numeral_eq_Suc Let_def algebra_simps)
qed

definition report_sent :: "obs_event list" where
  "report_sent = EvAdd KindInputBytes 1000 # replicate 5 (EvStep Accepted True)"

theorem reset_window_loses_traffic_witness:
  "let a = account_run (report_sent @ EvAdd KindInputBytes 400 # replicate 4 (EvStep Accepted True)) opened
   in st_inputBytes (ob_stats (ac_obs a)) + ac_booked_in a = ac_moved_in a - 400"
proof -
  have "quiet report_sent opened" by code_simp
  moreover have "ob_pc (ac_obs (account_run report_sent opened)) = OAgain 1000 0 0" by code_simp
  ultimately show ?thesis
    using reset_window_loses_traffic [of report_sent 1000 0 0 400 Accepted]
    by (simp add: Let_def)
qed

fun resting :: "obs_pc \<Rightarrow> bool" where
  "resting OIdle = True"
| "resting OObserve = True"
| "resting pc = False"

lemma resting_step:
  assumes "resting (ob_pc b)" "\<not> st_updated (ob_stats b)"
  shows "\<exists>b'. obs_step r okay b = (b', 0, 0) \<and> resting (ob_pc b') \<and> ob_stats b' = ob_stats b"
proof -
  obtain s pc p where b: "b = \<lparr>ob_stats = s, ob_pc = pc, ob_pending = p\<rparr>" by (cases b) auto
  show ?thesis using assms by (cases pc) (auto simp: b IsUpdated_def)
qed

lemma resting_run:
  assumes "resting (ob_pc (ac_obs a))" "\<not> st_updated (ob_stats (ac_obs a))"
  shows "let a' = account_run (map (\<lambda>(r, k). EvStep r k) steps) a
    in ac_booked_in a' = ac_booked_in a \<and> ac_booked_out a' = ac_booked_out a \<and>
       ob_stats (ac_obs a') = ob_stats (ac_obs a)"
  using assms
proof (induction steps arbitrary: a)
  case (Cons x steps)
  obtain r k where x: "x = (r, k)" by (cases x)
  from resting_step [OF Cons.prems, of r k] obtain b' where
    b: "obs_step r k (ac_obs a) = (b', 0, 0)" "resting (ob_pc b')" "ob_stats b' = ob_stats (ac_obs a)"
    by blast
  have step: "account_step (EvStep r k) a = a\<lparr>ac_obs := b'\<rparr>" using b(1) by simp
  show ?case
    using Cons.IH [of "a\<lparr>ac_obs := b'\<rparr>"] Cons.prems b x by (simp add: step Let_def)
qed (simp add: Let_def)

text \<open>
  A report that fails is not tried again by itself. The loop clears the \<open>updated\<close> flag before
  it posts, so when the post fails and no connection moves a byte afterwards, no number of further
  rounds ever books the bytes, which stay in the counters.
\<close>

theorem failed_report_not_retried:
  assumes "ob_pc (ac_obs a) = OSend i u" "\<not> st_updated (ob_stats (ac_obs a))"
  shows "let a' = account_run (EvStep Refused k # map (\<lambda>(r, okay). EvStep r okay) steps) a
    in ac_booked_in a' = ac_booked_in a \<and> ac_booked_out a' = ac_booked_out a \<and>
       ob_stats (ac_obs a') = ob_stats (ac_obs a)"
proof -
  obtain s p where b: "ac_obs a = \<lparr>ob_stats = s, ob_pc = OSend i u, ob_pending = p\<rparr>"
    using assms(1) obs_fields [of "ac_obs a"] by metis
  then have step: "account_step (EvStep Refused k) a =
      a\<lparr>ac_obs := \<lparr>ob_stats = s, ob_pc = OObserve, ob_pending = p\<rparr>\<rparr>"
    by simp
  show ?thesis
    using resting_run [of "account_step (EvStep Refused k) a" steps] assms(2) b
    by (simp add: step Let_def)
qed

theorem failed_report_not_retried_witness:
  "let a = account_run (EvAdd KindInputBytes 1000 # replicate 3 (EvStep Refused True)) opened
   in ac_booked_in (account_run (EvStep Refused True # replicate 50 (EvStep Accepted True)) a) = 0"
proof -
  let ?a = "account_run (EvAdd KindInputBytes 1000 # replicate 3 (EvStep Refused True)) opened"
  have "ob_pc (ac_obs ?a) = OSend 1000 0" "\<not> st_updated (ob_stats (ac_obs ?a))" by code_simp+
  from failed_report_not_retried [OF this, of True "replicate 50 (Accepted, True)"]
  have "ac_booked_in (account_run (EvStep Refused True # replicate 50 (EvStep Accepted True)) ?a) =
      ac_booked_in ?a"
    by (simp add: Let_def)
  moreover have "ac_booked_in ?a = 0" by code_simp
  ultimately show ?thesis by (simp add: Let_def)
qed

end
