(* ===== verification/Json.thy ===== *)
theory Json
  imports Strconv
begin

text \<open>
  JSON values as \<open>encoding/json\<close> hands them to the agent in an \<open>interface{}\<close>, the decoding of
  small request structs from them, and the rewriting of durations in
  \<open>x/socket/websocket_reporter.go\<close>. Only integers occur as numbers here. An object is the list
  of its entries in the order in which \<open>Marshal\<close> writes them.
\<close>

section \<open>Values\<close>

datatype json =
    JNull
  | JBool bool
  | JNum int
  | JStr string
  | JArr "json list"
  | JObj "(string \<times> json) list"

section \<open>Decoding structs\<close>

text \<open>
  \<open>Unmarshal\<close> writes into a variable: \<open>null\<close> leaves it as it is, a value of another type is an
  error. The keys of an object are matched without regard to case, one after the other.
\<close>

fun string_into :: "json \<Rightarrow> string \<Rightarrow> string option" where
  "string_into JNull old = Some old"
| "string_into (JStr s) old = Some s"
| "string_into j old = None"

fun int_into :: "json \<Rightarrow> int \<Rightarrow> int option" where
  "int_into JNull old = Some old"
| "int_into (JNum n) old = Some n"
| "int_into j old = None"

fun bool_into :: "json \<Rightarrow> bool \<Rightarrow> bool option" where
  "bool_into JNull old = Some old"
| "bool_into (JBool b) old = Some b"
| "bool_into j old = None"

fun strings_into :: "json \<Rightarrow> string list \<Rightarrow> string list option" where
  "strings_into JNull old = Some []"
| "strings_into (JArr js) old = those (map (\<lambda>j. string_into j []) js)"
| "strings_into j old = None"

definition same_key :: "string \<Rightarrow> string \<Rightarrow> bool" where
  "same_key a b = (ToLower a = ToLower b)"

fun field_into :: "string \<Rightarrow> (json \<Rightarrow> 'a \<Rightarrow> 'a option) \<Rightarrow> (string \<times> json) list \<Rightarrow> 'a \<Rightarrow> 'a option" where
  "field_into k dec [] old = Some old"
| "field_into k dec ((k', j) # es) old =
     (if same_key k' k then
        (case dec j old of None \<Rightarrow> None | Some new \<Rightarrow> field_into k dec es new)
      else field_into k dec es old)"

text \<open>The entries a struct is decoded from; \<open>null\<close> leaves the struct as it is.\<close>

fun entries_of :: "json \<Rightarrow> (string \<times> json) list option" where
  "entries_of JNull = Some []"
| "entries_of (JObj es) = Some es"
| "entries_of j = None"

definition has_key :: "string \<Rightarrow> (string \<times> json) list \<Rightarrow> bool" where
  "has_key k es = list_ex (\<lambda>(k', j). same_key k' k) es"

lemma field_into_absent: "\<not> has_key k es \<Longrightarrow> field_into k dec es old = Some old"
  by (induction es) (auto simp: has_key_def)

section \<open>Durations\<close>

text \<open>
  \<open>processDurationInData\<close>. The flag says that the value stands under the key \<open>selector\<close>; there a
  \<open>failTimeout\<close> written as text becomes a number of nanoseconds. Rewriting the entry and going
  into its value may be done in either order, since numbers and texts are left alone.
\<close>

fun as_nanos :: "(string \<Rightarrow> int option) \<Rightarrow> json \<Rightarrow> json" where
  "as_nanos parseDuration (JStr s) =
     (case parseDuration s of Some n \<Rightarrow> JNum n | None \<Rightarrow> JStr s)"
| "as_nanos parseDuration j = j"

fun durations :: "(string \<Rightarrow> int option) \<Rightarrow> bool \<Rightarrow> json \<Rightarrow> json" where
  "durations pd sel (JArr js) = JArr (map (durations pd False) js)"
| "durations pd sel (JObj es) =
     JObj (map (\<lambda>(k, j). (k, if sel \<and> k = ''failTimeout'' then as_nanos pd (durations pd False j)
                              else durations pd (k = ''selector'') j)) es)"
| "durations pd sel j = j"

definition processDurationInData :: "(string \<Rightarrow> int option) \<Rightarrow> json \<Rightarrow> json" where
  "processDurationInData pd j = durations pd False j"

lemma as_nanos_idem: "as_nanos pd (as_nanos pd j) = as_nanos pd j"
  by (cases j) (auto split: option.split)

lemma durations_as_nanos: "durations pd sel (as_nanos pd j) = as_nanos pd (durations pd sel j)"
  by (cases j) (auto split: option.split)

lemma durations_idem: "durations pd sel (durations pd sel j) = durations pd sel j"
proof (induction pd sel j rule: durations.induct)
  case (2 pd sel es)
  let ?f = "\<lambda>(k, j). (k, if sel \<and> k = ''failTimeout'' then as_nanos pd (durations pd False j)
                       else durations pd (k = ''selector'') j)"
  have "?f (?f x) = ?f x" if "x \<in> set es" for x
    using 2 [OF that prod.collapse]
    by (cases "sel \<and> fst x = ''failTimeout''") (auto simp: case_prod_beta durations_as_nanos as_nanos_idem)
  then have "map ?f (map ?f es) = map ?f es" by simp
  then show ?case by (simp only: durations.simps(2))
qed simp_all

text \<open>Rewriting a second time changes nothing: the agent may process a command it has processed.\<close>

lemma processDuration_idem:
  "processDurationInData pd (processDurationInData pd j) = processDurationInData pd j"
  by (simp add: processDurationInData_def durations_idem)

end
