(* ===== verification/AgentCommands.thy ===== *)
theory AgentCommands
  imports SocketResume SocketObjects GoNet Json
begin

text \<open>
  The commands of the panel, \<open>x/socket/websocket_reporter.go\<close>: decoding a command, running it on
  the services, chains and limiters of the agent, and answering. The texts of the answers are the
  UTF-8 bytes of the source. Decoding the big configuration structs is a parameter; the requests
  around them are decoded here. TCP connections of the ping are what the network answers.
\<close>

section \<open>Texts\<close>

definition bytes :: "nat list \<Rightarrow> string" where
  "bytes bs = map char_of bs"

definition msgServiceConfig :: string where
  "msgServiceConfig =
     bytes [0xE8, 0xA7, 0xA3, 0xE6, 0x9E, 0x90, 0xE6, 0x9C, 0x8D, 0xE5, 0x8A, 0xA1, 0xE9, 0x85,
     0x8D, 0xE7, 0xBD, 0xAE, 0xE5, 0xA4, 0xB1, 0xE8, 0xB4, 0xA5] @ '': ''"

definition msgDeleteRequest :: string where
  "msgDeleteRequest =
     bytes [0xE8, 0xA7, 0xA3, 0xE6, 0x9E, 0x90, 0xE5, 0x88, 0xA0, 0xE9, 0x99, 0xA4, 0xE8, 0xAF,
     0xB7, 0xE6, 0xB1, 0x82, 0xE5, 0xA4, 0xB1, 0xE8, 0xB4, 0xA5] @ '': ''"

definition msgPauseRequest :: string where
  "msgPauseRequest =
     bytes [0xE8, 0xA7, 0xA3, 0xE6, 0x9E, 0x90, 0xE6, 0x9A, 0x82, 0xE5, 0x81, 0x9C, 0xE8, 0xAF,
     0xB7, 0xE6, 0xB1, 0x82, 0xE5, 0xA4, 0xB1, 0xE8, 0xB4, 0xA5] @ '': ''"

definition msgResumeRequest :: string where
  "msgResumeRequest =
     bytes [0xE8, 0xA7, 0xA3, 0xE6, 0x9E, 0x90, 0xE6, 0x81, 0xA2, 0xE5, 0xA4, 0x8D, 0xE8, 0xAF,
     0xB7, 0xE6, 0xB1, 0x82, 0xE5, 0xA4, 0xB1, 0xE8, 0xB4, 0xA5] @ '': ''"

definition msgChainConfig :: string where
  "msgChainConfig =
     bytes [0xE8, 0xA7, 0xA3, 0xE6, 0x9E, 0x90, 0xE9, 0x93, 0xBE, 0xE9, 0x85, 0x8D, 0xE7, 0xBD,
     0xAE, 0xE5, 0xA4, 0xB1, 0xE8, 0xB4, 0xA5] @ '': ''"

definition msgChainDelete :: string where
  "msgChainDelete =
     bytes [0xE8, 0xA7, 0xA3, 0xE6, 0x9E, 0x90, 0xE9, 0x93, 0xBE, 0xE5, 0x88, 0xA0, 0xE9, 0x99,
     0xA4, 0xE8, 0xAF, 0xB7, 0xE6, 0xB1, 0x82, 0xE5, 0xA4, 0xB1, 0xE8, 0xB4, 0xA5] @ '': ''"

definition msgLimiterConfig :: string where
  "msgLimiterConfig =
     bytes [0xE8, 0xA7, 0xA3, 0xE6, 0x9E, 0x90, 0xE9, 0x99, 0x90, 0xE6, 0xB5, 0x81, 0xE5, 0x99,
     0xA8, 0xE9, 0x85, 0x8D, 0xE7, 0xBD, 0xAE, 0xE5, 0xA4, 0xB1, 0xE8, 0xB4, 0xA5] @ '': ''"

definition msgLimiterDelete :: string where
  "msgLimiterDelete =
     bytes [0xE8, 0xA7, 0xA3, 0xE6, 0x9E, 0x90, 0xE9, 0x99, 0x90, 0xE6, 0xB5, 0x81, 0xE5, 0x99,
     0xA8, 0xE5, 0x88, 0xA0, 0xE9, 0x99, 0xA4, 0xE8, 0xAF, 0xB7, 0xE6, 0xB1, 0x82, 0xE5, 0xA4,
     0xB1, 0xE8, 0xB4, 0xA5] @ '': ''"

definition msgPingRequest :: string where
  "msgPingRequest =
     bytes [0xE8, 0xA7, 0xA3, 0xE6, 0x9E, 0x90] @ ''TCP ping'' @ bytes [0xE8, 0xAF, 0xB7, 0xE6,
     0xB1, 0x82, 0xE5, 0xA4, 0xB1, 0xE8, 0xB4, 0xA5] @ '': ''"

definition msgUnknown :: string where
  "msgUnknown =
     bytes [0xE6, 0x9C, 0xAA, 0xE7, 0x9F, 0xA5, 0xE5, 0x91, 0xBD, 0xE4, 0xBB, 0xA4, 0xE7, 0xB1,
     0xBB, 0xE5, 0x9E, 0x8B] @ '': ''"

definition msgBadHost :: string where
  "msgBadHost =
     bytes [0xE6, 0x97, 0xA0, 0xE6, 0x95, 0x88, 0xE7, 0x9A, 0x84] @ ''IP'' @ bytes [0xE5, 0x9C,
     0xB0, 0xE5, 0x9D, 0x80, 0xE6, 0x88, 0x96, 0xE4, 0xB8, 0xBB, 0xE6, 0x9C, 0xBA, 0xE5, 0x90,
     0x8D]"

definition msgBadPort :: string where
  "msgBadPort =
     bytes [0xE6, 0x97, 0xA0, 0xE6, 0x95, 0x88, 0xE7, 0x9A, 0x84, 0xE7, 0xAB, 0xAF, 0xE5, 0x8F,
     0xA3, 0xE5, 0x8F, 0xB7, 0xEF, 0xBC, 0x8C, 0xE8, 0x8C, 0x83, 0xE5, 0x9B, 0xB4, 0xE5, 0xBA,
     0x94, 0xE4, 0xB8, 0xBA] @ ''1-65535''"

definition msgNoConnection :: string where
  "msgNoConnection =
     bytes [0xE6, 0x89, 0x80, 0xE6, 0x9C, 0x89] @ ''TCP'' @ bytes [0xE8, 0xBF, 0x9E, 0xE6, 0x8E,
     0xA5, 0xE5, 0xB0, 0x9D, 0xE8, 0xAF, 0x95, 0xE9, 0x83, 0xBD, 0xE5, 0xA4, 0xB1, 0xE8, 0xB4,
     0xA5]"

section \<open>The agent\<close>

text \<open>The configuration file holds what was saved last; \<open>None\<close> is a file cut short by a failed write.\<close>

record ('r, 'o, 'v) agent =
  ag_world :: "'r world"
  ag_chains :: "('o, 'v) store"
  ag_limiters :: "('o, 'v) store"
  ag_file :: "('r service_config list \<times> 'o object_config list \<times> 'o object_config list) option"

text \<open>
  What the agent is run with: the packages it calls, and what file system and network answer.
  \<open>ge_error\<close> is the text of a decoding error.
\<close>

record ('r, 'o, 'v) agent_env =
  ge_env :: env
  ge_services :: "json \<Rightarrow> 'r service_config list option"
  ge_object :: "json \<Rightarrow> 'o object_config \<Rightarrow> 'o object_config option"
  ge_zero :: "'o object_config"
  ge_parsers :: "('o, 'v) parsers"
  ge_duration :: "string \<Rightarrow> int option"
  ge_error :: "json \<Rightarrow> string"
  ge_create :: bool
  ge_write :: bool
  ge_dial :: "string \<Rightarrow> int \<Rightarrow> nat \<Rightarrow> go_error \<times> int"

definition saveConfig :: "('r, 'o, 'v) agent_env \<Rightarrow> ('r, 'o, 'v) agent \<Rightarrow> ('r, 'o, 'v) agent" where
  "saveConfig G a =
     (if \<not> ge_create G then a
      else a\<lparr>ag_file := (if ge_write G
               then Some (w_cfgs (ag_world a), st_cfgs (ag_chains a), st_cfgs (ag_limiters a))
               else None)\<rparr>)"

section \<open>Services\<close>

definition on_world ::
    "('r world \<Rightarrow> go_error \<times> 'r world) \<Rightarrow> ('r, 'o, 'v) agent \<Rightarrow> go_error \<times> ('r, 'o, 'v) agent" where
  "on_world f a = (case f (ag_world a) of (e, w) \<Rightarrow> (e, a\<lparr>ag_world := w\<rparr>))"

definition handleAddService ::
    "('r, 'o, 'v) agent_env \<Rightarrow> json \<Rightarrow> ('r, 'o, 'v) agent \<Rightarrow> go_error \<times> ('r, 'o, 'v) agent" where
  "handleAddService G data a =
     (case ge_services G (processDurationInData (ge_duration G) data) of
        None \<Rightarrow> (Some (msgServiceConfig @ ge_error G data), a)
      | Some cs \<Rightarrow> on_world (createServices (ge_env G) cs) a)"

definition handleUpdateService ::
    "('r, 'o, 'v) agent_env \<Rightarrow> json \<Rightarrow> ('r, 'o, 'v) agent \<Rightarrow> go_error \<times> ('r, 'o, 'v) agent" where
  "handleUpdateService G data a =
     (case ge_services G (processDurationInData (ge_duration G) data) of
        None \<Rightarrow> (Some (msgServiceConfig @ ge_error G data), a)
      | Some cs \<Rightarrow> on_world (updateServices (ge_env G) cs) a)"

text \<open>The requests that name services: \<open>{"services": [...]}\<close>.\<close>

definition services_request :: "json \<Rightarrow> string list option" where
  "services_request j =
     (case entries_of j of None \<Rightarrow> None | Some es \<Rightarrow> field_into ''services'' strings_into es [])"

definition handleDeleteService ::
    "('r, 'o, 'v) agent_env \<Rightarrow> json \<Rightarrow> ('r, 'o, 'v) agent \<Rightarrow> go_error \<times> ('r, 'o, 'v) agent" where
  "handleDeleteService G data a =
     (case services_request data of
        None \<Rightarrow> (Some (msgDeleteRequest @ ge_error G data), a)
      | Some ns \<Rightarrow> on_world (deleteServices ns) a)"

definition handlePauseService ::
    "('r, 'o, 'v) agent_env \<Rightarrow> json \<Rightarrow> ('r, 'o, 'v) agent \<Rightarrow> go_error \<times> ('r, 'o, 'v) agent" where
  "handlePauseService G data a =
     (case services_request data of
        None \<Rightarrow> (Some (msgPauseRequest @ ge_error G data), a)
      | Some ns \<Rightarrow> on_world (pauseServices (ge_env G) ns) a)"

definition handleResumeService ::
    "('r, 'o, 'v) agent_env \<Rightarrow> json \<Rightarrow> ('r, 'o, 'v) agent \<Rightarrow> go_error \<times> ('r, 'o, 'v) agent" where
  "handleResumeService G data a =
     (case services_request data of
        None \<Rightarrow> (Some (msgResumeRequest @ ge_error G data), a)
      | Some ns \<Rightarrow> on_world (resumeServices (ge_env G) ns) a)"

section \<open>Chains and limiters\<close>

definition on_chains ::
    "(('o, 'v) store \<Rightarrow> go_error \<times> ('o, 'v) store) \<Rightarrow> ('r, 'o, 'v) agent \<Rightarrow> go_error \<times> ('r, 'o, 'v) agent" where
  "on_chains f a = (case f (ag_chains a) of (e, st) \<Rightarrow> (e, a\<lparr>ag_chains := st\<rparr>))"

definition on_limiters ::
    "(('o, 'v) store \<Rightarrow> go_error \<times> ('o, 'v) store) \<Rightarrow> ('r, 'o, 'v) agent \<Rightarrow> go_error \<times> ('r, 'o, 'v) agent" where
  "on_limiters f a = (case f (ag_limiters a) of (e, st) \<Rightarrow> (e, a\<lparr>ag_limiters := st\<rparr>))"

text \<open>
  An update is read as \<open>{"chain": name, "data": config}\<close> and, when that fails, as the bare
  configuration; a deletion as \<open>{"chain": name}\<close> or as the bare name.
\<close>

definition named_request ::
    "('r, 'o, 'v) agent_env \<Rightarrow> string \<Rightarrow> json \<Rightarrow> (string \<times> 'o object_config) option" where
  "named_request G key j =
     (case entries_of j of
        None \<Rightarrow> None
      | Some es \<Rightarrow>
          (case field_into key string_into es [] of
             None \<Rightarrow> None
           | Some n \<Rightarrow> map_option (Pair n) (field_into ''data'' (ge_object G) es (ge_zero G))))"

definition update_request ::
    "('r, 'o, 'v) agent_env \<Rightarrow> string \<Rightarrow> json \<Rightarrow> (string \<times> 'o object_config) option" where
  "update_request G key j =
     (case named_request G key j of
        Some r \<Rightarrow> Some r
      | None \<Rightarrow> map_option (\<lambda>c. (oc_name c, c)) (ge_object G j (ge_zero G)))"

definition delete_request :: "string \<Rightarrow> json \<Rightarrow> string option" where
  "delete_request key j =
     (case (case entries_of j of None \<Rightarrow> None | Some es \<Rightarrow> field_into key string_into es []) of
        Some n \<Rightarrow> Some n
      | None \<Rightarrow> string_into j [])"

definition handleAddChain ::
    "('r, 'o, 'v) agent_env \<Rightarrow> json \<Rightarrow> ('r, 'o, 'v) agent \<Rightarrow> go_error \<times> ('r, 'o, 'v) agent" where
  "handleAddChain G data a =
     (case ge_object G data (ge_zero G) of
        None \<Rightarrow> (Some (msgChainConfig @ ge_error G data), a)
      | Some c \<Rightarrow> on_chains (socket_createChain (ps_fallible (ge_parsers G) KChain) c) a)"

definition handleUpdateChain ::
    "('r, 'o, 'v) agent_env \<Rightarrow> json \<Rightarrow> ('r, 'o, 'v) agent \<Rightarrow> go_error \<times> ('r, 'o, 'v) agent" where
  "handleUpdateChain G data a =
     (case update_request G ''chain'' data of
        None \<Rightarrow> (Some (msgChainConfig @ ge_error G data), a)
      | Some (n, c) \<Rightarrow> on_chains (socket_updateChain (ps_fallible (ge_parsers G) KChain) n c) a)"

definition handleDeleteChain ::
    "('r, 'o, 'v) agent_env \<Rightarrow> json \<Rightarrow> ('r, 'o, 'v) agent \<Rightarrow> go_error \<times> ('r, 'o, 'v) agent" where
  "handleDeleteChain G data a =
     (case delete_request ''chain'' data of
        None \<Rightarrow> (Some (msgChainDelete @ ge_error G data), a)
      | Some n \<Rightarrow> on_chains (socket_deleteChain n) a)"

definition handleAddLimiter ::
    "('r, 'o, 'v) agent_env \<Rightarrow> json \<Rightarrow> ('r, 'o, 'v) agent \<Rightarrow> go_error \<times> ('r, 'o, 'v) agent" where
  "handleAddLimiter G data a =
     (case ge_object G data (ge_zero G) of
        None \<Rightarrow> (Some (msgLimiterConfig @ ge_error G data), a)
      | Some c \<Rightarrow> on_limiters (socket_createLimiter (ps_total (ge_parsers G) KLimiter) c) a)"

definition handleUpdateLimiter ::
    "('r, 'o, 'v) agent_env \<Rightarrow> json \<Rightarrow> ('r, 'o, 'v) agent \<Rightarrow> go_error \<times> ('r, 'o, 'v) agent" where
  "handleUpdateLimiter G data a =
     (case update_request G ''limiter'' data of
        None \<Rightarrow> (Some (msgLimiterConfig @ ge_error G data), a)
      | Some (n, c) \<Rightarrow> on_limiters (socket_updateLimiter (ps_total (ge_parsers G) KLimiter) n c) a)"

definition handleDeleteLimiter ::
    "('r, 'o, 'v) agent_env \<Rightarrow> json \<Rightarrow> ('r, 'o, 'v) agent \<Rightarrow> go_error \<times> ('r, 'o, 'v) agent" where
  "handleDeleteLimiter G data a =
     (case delete_request ''limiter'' data of
        None \<Rightarrow> (Some (msgLimiterDelete @ ge_error G data), a)
      | Some n \<Rightarrow> on_limiters (socket_deleteLimiter n) a)"

section \<open>TCP ping\<close>

record ping_request =
  pq_ip :: string
  pq_port :: int
  pq_count :: int
  pq_timeout :: int
  pq_requestId :: string

text \<open>
  The average time and the loss are floats computed at the end from the three integers kept here:
  connections made, attempts, and the nanoseconds of those made.
\<close>

record ping_response =
  pr_ip :: string
  pr_port :: int
  pr_success :: bool
  pr_made :: int
  pr_attempts :: int
  pr_time :: int
  pr_errorMessage :: string
  pr_requestId :: string

definition ping_decode :: "json \<Rightarrow> ping_request option" where
  "ping_decode j =
     (case entries_of j of
        None \<Rightarrow> None
      | Some es \<Rightarrow>
          (case (field_into ''ip'' string_into es [], field_into ''port'' int_into es 0,
                 field_into ''count'' int_into es 0, field_into ''timeout'' int_into es 0,
                 field_into ''requestId'' string_into es []) of
             (Some ip, Some port, Some count, Some timeout, Some rid) \<Rightarrow>
               Some \<lparr>pq_ip = ip, pq_port = port, pq_count = count, pq_timeout = timeout,
                     pq_requestId = rid\<rparr>
           | _ \<Rightarrow> None))"

definition host_char :: "char \<Rightarrow> bool" where
  "host_char c = (let n = (of_char c :: nat) in
     97 \<le> n \<and> n \<le> 122 \<or> 65 \<le> n \<and> n \<le> 90 \<or> 48 \<le> n \<and> n \<le> 57 \<or> n = 45 \<or> n = 46)"

definition isValidHostname :: "string \<Rightarrow> bool" where
  "isValidHostname h = (h \<noteq> [] \<and> length h \<le> 253 \<and> list_all host_char h)"

text \<open>The loop of \<open>tcpPingHost\<close>: \<open>k\<close> attempts left, the next is number \<open>i\<close>.\<close>

fun ping_loop :: "(nat \<Rightarrow> go_error \<times> int) \<Rightarrow> nat \<Rightarrow> nat \<Rightarrow> int \<Rightarrow> int \<Rightarrow> int \<times> int" where
  "ping_loop dial i 0 made time = (made, time)"
| "ping_loop dial i (Suc k) made time =
     (case dial i of
        (Some e, t) \<Rightarrow> ping_loop dial (Suc i) k made time
      | (None, t) \<Rightarrow> ping_loop dial (Suc i) k (made + 1) (time + t))"

definition tcpPingHost :: "(nat \<Rightarrow> go_error \<times> int) \<Rightarrow> int \<Rightarrow> (int \<times> int) \<times> go_error" where
  "tcpPingHost dial count =
     (case ping_loop dial 0 (nat count) 0 0 of
        (made, time) \<Rightarrow> (if made = 0 then ((0, 0), Some msgNoConnection) else ((made, time), nil_error)))"

definition refused_ping :: "ping_request \<Rightarrow> string \<Rightarrow> ping_response" where
  "refused_ping q msg =
     \<lparr>pr_ip = pq_ip q, pr_port = pq_port q, pr_success = False, pr_made = 0, pr_attempts = 0,
      pr_time = 0, pr_errorMessage = msg, pr_requestId = pq_requestId q\<rparr>"

definition empty_ping :: ping_response where
  "empty_ping = \<lparr>pr_ip = [], pr_port = 0, pr_success = False, pr_made = 0, pr_attempts = 0,
     pr_time = 0, pr_errorMessage = [], pr_requestId = []\<rparr>"

definition handleTcpPing ::
    "('r, 'o, 'v) agent_env \<Rightarrow> json \<Rightarrow> ping_response \<times> go_error" where
  "handleTcpPing G data =
     (case ping_decode data of
        None \<Rightarrow> (empty_ping, Some (msgPingRequest @ ge_error G data))
      | Some q \<Rightarrow>
          (if ParseIP (pq_ip q) = None \<and> \<not> isValidHostname (pq_ip q) then
             (refused_ping q msgBadHost, nil_error)
           else if pq_port q \<le> 0 \<or> pq_port q > 65535 then (refused_ping q msgBadPort, nil_error)
           else
             (let count = (if pq_count q \<le> 0 then 4 else pq_count q);
                  timeout = (if pq_timeout q \<le> 0 then 5000 else pq_timeout q);
                  target = JoinHostPort (pq_ip q) (FormatInt (pq_port q))
              in case tcpPingHost (ge_dial G target timeout) count of
                   ((made, time), Some e) \<Rightarrow> (refused_ping q e, nil_error)
                 | ((made, time), None) \<Rightarrow>
                     (\<lparr>pr_ip = pq_ip q, pr_port = pq_port q, pr_success = True, pr_made = made,
                       pr_attempts = count, pr_time = time, pr_errorMessage = [],
                       pr_requestId = pq_requestId q\<rparr>, nil_error))))"

section \<open>Routing a command\<close>

record command_message =
  cm_type :: string
  cm_data :: json
  cm_requestId :: string

record command_response =
  cr_type :: string
  cr_success :: bool
  cr_message :: string
  cr_data :: "ping_response option"
  cr_requestId :: string

text \<open>The commands that run on the state of the agent, with the type of their answer.\<close>

definition command_handler ::
    "('r, 'o, 'v) agent_env \<Rightarrow> string \<Rightarrow>
       ((json \<Rightarrow> ('r, 'o, 'v) agent \<Rightarrow> go_error \<times> ('r, 'o, 'v) agent) \<times> string) option" where
  "command_handler G t =
     (if t = ''AddService'' then Some (handleAddService G, ''AddServiceResponse'')
      else if t = ''UpdateService'' then Some (handleUpdateService G, ''UpdateServiceResponse'')
      else if t = ''DeleteService'' then Some (handleDeleteService G, ''DeleteServiceResponse'')
      else if t = ''PauseService'' then Some (handlePauseService G, ''PauseServiceResponse'')
      else if t = ''ResumeService'' then Some (handleResumeService G, ''ResumeServiceResponse'')
      else if t = ''AddChains'' then Some (handleAddChain G, ''AddChainsResponse'')
      else if t = ''UpdateChains'' then Some (handleUpdateChain G, ''UpdateChainsResponse'')
      else if t = ''DeleteChains'' then Some (handleDeleteChain G, ''DeleteChainsResponse'')
      else if t = ''AddLimiters'' then Some (handleAddLimiter G, ''AddLimitersResponse'')
      else if t = ''UpdateLimiters'' then Some (handleUpdateLimiter G, ''UpdateLimitersResponse'')
      else if t = ''DeleteLimiters'' then Some (handleDeleteLimiter G, ''DeleteLimitersResponse'')
      else None)"

definition routeCommand ::
    "('r, 'o, 'v) agent_env \<Rightarrow> command_message \<Rightarrow> ('r, 'o, 'v) agent \<Rightarrow>
       command_response \<times> ('r, 'o, 'v) agent" where
  "routeCommand G c a =
     (case (case command_handler G (cm_type c) of
              Some (h, t) \<Rightarrow> (case h (cm_data c) a of (e, a') \<Rightarrow> (e, t, None, a'))
            | None \<Rightarrow>
                (if cm_type c = ''TcpPing'' then
                   (case handleTcpPing G (cm_data c) of
                      (p, e) \<Rightarrow> (e, ''TcpPingResponse'', Some p, a))
                 else (Some (msgUnknown @ cm_type c), ''UnknownCommandResponse'', None, a))) of
        (e, t, d, a') \<Rightarrow>
          (\<lparr>cr_type = t, cr_success = (e = nil_error),
            cr_message = (case e of Some m \<Rightarrow> m | None \<Rightarrow> ''OK''), cr_data = d,
            cr_requestId = cm_requestId c\<rparr>, saveConfig G a'))"

end
