(* ===== verification/AgentSession.thy ===== *)
theory AgentSession
  imports AgentCommands
begin

text \<open>
  What the agent does with a websocket message, \<open>handleReceivedMessage\<close> of
  \<open>x/socket/websocket_reporter.go\<close>: taking it out of its encrypted or compressed wrapping and
  routing the command in it. The JSON parser, gzip and the cipher are parameters; the decoding of
  the small structs is that of \<open>Json\<close>.
\<close>

section \<open>Wrappers\<close>

fun any_into :: "json \<Rightarrow> json \<Rightarrow> json option" where
  "any_into j old = Some j"

text \<open>\<open>{"encrypted": bool, "data": string, "timestamp": int}\<close>\<close>

definition encrypted_wrapper :: "json \<Rightarrow> (bool \<times> string) option" where
  "encrypted_wrapper j =
     (case entries_of j of
        None \<Rightarrow> None
      | Some es \<Rightarrow>
          (case (field_into ''encrypted'' bool_into es False, field_into ''data'' string_into es [],
                 field_into ''timestamp'' int_into es 0) of
             (Some b, Some d, Some t) \<Rightarrow> Some (b, d)
           | _ \<Rightarrow> None))"

text \<open>\<open>{"type": string, "compressed": bool, "data": raw, "requestId": string}\<close>\<close>

definition compressed_wrapper :: "json \<Rightarrow> (string \<times> bool \<times> string) option" where
  "compressed_wrapper j =
     (case entries_of j of
        None \<Rightarrow> None
      | Some es \<Rightarrow>
          (case (field_into ''type'' string_into es [], field_into ''compressed'' bool_into es False,
                 field_into ''requestId'' string_into es []) of
             (Some t, Some b, Some r) \<Rightarrow> Some (t, b, r)
           | _ \<Rightarrow> None))"

definition command_of :: "json \<Rightarrow> command_message option" where
  "command_of j =
     (case entries_of j of
        None \<Rightarrow> None
      | Some es \<Rightarrow>
          (case (field_into ''type'' string_into es [], field_into ''data'' any_into es JNull,
                 field_into ''requestId'' string_into es []) of
             (Some t, Some d, Some r) \<Rightarrow> Some \<lparr>cm_type = t, cm_data = d, cm_requestId = r\<rparr>
           | _ \<Rightarrow> None))"

section \<open>Messages\<close>

text \<open>
  \<open>wi_parse\<close> parses a text, \<open>wi_raw\<close> is the text of the \<open>data\<close> field of a message, \<open>wi_gunzip\<close>
  decompresses, \<open>wi_open\<close> decrypts when the agent has a key, and \<open>wi_error\<close> is the text of a
  parse error.
\<close>

record wire =
  wi_parse :: "string \<Rightarrow> json option"
  wi_raw :: "string \<Rightarrow> string"
  wi_gunzip :: "string \<Rightarrow> string + string"
  wi_open :: "(string \<Rightarrow> string + string) option"
  wi_error :: "string \<Rightarrow> string"

definition msgDecrypt :: string where
  "msgDecrypt =
     bytes [0xE8, 0xA7, 0xA3, 0xE5, 0xAF, 0x86, 0xE5, 0xA4, 0xB1, 0xE8, 0xB4, 0xA5] @ '': ''"

definition msgNoDecryptor :: string where
  "msgNoDecryptor =
     bytes [0xE6, 0xB2, 0xA1, 0xE6, 0x9C, 0x89, 0xE5, 0x8F, 0xAF, 0xE7, 0x94, 0xA8, 0xE7, 0x9A,
     0x84, 0xE8, 0xA7, 0xA3, 0xE5, 0xAF, 0x86, 0xE5, 0x99, 0xA8]"

definition msgDecompress :: string where
  "msgDecompress =
     bytes [0xE8, 0xA7, 0xA3, 0xE5, 0x8E, 0x8B, 0xE5, 0xA4, 0xB1, 0xE8, 0xB4, 0xA5] @ '': ''"

definition msgCommand :: string where
  "msgCommand =
     bytes [0xE8, 0xA7, 0xA3, 0xE6, 0x9E, 0x90, 0xE5, 0x91, 0xBD, 0xE4, 0xBB, 0xA4, 0xE5, 0xA4,
     0xB1, 0xE8, 0xB4, 0xA5] @ '': ''"

definition error_response :: "string \<Rightarrow> string \<Rightarrow> command_response" where
  "error_response t msg =
     \<lparr>cr_type = t, cr_success = False, cr_message = msg, cr_data = None, cr_requestId = []\<rparr>"

definition parse_into :: "(json \<Rightarrow> 'a option) \<Rightarrow> wire \<Rightarrow> string \<Rightarrow> 'a option" where
  "parse_into dec W m = (case wi_parse W m of None \<Rightarrow> None | Some j \<Rightarrow> dec j)"

definition run_command ::
    "('r, 'o, 'v) agent_env \<Rightarrow> command_message \<Rightarrow> ('r, 'o, 'v) agent \<Rightarrow>
       command_response list \<times> ('r, 'o, 'v) agent" where
  "run_command G c a =
     (if cm_type c \<noteq> ''call'' then (case routeCommand G c a of (r, a') \<Rightarrow> ([r], a')) else ([], a))"

text \<open>The message after decryption.\<close>

definition receive_clear ::
    "('r, 'o, 'v) agent_env \<Rightarrow> wire \<Rightarrow> string \<Rightarrow> ('r, 'o, 'v) agent \<Rightarrow>
       command_response list \<times> ('r, 'o, 'v) agent" where
  "receive_clear G W m a =
     (case parse_into compressed_wrapper W m of
        Some (t, True, rid) \<Rightarrow>
          (case wi_gunzip W (wi_raw W m) of
             Inl e \<Rightarrow> ([error_response ''DecompressError'' (msgDecompress @ e)], a)
           | Inr text \<Rightarrow>
               (case wi_parse W text of
                  None \<Rightarrow> ([error_response ''ParseError'' (msgCommand @ wi_error W text)], a)
                | Some d \<Rightarrow> run_command G \<lparr>cm_type = t, cm_data = d, cm_requestId = rid\<rparr> a))
      | _ \<Rightarrow>
          (case parse_into command_of W m of
             None \<Rightarrow> ([error_response ''ParseError'' (msgCommand @ wi_error W m)], a)
           | Some c \<Rightarrow> run_command G c a))"

text \<open>Message type 1 is \<open>TextMessage\<close>.\<close>

definition handleReceivedMessage ::
    "('r, 'o, 'v) agent_env \<Rightarrow> wire \<Rightarrow> int \<Rightarrow> string \<Rightarrow> ('r, 'o, 'v) agent \<Rightarrow>
       command_response list \<times> ('r, 'o, 'v) agent" where
  "handleReceivedMessage G W messageType m a =
     (if messageType \<noteq> 1 then ([], a)
      else case parse_into encrypted_wrapper W m of
        Some (True, d) \<Rightarrow>
          (case wi_open W of
             None \<Rightarrow> ([error_response ''NoDecryptor'' msgNoDecryptor], a)
           | Some dec \<Rightarrow>
               (case dec d of
                  Inl e \<Rightarrow> ([error_response ''DecryptError'' (msgDecrypt @ e)], a)
                | Inr clear \<Rightarrow> receive_clear G W clear a))
      | _ \<Rightarrow> receive_clear G W m a)"

section \<open>What a message can do\<close>

definition is_encrypted :: "wire \<Rightarrow> string \<Rightarrow> bool" where
  "is_encrypted W m = (case parse_into encrypted_wrapper W m of Some (True, d) \<Rightarrow> True | _ \<Rightarrow> False)"

definition is_compressed :: "wire \<Rightarrow> string \<Rightarrow> bool" where
  "is_compressed W m = (case parse_into compressed_wrapper W m of Some (t, True, r) \<Rightarrow> True | _ \<Rightarrow> False)"

lemma parse_into_open [simp]: "parse_into dec (W\<lparr>wi_open := k\<rparr>) m = parse_into dec W m"
  by (simp add: parse_into_def)

lemma receive_clear_open [simp]: "receive_clear G (W\<lparr>wi_open := k\<rparr>) m a = receive_clear G W m a"
  by (simp add: receive_clear_def cong: option.case_cong prod.case_cong bool.case_cong sum.case_cong)

lemma receive_command:
  assumes "\<not> is_compressed W m" "parse_into command_of W m = Some c" "cm_type c \<noteq> ''call''"
  shows "receive_clear G W m a = ([fst (routeCommand G c a)], snd (routeCommand G c a))"
  using assms
  by (auto simp: receive_clear_def is_compressed_def run_command_def split: option.splits bool.splits prod.splits)

lemma receive_not_encrypted:
  "\<not> is_encrypted W m \<Longrightarrow> handleReceivedMessage G (W\<lparr>wi_open := k\<rparr>) 1 m a = receive_clear G W m a"
  by (auto simp: handleReceivedMessage_def is_encrypted_def split: option.splits bool.splits)

text \<open>
  The secret protects nothing that comes in. Whatever key the agent has, or none, a command
  sent in clear is routed and answered: who can reach the agent's connection needs no secret to
  create, change or delete its services.
\<close>

theorem clear_command_needs_no_key:
  assumes "\<not> is_encrypted W m" "\<not> is_compressed W m"
    and "parse_into command_of W m = Some c" "cm_type c \<noteq> ''call''"
  shows "handleReceivedMessage G (W\<lparr>wi_open := key\<rparr>) 1 m a =
    ([fst (routeCommand G c a)], snd (routeCommand G c a))"
  by (rule trans [OF receive_not_encrypted [OF assms(1)] receive_command [OF assms(2-4)]])

definition sample_agent_env :: "(unit, nat, nat) agent_env" where
  "sample_agent_env = \<lparr>ge_env = sample_env, ge_services = (\<lambda>j. Some []), ge_object = (\<lambda>j c. Some c),
     ge_zero = object_named [] 0, ge_parsers = sample_parsers, ge_duration = (\<lambda>s. None),
     ge_error = (\<lambda>j. ''json''), ge_create = True, ge_write = True, ge_dial = (\<lambda>t n i. (None, 1))\<rparr>"

definition sample_agent :: "(unit, nat, nat) agent" where
  "sample_agent = \<lparr>ag_world = one_world, ag_chains = store_a, ag_limiters = empty_store, ag_file = None\<rparr>"

definition delete_message :: json where
  "delete_message = JObj [(''type'', JStr ''DeleteService''),
     (''data'', JObj [(''services'', JArr [JStr ''a''])]), (''requestId'', JStr ''r1'')]"

definition sample_wire :: wire where
  "sample_wire = \<lparr>wi_parse = (\<lambda>s. if s = ''m'' then Some delete_message else None), wi_raw = (\<lambda>s. []),
     wi_gunzip = (\<lambda>s. Inl ''EOF''), wi_open = None, wi_error = (\<lambda>s. ''bad'')\<rparr>"

theorem clear_command_needs_no_key_witness:
  "let r = handleReceivedMessage sample_agent_env (sample_wire\<lparr>wi_open := Some (\<lambda>d. Inl ''no'')\<rparr>) 1 ''m'' sample_agent
   in w_reg (ag_world (snd r)) ''a'' = None \<and> map cr_success (fst r) = [True]"
proof -
  let ?c = "\<lparr>cm_type = ''DeleteService'', cm_data = JObj [(''services'', JArr [JStr ''a''])], cm_requestId = ''r1''\<rparr>"
  have "\<not> is_encrypted sample_wire ''m''" "\<not> is_compressed sample_wire ''m''"
    "parse_into command_of sample_wire ''m'' = Some ?c" "cm_type ?c \<noteq> ''call''"
    by code_simp+
  note r = clear_command_needs_no_key [OF this, of sample_agent_env _ sample_agent]
  have "w_reg (ag_world (snd (routeCommand sample_agent_env ?c sample_agent))) ''a'' = None"
    "cr_success (fst (routeCommand sample_agent_env ?c sample_agent))"
    by code_simp+
  then show ?thesis by (simp add: r Let_def)
qed

section \<open>Bare configurations\<close>

text \<open>
  The fallback of the update commands never sees an object: an object without the key \<open>chain\<close>
  decodes as a request for the empty name. A bare chain configuration is refused, although it
  names a chain.
\<close>

lemma bare_object_request:
  assumes "\<not> has_key key es" "\<not> has_key ''data'' es"
  shows "update_request G key (JObj es) = Some ([], ge_zero G)"
  using assms by (simp add: update_request_def named_request_def field_into_absent)

lemma bare_chain_update_refused:
  assumes "\<not> has_key ''chain'' es" "\<not> has_key ''data'' es" "st_reg (ag_chains a) [] = None"
  shows "handleUpdateChain G (JObj es) a = (Some ''chain  not found'', a)"
  using assms(3)
  by (simp add: handleUpdateChain_def bare_object_request [OF assms(1,2)] on_chains_def
      socket_updateChain_def IsRegistered_def Let_def)

section \<open>Compressed commands\<close>

definition json_starts :: string where
  "json_starts = ''{[tfn-0123456789'' @ [CHR 0x22]"

text \<open>
  Two documented facts about what the parameters stand for: the text of a JSON value starts with
  one of the characters above, and gzip refuses what does not start with its magic byte \<open>0x1f\<close>.
\<close>

definition raw_is_json :: "wire \<Rightarrow> bool" where
  "raw_is_json W = (\<forall>m. wi_raw W m = [] \<or> hd (wi_raw W m) \<in> set json_starts)"

definition gzip_has_magic :: "wire \<Rightarrow> bool" where
  "gzip_has_magic W = (\<forall>s t. wi_gunzip W s = Inr t \<longrightarrow> s \<noteq> [] \<and> hd s = CHR 0x1f)"

text \<open>
  A compressed command never runs. The agent hands the JSON text of the \<open>data\<close> field to the
  decompressor as it stands, and no JSON text is a gzip stream: every compressed message is
  answered with a \<open>DecompressError\<close> and changes nothing.
\<close>

theorem compressed_command_never_runs:
  assumes "raw_is_json W" "gzip_has_magic W" "is_compressed W m"
  shows "\<exists>e. receive_clear G W m a = ([error_response ''DecompressError'' (msgDecompress @ e)], a)"
proof -
  have "\<not> (\<exists>t. wi_gunzip W (wi_raw W m) = Inr t)"
  proof
    assume "\<exists>t. wi_gunzip W (wi_raw W m) = Inr t"
    then have "wi_raw W m \<noteq> []" "hd (wi_raw W m) = CHR 0x1f"
      using assms(2) by (auto simp: gzip_has_magic_def)
    moreover have "CHR 0x1f \<notin> set json_starts" by (simp add: json_starts_def)
    ultimately show False using assms(1) by (metis raw_is_json_def)
  qed
  then obtain e where "wi_gunzip W (wi_raw W m) = Inl e" by (cases "wi_gunzip W (wi_raw W m)") auto
  then show ?thesis
    using assms(3) by (auto simp: receive_clear_def is_compressed_def split: option.splits prod.splits bool.splits)
qed

definition compressed_message :: json where
  "compressed_message = JObj [(''type'', JStr ''DeleteService''), (''compressed'', JBool True),
     (''data'', JStr ''H4sI'')]"

definition compressed_wire :: wire where
  "compressed_wire = \<lparr>wi_parse = (\<lambda>s. if s = ''z'' then Some compressed_message else None),
     wi_raw = (\<lambda>s. if s = ''z'' then [CHR 0x22] @ ''H4sI'' @ [CHR 0x22] else []),
     wi_gunzip = (\<lambda>s. if s \<noteq> [] \<and> hd s = CHR 0x1f then Inr (tl s) else Inl ''gzip: invalid header''),
     wi_open = None, wi_error = (\<lambda>s. ''bad'')\<rparr>"

theorem compressed_command_never_runs_witness:
  "\<exists>e. receive_clear sample_agent_env compressed_wire ''z'' sample_agent =
     ([error_response ''DecompressError'' (msgDecompress @ e)], sample_agent)"
proof (rule compressed_command_never_runs)
  show "raw_is_json compressed_wire"
    by (simp add: raw_is_json_def compressed_wire_def json_starts_def)
  show "gzip_has_magic compressed_wire"
    by (simp add: gzip_has_magic_def compressed_wire_def)
  show "is_compressed compressed_wire ''z''" by code_simp
qed

end
