(* ===== verification/AgentInvariant.thy ===== *)
theory AgentInvariant
  imports AgentSession
begin

text \<open>
  Runs of the agent: whatever commands arrive, the live objects, the configurations and the file
  saved after every command stay together.
\<close>

section \<open>What a handler leaves\<close>

definition agent_ok :: "('r, 'o, 'v) agent \<Rightarrow> bool" where
  "agent_ok a \<longleftrightarrow> in_sync (ag_world a) \<and> store_ok (ag_chains a) \<and> store_ok (ag_limiters a)"

lemma on_world_ok:
  assumes "on_world f a = (e, a')" "agent_ok a"
    and "\<And>e' w'. f (ag_world a) = (e', w') \<Longrightarrow> e' = e \<Longrightarrow> in_sync w'"
  shows "agent_ok a'"
  using assms by (auto simp: on_world_def agent_ok_def split: prod.splits)

lemma on_chains_ok:
  assumes "on_chains f a = (e, a')" "agent_ok a" "\<And>st. store_ok st \<Longrightarrow> store_ok (snd (f st))"
  shows "agent_ok a'"
  using assms(1,2) assms(3) [of "ag_chains a"] by (auto simp: on_chains_def agent_ok_def split: prod.splits)

lemma on_limiters_ok:
  assumes "on_limiters f a = (e, a')" "agent_ok a" "\<And>st. store_ok st \<Longrightarrow> store_ok (snd (f st))"
  shows "agent_ok a'"
  using assms(1,2) assms(3) [of "ag_limiters a"] by (auto simp: on_limiters_def agent_ok_def split: prod.splits)

lemma socket_store_ok:
  fixes P :: "('o, 'v) parsers"
  assumes "store_ok st"
  shows "store_ok (snd (socket_createChain (ps_fallible P KChain) c st))"
    and "store_ok (snd (socket_updateChain (ps_fallible P KChain) n c st))"
    and "store_ok (snd (socket_deleteChain n st))"
    and "store_ok (snd (socket_createLimiter (ps_total P KLimiter) c st))"
    and "store_ok (snd (socket_updateLimiter (ps_total P KLimiter) n c st))"
    and "store_ok (snd (socket_deleteLimiter n st))"
  using crud.create_ok [OF assms, of P KChain c] crud.update_ok [OF assms, of P KChain n c]
    crud.delete_ok [OF assms, of KChain n] crud.create_ok [OF assms, of P KLimiter c]
    crud.update_ok [OF assms, of P KLimiter n c] crud.delete_ok [OF assms, of KLimiter n]
  by (simp_all add: chain_agree [symmetric] limiter_agree [symmetric])

text \<open>The commands whose failure may lose a service, by the name they travel under.\<close>

definition all_or_nothing :: "string \<Rightarrow> bool" where
  "all_or_nothing t \<longleftrightarrow> t \<noteq> ''UpdateService'' \<and> t \<noteq> ''ResumeService''"

lemma exec_on_world_ok:
  assumes "on_world (exec E c) a = (e, a')" "agent_ok a" "e = None \<or> atomic_on_failure c"
  shows "agent_ok a'"
  using on_world_ok [OF assms(1,2)] run_step_in_sync [of E c "ag_world a"] assms(2,3)
  unfolding agent_ok_def by metis

lemma exec_partial:
  "exec E (CreateServices cs) = createServices E cs"
  "exec E (UpdateServices cs) = updateServices E cs"
  "exec E (DeleteServices ns) = deleteServices ns"
  "exec E (PauseServices ns) = pauseServices E ns"
  "exec E (ResumeServices ns) = resumeServices E ns"
  by (rule ext, simp)+

lemmas exec_ok = exec_on_world_ok [where c = "CreateServices cs" for cs, unfolded exec_partial]
  exec_on_world_ok [where c = "UpdateServices cs" for cs, unfolded exec_partial]
  exec_on_world_ok [where c = "DeleteServices ns" for ns, unfolded exec_partial]
  exec_on_world_ok [where c = "PauseServices ns" for ns, unfolded exec_partial]
  exec_on_world_ok [where c = "ResumeServices ns" for ns, unfolded exec_partial]

lemma service_handlers_ok:
  assumes "agent_ok a"
  shows "handleAddService G data a = (e, a') \<Longrightarrow> agent_ok a'"
    and "handleUpdateService G data a = (None, a') \<Longrightarrow> agent_ok a'"
    and "handleDeleteService G data a = (e, a') \<Longrightarrow> agent_ok a'"
    and "handlePauseService G data a = (e, a') \<Longrightarrow> agent_ok a'"
    and "handleResumeService G data a = (None, a') \<Longrightarrow> agent_ok a'"
  using assms
  by (auto simp: handleAddService_def handleUpdateService_def handleDeleteService_def
      handlePauseService_def handleResumeService_def split: option.splits intro: exec_ok)

lemma object_handlers_ok:
  assumes "agent_ok a"
  shows "handleAddChain G data a = (e, a') \<Longrightarrow> agent_ok a'"
    and "handleUpdateChain G data a = (e, a') \<Longrightarrow> agent_ok a'"
    and "handleDeleteChain G data a = (e, a') \<Longrightarrow> agent_ok a'"
    and "handleAddLimiter G data a = (e, a') \<Longrightarrow> agent_ok a'"
    and "handleUpdateLimiter G data a = (e, a') \<Longrightarrow> agent_ok a'"
    and "handleDeleteLimiter G data a = (e, a') \<Longrightarrow> agent_ok a'"
  using assms
  by (auto simp: handleAddChain_def handleUpdateChain_def handleDeleteChain_def
      handleAddLimiter_def handleUpdateLimiter_def handleDeleteLimiter_def split: option.splits
      intro: on_chains_ok on_limiters_ok socket_store_ok)

lemma command_handler_ok:
  assumes "command_handler G t = Some (h, answer)" "h data a = (e, a')" "agent_ok a"
    and "e = None \<or> all_or_nothing t"
  shows "agent_ok a'"
proof -
  have "h \<in> {handleAddService G, handleDeleteService G, handlePauseService G, handleAddChain G, handleUpdateChain G,
      handleDeleteChain G, handleAddLimiter G, handleUpdateLimiter G, handleDeleteLimiter G} \<or>
    h \<in> {handleUpdateService G, handleResumeService G} \<and> \<not> all_or_nothing t"
    using assms(1) unfolding command_handler_def all_or_nothing_def
    by (simp only: insert_iff split: if_split_asm) (simp_all only: simp_thms option.inject prod.inject option.distinct)
  then show ?thesis
    using assms(2,4) service_handlers_ok [OF assms(3), of G data] object_handlers_ok [OF assms(3), of G data]
    by blast
qed

lemma saveConfig_ok [simp]: "agent_ok (saveConfig G a) = agent_ok a"
  by (simp add: saveConfig_def agent_ok_def)

lemma saveConfig_file:
  "ge_create G \<Longrightarrow> ge_write G \<Longrightarrow>
   ag_file (saveConfig G a) = Some (w_cfgs (ag_world (saveConfig G a)),
     st_cfgs (ag_chains (saveConfig G a)), st_cfgs (ag_limiters (saveConfig G a)))"
  by (simp add: saveConfig_def)

lemma routeCommand_ok:
  assumes "routeCommand G c a = (r, a')" "agent_ok a" "cr_success r \<or> all_or_nothing (cm_type c)"
  shows "agent_ok a'"
proof (cases "command_handler G (cm_type c)")
  case None
  then show ?thesis using assms(1,2) by (auto simp: routeCommand_def split: if_splits prod.splits)
next
  case (Some ht)
  obtain h t where ht: "ht = (h, t)" by (cases ht)
  obtain e b where b: "h (cm_data c) a = (e, b)" by fastforce
  have r: "a' = saveConfig G b" "cr_success r = (e = None)"
    using assms(1) Some ht b by (auto simp: routeCommand_def)
  have "agent_ok b" using command_handler_ok [OF Some [unfolded ht] b assms(2)] assms(3) r(2) by blast
  then show ?thesis by (simp add: r(1))
qed

lemma routeCommand_saves:
  assumes "routeCommand G c a = (r, a')"
  obtains b where "a' = saveConfig G b"
  using assms by (auto simp: routeCommand_def split: option.splits prod.splits if_splits)

section \<open>Runs\<close>

text \<open>
  An agent reached from one without services, chains and limiters by commands, as long as no
  update or resume of services fails.
\<close>

inductive agent_reached :: "('r, 'o, 'v) agent_env \<Rightarrow> nat \<Rightarrow> ('r, 'o, 'v) agent \<Rightarrow> bool" for G where
  start: "w_reg (ag_world a) = Map.empty \<Longrightarrow> w_cfgs (ag_world a) = [] \<Longrightarrow>
    st_reg (ag_chains a) = Map.empty \<Longrightarrow> st_cfgs (ag_chains a) = [] \<Longrightarrow>
    st_reg (ag_limiters a) = Map.empty \<Longrightarrow> st_cfgs (ag_limiters a) = [] \<Longrightarrow> agent_reached G 0 a"
| command: "agent_reached G n a \<Longrightarrow> routeCommand G c a = (r, a') \<Longrightarrow>
    cr_success r \<or> all_or_nothing (cm_type c) \<Longrightarrow> agent_reached G (Suc n) a'"

inductive_cases agent_reached_SucE: "agent_reached G (Suc n) a"

lemma agent_reached_ok: "agent_reached G n a \<Longrightarrow> agent_ok a"
proof (induction rule: agent_reached.induct)
  case (start a)
  then show ?case by (simp add: agent_ok_def in_sync_def store_ok_def)
next
  case (command n a c r a')
  then show ?case by (blast intro: routeCommand_ok)
qed

text \<open>
  (C1) The agent keeps its word about what is configured. After any run of commands of the panel
  in which no update or resume of services fails, failed commands of every other type included,
  exactly the configured services, chains and limiters are registered, each name is configured
  once, and once a command has been answered the file on disk holds exactly these
  configurations, as long as it can be written.
\<close>

theorem agent_keeps_in_step:
  assumes "agent_reached G n a"
  shows "dom (w_reg (ag_world a)) = sc_name ` set (w_cfgs (ag_world a)) \<and>
    distinct (map sc_name (w_cfgs (ag_world a))) \<and>
    dom (st_reg (ag_chains a)) = set (cfg_names (ag_chains a)) \<and> distinct (cfg_names (ag_chains a)) \<and>
    dom (st_reg (ag_limiters a)) = set (cfg_names (ag_limiters a)) \<and> distinct (cfg_names (ag_limiters a)) \<and>
    (0 < n \<and> ge_create G \<and> ge_write G \<longrightarrow>
       ag_file a = Some (w_cfgs (ag_world a), st_cfgs (ag_chains a), st_cfgs (ag_limiters a)))"
proof -
  have ok: "agent_ok a" using assms by (rule agent_reached_ok)
  have "ag_file a = Some (w_cfgs (ag_world a), st_cfgs (ag_chains a), st_cfgs (ag_limiters a))"
    if "0 < n" "ge_create G" "ge_write G"
  proof -
    obtain m where "n = Suc m" using \<open>0 < n\<close> by (cases n) auto
    with assms obtain b c r where "routeCommand G c b = (r, a)" by (auto elim: agent_reached_SucE)
    then show ?thesis using saveConfig_file that(2,3) by (metis routeCommand_saves)
  qed
  then show ?thesis using ok by (auto simp: agent_ok_def in_sync_def store_ok_def)
qed

definition blank_agent :: "(unit, nat, nat) agent" where
  "blank_agent = \<lparr>ag_world = empty_world, ag_chains = empty_store, ag_limiters = empty_store, ag_file = None\<rparr>"

definition add_chain :: command_message where
  "add_chain = \<lparr>cm_type = ''AddChains'', cm_data = JNull, cm_requestId = ''r''\<rparr>"

definition chain_env :: "(unit, nat, nat) agent_env" where
  "chain_env = sample_agent_env\<lparr>ge_zero := object_named ''c'' 7\<rparr>"

theorem agent_keeps_in_step_witness:
  "let a = snd (routeCommand chain_env add_chain blank_agent)
   in cfg_names (ag_chains a) = [''c''] \<and> dom (st_reg (ag_chains a)) = {''c''} \<and>
      ag_file a = Some ([], [object_named ''c'' 7], [])"
proof -
  let ?r = "routeCommand chain_env add_chain blank_agent"
  have "agent_reached chain_env 0 blank_agent"
    by (rule agent_reached.start) (simp_all add: blank_agent_def empty_world_def empty_store_def)
  moreover have "cr_success (fst ?r)" by code_simp
  ultimately have "agent_reached chain_env (Suc 0) (snd ?r)"
    using agent_reached.command [of chain_env 0 blank_agent add_chain "fst ?r" "snd ?r"] by simp
  note k = agent_keeps_in_step [OF this]
  have c: "cfg_names (ag_chains (snd ?r)) = [''c'']" by code_simp
  have s: "st_cfgs (ag_chains (snd ?r)) = [object_named ''c'' 7]" "w_cfgs (ag_world (snd ?r)) = []"
    "st_cfgs (ag_limiters (snd ?r)) = []"
    by code_simp+
  have "ge_create chain_env" "ge_write chain_env" by (simp_all add: chain_env_def sample_agent_env_def)
  then have "ag_file (snd ?r) = Some ([], [object_named ''c'' 7], [])"
    using k s by simp
  moreover have "dom (st_reg (ag_chains (snd ?r))) = {''c''}" using k c by simp
  ultimately show ?thesis using c by (simp add: Let_def)
qed

end
