(* ===== verification/AgentConnection.thy ===== *)
theory AgentConnection
  imports Prelude
begin

text \<open>
  The websocket connection of the agent to the panel, \<open>run\<close>, \<open>connect\<close>, \<open>handleConnection\<close> and
  \<open>receiveMessages\<close> of \<open>x/socket/websocket_reporter.go\<close>. One goroutine connects and sends, and
  each connection it serves starts a goroutine that receives; they share the connection and the
  flag \<open>connected\<close> under a mutex. A step is what happens between two moments at which another
  goroutine can be seen.
\<close>

section \<open>State\<close>

text \<open>
  The main goroutine is at the top of \<open>run\<close>, between \<open>connect\<close> and the test of \<open>connected\<close>, or in
  the sending loop. A receiver is at the top of its loop, reads from the connection it has picked
  up, has seen a read fail, or has returned.
\<close>

datatype main_pc = MTop | MTest | MServing

datatype recv_pc = RTop | RRead nat | RFailed | RDone

record ws =
  ws_conn :: "nat option"
  ws_connected :: bool
  ws_main :: main_pc
  ws_recv :: "recv_pc list"
  ws_opened :: nat
  ws_closed :: "nat list"

definition ws_start :: ws where
  "ws_start = \<lparr>ws_conn = None, ws_connected = False, ws_main = MTop, ws_recv = [], ws_opened = 0,
     ws_closed = []\<rparr>"

section \<open>Steps\<close>

text \<open>\<open>connect\<close> holds the mutex throughout; \<open>okay\<close> says whether dialling succeeds.\<close>

definition ws_connect :: "bool \<Rightarrow> ws \<Rightarrow> ws" where
  "ws_connect okay s =
     (if ws_connected s then s
      else if okay then s\<lparr>ws_conn := Some (ws_opened s), ws_connected := True,
                          ws_opened := Suc (ws_opened s)\<rparr>
      else s)"

text \<open>The deferred end of \<open>handleConnection\<close>.\<close>

definition ws_close :: "ws \<Rightarrow> ws" where
  "ws_close s =
     s\<lparr>ws_closed := ws_closed s @ (case ws_conn s of None \<Rightarrow> [] | Some c \<Rightarrow> [c]),
       ws_conn := None, ws_connected := False, ws_main := MTop\<rparr>"

text \<open>
  One step of the main goroutine: dialling, the test after it, or a tick of the sending loop, where
  \<open>okay\<close> says whether the write succeeds.
\<close>

fun main_step :: "bool \<Rightarrow> ws \<Rightarrow> ws" where
  "main_step okay s =
     (case ws_main s of
        MTop \<Rightarrow>
          (if ws_connected s \<or> okay then (ws_connect okay s)\<lparr>ws_main := MTest\<rparr> else s)
      | MTest \<Rightarrow>
          (if ws_connected s then s\<lparr>ws_main := MServing, ws_recv := ws_recv s @ [RTop]\<rparr>
           else s\<lparr>ws_main := MTop\<rparr>)
      | MServing \<Rightarrow>
          (if \<not> ws_connected s then ws_close s
           else if ws_conn s = None then ws_close s
           else if okay then s
           else ws_close (s\<lparr>ws_connected := False\<rparr>)))"

text \<open>
  One step of a receiver: \<open>okay\<close> says whether the read brings a message, which is handled before
  the loop starts again; the read of a closed connection fails.
\<close>

fun recv_step :: "nat \<Rightarrow> bool \<Rightarrow> ws \<Rightarrow> ws" where
  "recv_step i okay s =
     (if i \<ge> length (ws_recv s) then s
      else case ws_recv s ! i of
        RTop \<Rightarrow>
          (case ws_conn s of
             Some c \<Rightarrow> s\<lparr>ws_recv := (ws_recv s)[i := if ws_connected s then RRead c else RDone]\<rparr>
           | None \<Rightarrow> s\<lparr>ws_recv := (ws_recv s)[i := RDone]\<rparr>)
      | RRead c \<Rightarrow>
          s\<lparr>ws_recv := (ws_recv s)[i := if okay \<and> c \<notin> set (ws_closed s) then RTop else RFailed]\<rparr>
      | RFailed \<Rightarrow> s\<lparr>ws_connected := False, ws_recv := (ws_recv s)[i := RDone]\<rparr>
      | RDone \<Rightarrow> s)"

datatype ws_event = EvMain bool | EvRecv nat bool

fun ws_step :: "ws_event \<Rightarrow> ws \<Rightarrow> ws" where
  "ws_step (EvMain okay) s = main_step okay s"
| "ws_step (EvRecv i okay) s = recv_step i okay s"

definition ws_run :: "ws_event list \<Rightarrow> ws \<Rightarrow> ws" where
  "ws_run evs s = foldl (\<lambda>t e. ws_step e t) s evs"

lemma ws_run_simps [simp]:
  "ws_run [] s = s"
  "ws_run (e # es) s = ws_run es (ws_step e s)"
  by (simp_all add: ws_run_def)

section \<open>What holds in every run\<close>

text \<open>
  While the agent is connected it has a connection that was opened and not closed, and when it has
  none it is not connected.
\<close>

definition ws_ok :: "ws \<Rightarrow> bool" where
  "ws_ok s \<longleftrightarrow> (ws_connected s \<longrightarrow> ws_conn s \<noteq> None) \<and>
     (\<forall>c. ws_conn s = Some c \<longrightarrow> c < ws_opened s \<and> c \<notin> set (ws_closed s)) \<and>
     (\<forall>c\<in>set (ws_closed s). c < ws_opened s) \<and> distinct (ws_closed s)"

lemma ws_close_ok: "ws_ok s \<Longrightarrow> ws_ok (ws_close s)"
  by (auto simp: ws_ok_def ws_close_def split: option.splits)

lemma ws_ok_disconnected: "ws_ok s \<Longrightarrow> ws_ok (s\<lparr>ws_connected := False\<rparr>)"
  by (simp add: ws_ok_def)

lemma ws_ok_frame [simp]:
  "ws_ok (s\<lparr>ws_main := m\<rparr>) = ws_ok s"
  "ws_ok (s\<lparr>ws_recv := r\<rparr>) = ws_ok s"
  by (simp_all add: ws_ok_def)

lemma ws_connect_ok: "ws_ok s \<Longrightarrow> ws_ok (ws_connect okay s)"
  by (auto simp: ws_ok_def ws_connect_def less_Suc_eq)

lemma main_step_ok: "ws_ok s \<Longrightarrow> ws_ok (main_step okay s)"
  by (cases "ws_main s") (auto simp: ws_connect_ok ws_close_ok ws_ok_disconnected)

lemma recv_step_ok: "ws_ok s \<Longrightarrow> ws_ok (recv_step i okay s)"
  by (auto simp: ws_ok_disconnected split: recv_pc.splits option.splits)

lemma ws_run_ok: "ws_ok s \<Longrightarrow> ws_ok (ws_run evs s)"
proof (induction evs arbitrary: s)
  case (Cons e evs)
  then have "ws_ok (ws_step e s)" by (cases e) (simp_all add: main_step_ok recv_step_ok del: main_step.simps recv_step.simps)
  then show ?case using Cons.IH by simp
qed simp

lemma ws_start_ok: "ws_ok ws_start"
  by (simp add: ws_ok_def ws_start_def)

lemma connected_conn_open:
  "ws_connected (ws_run evs ws_start) \<Longrightarrow>
   \<exists>c. ws_conn (ws_run evs ws_start) = Some c \<and> c \<notin> set (ws_closed (ws_run evs ws_start))"
  using ws_run_ok [OF ws_start_ok, of evs] by (auto simp: ws_ok_def)

section \<open>The receiver of a closed connection\<close>

text \<open>
  A receiver that still reads from a connection the agent has given up disconnects the next
  one. From any state in which a receiver reads the served connection, if a write fails and the
  agent reconnects before that receiver notices, the receiver clears \<open>connected\<close> for the new
  connection, on which nothing has failed, and the sending loop closes it at its next tick.
\<close>

theorem stale_receiver_closes_new_connection:
  assumes "ws_main s = MServing" "ws_connected s" "ws_conn s = Some c"
    and "i < length (ws_recv s)" "ws_recv s ! i = RRead c"
  shows "let s' = ws_run [EvMain False, EvMain True, EvMain True] s;
             t = ws_run [EvRecv i False, EvRecv i False, EvMain True] s'
         in ws_conn s' = Some (ws_opened s) \<and> ws_connected s' \<and> ws_main s' = MServing \<and>
            ws_conn t = None \<and> ws_closed t = ws_closed s @ [c, ws_opened s]"
proof -
  obtain r k cl where s: "s = \<lparr>ws_conn = Some c, ws_connected = True, ws_main = MServing, ws_recv = r,
      ws_opened = k, ws_closed = cl\<rparr>"
    using assms(1-3) by (cases s) auto
  have r: "i < length r" "r ! i = RRead c" using assms(4,5) by (simp_all add: s)
  let ?s' = "\<lparr>ws_conn = Some k, ws_connected = True, ws_main = MServing, ws_recv = r @ [RTop],
      ws_opened = Suc k, ws_closed = cl @ [c]\<rparr>"
  have "ws_run [EvMain False, EvMain True, EvMain True] s = ?s'"
    by (simp add: s ws_close_def ws_connect_def)
  moreover have "recv_step i False ?s' = ?s'\<lparr>ws_recv := (r @ [RTop])[i := RFailed]\<rparr>"
    using r by (simp add: nth_append)
  moreover have "recv_step i False (?s'\<lparr>ws_recv := (r @ [RTop])[i := RFailed]\<rparr>) =
      ?s'\<lparr>ws_connected := False, ws_recv := (r @ [RTop])[i := RDone]\<rparr>"
    using r by simp
  ultimately show ?thesis by (simp add: ws_close_def Let_def s del: recv_step.simps)
qed

definition serving :: ws where
  "serving = ws_run [EvMain True, EvMain True, EvRecv 0 True] ws_start"

theorem stale_receiver_closes_new_connection_witness:
  "ws_closed (ws_run [EvRecv 0 False, EvRecv 0 False, EvMain True]
     (ws_run [EvMain False, EvMain True, EvMain True] serving)) = [0, 1]"
proof -
  have "ws_main serving = MServing" "ws_connected serving" "ws_conn serving = Some 0"
    "0 < length (ws_recv serving)" "ws_recv serving ! 0 = RRead 0"
    by code_simp+
  note stale_receiver_closes_new_connection [OF this]
  moreover have "ws_closed serving = []" "ws_opened serving = 1" by code_simp+
  ultimately show ?thesis by (simp add: Let_def del: ws_run_simps)
qed

end
