(* ===== verification/Loaders.thy ===== *)
theory Loaders
  imports Strconv
begin

text \<open>
  Lists of patterns from files, redis and http, as bypasses, admissions, limiters, hosts and the
  other rule sets read them (\<open>load\<close>, \<open>parsePatterns\<close> and \<open>parseLine\<close> of their files). What a
  loader brings is a parameter: nothing when there is none, a list, or a text.
\<close>

section \<open>Lines\<close>

text \<open>\<open>parseLine\<close>: what stands before the first \<open>#\<close>, without the blanks around it.\<close>

definition parseLine :: "string \<Rightarrow> string" where
  "parseLine s = TrimSpace (case IndexByte s CHR ''#'' of None \<Rightarrow> s | Some n \<Rightarrow> take n s)"

text \<open>The lines of a \<open>bufio.Scanner\<close>: without their ends, and without an empty line at the end.\<close>

definition drop_cr :: "string \<Rightarrow> string" where
  "drop_cr l = (if l \<noteq> [] \<and> last l = CHR 0x0D then butlast l else l)"

definition scan_lines :: "string \<Rightarrow> string list" where
  "scan_lines s =
     (let ls = Split s CHR 0x0A
      in map drop_cr (if last ls = [] then butlast ls else ls))"

definition nonempty :: "string list \<Rightarrow> string list" where
  "nonempty ls = filter (\<lambda>l. l \<noteq> []) ls"

definition parsePatterns :: "string option \<Rightarrow> string list" where
  "parsePatterns r = (case r of None \<Rightarrow> [] | Some s \<Rightarrow> nonempty (map parseLine (scan_lines s)))"

section \<open>Loaders\<close>

text \<open>
  A loader that is a \<open>Lister\<close> gives a list, another a reader or nothing; an error is logged and
  leaves what came with it.
\<close>

datatype source = Absent | Listed "string list" | Reader "string option"

record loaders =
  ld_file :: source
  ld_redis :: source
  ld_http :: source

definition no_loaders :: loaders where
  "no_loaders = \<lparr>ld_file = Absent, ld_redis = Absent, ld_http = Absent\<rparr>"

fun file_patterns :: "source \<Rightarrow> string list" where
  "file_patterns Absent = []"
| "file_patterns (Listed ls) = nonempty (map parseLine ls)"
| "file_patterns (Reader r) = parsePatterns r"

text \<open>A redis list is taken as it is.\<close>

fun redis_patterns :: "source \<Rightarrow> string list" where
  "redis_patterns Absent = []"
| "redis_patterns (Listed ls) = ls"
| "redis_patterns (Reader r) = parsePatterns r"

text \<open>The http loader is always read as a text.\<close>

fun http_patterns :: "source \<Rightarrow> string list" where
  "http_patterns (Reader r) = parsePatterns r"
| "http_patterns _ = []"

definition load_patterns :: "loaders \<Rightarrow> string list" where
  "load_patterns l = file_patterns (ld_file l) @ redis_patterns (ld_redis l) @ http_patterns (ld_http l)"

section \<open>Facts\<close>

lemma parseLine_idem: "CHR ''#'' \<notin> set s \<Longrightarrow> parseLine s = TrimSpace s"
  using IndexByte_None [of s "CHR ''#''"] by (simp add: parseLine_def)

lemma nonempty_mem [simp]: "l \<in> set (nonempty ls) \<longleftrightarrow> l \<in> set ls \<and> l \<noteq> []"
  by (simp add: nonempty_def)

text \<open>A comment is no pattern: what a file or a text brings holds no \<open>#\<close> and is not empty.\<close>

lemma take_index_no_byte: "IndexByte s c = Some n \<Longrightarrow> c \<notin> set (take n s)"
  by (induction s c arbitrary: n rule: IndexByte.induct) (auto split: if_splits)

lemma set_TrimSpace: "set (TrimSpace s) \<subseteq> set s"
proof -
  have "set (dropWhile isSpace xs) \<subseteq> set xs" for xs by (rule set_dropWhileD [THEN subsetI])
  then show ?thesis unfolding TrimSpace_def TrimLeft_def
    by (metis (no_types, lifting) order_trans set_rev)
qed

lemma parseLine_no_comment: "CHR ''#'' \<notin> set (parseLine s)"
proof (cases "IndexByte s CHR ''#''")
  case None
  then have "CHR ''#'' \<notin> set s" by (simp add: IndexByte_None)
  then show ?thesis using set_TrimSpace [of s] None by (auto simp: parseLine_def)
next
  case (Some n)
  then show ?thesis using take_index_no_byte [OF Some] set_TrimSpace [of "take n s"]
    by (auto simp: parseLine_def)
qed

lemma parsePatterns_clean: "p \<in> set (parsePatterns r) \<Longrightarrow> p \<noteq> [] \<and> CHR ''#'' \<notin> set p"
  by (auto simp: parsePatterns_def parseLine_no_comment split: option.splits)

end
