(* ===== verification/Matcher.thy ===== *)
theory Matcher
  imports GoNet Loaders
begin

text \<open>
  The matchers behind bypasses, admissions and hosts, \<open>x/internal/matcher/matcher.go\<close>, with the
  port and address ranges of \<open>x/internal/net/addr.go\<close>. Globs (\<open>gobwas/glob\<close>) and the lookup of
  networks (\<open>cidranger\<close>) are parameters.
\<close>

section \<open>Ranges\<close>

record port_range =
  pg_min :: int
  pg_max :: int

text \<open>A port on its own is checked, the bounds of a range are not.\<close>

definition PortRange_Parse :: "string \<Rightarrow> port_range option" where
  "PortRange_Parse s =
     (case Split s CHR ''-'' of
        [a] \<Rightarrow>
          (case Atoi s of
             (n, None) \<Rightarrow> if n < 0 \<or> n > 65535 then None else Some \<lparr>pg_min = n, pg_max = n\<rparr>
           | _ \<Rightarrow> None)
      | [a, b] \<Rightarrow>
          (case (Atoi a, Atoi b) of
             ((m, None), (n, None)) \<Rightarrow> Some \<lparr>pg_min = m, pg_max = n\<rparr>
           | _ \<Rightarrow> None)
      | _ \<Rightarrow> None)"

definition PortRange_Contains :: "port_range \<Rightarrow> int \<Rightarrow> bool" where
  "PortRange_Contains pr port = (port \<ge> pg_min pr \<and> port \<le> pg_max pr)"

text \<open>\<open>AddrPortRange.Addrs\<close> keeps the zero range when the ports do not parse.\<close>

definition AddrPortRange_Addrs :: "string \<Rightarrow> string list" where
  "AddrPortRange_Addrs p =
     (if ContainsSub p ''://'' then []
      else case SplitHostPort p of
        None \<Rightarrow> []
      | Some (h, sp) \<Rightarrow>
          (let pr = (case PortRange_Parse sp of Some r \<Rightarrow> r | None \<Rightarrow> \<lparr>pg_min = 0, pg_max = 0\<rparr>)
           in map (\<lambda>i. JoinHostPort h (FormatInt i)) [pg_min pr..pg_max pr]))"

record ip_range =
  ir_min :: addr
  ir_max :: addr

definition IPRange_Parse :: "string \<Rightarrow> ip_range option" where
  "IPRange_Parse s =
     (case Split s CHR ''-'' of
        [a] \<Rightarrow> map_option (\<lambda>x. \<lparr>ir_min = x, ir_max = x\<rparr>) (ParseAddr (TrimSpace s))
      | [a, b] \<Rightarrow>
          (case (ParseAddr (TrimSpace a), ParseAddr (TrimSpace b)) of
             (Some x, Some y) \<Rightarrow> Some \<lparr>ir_min = x, ir_max = y\<rparr>
           | _ \<Rightarrow> None)
      | _ \<Rightarrow> None)"

definition IPRange_Contains :: "ip_range \<Rightarrow> addr \<Rightarrow> bool" where
  "IPRange_Contains r a = (\<not> (a < ir_min r \<or> ir_max r < a))"

section \<open>Matchers\<close>

definition host_or_all :: "string \<Rightarrow> string" where
  "host_or_all a = (if split_host a \<noteq> [] then split_host a else a)"

definition port_number :: "string \<Rightarrow> int" where
  "port_number a = fst (Atoi (split_port a))"

text \<open>The loop over the suffixes of a host that start with a dot, the whole host excepted.\<close>

function suffix_hit :: "(string \<Rightarrow> bool) \<Rightarrow> string \<Rightarrow> bool" where
  "suffix_hit hit host =
     (case IndexByte host CHR ''.'' of
        None \<Rightarrow> False
      | Some i \<Rightarrow>
          if i > 0 then hit (drop i host) \<or> suffix_hit hit (drop (Suc i) host) else False)"
  by pat_completeness auto
termination by (relation "measure (\<lambda>(h, s). length s)") (auto dest: IndexByte_Some)

declare suffix_hit.simps [simp del]

type_synonym addr_map = "string \<Rightarrow> port_range option option"

fun AddrMatcher :: "string list \<Rightarrow> addr_map \<Rightarrow> addr_map" where
  "AddrMatcher [] m = m"
| "AddrMatcher (a # as) m =
     AddrMatcher as
       (if split_host a = [] then m(a \<mapsto> None)
        else m(split_host a \<mapsto> PortRange_Parse (split_port a)))"

definition port_ok :: "addr_map \<Rightarrow> int \<Rightarrow> string \<Rightarrow> bool" where
  "port_ok m port host =
     (case m host of
        None \<Rightarrow> False
      | Some None \<Rightarrow> True
      | Some (Some pr) \<Rightarrow> PortRange_Contains pr port)"

definition addr_Match :: "addr_map \<Rightarrow> string \<Rightarrow> bool" where
  "addr_Match m a =
     (let host = host_or_all a; port = port_number a
      in port_ok m port host \<or> port_ok m port (CHR ''.'' # host) \<or> suffix_hit (port_ok m port) host)"

definition domain_Match :: "string set \<Rightarrow> string \<Rightarrow> bool" where
  "domain_Match D domain \<longleftrightarrow>
     domain \<in> D \<or> CHR ''.'' # domain \<in> D \<or> suffix_hit (\<lambda>s. s \<in> D) domain"

text \<open>\<open>glob\<close> compiles a pattern; \<open>MustCompile\<close> panics where it gives \<open>None\<close>.\<close>

type_synonym glob = "string \<Rightarrow> (string \<Rightarrow> bool) option"

fun WildcardMatcher :: "glob \<Rightarrow> string list \<Rightarrow> ((string \<Rightarrow> bool) \<times> port_range option) list option" where
  "WildcardMatcher glob [] = Some []"
| "WildcardMatcher glob (p # ps) =
     (case glob (host_or_all p) of
        None \<Rightarrow> None
      | Some g \<Rightarrow> map_option ((#) (g, PortRange_Parse (split_port p))) (WildcardMatcher glob ps))"

definition wildcard_Match :: "((string \<Rightarrow> bool) \<times> port_range option) list \<Rightarrow> string \<Rightarrow> bool" where
  "wildcard_Match ps a =
     list_ex (\<lambda>(g, pr). g (host_or_all a) \<and>
        (case pr of None \<Rightarrow> True | Some r \<Rightarrow> PortRange_Contains r (port_number a))) ps"

text \<open>\<open>ranger nets ip\<close> says whether a network of the ranger contains the address.\<close>

definition cidr_Match :: "(ip_net list \<Rightarrow> int \<Rightarrow> bool) \<Rightarrow> ip_net list \<Rightarrow> string \<Rightarrow> bool" where
  "cidr_Match ranger nets ip = (case ParseIP ip of None \<Rightarrow> False | Some n \<Rightarrow> ranger nets n)"

definition ip_range_Match :: "ip_range list \<Rightarrow> string \<Rightarrow> bool" where
  "ip_range_Match rs a =
     (case ParseAddr (host_or_all a) of
        None \<Rightarrow> False
      | Some x \<Rightarrow> list_ex (\<lambda>r. IPRange_Contains r x) rs)"

section \<open>Domains and their subdomains\<close>

text \<open>A host without empty labels: it does not start with a dot and has no two dots in a row.\<close>

fun labels_ok :: "bool \<Rightarrow> string \<Rightarrow> bool" where
  "labels_ok after_dot [] = True"
| "labels_ok after_dot (c # cs) =
     (if c = CHR ''.'' then \<not> after_dot \<and> labels_ok True cs else labels_ok False cs)"

definition plain_host :: "string \<Rightarrow> bool" where
  "plain_host h = labels_ok True h"

lemma labels_ok_after: "labels_ok b (a @ CHR ''.'' # s) \<Longrightarrow> labels_ok True s"
  by (induction a arbitrary: b) (auto split: if_splits)

lemma plain_host_after: "plain_host (a @ CHR ''.'' # s) \<Longrightarrow> a \<noteq> [] \<and> plain_host s"
  using labels_ok_after [of True a s] by (cases a) (simp_all add: plain_host_def)

lemma IndexByte_split:
  "IndexByte s c = Some i \<Longrightarrow> s = take i s @ c # drop (Suc i) s \<and> drop i s = c # drop (Suc i) s \<and> c \<notin> set (take i s)"
  by (induction s c arbitrary: i rule: IndexByte.induct) (auto split: if_splits)

lemma split_first_unique:
  "a @ c # s = b @ c # t \<Longrightarrow> c \<notin> set a \<Longrightarrow> (b = a \<and> t = s) \<or> (\<exists>d. b = a @ c # d \<and> s = d @ c # t)"
proof (induction a arbitrary: b)
  case Nil
  then show ?case by (cases b) auto
next
  case (Cons x a)
  then show ?case by (cases b) auto
qed

lemma suffix_hit_plain:
  "plain_host h \<Longrightarrow> suffix_hit hit h \<longleftrightarrow> (\<exists>pre s. pre \<noteq> [] \<and> h = pre @ CHR ''.'' # s \<and> hit (CHR ''.'' # s))"
proof (induction hit h rule: suffix_hit.induct)
  case (1 hit h)
  show ?case
  proof (cases "IndexByte h CHR ''.''")
    case None
    then have "CHR ''.'' \<notin> set h" using IndexByte_None by blast
    then show ?thesis using None by (subst suffix_hit.simps) auto
  next
    case (Some i)
    define a b where "a = take i h" and "b = drop (Suc i) h"
    have h: "h = a @ CHR ''.'' # b" "drop i h = CHR ''.'' # b" "CHR ''.'' \<notin> set a"
      using IndexByte_split [OF Some] by (simp_all add: a_def b_def)
    have a: "a \<noteq> []" "plain_host b" using plain_host_after 1(2) h(1) by auto
    then have i: "0 < i" by (auto simp: a_def)
    have b: "suffix_hit hit b \<longleftrightarrow> (\<exists>pre s. pre \<noteq> [] \<and> b = pre @ CHR ''.'' # s \<and> hit (CHR ''.'' # s))"
      using 1(1) [OF Some i] a(2) by (simp add: b_def)
    have "(\<exists>pre s. pre \<noteq> [] \<and> h = pre @ CHR ''.'' # s \<and> hit (CHR ''.'' # s)) \<longleftrightarrow>
        hit (CHR ''.'' # b) \<or> (\<exists>pre s. pre \<noteq> [] \<and> b = pre @ CHR ''.'' # s \<and> hit (CHR ''.'' # s))"
      (is "?l \<longleftrightarrow> ?r")
    proof
      assume ?l
      then obtain pre s where ps: "pre \<noteq> []" "h = pre @ CHR ''.'' # s" "hit (CHR ''.'' # s)" by blast
      then have "(pre = a \<and> s = b) \<or> (\<exists>d. pre = a @ CHR ''.'' # d \<and> b = d @ CHR ''.'' # s)"
        using split_first_unique h(1,3) by metis
      then show ?r using ps(3) plain_host_after a(2) by blast
    next
      assume ?r
      then show ?l using h(1) a(1) by (metis append.assoc append_Cons append_is_Nil_conv)
    qed
    then show ?thesis using b Some i h(2) by (subst suffix_hit.simps) (simp add: b_def)
  qed
qed

text \<open>
  A domain rule covers what it says. For a host without empty labels, the matcher of a set of
  rules accepts exactly the hosts that are a rule themselves, those whose rule is written with a
  leading dot, and those that extend a rule with a leading dot by whole labels in front: the rule
  \<open>.example.com\<close> accepts \<open>example.com\<close> and all its subdomains, and never \<open>badexample.com\<close>.
\<close>

theorem domain_rule_covers_subdomains:
  assumes "plain_host domain"
  shows "domain_Match D domain \<longleftrightarrow>
    domain \<in> D \<or> CHR ''.'' # domain \<in> D \<or>
    (\<exists>rule\<in>D. \<exists>labels. labels \<noteq> [] \<and> HasPrefix rule ''.'' \<and> domain = labels @ rule)"
proof -
  have "suffix_hit (\<lambda>s. s \<in> D) domain \<longleftrightarrow>
      (\<exists>rule\<in>D. \<exists>labels. labels \<noteq> [] \<and> HasPrefix rule ''.'' \<and> domain = labels @ rule)"
    (is "?l \<longleftrightarrow> ?r")
  proof
    assume ?l
    then obtain pre s where "pre \<noteq> []" "domain = pre @ CHR ''.'' # s" "CHR ''.'' # s \<in> D"
      using suffix_hit_plain [OF assms, of "\<lambda>s. s \<in> D"] by blast
    moreover have "HasPrefix (CHR ''.'' # s) ''.''" by (simp add: HasPrefix_def)
    ultimately show ?r by blast
  next
    assume ?r
    then obtain rule labels where r: "rule \<in> D" "labels \<noteq> []" "HasPrefix rule ''.''" "domain = labels @ rule"
      by blast
    then obtain s where "rule = CHR ''.'' # s" by (cases rule) (auto simp: HasPrefix_def)
    then show ?l using r suffix_hit_plain [OF assms, of "\<lambda>s. s \<in> D"] by blast
  qed
  then show ?thesis by (simp add: domain_Match_def)
qed

theorem domain_rule_covers_subdomains_witness:
  "domain_Match {''.example.com''} ''a.b.example.com'' \<and> \<not> domain_Match {''.example.com''} ''badexample.com''"
proof -
  have "plain_host ''a.b.example.com''" "plain_host ''badexample.com''" by code_simp+
  note d = domain_rule_covers_subdomains [OF this(1)] domain_rule_covers_subdomains [OF this(2)]
  have "\<exists>labels. labels \<noteq> [] \<and> HasPrefix ''.example.com'' ''.'' \<and> ''a.b.example.com'' = labels @ ''.example.com''"
    by (intro exI [of _ "''a.b''"]) (simp add: HasPrefix_def)
  moreover have "''badexample.com'' \<noteq> labels @ ''.example.com''" for labels
  proof
    assume "''badexample.com'' = labels @ ''.example.com''"
    then have "rev ''badexample.com'' = rev (labels @ ''.example.com'')" by metis
    then show False by simp
  qed
  ultimately show ?thesis unfolding d by auto
qed

section \<open>Ports\<close>

text \<open>
  The map of an address matcher has one entry per host, so of two rules for ports of the same
  host only the last one counts: \<open>host:80\<close> followed by \<open>host:443\<close> does not match \<open>host:80\<close>.
\<close>

lemma AddrMatcher_last:
  "AddrMatcher (as @ [a]) m =
     (if split_host a = [] then (AddrMatcher as m)(a \<mapsto> None)
      else (AddrMatcher as m)(split_host a \<mapsto> PortRange_Parse (split_port a)))"
  by (induction as m rule: AddrMatcher.induct) simp_all

lemma later_port_wins:
  "\<not> addr_Match (AddrMatcher [''a.b:80'', ''a.b:443''] Map.empty) ''a.b:80'' \<and>
   addr_Match (AddrMatcher [''a.b:443'', ''a.b:80''] Map.empty) ''a.b:80''"
  by code_simp

lemma PortRange_single: "0 \<le> n \<Longrightarrow> n \<le> 65535 \<Longrightarrow> Split s CHR ''-'' = [s] \<Longrightarrow> Atoi s = (n, None) \<Longrightarrow>
  PortRange_Parse s = Some \<lparr>pg_min = n, pg_max = n\<rparr>"
  by (simp add: PortRange_Parse_def)

text \<open>How many addresses a range gives, whatever its bounds.\<close>

lemma Addrs_length:
  "length (AddrPortRange_Addrs p) \<le> nat (pg_max r - pg_min r + 1)"
  if "SplitHostPort p = Some (h, sp)" "PortRange_Parse sp = Some r"
  using that by (simp add: AddrPortRange_Addrs_def)

end
