(* ===== verification/Bypass.thy ===== *)
theory Bypass
  imports Matcher
begin

text \<open>
  Which addresses go around a proxy, \<open>x/bypass/bypass.go\<close>, and which clients are let in,
  \<open>x/admission/admission.go\<close>: reading the patterns, deciding for one address, and groups.
\<close>

section \<open>Bypasses\<close>

record bypass_options =
  bo_whitelist :: bool
  bo_matchers :: "string list"
  bo_loaders :: loaders

record localBypass =
  lb_whitelist :: bool
  lb_cidr :: "ip_net list"
  lb_addr :: addr_map
  lb_wildcard :: "((string \<Rightarrow> bool) \<times> port_range option) list"
  lb_ranges :: "ip_range list"

text \<open>The patterns sorted by kind: networks, wildcards, address ranges, and the rest.\<close>

fun sort_patterns :: "string list \<Rightarrow> ip_net list \<times> string list \<times> ip_range list \<times> string list" where
  "sort_patterns [] = ([], [], [], [])"
| "sort_patterns (p # ps) =
     (case sort_patterns ps of
        (nets, wilds, ranges, addrs) \<Rightarrow>
          (case ParseCIDR p of
             Some n \<Rightarrow> (n # nets, wilds, ranges, addrs)
           | None \<Rightarrow>
               if ContainsAny p ''*?'' then (nets, p # wilds, ranges, addrs)
               else (case IPRange_Parse p of
                       Some r \<Rightarrow> (nets, wilds, r # ranges, addrs)
                     | None \<Rightarrow> (nets, wilds, ranges, p # addrs))))"

text \<open>\<open>reload\<close> panics when a wildcard does not compile.\<close>

definition bypass_reload :: "glob \<Rightarrow> bypass_options \<Rightarrow> localBypass option" where
  "bypass_reload glob opts =
     (case sort_patterns (bo_matchers opts @ load_patterns (bo_loaders opts)) of
        (nets, wilds, ranges, addrs) \<Rightarrow>
          map_option (\<lambda>ws. \<lparr>lb_whitelist = bo_whitelist opts, lb_cidr = nets,
              lb_addr = AddrMatcher addrs Map.empty, lb_wildcard = ws, lb_ranges = ranges\<rparr>)
            (WildcardMatcher glob wilds))"

definition bypass_matched :: "(ip_net list \<Rightarrow> int \<Rightarrow> bool) \<Rightarrow> localBypass \<Rightarrow> string \<Rightarrow> bool" where
  "bypass_matched ranger bp a \<longleftrightarrow>
     ip_range_Match (lb_ranges bp) a \<or> addr_Match (lb_addr bp) a \<or>
     (ParseIP (host_or_all a) \<noteq> None \<and> cidr_Match ranger (lb_cidr bp) (host_or_all a)) \<or>
     wildcard_Match (lb_wildcard bp) a"

definition bypass_Contains :: "(ip_net list \<Rightarrow> int \<Rightarrow> bool) \<Rightarrow> localBypass \<Rightarrow> string \<Rightarrow> bool" where
  "bypass_Contains ranger bp a =
     (if a = [] then False
      else (\<not> lb_whitelist bp \<and> bypass_matched ranger bp a) \<or>
           (lb_whitelist bp \<and> \<not> bypass_matched ranger bp a))"

text \<open>A member of a group: its answer for an address and whether it is a whitelist.\<close>

record bypass =
  bp_contains :: "string \<Rightarrow> bool"
  bp_white :: bool

definition as_bypass :: "(ip_net list \<Rightarrow> int \<Rightarrow> bool) \<Rightarrow> localBypass \<Rightarrow> bypass" where
  "as_bypass ranger bp = \<lparr>bp_contains = bypass_Contains ranger bp, bp_white = lb_whitelist bp\<rparr>"

definition bypassGroup_Contains :: "bypass list \<Rightarrow> string \<Rightarrow> bool" where
  "bypassGroup_Contains bs a =
     (let whitelist = map (\<lambda>b. bp_contains b a) (filter bp_white bs);
          blacklist = map (\<lambda>b. bp_contains b a) (filter (\<lambda>b. \<not> bp_white b) bs);
          status = (if whitelist \<noteq> [] then False \<notin> set whitelist else False)
      in if \<not> status \<and> blacklist \<noteq> [] then True \<in> set blacklist else status)"

definition bypassGroup :: "bypass list \<Rightarrow> bypass" where
  "bypassGroup bs = \<lparr>bp_contains = bypassGroup_Contains bs, bp_white = False\<rparr>"

text \<open>
  A group of bypasses lets an address around the proxy exactly when no whitelist of the group
  knows it and there is one, or when some blacklist matches it: one whitelist that matches is
  enough to keep the address on the proxy against all other whitelists, and no whitelist can
  overrule a blacklist.
\<close>

theorem bypass_group_decides:
  assumes "a \<noteq> []"
  shows "bypassGroup_Contains (map (as_bypass ranger) bs) a \<longleftrightarrow>
    ((\<exists>b\<in>set bs. lb_whitelist b) \<and> (\<forall>b\<in>set bs. lb_whitelist b \<longrightarrow> \<not> bypass_matched ranger b a)) \<or>
    (\<exists>b\<in>set bs. \<not> lb_whitelist b \<and> bypass_matched ranger b a)"
  using assms
  by (auto simp: bypassGroup_Contains_def as_bypass_def bypass_Contains_def Let_def filter_map
      comp_def filter_empty_conv image_iff)

definition no_glob :: glob where
  "no_glob p = None"

definition plain_bypass :: "bool \<Rightarrow> string list \<Rightarrow> localBypass option" where
  "plain_bypass white ps =
     bypass_reload no_glob \<lparr>bo_whitelist = white, bo_matchers = ps, bo_loaders = no_loaders\<rparr>"

definition no_networks :: "ip_net list \<Rightarrow> int \<Rightarrow> bool" where
  "no_networks nets ip = False"

theorem bypass_group_decides_witness:
  "let g = map (as_bypass no_networks) [the (plain_bypass True [''.a.org'']), the (plain_bypass False [''b.org''])]
   in bypassGroup_Contains g ''c.org:80'' \<and> \<not> bypassGroup_Contains g ''x.a.org:80'' \<and>
      bypassGroup_Contains g ''b.org:80''"
proof -
  let ?w = "the (plain_bypass True [''.a.org''])" and ?b = "the (plain_bypass False [''b.org''])"
  have "lb_whitelist ?w" "\<not> lb_whitelist ?b" by code_simp+
  moreover have "bypass_matched no_networks ?w ''x.a.org:80''" "\<not> bypass_matched no_networks ?w ''c.org:80''"
    "\<not> bypass_matched no_networks ?w ''b.org:80''" "\<not> bypass_matched no_networks ?b ''x.a.org:80''"
    "bypass_matched no_networks ?b ''b.org:80''"
    by code_simp+
  ultimately show ?thesis
    using bypass_group_decides [of "''c.org:80''" no_networks "[?w, ?b]"]
      bypass_group_decides [of "''x.a.org:80''" no_networks "[?w, ?b]"]
      bypass_group_decides [of "''b.org:80''" no_networks "[?w, ?b]"]
    by (simp add: Let_def)
qed

section \<open>Admissions\<close>

record admission_options =
  ao_whitelist :: bool
  ao_matchers :: "string list"
  ao_loaders :: loaders

record localAdmission =
  la_whitelist :: bool
  la_ips :: "int list"
  la_cidr :: "ip_net list"

text \<open>A pattern that is neither an address nor a network is resolved, and dropped when that fails.\<close>

fun sort_admissions :: "(string \<Rightarrow> int option) \<Rightarrow> string list \<Rightarrow> int list \<times> ip_net list" where
  "sort_admissions resolve [] = ([], [])"
| "sort_admissions resolve (p # ps) =
     (case sort_admissions resolve ps of
        (ips, nets) \<Rightarrow>
          (case ParseIP p of
             Some ip \<Rightarrow> (ip # ips, nets)
           | None \<Rightarrow>
               (case ParseCIDR p of
                  Some n \<Rightarrow> (ips, n # nets)
                | None \<Rightarrow> (case resolve p of Some ip \<Rightarrow> (ip # ips, nets) | None \<Rightarrow> (ips, nets)))))"

definition admission_reload :: "(string \<Rightarrow> int option) \<Rightarrow> admission_options \<Rightarrow> localAdmission" where
  "admission_reload resolve opts =
     (case sort_admissions resolve (ao_matchers opts @ load_patterns (ao_loaders opts)) of
        (ips, nets) \<Rightarrow> \<lparr>la_whitelist = ao_whitelist opts, la_ips = ips, la_cidr = nets\<rparr>)"

text \<open>\<open>ipMatcher\<close> compares texts: those of its addresses with the one it is asked for.\<close>

definition ip_Match :: "int list \<Rightarrow> string \<Rightarrow> bool" where
  "ip_Match ips a = (a \<in> set (map ip_string ips))"

definition admission_matched :: "(ip_net list \<Rightarrow> int \<Rightarrow> bool) \<Rightarrow> localAdmission \<Rightarrow> string \<Rightarrow> bool" where
  "admission_matched ranger p a \<longleftrightarrow> ip_Match (la_ips p) a \<or> cidr_Match ranger (la_cidr p) a"

definition Admit :: "(ip_net list \<Rightarrow> int \<Rightarrow> bool) \<Rightarrow> localAdmission \<Rightarrow> string \<Rightarrow> bool" where
  "Admit ranger p a =
     (if a = [] then True
      else (let m = admission_matched ranger p (host_or_all a)
            in (\<not> la_whitelist p \<and> \<not> m) \<or> (la_whitelist p \<and> m)))"

text \<open>A group asks one after the other; a missing member does not count.\<close>

fun admissionGroup_Admit :: "(string \<Rightarrow> bool) option list \<Rightarrow> string \<Rightarrow> bool" where
  "admissionGroup_Admit [] a = True"
| "admissionGroup_Admit (p # ps) a =
     (case p of
        Some f \<Rightarrow> if \<not> f a then False else admissionGroup_Admit ps a
      | None \<Rightarrow> admissionGroup_Admit ps a)"

lemma group_admits_all:
  "admissionGroup_Admit ps a \<longleftrightarrow> list_all (\<lambda>p. case p of Some f \<Rightarrow> f a | None \<Rightarrow> True) ps"
  by (induction ps a rule: admissionGroup_Admit.induct) (auto split: option.split)

text \<open>The lookup of the \<open>cidranger\<close> package: an address is in the ranger when a network contains it.\<close>

definition net_contains :: "ip_net \<Rightarrow> int \<Rightarrow> bool" where
  "net_contains n ip =
     (case To4 ip of
        Some k \<Rightarrow> in_bits n = 32 \<and> k div 2 ^ (32 - in_ones n) * 2 ^ (32 - in_ones n) = in_base n
      | None \<Rightarrow> in_bits n = 128 \<and> ip div 2 ^ (128 - in_ones n) * 2 ^ (128 - in_ones n) = in_base n)"

definition looks_up :: "(ip_net list \<Rightarrow> int \<Rightarrow> bool) \<Rightarrow> bool" where
  "looks_up ranger = (\<forall>nets ip. ranger nets ip = list_ex (\<lambda>n. net_contains n ip) nets)"

definition is_address :: "int \<Rightarrow> bool" where
  "is_address ip \<longleftrightarrow> 0 \<le> ip \<and> ip < 2 ^ 128"

lemma ip_Match_dotted:
  assumes "0 \<le> n" "n < 2 ^ 32" "\<forall>ip\<in>set ips. is_address ip"
  shows "ip_Match ips (dotted n) \<longleftrightarrow> mapped_v4 n \<in> set ips"
proof -
  have "ip_string ip = dotted n \<longleftrightarrow> ip = mapped_v4 n" if "ip \<in> set ips" for ip
    using ip_string_dotted [OF assms(1,2)] assms(3) that by (simp add: is_address_def)
  then show ?thesis by (force simp: ip_Match_def)
qed

lemma dotted_no_bracket: "CHR ''['' \<notin> set (dotted n)" "CHR '']'' \<notin> set (dotted n)"
  using digits_only by (auto simp: dotted_def is_digit_def dest!: digits_only)

lemma host_of_dotted:
  "host_or_all (dotted n @ CHR '':'' # show_nat p) = dotted n"
proof -
  have "CHR ''['' \<notin> set (show_nat p)" "CHR '']'' \<notin> set (show_nat p)"
    using digits_only [of "CHR ''[''" p] digits_only [of "CHR '']''" p] by (auto simp: is_digit_def)
  then have "SplitHostPort (JoinHostPort (dotted n) (show_nat p)) = Some (dotted n, show_nat p)"
    using dotted_no_bracket by (intro Split_JoinHostPort) (auto simp: dotted_no_colon no_colon)
  then have "SplitHostPort (dotted n @ CHR '':'' # show_nat p) = Some (dotted n, show_nat p)"
    by (simp add: JoinHostPort_def dotted_no_colon)
  moreover have "dotted n \<noteq> []" by (simp add: dotted_def)
  ultimately show ?thesis by (simp add: host_or_all_def split_host_def)
qed

lemma Admit_decides:
  assumes "looks_up ranger" "\<forall>ip\<in>set (la_ips p). is_address ip" "0 \<le> n" "n < 2 ^ 32"
  shows "Admit ranger p (dotted n @ CHR '':'' # show_nat port) \<longleftrightarrow>
    (la_whitelist p \<longleftrightarrow> mapped_v4 n \<in> set (la_ips p) \<or>
       (\<exists>net\<in>set (la_cidr p). in_bits net = 32 \<and>
          n div 2 ^ (32 - in_ones net) * 2 ^ (32 - in_ones net) = in_base net))"
proof -
  have m: "admission_matched ranger p (dotted n) \<longleftrightarrow> mapped_v4 n \<in> set (la_ips p) \<or>
      (\<exists>net\<in>set (la_cidr p). net_contains net (mapped_v4 n))"
    using ip_Match_dotted [OF assms(3,4,2)] assms(1,3,4)
    by (auto simp: admission_matched_def cidr_Match_def ParseIP_dotted looks_up_def list_ex_iff)
  have "Admit ranger p (dotted n @ CHR '':'' # show_nat port) \<longleftrightarrow>
      (la_whitelist p \<longleftrightarrow> admission_matched ranger p (dotted n))"
    by (auto simp: Admit_def Let_def host_of_dotted)
  then show ?thesis using m assms(3,4) by (simp add: net_contains_def To4_mapped)
qed

text \<open>
  Admission decides by address, not by text, for every IPv4 client: it lets the client in
  exactly when its whitelist flag agrees with its address being one of the listed addresses or
  lying in one of the listed networks, whatever the client's port.
\<close>

theorem admission_decides:
  assumes "looks_up ranger" "\<forall>ip\<in>set (la_ips p). is_address ip" "0 \<le> n" "n < 2 ^ 32"
  shows "Admit ranger p (dotted n @ CHR '':'' # show_nat port) \<longleftrightarrow>
    (la_whitelist p \<longleftrightarrow> mapped_v4 n \<in> set (la_ips p) \<or>
       (\<exists>net\<in>set (la_cidr p). in_bits net = 32 \<and>
          n div 2 ^ (32 - in_ones net) * 2 ^ (32 - in_ones net) = in_base net))"
  using assms by (rule Admit_decides)

definition table_lookup :: "ip_net list \<Rightarrow> int \<Rightarrow> bool" where
  "table_lookup nets ip = list_ex (\<lambda>n. net_contains n ip) nets"

definition office :: localAdmission where
  "office = \<lparr>la_whitelist = True, la_ips = [mapped_v4 16909060],
     la_cidr = [\<lparr>in_bits = 32, in_ones = 8, in_base = 167772160\<rparr>]\<rparr>"

theorem admission_decides_witness:
  "Admit table_lookup office (dotted 167837953 @ CHR '':'' # show_nat 4000) \<and>
   \<not> Admit table_lookup office (dotted 3232235777 @ CHR '':'' # show_nat 4000)"
proof -
  have "looks_up table_lookup" by (simp add: looks_up_def table_lookup_def)
  moreover have "\<forall>ip\<in>set (la_ips office). is_address ip"
    by (simp add: office_def is_address_def mapped_v4_def)
  ultimately have "Admit table_lookup office (dotted n @ CHR '':'' # show_nat 4000) \<longleftrightarrow>
      n = 16909060 \<or> n div 2 ^ 24 * 2 ^ 24 = 167772160" if "0 \<le> n" "n < 2 ^ 32" for n
    using admission_decides [of table_lookup office n 4000] that by (simp add: office_def mapped_v4_def)
  then show ?thesis by simp
qed

end
