(* ===== verification/ListenerStack.thy ===== *)
theory ListenerStack
  imports ConnLimiterProps Bypass Stats
begin

text \<open>
  The listener of a service, \<open>x/listener/tcp/listener.go\<close> and its siblings: counting, admission
  and the connection limiter around one socket, in the order in which \<open>Init\<close> stacks them. What a
  connection passes on its way in and on its way out is composed here, and the accounts of all
  layers are shown to agree.
\<close>

section \<open>Wrapped connections\<close>

text \<open>
  The wrappers a listener puts around its connections and packets: those that count
  (\<open>x/observer/stats/wrapper\<close>) and those that ask an admission (\<open>x/admission/wrapper\<close>). The
  connection below answers with a number of bytes and whatever else the call returns.
\<close>

section \<open>Counting\<close>

definition errUnsupport :: string where
  "errUnsupport = ''unsupported operation''"

definition stats_WrapConn :: "stats \<Rightarrow> stats" where
  "stats_WrapConn s = stats_add KindCurrentConns 1 (stats_add KindTotalConns 1 s)"

definition stats_Read :: "nat \<times> 'r \<Rightarrow> stats \<Rightarrow> (nat \<times> 'r) \<times> stats" where
  "stats_Read below s = (below, stats_add KindInputBytes (word_of_nat (fst below)) s)"

definition stats_Write :: "nat \<times> 'r \<Rightarrow> stats \<Rightarrow> (nat \<times> 'r) \<times> stats" where
  "stats_Write below s = (below, stats_add KindOutputBytes (word_of_nat (fst below)) s)"

text \<open>
  \<open>Close\<close> of a connection whose channel \<open>closed\<close> is open or closed, with the error of the
  connection below; the last component says whether that one was closed.
\<close>

definition stats_Close :: "go_error \<Rightarrow> bool \<Rightarrow> stats \<Rightarrow> go_error \<times> bool \<times> stats \<times> bool" where
  "stats_Close below closed s =
     (if closed then (nil_error, True, s, False)
      else (below, True, stats_add KindCurrentConns (- 1) s, True))"

text \<open>A listener counts what it accepts; \<open>Inl\<close> is an error.\<close>

definition stats_Accept :: "string + string \<Rightarrow> stats \<Rightarrow> stats" where
  "stats_Accept c s = (case c of Inl e \<Rightarrow> s | Inr remote \<Rightarrow> stats_WrapConn s)"

text \<open>Packets: the same counting, for every packet that is read or written.\<close>

definition stats_ReadFrom :: "nat \<times> 'r \<Rightarrow> stats \<Rightarrow> (nat \<times> 'r) \<times> stats" where
  "stats_ReadFrom below s = (below, stats_add KindInputBytes (word_of_nat (fst below)) s)"

definition stats_WriteTo :: "nat \<times> 'r \<Rightarrow> stats \<Rightarrow> (nat \<times> 'r) \<times> stats" where
  "stats_WriteTo below s = (below, stats_add KindOutputBytes (word_of_nat (fst below)) s)"

text \<open>
  The methods of a \<open>udpConn\<close> that read, and those that write: \<open>None\<close> when the packet connection
  does not have the method, and no counters when there are none.
\<close>

definition udp_counted ::
    "stat_kind \<Rightarrow> (nat \<times> 'r) option \<Rightarrow> stats option \<Rightarrow> (string + nat \<times> 'r) \<times> stats option" where
  "udp_counted kind below s =
     (case below of
        None \<Rightarrow> (Inl errUnsupport, s)
      | Some r \<Rightarrow> (Inr r, map_option (stats_add kind (word_of_nat (fst r))) s))"

definition udp_reads ::
    "(nat \<times> 'r) option \<Rightarrow> stats option \<Rightarrow> (string + nat \<times> 'r) \<times> stats option" where
  "udp_reads below s = udp_counted KindInputBytes below s"

definition udp_writes ::
    "(nat \<times> 'r) option \<Rightarrow> stats option \<Rightarrow> (string + nat \<times> 'r) \<times> stats option" where
  "udp_writes below s = udp_counted KindOutputBytes below s"

section \<open>Asking an admission\<close>

text \<open>No admission lets everything through.\<close>

definition lets_in :: "(string \<Rightarrow> bool) option \<Rightarrow> string \<Rightarrow> bool" where
  "lets_in adm remote \<longleftrightarrow> (case adm of None \<Rightarrow> True | Some f \<Rightarrow> f remote)"

text \<open>A refused connection is closed and the next one is accepted; \<open>None\<close> while there is none.\<close>

fun admission_Accept ::
    "(string \<Rightarrow> bool) option \<Rightarrow> (string + string) list \<Rightarrow> stats \<Rightarrow>
       ((string + string) \<times> (string + string) list \<times> stats) option" where
  "admission_Accept adm [] s = None"
| "admission_Accept adm (c # cs) s =
     (case c of
        Inl e \<Rightarrow> Some (Inl e, cs, stats_Accept c s)
      | Inr remote \<Rightarrow>
          if \<not> lets_in adm remote then
            (case stats_Close nil_error False (stats_Accept c s) of
               (_, _, s', _) \<Rightarrow> admission_Accept adm cs s')
          else Some (Inr remote, cs, stats_Accept c s))"

definition admission_Read ::
    "(string \<Rightarrow> bool) option \<Rightarrow> string \<Rightarrow> 'b list \<times> go_error \<Rightarrow> 'b list \<times> go_error" where
  "admission_Read adm remote below = (if \<not> lets_in adm remote then ([], Some ''EOF'') else below)"

text \<open>Packets of refused senders are skipped; the packet connection below counts them all.\<close>

fun admission_ReadFrom ::
    "(string \<Rightarrow> bool) option \<Rightarrow> ('b list \<times> string \<times> go_error) list \<Rightarrow> stats \<Rightarrow>
       ('b list \<times> string \<times> go_error) option \<times> stats" where
  "admission_ReadFrom adm [] s = (None, s)"
| "admission_ReadFrom adm ((d, a, e) # ps) s =
     (case stats_ReadFrom (length d, a, e) s of
        (_, s') \<Rightarrow>
          if e \<noteq> nil_error then (Some (d, a, e), s')
          else if \<not> lets_in adm a then admission_ReadFrom adm ps s'
          else (Some (d, a, e), s'))"

section \<open>Facts\<close>

lemma stats_WrapConn_fields [simp]:
  "st_totalConns (stats_WrapConn s) = st_totalConns s + 1"
  "st_currentConns (stats_WrapConn s) = st_currentConns s + 1"
  "st_inputBytes (stats_WrapConn s) = st_inputBytes s"
  "st_outputBytes (stats_WrapConn s) = st_outputBytes s"
  by (simp_all add: stats_WrapConn_def)

definition peers :: "(string + string) list \<Rightarrow> nat" where
  "peers cs = length (filter (\<lambda>c. case c of Inl _ \<Rightarrow> False | Inr _ \<Rightarrow> True) cs)"

lemma peers_simps [simp]:
  "peers [] = 0" "peers (Inl e # cs) = peers cs" "peers (Inr r # cs) = Suc (peers cs)"
  "peers (cs @ ds) = peers cs + peers ds"
  by (simp_all add: peers_def)

text \<open>
  What accepting does: it takes connections off the socket up to the first admitted one or the
  first error; every one taken is counted, and only an admitted one stays open.
\<close>

lemma admission_Accept_facts:
  "admission_Accept adm cs s = Some (c, rest, s') \<Longrightarrow>
   \<exists>used. cs = used @ rest \<and>
     st_totalConns s' = st_totalConns s + word_of_nat (peers used) \<and>
     st_currentConns s' = st_currentConns s + (case c of Inl _ \<Rightarrow> 0 | Inr _ \<Rightarrow> 1) \<and>
     st_inputBytes s' = st_inputBytes s \<and> st_outputBytes s' = st_outputBytes s \<and>
     (case c of Inl _ \<Rightarrow> True | Inr remote \<Rightarrow> lets_in adm remote)"
proof (induction adm cs s rule: admission_Accept.induct)
  case (2 adm d cs s)
  show ?case
  proof (cases d)
    case (Inl e)
    then show ?thesis using 2(2) by (intro exI [of _ "[Inl e]"]) (auto simp: stats_Accept_def)
  next
    case (Inr remote)
    show ?thesis
    proof (cases "lets_in adm remote")
      case True
      then show ?thesis using 2(2) Inr by (intro exI [of _ "[Inr remote]"]) (auto simp: stats_Accept_def)
    next
      case False
      let ?s = "stats_add KindCurrentConns (- 1) (stats_WrapConn s)"
      have r: "admission_Accept adm cs ?s = Some (c, rest, s')"
        using 2(2) Inr False by (simp add: stats_Accept_def stats_Close_def)
      have c: "(nil_error, True, ?s, True) = stats_Close nil_error False (stats_Accept d s)"
        by (simp add: Inr stats_Accept_def stats_Close_def)
      obtain used where "cs = used @ rest"
        "st_totalConns s' = st_totalConns ?s + word_of_nat (peers used)"
        "st_currentConns s' = st_currentConns ?s + (case c of Inl _ \<Rightarrow> 0 | Inr _ \<Rightarrow> 1)"
        "st_inputBytes s' = st_inputBytes ?s" "st_outputBytes s' = st_outputBytes ?s"
        "case c of Inl _ \<Rightarrow> True | Inr remote \<Rightarrow> lets_in adm remote"
        using 2(1) [OF Inr False c refl refl r] by blast
      then show ?thesis by (intro exI [of _ "Inr remote # used"]) (auto simp: Inr)
    qed
  qed
qed simp

text \<open>A packet that is handed on comes from an admitted sender, or with an error.\<close>

lemma admission_ReadFrom_admitted:
  "admission_ReadFrom adm ps s = (Some (d, a, e), s') \<Longrightarrow> e = nil_error \<Longrightarrow> lets_in adm a"
  by (induction adm ps s rule: admission_ReadFrom.induct) (auto simp: stats_ReadFrom_def split: if_splits)


section \<open>Connections through the layers\<close>

text \<open>
  A connection a listener has handed out: what the limiter holds for it, and whether the counting
  layer has seen its \<open>Close\<close>.
\<close>

record tcp_conn =
  tc_remote :: string
  tc_lim :: counted_conn
  tc_closed :: bool

record tcp_listener =
  ls_stats :: stats
  ls_limiter :: connLimiter
  ls_conns :: "tcp_conn list"

text \<open>
  Accepting: \<open>None\<close> while the socket has nothing. A connection over the limit is closed and handed
  out all the same.
\<close>

definition tcp_Accept ::
    "(string \<Rightarrow> bool) option \<Rightarrow> ((ip_net \<times> generator) list \<Rightarrow> int \<Rightarrow> generator option) \<Rightarrow>
       (string + string) list \<Rightarrow> tcp_listener \<Rightarrow> (go_error \<times> (string + string) list \<times> tcp_listener) option" where
  "tcp_Accept adm containing incoming ln =
     (case admission_Accept adm incoming (ls_stats ln) of
        None \<Rightarrow> None
      | Some (Inl e, rest, s) \<Rightarrow> Some (Some e, rest, ln\<lparr>ls_stats := s\<rparr>)
      | Some (Inr remote, rest, s) \<Rightarrow>
          (case conn_Accept containing remote (ls_limiter ln) of
             (c, lim) \<Rightarrow>
               (case (if cc_closed c then stats_Close nil_error False s
                      else (nil_error, False, s, False)) of
                  (_, closed, s', _) \<Rightarrow>
                    Some (nil_error, rest,
                      \<lparr>ls_stats = s', ls_limiter = lim,
                       ls_conns = ls_conns ln @ [\<lparr>tc_remote = remote, tc_lim = c, tc_closed = closed\<rparr>]\<rparr>))))"

text \<open>Closing goes through the limiter to the counting layer.\<close>

definition tcp_Close :: "nat \<Rightarrow> tcp_listener \<Rightarrow> tcp_listener" where
  "tcp_Close i ln =
     (let c = ls_conns ln ! i in
      case conn_Close (tc_lim c) (cl_store (ls_limiter ln)) of
        (l, h) \<Rightarrow>
          (case stats_Close nil_error (tc_closed c) (ls_stats ln) of
             (_, closed, s, _) \<Rightarrow>
               \<lparr>ls_stats = s, ls_limiter = (ls_limiter ln)\<lparr>cl_store := h\<rparr>,
                ls_conns = (ls_conns ln)[i := c\<lparr>tc_lim := l, tc_closed := closed\<rparr>]\<rparr>))"

text \<open>
  The runs of a listener, beside the loop that reports its counters to the panel (\<open>observeStats\<close>), which
  reads and resets them between the steps of the connections. What has gone through the socket, the
  connections taken off it and the bytes read and written, is kept in books together with what the
  panel has booked; \<open>bk_quiet\<close> tells whether the run has been quiet in the sense of \<open>Stats\<close>: no byte was
  counted in the window of \<open>ResetTraffic\<close> and no reply of the panel was lost.

  Handing out a connection, closing one and a limiter's \<open>Allow\<close> are one step each. A connection is closed
  once by its handler; the one exception is a connection that was handed out closed, which may be closed
  again at any time.
\<close>

record books =
  bk_conns :: nat
  bk_in :: nat
  bk_out :: nat
  bk_booked_in :: "64 word"
  bk_booked_out :: "64 word"
  bk_quiet :: bool

definition no_books :: books where
  "no_books = \<lparr>bk_conns = 0, bk_in = 0, bk_out = 0, bk_booked_in = 0, bk_booked_out = 0, bk_quiet = True\<rparr>"

record observed_listener = tcp_listener +
  ls_pc :: obs_pc
  ls_pending :: bool

definition ls_obs :: "observed_listener \<Rightarrow> obs" where
  "ls_obs ln = \<lparr>ob_stats = ls_stats ln, ob_pc = ls_pc ln, ob_pending = ls_pending ln\<rparr>"

abbreviation on_listener :: "tcp_listener \<Rightarrow> observed_listener \<Rightarrow> observed_listener" where
  "on_listener t ln \<equiv> ln\<lparr>ls_stats := ls_stats t, ls_limiter := ls_limiter t, ls_conns := ls_conns t\<rparr>"

definition report_step :: "send_result \<Rightarrow> bool \<Rightarrow> books \<Rightarrow> observed_listener \<Rightarrow> books \<times> observed_listener" where
  "report_step r okay B ln =
     (case obs_step r okay (ls_obs ln) of
        (b, i, u) \<Rightarrow>
          (B\<lparr>bk_booked_in := bk_booked_in B + i, bk_booked_out := bk_booked_out B + u,
             bk_quiet := bk_quiet B \<and> r \<noteq> ReplyLost\<rparr>,
           ln\<lparr>ls_stats := ob_stats b, ls_pc := ob_pc b, ls_pending := ob_pending b\<rparr>))"

inductive listening ::
    "(string \<Rightarrow> bool) option \<Rightarrow> ((ip_net \<times> generator) list \<Rightarrow> int \<Rightarrow> generator option) \<Rightarrow>
       books \<Rightarrow> observed_listener \<Rightarrow> bool"
    for adm containing where
  start: "listening adm containing no_books
    \<lparr>ls_stats = NewStats, ls_limiter = conn_reload lines new_limiter, ls_conns = [], ls_pc = OIdle, ls_pending = False\<rparr>"
| accept: "listening adm containing B ln \<Longrightarrow>
    tcp_Accept adm containing (used @ rest) (tcp_listener.truncate ln) = Some (e, rest, t) \<Longrightarrow>
    listening adm containing (B\<lparr>bk_conns := bk_conns B + peers used\<rparr>) (on_listener t ln)"
| reading: "listening adm containing B ln \<Longrightarrow> stats_Read (k, e :: go_error) (ls_stats ln) = (r, s) \<Longrightarrow>
    listening adm containing
      (B\<lparr>bk_in := bk_in B + k, bk_quiet := bk_quiet B \<and> \<not> in_window KindInputBytes (ls_pc ln)\<rparr>) (ln\<lparr>ls_stats := s\<rparr>)"
| writing: "listening adm containing B ln \<Longrightarrow> stats_Write (k, e :: go_error) (ls_stats ln) = (r, s) \<Longrightarrow>
    listening adm containing
      (B\<lparr>bk_out := bk_out B + k, bk_quiet := bk_quiet B \<and> \<not> in_window KindOutputBytes (ls_pc ln)\<rparr>) (ln\<lparr>ls_stats := s\<rparr>)"
| close: "listening adm containing B ln \<Longrightarrow> j < length (ls_conns ln) \<Longrightarrow>
    \<not> cc_closed (tc_lim (ls_conns ln ! j)) \<or> cc_group (tc_lim (ls_conns ln ! j)) = None \<Longrightarrow>
    listening adm containing B (on_listener (tcp_Close j (tcp_listener.truncate ln)) ln)"
| reload: "listening adm containing B ln \<Longrightarrow>
    listening adm containing B (ln\<lparr>ls_limiter := conn_reload lines (ls_limiter ln)\<rparr>)"
| report: "listening adm containing B ln \<Longrightarrow> report_step r okay B ln = (B', ln') \<Longrightarrow>
    listening adm containing B' ln'"

section \<open>The layers agree\<close>

definition still_open :: "tcp_conn list \<Rightarrow> nat" where
  "still_open cs = length (filter (\<lambda>c. \<not> tc_closed c) cs)"

lemma still_open_append [simp]: "still_open (cs @ [c]) = still_open cs + (if tc_closed c then 0 else 1)"
  by (simp add: still_open_def)

lemma still_open_close:
  "j < length cs \<Longrightarrow> \<not> tc_closed (cs ! j) \<Longrightarrow> tc_closed c \<Longrightarrow> still_open cs = Suc (still_open (cs[j := c]))"
proof (induction cs arbitrary: j)
  case (Cons d cs)
  then show ?case by (cases j) (simp_all add: still_open_def)
qed simp

lemma still_open_same:
  "j < length cs \<Longrightarrow> tc_closed (cs ! j) = tc_closed c \<Longrightarrow> still_open (cs[j := c]) = still_open cs"
proof (induction cs arbitrary: j)
  case (Cons d cs)
  then show ?case by (cases j) (simp_all add: still_open_def)
qed simp

definition layers_ok ::
    "(string \<Rightarrow> bool) option \<Rightarrow> ((ip_net \<times> generator) list \<Rightarrow> int \<Rightarrow> generator option) \<Rightarrow>
       nat \<Rightarrow> tcp_listener \<Rightarrow> bool" where
  "layers_ok adm containing n ln \<longleftrightarrow>
     st_totalConns (ls_stats ln) = word_of_nat n \<and>
     st_currentConns (ls_stats ln) = word_of_nat (still_open (ls_conns ln)) \<and>
     (\<forall>c\<in>set (ls_conns ln). lets_in adm (tc_remote c) \<and> tc_closed c = cc_closed (tc_lim c)) \<and>
     listener_run containing (ls_limiter ln) (map tc_lim (ls_conns ln))"

lemma conn_Accept_closed: "conn_Accept containing remote l = (c, l') \<Longrightarrow> cc_closed c \<Longrightarrow> cc_group c = None"
  by (auto simp: conn_Accept_def split: prod.splits option.splits bool.splits)

lemma accept_layers:
  assumes "layers_ok adm containing n ln" "tcp_Accept adm containing (used @ rest) ln = Some (e, rest, ln')"
  shows "layers_ok adm containing (n + peers used) ln'"
proof -
  obtain c r s where a: "admission_Accept adm (used @ rest) (ls_stats ln) = Some (c, r, s)"
    using assms(2) by (fastforce simp: tcp_Accept_def split: option.splits)
  have r: "r = rest" using assms(2) a
    by (auto simp: tcp_Accept_def Let_def split: sum.splits prod.splits)
  have f: "st_totalConns s = st_totalConns (ls_stats ln) + word_of_nat (peers used)"
    "st_currentConns s = st_currentConns (ls_stats ln) + (case c of Inl _ \<Rightarrow> 0 | Inr _ \<Rightarrow> 1)"
    "st_inputBytes s = st_inputBytes (ls_stats ln)" "st_outputBytes s = st_outputBytes (ls_stats ln)"
    "case c of Inl _ \<Rightarrow> True | Inr remote \<Rightarrow> lets_in adm remote"
    using admission_Accept_facts [OF a] r by auto
  show ?thesis
  proof (cases c)
    case (Inl x)
    then show ?thesis using assms a f r by (auto simp: tcp_Accept_def layers_ok_def)
  next
    case (Inr remote)
    obtain d lim where d: "conn_Accept containing remote (ls_limiter ln) = (d, lim)" by fastforce
    let ?s = "if cc_closed d then stats_add KindCurrentConns (- 1) s else s"
    have l: "ln' = \<lparr>ls_stats = ?s, ls_limiter = lim,
        ls_conns = ls_conns ln @ [\<lparr>tc_remote = remote, tc_lim = d, tc_closed = cc_closed d\<rparr>]\<rparr>"
      using assms(2) a Inr d by (auto simp: tcp_Accept_def stats_Close_def split: if_splits)
    have "listener_run containing lim (map tc_lim (ls_conns ln) @ [d])"
      using assms(1) listener_run.accept [OF _ d] by (simp add: layers_ok_def)
    then show ?thesis using assms(1) f Inr by (simp add: layers_ok_def l)
  qed
qed

lemma conn_Close_idle: "cc_group c = None \<Longrightarrow> cc_closed c \<Longrightarrow> conn_Close c h = (c, h)"
  by (simp add: conn_Close_def)

lemma close_layers:
  assumes "layers_ok adm containing n ln" "j < length (ls_conns ln)"
    and "\<not> cc_closed (tc_lim (ls_conns ln ! j)) \<or> cc_group (tc_lim (ls_conns ln ! j)) = None"
  shows "layers_ok adm containing n (tcp_Close j ln)"
proof -
  let ?c = "ls_conns ln ! j" and ?h = "cl_store (ls_limiter ln)"
  have m: "?c \<in> set (ls_conns ln)" using assms(2) by simp
  then have c: "tc_closed ?c = cc_closed (tc_lim ?c)" "lets_in adm (tc_remote ?c)"
    using assms(1) by (auto simp: layers_ok_def)
  obtain l h where l: "conn_Close (tc_lim ?c) ?h = (l, h)" by fastforce
  show ?thesis
  proof (cases "cc_closed (tc_lim ?c)")
    case True
    then have "l = tc_lim ?c" "h = ?h" using assms(3) l by (simp_all add: conn_Close_idle)
    moreover have "?c\<lparr>tc_closed := True\<rparr> = ?c" using True c by simp
    then have "(ls_conns ln)[j := ?c\<lparr>tc_closed := True\<rparr>] = ls_conns ln" by simp
    ultimately have "tcp_Close j ln = ln"
      using True c l by (simp add: tcp_Close_def Let_def stats_Close_def)
    then show ?thesis using assms(1) by simp
  next
    case False
    let ?d = "?c\<lparr>tc_lim := l, tc_closed := True\<rparr>"
    have lc: "cc_closed l" using l by (auto simp: conn_Close_def)
    have e: "tcp_Close j ln = \<lparr>ls_stats = stats_add KindCurrentConns (- 1) (ls_stats ln),
        ls_limiter = (ls_limiter ln)\<lparr>cl_store := h\<rparr>, ls_conns = (ls_conns ln)[j := ?d]\<rparr>"
      using False c l by (simp add: tcp_Close_def Let_def stats_Close_def)
    have "listener_run containing ((ls_limiter ln)\<lparr>cl_store := h\<rparr>) ((map tc_lim (ls_conns ln))[j := l])"
      using assms(1,2) False l by (intro listener_run.close) (auto simp: layers_ok_def)
    moreover have "(map tc_lim (ls_conns ln))[j := l] = map tc_lim ((ls_conns ln)[j := ?d])"
      by (simp add: map_update)
    moreover have "\<forall>x\<in>set ((ls_conns ln)[j := ?d]). lets_in adm (tc_remote x) \<and> tc_closed x = cc_closed (tc_lim x)"
      using assms(1) c lc by (auto simp: layers_ok_def dest!: set_update_subset_insert [THEN subsetD])
    moreover have "still_open (ls_conns ln) = Suc (still_open ((ls_conns ln)[j := ?d]))"
      using still_open_close [OF assms(2)] False c by simp
    ultimately show ?thesis using assms(1) by (simp add: layers_ok_def e)
  qed
qed

lemma accept_bytes:
  assumes "tcp_Accept adm containing cs ln = Some (e, rest, ln')"
  shows "st_inputBytes (ls_stats ln') = st_inputBytes (ls_stats ln) \<and>
    st_outputBytes (ls_stats ln') = st_outputBytes (ls_stats ln)"
proof -
  obtain c r s where a: "admission_Accept adm cs (ls_stats ln) = Some (c, r, s)"
    using assms by (fastforce simp: tcp_Accept_def split: option.splits)
  have "st_inputBytes s = st_inputBytes (ls_stats ln)" "st_outputBytes s = st_outputBytes (ls_stats ln)"
    using admission_Accept_facts [OF a] by auto
  then show ?thesis
    using assms a by (cases c) (auto simp: tcp_Accept_def stats_Close_def split: prod.splits if_splits)
qed

lemma close_bytes [simp]:
  "st_inputBytes (ls_stats (tcp_Close j ln)) = st_inputBytes (ls_stats ln)"
  "st_outputBytes (ls_stats (tcp_Close j ln)) = st_outputBytes (ls_stats ln)"
  by (auto simp: tcp_Close_def Let_def stats_Close_def split: prod.split)

text \<open>The books as an account of \<open>Stats\<close>, and what of the bytes counted the panel has not booked yet.\<close>

definition account_of :: "books \<Rightarrow> observed_listener \<Rightarrow> account" where
  "account_of B ln = \<lparr>ac_obs = ls_obs ln, ac_moved_in = word_of_nat (bk_in B), ac_moved_out = word_of_nat (bk_out B),
     ac_booked_in = bk_booked_in B, ac_booked_out = bk_booked_out B\<rparr>"

fun unbooked :: "obs_pc \<Rightarrow> stats \<Rightarrow> 64 word \<times> 64 word" where
  "unbooked (OSent i u) s = (st_inputBytes s - i, st_outputBytes s - u)"
| "unbooked (OAgain i u ri) s = (ri, st_outputBytes s - u)"
| "unbooked (OStore ri ru) s = (ri, ru)"
| "unbooked (OStoreOut ru) s = (st_inputBytes s, ru)"
| "unbooked pc s = (st_inputBytes s, st_outputBytes s)"

lemma balanced_unbooked:
  "balanced (account_of B ln) \<longleftrightarrow>
     unbooked (ls_pc ln) (ls_stats ln) =
       (word_of_nat (bk_in B) - bk_booked_in B, word_of_nat (bk_out B) - bk_booked_out B)"
  by (cases "ls_pc ln") (auto simp: account_of_def ls_obs_def algebra_simps)

text \<open>The reporting loop touches no counter of connections.\<close>

lemma obs_step_conns:
  "obs_step r okay b = (b', m) \<Longrightarrow>
     st_totalConns (ob_stats b') = st_totalConns (ob_stats b) \<and> st_currentConns (ob_stats b') = st_currentConns (ob_stats b)"
  by (cases b; cases "ob_pc b"; cases r) (auto simp: IsUpdated_def Let_def split: if_splits)

lemma report_step_facts:
  assumes "report_step r okay B ln = (B', ln')"
  shows "ls_conns ln' = ls_conns ln \<and> ls_limiter ln' = ls_limiter ln \<and> bk_conns B' = bk_conns B \<and>
    st_totalConns (ls_stats ln') = st_totalConns (ls_stats ln) \<and>
    st_currentConns (ls_stats ln') = st_currentConns (ls_stats ln) \<and>
    (bk_quiet B' \<longrightarrow> bk_quiet B \<and> r \<noteq> ReplyLost) \<and>
    account_of B' ln' = account_step (EvStep r okay) (account_of B ln)"
proof -
  obtain b i u where b: "obs_step r okay (ls_obs ln) = (b, i, u)" by (metis prod_cases3)
  then show ?thesis
    using assms obs_step_conns [OF b] by (auto simp: report_step_def account_of_def ls_obs_def)
qed

definition books_ok :: "books \<Rightarrow> observed_listener \<Rightarrow> bool" where
  "books_ok B ln \<longleftrightarrow> (bk_quiet B \<longrightarrow> balanced (account_of B ln))"

lemma books_ok_counted:
  assumes "books_ok B ln"
  shows "books_ok (B\<lparr>bk_in := bk_in B + k, bk_quiet := bk_quiet B \<and> \<not> in_window KindInputBytes (ls_pc ln)\<rparr>)
      (ln\<lparr>ls_stats := stats_add KindInputBytes (word_of_nat k) (ls_stats ln)\<rparr>)"
    and "books_ok (B\<lparr>bk_out := bk_out B + k, bk_quiet := bk_quiet B \<and> \<not> in_window KindOutputBytes (ls_pc ln)\<rparr>)
      (ln\<lparr>ls_stats := stats_add KindOutputBytes (word_of_nat k) (ls_stats ln)\<rparr>)"
  using assms balanced_add [of "account_of B ln" KindInputBytes "word_of_nat k"]
    balanced_add [of "account_of B ln" KindOutputBytes "word_of_nat k"]
  by (auto simp: books_ok_def account_of_def ls_obs_def)

lemma books_ok_same:
  assumes "books_ok B ln" and "st_inputBytes (ls_stats ln') = st_inputBytes (ls_stats ln)"
    and "st_outputBytes (ls_stats ln') = st_outputBytes (ls_stats ln)" and "ls_pc ln' = ls_pc ln"
    and "bk_in B' = bk_in B" "bk_out B' = bk_out B" "bk_booked_in B' = bk_booked_in B"
      "bk_booked_out B' = bk_booked_out B" "bk_quiet B' = bk_quiet B"
  shows "books_ok B' ln'"
  using assms by (cases "ls_pc ln") (auto simp: books_ok_def balanced_unbooked)

lemma listening_ok:
  "listening adm containing B ln \<Longrightarrow> layers_ok adm containing (bk_conns B) (tcp_listener.truncate ln) \<and> books_ok B ln"
proof (induction rule: listening.induct)
  case (start lines)
  show ?case
    by (simp add: layers_ok_def NewStats_def still_open_def listener_run.start tcp_listener.defs no_books_def books_ok_def
      balanced_unbooked)
next
  case (accept B ln used rest e t)
  have "layers_ok adm containing (bk_conns B + peers used) t" using accept accept_layers by blast
  moreover have "books_ok (B\<lparr>bk_conns := bk_conns B + peers used\<rparr>) (on_listener t ln)"
    by (rule books_ok_same [of B ln]) (use accept accept_bytes [OF accept(2)] in \<open>simp_all add: tcp_listener.defs\<close>)
  ultimately show ?case by (simp add: tcp_listener.defs layers_ok_def)
next
  case (reading B ln k e r s)
  then show ?case using books_ok_counted(1) [of B ln k] by (auto simp: layers_ok_def stats_Read_def tcp_listener.defs)
next
  case (writing B ln k e r s)
  then show ?case using books_ok_counted(2) [of B ln k] by (auto simp: layers_ok_def stats_Write_def tcp_listener.defs)
next
  case (close B ln j)
  have "layers_ok adm containing (bk_conns B) (tcp_Close j (tcp_listener.truncate ln))"
    by (rule close_layers) (use close in \<open>simp_all add: tcp_listener.defs\<close>)
  moreover have "books_ok B (on_listener (tcp_Close j (tcp_listener.truncate ln)) ln)"
    by (rule books_ok_same [of B ln]) (use close in \<open>simp_all add: tcp_listener.defs\<close>)
  ultimately show ?case by (simp add: tcp_listener.defs layers_ok_def)
next
  case (reload B ln lines)
  then show ?case
    by (auto simp: layers_ok_def tcp_listener.defs intro: listener_run.reload books_ok_same)
next
  case (report B ln r okay B' ln')
  note f = report_step_facts [OF report(2)]
  have "books_ok B' ln'"
    using report(3) f balanced_loop [of "account_of B ln" r okay] by (simp add: books_ok_def)
  then show ?case using report(3) f by (simp add: layers_ok_def tcp_listener.defs)
qed

text \<open>
  (C16) The layers of a listener keep one account, beside the loop that reports the counters to the panel
  and resets them. In every run in which each connection is closed once, the counters of the service say
  how many connections were taken off the socket, refused ones included, and how many of those handed out
  are still open; every connection handed out is one the admission lets in; and no limiter counts more
  open connections than its limit, as long as the calls on it do not overlap. As long as no byte was
  counted in the window of a reset and no reply of the panel was lost, what is counted and not yet booked
  is what went through less what the panel has booked, wherever the loop stands.
\<close>

theorem listener_accounts_agree:
  assumes "listening adm containing B ln" "from_entries containing"
  shows "st_totalConns (ls_stats ln) = word_of_nat (bk_conns B) \<and>
    st_currentConns (ls_stats ln) = word_of_nat (still_open (ls_conns ln)) \<and>
    (bk_quiet B \<longrightarrow> unbooked (ls_pc ln) (ls_stats ln) =
       (word_of_nat (bk_in B) - bk_booked_in B, word_of_nat (bk_out B) - bk_booked_out B)) \<and>
    (\<forall>c\<in>set (ls_conns ln). lets_in adm (tc_remote c) \<and> tc_closed c = cc_closed (tc_lim c)) \<and>
    (\<forall>a<length (cl_store (ls_limiter ln)).
       open_on a (map tc_lim (ls_conns ln)) \<le> ll_limit (cl_store (ls_limiter ln) ! a))"
proof -
  note ok = listening_ok [OF assms(1), unfolded layers_ok_def books_ok_def balanced_unbooked]
  then have "listener_run containing (ls_limiter ln) (map tc_lim (ls_conns ln))" by (simp add: tcp_listener.defs)
  from listener_run_counts [OF this assms(2)]
  have "open_on a (map tc_lim (ls_conns ln)) \<le> ll_limit (cl_store (ls_limiter ln) ! a)"
    if "a < length (cl_store (ls_limiter ln))" for a
    using that within_nth [of "cl_store (ls_limiter ln)" a] by (auto simp: counts_def lim_ok_def)
  then show ?thesis using ok by (simp add: tcp_listener.defs)
qed

text \<open>A listener with an admission and room for one connection in total.\<close>

definition guarded :: "string \<Rightarrow> bool" where
  "guarded a = Admit table_lookup office a"

definition guarded_start :: observed_listener where
  "guarded_start = \<lparr>ls_stats = NewStats, ls_limiter = conn_reload [''$ 1''] new_limiter, ls_conns = [],
     ls_pc = OIdle, ls_pending = False\<rparr>"

definition guarded_in :: "(string + string) list" where
  "guarded_in = [Inr ''192.168.1.1:4000'', Inr ''10.1.2.1:4000'']"

theorem listener_accounts_agree_witness:
  "let ln = snd (snd (the (tcp_Accept (Some guarded) no_cidr guarded_in (tcp_listener.truncate guarded_start))))
   in st_totalConns (ls_stats ln) = 2 \<and> st_currentConns (ls_stats ln) = 1"
proof -
  let ?r = "tcp_Accept (Some guarded) no_cidr guarded_in (tcp_listener.truncate guarded_start)"
  have v: "?r \<noteq> None" "fst (snd (the ?r)) = []" "still_open (ls_conns (snd (snd (the ?r)))) = 1"
    by code_simp+
  then obtain e t where r: "tcp_Accept (Some guarded) no_cidr (guarded_in @ []) (tcp_listener.truncate guarded_start) = Some (e, [], t)"
    by force
  have "listening (Some guarded) no_cidr no_books guarded_start"
    unfolding guarded_start_def by (rule listening.start)
  from listening.accept [OF this r]
  have l: "listening (Some guarded) no_cidr (no_books\<lparr>bk_conns := 2\<rparr>) (on_listener t guarded_start)"
    by (simp add: guarded_in_def numeral_2_eq_2 no_books_def)
  have "from_entries no_cidr" by (simp add: from_entries_def no_cidr_def)
  from listener_accounts_agree [OF l this] show ?thesis using r v by (simp add: Let_def)
qed

end
