(* ===== verification/LimitedConn.thy ===== *)
theory LimitedConn
  imports Prelude
begin

text \<open>
  Traffic limiters and the connections they slow down, \<open>x/limiter/traffic/limiter.go\<close> and
  \<open>x/limiter/traffic/wrapper\<close>. A \<open>rate.Limiter\<close> is its limit and its burst; waiting for it takes
  time but no other effect is visible. Bytes are of any type.
\<close>

section \<open>Limiters\<close>

record rate_limiter =
  rl_limit :: int
  rl_burst :: int

definition NewLimiter :: "int \<Rightarrow> rate_limiter" where
  "NewLimiter r = \<lparr>rl_limit = r, rl_burst = r\<rparr>"

definition limiter_Wait :: "rate_limiter \<Rightarrow> int \<Rightarrow> int" where
  "limiter_Wait l n = (if rl_burst l < n then rl_burst l else n)"

definition limiter_Set :: "int \<Rightarrow> rate_limiter \<Rightarrow> rate_limiter" where
  "limiter_Set n l = \<lparr>rl_limit = n, rl_burst = n\<rparr>"

text \<open>A group is sorted by limit when it is made.\<close>

definition newLimiterGroup :: "rate_limiter list \<Rightarrow> rate_limiter list" where
  "newLimiterGroup ls = sort_key rl_limit ls"

fun group_Wait :: "rate_limiter list \<Rightarrow> int \<Rightarrow> int" where
  "group_Wait [] n = n"
| "group_Wait (l # ls) n = group_Wait ls (if limiter_Wait l n < n then limiter_Wait l n else n)"

definition group_Limit :: "rate_limiter list \<Rightarrow> int" where
  "group_Limit ls = (case ls of [] \<Rightarrow> 0 | l # _ \<Rightarrow> rl_limit l)"

text \<open>What a connection finds when it asks its traffic limiter; \<open>[]\<close> stands for \<open>nil\<close>.\<close>

definition active :: "rate_limiter list \<Rightarrow> bool" where
  "active ls = (ls \<noteq> [] \<and> 0 < group_Limit ls)"

section \<open>Stream connections\<close>

text \<open>
  \<open>Read\<close> of a limited connection, with the buffer of bytes read but not yet handed out: \<open>sz\<close> is
  the length of the caller's slice and \<open>u\<close> what the connection below answers if it is read. The
  last component says whether it was.
\<close>

definition conn_Read ::
    "rate_limiter list \<Rightarrow> nat \<Rightarrow> 'b list \<times> go_error \<Rightarrow> 'b list \<Rightarrow>
       'b list \<times> go_error \<times> 'b list \<times> bool" where
  "conn_Read ls sz u rbuf =
     (if \<not> active ls then (fst u, snd u, rbuf, True)
      else if rbuf \<noteq> [] then
        (let burst = min sz (length rbuf);
             lim = nat (group_Wait ls (int burst))
         in (take lim rbuf, nil_error, drop lim rbuf, False))
      else case u of
        (d, Some e) \<Rightarrow> (d, Some e, rbuf, True)
      | (d, None) \<Rightarrow>
          (let n = nat (group_Wait ls (int (length d)))
           in (take n d, nil_error, drop n d, True)))"

text \<open>
  \<open>Write\<close>: the bytes that reach the connection below, how many are reported, and the error. Each
  write below answers how many bytes it took and with what error; \<open>None\<close> when the answers run out
  first.
\<close>

fun conn_Write ::
    "rate_limiter list \<Rightarrow> 'b list \<Rightarrow> (nat \<times> go_error) list \<Rightarrow> ('b list \<times> nat \<times> go_error) option" where
  "conn_Write ls b [] = (if active ls \<and> b = [] then Some ([], 0, nil_error) else None)"
| "conn_Write ls b ((nn, e) # outs) =
     (if \<not> active ls then Some (take nn b, nn, e)
      else if b = [] then Some ([], 0, nil_error)
      else
        (let chunk = take (nat (group_Wait ls (int (length b)))) b;
             sent = take nn chunk
         in case e of
              Some x \<Rightarrow> Some (sent, nn, Some x)
            | None \<Rightarrow>
                (case conn_Write ls (drop nn b) outs of
                   None \<Rightarrow> None
                 | Some (rest, k, e') \<Rightarrow> Some (sent @ rest, nn + k, e'))))"

section \<open>Packet connections\<close>

text \<open>\<open>ReadFrom\<close> discards packets that exceed what the limiter gives; \<open>None\<close> while it waits.\<close>

fun packet_ReadFrom :: "(rate_limiter list \<times> 'b list \<times> go_error) list \<Rightarrow> ('b list \<times> go_error) option" where
  "packet_ReadFrom [] = None"
| "packet_ReadFrom ((ls, d, e) # ps) =
     (if e \<noteq> nil_error then Some (d, e)
      else if \<not> active ls then Some (d, e)
      else if group_Wait ls (int (length d)) < int (length d) then packet_ReadFrom ps
      else Some (d, e))"

text \<open>\<open>WriteTo\<close>: the packet sent, if it is, and the length reported for a packet that is dropped.\<close>

definition packet_WriteTo ::
    "rate_limiter list \<Rightarrow> 'b list \<Rightarrow> nat \<times> go_error \<Rightarrow> 'b list option \<times> nat \<times> go_error" where
  "packet_WriteTo ls p below =
     (if active ls \<and> group_Wait ls (int (length p)) < int (length p) then (None, length p, nil_error)
      else (Some p, below))"

section \<open>How much a limiter lets through\<close>

lemma group_Wait_le: "group_Wait ls n \<le> n"
proof (induction ls n rule: group_Wait.induct)
  case (2 l ls n)
  then show ?case by (smt (verit) group_Wait.simps(2))
qed simp

lemma group_Wait_member: "l \<in> set ls \<Longrightarrow> group_Wait ls n \<le> max (rl_burst l) n \<and> group_Wait ls n \<le> limiter_Wait l n"
proof (induction ls n rule: group_Wait.induct)
  case (2 k ls n)
  let ?m = "if limiter_Wait k n < n then limiter_Wait k n else n"
  have le: "group_Wait ls ?m \<le> ?m" by (rule group_Wait_le)
  show ?case
  proof (cases "l = k")
    case True
    then show ?thesis using le by (auto simp: limiter_Wait_def split: if_splits)
  next
    case False
    then have "group_Wait ls ?m \<le> limiter_Wait l ?m" using 2 by auto
    then show ?thesis using le by (auto simp: limiter_Wait_def split: if_splits)
  qed
qed simp

lemma group_Wait_nonneg: "\<forall>l\<in>set ls. 0 \<le> rl_burst l \<Longrightarrow> 0 \<le> n \<Longrightarrow> 0 \<le> group_Wait ls n"
  by (induction ls n rule: group_Wait.induct) (auto simp: limiter_Wait_def)

lemma group_Wait_pos: "\<forall>l\<in>set ls. 0 < rl_burst l \<Longrightarrow> 0 < n \<Longrightarrow> 0 < group_Wait ls n"
  by (induction ls n rule: group_Wait.induct) (auto simp: limiter_Wait_def)

text \<open>The limiters a traffic limiter gives out have been made or set with a positive limit.\<close>

definition fair_group :: "rate_limiter list \<Rightarrow> bool" where
  "fair_group ls \<longleftrightarrow> ls \<noteq> [] \<and> (\<forall>l\<in>set ls. rl_burst l = rl_limit l \<and> 0 < rl_limit l)"

lemma fair_active: "fair_group ls \<Longrightarrow> active ls"
  by (cases ls) (auto simp: fair_group_def active_def group_Limit_def)

section \<open>The stream of a limited connection\<close>

text \<open>One call of \<open>Read\<close>: what the limiter is then, the size of the slice, and what is below.\<close>

record 'b read_call =
  rc_limit :: "rate_limiter list"
  rc_size :: nat
  rc_below :: "'b list \<times> go_error"

text \<open>The bytes handed out, the bytes taken from below, and the buffer, after a number of calls.\<close>

fun read_run :: "'b read_call list \<Rightarrow> 'b list \<Rightarrow> 'b list \<times> 'b list \<times> 'b list" where
  "read_run [] rbuf = ([], [], rbuf)"
| "read_run (c # cs) rbuf =
     (case conn_Read (rc_limit c) (rc_size c) (rc_below c) rbuf of
        (d, e, rbuf', used) \<Rightarrow>
          (case read_run cs rbuf' of
             (ds, us, r) \<Rightarrow> (d @ ds, (if used then fst (rc_below c) else []) @ us, r)))"

lemma read_step_stream:
  assumes "active ls" "conn_Read ls sz u rbuf = (d, e, rbuf', used)"
  shows "rbuf @ (if used then fst u else []) = d @ rbuf'"
  using assms by (auto simp: conn_Read_def Let_def split: if_splits prod.splits option.splits)

lemma read_run_stream:
  "\<forall>c\<in>set cs. active (rc_limit c) \<Longrightarrow> read_run cs rbuf = (ds, us, r) \<Longrightarrow> rbuf @ us = ds @ r"
proof (induction cs arbitrary: rbuf ds us r)
  case (Cons c cs)
  obtain d e rb used where s: "conn_Read (rc_limit c) (rc_size c) (rc_below c) rbuf = (d, e, rb, used)"
    by (metis prod_cases4)
  obtain ds' us' where r: "read_run cs rb = (ds', us', r)" "ds = d @ ds'"
    "us = (if used then fst (rc_below c) else []) @ us'"
    using Cons.prems(2) s by (auto split: prod.splits)
  have "rb @ us' = ds' @ r" using Cons.IH [OF _ r(1)] Cons.prems(1) by simp
  moreover have "rbuf @ (if used then fst (rc_below c) else []) = d @ rb"
    using read_step_stream [OF _ s] Cons.prems(1) by simp
  ultimately show ?case using r(2,3) by (metis append.assoc)
qed simp

text \<open>
  (C33) Limiting a connection changes when bytes arrive, never which: as long as its limiter stays
  in force, whatever the limits, the sizes of the slices and the pieces in which bytes come in,
  the bytes handed out followed by those still buffered are the bytes received, in order.
\<close>

theorem limited_stream_intact:
  assumes "\<forall>c\<in>set cs. active (rc_limit c)" "read_run cs [] = (ds, us, r)"
  shows "us = ds @ r"
  using read_run_stream [OF assms] by simp

definition slow :: "rate_limiter list" where
  "slow = [NewLimiter 2]"

definition slow_call :: "nat list \<times> go_error \<Rightarrow> nat read_call" where
  "slow_call u = \<lparr>rc_limit = slow, rc_size = 8, rc_below = u\<rparr>"

theorem limited_stream_intact_witness:
  "\<exists>r. read_run [slow_call ([1, 2, 3], None), slow_call ([9], None), slow_call ([4, 5], None)] [] =
     ([1, 2, 3, 4, 5], [1, 2, 3, 4, 5] :: nat list, r) \<and> r = []"
proof -
  let ?cs = "[slow_call ([1, 2, 3], None), slow_call ([9], None), slow_call ([4, 5], None)]"
  have a: "\<forall>c\<in>set ?cs. active (rc_limit c)"
    by (simp add: slow_call_def slow_def active_def group_Limit_def NewLimiter_def)
  have r: "read_run ?cs [] = ([1, 2, 3, 4, 5], [1, 2, 3, 4, 5], [])"
    by (simp add: slow_call_def slow_def active_def group_Limit_def NewLimiter_def conn_Read_def
        limiter_Wait_def Let_def)
  then show ?thesis using limited_stream_intact [OF a r] by simp
qed

text \<open>
  Taking the limiter away breaks the stream. When a read leaves bytes in the buffer and the
  limiter is gone at the next, the next read goes past the buffer: what the caller gets is the
  stream without the buffered bytes, which stay behind until a limiter is back.
\<close>

theorem limit_removed_breaks_stream:
  assumes "active ls" "\<not> active ls'" "k = nat (group_Wait ls (int (length d)))"
  shows "read_run [\<lparr>rc_limit = ls, rc_size = sz, rc_below = (d, None)\<rparr>,
      \<lparr>rc_limit = ls', rc_size = sz, rc_below = (d', None)\<rparr>] [] =
    (take k d @ d', d @ d', drop k d)"
  using assms by (simp add: conn_Read_def Let_def)

theorem limit_removed_breaks_stream_witness:
  "fst (read_run [slow_call ([1, 2, 3], None), (slow_call ([4, 5], None))\<lparr>rc_limit := []\<rparr>] []) = [1, 2, 4, 5]"
proof -
  have "active slow" "\<not> active []" "2 = nat (group_Wait slow (int (length [1, 2, 3 :: nat])))"
    by (simp_all add: slow_def active_def group_Limit_def NewLimiter_def limiter_Wait_def)
  from limit_removed_breaks_stream [OF this, of 8 "[4, 5]"]
  show ?thesis by (simp add: slow_call_def)
qed

section \<open>Writing\<close>

text \<open>
  A limited write that meets no error sends everything, in pieces no larger than the limit, and
  reports the whole length: after as many answers as it needs, each of a writer that takes the
  whole piece.
\<close>

fun full_answers :: "rate_limiter list \<Rightarrow> nat \<Rightarrow> nat \<Rightarrow> (nat \<times> go_error) list" where
  "full_answers ls 0 n = []"
| "full_answers ls (Suc k) n =
     (let w = nat (group_Wait ls (int n)) in (min w n, nil_error) # full_answers ls k (n - w))"

lemma conn_Write_all:
  assumes "fair_group ls" "length b \<le> k"
  shows "conn_Write ls b (full_answers ls k (length b)) = Some (b, length b, nil_error)"
  using assms(2)
proof (induction k arbitrary: b)
  case 0
  then show ?case using fair_active [OF assms(1)] by simp
next
  case (Suc k)
  show ?case
  proof (cases "b = []")
    case True
    then show ?thesis using fair_active [OF assms(1)] by (simp add: Let_def)
  next
    case False
    let ?w = "nat (group_Wait ls (int (length b)))"
    have w: "0 < ?w" "?w \<le> length b"
      using group_Wait_pos [of ls "int (length b)"] group_Wait_le [of ls "int (length b)"] assms(1) False
      by (auto simp: fair_group_def)
    then have "conn_Write ls (drop ?w b) (full_answers ls k (length (drop ?w b))) =
        Some (drop ?w b, length (drop ?w b), nil_error)"
      using Suc by (intro Suc.IH) simp
    then show ?thesis using w False fair_active [OF assms(1)] by (simp add: Let_def)
  qed
qed

end
