(* ===== verification/TrafficRules.thy ===== *)
theory TrafficRules
  imports LimitedConn GoNet Loaders
begin

text \<open>
  The traffic limiter, \<open>x/limiter/traffic/traffic.go\<close>: the rules it is made of, the limiters it
  hands out for a service, a connection or an address, and how a reload changes them.

  Limiters are shared through pointers, so they live in a heap. The expiring cache
  (\<open>patrickmn/go-cache\<close>), the lookup of networks and the parser of sizes are parameters; what is
  needed of a cache is \<open>cache_laws\<close>, for the moment of one operation.
\<close>

section \<open>Caches and limiters\<close>

record 'c cache_ops =
  co_get :: "'c \<Rightarrow> string \<Rightarrow> nat option"
  co_set :: "'c \<Rightarrow> string \<Rightarrow> nat \<Rightarrow> 'c"
  co_del :: "'c \<Rightarrow> string \<Rightarrow> 'c"
  co_items :: "'c \<Rightarrow> (string \<times> nat) list"
  co_flush :: "'c \<Rightarrow> 'c"

definition cache_laws :: "'c cache_ops \<Rightarrow> bool" where
  "cache_laws C \<longleftrightarrow>
     (\<forall>c k v k'. co_get C (co_set C c k v) k' = (if k' = k then Some v else co_get C c k')) \<and>
     (\<forall>c k k'. co_get C (co_del C c k) k' = (if k' = k then None else co_get C c k')) \<and>
     (\<forall>c k v. (k, v) \<in> set (co_items C c) \<longleftrightarrow> co_get C c k = Some v) \<and>
     (\<forall>c k. co_get C (co_flush C c) k = None)"

type_synonym limiter_heap = "rate_limiter list"

definition new_limiter :: "int \<Rightarrow> limiter_heap \<Rightarrow> nat \<times> limiter_heap" where
  "new_limiter r h = (length h, h @ [NewLimiter r])"

definition set_limiter :: "nat \<Rightarrow> int \<Rightarrow> limiter_heap \<Rightarrow> limiter_heap" where
  "set_limiter i n h = h[i := limiter_Set n (h ! i)]"

definition ServiceLimitKey :: string where "ServiceLimitKey = ''$''"
definition ConnLimitKey :: string where "ConnLimitKey = ''$$''"

text \<open>A rule gives the input and the output limit of a key.\<close>

record limitValue =
  lv_in :: int
  lv_out :: int

record 'c traffic =
  tl_conn_gen :: "limitValue option"
  tl_cidr :: "(ip_net \<times> limitValue) list"
  tl_connIn :: 'c
  tl_connOut :: 'c
  tl_in :: 'c
  tl_out :: 'c

text \<open>What the package calls: caches, the lookup of the networks of an address, sizes.\<close>

record 'c traffic_env =
  te_cache :: "'c cache_ops"
  te_containing :: "(ip_net \<times> limitValue) list \<Rightarrow> int option \<Rightarrow> limitValue list"
  te_bytes :: "string \<Rightarrow> int"

section \<open>Rules\<close>

definition traffic_parseLimit :: "(string \<Rightarrow> int) \<Rightarrow> string \<Rightarrow> string \<times> limitValue" where
  "traffic_parseLimit bytes s =
     (case blank_fields (TrimSpace (ReplaceTabs s)) of
        k # i # rest \<Rightarrow>
          (k, \<lparr>lv_in = (if bytes i > 0 then bytes i else 0),
               lv_out = (case rest of [] \<Rightarrow> 0 | u # _ \<Rightarrow> if bytes u > 0 then bytes u else 0)\<rparr>)
      | _ \<Rightarrow> ([], \<lparr>lv_in = 0, lv_out = 0\<rparr>))"

fun add_values ::
    "(string \<Rightarrow> int) \<Rightarrow> string list \<Rightarrow> (string \<times> limitValue) list \<Rightarrow> (string \<times> limitValue) list" where
  "add_values bytes [] vs = vs"
| "add_values bytes (l # ls) vs =
     (case traffic_parseLimit bytes l of
        (k, v) \<Rightarrow> add_values bytes ls (if k = [] then vs else AList.update k v vs))"

definition traffic_load :: "(string \<Rightarrow> int) \<Rightarrow> string list \<Rightarrow> loaders \<Rightarrow> (string \<times> limitValue) list" where
  "traffic_load bytes limits l =
     add_values bytes
       (limits @ file_patterns (ld_file l) @ map parseLine (redis_patterns (ld_redis l)) @
        http_patterns (ld_http l)) []"

definition value_of :: "(string \<times> limitValue) list \<Rightarrow> string \<Rightarrow> limitValue" where
  "value_of vs k = (case map_of vs k of Some v \<Rightarrow> v | None \<Rightarrow> \<lparr>lv_in = 0, lv_out = 0\<rparr>)"

section \<open>Handing out limiters\<close>

datatype scope = ScopeService | ScopeClient | ScopeConn

text \<open>
  One direction: the cache of connections, the cache of addresses, and the limit a rule gives in
  that direction. The limiters for the connection and for its address form a group.
\<close>

definition conn_limiter ::
    "'c cache_ops \<Rightarrow> string \<Rightarrow> int option \<Rightarrow> 'c \<Rightarrow> limiter_heap \<Rightarrow> nat list \<times> 'c \<times> limiter_heap" where
  "conn_limiter C key gen c h =
     (case co_get C c key of
        Some i \<Rightarrow> ([i], co_set C c key i, h)
      | None \<Rightarrow>
          (case gen of
             Some r \<Rightarrow>
               if r \<le> 0 then ([], c, h)
               else (case new_limiter r h of (i, h') \<Rightarrow> ([i], co_set C c key i, h'))
           | None \<Rightarrow> ([], c, h)))"

definition host_limiter ::
    "'c cache_ops \<Rightarrow> string \<Rightarrow> int list \<Rightarrow> 'c \<Rightarrow> limiter_heap \<Rightarrow> nat list \<times> 'c \<times> limiter_heap" where
  "host_limiter C host limits c h =
     (case co_get C c host of
        Some i \<Rightarrow> ([i], c, h)
      | None \<Rightarrow>
          (case limits of
             r # _ \<Rightarrow>
               if r \<le> 0 then ([], c, h)
               else (case new_limiter r h of (i, h') \<Rightarrow> ([i], co_set C c host i, h'))
           | [] \<Rightarrow> ([], c, h)))"

definition traffic_In ::
    "'c traffic_env \<Rightarrow> scope \<Rightarrow> string \<Rightarrow> 'c traffic \<Rightarrow> limiter_heap \<Rightarrow>
       nat list \<times> 'c traffic \<times> limiter_heap" where
  "traffic_In E sc key l h =
     (case sc of
        ScopeService \<Rightarrow>
          ((case co_get (te_cache E) (tl_in l) ServiceLimitKey of Some i \<Rightarrow> [i] | None \<Rightarrow> []), l, h)
      | ScopeClient \<Rightarrow> ([], l, h)
      | ScopeConn \<Rightarrow>
          (case conn_limiter (te_cache E) key (map_option lv_in (tl_conn_gen l)) (tl_connIn l) h of
             (is, c, h1) \<Rightarrow>
               (let host = split_host key in
                case host_limiter (te_cache E) host
                       (map lv_in (te_containing E (tl_cidr l) (ParseIP host))) (tl_in l) h1 of
                  (js, d, h2) \<Rightarrow> (is @ js, l\<lparr>tl_connIn := c, tl_in := d\<rparr>, h2))))"

definition traffic_Out ::
    "'c traffic_env \<Rightarrow> scope \<Rightarrow> string \<Rightarrow> 'c traffic \<Rightarrow> limiter_heap \<Rightarrow>
       nat list \<times> 'c traffic \<times> limiter_heap" where
  "traffic_Out E sc key l h =
     (case sc of
        ScopeService \<Rightarrow>
          ((case co_get (te_cache E) (tl_out l) ServiceLimitKey of Some i \<Rightarrow> [i] | None \<Rightarrow> []), l, h)
      | ScopeClient \<Rightarrow> ([], l, h)
      | ScopeConn \<Rightarrow>
          (case conn_limiter (te_cache E) key (map_option lv_out (tl_conn_gen l)) (tl_connOut l) h of
             (is, c, h1) \<Rightarrow>
               (let host = split_host key in
                case host_limiter (te_cache E) host
                       (map lv_out (te_containing E (tl_cidr l) (ParseIP host))) (tl_out l) h1 of
                  (js, d, h2) \<Rightarrow> (is @ js, l\<lparr>tl_connOut := c, tl_out := d\<rparr>, h2))))"

section \<open>Reloading\<close>

text \<open>A cached limiter of a key is set, removed or made, as the new limit says.\<close>

definition set_key :: "'c cache_ops \<Rightarrow> string \<Rightarrow> int \<Rightarrow> 'c \<times> limiter_heap \<Rightarrow> 'c \<times> limiter_heap" where
  "set_key C key r s =
     (case s of (c, h) \<Rightarrow>
        (case co_get C c key of
           Some i \<Rightarrow> if r \<le> 0 then (co_del C c key, h) else (c, set_limiter i r h)
         | None \<Rightarrow>
             if r > 0 then (case new_limiter r h of (i, h') \<Rightarrow> (co_set C c key i, h')) else (c, h)))"

text \<open>
  Connections in one direction: \<open>old\<close> is the limit of the generator that is replaced. The limiters
  of the cached connections are given the old limit.
\<close>

definition reset_conns ::
    "'c cache_ops \<Rightarrow> int \<Rightarrow> int \<Rightarrow> 'c \<times> limiter_heap \<Rightarrow> 'c \<times> limiter_heap" where
  "reset_conns C old new s =
     (case s of (c, h) \<Rightarrow>
        if new \<le> 0 then (co_flush C c, h)
        else if old \<noteq> new then
          (c, foldl (\<lambda>g (k, i). set_limiter i old g) h (co_items C c))
        else (c, h))"

text \<open>The keys that are addresses, one after the other; the last component lists the keys set.\<close>

fun set_hosts ::
    "'c cache_ops \<Rightarrow> (limitValue \<Rightarrow> int) \<Rightarrow> (string \<times> limitValue) list \<Rightarrow> 'c \<times> limiter_heap \<Rightarrow>
       'c \<times> limiter_heap" where
  "set_hosts C dir [] s = s"
| "set_hosts C dir ((k, v) # vs) s =
     (if ParseCIDR k \<noteq> None then set_hosts C dir vs s else set_hosts C dir vs (set_key C k (dir v) s))"

text \<open>
  The limiters left over from networks: \<open>olds\<close> is the snapshot of the cache before, without the
  service and without the keys that have been found again.
\<close>

fun clean_hosts ::
    "'c cache_ops \<Rightarrow> (int option \<Rightarrow> limitValue list) \<Rightarrow> (limitValue \<Rightarrow> int) \<Rightarrow> (string \<times> nat) list \<Rightarrow>
       'c \<times> limiter_heap \<Rightarrow> 'c \<times> limiter_heap" where
  "clean_hosts C containing dir [] s = s"
| "clean_hosts C containing dir ((k, i) # olds) s =
     clean_hosts C containing dir olds
       (case s of (c, h) \<Rightarrow>
          (case containing (ParseIP k) of
             v # _ \<Rightarrow>
               if dir v \<le> 0 then (co_del C c k, h)
               else if rl_limit (h ! i) \<noteq> dir v then (c, set_limiter i (dir v) h) else (c, h)
           | [] \<Rightarrow> (co_del C c k, h)))"

definition reload_hosts ::
    "'c traffic_env \<Rightarrow> (limitValue \<Rightarrow> int) \<Rightarrow> (ip_net \<times> limitValue) list \<Rightarrow>
       (string \<times> limitValue) list \<Rightarrow> 'c \<times> limiter_heap \<Rightarrow> 'c \<times> limiter_heap" where
  "reload_hosts E dir cidr vs s =
     (let hosts = filter (\<lambda>(k, v). ParseCIDR k = None) vs;
          olds = filter (\<lambda>(k, i). k \<noteq> ServiceLimitKey \<and> k \<notin> fst ` set hosts)
                   (co_items (te_cache E) (fst s))
      in clean_hosts (te_cache E) (te_containing E cidr) dir olds
           (set_hosts (te_cache E) dir vs s))"

definition cidr_rules :: "(string \<times> limitValue) list \<Rightarrow> (ip_net \<times> limitValue) list" where
  "cidr_rules vs =
     concat (map (\<lambda>(k, v). case ParseCIDR k of Some n \<Rightarrow> [(n, v)] | None \<Rightarrow> []) vs)"

definition traffic_reload ::
    "'c traffic_env \<Rightarrow> (string \<times> limitValue) list \<Rightarrow> 'c traffic \<Rightarrow> limiter_heap \<Rightarrow> 'c traffic \<times> limiter_heap" where
  "traffic_reload E vs l h =
     (let C = te_cache E;
          service = value_of vs ServiceLimitKey;
          conn = value_of vs ConnLimitKey;
          old = (case tl_conn_gen l of Some g \<Rightarrow> g | None \<Rightarrow> \<lparr>lv_in = 0, lv_out = 0\<rparr>);
          vs' = filter (\<lambda>(k, v). k \<noteq> ServiceLimitKey \<and> k \<noteq> ConnLimitKey) vs;
          cidr = cidr_rules vs'
      in case set_key C ServiceLimitKey (lv_in service) (tl_in l, h) of
           (i1, h1) \<Rightarrow>
         (case set_key C ServiceLimitKey (lv_out service) (tl_out l, h1) of
            (o1, h2) \<Rightarrow>
          (case reset_conns C (lv_in old) (lv_in conn) (tl_connIn l, h2) of
             (ci, h3) \<Rightarrow>
           (case reset_conns C (lv_out old) (lv_out conn) (tl_connOut l, h3) of
              (co, h4) \<Rightarrow>
            (case reload_hosts E lv_in cidr vs' (i1, h4) of
               (i2, h5) \<Rightarrow>
             (case reload_hosts E lv_out cidr vs' (o1, h5) of
                (o2, h6) \<Rightarrow>
                  (\<lparr>tl_conn_gen = Some conn, tl_cidr = cidr, tl_connIn = ci, tl_connOut = co,
                    tl_in = i2, tl_out = o2\<rparr>, h6)))))))"

section \<open>What an operation on one cache can touch\<close>

definition owns :: "'c cache_ops \<Rightarrow> 'c \<Rightarrow> nat \<Rightarrow> bool" where
  "owns C c j = (\<exists>k. co_get C c k = Some j)"

text \<open>
  From the cache \<open>c\<close> and the heap \<open>h\<close> on, only limiters of the cache have changed, and what the
  cache holds now it held before or has made since.
\<close>

definition touches_own :: "'c cache_ops \<Rightarrow> 'c \<times> limiter_heap \<Rightarrow> 'c \<times> limiter_heap \<Rightarrow> bool" where
  "touches_own C s t \<longleftrightarrow>
     length (snd s) \<le> length (snd t) \<and>
     (\<forall>j<length (snd s). \<not> owns C (fst s) j \<longrightarrow> snd t ! j = snd s ! j) \<and>
     (\<forall>j. owns C (fst t) j \<longrightarrow> owns C (fst s) j \<or> length (snd s) \<le> j)"

lemma touches_refl [simp]: "touches_own C s s"
  by (simp add: touches_own_def)

lemma touches_trans:
  assumes "touches_own C s t" "touches_own C t u"
  shows "touches_own C s u"
  using assms unfolding touches_own_def
  by (metis (no_types, lifting) dual_order.trans leD less_le_trans)

lemma owns_set [simp]: "cache_laws C \<Longrightarrow> owns C (co_set C c k i) j \<Longrightarrow> owns C c j \<or> j = i"
  unfolding owns_def cache_laws_def by (metis option.inject)

lemma owns_del: "cache_laws C \<Longrightarrow> owns C (co_del C c k) j \<Longrightarrow> owns C c j"
  unfolding owns_def cache_laws_def by (metis option.distinct(1))

lemma owns_flush: "cache_laws C \<Longrightarrow> \<not> owns C (co_flush C c) j"
  by (simp add: owns_def cache_laws_def)

lemma set_limiter_simps [simp]:
  "length (set_limiter i n h) = length h"
  "j \<noteq> i \<Longrightarrow> set_limiter i n h ! j = h ! j"
  "i < length h \<Longrightarrow> rl_limit (set_limiter i n h ! i) = n"
  by (simp_all add: set_limiter_def limiter_Set_def)

lemma touches_set: "owns C c i \<Longrightarrow> touches_own C (c, h) (c, set_limiter i n h)"
  by (auto simp: touches_own_def intro: set_limiter_simps(2))

lemma touches_del: "cache_laws C \<Longrightarrow> touches_own C (c, h) (co_del C c k, h)"
  by (auto simp: touches_own_def dest: owns_del)

lemma touches_new:
  "cache_laws C \<Longrightarrow> new_limiter r h = (i, h') \<Longrightarrow> touches_own C (c, h) (co_set C c k i, h')"
  by (auto simp: touches_own_def new_limiter_def nth_append dest: owns_set)

lemma set_key_touches: "cache_laws C \<Longrightarrow> touches_own C s (set_key C k r s)"
proof (cases s)
  case (Pair c h)
  assume C: "cache_laws C"
  have "owns C c i" if "co_get C c k = Some i" for i using that by (auto simp: owns_def)
  then show ?thesis
    by (auto simp: Pair set_key_def touches_set touches_del [OF C] touches_new [OF C]
        split: option.split prod.split)
qed

lemma items_owned: "cache_laws C \<Longrightarrow> (k, i) \<in> set (co_items C c) \<Longrightarrow> owns C c i"
  unfolding owns_def cache_laws_def by blast

lemma foldl_set_touches:
  "\<forall>(k, i)\<in>set xs. owns C c i \<Longrightarrow>
   touches_own C (c, h) (c, foldl (\<lambda>g (k, i). set_limiter i n g) h xs)"
proof (induction xs arbitrary: h)
  case (Cons x xs)
  obtain k i where x: "x = (k, i)" by (cases x)
  have "touches_own C (c, h) (c, set_limiter i n h)" using Cons.prems x by (auto intro: touches_set)
  then show ?case using Cons touches_trans x by fastforce
qed simp

lemma reset_conns_touches: "cache_laws C \<Longrightarrow> touches_own C s (reset_conns C old new s)"
proof (cases s)
  case (Pair c h)
  assume C: "cache_laws C"
  then have "touches_own C (c, h) (co_flush C c, h)" by (simp add: touches_own_def owns_flush)
  moreover have "touches_own C (c, h) (c, foldl (\<lambda>g (k, i). set_limiter i old g) h (co_items C c))"
    by (rule foldl_set_touches) (use items_owned [OF C] in auto)
  ultimately show ?thesis by (simp add: Pair reset_conns_def)
qed

lemma set_hosts_touches: "cache_laws C \<Longrightarrow> touches_own C s (set_hosts C dir vs s)"
proof (induction C dir vs s rule: set_hosts.induct)
  case (2 C dir k v vs s)
  show ?case
  proof (cases "ParseCIDR k = None")
    case True
    then have "touches_own C (set_key C k (dir v) s) (set_hosts C dir vs (set_key C k (dir v) s))"
      using 2 by simp
    then have "touches_own C s (set_hosts C dir vs (set_key C k (dir v) s))"
      using set_key_touches [OF 2(3)] touches_trans by blast
    then show ?thesis using True by simp
  next
    case False
    then show ?thesis using 2 by simp
  qed
qed simp

lemma touches_later:
  assumes C: "cache_laws C" and s: "touches_own C s0 (c, h)" and i: "owns C (fst s0) i"
  shows "touches_own C s0 (c, set_limiter i n h)" "touches_own C s0 (co_del C c k, h)"
  using s i owns_del [OF C] unfolding touches_own_def
  by (auto intro!: set_limiter_simps(2) trans [OF set_limiter_simps(2)])

lemma clean_hosts_touches:
  "cache_laws C \<Longrightarrow> touches_own C s0 s \<Longrightarrow> \<forall>(k, i)\<in>set olds. owns C (fst s0) i \<Longrightarrow>
   touches_own C s0 (clean_hosts C containing dir olds s)"
proof (induction C containing dir olds s rule: clean_hosts.induct)
  case (2 C containing dir k i olds s)
  obtain c h where s: "s = (c, h)" by (cases s)
  have own: "owns C (fst s0) i" using 2(4) by simp
  note later = touches_later [OF 2(2) 2(3) [unfolded s] own]
  show ?case
    using 2 later s by (auto split: list.split)
qed simp

lemma reload_hosts_touches: "cache_laws (te_cache E) \<Longrightarrow> touches_own (te_cache E) s (reload_hosts E dir cidr vs s)"
  unfolding reload_hosts_def Let_def
  by (intro clean_hosts_touches set_hosts_touches) (auto dest: items_owned)

section \<open>What a reload does to limiters in use\<close>

lemma touches_other: "touches_own C (c, h) (c', h') \<Longrightarrow> i < length h \<Longrightarrow> \<not> owns C c i \<Longrightarrow> h' ! i = h ! i \<and> i < length h' \<and> \<not> owns C c' i"
  unfolding touches_own_def by fastforce

lemma foldl_set_length [simp]: "length (foldl (\<lambda>g (k, i). set_limiter i n g) h xs) = length h"
  by (induction xs rule: rev_induct) auto

lemma foldl_set_limit:
  "i \<in> snd ` set xs \<Longrightarrow> i < length h \<Longrightarrow> rl_limit (foldl (\<lambda>g (k, i). set_limiter i n g) h xs ! i) = n"
proof (induction xs rule: rev_induct)
  case (snoc x xs)
  obtain k j where x: "x = (k, j)" by (cases x)
  show ?case using snoc x by (cases "j = i") auto
qed simp

lemma reset_conns_limit:
  assumes "cache_laws C" "0 < new" "old \<noteq> new" "co_get C c k = Some i" "i < length h"
    and "reset_conns C old new (c, h) = (c', h')"
  shows "c' = c \<and> rl_limit (h' ! i) = old \<and> length h' = length h"
proof -
  have "(k, i) \<in> set (co_items C c)" using assms(1,4) by (simp add: cache_laws_def)
  then have "i \<in> snd ` set (co_items C c)" by force
  note foldl_set_limit [OF this assms(5), of old]
  then show ?thesis using assms(2,3,6) by (auto simp: reset_conns_def)
qed

text \<open>
  A reload gives open connections the limit they had, not the new one. When the input limit
  per connection changes from one positive value to another, the limiter of every connection that
  is cached stays in use with the limit of before, while connections opened later get the new one.
\<close>

theorem reload_keeps_old_conn_limit:
  assumes "cache_laws (te_cache E)" "tl_conn_gen l = Some g"
    and "0 < lv_in (value_of vs ConnLimitKey)" "lv_in g \<noteq> lv_in (value_of vs ConnLimitKey)"
    and "co_get (te_cache E) (tl_connIn l) key = Some i" "i < length h"
    and "\<not> owns (te_cache E) (tl_in l) i" "\<not> owns (te_cache E) (tl_out l) i"
    and "\<not> owns (te_cache E) (tl_connOut l) i"
    and "traffic_reload E vs l h = (l', h')"
  shows "co_get (te_cache E) (tl_connIn l') key = Some i \<and> rl_limit (h' ! i) = lv_in g \<and>
    tl_conn_gen l' = Some (value_of vs ConnLimitKey)"
proof -
  let ?C = "te_cache E" and ?vs = "filter (\<lambda>(k, v). k \<noteq> ServiceLimitKey \<and> k \<noteq> ConnLimitKey) vs"
  note C = assms(1)
  obtain i1 h1 where 1: "set_key ?C ServiceLimitKey (lv_in (value_of vs ServiceLimitKey)) (tl_in l, h) = (i1, h1)"
    by fastforce
  obtain o1 h2 where 2: "set_key ?C ServiceLimitKey (lv_out (value_of vs ServiceLimitKey)) (tl_out l, h1) = (o1, h2)"
    by fastforce
  obtain ci h3 where 3: "reset_conns ?C (lv_in g) (lv_in (value_of vs ConnLimitKey)) (tl_connIn l, h2) = (ci, h3)"
    by fastforce
  obtain co h4 where 4: "reset_conns ?C (lv_out g) (lv_out (value_of vs ConnLimitKey)) (tl_connOut l, h3) = (co, h4)"
    by fastforce
  obtain i2 h5 where 5: "reload_hosts E lv_in (cidr_rules ?vs) ?vs (i1, h4) = (i2, h5)" by fastforce
  obtain o2 h6 where 6: "reload_hosts E lv_out (cidr_rules ?vs) ?vs (o1, h5) = (o2, h6)" by fastforce
  have r: "l' = \<lparr>tl_conn_gen = Some (value_of vs ConnLimitKey), tl_cidr = cidr_rules ?vs,
      tl_connIn = ci, tl_connOut = co, tl_in = i2, tl_out = o2\<rparr>" "h' = h6"
    using assms(2,10) 1 2 3 4 5 6 by (simp_all add: traffic_reload_def Let_def)
  have "touches_own ?C (tl_in l, h) (i1, h1)" by (subst 1 [symmetric], rule set_key_touches [OF C])
  note t1 = touches_other [OF this assms(6,7)]
  have "touches_own ?C (tl_out l, h1) (o1, h2)" by (subst 2 [symmetric], rule set_key_touches [OF C])
  from touches_other [OF this _ assms(8)] t1 have t2: "i < length h2" "\<not> owns ?C o1 i" by blast+
  have t3: "ci = tl_connIn l" "rl_limit (h3 ! i) = lv_in g" "i < length h3"
    using reset_conns_limit [OF C assms(3,4,5) _ 3] t2 by auto
  have "touches_own ?C (tl_connOut l, h3) (co, h4)" by (subst 4 [symmetric], rule reset_conns_touches [OF C])
  from touches_other [OF this t3(3) assms(9)] have t4: "h4 ! i = h3 ! i" "i < length h4" by blast+
  have "touches_own ?C (i1, h4) (i2, h5)" by (subst 5 [symmetric], rule reload_hosts_touches [OF C])
  from touches_other [OF this t4(2)] have t5: "h5 ! i = h4 ! i" "i < length h5" using t1 by blast+
  have "touches_own ?C (o1, h5) (o2, h6)" by (subst 6 [symmetric], rule reload_hosts_touches [OF C])
  from touches_other [OF this t5(2)] have "h6 ! i = h5 ! i" using t2 by blast
  then show ?thesis using t3 t4 t5 r assms(5) by simp
qed

text \<open>A cache that forgets nothing: an association list.\<close>

definition list_cache :: "((string \<times> nat) list) cache_ops" where
  "list_cache = \<lparr>co_get = (\<lambda>c k. map_of c k), co_set = (\<lambda>c k v. (k, v) # filter (\<lambda>(k', v'). k' \<noteq> k) c),
     co_del = (\<lambda>c k. filter (\<lambda>(k', v'). k' \<noteq> k) c), co_items = (\<lambda>c. filter (\<lambda>(k, v). map_of c k = Some v) c),
     co_flush = (\<lambda>c. [])\<rparr>"

lemma map_of_drop: "map_of (filter (\<lambda>(k', v'). k' \<noteq> k) c) k' = (if k' = k then None else map_of c k')"
  by (induction c) auto

lemma list_cache_laws: "cache_laws list_cache"
  by (auto simp: cache_laws_def list_cache_def map_of_drop dest: map_of_SomeD)

definition list_env :: "((string \<times> nat) list) traffic_env" where
  "list_env = \<lparr>te_cache = list_cache, te_containing = (\<lambda>ns ip. []), te_bytes = (\<lambda>s. 0)\<rparr>"

definition limited_conn :: "((string \<times> nat) list) traffic" where
  "limited_conn = \<lparr>tl_conn_gen = Some \<lparr>lv_in = 100, lv_out = 0\<rparr>, tl_cidr = [],
     tl_connIn = [(''c'', 0)], tl_connOut = [], tl_in = [], tl_out = []\<rparr>"

theorem reload_keeps_old_conn_limit_witness:
  "rl_limit (snd (traffic_reload list_env [(''$$'', \<lparr>lv_in = 200, lv_out = 0\<rparr>)] limited_conn [NewLimiter 100]) ! 0) = 100"
proof -
  let ?r = "traffic_reload list_env [(''$$'', \<lparr>lv_in = 200, lv_out = 0\<rparr>)] limited_conn [NewLimiter 100]"
  have e: "te_cache list_env = list_cache" by (simp add: list_env_def)
  have g: "tl_conn_gen limited_conn = Some \<lparr>lv_in = 100, lv_out = 0\<rparr>" by (simp add: limited_conn_def)
  have v: "lv_in (value_of [(''$$'', \<lparr>lv_in = 200, lv_out = 0\<rparr>)] ConnLimitKey) = 200"
    by (simp add: value_of_def ConnLimitKey_def)
  have k: "co_get list_cache (tl_connIn limited_conn) ''c'' = Some 0"
    by (simp add: list_cache_def limited_conn_def)
  have o: "\<not> owns list_cache [] j" for j by (simp add: owns_def list_cache_def)
  have "cache_laws (te_cache list_env)" "0 < lv_in (value_of [(''$$'', \<lparr>lv_in = 200, lv_out = 0\<rparr>)] ConnLimitKey)"
    "lv_in \<lparr>lv_in = 100, lv_out = 0\<rparr> \<noteq> lv_in (value_of [(''$$'', \<lparr>lv_in = 200, lv_out = 0\<rparr>)] ConnLimitKey)"
    by (simp_all add: e v list_cache_laws)
  note a = reload_keeps_old_conn_limit [OF this(1) g this(2,3), of "''c''" 0 "[NewLimiter 100]" "fst ?r" "snd ?r"]
  show ?thesis using a k o by (simp add: e limited_conn_def)
qed

end
