(* ===== verification/NameTables.thy ===== *)
theory NameTables
  imports Matcher
begin

text \<open>
  Tables looked up by host name: the host mapper, \<open>x/hosts/hosts.go\<close>, the ingress,
  \<open>x/ingress/ingress.go\<close>, and \<open>Resolve\<close> of \<open>x/internal/net/resovle.go\<close>, which asks the mapper
  before the resolver. Both tables read lines from the same loaders and search a host in the same
  order.
\<close>

section \<open>Lines and the order of the search\<close>

definition line_fields :: "string \<Rightarrow> string list" where
  "line_fields s =
     (let line = TrimSpace (ReplaceTabs s);
          line' = (case IndexByte line CHR ''#'' of None \<Rightarrow> line | Some n \<Rightarrow> take n line)
      in nonempty (map TrimSpace (Split line' CHR '' '')))"

function suffix_find :: "(string \<Rightarrow> 'v option) \<Rightarrow> string \<Rightarrow> 'v option" where
  "suffix_find look s =
     (case IndexByte s CHR ''.'' of
        None \<Rightarrow> None
      | Some i \<Rightarrow>
          if i > 0 then
            (case look (drop i s) of
               Some v \<Rightarrow> Some v
             | None \<Rightarrow> suffix_find look (drop (Suc i) s))
          else None)"
  by pat_completeness auto
termination by (relation "measure (\<lambda>(l, s). length s)") (auto dest: IndexByte_Some)

declare suffix_find.simps [simp del]

definition find_rule :: "(string \<Rightarrow> 'v option) \<Rightarrow> string \<Rightarrow> 'v option" where
  "find_rule look host =
     (case look host of
        Some v \<Rightarrow> Some v
      | None \<Rightarrow>
          (case look (CHR ''.'' # host) of Some v \<Rightarrow> Some v | None \<Rightarrow> suffix_find look host))"

section \<open>The host mapper\<close>

type_synonym host_table = "string \<rightharpoonup> int list"

text \<open>\<open>mapf\<close> appends an address a host does not have yet.\<close>

definition add_mapping :: "string \<times> int \<Rightarrow> host_table \<Rightarrow> host_table" where
  "add_mapping e t =
     (case e of
        (h, ip) \<Rightarrow>
          (let ips = (case t h of Some v \<Rightarrow> v | None \<Rightarrow> [])
           in t(h \<mapsto> (if ip \<in> set ips then ips else ips @ [ip]))))"

definition hosts_parseLine :: "string \<Rightarrow> (string \<times> int) list" where
  "hosts_parseLine s =
     (case line_fields s of
        a # h # hs \<Rightarrow> (case ParseIP a of Some ip \<Rightarrow> map (\<lambda>v. (v, ip)) (h # hs) | None \<Rightarrow> [])
      | _ \<Rightarrow> [])"

definition parseMapping :: "string option \<Rightarrow> (string \<times> int) list" where
  "parseMapping r = (case r of None \<Rightarrow> [] | Some s \<Rightarrow> concat (map hosts_parseLine (scan_lines s)))"

fun source_mappings :: "source \<Rightarrow> (string \<times> int) list" where
  "source_mappings Absent = []"
| "source_mappings (Listed ls) = concat (map hosts_parseLine ls)"
| "source_mappings (Reader r) = parseMapping r"

text \<open>An http loader is no lister.\<close>

definition hosts_load :: "loaders \<Rightarrow> (string \<times> int) list" where
  "hosts_load l =
     source_mappings (ld_file l) @ source_mappings (ld_redis l) @
     (case ld_http l of Reader r \<Rightarrow> parseMapping r | _ \<Rightarrow> [])"

definition hosts_reload :: "(string \<times> int) list \<Rightarrow> loaders \<Rightarrow> host_table" where
  "hosts_reload mappings l = fold add_mapping (mappings @ hosts_load l) Map.empty"

definition in_family :: "string \<Rightarrow> int \<Rightarrow> bool" where
  "in_family network ip =
     (if network = ''ip4'' then To4 ip \<noteq> None else if network = ''ip6'' then To4 ip = None else True)"

text \<open>The second result, \<open>ok\<close>, is never set.\<close>

definition hosts_Lookup :: "host_table \<Rightarrow> string \<Rightarrow> string \<Rightarrow> int list \<times> bool" where
  "hosts_Lookup t network host =
     (case find_rule t host of
        None \<Rightarrow> ([], False)
      | Some ips \<Rightarrow> (filter (in_family network) ips, False))"

section \<open>Resolving an address\<close>

datatype resolve_error = ResolveOk | ErrInvalid | ResolveFailed string

text \<open>
  The host mapper and the resolver are interfaces; a host mapper answers \<open>ips, ok\<close> of which only
  the addresses are read.
\<close>

definition Resolve_addr ::
    "(int \<Rightarrow> string) \<Rightarrow> string \<Rightarrow> string \<Rightarrow> (string \<Rightarrow> string \<Rightarrow> int list \<times> resolve_error) option \<Rightarrow>
       (string \<Rightarrow> string \<Rightarrow> int list \<times> bool) option \<Rightarrow> string + string" where
  "Resolve_addr text network a r hosts =
     (if a = [] then Inr a
      else if split_host a = [] then Inr a
      else
        (let host = split_host a; port = split_port a;
             hit = (case hosts of None \<Rightarrow> [] | Some f \<Rightarrow> fst (f network host))
         in if hit \<noteq> [] then Inr (JoinHostPort (text (hd hit)) port)
            else case r of
              None \<Rightarrow> Inr a
            | Some f \<Rightarrow>
                (case f network host of
                   (ips, e) \<Rightarrow>
                     if e = ErrInvalid then Inr a
                     else if ips = [] then
                       Inl (''resolver: domain '' @ host @ '' does not exist'')
                     else Inr (JoinHostPort (text (hd ips)) port))))"

section \<open>The ingress\<close>

record ingress_rule =
  ir_host :: string
  ir_endpoint :: string

text \<open>\<open>None\<close> is \<open>nil\<close>: a line with fewer than two fields.\<close>

definition ingress_parseLine :: "string \<Rightarrow> ingress_rule option" where
  "ingress_parseLine s =
     (case line_fields s of
        a # b # _ \<Rightarrow> Some \<lparr>ir_host = a, ir_endpoint = b\<rparr>
      | _ \<Rightarrow> None)"

text \<open>
  \<open>parseRules\<close> and \<open>reload\<close> read a field of every rule, so a \<open>nil\<close> among them is a panic, the
  outer \<open>None\<close>.
\<close>

fun parse_rules :: "string list \<Rightarrow> ingress_rule option list option" where
  "parse_rules [] = Some []"
| "parse_rules (s # ss) =
     (case ingress_parseLine s of
        None \<Rightarrow> None
      | Some r \<Rightarrow>
          map_option (\<lambda>rs. if ir_host r \<noteq> [] then Some r # rs else rs) (parse_rules ss))"

definition parseRules :: "string option \<Rightarrow> ingress_rule option list option" where
  "parseRules r = (case r of None \<Rightarrow> Some [] | Some s \<Rightarrow> parse_rules (scan_lines s))"

fun source_rules :: "source \<Rightarrow> ingress_rule option list option" where
  "source_rules Absent = Some []"
| "source_rules (Listed ls) = Some (map ingress_parseLine ls)"
| "source_rules (Reader r) = parseRules r"

definition ingress_load :: "loaders \<Rightarrow> ingress_rule option list option" where
  "ingress_load l =
     (case source_rules (ld_file l) of
        None \<Rightarrow> None
      | Some a \<Rightarrow>
          (case source_rules (ld_redis l) of
             None \<Rightarrow> None
           | Some b \<Rightarrow>
               (case (case ld_http l of Reader r \<Rightarrow> parseRules r | _ \<Rightarrow> Some []) of
                  None \<Rightarrow> None
                | Some c \<Rightarrow> Some (a @ b @ c))))"

type_synonym ingress_table = "string \<rightharpoonup> ingress_rule"

definition ingress_key :: "string \<Rightarrow> string" where
  "ingress_key host = (if hd host = CHR ''*'' then tl host else host)"

fun add_rules :: "ingress_rule option list \<Rightarrow> ingress_table \<Rightarrow> ingress_table option" where
  "add_rules [] t = Some t"
| "add_rules (r # rs) t =
     (case r of
        None \<Rightarrow> None
      | Some x \<Rightarrow>
          if ir_host x = [] \<or> ir_endpoint x = [] then add_rules rs t
          else add_rules rs (t(ingress_key (ir_host x) \<mapsto> x)))"

definition ingress_reload :: "ingress_rule list \<Rightarrow> loaders \<Rightarrow> ingress_table option" where
  "ingress_reload rules l =
     (case add_rules (map Some rules) Map.empty of
        None \<Rightarrow> None
      | Some t \<Rightarrow> (case ingress_load l of None \<Rightarrow> None | Some rs \<Rightarrow> add_rules rs t))"

definition GetRule :: "ingress_table \<Rightarrow> string \<Rightarrow> ingress_rule option" where
  "GetRule t host =
     (if host = [] then None else find_rule t (host_or_all host))"

section \<open>The most specific rule\<close>

lemma suffix_find_None: "suffix_find look h = None \<longleftrightarrow> \<not> suffix_hit (\<lambda>s. look s \<noteq> None) h"
proof (induction look h rule: suffix_find.induct)
  case (1 look h)
  then show ?case
    by (subst suffix_find.simps, subst suffix_hit.simps) (auto split: option.splits)
qed

lemma suffix_find_best:
  assumes "plain_host h" "pre \<noteq> []" "h = pre @ CHR ''.'' # s" "look (CHR ''.'' # s) = Some v"
    and "\<And>pre' s'. pre' \<noteq> [] \<Longrightarrow> h = pre' @ CHR ''.'' # s' \<Longrightarrow> look (CHR ''.'' # s') \<noteq> None \<Longrightarrow>
      length s' \<le> length s"
  shows "suffix_find look h = Some v"
  using assms
proof (induction look h arbitrary: pre rule: suffix_find.induct)
  case (1 look h)
  have "CHR ''.'' \<in> set h" using 1(4) by simp
  then obtain i where Some: "IndexByte h CHR ''.'' = Some i"
    by (cases "IndexByte h CHR ''.''") (auto simp: IndexByte_None)
  define a b where "a = take i h" and "b = drop (Suc i) h"
  have h: "h = a @ CHR ''.'' # b" "drop i h = CHR ''.'' # b" "CHR ''.'' \<notin> set a"
    using IndexByte_split [OF Some] by (simp_all add: a_def b_def)
  have a: "a \<noteq> []" "plain_host b" using plain_host_after 1(2) h(1) by auto
  then have i: "0 < i" by (auto simp: a_def)
  have c: "(pre = a \<and> s = b) \<or> (\<exists>d. pre = a @ CHR ''.'' # d \<and> b = d @ CHR ''.'' # s)"
    by (rule split_first_unique [OF _ h(3)]) (use h(1) 1(4) in simp)
  show ?case
  proof (cases "look (CHR ''.'' # b)")
    case (Some w)
    then have "length b \<le> length s" using 1(6) [OF a(1) h(1)] by simp
    then have "s = b" using c by auto
    then show ?thesis using Some i h(2) 1(5) \<open>IndexByte h CHR ''.'' = Some i\<close>
      by (subst suffix_find.simps) simp
  next
    case None
    then obtain d where d: "b = d @ CHR ''.'' # s" using c 1(5) by auto
    then have "d \<noteq> []" using plain_host_after a(2) by blast
    have "suffix_find look b = Some v"
      unfolding b_def
    proof (rule 1(1) [OF Some i])
      show "look (drop i h) = None" using None h(2) by simp
      show "plain_host (drop (Suc i) h)" using a(2) by (simp add: b_def)
      show "d \<noteq> []" by fact
      show "drop (Suc i) h = d @ CHR ''.'' # s" using d by (simp add: b_def)
      show "look (CHR ''.'' # s) = Some v" by (rule 1(5))
      show "length s' \<le> length s"
        if "pre' \<noteq> []" "drop (Suc i) h = pre' @ CHR ''.'' # s'" "look (CHR ''.'' # s') \<noteq> None" for pre' s'
      proof -
        have "b = pre' @ CHR ''.'' # s'" using that(2) by (simp only: b_def)
        then have "h = (a @ CHR ''.'' # pre') @ CHR ''.'' # s'" using h(1) by simp
        then show ?thesis using 1(6) [of "a @ CHR ''.'' # pre'" s'] that(3) by blast
      qed
    qed
    then show ?thesis using None i h(2) \<open>IndexByte h CHR ''.'' = Some i\<close>
      by (subst suffix_find.simps) (simp add: b_def)
  qed
qed

text \<open>Which rule names cover a host, and which of two covering ones goes first.\<close>

definition covers :: "string \<Rightarrow> string \<Rightarrow> bool" where
  "covers rule host \<longleftrightarrow>
     rule = host \<or> (HasPrefix rule ''.'' \<and> (\<exists>labels. CHR ''.'' # host = labels @ rule))"

definition goes_first :: "string \<Rightarrow> string \<Rightarrow> string \<Rightarrow> bool" where
  "goes_first host n n' \<longleftrightarrow> n = host \<or> (n' \<noteq> host \<and> length n' \<le> length n)"

definition best_rule :: "(string \<Rightarrow> 'v option) \<Rightarrow> string \<Rightarrow> string \<Rightarrow> bool" where
  "best_rule look host n \<longleftrightarrow>
     covers n host \<and> (\<forall>n'. look n' \<noteq> None \<and> covers n' host \<longrightarrow> goes_first host n n')"

lemma covers_cases:
  assumes "covers n host"
  obtains "n = host" | "n = CHR ''.'' # host"
  | pre s where "pre \<noteq> []" "host = pre @ CHR ''.'' # s" "n = CHR ''.'' # s"
proof -
  consider "n = host" | labels where "HasPrefix n ''.''" "CHR ''.'' # host = labels @ n"
    using assms by (auto simp: covers_def)
  then show thesis
  proof cases
    case (2 labels)
    then obtain s where s: "n = CHR ''.'' # s" by (cases n) (auto simp: HasPrefix_def)
    show ?thesis
    proof (cases labels)
      case Nil
      then show ?thesis using 2 s that(2) by simp
    next
      case (Cons c pre)
      then have h: "host = pre @ CHR ''.'' # s" using 2 s by simp
      show ?thesis
        by (cases "pre = []") (use that h s in auto)
    qed
  qed (rule that(1))
qed

lemma covers_suffix: "host = pre @ CHR ''.'' # s \<Longrightarrow> covers (CHR ''.'' # s) host"
  by (auto simp: covers_def HasPrefix_def)

lemma find_rule_best:
  assumes "plain_host host" "best_rule look host n" "look n = Some v"
  shows "find_rule look host = Some v"
proof -
  have best: "look n' \<noteq> None \<Longrightarrow> covers n' host \<Longrightarrow> goes_first host n n'" for n'
    using assms(2) by (simp add: best_rule_def)
  have "covers n host" using assms(2) by (simp add: best_rule_def)
  then show ?thesis
  proof (cases rule: covers_cases)
    case 1
    then show ?thesis using assms(3) by (simp add: find_rule_def)
  next
    case 2
    have "look host = None"
      using best [of host] 2 by (cases "look host") (auto simp: covers_def goes_first_def)
    then show ?thesis using 2 assms(3) by (simp add: find_rule_def)
  next
    case (3 pre s)
    have ne: "n \<noteq> host" "length n < length (CHR ''.'' # host)" using 3 by auto
    have e: "look host = None"
      using best [of host] ne by (cases "look host") (auto simp: covers_def goes_first_def)
    have "covers (CHR ''.'' # host) host" using covers_suffix [of host "[]"] by (simp add: covers_def HasPrefix_def)
    then have d: "look (CHR ''.'' # host) = None"
      using best [of "CHR ''.'' # host"] ne by (cases "look (CHR ''.'' # host)") (auto simp: goes_first_def)
    have "suffix_find look host = Some v"
    proof (rule suffix_find_best [OF assms(1) 3(1,2)])
      show "look (CHR ''.'' # s) = Some v" using assms(3) 3 by simp
      show "length s' \<le> length s" if "pre' \<noteq> []" "host = pre' @ CHR ''.'' # s'" "look (CHR ''.'' # s') \<noteq> None" for pre' s'
        using best [OF that(3) covers_suffix [OF that(2)]] ne(1) 3(3) by (simp add: goes_first_def)
    qed
    then show ?thesis using e d by (simp add: find_rule_def)
  qed
qed

text \<open>
  Hosts and ingress answer with the most specific rule. Of all rules of a table that cover a
  host (the host itself, or a name with a leading dot the host ends in), the exact name goes first
  and then the longest; the host mapper returns its addresses of the wanted family, and the
  ingress its endpoint, whether or not the host comes with a port.
\<close>

theorem most_specific_rule_answers:
  assumes "plain_host host" "best_rule t host n" "best_rule g host m" "t n = Some ips" "g m = Some r"
    and "host_or_all a = host" "a \<noteq> []"
  shows "fst (hosts_Lookup t network host) = filter (in_family network) ips \<and> GetRule g a = Some r"
  using find_rule_best [OF assms(1,2,4)] find_rule_best [OF assms(1,3,5)] assms(6,7)
  by (simp add: hosts_Lookup_def GetRule_def)

definition sample_hosts :: host_table where
  "sample_hosts = [''.a.org'' \<mapsto> [1], ''.x.a.org'' \<mapsto> [mapped_v4 7, 2]]"

definition sample_ingress :: ingress_table where
  "sample_ingress = [''.org'' \<mapsto> \<lparr>ir_host = ''*.org'', ir_endpoint = ''e''\<rparr>]"

theorem most_specific_rule_answers_witness:
  "fst (hosts_Lookup sample_hosts ''ip4'' ''w.x.a.org'') = [mapped_v4 7] \<and>
   GetRule sample_ingress ''w.x.a.org:80'' = Some \<lparr>ir_host = ''*.org'', ir_endpoint = ''e''\<rparr>"
proof -
  let ?h = "''w.x.a.org''"
  have p: "plain_host ?h" "host_or_all ''w.x.a.org:80'' = ?h" "''w.x.a.org:80'' \<noteq> []" by code_simp+
  have c: "covers ''.x.a.org'' ?h" "covers ''.org'' ?h"
    using covers_suffix [of ?h "''w''" "''x.a.org''"] covers_suffix [of ?h "''w.x.a''" "''org''"] by simp_all
  have t: "sample_hosts ''.x.a.org'' = Some [mapped_v4 7, 2]" by (simp add: sample_hosts_def)
  have g: "sample_ingress ''.org'' = Some \<lparr>ir_host = ''*.org'', ir_endpoint = ''e''\<rparr>" by (simp add: sample_ingress_def)
  have "goes_first ?h ''.x.a.org'' n'" if "sample_hosts n' \<noteq> None" for n'
    using that by (auto simp: sample_hosts_def goes_first_def split: if_splits)
  moreover have "goes_first ?h ''.org'' n'" if "sample_ingress n' \<noteq> None" for n'
    using that by (auto simp: sample_ingress_def goes_first_def split: if_splits)
  ultimately have "best_rule sample_hosts ?h ''.x.a.org''" "best_rule sample_ingress ?h ''.org''"
    using c by (auto simp: best_rule_def)
  then have "fst (hosts_Lookup sample_hosts ''ip4'' ?h) = filter (in_family ''ip4'') [mapped_v4 7, 2] \<and>
      GetRule sample_ingress ''w.x.a.org:80'' = Some \<lparr>ir_host = ''*.org'', ir_endpoint = ''e''\<rparr>"
    using most_specific_rule_answers [of ?h sample_hosts "''.x.a.org''" sample_ingress "''.org''"] p t g by blast
  moreover have "filter (in_family ''ip4'') [mapped_v4 7, 2] = [mapped_v4 7]" by code_simp
  ultimately show ?thesis by simp
qed

section \<open>Tables\<close>

text \<open>No address is listed twice for a host.\<close>

lemma add_mapping_distinct:
  "\<forall>h ips. t h = Some ips \<longrightarrow> distinct ips \<and> ips \<noteq> [] \<Longrightarrow>
   \<forall>h ips. add_mapping e t h = Some ips \<longrightarrow> distinct ips \<and> ips \<noteq> []"
  by (cases e) (auto simp: add_mapping_def Let_def split: option.splits)

lemma hosts_reload_distinct: "hosts_reload ms l h = Some ips \<Longrightarrow> distinct ips \<and> ips \<noteq> []"
proof -
  have "\<forall>h ips. fold add_mapping es t h = Some ips \<longrightarrow> distinct ips \<and> ips \<noteq> []"
    if "\<forall>h ips. t h = Some ips \<longrightarrow> distinct ips \<and> ips \<noteq> []" for es and t :: host_table
    using that
  proof (induction es arbitrary: t)
    case (Cons e es)
    show ?case using Cons.IH [OF add_mapping_distinct [OF Cons.prems]] by simp
  qed simp
  from this [of Map.empty "ms @ hosts_load l"] show "hosts_reload ms l h = Some ips \<Longrightarrow> distinct ips \<and> ips \<noteq> []"
    by (simp add: hosts_reload_def)
qed

text \<open>The lines an ingress is given.\<close>

fun source_lines :: "source \<Rightarrow> string list" where
  "source_lines Absent = []"
| "source_lines (Listed ls) = ls"
| "source_lines (Reader r) = (case r of None \<Rightarrow> [] | Some s \<Rightarrow> scan_lines s)"

definition http_lines :: "source \<Rightarrow> string list" where
  "http_lines h = (case h of Reader r \<Rightarrow> source_lines (Reader r) | _ \<Rightarrow> [])"

definition all_lines :: "loaders \<Rightarrow> string list" where
  "all_lines l = source_lines (ld_file l) @ source_lines (ld_redis l) @ http_lines (ld_http l)"

definition two_fields :: "string \<Rightarrow> bool" where
  "two_fields s \<longleftrightarrow> 2 \<le> length (line_fields s)"

lemma ingress_parseLine_None: "ingress_parseLine s = None \<longleftrightarrow> \<not> two_fields s"
  by (cases "line_fields s"; cases "tl (line_fields s)") (auto simp: ingress_parseLine_def two_fields_def split: list.splits)

lemma parse_rules_None: "parse_rules ss = None \<longleftrightarrow> (\<exists>s\<in>set ss. \<not> two_fields s)"
  by (induction ss) (auto simp: ingress_parseLine_None [symmetric] split: option.splits)

lemma parse_rules_no_nil: "parse_rules ss = Some rs \<Longrightarrow> None \<notin> set rs"
  by (induction ss arbitrary: rs) (auto split: option.splits if_splits)

lemma add_rules_None: "add_rules rs t = None \<longleftrightarrow> None \<in> set rs"
proof (induction rs arbitrary: t)
  case (Cons r rs)
  then show ?case by (cases r) simp_all
qed simp

definition bad_source :: "source \<Rightarrow> bool" where
  "bad_source s \<longleftrightarrow> (\<exists>l\<in>set (source_lines s). \<not> two_fields l)"

lemma source_rules_bad:
  "bad_source s \<longleftrightarrow> (case source_rules s of None \<Rightarrow> True | Some rs \<Rightarrow> None \<in> set rs)"
proof (cases s)
  case (Listed ls)
  have "None \<in> set (map ingress_parseLine ls) \<longleftrightarrow> (\<exists>l\<in>set ls. ingress_parseLine l = None)" by force
  then show ?thesis by (simp add: Listed bad_source_def ingress_parseLine_None)
next
  case (Reader r)
  show ?thesis
  proof (cases r)
    case (Some x)
    have "parse_rules (scan_lines x) = None \<longleftrightarrow> bad_source s"
      by (simp add: parse_rules_None bad_source_def Reader Some)
    then show ?thesis using parse_rules_no_nil [of "scan_lines x"]
      by (auto simp: Reader Some parseRules_def split: option.split)
  qed (simp add: Reader bad_source_def parseRules_def)
qed (simp add: bad_source_def)

lemma add_rules_configured: "add_rules (map Some rules) t \<noteq> None"
  by (auto simp: add_rules_None)

lemma dropWhile_last: "\<not> P c \<Longrightarrow> dropWhile P (xs @ [c]) = dropWhile P xs @ [c]"
  by (induction xs) auto

lemma TrimSpace_hash: "TrimSpace (CHR ''#'' # s) = CHR ''#'' # rev (dropWhile isSpace (rev s))"
  by (simp add: TrimSpace_def TrimLeft_def isSpace_def dropWhile_last)

text \<open>
  One bad line stops the process. Reloading an ingress panics exactly when a file, a redis
  source or an http source brings a line with fewer than two fields, and an empty line or a line
  with a comment only is such a line.
\<close>

theorem ingress_reload_panics:
  "(ingress_reload rules l = None \<longleftrightarrow> (\<exists>s\<in>set (all_lines l). \<not> two_fields s)) \<and>
   \<not> two_fields [] \<and> \<not> two_fields (CHR ''#'' # comment)"
proof -
  obtain t where t: "add_rules (map Some rules) Map.empty = Some t" using add_rules_configured by blast
  have h: "(case ld_http l of Reader r \<Rightarrow> parseRules r | _ \<Rightarrow> Some []) =
      source_rules (case ld_http l of Reader r \<Rightarrow> Reader r | _ \<Rightarrow> Absent)"
    by (simp split: source.split)
  have hl: "http_lines (ld_http l) = source_lines (case ld_http l of Reader r \<Rightarrow> Reader r | _ \<Rightarrow> Absent)"
    by (simp add: http_lines_def split: source.split)
  have "ingress_reload rules l = None \<longleftrightarrow> bad_source (ld_file l) \<or> bad_source (ld_redis l) \<or>
      bad_source (case ld_http l of Reader r \<Rightarrow> Reader r | _ \<Rightarrow> Absent)"
    unfolding source_rules_bad
    by (auto simp: ingress_reload_def t ingress_load_def h add_rules_None split: option.split)
  also have "\<dots> \<longleftrightarrow> (\<exists>s\<in>set (all_lines l). \<not> two_fields s)"
    by (auto simp: bad_source_def all_lines_def hl)
  finally have "ingress_reload rules l = None \<longleftrightarrow> (\<exists>s\<in>set (all_lines l). \<not> two_fields s)" .
  moreover have "\<not> two_fields []" by code_simp
  moreover have "\<not> two_fields (CHR ''#'' # comment)"
    by (simp add: two_fields_def line_fields_def ReplaceTabs_def TrimSpace_hash nonempty_def)
  ultimately show ?thesis by blast
qed

end
