(* ===== verification/RouterTable.thy ===== *)
theory RouterTable
  imports NameTables Bypass
begin

text \<open>
  The routing table, \<open>x/router/router.go\<close> with \<open>router_linux.go\<close>: reading routes, handing them to
  the system, and looking one up. Replacing a system route is a parameter.
\<close>

record ip_route =
  rt_net :: "ip_net option"
  rt_dst :: string
  rt_gateway :: string

definition ParseRoute :: "string \<Rightarrow> string \<Rightarrow> ip_route option" where
  "ParseRoute dst gateway =
     (if dst = [] then None
      else Some \<lparr>rt_net = ParseCIDR dst, rt_dst = dst, rt_gateway = gateway\<rparr>)"

definition router_parseLine :: "string \<Rightarrow> ip_route option" where
  "router_parseLine s = (case line_fields s of a # b # _ \<Rightarrow> ParseRoute a b | _ \<Rightarrow> None)"

text \<open>A text gives the routes of its lines, a list one entry per line, which may be \<open>nil\<close>.\<close>

definition parseRoutes :: "string option \<Rightarrow> ip_route option list" where
  "parseRoutes r =
     (case r of None \<Rightarrow> [] | Some s \<Rightarrow> filter (\<lambda>x. x \<noteq> None) (map router_parseLine (scan_lines s)))"

fun source_routes :: "source \<Rightarrow> ip_route option list" where
  "source_routes Absent = []"
| "source_routes (Listed ls) = map router_parseLine ls"
| "source_routes (Reader r) = parseRoutes r"

definition router_load :: "loaders \<Rightarrow> ip_route option list" where
  "router_load l =
     source_routes (ld_file l) @ source_routes (ld_redis l) @
     (case ld_http l of Reader r \<Rightarrow> parseRoutes r | _ \<Rightarrow> [])"

text \<open>
  On Linux every route with a network and a gateway that is an address is handed to the system,
  until one is refused. Reading a \<open>nil\<close> route is a panic, \<open>None\<close>; otherwise the routes handed over.
\<close>

fun setSysRoutes :: "(ip_net \<Rightarrow> int \<Rightarrow> bool) \<Rightarrow> ip_route option list \<Rightarrow> (ip_net \<times> int) list option" where
  "setSysRoutes replaced [] = Some []"
| "setSysRoutes replaced (r # rs) =
     (case r of
        None \<Rightarrow> None
      | Some x \<Rightarrow>
          (case (rt_net x, ParseIP (rt_gateway x)) of
             (Some n, Some gw) \<Rightarrow>
               if replaced n gw then map_option (Cons (n, gw)) (setSysRoutes replaced rs)
               else Some []
           | _ \<Rightarrow> setSysRoutes replaced rs))"

definition router_reload ::
    "(ip_net \<Rightarrow> int \<Rightarrow> bool) \<Rightarrow> ip_route list \<Rightarrow> loaders \<Rightarrow> ip_route option list option" where
  "router_reload replaced routes l =
     (let rs = map Some routes @ router_load l
      in if setSysRoutes replaced rs = None then None else Some rs)"

definition route_matches :: "string \<Rightarrow> ip_route \<Rightarrow> bool" where
  "route_matches dst r \<longleftrightarrow>
     rt_dst r = dst \<or>
     (case rt_net r of
        None \<Rightarrow> False
      | Some n \<Rightarrow> (case ParseIP dst of None \<Rightarrow> False | Some ip \<Rightarrow> net_contains n ip))"

text \<open>The outer \<open>None\<close> is the panic at a \<open>nil\<close> route.\<close>

fun first_route :: "string \<Rightarrow> ip_route option list \<Rightarrow> ip_route option option" where
  "first_route dst [] = Some None"
| "first_route dst (r # rs) =
     (case r of
        None \<Rightarrow> None
      | Some x \<Rightarrow> if route_matches dst x then Some (Some x) else first_route dst rs)"

definition GetRoute :: "ip_route option list \<Rightarrow> string \<Rightarrow> ip_route option option" where
  "GetRoute routes dst = (if dst = [] then Some None else first_route dst routes)"

section \<open>Facts\<close>

text \<open>Without \<open>nil\<close> routes the first one that matches is taken.\<close>

lemma GetRoute_first:
  "dst \<noteq> [] \<Longrightarrow> GetRoute (map Some rs) dst = Some (find (route_matches dst) rs)"
proof -
  have "first_route dst (map Some rs) = Some (find (route_matches dst) rs)" by (induction rs) auto
  then show "dst \<noteq> [] \<Longrightarrow> GetRoute (map Some rs) dst = Some (find (route_matches dst) rs)"
    by (simp add: GetRoute_def)
qed

lemma setSysRoutes_None: "setSysRoutes (\<lambda>n gw. True) rs = None \<longleftrightarrow> None \<in> set rs"
proof (induction rs)
  case (Cons r rs)
  then show ?case by (cases r) (auto split: option.splits)
qed simp

text \<open>
  A file is a list of lines, so a line with fewer than two fields becomes a \<open>nil\<close> route, and
  loading it on Linux is a panic once every route before it has been accepted by the system.
\<close>

lemma bad_line_panics:
  assumes "ld_file l = Listed ls" "s \<in> set ls" "\<not> two_fields s"
  shows "router_reload (\<lambda>n gw. True) routes l = None"
proof -
  have "router_parseLine s = None"
    using assms(3) by (auto simp: router_parseLine_def two_fields_def split: list.split)
  then have "None \<in> set (map router_parseLine ls)" using assms(2) by force
  then show ?thesis
    by (auto simp: router_reload_def setSysRoutes_None router_load_def assms(1) Let_def)
qed

end
