(* ===== verification/RateLimiter.thy ===== *)
theory RateLimiter
  imports GoNet Loaders Strconv Complex_Main
begin

text \<open>
  The rate limiter, \<open>x/limiter/rate\<close>: rules, generators, the limiter of a key and its cache, and
  reloading. A \<open>rate.Limiter\<close> of \<open>golang.org/x/time\<close> is a token bucket, a parameter here; buckets
  are shared, so they live in a store. Limits are the rational numbers a float holds; reading one
  from a text is a parameter as well.
\<close>

section \<open>Buckets and groups\<close>

text \<open>A bucket for a rate and a burst, and whether it gives \<open>n\<close> tokens at a time.\<close>

record 'b buckets =
  bk_new :: "rat \<Rightarrow> int \<Rightarrow> 'b"
  bk_allow :: "'b \<Rightarrow> int \<Rightarrow> int \<Rightarrow> bool \<times> 'b"

record 'b rlimiter =
  rm_limit :: rat
  rm_bucket :: 'b

type_synonym 'b rate_store = "'b rlimiter list"

definition rate_NewLimiter :: "'b buckets \<Rightarrow> rat \<Rightarrow> 'b rate_store \<Rightarrow> nat \<times> 'b rate_store" where
  "rate_NewLimiter B r h =
     (length h, h @ [\<lparr>rm_limit = r, rm_bucket = bk_new B r (\<lfloor>r\<rfloor> + 1)\<rparr>])"

definition rate_Allow :: "'b buckets \<Rightarrow> int \<Rightarrow> nat \<Rightarrow> int \<Rightarrow> 'b rate_store \<Rightarrow> bool \<times> 'b rate_store" where
  "rate_Allow B now i n h =
     (case bk_allow B (rm_bucket (h ! i)) now n of
        (ok, b) \<Rightarrow> (ok, h[i := (h ! i)\<lparr>rm_bucket := b\<rparr>]))"

definition rate_newLimiterGroup :: "'b rate_store \<Rightarrow> nat list \<Rightarrow> nat list" where
  "rate_newLimiterGroup h g = sort_key (\<lambda>i. rm_limit (h ! i)) g"

text \<open>A group asks every member, also after one has refused.\<close>

fun rate_group_Allow ::
    "'b buckets \<Rightarrow> int \<Rightarrow> nat list \<Rightarrow> int \<Rightarrow> 'b rate_store \<Rightarrow> bool \<times> 'b rate_store" where
  "rate_group_Allow B now [] n h = (True, h)"
| "rate_group_Allow B now (i # is) n h =
     (case rate_Allow B now i n h of
        (ok, h1) \<Rightarrow> (case rate_group_Allow B now is n h1 of (b, h2) \<Rightarrow> (ok \<and> b, h2)))"

definition rate_group_Limit :: "'b rate_store \<Rightarrow> nat list \<Rightarrow> rat" where
  "rate_group_Limit h g = (case g of [] \<Rightarrow> 0 | i # _ \<Rightarrow> rm_limit (h ! i))"

section \<open>Rules\<close>

text \<open>A generator makes a limiter per call, or has one that all share.\<close>

datatype rate_gen = PerCall rat | Single "nat option"

definition NewRateLimitSingleGenerator :: "'b buckets \<Rightarrow> rat \<Rightarrow> 'b rate_store \<Rightarrow> rate_gen \<times> 'b rate_store" where
  "NewRateLimitSingleGenerator B r h =
     (if r > 0 then (case rate_NewLimiter B r h of (i, h') \<Rightarrow> (Single (Some i), h')) else (Single None, h))"

fun rate_gen_Limiter :: "'b buckets \<Rightarrow> rate_gen \<Rightarrow> 'b rate_store \<Rightarrow> nat option \<times> 'b rate_store" where
  "rate_gen_Limiter B (PerCall r) h =
     (if r \<le> 0 then (None, h) else (case rate_NewLimiter B r h of (i, h') \<Rightarrow> (Some i, h')))"
| "rate_gen_Limiter B (Single l) h = (l, h)"

definition rate_GlobalLimitKey :: string where "rate_GlobalLimitKey = ''$''"
definition rate_IPLimitKey :: string where "rate_IPLimitKey = ''$$''"

record 'b rateLimiter =
  rr_ip :: "string \<rightharpoonup> rate_gen"
  rr_cidr :: "(ip_net \<times> rate_gen) list"
  rr_limits :: "string \<rightharpoonup> nat list option"
  rr_store :: "'b rate_store"

definition rate_parseLimit :: "(string \<Rightarrow> rat) \<Rightarrow> string \<Rightarrow> string \<times> rat" where
  "rate_parseLimit parse s =
     (case blank_fields (TrimSpace (ReplaceTabs s)) of
        k # v # _ \<Rightarrow> (k, parse v)
      | _ \<Rightarrow> ([], 0))"

text \<open>One rule; a key that is no address, no network and not one of the two special ones is dropped.\<close>

definition put_rule ::
    "'b buckets \<Rightarrow> (string \<Rightarrow> rat) \<Rightarrow> string \<Rightarrow>
       (string \<rightharpoonup> rate_gen) \<times> (ip_net \<times> rate_gen) list \<times> 'b rate_store \<Rightarrow>
       (string \<rightharpoonup> rate_gen) \<times> (ip_net \<times> rate_gen) list \<times> 'b rate_store" where
  "put_rule B parse s t =
     (case t of
        (ips, nets, h) \<Rightarrow>
          (case rate_parseLimit parse s of
             (key, r) \<Rightarrow>
               if key = [] \<or> r \<le> 0 then (ips, nets, h)
               else if key = rate_IPLimitKey then (ips(key \<mapsto> PerCall r), nets, h)
               else if key = rate_GlobalLimitKey \<or> ParseIP key \<noteq> None then
                 (case NewRateLimitSingleGenerator B r h of (g, h') \<Rightarrow> (ips(key \<mapsto> g), nets, h'))
               else (case ParseCIDR key of
                       Some n \<Rightarrow> (ips, nets @ [(n, PerCall r)], h)
                     | None \<Rightarrow> (ips, nets, h))))"

definition rate_reload ::
    "'b buckets \<Rightarrow> (string \<Rightarrow> rat) \<Rightarrow> string list \<Rightarrow> loaders \<Rightarrow> 'b rateLimiter \<Rightarrow> 'b rateLimiter" where
  "rate_reload B parse limits l m =
     (case fold (put_rule B parse) (limits @ load_patterns l) (Map.empty, [], rr_store m) of
        (ips, nets, h) \<Rightarrow> \<lparr>rr_ip = ips, rr_cidr = nets, rr_limits = Map.empty, rr_store = h\<rparr>)"

section \<open>The limiter of a key\<close>

definition ask :: "'b buckets \<Rightarrow> rate_gen option \<Rightarrow> 'b rate_store \<Rightarrow> nat list \<times> 'b rate_store" where
  "ask B g h =
     (case g of
        None \<Rightarrow> ([], h)
      | Some x \<Rightarrow>
          (case rate_gen_Limiter B x h of
             (None, h') \<Rightarrow> ([], h')
           | (Some i, h') \<Rightarrow> ([i], h')))"

text \<open>
  \<open>containing\<close> gives the generator of the network the \<open>cidranger\<close> package returns first. The group
  made for a key is kept until the next reload.
\<close>

definition rate_Limiter ::
    "'b buckets \<Rightarrow> ((ip_net \<times> rate_gen) list \<Rightarrow> int \<Rightarrow> rate_gen option) \<Rightarrow> string \<Rightarrow> 'b rateLimiter \<Rightarrow>
       nat list option \<times> 'b rateLimiter" where
  "rate_Limiter B containing key m =
     (case rr_limits m key of
        Some g \<Rightarrow> (g, m)
      | None \<Rightarrow>
          (case (case ParseIP key of
                   None \<Rightarrow> ([], rr_store m)
                 | Some ip \<Rightarrow>
                     (case ask B (rr_ip m key) (rr_store m) of
                        ([], h) \<Rightarrow> ask B (containing (rr_cidr m) ip) h
                      | (is, h) \<Rightarrow> (is, h))) of
             (is, h1) \<Rightarrow>
               (case (if is = [] then ask B (rr_ip m rate_IPLimitKey) h1 else (is, h1)) of
                  (js, h2) \<Rightarrow>
                    (case ask B (rr_ip m rate_GlobalLimitKey) h2 of
                       (ks, h3) \<Rightarrow>
                         (let lims = js @ ks;
                              g = (if lims = [] then None else Some (rate_newLimiterGroup h3 lims))
                          in (g, m\<lparr>rr_limits := (rr_limits m)(key \<mapsto> g), rr_store := h3\<rparr>))))))"

section \<open>Facts\<close>

text \<open>A key keeps its group until the next reload.\<close>

lemma rate_Limiter_cached:
  "rate_Limiter B containing key m = (g, m') \<Longrightarrow> rate_Limiter B containing key m' = (g, m')"
  by (auto simp: rate_Limiter_def Let_def split: option.splits prod.splits)

text \<open>A group allows exactly when each of its members, asked in turn, does; all are asked.\<close>

lemma rate_Allow_length [simp]: "length (snd (rate_Allow B now i n h)) = length h"
  by (simp add: rate_Allow_def split: prod.split)

lemma rate_Allow_other: "j \<noteq> i \<Longrightarrow> snd (rate_Allow B now i n h) ! j = h ! j"
  by (simp add: rate_Allow_def split: prod.split)

lemma group_asks_all:
  "distinct g \<Longrightarrow> \<forall>i\<in>set g. i < length h \<Longrightarrow>
   fst (rate_group_Allow B now g n h) = (\<forall>i\<in>set g. fst (bk_allow B (rm_bucket (h ! i)) now n)) \<and>
   (\<forall>i\<in>set g. rm_bucket (snd (rate_group_Allow B now g n h) ! i) = snd (bk_allow B (rm_bucket (h ! i)) now n)) \<and>
   (\<forall>j. j \<notin> set g \<longrightarrow> snd (rate_group_Allow B now g n h) ! j = h ! j)"
proof (induction g arbitrary: h)
  case (Cons i g)
  obtain ok h1 where r: "rate_Allow B now i n h = (ok, h1)" by fastforce
  have l: "length h1 = length h" "\<forall>j. j \<noteq> i \<longrightarrow> h1 ! j = h ! j"
    using rate_Allow_length [of B now i n h] rate_Allow_other [of _ i B now n h] r by auto
  have o: "ok = fst (bk_allow B (rm_bucket (h ! i)) now n)"
    "rm_bucket (h1 ! i) = snd (bk_allow B (rm_bucket (h ! i)) now n)"
    using r Cons.prems by (auto simp: rate_Allow_def split: prod.splits)
  have d: "distinct g" "i \<notin> set g" "\<forall>j\<in>set g. j < length h1" using Cons.prems l by auto
  have same: "\<forall>j\<in>set g. h1 ! j = h ! j" using d(2) l(2) by metis
  obtain b h2 where g: "rate_group_Allow B now g n h1 = (b, h2)" by fastforce
  have IH: "b = (\<forall>j\<in>set g. fst (bk_allow B (rm_bucket (h ! j)) now n))"
    "\<forall>j\<in>set g. rm_bucket (h2 ! j) = snd (bk_allow B (rm_bucket (h ! j)) now n)"
    "\<forall>j. j \<notin> set g \<longrightarrow> h2 ! j = h1 ! j"
    using Cons.IH [OF d(1,3)] same by (simp_all add: g)
  show ?case using IH o l d(2) by (simp add: r g)
qed simp

text \<open>
  What is in the store from \<open>n\<close> on is new: a full bucket. A generator is new when the limiter it
  shares is.
\<close>

definition full_from :: "'b buckets \<Rightarrow> nat \<Rightarrow> 'b rate_store \<Rightarrow> bool" where
  "full_from B n h \<longleftrightarrow> n \<le> length h \<and>
     (\<forall>j. n \<le> j \<and> j < length h \<longrightarrow> (\<exists>r. h ! j = \<lparr>rm_limit = r, rm_bucket = bk_new B r (\<lfloor>r\<rfloor> + 1)\<rparr>))"

definition new_in :: "nat \<Rightarrow> 'b rate_store \<Rightarrow> nat list \<Rightarrow> bool" where
  "new_in n h is \<longleftrightarrow> (\<forall>i\<in>set is. n \<le> i \<and> i < length h)"

definition gen_new :: "nat \<Rightarrow> 'b rate_store \<Rightarrow> rate_gen \<Rightarrow> bool" where
  "gen_new n h g \<longleftrightarrow> (case g of Single (Some i) \<Rightarrow> n \<le> i \<and> i < length h | _ \<Rightarrow> True)"

lemma gen_new_mono: "gen_new n h g \<Longrightarrow> length h \<le> length h' \<Longrightarrow> gen_new n h' g"
  by (auto simp: gen_new_def split: rate_gen.splits option.splits)

lemma new_in_mono: "new_in n h is \<Longrightarrow> length h \<le> length h' \<Longrightarrow> new_in n h' is"
  by (force simp: new_in_def)

lemma new_limiter_full:
  "full_from B n h \<Longrightarrow> rate_NewLimiter B r h = (i, h') \<Longrightarrow>
   full_from B n h' \<and> n \<le> i \<and> i < length h' \<and> length h \<le> length h'"
  by (auto simp: rate_NewLimiter_def full_from_def nth_append)

definition rules_new ::
    "'b buckets \<Rightarrow> nat \<Rightarrow> (string \<rightharpoonup> rate_gen) \<times> (ip_net \<times> rate_gen) list \<times> 'b rate_store \<Rightarrow> bool" where
  "rules_new B n t \<longleftrightarrow>
     (case t of
        (ips, nets, h) \<Rightarrow>
          full_from B n h \<and> (\<forall>k g. ips k = Some g \<longrightarrow> gen_new n h g) \<and> (\<forall>g\<in>snd ` set nets. gen_new n h g))"

lemma single_new:
  assumes "full_from B n h" "NewRateLimitSingleGenerator B r h = (g, h')"
  shows "full_from B n h' \<and> gen_new n h' g \<and> length h \<le> length h'"
proof (cases "r > 0")
  case True
  obtain i h1 where n: "rate_NewLimiter B r h = (i, h1)" by fastforce
  show ?thesis
    using new_limiter_full [OF assms(1) n] assms(2) True n
    by (auto simp: NewRateLimitSingleGenerator_def gen_new_def)
next
  case False
  then show ?thesis using assms by (auto simp: NewRateLimitSingleGenerator_def gen_new_def)
qed

lemma put_rule_new: "rules_new B n t \<Longrightarrow> rules_new B n (put_rule B parse s t)"
proof -
  assume t: "rules_new B n t"
  obtain ips nets h where th: "t = (ips, nets, h)" by (cases t)
  obtain key r where k: "rate_parseLimit parse s = (key, r)" by fastforce
  obtain g h' where g: "NewRateLimitSingleGenerator B r h = (g, h')" by fastforce
  have f: "full_from B n h" using t th by (simp add: rules_new_def)
  note new = single_new [OF f g]
  have P: "gen_new n h (PerCall r)" by (simp add: gen_new_def)
  have keep: "gen_new n h' x" if "gen_new n h x" for x using gen_new_mono that new by blast
  show ?thesis
    using t new P keep by (auto simp: th k g put_rule_def rules_new_def split: option.split)
qed

lemma fold_rules_new: "rules_new B n t \<Longrightarrow> rules_new B n (fold (put_rule B parse) ls t)"
  by (induction ls arbitrary: t) (simp_all add: put_rule_new)

lemma ask_new:
  assumes "full_from B n h" "\<And>x. g = Some x \<Longrightarrow> gen_new n h x" "ask B g h = (is, h')"
  shows "full_from B n h' \<and> new_in n h' is \<and> length h \<le> length h'"
proof (cases g)
  case None
  then show ?thesis using assms by (auto simp: ask_def new_in_def)
next
  case (Some x)
  show ?thesis
  proof (cases x)
    case (PerCall r)
    obtain i h1 where n: "rate_NewLimiter B r h = (i, h1)" by fastforce
    show ?thesis using new_limiter_full [OF assms(1) n] assms(1,3) n
      by (auto simp: Some PerCall ask_def new_in_def split: if_splits)
  next
    case (Single l)
    then show ?thesis using assms Some
      by (cases l) (auto simp: ask_def new_in_def gen_new_def)
  qed
qed

text \<open>The lookup of a network answers with the generator of one of the networks it was given.\<close>

definition finds_entries :: "((ip_net \<times> rate_gen) list \<Rightarrow> int \<Rightarrow> rate_gen option) \<Rightarrow> bool" where
  "finds_entries containing \<longleftrightarrow> (\<forall>nets ip g. containing nets ip = Some g \<longrightarrow> g \<in> snd ` set nets)"

lemma rate_Limiter_new:
  assumes m: "rules_new B n (rr_ip m, rr_cidr m, rr_store m)" "rr_limits m key = None"
    and c: "finds_entries containing" and l: "rate_Limiter B containing key m = (Some g, m')"
  shows "full_from B n (rr_store m') \<and> new_in n (rr_store m') g"
proof -
  have gens: "\<And>k x h. rr_ip m k = Some x \<Longrightarrow> length (rr_store m) \<le> length h \<Longrightarrow> gen_new n h x"
    "\<And>ip x h. containing (rr_cidr m) ip = Some x \<Longrightarrow> length (rr_store m) \<le> length h \<Longrightarrow> gen_new n h x"
    and f: "full_from B n (rr_store m)"
    using m(1) c gen_new_mono unfolding rules_new_def finds_entries_def by fastforce+
  obtain is1 h1 where a: "(case ParseIP key of
                   None \<Rightarrow> ([], rr_store m)
                 | Some ip \<Rightarrow>
                     (case ask B (rr_ip m key) (rr_store m) of
                        ([], h) \<Rightarrow> ask B (containing (rr_cidr m) ip) h
                      | (is, h) \<Rightarrow> (is, h))) = (is1, h1)" by fastforce
  have 1: "full_from B n h1 \<and> new_in n h1 is1 \<and> length (rr_store m) \<le> length h1"
  proof (cases "ParseIP key")
    case None
    then show ?thesis using a f by (auto simp: new_in_def)
  next
    case (Some ip)
    obtain js h where b: "ask B (rr_ip m key) (rr_store m) = (js, h)" by fastforce
    have h: "full_from B n h \<and> new_in n h js \<and> length (rr_store m) \<le> length h"
      using ask_new [OF f _ b] gens(1) by blast
    show ?thesis
    proof (cases js)
      case Nil
      then have "ask B (containing (rr_cidr m) ip) h = (is1, h1)" using a Some b by simp
      then show ?thesis using ask_new [of B n h "containing (rr_cidr m) ip" is1 h1] gens(2) h
        by (meson le_trans)
    next
      case (Cons j js')
      then show ?thesis using a Some b h by auto
    qed
  qed
  obtain js h2 where b: "(if is1 = [] then ask B (rr_ip m rate_IPLimitKey) h1 else (is1, h1)) = (js, h2)"
    by fastforce
  have 2: "full_from B n h2 \<and> new_in n h2 js \<and> length (rr_store m) \<le> length h2"
    using 1 b ask_new [of B n h1 "rr_ip m rate_IPLimitKey" js h2] gens(1) [of rate_IPLimitKey _ h1]
    by (auto split: if_splits)
  obtain ks h3 where k: "ask B (rr_ip m rate_GlobalLimitKey) h2 = (ks, h3)" by fastforce
  have 3: "full_from B n h3 \<and> new_in n h3 ks \<and> length h2 \<le> length h3"
    using 2 ask_new [OF _ _ k, of n] gens(1) [of rate_GlobalLimitKey _ h2] by blast
  have "rr_store m' = h3" "g = rate_newLimiterGroup h3 (js @ ks)"
    using l m(2) a b k by (auto simp: rate_Limiter_def Let_def split: if_splits)
  then show ?thesis using 2 3 new_in_mono [of n h2 js h3]
    by (auto simp: rate_newLimiterGroup_def new_in_def)
qed

text \<open>
  A reload refills every bucket. Whatever has been used up, after a reload of the rules the
  limiter of a key consists of buckets that did not exist before and are full: a rate that is
  reloaded every minute allows a whole burst every minute on top.
\<close>

theorem rate_reload_refills:
  assumes "finds_entries containing"
    and "rate_Limiter B containing key (rate_reload B parse limits l m) = (Some g, m')" "i \<in> set g"
  shows "length (rr_store m) \<le> i \<and>
    (\<exists>r. rr_store m' ! i = \<lparr>rm_limit = r, rm_bucket = bk_new B r (\<lfloor>r\<rfloor> + 1)\<rparr>)"
proof -
  let ?m = "rate_reload B parse limits l m" and ?n = "length (rr_store m)"
  have "rules_new B ?n (Map.empty, [], rr_store m)" by (auto simp: rules_new_def full_from_def)
  then have "rules_new B ?n (fold (put_rule B parse) (limits @ load_patterns l) (Map.empty, [], rr_store m))"
    by (rule fold_rules_new)
  then have "rules_new B ?n (rr_ip ?m, rr_cidr ?m, rr_store ?m)" "rr_limits ?m key = None"
    by (auto simp: rate_reload_def split: prod.split)
  from rate_Limiter_new [OF this assms(1,2)] show ?thesis
    using assms(3) by (auto simp: full_from_def new_in_def)
qed

text \<open>A bucket that is the number of tokens left.\<close>

definition counter_buckets :: "int buckets" where
  "counter_buckets = \<lparr>bk_new = (\<lambda>r b. b), bk_allow = (\<lambda>t now n. if n \<le> t then (True, t - n) else (False, t))\<rparr>"

definition used_up :: "int rateLimiter" where
  "used_up = \<lparr>rr_ip = [''$'' \<mapsto> Single (Some 0)], rr_cidr = [], rr_limits = [''k'' \<mapsto> Some [0]],
     rr_store = [\<lparr>rm_limit = 2, rm_bucket = 0\<rparr>]\<rparr>"

theorem rate_reload_refills_witness:
  "let m = rate_reload counter_buckets (\<lambda>_. 2) [''$ 2''] no_loaders used_up
   in fst (rate_Limiter counter_buckets (\<lambda>_ _. None) ''k'' m) = Some [1] \<and>
      rm_bucket (rr_store (snd (rate_Limiter counter_buckets (\<lambda>_ _. None) ''k'' m)) ! 1) > 0"
proof -
  let ?m = "rate_reload counter_buckets (\<lambda>_. 2) [''$ 2''] no_loaders used_up"
  let ?r = "rate_Limiter counter_buckets (\<lambda>_ _. None) ''k'' ?m"
  have f: "finds_entries (\<lambda>_ _. None)" by (simp add: finds_entries_def)
  have v: "fst ?r = Some [1]" "rm_limit (rr_store (snd ?r) ! 1) = 2" by code_simp+
  have "?r = (Some [1], snd ?r)" using v by (metis prod.collapse)
  from rate_reload_refills [OF f this, of 1]
  obtain r where "rr_store (snd ?r) ! 1 = \<lparr>rm_limit = r, rm_bucket = bk_new counter_buckets r (\<lfloor>r\<rfloor> + 1)\<rparr>"
    by auto
  then show ?thesis using v by (simp add: Let_def counter_buckets_def)
qed

end
