(* ===== verification/Authers.thy ===== *)
theory Authers
  imports Loaders Strconv "HOL-Library.AList"
begin

text \<open>
  Authenticating users, \<open>x/auth/auth.go\<close>: the credentials an authenticator is made of, from its
  options and its loaders, the check of a user and a password, and groups of authenticators.
\<close>

section \<open>Credentials\<close>

type_synonym credentials = "(string \<times> string) list"

text \<open>The map \<open>m\<close> gets every entry of another one.\<close>

definition put_all :: "credentials \<Rightarrow> credentials \<Rightarrow> credentials" where
  "put_all new m = fold (\<lambda>(k, v). AList.update k v) new m"

text \<open>
  A line holds a user and the rest as password; a line that starts with \<open>#\<close> is skipped. The blank
  in the middle splits it, once.
\<close>

definition auth_line :: "string \<Rightarrow> (string \<times> string) option" where
  "auth_line s =
     (let line = TrimSpace (ReplaceTabs s) in
      if IndexByte line CHR ''#'' = Some 0 then None
      else case IndexByte line CHR '' '' of
        None \<Rightarrow> if TrimSpace line \<noteq> [] then Some (TrimSpace line, []) else None
      | Some i \<Rightarrow>
          if TrimSpace (take i line) \<noteq> []
          then Some (TrimSpace (take i line), TrimSpace (drop (Suc i) line)) else None)"

fun auth_entries :: "(string \<times> string) option list \<Rightarrow> credentials" where
  "auth_entries [] = []"
| "auth_entries (e # es) = (case e of None \<Rightarrow> auth_entries es | Some kv \<Rightarrow> kv # auth_entries es)"

text \<open>\<open>None\<close> is a reader that is \<open>nil\<close>: it gives no map.\<close>

definition parseAuths :: "string option \<Rightarrow> credentials option" where
  "parseAuths r =
     (case r of None \<Rightarrow> None | Some s \<Rightarrow> Some (put_all (auth_entries (map auth_line (scan_lines s))) []))"

text \<open>
  The loaders: the file loader may be a \<open>Mapper\<close>. Where the redis loader is asked, the code tests
  whether the file loader is a \<open>Mapper\<close> and then takes its map again; the redis loader itself is
  only ever read as a text.
\<close>

datatype auth_source = NoAuths | MapAuths credentials | TextAuths "string option"

record auth_loaders =
  au_file :: auth_source
  au_redis :: "string option option"
  au_http :: "string option option"

definition text_auths :: "string option \<Rightarrow> credentials \<Rightarrow> credentials" where
  "text_auths r m = (case parseAuths r of None \<Rightarrow> m | Some a \<Rightarrow> put_all a m)"

definition auth_load :: "auth_loaders \<Rightarrow> credentials" where
  "auth_load l =
     (let m1 = (case au_file l of
                  NoAuths \<Rightarrow> []
                | MapAuths a \<Rightarrow> a
                | TextAuths r \<Rightarrow> (case parseAuths r of None \<Rightarrow> [] | Some a \<Rightarrow> a));
          m2 = (case au_redis l of
                  None \<Rightarrow> m1
                | Some r \<Rightarrow> (case au_file l of MapAuths a \<Rightarrow> put_all a m1 | _ \<Rightarrow> text_auths r m1))
      in case au_http l of None \<Rightarrow> m2 | Some r \<Rightarrow> text_auths r m2)"

definition auth_reload :: "credentials \<Rightarrow> auth_loaders \<Rightarrow> credentials" where
  "auth_reload auths l = put_all (auth_load l) (put_all auths [])"

section \<open>Checking a user\<close>

text \<open>An authenticator that is \<open>nil\<close> accepts everybody, one without users nobody.\<close>

definition Authenticate :: "credentials option \<Rightarrow> string \<Rightarrow> string \<Rightarrow> string \<times> bool" where
  "Authenticate p user password =
     (case p of
        None \<Rightarrow> ([], True)
      | Some kvs \<Rightarrow>
          if kvs = [] then ([], False)
          else (user, case map_of kvs user of None \<Rightarrow> False | Some v \<Rightarrow> v = [] \<or> password = v))"

type_synonym auther = "string \<Rightarrow> string \<Rightarrow> string \<times> bool"

text \<open>A group takes the first member that accepts; a missing member is skipped.\<close>

fun group_Authenticate :: "auther option list \<Rightarrow> auther" where
  "group_Authenticate [] user password = ([], False)"
| "group_Authenticate (a # as) user password =
     (case a of
        None \<Rightarrow> group_Authenticate as user password
      | Some f \<Rightarrow>
          (case f user password of
             (i, ok) \<Rightarrow> if ok then (i, ok) else group_Authenticate as user password))"

section \<open>Facts\<close>

lemma put_all_lookup: "map_of (put_all new m) k = (map_of m ++ map_of (rev new)) k"
proof (induction new arbitrary: m)
  case (Cons e new)
  obtain a b where e: "e = (a, b)" by fastforce
  have "map_of (put_all (e # new) m) k = (map_of (AList.update a b m) ++ map_of (rev new)) k"
    using Cons by (simp add: put_all_def e)
  then show ?case by (simp add: e update_conv' map_add_def split: option.split)
qed (simp add: put_all_def)

lemma put_all_Nil: "put_all new m = [] \<longleftrightarrow> new = [] \<and> m = []"
proof (induction new arbitrary: m)
  case (Cons e new)
  obtain a b where e: "e = (a, b)" by fastforce
  have "AList.update a b m \<noteq> []" by (cases m) auto
  then show ?case using Cons [of "AList.update a b m"] by (simp add: put_all_def e)
qed (simp add: put_all_def)

lemma group_accepts:
  "snd (group_Authenticate as user password) \<longleftrightarrow>
   (\<exists>f. Some f \<in> set as \<and> snd (f user password))"
proof (induction "as")
  case (Cons a as)
  show ?case
  proof (cases a)
    case (Some f)
    obtain i b where "f user password = (i, b)" by fastforce
    then show ?thesis using Cons Some by (cases b) auto
  qed (use Cons in simp)
qed simp

lemma group_rejects_empty: "\<not> snd (group_Authenticate [] user password)"
  by simp

text \<open>What decides which password counts for a user: the last source that names it.\<close>

definition password_of :: "credentials \<Rightarrow> auth_loaders \<Rightarrow> string \<Rightarrow> string option" where
  "password_of auths l user =
     (case map_of (rev (auth_load l)) user of
        Some p \<Rightarrow> Some p
      | None \<Rightarrow> map_of (rev auths) user)"

text \<open>
  An authenticator lets in exactly the users it has been given. A user is accepted if and
  only if one of the sources names it and its password is the one given last, the loaders going
  before the options; a user stored without a password is accepted with any.
\<close>

theorem authenticate_by_last_source:
  "snd (Authenticate (Some (auth_reload auths l)) user password) \<longleftrightarrow>
     (case password_of auths l user of None \<Rightarrow> False | Some p \<Rightarrow> p = [] \<or> password = p)"
proof -
  have m: "map_of (auth_reload auths l) user = password_of auths l user"
    by (simp add: auth_reload_def put_all_lookup password_of_def map_add_def put_all_def [of _ "[]"]
        put_all_lookup [unfolded put_all_def] split: option.split)
  show ?thesis
  proof (cases "auth_reload auths l = []")
    case True
    then show ?thesis using m by (simp add: Authenticate_def)
  next
    case False
    then show ?thesis using m by (simp add: Authenticate_def split: option.split)
  qed
qed

end
