(* ===== verification/LateBinding.thy ===== *)
theory LateBinding
  imports ObjectStore Authers NameTables Bypass
begin

text \<open>
  How services hold on to the objects they name: \<open>x/registry\<close> hands out wrappers that look the
  name up on every call, so an object replaced over the API counts from the next call on, and one
  that is deleted leaves the wrapper with an answer of its own. Also the lists of authenticators
  and admissions of a service (\<open>List\<close> of \<open>x/config/parsing/auth\<close> and \<open>admission\<close>).
\<close>

section \<open>Wrappers\<close>

text \<open>
  The wrapper of a name, as the list of its registry, or \<open>nil\<close> for the empty name. The call is
  made on the object the name has now, with an answer for the name that has none.
\<close>

definition wrapper :: "string \<Rightarrow> string option" where
  "wrapper name = (if name \<noteq> [] then Some name else None)"

definition through :: "'v registry \<Rightarrow> string \<Rightarrow> 'a \<Rightarrow> ('v \<Rightarrow> 'a) \<Rightarrow> 'a" where
  "through m name missing call = (case Get name m of None \<Rightarrow> missing | Some v \<Rightarrow> call v)"

definition wrapped_Admit :: "(string \<Rightarrow> bool) registry \<Rightarrow> string \<Rightarrow> string \<Rightarrow> bool" where
  "wrapped_Admit m name addr = through m name False (\<lambda>p. p addr)"

definition wrapped_Authenticate :: "auther registry \<Rightarrow> string \<Rightarrow> auther" where
  "wrapped_Authenticate m name user password = through m name ([], True) (\<lambda>v. v user password)"

definition wrapped_Contains :: "bypass registry \<Rightarrow> string \<Rightarrow> string \<Rightarrow> bool" where
  "wrapped_Contains m name addr = through m name False (\<lambda>v. bp_contains v addr)"

definition wrapped_IsWhitelist :: "bypass registry \<Rightarrow> string \<Rightarrow> bool" where
  "wrapped_IsWhitelist m name = through m name False bp_white"

text \<open>A chain, its markers and its metadata; the objects need not have them.\<close>

definition wrapped_Route :: "('c \<Rightarrow> 'r option) \<Rightarrow> 'c registry \<Rightarrow> string \<Rightarrow> 'r option" where
  "wrapped_Route route m name = through m name None route"

definition wrapped_Marker :: "('c \<Rightarrow> 'k option) \<Rightarrow> 'c registry \<Rightarrow> string \<Rightarrow> 'k option" where
  "wrapped_Marker marker m name = through m name None marker"

definition wrapped_Metadata :: "('c \<Rightarrow> 'k option) \<Rightarrow> 'c registry \<Rightarrow> string \<Rightarrow> 'k option" where
  "wrapped_Metadata md m name = through m name None md"

definition wrapped_Nodes :: "('h \<Rightarrow> 'n list) \<Rightarrow> 'h registry \<Rightarrow> string \<Rightarrow> 'n list" where
  "wrapped_Nodes nodes m name = through m name [] nodes"

definition wrapped_Select :: "('h \<Rightarrow> 'n option) \<Rightarrow> 'h registry \<Rightarrow> string \<Rightarrow> 'n option" where
  "wrapped_Select select m name = through m name None select"

definition wrapped_Lookup :: "host_table registry \<Rightarrow> string \<Rightarrow> string \<Rightarrow> string \<Rightarrow> int list \<times> bool" where
  "wrapped_Lookup m name network host = through m name ([], False) (\<lambda>v. hosts_Lookup v network host)"

definition wrapped_GetRule :: "ingress_table registry \<Rightarrow> string \<Rightarrow> string \<Rightarrow> ingress_rule option" where
  "wrapped_GetRule m name host = through m name None (\<lambda>v. GetRule v host)"

definition wrapped_SetRule :: "('i \<Rightarrow> bool) \<Rightarrow> 'i registry \<Rightarrow> string \<Rightarrow> bool" where
  "wrapped_SetRule set_rule m name = through m name False set_rule"

text \<open>Limiters: for the traffic in and out, for connections, for rates.\<close>

definition wrapped_In :: "('l \<Rightarrow> 'k option) \<Rightarrow> 'l registry \<Rightarrow> string \<Rightarrow> 'k option" where
  "wrapped_In lim m name = through m name None lim"

definition wrapped_Out :: "('l \<Rightarrow> 'k option) \<Rightarrow> 'l registry \<Rightarrow> string \<Rightarrow> 'k option" where
  "wrapped_Out lim m name = through m name None lim"

definition wrapped_conn_Limiter :: "('l \<Rightarrow> 'k option) \<Rightarrow> 'l registry \<Rightarrow> string \<Rightarrow> 'k option" where
  "wrapped_conn_Limiter lim m name = through m name None lim"

definition wrapped_rate_Limiter :: "('l \<Rightarrow> 'k option) \<Rightarrow> 'l registry \<Rightarrow> string \<Rightarrow> 'k option" where
  "wrapped_rate_Limiter lim m name = through m name None lim"

text \<open>Observers, recorders and service discovery: nothing to do is no error.\<close>

definition wrapped_Observe :: "('o \<Rightarrow> go_error) \<Rightarrow> 'o registry \<Rightarrow> string \<Rightarrow> go_error" where
  "wrapped_Observe observe m name = through m name nil_error observe"

definition wrapped_Record :: "('o \<Rightarrow> go_error) \<Rightarrow> 'o registry \<Rightarrow> string \<Rightarrow> go_error" where
  "wrapped_Record call m name = through m name nil_error call"

definition wrapped_sd_Register :: "('o \<Rightarrow> go_error) \<Rightarrow> 'o registry \<Rightarrow> string \<Rightarrow> go_error" where
  "wrapped_sd_Register call m name = through m name nil_error call"

definition wrapped_sd_Deregister :: "('o \<Rightarrow> go_error) \<Rightarrow> 'o registry \<Rightarrow> string \<Rightarrow> go_error" where
  "wrapped_sd_Deregister call m name = through m name nil_error call"

definition wrapped_sd_Renew :: "('o \<Rightarrow> go_error) \<Rightarrow> 'o registry \<Rightarrow> string \<Rightarrow> go_error" where
  "wrapped_sd_Renew call m name = through m name nil_error call"

definition wrapped_sd_Get :: "('o \<Rightarrow> 's list \<times> go_error) \<Rightarrow> 'o registry \<Rightarrow> string \<Rightarrow> 's list \<times> go_error" where
  "wrapped_sd_Get call m name = through m name ([], nil_error) call"

definition wrapped_Resolve ::
    "('o \<Rightarrow> int list \<times> resolve_error) \<Rightarrow> 'o registry \<Rightarrow> string \<Rightarrow> int list \<times> resolve_error" where
  "wrapped_Resolve resolve m name = through m name ([], ErrInvalid) resolve"

definition wrapped_GetRoute :: "('o \<Rightarrow> 'r option) \<Rightarrow> 'o registry \<Rightarrow> string \<Rightarrow> 'r option" where
  "wrapped_GetRoute get_route m name = through m name None get_route"

section \<open>What a service holds\<close>

text \<open>\<open>List\<close>: the wrappers of the names that are not empty.\<close>

definition auther_List :: "auther registry \<Rightarrow> string \<Rightarrow> string list \<Rightarrow> auther option list" where
  "auther_List m name names =
     map (\<lambda>n. Some (wrapped_Authenticate m n)) (nonempty (name # names))"

definition admission_List ::
    "(string \<Rightarrow> bool) registry \<Rightarrow> string \<Rightarrow> string list \<Rightarrow> (string \<Rightarrow> bool) option list" where
  "admission_List m name names = map (\<lambda>n. Some (wrapped_Admit m n)) (nonempty (name # names))"

text \<open>
  The user and password in the configuration of a listener or handler make an authenticator only
  when no name does. \<open>None\<close>: the service asks nobody.
\<close>

definition ParseAutherFromAuth :: "(string \<times> string) option \<Rightarrow> auther option" where
  "ParseAutherFromAuth au =
     (case au of
        None \<Rightarrow> None
      | Some (user, password) \<Rightarrow>
          if user = [] then None
          else Some (Authenticate (Some (auth_reload [(user, password)]
            \<lparr>au_file = NoAuths, au_redis = None, au_http = None\<rparr>))))"

definition service_auther ::
    "auther registry \<Rightarrow> string \<Rightarrow> string list \<Rightarrow> (string \<times> string) option \<Rightarrow> auther option" where
  "service_auther m name names au =
     (let listed = auther_List m name names;
          authers = (if listed = [] then
                       (case ParseAutherFromAuth au of None \<Rightarrow> [] | Some a \<Rightarrow> [Some a])
                     else listed)
      in if authers = [] then None else Some (group_Authenticate authers))"

definition service_admits :: "(string \<Rightarrow> bool) registry \<Rightarrow> string \<Rightarrow> string list \<Rightarrow> string \<Rightarrow> bool" where
  "service_admits m name names addr = admissionGroup_Admit (admission_List m name names) addr"

section \<open>Replacing and deleting what is in use\<close>

lemma through_simps [simp]:
  "name \<noteq> [] \<Longrightarrow> m name = Some v \<Longrightarrow> through m name d f = f v"
  "m name = None \<Longrightarrow> through m name d f = d"
  "through m [] d f = d"
  by (simp_all add: through_def Get_def)



lemma delete_serves:
  assumes "serve_request P (Delete k param) sts = (reply, sts')" "rs_status reply = StatusOK"
  shows "st_reg (sts' k) (TrimSpace param) = None"
proof -
  obtain st where st: "delete_handler k param (sts k) = (reply, st)" "sts' k = st"
    using assms(1) by (auto simp: serve_request_def split: prod.splits)
  from st(1) show ?thesis
    by (cases rule: delete_handler_cases) (use assms(2) st(2) in auto)
qed

text \<open>
  Deleting an authenticator opens the services that use it, deleting an admission closes
  them. After a successful \<open>DELETE\<close> of an authenticator that a service names, that service accepts
  every user with every password; after one of an admission it refuses every client.
\<close>

theorem deleted_auther_opens_service:
  assumes "serve_request P (Delete KAuther n) sts = (r1, sts1)" "rs_status r1 = StatusOK"
    and "serve_request Q (Delete KAdmission m) ads = (r2, ads1)" "rs_status r2 = StatusOK"
    and "TrimSpace n \<in> set (nonempty (name # names))"
    and "TrimSpace m \<in> set (nonempty (adm # adms))"
  shows "(\<exists>f. service_auther (st_reg (sts1 KAuther)) name names au = Some f \<and>
      (\<forall>user password. snd (f user password))) \<and>
    (\<forall>addr. \<not> service_admits (st_reg (ads1 KAdmission)) adm adms addr)"
proof -
  have a: "st_reg (sts1 KAuther) (TrimSpace n) = None" by (rule delete_serves [OF assms(1,2)])
  have b: "st_reg (ads1 KAdmission) (TrimSpace m) = None" by (rule delete_serves [OF assms(3,4)])
  let ?as = "auther_List (st_reg (sts1 KAuther)) name names"
  have as: "Some (wrapped_Authenticate (st_reg (sts1 KAuther)) (TrimSpace n)) \<in> set ?as"
    unfolding auther_List_def using assms(5) by force
  then have ne: "?as \<noteq> []" by auto
  have "snd (group_Authenticate ?as user password)" for user password
    unfolding group_accepts using as a by (force simp: wrapped_Authenticate_def)
  moreover have "service_auther (st_reg (sts1 KAuther)) name names au = Some (group_Authenticate ?as)"
    using ne by (simp add: service_auther_def Let_def)
  moreover have "\<not> service_admits (st_reg (ads1 KAdmission)) adm adms addr" for addr
  proof -
    have "Some (wrapped_Admit (st_reg (ads1 KAdmission)) (TrimSpace m)) \<in>
        set (admission_List (st_reg (ads1 KAdmission)) adm adms)"
      unfolding admission_List_def using assms(6) by force
    then show ?thesis using b
      by (force simp: service_admits_def group_admits_all list_all_iff wrapped_Admit_def)
  qed
  ultimately show ?thesis by blast
qed

definition guarded_authers :: "(nat, auther) stores" where
  "guarded_authers k = \<lparr>st_reg = [''u'' \<mapsto> Authenticate (Some [(''alice'', ''secret'')])],
     st_cfgs = [object_named ''u'' 1], st_dropped = []\<rparr>"

definition guarded_admissions :: "(nat, string \<Rightarrow> bool) stores" where
  "guarded_admissions k = \<lparr>st_reg = [''a'' \<mapsto> (\<lambda>addr. True)], st_cfgs = [object_named ''a'' 1], st_dropped = []\<rparr>"

theorem deleted_auther_opens_service_witness:
  "\<forall>P Q. \<exists>f. service_auther (st_reg (snd (serve_request P (Delete KAuther ''u'') guarded_authers) KAuther)) ''u'' [] None
       = Some f \<and> snd (f ''mallory'' ''x'') \<and>
     \<not> service_admits (st_reg (snd (serve_request Q (Delete KAdmission ''a'') guarded_admissions) KAdmission)) ''a'' [] ''1.2.3.4:5''"
proof (intro allI)
  fix P :: "(nat, auther) parsers" and Q :: "(nat, string \<Rightarrow> bool) parsers"
  let ?r = "serve_request P (Delete KAuther ''u'') guarded_authers"
  let ?q = "serve_request Q (Delete KAdmission ''a'') guarded_admissions"
  have t: "TrimSpace ''u'' = ''u''" "TrimSpace ''a'' = ''a''" by code_simp+
  have r: "rs_status (fst ?r) = StatusOK"
    by (simp add: serve_request_def object_handlers delete_object_def t guarded_authers_def Unregister_def
        IsRegistered_def drop_object_def Let_def replyOK_def)
  have q: "rs_status (fst ?q) = StatusOK"
    by (simp add: serve_request_def object_handlers delete_object_def t guarded_admissions_def Unregister_def
        IsRegistered_def drop_object_def Let_def replyOK_def)
  have m: "TrimSpace ''u'' \<in> set (nonempty (''u'' # []))" "TrimSpace ''a'' \<in> set (nonempty (''a'' # []))"
    by (simp_all add: t)
  show "\<exists>f. service_auther (st_reg (snd ?r KAuther)) ''u'' [] None = Some f \<and> snd (f ''mallory'' ''x'') \<and>
     \<not> service_admits (st_reg (snd ?q KAdmission)) ''a'' [] ''1.2.3.4:5''"
    using deleted_auther_opens_service [OF prod.collapse [symmetric] r prod.collapse [symmetric] q m, of None] by blast
qed

end
