(* ===== verification/TunnelPool.thy ===== *)
theory TunnelPool
  imports Selector "HOL-Library.AList" "HOL-Library.Word"
begin

text \<open>
  The connectors of the tunnel handler, \<open>x/handler/tunnel/tunnel.go\<close>: a pool of tunnels by id, a
  tunnel with its connectors, the choice of one for a connection, and the goroutines that clean up.
  Every operation holds the mutex of the tunnel or pool, so each is one step. A connector's session
  is a multiplexed connection that may end at any time; connectors live in a store indexed by
  number.
\<close>

section \<open>Connectors and tunnels\<close>

text \<open>\<open>IsUDP\<close> and \<open>Weight\<close> are read from the connector's id; the weight is a \<open>uint8\<close>.\<close>

record connector =
  cn_id :: string
  cn_udp :: bool
  cn_weight :: "8 word"
  cn_closed :: bool

record tunnel =
  tn_connectors :: "nat list"
  tn_closed :: bool

definition MaxWeight :: "8 word" where
  "MaxWeight = 255"

definition NewTunnel :: tunnel where
  "NewTunnel = \<lparr>tn_connectors = [], tn_closed = False\<rparr>"

definition AddConnector :: "nat \<Rightarrow> tunnel \<Rightarrow> tunnel" where
  "AddConnector c t = t\<lparr>tn_connectors := tn_connectors t @ [c]\<rparr>"

definition connector_Close :: "nat \<Rightarrow> connector list \<Rightarrow> connector list" where
  "connector_Close c h = h[c := (h ! c)\<lparr>cn_closed := True\<rparr>]"

text \<open>
  The loop of \<open>GetConnector\<close>: the items of the random choice and whether a connector of maximal
  weight has been found, which throws the others out.
\<close>

definition same_network :: "string \<Rightarrow> connector \<Rightarrow> bool" where
  "same_network network c \<longleftrightarrow> (network = ''udp'' \<and> cn_udp c) \<or> (network \<noteq> ''udp'' \<and> \<not> cn_udp c)"

definition weight_or_one :: "8 word \<Rightarrow> 8 word" where
  "weight_or_one w = (if w = 0 then 1 else w)"

fun collect_connectors ::
    "string \<Rightarrow> connector list \<Rightarrow> nat list \<Rightarrow> bool \<times> (nat \<times> int) list \<Rightarrow> bool \<times> (nat \<times> int) list" where
  "collect_connectors network h [] s = s"
| "collect_connectors network h (i # is) (found, items) =
     (let c = h ! i; w = weight_or_one (cn_weight c) in
      if cn_closed c \<or> \<not> same_network network c then collect_connectors network h is (found, items)
      else
        (let (found', items') = (if w = MaxWeight \<and> \<not> found then (True, []) else (found, items))
         in collect_connectors network h is
              (found', if w = MaxWeight \<or> \<not> found' then items' @ [(i, uint w)] else items')))"

text \<open>\<open>draw n\<close> is what \<open>Intn(n)\<close> returns. A single connector is taken whatever the network.\<close>

definition GetConnector :: "(int \<Rightarrow> int) \<Rightarrow> string \<Rightarrow> connector list \<Rightarrow> tunnel \<Rightarrow> nat option" where
  "GetConnector draw network h t =
     (case tn_connectors t of
        [c] \<Rightarrow> if cn_closed (h ! c) then None else Some c
      | cs \<Rightarrow> rw_Next draw (snd (collect_connectors network h cs (False, []))))"

text \<open>\<open>Close\<close> closes every connector, once.\<close>

definition tunnel_Close :: "tunnel \<Rightarrow> connector list \<Rightarrow> tunnel \<times> connector list" where
  "tunnel_Close t h =
     (if tn_closed t then (t, h)
      else (t\<lparr>tn_closed := True\<rparr>, fold connector_Close (tn_connectors t) h))"

definition CloseOnIdle :: "tunnel \<Rightarrow> bool \<times> tunnel" where
  "CloseOnIdle t =
     (if tn_closed t then (False, t)
      else if tn_connectors t = [] then (True, t\<lparr>tn_closed := True\<rparr>)
      else (False, t))"

text \<open>One tick of \<open>clean\<close>: the connectors that are closed go, the others are renewed.\<close>

definition tunnel_clean :: "connector list \<Rightarrow> tunnel \<Rightarrow> tunnel \<times> nat list" where
  "tunnel_clean h t =
     (let left = filter (\<lambda>c. \<not> cn_closed (h ! c)) (tn_connectors t)
      in (t\<lparr>tn_connectors := left\<rparr>, left))"

section \<open>The pool\<close>

record pool =
  pl_tunnels :: "(string \<times> tunnel) list"
  pl_store :: "connector list"

definition NewConnectorPool :: pool where
  "NewConnectorPool = \<lparr>pl_tunnels = [], pl_store = []\<rparr>"

text \<open>A new connector, open, is put into the store and added to its tunnel.\<close>

definition pool_Add :: "string \<Rightarrow> string \<Rightarrow> bool \<Rightarrow> 8 word \<Rightarrow> pool \<Rightarrow> pool" where
  "pool_Add tid cid udp w p =
     (let i = length (pl_store p);
          t = (case map_of (pl_tunnels p) tid of None \<Rightarrow> NewTunnel | Some t \<Rightarrow> t)
      in \<lparr>pl_tunnels = AList.update tid (AddConnector i t) (pl_tunnels p),
          pl_store = pl_store p @ [\<lparr>cn_id = cid, cn_udp = udp, cn_weight = w, cn_closed = False\<rparr>]\<rparr>)"

definition pool_Get :: "(int \<Rightarrow> int) \<Rightarrow> string \<Rightarrow> string \<Rightarrow> pool \<Rightarrow> nat option" where
  "pool_Get draw network tid p =
     (case map_of (pl_tunnels p) tid of
        None \<Rightarrow> None
      | Some t \<Rightarrow> GetConnector draw network (pl_store p) t)"

fun close_tunnels :: "(string \<times> tunnel) list \<Rightarrow> connector list \<Rightarrow> connector list" where
  "close_tunnels [] h = h"
| "close_tunnels ((k, t) # ts) h = close_tunnels ts (snd (tunnel_Close t h))"

definition pool_Close :: "pool \<Rightarrow> pool" where
  "pool_Close p = \<lparr>pl_tunnels = [], pl_store = close_tunnels (pl_tunnels p) (pl_store p)\<rparr>"

text \<open>One tick of \<open>closeIdles\<close>; the tunnels that were not idle keep what \<open>CloseOnIdle\<close> left.\<close>

definition closeIdles :: "pool \<Rightarrow> pool" where
  "closeIdles p =
     p\<lparr>pl_tunnels := map (\<lambda>(k, t). (k, snd (CloseOnIdle t)))
         (filter (\<lambda>(k, t). \<not> fst (CloseOnIdle t)) (pl_tunnels p))\<rparr>"

definition clean_tick :: "string \<Rightarrow> pool \<Rightarrow> pool" where
  "clean_tick tid p =
     (case map_of (pl_tunnels p) tid of
        None \<Rightarrow> p
      | Some t \<Rightarrow> p\<lparr>pl_tunnels := AList.update tid (fst (tunnel_clean (pl_store p) t)) (pl_tunnels p)\<rparr>)"

definition session_end :: "nat \<Rightarrow> pool \<Rightarrow> pool" where
  "session_end c p = p\<lparr>pl_store := connector_Close c (pl_store p)\<rparr>"

inductive pool_run :: "pool \<Rightarrow> (string \<times> nat) list \<Rightarrow> bool" where
  start: "pool_run NewConnectorPool []"
| add: "pool_run p log \<Longrightarrow> pool_run (pool_Add tid cid udp w p) (log @ [(tid, length (pl_store p))])"
| ends: "pool_run p log \<Longrightarrow> c < length (pl_store p) \<Longrightarrow> pool_run (session_end c p) log"
| clean: "pool_run p log \<Longrightarrow> pool_run (clean_tick tid p) log"
| idle: "pool_run p log \<Longrightarrow> pool_run (closeIdles p) log"
| shut: "pool_run p log \<Longrightarrow> pool_run (pool_Close p) log"

section \<open>Which connector is chosen\<close>

definition eligible :: "string \<Rightarrow> connector list \<Rightarrow> nat list \<Rightarrow> nat list" where
  "eligible network h cs = filter (\<lambda>i. \<not> cn_closed (h ! i) \<and> same_network network (h ! i)) cs"

definition heaviest :: "connector list \<Rightarrow> nat list \<Rightarrow> nat list" where
  "heaviest h es = filter (\<lambda>i. weight_or_one (cn_weight (h ! i)) = MaxWeight) es"

definition weighted :: "connector list \<Rightarrow> nat list \<Rightarrow> (nat \<times> int) list" where
  "weighted h es = map (\<lambda>i. (i, uint (weight_or_one (cn_weight (h ! i))))) es"

lemma eligible_simps [simp]:
  "eligible network h [] = []"
  "eligible network h (i # is) =
     (if cn_closed (h ! i) \<or> \<not> same_network network (h ! i) then eligible network h is
      else i # eligible network h is)"
  by (auto simp: eligible_def)

lemma heaviest_simps [simp]:
  "heaviest h [] = []"
  "heaviest h (i # es) =
     (if weight_or_one (cn_weight (h ! i)) = MaxWeight then i # heaviest h es else heaviest h es)"
  by (auto simp: heaviest_def)

lemma weighted_simps [simp]:
  "weighted h [] = []"
  "weighted h (i # es) = (i, uint (weight_or_one (cn_weight (h ! i)))) # weighted h es"
  "weighted h es = [] \<longleftrightarrow> es = []"
  by (auto simp: weighted_def)

lemma collect_spec:
  "snd (collect_connectors network h cs (found, items)) =
     (let es = eligible network h cs; hs = heaviest h es
      in if found then items @ weighted h hs
         else if hs \<noteq> [] then weighted h hs else items @ weighted h es)"
proof (induction cs arbitrary: found items)
  case (Cons c cs)
  show ?case
  proof (cases "cn_closed (h ! c) \<or> \<not> same_network network (h ! c)")
    case True
    then show ?thesis using Cons by (simp add: Let_def)
  next
    case False
    then show ?thesis using Cons
      by (cases found; cases "weight_or_one (cn_weight (h ! c)) = MaxWeight") (simp_all add: Let_def)
  qed
qed simp

lemma weight_positive: "0 < uint (weight_or_one w)"
proof (cases "w = 0")
  case False
  then have "uint w \<noteq> 0" by (simp add: uint_0_iff)
  then have "0 < uint w" using uint_ge_0 [of w] by linarith
  then show ?thesis using False by (simp add: weight_or_one_def)
qed (simp add: weight_or_one_def)

lemma rw_Next_weighted:
  "es \<noteq> [] \<Longrightarrow> \<exists>c\<in>set es. rw_Next draw (weighted h es) = Some c"
proof -
  assume es: "es \<noteq> []"
  have "0 < rw_sum (weighted h es)"
    by (rule rw_sum_pos) (use es weight_positive in \<open>auto simp: weighted_def\<close>)
  then obtain c where c: "rw_Next draw (weighted h es) = Some c"
    using es by (cases "rw_walk (draw (rw_sum (weighted h es)) + 1) (weighted h es)") (simp_all add: rw_Next_def)
  then have "c \<in> set es" using rw_Next_in by (fastforce simp: weighted_def)
  then show ?thesis using c by blast
qed

text \<open>
  What \<open>GetConnector\<close> chooses. A tunnel with one connector gives it out whenever it is open,
  for any network. With more, it gives out one that is open and of the right network whenever there
  is one, whatever the random draw, and one of maximal weight whenever there is one of those.
\<close>

theorem connector_is_chosen:
  "(case tn_connectors t of
      [c] \<Rightarrow> GetConnector draw network h t = (if cn_closed (h ! c) then None else Some c)
    | cs \<Rightarrow>
        (let es = eligible network h cs; hs = heaviest h es
         in if es = [] then GetConnector draw network h t = None
            else \<exists>c\<in>set (if hs = [] then es else hs). GetConnector draw network h t = Some c))"
proof -
  have r: "rw_Next draw (snd (collect_connectors network h cs (False, []))) =
      rw_Next draw (weighted h (let es = eligible network h cs in if heaviest h es = [] then es else heaviest h es))"
    for cs by (simp add: collect_spec Let_def)
  have e: "rw_Next draw (weighted h []) = None" by (simp add: rw_Next_def)
  show ?thesis
  proof (cases "tn_connectors t")
    case Nil
    then show ?thesis by (simp add: GetConnector_def rw_Next_def)
  next
    case (Cons c cs)
    show ?thesis
    proof (cases cs)
      case (Cons d ds)
      have g: "GetConnector draw network h t = rw_Next draw (snd (collect_connectors network h (c # d # ds) (False, [])))"
        by (simp add: GetConnector_def \<open>tn_connectors t = c # cs\<close> Cons)
      let ?es = "eligible network h (c # d # ds)"
      let ?hs = "heaviest h ?es"
      show ?thesis
      proof (cases "?es = []")
        case True
        then have "GetConnector draw network h t = rw_Next draw (weighted h [])"
          by (simp only: g r Let_def heaviest_simps if_True refl if_cancel)
        then have "GetConnector draw network h t = None" by (simp only: e)
        then show ?thesis using True by (simp add: \<open>tn_connectors t = c # cs\<close> Cons)
      next
        case False
        then have "(if ?hs = [] then ?es else ?hs) \<noteq> []" by simp
        from rw_Next_weighted [OF this, of draw h]
        have "\<exists>c'\<in>set (if ?hs = [] then ?es else ?hs). GetConnector draw network h t = Some c'"
          by (simp only: g r Let_def)
        then show ?thesis using False unfolding \<open>tn_connectors t = c # cs\<close> Cons
          by (simp only: list.case Let_def if_False)
      qed
    qed (simp add: GetConnector_def Cons)
  qed
qed

lemma GetConnector_open:
  assumes "GetConnector draw network h t = Some c"
  shows "c \<in> set (tn_connectors t) \<and> \<not> cn_closed (h ! c)"
proof -
  have *: "c \<in> set cs \<and> \<not> cn_closed (h ! c)"
    if "rw_Next draw (snd (collect_connectors network h cs (False, []))) = Some c" for cs
  proof -
    have "c \<in> fst ` set (snd (collect_connectors network h cs (False, [])))" using rw_Next_in [OF that] .
    then have "c \<in> set (eligible network h cs)"
      by (auto simp: collect_spec Let_def weighted_def heaviest_def split: if_splits)
    then show ?thesis by (simp add: eligible_def)
  qed
  show ?thesis
  proof (cases "tn_connectors t")
    case Nil
    then show ?thesis using assms * [of "[]"] by (simp add: GetConnector_def)
  next
    case (Cons d ds)
    then show ?thesis using assms * [of "d # ds"]
      by (cases ds) (auto simp: GetConnector_def split: if_splits)
  qed
qed

section \<open>What the pool keeps true\<close>

text \<open>
  Every tunnel of the pool is open and holds connectors that were added for its id; the log has
  what was added, in order.
\<close>

definition pool_ok :: "pool \<Rightarrow> (string \<times> nat) list \<Rightarrow> bool" where
  "pool_ok p log \<longleftrightarrow>
     distinct (map fst (pl_tunnels p)) \<and>
     (\<forall>tid t. map_of (pl_tunnels p) tid = Some t \<longrightarrow>
        \<not> tn_closed t \<and> (\<forall>c\<in>set (tn_connectors t). (tid, c) \<in> set log \<and> c < length (pl_store p)))"

lemma connector_Close_length [simp]: "length (connector_Close c h) = length h"
  by (simp add: connector_Close_def)

lemma pool_ok_tunnel:
  "pool_ok p log \<Longrightarrow> map_of (pl_tunnels p) tid = Some t \<Longrightarrow>
   \<not> tn_closed t \<and> (\<forall>c\<in>set (tn_connectors t). (tid, c) \<in> set log \<and> c < length (pl_store p))"
  by (simp add: pool_ok_def)

lemma pool_ok_Add: "pool_ok p log \<Longrightarrow> pool_ok (pool_Add tid cid udp w p) (log @ [(tid, length (pl_store p))])"
proof -
  assume ok: "pool_ok p log"
  have d: "distinct (map fst (pl_tunnels p))" using ok by (simp add: pool_ok_def)
  show ?thesis
    unfolding pool_ok_def
  proof (intro conjI allI impI)
    show "distinct (map fst (pl_tunnels (pool_Add tid cid udp w p)))"
      using d by (simp add: pool_Add_def Let_def distinct_update)
  next
    fix k t
    assume "map_of (pl_tunnels (pool_Add tid cid udp w p)) k = Some t"
    then have t: "if k = tid then t = AddConnector (length (pl_store p))
          (case map_of (pl_tunnels p) tid of None \<Rightarrow> NewTunnel | Some t \<Rightarrow> t)
        else map_of (pl_tunnels p) k = Some t"
      by (auto simp: pool_Add_def Let_def update_conv split: if_splits)
    have "\<not> tn_closed t \<and> (\<forall>c\<in>set (tn_connectors t).
        (k, c) \<in> set (log @ [(tid, length (pl_store p))]) \<and> c < length (pl_store (pool_Add tid cid udp w p)))"
    proof (cases "k = tid")
      case True
      then show ?thesis using t pool_ok_tunnel [OF ok, of tid]
        by (cases "map_of (pl_tunnels p) tid")
          (auto simp: AddConnector_def NewTunnel_def pool_Add_def Let_def less_SucI)
    next
      case False
      then show ?thesis using t pool_ok_tunnel [OF ok, of k t]
        by (auto simp: pool_Add_def Let_def less_SucI)
    qed
    then show "\<not> tn_closed t" "\<forall>c\<in>set (tn_connectors t).
        (k, c) \<in> set (log @ [(tid, length (pl_store p))]) \<and> c < length (pl_store (pool_Add tid cid udp w p))"
      by blast+
  qed
qed

lemma pool_ok_idles: "pool_ok p log \<Longrightarrow> pool_ok (closeIdles p) log"
proof -
  assume ok: "pool_ok p log"
  let ?ts = "filter (\<lambda>(k, t). \<not> fst (CloseOnIdle t)) (pl_tunnels p)"
  have d: "distinct (map fst (pl_tunnels p))" using ok by (simp add: pool_ok_def)
  have m: "map fst (map (\<lambda>(k, t). (k, snd (CloseOnIdle t))) ts) = map fst ts" for ts
    by (induction ts) auto
  have df: "distinct (map fst (map (\<lambda>(k, t). (k, snd (CloseOnIdle t))) ?ts))"
    unfolding m by (rule distinct_map_filter [OF d])
  have "\<not> tn_closed t \<and> (\<forall>c\<in>set (tn_connectors t). (k, c) \<in> set log \<and> c < length (pl_store p))"
    if "map_of (map (\<lambda>(k, t). (k, snd (CloseOnIdle t))) ?ts) k = Some t" for k t
  proof -
    have "(k, t) \<in> set (map (\<lambda>(k, t). (k, snd (CloseOnIdle t))) ?ts)" by (rule map_of_SomeD [OF that])
    then obtain t0 where t0: "(k, t0) \<in> set (pl_tunnels p)" "\<not> fst (CloseOnIdle t0)" "t = snd (CloseOnIdle t0)"
      by auto
    then have "t = t0" by (auto simp: CloseOnIdle_def split: if_splits)
    then show ?thesis using pool_ok_tunnel [OF ok, of k t0] t0(1) d by simp
  qed
  then show ?thesis using df by (simp add: pool_ok_def closeIdles_def)
qed

lemma pool_ok_clean: "pool_ok p log \<Longrightarrow> pool_ok (clean_tick tid p) log"
proof -
  assume ok: "pool_ok p log"
  show ?thesis
  proof (cases "map_of (pl_tunnels p) tid")
    case None
    then show ?thesis using ok by (simp add: clean_tick_def)
  next
    case (Some t)
    have d: "distinct (map fst (pl_tunnels p))" using ok by (simp add: pool_ok_def)
    show ?thesis
      using Some ok pool_ok_tunnel [OF ok Some] d
      by (auto simp: pool_ok_def clean_tick_def tunnel_clean_def Let_def update_conv distinct_update
          split: if_splits)
  qed
qed

lemma pool_run_ok: "pool_run p log \<Longrightarrow> pool_ok p log"
proof (induction rule: pool_run.induct)
  case start
  show ?case by (simp add: pool_ok_def NewConnectorPool_def)
next
  case (ends p log c)
  then show ?case by (auto simp: pool_ok_def session_end_def)
next
  case (shut p log)
  then show ?case by (simp add: pool_ok_def pool_Close_def)
qed (simp_all add: pool_ok_Add pool_ok_clean pool_ok_idles)

text \<open>
  (C22) The pool never mixes tunnels up and hands out nothing that is closed. Whatever connectors
  were added, ended and cleaned away, and whenever idle tunnels were dropped or the pool was shut,
  a connector given out for a tunnel id is open and was added under that id.
\<close>

theorem pool_gives_own_connector:
  assumes "pool_run p log" "pool_Get draw network tid p = Some c"
  shows "(tid, c) \<in> set log \<and> c < length (pl_store p) \<and> \<not> cn_closed (pl_store p ! c)"
proof -
  obtain t where t: "map_of (pl_tunnels p) tid = Some t" "GetConnector draw network (pl_store p) t = Some c"
    using assms(2) by (auto simp: pool_Get_def split: option.splits)
  show ?thesis
    using GetConnector_open [OF t(2)] pool_ok_tunnel [OF pool_run_ok [OF assms(1)] t(1)] by blast
qed

definition sample_pool :: pool where
  "sample_pool = clean_tick ''t'' (session_end 0 (pool_Add ''t'' ''c1'' False 5
     (pool_Add ''t'' ''c0'' False 0 NewConnectorPool)))"

theorem pool_gives_own_connector_witness:
  "pool_Get (\<lambda>_. 0) ''udp'' ''t'' sample_pool = Some 1 \<and> \<not> cn_closed (pl_store sample_pool ! 1)"
proof -
  have "pool_run (pool_Add ''t'' ''c1'' False 5 (pool_Add ''t'' ''c0'' False 0 NewConnectorPool)) [(''t'', 0), (''t'', 1)]"
    using pool_run.add [OF pool_run.add [OF pool_run.start, of "''t''" "''c0''" False 0], of "''t''" "''c1''" False 5]
    by (simp add: pool_Add_def NewConnectorPool_def Let_def)
  from pool_run.clean [OF pool_run.ends [OF this, of 0], of "''t''"]
  have r: "pool_run sample_pool [(''t'', 0), (''t'', 1)]"
    by (simp add: sample_pool_def pool_Add_def NewConnectorPool_def Let_def)
  have g: "pool_Get (\<lambda>_. 0) ''udp'' ''t'' sample_pool = Some 1" by code_simp
  show ?thesis using pool_gives_own_connector [OF r g] g by simp
qed

text \<open>
  The connector in the witness is a TCP connector given out for UDP: with one connector left the
  network is not looked at. As soon as the tunnel has two, it is.
\<close>

lemma second_connector_matters:
  "pool_Get draw ''udp'' ''t'' (pool_Add ''t'' ''c2'' False 5 sample_pool) = None"
proof -
  have "snd (collect_connectors ''udp'' (pl_store (pool_Add ''t'' ''c2'' False 5 sample_pool)) [1, 2] (False, [])) = []"
    "map_of (pl_tunnels (pool_Add ''t'' ''c2'' False 5 sample_pool)) ''t'' = Some \<lparr>tn_connectors = [1, 2], tn_closed = False\<rparr>"
    by code_simp+
  then show ?thesis by (simp add: pool_Get_def GetConnector_def rw_Next_def)
qed

end
