(* ===== verification/TunnelRoute.thy ===== *)
theory TunnelRoute
  imports TunnelPool NameTables Authers
begin

text \<open>
  Who reaches which tunnel, \<open>x/handler/tunnel\<close>: the request of a client (\<open>handler.go\<close>), the tunnel a
  connection goes to (\<open>connect.go\<close>), the host name a new connector gets (\<open>bind.go\<close>), the dial through
  the pool and service discovery (\<open>dialer.go\<close>), and the two ways in through the public entry point
  (\<open>entrypoint.go\<close>). Tunnel ids are those of the \<open>relay\<close> package, a parameter: a 16-byte uuid with a
  mark for private ones.
\<close>

section \<open>Tunnel ids\<close>

record ('u, 't) relay_ids =
  ri_uuid :: "string \<Rightarrow> 'u"
  ri_new :: "'u \<Rightarrow> 't"
  ri_new_private :: "'u \<Rightarrow> 't"
  ri_bytes :: "'t \<Rightarrow> 'u"
  ri_none :: 't
  ri_zero :: "'t \<Rightarrow> bool"
  ri_private :: "'t \<Rightarrow> bool"
  ri_equal :: "'t \<Rightarrow> 't \<Rightarrow> bool"
  ri_string :: "'t \<Rightarrow> string"

text \<open>An endpoint of the ingress is a tunnel's uuid, with a dollar sign in front for a private one.\<close>

definition parseTunnelID :: "('u, 't) relay_ids \<Rightarrow> string \<Rightarrow> 't" where
  "parseTunnelID I s =
     (case s of
        [] \<Rightarrow> ri_none I
      | c # cs \<Rightarrow> if c = CHR ''$'' then ri_new_private I (ri_uuid I cs) else ri_new I (ri_uuid I s))"

section \<open>Requests\<close>

datatype 't feature =
  UserAuth string string | AddrOf string | TunnelOf 't | NetworkOf string | OtherFeature

record 't tunnel_request =
  tq_user :: string
  tq_pass :: string
  tq_src :: string
  tq_dst :: string
  tq_network :: string
  tq_tunnel :: 't

text \<open>The first address is the source, the ones after it the destination.\<close>

fun read_feature :: "'t feature \<Rightarrow> 't tunnel_request \<Rightarrow> 't tunnel_request" where
  "read_feature (UserAuth u p) q = q\<lparr>tq_user := u, tq_pass := p\<rparr>"
| "read_feature (AddrOf a) q = (if tq_src q \<noteq> [] then q\<lparr>tq_dst := a\<rparr> else q\<lparr>tq_src := a\<rparr>)"
| "read_feature (TunnelOf t) q = q\<lparr>tq_tunnel := t\<rparr>"
| "read_feature (NetworkOf n) q = q\<lparr>tq_network := n\<rparr>"
| "read_feature OtherFeature q = q"

definition read_features :: "('u, 't) relay_ids \<Rightarrow> 't feature list \<Rightarrow> 't tunnel_request" where
  "read_features I fs =
     fold read_feature fs
       \<lparr>tq_user = [], tq_pass = [], tq_src = [], tq_dst = [], tq_network = ''tcp'', tq_tunnel = ri_none I\<rparr>"

section \<open>Connecting and binding\<close>

text \<open>
  What the handler is set up with. A rate limiter that is there answers for a host; the bypass, the
  ingress and the authenticator may be missing.
\<close>

record ('u, 't) tunnel_handler =
  th_ids :: "('u, 't) relay_ids"
  th_rate :: "string \<Rightarrow> bool"
  th_auther :: "auther option"
  th_bypass :: "(string \<Rightarrow> string \<Rightarrow> bool) option"
  th_ingress :: "(string \<Rightarrow> ingress_rule option) option"
  th_entry :: 't
  th_direct :: bool

datatype 't reached = Refused string | Reached 't | Bound 't string string

text \<open>The tunnel a host name is ruled for; the empty id without a rule.\<close>

definition ingress_tunnel :: "('u, 't) tunnel_handler \<Rightarrow> string \<Rightarrow> 't" where
  "ingress_tunnel H host =
     (case th_ingress H of
        None \<Rightarrow> ri_none (th_ids H)
      | Some get \<Rightarrow>
          if host = [] then ri_none (th_ids H)
          else case get host of
            None \<Rightarrow> ri_none (th_ids H)
          | Some r \<Rightarrow> parseTunnelID (th_ids H) (ir_endpoint r))"

definition handleConnect :: "('u, 't) tunnel_handler \<Rightarrow> string \<Rightarrow> string \<Rightarrow> 't \<Rightarrow> 't reached" where
  "handleConnect H network dst visitor =
     (if (case th_bypass H of None \<Rightarrow> False | Some b \<Rightarrow> b network dst) then Refused ''forbidden''
      else
        (let I = th_ids H; tid = ingress_tunnel H (split_host dst) in
         if ri_equal I visitor (th_entry H) then
           (if ri_zero I tid then Refused ''network unreachable''
            else if ri_private I tid then Refused ''host unreachable''
            else Reached tid)
         else
           (let tid' = (if th_direct H then visitor else tid) in
            if \<not> ri_equal I tid' visitor then Refused ''host unreachable'' else Reached tid')))"

text \<open>
  The host name of a new connector: the one it asks for, unless there is no ingress or the name is
  ruled for another tunnel; then the tunnel's own endpoint name, a hash of its id.
\<close>

definition bind_host :: "(string \<Rightarrow> ingress_rule option) option \<Rightarrow> string \<Rightarrow> string \<Rightarrow> string \<Rightarrow> string" where
  "bind_host ing endpoint tunnel a =
     (let host = split_host a in
      case ing of
        None \<Rightarrow> endpoint
      | Some get \<Rightarrow>
          if host = [] then endpoint
          else if host \<noteq> endpoint then
            (case get host of
               Some r \<Rightarrow> if ir_endpoint r \<noteq> tunnel then endpoint else host
             | None \<Rightarrow> host)
          else host)"

datatype command = CmdConnect | CmdBind | CmdOther

text \<open>\<open>Handle\<close>, up to the dial or the session: \<open>version_ok\<close> and the command are read from the request.\<close>

definition tunnel_Handle ::
    "('u, 't) tunnel_handler \<Rightarrow> (string \<Rightarrow> string) \<Rightarrow> string \<Rightarrow> bool \<Rightarrow> command \<Rightarrow> 't feature list \<Rightarrow> 't reached" where
  "tunnel_Handle H hash remote version_ok cmd fs =
     (let I = th_ids H; q = read_features I fs in
      if \<not> th_rate H (split_host remote) then Refused ''rate limit''
      else if \<not> version_ok then Refused ''bad version''
      else if ri_zero I (tq_tunnel q) then Refused ''invalid tunnel ID''
      else if (case th_auther H of None \<Rightarrow> False | Some f \<Rightarrow> \<not> snd (f (tq_user q) (tq_pass q)))
        then Refused ''unauthorized''
      else case cmd of
        CmdConnect \<Rightarrow> handleConnect H (tq_network q) (tq_dst q) (tq_tunnel q)
      | CmdBind \<Rightarrow>
          Bound (tq_tunnel q)
            (bind_host (th_ingress H) (hash (ri_string I (tq_tunnel q))) (ri_string I (tq_tunnel q)) (tq_dst q))
            (tq_network q)
      | CmdOther \<Rightarrow> Refused ''unknown command'')"

section \<open>The public entry point\<close>

text \<open>\<open>dial\<close>, for a host name, and \<open>handleConnect\<close>, for a client that speaks the relay protocol.\<close>

definition entrypoint_dial :: "('u, 't) tunnel_handler \<Rightarrow> string \<Rightarrow> 't reached" where
  "entrypoint_dial H a =
     (let I = th_ids H;
          tid = (case th_ingress H of
                   None \<Rightarrow> ri_none I
                 | Some get \<Rightarrow>
                     (case get a of None \<Rightarrow> ri_none I | Some r \<Rightarrow> parseTunnelID I (ir_endpoint r)))
      in if ri_zero I tid then Refused ''no route''
         else if ri_private I tid then Refused ''private tunnel''
         else Reached tid)"

definition entrypoint_connect :: "('u, 't) relay_ids \<Rightarrow> 't feature list \<Rightarrow> 't reached" where
  "entrypoint_connect I fs =
     (let tid = tq_tunnel (fold (\<lambda>f q. case f of
                  TunnelOf t \<Rightarrow> q\<lparr>tq_tunnel := ri_new I (ri_bytes I t)\<rparr>
                | UserAuth u p \<Rightarrow> q
                | _ \<Rightarrow> read_feature f q) fs (read_features I []))
      in if ri_zero I tid then Refused ''invalid tunnel ID'' else Reached tid)"

section \<open>Dialling\<close>

record service_entry =
  se_id :: string
  se_node :: string
  se_network :: string
  se_address :: string

record 'c dialed =
  di_conn :: "'c option"
  di_node :: string
  di_cid :: string
  di_err :: go_error

definition ErrTunnelNotAvailable :: string where
  "ErrTunnelNotAvailable = ''tunnel not available''"

text \<open>
  The tries on the pool: \<open>got i\<close> is what the \<open>i\<close>th \<open>Get\<close> finds, the connector's id and what its
  \<open>GetConn\<close> answers. The last component counts the calls of \<open>GetConn\<close>.
\<close>

fun dial_tries ::
    "string \<Rightarrow> (nat \<Rightarrow> (string \<times> 'c option \<times> go_error) option) \<Rightarrow> nat \<Rightarrow> nat \<Rightarrow> 'c dialed \<Rightarrow> 'c dialed \<times> nat" where
  "dial_tries node got i 0 d = (d, 0)"
| "dial_tries node got i (Suc k) d =
     (case got i of
        None \<Rightarrow> (d, 0)
      | Some (cid, c, e) \<Rightarrow>
          if e \<noteq> nil_error then
            apsnd Suc (dial_tries node got (Suc i) k (d\<lparr>di_conn := c, di_err := e\<rparr>))
          else (d\<lparr>di_conn := c, di_err := nil_error, di_node := node, di_cid := cid\<rparr>, 1))"

definition tunnel_Dial ::
    "string \<Rightarrow> int \<Rightarrow> (nat \<Rightarrow> (string \<times> 'c option \<times> go_error) option) \<Rightarrow>
       (service_entry list \<times> go_error) option \<Rightarrow> (string \<Rightarrow> 'c option \<times> go_error) \<Rightarrow> string \<Rightarrow> 'c dialed \<times> nat" where
  "tunnel_Dial node retry got sd dial network =
     (let k = (if retry \<le> 0 then 1 else nat retry) in
      case dial_tries node got 0 k \<lparr>di_conn = None, di_node = [], di_cid = [], di_err = nil_error\<rparr> of
        (d, n) \<Rightarrow>
          if di_conn d \<noteq> None \<or> di_err d \<noteq> nil_error then (d, n)
          else case sd of
            None \<Rightarrow> (d\<lparr>di_err := Some ErrTunnelNotAvailable\<rparr>, n)
          | Some (_, Some e) \<Rightarrow> (d\<lparr>di_err := Some e\<rparr>, n)
          | Some (ss, None) \<Rightarrow>
              (case find (\<lambda>s. se_node s \<noteq> node \<and> se_network s = network) ss of
                 None \<Rightarrow> (d\<lparr>di_err := Some ErrTunnelNotAvailable\<rparr>, n)
               | Some s \<Rightarrow>
                   if se_address s = [] then (d\<lparr>di_err := Some ErrTunnelNotAvailable\<rparr>, n)
                   else (case dial (se_address s) of
                     (c, e) \<Rightarrow> (\<lparr>di_conn = c, di_node = se_node s, di_cid = se_id s, di_err = e\<rparr>, n))))"

section \<open>Who reaches what\<close>

text \<open>
  (C23) Access to tunnels. A client that asks the tunnel handler to connect reaches a tunnel only
  after the rate limiter and the authenticator have let it through and no bypass matches the
  destination. Through the entry point's id it reaches a tunnel only by a rule of the ingress for
  the destination, and never a private one; with any other id it reaches only the tunnel of that
  id.
\<close>

theorem tunnel_access:
  assumes "tunnel_Handle H hash remote version_ok CmdConnect fs = Reached tid"
    and "q = read_features (th_ids H) fs"
  shows "th_rate H (split_host remote) \<and>
    (\<forall>f. th_auther H = Some f \<longrightarrow> snd (f (tq_user q) (tq_pass q))) \<and>
    (\<forall>b. th_bypass H = Some b \<longrightarrow> \<not> b (tq_network q) (tq_dst q)) \<and>
    (if ri_equal (th_ids H) (tq_tunnel q) (th_entry H) then
       (\<not> ri_private (th_ids H) tid \<and> \<not> ri_zero (th_ids H) tid \<and>
        tid = ingress_tunnel H (split_host (tq_dst q)))
     else ri_equal (th_ids H) tid (tq_tunnel q))"
  using assms
  by (auto simp: tunnel_Handle_def handleConnect_def Let_def split: if_splits option.splits)

text \<open>Ids as a pair of a uuid, here its text, and the mark for private ones.\<close>

definition plain_ids :: "(string, string \<times> bool) relay_ids" where
  "plain_ids = \<lparr>ri_uuid = id, ri_new = (\<lambda>u. (u, False)), ri_new_private = (\<lambda>u. (u, True)), ri_bytes = fst,
     ri_none = ([], False), ri_zero = (\<lambda>t. fst t = []), ri_private = snd, ri_equal = (\<lambda>a b. fst a = fst b),
     ri_string = fst\<rparr>"

definition sample_handler :: "(string, string \<times> bool) tunnel_handler" where
  "sample_handler = \<lparr>th_ids = plain_ids, th_rate = (\<lambda>_. True), th_auther = None, th_bypass = None,
     th_ingress = Some (GetRule [''a.org'' \<mapsto> \<lparr>ir_host = ''a.org'', ir_endpoint = ''t1''\<rparr>,
       ''p.org'' \<mapsto> \<lparr>ir_host = ''p.org'', ir_endpoint = ''$t2''\<rparr>]),
     th_entry = (''entry'', False), th_direct = False\<rparr>"

definition visit :: "string \<Rightarrow> (string \<times> bool) feature list" where
  "visit dst = [AddrOf ''1.2.3.4:5'', AddrOf dst, TunnelOf (''entry'', False)]"

theorem tunnel_access_witness:
  "tunnel_Handle sample_handler id ''1.2.3.4:5'' True CmdConnect (visit ''a.org:80'') = Reached (''t1'', False) \<and>
   \<not> snd (''t1'', False) \<and>
   tunnel_Handle sample_handler id ''1.2.3.4:5'' True CmdConnect (visit ''p.org:80'') = Refused ''host unreachable''"
proof -
  have r: "tunnel_Handle sample_handler id ''1.2.3.4:5'' True CmdConnect (visit ''a.org:80'') = Reached (''t1'', False)"
    "tunnel_Handle sample_handler id ''1.2.3.4:5'' True CmdConnect (visit ''p.org:80'') = Refused ''host unreachable''"
    by code_simp+
  have h: "th_ids sample_handler = plain_ids" "th_entry sample_handler = (''entry'', False)"
    by (simp_all add: sample_handler_def)
  have e: "ri_equal plain_ids (tq_tunnel (read_features plain_ids (visit ''a.org:80''))) (''entry'', False)"
    by code_simp
  have "\<not> ri_private plain_ids (''t1'', False)"
    using conjunct2 [OF conjunct2 [OF conjunct2 [OF tunnel_access [OF r(1) refl]]]] e
    unfolding h by argo
  then show ?thesis using r by (simp add: plain_ids_def)
qed

text \<open>
  The entry point has a second way in. A client that speaks the relay protocol on the public
  entry point reaches every tunnel whose uuid it knows, private or not, without a rule of the
  ingress, an authenticator or a rate limiter: only the empty id is refused, while by name a private
  tunnel is.
\<close>

theorem entrypoint_reaches_private_tunnels:
  assumes "\<not> ri_zero I (ri_new I (ri_bytes I t))"
    and "th_ids H = I" "ri_private I (parseTunnelID I (ir_endpoint r))"
    and "th_ingress H = Some get" "get a = Some r"
  shows "entrypoint_connect I [TunnelOf t] = Reached (ri_new I (ri_bytes I t)) \<and>
    (\<exists>why. entrypoint_dial H a = Refused why)"
  using assms by (auto simp: entrypoint_connect_def entrypoint_dial_def Let_def read_features_def)

theorem entrypoint_reaches_private_tunnels_witness:
  "entrypoint_connect plain_ids [TunnelOf (''t2'', True)] = Reached (''t2'', False) \<and>
   (\<exists>why. entrypoint_dial sample_handler ''p.org'' = Refused why)"
proof -
  let ?r = "\<lparr>ir_host = ''p.org'', ir_endpoint = ''$t2''\<rparr>"
  let ?get = "GetRule [''a.org'' \<mapsto> \<lparr>ir_host = ''a.org'', ir_endpoint = ''t1''\<rparr>, ''p.org'' \<mapsto> ?r]"
  have g: "th_ingress sample_handler = Some ?get" "th_ids sample_handler = plain_ids"
    by (simp_all add: sample_handler_def)
  have r: "?get ''p.org'' = Some ?r" by code_simp
  have n: "\<not> ri_zero plain_ids (ri_new plain_ids (ri_bytes plain_ids (''t2'', True)))"
    "ri_private plain_ids (parseTunnelID plain_ids (ir_endpoint ?r))"
    by (simp_all add: plain_ids_def parseTunnelID_def)
  from entrypoint_reaches_private_tunnels [OF n(1) g(2) n(2) g(1) r]
  show ?thesis by (simp add: plain_ids_def)
qed

text \<open>A connector never takes over a host name that is ruled for another tunnel.\<close>

lemma bind_keeps_rules:
  assumes "bind_host (Some get) endpoint tunnel a = host" "host \<noteq> endpoint" "get host = Some r"
  shows "ir_endpoint r = tunnel"
  using assms by (auto simp: bind_host_def Let_def split: if_splits option.splits)

lemma dial_tries_bound: "snd (dial_tries node got i k d) \<le> k"
proof (induction k arbitrary: i d)
  case (Suc k)
  show ?case
  proof (cases "got i")
    case (Some x)
    obtain cid c e where "x = (cid, c, e)" by (cases x)
    then show ?thesis using Suc [of "Suc i"] Some by simp
  qed simp
qed simp

end
