(* ===== verification/RuleMatcher.thy ===== *)
theory RuleMatcher
  imports GoNet Strconv Bypass
begin

text \<open>
  The rules that pick a node by request, \<open>x/routing/matcher.go\<close> and \<open>x/routing/rules/parser.go\<close>: an
  expression of matchers with and, or and not is built into a tree, the tree into matchers, and
  these into an answer. The text of a rule is parsed by the \<open>predicate\<close> package, which calls the
  builders below; regular expressions are a parameter.
\<close>

section \<open>Rules\<close>

text \<open>What the parser reads: calls of matchers and the operators on them.\<close>

datatype expr =
  Call string "string list" | AndE expr expr | OrE expr expr | NotE expr

text \<open>The tree of the source: a matcher named \<open>and\<close> or \<open>or\<close> is an inner node.\<close>

datatype rule_tree =
  Leaf string bool "string list" | And rule_tree rule_tree | Or rule_tree rule_tree

fun invert :: "rule_tree \<Rightarrow> rule_tree" where
  "invert (Or l r) = And (invert l) (invert r)"
| "invert (And l r) = Or (invert l) (invert r)"
| "invert (Leaf f neg args) = Leaf f (\<not> neg) args"

fun build :: "expr \<Rightarrow> rule_tree" where
  "build (Call f args) = Leaf f False args"
| "build (AndE l r) = And (build l) (build r)"
| "build (OrE l r) = Or (build l) (build r)"
| "build (NotE e) = invert (build e)"

section \<open>Requests and single matchers\<close>

record request =
  rq_clientIP :: "int option"
  rq_host :: string
  rq_protocol :: string
  rq_method :: string
  rq_path :: string
  rq_header :: "(string \<rightharpoonup> string list) option"
  rq_query :: "(string \<rightharpoonup> string list) option"

text \<open>Why a rule is refused: the errors of the source by what they complain of.\<close>

datatype rule_error =
  NoArgs | EmptyArg | WrongNumber | InvalidIP | NotASCII | BadRegexp | NoSlash

text \<open>An answer of a matcher; \<open>None\<close> is a panic.\<close>

type_synonym answer = "bool option"
type_synonym matcher = "rule_error + (request \<Rightarrow> answer)"
type_synonym regexps = "string \<Rightarrow> (string \<Rightarrow> bool) option"

definition IsASCII :: "string \<Rightarrow> bool" where
  "IsASCII s = list_all (\<lambda>c. of_char c < (128::nat)) s"

definition parseHost :: "string \<Rightarrow> string" where
  "parseHost a =
     (if CHR '':'' \<notin> set a then a
      else case SplitHostPort a of
        Some (h, p) \<Rightarrow> h
      | None \<Rightarrow>
          if hd a = CHR ''['' \<and> last a = CHR '']'' then butlast (tl a) else a)"

definition request_host :: "request \<Rightarrow> string" where
  "request_host q = ToLower (TrimSpace (parseHost (rq_host q)))"

text \<open>
  \<open>http.CanonicalHeaderKey\<close>: only keys of token characters are changed; a letter has two cases.
\<close>

definition token_char :: "char \<Rightarrow> bool" where
  "token_char c \<longleftrightarrow>
     ToUpper [c] \<noteq> [c] \<or> ToLower [c] \<noteq> [c] \<or> is_digit c \<or>
     c \<in> set ''!#$%&*+-.^_`|~'' \<or> c = CHR 0x27"

fun canonical_from :: "bool \<Rightarrow> string \<Rightarrow> string" where
  "canonical_from up [] = []"
| "canonical_from up (c # cs) =
     (if up then ToUpper [c] else ToLower [c]) @ canonical_from (c = CHR ''-'') cs"

definition CanonicalHeaderKey :: "string \<Rightarrow> string" where
  "CanonicalHeaderKey s = (if list_all token_char s then canonical_from True s else s)"

definition host_pattern :: "string \<Rightarrow> string" where
  "host_pattern h =
     (let host = ToLower (TrimSpace h) in
      if HasPrefix host ''*'' then
        (if HasPrefix (tl host) ''.'' then tl host else CHR ''.'' # tl host)
      else host)"

text \<open>
  \<open>host[0]\<close> of an empty pattern is a panic; the request's host and equality are looked at first.
\<close>

definition host_matches :: "string \<Rightarrow> string \<Rightarrow> answer" where
  "host_matches host rhost =
     (if rhost = [] then Some False
      else if rhost = host then Some True
      else if host = [] then None
      else Some (hd host = CHR ''.'' \<and> HasSuffix rhost (tl host)))"

definition has_value :: "(string \<rightharpoonup> string list) option \<Rightarrow> string \<Rightarrow> (string \<Rightarrow> bool) option \<Rightarrow> answer" where
  "has_value m key test =
     (case m of
        None \<Rightarrow> Some False
      | Some f \<Rightarrow>
          (case f key of
             None \<Rightarrow> Some False
           | Some vs \<Rightarrow> (case test of None \<Rightarrow> Some True | Some t \<Rightarrow> Some (list_ex t vs))))"

definition clientIP :: "string \<Rightarrow> matcher" where
  "clientIP a =
     (case ParseIP a of
        Some ip \<Rightarrow> Inr (\<lambda>q. Some (rq_clientIP q = Some ip))
      | None \<Rightarrow>
          (case ParseCIDR a of
             None \<Rightarrow> Inl InvalidIP
           | Some n \<Rightarrow>
               Inr (\<lambda>q. Some (case rq_clientIP q of None \<Rightarrow> False | Some ip \<Rightarrow> net_contains n ip))))"

definition with_regexp ::
    "regexps \<Rightarrow> string \<Rightarrow> ((string \<Rightarrow> bool) \<Rightarrow> request \<Rightarrow> answer) \<Rightarrow> rule_error + (request \<Rightarrow> answer)" where
  "with_regexp R p f = (case R p of None \<Rightarrow> Inl BadRegexp | Some re \<Rightarrow> Inr (f re))"

definition with_slash :: "string \<Rightarrow> (request \<Rightarrow> bool) \<Rightarrow> rule_error + (request \<Rightarrow> answer)" where
  "with_slash p f = (if \<not> HasPrefix p ''/'' then Inl NoSlash else Inr (\<lambda>q. Some (f q)))"

definition proto_rule :: "string \<Rightarrow> matcher" where
  "proto_rule a = Inr (\<lambda>q. Some (ToLower a = rq_protocol q))"

definition method_rule :: "string \<Rightarrow> matcher" where
  "method_rule a = Inr (\<lambda>q. Some (ToUpper a = rq_method q))"

definition host_rule :: "string \<Rightarrow> matcher" where
  "host_rule a =
     (if \<not> IsASCII a then Inl NotASCII
      else Inr (\<lambda>q. host_matches (host_pattern a) (request_host q)))"

definition hostRegexp_rule :: "regexps \<Rightarrow> string \<Rightarrow> matcher" where
  "hostRegexp_rule R a =
     (if \<not> IsASCII a then Inl NotASCII else with_regexp R a (\<lambda>re q. Some (re (request_host q))))"

definition path_rule :: "string \<Rightarrow> matcher" where
  "path_rule a = with_slash a (\<lambda>q. rq_path q = a)"

definition pathRegexp_rule :: "regexps \<Rightarrow> string \<Rightarrow> matcher" where
  "pathRegexp_rule R a = with_regexp R a (\<lambda>re q. Some (re (rq_path q)))"

definition pathPrefix_rule :: "string \<Rightarrow> matcher" where
  "pathPrefix_rule a = with_slash a (\<lambda>q. HasPrefix (rq_path q) a)"

text \<open>One argument asks for the key, two for a value of it as well.\<close>

definition header_rule :: "string list \<Rightarrow> matcher" where
  "header_rule args =
     Inr (\<lambda>q. has_value (rq_header q) (CanonicalHeaderKey (args ! 0))
       (if length args = 2 then Some (\<lambda>v. v = args ! 1) else None))"

definition headerRegexp_rule :: "regexps \<Rightarrow> string list \<Rightarrow> matcher" where
  "headerRegexp_rule R args =
     (if length args = 1 then header_rule args
      else with_regexp R (args ! 1)
        (\<lambda>re q. has_value (rq_header q) (CanonicalHeaderKey (args ! 0)) (Some re)))"

definition query_rule :: "string list \<Rightarrow> matcher" where
  "query_rule args =
     Inr (\<lambda>q. has_value (rq_query q) (args ! 0)
       (if length args = 2 then Some (\<lambda>v. v = args ! 1) else None))"

definition queryRegexp_rule :: "regexps \<Rightarrow> string list \<Rightarrow> matcher" where
  "queryRegexp_rule R args =
     (if length args = 1 then query_rule args
      else with_regexp R (args ! 1) (\<lambda>re q. has_value (rq_query q) (args ! 0) (Some re)))"

text \<open>The names of the matchers, the numbers of arguments they take, and the matchers.\<close>

definition httpFuncs :: "regexps \<Rightarrow> string \<Rightarrow> (nat list \<times> (string list \<Rightarrow> matcher)) option" where
  "httpFuncs R =
     [''ClientIP'' \<mapsto> ([1], \<lambda>s. clientIP (s ! 0)),
      ''Proto'' \<mapsto> ([1], \<lambda>s. proto_rule (s ! 0)),
      ''Host'' \<mapsto> ([1], \<lambda>s. host_rule (s ! 0)),
      ''HostRegexp'' \<mapsto> ([1], \<lambda>s. hostRegexp_rule R (s ! 0)),
      ''Method'' \<mapsto> ([1], \<lambda>s. method_rule (s ! 0)),
      ''Path'' \<mapsto> ([1], \<lambda>s. path_rule (s ! 0)),
      ''PathRegexp'' \<mapsto> ([1], \<lambda>s. pathRegexp_rule R (s ! 0)),
      ''PathPrefix'' \<mapsto> ([1], \<lambda>s. pathPrefix_rule (s ! 0)),
      ''Header'' \<mapsto> ([1, 2], header_rule),
      ''HeaderRegexp'' \<mapsto> ([1, 2], headerRegexp_rule R),
      ''Query'' \<mapsto> ([1, 2], query_rule),
      ''QueryRegexp'' \<mapsto> ([1, 2], queryRegexp_rule R)]"

definition expectNParameters :: "nat list \<times> (string list \<Rightarrow> matcher) \<Rightarrow> string list \<Rightarrow> matcher" where
  "expectNParameters nf s = (if length s \<notin> set (fst nf) then Inl WrongNumber else snd nf s)"

definition CheckRule :: "string list \<Rightarrow> rule_error option" where
  "CheckRule args = (if args = [] then Some NoArgs else if [] \<in> set args then Some EmptyArg else None)"

text \<open>The parser only knows the names of the table.\<close>

definition leaf_matcher :: "regexps \<Rightarrow> string \<Rightarrow> string list \<Rightarrow> matcher" where
  "leaf_matcher R f args =
     (case CheckRule args of
        Some e \<Rightarrow> Inl e
      | None \<Rightarrow>
          (case httpFuncs R f of
             None \<Rightarrow> Inl WrongNumber
           | Some nf \<Rightarrow> expectNParameters nf args))"

section \<open>Trees of matchers\<close>

datatype matchers_tree =
  MLeaf "request \<Rightarrow> answer" | MAnd matchers_tree matchers_tree | MOr matchers_tree matchers_tree

fun addRule :: "regexps \<Rightarrow> rule_tree \<Rightarrow> rule_error + matchers_tree" where
  "addRule R (And l r) =
     (case addRule R l of
        Inl e \<Rightarrow> Inl e
      | Inr ml \<Rightarrow> (case addRule R r of Inl e \<Rightarrow> Inl e | Inr mr \<Rightarrow> Inr (MAnd ml mr)))"
| "addRule R (Or l r) =
     (case addRule R l of
        Inl e \<Rightarrow> Inl e
      | Inr ml \<Rightarrow> (case addRule R r of Inl e \<Rightarrow> Inl e | Inr mr \<Rightarrow> Inr (MOr ml mr)))"
| "addRule R (Leaf f neg args) =
     (case leaf_matcher R f args of
        Inl e \<Rightarrow> Inl e
      | Inr m \<Rightarrow> Inr (MLeaf (if neg then (\<lambda>q. map_option Not (m q)) else m)))"

definition both :: "answer \<Rightarrow> answer \<Rightarrow> answer" where
  "both a b = (case a of None \<Rightarrow> None | Some False \<Rightarrow> Some False | Some True \<Rightarrow> b)"

definition either :: "answer \<Rightarrow> answer \<Rightarrow> answer" where
  "either a b = (case a of None \<Rightarrow> None | Some True \<Rightarrow> Some True | Some False \<Rightarrow> b)"

fun tree_match :: "matchers_tree \<Rightarrow> request \<Rightarrow> answer" where
  "tree_match (MLeaf m) q = m q"
| "tree_match (MOr l r) q = either (tree_match l q) (tree_match r q)"
| "tree_match (MAnd l r) q = both (tree_match l q) (tree_match r q)"

definition NewMatcher :: "regexps \<Rightarrow> expr \<Rightarrow> rule_error + matchers_tree" where
  "NewMatcher R e = addRule R (build e)"

section \<open>A rule means what it says\<close>

text \<open>The expression read directly, with the negation where it is written.\<close>

fun eval :: "regexps \<Rightarrow> expr \<Rightarrow> request \<Rightarrow> answer" where
  "eval R (Call f args) q = (case leaf_matcher R f args of Inl e \<Rightarrow> None | Inr m \<Rightarrow> m q)"
| "eval R (AndE l r) q = both (eval R l q) (eval R r q)"
| "eval R (OrE l r) q = either (eval R l q) (eval R r q)"
| "eval R (NotE e) q = map_option Not (eval R e q)"

fun calls :: "expr \<Rightarrow> (string \<times> string list) list" where
  "calls (Call f args) = [(f, args)]"
| "calls (AndE l r) = calls l @ calls r"
| "calls (OrE l r) = calls l @ calls r"
| "calls (NotE e) = calls e"

definition refused_call :: "regexps \<Rightarrow> string \<times> string list \<Rightarrow> bool" where
  "refused_call R c \<longleftrightarrow> (case leaf_matcher R (fst c) (snd c) of Inl _ \<Rightarrow> True | Inr _ \<Rightarrow> False)"

lemma not_both: "map_option Not (both a b) = either (map_option Not a) (map_option Not b)"
  by (cases a; cases "the a") (auto simp: both_def either_def)

lemma not_either: "map_option Not (either a b) = both (map_option Not a) (map_option Not b)"
  by (cases a; cases "the a") (auto simp: both_def either_def)

lemma not_not: "map_option Not (map_option Not a) = (a :: answer)"
  by (cases a) auto

text \<open>The inverted tree is accepted when the tree is, and answers the opposite.\<close>

definition opposite :: "rule_error + matchers_tree \<Rightarrow> rule_error + matchers_tree \<Rightarrow> bool" where
  "opposite x y \<longleftrightarrow>
     (case (x, y) of
        (Inl e, Inl e') \<Rightarrow> e = e'
      | (Inr s, Inr t) \<Rightarrow> \<forall>q. tree_match t q = map_option Not (tree_match s q)
      | _ \<Rightarrow> False)"

lemma addRule_invert: "opposite (addRule R t) (addRule R (invert t))"
proof (induction t rule: invert.induct)
  case (1 l r)
  then show ?case
    by (cases "addRule R l"; cases "addRule R (invert l)"; cases "addRule R r"; cases "addRule R (invert r)")
      (auto simp: opposite_def not_either)
next
  case (2 l r)
  then show ?case
    by (cases "addRule R l"; cases "addRule R (invert l)"; cases "addRule R r"; cases "addRule R (invert r)")
      (auto simp: opposite_def not_both)
next
  case (3 f neg args)
  show ?case by (cases "leaf_matcher R f args"; cases neg) (auto simp: opposite_def not_not)
qed

definition agrees :: "regexps \<Rightarrow> expr \<Rightarrow> rule_error + matchers_tree \<Rightarrow> bool" where
  "agrees R e x \<longleftrightarrow>
     (case x of
        Inl _ \<Rightarrow> \<exists>c\<in>set (calls e). refused_call R c
      | Inr t \<Rightarrow> (\<forall>c\<in>set (calls e). \<not> refused_call R c) \<and> (\<forall>q. tree_match t q = eval R e q))"

lemma NewMatcher_agrees: "agrees R e (NewMatcher R e)"
  unfolding NewMatcher_def
proof (induction e)
  case (Call f args)
  show ?case by (cases "leaf_matcher R f args") (auto simp: agrees_def refused_call_def)
next
  case (AndE l r)
  then show ?case
    by (cases "addRule R (build l)"; cases "addRule R (build r)") (auto simp: agrees_def)
next
  case (OrE l r)
  then show ?case
    by (cases "addRule R (build l)"; cases "addRule R (build r)") (auto simp: agrees_def)
next
  case (NotE e)
  have "opposite (addRule R (build e)) (addRule R (invert (build e)))" by (rule addRule_invert)
  then show ?case using NotE
    by (cases "addRule R (build e)"; cases "addRule R (invert (build e))")
      (auto simp: agrees_def opposite_def)
qed

text \<open>
  (C24) A rule is its expression. Building pushes every negation down to the single matchers; the
  result is refused exactly when one of the calls in the expression is, and otherwise answers every
  request as the expression reads, with the operators evaluated from the left and the second
  operand only when it is needed.
\<close>

theorem rule_is_its_expression:
  "case NewMatcher R e of
     Inl _ \<Rightarrow> (\<exists>c\<in>set (calls e). refused_call R c)
   | Inr t \<Rightarrow> \<not> (\<exists>c\<in>set (calls e). refused_call R c) \<and> (\<forall>q. tree_match t q = eval R e q)"
  using NewMatcher_agrees [of R e] by (simp add: agrees_def split: sum.split_asm sum.split)

text \<open>A \<open>Host\<close> rule of a blank is accepted and panics at the first request that has a host.\<close>

lemma blank_host_rule_panics:
  "request_host q \<noteq> [] \<Longrightarrow> eval R (Call ''Host'' ['' '']) q = None"
proof -
  have c: "CheckRule ['' ''] = None" "IsASCII '' ''" "host_pattern '' '' = []" by code_simp+
  then have "leaf_matcher R ''Host'' ['' ''] = Inr (\<lambda>q. host_matches [] (request_host q))"
    by (simp add: leaf_matcher_def httpFuncs_def expectNParameters_def host_rule_def)
  then show "request_host q \<noteq> [] \<Longrightarrow> eval R (Call ''Host'' ['' '']) q = None"
    by (simp add: host_matches_def)
qed

text \<open>A wildcard host covers every host that ends like it, not only subdomains.\<close>

lemma wildcard_host_too_wide:
  "host_matches (host_pattern ''*.example.org'') ''badexample.org'' = Some True"
  by code_simp

end
