(* ===== verification/Bytes.thy ===== *)
theory Bytes
  imports Prelude "HOL-Library.Word"
begin

text \<open>
  Bytes on the wire: numbers in network and in Intel order as package \<open>encoding/binary\<close> writes and
  reads them, buffers that are filled from the front, and \<open>io.ReadFull\<close> on a stream that ends. The
  rest of the stream is the list of bytes still to come.
\<close>

type_synonym byte = "8 word"

type_synonym bytes = "byte list"

section \<open>Numbers\<close>

text \<open>\<open>k\<close> bytes of a number in network order, and the number some bytes stand for.\<close>

primrec put_be :: "nat \<Rightarrow> nat \<Rightarrow> bytes" where
  "put_be 0 v = []"
| "put_be (Suc k) v = word_of_nat (v div 256 ^ k) # put_be k v"

definition get_be :: "bytes \<Rightarrow> nat" where
  "get_be bs = foldl (\<lambda>v b. v * 256 + unat b) 0 bs"

abbreviation put_le :: "nat \<Rightarrow> nat \<Rightarrow> bytes" where
  "put_le k v \<equiv> rev (put_be k v)"

abbreviation get_le :: "bytes \<Rightarrow> nat" where
  "get_le bs \<equiv> get_be (rev bs)"

lemma length_put_be [simp]: "length (put_be k v) = k"
  by (induction k) auto

lemma get_be_snoc: "get_be (bs @ [b]) = get_be bs * 256 + unat b"
  by (simp add: get_be_def)

lemma get_be_Nil [simp]: "get_be [] = 0"
  by (simp add: get_be_def)

lemma get_be_Cons: "get_be (b # bs) = unat b * 256 ^ length bs + get_be bs"
proof (induction bs rule: rev_induct)
  case (snoc x bs)
  have "get_be (b # bs @ [x]) = get_be (b # bs) * 256 + unat x" using get_be_snoc [of "b # bs" x] by simp
  then show ?case using snoc by (simp add: get_be_snoc algebra_simps)
qed (simp add: get_be_def)

lemma get_put_be: "get_be (put_be k v) = v mod 256 ^ k"
proof (induction k)
  case (Suc k)
  have u: "unat (word_of_nat (v div 256 ^ k) :: byte) = v div 256 ^ k mod 256"
    by (simp add: unat_of_nat)
  have "v mod (256 ^ k * 256) = 256 ^ k * (v div 256 ^ k mod 256) + v mod 256 ^ k"
    by (rule mod_mult2_eq)
  then show ?case using Suc by (simp add: get_be_Cons u algebra_simps)
qed simp

lemma get_be_bound: "get_be bs < 256 ^ length bs"
proof (induction bs)
  case (Cons b bs)
  have "unat b < 256" using unsigned_less [of b, where ?'a = nat] by simp
  then have "(unat b + 1) * 256 ^ length bs \<le> 256 * 256 ^ length bs" by (intro mult_right_mono) auto
  moreover have "get_be (b # bs) < (unat b + 1) * 256 ^ length bs" using Cons by (simp add: get_be_Cons add_mult_distrib)
  ultimately show ?case unfolding length_Cons power_Suc by (rule order.strict_trans2 [rotated])
qed simp

section \<open>Buffers and streams\<close>

text \<open>A buffer after \<open>d\<close> has been read into its front.\<close>

definition fill :: "bytes \<Rightarrow> bytes \<Rightarrow> bytes" where
  "fill d buf = d @ drop (length d) buf"

lemma length_fill [simp]: "length d \<le> length buf \<Longrightarrow> length (fill d buf) = length buf"
  by (simp add: fill_def)

lemma take_fill [simp]: "take (length d) (fill d buf) = d"
  by (simp add: fill_def)

text \<open>\<open>io.ReadFull\<close>: the bytes read, the error, and the rest of the stream.\<close>

definition EOF :: string where "EOF = ''EOF''"
definition ErrUnexpectedEOF :: string where "ErrUnexpectedEOF = ''unexpected EOF''"

definition ReadFull :: "nat \<Rightarrow> bytes \<Rightarrow> bytes \<times> go_error \<times> bytes" where
  "ReadFull n r =
     (if n \<le> length r then (take n r, nil_error, drop n r)
      else (r, Some (if r = [] then EOF else ErrUnexpectedEOF), []))"

lemma ReadFull_append [simp]: "length d = n \<Longrightarrow> ReadFull n (d @ r) = (d, nil_error, r)"
  by (simp add: ReadFull_def)

lemma ReadFull_ok:
  "ReadFull n r = (d, nil_error, r') \<longleftrightarrow> n \<le> length r \<and> d = take n r \<and> r' = drop n r"
  by (auto simp: ReadFull_def)

end
