(* ===== verification/WsFrame.thy ===== *)
theory WsFrame
  imports Bytes
begin

unbundle bit_operations_syntax

text \<open>
  The WebSocket frame headers the sniffers read and write again, \<open>x/internal/util/ws/frame.go\<close>. The
  opcode is a Go \<open>int\<close>, the payload length an \<open>int64\<close>; a reader is the stream of bytes to come.
\<close>

section \<open>Headers\<close>

record FrameHeader =
  fh_Fin :: bool
  fh_Rsv1 :: bool
  fh_Rsv2 :: bool
  fh_Rsv3 :: bool
  fh_OpCode :: int
  fh_PayloadLength :: int
  fh_Masked :: bool
  fh_MaskKey :: "32 word"

definition flag :: "byte \<Rightarrow> nat \<Rightarrow> bool" where
  "flag b i = (b AND push_bit i 1 \<noteq> 0)"

definition raise_flag :: "bool \<Rightarrow> nat \<Rightarrow> byte \<Rightarrow> byte" where
  "raise_flag c i b = (if c then b OR push_bit i 1 else b)"

definition int64_of :: "bytes \<Rightarrow> int" where
  "int64_of bs = sint (word_of_nat (get_be bs) :: 64 word)"

text \<open>\<open>ReadFrom\<close>: the header, the count it reports, the error and the rest of the stream.\<close>

definition read_flags :: "byte \<Rightarrow> byte \<Rightarrow> FrameHeader \<Rightarrow> FrameHeader" where
  "read_flags b0 b1 h =
     h\<lparr>fh_Fin := flag b0 7, fh_Rsv1 := flag b0 6, fh_Rsv2 := flag b0 5, fh_Rsv3 := flag b0 4,
       fh_OpCode := uint (b0 AND 0xF), fh_Masked := flag b1 7\<rparr>"

definition read_mask :: "FrameHeader \<Rightarrow> int \<Rightarrow> bytes \<Rightarrow> bytes \<Rightarrow> FrameHeader \<times> int \<times> go_error \<times> bytes" where
  "read_mask h n buf r =
     (if fh_PayloadLength h < 0 then (h, n, Some ''received negative payload length'', r)
      else if fh_Masked h then
        (case ReadFull 4 r of
           (d, Some e, r') \<Rightarrow> (h, n + int (length d), Some e, r')
         | (d, None, r') \<Rightarrow>
             (h\<lparr>fh_MaskKey := word_of_nat (get_le (take 4 (fill d buf)))\<rparr>, n + int (length d), nil_error, r'))
      else (h, n, nil_error, r))"

definition FrameHeader_ReadFrom :: "FrameHeader \<Rightarrow> bytes \<Rightarrow> FrameHeader \<times> int \<times> go_error \<times> bytes" where
  "FrameHeader_ReadFrom h r =
     (case ReadFull 2 r of
        (d, Some e, r1) \<Rightarrow> (h, 0, Some e, r1)
      | (d, None, r1) \<Rightarrow>
          (let buf = fill d (replicate 8 0);
               h1 = read_flags (buf ! 0) (buf ! 1) h;
               len = buf ! 1 AND NOT (push_bit 7 1)
           in if len < 126 then read_mask (h1\<lparr>fh_PayloadLength := uint len\<rparr>) 2 buf r1
              else
                (let k = (if len = 126 then 2 else 8)
                 in case ReadFull k r1 of
                      (d2, e2, r2) \<Rightarrow>
                        (let buf2 = fill d2 buf;
                             h2 = h1\<lparr>fh_PayloadLength := int64_of (take k buf2)\<rparr>
                         in case e2 of
                              Some e \<Rightarrow> (h2, int (length d2), Some e, r2)
                            | None \<Rightarrow> read_mask h2 (int (length d2)) buf2 r2))))"

definition FrameHeader_Length :: "FrameHeader \<Rightarrow> int" where
  "FrameHeader_Length h =
     2 + (if fh_PayloadLength h > 65535 then 8 else if fh_PayloadLength h > 125 then 2 else 0)
       + (if fh_Masked h then 4 else 0)"

text \<open>\<open>WriteTo\<close>: the bytes handed to the writer in one call.\<close>

definition FrameHeader_bytes :: "FrameHeader \<Rightarrow> bytes" where
  "FrameHeader_bytes h =
     (let b = raise_flag (fh_Rsv3 h) 4 (raise_flag (fh_Rsv2 h) 5
                (raise_flag (fh_Rsv1 h) 6 (raise_flag (fh_Fin h) 7 0)));
          p = fh_PayloadLength h;
          m = raise_flag (fh_Masked h) 7 0
      in [b OR word_of_int (fh_OpCode h),
          if p > 65535 then m OR 127 else if p > 125 then m OR 126
          else if p \<ge> 0 then m OR word_of_int p else m]
         @ (if p > 65535 then put_be 8 (unat (word_of_int p :: 64 word))
            else if p > 125 then put_be 2 (unat (word_of_int p :: 16 word)) else [])
         @ (if fh_Masked h then put_le 4 (unat (fh_MaskKey h)) else []))"

section \<open>Writing and reading back\<close>

lemma read_mask_length: "read_mask h n buf r = (h', n', None, r') \<Longrightarrow> fh_PayloadLength h' \<ge> 0"
  by (auto simp: read_mask_def split: if_splits prod.splits option.splits)

lemma flag_bit: "flag b i = bit b i"
  by (simp add: flag_def bit_iff_and_push_bit_not_eq_0)

lemma raise_flag_bit: "bit (raise_flag c i b) j = (bit b j \<or> (c \<and> i = j \<and> j < 8))"
  by (auto simp: raise_flag_def bit_simps)

lemma small_bits: "0 \<le> x \<Longrightarrow> x < 2 ^ k \<Longrightarrow> bit (x :: int) j \<longleftrightarrow> j < k \<and> bit x j"
  by (metis bit_take_bit_iff take_bit_int_eq_self)

lemma word_small_bits:
  "0 \<le> x \<Longrightarrow> x < 2 ^ k \<Longrightarrow> bit (word_of_int x :: byte) j \<longleftrightarrow> j < 8 \<and> j < k \<and> bit x j"
  using small_bits [of x k j] by (auto simp: bit_simps)

lemma uint_small: "0 \<le> x \<Longrightarrow> x < 256 \<Longrightarrow> uint (word_of_int x :: byte) = x"
  by (simp add: uint_word_of_int)

text \<open>The two bytes that carry flags and a small number take both apart again.\<close>

lemma low_bits:
  assumes "0 \<le> x" "x < 2 ^ k" "k \<le> 7" "\<And>j. j < k \<Longrightarrow> \<not> bit b j"
  shows "take_bit k (b OR word_of_int x :: byte) = word_of_int x"
  by (rule bit_word_eqI) (use assms in \<open>auto simp: bit_simps word_small_bits dest: small_bits [THEN iffD1, rotated 2]\<close>)

text \<open>The two bytes of a header: which flags they carry and which numbers.\<close>

definition first_byte :: "FrameHeader \<Rightarrow> byte" where
  "first_byte h = FrameHeader_bytes h ! 0"

definition second_byte :: "FrameHeader \<Rightarrow> byte" where
  "second_byte h = FrameHeader_bytes h ! 1"

lemma flags_read_back:
  assumes "0 \<le> fh_OpCode h" "fh_OpCode h < 16"
  shows "flag (first_byte h) 7 = fh_Fin h" "flag (first_byte h) 6 = fh_Rsv1 h"
    "flag (first_byte h) 5 = fh_Rsv2 h" "flag (first_byte h) 4 = fh_Rsv3 h"
    "uint (first_byte h AND 0xF) = fh_OpCode h"
proof -
  have o: "bit (word_of_int (fh_OpCode h) :: byte) j \<longleftrightarrow> j < 8 \<and> j < 4 \<and> bit (fh_OpCode h) j" for j
    using word_small_bits [of "fh_OpCode h" 4 j] assms by simp
  show "flag (first_byte h) 7 = fh_Fin h" "flag (first_byte h) 6 = fh_Rsv1 h"
    "flag (first_byte h) 5 = fh_Rsv2 h" "flag (first_byte h) 4 = fh_Rsv3 h"
    by (auto simp: flag_bit first_byte_def FrameHeader_bytes_def Let_def bit_or_iff raise_flag_bit o)
  have "first_byte h AND 0xF = take_bit 4 (first_byte h)"
    using take_bit_eq_mask [of 4 "first_byte h"] by (simp add: mask_eq_exp_minus_1)
  moreover have "take_bit 4 (first_byte h) = word_of_int (fh_OpCode h)"
    using low_bits [of "fh_OpCode h" 4] assms
    by (simp add: first_byte_def FrameHeader_bytes_def Let_def raise_flag_bit)
  ultimately show "uint (first_byte h AND 0xF) = fh_OpCode h" using assms by (simp add: uint_small)
qed

definition length_code :: "int \<Rightarrow> int" where
  "length_code p = (if p > 65535 then 127 else if p > 125 then 126 else p)"

lemma second_byte_code:
  "0 \<le> fh_PayloadLength h \<Longrightarrow>
     second_byte h = raise_flag (fh_Masked h) 7 0 OR word_of_int (length_code (fh_PayloadLength h))"
  by (simp add: second_byte_def FrameHeader_bytes_def Let_def length_code_def)

lemma length_read_back:
  assumes "0 \<le> fh_PayloadLength h"
  shows "flag (second_byte h) 7 = fh_Masked h"
    "second_byte h AND NOT (push_bit 7 1) = word_of_int (length_code (fh_PayloadLength h))"
proof -
  have l: "0 \<le> length_code (fh_PayloadLength h)" "length_code (fh_PayloadLength h) < 128"
    using assms by (auto simp: length_code_def)
  have b: "bit (word_of_int (length_code (fh_PayloadLength h)) :: byte) j \<longleftrightarrow>
      j < 8 \<and> j < 7 \<and> bit (length_code (fh_PayloadLength h)) j" for j
    using word_small_bits [of "length_code (fh_PayloadLength h)" 7 j] l by simp
  show "flag (second_byte h) 7 = fh_Masked h"
    by (auto simp: second_byte_code assms flag_bit bit_or_iff raise_flag_bit b)
  have "NOT (push_bit 7 1) = (mask 7 :: byte)" by (simp add: mask_eq_exp_minus_1)
  then have "second_byte h AND NOT (push_bit 7 1) = take_bit 7 (second_byte h)" by (simp add: take_bit_eq_mask)
  also have "\<dots> = word_of_int (length_code (fh_PayloadLength h))"
    using l by (subst second_byte_code [OF assms], intro low_bits) (auto simp: raise_flag_bit)
  finally show "second_byte h AND NOT (push_bit 7 1) = word_of_int (length_code (fh_PayloadLength h))" .
qed

text \<open>The number after the two bytes.\<close>

definition length_bytes :: "int \<Rightarrow> bytes" where
  "length_bytes p =
     (if p > 65535 then put_be 8 (unat (word_of_int p :: 64 word))
      else if p > 125 then put_be 2 (unat (word_of_int p :: 16 word)) else [])"

definition mask_bytes :: "FrameHeader \<Rightarrow> bytes" where
  "mask_bytes h = (if fh_Masked h then put_le 4 (unat (fh_MaskKey h)) else [])"

lemma bytes_parts:
  "FrameHeader_bytes h = [first_byte h, second_byte h] @ length_bytes (fh_PayloadLength h) @ mask_bytes h"
  by (simp add: FrameHeader_bytes_def first_byte_def second_byte_def Let_def length_bytes_def mask_bytes_def)

lemma unat_word_of_int: "0 \<le> p \<Longrightarrow> p < 2 ^ LENGTH('w) \<Longrightarrow> unat (word_of_int p :: 'w::len word) = nat p"
  by (simp add: unat_eq_nat_uint uint_word_of_int)

lemma int64_of_put:
  assumes "0 \<le> p" "p < 2 ^ 63" "nat p < 256 ^ k"
  shows "int64_of (put_be k (nat p)) = p"
proof -
  have "int64_of (put_be k (nat p)) = sint (word_of_int p :: 64 word)"
    using assms by (simp add: int64_of_def get_put_be of_nat_nat)
  also have "\<dots> = p" using assms by (simp add: sint_uint uint_word_of_int signed_take_bit_int_eq_self)
  finally show ?thesis .
qed

lemma length_bytes_read:
  assumes "0 \<le> p" "p < 2 ^ 63" "125 < p"
  shows "int64_of (length_bytes p) = p"
  using assms int64_of_put [of p 2] int64_of_put [of p 8]
  by (simp add: length_bytes_def unat_word_of_int)

lemma mask_read:
  assumes "fh_Masked h" "length buf = 8"
  shows "read_mask (h\<lparr>fh_MaskKey := k\<rparr>) n buf (mask_bytes h @ rest) =
    (if fh_PayloadLength h < 0 then (h\<lparr>fh_MaskKey := k\<rparr>, n, Some ''received negative payload length'', mask_bytes h @ rest)
     else (h, n + 4, None, rest))"
proof -
  have l: "length (mask_bytes h) = 4" using assms by (simp add: mask_bytes_def)
  have g: "get_le (mask_bytes h) = unat (fh_MaskKey h)"
    using unsigned_less [of "fh_MaskKey h", where ?'a = nat] assms by (simp add: mask_bytes_def get_put_be)
  have "take 4 (fill (mask_bytes h) buf) = mask_bytes h" using take_fill [of "mask_bytes h" buf] l by simp
  then show ?thesis using l g assms by (simp add: read_mask_def)
qed

lemma header_fields:
  assumes "0 \<le> fh_OpCode h" "fh_OpCode h < 16" "0 \<le> fh_PayloadLength h"
  shows "(read_flags (first_byte h) (second_byte h) h0)\<lparr>fh_PayloadLength := fh_PayloadLength h\<rparr> =
    h\<lparr>fh_MaskKey := fh_MaskKey h0\<rparr>"
  using assms by (simp add: read_flags_def flags_read_back length_read_back)

lemma mask_unread:
  "\<not> fh_Masked h \<Longrightarrow> 0 \<le> fh_PayloadLength h \<Longrightarrow> read_mask h n buf (mask_bytes h @ rest) = (h, n, None, rest)"
  by (simp add: read_mask_def mask_bytes_def)

lemma mask_part:
  assumes "0 \<le> fh_PayloadLength h" "length buf = 8" "fh_Masked h \<or> fh_MaskKey h = k"
  shows "read_mask (h\<lparr>fh_MaskKey := k\<rparr>) n buf (mask_bytes h @ rest) =
    (h, n + (if fh_Masked h then 4 else 0), None, rest)"
proof (cases "fh_Masked h")
  case True
  then show ?thesis using assms mask_read [of h buf k n rest] by simp
next
  case False
  then have same: "h\<lparr>fh_MaskKey := k\<rparr> = h" using assms by simp
  show ?thesis unfolding same using False assms(1) by (simp add: mask_unread)
qed

lemma read_written:
  assumes "0 \<le> fh_OpCode h" "fh_OpCode h < 16"
    and "0 \<le> fh_PayloadLength h" "fh_PayloadLength h < 2 ^ 63"
    and "fh_Masked h \<or> fh_MaskKey h = fh_MaskKey h0"
  shows "FrameHeader_ReadFrom h0 (FrameHeader_bytes h @ rest) =
      (h, FrameHeader_Length h - (if fh_PayloadLength h > 125 then 2 else 0), nil_error, rest) \<and>
    int (length (FrameHeader_bytes h)) = FrameHeader_Length h"
proof (intro conjI)
  let ?p = "fh_PayloadLength h" and ?b = "[first_byte h, second_byte h]"
  let ?tail = "length_bytes ?p @ mask_bytes h @ rest"
  let ?buf = "fill ?b (replicate 8 0)"
  have two: "ReadFull 2 (FrameHeader_bytes h @ rest) = (?b, nil_error, ?tail)"
    by (simp add: bytes_parts ReadFull_def)
  have b: "?buf ! 0 = first_byte h" "?buf ! 1 = second_byte h" "length ?buf = 8" by (simp_all add: fill_def)
  have code: "uint (word_of_int (length_code ?p) :: byte) = length_code ?p"
    using assms(3) by (simp add: uint_small length_code_def)
  show "FrameHeader_ReadFrom h0 (FrameHeader_bytes h @ rest) =
      (h, FrameHeader_Length h - (if ?p > 125 then 2 else 0), nil_error, rest)"
  proof (cases "?p > 125")
    case True
    define k :: nat where "k = (if ?p > 65535 then 8 else 2)"
    have k: "(if (word_of_int (length_code ?p) :: byte) = 126 then 2 else 8) = k"
      "\<not> (word_of_int (length_code ?p) :: byte) < 126" "length (length_bytes ?p) = k"
      using True by (auto simp: k_def length_code_def length_bytes_def)
    have "take k (fill (length_bytes ?p) ?buf) = length_bytes ?p" using k(3) by (auto simp: fill_def)
    then have l: "int64_of (take k (fill (length_bytes ?p) ?buf)) = ?p"
      using length_bytes_read assms(3,4) True by simp
    have "length (fill (length_bytes ?p) ?buf) = 8" using k(3) by (simp add: fill_def k_def)
    then show ?thesis
      using two b k l mask_part [of h "fill (length_bytes ?p) ?buf" "fh_MaskKey h0" "int k" rest]
        header_fields [of h h0] length_read_back [of h] assms True
      by (simp add: FrameHeader_ReadFrom_def Let_def FrameHeader_Length_def k_def)
  next
    case False
    then have "length_code ?p = ?p" "(word_of_int ?p :: byte) < 126" "length_bytes ?p = []"
      using assms(3) by (auto simp: length_code_def length_bytes_def word_less_def uint_small)
    then show ?thesis
      using two b code mask_part [of h ?buf "fh_MaskKey h0" 2 rest] header_fields [of h h0]
        length_read_back [of h] assms False
      by (simp add: FrameHeader_ReadFrom_def Let_def FrameHeader_Length_def)
  qed
  show "int (length (FrameHeader_bytes h)) = FrameHeader_Length h"
    by (auto simp: bytes_parts length_bytes_def mask_bytes_def FrameHeader_Length_def)
qed

text \<open>
  (C31) A frame header that is written and read again is the same header, up to a negative payload
  length or an opcode of more than four bits, which no header read has; it is read up to its last
  byte. The count that comes back is the header's length only when the payload length fits the
  second byte: otherwise the first two bytes are not counted.
\<close>

theorem header_roundtrip:
  assumes "0 \<le> fh_OpCode h" "fh_OpCode h < 16"
    and "0 \<le> fh_PayloadLength h" "fh_PayloadLength h < 2 ^ 63"
    and "fh_Masked h \<or> fh_MaskKey h = fh_MaskKey h0"
  shows "FrameHeader_ReadFrom h0 (FrameHeader_bytes h @ rest) =
      (h, FrameHeader_Length h - (if fh_PayloadLength h > 125 then 2 else 0), nil_error, rest) \<and>
    int (length (FrameHeader_bytes h)) = FrameHeader_Length h"
  using read_written [OF assms] .

definition text_header :: "bool \<Rightarrow> int \<Rightarrow> FrameHeader" where
  "text_header masked p =
     \<lparr>fh_Fin = True, fh_Rsv1 = False, fh_Rsv2 = True, fh_Rsv3 = False, fh_OpCode = 1,
      fh_PayloadLength = p, fh_Masked = masked, fh_MaskKey = (if masked then 0x01020304 else 0)\<rparr>"

lemma header_roundtrip_witness:
  "FrameHeader_ReadFrom (text_header False 0) (FrameHeader_bytes (text_header True 200) @ [7]) =
     (text_header True 200, 6, nil_error, [7])"
  using header_roundtrip [of "text_header True 200" "text_header False 0" "[7]"]
  by (simp add: text_header_def FrameHeader_Length_def)

section \<open>What reading accepts\<close>

lemma ReadFull_more:
  "ReadFull n r = (d, None, r') \<Longrightarrow> ReadFull n (r @ behind) = (d, None, r' @ behind) \<and> length d = n \<and> r = d @ r'"
  by (auto simp: ReadFull_ok)

lemma read_mask_more:
  "read_mask h n buf r = (h', n', None, r') \<Longrightarrow>
     read_mask h n buf (r @ behind) = (h', n', None, r' @ behind) \<and>
     (\<exists>used. r = used @ r' \<and> length used = (if fh_Masked h then 4 else 0)) \<and>
     fh_OpCode h' = fh_OpCode h \<and> fh_PayloadLength h' = fh_PayloadLength h \<and> fh_Masked h' = fh_Masked h \<and>
     0 \<le> fh_PayloadLength h"
  by (auto simp: read_mask_def ReadFull_more split: if_splits prod.splits option.splits
      dest: ReadFull_more [of _ _ _ _ behind])

lemma read_flags_fields [simp]:
  "fh_OpCode (read_flags a b h) = uint (a AND 0xF)" "fh_Masked (read_flags a b h) = flag b 7"
  by (simp_all add: read_flags_def)

lemma opcode_bound: "uint ((a :: byte) AND 0xF) < 16"
  using take_bit_eq_mask [of 4 a] take_bit_int_less_exp [of 4 "uint a"]
  by (simp add: mask_eq_exp_minus_1 unsigned_take_bit_eq [symmetric])

lemma int64_of_less: "int64_of bs < 2 ^ 63"
  using sint_less [of "word_of_nat (get_be bs) :: 64 word"] by (simp add: int64_of_def)

lemma int64_of_two: "length bs = 2 \<Longrightarrow> 0 \<le> int64_of bs \<and> int64_of bs \<le> 65535"
proof -
  assume "length bs = 2"
  then have "get_be bs < 65536" using get_be_bound [of bs] by simp
  then show ?thesis
    by (simp add: int64_of_def sint_uint uint_nat unat_of_nat signed_take_bit_int_eq_self)
qed

text \<open>
  A header that has been read took between its own length and 14 bytes, and what follows in the
  stream does not change it.
\<close>

definition took :: "FrameHeader \<Rightarrow> bytes \<Rightarrow> bytes \<Rightarrow> bool" where
  "took h r rest \<longleftrightarrow>
     (\<exists>used. r = used @ rest \<and> FrameHeader_Length h \<le> int (length used) \<and> length used \<le> 14) \<and>
     0 \<le> fh_PayloadLength h \<and> fh_PayloadLength h < 2 ^ 63 \<and> 0 \<le> fh_OpCode h \<and> fh_OpCode h < 16"

lemma read_rest:
  assumes "read_mask h1 m buf r = (h, n, None, rest)" "length front \<le> 10"
    and "2 + (if fh_PayloadLength h1 > 65535 then 8 else if fh_PayloadLength h1 > 125 then 2 else 0) \<le> length front"
    and "0 \<le> fh_OpCode h1" "fh_OpCode h1 < 16" "fh_PayloadLength h1 < 2 ^ 63"
  shows "took h (front @ r) rest \<and> read_mask h1 m buf (r @ behind) = (h, n, None, rest @ behind)"
proof -
  obtain used where u: "r = used @ rest" "length used = (if fh_Masked h1 then 4 else 0)"
    and f: "fh_OpCode h = fh_OpCode h1" "fh_PayloadLength h = fh_PayloadLength h1" "fh_Masked h = fh_Masked h1"
      "0 \<le> fh_PayloadLength h1"
    and more: "read_mask h1 m buf (r @ behind) = (h, n, None, rest @ behind)"
    using read_mask_more [OF assms(1), of behind] by auto
  have "FrameHeader_Length h \<le> int (length (front @ used))" "length (front @ used) \<le> 14"
    using assms(2,3) u(2) f by (auto simp: FrameHeader_Length_def split: if_splits)
  then show ?thesis using u f more assms(4-6) by (auto simp: took_def intro!: exI [of _ "front @ used"])
qed

lemma ReadFrom_more:
  assumes "FrameHeader_ReadFrom h0 r = (h, n, None, rest)"
  shows "took h r rest \<and> FrameHeader_ReadFrom h0 (r @ behind) = (h, n, None, rest @ behind)"
proof -
  obtain d r1 where two: "ReadFull 2 r = (d, None, r1)"
    using assms by (auto simp: FrameHeader_ReadFrom_def split: prod.splits option.splits)
  note d = ReadFull_more [OF two, of behind]
  define buf where "buf = fill d (replicate 8 0)"
  define h1 where "h1 = read_flags (buf ! 0) (buf ! 1) h0"
  define len where "len = buf ! 1 AND NOT (push_bit 7 1)"
  define k :: nat where "k = (if len = 126 then 2 else 8)"
  have o: "0 \<le> fh_OpCode h1" "fh_OpCode h1 < 16" using opcode_bound by (simp_all add: h1_def)
  have eq: "FrameHeader_ReadFrom h0 x =
      (if len < 126 then read_mask (h1\<lparr>fh_PayloadLength := uint len\<rparr>) 2 buf y
       else (case ReadFull k y of
               (d2, e2, r2) \<Rightarrow>
                 (case e2 of
                    Some e \<Rightarrow> (h1\<lparr>fh_PayloadLength := int64_of (take k (fill d2 buf))\<rparr>, int (length d2), Some e, r2)
                  | None \<Rightarrow> read_mask (h1\<lparr>fh_PayloadLength := int64_of (take k (fill d2 buf))\<rparr>)
                      (int (length d2)) (fill d2 buf) r2)))"
    if "ReadFull 2 x = (d, None, y)" for x y
    by (simp only: FrameHeader_ReadFrom_def Let_def buf_def h1_def len_def k_def that prod.case option.case)
  note here = eq [OF two] and there = eq [OF d [THEN conjunct1]]
  show ?thesis
  proof (cases "len < 126")
    case True
    let ?h = "h1\<lparr>fh_PayloadLength := uint len\<rparr>"
    have m: "read_mask ?h 2 buf r1 = (h, n, None, rest)" using assms here True by simp
    have "uint len < 126" using True by (simp add: word_less_def)
    then have "took h (d @ r1) rest \<and> read_mask ?h 2 buf (r1 @ behind) = (h, n, None, rest @ behind)"
      using d o by (intro read_rest [OF m]) auto
    then show ?thesis using d there True by simp
  next
    case False
    obtain d2 r2 where ext: "ReadFull k r1 = (d2, None, r2)"
      using assms here False by (auto split: prod.splits option.splits)
    note d2 = ReadFull_more [OF ext, of behind]
    let ?h = "h1\<lparr>fh_PayloadLength := int64_of (take k (fill d2 buf))\<rparr>"
    have m: "read_mask ?h (int (length d2)) (fill d2 buf) r2 = (h, n, None, rest)"
      using assms here ext False by simp
    have "length (take k (fill d2 buf)) = k" using d2 by (auto simp: fill_def)
    then have s: "fh_PayloadLength ?h \<le> 65535 \<or> k = 8"
      using int64_of_two [of "take k (fill d2 buf)"] by (simp add: k_def)
    have "took h ((d @ d2) @ r2) rest \<and>
        read_mask ?h (int (length d2)) (fill d2 buf) (r2 @ behind) = (h, n, None, rest @ behind)"
      using d d2 o s int64_of_less by (intro read_rest [OF m]) (auto simp: k_def)
    then show ?thesis using d d2 there False by simp
  qed
qed

text \<open>
  (C39) What reading accepts: whatever the stream, a header read without an error has a payload
  length that fits an \<open>int64\<close> and is not negative and an opcode of four bits; it was read from at
  least as many bytes as writing it again takes, and at most 14, and the bytes behind it are
  left alone.
\<close>

theorem header_bounds:
  assumes "FrameHeader_ReadFrom h0 r = (h, n, nil_error, rest)"
  shows "(\<exists>used. r = used @ rest \<and> FrameHeader_Length h \<le> int (length used) \<and> length used \<le> 14) \<and>
    0 \<le> fh_PayloadLength h \<and> fh_PayloadLength h < 2 ^ 63 \<and> 0 \<le> fh_OpCode h \<and> fh_OpCode h < 16"
  using ReadFrom_more [OF assms] by (simp add: took_def)

lemma header_bounds_witness:
  "FrameHeader_ReadFrom (text_header False 0) [0x81, 126, 0, 5, 9] = (text_header False 5\<lparr>fh_Rsv2 := False\<rparr>, 2, nil_error, [9]) \<and>
   fh_PayloadLength (text_header False 5) < 2 ^ 63"
proof -
  have r: "FrameHeader_ReadFrom (text_header False 0) [0x81, 126, 0, 5, 9] =
      (text_header False 5\<lparr>fh_Rsv2 := False\<rparr>, 2, nil_error, [9])" by code_simp
  show ?thesis using r header_bounds [OF r] by (simp add: text_header_def)
qed

text \<open>A header that is cut off anywhere is an error.\<close>

lemma truncated_header_refused:
  assumes "0 \<le> fh_OpCode h" "fh_OpCode h < 16" "0 \<le> fh_PayloadLength h" "fh_PayloadLength h < 2 ^ 63"
    and "fh_Masked h \<or> fh_MaskKey h = fh_MaskKey h0" "k < length (FrameHeader_bytes h)"
  shows "fst (snd (snd (FrameHeader_ReadFrom h0 (take k (FrameHeader_bytes h))))) \<noteq> nil_error"
proof
  let ?b = "FrameHeader_bytes h"
  assume "fst (snd (snd (FrameHeader_ReadFrom h0 (take k ?b)))) = nil_error"
  then obtain h' n rest where "FrameHeader_ReadFrom h0 (take k ?b) = (h', n, None, rest)" by (metis prod.collapse)
  from ReadFrom_more [OF this, of "drop k ?b"]
  have "FrameHeader_ReadFrom h0 ?b = (h', n, None, rest @ drop k ?b)" by simp
  moreover have "FrameHeader_ReadFrom h0 ?b =
      (h, FrameHeader_Length h - (if fh_PayloadLength h > 125 then 2 else 0), None, [])"
    using read_written [of h h0 "[]"] assms by simp
  ultimately show False using assms(6) by simp
qed

section \<open>Frames on their way through\<close>

text \<open>
  The handlers copy a WebSocket stream frame by frame to record samples of it. The payload is what
  the stream holds of the announced length; its first part goes through a buffer when it is
  recorded.
\<close>

record ws_record =
  wr_header :: FrameHeader
  wr_payload :: bytes
  wr_bytes :: int

definition DefaultBodySize :: int where "DefaultBodySize = 65536"
definition MaxBodySize :: int where "MaxBodySize = 1048576"

definition body_size :: "int \<Rightarrow> int" where
  "body_size n =
     (let m = (if n \<le> 0 then DefaultBodySize else n) in if m > MaxBodySize then MaxBodySize else m)"

definition no_header :: FrameHeader where
  "no_header =
     \<lparr>fh_Fin = False, fh_Rsv1 = False, fh_Rsv2 = False, fh_Rsv3 = False, fh_OpCode = 0,
      fh_PayloadLength = 0, fh_Masked = False, fh_MaskKey = 0\<rparr>"

text \<open>What is written, the record, the error, and the rest; \<open>rec\<close> is the size to record, if any.\<close>

definition copyWebsocketFrame ::
    "int option \<Rightarrow> bytes \<Rightarrow> bytes \<times> ws_record option \<times> go_error \<times> bytes" where
  "copyWebsocketFrame rec r =
     (case FrameHeader_ReadFrom no_header r of
        (h, n, Some e, r') \<Rightarrow> ([], None, Some e, r')
      | (h, n, None, r') \<Rightarrow>
          (let data = take (nat (fh_PayloadLength h)) r';
               buf = (case rec of None \<Rightarrow> [] | Some k \<Rightarrow> take (nat (body_size k)) data);
               rest = drop (length buf) data
           in (FrameHeader_bytes h @ buf @ rest,
               Some \<lparr>wr_header = h, wr_payload = buf, wr_bytes = FrameHeader_Length h + fh_PayloadLength h\<rparr>,
               nil_error, drop (nat (fh_PayloadLength h)) r')))"

text \<open>The loop of \<open>sniffingWebsocketFrame\<close> in one direction, at most \<open>k\<close> times.\<close>

primrec copy_frames :: "int option \<Rightarrow> nat \<Rightarrow> bytes \<Rightarrow> bytes \<times> ws_record list \<times> go_error" where
  "copy_frames rec 0 r = ([], [], nil_error)"
| "copy_frames rec (Suc k) r =
     (case copyWebsocketFrame rec r of
        (out, None, e, r') \<Rightarrow> (out, [], e)
      | (out, Some w, e, r') \<Rightarrow>
          (case copy_frames rec k r' of (out', ws, e') \<Rightarrow> (out @ out', w # ws, e')))"

definition proper_frame :: "FrameHeader \<times> bytes \<Rightarrow> bool" where
  "proper_frame f \<longleftrightarrow>
     0 \<le> fh_OpCode (fst f) \<and> fh_OpCode (fst f) < 16 \<and> int (length (snd f)) = fh_PayloadLength (fst f) \<and>
     length (snd f) < 2 ^ 63 \<and> (fh_Masked (fst f) \<or> fh_MaskKey (fst f) = 0)"

definition frame_bytes :: "FrameHeader \<times> bytes \<Rightarrow> bytes" where
  "frame_bytes f = FrameHeader_bytes (fst f) @ snd f"

definition frame_record :: "int option \<Rightarrow> FrameHeader \<times> bytes \<Rightarrow> ws_record" where
  "frame_record rec f =
     \<lparr>wr_header = fst f,
      wr_payload = (case rec of None \<Rightarrow> [] | Some k \<Rightarrow> take (nat (body_size k)) (snd f)),
      wr_bytes = int (length (frame_bytes f))\<rparr>"

lemma take_drop_min: "take k xs @ drop (min (length xs) k) xs = xs"
  by (cases "k \<le> length xs") (simp_all add: min_def)

lemma copy_proper_frame:
  assumes "proper_frame f"
  shows "copyWebsocketFrame rec (frame_bytes f @ r) = (frame_bytes f, Some (frame_record rec f), nil_error, r)"
proof -
  have w: "0 \<le> fh_OpCode (fst f)" "fh_OpCode (fst f) < 16" "0 \<le> fh_PayloadLength (fst f)"
    "fh_PayloadLength (fst f) < 2 ^ 63" "fh_Masked (fst f) \<or> fh_MaskKey (fst f) = fh_MaskKey no_header"
    "nat (fh_PayloadLength (fst f)) = length (snd f)"
    using assms by (auto simp: proper_frame_def no_header_def)
  note h = read_written [OF w(1-5), of "snd f @ r"]
  have l: "wr_bytes (frame_record rec f) = FrameHeader_Length (fst f) + fh_PayloadLength (fst f)"
    using h assms by (simp add: frame_record_def frame_bytes_def proper_frame_def)
  show ?thesis
    using h w(6) l
    by (auto simp: copyWebsocketFrame_def frame_bytes_def frame_record_def Let_def take_drop_min split: option.split)
qed

lemma copy_frames_proper:
  "\<forall>f\<in>set fs. proper_frame f \<Longrightarrow>
     copy_frames rec (length fs + k) (concat (map frame_bytes fs) @ r) =
       (case copy_frames rec k r of
          (out, ws, e) \<Rightarrow> (concat (map frame_bytes fs) @ out, map (frame_record rec) fs @ ws, e))"
proof (induction fs)
  case (Cons f fs)
  then show ?case by (simp add: copy_proper_frame split: prod.split)
qed simp

text \<open>
  Sampling a WebSocket stream does not change it: frames are passed on byte for byte, whatever is
  recorded of them, each is recorded with its header, its size on the wire and the allowed part of
  its payload, and the copying ends with \<open>EOF\<close> when the stream does, after the last frame.
\<close>

theorem websocket_copied_intact:
  assumes "\<forall>f\<in>set fs. proper_frame f"
  shows "copy_frames rec (length fs + 1) (concat (map frame_bytes fs)) =
    (concat (map frame_bytes fs), map (frame_record rec) fs, Some EOF)"
proof -
  have "copy_frames rec 1 [] = ([], [], Some EOF)"
    by (simp add: copyWebsocketFrame_def FrameHeader_ReadFrom_def ReadFull_def)
  then show ?thesis using copy_frames_proper [OF assms, of rec 1 "[]"] by simp
qed

lemma websocket_copied_intact_witness:
  "copy_frames (Some 1) 2 (frame_bytes (text_header False 2, [104, 105])) =
     (frame_bytes (text_header False 2, [104, 105]), [frame_record (Some 1) (text_header False 2, [104, 105])], Some EOF)"
proof -
  have f: "\<forall>f\<in>set [(text_header False 2, [104, 105])]. proper_frame f"
    by (simp add: proper_frame_def text_header_def)
  show ?thesis using websocket_copied_intact [OF f, of "Some 1"] by (simp add: numeral_2_eq_2 del: copy_frames.simps)
qed

end
