(* ===== verification/RelayConn.thy ===== *)
theory RelayConn
  imports Bytes Strconv
begin

text \<open>
  Datagrams over a stream: the connections of the relay and tunnel connectors and of the relay
  handler, which put two bytes of length before every datagram and may hold back a header until
  the first write. The connection below is a stream of bytes to read and a writer. A
  \<open>Response\<close> of the \<open>relay\<close> package, its codes and how it is read are parameters, and so is what a
  buffer of the pool holds.
\<close>

section \<open>The connection below\<close>

type_synonym 'w writer = "bytes \<Rightarrow> 'w \<Rightarrow> (nat \<times> go_error) \<times> 'w"

definition ErrShortWrite :: string where "ErrShortWrite = ''short write''"

text \<open>\<open>bytes.Buffer.WriteTo\<close>: the error and what is left in the buffer.\<close>

definition buffer_WriteTo :: "'w writer \<Rightarrow> bytes \<Rightarrow> 'w \<Rightarrow> go_error \<times> bytes \<times> 'w" where
  "buffer_WriteTo W buf s =
     (if buf = [] then (nil_error, [], s)
      else case W buf s of
        ((m, Some e), s') \<Rightarrow> (Some e, drop m buf, s')
      | ((m, None), s') \<Rightarrow> if m \<noteq> length buf then (Some ErrShortWrite, drop m buf, s') else (nil_error, [], s'))"

text \<open>One \<open>Read\<close> below, which gives at most \<open>k\<close> bytes; a stream at its end answers \<open>EOF\<close>.\<close>

definition stream_Read :: "nat \<Rightarrow> nat \<Rightarrow> bytes \<Rightarrow> bytes \<times> go_error \<times> bytes" where
  "stream_Read k sz r =
     (if sz = 0 then ([], nil_error, r)
      else if r = [] then ([], Some EOF, [])
      else (take (min k sz) r, nil_error, drop (min k sz) r))"

section \<open>Datagrams\<close>

definition max_datagram :: nat where "max_datagram = 65535"

definition too_long :: string where "too_long = ''write: data maximum exceeded''"

text \<open>
  \<open>Read\<close> of every \<open>udpConn\<close>: a datagram longer than the caller's slice goes through a buffer, whose
  contents are copied also when they could not all be read.
\<close>

definition dgram_Read :: "(nat \<Rightarrow> bytes) \<Rightarrow> nat \<Rightarrow> bytes \<Rightarrow> bytes \<times> go_error \<times> bytes" where
  "dgram_Read pool sz r =
     (case ReadFull 2 r of
        (d, Some e, r1) \<Rightarrow> ([], Some e, r1)
      | (d, None, r1) \<Rightarrow>
          (let dlen = get_be d
           in if dlen \<le> sz then ReadFull dlen r1
              else (case ReadFull dlen r1 of
                      (d2, e, r2) \<Rightarrow> (take sz (fill d2 (pool dlen)), e, r2))))"

text \<open>At the relay handler the buffer is a new one.\<close>

definition server_udp_Read :: "nat \<Rightarrow> bytes \<Rightarrow> bytes \<times> go_error \<times> bytes" where
  "server_udp_Read sz r = dgram_Read (\<lambda>n. replicate n 0) sz r"

text \<open>\<open>Write\<close> of the tunnel connector's \<open>udpConn\<close>: two writes.\<close>

definition dgram_Write :: "'w writer \<Rightarrow> bytes \<Rightarrow> 'w \<Rightarrow> nat \<times> go_error \<times> 'w" where
  "dgram_Write W b s =
     (if length b > max_datagram then (0, Some too_long, s)
      else case W (put_be 2 (length b)) s of
        ((m, Some e), s1) \<Rightarrow> (length b, Some e, s1)
      | ((m, None), s1) \<Rightarrow> (case W b s1 of ((n, e), s2) \<Rightarrow> (n, e, s2)))"

text \<open>\<open>Write\<close> of \<open>bindUDPConn\<close>: one write, whose count is returned.\<close>

definition bind_Write :: "'w writer \<Rightarrow> bytes \<Rightarrow> 'w \<Rightarrow> nat \<times> go_error \<times> 'w" where
  "bind_Write W b s =
     (if length b > max_datagram then (0, Some too_long, s)
      else case W (put_be 2 (length b) @ b) s of ((n, e), s1) \<Rightarrow> (n, e, s1))"

section \<open>Held back headers\<close>

text \<open>\<open>wbuf\<close> is a pointer at the connector, \<open>None\<close> when it is \<open>nil\<close>, and always there at the handler.\<close>

definition held :: "bytes option \<Rightarrow> bool" where
  "held wbuf \<longleftrightarrow> wbuf \<noteq> None \<and> the wbuf \<noteq> []"

definition relay_tcp_Write :: "'w writer \<Rightarrow> bytes option \<Rightarrow> bytes \<Rightarrow> 'w \<Rightarrow> nat \<times> go_error \<times> bytes option \<times> 'w" where
  "relay_tcp_Write W wbuf b s =
     (if held wbuf then (case W (the wbuf @ b) s of ((m, e), s') \<Rightarrow> (length b, e, Some [], s'))
      else (case W b s of ((m, e), s') \<Rightarrow> (length b, e, wbuf, s')))"

definition relay_udp_Write :: "'w writer \<Rightarrow> bytes option \<Rightarrow> bytes \<Rightarrow> 'w \<Rightarrow> nat \<times> go_error \<times> bytes option \<times> 'w" where
  "relay_udp_Write W wbuf b s =
     (if length b > max_datagram then (0, Some too_long, wbuf, s)
      else if held wbuf then
        (case buffer_WriteTo W (the wbuf @ put_be 2 (length b) @ b) s of
           (e, left, s') \<Rightarrow> (length b, e, Some left, s'))
      else (case dgram_Write W b s of (n, e, s') \<Rightarrow> (n, e, wbuf, s')))"

text \<open>The handler's \<open>tcpConn\<close> writes its header through the buffer.\<close>

definition server_tcp_Write :: "'w writer \<Rightarrow> bytes \<Rightarrow> bytes \<Rightarrow> 'w \<Rightarrow> nat \<times> go_error \<times> bytes \<times> 'w" where
  "server_tcp_Write W wbuf b s =
     (if wbuf \<noteq> [] then (case buffer_WriteTo W (wbuf @ b) s of (e, left, s') \<Rightarrow> (length b, e, left, s'))
      else (case W b s of ((m, e), s') \<Rightarrow> (length b, e, wbuf, s')))"

definition server_udp_Write :: "'w writer \<Rightarrow> bytes \<Rightarrow> bytes \<Rightarrow> 'w \<Rightarrow> nat \<times> go_error \<times> bytes \<times> 'w" where
  "server_udp_Write W wbuf b s =
     (if length b > max_datagram then (0, Some too_long, wbuf, s)
      else if wbuf \<noteq> [] then
        (case buffer_WriteTo W (wbuf @ put_be 2 (length b) @ b) s of
           (e, left, s') \<Rightarrow> (length b, e, left, s'))
      else (case dgram_Write W b s of (n, e, s') \<Rightarrow> (n, e, wbuf, s')))"

section \<open>The response of the server\<close>

record relay_codes =
  rl_Version1 :: nat
  rl_StatusOK :: nat
  rl_StatusBadRequest :: nat
  rl_StatusForbidden :: nat
  rl_StatusHostUnreachable :: nat
  rl_StatusInternalServerError :: nat
  rl_StatusNetworkUnreachable :: nat
  rl_StatusServiceUnavailable :: nat
  rl_StatusTimeout :: nat
  rl_StatusUnauthorized :: nat
  rl_ErrBadVersion :: string
  rl_ReadFrom :: "bytes \<Rightarrow> (nat \<times> nat) \<times> go_error \<times> bytes"

definition StatusText :: "relay_codes \<Rightarrow> nat \<Rightarrow> string" where
  "StatusText L code =
     (if code = rl_StatusBadRequest L then ''Bad Request''
      else if code = rl_StatusForbidden L then ''Forbidden''
      else if code = rl_StatusHostUnreachable L then ''Host Unreachable''
      else if code = rl_StatusInternalServerError L then ''Internal Server Error''
      else if code = rl_StatusNetworkUnreachable L then ''Network Unreachable''
      else if code = rl_StatusServiceUnavailable L then ''Service Unavailable''
      else if code = rl_StatusTimeout L then ''Timeout''
      else if code = rl_StatusUnauthorized L then ''Unauthorized''
      else [])"

definition readResponse :: "relay_codes \<Rightarrow> bytes \<Rightarrow> go_error \<times> bytes" where
  "readResponse L r =
     (case rl_ReadFrom L r of
        (_, Some e, r') \<Rightarrow> (Some e, r')
      | ((version, status), None, r') \<Rightarrow>
          if version \<noteq> rl_Version1 L then (Some (rl_ErrBadVersion L), r')
          else if status \<noteq> rl_StatusOK L then
            (Some (show_nat status @ '' '' @ StatusText L status), r')
          else (nil_error, r'))"

text \<open>
  The connector's connections read the response once, before their first read; \<open>once\<close> says that it
  has been done. The error is the one of this call only.
\<close>

definition first_response :: "relay_codes \<Rightarrow> bytes option \<Rightarrow> bool \<Rightarrow> bytes \<Rightarrow> go_error \<times> bytes" where
  "first_response L wbuf once r = (if \<not> once \<and> wbuf \<noteq> None then readResponse L r else (nil_error, r))"

definition relay_tcp_Read ::
    "relay_codes \<Rightarrow> bytes option \<Rightarrow> bool \<Rightarrow> nat \<Rightarrow> nat \<Rightarrow> bytes \<Rightarrow> bytes \<times> go_error \<times> bytes \<times> bool" where
  "relay_tcp_Read L wbuf once k sz r =
     (case first_response L wbuf once r of
        (Some e, r') \<Rightarrow> ([], Some e, r', True)
      | (None, r') \<Rightarrow> (case stream_Read k sz r' of (d, e, r'') \<Rightarrow> (d, e, r'', True)))"

definition relay_udp_Read ::
    "relay_codes \<Rightarrow> (nat \<Rightarrow> bytes) \<Rightarrow> bytes option \<Rightarrow> bool \<Rightarrow> nat \<Rightarrow> bytes \<Rightarrow> bytes \<times> go_error \<times> bytes \<times> bool" where
  "relay_udp_Read L pool wbuf once sz r =
     (case first_response L wbuf once r of
        (Some e, r') \<Rightarrow> ([], Some e, r', True)
      | (None, r') \<Rightarrow> (case dgram_Read pool sz r' of (d, e, r'') \<Rightarrow> (d, e, r'', True)))"

section \<open>Datagrams sent and received\<close>

text \<open>A connection below that takes everything.\<close>

definition whole :: "bytes writer" where
  "whole b s = ((length b, nil_error), s @ b)"

primrec send_all :: "bytes option \<Rightarrow> bytes list \<Rightarrow> bytes \<Rightarrow> (nat \<times> go_error) list \<times> bytes option \<times> bytes" where
  "send_all wbuf [] s = ([], wbuf, s)"
| "send_all wbuf (b # bs) s =
     (case relay_udp_Write whole wbuf b s of
        (n, e, wbuf', s') \<Rightarrow>
          (case send_all wbuf' bs s' of (rs, wbuf'', s'') \<Rightarrow> ((n, e) # rs, wbuf'', s'')))"

primrec receive_all :: "(nat \<Rightarrow> bytes) \<Rightarrow> nat list \<Rightarrow> bytes \<Rightarrow> (bytes \<times> go_error) list \<times> bytes" where
  "receive_all pool [] r = ([], r)"
| "receive_all pool (sz # szs) r =
     (case dgram_Read pool sz r of
        (d, e, r') \<Rightarrow> (case receive_all pool szs r' of (ds, r'') \<Rightarrow> ((d, e) # ds, r'')))"

definition framed :: "bytes \<Rightarrow> bytes" where
  "framed b = put_be 2 (length b) @ b"

lemma dgram_Write_whole:
  "length b \<le> max_datagram \<Longrightarrow> dgram_Write whole b s = (length b, nil_error, s @ framed b)"
  by (simp add: dgram_Write_def whole_def framed_def)

lemma relay_udp_Write_whole:
  "length b \<le> max_datagram \<Longrightarrow>
     relay_udp_Write whole wbuf b s =
       (if held wbuf then (length b, nil_error, Some [], s @ the wbuf @ framed b)
        else (length b, nil_error, wbuf, s @ framed b))"
  by (simp add: relay_udp_Write_def buffer_WriteTo_def dgram_Write_whole) (auto simp: whole_def framed_def)

lemma send_all_framed:
  assumes "\<forall>b\<in>set bs. length b \<le> max_datagram" "\<not> held wbuf"
  shows "send_all wbuf bs s = (map (\<lambda>b. (length b, nil_error)) bs, wbuf, s @ concat (map framed bs))"
  using assms(1)
proof (induction bs arbitrary: s)
  case (Cons b bs)
  then show ?case using assms(2) by (simp add: relay_udp_Write_whole)
qed simp

lemma send_all_held:
  assumes "\<forall>b\<in>set bs. length b \<le> max_datagram" "bs \<noteq> []"
  shows "send_all (Some hdr) bs s =
    (map (\<lambda>b. (length b, nil_error)) bs, Some [], s @ hdr @ concat (map framed bs))"
  using assms
proof (cases bs)
  case (Cons b bs')
  have n: "\<not> held (Some [])" by (simp add: held_def)
  show ?thesis
    using assms send_all_framed [OF _ n, of bs'] by (auto simp: Cons relay_udp_Write_whole held_def)
qed simp

lemma dgram_Read_framed:
  assumes "length b \<le> max_datagram" "\<forall>n. length (pool n) = n"
  shows "dgram_Read pool sz (framed b @ r) = (take sz b, nil_error, r)"
proof -
  have "get_be (put_be 2 (length b)) = length b" using assms by (simp add: get_put_be max_datagram_def)
  then show ?thesis using assms(2) by (simp add: dgram_Read_def framed_def fill_def Let_def)
qed

lemma receive_all_framed:
  assumes "\<forall>b\<in>set bs. length b \<le> max_datagram" "\<forall>n. length (pool n) = n" "length szs = length bs"
  shows "receive_all pool szs (concat (map framed bs) @ r) =
    (map2 (\<lambda>sz b. (take sz b, nil_error)) szs bs, r)"
  using assms(3,1)
  by (induction szs bs rule: list_induct2) (simp_all add: dgram_Read_framed assms(2))

text \<open>
  (C30) Datagrams survive the stream: whatever header is held back, datagrams of at most 65535 bytes
  are all reported as written in full, the header goes out once, before the first of them, and the
  other end receives them in order and one by one, each cut to the slice it is read into, up to
  the byte where the next data begins.
\<close>

theorem datagrams_roundtrip:
  assumes "bs \<noteq> []" "\<forall>b\<in>set bs. length b \<le> max_datagram"
    and "\<forall>n. length (pool n) = n" "length szs = length bs"
  shows "\<exists>stream. send_all (Some header) bs [] =
        (map (\<lambda>b. (length b, nil_error)) bs, Some [], header @ stream) \<and>
      receive_all pool szs (stream @ behind) = (map2 (\<lambda>sz b. (take sz b, nil_error)) szs bs, behind)"
  using send_all_held [OF assms(2,1), of header "[]"] receive_all_framed [OF assms(2-4), of behind]
  by auto

lemma datagrams_roundtrip_witness:
  "\<exists>stream. send_all (Some [9]) [[1, 2], []] [] = ([(2, nil_error), (0, nil_error)], Some [], [9] @ stream) \<and>
     receive_all (\<lambda>n. replicate n 0) [1, 8] (stream @ []) = ([([1], nil_error), ([], nil_error)], [])"
  using datagrams_roundtrip [of "[[1, 2], []]" "\<lambda>n. replicate n 0" "[1, 8]" "[9]" "[]"]
  by (simp add: max_datagram_def numeral_2_eq_2 del: send_all.simps receive_all.simps)

section \<open>What does not fit\<close>

text \<open>\<open>bindUDPConn\<close> reports two bytes more than it was given.\<close>

lemma bind_Write_reports_frame:
  "length b \<le> max_datagram \<Longrightarrow> bind_Write whole b s = (length b + 2, nil_error, s @ framed b)"
  by (simp add: bind_Write_def whole_def framed_def)

text \<open>
  A response that refuses is an error of the first read; the next read hands out what follows the
  response as if it had been accepted.
\<close>

lemma refused_response_is_forgotten:
  assumes "readResponse L r = (Some e, r')" "wbuf \<noteq> None" "r' \<noteq> []" "0 < k" "0 < sz"
  shows "relay_tcp_Read L wbuf False k sz r = ([], Some e, r', True) \<and>
    relay_tcp_Read L wbuf True k sz r' = (take (min k sz) r', nil_error, drop (min k sz) r', True)"
  using assms by (simp add: relay_tcp_Read_def first_response_def stream_Read_def)

text \<open>
  Only the relay connector writes a datagram under a lock; at the tunnel connector and the relay
  handler the two writes of a datagram may be separated by those of another.
\<close>

lemma unlocked_writes_mix_datagrams:
  "receive_all (\<lambda>n. replicate n 0) [8] (concat [put_be 2 2, put_be 2 3, [1, 2], [3, 4, 5]]) =
     ([([0, 3], nil_error)], [1, 2, 3, 4, 5])"
  by code_simp

end
