(* ===== verification/Base64.thy ===== *)
theory Base64
  imports Bytes Selector
begin

text \<open>
  The part of \<open>encoding/base64\<close> the code uses, and the names of servers that travel in it: the
  \<open>sni\<close> connector encodes them, the HTTP handler decodes them.
\<close>

section \<open>Base 64\<close>

definition b64_common :: string where
  "b64_common = ''ABCDEFGHIJKLMNOPQRSTUVWXYZabcdefghijklmnopqrstuvwxyz0123456789''"

definition b64_std :: string where "b64_std = b64_common @ ''+/''"
definition b64_url :: string where "b64_url = b64_common @ ''-_''"

text \<open>Three bytes are four numbers below 64; a shorter last group leaves some out.\<close>

fun to_sextets :: "nat list \<Rightarrow> nat list" where
  "to_sextets [] = []"
| "to_sextets [a] = [a div 4, a mod 4 * 16]"
| "to_sextets [a, b] = [a div 4, a mod 4 * 16 + b div 16, b mod 16 * 4]"
| "to_sextets (a # b # c # r) =
     [a div 4, a mod 4 * 16 + b div 16, b mod 16 * 4 + c div 64, c mod 64] @ to_sextets r"

fun of_sextets :: "nat list \<Rightarrow> nat list option" where
  "of_sextets [] = Some []"
| "of_sextets [x] = None"
| "of_sextets [x, y] = Some [x * 4 + y div 16]"
| "of_sextets [x, y, z] = Some [x * 4 + y div 16, y mod 16 * 16 + z div 4]"
| "of_sextets (x # y # z # w # r) =
     map_option (\<lambda>bs. [x * 4 + y div 16, y mod 16 * 16 + z div 4, z mod 4 * 64 + w] @ bs) (of_sextets r)"

definition nats_of :: "string \<Rightarrow> nat list" where
  "nats_of s = map of_char s"

definition string_of :: "nat list \<Rightarrow> string" where
  "string_of bs = map char_of bs"

text \<open>Line ends are skipped when decoding.\<close>

definition no_newlines :: "string \<Rightarrow> string" where
  "no_newlines s = filter (\<lambda>c. c \<noteq> CHR 0x0A \<and> c \<noteq> CHR 0x0D) s"

definition sextets_in :: "string \<Rightarrow> string \<Rightarrow> nat list option" where
  "sextets_in A s = those (map (IndexByte A) s)"

definition RawURL_Encode :: "string \<Rightarrow> string" where
  "RawURL_Encode s = map (\<lambda>i. b64_url ! i) (to_sextets (nats_of s))"

definition RawURL_Decode :: "string \<Rightarrow> string option" where
  "RawURL_Decode s =
     (case sextets_in b64_url (no_newlines s) of
        None \<Rightarrow> None
      | Some xs \<Rightarrow> map_option string_of (of_sextets xs))"

text \<open>The padded standard encoding, decoded in groups of four characters.\<close>

fun std_groups :: "string \<Rightarrow> nat list option" where
  "std_groups [] = Some []"
| "std_groups (x # y # z # w # r) =
     (if w = CHR ''='' then
        (if r \<noteq> [] then None
         else if z = CHR ''='' then Option.bind (sextets_in b64_std [x, y]) of_sextets
         else Option.bind (sextets_in b64_std [x, y, z]) of_sextets)
      else case Option.bind (sextets_in b64_std [x, y, z, w]) of_sextets of
             None \<Rightarrow> None
           | Some g \<Rightarrow> map_option (\<lambda>bs. g @ bs) (std_groups r))"
| "std_groups s = None"

definition Std_Decode :: "string \<Rightarrow> string option" where
  "Std_Decode s = map_option string_of (std_groups (no_newlines s))"

section \<open>Server names\<close>

definition invalid_name :: string where "invalid_name = ''invalid name''"

definition encodeServerName :: "string \<Rightarrow> string" where
  "encodeServerName name =
     RawURL_Encode (string_of (map unat (put_be 4 (unat (crc32 name)))) @ RawURL_Encode name)"

definition decodeServerName :: "string \<Rightarrow> string + string" where
  "decodeServerName s =
     (case RawURL_Decode s of
        None \<Rightarrow> Inl ''illegal base64 data''
      | Some b \<Rightarrow>
          if length b < 4 then Inl invalid_name
          else case RawURL_Decode (drop 4 b) of
            None \<Rightarrow> Inl ''illegal base64 data''
          | Some v \<Rightarrow>
              if unat (crc32 v) \<noteq> get_be (map word_of_nat (nats_of (take 4 b))) then Inl invalid_name
              else Inr v)"

section \<open>Decoding what was encoded\<close>

lemma of_to_sextets: "\<forall>b\<in>set bs. b < 256 \<Longrightarrow> of_sextets (to_sextets bs) = Some bs"
proof (induction bs rule: to_sextets.induct)
  case (4 a b c r)
  have "a div 4 * 4 + (a mod 4 * 16 + b div 16) div 16 = a" "(a mod 4 * 16 + b div 16) mod 16 * 16 + (b mod 16 * 4 + c div 64) div 4 = b"
    "(b mod 16 * 4 + c div 64) mod 4 * 64 + c mod 64 = c"
    using 4(2) by auto
  then show ?case using 4 by simp
qed auto

lemma sextets_bound: "\<forall>b\<in>set bs. b < 256 \<Longrightarrow> \<forall>x\<in>set (to_sextets bs). x < 64"
  by (induction bs rule: to_sextets.induct) auto

lemma url_index: "i < 64 \<Longrightarrow> IndexByte b64_url (b64_url ! i) = Some i"
proof -
  have "list_all (\<lambda>i. IndexByte b64_url (b64_url ! i) = Some i) [0..<64]" by code_simp
  then show "i < 64 \<Longrightarrow> ?thesis" by (simp add: list_all_iff)
qed

lemma url_no_newline: "i < 64 \<Longrightarrow> b64_url ! i \<noteq> CHR 0x0A \<and> b64_url ! i \<noteq> CHR 0x0D"
proof -
  have "list_all (\<lambda>i. b64_url ! i \<noteq> CHR 0x0A \<and> b64_url ! i \<noteq> CHR 0x0D) [0..<64]" by code_simp
  then show "i < 64 \<Longrightarrow> ?thesis" by (simp add: list_all_iff)
qed

lemma sextets_in_url:
  "\<forall>x\<in>set xs. x < 64 \<Longrightarrow> sextets_in b64_url (no_newlines (map (\<lambda>i. b64_url ! i) xs)) = Some xs"
  by (induction xs) (auto simp: sextets_in_def no_newlines_def url_index url_no_newline)

lemma string_nats [simp]: "string_of (nats_of s) = s" "length (string_of bs) = length bs" "length (nats_of s) = length s"
  by (simp_all add: string_of_def nats_of_def comp_def)

lemma nats_of_bound: "b \<in> set (nats_of s) \<Longrightarrow> b < 256"
  by (auto simp: nats_of_def)

lemma RawURL_roundtrip: "RawURL_Decode (RawURL_Encode s) = Some s"
proof -
  have b: "\<forall>b\<in>set (nats_of s). b < 256" by (simp add: nats_of_bound)
  show ?thesis
    by (simp add: RawURL_Decode_def RawURL_Encode_def sextets_in_url [OF sextets_bound [OF b]] of_to_sextets [OF b])
qed

lemma bytes_of_string: "map word_of_nat (nats_of (string_of (map unat bs))) = (bs :: bytes)"
proof -
  have "of_char (char_of (unat b) :: char) = unat b" for b :: byte
    using unsigned_less [of b, where ?'a = nat] by simp
  then show ?thesis by (simp add: nats_of_def string_of_def map_idI)
qed

lemma server_name_roundtrip_fact: "decodeServerName (encodeServerName name) = Inr name"
proof -
  have "put_be 4 (unat (crc32 name)) = map word_of_nat (nats_of (string_of (map unat (put_be 4 (unat (crc32 name))))))"
    by (simp add: bytes_of_string)
  then have "get_be (map word_of_nat (nats_of (string_of (map unat (put_be 4 (unat (crc32 name)))))) :: bytes) =
      unat (crc32 name) mod 256 ^ 4"
    by (metis get_put_be)
  also have "\<dots> = unat (crc32 name)"
    using unsigned_less [of "crc32 name", where ?'a = nat] by simp
  finally show ?thesis by (simp add: decodeServerName_def encodeServerName_def RawURL_roundtrip)
qed

text \<open>
  A server name survives the way from the connector to the handler: decoding an encoded name
  gives the name, whatever its characters, the check sum included.
\<close>

theorem server_name_roundtrip: "decodeServerName (encodeServerName name) = Inr name"
  by (rule server_name_roundtrip_fact)

end
