(* ===== verification/HttpHandler.thy ===== *)
theory HttpHandler
  imports Base64 GoNet
begin

text \<open>
  The HTTP proxy handler, \<open>x/handler/http\<close>: one connection with its first request and the requests
  that follow, authentication with probe resistance, bypass, tunnels and forwarded requests.

  Requests are those \<open>http.ReadRequest\<close> returns, with header keys in canonical form. What the
  outside answers is a record of functions: the router, the transport, sites and files a probe is
  shown, and writes to the client. Recording, statistics and logging are left out. \<open>EqualFold\<close> and
  \<open>ToLower\<close> are taken on ASCII letters.
\<close>

section \<open>Requests, responses and the handler\<close>

type_synonym http_header = "string \<rightharpoonup> string list"

definition hdr_Get :: "http_header \<Rightarrow> string \<Rightarrow> string" where
  "hdr_Get h k = (case h k of Some (v # _) \<Rightarrow> v | _ \<Rightarrow> [])"

definition hdr_Set :: "string \<Rightarrow> string \<Rightarrow> http_header \<Rightarrow> http_header" where
  "hdr_Set k v h = h(k \<mapsto> [v])"

definition hdr_Add :: "string \<Rightarrow> string \<Rightarrow> http_header \<Rightarrow> http_header" where
  "hdr_Add k v h = h(k \<mapsto> (case h k of None \<Rightarrow> [] | Some vs \<Rightarrow> vs) @ [v])"

definition hdr_Del :: "string \<Rightarrow> http_header \<Rightarrow> http_header" where
  "hdr_Del k h = h(k := None)"

text \<open>\<open>hq_url\<close> is \<open>URL.Host\<close>, empty for a request that names only a path.\<close>

record http_req =
  hq_method :: string
  hq_scheme :: string
  hq_url :: string
  hq_host :: string
  hq_header :: http_header
  hq_http10 :: bool

record http_resp =
  hs_code :: int
  hs_status :: string
  hs_header :: http_header
  hs_length :: int
  hs_close :: bool

record probe_resistance =
  pr_type :: string
  pr_value :: string
  pr_knock :: string

text \<open>The header that is configured is an object every response shares; it is passed along as state.\<close>

record http_md =
  md_probe :: "probe_resistance option"
  md_udp :: bool
  md_realm :: string
  md_proxyAgent :: string
  md_sniffing :: bool
  md_auther :: "(string \<Rightarrow> string \<Rightarrow> string \<times> bool) option"
  md_bypass :: "(string \<Rightarrow> string \<Rightarrow> bool) option"
  md_rate :: "(string \<Rightarrow> bool option) option"

text \<open>What the outside answers; \<open>tokens\<close> and \<open>is_dns\<close> are functions of packages not in the repository.\<close>

record outside =
  ow_dial :: "string \<Rightarrow> string \<Rightarrow> go_error"
  ow_roundtrip :: "http_req \<Rightarrow> string + http_resp"
  ow_get :: "string \<Rightarrow> http_resp option"
  ow_raw :: "string \<Rightarrow> bool"
  ow_file :: "string \<Rightarrow> int option"
  ow_write :: "http_resp \<Rightarrow> go_error"
  ow_tokens :: "http_header \<Rightarrow> bool"
  ow_is_dns :: "string \<Rightarrow> bool"

datatype action =
  Wrote http_resp | Dialled string string | Forwarded http_req | Tunnelled string | Sniffed string
| Switched | UdpRelay | Fetched string | Opened string | Decoy string http_req

section \<open>Hosts\<close>

definition trim_brackets :: "string \<Rightarrow> string" where
  "trim_brackets s =
     rev (dropWhile (\<lambda>c. c \<in> {CHR ''['', CHR '']''}) (rev (dropWhile (\<lambda>c. c \<in> {CHR ''['', CHR '']''}) s)))"

definition with_port :: "string \<Rightarrow> string" where
  "with_port host = (if split_port host = [] then JoinHostPort (trim_brackets host) ''80'' else host)"

text \<open>\<open>URL.Hostname\<close>.\<close>

definition url_hostname :: "string \<Rightarrow> string" where
  "url_hostname u =
     (let h = (case LastIndexByte u CHR '':'' of
                 Some i \<Rightarrow> if list_all is_digit (drop (i + 1) u) then take i u else u
               | None \<Rightarrow> u)
      in if HasPrefix h ''['' \<and> HasSuffix h '']'' then butlast (tl h) else h)"

definition EqualFold :: "string \<Rightarrow> string \<Rightarrow> bool" where
  "EqualFold a b = (ToLower a = ToLower b)"

text \<open>Names sent in \<open>Gost-Target\<close> and \<open>X-Gost-Target\<close> replace the host of the first request.\<close>

definition take_target :: "string \<Rightarrow> http_req \<Rightarrow> http_req" where
  "take_target key q =
     (let v = hdr_Get (hq_header q) key
      in if v = [] then q
         else case decodeServerName v of Inl e \<Rightarrow> q | Inr h \<Rightarrow> q\<lparr>hq_host := h\<rparr>)"

definition actual_request :: "outside \<Rightarrow> http_req \<Rightarrow> http_req" where
  "actual_request W q =
     take_target ''X-Gost-Target'' (take_target ''Gost-Target''
       (if hq_scheme q = [] \<and> ow_is_dns W (hq_host q) then q\<lparr>hq_scheme := ''http''\<rparr> else q))"

definition request_network :: "http_req \<Rightarrow> string" where
  "request_network q = (if hdr_Get (hq_header q) ''X-Gost-Protocol'' = ''udp'' then ''udp'' else ''tcp'')"

section \<open>Authentication\<close>

definition basicProxyAuth :: "string \<Rightarrow> string \<times> string \<times> bool" where
  "basicProxyAuth a =
     (if a = [] \<or> \<not> HasPrefix a ''Basic '' then ([], [], False)
      else case Std_Decode (drop (length ''Basic '') a) of
        None \<Rightarrow> ([], [], False)
      | Some cs \<Rightarrow>
          (case IndexByte cs CHR '':'' of
             None \<Rightarrow> ([], [], False)
           | Some i \<Rightarrow> (take i cs, drop (i + 1) cs, True)))"

definition credentials_of :: "http_req \<Rightarrow> string \<times> string" where
  "credentials_of q =
     (case basicProxyAuth (hdr_Get (hq_header q) ''Proxy-Authorization'') of (u, p, _) \<Rightarrow> (u, p))"

definition knocks :: "probe_resistance \<Rightarrow> http_req \<Rightarrow> bool" where
  "knocks pr q \<longleftrightarrow> pr_knock pr \<noteq> [] \<and> EqualFold (url_hostname (hq_url q)) (pr_knock pr)"

text \<open>
  What a probe is shown: the response so far, what was done for it, whether its header is still
  the handler's own, and whether the connection has been handed to another host.
\<close>

definition probe_answer ::
    "outside \<Rightarrow> probe_resistance \<Rightarrow> http_req \<Rightarrow> http_resp \<Rightarrow> http_resp \<times> action list \<times> bool \<times> bool" where
  "probe_answer W pr q r =
     (let r0 = r\<lparr>hs_code := 503\<rparr>; v = pr_value pr in
      if pr_type pr = ''code'' then (r0\<lparr>hs_code := fst (Atoi v)\<rparr>, [], True, False)
      else if pr_type pr = ''web'' then
        (let url = (if HasPrefix v ''http'' then v else ''http://'' @ v)
         in case ow_get W url of
              None \<Rightarrow> (r0, [Fetched url], True, False)
            | Some r' \<Rightarrow> (r', [Fetched url], False, False))
      else if pr_type pr = ''host'' then
        (if ow_raw W v then (r0, [Decoy v q], True, True) else (r0, [], True, False))
      else if pr_type pr = ''file'' then
        (case ow_file W v of
           None \<Rightarrow> (r0, [], True, False)
         | Some n \<Rightarrow>
             (r0\<lparr>hs_code := 200, hs_length := n, hs_header := hdr_Set ''Content-Type'' ''text/html'' (hs_header r0)\<rparr>,
              [Opened v], True, False))
      else (r0, [], True, False))"

definition defaultRealm :: string where "defaultRealm = ''gost''"

definition refuse :: "http_md \<Rightarrow> http_req \<Rightarrow> http_resp \<Rightarrow> http_resp" where
  "refuse M q r =
     (if hs_code r = 0 then
        (let realm = (if md_realm M = [] then defaultRealm else md_realm M);
             h1 = hdr_Add ''Proxy-Authenticate'' (''Basic realm='' @ [CHR 0x22] @ realm @ [CHR 0x22]) (hs_header r);
             h2 = (if ToLower (hdr_Get (hq_header q) ''Proxy-Connection'') = ''keep-alive''
                   then hdr_Set ''Proxy-Connection'' ''close'' (hdr_Set ''Connection'' ''close'' h1) else h1)
         in r\<lparr>hs_code := 407, hs_header := h2\<rparr>)
      else if hs_code r = 200 then r\<lparr>hs_header := hdr_Set ''Connection'' ''keep-alive'' (hs_header r)\<rparr>
      else r)"

text \<open>The id, whether the client may go on, what was done, and the response's own header after it.\<close>

definition authenticate ::
    "http_md \<Rightarrow> outside \<Rightarrow> http_req \<Rightarrow> http_resp \<Rightarrow> (string \<times> bool) \<times> action list \<times> http_header" where
  "authenticate M W q r =
     (case md_auther M of
        None \<Rightarrow> (([], True), [], hs_header r)
      | Some A \<Rightarrow>
          (case A (fst (credentials_of q)) (snd (credentials_of q)) of
             (cid, True) \<Rightarrow> ((cid, True), [], hs_header r)
           | (cid, False) \<Rightarrow>
               (case md_probe M of
                  Some pr \<Rightarrow>
                    if \<not> knocks pr q then
                      (case probe_answer W pr q r of
                         (r', as, own, gone) \<Rightarrow>
                           if gone then ((cid, False), as, hs_header r)
                           else ((cid, False), as @ [Wrote (refuse M q r')],
                                 if own then hs_header (refuse M q r') else hs_header r))
                    else ((cid, False), [Wrote (refuse M q r)], hs_header (refuse M q r))
                | None \<Rightarrow> ((cid, False), [Wrote (refuse M q r)], hs_header (refuse M q r)))))"

section \<open>Requests that are forwarded\<close>

definition proxy_headers :: "string list" where
  "proxy_headers = [''Proxy-Authorization'', ''Proxy-Connection'', ''Gost-Target'', ''X-Gost-Target'']"

definition forwarded :: "http_req \<Rightarrow> http_req" where
  "forwarded q =
     (let h = hq_header q;
          h1 = (if hq_http10 q then
                  (if ToLower (hdr_Get h ''Connection'') = ''keep-alive'' then hdr_Del ''Connection'' h
                   else hdr_Set ''Connection'' ''close'' h)
                else h)
      in q\<lparr>hq_header := fold hdr_Del proxy_headers h1\<rparr>)"

text \<open>A \<open>Transport\<close> refuses a request whose URL has no host before it does anything.\<close>

definition RoundTrip :: "outside \<Rightarrow> http_req \<Rightarrow> string + http_resp" where
  "RoundTrip W q = (if hq_url q = [] then Inl ''http: no Host in request URL'' else ow_roundtrip W q)"

definition plain_response :: "int \<Rightarrow> int \<Rightarrow> http_header \<Rightarrow> http_resp" where
  "plain_response n code h = \<lparr>hs_code = code, hs_status = [], hs_header = h, hs_length = n, hs_close = False\<rparr>"

definition upgradeType :: "outside \<Rightarrow> http_header \<Rightarrow> string" where
  "upgradeType W h = (if ow_tokens W h then hdr_Get h ''Upgrade'' else [])"

definition handleUpgradeResponse :: "outside \<Rightarrow> http_req \<Rightarrow> http_resp \<Rightarrow> action list \<times> go_error" where
  "handleUpgradeResponse W q r =
     (if \<not> EqualFold (upgradeType W (hq_header q)) (upgradeType W (hs_header r)) then
        ([], Some ''backend tried to switch protocol'')
      else case ow_write W r of
        Some e \<Rightarrow> ([Wrote r], Some (''response write: '' @ e))
      | None \<Rightarrow> ([Wrote r, Switched], nil_error))"

definition ErrBypass :: string where "ErrBypass = ''bypass''"

text \<open>What is done for one request, whether the connection ends then, and the error.\<close>

definition proxyRoundTrip :: "http_md \<Rightarrow> outside \<Rightarrow> http_req \<Rightarrow> action list \<times> bool \<times> go_error" where
  "proxyRoundTrip M W q =
     (let f = forwarded q; host = with_port (hq_host q) in
      if md_bypass M \<noteq> None \<and> the (md_bypass M) ''tcp'' host then
        ([Wrote (plain_response 0 403 Map.empty)], True, Some ErrBypass)
      else
        (case RoundTrip W f of
           Inl e \<Rightarrow> ([Forwarded f, Wrote (plain_response 0 503 Map.empty)], True, Some e)
         | Inr r \<Rightarrow>
             (let r1 = (if hq_http10 q \<and> \<not> hs_close r
                        then r\<lparr>hs_header := hdr_Set ''Connection'' ''keep-alive'' (hs_header r)\<rparr> else r)
              in if hs_code r = 101 then
                   (case handleUpgradeResponse W f r1 of (as, e) \<Rightarrow> (Forwarded f # as, True, e))
                 else case ow_write W r1 of
                   Some e \<Rightarrow> ([Forwarded f, Wrote r1], True, Some (''write response: '' @ e))
                 | None \<Rightarrow>
                     ([Forwarded f, Wrote r1], if hs_length r1 \<ge> 0 then hs_close r1 else True, nil_error))))"

text \<open>The loop over the requests that follow on the connection, each with what the outside is then.\<close>

fun proxy_loop :: "http_md \<Rightarrow> (http_req \<times> outside) list \<Rightarrow> action list \<times> go_error" where
  "proxy_loop M [] = ([], nil_error)"
| "proxy_loop M ((q, W) # qs) =
     (case proxyRoundTrip M W q of
        (as, close, e) \<Rightarrow>
          if e \<noteq> nil_error \<or> close then (as, e)
          else (case proxy_loop M qs of (as', e') \<Rightarrow> (as @ as', e')))"

definition handleProxy ::
    "http_md \<Rightarrow> outside \<Rightarrow> http_req \<Rightarrow> (http_req \<times> outside) list \<Rightarrow> action list \<times> go_error" where
  "handleProxy M W q qs = proxy_loop M ((q, W) # qs)"

section \<open>A connection\<close>

definition handleUDP :: "http_md \<Rightarrow> outside \<Rightarrow> http_header \<Rightarrow> action list \<times> go_error" where
  "handleUDP M W own =
     (if \<not> md_udp M then ([Wrote (plain_response 0 403 own)], ow_write W (plain_response 0 403 own))
      else case ow_write W (plain_response 0 200 own) of
        Some e \<Rightarrow> ([Wrote (plain_response 0 200 own)], Some e)
      | None \<Rightarrow>
          (case ow_dial W ''udp'' [] of
             Some e \<Rightarrow> ([Wrote (plain_response 0 200 own), Dialled ''udp'' []], Some e)
           | None \<Rightarrow> ([Wrote (plain_response 0 200 own), Dialled ''udp'' [], UdpRelay], nil_error)))"

definition handleConnect_tcp :: "http_md \<Rightarrow> outside \<Rightarrow> string \<Rightarrow> http_header \<Rightarrow> action list \<times> go_error" where
  "handleConnect_tcp M W addr own =
     (case ow_dial W ''tcp'' addr of
        Some e \<Rightarrow> ([Dialled ''tcp'' addr, Wrote (plain_response (-1) 503 own)], Some e)
      | None \<Rightarrow>
          (let r = (plain_response (-1) 200 own)\<lparr>hs_status := ''200 Connection established''\<rparr>
           in case ow_write W r of
                Some e \<Rightarrow> ([Dialled ''tcp'' addr, Wrote r], Some e)
              | None \<Rightarrow>
                  ([Dialled ''tcp'' addr, Wrote r, if md_sniffing M then Sniffed addr else Tunnelled addr], nil_error)))"

text \<open>\<open>shared\<close> is the configured header, \<open>None\<close> when there is none; a response then gets its own.\<close>

definition handleRequest ::
    "http_md \<Rightarrow> http_header option \<Rightarrow> outside \<Rightarrow> http_req \<Rightarrow> (http_req \<times> outside) list \<Rightarrow>
       (action list \<times> go_error) \<times> http_header option" where
  "handleRequest M shared W q0 qs =
     (let q = actual_request W q0;
          network = request_network q;
          addr = with_port (hq_host q);
          hd0 = (case shared of None \<Rightarrow> Map.empty | Some h \<Rightarrow> h);
          keep = (\<lambda>h. map_option (\<lambda>_. h) shared)
      in if hq_method q = ''PRI'' \<or> (hq_method q \<noteq> ''CONNECT'' \<and> hq_scheme q \<noteq> ''http'') then
           (([Wrote (plain_response (-1) 400 hd0)], ow_write W (plain_response (-1) 400 hd0)), shared)
         else
           (case authenticate M W q (plain_response (-1) 0 hd0) of
              ((_, False), as, hd1) \<Rightarrow> ((as, Some ''authentication failed''), keep hd1)
            | ((_, True), as, hd1) \<Rightarrow>
                (let hd2 = (if hdr_Get hd1 ''Proxy-Agent'' = []
                            then hdr_Set ''Proxy-Agent'' (md_proxyAgent M) hd1 else hd1)
                 in (if md_bypass M \<noteq> None \<and> the (md_bypass M) network addr then
                       ([Wrote (plain_response (-1) 403 hd2)], Some ErrBypass)
                     else if network = ''udp'' then handleUDP M W (case shared of None \<Rightarrow> Map.empty | _ \<Rightarrow> hd2)
                     else if hq_method q \<noteq> ''CONNECT'' then handleProxy M W q qs
                     else handleConnect_tcp M W addr hd2,
                     keep hd2))))"

definition checkRateLimit :: "http_md \<Rightarrow> string \<Rightarrow> bool" where
  "checkRateLimit M remote =
     (case md_rate M of
        None \<Rightarrow> True
      | Some limiter \<Rightarrow> (case limiter (split_host remote) of None \<Rightarrow> True | Some allowed \<Rightarrow> allowed))"

definition ErrRateLimit :: string where "ErrRateLimit = ''rate limit''"

text \<open>\<open>Inl\<close>: the error of \<open>ReadRequest\<close>.\<close>

definition Handle ::
    "http_md \<Rightarrow> http_header option \<Rightarrow> outside \<Rightarrow> string \<Rightarrow> string + http_req \<Rightarrow> (http_req \<times> outside) list \<Rightarrow>
       (action list \<times> go_error) \<times> http_header option" where
  "Handle M shared W remote first qs =
     (if \<not> checkRateLimit M remote then (([], Some ErrRateLimit), shared)
      else case first of
        Inl e \<Rightarrow> (([], Some e), shared)
      | Inr q \<Rightarrow> handleRequest M shared W q qs)"

end
