(* ===== verification/HttpAccess.thy ===== *)
theory HttpAccess
  imports HttpHandler
begin

text \<open>
  Who gets through the HTTP proxy and where to: what a client without credentials can do, which
  hosts are reached, what is passed on, and what a configured response header remembers.
\<close>

section \<open>Going through the proxy\<close>







definition bypass_names :: "http_md \<Rightarrow> string \<Rightarrow> bool" where
  "bypass_names M a \<longleftrightarrow> md_bypass M \<noteq> None \<and> the (md_bypass M) ''tcp'' a"

definition let_in :: "http_md \<Rightarrow> http_req \<Rightarrow> bool" where
  "let_in M q \<longleftrightarrow>
     (case md_auther M of None \<Rightarrow> True | Some A \<Rightarrow> snd (A (fst (credentials_of q)) (snd (credentials_of q))))"

lemma take_target_fields [simp]:
  "hq_header (take_target k q) = hq_header q" "hq_method (take_target k q) = hq_method q"
  "hq_url (take_target k q) = hq_url q" "hq_scheme (take_target k q) = hq_scheme q"
  by (simp_all add: take_target_def Let_def split: sum.split)

lemma actual_request_fields [simp]:
  "hq_header (actual_request W q) = hq_header q" "hq_method (actual_request W q) = hq_method q"
  "hq_url (actual_request W q) = hq_url q"
  by (simp_all add: actual_request_def)

lemma credentials_actual [simp]: "credentials_of (actual_request W q) = credentials_of q"
  by (simp add: credentials_of_def)







lemma forwarded_fields [simp]:
  "hq_host (forwarded q) = hq_host q" "hq_url (forwarded q) = hq_url q"
  by (simp_all add: forwarded_def Let_def)

lemma forwarded_header: "k \<in> set proxy_headers \<Longrightarrow> hq_header (forwarded q) k = None"
  by (auto simp: forwarded_def Let_def proxy_headers_def hdr_Del_def)












definition quiet_world :: outside where
  "quiet_world =
     \<lparr>ow_dial = (\<lambda>_ _. nil_error), ow_roundtrip = (\<lambda>_. Inr (plain_response 0 200 Map.empty)),
      ow_get = (\<lambda>_. None), ow_raw = (\<lambda>_. True), ow_file = (\<lambda>_. None), ow_write = (\<lambda>_. nil_error),
      ow_tokens = (\<lambda>_. False), ow_is_dns = (\<lambda>_. True)\<rparr>"

definition guarded :: http_md where
  "guarded =
     \<lparr>md_probe = None, md_udp = False, md_realm = [], md_proxyAgent = ''gost/3.0'', md_sniffing = False,
      md_auther = Some (\<lambda>u p. (u, u = ''u'' \<and> p = ''p'')), md_bypass = Some (\<lambda>n a. a = ''b:80''), md_rate = None\<rparr>"

definition connect_request :: "string \<Rightarrow> http_req" where
  "connect_request auth =
     \<lparr>hq_method = ''CONNECT'', hq_scheme = [], hq_url = ''a:1'', hq_host = ''a:1'',
      hq_header = [''Proxy-Authorization'' \<mapsto> [auth]], hq_http10 = False\<rparr>"



section \<open>The address that is reached\<close>

lemma encoded_not_empty: "encodeServerName name \<noteq> []"
proof
  assume "encodeServerName name = []"
  moreover have "decodeServerName [] = Inl invalid_name" by code_simp
  ultimately show False using server_name_roundtrip_fact [of name] by simp
qed

definition proxy_get :: "string \<Rightarrow> http_header \<Rightarrow> http_req" where
  "proxy_get host hds =
     \<lparr>hq_method = ''GET'', hq_scheme = ''http'', hq_url = host, hq_host = host, hq_header = hds, hq_http10 = False\<rparr>"

text \<open>
  A target header evades the bypass: a client that may use the proxy and sends an ordinary request
  for a host the bypass names, with any other host encoded in \<open>Gost-Target\<close>, has the request sent
  to the bypassed host.
\<close>

theorem gost_target_evades_bypass:
  assumes "checkRateLimit M remote" "md_auther M = None"
    and "bypass_names M (with_port blocked)" "\<not> bypass_names M (with_port other)"
  shows "\<exists>f. Forwarded f \<in> set (fst (fst (Handle M shared W remote
          (Inr (proxy_get blocked [''Gost-Target'' \<mapsto> [encodeServerName other]])) qs))) \<and>
      hq_url f = blocked \<and> bypass_names M (with_port (hq_url f))"
proof -
  let ?q = "proxy_get blocked [''Gost-Target'' \<mapsto> [encodeServerName other]]"
  define b where "b = actual_request W ?q"
  have b: "hq_host b = other" "hq_url b = blocked" "hq_method b = ''GET''" "hq_scheme b = ''http''"
    "request_network b = ''tcp''"
    using encoded_not_empty [of other] server_name_roundtrip_fact [of other]
    by (simp_all add: b_def actual_request_def take_target_def proxy_get_def hdr_Get_def Let_def request_network_def)
  have "Forwarded (forwarded b) \<in> set (fst (proxyRoundTrip M W b))"
    using assms(4) b by (auto simp: proxyRoundTrip_def Let_def bypass_names_def split: sum.split prod.split option.split)
  then have "Forwarded (forwarded b) \<in> set (fst (handleProxy M W b qs))"
    by (auto simp: handleProxy_def split: prod.split)
  then have "Forwarded (forwarded b) \<in> set (fst (fst (Handle M shared W remote (Inr ?q) qs)))"
    using assms(1,2,4) b
    by (auto simp: Handle_def handleRequest_def Let_def authenticate_def bypass_names_def b_def [symmetric])
  then show ?thesis using assms(3) b by (metis forwarded_fields(2))
qed

definition open_proxy :: http_md where
  "open_proxy = guarded\<lparr>md_auther := None\<rparr>"

lemma gost_target_evades_bypass_witness:
  "bypass_names open_proxy (with_port ''b'') \<and>
   (\<exists>f. Forwarded f \<in> set (fst (fst (Handle open_proxy None quiet_world ''c:9''
          (Inr (proxy_get ''b'' [''Gost-Target'' \<mapsto> [encodeServerName ''a'']])) []))) \<and>
      hq_url f = ''b'')"
proof -
  have b: "bypass_names open_proxy (with_port ''b'')" "\<not> bypass_names open_proxy (with_port ''a'')"
    "checkRateLimit open_proxy ''c:9''" "md_auther open_proxy = None" by code_simp+
  show ?thesis using b(1) gost_target_evades_bypass [OF b(3,4,1,2), of None quiet_world "[]"] by blast
qed

text \<open>A request that names only a path passes every check and is then refused by the transport.\<close>

lemma path_request_fails:
  "hq_url q = [] \<Longrightarrow> \<not> bypass_names M (with_port (hq_host q)) \<Longrightarrow>
     proxyRoundTrip M W q =
       ([Forwarded (forwarded q), Wrote (plain_response 0 503 Map.empty)], True, Some ''http: no Host in request URL'')"
  by (simp add: proxyRoundTrip_def Let_def bypass_names_def RoundTrip_def)

section \<open>What a configured header remembers\<close>

text \<open>Without a configured header no request leaves a trace for the next.\<close>

lemma no_header_no_memory: "snd (Handle M None W remote first qs) = None"
  by (auto simp: Handle_def handleRequest_def Let_def split: sum.split prod.split bool.split)

lemma refused_keeps_header:
  assumes "hq_method q = ''CONNECT''" "\<not> let_in M q" "md_probe M = None" "checkRateLimit M remote"
  shows "\<exists>h'. snd (Handle M (Some h) W remote (Inr q) qs) = Some h' \<and> h' ''Proxy-Authenticate'' \<noteq> None"
proof -
  obtain A where A: "md_auther M = Some A" using assms(2) by (auto simp: let_in_def split: option.splits)
  obtain cid where r: "A (fst (credentials_of q)) (snd (credentials_of q)) = (cid, False)"
    using assms(2) A by (metis (mono_tags, lifting) let_in_def option.simps(5) prod.collapse)
  show ?thesis
    using assms A r
    by (simp add: Handle_def handleRequest_def Let_def authenticate_def refuse_def plain_response_def
        hdr_Add_def hdr_Set_def)
qed

lemma authenticate_accepts:
  assumes "let_in M q"
  obtains cid where "\<And>r. authenticate M W q r = ((cid, True), [], hs_header r)"
proof (cases "md_auther M")
  case None
  then show ?thesis by (intro that [of "[]"]) (simp add: authenticate_def)
next
  case (Some A)
  then obtain cid where "A (fst (credentials_of q)) (snd (credentials_of q)) = (cid, True)"
    using assms by (auto simp: let_in_def) (metis prod.collapse)
  then show ?thesis using Some by (intro that [of cid]) (simp add: authenticate_def)
qed

lemma accepted_reply_header:
  assumes "hq_method q = ''CONNECT''" "let_in M q" "\<not> bypass_names M (with_port (hq_host (actual_request W q)))"
    and "request_network q = ''tcp''" "ow_dial W ''tcp'' (with_port (hq_host (actual_request W q))) = nil_error"
    and "checkRateLimit M remote" "k \<noteq> ''Proxy-Agent''"
  shows "\<exists>r. Wrote r \<in> set (fst (fst (Handle M (Some h) W remote (Inr q) qs))) \<and>
    hs_code r = 200 \<and> hs_header r k = h k"
proof -
  define b where "b = actual_request W q"
  have n: "request_network b = ''tcp''" "hq_method b = ''CONNECT''" "let_in M b"
    using assms(1,2,4) by (auto simp: b_def request_network_def let_in_def split: option.splits)
  obtain cid where auth: "authenticate M W b r = ((cid, True), [], hs_header r)" for r
    using authenticate_accepts [OF n(3)] by blast
  show ?thesis
    using assms(3,5-7) n
    by (auto simp: Handle_def handleRequest_def Let_def b_def [symmetric] auth handleConnect_tcp_def
        bypass_names_def plain_response_def hdr_Set_def split: option.split)
qed

text \<open>
  With a header configured, every response shares it: once a client has been refused, the
  tunnels of later clients are announced with the demand for credentials that was meant for it.
\<close>

theorem refused_client_marks_later_replies:
  assumes "hq_method q1 = ''CONNECT''" "\<not> let_in M q1" "md_probe M = None"
    and "hq_method q2 = ''CONNECT''" "let_in M q2" "\<not> bypass_names M (with_port (hq_host (actual_request W q2)))"
    and "request_network q2 = ''tcp''" "ow_dial W ''tcp'' (with_port (hq_host (actual_request W q2))) = nil_error"
    and "checkRateLimit M remote1" "checkRateLimit M remote2"
  shows "\<exists>r. Wrote r \<in> set (fst (fst (Handle M (snd (Handle M (Some h) W1 remote1 (Inr q1) qs1)) W remote2 (Inr q2) qs))) \<and>
    hs_code r = 200 \<and> hs_header r ''Proxy-Authenticate'' \<noteq> None"
proof -
  obtain h' where h: "snd (Handle M (Some h) W1 remote1 (Inr q1) qs1) = Some h'" "h' ''Proxy-Authenticate'' \<noteq> None"
    using refused_keeps_header [OF assms(1-3) assms(9)] by blast
  show ?thesis
    using accepted_reply_header [OF assms(4-8) assms(10), of "''Proxy-Authenticate''" h' qs] h by auto
qed

lemma refused_client_marks_later_replies_witness:
  "\<exists>r. Wrote r \<in> set (fst (fst (Handle guarded
          (snd (Handle guarded (Some Map.empty) quiet_world ''c:9'' (Inr (connect_request [])) []))
          quiet_world ''d:9'' (Inr (connect_request ''Basic dTpw'')) []))) \<and>
     hs_header r ''Proxy-Authenticate'' \<noteq> None"
proof -
  have a: "\<not> let_in guarded (connect_request [])" "let_in guarded (connect_request ''Basic dTpw'')"
    "\<not> bypass_names guarded (with_port (hq_host (actual_request quiet_world (connect_request ''Basic dTpw''))))"
    "request_network (connect_request ''Basic dTpw'') = ''tcp''" by code_simp+
  have b: "md_probe guarded = None" "hq_method (connect_request x) = ''CONNECT''" "checkRateLimit guarded c"
    "ow_dial quiet_world n d = nil_error" for x c n d
    by (simp_all add: guarded_def connect_request_def checkRateLimit_def quiet_world_def)
  show ?thesis
    using refused_client_marks_later_replies [OF b(2) a(1) b(1) b(2) a(2,3,4) b(4) b(3) b(3),
        of Map.empty quiet_world "''c:9''" "[]" "''d:9''" "[]"] by blast
qed

section \<open>Probe resistance\<close>

text \<open>A refused client that does not knock: what it is answered.\<close>

lemma knocks_actual [simp]: "knocks pr (actual_request W q) = knocks pr q"
  by (simp add: knocks_def)

lemma let_in_actual [simp]: "let_in M (actual_request W q) = let_in M q"
  by (simp add: let_in_def split: option.split)

lemma authenticate_probed:
  assumes "\<not> let_in M q" "md_probe M = Some pr" "\<not> knocks pr q"
  obtains cid where "\<And>r. authenticate M W q r =
    (case probe_answer W pr q r of
       (r', as, own, gone) \<Rightarrow>
         if gone then ((cid, False), as, hs_header r)
         else ((cid, False), as @ [Wrote (refuse M q r')], if own then hs_header (refuse M q r') else hs_header r))"
proof -
  obtain A where A: "md_auther M = Some A" using assms(1) by (auto simp: let_in_def split: option.splits)
  then obtain cid where "A (fst (credentials_of q)) (snd (credentials_of q)) = (cid, False)"
    using assms(1) by (auto simp: let_in_def) (metis prod.collapse)
  then show ?thesis using A assms(2,3) by (intro that [of cid]) (simp add: authenticate_def)
qed

text \<open>A decoy that is neither a page fetched from elsewhere nor a number that says what it is.\<close>

definition disguise :: "probe_resistance \<Rightarrow> bool" where
  "disguise pr \<longleftrightarrow> pr_type pr \<noteq> ''web'' \<and> (pr_type pr = ''code'' \<longrightarrow> fst (Atoi (pr_value pr)) \<notin> {0, 407})"

lemma refuse_disguised:
  "hs_code r \<notin> {0, 407} \<Longrightarrow> hs_code (refuse M q r) \<noteq> 407 \<and>
     (k \<noteq> ''Connection'' \<longrightarrow> hs_header (refuse M q r) k = hs_header r k)"
  by (simp add: refuse_def hdr_Set_def)

lemma probe_disguised:
  assumes "probe_answer W pr q r = (r', as, own, gone)" "disguise pr"
  shows "hs_code r' \<notin> {0, 407} \<and> own \<and> (\<forall>x. Wrote x \<notin> set as) \<and>
    (k \<noteq> ''Content-Type'' \<longrightarrow> hs_header r' k = hs_header r k)"
  using assms by (auto simp: probe_answer_def disguise_def Let_def hdr_Set_def split: if_splits option.splits)

text \<open>
  A probe does not see a proxy: with probe resistance, and no header configured, whatever a
  refused client that does not knock is answered, it is no demand for proxy credentials and has
  none of the headers of a proxy.
\<close>

theorem probe_sees_no_proxy:
  assumes "md_probe M = Some pr" "disguise pr" "\<not> let_in M q" "\<not> knocks pr q"
    and "Wrote r \<in> set (fst (fst (Handle M None W remote (Inr q) qs)))"
  shows "hs_code r \<noteq> 407 \<and> hs_header r ''Proxy-Authenticate'' = None \<and> hs_header r ''Proxy-Agent'' = None"
proof -
  define b where "b = actual_request W q"
  let ?r = "plain_response (-1) 0 Map.empty"
  have n: "\<not> let_in M b" "\<not> knocks pr b" using assms(3,4) by (simp_all add: b_def)
  obtain cid where a: "\<And>r. authenticate M W b r =
    (case probe_answer W pr b r of
       (r', as, own, gone) \<Rightarrow>
         if gone then ((cid, False), as, hs_header r)
         else ((cid, False), as @ [Wrote (refuse M b r')], if own then hs_header (refuse M b r') else hs_header r))"
    using authenticate_probed [OF n(1) assms(1) n(2), of W] by blast
  obtain r' as own gone where p: "probe_answer W pr b ?r = (r', as, own, gone)" by (metis prod_cases4)
  note d = probe_disguised [OF p assms(2)]
  have "r = plain_response (-1) 400 Map.empty \<or> r = refuse M b r'"
    using assms(5) d p a
    by (auto simp: Handle_def handleRequest_def Let_def b_def [symmetric] split: if_splits)
  then show ?thesis
    using d [of "''Proxy-Authenticate''"] d [of "''Proxy-Agent''"]
      refuse_disguised [of r' M b "''Proxy-Authenticate''"] refuse_disguised [of r' M b "''Proxy-Agent''"]
    by (auto simp: plain_response_def)
qed

definition hidden :: http_md where
  "hidden = guarded\<lparr>md_probe := Some \<lparr>pr_type = ''code'', pr_value = ''404'', pr_knock = []\<rparr>\<rparr>"

lemma list_ex_wrote:
  "list_ex (\<lambda>a. case a of Wrote r \<Rightarrow> True | _ \<Rightarrow> False) as \<Longrightarrow> \<exists>r. Wrote r \<in> set as"
  by (induction as) (auto split: action.splits)

lemma probe_sees_no_proxy_witness:
  "\<exists>r. Wrote r \<in> set (fst (fst (Handle hidden None quiet_world ''c:9'' (Inr (connect_request [])) []))) \<and>
     hs_header r ''Proxy-Agent'' = None"
proof -
  let ?as = "fst (fst (Handle hidden None quiet_world ''c:9'' (Inr (connect_request [])) []))"
  have "list_ex (\<lambda>a. case a of Wrote r \<Rightarrow> True | _ \<Rightarrow> False) ?as" by code_simp
  then obtain r where r: "Wrote r \<in> set ?as" using list_ex_wrote by blast
  have c: "\<not> let_in hidden (connect_request [])" by code_simp
  have d: "md_probe hidden = Some \<lparr>pr_type = ''code'', pr_value = ''404'', pr_knock = []\<rparr>" by (simp add: hidden_def)
  have e: "disguise \<lparr>pr_type = ''code'', pr_value = ''404'', pr_knock = []\<rparr>" by code_simp
  have k: "\<not> knocks \<lparr>pr_type = ''code'', pr_value = ''404'', pr_knock = []\<rparr> (connect_request [])" by code_simp
  show ?thesis using r probe_sees_no_proxy [OF d e c k r] by blast
qed

text \<open>
  With a header configured the disguise is lifted by the first client that is let in: the name of
  the proxy stays in the header every later probe is answered with.
\<close>

lemma accepted_keeps_agent:
  assumes "hq_method q = ''CONNECT''" "let_in M q" "checkRateLimit M remote" "md_proxyAgent M \<noteq> []"
  shows "\<exists>h'. snd (Handle M (Some h) W remote (Inr q) qs) = Some h' \<and> hdr_Get h' ''Proxy-Agent'' \<noteq> []"
proof -
  have "let_in M (actual_request W q)" using assms(2) by simp
  then obtain cid where "\<And>r. authenticate M W (actual_request W q) r = ((cid, True), [], hs_header r)"
    using authenticate_accepts by blast
  then show ?thesis
    using assms(1,3,4) by (simp add: Handle_def handleRequest_def Let_def plain_response_def hdr_Set_def hdr_Get_def)
qed

lemma probe_sees_header:
  assumes "md_probe M = Some pr" "pr_type pr = ''code''" "\<not> let_in M q" "\<not> knocks pr q"
    and "hq_method q = ''CONNECT''" "checkRateLimit M remote" "h ''Proxy-Agent'' \<noteq> None"
  shows "\<exists>r. Wrote r \<in> set (fst (fst (Handle M (Some h) W remote (Inr q) qs))) \<and> hs_header r ''Proxy-Agent'' \<noteq> None"
proof -
  define b where "b = actual_request W q"
  have n: "\<not> let_in M b" "\<not> knocks pr b" using assms(3,4) by (simp_all add: b_def)
  obtain cid where a: "\<And>r. authenticate M W b r =
    (case probe_answer W pr b r of
       (r', as, own, gone) \<Rightarrow>
         if gone then ((cid, False), as, hs_header r)
         else ((cid, False), as @ [Wrote (refuse M b r')], if own then hs_header (refuse M b r') else hs_header r))"
    using authenticate_probed [OF n(1) assms(1) n(2), of W] by blast
  have c: "hq_method b = ''CONNECT''" using assms(5) by (simp add: b_def)
  show ?thesis
    using assms(2,6,7) c
    by (simp add: Handle_def handleRequest_def Let_def b_def [symmetric] a probe_answer_def refuse_def
        plain_response_def hdr_Add_def hdr_Set_def)
qed

text \<open>Target headers of the requests that follow on a connection are dropped without being looked at.\<close>

lemma later_target_ignored:
  "hq_host (forwarded q) = hq_host q \<and> hq_header (forwarded q) ''Gost-Target'' = None"
  by (simp add: forwarded_header proxy_headers_def)

end
