(* ===== verification/UdpListener.thy ===== *)
theory UdpListener
  imports Bytes "HOL-Library.Sublist"
begin

text \<open>
  The listener that makes connections of datagrams, \<open>x/internal/net/udp\<close>: one packet connection
  whose datagrams are sorted into connections by the address of their sender, a queue of
  connections to accept, the pool of connections by address and its idle check. Connections live
  in a store indexed by number. Buffered channels are lists with a bound; the queue of connections
  is taken to have room for at least one.
\<close>

section \<open>Connections\<close>

record udp_conn =
  uc_remote :: string
  uc_queue :: "bytes list"
  uc_idle :: bool
  uc_closed :: bool

record listen_config =
  lc_backlog :: nat
  lc_queue_size :: nat
  lc_ttl :: int
  lc_keepalive :: bool

definition newConn :: "string \<Rightarrow> udp_conn" where
  "newConn raddr = \<lparr>uc_remote = raddr, uc_queue = [], uc_idle = False, uc_closed = False\<rparr>"

definition udp_Close :: "udp_conn \<Rightarrow> udp_conn" where
  "udp_Close c = c\<lparr>uc_closed := True\<rparr>"

definition SetIdle :: "bool \<Rightarrow> udp_conn \<Rightarrow> udp_conn" where
  "SetIdle v c = c\<lparr>uc_idle := v\<rparr>"

definition ErrClosed :: string where "ErrClosed = ''use of closed network connection''"
definition queue_full :: string where "queue_full = ''recv queue is full''"

text \<open>
  \<open>select\<close> takes any case that is ready: \<open>pick\<close> says whether it is the first. A full queue of an
  open connection discards the datagram.
\<close>

definition WriteQueue :: "listen_config \<Rightarrow> bool \<Rightarrow> bytes \<Rightarrow> udp_conn \<Rightarrow> udp_conn \<times> go_error" where
  "WriteQueue cfg pick b c =
     (let room = length (uc_queue c) < lc_queue_size cfg
      in if room \<and> (pick \<or> \<not> uc_closed c) then (c\<lparr>uc_queue := uc_queue c @ [b]\<rparr>, nil_error)
         else if uc_closed c then (c, Some ErrClosed)
         else (c, Some queue_full))"

text \<open>\<open>ReadFrom\<close>: the bytes, the sender and the error; \<open>None\<close> while it waits.\<close>

definition udp_ReadFrom :: "bool \<Rightarrow> nat \<Rightarrow> udp_conn \<Rightarrow> ((bytes \<times> string \<times> go_error) \<times> udp_conn) option" where
  "udp_ReadFrom pick sz c =
     (case uc_queue c of
        b # bs \<Rightarrow>
          if pick \<or> \<not> uc_closed c
          then Some ((take sz b, uc_remote c, nil_error), SetIdle False (c\<lparr>uc_queue := bs\<rparr>))
          else Some (([], [], Some ErrClosed), c)
      | [] \<Rightarrow> if uc_closed c then Some (([], [], Some ErrClosed), c) else None)"

text \<open>\<open>WriteTo\<close> sends through the shared packet connection and closes unless connections are kept.\<close>

definition udp_WriteTo :: "listen_config \<Rightarrow> udp_conn \<Rightarrow> udp_conn" where
  "udp_WriteTo cfg c = (if lc_keepalive cfg then c else udp_Close c)"

section \<open>The listener\<close>

record udp_listener =
  ul_conns :: "udp_conn list"
  ul_accept :: "nat list"
  ul_pool :: "(string \<times> nat) list"
  ul_closed :: bool
  ul_reading :: bool
  ul_error :: "go_error option"

text \<open>\<open>time.NewTicker\<close> panics unless its period is positive; the check is started with the pool.\<close>

definition NewListener :: "listen_config option \<Rightarrow> udp_listener option" where
  "NewListener cfg =
     (let ttl = (case cfg of None \<Rightarrow> 0 | Some c \<Rightarrow> lc_ttl c)
      in if ttl \<le> 0 then None
         else Some \<lparr>ul_conns = [], ul_accept = [], ul_pool = [], ul_closed = False,
                    ul_reading = False, ul_error = None\<rparr>)"

definition on_conn :: "nat \<Rightarrow> (udp_conn \<Rightarrow> udp_conn) \<Rightarrow> udp_listener \<Rightarrow> udp_listener" where
  "on_conn i f s = s\<lparr>ul_conns := (ul_conns s)[i := f (ul_conns s ! i)]\<rparr>"

text \<open>A connection that does not fit in the queue is closed and its datagram dropped.\<close>

definition getConn :: "listen_config \<Rightarrow> string \<Rightarrow> udp_listener \<Rightarrow> nat option \<times> udp_listener" where
  "getConn cfg raddr s =
     (let new = length (ul_conns s);
          fresh = (if length (ul_accept s) < lc_backlog cfg
                   then (Some new, s\<lparr>ul_conns := ul_conns s @ [newConn raddr], ul_accept := ul_accept s @ [new],
                                     ul_pool := AList.update raddr new (ul_pool s)\<rparr>)
                   else (None, s\<lparr>ul_conns := ul_conns s @ [udp_Close (newConn raddr)]\<rparr>))
      in case map_of (ul_pool s) raddr of
           Some i \<Rightarrow> if \<not> uc_closed (ul_conns s ! i) then (Some i, s) else fresh
         | None \<Rightarrow> fresh)"

text \<open>One turn of \<open>listenLoop\<close>: a datagram, or the error that ends the loop.\<close>

definition listen_datagram :: "listen_config \<Rightarrow> bool \<Rightarrow> string \<Rightarrow> bytes \<Rightarrow> udp_listener \<Rightarrow> udp_listener" where
  "listen_datagram cfg pick raddr b s =
     (case getConn cfg raddr s of
        (None, s') \<Rightarrow> s'
      | (Some i, s') \<Rightarrow> on_conn i (\<lambda>c. fst (WriteQueue cfg pick b c)) s')"

datatype accepted = Conn nat | AcceptError string

text \<open>\<open>Accept\<close>: any of its three cases that is ready; \<open>None\<close> when none is.\<close>

definition Accept_ready :: "udp_listener \<Rightarrow> (accepted \<times> udp_listener) list" where
  "Accept_ready s =
     (case ul_accept s of [] \<Rightarrow> [] | i # is \<Rightarrow> [(Conn i, s\<lparr>ul_accept := is\<rparr>)])
     @ (if ul_closed s then [(AcceptError ErrClosed, s)] else [])
     @ (case ul_error s of
          None \<Rightarrow> []
        | Some e \<Rightarrow> [(AcceptError (case e of None \<Rightarrow> ErrClosed | Some x \<Rightarrow> x), s\<lparr>ul_error := Some None\<rparr>)])"

text \<open>The pool is left as it is; every connection in it is closed.\<close>

definition listener_Close :: "udp_listener \<Rightarrow> udp_listener" where
  "listener_Close s =
     (if ul_closed s then s
      else s\<lparr>ul_closed := True,
             ul_conns := map (\<lambda>i. if i \<in> snd ` set (ul_pool s) then udp_Close (ul_conns s ! i) else ul_conns s ! i)
               [0..<length (ul_conns s)]\<rparr>)"

text \<open>The idle check: what has been idle since the last one goes.\<close>

definition idle_tick :: "udp_listener \<Rightarrow> udp_listener" where
  "idle_tick s =
     (let old = (\<lambda>i. i \<in> snd ` set (ul_pool s) \<and> uc_idle (ul_conns s ! i))
      in s\<lparr>ul_pool := filter (\<lambda>(a, i). \<not> old i) (ul_pool s),
           ul_conns := map (\<lambda>i. if old i then udp_Close (ul_conns s ! i)
                                else if i \<in> snd ` set (ul_pool s) then SetIdle True (ul_conns s ! i)
                                else ul_conns s ! i)
             [0..<length (ul_conns s)]\<rparr>)"

section \<open>Runs\<close>

datatype udp_event =
  Turn | Datagram string bytes bool | Broken string | AcceptOne nat | ReadConn nat nat bool | WriteConn nat | CloseConn nat
| Tick | CloseListener

text \<open>
  A turn of the loop sees whether the listener has been closed and then waits for a datagram, so one
  may still come when it is closed.

  What was read: the connection, the bytes handed out and the sender that was named.\<close>

type_synonym udp_reading = "(nat \<times> bytes \<times> string) list"

definition udp_step :: "listen_config \<Rightarrow> udp_event \<Rightarrow> udp_listener \<times> udp_reading \<Rightarrow> udp_listener \<times> udp_reading" where
  "udp_step cfg ev t =
     (case t of
        (s, out) \<Rightarrow>
          (case ev of
             Turn \<Rightarrow> (if ul_closed s \<or> ul_error s \<noteq> None then s else s\<lparr>ul_reading := True\<rparr>, out)
           | Datagram a b pick \<Rightarrow>
               (if ul_reading s then listen_datagram cfg pick a b (s\<lparr>ul_reading := False\<rparr>) else s, out)
           | Broken e \<Rightarrow>
               (if ul_reading s then s\<lparr>ul_reading := False, ul_error := Some (Some e)\<rparr> else s, out)
           | AcceptOne k \<Rightarrow>
               (if k < length (Accept_ready s) then snd (Accept_ready s ! k) else s, out)
           | ReadConn i sz pick \<Rightarrow>
               (if i < length (ul_conns s) then
                  (case udp_ReadFrom pick sz (ul_conns s ! i) of
                     None \<Rightarrow> (s, out)
                   | Some ((d, a, e), c) \<Rightarrow>
                       (on_conn i (\<lambda>_. c) s, if e = nil_error then out @ [(i, d, a)] else out))
                else (s, out))
           | WriteConn i \<Rightarrow> (if i < length (ul_conns s) then on_conn i (udp_WriteTo cfg) s else s, out)
           | CloseConn i \<Rightarrow> (if i < length (ul_conns s) then on_conn i udp_Close s else s, out)
           | Tick \<Rightarrow> (if ul_closed s then s else idle_tick s, out)
           | CloseListener \<Rightarrow> (listener_Close s, out)))"

definition udp_run :: "listen_config \<Rightarrow> udp_event list \<Rightarrow> udp_listener \<times> udp_reading \<Rightarrow> udp_listener \<times> udp_reading" where
  "udp_run cfg evs t = fold (udp_step cfg) evs t"

section \<open>One connection for a peer\<close>

definition pool_map :: "udp_listener \<Rightarrow> string \<Rightarrow> nat option" where
  "pool_map s a = map_of (ul_pool s) a"

text \<open>The pool holds connections under their own address, and every open connection is in it.\<close>

definition pool_right :: "udp_listener \<Rightarrow> bool" where
  "pool_right s \<longleftrightarrow>
     distinct (map fst (ul_pool s)) \<and>
     (\<forall>a i. pool_map s a = Some i \<longrightarrow> i < length (ul_conns s) \<and> uc_remote (ul_conns s ! i) = a) \<and>
     (\<forall>i<length (ul_conns s). \<not> uc_closed (ul_conns s ! i) \<longrightarrow> pool_map s (uc_remote (ul_conns s ! i)) = Some i)"

lemma conn_fields [simp]:
  "uc_remote (udp_Close c) = uc_remote c" "uc_closed (udp_Close c)" "uc_queue (udp_Close c) = uc_queue c"
  "uc_remote (SetIdle v c) = uc_remote c" "uc_closed (SetIdle v c) = uc_closed c" "uc_queue (SetIdle v c) = uc_queue c"
  "uc_remote (newConn a) = a" "uc_queue (newConn a) = []" "\<not> uc_closed (newConn a)"
  by (simp_all add: udp_Close_def SetIdle_def newConn_def)

lemma WriteQueue_fields [simp]:
  "uc_remote (fst (WriteQueue cfg p b c)) = uc_remote c" "uc_closed (fst (WriteQueue cfg p b c)) = uc_closed c"
  by (simp_all add: WriteQueue_def Let_def)

lemma WriteTo_fields [simp]:
  "uc_remote (udp_WriteTo cfg c) = uc_remote c" "uc_queue (udp_WriteTo cfg c) = uc_queue c"
  "uc_closed c \<Longrightarrow> uc_closed (udp_WriteTo cfg c)"
  by (simp_all add: udp_WriteTo_def)

lemma pool_map_on_conn [simp]: "pool_map (on_conn i f s) = pool_map s" "ul_pool (on_conn i f s) = ul_pool s"
  by (simp_all add: pool_map_def on_conn_def fun_eq_iff)

text \<open>Changing one connection, but not its address, and not opening it again.\<close>

lemma pool_right_on_conn:
  assumes "pool_right s" "uc_remote (f (ul_conns s ! i)) = uc_remote (ul_conns s ! i)"
    and "uc_closed (ul_conns s ! i) \<Longrightarrow> uc_closed (f (ul_conns s ! i))"
  shows "pool_right (on_conn i f s)"
proof (cases "i < length (ul_conns s)")
  case True
  have c: "ul_conns (on_conn i f s) = (ul_conns s)[i := f (ul_conns s ! i)]" by (simp add: on_conn_def)
  show ?thesis using assms True unfolding pool_right_def c by (auto simp: nth_list_update)
next
  case False
  then have "on_conn i f s = s" by (simp add: on_conn_def list_update_beyond)
  then show ?thesis using assms(1) by simp
qed

lemma pool_right_simps [simp]:
  "pool_right (s\<lparr>ul_reading := v\<rparr>) = pool_right s" "pool_right (s\<lparr>ul_error := e\<rparr>) = pool_right s"
  by (simp_all add: pool_right_def pool_map_def)

lemma pool_right_same:
  "pool_right s \<Longrightarrow> ul_conns s' = ul_conns s \<Longrightarrow> ul_pool s' = ul_pool s \<Longrightarrow> pool_right s'"
  by (simp add: pool_right_def pool_map_def)

lemma getConn_cases:
  obtains (known) i where "pool_map s a = Some i" "\<not> uc_closed (ul_conns s ! i)" "getConn cfg a s = (Some i, s)"
  | (opened) s' where "pool_map s a = None \<or> (\<exists>i. pool_map s a = Some i \<and> uc_closed (ul_conns s ! i))"
      "getConn cfg a s = (Some (length (ul_conns s)), s')" "ul_conns s' = ul_conns s @ [newConn a]"
      "pool_map s' = (pool_map s)(a \<mapsto> length (ul_conns s))" "distinct (map fst (ul_pool s)) \<Longrightarrow> distinct (map fst (ul_pool s'))"
  | (full) s' where "getConn cfg a s = (None, s')" "ul_conns s' = ul_conns s @ [udp_Close (newConn a)]"
      "pool_map s' = pool_map s" "ul_pool s' = ul_pool s"
  by (cases "pool_map s a"; cases "length (ul_accept s) < lc_backlog cfg";
      cases "uc_closed (ul_conns s ! the (pool_map s a))") (auto simp: getConn_def Let_def pool_map_def fun_eq_iff update_conv' distinct_update)

lemma pool_right_getConn:
  assumes "pool_right s" "getConn cfg a s = (r, s')"
  shows "pool_right s' \<and> (\<forall>i. r = Some i \<longrightarrow> i < length (ul_conns s') \<and> uc_remote (ul_conns s' ! i) = a)"
proof (cases rule: getConn_cases [of s a cfg])
  case (known i)
  then show ?thesis using assms by (auto simp: pool_right_def)
next
  case (opened s1)
  let ?n = "length (ul_conns s)"
  have e: "s' = s1" "r = Some ?n" using opened assms(2) by auto
  have other: "uc_remote (ul_conns s ! i) \<noteq> a" if "i < ?n" "\<not> uc_closed (ul_conns s ! i)" for i
    using that opened(1) assms(1) by (auto simp: pool_right_def)
  have "pool_right s'"
    using assms(1) other unfolding pool_right_def e(1) opened(3,4)
    by (auto simp: opened(5) nth_append less_Suc_eq split: if_splits)
  then show ?thesis using e opened(3) by simp
next
  case (full s1)
  have e: "s' = s1" "r = None" using full assms(2) by auto
  have "pool_right s'"
    using assms(1) unfolding pool_right_def e(1) full(2-4) by (auto simp: nth_append less_Suc_eq)
  then show ?thesis using e by simp
qed

lemma pool_right_datagram: "pool_right s \<Longrightarrow> pool_right (listen_datagram cfg p a b s)"
  using pool_right_getConn [of s cfg a]
  by (auto simp: listen_datagram_def intro!: pool_right_on_conn split: prod.split option.split)

lemma pooled: "pool_right s \<Longrightarrow> i \<in> snd ` set (ul_pool s) \<longleftrightarrow> (\<exists>a. pool_map s a = Some i)"
  by (force simp: pool_right_def pool_map_def image_iff)

lemma map_of_filter_value:
  "distinct (map fst al) \<Longrightarrow> map_of (filter (\<lambda>(a, i). P i) al) a = Option.bind (map_of al a) (\<lambda>i. if P i then Some i else None)"
  by (induction al) (auto simp: map_of_eq_None_iff split: if_splits)

lemma pool_right_Close: assumes "pool_right s" shows "pool_right (listener_Close s)"
proof (cases "ul_closed s")
  case False
  then have e: "ul_pool (listener_Close s) = ul_pool s" "pool_map (listener_Close s) = pool_map s"
    "ul_conns (listener_Close s) = map (\<lambda>i. if i \<in> snd ` set (ul_pool s) then udp_Close (ul_conns s ! i) else ul_conns s ! i)
       [0..<length (ul_conns s)]"
    by (simp_all add: listener_Close_def pool_map_def fun_eq_iff)
  show ?thesis using assms pooled [OF assms] unfolding pool_right_def e by auto
qed (use assms in \<open>simp add: listener_Close_def\<close>)

lemma pool_right_tick: assumes "pool_right s" shows "pool_right (idle_tick s)"
proof -
  define old where "old i \<longleftrightarrow> i \<in> snd ` set (ul_pool s) \<and> uc_idle (ul_conns s ! i)" for i
  have d: "distinct (map fst (filter (\<lambda>(a, i). \<not> old i) (ul_pool s)))"
    using assms by (auto simp: pool_right_def intro: distinct_map_filter)
  have e: "ul_pool (idle_tick s) = filter (\<lambda>(a, i). \<not> old i) (ul_pool s)"
    "ul_conns (idle_tick s) = map (\<lambda>i. if old i then udp_Close (ul_conns s ! i)
       else if i \<in> snd ` set (ul_pool s) then SetIdle True (ul_conns s ! i) else ul_conns s ! i) [0..<length (ul_conns s)]"
    by (simp_all add: idle_tick_def Let_def old_def)
  have m: "pool_map (idle_tick s) a = Option.bind (pool_map s a) (\<lambda>i. if \<not> old i then Some i else None)" for a
    using assms unfolding pool_map_def e(1) by (intro map_of_filter_value) (simp add: pool_right_def)
  show ?thesis
    using assms d pooled [OF assms] unfolding pool_right_def e m
    by (auto simp: Option.bind_eq_Some_conv split: if_splits)
qed

lemma Accept_ready_same: "k < length (Accept_ready s) \<Longrightarrow>
    ul_conns (snd (Accept_ready s ! k)) = ul_conns s \<and> ul_pool (snd (Accept_ready s ! k)) = ul_pool s"
proof -
  have "\<forall>r\<in>set (Accept_ready s). ul_conns (snd r) = ul_conns s \<and> ul_pool (snd r) = ul_pool s"
    by (auto simp: Accept_ready_def split: list.split option.split)
  then show "k < length (Accept_ready s) \<Longrightarrow> ?thesis" by simp
qed

lemma ReadFrom_fields:
  "udp_ReadFrom p sz c = Some (r, c') \<Longrightarrow> uc_remote c' = uc_remote c \<and> uc_closed c' = uc_closed c"
  by (auto simp: udp_ReadFrom_def split: list.splits if_splits)

lemma pool_right_step: "pool_right s \<Longrightarrow> pool_right (fst (udp_step cfg ev (s, out)))"
proof (cases ev)
  case (ReadConn i sz p)
  then show "pool_right s \<Longrightarrow> ?thesis"
    using ReadFrom_fields [of p sz "ul_conns s ! i"]
    by (auto simp: udp_step_def intro!: pool_right_on_conn split: option.split)
qed (auto simp: udp_step_def Accept_ready_same intro: pool_right_on_conn pool_right_datagram pool_right_tick
      pool_right_Close pool_right_same)

lemma pool_right_run: "pool_right s \<Longrightarrow> pool_right (fst (udp_run cfg evs (s, out)))"
proof (induction evs arbitrary: s out)
  case (Cons ev evs)
  obtain s1 out1 where e: "udp_step cfg ev (s, out) = (s1, out1)" by (metis prod.collapse)
  then have "pool_right s1" using pool_right_step [OF Cons.prems, of cfg ev out] by simp
  then show ?case using Cons.IH e by (simp add: udp_run_def)
qed (simp add: udp_run_def)

lemma NewListener_right: "NewListener cfg = Some s \<Longrightarrow> pool_right s \<and> ul_conns s = []"
  by (auto simp: NewListener_def pool_right_def pool_map_def Let_def split: if_splits)

text \<open>
  A peer has one connection: whatever comes in and whatever is done with the connections, at most
  one open connection has a given remote address, and it is the one the pool holds for it, so
  the next datagram of the peer goes there.
\<close>

theorem one_connection_per_peer:
  assumes "NewListener cfg = Some s0" "udp_run (the cfg) evs (s0, []) = (s, out)"
    and "i < length (ul_conns s)" "\<not> uc_closed (ul_conns s ! i)"
  shows "pool_map s (uc_remote (ul_conns s ! i)) = Some i \<and>
    \<not> (\<exists>j<length (ul_conns s). j \<noteq> i \<and> \<not> uc_closed (ul_conns s ! j) \<and>
         uc_remote (ul_conns s ! j) = uc_remote (ul_conns s ! i)) \<and>
    getConn (the cfg) (uc_remote (ul_conns s ! i)) s = (Some i, s)"
proof -
  have r: "pool_right s"
    using pool_right_run [of s0 "the cfg" evs "[]"] NewListener_right [OF assms(1)] assms(2) by simp
  then have p: "pool_map s (uc_remote (ul_conns s ! j)) = Some j" if "j < length (ul_conns s)" "\<not> uc_closed (ul_conns s ! j)" for j
    using that by (simp add: pool_right_def)
  have "False" if "j < length (ul_conns s)" "j \<noteq> i" "\<not> uc_closed (ul_conns s ! j)"
      "uc_remote (ul_conns s ! j) = uc_remote (ul_conns s ! i)" for j
    using p [OF that(1,3)] p [OF assms(3,4)] that(2,4) by simp
  then show ?thesis using p [OF assms(3,4)] assms(4) by (auto simp: getConn_def pool_map_def)
qed

definition dns_config :: listen_config where
  "dns_config = \<lparr>lc_backlog = 2, lc_queue_size = 2, lc_ttl = 5, lc_keepalive = True\<rparr>"

definition no_conns :: udp_listener where
  "no_conns = \<lparr>ul_conns = [], ul_accept = [], ul_pool = [], ul_closed = False, ul_reading = False, ul_error = None\<rparr>"

lemma dns_listener: "NewListener (Some dns_config) = Some no_conns"
  by (simp add: NewListener_def dns_config_def no_conns_def)

definition two_peers :: "udp_event list" where
  "two_peers =
     [Turn, Datagram ''p:1'' [1] True, Turn, Datagram ''q:1'' [2] True, CloseConn 0, Turn, Datagram ''p:1'' [3] True,
      ReadConn 1 9 True]"

lemma one_connection_per_peer_witness:
  "pool_map (fst (udp_run dns_config two_peers (no_conns, []))) ''q:1'' = Some 1"
proof -
  let ?s = "fst (udp_run dns_config two_peers (no_conns, []))"
  have "1 < length (ul_conns ?s) \<and> \<not> uc_closed (ul_conns ?s ! 1) \<and> uc_remote (ul_conns ?s ! 1) = ''q:1''"
    by code_simp
  then show ?thesis
    using one_connection_per_peer [OF dns_listener, of two_peers ?s "snd (udp_run dns_config two_peers (no_conns, []))" 1]
    by simp
qed

section \<open>Datagrams keep their order\<close>

text \<open>The datagrams a peer has sent, and what has been read from a connection.\<close>

fun arrived :: "string \<Rightarrow> udp_event list \<Rightarrow> bytes list" where
  "arrived a [] = []"
| "arrived a (Datagram b d p # evs) = (if a = b then d # arrived a evs else arrived a evs)"
| "arrived a (_ # evs) = arrived a evs"

definition reads_of :: "nat \<Rightarrow> udp_reading \<Rightarrow> (bytes \<times> string) list" where
  "reads_of i out = map snd (filter (\<lambda>r. fst r = i) out)"

lemma arrived_append: "arrived a (evs @ evs') = arrived a evs @ arrived a evs'"
proof (induction evs)
  case (Cons ev evs)
  then show ?case by (cases ev) auto
qed simp

text \<open>
  What was read of a connection, and what waits in its queue, is a part of what its peer has sent, in
  order; what was read may be cut short.
\<close>

definition conn_right :: "udp_event list \<Rightarrow> (bytes \<times> string) list \<Rightarrow> udp_conn \<Rightarrow> bool" where
  "conn_right evs rs c \<longleftrightarrow>
     (\<exists>ds. subseq (ds @ uc_queue c) (arrived (uc_remote c) evs) \<and>
       list_all2 (\<lambda>r d. prefix (fst r) d \<and> snd r = uc_remote c) rs ds)"

definition data_right :: "udp_event list \<Rightarrow> udp_listener \<times> udp_reading \<Rightarrow> bool" where
  "data_right evs t \<longleftrightarrow>
     (\<forall>i<length (ul_conns (fst t)). conn_right evs (reads_of i (snd t)) (ul_conns (fst t) ! i)) \<and>
     (\<forall>r\<in>set (snd t). fst r < length (ul_conns (fst t)))"

lemma conn_right_more: "conn_right evs rs c \<Longrightarrow> conn_right (evs @ evs') rs c"
  unfolding conn_right_def arrived_append by (blast intro: list_emb_prefix)

lemma conn_right_same:
  "conn_right evs rs c \<Longrightarrow> uc_remote c' = uc_remote c \<Longrightarrow> uc_queue c' = uc_queue c \<Longrightarrow> conn_right evs rs c'"
  by (simp add: conn_right_def)

lemma conn_right_new: "uc_queue c = [] \<Longrightarrow> conn_right evs [] c"
  by (simp add: conn_right_def)

lemma conn_right_queue:
  assumes "conn_right evs rs c" "uc_remote c = a"
  shows "conn_right (evs @ [Datagram a b p]) rs (fst (WriteQueue cfg q b c))"
proof (cases "uc_queue (fst (WriteQueue cfg q b c)) = uc_queue c @ [b]")
  case True
  obtain ds where d: "subseq (ds @ uc_queue c) (arrived a evs)"
    "list_all2 (\<lambda>r d. prefix (fst r) d \<and> snd r = a) rs ds"
    using assms by (auto simp: conn_right_def)
  have "subseq ((ds @ uc_queue c) @ [b]) (arrived a evs @ [b])" using d(1) by (rule list_emb_append_mono) simp
  then show ?thesis using True assms(2) d(2) by (auto simp: conn_right_def arrived_append)
next
  case False
  then have "uc_queue (fst (WriteQueue cfg q b c)) = uc_queue c"
    by (auto simp: WriteQueue_def Let_def split: if_splits)
  then show ?thesis using conn_right_same [OF conn_right_more [OF assms(1)]] by simp
qed

lemma conn_right_read:
  assumes "conn_right evs rs c" "udp_ReadFrom p sz c = Some ((d, a, e), c')"
  shows "conn_right evs (if e = nil_error then rs @ [(d, a)] else rs) c'"
proof (cases "e = nil_error")
  case True
  then obtain b bs where q: "uc_queue c = b # bs" "d = take sz b" "a = uc_remote c"
    "c' = SetIdle False (c\<lparr>uc_queue := bs\<rparr>)"
    using assms(2) by (auto simp: udp_ReadFrom_def split: list.splits if_splits)
  obtain ds where "subseq (ds @ b # bs) (arrived (uc_remote c) evs)"
    "list_all2 (\<lambda>r d. prefix (fst r) d \<and> snd r = uc_remote c) rs ds"
    using assms(1) q(1) by (auto simp: conn_right_def)
  then show ?thesis
    using True q by (auto simp: conn_right_def take_is_prefix intro!: exI [of _ "ds @ [b]"] list_all2_appendI)
next
  case False
  then have "c' = c" using assms(2) by (auto simp: udp_ReadFrom_def split: list.splits if_splits)
  then show ?thesis using False assms(1) by auto
qed

text \<open>Steps that leave addresses and queues alone.\<close>

definition same_data :: "udp_listener \<Rightarrow> udp_listener \<Rightarrow> bool" where
  "same_data s s' \<longleftrightarrow>
     map (\<lambda>c. (uc_remote c, uc_queue c)) (ul_conns s') = map (\<lambda>c. (uc_remote c, uc_queue c)) (ul_conns s)"

lemma data_right_same:
  assumes "data_right evs (s, out)" "same_data s s'"
  shows "data_right (evs @ evs') (s', out)"
proof -
  have l: "length (ul_conns s') = length (ul_conns s)"
    using arg_cong [OF assms(2) [unfolded same_data_def], of length] by simp
  have f: "uc_remote (ul_conns s' ! i) = uc_remote (ul_conns s ! i) \<and> uc_queue (ul_conns s' ! i) = uc_queue (ul_conns s ! i)"
    if "i < length (ul_conns s)" for i
    using arg_cong [OF assms(2) [unfolded same_data_def], of "\<lambda>xs. xs ! i"] that l by simp
  show ?thesis
    using assms(1) l f unfolding data_right_def by (auto intro: conn_right_same [OF conn_right_more])
qed

lemma same_data_on_conn:
  "uc_remote (f (ul_conns s ! i)) = uc_remote (ul_conns s ! i) \<Longrightarrow>
   uc_queue (f (ul_conns s ! i)) = uc_queue (ul_conns s ! i) \<Longrightarrow> same_data s (on_conn i f s)"
  by (cases "i < length (ul_conns s)")
    (auto simp: same_data_def on_conn_def nth_list_update list_update_beyond intro!: nth_equalityI)

lemma same_data_conns: "ul_conns s' = ul_conns s \<Longrightarrow> same_data s s'"
  by (simp add: same_data_def)

lemma same_data_tick: "same_data s (idle_tick s)"
  by (auto simp: same_data_def idle_tick_def Let_def intro!: nth_equalityI)

lemma same_data_Close: "same_data s (listener_Close s)"
  by (auto simp: same_data_def listener_Close_def intro!: nth_equalityI)

lemma reads_of_new: "\<forall>r\<in>set out. fst r < n \<Longrightarrow> reads_of n out = []"
  by (auto simp: reads_of_def filter_empty_conv)

text \<open>A datagram reaches the queue of a connection of its sender, a new one or one that was there.\<close>

lemma data_right_append:
  assumes "data_right evs (s, out)" "ul_conns s' = ul_conns s @ [c]" "uc_queue c = []"
  shows "data_right evs (s', out)"
  using assms reads_of_new [of out "length (ul_conns s)"]
  by (auto simp: data_right_def nth_append less_Suc_eq conn_right_new)

lemma data_right_datagram:
  assumes "pool_right s" "data_right evs (s, out)"
  shows "data_right (evs @ [Datagram a b p]) (listen_datagram cfg p a b s, out)"
proof -
  obtain r s1 where g: "getConn cfg a s = (r, s1)" by (metis prod.collapse)
  have d: "data_right evs (s1, out)"
    by (cases rule: getConn_cases [of s a cfg])
      (use g assms(2) in \<open>auto intro: data_right_append\<close>)
  show ?thesis
  proof (cases r)
    case None
    then show ?thesis using g d data_right_same [OF d same_data_conns] by (simp add: listen_datagram_def)
  next
    case (Some i)
    have i: "i < length (ul_conns s1)" "uc_remote (ul_conns s1 ! i) = a"
      using pool_right_getConn [OF assms(1) g] Some by auto
    have l: "listen_datagram cfg p a b s = on_conn i (\<lambda>c. fst (WriteQueue cfg p b c)) s1"
      using g Some by (simp add: listen_datagram_def)
    show ?thesis
      using d i unfolding l data_right_def
      by (auto simp: on_conn_def nth_list_update conn_right_queue conn_right_more)
  qed
qed

lemma reads_of_append: "reads_of i (out @ [(j, d, a)]) = reads_of i out @ (if i = j then [(d, a)] else [])"
  by (simp add: reads_of_def)

lemma data_right_read:
  assumes "data_right evs (s, out)" "i < length (ul_conns s)" "udp_ReadFrom p sz (ul_conns s ! i) = Some ((d, a, e), c)"
  shows "data_right (evs @ [ReadConn i sz p]) (on_conn i (\<lambda>_. c) s, if e = nil_error then out @ [(i, d, a)] else out)"
  using assms conn_right_read [OF _ assms(3), of "evs @ [ReadConn i sz p]" "reads_of i out"]
  by (auto simp: data_right_def on_conn_def nth_list_update reads_of_append conn_right_more split: if_splits)

lemma data_right_step:
  assumes "pool_right s" "data_right evs (s, out)"
  shows "data_right (evs @ [ev]) (udp_step cfg ev (s, out))"
proof (cases ev)
  case (Datagram a b p)
  have r: "pool_right (s\<lparr>ul_reading := False\<rparr>)" "data_right evs (s\<lparr>ul_reading := False\<rparr>, out)"
    using assms by (simp_all add: data_right_def)
  then show ?thesis
    using Datagram data_right_datagram [OF r] data_right_same [OF assms(2) same_data_conns, of s]
    by (simp add: udp_step_def)
next
  case (ReadConn i sz p)
  then show ?thesis
    using data_right_read [OF assms(2)] data_right_same [OF assms(2) same_data_conns, of s]
    by (auto simp: udp_step_def split: option.split)
next
  case (WriteConn i)
  then show ?thesis
    using data_right_same [OF assms(2) same_data_conns, of s] data_right_same [OF assms(2) same_data_on_conn]
    by (simp add: udp_step_def)
next
  case (CloseConn i)
  then show ?thesis
    using data_right_same [OF assms(2) same_data_conns, of s] data_right_same [OF assms(2) same_data_on_conn]
    by (simp add: udp_step_def)
qed (auto simp: udp_step_def Accept_ready_same
      intro!: data_right_same [OF assms(2)] intro: same_data_conns same_data_tick same_data_Close)

lemma data_right_run:
  "pool_right s \<Longrightarrow> data_right evs0 (s, out) \<Longrightarrow> data_right (evs0 @ evs) (udp_run cfg evs (s, out))"
proof (induction evs arbitrary: evs0 s out)
  case (Cons ev evs)
  obtain s1 out1 where e: "udp_step cfg ev (s, out) = (s1, out1)" by (metis prod.collapse)
  have "pool_right s1" using pool_right_step [OF Cons.prems(1), of cfg ev out] e by simp
  moreover have "data_right (evs0 @ [ev]) (s1, out1)" using data_right_step [OF Cons.prems, of ev cfg] e by simp
  ultimately have "data_right ((evs0 @ [ev]) @ evs) (udp_run cfg evs (s1, out1))" by (rule Cons.IH)
  then show ?case using e by (simp add: udp_run_def)
qed (simp add: udp_run_def)

text \<open>
  Datagrams are sorted by sender and keep their order: what is read from a connection, cut to the
  readers' slices, was sent by its peer, which is the sender that is named, in the order of
  sending and each datagram at most once; some may have been dropped on the way.
\<close>

theorem datagrams_sorted_by_peer:
  assumes "NewListener cfg = Some s0" "udp_run (the cfg) evs (s0, []) = (s, out)" "i < length (ul_conns s)"
  shows "\<exists>ds. subseq ds (arrived (uc_remote (ul_conns s ! i)) evs) \<and>
    list_all2 (\<lambda>r d. prefix (fst r) d \<and> snd r = uc_remote (ul_conns s ! i)) (reads_of i out) ds"
proof -
  have n: "pool_right s0" "ul_conns s0 = []" using NewListener_right [OF assms(1)] by auto
  have "data_right [] (s0, [])" by (simp add: data_right_def n(2))
  from data_right_run [OF n(1) this, of evs "the cfg"]
  have "conn_right evs (reads_of i out) (ul_conns s ! i)" using assms(2,3) by (simp add: data_right_def)
  then obtain ds where "subseq (ds @ uc_queue (ul_conns s ! i)) (arrived (uc_remote (ul_conns s ! i)) evs)"
    "list_all2 (\<lambda>r d. prefix (fst r) d \<and> snd r = uc_remote (ul_conns s ! i)) (reads_of i out) ds"
    by (auto simp: conn_right_def)
  moreover have "subseq ds (ds @ uc_queue (ul_conns s ! i))" for ds by (intro list_emb_prefix) simp
  ultimately show ?thesis by (meson subseq_order.order_trans)
qed

lemma datagrams_sorted_by_peer_witness:
  "\<exists>ds. subseq ds (arrived ''q:1'' two_peers) \<and> list_all2 (\<lambda>r d. prefix (fst r) d \<and> snd r = ''q:1'') [([2], ''q:1'')] ds"
proof -
  let ?t = "udp_run dns_config two_peers (no_conns, [])"
  have e: "1 < length (ul_conns (fst ?t)) \<and> uc_remote (ul_conns (fst ?t) ! 1) = ''q:1'' \<and> reads_of 1 (snd ?t) = [([2], ''q:1'')]"
    by code_simp
  show ?thesis using datagrams_sorted_by_peer [OF dns_listener, of two_peers "fst ?t" "snd ?t" 1] e by simp
qed

section \<open>Limits of the pool\<close>

text \<open>Without a configuration there is no listener: the period of the idle check is zero.\<close>

lemma nil_config_panics: "NewListener None = None"
  by (simp add: NewListener_def)

text \<open>Only reading counts as use: a connection that sends all the time is closed by the second check.\<close>

lemma sending_is_idle:
  "(let s = fst (udp_run dns_config [Turn, Datagram ''p:1'' [1] True, ReadConn 0 9 True] (no_conns, []))
    in \<not> uc_closed (ul_conns s ! 0) \<and>
       uc_closed (ul_conns (fst (udp_run dns_config [Tick, WriteConn 0, WriteConn 0, Tick] (s, []))) ! 0))"
  by code_simp

text \<open>A connection that is still idle at the next check is closed by it.\<close>

lemma idle_connection_is_closed:
  assumes "pool_right s" "i < length (ul_conns s)" "uc_idle (ul_conns s ! i)"
  shows "uc_closed (ul_conns (idle_tick s) ! i)"
proof (cases "uc_closed (ul_conns s ! i)")
  case True
  then show ?thesis using assms(2) by (auto simp: idle_tick_def Let_def)
next
  case False
  then have "pool_map s (uc_remote (ul_conns s ! i)) = Some i" using assms(1,2) by (simp add: pool_right_def)
  then have "i \<in> snd ` set (ul_pool s)" using pooled [OF assms(1)] by blast
  then show ?thesis using assms(2,3) by (simp add: idle_tick_def Let_def)
qed

end
