(* ===== verification/Resolver.thy ===== *)
theory Resolver
  imports Metadata GoNet "HOL-Library.Word"
begin

text \<open>
  Name resolution: the cache of DNS messages, \<open>x/internal/util/resolver/cache.go\<close>, and the resolver
  over several name servers, \<open>x/resolver/resolver.go\<close>. Of a message of the \<open>dns\<close> package the model
  keeps what the code looks at: id, questions and answers. How the package writes classes and types
  and completes names is a parameter; so is what a name server answers, which goes with the server.
  Times are nanoseconds on a clock that does not go back.
\<close>

section \<open>Messages\<close>

datatype rdata = RA int | RAAAA int | ROther string

datatype dns_ip = IPv4 int | IPv6 int

record dns_answer =
  an_data :: rdata
  an_ttl :: "32 word"

record dns_question =
  dq_name :: string
  dq_class :: nat
  dq_type :: nat

record dns_msg =
  dm_id :: "16 word"
  dm_question :: "dns_question list"
  dm_answer :: "dns_answer list"

record dns_lib =
  dl_class :: "nat \<Rightarrow> string"
  dl_type :: "nat \<Rightarrow> string"
  dl_fqdn :: "string \<Rightarrow> string"

definition ClassINET :: nat where "ClassINET = 1"
definition TypeA :: nat where "TypeA = 1"
definition TypeAAAA :: nat where "TypeAAAA = 28"

fun ips_of :: "dns_answer list \<Rightarrow> dns_ip list" where
  "ips_of [] = []"
| "ips_of (a # as) =
     (case an_data a of RAAAA v \<Rightarrow> [IPv6 v] | RA v \<Rightarrow> [IPv4 v] | ROther _ \<Rightarrow> []) @ ips_of as"

section \<open>The cache\<close>

record cache_item =
  ci_msg :: dns_msg
  ci_ts :: int
  ci_ttl :: int

type_synonym dns_cache = "string \<rightharpoonup> cache_item"

definition cache_defaultTTL :: int where "cache_defaultTTL = 60 * second"

definition NewCacheKey :: "dns_lib \<Rightarrow> dns_question \<Rightarrow> string" where
  "NewCacheKey D q = dq_name q @ dl_class D (dq_class q) @ ''.'' @ dl_type D (dq_type q)"

text \<open>Whole seconds of a duration as a \<open>uint32\<close>.\<close>

definition seconds32 :: "int \<Rightarrow> 32 word" where
  "seconds32 d = word_of_int (d div second)"

definition age_answer :: "int \<Rightarrow> dns_answer \<Rightarrow> dns_answer" where
  "age_answer d a =
     a\<lparr>an_ttl := (if an_ttl a > seconds32 d then an_ttl a - seconds32 d else 1)\<rparr>"

text \<open>\<open>Load\<close>: the message with the time to live each answer has left, and the item's own.\<close>

definition cache_Load :: "int \<Rightarrow> string \<Rightarrow> dns_cache \<Rightarrow> dns_msg option \<times> int" where
  "cache_Load now key c =
     (case c key of
        None \<Rightarrow> (None, 0)
      | Some i \<Rightarrow>
          (Some ((ci_msg i)\<lparr>dm_answer := map (age_answer (now - ci_ts i)) (dm_answer (ci_msg i))\<rparr>),
           ci_ttl i - (now - ci_ts i)))"

fun least_ttl :: "int \<Rightarrow> dns_answer list \<Rightarrow> int" where
  "least_ttl t [] = t"
| "least_ttl t (a # as) =
     (let v = uint (an_ttl a) * second in least_ttl (if t = 0 \<or> t > v then v else t) as)"

definition set_ttl :: "32 word \<Rightarrow> dns_answer \<Rightarrow> dns_answer" where
  "set_ttl n a = a\<lparr>an_ttl := n\<rparr>"

text \<open>\<open>Store\<close> also changes the message it is given, which its caller goes on to use.\<close>

definition cache_Store :: "int \<Rightarrow> string \<Rightarrow> dns_msg option \<Rightarrow> int \<Rightarrow> dns_cache \<Rightarrow> dns_cache \<times> dns_msg option" where
  "cache_Store now key mr ttl c =
     (case mr of
        None \<Rightarrow> (c, None)
      | Some m \<Rightarrow>
          if key = [] \<or> ttl < 0 then (c, Some m)
          else if ttl = 0 then
            (let t = least_ttl 0 (dm_answer m); t' = (if t = 0 then cache_defaultTTL else t)
             in (c(key \<mapsto> \<lparr>ci_msg = m, ci_ts = now, ci_ttl = t'\<rparr>), Some m))
          else
            (let m' = m\<lparr>dm_answer := map (set_ttl (seconds32 ttl)) (dm_answer m)\<rparr>
             in (c(key \<mapsto> \<lparr>ci_msg = m', ci_ts = now, ci_ttl = ttl\<rparr>), Some m')))"

definition cache_RefreshTTL :: "int \<Rightarrow> string \<Rightarrow> dns_cache \<Rightarrow> dns_cache" where
  "cache_RefreshTTL now key c =
     (case c key of None \<Rightarrow> c | Some i \<Rightarrow> c(key \<mapsto> i\<lparr>ci_ts := now\<rparr>))"

section \<open>Name servers\<close>

record name_server =
  ns_addr :: string
  ns_ttl :: int
  ns_prefer :: string
  ns_only :: string
  ns_async :: bool
  ns_exchange :: "dns_question \<Rightarrow> string + dns_msg"

definition set_only :: "name_server \<Rightarrow> name_server" where
  "set_only s =
     (if ns_only s \<in> {''ip4'', ''ipv4'', ''ip6'', ''ipv6''} then s\<lparr>ns_prefer := ns_only s\<rparr>
      else s\<lparr>ns_only := []\<rparr>)"

text \<open>Servers without an address or an exchanger are left out.\<close>

definition NewResolver :: "(string \<Rightarrow> bool) \<Rightarrow> name_server list \<Rightarrow> name_server list" where
  "NewResolver can_exchange servers =
     map (\<lambda>s. let s' = set_only s in if ns_ttl s' < 0 then s'\<lparr>ns_async := False\<rparr> else s')
       (filter (\<lambda>s. TrimSpace (ns_addr s) \<noteq> [] \<and> can_exchange (TrimSpace (ns_addr s))) servers)"

definition question :: "dns_lib \<Rightarrow> nat \<Rightarrow> string \<Rightarrow> dns_question" where
  "question D t host = \<lparr>dq_name = dl_fqdn D host, dq_class = ClassINET, dq_type = t\<rparr>"

type_synonym resolution = "(dns_ip list \<times> go_error) \<times> dns_cache"

definition resolveIPs :: "dns_lib \<Rightarrow> int \<Rightarrow> name_server \<Rightarrow> dns_question \<Rightarrow> dns_cache \<Rightarrow> resolution" where
  "resolveIPs D now s q c =
     (case cache_Load now (NewCacheKey D q) c of
        (mr, ttl) \<Rightarrow>
          if ttl \<le> 0 then
            (case ns_exchange s q of
               Inl e \<Rightarrow> (([], Some e), c)
             | Inr m \<Rightarrow>
                 (case cache_Store now (NewCacheKey D q) (Some m) (ns_ttl s) c of
                    (c', m') \<Rightarrow> ((ips_of (dm_answer (the m')), nil_error), c')))
          else ((ips_of (dm_answer (the mr)), nil_error), c))"

definition resolve4 :: "dns_lib \<Rightarrow> int \<Rightarrow> name_server \<Rightarrow> string \<Rightarrow> dns_cache \<Rightarrow> resolution" where
  "resolve4 D now s host = resolveIPs D now s (question D TypeA host)"

definition resolve6 :: "dns_lib \<Rightarrow> int \<Rightarrow> name_server \<Rightarrow> string \<Rightarrow> dns_cache \<Rightarrow> resolution" where
  "resolve6 D now s host = resolveIPs D now s (question D TypeAAAA host)"

definition resolve :: "dns_lib \<Rightarrow> int \<Rightarrow> name_server \<Rightarrow> string \<Rightarrow> dns_cache \<Rightarrow> resolution" where
  "resolve D now s host c =
     (if ns_prefer s = ''ipv6'' then
        (case resolve6 D now s host c of
           ((ips, e), c1) \<Rightarrow>
             if ips \<noteq> [] \<or> ns_only s = ''ipv6'' then ((ips, e), c1) else resolve4 D now s host c1)
      else
        (case resolve4 D now s host c of
           ((ips, e), c1) \<Rightarrow>
             if ips \<noteq> [] \<or> ns_only s = ''ipv4'' then ((ips, e), c1) else resolve6 D now s host c1))"

text \<open>What the cache has for a host: the addresses, the time left, and whether it has anything.\<close>

definition lookup_type :: "dns_lib \<Rightarrow> int \<Rightarrow> nat \<Rightarrow> string \<Rightarrow> dns_cache \<Rightarrow> dns_ip list \<times> int \<times> bool" where
  "lookup_type D now t host c =
     (case cache_Load now (NewCacheKey D (question D t host)) c of
        (None, ttl) \<Rightarrow> ([], ttl, False)
      | (Some m, ttl) \<Rightarrow> (ips_of (dm_answer m), ttl, True))"

definition lookupCache :: "dns_lib \<Rightarrow> int \<Rightarrow> name_server \<Rightarrow> string \<Rightarrow> dns_cache \<Rightarrow> dns_ip list \<times> int \<times> bool" where
  "lookupCache D now s host c =
     (if ns_prefer s = ''ipv6'' then
        (case lookup_type D now TypeAAAA host c of
           (ips, ttl, ok) \<Rightarrow>
             if ips \<noteq> [] \<or> ns_only s = ''ipv6'' then (ips, ttl, ok) else lookup_type D now TypeA host c)
      else
        (case lookup_type D now TypeA host c of
           (ips, ttl, ok) \<Rightarrow>
             if ips \<noteq> [] \<or> ns_only s = ''ipv4'' then (ips, ttl, ok) else lookup_type D now TypeAAAA host c))"

text \<open>An expired answer is given all the same; the resolution in the background is done right after.\<close>

definition resolveAsync :: "dns_lib \<Rightarrow> int \<Rightarrow> name_server \<Rightarrow> string \<Rightarrow> dns_cache \<Rightarrow> resolution" where
  "resolveAsync D now s host c =
     (case lookupCache D now s host c of
        (ips, ttl, ok) \<Rightarrow>
          if \<not> ok then resolve D now s host c
          else ((ips, nil_error), if ttl \<le> 0 then snd (resolve D now s host c) else c))"

definition ask_server :: "dns_lib \<Rightarrow> int \<Rightarrow> name_server \<Rightarrow> string \<Rightarrow> dns_cache \<Rightarrow> resolution" where
  "ask_server D now s host c =
     (if ns_async s then resolveAsync D now s host c else resolve D now s host c)"

text \<open>The error that comes back is that of the last server asked.\<close>

fun ask_servers :: "dns_lib \<Rightarrow> int \<Rightarrow> name_server list \<Rightarrow> string \<Rightarrow> dns_ip list \<times> go_error \<Rightarrow> dns_cache \<Rightarrow> resolution" where
  "ask_servers D now [] host r c = (r, c)"
| "ask_servers D now (s # ss) host r c =
     (case ask_server D now s host c of
        ((ips, e), c1) \<Rightarrow>
          if e = nil_error \<and> ips \<noteq> [] then ((ips, e), c1) else ask_servers D now ss host (ips, e) c1)"

definition ip_literal :: "string \<Rightarrow> dns_ip option" where
  "ip_literal host =
     (case ParseIP host of
        None \<Rightarrow> None
      | Some v \<Rightarrow> Some (case To4 v of Some w \<Rightarrow> IPv4 w | None \<Rightarrow> IPv6 v))"

definition Resolve :: "dns_lib \<Rightarrow> string \<Rightarrow> int \<Rightarrow> name_server list \<Rightarrow> string \<Rightarrow> dns_cache \<Rightarrow> resolution" where
  "Resolve D domain now servers host c =
     (case ip_literal host of
        Some ip \<Rightarrow> (([ip], nil_error), c)
      | None \<Rightarrow>
          ask_servers D now servers
            (if domain \<noteq> [] \<and> CHR ''.'' \<notin> set host then host @ ''.'' @ domain else host) ([], nil_error) c)"

section \<open>Where an address comes from\<close>

lemma ips_of_concat:
  "ips_of as = concat (map (\<lambda>d. case d of RAAAA v \<Rightarrow> [IPv6 v] | RA v \<Rightarrow> [IPv4 v] | ROther _ \<Rightarrow> []) (map an_data as))"
  by (induction as) simp_all

lemma ips_of_data: "map an_data as = map an_data bs \<Longrightarrow> ips_of as = ips_of bs"
  by (simp only: ips_of_concat)

lemma age_data [simp]: "an_data (age_answer d a) = an_data a" "an_data (set_ttl n a) = an_data a"
  by (simp_all add: age_answer_def set_ttl_def)

lemma ips_of_aged [simp]:
  "ips_of (map (age_answer d) as) = ips_of as" "ips_of (map (set_ttl n) as) = ips_of as"
  by (rule ips_of_data; simp add: comp_def)+

text \<open>How long an answer may be used: the time of the server, or the least of the answers' own.\<close>

definition lifetime :: "int \<Rightarrow> dns_msg \<Rightarrow> int" where
  "lifetime ttl m =
     (if ttl \<noteq> 0 then ttl
      else if least_ttl 0 (dm_answer m) = 0 then cache_defaultTTL else least_ttl 0 (dm_answer m))"

text \<open>A resolution: when, with which servers, for which host.\<close>

record ask_event =
  ae_now :: int
  ae_servers :: "name_server list"
  ae_host :: string

type_synonym exchanged = "(int \<times> string \<times> int \<times> dns_msg) set"

text \<open>What the servers of some resolutions answer, with the time, the key and the server's time to live.\<close>

definition answers_of :: "dns_lib \<Rightarrow> int \<Rightarrow> name_server \<Rightarrow> exchanged" where
  "answers_of D now s = {(now, NewCacheKey D q, ns_ttl s, m) | q m. ns_exchange s q = Inr m}"

definition all_answers :: "dns_lib \<Rightarrow> ask_event list \<Rightarrow> exchanged" where
  "all_answers D evs = (\<Union>ev\<in>set evs. \<Union>s\<in>set (ae_servers ev). answers_of D (ae_now ev) s)"

definition item_from :: "exchanged \<Rightarrow> string \<Rightarrow> cache_item \<Rightarrow> bool" where
  "item_from X key i \<longleftrightarrow>
     (\<exists>ttl m. (ci_ts i, key, ttl, m) \<in> X \<and> 0 \<le> ttl \<and> ci_ttl i = lifetime ttl m \<and>
        ips_of (dm_answer (ci_msg i)) = ips_of (dm_answer m))"

definition cache_from :: "exchanged \<Rightarrow> dns_cache \<Rightarrow> bool" where
  "cache_from X c \<longleftrightarrow> (\<forall>key i. c key = Some i \<longrightarrow> item_from X key i)"

text \<open>An address that was answered now, or earlier and for long enough.\<close>

definition current :: "exchanged \<Rightarrow> int \<Rightarrow> string \<Rightarrow> dns_ip \<Rightarrow> bool" where
  "current X now key ip \<longleftrightarrow>
     (\<exists>t ttl m. (t, key, ttl, m) \<in> X \<and> ip \<in> set (ips_of (dm_answer m)) \<and> (t = now \<or> now < t + lifetime ttl m))"

lemma cache_from_mono: "cache_from X c \<Longrightarrow> X \<subseteq> Y \<Longrightarrow> cache_from Y c"
  by (fastforce simp: cache_from_def item_from_def)

lemma store_from:
  assumes "cache_from X c" "(now, key, ttl, m) \<in> X" "cache_Store now key (Some m) ttl c = (c', m')"
  shows "cache_from X c' \<and> ips_of (dm_answer (the m')) = ips_of (dm_answer m)"
proof -
  have old: "item_from X k i" if "c k = Some i" for k i using that assms(1) by (simp add: cache_from_def)
  have new: "item_from X key \<lparr>ci_msg = x, ci_ts = now, ci_ttl = lifetime ttl m\<rparr>"
    if "ips_of (dm_answer x) = ips_of (dm_answer m)" "0 \<le> ttl" for x
    using that assms(2) by (auto simp: item_from_def)
  consider "key = [] \<or> ttl < 0" "c' = c" "m' = Some m"
    | "ttl = 0" "c' = c(key \<mapsto> \<lparr>ci_msg = m, ci_ts = now, ci_ttl = lifetime ttl m\<rparr>)" "m' = Some m"
    | x where "0 < ttl" "x = m\<lparr>dm_answer := map (set_ttl (seconds32 ttl)) (dm_answer m)\<rparr>"
        "c' = c(key \<mapsto> \<lparr>ci_msg = x, ci_ts = now, ci_ttl = lifetime ttl m\<rparr>)" "m' = Some x"
    using assms(3) by (auto simp: cache_Store_def lifetime_def Let_def split: if_splits)
  then show ?thesis
  proof cases
    case 3
    then show ?thesis using old new [of x] by (auto simp: cache_from_def)
  qed (use old new [of m] in \<open>auto simp: cache_from_def\<close>)
qed

lemma resolveIPs_from:
  assumes "cache_from X c" "answers_of D now s \<subseteq> X" "resolveIPs D now s q c = ((ips, e), c')"
  shows "cache_from X c' \<and> (\<forall>ip\<in>set ips. current X now (NewCacheKey D q) ip)"
proof -
  let ?k = "NewCacheKey D q"
  show ?thesis
  proof (cases "snd (cache_Load now ?k c) \<le> 0")
    case True
    show ?thesis
    proof (cases "ns_exchange s q")
      case (Inl x)
      then show ?thesis using assms(1,3) True by (auto simp: resolveIPs_def split: prod.splits)
    next
      case (Inr m)
      have x: "(now, ?k, ns_ttl s, m) \<in> X" using assms(2) Inr by (auto simp: answers_of_def)
      obtain m' where s: "cache_Store now ?k (Some m) (ns_ttl s) c = (c', m')" "ips = ips_of (dm_answer (the m'))"
        using assms(3) True Inr by (auto simp: resolveIPs_def split: prod.splits)
      show ?thesis using store_from [OF assms(1) x s(1)] x s(2) by (auto simp: current_def)
    qed
  next
    case False
    then obtain i where i: "c ?k = Some i" "now < ci_ts i + ci_ttl i"
      by (auto simp: cache_Load_def split: option.splits)
    have r: "c' = c" "ips = ips_of (dm_answer (ci_msg i))"
      using assms(3) False i(1) by (auto simp: resolveIPs_def cache_Load_def)
    have "item_from X ?k i" using assms(1) i(1) by (simp add: cache_from_def)
    then have "current X now ?k ip" if "ip \<in> set ips" for ip
      using that r(2) i(2) unfolding item_from_def current_def by metis
    then show ?thesis using r(1) assms(1) by simp
  qed
qed

definition host_keys :: "dns_lib \<Rightarrow> string \<Rightarrow> string set" where
  "host_keys D host = {NewCacheKey D (question D TypeA host), NewCacheKey D (question D TypeAAAA host)}"

definition good_result :: "dns_lib \<Rightarrow> exchanged \<Rightarrow> int \<Rightarrow> string \<Rightarrow> resolution \<Rightarrow> bool" where
  "good_result D X now host r \<longleftrightarrow>
     cache_from X (snd r) \<and> (\<forall>ip\<in>set (fst (fst r)). \<exists>key\<in>host_keys D host. current X now key ip)"

lemma resolve46_good:
  assumes "cache_from X c" "answers_of D now s \<subseteq> X"
  shows "good_result D X now host (resolve4 D now s host c)" "good_result D X now host (resolve6 D now s host c)"
  using resolveIPs_from [OF assms, of "question D TypeA host"] resolveIPs_from [OF assms, of "question D TypeAAAA host"]
  by (auto simp: good_result_def resolve4_def resolve6_def host_keys_def
      split: prod.split) (metis prod.collapse)+

lemma resolve_good:
  assumes "cache_from X c" "answers_of D now s \<subseteq> X"
  shows "good_result D X now host (resolve D now s host c)"
proof -
  obtain r4 c4 where r4: "resolve4 D now s host c = (r4, c4)" by (metis prod.collapse)
  obtain r6 c6 where r6: "resolve6 D now s host c = (r6, c6)" by (metis prod.collapse)
  have g: "good_result D X now host (r4, c4)" "good_result D X now host (r6, c6)"
    using resolve46_good [OF assms, of host] r4 r6 by auto
  then have "cache_from X c4" "cache_from X c6" by (simp_all add: good_result_def)
  then show ?thesis
    using g r4 r6 resolve46_good(2) [OF _ assms(2), of c4 host] resolve46_good(1) [OF _ assms(2), of c6 host]
    by (auto simp: resolve_def split: prod.split)
qed

text \<open>Only a server that answers asynchronously may give an address that has expired.\<close>

lemma async_keeps_cache:
  "cache_from X c \<Longrightarrow> answers_of D now s \<subseteq> X \<Longrightarrow> cache_from X (snd (resolveAsync D now s host c))"
  using resolve_good [of X c D now s host]
  by (auto simp: resolveAsync_def good_result_def split: prod.split)

lemma ask_servers_good:
  assumes "cache_from X c" "\<forall>s\<in>set ss. answers_of D now s \<subseteq> X"
  shows "cache_from X (snd (ask_servers D now ss host r c)) \<and>
    ((\<forall>s\<in>set ss. \<not> ns_async s) \<longrightarrow> (\<forall>ip\<in>set (fst r). \<exists>key\<in>host_keys D host. current X now key ip) \<longrightarrow>
       good_result D X now host (ask_servers D now ss host r c))"
  using assms
proof (induction ss arbitrary: r c)
  case Nil
  then show ?case by (simp add: good_result_def)
next
  case (Cons s ss)
  obtain ips e c1 where a: "ask_server D now s host c = ((ips, e), c1)" by (metis prod.collapse)
  have x: "answers_of D now s \<subseteq> X" using Cons.prems(2) by simp
  have c1: "cache_from X c1"
    using a resolve_good [OF Cons.prems(1) x, of host] async_keeps_cache [OF Cons.prems(1) x, of host]
    by (auto simp: ask_server_def good_result_def split: if_splits)
  have good: "good_result D X now host ((ips, e), c1)" if "\<not> ns_async s"
    using a resolve_good [OF Cons.prems(1) x, of host] that by (simp add: ask_server_def)
  have "\<forall>s\<in>set ss. answers_of D now s \<subseteq> X" using Cons.prems(2) by simp
  note ih = Cons.IH [OF c1 this, of "(ips, e)"]
  show ?case using a c1 good ih by (auto simp: good_result_def)
qed

section \<open>Addresses are current\<close>

definition run_asks :: "dns_lib \<Rightarrow> string \<Rightarrow> ask_event list \<Rightarrow> dns_cache \<Rightarrow> dns_cache" where
  "run_asks D domain evs c =
     fold (\<lambda>ev c. snd (Resolve D domain (ae_now ev) (ae_servers ev) (ae_host ev) c)) evs c"

lemma Resolve_cache:
  "cache_from X c \<Longrightarrow> \<forall>s\<in>set ss. answers_of D now s \<subseteq> X \<Longrightarrow> cache_from X (snd (Resolve D domain now ss host c))"
  using ask_servers_good by (auto simp: Resolve_def split: option.split)

lemma run_asks_from:
  "cache_from X c \<Longrightarrow> all_answers D evs \<subseteq> X \<Longrightarrow> cache_from X (run_asks D domain evs c)"
proof (induction evs arbitrary: c)
  case (Cons ev evs)
  have "\<forall>s\<in>set (ae_servers ev). answers_of D (ae_now ev) s \<subseteq> X" "all_answers D evs \<subseteq> X"
    using Cons.prems(2) by (auto simp: all_answers_def)
  then show ?case
    using Cons.IH [OF Resolve_cache [OF Cons.prems(1)]] by (simp add: run_asks_def)
qed (simp add: run_asks_def)

text \<open>
  (C28) Addresses are current: whatever has been resolved before, with whatever servers, an address the
  resolver gives for a host that is not itself an address was answered for that host by one of
  the servers asked, either for this very resolution or at a time since when the time to live that
  was set for it has not run out; provided the servers asked now do not answer asynchronously.
\<close>

theorem resolved_address_is_current:
  assumes "ae_host ev = host" "ip_literal host = None" "\<forall>s\<in>set (ae_servers ev). \<not> ns_async s"
    and "ip \<in> set (fst (fst (Resolve D domain (ae_now ev) (ae_servers ev) host (run_asks D domain evs Map.empty))))"
  shows "\<exists>name\<in>{host, host @ ''.'' @ domain}. \<exists>key\<in>host_keys D name.
    current (all_answers D (evs @ [ev])) (ae_now ev) key ip"
proof -
  let ?X = "all_answers D (evs @ [ev])"
  let ?name = "if domain \<noteq> [] \<and> CHR ''.'' \<notin> set host then host @ ''.'' @ domain else host"
  have c: "cache_from ?X (run_asks D domain evs Map.empty)"
    by (intro run_asks_from) (auto simp: cache_from_def all_answers_def)
  have "\<forall>s\<in>set (ae_servers ev). answers_of D (ae_now ev) s \<subseteq> ?X" by (auto simp: all_answers_def)
  from ask_servers_good [OF c this, of ?name "([], nil_error)"]
  have "good_result D ?X (ae_now ev) ?name
      (ask_servers D (ae_now ev) (ae_servers ev) ?name ([], nil_error) (run_asks D domain evs Map.empty))"
    using assms(3) by simp
  then have "\<exists>key\<in>host_keys D ?name. current ?X (ae_now ev) key ip"
    using assms(2,4) by (simp add: Resolve_def good_result_def)
  then show ?thesis by (auto split: if_splits)
qed

definition plain_lib :: dns_lib where
  "plain_lib = \<lparr>dl_class = (\<lambda>c. ''IN''), dl_type = (\<lambda>t. if t = TypeA then ''A'' else ''AAAA''), dl_fqdn = (\<lambda>h. h @ ''.'')\<rparr>"

text \<open>A server that has both addresses of every host, for five minutes.\<close>

definition both_answers :: "dns_question \<Rightarrow> string + dns_msg" where
  "both_answers q =
     Inr \<lparr>dm_id = 0, dm_question = [q],
          dm_answer = [\<lparr>an_data = (if dq_type q = TypeA then RA 4 else RAAAA 6), an_ttl = 300\<rparr>]\<rparr>"

definition both_server :: "string \<Rightarrow> name_server" where
  "both_server only =
     \<lparr>ns_addr = ''1.1.1.1'', ns_ttl = 0, ns_prefer = [], ns_only = only, ns_async = False, ns_exchange = both_answers\<rparr>"

definition gone_server :: name_server where
  "gone_server = both_server []\<lparr>ns_exchange := (\<lambda>q. Inl ''timeout'')\<rparr>"

definition asked_at :: "int \<Rightarrow> name_server \<Rightarrow> ask_event" where
  "asked_at t s = \<lparr>ae_now = t, ae_servers = [s], ae_host = ''h''\<rparr>"

lemma resolved_address_is_current_witness:
  "IPv4 4 \<in> set (fst (fst (Resolve plain_lib [] (200 * second) [gone_server] ''h''
       (run_asks plain_lib [] [asked_at 0 (both_server [])] Map.empty)))) \<and>
   (\<exists>key. current (all_answers plain_lib [asked_at 0 (both_server []), asked_at (200 * second) gone_server])
      (200 * second) key (IPv4 4))"
proof -
  let ?c = "run_asks plain_lib [] [asked_at 0 (both_server [])] Map.empty"
  let ?ev = "asked_at (200 * second) gone_server"
  have e: "ip_literal ''h'' = None" "list_all (\<lambda>s. \<not> ns_async s) (ae_servers ?ev)" by code_simp+
  have "List.member (fst (fst (Resolve plain_lib [] (ae_now ?ev) (ae_servers ?ev) ''h'' ?c))) (IPv4 4)" by code_simp
  then have r: "IPv4 4 \<in> set (fst (fst (Resolve plain_lib [] (ae_now ?ev) (ae_servers ?ev) ''h'' ?c)))" by simp
  have h: "ae_host ?ev = ''h''" "ae_now ?ev = 200 * second" "ae_servers ?ev = [gone_server]" by (simp_all add: asked_at_def)
  show ?thesis
    using r resolved_address_is_current [OF h(1) e(1) _ r] e(2) by (auto simp: h list_all_iff)
qed

section \<open>Times to live\<close>

text \<open>What is left of the time to live of an answer: at least a second.\<close>

lemma aged_ttl:
  assumes "0 \<le> d" "d div second < 2 ^ 32"
  shows "uint (an_ttl (age_answer d a)) = max 1 (uint (an_ttl a) - d div second)"
proof -
  have s: "uint (seconds32 d) = d div second"
    using assms by (simp add: seconds32_def uint_word_of_int second_def)
  show ?thesis
  proof (cases "seconds32 d < an_ttl a")
    case True
    then have "uint (an_ttl a - seconds32 d) = uint (an_ttl a) - uint (seconds32 d)"
      by (simp add: uint_sub_lem [THEN iffD1] word_le_def [symmetric])
    then show ?thesis using True s by (simp add: age_answer_def word_less_def)
  next
    case False
    then show ?thesis using s by (simp add: age_answer_def word_less_def)
  qed
qed

text \<open>An answer that must not be kept, with a time to live of zero, is kept for a minute.\<close>

lemma zero_ttl_is_cached:
  assumes "key \<noteq> []" "\<forall>a\<in>set (dm_answer m). an_ttl a = 0"
  shows "snd (cache_Load (now + 59 * second) key (fst (cache_Store now key (Some m) 0 c))) = second"
proof -
  have z: "\<forall>a\<in>set as. an_ttl a = 0 \<Longrightarrow> least_ttl 0 as = 0" for as
    by (induction as) (simp_all add: Let_def)
  show ?thesis using assms(1) z [OF assms(2)] by (simp add: cache_Store_def cache_Load_def Let_def cache_defaultTTL_def)
qed

section \<open>One family only\<close>

text \<open>
  Of the four spellings of \<open>Only\<close> two are understood when it comes to resolving: a server that is to
  give only \<open>ip6\<close> is first asked for, and gives, IPv4 addresses.
\<close>

lemma only_ip6_gives_ipv4:
  "map (\<lambda>only. fst (fst (Resolve plain_lib [] 0 (NewResolver (\<lambda>_. True) [both_server only]) ''h'' Map.empty)))
     [''ipv4'', ''ipv6'', ''ip4'', ''ip6''] = [[IPv4 4], [IPv6 6], [IPv4 4], [IPv4 4]]"
  by code_simp

end
