(* ===== verification/DnsHandler.thy ===== *)
theory DnsHandler
  imports Resolver
begin

text \<open>
  The DNS proxy, \<open>x/handler/dns/handler.go\<close>: a query is answered from the bypass, the host mapper, the
  cache, or a name server, in this order. Replies and records are made and messages packed by the
  \<open>dns\<close> package, which is a parameter, as are what the hop selects and what the servers answer.
\<close>

section \<open>The handler\<close>

record dns_handler =
  dh_bypass :: "(string \<Rightarrow> string \<Rightarrow> bool) option"
  dh_hosts :: "(string \<Rightarrow> string \<Rightarrow> int list) option"
  dh_select :: "string \<Rightarrow> string option"
  dh_exchangers :: "string \<rightharpoonup> (dns_msg \<Rightarrow> string + dns_msg)"
  dh_ttl :: int
  dh_async :: bool
  dh_reply :: "dns_msg \<Rightarrow> dns_msg"
  dh_rr :: "string \<Rightarrow> nat \<Rightarrow> int \<Rightarrow> dns_answer option"
  dh_pack :: "dns_msg \<Rightarrow> go_error"

definition trim_dots :: "string \<Rightarrow> string" where
  "trim_dots s = rev (dropWhile (\<lambda>c. c = CHR ''.'') (rev (dropWhile (\<lambda>c. c = CHR ''.'') s)))"

definition trim_last_dot :: "string \<Rightarrow> string" where
  "trim_last_dot s = (if HasSuffix s ''.'' then butlast s else s)"

definition first_question :: "dns_msg \<Rightarrow> dns_question" where
  "first_question mq = hd (dm_question mq)"

definition name_bypassed :: "dns_handler \<Rightarrow> dns_msg \<Rightarrow> bool" where
  "name_bypassed H mq \<longleftrightarrow>
     dh_bypass H \<noteq> None \<and> dq_class (first_question mq) = ClassINET \<and>
     the (dh_bypass H) ''udp'' (trim_dots (dq_name (first_question mq)))"

text \<open>A record that cannot be made drops the whole reply.\<close>

definition lookupHosts :: "dns_handler \<Rightarrow> dns_msg \<Rightarrow> dns_msg option" where
  "lookupHosts H mq =
     (let q = first_question mq; t = dq_type q in
      case dh_hosts H of
        None \<Rightarrow> None
      | Some hosts \<Rightarrow>
          if dq_class q \<noteq> ClassINET \<or> (t \<noteq> TypeA \<and> t \<noteq> TypeAAAA) then None
          else
            (let ips = hosts (if t = TypeA then ''ip4'' else ''ip6'') (trim_last_dot (dq_name q))
             in if ips = [] then None
                else case those (map (dh_rr H (dq_name q) t) ips) of
                       None \<Rightarrow> None
                     | Some rrs \<Rightarrow> Some ((dh_reply H mq)\<lparr>dm_answer := dm_answer (dh_reply H mq) @ rrs\<rparr>)))"

definition selectExchanger :: "dns_handler \<Rightarrow> string \<Rightarrow> (dns_msg \<Rightarrow> string + dns_msg) option" where
  "selectExchanger H addr = (case dh_select H addr of None \<Rightarrow> None | Some node \<Rightarrow> dh_exchangers H node)"

text \<open>Only replies to a single question are cached.\<close>

definition dns_exchange ::
    "dns_lib \<Rightarrow> dns_handler \<Rightarrow> int \<Rightarrow> (dns_msg \<Rightarrow> string + dns_msg) \<Rightarrow> dns_msg \<Rightarrow> dns_cache \<Rightarrow>
       (string + dns_msg) \<times> dns_cache" where
  "dns_exchange D H now ex mq c =
     (case dh_pack H mq of
        Some e \<Rightarrow> (Inl e, c)
      | None \<Rightarrow>
          (case ex mq of
             Inl e \<Rightarrow> (Inl e, c)
           | Inr mr \<Rightarrow>
               if length (dm_question mq) = 1 then
                 (case cache_Store now (NewCacheKey D (first_question mq)) (Some mr) (dh_ttl H) c of
                    (c', m') \<Rightarrow> (Inr (the m'), c'))
               else (Inr mr, c)))"

definition pack_reply :: "dns_handler \<Rightarrow> dns_msg \<Rightarrow> string + dns_msg" where
  "pack_reply H m = (case dh_pack H m of Some e \<Rightarrow> Inl e | None \<Rightarrow> Inr m)"

definition sent_out :: "dns_handler \<Rightarrow> dns_msg \<Rightarrow> dns_msg list" where
  "sent_out H mq = (if dh_pack H mq = nil_error then [mq] else [])"

text \<open>\<open>int32\<close> of the seconds, which wraps.\<close>

definition has_second :: "int \<Rightarrow> bool" where
  "has_second ttl \<longleftrightarrow> 0 < sint (seconds32 ttl)"

definition cached_reply :: "dns_lib \<Rightarrow> int \<Rightarrow> dns_msg \<Rightarrow> dns_cache \<Rightarrow> dns_msg option \<times> int" where
  "cached_reply D now mq c =
     (if length (dm_question mq) = 1 then
        (case cache_Load now (NewCacheKey D (first_question mq)) c of
           (mr, ttl) \<Rightarrow> (map_option (\<lambda>m. m\<lparr>dm_id := dm_id mq\<rparr>) mr, ttl))
      else (None, 0))"

text \<open>The reply that is there without a name server, if there is one.\<close>

definition local_reply :: "dns_lib \<Rightarrow> dns_handler \<Rightarrow> int \<Rightarrow> dns_msg \<Rightarrow> dns_cache \<Rightarrow> dns_msg option" where
  "local_reply D H now mq c =
     (if name_bypassed H mq then Some (dh_reply H mq)
      else case lookupHosts H mq of
        Some m \<Rightarrow> Some m
      | None \<Rightarrow> if has_second (snd (cached_reply D now mq c)) then fst (cached_reply D now mq c) else None)"

text \<open>
  A name server is asked; in the asynchronous mode an expired reply, whose packing alone can fail, is
  given before. The reply or the error, the cache after it, and what was sent.
\<close>

definition ask_upstream ::
    "dns_lib \<Rightarrow> dns_handler \<Rightarrow> int \<Rightarrow> (dns_msg \<Rightarrow> string + dns_msg) \<Rightarrow> dns_msg \<Rightarrow> dns_cache \<Rightarrow>
       (string + dns_msg) \<times> dns_cache \<times> dns_msg list" where
  "ask_upstream D H now ex mq c =
     (case (fst (cached_reply D now mq c), dh_async H) of
        (Some old, True) \<Rightarrow>
          (case pack_reply H old of
             Inl e \<Rightarrow> (Inl e, c, [])
           | Inr m \<Rightarrow>
               (Inr m,
                snd (dns_exchange D H now ex mq (cache_RefreshTTL now (NewCacheKey D (first_question mq)) c)),
                sent_out H mq))
      | _ \<Rightarrow>
          (case dns_exchange D H now ex mq c of
             (Inl e, c') \<Rightarrow> (Inl e, c', sent_out H mq)
           | (Inr m, c') \<Rightarrow> (pack_reply H m, c', sent_out H mq)))"

definition exchange_not_found :: string where "exchange_not_found = ''exchange not found for ''"

definition dns_request ::
    "dns_lib \<Rightarrow> dns_handler \<Rightarrow> int \<Rightarrow> string + dns_msg \<Rightarrow> dns_cache \<Rightarrow>
       (string + dns_msg) \<times> dns_cache \<times> dns_msg list" where
  "dns_request D H now query c =
     (case query of
        Inl e \<Rightarrow> (Inl e, c, [])
      | Inr mq \<Rightarrow>
          if dm_question mq = [] then (Inl ''msg: empty question'', c, [])
          else (case local_reply D H now mq c of
                  Some m \<Rightarrow> (pack_reply H m, c, [])
                | None \<Rightarrow>
                    (case selectExchanger H (trim_dots (dq_name (first_question mq))) of
                       None \<Rightarrow> (Inl (exchange_not_found @ dq_name (first_question mq)), c, [])
                     | Some ex \<Rightarrow> ask_upstream D H now ex mq c)))"

definition fresh_reply :: "dns_lib \<Rightarrow> int \<Rightarrow> dns_msg \<Rightarrow> dns_cache \<Rightarrow> bool" where
  "fresh_reply D now mq c \<longleftrightarrow>
     fst (cached_reply D now mq c) \<noteq> None \<and> has_second (snd (cached_reply D now mq c))"

section \<open>When a name server is asked\<close>

text \<open>
  A name server is asked only when nothing else answers: a query is passed on, unchanged, only if
  it has a question whose name the bypass does not name, the host mapper has no addresses for
  it, and the cache has no reply to it with a second or more to live.
\<close>

theorem name_server_asked_last:
  assumes "dns_request D H now (Inr mq) c = (r, c', asked)" "asked \<noteq> []"
  shows "asked = [mq] \<and> dm_question mq \<noteq> [] \<and> \<not> name_bypassed H mq \<and> lookupHosts H mq = None \<and>
    \<not> fresh_reply D now mq c"
proof -
  have q: "dm_question mq \<noteq> []" using assms by (auto simp: dns_request_def)
  have l: "local_reply D H now mq c = None" using assms q by (auto simp: dns_request_def split: option.splits)
  then obtain ex where "ask_upstream D H now ex mq c = (r, c', asked)"
    using assms q by (auto simp: dns_request_def split: option.splits)
  then have "asked = [mq]" using assms(2)
    by (auto simp: ask_upstream_def sent_out_def split: option.splits bool.splits prod.splits sum.splits if_splits)
  then show ?thesis using q l by (auto simp: local_reply_def fresh_reply_def split: if_splits option.splits)
qed

definition small_dns :: "bool \<Rightarrow> dns_handler" where
  "small_dns async =
     \<lparr>dh_bypass = Some (\<lambda>n a. a = ''bad''), dh_hosts = Some (\<lambda>f h. if h = ''h'' then [1] else []),
      dh_select = (\<lambda>a. Some ''n''), dh_exchangers = [''n'' \<mapsto> (\<lambda>q. both_answers (first_question q))], dh_ttl = 0,
      dh_async = async, dh_reply = (\<lambda>q. q\<lparr>dm_answer := []\<rparr>),
      dh_rr = (\<lambda>n t v. Some \<lparr>an_data = (if t = TypeA then RA v else RAAAA v), an_ttl = 3600\<rparr>),
      dh_pack = (\<lambda>m. nil_error)\<rparr>"

definition ask_for :: "string \<Rightarrow> dns_msg" where
  "ask_for name = \<lparr>dm_id = 7, dm_question = [\<lparr>dq_name = name, dq_class = 1, dq_type = 1\<rparr>], dm_answer = []\<rparr>"

lemmas dns_evaluate = dns_request_def local_reply_def name_bypassed_def lookupHosts_def cached_reply_def
  selectExchanger_def ask_upstream_def dns_exchange_def pack_reply_def sent_out_def first_question_def
  small_dns_def ask_for_def cache_Load_def cache_Store_def both_answers_def trim_dots_def trim_last_dot_def
  HasSuffix_def HasPrefix_def ClassINET_def TypeA_def NewCacheKey_def

lemma name_server_asked_last_witness:
  "snd (snd (dns_request plain_lib (small_dns False) 0 (Inr (ask_for ''x.'')) Map.empty)) = [ask_for ''x.''] \<and>
   \<not> name_bypassed (small_dns False) (ask_for ''x.'')"
proof -
  obtain r c a where e: "dns_request plain_lib (small_dns False) 0 (Inr (ask_for ''x.'')) Map.empty = (r, c, a)"
    by (metis prod_cases3)
  have "snd (snd (dns_request plain_lib (small_dns False) 0 (Inr (ask_for ''x.'')) Map.empty)) = [ask_for ''x.'']"
    by (simp add: dns_evaluate has_second_def seconds32_def Let_def)
  then have a: "a = [ask_for ''x.'']" by (simp only: e snd_conv)
  show ?thesis using name_server_asked_last [OF e] by (simp add: a e)
qed

section \<open>Errors\<close>

text \<open>
  An error changes nothing: when messages can be packed, a query that is answered with an error
  leaves the cache as it was, and the error is that the query could not be read, has no
  question, has no name server, or that the name server it was sent to failed.
\<close>

theorem dns_error_changes_nothing:
  assumes "dh_pack H = (\<lambda>m. nil_error)" "dns_request D H now query c = (Inl e, c', asked)"
  shows "c' = c \<and>
    (query = Inl e \<or>
     (\<exists>mq. query = Inr mq \<and>
       (dm_question mq = [] \<and> e = ''msg: empty question'' \<or>
        selectExchanger H (trim_dots (dq_name (first_question mq))) = None \<and>
          e = exchange_not_found @ dq_name (first_question mq) \<or>
        (\<exists>ex. selectExchanger H (trim_dots (dq_name (first_question mq))) = Some ex \<and>
          ex mq = Inl e \<and> asked = [mq]))))"
proof (cases query)
  case (Inl x)
  then show ?thesis using assms(2) by (simp add: dns_request_def)
next
  case (Inr mq)
  note r = assms(2) [unfolded Inr dns_request_def sum.case]
  have p: "pack_reply H m = Inr m" "sent_out H m = [m]" for m
    by (simp_all add: pack_reply_def sent_out_def assms(1))
  let ?ex = "selectExchanger H (trim_dots (dq_name (first_question mq)))"
  show ?thesis
  proof (cases "dm_question mq = []")
    case True
    then show ?thesis using r Inr by simp
  next
    case False
    have l: "local_reply D H now mq c = None" using r False by (auto simp: p split: option.splits)
    show ?thesis
    proof (cases ?ex)
      case None
      then show ?thesis using r Inr False l by simp
    next
      case (Some ex)
      then have u: "ask_upstream D H now ex mq c = (Inl e, c', asked)" using r False l by simp
      have "dns_exchange D H now ex mq c = (Inl e, c')" "asked = [mq]"
        using u by (auto simp: ask_upstream_def p split: option.splits bool.splits prod.splits sum.splits)
      then show ?thesis
        using Inr Some by (auto simp: dns_exchange_def assms(1) split: sum.splits if_splits prod.splits)
    qed
  qed
qed

lemma dns_error_changes_nothing_witness:
  "snd (dns_request plain_lib (small_dns False\<lparr>dh_exchangers := Map.empty\<rparr>) 0 (Inr (ask_for ''x.'')) Map.empty) =
     (Map.empty, [])"
proof -
  let ?H = "small_dns False\<lparr>dh_exchangers := Map.empty\<rparr>"
  obtain r c a where e: "dns_request plain_lib ?H 0 (Inr (ask_for ''x.'')) Map.empty = (r, c, a)"
    by (metis prod_cases3)
  have "fst (dns_request plain_lib ?H 0 (Inr (ask_for ''x.'')) Map.empty) = Inl (''exchange not found for '' @ ''x.'')"
    "snd (snd (dns_request plain_lib ?H 0 (Inr (ask_for ''x.'')) Map.empty)) = []"
    by (simp_all add: dns_evaluate exchange_not_found_def has_second_def seconds32_def Let_def)
  then have r: "r = Inl (''exchange not found for '' @ ''x.'')" "a = []" using e by simp_all
  have "dh_pack ?H = (\<lambda>m. nil_error)" by (simp add: small_dns_def)
  from dns_error_changes_nothing [OF this e [unfolded r(1)]] show ?thesis using e r by simp
qed

section \<open>Stale replies\<close>

text \<open>
  In the asynchronous mode the time of an expired reply is set anew before its name server has
  answered, so while the server fails the reply counts as new again after every expiry.
\<close>

lemma refreshed_reply_is_new:
  assumes "c key = Some i"
  shows "cache_Load now key (cache_RefreshTTL now key c) =
    (Some ((ci_msg i)\<lparr>dm_answer := map (age_answer 0) (dm_answer (ci_msg i))\<rparr>), ci_ttl i)"
  using assms by (simp add: cache_Load_def cache_RefreshTTL_def)

lemma async_failure_renews:
  assumes "dh_async H" "\<And>m. dh_pack H m = nil_error" "dm_question mq \<noteq> []" "\<not> name_bypassed H mq"
    and "lookupHosts H mq = None" "fst (cached_reply D now mq c) \<noteq> None" "\<not> fresh_reply D now mq c"
    and "selectExchanger H (trim_dots (dq_name (first_question mq))) = Some ex" "ex mq = Inl e"
  shows "dns_request D H now (Inr mq) c =
    (Inr (the (fst (cached_reply D now mq c))),
     cache_RefreshTTL now (NewCacheKey D (first_question mq)) c, [mq])"
proof -
  have "local_reply D H now mq c = None"
    using assms(4,5,6,7) by (simp add: local_reply_def fresh_reply_def)
  then show ?thesis
    using assms by (auto simp: dns_request_def ask_upstream_def pack_reply_def dns_exchange_def sent_out_def
        split: option.split)
qed

end
