(* ===== verification/FrontEnd.thy ===== *)
theory FrontEnd
  imports GoNet
begin

text \<open>
  What the proxy handlers of \<open>x/handler\<close> share: the options of a handler, what it does in the
  course of one connection, the rate limit, the exchange of bytes, the UDP relay of
  \<open>x/internal/net/udp\<close>, and the contract their clients' access is judged by.

  A handler's run is the list of what it does, in order, with the error it returns. Replies are of
  the protocol's own type \<open>'r\<close>. What the outside answers is a record of functions.
\<close>

section \<open>Options and effects\<close>

record front =
  fr_auther :: "(string \<Rightarrow> string \<Rightarrow> string \<times> bool) option"
  fr_bypass :: "(string \<Rightarrow> string \<Rightarrow> bool) option"
  fr_rate :: "(string \<Rightarrow> bool option) option"
  fr_observed :: bool
  fr_enableBind :: bool
  fr_enableUDP :: bool
  fr_sniffing :: bool

text \<open>The things a handler opens and has to close: the far connection, a listener, a peer it
  accepts there, a multiplexed session and a stream of it.\<close>

datatype resource = Far | Bound | Peer | Session | Stream

datatype 'r effect =
  Reply 'r
| Dial string string
| DialLocal string string
| Listen string string
| ListenPacket string string
| Opens resource
| Closes resource
| Counted string
| Uncounted string
| Transfer string
| Sniffer string
| ToFar string string
| ToClient string string
| MarkNode
| ResetNode
| Probe string
| Panic

type_synonym 'r run = "'r effect list \<times> go_error"

text \<open>\<open>Inr packet\<close> of a dial tells whether the connection is a \<open>net.PacketConn\<close>; of a listen, the
  address it is bound to. \<open>far_udp\<close> is what arrives at the two sides of a packet relay.\<close>

datatype packet_event =
  FromClient string string go_error
| FromFar string string go_error
| ReadFailed string

record 'r far =
  far_dial :: "string \<Rightarrow> string \<Rightarrow> string + bool"
  far_local :: "string \<Rightarrow> string \<Rightarrow> go_error"
  far_listen :: "string \<Rightarrow> string \<Rightarrow> string + string"
  far_packet :: "string \<Rightarrow> string \<Rightarrow> string + string"
  far_write :: "'r \<Rightarrow> go_error"
  far_sniff :: "go_error option"
  far_udp :: "packet_event list"

section \<open>Sequencing\<close>

definition after :: "'r effect \<Rightarrow> 'r run \<Rightarrow> 'r run" where
  "after e r = (e # fst r, snd r)"

text \<open>Go's \<open>defer\<close> of something that is done at the end, whichever way the function returns.\<close>

definition deferring :: "'r effect \<Rightarrow> 'r run \<Rightarrow> 'r run" where
  "deferring e r = (fst r @ [e], snd r)"

definition holding :: "resource \<Rightarrow> 'r run \<Rightarrow> 'r run" where
  "holding k r = after (Opens k) (deferring (Closes k) r)"

text \<open>\<open>return resp.Write(conn)\<close>, and a reply whose own failure is ignored.\<close>

definition answering :: "'r far \<Rightarrow> 'r \<Rightarrow> 'r run" where
  "answering W r = ([Reply r], far_write W r)"

definition failing :: "'r \<Rightarrow> string \<Rightarrow> 'r run" where
  "failing r e = ([Reply r], Some e)"

text \<open>A reply that has to be written for the rest to happen.\<close>

definition replied :: "'r far \<Rightarrow> 'r \<Rightarrow> 'r run \<Rightarrow> 'r run" where
  "replied W r k = after (Reply r) (case far_write W r of Some e \<Rightarrow> ([], Some e) | None \<Rightarrow> k)"

text \<open>The client's connection counted for as long as the function runs, when there is an observer.\<close>

definition counted :: "front \<Rightarrow> string \<Rightarrow> 'r run \<Rightarrow> 'r run" where
  "counted F cid r = (if fr_observed F then after (Counted cid) (deferring (Uncounted cid) r) else r)"

lemmas run_defs = after_def deferring_def holding_def answering_def failing_def replied_def counted_def

section \<open>Checks\<close>

definition front_checkRateLimit :: "front \<Rightarrow> string \<Rightarrow> bool" where
  "front_checkRateLimit F remote =
     (case fr_rate F of
        None \<Rightarrow> True
      | Some limiter \<Rightarrow> (case limiter (split_host remote) of None \<Rightarrow> True | Some allowed \<Rightarrow> allowed))"

definition is_bypassed :: "front \<Rightarrow> string \<Rightarrow> string \<Rightarrow> bool" where
  "is_bypassed F network a = (case fr_bypass F of None \<Rightarrow> False | Some contains \<Rightarrow> contains network a)"

text \<open>The client's id, when the credentials are accepted.\<close>

definition front_authenticate :: "front \<Rightarrow> string \<Rightarrow> string \<Rightarrow> string option" where
  "front_authenticate F u p =
     (case fr_auther F of
        None \<Rightarrow> Some []
      | Some A \<Rightarrow> (case A u p of (cid, ok) \<Rightarrow> if ok then Some cid else None))"

definition front_ErrRateLimit :: string where "front_ErrRateLimit = ''rate limit''"
definition front_ErrBypass :: string where "front_ErrBypass = ''bypass''"

section \<open>Exchanges\<close>

text \<open>
  After a dial the bytes are copied both ways, or given to the sniffer on the connection that was
  dialled when sniffing is on and finds HTTP or TLS (\<open>far_sniff\<close> is its result then).
\<close>

definition exchange :: "front \<Rightarrow> 'r far \<Rightarrow> string \<Rightarrow> 'r run" where
  "exchange F W a =
     (if fr_sniffing F then
        (case far_sniff W of None \<Rightarrow> ([Transfer a], nil_error) | Some e \<Rightarrow> ([Sniffer a], e))
      else ([Transfer a], nil_error))"

text \<open>
  The UDP relay: what either side receives is written to the other side unless its peer is
  bypassed, until a read or a write fails.
\<close>

fun udp_Relay_Run :: "front \<Rightarrow> packet_event list \<Rightarrow> 'r run" where
  "udp_Relay_Run F [] = ([], nil_error)"
| "udp_Relay_Run F (ReadFailed e # evs) = ([], Some e)"
| "udp_Relay_Run F (FromClient a d w # evs) =
     (if is_bypassed F ''udp'' a then udp_Relay_Run F evs
      else after (ToFar a d) (case w of Some e \<Rightarrow> ([], Some e) | None \<Rightarrow> udp_Relay_Run F evs))"
| "udp_Relay_Run F (FromFar a d w # evs) =
     (if is_bypassed F ''udp'' a then udp_Relay_Run F evs
      else after (ToClient a d) (case w of Some e \<Rightarrow> ([], Some e) | None \<Rightarrow> udp_Relay_Run F evs))"

text \<open>What both relays do with their packets, as one function of the events: the ones to pass on.\<close>

fun passes :: "front \<Rightarrow> packet_event \<Rightarrow> 'r effect list" where
  "passes F (ReadFailed e) = []"
| "passes F (FromClient a d w) = (if is_bypassed F ''udp'' a then [] else [ToFar a d])"
| "passes F (FromFar a d w) = (if is_bypassed F ''udp'' a then [] else [ToClient a d])"

fun ends_relay :: "front \<Rightarrow> packet_event \<Rightarrow> bool" where
  "ends_relay F (ReadFailed e) \<longleftrightarrow> True"
| "ends_relay F (FromClient a d w) \<longleftrightarrow> \<not> is_bypassed F ''udp'' a \<and> w \<noteq> None"
| "ends_relay F (FromFar a d w) \<longleftrightarrow> \<not> is_bypassed F ''udp'' a \<and> w \<noteq> None"

definition until_end :: "front \<Rightarrow> packet_event list \<Rightarrow> packet_event list" where
  "until_end F evs =
     takeWhile (\<lambda>e. \<not> ends_relay F e) evs @ take 1 (dropWhile (\<lambda>e. \<not> ends_relay F e) evs)"

text \<open>
  The UDP relay of the SOCKS5 and relay handlers passes on exactly the packets, of either
  direction and in their order, whose peer is not bypassed, up to the first read or write that
  fails: what it writes is what the event-by-event filter gives on the events up to that one.
\<close>

theorem packet_relay_is_filter:
  "fst (udp_Relay_Run F evs) = concat (map (passes F) (until_end F evs))"
  by (induction F evs rule: udp_Relay_Run.induct)
    (auto simp: until_end_def after_def split: option.splits)

section \<open>The contract of a front end\<close>

text \<open>The peer a connection or a packet of the handler goes to or comes from.\<close>

fun peer_of :: "'r effect \<Rightarrow> (string \<times> string) option" where
  "peer_of (Dial n a) = Some (n, a)"
| "peer_of (DialLocal n a) = Some (n, a)"
| "peer_of (ToFar a d) = Some (''udp'', a)"
| "peer_of (ToClient a d) = Some (''udp'', a)"
| "peer_of _ = None"

fun listens :: "'r effect \<Rightarrow> bool" where
  "listens (Listen n a) = True"
| "listens (ListenPacket n a) = True"
| "listens _ = False"

definition outward :: "'r effect \<Rightarrow> bool" where
  "outward e \<longleftrightarrow> peer_of e \<noteq> None \<or> listens e"

definition admits_remote :: "front \<Rightarrow> string \<Rightarrow> bool" where
  "admits_remote F remote \<longleftrightarrow>
     (\<forall>limiter. fr_rate F = Some limiter \<longrightarrow> limiter (split_host remote) \<noteq> Some False)"

definition admits_user :: "front \<Rightarrow> (string \<times> string) option \<Rightarrow> bool" where
  "admits_user F c \<longleftrightarrow>
     (\<forall>A. fr_auther F = Some A \<longrightarrow> (\<exists>u p. c = Some (u, p) \<and> snd (A u p)))"

definition may_reach :: "front \<Rightarrow> string set \<Rightarrow> string \<Rightarrow> string \<Rightarrow> bool" where
  "may_reach F fixed n a \<longleftrightarrow> a = [] \<or> a \<in> fixed \<or> \<not> (\<exists>contains. fr_bypass F = Some contains \<and> contains n a)"

text \<open>Effects that are all right for a client that has been let in.\<close>

fun allowed :: "front \<Rightarrow> string set \<Rightarrow> 'r effect \<Rightarrow> bool" where
  "allowed F X (Dial n a) \<longleftrightarrow> may_reach F X n a"
| "allowed F X (DialLocal n a) \<longleftrightarrow> may_reach F X n a"
| "allowed F X (ToFar a d) \<longleftrightarrow> may_reach F X ''udp'' a"
| "allowed F X (ToClient a d) \<longleftrightarrow> may_reach F X ''udp'' a"
| "allowed F X (Listen n a) \<longleftrightarrow> fr_enableBind F"
| "allowed F X (ListenPacket n a) \<longleftrightarrow> fr_enableBind F \<or> fr_enableUDP F"
| "allowed F X _ \<longleftrightarrow> True"

definition permitted :: "front \<Rightarrow> string set \<Rightarrow> 'r effect list \<Rightarrow> bool" where
  "permitted F X es = list_all (allowed F X) es"

definition silent :: "'r effect list \<Rightarrow> bool" where
  "silent es = list_all (\<lambda>e. \<not> outward e) es"

text \<open>Everything that was opened is closed, and every client that was counted is uncounted.\<close>

definition tidy :: "'r effect list \<Rightarrow> bool" where
  "tidy es \<longleftrightarrow>
     (\<forall>k. count_list es (Opens k) \<le> count_list es (Closes k)) \<and>
     (\<forall>c. count_list es (Counted c) = count_list es (Uncounted c))"

named_theorems front_simps \<open>how permitted, silent and tidy run over the sequencing of effects\<close>

lemma permitted_list [front_simps]:
  "permitted F X []"
  "permitted F X (e # es) \<longleftrightarrow> allowed F X e \<and> permitted F X es"
  "permitted F X (es @ fs) \<longleftrightarrow> permitted F X es \<and> permitted F X fs"
  by (auto simp: permitted_def)

lemma silent_list [front_simps]:
  "silent []"
  "silent (e # es) \<longleftrightarrow> \<not> outward e \<and> silent es"
  "silent (es @ fs) \<longleftrightarrow> silent es \<and> silent fs"
  by (auto simp: silent_def)

lemma silentD: "silent es \<Longrightarrow> e \<in> set es \<Longrightarrow> \<not> outward e"
  by (auto simp: silent_def list_all_iff)

lemma permittedD: "permitted F X es \<Longrightarrow> e \<in> set es \<Longrightarrow> allowed F X e"
  by (auto simp: permitted_def list_all_iff)

lemma quiet_allowed: "\<not> outward e \<Longrightarrow> allowed F X e"
  by (cases e) (simp_all add: outward_def)

lemma silent_permitted: "silent es \<Longrightarrow> permitted F X es"
  by (auto simp: silent_def permitted_def list_all_iff quiet_allowed)

lemma allowed_peer: "allowed F X e \<Longrightarrow> peer_of e = Some (n, a) \<Longrightarrow> may_reach F X n a"
  by (cases e) auto

lemma allowed_listens: "allowed F X e \<Longrightarrow> listens e \<Longrightarrow> fr_enableBind F \<or> fr_enableUDP F"
  by (cases e) auto

lemma tidy_Nil [front_simps]: "tidy []"
  by (simp add: tidy_def)

lemma tidy_append: "tidy es \<Longrightarrow> tidy fs \<Longrightarrow> tidy (es @ fs)"
  by (auto simp: tidy_def intro: add_mono)

lemma outward_simps [front_simps]:
  "\<not> outward (Reply r)" "outward (Dial n a)" "outward (DialLocal n a)" "outward (Listen n a)"
  "outward (ListenPacket n a)" "\<not> outward (Opens k)" "\<not> outward (Closes k)" "\<not> outward (Counted c)"
  "\<not> outward (Uncounted c)" "\<not> outward (Transfer a)" "\<not> outward (Sniffer a)" "outward (ToFar a d)"
  "outward (ToClient a d)" "\<not> outward MarkNode" "\<not> outward ResetNode" "\<not> outward (Probe p)" "\<not> outward Panic"
  by (simp_all add: outward_def)

lemma may_reach_bypassed [front_simps]: "\<not> is_bypassed F n a \<Longrightarrow> may_reach F X n a"
  by (auto simp: may_reach_def is_bypassed_def)

lemma may_reach_empty [front_simps]: "may_reach F X n []"
  by (simp add: may_reach_def)

lemma may_reach_fixed [front_simps]: "a \<in> X \<Longrightarrow> may_reach F X n a"
  by (simp add: may_reach_def)

subsection \<open>Runs\<close>

text \<open>The same for the combinators that runs are built with.\<close>

lemma permitted_runs [front_simps]:
  "permitted F X (fst (after e r)) \<longleftrightarrow> allowed F X e \<and> permitted F X (fst r)"
  "permitted F X (fst (deferring e r)) \<longleftrightarrow> permitted F X (fst r) \<and> allowed F X e"
  "permitted F X (fst (holding k r)) \<longleftrightarrow> permitted F X (fst r)"
  "permitted F X (fst (answering W q))"
  "permitted F X (fst (failing q m))"
  "permitted F X (fst (counted G c r)) \<longleftrightarrow> permitted F X (fst r)"
  by (auto simp: run_defs front_simps)

lemma exchange_quiet [front_simps]: "silent (fst (exchange G V b))" "permitted F X (fst (exchange G V b))"
  by (auto simp: exchange_def front_simps split: option.splits)

lemma permitted_replied: "permitted F X (fst r) \<Longrightarrow> permitted F X (fst (replied W q r))"
  by (auto simp: replied_def front_simps split: option.splits)

lemma permitted_relay [front_simps]: "permitted F X (fst (udp_Relay_Run F evs))"
  by (induction F evs rule: udp_Relay_Run.induct) (auto simp: front_simps split: option.splits)

lemma silent_runs [front_simps]:
  "silent (fst (answering W q))" "silent (fst (failing q m))"
  by (auto simp: run_defs front_simps)

lemma tidy_plain:
  "(\<And>k. e \<noteq> Opens k) \<Longrightarrow> (\<And>c. e \<noteq> Counted c) \<Longrightarrow> (\<And>c. e \<noteq> Uncounted c) \<Longrightarrow> tidy es \<Longrightarrow> tidy (e # es)"
  by (auto simp: tidy_def le_SucI)

lemma tidy_holding: "tidy (fst r) \<Longrightarrow> tidy (fst (holding k r))"
  by (auto simp: tidy_def holding_def after_def deferring_def le_SucI)

lemma tidy_counted: "tidy (fst r) \<Longrightarrow> tidy (fst (counted F c r))"
  by (auto simp: tidy_def counted_def after_def deferring_def)

lemma tidy_replied: "tidy (fst r) \<Longrightarrow> tidy (fst (replied W q r))"
  by (auto simp: replied_def after_def tidy_Nil intro!: tidy_plain split: option.splits)

lemma tidy_after: 
  "(\<And>k. e \<noteq> Opens k) \<Longrightarrow> (\<And>c. e \<noteq> Counted c) \<Longrightarrow> (\<And>c. e \<noteq> Uncounted c) \<Longrightarrow> tidy (fst r) \<Longrightarrow>
   tidy (fst (after e r))"
  by (simp add: after_def tidy_plain)

lemma tidy_ends: "tidy (fst (answering W q))" "tidy (fst (failing q m))" "tidy (fst (exchange F W a))"
  by (auto simp: run_defs exchange_def tidy_Nil intro!: tidy_plain split: option.splits)

lemma tidy_relay: "tidy (fst (udp_Relay_Run F evs))"
  by (induction F evs rule: udp_Relay_Run.induct)
    (auto simp: after_def tidy_Nil intro!: tidy_plain split: option.splits)

lemmas tidy_intros = tidy_holding tidy_counted tidy_replied tidy_after tidy_ends tidy_relay
  tidy_Nil tidy_plain

lemma checkRateLimit_admits: "front_checkRateLimit F remote \<longleftrightarrow> admits_remote F remote"
  by (auto simp: front_checkRateLimit_def admits_remote_def split: option.splits)

lemma authenticate_admits: "front_authenticate F u p \<noteq> None \<longleftrightarrow> admits_user F (Some (u, p))"
  by (auto simp: front_authenticate_def admits_user_def split: option.splits prod.splits)

section \<open>Clients of the contract\<close>

text \<open>
  A front end serves a request of a remote address in a world \<open>W\<close>; \<open>fixed\<close> are the targets the
  handler is configured with, \<open>creds\<close> the credentials the client gives there. \<open>sound\<close> says what
  the third-party packages it uses are relied on for.
\<close>

locale rated_front_end =
  fixes serve :: "front \<Rightarrow> 'w \<Rightarrow> string \<Rightarrow> 'q \<Rightarrow> 'r run"
    and sound :: "'w \<Rightarrow> bool"
    and fixed :: "front \<Rightarrow> 'w \<Rightarrow> string set"
  assumes rate_first: "\<not> admits_remote F remote \<Longrightarrow> fst (serve F W remote q) = []"
    and only_permitted: "sound W \<Longrightarrow> permitted F (fixed F W) (fst (serve F W remote q))"
begin

lemma outward_admitted:
  "e \<in> set (fst (serve F W remote q)) \<Longrightarrow> admits_remote F remote"
  using rate_first [of F remote W q] by fastforce

lemma reached_peer:
  assumes "sound W" and "e \<in> set (fst (serve F W remote q))" and "peer_of e = Some (n, a)"
  shows "may_reach F (fixed F W) n a"
  using allowed_peer [OF permittedD [OF only_permitted [OF assms(1)] assms(2)] assms(3)] .

lemma listens_only_if_enabled:
  assumes "sound W" and "e \<in> set (fst (serve F W remote q))" and "listens e"
  shows "fr_enableBind F \<or> fr_enableUDP F"
  using allowed_listens [OF permittedD [OF only_permitted [OF assms(1)] assms(2)] assms(3)] .

end

text \<open>Front ends that ask for credentials.\<close>

locale front_end = rated_front_end serve sound fixed
  for serve :: "front \<Rightarrow> 'w \<Rightarrow> string \<Rightarrow> 'q \<Rightarrow> 'r run" and sound fixed +
  fixes creds :: "'w \<Rightarrow> 'q \<Rightarrow> (string \<times> string) option"
  assumes users_only: "sound W \<Longrightarrow> \<not> admits_user F (creds W q) \<Longrightarrow> silent (fst (serve F W remote q))"
begin

lemma outward_needs:
  assumes "sound W" and "e \<in> set (fst (serve F W remote q))" and "outward e"
  shows "admits_remote F remote" and "admits_user F (creds W q)"
  using assms outward_admitted users_only [of W F q remote] silentD by fastforce+

text \<open>A handler whose auther accepts nobody reaches nobody.\<close>

lemma closed_to_all:
  assumes "sound W" and "fr_auther F = Some A" and "\<And>u p. \<not> snd (A u p)"
  shows "silent (fst (serve F W remote q))"
  using users_only [OF assms(1)] assms(2,3) by (auto simp: admits_user_def)

end

text \<open>Front ends that close what they open.\<close>

locale tidy_rated_front_end = rated_front_end +
  assumes leaves_nothing: "tidy (fst (serve F W remote q))"
begin

lemma closes_what_it_opens:
  "Opens k \<in> set (fst (serve F W remote q)) \<Longrightarrow> Closes k \<in> set (fst (serve F W remote q))"
  using leaves_nothing [of F W remote q] unfolding tidy_def
  by (metis count_list_0_iff le_zero_eq)

end

locale tidy_front_end = front_end serve sound fixed creds + tidy_rated_front_end serve sound fixed
  for serve :: "front \<Rightarrow> 'w \<Rightarrow> string \<Rightarrow> 'q \<Rightarrow> 'r run" and sound fixed creds

end
