(* ===== verification/Socks.thy ===== *)
theory Socks
  imports FrontEnd
begin

text \<open>
  The SOCKS handlers, \<open>x/handler/socks/v5\<close> and \<open>v4\<close>: the choice of a method and the authentication,
  CONNECT, BIND, multiplexed BIND, UDP and UDP over TCP, and SOCKS4's CONNECT.

  The handshake of package \<open>gosocks5\<close> is a parameter: it is given the code's two callbacks and is
  relied on for giving no connection that the second callback has not accepted for a method the
  first one has selected (\<open>runs_selector\<close>). The addresses that replies name are the listeners' own (the one of a dialled connection is left out); the
  rewriting of their host is left out.
\<close>

section \<open>Methods\<close>

datatype socks5_method =
  MethodNoAuth | MethodUserPass | MethodTLS | MethodTLSAuth | MethodNoAcceptable | MethodOther nat

datatype socks5_reply =
  Succeeded string | Failure | NotAllowed | NetUnreachable | CmdUnsupported
| UserPassSucceeded | UserPassFailure

definition socks5_Select :: "front \<Rightarrow> bool \<Rightarrow> socks5_method list \<Rightarrow> socks5_method" where
  "socks5_Select F noTLS methods =
     (let m = (if MethodTLS \<in> set methods \<and> \<not> noTLS then MethodTLS else MethodNoAuth) in
      if fr_auther F = None then m
      else let m1 = (if m = MethodNoAuth then MethodUserPass else m)
           in if m1 = MethodTLS \<and> \<not> noTLS then MethodTLSAuth else m1)"

type_synonym 'r greeting = "'r effect list \<times> (string + string)"

text \<open>What the client does at a server: the handshake that runs it, what it sends as its user name
  and password, the listener's clients, and the results of resolving and of multiplexing.\<close>

datatype bind_end = PeerFailed string | PeerCame string | ClientGone

record socks5_world = "socks5_reply far" +
  sw_handshake ::
    "(socks5_method list \<Rightarrow> socks5_method) \<Rightarrow> (socks5_method \<Rightarrow> socks5_reply greeting) \<Rightarrow> socks5_reply greeting"
  sw_userpass :: "string + string \<times> string"
  sw_bind :: bind_end
  sw_session :: go_error
  sw_peers :: "(string \<times> go_error) list \<times> string"
  sw_local_ip :: "string option"
  sw_resolve :: "string \<Rightarrow> (string \<times> nat) option"

abbreviation sw_far :: "socks5_world \<Rightarrow> socks5_reply far" where
  "sw_far W \<equiv> far.truncate W"

lemma sw_far_simps [simp]:
  "far_dial (sw_far W) = far_dial W" "far_write (sw_far W) = far_write W" "far_sniff (sw_far W) = far_sniff W"
  by (simp_all add: far.defs)

definition socks5_OnSelected :: "front \<Rightarrow> socks5_world \<Rightarrow> socks5_method \<Rightarrow> socks5_reply greeting" where
  "socks5_OnSelected F W m =
     (if m = MethodNoAuth \<or> m = MethodTLS then ([], Inr [])
      else if m = MethodUserPass \<or> m = MethodTLSAuth then
        (case sw_userpass W of
           Inl e \<Rightarrow> ([], Inl e)
         | Inr (u, p) \<Rightarrow>
             (case front_authenticate F u p of
                None \<Rightarrow>
                  ([Reply UserPassFailure],
                   Inl (case far_write W UserPassFailure of Some e \<Rightarrow> e | None \<Rightarrow> ''auth failure''))
              | Some cid \<Rightarrow>
                  ([Reply UserPassSucceeded],
                   case far_write W UserPassSucceeded of Some e \<Rightarrow> Inl e | None \<Rightarrow> Inr cid)))
      else if m = MethodNoAcceptable then ([], Inl ''bad method'')
      else ([], Inl ''bad format''))"

section \<open>Commands\<close>

definition socks5_handleConnect ::
    "front \<Rightarrow> socks5_world \<Rightarrow> string \<Rightarrow> string \<Rightarrow> string \<Rightarrow> socks5_reply run" where
  "socks5_handleConnect F W cid network address =
     counted F cid
       (if is_bypassed F network address then answering (sw_far W) NotAllowed
        else after (Dial network address)
          (case far_dial W network address of
             Inl e \<Rightarrow> failing NetUnreachable e
           | Inr _ \<Rightarrow>
               holding Far (replied (sw_far W) (Succeeded []) (exchange F (sw_far W) address))))"

text \<open>Accepting one peer, or the end of the client's connection before.\<close>

definition socks5_serveBind :: "front \<Rightarrow> socks5_world \<Rightarrow> socks5_reply effect list" where
  "socks5_serveBind F W =
     (case sw_bind W of
        PeerFailed e \<Rightarrow> [Reply Failure]
      | PeerCame a \<Rightarrow> [Opens Peer, Reply (Succeeded a), Transfer a, Closes Peer]
      | ClientGone \<Rightarrow> []) @ [Closes Bound]"

definition socks5_bindLocal :: "front \<Rightarrow> socks5_world \<Rightarrow> string \<Rightarrow> string \<Rightarrow> socks5_reply run" where
  "socks5_bindLocal F W network address =
     after (Listen network address)
       (case far_listen W network address of
          Inl e \<Rightarrow> failing Failure e
        | Inr bound \<Rightarrow>
            after (Opens Bound) (after (Reply (Succeeded bound))
              (case far_write W (Succeeded bound) of
                 Some e \<Rightarrow> ([Closes Bound], Some e)
               | None \<Rightarrow> (socks5_serveBind F W, nil_error))))"

definition socks5_handleBind ::
    "front \<Rightarrow> socks5_world \<Rightarrow> string \<Rightarrow> string \<Rightarrow> string \<Rightarrow> socks5_reply run" where
  "socks5_handleBind F W cid network address =
     (if \<not> fr_enableBind F then answering (sw_far W) NotAllowed
      else counted F cid (socks5_bindLocal F W network address))"

text \<open>Each peer that is accepted gets a stream of the session; \<open>v2\<close> is \<open>compatibilityMode\<close>.\<close>

definition socks5_mux_peer :: "socks5_world \<Rightarrow> bool \<Rightarrow> string \<times> go_error \<Rightarrow> socks5_reply effect list" where
  "socks5_mux_peer W v2 pr =
     Opens Peer #
     (case snd pr of
        Some e \<Rightarrow> []
      | None \<Rightarrow>
          Opens Stream #
          (if v2 then [Transfer (fst pr)]
           else if far_write W (Succeeded (fst pr)) \<noteq> None then [Reply (Succeeded (fst pr))]
           else [Reply (Succeeded (fst pr)), Transfer (fst pr)]) @ [Closes Stream]) @ [Closes Peer]"

text \<open>The listener is closed by the goroutine that starts only when there is a session.\<close>

definition socks5_serveMuxBind :: "socks5_world \<Rightarrow> bool \<Rightarrow> socks5_reply run" where
  "socks5_serveMuxBind W v2 =
     (case sw_session W of
        Some e \<Rightarrow> ([], Some e)
      | None \<Rightarrow>
          holding Session
            (concat (map (socks5_mux_peer W v2) (fst (sw_peers W))) @ [Closes Bound], Some (snd (sw_peers W))))"

definition socks5_muxBindLocal :: "socks5_world \<Rightarrow> bool \<Rightarrow> string \<Rightarrow> string \<Rightarrow> socks5_reply run" where
  "socks5_muxBindLocal W v2 network address =
     after (Listen network address)
       (case far_listen W network address of
          Inl e \<Rightarrow> failing Failure e
        | Inr bound \<Rightarrow>
            after (Opens Bound) (after (Reply (Succeeded bound))
              (case far_write W (Succeeded bound) of
                 Some e \<Rightarrow> ([Closes Bound], Some e)
               | None \<Rightarrow> socks5_serveMuxBind W v2)))"

definition socks5_handleMuxBind ::
    "front \<Rightarrow> socks5_world \<Rightarrow> bool \<Rightarrow> string \<Rightarrow> string \<Rightarrow> string \<Rightarrow> socks5_reply run" where
  "socks5_handleMuxBind F W v2 cid network address =
     (if \<not> fr_enableBind F then answering (sw_far W) NotAllowed
      else counted F cid (socks5_muxBindLocal W v2 network address))"

text \<open>\<open>sw_local_ip\<close> is the address of the client's connection when it is a TCP one; the type
  assertion on it panics otherwise.\<close>

definition wrong_type :: string where "wrong_type = ''socks5: wrong connection type''"

definition socks5_handleUDP :: "front \<Rightarrow> socks5_world \<Rightarrow> string \<Rightarrow> socks5_reply run" where
  "socks5_handleUDP F W cid =
     (if \<not> fr_enableUDP F then answering (sw_far W) NotAllowed
      else case sw_local_ip W of
        None \<Rightarrow> ([Panic], nil_error)
      | Some ip \<Rightarrow>
          after (ListenPacket ''udp'' (JoinHostPort ip ''0''))
            (case far_packet W ''udp'' (JoinHostPort ip ''0'') of
               Inl e \<Rightarrow> failing Failure e
             | Inr bound \<Rightarrow>
                 holding Bound (replied (sw_far W) (Succeeded bound)
                   (after (Dial ''udp'' [])
                     (case far_dial W ''udp'' [] of
                        Inl e \<Rightarrow> ([], Some e)
                      | Inr packet \<Rightarrow>
                          holding Far
                            (if \<not> packet then ([], Some wrong_type)
                             else counted F cid
                               (fst (udp_Relay_Run F (far_udp W) :: socks5_reply run), nil_error)))))))"

text \<open>The packets of the tunnel, relayed by \<open>pc\<close> that has been opened as \<open>k\<close>.\<close>

definition udptun_relay :: "front \<Rightarrow> socks5_world \<Rightarrow> string \<Rightarrow> resource \<Rightarrow> string \<Rightarrow> socks5_reply run" where
  "udptun_relay F W cid k bound =
     holding k (replied (sw_far W) (Succeeded bound)
       (counted F cid (fst (udp_Relay_Run F (far_udp W) :: socks5_reply run), nil_error)))"

definition socks5_handleUDPTun ::
    "front \<Rightarrow> socks5_world \<Rightarrow> string \<Rightarrow> string \<Rightarrow> string \<Rightarrow> socks5_reply run" where
  "socks5_handleUDPTun F W cid network address =
     counted F cid
       (let bind = (case sw_resolve W address of None \<Rightarrow> (''<nil>'', 0) | Some b \<Rightarrow> b) in
        if snd bind = 0 then
          (if \<not> fr_enableUDP F then answering (sw_far W) NotAllowed
           else after (Dial ''udp'' [])
             (case far_dial W ''udp'' [] of
                Inl e \<Rightarrow> ([], Some e)
              | Inr packet \<Rightarrow>
                  if packet then udptun_relay F W cid Far []
                  else holding Far ([], Some wrong_type)))
        else
          (if \<not> fr_enableBind F then answering (sw_far W) NotAllowed
           else after (ListenPacket ''udp'' (fst bind))
             (case far_packet W ''udp'' (fst bind) of
                Inl e \<Rightarrow> failing Failure e
              | Inr bound \<Rightarrow> udptun_relay F W cid Bound bound)))"

section \<open>A connection\<close>

datatype socks5_cmd = CmdConnect | CmdBind | CmdMuxBind | CmdUdp | CmdUDPTun | CmdOther nat

record socks5_md =
  sm_noTLS :: bool
  sm_comp :: bool

definition ErrUnknownCmd :: string where "ErrUnknownCmd = ''socks5: unknown command''"

text \<open>\<open>req\<close> is the command and the address \<open>gosocks5.ReadRequest\<close> gives, or its error.\<close>

definition socks5_Handle ::
    "socks5_md \<Rightarrow> front \<Rightarrow> socks5_world \<Rightarrow> string \<Rightarrow> string + socks5_cmd \<times> string \<Rightarrow> socks5_reply run" where
  "socks5_Handle M F W remote req =
     (if \<not> front_checkRateLimit F remote then ([], Some front_ErrRateLimit)
      else case sw_handshake W (socks5_Select F (sm_noTLS M)) (socks5_OnSelected F W) of
        (es, Inl e) \<Rightarrow> (es, Some e)
      | (es, Inr cid) \<Rightarrow>
          (let r = (case req of
                 Inl e \<Rightarrow> ([], Some e)
               | Inr (cmd, address) \<Rightarrow>
                   (case cmd of
                      CmdConnect \<Rightarrow> socks5_handleConnect F W cid ''tcp'' address
                    | CmdBind \<Rightarrow> socks5_handleBind F W cid ''tcp'' address
                    | CmdMuxBind \<Rightarrow> socks5_handleMuxBind F W (sm_comp M) cid ''tcp'' address
                    | CmdUdp \<Rightarrow> socks5_handleUDP F W cid
                    | CmdUDPTun \<Rightarrow> socks5_handleUDPTun F W cid ''udp'' address
                    | CmdOther n \<Rightarrow> failing CmdUnsupported ErrUnknownCmd))
           in (es @ fst r, snd r)))"

section \<open>SOCKS4\<close>

datatype socks4_reply = Granted | Rejected | Failed | RejectedUserid

datatype socks4_cmd = Socks4Connect | Socks4Bind | Socks4Other nat

record socks4_request =
  s4_cmd :: socks4_cmd
  s4_addr :: string
  s4_userid :: string

definition socks4_handleConnect :: "front \<Rightarrow> socks4_reply far \<Rightarrow> string \<Rightarrow> string \<Rightarrow> socks4_reply run" where
  "socks4_handleConnect F W cid a =
     counted F cid
       (if is_bypassed F ''tcp'' a then answering W Rejected
        else after (Dial ''tcp'' a)
          (case far_dial W ''tcp'' a of
             Inl e \<Rightarrow> failing Failed e
           | Inr _ \<Rightarrow> holding Far (replied W Granted (exchange F W a))))"

definition ErrUnimplemented :: string where "ErrUnimplemented = ''socks4: unimplemented''"
definition socks4_ErrUnknownCmd :: string where "socks4_ErrUnknownCmd = ''socks4: unknown command''"

definition socks4_handleBind :: "socks4_reply run" where
  "socks4_handleBind = ([], Some ErrUnimplemented)"

definition socks4_Handle ::
    "front \<Rightarrow> socks4_reply far \<Rightarrow> string \<Rightarrow> string + socks4_request \<Rightarrow> socks4_reply run" where
  "socks4_Handle F W remote req =
     (if \<not> front_checkRateLimit F remote then ([], Some front_ErrRateLimit)
      else case req of
        Inl e \<Rightarrow> ([], Some e)
      | Inr q \<Rightarrow>
          (case front_authenticate F (s4_userid q) [] of
             None \<Rightarrow> answering W RejectedUserid
           | Some cid \<Rightarrow>
               (case s4_cmd q of
                  Socks4Connect \<Rightarrow> socks4_handleConnect F W cid (s4_addr q)
                | Socks4Bind \<Rightarrow> socks4_handleBind
                | Socks4Other n \<Rightarrow> ([], Some socks4_ErrUnknownCmd))))"

section \<open>The contract\<close>

text \<open>What the handshake of the package is relied on for.\<close>

definition runs_selector :: "socks5_world \<Rightarrow> bool" where
  "runs_selector W \<longleftrightarrow>
     (\<forall>select selected. (\<exists>ms. sw_handshake W select selected = selected (select ms)) \<or>
        (\<exists>e. sw_handshake W select selected = ([], Inl e)))"

definition socks5_creds :: "socks5_world \<Rightarrow> 'q \<Rightarrow> (string \<times> string) option" where
  "socks5_creds W q = (case sw_userpass W of Inl e \<Rightarrow> None | Inr c \<Rightarrow> Some c)"

text \<open>Authentication is mandatory: no method is ever selected that skips it.\<close>

lemma select_with_auther:
  "fr_auther F = Some A \<Longrightarrow> socks5_Select F noTLS ms \<in> {MethodUserPass, MethodTLSAuth}"
  by (auto simp: socks5_Select_def)

lemma selected_quiet: "silent (fst (socks5_OnSelected F W m))"
  by (auto simp: socks5_OnSelected_def front_simps split: sum.splits option.splits prod.splits)

lemma selected_tidy: "tidy (fst (socks5_OnSelected F W m))"
  by (auto simp: socks5_OnSelected_def intro!: tidy_intros split: sum.splits option.splits prod.splits)

lemma selected_user:
  "fr_auther F = Some A \<Longrightarrow> m \<in> {MethodUserPass, MethodTLSAuth} \<Longrightarrow>
   snd (socks5_OnSelected F W m) = Inr cid \<Longrightarrow> admits_user F (socks5_creds W q)"
  by (auto simp: socks5_OnSelected_def socks5_creds_def authenticate_admits [symmetric]
      split: sum.splits option.splits prod.splits)

lemma greeting_result:
  assumes "runs_selector W" and "sw_handshake W (socks5_Select F t) (socks5_OnSelected F W) = (es, g)"
  shows "silent es" and "tidy es" and "g = Inr cid \<Longrightarrow> admits_user F (socks5_creds W q)"
proof -
  from assms(1) consider (run) ms where
      "sw_handshake W (socks5_Select F t) (socks5_OnSelected F W) = socks5_OnSelected F W (socks5_Select F t ms)"
    | (fail) e where "sw_handshake W (socks5_Select F t) (socks5_OnSelected F W) = ([], Inl e)"
    unfolding runs_selector_def by blast
  then have "silent es \<and> tidy es \<and> (g = Inr cid \<longrightarrow> admits_user F (socks5_creds W q))"
  proof cases
    case run
    then have r: "socks5_OnSelected F W (socks5_Select F t ms) = (es, g)" using assms(2) by simp
    then have "silent es" "tidy es"
      using selected_quiet [of F W "socks5_Select F t ms"] selected_tidy [of F W "socks5_Select F t ms"] by simp_all
    moreover have "admits_user F (socks5_creds W q)" if "g = Inr cid"
    proof (cases "fr_auther F")
      case None
      then show ?thesis by (simp add: admits_user_def)
    next
      case (Some A)
      then show ?thesis
        using selected_user [OF Some select_with_auther [OF Some], of W t ms cid q] r that by simp
    qed
    ultimately show ?thesis by simp
  next
    case fail
    then show ?thesis using assms(2) by (auto simp: front_simps)
  qed
  then show "silent es" and "tidy es" and "g = Inr cid \<Longrightarrow> admits_user F (socks5_creds W q)" by auto
qed

lemmas socks5_commands =
  socks5_handleConnect_def socks5_handleBind_def socks5_bindLocal_def socks5_handleMuxBind_def
  socks5_muxBindLocal_def socks5_handleUDP_def socks5_handleUDPTun_def udptun_relay_def

lemma serveBind_quiet: "silent (socks5_serveBind F W)"
  by (auto simp: socks5_serveBind_def front_simps split: bind_end.splits)

lemma mux_peer_quiet: "silent (socks5_mux_peer W v2 p)"
  by (auto simp: socks5_mux_peer_def front_simps split: option.splits)

lemma serveMuxBind_quiet: "silent (fst (socks5_serveMuxBind W v2))"
proof -
  have "silent (concat (map (socks5_mux_peer W v2) ps))" for ps
    by (induction ps) (auto simp: front_simps mux_peer_quiet)
  then show ?thesis by (auto simp: socks5_serveMuxBind_def run_defs front_simps split: option.splits)
qed

lemma socks5_connect_permitted: "permitted F X (fst (socks5_handleConnect F W cid n a))"
  by (auto simp: socks5_handleConnect_def front_simps split: sum.splits intro!: permitted_replied)

lemma socks5_bind_permitted: "permitted F X (fst (socks5_handleBind F W cid n a))"
  by (auto simp: socks5_handleBind_def socks5_bindLocal_def front_simps silent_permitted serveBind_quiet
      split: sum.splits option.splits)

lemma socks5_muxbind_permitted: "permitted F X (fst (socks5_handleMuxBind F W v2 cid n a))"
  by (auto simp: socks5_handleMuxBind_def socks5_muxBindLocal_def front_simps silent_permitted
      serveMuxBind_quiet split: sum.splits option.splits)

lemma socks5_udp_permitted: "permitted F X (fst (socks5_handleUDP F W cid))"
  by (auto simp: socks5_handleUDP_def front_simps split: sum.splits option.splits intro!: permitted_replied)

lemma socks5_udptun_permitted: "permitted F X (fst (socks5_handleUDPTun F W cid n a))"
  by (auto simp: socks5_handleUDPTun_def udptun_relay_def Let_def front_simps
      split: sum.splits option.splits intro!: permitted_replied)

lemmas socks5_permitted = socks5_connect_permitted socks5_bind_permitted socks5_muxbind_permitted
  socks5_udp_permitted socks5_udptun_permitted

interpretation socks5: front_end "socks5_Handle M" runs_selector "\<lambda>_ _. {}" socks5_creds for M
proof unfold_locales
  show "\<not> admits_remote F remote \<Longrightarrow> fst (socks5_Handle M F W remote q) = []" for F remote W q
    by (simp add: socks5_Handle_def checkRateLimit_admits)
next
  fix F :: front and W :: socks5_world and q :: "string + socks5_cmd \<times> string" and remote
  assume W: "runs_selector W" and "\<not> admits_user F (socks5_creds W q)"
  then obtain es e where
    "sw_handshake W (socks5_Select F (sm_noTLS M)) (socks5_OnSelected F W) = (es, Inl e)" and "silent es"
    using greeting_result(1,3) [OF W, of F "sm_noTLS M"]
    by (metis prod.exhaust sum.exhaust)
  then show "silent (fst (socks5_Handle M F W remote q))"
    by (simp add: socks5_Handle_def front_simps)
next
  fix F :: front and W :: socks5_world and q :: "string + socks5_cmd \<times> string" and remote
  assume W: "runs_selector W"
  show "permitted F {} (fst (socks5_Handle M F W remote q))"
    using greeting_result(1) [OF W, of F "sm_noTLS M"]
    by (auto simp: socks5_Handle_def front_simps silent_permitted Let_def
        split: prod.splits sum.splits socks5_cmd.splits intro!: socks5_permitted)
qed

lemma socks4_connect_permitted: "permitted F X (fst (socks4_handleConnect F W cid a))"
  by (auto simp: socks4_handleConnect_def front_simps split: sum.splits intro!: permitted_replied)

definition socks4_creds :: "'w \<Rightarrow> string + socks4_request \<Rightarrow> (string \<times> string) option" where
  "socks4_creds W q = (case q of Inl e \<Rightarrow> None | Inr r \<Rightarrow> Some (s4_userid r, []))"

interpretation socks4: tidy_front_end socks4_Handle "\<lambda>_. True" "\<lambda>_ _. {}" socks4_creds
proof unfold_locales
  show "\<not> admits_remote F remote \<Longrightarrow> fst (socks4_Handle F W remote q) = []" for F remote W q
    by (simp add: socks4_Handle_def checkRateLimit_admits)
  show "\<not> admits_user F (socks4_creds W q) \<Longrightarrow> silent (fst (socks4_Handle F W remote q))" for F W q remote
    by (auto simp: socks4_Handle_def socks4_creds_def authenticate_admits [symmetric] front_simps
        split: sum.splits)
  show "permitted F {} (fst (socks4_Handle F W remote q))" for F W remote q
    by (auto simp: socks4_Handle_def socks4_handleBind_def front_simps
        split: sum.splits option.splits socks4_cmd.splits intro!: socks4_connect_permitted)
  show "tidy (fst (socks4_Handle F W remote q))" for F W remote q
    by (auto simp: socks4_Handle_def socks4_handleBind_def socks4_handleConnect_def
        split: sum.splits option.splits socks4_cmd.splits intro!: tidy_intros)
qed

section \<open>What is holding is closed\<close>

lemma serveBind_tidy: "tidy (Opens Bound # Reply r # socks5_serveBind F W)"
  by (cases "sw_bind W") (auto simp: socks5_serveBind_def tidy_def)

lemma mux_peer_tidy: "tidy (socks5_mux_peer W v2 p)"
  by (cases "snd p") (auto simp: socks5_mux_peer_def tidy_def)

lemma mux_peers_tidy: "tidy (concat (map (socks5_mux_peer W v2) ps))"
  by (induction ps) (auto simp: tidy_Nil intro!: tidy_append mux_peer_tidy)

lemma serveMuxBind_tidy:
  "sw_session W = None \<Longrightarrow> tidy (Opens Bound # Reply r # fst (socks5_serveMuxBind W v2))"
  using mux_peers_tidy [of W v2 "fst (sw_peers W)"]
  by (simp add: socks5_serveMuxBind_def holding_def after_def deferring_def tidy_def)

lemma socks5_bind_tidy: "tidy (fst (socks5_bindLocal F W n a))"
  using serveBind_tidy [of _ F W] 
  by (auto simp: socks5_bindLocal_def after_def failing_def tidy_Nil split: sum.splits option.splits
      intro!: tidy_plain [of "Listen n a"]) (simp_all add: tidy_def)

lemma socks5_muxbind_tidy: "sw_session W = None \<Longrightarrow> tidy (fst (socks5_muxBindLocal W v2 n a))"
  using serveMuxBind_tidy [of W _ v2]
  by (auto simp: socks5_muxBindLocal_def after_def failing_def tidy_Nil split: sum.splits option.splits
      intro!: tidy_plain [of "Listen n a"]) (simp_all add: tidy_def)

lemma socks5_commands_tidy:
  "tidy (fst (socks5_handleConnect F W cid n a))" "tidy (fst (socks5_handleBind F W cid n a))"
  "tidy (fst (socks5_handleUDP F W cid))" "tidy (fst (socks5_handleUDPTun F W cid n a))"
  by (auto simp: socks5_handleConnect_def socks5_handleBind_def socks5_handleUDP_def socks5_handleUDPTun_def
      udptun_relay_def Let_def socks5_bind_tidy split: sum.splits option.splits intro!: tidy_intros)

lemma socks5_muxbind_handler_tidy:
  "sw_session W = None \<Longrightarrow> tidy (fst (socks5_handleMuxBind F W v2 cid n a))"
  by (auto simp: socks5_handleMuxBind_def intro!: tidy_intros socks5_muxbind_tidy)

lemma socks5_tidy:
  assumes W: "runs_selector W" and s: "sw_session W = None \<or> \<not> (\<exists>a. req = Inr (CmdMuxBind, a))"
  shows "tidy (fst (socks5_Handle M F W remote req))"
  using greeting_result(2) [OF W, of F "sm_noTLS M"] s
  by (auto simp: socks5_Handle_def Let_def failing_def socks5_commands_tidy socks5_muxbind_handler_tidy
      tidy_Nil split: prod.splits sum.splits socks5_cmd.splits intro!: tidy_append tidy_plain)

text \<open>A multiplexed bind whose session cannot be made leaves its listener open.\<close>

lemma mux_bind_leaves_listener:
  assumes "fr_enableBind F" and "far_listen W n a = Inr b" and "far_write W (Succeeded b) = None"
    and "sw_session W = Some e"
  shows "Opens Bound \<in> set (fst (socks5_handleMuxBind F W v2 cid n a))"
    and "Closes Bound \<notin> set (fst (socks5_handleMuxBind F W v2 cid n a))"
  using assms
  by (auto simp: socks5_handleMuxBind_def socks5_muxBindLocal_def socks5_serveMuxBind_def run_defs)

text \<open>A UDP tunnel that comes about is counted twice for its client.\<close>

lemma udp_tunnel_counts_twice:
  assumes "fr_observed F" and "fr_enableUDP F" and "sw_resolve W a = Some (b, 0)"
    and "far_dial W ''udp'' [] = Inr True" and "far_write W (Succeeded []) = None"
  shows "2 \<le> count_list (fst (socks5_handleUDPTun F W cid n a)) (Counted cid)"
  using assms by (simp add: socks5_handleUDPTun_def udptun_relay_def run_defs)

text \<open>UDP ASSOCIATE panics when the client's connection is not a TCP one, as over KCP or QUIC.\<close>

lemma udp_associate_panics:
  "fr_enableUDP F \<Longrightarrow> sw_local_ip W = None \<Longrightarrow> fst (socks5_handleUDP F W cid) = [Panic]"
  by (simp add: socks5_handleUDP_def)

section \<open>Access\<close>

text \<open>
  (C14) SOCKS5: whatever the handler does towards the outside for a client (a connection through the
  router, a listener, a packet passed on), the rate limit admits the client's address, the
  authenticator, when there is one, has accepted the user name and password sent, the peer is not
  bypassed for the network, BIND listens only where it is enabled, and UDP sockets are bound only
  where UDP or BIND is.
\<close>

theorem socks5_access:
  assumes "runs_selector W" and "e \<in> set (fst (socks5_Handle M F W remote req))" and "outward e"
  shows "admits_remote F remote \<and> admits_user F (socks5_creds W req) \<and>
    (\<forall>n a. peer_of e = Some (n, a) \<longrightarrow> a = [] \<or> \<not> is_bypassed F n a) \<and>
    (\<forall>n a. e = Listen n a \<longrightarrow> fr_enableBind F) \<and>
    (\<forall>n a. e = ListenPacket n a \<longrightarrow> fr_enableBind F \<or> fr_enableUDP F)"
proof -
  have "allowed F {} e"
    using permittedD [OF socks5.only_permitted [OF assms(1)] assms(2)] .
  moreover have "a = [] \<or> \<not> is_bypassed F n a" if "peer_of e = Some (n, a)" for n a
    using socks5.reached_peer [OF assms(1,2) that] by (auto simp: may_reach_def is_bypassed_def split: option.splits)
  ultimately show ?thesis
    using socks5.outward_needs [OF assms] by auto
qed

definition demo_world :: "socks5_world" where
  "demo_world = \<lparr>far_dial = \<lambda>n a. Inr False, far_local = \<lambda>n a. None, far_listen = \<lambda>n a. Inr a,
     far_packet = \<lambda>n a. Inr a, far_write = \<lambda>r. None, far_sniff = None, far_udp = [],
     sw_handshake = \<lambda>select selected. selected (select [MethodUserPass]),
     sw_userpass = Inr (''u'', ''p''), sw_bind = ClientGone, sw_session = None, sw_peers = ([], ''EOF''),
     sw_local_ip = None, sw_resolve = \<lambda>a. None\<rparr>"

definition demo_front :: front where
  "demo_front = \<lparr>fr_auther = Some (\<lambda>u p. (u, p = ''p'')), fr_bypass = Some (\<lambda>n a. a = ''b:80''),
     fr_rate = None, fr_observed = True, fr_enableBind = True, fr_enableUDP = False, fr_sniffing = False\<rparr>"

lemma demo_selector: "runs_selector demo_world"
  unfolding runs_selector_def demo_world_def by (auto intro: exI [of _ "[MethodUserPass]"])

theorem socks5_access_witness:
  "admits_user demo_front (Some (''u'', ''p'')) \<and> \<not> is_bypassed demo_front ''tcp'' ''a:80''"
  using socks5_access [OF demo_selector, of "Dial ''tcp'' ''a:80''" "\<lparr>sm_noTLS = False, sm_comp = False\<rparr>"
      demo_front "''c:1''" "Inr (CmdConnect, ''a:80'')"]
  by (simp add: demo_world_def demo_front_def socks5_Handle_def socks5_Select_def
      socks5_OnSelected_def socks5_handleConnect_def run_defs is_bypassed_def front_checkRateLimit_def
      front_authenticate_def exchange_def front_simps socks5_creds_def)

end
