(* ===== verification/RelayHandler.thy ===== *)
theory RelayHandler
  imports FrontEnd "HOL-Library.Word"
begin

unbundle bit_operations_syntax

text \<open>
  The relay handler, \<open>x/handler/relay\<close>: the request with its features, authentication, the forward
  mode, CONNECT over the router, a local socket or a serial port, and BIND over TCP and UDP.

  The constants of package \<open>relay\<close> are a parameter, as are the names of its networks.
\<close>

section \<open>Requests\<close>

record relay_pkg =
  rp_Version1 :: "8 word"
  rp_FUDP :: "8 word"
  rp_CmdMask :: "8 word"
  rp_CmdConnect :: "8 word"
  rp_CmdBind :: "8 word"
  rp_network :: "nat \<Rightarrow> string"

datatype relay_feature =
  FeatureUserAuth string string | FeatureAddr string nat | FeatureNetwork nat | FeatureOther

record relay_request =
  rr_version :: "8 word"
  rr_cmd :: "8 word"
  rr_features :: "relay_feature list"

datatype relay_reply =
  StatusOK "string option" | StatusBadRequest | StatusUnauthorized | StatusForbidden
| StatusNetworkUnreachable | StatusHostUnreachable | StatusServiceUnavailable

text \<open>The last feature of a kind wins.\<close>

record relay_target =
  rt_user :: string
  rt_pass :: string
  rt_address :: string
  rt_network :: nat

fun relay_feature_read :: "relay_feature \<Rightarrow> relay_target \<Rightarrow> relay_target" where
  "relay_feature_read (FeatureUserAuth u p) t = t\<lparr>rt_user := u, rt_pass := p\<rparr>"
| "relay_feature_read (FeatureAddr h p) t = t\<lparr>rt_address := JoinHostPort h (show_nat p)\<rparr>"
| "relay_feature_read (FeatureNetwork n) t = t\<lparr>rt_network := n\<rparr>"
| "relay_feature_read FeatureOther t = t"

definition relay_features :: "relay_feature list \<Rightarrow> relay_target" where
  "relay_features fs =
     fold relay_feature_read fs \<lparr>rt_user = [], rt_pass = [], rt_address = [], rt_network = 0\<rparr>"

definition relay_network :: "relay_pkg \<Rightarrow> relay_request \<Rightarrow> string" where
  "relay_network P q =
     (if rr_cmd q AND rp_FUDP P = rp_FUDP P then ''udp'' else rp_network P (rt_network (relay_features (rr_features q))))"

record relay_md =
  re_noDelay :: bool
  re_forwards :: bool

text \<open>The node the hop selects, with whether it has a marker; multiplexing and the service on the
  session as the outside decides them.\<close>

record relay_world = "relay_reply far" +
  yw_select :: "(string \<times> bool) option"
  yw_session :: go_error
  yw_served :: go_error

section \<open>Connecting\<close>

definition udp_network :: "string \<Rightarrow> bool" where
  "udp_network n \<longleftrightarrow> n = ''udp'' \<or> n = ''udp4'' \<or> n = ''udp6''"

text \<open>
  The reply is written at once with \<open>noDelay\<close>, and otherwise kept to be sent before the first bytes
  of the target, in the run where it is kept; keeping it cannot fail.
\<close>

definition relay_greet :: "relay_md \<Rightarrow> relay_world \<Rightarrow> relay_reply run \<Rightarrow> relay_reply run" where
  "relay_greet M W k =
     (if re_noDelay M then replied (far.truncate W) (StatusOK None) k else after (Reply (StatusOK None)) k)"

definition strip_port :: "string \<Rightarrow> string \<Rightarrow> string" where
  "strip_port network a =
     (if (network = ''unix'' \<or> network = ''serial'') \<and> split_host a \<noteq> [] then split_host a else a)"

definition connect_target :: "relay_world \<Rightarrow> string \<Rightarrow> string \<Rightarrow> relay_reply effect \<times> go_error" where
  "connect_target W network a =
     (if network = ''unix'' \<or> network = ''serial'' then (DialLocal network a, far_local W network a)
      else (Dial network a, case far_dial W network a of Inl e \<Rightarrow> Some e | Inr _ \<Rightarrow> None))"

definition no_target :: string where "no_target = ''target not specified''"

definition relay_handleConnect ::
    "relay_md \<Rightarrow> front \<Rightarrow> relay_world \<Rightarrow> string \<Rightarrow> string \<Rightarrow> string \<Rightarrow> relay_reply run" where
  "relay_handleConnect M F W cid network address =
     (let a = strip_port network address in
      counted F cid
        (if a = [] then failing StatusBadRequest no_target
         else if is_bypassed F network a then failing StatusForbidden front_ErrBypass
         else case connect_target W network a of
           (e, Some m) \<Rightarrow> after e (failing StatusNetworkUnreachable m)
         | (e, None) \<Rightarrow> after e (holding Far (relay_greet M W (exchange F (far.truncate W) a)))))"

definition not_available :: string where "not_available = ''target not available''"

definition relay_handleForward ::
    "relay_md \<Rightarrow> front \<Rightarrow> relay_world \<Rightarrow> string \<Rightarrow> string \<Rightarrow> relay_reply run" where
  "relay_handleForward M F W cid network =
     (case yw_select W of
        None \<Rightarrow> failing StatusServiceUnavailable not_available
      | Some (a, marker) \<Rightarrow>
          counted F cid
            (after (Dial network a)
              (case far_dial W network a of
                 Inl e \<Rightarrow>
                   (if marker then after MarkNode (failing StatusHostUnreachable e)
                    else failing StatusHostUnreachable e)
               | Inr _ \<Rightarrow>
                   holding Far
                     (let r = relay_greet M W ([Transfer a], nil_error)
                      in if marker then after ResetNode r else r))))"

section \<open>Binding\<close>

text \<open>The service of a bound port runs on a session over the client's connection.\<close>

definition relay_bindTCP :: "relay_world \<Rightarrow> string \<Rightarrow> string \<Rightarrow> relay_reply run" where
  "relay_bindTCP W network address =
     after (Listen network address)
       (case far_listen W network address of
          Inl e \<Rightarrow> failing StatusServiceUnavailable e
        | Inr bound \<Rightarrow>
            holding Bound (replied (far.truncate W) (StatusOK (Some bound))
              (case yw_session W of
                 Some e \<Rightarrow> ([], Some e)
               | None \<Rightarrow> holding Session ([Transfer bound], yw_served W))))"

text \<open>A port that cannot be bound is not answered.\<close>

definition relay_bindUDP :: "front \<Rightarrow> relay_world \<Rightarrow> string \<Rightarrow> string \<Rightarrow> relay_reply run" where
  "relay_bindUDP F W network address =
     after (ListenPacket network address)
       (case far_packet W network address of
          Inl e \<Rightarrow> ([], Some e)
        | Inr bound \<Rightarrow>
            holding Bound (replied (far.truncate W) (StatusOK (Some bound))
              (fst (udp_Relay_Run F (far_udp W) :: relay_reply run), nil_error)))"

definition relay_handleBind ::
    "front \<Rightarrow> relay_world \<Rightarrow> string \<Rightarrow> string \<Rightarrow> string \<Rightarrow> relay_reply run" where
  "relay_handleBind F W cid network address =
     counted F cid
       (if \<not> fr_enableBind F then answering (far.truncate W) StatusForbidden
        else if network = ''tcp'' then relay_bindTCP W network address
        else relay_bindUDP F W network address)"

section \<open>A connection\<close>

definition ErrBadVersion :: string where "ErrBadVersion = ''relay: bad version''"
definition ErrUnauthorized :: string where "ErrUnauthorized = ''relay: unauthorized''"
definition relay_ErrUnknownCmd :: string where "relay_ErrUnknownCmd = ''relay: unknown command''"

definition relay_dispatch ::
    "relay_pkg \<Rightarrow> relay_md \<Rightarrow> front \<Rightarrow> relay_world \<Rightarrow> string \<Rightarrow> relay_request \<Rightarrow> relay_reply run" where
  "relay_dispatch P M F W cid q =
     (let network = relay_network P q; address = rt_address (relay_features (rr_features q));
          cmd = rr_cmd q AND rp_CmdMask P
      in if re_forwards M then relay_handleForward M F W cid network
         else if cmd = 0 \<or> cmd = rp_CmdConnect P then relay_handleConnect M F W cid network address
         else if cmd = rp_CmdBind P then relay_handleBind F W cid network address
         else failing StatusBadRequest relay_ErrUnknownCmd)"

definition relay_Handle ::
    "relay_pkg \<Rightarrow> relay_md \<Rightarrow> front \<Rightarrow> relay_world \<Rightarrow> string \<Rightarrow> string + relay_request \<Rightarrow> relay_reply run" where
  "relay_Handle P M F W remote req =
     (if \<not> front_checkRateLimit F remote then ([], Some front_ErrRateLimit)
      else case req of
        Inl e \<Rightarrow> ([], Some e)
      | Inr q \<Rightarrow>
          if rr_version q \<noteq> rp_Version1 P then failing StatusBadRequest ErrBadVersion
          else case front_authenticate F (rt_user (relay_features (rr_features q)))
                      (rt_pass (relay_features (rr_features q))) of
            None \<Rightarrow> failing StatusUnauthorized ErrUnauthorized
          | Some cid \<Rightarrow> relay_dispatch P M F W cid q)"

section \<open>The contract\<close>

definition relay_creds :: "'w \<Rightarrow> string + relay_request \<Rightarrow> (string \<times> string) option" where
  "relay_creds W req =
     (case req of
        Inl e \<Rightarrow> None
      | Inr q \<Rightarrow> Some (rt_user (relay_features (rr_features q)), rt_pass (relay_features (rr_features q))))"

definition relay_fixed :: "relay_md \<Rightarrow> front \<Rightarrow> relay_world \<Rightarrow> string set" where
  "relay_fixed M F W = (if re_forwards M then fst ` set_option (yw_select W) else {})"

lemma greet_permitted: "permitted F X (fst k) \<Longrightarrow> permitted F X (fst (relay_greet M W k))"
  by (simp add: relay_greet_def permitted_replied front_simps)

lemma greet_tidy: "tidy (fst k) \<Longrightarrow> tidy (fst (relay_greet M W k))"
  by (auto simp: relay_greet_def intro!: tidy_intros)

lemma connect_target_effect:
  "connect_target W n a = (e, m) \<Longrightarrow> e = DialLocal n a \<or> e = Dial n a"
  by (auto simp: connect_target_def split: if_splits)

lemma relay_connect_permitted: "permitted F X (fst (relay_handleConnect M F W cid n a))"
  by (auto simp: relay_handleConnect_def Let_def front_simps split: prod.splits option.splits
      dest!: connect_target_effect intro!: greet_permitted)

lemma relay_connect_tidy: "tidy (fst (relay_handleConnect M F W cid n a))"
  by (auto simp: relay_handleConnect_def Let_def split: prod.splits option.splits
      dest!: connect_target_effect intro!: tidy_intros greet_tidy)

lemma relay_forward_permitted:
  "re_forwards M \<Longrightarrow> permitted F (relay_fixed M F W) (fst (relay_handleForward M F W cid n))"
  by (auto simp: relay_handleForward_def relay_fixed_def Let_def front_simps
      split: option.splits sum.splits intro!: greet_permitted)

lemma relay_forward_tidy: "tidy (fst (relay_handleForward M F W cid n))"
  by (auto simp: relay_handleForward_def Let_def split: option.splits sum.splits
      intro!: tidy_intros greet_tidy)

lemma relay_bind_permitted: "permitted F X (fst (relay_handleBind F W cid n a))"
  by (auto simp: relay_handleBind_def relay_bindTCP_def relay_bindUDP_def front_simps
      split: sum.splits option.splits intro!: permitted_replied)

lemma relay_bind_tidy: "tidy (fst (relay_handleBind F W cid n a))"
  by (auto simp: relay_handleBind_def relay_bindTCP_def relay_bindUDP_def
      split: sum.splits option.splits intro!: tidy_intros)

interpretation relay: tidy_front_end "relay_Handle P M" "\<lambda>_. True" "relay_fixed M" relay_creds for P M
proof unfold_locales
  show "\<not> admits_remote F remote \<Longrightarrow> fst (relay_Handle P M F W remote q) = []" for F remote W q
    by (simp add: relay_Handle_def checkRateLimit_admits)
  show "\<not> admits_user F (relay_creds W q) \<Longrightarrow> silent (fst (relay_Handle P M F W remote q))" for F W q remote
    by (auto simp: relay_Handle_def relay_creds_def authenticate_admits [symmetric] front_simps
        split: sum.splits)
  show "permitted F (relay_fixed M F W) (fst (relay_Handle P M F W remote q))" for F W remote q
    by (auto simp: relay_Handle_def relay_dispatch_def Let_def front_simps split: sum.splits option.splits
        intro!: relay_forward_permitted relay_connect_permitted relay_bind_permitted)
  show "tidy (fst (relay_Handle P M F W remote q))" for F W remote q
    by (auto simp: relay_Handle_def relay_dispatch_def Let_def split: sum.splits option.splits
        intro!: tidy_intros relay_forward_tidy relay_connect_tidy relay_bind_tidy)
qed

section \<open>Access\<close>

text \<open>In the forward mode no target is checked: a bypassed node of the hop is connected to.\<close>

lemma forward_ignores_bypass:
  "yw_select W = Some (a, mk) \<Longrightarrow> Dial n a \<in> set (fst (relay_handleForward M F W cid n))"
  by (simp add: relay_handleForward_def counted_def after_def deferring_def)

text \<open>
  (C15) Relay: a connection, listener or packet of the handler is for a client whose address the rate
  limit admits and whose user name and password, in the features of its request, the authenticator
  accepts. Its peer is not bypassed for its network, also when it is a Unix socket or a serial port,
  or it is, in the forward mode, the node the hop selected. Listening needs BIND enabled, and every
  connection, listener and session the handler opens is closed when it returns.
\<close>

theorem relay_access:
  assumes "e \<in> set (fst (relay_Handle P M F W remote req))"
  shows "(outward e \<longrightarrow> admits_remote F remote \<and> admits_user F (relay_creds W req)) \<and>
    (\<forall>n a. peer_of e = Some (n, a) \<longrightarrow>
       a = [] \<or> \<not> is_bypassed F n a \<or> re_forwards M \<and> (\<exists>marker. yw_select W = Some (a, marker))) \<and>
    (\<forall>n a. e = Listen n a \<longrightarrow> fr_enableBind F) \<and>
    (\<forall>k. e = Opens k \<longrightarrow> Closes k \<in> set (fst (relay_Handle P M F W remote req)))"
proof -
  have "allowed F (relay_fixed M F W) e"
    using permittedD [OF relay.only_permitted [OF TrueI] assms] .
  moreover have "a = [] \<or> \<not> is_bypassed F n a \<or> re_forwards M \<and> (\<exists>marker. yw_select W = Some (a, marker))"
    if "peer_of e = Some (n, a)" for n a
    using relay.reached_peer [OF TrueI assms that]
    by (auto simp: may_reach_def is_bypassed_def relay_fixed_def split: option.splits if_splits)
  ultimately show ?thesis
    using relay.outward_needs [OF TrueI assms] relay.closes_what_it_opens assms by auto
qed

definition relay_demo_pkg :: relay_pkg where
  "relay_demo_pkg = \<lparr>rp_Version1 = 1, rp_FUDP = 0x80, rp_CmdMask = 0x0F, rp_CmdConnect = 1, rp_CmdBind = 2,
     rp_network = \<lambda>n. if n = 0 then ''tcp'' else ''unix''\<rparr>"

definition relay_demo_world :: relay_world where
  "relay_demo_world = \<lparr>far_dial = \<lambda>n a. Inr False, far_local = \<lambda>n a. None, far_listen = \<lambda>n a. Inr a,
     far_packet = \<lambda>n a. Inr a, far_write = \<lambda>r. None, far_sniff = None, far_udp = [],
     yw_select = None, yw_session = None, yw_served = None\<rparr>"

definition relay_demo_front :: front where
  "relay_demo_front = \<lparr>fr_auther = Some (\<lambda>u p. (u, p = ''p'')), fr_bypass = Some (\<lambda>n a. a = ''b:80''),
     fr_rate = None, fr_observed = False, fr_enableBind = True, fr_enableUDP = False, fr_sniffing = False\<rparr>"

definition relay_demo_request :: relay_request where
  "relay_demo_request = \<lparr>rr_version = 1, rr_cmd = 1,
     rr_features = [FeatureUserAuth ''u'' ''p'', FeatureAddr ''/s'' 0, FeatureNetwork 1]\<rparr>"

theorem relay_access_witness:
  "admits_user relay_demo_front (Some (''u'', ''p'')) \<and> \<not> is_bypassed relay_demo_front ''unix'' ''/s''"
proof -
  let ?M = "\<lparr>re_noDelay = True, re_forwards = False\<rparr>"
  have "fst (relay_Handle relay_demo_pkg ?M relay_demo_front relay_demo_world ''c:1'' (Inr relay_demo_request)) =
    [DialLocal ''unix'' ''/s'', Opens Far, Reply (StatusOK None), Transfer ''/s'', Closes Far]"
    by code_simp
  then show ?thesis
    using relay_access [of "DialLocal ''unix'' ''/s''" relay_demo_pkg ?M relay_demo_front relay_demo_world
        "''c:1''" "Inr relay_demo_request"]
    by (simp add: outward_simps relay_creds_def relay_demo_request_def relay_features_def)
qed

end
