(* ===== verification/Http2Handler.thy ===== *)
theory Http2Handler
  imports FrontEnd HttpHandler
begin

text \<open>
  The HTTP/2 proxy handler, \<open>x/handler/http2\<close>: the tunnels of CONNECT, authentication with probe
  resistance, bypass. The host names, the credentials and the knocking are the functions of the HTTP
  handler, whose copies this package has.

  A reply is the status and the header sent with it. A \<open>ResponseWriter\<close>'s header is one map that
  \<open>resp.Header\<close> is an alias of, until the code replaces it.
\<close>

section \<open>Replies\<close>

type_synonym http2_reply = "int \<times> http_header"

record http2_world = "http2_reply far" +
  hw_get :: "string \<Rightarrow> int option"
  hw_raw :: "string \<Rightarrow> bool"
  hw_answer :: "string \<Rightarrow> http2_reply option"
  hw_file :: "string \<Rightarrow> bool"
  hw_hijack :: "go_error option"

record http2_md =
  h2_header :: http_header
  h2_probe :: "probe_resistance option"
  h2_realm :: string

text \<open>The configured header, copied with one value of each name.\<close>

definition writer_header :: "http2_md \<Rightarrow> http_header" where
  "writer_header M = (\<lambda>k. case h2_header M k of None \<Rightarrow> None | Some vs \<Rightarrow> Some [hdr_Get (h2_header M) k])"

text \<open>\<open>writeResponse\<close> adds the values of \<open>resp.Header\<close> to the writer's own header.\<close>

definition header_sent :: "http_header \<Rightarrow> http_header \<Rightarrow> http_header" where
  "header_sent w r =
     (\<lambda>k. case (w k, r k) of
        (None, None) \<Rightarrow> None
      | (Some vs, None) \<Rightarrow> Some vs
      | (None, Some us) \<Rightarrow> Some us
      | (Some vs, Some us) \<Rightarrow> Some (vs @ us))"

section \<open>Authentication\<close>

text \<open>The status a probe is answered with and what is done for it; \<open>None\<close>: nothing is written by
  \<open>authenticate\<close> itself. The writer's header is passed along.\<close>

definition http2_probe ::
    "http2_world \<Rightarrow> probe_resistance \<Rightarrow> http_header \<Rightarrow> http2_reply effect list \<times> int option \<times> http_header" where
  "http2_probe W pr w =
     (let v = pr_value pr in
      if pr_type pr = ''code'' then ([], Some (fst (Atoi v)), w)
      else if pr_type pr = ''web'' then
        (let url = (if HasPrefix v ''http'' then v else ''http://'' @ v)
         in ([Probe url], Some (case hw_get W url of None \<Rightarrow> 503 | Some code \<Rightarrow> code), w))
      else if pr_type pr = ''host'' then
        (if hw_raw W v then
           (Probe v # (case hw_answer W v of
              None \<Rightarrow> []
            | Some (code, h) \<Rightarrow> [Reply (code, header_sent w h)]), None, w)
         else ([Probe v], Some 503, w))
      else if pr_type pr = ''file'' then
        (if hw_file W v then ([Probe v], Some 200, hdr_Set ''Content-Type'' ''text/html'' w) else ([Probe v], Some 503, w))
      else ([], Some 503, w))"

definition http2_refusal :: "http2_md \<Rightarrow> http_req \<Rightarrow> int \<Rightarrow> http_header \<Rightarrow> http2_reply" where
  "http2_refusal M q code w =
     (if code = 0 then
        (let realm = (if h2_realm M = [] then defaultRealm else h2_realm M);
             h1 = hdr_Add ''Proxy-Authenticate'' (''Basic realm='' @ [CHR 0x22] @ realm @ [CHR 0x22]) w;
             h2 = (if ToLower (hdr_Get (hq_header q) ''Proxy-Connection'') = ''keep-alive''
                   then hdr_Set ''Proxy-Connection'' ''close'' (hdr_Set ''Connection'' ''close'' h1) else h1)
         in (407, header_sent h2 h2))
      else if code = 200 then (code, header_sent w [''Connection'' \<mapsto> [''keep-alive'']])
      else (code, w))"

text \<open>The client's id, \<open>None\<close> when it is refused.\<close>

definition http2_authenticate ::
    "http2_md \<Rightarrow> front \<Rightarrow> http2_world \<Rightarrow> http_req \<Rightarrow> http_header \<Rightarrow> http2_reply effect list \<times> string option" where
  "http2_authenticate M F W q w =
     (case front_authenticate F (fst (credentials_of q)) (snd (credentials_of q)) of
        Some cid \<Rightarrow> ([], Some cid)
      | None \<Rightarrow>
          (case h2_probe M of
             None \<Rightarrow> ([Reply (http2_refusal M q 0 w)], None)
           | Some pr \<Rightarrow>
               if knocks pr q then ([Reply (http2_refusal M q 0 w)], None)
               else (case http2_probe W pr w of
                 (es, None, _) \<Rightarrow> (es, None)
               | (es, Some code, w') \<Rightarrow> (es @ [Reply (http2_refusal M q code w')], None))))"

section \<open>A stream\<close>

definition http2_host :: "http_req \<Rightarrow> string" where
  "http2_host q = with_port (hq_host (take_target ''X-Gost-Target'' (take_target ''Gost-Target'' q)))"

definition http2_connected ::
    "front \<Rightarrow> http2_world \<Rightarrow> string \<Rightarrow> string \<Rightarrow> http_header \<Rightarrow> http2_reply run" where
  "http2_connected F W cid host w =
     after (Reply (200, w))
       (case hw_hijack W of
          Some (Some e) \<Rightarrow> failing (500, w) e
        | _ \<Rightarrow> counted F cid ([Transfer host], nil_error))"

definition authentication_failed :: string where "authentication_failed = ''authentication failed''"

definition http2_roundTrip :: "http2_md \<Rightarrow> front \<Rightarrow> http2_world \<Rightarrow> http_req \<Rightarrow> http2_reply run" where
  "http2_roundTrip M F W q =
     (let host = http2_host q; w = writer_header M in
      case http2_authenticate M F W q w of
        (es, None) \<Rightarrow> (es, Some authentication_failed)
      | (es, Some cid) \<Rightarrow>
          (if is_bypassed F ''tcp'' host then failing (403, w) front_ErrBypass
           else after (Dial ''tcp'' host)
             (case far_dial W ''tcp'' host of
                Inl e \<Rightarrow> failing (503, w) e
              | Inr _ \<Rightarrow>
                  holding Far
                    (if hq_method q = ''CONNECT'' then http2_connected F W cid host w
                     else ([Reply (400, w)], nil_error)))))"

definition wrong_connection :: string where "wrong_connection = ''wrong connection type''"

text \<open>\<open>None\<close>: the connection does not carry the stream's writer and request.\<close>

definition http2_Handle ::
    "http2_md \<Rightarrow> front \<Rightarrow> http2_world \<Rightarrow> string \<Rightarrow> http_req option \<Rightarrow> http2_reply run" where
  "http2_Handle M F W remote req =
     (if \<not> front_checkRateLimit F remote then ([], Some front_ErrRateLimit)
      else case req of
        None \<Rightarrow> ([], Some wrong_connection)
      | Some q \<Rightarrow> http2_roundTrip M F W q)"

section \<open>The contract\<close>

definition http2_creds :: "'w \<Rightarrow> http_req option \<Rightarrow> (string \<times> string) option" where
  "http2_creds W req = map_option credentials_of req"

lemma http2_probe_quiet: "silent (fst (http2_probe W pr w))" "tidy (fst (http2_probe W pr w))"
  by (auto simp: http2_probe_def Let_def front_simps tidy_def split: option.splits)

lemma http2_authenticate_quiet:
  "silent (fst (http2_authenticate M F W q w))" "tidy (fst (http2_authenticate M F W q w))"
  using http2_probe_quiet
  by (auto simp: http2_authenticate_def front_simps split: option.splits prod.splits
      intro!: tidy_append tidy_intros) (metis fst_conv)+

lemma http2_authenticate_user:
  "http2_authenticate M F W q w = (es, r) \<Longrightarrow> r \<noteq> None \<longleftrightarrow> admits_user F (Some (credentials_of q))"
  using authenticate_admits [of F "fst (credentials_of q)" "snd (credentials_of q)"]
  by (cases "front_authenticate F (fst (credentials_of q)) (snd (credentials_of q))")
    (auto simp: http2_authenticate_def split: option.splits prod.splits if_splits)

lemma http2_connected_permitted: "permitted F X (fst (http2_connected F W cid h w))"
  by (auto simp: http2_connected_def front_simps split: option.splits)

lemma http2_connected_tidy: "tidy (fst (http2_connected F W cid h w))"
  by (auto simp: http2_connected_def split: option.splits intro!: tidy_intros)

interpretation http2: tidy_front_end "http2_Handle M" "\<lambda>_. True" "\<lambda>_ _. {}" http2_creds for M
proof unfold_locales
  fix F :: front and W :: http2_world and remote and q :: "http_req option"
  show "\<not> admits_remote F remote \<Longrightarrow> fst (http2_Handle M F W remote q) = []"
    by (simp add: http2_Handle_def checkRateLimit_admits)
  show "\<not> admits_user F (http2_creds W q) \<Longrightarrow> silent (fst (http2_Handle M F W remote q))"
    using http2_authenticate_user http2_authenticate_quiet(1)
    by (auto simp: http2_Handle_def http2_roundTrip_def http2_creds_def Let_def front_simps
        split: option.splits prod.splits) (metis fst_conv option.distinct(1))+
  show "permitted F {} (fst (http2_Handle M F W remote q))"
    using http2_authenticate_quiet(1)
    by (auto simp: http2_Handle_def http2_roundTrip_def Let_def front_simps http2_connected_permitted
        split: option.splits prod.splits sum.splits) (metis fst_conv silent_permitted)+
  show "tidy (fst (http2_Handle M F W remote q))"
    using http2_authenticate_quiet(2)
    by (auto simp: http2_Handle_def http2_roundTrip_def Let_def
        split: option.splits prod.splits sum.splits intro!: tidy_intros http2_connected_tidy) (metis fst_conv)+
qed

text \<open>A refusal carries each header twice, from the writer's header and from its alias.\<close>

lemma refusal_doubles_header:
  "snd (http2_refusal M q 0 w) k = map_option (\<lambda>vs. vs @ vs) (h k)"
  if "h = (if ToLower (hdr_Get (hq_header q) ''Proxy-Connection'') = ''keep-alive''
      then hdr_Set ''Proxy-Connection'' ''close'' (hdr_Set ''Connection'' ''close''
        (hdr_Add ''Proxy-Authenticate'' (''Basic realm='' @ [CHR 0x22] @
           (if h2_realm M = [] then defaultRealm else h2_realm M) @ [CHR 0x22]) w))
      else hdr_Add ''Proxy-Authenticate'' (''Basic realm='' @ [CHR 0x22] @
           (if h2_realm M = [] then defaultRealm else h2_realm M) @ [CHR 0x22]) w)"
  using that by (auto simp: http2_refusal_def header_sent_def Let_def split: option.splits)

text \<open>A request that is not CONNECT is answered 400, but only after its host has been dialled.\<close>

lemma any_method_dials:
  assumes "http2_authenticate M F W q (writer_header M) = (es, Some cid)"
    and "\<not> is_bypassed F ''tcp'' (http2_host q)" and "hq_method q \<noteq> ''CONNECT''"
    and "far_dial W ''tcp'' (http2_host q) = Inr b"
  shows "fst (http2_roundTrip M F W q) =
    [Dial ''tcp'' (http2_host q), Opens Far, Reply (400, writer_header M), Closes Far]"
  using assms by (simp add: http2_roundTrip_def run_defs Let_def)

end
