(* ===== verification/Sniffing.thy ===== *)
theory Sniffing
  imports FrontEnd HttpHandler
begin

text \<open>
  The protocol sniffer of \<open>x/internal/util/sniffing\<close> and the handlers that dial through it: recognising
  HTTP and TLS by the first bytes, the host a connection names and its bypass check, the requests
  on the connection, HTTP/2 with prior knowledge; and the handlers \<open>sni\<close> and \<open>redirect/tcp\<close>.

  The first byte of a TLS handshake record, the client's hello and what the TLS and HTTP/2 packages do
  are parameters. A run's replies are the actions of the HTTP handler's model.
\<close>

section \<open>Recognising the protocol\<close>

definition isHTTP :: "string \<Rightarrow> bool" where
  "isHTTP s \<longleftrightarrow>
     HasPrefix ''GET'' (take 3 s) \<or> HasPrefix ''POST'' (take 4 s) \<or> HasPrefix ''PUT'' (take 3 s) \<or>
     HasPrefix ''DELETE'' s \<or> HasPrefix ''OPTIONS'' s \<or> HasPrefix ''PATCH'' s \<or>
     HasPrefix ''HEAD'' (take 4 s) \<or> HasPrefix ''CONNECT'' s \<or> HasPrefix ''TRACE'' s \<or> HasPrefix s ''PRI *''"

text \<open>\<open>hdr\<close> are the five bytes of a TLS record header, \<open>None\<close> when they do not arrive.\<close>

definition tls_version :: "string \<Rightarrow> nat" where
  "tls_version h = of_char (h ! 1) * 256 + of_char (h ! 2)"

definition Sniff :: "nat \<Rightarrow> string option \<Rightarrow> string" where
  "Sniff handshake hdr =
     (case hdr of
        None \<Rightarrow> []
      | Some h \<Rightarrow>
          if of_char (h ! 0) = handshake \<and> 0x0301 \<le> tls_version h \<and> tls_version h \<le> 0x0304 then ''tls''
          else if isHTTP h then ''http''
          else if h = ''SSH-2'' then ''ssh''
          else [])"

section \<open>HTTP\<close>

definition http10_request :: "http_req \<Rightarrow> http_req" where
  "http10_request q =
     (if hq_http10 q then
        q\<lparr>hq_header := (if ToLower (hdr_Get (hq_header q) ''Connection'') = ''keep-alive''
                        then hdr_Del ''Connection'' (hq_header q)
                        else hdr_Set ''Connection'' ''close'' (hq_header q))\<rparr>
      else q)"

text \<open>One request on the connection; \<open>ow_roundtrip\<close> writes it and reads the response. The error of
  a switch of protocols is dropped by the caller.\<close>

definition sniffed_RoundTrip :: "outside \<Rightarrow> http_req \<Rightarrow> action list \<times> bool \<times> go_error" where
  "sniffed_RoundTrip V q =
     (let f = http10_request q in
      case ow_roundtrip V f of
        Inl e \<Rightarrow> ([Forwarded f], True, Some e)
      | Inr r \<Rightarrow>
          if hs_code r = 101 then (Forwarded f # fst (handleUpgradeResponse V f r), True, nil_error)
          else
            (let r1 = (if hq_http10 q \<and> \<not> hs_close r
                       then r\<lparr>hs_header := hdr_Set ''Connection'' ''keep-alive'' (hs_header r)\<rparr> else r)
             in case ow_write V r1 of
                  Some e \<Rightarrow> ([Forwarded f, Wrote r1], True, Some (''write response: '' @ e))
                | None \<Rightarrow> ([Forwarded f, Wrote r1], if hs_length r1 \<ge> 0 then hs_close r1 else True, nil_error)))"

text \<open>The requests on the connection, until one fails or closes it; the last read ends with \<open>fin\<close>.\<close>

fun sniffed_requests :: "go_error \<Rightarrow> (http_req \<times> outside) list \<Rightarrow> action run" where
  "sniffed_requests fin [] = ([], fin)"
| "sniffed_requests fin ((q, V) # qs) =
     (case sniffed_RoundTrip V q of
        (as, close, e) \<Rightarrow>
          if e \<noteq> nil_error \<or> close then (map Reply as, e)
          else (map Reply as @ fst (sniffed_requests fin qs), snd (sniffed_requests fin qs)))"

text \<open>A dial of the handler: what it does, and its error.\<close>

type_synonym dialer = "string \<Rightarrow> action run"

text \<open>What a client sends: HTTP requests, an HTTP/2 preface (with the hosts its streams make the
  transport dial), or a TLS hello.\<close>

datatype h2_client = H2Client bool "string list"

record tls_client =
  tc_name :: string
  tc_protos :: "string list"

definition serveH2 :: "dialer \<Rightarrow> h2_client \<Rightarrow> action run" where
  "serveH2 dialTLS c =
     (case c of H2Client preface hosts \<Rightarrow>
        if \<not> preface then ([], Some ''h2: invalid client preface'')
        else (concat (map (\<lambda>a. fst (dialTLS a)) hosts), nil_error))"

definition default_port :: "string \<Rightarrow> string \<Rightarrow> string" where
  "default_port host port =
     (case SplitHostPort host of None \<Rightarrow> JoinHostPort (trim_brackets host) port | Some _ \<Rightarrow> host)"

text \<open>The bypass check and the dial common to both protocols.\<close>

definition sniffed_dial :: "front \<Rightarrow> dialer \<Rightarrow> string \<Rightarrow> string \<Rightarrow> (string \<Rightarrow> action run) \<Rightarrow> action run" where
  "sniffed_dial F dial name port k =
     (let host = (if name = [] then [] else default_port name port) in
      if name \<noteq> [] \<and> is_bypassed F ''tcp'' host then ([], Some front_ErrBypass)
      else case dial host of
        (es, Some e) \<Rightarrow> (es, Some e)
      | (es, None) \<Rightarrow> (case holding Far (k host) of (fs, e) \<Rightarrow> (es @ fs, e)))"

text \<open>\<open>Inr None\<close>: an HTTP/2 preface.\<close>

definition sniffer_HandleHTTP ::
    "front \<Rightarrow> dialer \<Rightarrow> dialer \<Rightarrow> h2_client \<Rightarrow> string + (http_req \<times> outside) option \<Rightarrow>
       (http_req \<times> outside) list \<Rightarrow> go_error \<Rightarrow> action run" where
  "sniffer_HandleHTTP F dial dialTLS h2 first qs fin =
     (case first of
        Inl e \<Rightarrow> ([], Some e)
      | Inr None \<Rightarrow> serveH2 dialTLS h2
      | Inr (Some (q, V)) \<Rightarrow>
          sniffed_dial F dial (hq_host q) ''80'' (\<lambda>h. sniffed_requests fin ((q, V) # qs)))"

section \<open>TLS\<close>

record tls_md =
  tm_mitm :: bool
  tm_mitmBypass :: "(string \<Rightarrow> string \<Rightarrow> bool) option"

definition mitm_wanted :: "tls_md \<Rightarrow> tls_client \<Rightarrow> bool" where
  "mitm_wanted M c \<longleftrightarrow>
     tm_mitm M \<and> (case tc_protos c of [] \<Rightarrow> False | p # _ \<Rightarrow> p = ''h2'' \<or> p = ''http/1.1'')"

text \<open>With a certificate the connection is terminated unless its host is excepted, and otherwise
  copied; \<open>orig\<close> is the host recorded before, \<open>res\<close> the error either ends with.\<close>

definition sniffer_HandleTLS ::
    "front \<Rightarrow> tls_md \<Rightarrow> dialer \<Rightarrow> string \<Rightarrow> go_error \<Rightarrow> string + tls_client \<Rightarrow> action run" where
  "sniffer_HandleTLS F M dial orig res hello =
     (case hello of
        Inl e \<Rightarrow> ([], Some e)
      | Inr c \<Rightarrow>
          sniffed_dial F dial (tc_name c) ''443''
            (\<lambda>host. let h = (if host = [] then orig else host) in
               if mitm_wanted M c \<and>
                  (case tm_mitmBypass M of None \<Rightarrow> True | Some contains \<Rightarrow> \<not> contains ''tcp'' h)
               then ([Sniffer h], res) else ([Transfer h], res)))"

section \<open>The handlers\<close>

text \<open>What the client of a handler does, by the protocol that \<open>Sniff\<close> finds.\<close>

record sniffed_client =
  sc_header :: "string option"
  sc_first :: "string + (http_req \<times> outside) option"
  sc_requests :: "(http_req \<times> outside) list"
  sc_fin :: go_error
  sc_h2 :: h2_client
  sc_hello :: "string + tls_client"
  sc_result :: go_error

definition sni_dial :: "action far \<Rightarrow> dialer" where
  "sni_dial W a = ([Dial ''tcp'' a], case far_dial W ''tcp'' a of Inl e \<Rightarrow> Some e | Inr _ \<Rightarrow> None)"

definition unknown_traffic :: string where "unknown_traffic = ''unknown traffic''"

definition sni_Handle ::
    "nat \<Rightarrow> tls_md \<Rightarrow> front \<Rightarrow> action far \<Rightarrow> string \<Rightarrow> sniffed_client \<Rightarrow> action run" where
  "sni_Handle handshake M F W remote c =
     (if \<not> front_checkRateLimit F remote then ([], Some front_ErrRateLimit)
      else
        (let proto = Sniff handshake (sc_header c) in
         if proto = ''http'' then
           sniffer_HandleHTTP F (sni_dial W) (sni_dial W) (sc_h2 c) (sc_first c) (sc_requests c) (sc_fin c)
         else if proto = ''tls'' then
           sniffer_HandleTLS F M (sni_dial W) [] (sc_result c) (sc_hello c)
         else ([], Some unknown_traffic)))"

text \<open>The original destination \<open>dst\<close> of a redirected connection, with the port of which the named host
  is dialled, and which is the fallback.\<close>

definition redirect_address :: "string \<Rightarrow> string \<Rightarrow> string" where
  "redirect_address dst a =
     JoinHostPort (trim_brackets (if split_host a = [] then a else split_host a)) (split_port dst)"

definition redirect_to_dst :: "front \<Rightarrow> action far \<Rightarrow> string \<Rightarrow> action run" where
  "redirect_to_dst F W dst =
     (if is_bypassed F ''tcp'' dst then ([], Some front_ErrBypass) else sni_dial W dst)"

definition redirect_dial :: "front \<Rightarrow> bool \<Rightarrow> action far \<Rightarrow> string \<Rightarrow> dialer" where
  "redirect_dial F fallback W dst a =
     (if a = [] then redirect_to_dst F W dst
      else case sni_dial W (redirect_address dst a) of
        (es, None) \<Rightarrow> (es, None)
      | (es, Some e) \<Rightarrow>
          if \<not> fallback then (es, Some e)
          else (es @ fst (redirect_to_dst F W dst), snd (redirect_to_dst F W dst)))"

definition redirect_direct :: "front \<Rightarrow> action far \<Rightarrow> string \<Rightarrow> action run" where
  "redirect_direct F W dst =
     (if is_bypassed F ''tcp'' dst then ([], Some front_ErrBypass)
      else after (Dial ''tcp'' dst)
        (case far_dial W ''tcp'' dst of
           Inl e \<Rightarrow> ([], Some e)
         | Inr _ \<Rightarrow> holding Far ([Transfer dst], nil_error)))"

text \<open>\<open>Inl\<close>: the original destination is not known.\<close>

definition redirect_Handle ::
    "nat \<Rightarrow> tls_md \<Rightarrow> bool \<Rightarrow> front \<Rightarrow> action far \<Rightarrow> string \<Rightarrow> (string + string) \<times> sniffed_client \<Rightarrow> action run" where
  "redirect_Handle handshake M fallback F W remote = (\<lambda>(origin, c).
     if \<not> front_checkRateLimit F remote then ([], Some front_ErrRateLimit)
     else case origin of
       Inl e \<Rightarrow> ([], Some e)
     | Inr dst \<Rightarrow>
         (let proto = (if fr_sniffing F then Sniff handshake (sc_header c) else []);
              dial = redirect_dial F fallback W dst
          in if proto = ''http'' then
               sniffer_HandleHTTP F dial dial (sc_h2 c) (sc_first c) (sc_requests c) (sc_fin c)
             else if proto = ''tls'' then sniffer_HandleTLS F M dial dst (sc_result c) (sc_hello c)
             else redirect_direct F W dst))"

section \<open>Properties\<close>

lemma isHTTP_iff:
  "length s = 5 \<Longrightarrow> isHTTP s \<longleftrightarrow>
     take 3 s \<in> {''GET'', ''PUT''} \<or> take 4 s \<in> {''POST'', ''HEAD''} \<or>
     s \<in> {''DELET'', ''OPTIO'', ''PATCH'', ''CONNE'', ''TRACE'', ''PRI *''}"
  by (auto simp: isHTTP_def HasPrefix_def min_def)

lemma sniffed_requests_quiet: "silent (fst (sniffed_requests fin qs))" "tidy (fst (sniffed_requests fin qs))"
proof -
  have "silent (map Reply as :: action effect list)" "tidy (map Reply as :: action effect list)" for as :: "action list"
    by (induction as) (auto simp: front_simps intro!: tidy_intros)
  then have "silent (fst (sniffed_requests fin qs)) \<and> tidy (fst (sniffed_requests fin qs))"
    by (induction fin qs rule: sniffed_requests.induct)
      (auto simp: front_simps split: prod.splits intro!: tidy_append)
  then show "silent (fst (sniffed_requests fin qs))" "tidy (fst (sniffed_requests fin qs))" by auto
qed

text \<open>What may be reached through the sniffer: only what its dialer reaches for a host that passes.\<close>

lemma sniffed_dial_peers:
  assumes "e \<in> set (fst (sniffed_dial F dial name port k))" and "outward e" and "\<And>h. silent (fst (k h))"
  shows "\<exists>host. e \<in> set (fst (dial host)) \<and>
    (host = [] \<and> name = [] \<or> host = default_port name port \<and> \<not> is_bypassed F ''tcp'' host)"
proof -
  define host where "host = (if name = [] then [] else default_port name port)"
  have no: "e \<notin> set (fst (holding Far (k host)))"
    using silentD [OF assms(3)] assms(2) by (auto simp: holding_def after_def deferring_def front_simps)
  have "\<not> (name \<noteq> [] \<and> is_bypassed F ''tcp'' host)"
    using assms(1) by (auto simp: sniffed_dial_def host_def)
  moreover from this have "e \<in> set (fst (dial host))"
    using assms(1) no unfolding sniffed_dial_def host_def [symmetric] Let_def
    by (cases "dial host"; cases "holding Far (k host)") (auto split: option.splits)
  ultimately show ?thesis unfolding host_def by (intro exI [of _ host]) (auto simp: host_def)
qed

lemma handleHTTP_peers:
  assumes "e \<in> set (fst (sniffer_HandleHTTP F dial dialTLS h2 first qs fin))" and "outward e"
    and "first \<noteq> Inr None"
  shows "\<exists>host name. e \<in> set (fst (dial host)) \<and>
    (host = [] \<and> name = [] \<or> host = default_port name ''80'' \<and> \<not> is_bypassed F ''tcp'' host)"
proof -
  obtain q V where "e \<in> set (fst (sniffed_dial F dial (hq_host q) ''80'' (\<lambda>h. sniffed_requests fin ((q, V) # qs))))"
    using assms(1,3) by (auto simp: sniffer_HandleHTTP_def split: sum.splits option.splits)
  from sniffed_dial_peers [OF this assms(2) sniffed_requests_quiet(1)] show ?thesis by blast
qed

lemma handleTLS_peers:
  assumes "e \<in> set (fst (sniffer_HandleTLS F M dial orig res hello))" and "outward e"
  shows "\<exists>host name. e \<in> set (fst (dial host)) \<and>
    (host = [] \<and> name = [] \<or> host = default_port name ''443'' \<and> \<not> is_bypassed F ''tcp'' host)"
proof -
  obtain c where "e \<in> set (fst (sniffed_dial F dial (tc_name c) ''443''
      (\<lambda>host. let h = (if host = [] then orig else host) in
         if mitm_wanted M c \<and>
            (case tm_mitmBypass M of None \<Rightarrow> True | Some contains \<Rightarrow> \<not> contains ''tcp'' h)
         then ([Sniffer h], res) else ([Transfer h], res))))"
    using assms(1) by (auto simp: sniffer_HandleTLS_def split: sum.splits)
  then have "\<exists>host. e \<in> set (fst (dial host)) \<and>
      (host = [] \<and> tc_name c = [] \<or> host = default_port (tc_name c) ''443'' \<and> \<not> is_bypassed F ''tcp'' host)"
    by (rule sniffed_dial_peers [OF _ assms(2)]) (simp add: Let_def front_simps)
  then show ?thesis by blast
qed

text \<open>
  SNI: a client is connected only from an address the rate limit admits, and without HTTP/2's
  preface only to a host that is not bypassed.
\<close>

lemma sni_reaches_unbypassed:
  assumes e: "e \<in> set (fst (sni_Handle hs M F W remote c))" and p: "peer_of e = Some (n, a)"
  shows "admits_remote F remote"
    and "a = [] \<or> \<not> is_bypassed F ''tcp'' a \<or> Sniff hs (sc_header c) = ''http'' \<and> sc_first c = Inr None"
proof -
  have o: "outward e" using p by (auto simp: outward_def)
  have d: "e' \<in> set (fst (sni_dial W h)) \<Longrightarrow> e' = Dial ''tcp'' h" for e' h by (simp add: sni_dial_def)
  show "admits_remote F remote"
    using e by (auto simp: sni_Handle_def checkRateLimit_admits [symmetric] split: if_splits)
  show "a = [] \<or> \<not> is_bypassed F ''tcp'' a \<or> Sniff hs (sc_header c) = ''http'' \<and> sc_first c = Inr None"
    using e o p handleHTTP_peers [of e F "sni_dial W"] handleTLS_peers [of e F M "sni_dial W"]
    by (fastforce simp: sni_Handle_def Let_def split: if_splits dest!: d)
qed

text \<open>The streams of an HTTP/2 connection with prior knowledge are dialled whatever the bypass says.\<close>

lemma h2_evades_bypass:
  assumes "front_checkRateLimit F remote" and "Sniff hs (sc_header c) = ''http''"
    and "sc_first c = Inr None" and "sc_h2 c = H2Client True hosts" and "a \<in> set hosts"
  shows "Dial ''tcp'' a \<in> set (fst (sni_Handle hs M F W remote c))"
  using assms by (force simp: sni_Handle_def sniffer_HandleHTTP_def serveH2_def sni_dial_def)

text \<open>
  Redirect: a redirected connection is taken only to its own destination, which is not bypassed
  then, or to the host that its request or its TLS hello names, at the destination's port; the name
  with the port it has there is not bypassed. The one exception is HTTP/2 with prior knowledge.
\<close>

theorem redirect_destinations:
  assumes "e \<in> set (fst (redirect_Handle hs M fallback F W remote (Inr dst, c)))" and "peer_of e = Some (n, a)"
  shows "admits_remote F remote \<and>
    (a = dst \<and> \<not> is_bypassed F ''tcp'' dst \<or>
     (\<exists>host. a = redirect_address dst host \<and> \<not> is_bypassed F ''tcp'' host) \<or>
     fr_sniffing F \<and> Sniff hs (sc_header c) = ''http'' \<and> sc_first c = Inr None)"
proof -
  have o: "outward e" using assms(2) by (auto simp: outward_def)
  let ?d = "redirect_dial F fallback W dst"
  have d: "a = dst \<and> \<not> is_bypassed F ''tcp'' dst \<or> h \<noteq> [] \<and> a = redirect_address dst h"
    if "e \<in> set (fst (?d h))" for h
    using that assms(2)
    by (auto simp: redirect_dial_def redirect_to_dst_def sni_dial_def split: if_splits sum.splits option.splits prod.splits)
  have direct: "a = dst \<and> \<not> is_bypassed F ''tcp'' dst" if "e \<in> set (fst (redirect_direct F W dst))"
    using that assms(2) by (auto simp: redirect_direct_def run_defs split: if_splits sum.splits)
  have "admits_remote F remote"
    using assms(1) by (auto simp: redirect_Handle_def checkRateLimit_admits [symmetric] split: if_splits)
  moreover have "a = dst \<and> \<not> is_bypassed F ''tcp'' dst \<or>
     (\<exists>host. a = redirect_address dst host \<and> \<not> is_bypassed F ''tcp'' host) \<or>
     fr_sniffing F \<and> Sniff hs (sc_header c) = ''http'' \<and> sc_first c = Inr None"
  proof (cases "e \<in> set (fst (redirect_direct F W dst))")
    case True
    then show ?thesis using direct by blast
  next
    case False
    then consider (http) "fr_sniffing F" "Sniff hs (sc_header c) = ''http''"
        "e \<in> set (fst (sniffer_HandleHTTP F ?d ?d (sc_h2 c) (sc_first c) (sc_requests c) (sc_fin c)))"
      | (tls) "e \<in> set (fst (sniffer_HandleTLS F M ?d dst (sc_result c) (sc_hello c)))"
      using assms(1) by (auto simp: redirect_Handle_def Let_def split: if_splits)
    then show ?thesis
    proof cases
      case http
      then show ?thesis using handleHTTP_peers [OF http(3) o] d by (cases "sc_first c = Inr None") blast+
    next
      case tls
      then show ?thesis using handleTLS_peers [OF tls o] d by blast
    qed
  qed
  ultimately show ?thesis by blast
qed

definition plain_client :: sniffed_client where
  "plain_client = \<lparr>sc_header = None, sc_first = Inl ''EOF'', sc_requests = [], sc_fin = None,
     sc_h2 = H2Client False [], sc_hello = Inl ''EOF'', sc_result = None\<rparr>"

definition open_front :: front where
  "open_front = \<lparr>fr_auther = None, fr_bypass = Some (\<lambda>n a. a = ''h:8080''), fr_rate = None,
     fr_observed = False, fr_enableBind = False, fr_enableUDP = False, fr_sniffing = True\<rparr>"

definition open_far :: "action far" where
  "open_far = \<lparr>far_dial = \<lambda>n a. Inr False, far_local = \<lambda>n a. None, far_listen = \<lambda>n a. Inr a,
     far_packet = \<lambda>n a. Inr a, far_write = \<lambda>r. None, far_sniff = None, far_udp = []\<rparr>"

theorem redirect_destinations_witness:
  "\<not> is_bypassed open_front ''tcp'' ''1.2.3.4:80''"
proof -
  have "Dial ''tcp'' ''1.2.3.4:80'' \<in> set (fst (redirect_Handle 22 \<lparr>tm_mitm = False, tm_mitmBypass = None\<rparr> False
      open_front open_far ''c:1'' (Inr ''1.2.3.4:80'', plain_client)))"
    by (simp add: redirect_Handle_def front_checkRateLimit_def open_front_def plain_client_def Sniff_def
        redirect_direct_def open_far_def is_bypassed_def after_def)
  from redirect_destinations [OF this] show ?thesis
    by (auto simp: open_front_def is_bypassed_def plain_client_def)
qed

text \<open>The port the bypass is asked about is not the one that is dialled.\<close>

lemma redirect_evades_port_rule:
  "is_bypassed open_front ''tcp'' ''h:8080''"
  "redirect_address ''1.2.3.4:8080'' (default_port ''h'' ''80'') = ''h:8080''"
  "\<not> is_bypassed open_front ''tcp'' (default_port ''h'' ''80'')"
  by code_simp+

end
