(* ===== verification/ForwardHandlers.thy ===== *)
theory ForwardHandlers
  imports FrontEnd
begin

text \<open>
  Handlers whose clients give no user name: Shadowsocks over TCP and UDP (\<open>x/handler/ss\<close>), port
  forwarding (\<open>x/handler/forward/local\<close> and \<open>remote\<close>), redirected UDP (\<open>x/handler/redirect/udp\<close>), Unix
  sockets (\<open>x/handler/unix\<close>) and the SSH server (\<open>x/handler/sshd\<close>). None of them replies in a protocol
  of its own, except the SSH server, so the replies are booleans.

  The ciphers, and the sniffer of the forwarders when it finds HTTP or TLS, are parameters.
\<close>

type_synonym fwd_run = "bool run"

section \<open>Shadowsocks\<close>

text \<open>\<open>Inl\<close>: no address can be read; the rest of the connection is thrown away then.\<close>

definition ss_Handle :: "front \<Rightarrow> bool far \<Rightarrow> string \<Rightarrow> string + string \<Rightarrow> fwd_run" where
  "ss_Handle F W remote req =
     (if \<not> front_checkRateLimit F remote then ([], Some front_ErrRateLimit)
      else case req of
        Inl e \<Rightarrow> ([], Some e)
      | Inr a \<Rightarrow>
          if is_bypassed F ''tcp'' a then ([], nil_error)
          else after (Dial ''tcp'' a)
            (case far_dial W ''tcp'' a of
               Inl e \<Rightarrow> ([], Some e)
             | Inr _ \<Rightarrow> holding Far (exchange F W a)))"

definition ss_wrong_type :: string where "ss_wrong_type = ''ss: wrong connection type''"

text \<open>\<open>relayPacket\<close> filters and copies as the UDP relay does; its error is dropped.\<close>

definition ssu_Handle :: "front \<Rightarrow> bool far \<Rightarrow> string \<Rightarrow> unit \<Rightarrow> fwd_run" where
  "ssu_Handle F W remote q =
     (if \<not> front_checkRateLimit F remote then ([], Some front_ErrRateLimit)
      else after (Dial ''udp'' [])
        (case far_dial W ''udp'' [] of
           Inl e \<Rightarrow> ([], Some e)
         | Inr packet \<Rightarrow>
             holding Far
               (if packet then (fst (udp_Relay_Run F (far_udp W) :: fwd_run), nil_error)
                else ([], Some ss_wrong_type))))"

section \<open>Forwarding\<close>

text \<open>The node of the hop; \<open>fn_network\<close> is the network of its options, \<open>None\<close> without options.\<close>

record forward_node =
  fn_addr :: string
  fn_network :: "string option"
  fn_marker :: bool

text \<open>What one connection meets: whether it is a packet connection, the host a remote listener's
  metadata names, the run of the sniffer when it takes the connection, and the node selected (or
  the empty node of a handler without a hop).\<close>

record forward_client =
  fc_packet :: bool
  fc_host :: string
  fc_sniffed :: "fwd_run option"
  fc_node :: "forward_node option"

definition node_not_available :: string where "node_not_available = ''node not available''"

definition forward_target :: "bool \<Rightarrow> forward_client \<Rightarrow> forward_node \<Rightarrow> string \<times> string" where
  "forward_target local c n =
     (let network = (if fc_packet c then ''udp'' else ''tcp'') in
      case fn_network n of
        None \<Rightarrow> (network, fn_addr n)
      | Some k \<Rightarrow>
          if k = ''unix'' then (k, fn_addr n)
          else (network,
            if local \<and> SplitHostPort (fn_addr n) = None then fn_addr n @ '':0'' else fn_addr n))"

definition forward_to :: "bool far \<Rightarrow> bool \<Rightarrow> string \<Rightarrow> string \<Rightarrow> fwd_run" where
  "forward_to W marker network a =
     after (Dial network a)
       (case far_dial W network a of
          Inl e \<Rightarrow> (if marker then [MarkNode] else [], Some e)
        | Inr _ \<Rightarrow> holding Far ((if marker then [ResetNode] else []) @ [Transfer a], nil_error))"

text \<open>\<open>local\<close> tells \<open>forward/local\<close> from \<open>forward/remote\<close>. The sniffer takes TCP connections only.\<close>

definition forward_Handle :: "bool \<Rightarrow> front \<Rightarrow> bool far \<Rightarrow> string \<Rightarrow> forward_client \<Rightarrow> fwd_run" where
  "forward_Handle local F W remote c =
     (if \<not> front_checkRateLimit F remote then ([], Some front_ErrRateLimit)
      else case (if \<not> fc_packet c \<and> fr_sniffing F then fc_sniffed c else None) of
        Some r \<Rightarrow> r
      | None \<Rightarrow>
          (case fc_node c of
             None \<Rightarrow> ([], Some node_not_available)
           | Some n \<Rightarrow>
               (case forward_target local c n of (network, a) \<Rightarrow> forward_to W (fn_marker n) network a)))"

text \<open>The node of a remote forwarder without a hop is the one its connection names.\<close>

definition remote_node :: "(forward_node option) option \<Rightarrow> string \<Rightarrow> forward_node option \<Rightarrow> forward_node option" where
  "remote_node selected host named =
     (case selected of
        Some n \<Rightarrow> n
      | None \<Rightarrow> if host = [] then None else named)"

section \<open>Redirected UDP and Unix sockets\<close>

definition redirect_udp_Handle :: "front \<Rightarrow> bool far \<Rightarrow> string \<Rightarrow> string \<times> string \<Rightarrow> fwd_run" where
  "redirect_udp_Handle F W remote = (\<lambda>(network, dst).
     if \<not> front_checkRateLimit F remote then ([], Some front_ErrRateLimit)
     else if is_bypassed F network dst then ([], Some front_ErrBypass)
     else after (Dial network dst)
       (case far_dial W network dst of
          Inl e \<Rightarrow> ([], Some e)
        | Inr _ \<Rightarrow> holding Far ([Transfer dst], nil_error)))"

definition target_not_available :: string where "target_not_available = ''target not available''"

text \<open>Without a chain the socket is dialled locally.\<close>

definition forwardUnix :: "front \<Rightarrow> bool far \<Rightarrow> bool \<Rightarrow> string \<Rightarrow> fwd_run" where
  "forwardUnix F W chain a =
     (if chain then
        after (Dial ''unix'' a)
          (case far_dial W ''unix'' a of Inl e \<Rightarrow> ([], Some e) | Inr _ \<Rightarrow> holding Far (exchange F W a))
      else
        after (DialLocal ''unix'' a)
          (case far_local W ''unix'' a of Some e \<Rightarrow> ([], Some e) | None \<Rightarrow> holding Far (exchange F W a)))"

text \<open>\<open>Some\<close>: the handler has a hop, which selects the node or none. No rate limit is asked.\<close>

definition unix_Handle :: "front \<Rightarrow> bool far \<Rightarrow> bool \<Rightarrow> string option option \<Rightarrow> fwd_run" where
  "unix_Handle F W chain selected =
     (case selected of
        Some None \<Rightarrow> ([], Some target_not_available)
      | Some (Some a) \<Rightarrow> forwardUnix F W chain a
      | None \<Rightarrow>
          after (Dial ''tcp'' ''@'')
            (case far_dial W ''tcp'' ''@'' of
               Inl e \<Rightarrow> ([], Some e)
             | Inr _ \<Rightarrow> holding Far (exchange F W ''@'')))"

section \<open>SSH\<close>

text \<open>The dynamic type of a connection; the wrapper that counts its bytes is a type of its own.\<close>

datatype sshd_conn =
  DirectForwardConn string
| RemoteForwardConn "string + string \<times> bool"
| StatsConn sshd_conn
| OtherConn

definition sshd_WrapConn :: "sshd_conn \<Rightarrow> sshd_conn" where
  "sshd_WrapConn c = StatsConn c"

definition handleDirectForward :: "front \<Rightarrow> bool far \<Rightarrow> string \<Rightarrow> fwd_run" where
  "handleDirectForward F W a =
     (if is_bypassed F ''tcp'' a then ([], Some front_ErrBypass)
      else after (Dial ''tcp'' a)
        (case far_dial W ''tcp'' a of
           Inl e \<Rightarrow> ([], Some e)
         | Inr _ \<Rightarrow> holding Far (exchange F W a)))"

text \<open>The address asked for and whether a reply is wanted; the port of the listener's own address
  can be read whenever there is a listener.\<close>

definition handleRemoteForward :: "bool far \<Rightarrow> string + string \<times> bool \<Rightarrow> fwd_run" where
  "handleRemoteForward W req =
     (case req of
        Inl e \<Rightarrow> ([], Some e)
      | Inr (a, want) \<Rightarrow>
          after (Listen ''tcp'' a)
            (case far_listen W ''tcp'' a of
               Inl e \<Rightarrow> (if want then [Reply False] else [], Some e)
             | Inr bound \<Rightarrow>
                 holding Bound
                   (if want then replied W True ([Transfer bound], nil_error) else ([Transfer bound], nil_error))))"

definition sshd_wrong_type :: string where "sshd_wrong_type = ''sshd: wrong connection type''"

definition sshd_dispatch :: "front \<Rightarrow> bool far \<Rightarrow> sshd_conn \<Rightarrow> fwd_run" where
  "sshd_dispatch F W c =
     (case c of
        DirectForwardConn a \<Rightarrow> handleDirectForward F W a
      | RemoteForwardConn req \<Rightarrow> handleRemoteForward W req
      | _ \<Rightarrow> ([], Some sshd_wrong_type))"

definition sshd_Handle :: "front \<Rightarrow> bool far \<Rightarrow> string \<Rightarrow> sshd_conn \<Rightarrow> fwd_run" where
  "sshd_Handle F W remote c =
     (let conn = sshd_WrapConn c in
      if \<not> front_checkRateLimit F remote then ([], Some front_ErrRateLimit)
      else sshd_dispatch F W conn)"

section \<open>The contract\<close>

interpretation ss: tidy_rated_front_end ss_Handle "\<lambda>_. True" "\<lambda>_ _. {}"
proof unfold_locales
  fix F :: front and W :: "bool far" and remote and q :: "string + string"
  show "\<not> admits_remote F remote \<Longrightarrow> fst (ss_Handle F W remote q) = []"
    by (simp add: ss_Handle_def checkRateLimit_admits)
  show "permitted F {} (fst (ss_Handle F W remote q))"
    by (auto simp: ss_Handle_def front_simps split: sum.splits)
  show "tidy (fst (ss_Handle F W remote q))"
    by (auto simp: ss_Handle_def split: sum.splits intro!: tidy_intros)
qed

interpretation ssu: tidy_rated_front_end ssu_Handle "\<lambda>_. True" "\<lambda>_ _. {}"
proof unfold_locales
  fix F :: front and W :: "bool far" and remote and q :: unit
  show "\<not> admits_remote F remote \<Longrightarrow> fst (ssu_Handle F W remote q) = []"
    by (simp add: ssu_Handle_def checkRateLimit_admits)
  show "permitted F {} (fst (ssu_Handle F W remote q))"
    by (auto simp: ssu_Handle_def front_simps split: sum.splits)
  show "tidy (fst (ssu_Handle F W remote q))"
    by (auto simp: ssu_Handle_def split: sum.splits intro!: tidy_intros)
qed

interpretation redirect_udp: tidy_rated_front_end redirect_udp_Handle "\<lambda>_. True" "\<lambda>_ _. {}"
proof unfold_locales
  fix F :: front and W :: "bool far" and remote and q :: "string \<times> string"
  show "\<not> admits_remote F remote \<Longrightarrow> fst (redirect_udp_Handle F W remote q) = []"
    by (simp add: redirect_udp_Handle_def checkRateLimit_admits split: prod.splits)
  show "permitted F {} (fst (redirect_udp_Handle F W remote q))"
    by (auto simp: redirect_udp_Handle_def front_simps split: prod.splits sum.splits)
  show "tidy (fst (redirect_udp_Handle F W remote q))"
    by (auto simp: redirect_udp_Handle_def split: prod.splits sum.splits intro!: tidy_intros)
qed

text \<open>A forwarder that is not sniffed goes to its node alone, whatever the bypass says, and closes it.\<close>

lemma forward_reaches_node:
  assumes "fc_sniffed c = None" and "e \<in> set (fst (forward_Handle local F W remote c))" and "peer_of e = Some (n, a)"
  shows "admits_remote F remote" and "\<exists>k. fc_node c = Some k \<and> (n, a) = forward_target local c k"
  using assms
  by (auto simp: forward_Handle_def forward_to_def after_def holding_def deferring_def checkRateLimit_admits [symmetric]
      split: if_splits option.splits sum.splits prod.splits)

lemma forward_tidy: "fc_sniffed c = None \<Longrightarrow> tidy (fst (forward_Handle local F W remote c))"
  by (auto simp: forward_Handle_def forward_to_def split: option.splits sum.splits prod.splits
      intro!: tidy_intros)

text \<open>The node is marked as failed exactly when it cannot be dialled, and otherwise its failures are forgotten.\<close>

lemma forward_marks:
  assumes "fn_marker n" and "fc_sniffed c = None" and "fc_node c = Some n" and "front_checkRateLimit F remote"
  shows "MarkNode \<in> set (fst (forward_Handle local F W remote c)) \<longleftrightarrow>
      (\<exists>e. snd (forward_Handle local F W remote c) = Some e)"
    and "ResetNode \<in> set (fst (forward_Handle local F W remote c)) \<longleftrightarrow>
      snd (forward_Handle local F W remote c) = nil_error"
  using assms
  by (auto simp: forward_Handle_def forward_to_def run_defs split: prod.splits sum.splits)

text \<open>The SSH server forwards nothing: the connection it looks at is always the wrapper.\<close>

lemma sshd_forwards_nothing: "fst (sshd_Handle F W remote c) = []"
  by (simp add: sshd_Handle_def sshd_dispatch_def sshd_WrapConn_def)

text \<open>It would, if it looked at the connection it is given.\<close>

lemma sshd_dispatch_forwards:
  "\<not> is_bypassed F ''tcp'' a \<Longrightarrow> Dial ''tcp'' a \<in> set (fst (sshd_dispatch F W (DirectForwardConn a)))"
  by (simp add: sshd_dispatch_def handleDirectForward_def after_def)

end
