(* ===== verification/CmdConfig.thy ===== *)
theory CmdConfig
  imports Metadata Matcher Base64
begin

text \<open>
  The configuration built from command-line services and nodes, \<open>x/config/cmd/cmd.go\<close>.

  The services of a port range share one handler, one listener and one metadata map: a \<open>cmd_group\<close>,
  named by its index. \<open>url.Parse\<close>, durations, floats and the registries of handler and listener types are a
  record of functions; the prefix of all names, from \<open>_GOST_ID\<close>, is an argument. A metadata map is
  its list of entries.
\<close>

section \<open>URLs\<close>

record cmd_url =
  u_scheme :: string
  u_user :: "(string \<times> string) option"
  u_host :: string
  u_hostname :: string
  u_path :: string
  u_query :: "(string \<times> string list) list"

record cmd_env =
  ce_parse :: "string \<Rightarrow> string + cmd_url"
  ce_duration :: "string \<Rightarrow> int option"
  ce_float :: "goval \<Rightarrow> string option"
  ce_handler :: "string \<Rightarrow> bool"
  ce_listener :: "string \<Rightarrow> bool"
  ce_connector :: "string \<Rightarrow> bool"
  ce_dialer :: "string \<Rightarrow> bool"

type_synonym cmd_md = "(string \<times> goval) list"

definition ErrInvalidCmd :: string where "ErrInvalidCmd = ''invalid cmd''"

definition with_scheme :: "string \<Rightarrow> string" where
  "with_scheme s =
     (if HasPrefix s '':'' \<or> \<not> ContainsSub s ''://'' then ''auto://'' @ s else s)"

definition Norm :: "cmd_env \<Rightarrow> string \<Rightarrow> string + cmd_url" where
  "Norm E s0 =
     (let s = TrimSpace s0 in
      if s = [] then Inl ErrInvalidCmd
      else case ce_parse E (with_scheme s) of
        Inl e \<Rightarrow> Inl e
      | Inr u \<Rightarrow> Inr (if u_scheme u = ''https'' then u\<lparr>u_scheme := ''http+tls''\<rparr> else u))"

text \<open>The host of a service is taken out before the URL is parsed, since it may be a port range.\<close>

definition index_any :: "string \<Rightarrow> string \<Rightarrow> nat option" where
  "index_any s cs = (case takeWhile (\<lambda>c. c \<notin> set cs) s of t \<Rightarrow> if length t < length s then Some (length t) else None)"

definition cutHost :: "string \<Rightarrow> string \<times> string" where
  "cutHost s =
     (if s = [] then ([], [])
      else
        (let n = (case IndexByte s CHR '':'' of None \<Rightarrow> 2 | Some i \<Rightarrow> i + 3);
             end = (case index_any (drop n s) ''/?'' of None \<Rightarrow> length s | Some e \<Rightarrow> e + n);
             start = (case LastIndexByte (take (end - n) (drop n s)) CHR ''@'' of None \<Rightarrow> n | Some k \<Rightarrow> n + k + 1)
         in (take (end - start) (drop start s), take start s @ drop end s)))"

definition query_md :: "cmd_url \<Rightarrow> cmd_md" where
  "query_md u = map (\<lambda>(k, v). (k, VStr (hd v))) (filter (\<lambda>(k, v). v \<noteq> []) (u_query u))"

definition md_of :: "cmd_md \<Rightarrow> metadata" where
  "md_of m = NewMetadata (Some m)"

definition md_delete :: "string \<Rightarrow> cmd_md \<Rightarrow> cmd_md" where
  "md_delete k m = filter (\<lambda>e. fst e \<noteq> k) m"

definition md_deletes :: "string list \<Rightarrow> cmd_md \<Rightarrow> cmd_md" where
  "md_deletes ks m = fold md_delete ks m"

section \<open>Parts of a configuration\<close>

record auth_cfg =
  ac_user :: string
  ac_pass :: string

record tls_cfg =
  tc_cert :: string
  tc_key :: string
  tc_ca :: string
  tc_secure :: bool
  tc_server :: string

record selector_cfg =
  lc_strategy :: string
  lc_maxFails :: int
  lc_failTimeout :: int

record rule_cfg =
  rc_name :: string
  rc_whitelist :: bool
  rc_matchers :: "string list"

record resolver_cfg =
  vc_name :: string
  vc_servers :: "(string \<times> string) list"

record hosts_cfg =
  hc_name :: string
  hc_mappings :: "(string \<times> string) list"

record limiter_cfg =
  mc_name :: string
  mc_limits :: "string list"

text \<open>The objects that hops and services refer to by name.\<close>

record cmd_rules =
  ru_bypasses :: "rule_cfg list"
  ru_admissions :: "rule_cfg list"
  ru_resolvers :: "resolver_cfg list"
  ru_hosts :: "hosts_cfg list"
  ru_limiters :: "limiter_cfg list"
  ru_climiters :: "limiter_cfg list"
  ru_rlimiters :: "limiter_cfg list"

definition numbered :: "string \<Rightarrow> string \<Rightarrow> nat \<Rightarrow> string" where
  "numbered prefix kind i = prefix @ kind @ show_nat i"

definition parse_rule :: "string \<Rightarrow> string \<Rightarrow> rule_cfg" where
  "parse_rule name v =
     (let w = HasPrefix v ''~'' in
      \<lparr>rc_name = name, rc_whitelist = w,
       rc_matchers = filter (\<lambda>s. s \<noteq> []) (Split (if w then tl v else v) CHR '','')\<rparr>)"

definition parse_resolver :: "string \<Rightarrow> string \<Rightarrow> string \<Rightarrow> resolver_cfg" where
  "parse_resolver name prefer v =
     \<lparr>vc_name = name, vc_servers = map (\<lambda>s. (s, prefer)) (filter (\<lambda>s. s \<noteq> []) (Split v CHR '',''))\<rparr>"

definition parse_mapping :: "string \<Rightarrow> (string \<times> string) list" where
  "parse_mapping s =
     (case IndexByte s CHR '':'' of None \<Rightarrow> [] | Some i \<Rightarrow> [(take i s, drop (i + 1) s)])"

definition parse_hosts :: "string \<Rightarrow> string \<Rightarrow> hosts_cfg" where
  "parse_hosts name v =
     \<lparr>hc_name = name, hc_mappings = concat (map parse_mapping (Split v CHR '',''))\<rparr>"

text \<open>Each takes the option's value to the name referred to and the rules with the new object.\<close>

definition add_bypass :: "string \<Rightarrow> string \<Rightarrow> cmd_rules \<Rightarrow> string \<times> cmd_rules" where
  "add_bypass prefix v R =
     (if v = [] then ([], R)
      else let name = numbered prefix ''bypass-'' (length (ru_bypasses R))
           in (name, R\<lparr>ru_bypasses := ru_bypasses R @ [parse_rule name v]\<rparr>))"

definition add_admission :: "string \<Rightarrow> string \<Rightarrow> cmd_rules \<Rightarrow> string \<times> cmd_rules" where
  "add_admission prefix v R =
     (if v = [] then ([], R)
      else let name = numbered prefix ''admission-'' (length (ru_admissions R))
           in (name, R\<lparr>ru_admissions := ru_admissions R @ [parse_rule name v]\<rparr>))"

definition add_resolver :: "string \<Rightarrow> string \<Rightarrow> string \<Rightarrow> cmd_rules \<Rightarrow> string \<times> cmd_rules" where
  "add_resolver prefix prefer v R =
     (if v = [] then ([], R)
      else let name = numbered prefix ''resolver-'' (length (ru_resolvers R))
           in (name, R\<lparr>ru_resolvers := ru_resolvers R @ [parse_resolver name prefer v]\<rparr>))"

definition add_hosts :: "string \<Rightarrow> string \<Rightarrow> cmd_rules \<Rightarrow> string \<times> cmd_rules" where
  "add_hosts prefix v R =
     (if v = [] then ([], R)
      else let name = numbered prefix ''hosts-'' (length (ru_hosts R))
           in (name, R\<lparr>ru_hosts := ru_hosts R @ [parse_hosts name v]\<rparr>))"

definition spaced :: "string list \<Rightarrow> string" where
  "spaced fs = concat (map (\<lambda>f. '' '' @ f) fs)"

definition traffic_limits :: "string \<Rightarrow> string \<Rightarrow> string \<Rightarrow> string \<Rightarrow> string list" where
  "traffic_limits i out cin cout =
     (if i \<noteq> [] \<or> out \<noteq> [] then [''$'' @ spaced [i, out]] else []) @
     (if cin \<noteq> [] \<or> cout \<noteq> [] then [''$$'' @ spaced [cin, cout]] else [])"

definition add_limiter :: "string \<Rightarrow> string list \<Rightarrow> cmd_rules \<Rightarrow> string \<times> cmd_rules" where
  "add_limiter prefix limits R =
     (if limits = [] then ([], R)
      else let name = numbered prefix ''limiter-'' (length (ru_limiters R))
           in (name, R\<lparr>ru_limiters := ru_limiters R @ [\<lparr>mc_name = name, mc_limits = limits\<rparr>]\<rparr>))"

definition add_climiter :: "string \<Rightarrow> int \<Rightarrow> cmd_rules \<Rightarrow> string \<times> cmd_rules" where
  "add_climiter prefix n R =
     (if n \<le> 0 then ([], R)
      else let name = numbered prefix ''climiter-'' (length (ru_climiters R))
           in (name, R\<lparr>ru_climiters := ru_climiters R @ [\<lparr>mc_name = name, mc_limits = [''$'' @ spaced [FormatInt n]]\<rparr>]\<rparr>))"

definition add_rlimiter :: "string \<Rightarrow> string option \<Rightarrow> cmd_rules \<Rightarrow> string \<times> cmd_rules" where
  "add_rlimiter prefix r R =
     (case r of
        None \<Rightarrow> ([], R)
      | Some t \<Rightarrow>
          (let name = numbered prefix ''rlimiter-'' (length (ru_rlimiters R))
           in (name, R\<lparr>ru_rlimiters := ru_rlimiters R @ [\<lparr>mc_name = name, mc_limits = [''$'' @ spaced [t]]\<rparr>]\<rparr>)))"

definition parseAuthFromCmd :: "string \<Rightarrow> string + auth_cfg" where
  "parseAuthFromCmd sa =
     (case Std_Decode sa of
        None \<Rightarrow> Inl ''illegal base64 data''
      | Some cs \<Rightarrow>
          (case IndexByte cs CHR '':'' of
             None \<Rightarrow> Inr \<lparr>ac_user = cs, ac_pass = []\<rparr>
           | Some n \<Rightarrow> Inr \<lparr>ac_user = take n cs, ac_pass = drop (n + 1) cs\<rparr>))"

definition selector_keys :: "string list" where
  "selector_keys = [''strategy'', ''maxFails'', ''max_fails'', ''failTimeout'', ''fail_timeout'']"

definition parseSelector :: "cmd_env \<Rightarrow> cmd_md \<Rightarrow> selector_cfg option \<times> cmd_md" where
  "parseSelector E m =
     (let md = md_of m; s = GetString md [''strategy'']; f = GetInt md [''maxFails'', ''max_fails''];
          t = GetDuration (ce_duration E) md [''failTimeout'', ''fail_timeout'']
      in if s = [] \<and> f \<le> 0 \<and> t \<le> 0 then (None, m)
         else (Some \<lparr>lc_strategy = if s = [] then ''round'' else s, lc_maxFails = if f \<le> 0 then 1 else f,
                 lc_failTimeout = if t \<le> 0 then 30 * second else t\<rparr>, md_deletes selector_keys m))"

definition url_auth :: "cmd_url \<Rightarrow> auth_cfg option" where
  "url_auth u = map_option (\<lambda>(n, p). \<lparr>ac_user = n, ac_pass = p\<rparr>) (u_user u)"

definition two_schemes :: "string \<Rightarrow> string \<times> string" where
  "two_schemes scheme =
     (case Split scheme CHR ''+'' of [a] \<Rightarrow> (a, a) | [a, b] \<Rightarrow> (a, b) | _ \<Rightarrow> ([], []))"

definition cert_keys :: "string list" where
  "cert_keys = [''tls.certFile'', ''certFile'', ''cert'', ''tls.keyFile'', ''keyFile'', ''key'', ''tls.caFile'', ''caFile'', ''ca'']"

section \<open>Nodes and hops\<close>

record node_cfg =
  nc_name :: string
  nc_addr :: string
  nc_connector :: string
  nc_connector_auth :: "auth_cfg option"
  nc_dialer :: string
  nc_dialer_auth :: "auth_cfg option"
  nc_tls :: "tls_cfg option"
  nc_md :: cmd_md

record hop_cfg =
  oc_name :: string
  oc_selector :: "selector_cfg option"
  oc_nodes :: "node_cfg list"
  oc_bypass :: string
  oc_resolver :: string
  oc_hosts :: string
  oc_interface :: string
  oc_mark :: "int option"
  oc_md :: cmd_md

definition node_tls :: "cmd_url \<Rightarrow> metadata \<Rightarrow> tls_cfg option" where
  "node_tls u md =
     (let server = GetString md [''tls.servername'', ''servername''];
          t = \<lparr>tc_cert = GetString md [''tls.certFile'', ''certFile'', ''cert''],
               tc_key = GetString md [''tls.keyFile'', ''keyFile'', ''key''],
               tc_ca = GetString md [''tls.caFile'', ''caFile'', ''ca''],
               tc_secure = GetBool md [''tls.secure'', ''secure''],
               tc_server = if server = [] then u_hostname u else server\<rparr>
      in if \<not> tc_secure t \<and> tc_cert t = [] \<and> tc_ca t = [] \<and> tc_server t = [] then None else Some t)"

text \<open>The key that is deleted last is not the one that is read.\<close>

definition buildNodeConfig :: "cmd_env \<Rightarrow> cmd_url \<Rightarrow> string + node_cfg" where
  "buildNodeConfig E u =
     (let m0 = query_md u; md = md_of m0;
          connector = (let c = fst (two_schemes (u_scheme u)) in if ce_connector E c then c else ''http'');
          dialer = (let d = snd (two_schemes (u_scheme u)) in
            if ce_dialer E d then d else if connector = ''ssu'' then ''udp'' else ''tcp'');
          sauth = GetString md [''auth'']
      in case (if sauth \<noteq> [] \<and> u_user u = None then map_sum id Some (parseAuthFromCmd sauth) else Inr (url_auth u)) of
           Inl e \<Rightarrow> Inl e
         | Inr auth \<Rightarrow>
             (let ssh = (dialer = ''ssh'' \<or> dialer = ''sshd'') in
              Inr \<lparr>nc_name = [], nc_addr = u_host u, nc_connector = connector,
                nc_connector_auth = if ssh then None else auth, nc_dialer = dialer,
                nc_dialer_auth = if ssh then auth else None, nc_tls = node_tls u md,
                nc_md = md_deletes (''auth'' # cert_keys @ [''tls.secure'', ''secure'', ''tls.servername'', ''serverName'']) m0\<rparr>))"

definition hop_nodes :: "string \<Rightarrow> node_cfg \<Rightarrow> node_cfg list" where
  "hop_nodes prefix n =
     (let hosts = filter (\<lambda>h. h \<noteq> []) (Split (nc_addr n) CHR '','')
      in map (\<lambda>(i, h). n\<lparr>nc_name := numbered prefix ''node-'' i, nc_addr := h\<rparr>) (enumerate 0 hosts))"

definition drop_used :: "string \<Rightarrow> bool \<Rightarrow> cmd_md \<Rightarrow> cmd_md" where
  "drop_used key used m = (if used then md_delete key m else m)"

text \<open>The options of a hop; the metadata that is read was copied before the first deletion.\<close>

definition buildHop :: "cmd_env \<Rightarrow> string \<Rightarrow> nat \<Rightarrow> cmd_url \<Rightarrow> node_cfg \<Rightarrow> cmd_rules \<Rightarrow> hop_cfg \<times> cmd_rules" where
  "buildHop E prefix i u n R =
     (let m = query_md u; md = md_of m;
          (sel, m1) = parseSelector E m;
          str = (\<lambda>k. GetString md [k]);
          (bp, R1) = add_bypass prefix (str ''bypass'') R;
          (rs, R2) = add_resolver prefix [] (str ''resolver'') R1;
          (hs, R3) = add_hosts prefix (str ''hosts'') R2;
          mark = GetInt md [''so_mark'']
      in (\<lparr>oc_name = numbered prefix ''hop-'' i, oc_selector = sel, oc_nodes = hop_nodes prefix n,
           oc_bypass = bp, oc_resolver = rs, oc_hosts = hs, oc_interface = str ''interface'',
           oc_mark = if mark > 0 then Some mark else None,
           oc_md = drop_used ''so_mark'' (mark > 0) (drop_used ''interface'' (str ''interface'' \<noteq> [])
             (drop_used ''hosts'' (str ''hosts'' \<noteq> []) (drop_used ''resolver'' (str ''resolver'' \<noteq> [])
               (drop_used ''bypass'' (str ''bypass'' \<noteq> []) m1))))\<rparr>, R3))"

fun buildHops :: "cmd_env \<Rightarrow> string \<Rightarrow> nat \<Rightarrow> string list \<Rightarrow> cmd_rules \<Rightarrow> string + hop_cfg list \<times> cmd_rules" where
  "buildHops E prefix i [] R = Inr ([], R)"
| "buildHops E prefix i (node # nodes) R =
     (case Norm E node of
        Inl e \<Rightarrow> Inl e
      | Inr u \<Rightarrow>
          (case buildNodeConfig E u of
             Inl e \<Rightarrow> Inl e
           | Inr n \<Rightarrow>
               (case buildHop E prefix i u n R of
                  (hop, R1) \<Rightarrow> map_sum id (\<lambda>(hops, R2). (hop # hops, R2)) (buildHops E prefix (i + 1) nodes R1))))"

section \<open>Services\<close>

record forward_cfg =
  fc_nodes :: "(string \<times> string) list"
  fc_selector :: "selector_cfg option"

text \<open>What the services of one command share.\<close>

record cmd_group =
  gg_handler :: string
  gg_handler_auth :: "auth_cfg option"
  gg_handler_chain :: string
  gg_retries :: int
  gg_listener :: string
  gg_listener_auth :: "auth_cfg option"
  gg_listener_chain :: string
  gg_tls :: "tls_cfg option"
  gg_md :: cmd_md

record cmd_service =
  vs_name :: string
  vs_addr :: string
  vs_group :: nat
  vs_forwarder :: "forward_cfg option"
  vs_admission :: string
  vs_bypass :: string
  vs_resolver :: string
  vs_hosts :: string
  vs_limiter :: string
  vs_climiter :: string
  vs_rlimiter :: string

definition new_service :: "nat \<Rightarrow> string \<Rightarrow> forward_cfg option \<Rightarrow> cmd_service" where
  "new_service g addr fw =
     \<lparr>vs_name = [], vs_addr = addr, vs_group = g, vs_forwarder = fw, vs_admission = [], vs_bypass = [],
      vs_resolver = [], vs_hosts = [], vs_limiter = [], vs_climiter = [], vs_rlimiter = []\<rparr>"

definition range_addrs :: "string \<Rightarrow> string list" where
  "range_addrs a = (case AddrPortRange_Addrs a of [] \<Rightarrow> [a] | as \<Rightarrow> as)"

definition trim_slashes :: "string \<Rightarrow> string" where
  "trim_slashes s =
     rev (dropWhile (\<lambda>c. c = CHR ''/'') (rev (dropWhile (\<lambda>c. c = CHR ''/'') s)))"

definition forward_nodes :: "string \<Rightarrow> string \<Rightarrow> (string \<times> string) list" where
  "forward_nodes prefix remotes =
     (if remotes = [] then []
      else map (\<lambda>(i, a). (numbered prefix ''target-'' i, a))
        (enumerate 0 (concat (map range_addrs (Split remotes CHR '','')))))"

definition local_listeners :: "string list" where
  "local_listeners = [''tcp'', ''udp'', ''rtcp'', ''rudp'', ''tun'', ''tap'', ''dns'', ''unix'', ''serial'']"

definition forward_handler :: "bool \<Rightarrow> string \<Rightarrow> string \<Rightarrow> string" where
  "forward_handler forwards handler listener =
     (if \<not> forwards \<or> handler = ''relay'' then handler
      else if listener \<in> set local_listeners then listener else ''forward'')"

text \<open>The forwarder of the \<open>i\<close>-th of \<open>n\<close> services.\<close>

definition service_forwarder ::
    "(string \<times> string) list \<Rightarrow> selector_cfg option \<Rightarrow> nat \<Rightarrow> nat \<Rightarrow> forward_cfg option" where
  "service_forwarder nodes sel n i =
     (if nodes = [] then None
      else if n = 1 \<or> length nodes = 1 then Some \<lparr>fc_nodes = nodes, fc_selector = sel\<rparr>
      else if i < length nodes then Some \<lparr>fc_nodes = [nodes ! i], fc_selector = sel\<rparr>
      else None)"

definition service_tls :: "metadata \<Rightarrow> tls_cfg option" where
  "service_tls md =
     (let cert = GetString md [''tls.certFile'', ''certFile'', ''cert''] in
      if cert = [] then None
      else Some \<lparr>tc_cert = cert, tc_key = GetString md [''tls.keyFile'', ''keyFile'', ''key''],
             tc_ca = GetString md [''tls.caFile'', ''caFile'', ''ca''], tc_secure = False, tc_server = []\<rparr>)"

text \<open>\<open>g\<close> is the number of the group; a list set under \<open>dns\<close> goes to a copy of the metadata and is lost.\<close>

definition buildServiceConfig ::
    "cmd_env \<Rightarrow> string \<Rightarrow> nat \<Rightarrow> cmd_url \<Rightarrow> string + cmd_service list \<times> cmd_group" where
  "buildServiceConfig E prefix g u =
     (let h0 = fst (two_schemes (u_scheme u)); l0 = snd (two_schemes (u_scheme u));
          h1 = (if ce_handler E h0 then h0 else ''auto'');
          listener = (if ce_listener E l0 then l0 else if h1 = ''ssu'' then ''udp'' else ''tcp'');
          remotes = trim_slashes (u_path u);
          nodes = forward_nodes prefix remotes;
          handler = forward_handler (remotes \<noteq> []) h1 listener;
          m0 = query_md u; md = md_of m0; sauth = GetString md [''auth'']
      in case (if sauth \<noteq> [] then map_sum id Some (parseAuthFromCmd sauth) else Inr (url_auth u)) of
           Inl e \<Rightarrow> Inl e
         | Inr auth \<Rightarrow>
             (let (sel, m) = parseSelector E (md_deletes (''auth'' # cert_keys) m0);
                  addrs = range_addrs (u_host u); ssh = (listener = ''ssh'' \<or> listener = ''sshd'')
              in Inr (map (\<lambda>(i, a). new_service g a (service_forwarder nodes sel (length addrs) i)) (enumerate 0 addrs),
                   \<lparr>gg_handler = handler, gg_handler_auth = if ssh then None else auth, gg_handler_chain = [],
                    gg_retries = 0, gg_listener = listener, gg_listener_auth = if ssh then auth else None,
                    gg_listener_chain = [], gg_tls = service_tls md, gg_md = m\<rparr>)))"

text \<open>The services of all commands, with their groups.\<close>

fun buildServices ::
    "cmd_env \<Rightarrow> string \<Rightarrow> nat \<Rightarrow> string list \<Rightarrow> string + cmd_service list \<times> cmd_group list" where
  "buildServices E prefix g [] = Inr ([], [])"
| "buildServices E prefix g (s # ss) =
     (let svc = TrimSpace s in
      if svc = [] then buildServices E prefix g ss
      else
        (let (host, rest) = cutHost (with_scheme svc) in
         case Norm E rest of
           Inl e \<Rightarrow> Inl e
         | Inr u \<Rightarrow>
             (case buildServiceConfig E prefix g (u\<lparr>u_host := host\<rparr>) of
                Inl e \<Rightarrow> Inl e
              | Inr (vs, gr) \<Rightarrow>
                  map_sum id (\<lambda>(vss, grs). (vs @ vss, gr # grs)) (buildServices E prefix (g + 1) ss))))"

section \<open>The options of a service\<close>

definition limiter_keys :: "string list" where
  "limiter_keys = [''limiter.in'', ''limiter.out'', ''limiter.conn.in'', ''limiter.conn.out'']"

text \<open>The name and the references of the \<open>i\<close>-th service, from the metadata its group has by then.\<close>

definition finish_service ::
    "cmd_env \<Rightarrow> string \<Rightarrow> nat \<Rightarrow> cmd_service \<Rightarrow> cmd_md \<Rightarrow> cmd_rules \<Rightarrow> cmd_service \<times> cmd_md \<times> cmd_rules" where
  "finish_service E prefix i v m R =
     (let md = md_of m; str = (\<lambda>k. GetString md [k]);
          limits = traffic_limits (str ''limiter.in'') (str ''limiter.out'') (str ''limiter.conn.in'') (str ''limiter.conn.out'');
          rate = (case first_key md [''rlimiter''] of None \<Rightarrow> None | Some x \<Rightarrow> ce_float E x);
          (ad, R1) = add_admission prefix (str ''admission'') R;
          (bp, R2) = add_bypass prefix (str ''bypass'') R1;
          (rs, R3) = add_resolver prefix (str ''prefer'') (str ''resolver'') R2;
          (hs, R4) = add_hosts prefix (str ''hosts'') R3;
          (li, R5) = add_limiter prefix limits R4;
          (cl, R6) = add_climiter prefix (GetInt md [''climiter'']) R5;
          (rl, R7) = add_rlimiter prefix rate R6
      in (v\<lparr>vs_name := numbered prefix ''service-'' i, vs_admission := ad, vs_bypass := bp, vs_resolver := rs,
            vs_hosts := hs, vs_limiter := li, vs_climiter := cl, vs_rlimiter := rl\<rparr>,
          drop_used ''rlimiter'' (rate \<noteq> None) (drop_used ''climiter'' (GetInt md [''climiter''] > 0)
            ((if limits \<noteq> [] then md_deletes limiter_keys else id)
              (drop_used ''hosts'' (str ''hosts'' \<noteq> []) (drop_used ''resolver'' (str ''resolver'' \<noteq> [])
                (drop_used ''bypass'' (str ''bypass'' \<noteq> []) (drop_used ''admission'' (str ''admission'' \<noteq> [])
                  (drop_used ''retries'' (GetInt md [''retries''] > 0) m))))))),
          R7))"

text \<open>What it changes in the group besides the metadata.\<close>

definition finish_group :: "string option \<Rightarrow> cmd_group \<Rightarrow> cmd_group" where
  "finish_group chain g =
     (let g1 = (case chain of
            None \<Rightarrow> g
          | Some c \<Rightarrow>
              if gg_listener g = ''rtcp'' \<or> gg_listener g = ''rudp'' then g\<lparr>gg_listener_chain := c\<rparr>
              else g\<lparr>gg_handler_chain := c\<rparr>);
          r = GetInt (md_of (gg_md g)) [''retries'']
      in if r > 0 then g1\<lparr>gg_retries := r\<rparr> else g1)"

fun finish_services ::
    "cmd_env \<Rightarrow> string \<Rightarrow> string option \<Rightarrow> nat \<Rightarrow> cmd_service list \<Rightarrow> cmd_group list \<Rightarrow> cmd_rules \<Rightarrow>
       cmd_service list \<times> cmd_group list \<times> cmd_rules" where
  "finish_services E prefix chain i [] gs R = ([], gs, R)"
| "finish_services E prefix chain i (v # vs) gs R =
     (let g = gs ! vs_group v in
      case finish_service E prefix i v (gg_md g) R of
        (v1, m1, R1) \<Rightarrow>
          (case finish_services E prefix chain (i + 1) vs (gs[vs_group v := (finish_group chain g)\<lparr>gg_md := m1\<rparr>]) R1 of
             (vs1, gs1, R2) \<Rightarrow> (v1 # vs1, gs1, R2)))"

record cmd_config =
  cc_chain :: "(string \<times> hop_cfg list) option"
  cc_services :: "cmd_service list"
  cc_groups :: "cmd_group list"
  cc_rules :: cmd_rules

definition no_rules :: cmd_rules where
  "no_rules = \<lparr>ru_bypasses = [], ru_admissions = [], ru_resolvers = [], ru_hosts = [], ru_limiters = [],
     ru_climiters = [], ru_rlimiters = []\<rparr>"

definition BuildConfigFromCmd :: "cmd_env \<Rightarrow> string \<Rightarrow> string list \<Rightarrow> string list \<Rightarrow> string + cmd_config" where
  "BuildConfigFromCmd E prefix services nodes =
     (let chain = (if nodes = [] then None else Some (numbered prefix ''chain-'' 0)) in
      case buildHops E prefix 0 nodes no_rules of
        Inl e \<Rightarrow> Inl e
      | Inr (hops, R) \<Rightarrow>
          (case buildServices E prefix 0 services of
             Inl e \<Rightarrow> Inl e
           | Inr (vs, gs) \<Rightarrow>
               (case finish_services E prefix chain 0 vs gs R of
                  (vs1, gs1, R1) \<Rightarrow>
                    Inr \<lparr>cc_chain = map_option (\<lambda>c. (c, hops)) chain, cc_services = vs1, cc_groups = gs1,
                      cc_rules = R1\<rparr>)))"

end
