(* ===== verification/CmdConfigProps.thy ===== *)
theory CmdConfigProps
  imports CmdConfig
begin

text \<open>
  What the configuration built from the command line satisfies: its names are distinct and every
  reference resolves; the host is cut out of a service without loss; the services of a port range
  share their options, so that only the first has them.
\<close>

section \<open>Names\<close>

lemma numbered_inj: "numbered p k i = numbered p k j \<Longrightarrow> i = j"
proof -
  assume "numbered p k i = numbered p k j"
  then have "show_nat i = show_nat j" by (simp add: numbered_def)
  then have "digits_value 0 (show_nat i) = digits_value 0 (show_nat j)" by (rule arg_cong)
  then show "i = j" by (simp add: digits_value_show_nat)
qed

lemma distinct_numbered: "distinct (map (numbered p k) [a..<b])"
  by (auto simp: distinct_map inj_on_def dest: numbered_inj)

text \<open>The names of each kind of object, in the order they were added.\<close>

definition names_of_kind :: "string \<Rightarrow> cmd_rules \<Rightarrow> string list" where
  "names_of_kind k R =
     (if k = ''bypass-'' then map rc_name (ru_bypasses R)
      else if k = ''admission-'' then map rc_name (ru_admissions R)
      else if k = ''resolver-'' then map vc_name (ru_resolvers R)
      else if k = ''hosts-'' then map hc_name (ru_hosts R)
      else if k = ''limiter-'' then map mc_name (ru_limiters R)
      else if k = ''climiter-'' then map mc_name (ru_climiters R)
      else if k = ''rlimiter-'' then map mc_name (ru_rlimiters R)
      else [])"

definition rules_ok :: "string \<Rightarrow> cmd_rules \<Rightarrow> bool" where
  "rules_ok p R \<longleftrightarrow> (\<forall>k. names_of_kind k R = map (numbered p k) [0..<length (names_of_kind k R)])"

text \<open>\<open>R'\<close> has all the objects of \<open>R\<close>.\<close>

definition keeps :: "cmd_rules \<Rightarrow> cmd_rules \<Rightarrow> bool" where
  "keeps R R' \<longleftrightarrow> (\<forall>k. set (names_of_kind k R) \<subseteq> set (names_of_kind k R'))"

definition refers :: "string \<Rightarrow> cmd_rules \<Rightarrow> string \<Rightarrow> bool" where
  "refers k R name \<longleftrightarrow> name = [] \<or> name \<in> set (names_of_kind k R)"

lemma keeps_refl: "keeps R R" by (simp add: keeps_def)

lemma keeps_trans: "keeps R S \<Longrightarrow> keeps S T \<Longrightarrow> keeps R T"
  unfolding keeps_def by blast

lemma refers_keeps: "refers k R n \<Longrightarrow> keeps R S \<Longrightarrow> refers k S n"
  unfolding refers_def keeps_def by blast

lemma rules_ok_distinct: "rules_ok p R \<Longrightarrow> distinct (names_of_kind k R)"
  unfolding rules_ok_def by (metis distinct_numbered)

lemma rules_ok_no_rules: "rules_ok p no_rules"
  by (simp add: rules_ok_def names_of_kind_def no_rules_def)

text \<open>Adding one object of the kind \<open>k\<close> under the next name.\<close>

lemma appends_one:
  assumes "\<And>k'. names_of_kind k' R' = names_of_kind k' R @ (if k' = k then [numbered p k (length (names_of_kind k R))] else [])"
  shows "rules_ok p R \<Longrightarrow> rules_ok p R'" and "keeps R R'"
    and "refers k R' (numbered p k (length (names_of_kind k R)))"
proof -
  show "rules_ok p R'" if "rules_ok p R"
  proof -
    have ok: "map (numbered p k') [0..<length (names_of_kind k' R)] = names_of_kind k' R" for k'
      using that unfolding rules_ok_def by (metis (no_types))
    have "names_of_kind k' R' = map (numbered p k') [0..<length (names_of_kind k' R')]" for k'
      by (cases "k' = k") (simp_all add: assms ok)
    then show ?thesis unfolding rules_ok_def by blast
  qed
  show "keeps R R'" unfolding keeps_def using assms by auto
  show "refers k R' (numbered p k (length (names_of_kind k R)))"
    unfolding refers_def assms [of k] by simp
qed

definition adds :: "string \<Rightarrow> string \<Rightarrow> cmd_rules \<Rightarrow> string \<times> cmd_rules \<Rightarrow> bool" where
  "adds p k R r \<longleftrightarrow> (rules_ok p R \<longrightarrow> rules_ok p (snd r)) \<and> keeps R (snd r) \<and> refers k (snd r) (fst r)"

lemma adds_nothing: "adds p k R ([], R)"
  by (simp add: adds_def keeps_refl refers_def)

lemma adds_one:
  assumes "\<And>k'. names_of_kind k' R' = names_of_kind k' R @ (if k' = k then [numbered p k (length (names_of_kind k R))] else [])"
  shows "adds p k R (numbered p k (length (names_of_kind k R)), R')"
  using appends_one [OF assms] by (auto simp: adds_def)

lemma adds_bypass: "adds p ''bypass-'' R (add_bypass p v R)"
  using adds_one [of "R\<lparr>ru_bypasses := ru_bypasses R @ [parse_rule (numbered p ''bypass-'' (length (ru_bypasses R))) v]\<rparr>" R "''bypass-''" p]
  by (auto simp: add_bypass_def adds_nothing names_of_kind_def parse_rule_def Let_def)

lemma adds_admission: "adds p ''admission-'' R (add_admission p v R)"
  using adds_one [of "R\<lparr>ru_admissions := ru_admissions R @ [parse_rule (numbered p ''admission-'' (length (ru_admissions R))) v]\<rparr>" R "''admission-''" p]
  by (auto simp: add_admission_def adds_nothing names_of_kind_def parse_rule_def Let_def)

lemma adds_resolver: "adds p ''resolver-'' R (add_resolver p f v R)"
  using adds_one [of "R\<lparr>ru_resolvers := ru_resolvers R @ [parse_resolver (numbered p ''resolver-'' (length (ru_resolvers R))) f v]\<rparr>" R "''resolver-''" p]
  by (auto simp: add_resolver_def adds_nothing names_of_kind_def parse_resolver_def Let_def)

lemma adds_hosts: "adds p ''hosts-'' R (add_hosts p v R)"
  using adds_one [of "R\<lparr>ru_hosts := ru_hosts R @ [parse_hosts (numbered p ''hosts-'' (length (ru_hosts R))) v]\<rparr>" R "''hosts-''" p]
  by (auto simp: add_hosts_def adds_nothing names_of_kind_def parse_hosts_def Let_def)

lemma adds_limiter: "adds p ''limiter-'' R (add_limiter p ls R)"
  using adds_one [of "R\<lparr>ru_limiters := ru_limiters R @ [\<lparr>mc_name = numbered p ''limiter-'' (length (ru_limiters R)), mc_limits = ls\<rparr>]\<rparr>" R "''limiter-''" p]
  by (auto simp: add_limiter_def adds_nothing names_of_kind_def Let_def)

lemma adds_climiter: "adds p ''climiter-'' R (add_climiter p n R)"
  using adds_one [of "R\<lparr>ru_climiters := ru_climiters R @ [\<lparr>mc_name = numbered p ''climiter-'' (length (ru_climiters R)), mc_limits = [''$'' @ spaced [FormatInt n]]\<rparr>]\<rparr>" R "''climiter-''" p]
  by (auto simp: add_climiter_def adds_nothing names_of_kind_def Let_def)

lemma adds_rlimiter: "adds p ''rlimiter-'' R (add_rlimiter p r R)"
  using adds_one [of "R\<lparr>ru_rlimiters := ru_rlimiters R @ [\<lparr>mc_name = numbered p ''rlimiter-'' (length (ru_rlimiters R)), mc_limits = [''$'' @ spaced [the r]]\<rparr>]\<rparr>" R "''rlimiter-''" p]
  by (cases r) (auto simp: add_rlimiter_def adds_nothing names_of_kind_def Let_def)

lemmas adds_rules = adds_bypass adds_admission adds_resolver adds_hosts adds_limiter adds_climiter adds_rlimiter

lemma addsD: "adds p k R r \<Longrightarrow> r = (n, R') \<Longrightarrow> (rules_ok p R \<longrightarrow> rules_ok p R') \<and> keeps R R' \<and> refers k R' n"
  by (simp add: adds_def)

section \<open>Hops\<close>

definition hop_ok :: "cmd_rules \<Rightarrow> hop_cfg \<Rightarrow> bool" where
  "hop_ok R h \<longleftrightarrow>
     refers ''bypass-'' R (oc_bypass h) \<and> refers ''resolver-'' R (oc_resolver h) \<and> refers ''hosts-'' R (oc_hosts h)"

lemma hop_ok_keeps: "hop_ok R h \<Longrightarrow> keeps R S \<Longrightarrow> hop_ok S h"
  unfolding hop_ok_def by (blast intro: refers_keeps)

lemma adds_chain:
  assumes "rules_ok p R" and "adds p k R r"
  shows "rules_ok p (snd r)" and "keeps R (snd r)" and "refers k (snd r) (fst r)"
  using assms by (auto simp: adds_def)

lemma buildHop_ok:
  assumes "rules_ok p R"
  shows "rules_ok p (snd (buildHop E p i u n R)) \<and> keeps R (snd (buildHop E p i u n R)) \<and>
    hop_ok (snd (buildHop E p i u n R)) (fst (buildHop E p i u n R))"
proof -
  let ?s = "\<lambda>k. GetString (md_of (query_md u)) [k]" and ?h = "buildHop E p i u n R"
  let ?b = "add_bypass p (?s ''bypass'') R"
  let ?r = "add_resolver p [] (?s ''resolver'') (snd ?b)"
  let ?h' = "add_hosts p (?s ''hosts'') (snd ?r)"
  have f: "snd ?h = snd ?h'" "oc_bypass (fst ?h) = fst ?b" "oc_resolver (fst ?h) = fst ?r" "oc_hosts (fst ?h) = fst ?h'"
    by (simp_all add: buildHop_def Let_def case_prod_beta)
  note b = adds_chain [OF assms adds_bypass]
  note r = adds_chain [OF b(1) adds_resolver]
  note h = adds_chain [OF r(1) adds_hosts]
  have "keeps (snd ?b) (snd ?h')" using r(2) h(2) by (rule keeps_trans)
  then show ?thesis
    unfolding hop_ok_def f using h(1,3) keeps_trans [OF b(2)] refers_keeps [OF b(3)] refers_keeps [OF r(3) h(2)]
    by blast
qed

lemma buildHop_name: "oc_name (fst (buildHop E p i u n R)) = numbered p ''hop-'' i"
  by (simp add: buildHop_def Let_def case_prod_beta)

lemma buildHops_ok:
  "buildHops E p i ns R = Inr (hs, R') \<Longrightarrow> rules_ok p R \<Longrightarrow>
     rules_ok p R' \<and> keeps R R' \<and> list_all (hop_ok R') hs \<and>
     map oc_name hs = map (numbered p ''hop-'') [i..<i + length ns]"
proof (induction E p i ns R arbitrary: hs R' rule: buildHops.induct)
  case (1 E p i R)
  then show ?case by (simp add: keeps_refl)
next
  case (2 E p i node nodes R)
  then obtain u n where u: "Norm E node = Inr u" "buildNodeConfig E u = Inr n"
    by (auto split: sum.splits)
  obtain h R1 where h: "buildHop E p i u n R = (h, R1)" by (metis surj_pair)
  have "map_sum id (\<lambda>(hops, R2). (h # hops, R2)) (buildHops E p (i + 1) nodes R1) = Inr (hs, R')"
    using 2(2) u h by simp
  then obtain hs1 where r: "buildHops E p (i + 1) nodes R1 = Inr (hs1, R')" and hs: "hs = h # hs1"
    by (cases "buildHops E p (i + 1) nodes R1") auto
  have k: "rules_ok p R1 \<and> keeps R R1 \<and> hop_ok R1 h" using buildHop_ok [OF 2(3), of E i u n] h by simp
  have "rules_ok p R' \<and> keeps R1 R' \<and> list_all (hop_ok R') hs1 \<and> map oc_name hs1 = map (numbered p ''hop-'') [i + 1..<i + 1 + length nodes]"
    by (rule 2(1) [OF u h [symmetric] r]) (use k in simp)
  moreover have "oc_name h = numbered p ''hop-'' i"
    using buildHop_name [of E p i u n R] h by simp
  moreover have "[i..<i + length (node # nodes)] = i # [i + 1..<i + 1 + length nodes]"
    by (simp add: upt_conv_Cons del: upt_Suc)
  ultimately show ?case using k by (auto simp: hs simp del: upt_Suc intro: keeps_trans hop_ok_keeps)
qed

section \<open>Services\<close>

definition service_ok :: "cmd_rules \<Rightarrow> cmd_service \<Rightarrow> bool" where
  "service_ok R v \<longleftrightarrow>
     refers ''admission-'' R (vs_admission v) \<and> refers ''bypass-'' R (vs_bypass v) \<and>
     refers ''resolver-'' R (vs_resolver v) \<and> refers ''hosts-'' R (vs_hosts v) \<and>
     refers ''limiter-'' R (vs_limiter v) \<and> refers ''climiter-'' R (vs_climiter v) \<and>
     refers ''rlimiter-'' R (vs_rlimiter v)"

lemma service_ok_keeps: "service_ok R v \<Longrightarrow> keeps R S \<Longrightarrow> service_ok S v"
  unfolding service_ok_def by (blast intro: refers_keeps)

lemma finish_service_ok:
  assumes "rules_ok p R"
  shows "rules_ok p (snd (snd (finish_service E p i v m R))) \<and> keeps R (snd (snd (finish_service E p i v m R))) \<and>
    service_ok (snd (snd (finish_service E p i v m R))) (fst (finish_service E p i v m R))"
proof -
  let ?md = "md_of m" and ?f = "finish_service E p i v m R"
  let ?s = "\<lambda>k. GetString ?md [k]"
  let ?ls = "traffic_limits (?s ''limiter.in'') (?s ''limiter.out'') (?s ''limiter.conn.in'') (?s ''limiter.conn.out'')"
  let ?rate = "case first_key ?md [''rlimiter''] of None \<Rightarrow> None | Some x \<Rightarrow> ce_float E x"
  let ?a = "add_admission p (?s ''admission'') R"
  let ?b = "add_bypass p (?s ''bypass'') (snd ?a)"
  let ?r = "add_resolver p (?s ''prefer'') (?s ''resolver'') (snd ?b)"
  let ?h = "add_hosts p (?s ''hosts'') (snd ?r)"
  let ?l = "add_limiter p ?ls (snd ?h)"
  let ?c = "add_climiter p (GetInt ?md [''climiter'']) (snd ?l)"
  let ?q = "add_rlimiter p ?rate (snd ?c)"
  have f: "snd (snd ?f) = snd ?q" "vs_admission (fst ?f) = fst ?a" "vs_bypass (fst ?f) = fst ?b"
    "vs_resolver (fst ?f) = fst ?r" "vs_hosts (fst ?f) = fst ?h" "vs_limiter (fst ?f) = fst ?l"
    "vs_climiter (fst ?f) = fst ?c" "vs_rlimiter (fst ?f) = fst ?q"
    by (simp_all add: finish_service_def Let_def case_prod_beta)
  note a = adds_chain [OF assms adds_admission]
  note b = adds_chain [OF a(1) adds_bypass]
  note r = adds_chain [OF b(1) adds_resolver]
  note h = adds_chain [OF r(1) adds_hosts]
  note l = adds_chain [OF h(1) adds_limiter]
  note c = adds_chain [OF l(1) adds_climiter]
  note q = adds_chain [OF c(1) adds_rlimiter]
  note kc = q(2)
  note kl = keeps_trans [OF c(2) kc]
  note kh = keeps_trans [OF l(2) kl]
  note kr = keeps_trans [OF h(2) kh]
  note kb = keeps_trans [OF r(2) kr]
  note ka = keeps_trans [OF b(2) kb]
  show ?thesis
    unfolding service_ok_def f
    by (intro conjI q(1) q(3) keeps_trans [OF a(2) ka] refers_keeps [OF a(3) ka] refers_keeps [OF b(3) kb]
      refers_keeps [OF r(3) kr] refers_keeps [OF h(3) kh] refers_keeps [OF l(3) kl] refers_keeps [OF c(3) kc])
qed

lemma finish_service_fields:
  "vs_name (fst (finish_service E p i v m R)) = numbered p ''service-'' i"
  "vs_group (fst (finish_service E p i v m R)) = vs_group v"
  by (simp_all add: finish_service_def Let_def case_prod_beta)

definition chains_ok :: "string option \<Rightarrow> cmd_group \<Rightarrow> bool" where
  "chains_ok c g \<longleftrightarrow>
     (gg_handler_chain g = [] \<or> c = Some (gg_handler_chain g)) \<and>
     (gg_listener_chain g = [] \<or> c = Some (gg_listener_chain g))"

lemma finish_group_chains: "chains_ok c g \<Longrightarrow> chains_ok c ((finish_group c g)\<lparr>gg_md := m\<rparr>)"
  by (auto simp: chains_ok_def finish_group_def Let_def split: option.splits)

lemma finish_services_ok:
  "finish_services E p c i vs gs R = (vs1, gs1, R1) \<Longrightarrow> rules_ok p R \<Longrightarrow> list_all (chains_ok c) gs \<Longrightarrow>
     rules_ok p R1 \<and> keeps R R1 \<and> list_all (service_ok R1) vs1 \<and> length gs1 = length gs \<and>
     map vs_group vs1 = map vs_group vs \<and> map vs_name vs1 = map (numbered p ''service-'') [i..<i + length vs] \<and>
     list_all (chains_ok c) gs1"
proof (induction E p c i vs gs R arbitrary: vs1 gs1 R1 rule: finish_services.induct)
  case (1 E p c i gs R)
  then show ?case by (auto simp: keeps_refl)
next
  case (2 E p c i v vs gs R)
  let ?g = "gs ! vs_group v"
  obtain v1 m1 R2 where f: "finish_service E p i v (gg_md ?g) R = (v1, m1, R2)" by (metis surj_pair)
  let ?gs = "gs[vs_group v := (finish_group c ?g)\<lparr>gg_md := m1\<rparr>]"
  obtain vs2 gs2 R3 where r: "finish_services E p c (i + 1) vs ?gs R2 = (vs2, gs2, R3)" by (metis surj_pair)
  have eq: "vs1 = v1 # vs2" "gs1 = gs2" "R1 = R3" using 2(2) f r by (simp_all add: Let_def)
  have k: "rules_ok p R2 \<and> keeps R R2 \<and> service_ok R2 v1"
    using finish_service_ok [OF 2(3), of E i v "gg_md ?g"] f by simp
  have "list_all (chains_ok c) ?gs"
  proof (cases "vs_group v < length gs")
    case True
    then have "chains_ok c ?g" using 2(4) by (simp add: list_all_length)
    then show ?thesis
      using finish_group_chains 2(4) set_update_subset_insert [of gs "vs_group v"]
      by (fastforce simp: list_all_iff)
  next
    case False
    then show ?thesis using 2(4) by (simp add: list_update_beyond)
  qed
  with 2(1) [OF refl f [symmetric] refl r] k
  have "rules_ok p R3 \<and> keeps R2 R3 \<and> list_all (service_ok R3) vs2 \<and> length gs2 = length gs \<and>
     map vs_group vs2 = map vs_group vs \<and> map vs_name vs2 = map (numbered p ''service-'') [i + 1..<i + 1 + length vs] \<and>
     list_all (chains_ok c) gs2" by simp
  moreover have "vs_name v1 = numbered p ''service-'' i" "vs_group v1 = vs_group v"
    using finish_service_fields [of E p i v "gg_md ?g" R] f by simp_all
  moreover have "[i..<i + length (v # vs)] = i # [i + 1..<i + 1 + length vs]"
    by (simp add: upt_conv_Cons del: upt_Suc)
  ultimately show ?case using k
    by (auto simp: eq simp del: upt_Suc intro: keeps_trans service_ok_keeps)
qed

lemma buildServiceConfig_fresh:
  assumes "buildServiceConfig E p g u = Inr (vs, gr)"
  shows "list_all (\<lambda>v. vs_group v = g) vs" and "chains_ok c gr"
  using assms
  by (auto simp: buildServiceConfig_def Let_def list_all_iff new_service_def chains_ok_def case_prod_beta
      split: sum.splits)

lemma buildServices_ok:
  "buildServices E p g ss = Inr (vs, grs) \<Longrightarrow>
     list_all (\<lambda>v. g \<le> vs_group v \<and> vs_group v < g + length grs) vs \<and> list_all (chains_ok c) grs"
proof (induction E p g ss arbitrary: vs grs rule: buildServices.induct)
  case (1 E p g)
  then show ?case by simp
next
  case (2 E p g s ss)
  show ?case
  proof (cases "TrimSpace s = []")
    case True
    then show ?thesis using 2 by simp
  next
    case False
    obtain host rest where ch: "cutHost (with_scheme (TrimSpace s)) = (host, rest)" by (metis surj_pair)
    obtain u where u: "Norm E rest = Inr u" using 2(3) False ch by (auto simp: Let_def split: sum.splits)
    obtain vs1 gr where b: "buildServiceConfig E p g (u\<lparr>u_host := host\<rparr>) = Inr (vs1, gr)"
      using 2(3) False ch u by (auto simp: Let_def split: sum.splits)
    have "map_sum id (\<lambda>(vss, grs). (vs1 @ vss, gr # grs)) (buildServices E p (g + 1) ss) = Inr (vs, grs)"
      using 2(3) False ch u b by (simp add: Let_def)
    then obtain vs2 grs2 where r: "buildServices E p (g + 1) ss = Inr (vs2, grs2)" and eq: "vs = vs1 @ vs2" "grs = gr # grs2"
      by (cases "buildServices E p (g + 1) ss") auto
    have "list_all (\<lambda>v. g + 1 \<le> vs_group v \<and> vs_group v < g + 1 + length grs2) vs2 \<and> list_all (chains_ok c) grs2"
      by (rule 2(2) [OF refl False ch [symmetric] refl u b refl r])
    then show ?thesis using buildServiceConfig_fresh [OF b]
      by (auto simp: eq list_all_iff)
  qed
qed

section \<open>Whole configurations\<close>

definition config_ok :: "cmd_config \<Rightarrow> bool" where
  "config_ok c \<longleftrightarrow>
     list_all (service_ok (cc_rules c)) (cc_services c) \<and>
     list_all (\<lambda>v. vs_group v < length (cc_groups c)) (cc_services c) \<and>
     list_all (chains_ok (map_option fst (cc_chain c))) (cc_groups c) \<and>
     (case cc_chain c of None \<Rightarrow> True | Some (n, hops) \<Rightarrow> list_all (hop_ok (cc_rules c)) hops)"

lemma BuildConfigFromCmd_ok:
  assumes "BuildConfigFromCmd E p services nodes = Inr c"
  shows "config_ok c \<and> (\<forall>k. distinct (names_of_kind k (cc_rules c))) \<and> distinct (map vs_name (cc_services c)) \<and>
    distinct (concat (map (\<lambda>ch. map oc_name (snd ch)) (case cc_chain c of None \<Rightarrow> [] | Some ch \<Rightarrow> [ch])))"
proof -
  let ?ch = "if nodes = [] then None else Some (numbered p ''chain-'' 0)"
  obtain hops R where h: "buildHops E p 0 nodes no_rules = Inr (hops, R)"
    using assms by (auto simp: BuildConfigFromCmd_def Let_def split: sum.splits)
  obtain vs gs where b: "buildServices E p 0 services = Inr (vs, gs)"
    using assms h by (auto simp: BuildConfigFromCmd_def Let_def split: sum.splits)
  obtain vs1 gs1 R1 where f: "finish_services E p ?ch 0 vs gs R = (vs1, gs1, R1)" by (metis surj_pair)
  have c: "c = \<lparr>cc_chain = map_option (\<lambda>n. (n, hops)) ?ch, cc_services = vs1, cc_groups = gs1, cc_rules = R1\<rparr>"
    using assms h b f by (simp add: BuildConfigFromCmd_def)
  note hok = buildHops_ok [OF h rules_ok_no_rules]
  note sok = buildServices_ok [OF b, of ?ch]
  have fok: "rules_ok p R1 \<and> keeps R R1 \<and> list_all (service_ok R1) vs1 \<and> length gs1 = length gs \<and>
     map vs_group vs1 = map vs_group vs \<and> map vs_name vs1 = map (numbered p ''service-'') [0..<0 + length vs] \<and>
     list_all (chains_ok ?ch) gs1"
    by (rule finish_services_ok [OF f]) (use hok sok in auto)
  have hops: "list_all (hop_ok R1) hops"
    using hok fok by (auto simp: list_all_iff intro: hop_ok_keeps)
  have "list_all (\<lambda>g. g < length gs) (map vs_group vs1)"
    using sok fok by (simp add: list_all_iff)
  then have grp: "list_all (\<lambda>v. vs_group v < length gs) vs1"
    by (simp only: list.pred_map comp_def)
  have ch: "map_option fst (cc_chain c) = ?ch" by (simp add: c)
  have "config_ok c"
    unfolding config_ok_def ch using fok hops grp by (simp add: c)
  moreover have "distinct (names_of_kind k (cc_rules c))" for k
    using rules_ok_distinct [of p R1] fok by (simp add: c)
  moreover have "distinct (map vs_name (cc_services c))"
    using fok distinct_numbered by (simp add: c)
  moreover have "distinct (map oc_name hops)" using hok distinct_numbered by simp
  ultimately show ?thesis by (simp add: c)
qed

text \<open>
  (C27) A configuration built from the command line is well formed: the bypasses, admissions,
  resolvers, hosts, and limiters of each kind have distinct names, as have the services and the
  hops; every bypass, admission, resolver, hosts or limiter a service or a hop names is in the
  configuration; every service has its handler and listener; and the chain a handler or a listener
  names is the configuration's own.
\<close>

theorem cmd_config_is_well_formed:
  assumes "BuildConfigFromCmd E p services nodes = Inr c"
  shows "config_ok c \<and> (\<forall>k. distinct (names_of_kind k (cc_rules c))) \<and> distinct (map vs_name (cc_services c)) \<and>
    distinct (concat (map (\<lambda>ch. map oc_name (snd ch)) (case cc_chain c of None \<Rightarrow> [] | Some ch \<Rightarrow> [ch])))"
  using assms by (rule BuildConfigFromCmd_ok)

definition cmd_demo_env :: "string \<Rightarrow> cmd_env" where
  "cmd_demo_env admission =
     \<lparr>ce_parse = \<lambda>s. Inr \<lparr>u_scheme = ''http'', u_user = None, u_host = [], u_hostname = [], u_path = [],
        u_query = [(''admission'', [admission])]\<rparr>,
      ce_duration = \<lambda>s. None, ce_float = \<lambda>x. None, ce_handler = \<lambda>s. True, ce_listener = \<lambda>s. True,
      ce_connector = \<lambda>s. True, ce_dialer = \<lambda>s. True\<rparr>"

lemma cmd_demo:
  "case BuildConfigFromCmd (cmd_demo_env ''~a'') [] [''http://:80-81?admission=~a''] [] of
     Inl e \<Rightarrow> False
   | Inr c \<Rightarrow>
       map vs_addr (cc_services c) = ['':80'', '':81''] \<and>
       map vs_admission (cc_services c) = [''admission-0'', []] \<and>
       map rc_matchers (ru_admissions (cc_rules c)) = [[''a'']]"
  by code_simp

theorem cmd_config_is_well_formed_witness:
  "\<exists>c. BuildConfigFromCmd (cmd_demo_env ''~a'') [] [''http://:80-81?admission=~a''] [] = Inr c \<and>
    distinct (map vs_name (cc_services c))"
proof -
  obtain c where "BuildConfigFromCmd (cmd_demo_env ''~a'') [] [''http://:80-81?admission=~a''] [] = Inr c"
    using cmd_demo by (auto split: sum.splits)
  then show ?thesis using cmd_config_is_well_formed by blast
qed

section \<open>Options of a port range\<close>

text \<open>Once the first service of a group has its admission, the metadata of the group has none.\<close>

lemma first_key_deleted:
  assumes "\<And>k. k \<in> fst ` set m \<Longrightarrow> ToLower k = key \<Longrightarrow> k = key" and "ToLower key = key"
  shows "first_key (md_of (md_delete key m)) [key] = None"
  unfolding md_of_def
  by (rule NewMetadata_absent) (use assms in \<open>auto simp: md_delete_def\<close>)

text \<open>A service after the first of a port range, here on port 81, is not guarded by the admission
  of the command.\<close>

lemma port_range_loses_admission:
  "case BuildConfigFromCmd (cmd_demo_env ''~a'') [] [''http://:80-81?admission=~a''] [] of
     Inl e \<Rightarrow> False
   | Inr c \<Rightarrow> list_ex (\<lambda>v. vs_addr v = '':81'' \<and> vs_admission v = []) (cc_services c)"
  by code_simp

section \<open>The host of a service\<close>

lemma index_any_range: "index_any s cs = Some e \<Longrightarrow> e < length s \<and> set (take e s) \<inter> set cs = {}"
  using takeWhile_eq_take [of "\<lambda>c. c \<notin> set cs" s]
  by (auto simp: index_any_def dest: set_takeWhileD split: if_splits) (metis set_takeWhileD)

lemma index_any_None: "index_any s cs = None \<Longrightarrow> set s \<inter> set cs = {}"
  by (auto simp: index_any_def split: if_splits)
    (metis (mono_tags, lifting) le_antisym length_takeWhile_le not_less set_takeWhileD takeWhile_eq_take take_all)

lemma LastIndexByte_Some:
  "LastIndexByte s c = Some k \<Longrightarrow> k < length s \<and> c \<notin> set (drop (k + 1) s)"
  by (induction s c arbitrary: k rule: LastIndexByte.induct)
    (auto simp: LastIndexByte_None split: option.splits if_splits)

lemma three_parts: "a \<le> b \<Longrightarrow> take a s @ take (b - a) (drop a s) @ drop b s = s"
  by (metis append.assoc append_take_drop_id drop_drop le_add_diff_inverse2 take_add le_add_diff_inverse)

text \<open>
  Cutting the host out of a service loses nothing: the service is the remaining text with the
  host put back at one place, and the host has no at sign, slash or question mark, so no user
  information, path or query is taken for a part of it.
\<close>

theorem cutHost_is_lossless:
  "\<exists>before behind. s = before @ fst (cutHost s) @ behind \<and> snd (cutHost s) = before @ behind \<and>
     set (fst (cutHost s)) \<inter> {CHR ''@'', CHR ''/'', CHR ''?''} = {}"
proof (cases "s = []")
  case True
  then show ?thesis by (simp add: cutHost_def)
next
  case False
  define n where "n = (case IndexByte s CHR '':'' of None \<Rightarrow> 2 | Some i \<Rightarrow> i + 3)"
  define e where "e = (case index_any (drop n s) ''/?'' of None \<Rightarrow> length s | Some e \<Rightarrow> e + n)"
  define t where "t = take (e - n) (drop n s)"
  define st where "st = (case LastIndexByte t CHR ''@'' of None \<Rightarrow> n | Some k \<Rightarrow> n + k + 1)"
  have c: "cutHost s = (take (e - st) (drop st s), take st s @ drop e s)"
    using False unfolding cutHost_def Let_def n_def e_def t_def st_def by (simp only: if_False)
  have clean: "set t \<inter> {CHR ''/'', CHR ''?''} = {}"
  proof (cases "index_any (drop n s) ''/?''")
    case None
    then show ?thesis using index_any_None [OF None] set_take_subset [of "e - n" "drop n s"] by (auto simp: t_def)
  next
    case (Some k)
    then show ?thesis using index_any_range [OF Some] by (simp add: t_def e_def)
  qed
  have h: "take (e - st) (drop st s) = drop (st - n) t" and "n \<le> st"
    by (auto simp: st_def t_def drop_take split: option.splits)
  have no: "CHR ''@'' \<notin> set (drop (st - n) t)"
    using LastIndexByte_Some [of t "CHR ''@''"] LastIndexByte_None [of t "CHR ''@''"]
    by (auto simp: st_def split: option.splits dest: in_set_dropD)
  show ?thesis
  proof (cases "st \<le> e")
    case True
    have "set (drop (st - n) t) \<inter> {CHR ''@'', CHR ''/'', CHR ''?''} = {}"
      using no clean set_drop_subset [of "st - n" t] by auto
    then show ?thesis
      unfolding c fst_conv snd_conv using three_parts [OF True, of s] h
      by (intro exI [of _ "take st s"] exI [of _ "drop e s"]) auto
  next
    case False
    then have "e = length s" "length s \<le> st"
      using LastIndexByte_Some [of t "CHR ''@''"]
      by (auto simp: st_def e_def t_def split: option.splits)
    then show ?thesis by (intro exI [of _ s] exI [of _ "[]"]) (simp add: c)
  qed
qed

end
