(* ===== verification/VpnRouter.thy ===== *)
theory VpnRouter
  imports TunnelPool
begin

text \<open>
  The router handler, \<open>x/handler/router\<close>: routers by id whose clients join a host of a router with a
  connector, the pool of connectors (\<open>router.go\<close>), the routing of their packets with its cache, and
  the packets that other nodes redirect to this one (\<open>associate.go\<close>, \<open>entrypoint.go\<close>).

  Parameters are the destination address of a packet, the routing tables and the service discovery
  as they are at a call. Connectors are numbered in the order they join; their ids are UUIDs, which
  the code relies on to be fresh. The pool's operations are taken one at a time;
  \<open>DelConnector\<close> changes the connectors under read locks, which two departures hold together.
\<close>

section \<open>The pool\<close>

record vpn_connector =
  vn_rid :: string
  vn_host :: string
  vn_id :: string
  vn_weight :: "8 word"

text \<open>The routers, each with the connectors of a host; a host that is not in the map has none.\<close>

record vpn_pool =
  vp_routers :: "string \<rightharpoonup> (string \<Rightarrow> nat list)"
  vp_store :: "vpn_connector list"

definition vpn_NewConnectorPool :: vpn_pool where
  "vpn_NewConnectorPool = \<lparr>vp_routers = Map.empty, vp_store = []\<rparr>"

definition vpn_NewRouter :: "string \<Rightarrow> nat list" where
  "vpn_NewRouter = (\<lambda>host. [])"

definition vpn_AddConnector :: "string \<Rightarrow> nat \<Rightarrow> (string \<Rightarrow> nat list) \<Rightarrow> string \<Rightarrow> nat list" where
  "vpn_AddConnector host c r = r(host := r host @ [c])"

fun vpn_collect :: "vpn_connector list \<Rightarrow> nat list \<Rightarrow> bool \<times> (nat \<times> int) list \<Rightarrow> bool \<times> (nat \<times> int) list" where
  "vpn_collect h [] s = s"
| "vpn_collect h (i # is) (found, items) =
     (let w = weight_or_one (vn_weight (h ! i));
          (found', items') = (if w = MaxWeight \<and> \<not> found then (True, []) else (found, items))
      in vpn_collect h is
           (found', if w = MaxWeight \<or> \<not> found' then items' @ [(i, uint w)] else items'))"

definition vpn_GetConnector ::
    "(int \<Rightarrow> int) \<Rightarrow> vpn_connector list \<Rightarrow> string \<Rightarrow> (string \<Rightarrow> nat list) \<Rightarrow> nat option" where
  "vpn_GetConnector draw h host r =
     (case r host of [c] \<Rightarrow> Some c | cs \<Rightarrow> rw_Next draw (snd (vpn_collect h cs (False, []))))"

text \<open>
  \<open>DelConnector\<close> ranges over the slice while it removes from the same array: after a removal at \<open>i\<close>
  the later elements have moved down and the last one stands twice. The list is the array as it is,
  \<open>res\<close> what the router's map holds.
\<close>

function vpn_del_loop :: "vpn_connector list \<Rightarrow> string \<Rightarrow> nat \<Rightarrow> nat list \<Rightarrow> nat list \<Rightarrow> nat list" where
  "vpn_del_loop h cid i arr res =
     (if i \<ge> length arr then res
      else if vn_id (h ! (arr ! i)) = cid then
        (let res' = take i arr @ drop (i + 1) arr
         in vpn_del_loop h cid (i + 1) (res' @ [last arr]) res')
      else vpn_del_loop h cid (i + 1) arr res)"
  by pat_completeness auto
termination by (relation "measure (\<lambda>(h, cid, i, arr, res). length arr - i)") auto

declare vpn_del_loop.simps [simp del]

definition vpn_DelConnector ::
    "vpn_connector list \<Rightarrow> string \<Rightarrow> string \<Rightarrow> (string \<Rightarrow> nat list) \<Rightarrow> string \<Rightarrow> nat list" where
  "vpn_DelConnector h host cid r = r(host := vpn_del_loop h cid 0 (r host) (r host))"

definition vpn_Add :: "string \<Rightarrow> string \<Rightarrow> string \<Rightarrow> 8 word \<Rightarrow> vpn_pool \<Rightarrow> vpn_pool" where
  "vpn_Add rid host cid w p =
     (let r = (case vp_routers p rid of None \<Rightarrow> vpn_NewRouter | Some r \<Rightarrow> r)
      in \<lparr>vp_routers = (vp_routers p)(rid \<mapsto> vpn_AddConnector host (length (vp_store p)) r),
          vp_store = vp_store p @ [\<lparr>vn_rid = rid, vn_host = host, vn_id = cid, vn_weight = w\<rparr>]\<rparr>)"

definition vpn_Get :: "(int \<Rightarrow> int) \<Rightarrow> string \<Rightarrow> string \<Rightarrow> vpn_pool \<Rightarrow> nat option" where
  "vpn_Get draw rid host p =
     (case vp_routers p rid of None \<Rightarrow> None | Some r \<Rightarrow> vpn_GetConnector draw (vp_store p) host r)"

definition vpn_Del :: "string \<Rightarrow> string \<Rightarrow> string \<Rightarrow> vpn_pool \<Rightarrow> vpn_pool" where
  "vpn_Del rid host cid p =
     (case vp_routers p rid of
        None \<Rightarrow> p
      | Some r \<Rightarrow> p\<lparr>vp_routers := (vp_routers p)(rid \<mapsto> vpn_DelConnector (vp_store p) host cid r)\<rparr>)"

definition vpn_Close :: "vpn_pool \<Rightarrow> vpn_pool" where
  "vpn_Close p = p\<lparr>vp_routers := Map.empty\<rparr>"

section \<open>Routing a packet\<close>

record vpn_route =
  vr_dst :: string
  vr_gateway :: string

text \<open>Items of the caches with their expiration, 0 for never; a cached \<open>nil\<close> is an answer.\<close>

definition item_Expired :: "int \<Rightarrow> int \<Rightarrow> bool" where
  "item_Expired now expiration \<longleftrightarrow> expiration > 0 \<and> now > expiration"

definition NewItem :: "int \<Rightarrow> int \<Rightarrow> 'a \<Rightarrow> 'a \<times> int" where
  "NewItem now d v = (v, if d > 0 then now + d else 0)"

text \<open>The tables: the one registered under the router's id, and the handler's own.\<close>

record vpn_world =
  vw_now :: int
  vw_registered :: "string \<Rightarrow> string \<Rightarrow> vpn_route option"
  vw_own :: "string \<Rightarrow> string \<Rightarrow> vpn_route option"
  vw_dst :: "string \<Rightarrow> string option"
  vw_services :: "string \<Rightarrow> (string \<times> string) list"
  vw_resolve :: "string \<Rightarrow> string option"

record vpn_md =
  vm_cached :: bool
  vm_expiration :: int
  vm_node :: string
  vm_sd :: bool
  vm_sd_expiration :: int

record vpn_state =
  vs_pool :: vpn_pool
  vs_routes :: "string \<rightharpoonup> vpn_route option \<times> int"
  vs_sd :: "string \<rightharpoonup> string option \<times> int"

definition lookup_route :: "vpn_world \<Rightarrow> string \<Rightarrow> string \<Rightarrow> vpn_route option" where
  "lookup_route W rid dst =
     (case vw_registered W rid dst of Some r \<Rightarrow> Some r | None \<Rightarrow> vw_own W rid dst)"

definition getRoute ::
    "vpn_md \<Rightarrow> vpn_world \<Rightarrow> string \<Rightarrow> string \<Rightarrow> vpn_state \<Rightarrow> vpn_route option \<times> vpn_state" where
  "getRoute M W rid dst s =
     (let miss = (let r = lookup_route W rid dst
                  in (r, if vm_cached M then s\<lparr>vs_routes := (vs_routes s)(dst \<mapsto> NewItem (vw_now W) (vm_expiration M) r)\<rparr>
                         else s))
      in if vm_cached M then
           (case vs_routes s dst of
              None \<Rightarrow> miss
            | Some (r, x) \<Rightarrow> if item_Expired (vw_now W) x then miss else (r, s))
         else miss)"

definition client_id :: "string \<Rightarrow> string \<Rightarrow> string" where
  "client_id gateway rid = gateway @ ''@'' @ rid"

text \<open>The first service of another node; with none the address of an empty service is resolved.\<close>

definition getAddrforRoute ::
    "vpn_md \<Rightarrow> vpn_world \<Rightarrow> string \<Rightarrow> string \<Rightarrow> vpn_state \<Rightarrow> string option \<times> vpn_state" where
  "getAddrforRoute M W rid gateway s =
     (if \<not> vm_sd M then (None, s)
      else
        (let k = client_id gateway rid;
             a = vw_resolve W (case List.find (\<lambda>e. fst e \<noteq> vm_node M) (vw_services W k) of
                   None \<Rightarrow> [] | Some e \<Rightarrow> snd e);
             miss = (a, s\<lparr>vs_sd := (vs_sd s)(k \<mapsto> NewItem (vw_now W) (vm_sd_expiration M) a)\<rparr>)
         in case vs_sd s k of
              None \<Rightarrow> miss
            | Some (b, x) \<Rightarrow> if item_Expired (vw_now W) x then miss else (b, s)))"

datatype vpn_output =
  Discarded
| Written nat string
| Redirected string string string string

text \<open>\<open>Written c data\<close>: to connector \<open>c\<close>; \<open>Redirected addr rid gateway data\<close>: to another node.\<close>

definition handlePacket ::
    "vpn_md \<Rightarrow> vpn_world \<Rightarrow> (int \<Rightarrow> int) \<Rightarrow> string \<Rightarrow> string \<Rightarrow> vpn_state \<Rightarrow> vpn_output \<times> vpn_state" where
  "handlePacket M W draw rid data s =
     (case vw_dst W data of
        None \<Rightarrow> (Discarded, s)
      | Some dst \<Rightarrow>
          (case getRoute M W rid dst s of
             (None, s1) \<Rightarrow> (Discarded, s1)
           | (Some r, s1) \<Rightarrow>
               if vr_gateway r = [] then (Discarded, s1)
               else case vpn_Get draw rid (vr_gateway r) (vs_pool s1) of
                 Some c \<Rightarrow> (Written c data, s1)
               | None \<Rightarrow>
                   (case getAddrforRoute M W rid (vr_gateway r) s1 of
                      (None, s2) \<Rightarrow> (Discarded, s2)
                    | (Some a, s2) \<Rightarrow> (Redirected a rid (vr_gateway r) data, s2))))"

section \<open>The entry point\<close>

text \<open>
  A datagram of another node is read into one buffer that all datagrams share. \<open>request\<close> is the
  router id, the gateway and the length of the request at its start, or \<open>None\<close> for anything else.
  What follows the request is passed on to the end of the buffer, not of the datagram.
\<close>

definition read_datagram :: "string \<Rightarrow> string \<Rightarrow> string" where
  "read_datagram d buf = take (length buf) d @ drop (length d) buf"

definition handleEntrypoint ::
    "(string \<Rightarrow> (string \<times> string \<times> nat) option) \<Rightarrow> (int \<Rightarrow> int) \<Rightarrow> string \<Rightarrow> vpn_pool \<Rightarrow> string \<Rightarrow>
       vpn_output \<times> string" where
  "handleEntrypoint request draw d p buf =
     (let buf' = read_datagram d buf in
      case request (take (length d) buf') of
        None \<Rightarrow> (Discarded, buf')
      | Some (rid, gateway, nn) \<Rightarrow>
          (case vpn_Get draw rid gateway p of
             None \<Rightarrow> (Discarded, buf')
           | Some c \<Rightarrow> (Written c (drop nn buf'), buf')))"

section \<open>Joining\<close>

text \<open>With an ingress a host has to be ruled to the router its client asks for; \<open>parse\<close> reads ids.\<close>

definition may_associate :: "(string \<Rightarrow> string) \<Rightarrow> (string \<Rightarrow> string option) option \<Rightarrow> string \<Rightarrow> string \<Rightarrow> bool" where
  "may_associate parse ingress host rid =
     (case ingress of
        None \<Rightarrow> True
      | Some rule \<Rightarrow> host = [] \<or> (case rule host of None \<Rightarrow> parse [] = rid | Some e \<Rightarrow> parse e = rid))"

text \<open>Runs: clients join and leave, packets are routed, the pool is closed. The list is who is in.\<close>

inductive vpn_run :: "vpn_md \<Rightarrow> vpn_state \<Rightarrow> nat list \<Rightarrow> bool" for M where
  start: "vpn_run M \<lparr>vs_pool = vpn_NewConnectorPool, vs_routes = Map.empty, vs_sd = Map.empty\<rparr> []"
| join: "vpn_run M s on \<Longrightarrow> cid \<notin> vn_id ` set (vp_store (vs_pool s)) \<Longrightarrow>
    vpn_run M (s\<lparr>vs_pool := vpn_Add rid host cid w (vs_pool s)\<rparr>) (on @ [length (vp_store (vs_pool s))])"
| leave: "vpn_run M s on \<Longrightarrow> c \<in> set on \<Longrightarrow> v = vp_store (vs_pool s) ! c \<Longrightarrow>
    vpn_run M (s\<lparr>vs_pool := vpn_Del (vn_rid v) (vn_host v) (vn_id v) (vs_pool s)\<rparr>) (filter (\<lambda>x. x \<noteq> c) on)"
| packet: "vpn_run M s on \<Longrightarrow> handlePacket M W draw rid data s = (out, s') \<Longrightarrow> vpn_run M s' on"
| close: "vpn_run M s on \<Longrightarrow> vpn_run M (s\<lparr>vs_pool := vpn_Close (vs_pool s)\<rparr>) on"

section \<open>Removal\<close>

lemma del_loop_after:
  "i \<le> length arr \<Longrightarrow> cid \<notin> (\<lambda>c. vn_id (h ! c)) ` set (drop i arr) \<Longrightarrow> vpn_del_loop h cid i arr res = res"
proof (induction h cid i arr res rule: vpn_del_loop.induct)
  case (1 h cid i arr res)
  show ?case
  proof (cases "i < length arr")
    case True
    then have "drop i arr = arr ! i # drop (i + 1) arr" by (simp add: Cons_nth_drop_Suc)
    with 1(4) have "vn_id (h ! (arr ! i)) \<noteq> cid" and "cid \<notin> (\<lambda>c. vn_id (h ! c)) ` set (drop (i + 1) arr)" by auto
    then show ?thesis using 1(2) True by (subst vpn_del_loop.simps) simp
  next
    case False
    then show ?thesis by (subst vpn_del_loop.simps) simp
  qed
qed

text \<open>With distinct ids the loop takes out the connector, and no other.\<close>

lemma del_loop_filter:
  assumes "distinct (map (\<lambda>c. vn_id (h ! c)) arr)" and "i \<le> length arr" and "cid \<notin> (\<lambda>c. vn_id (h ! c)) ` set (take i arr)"
  shows "vpn_del_loop h cid i arr arr = filter (\<lambda>c. vn_id (h ! c) \<noteq> cid) arr"
  using assms(2,3)
proof (induction "length arr - i" arbitrary: i)
  case 0
  then have "i = length arr" by simp
  with 0(3) have "\<forall>c \<in> set arr. vn_id (h ! c) \<noteq> cid" by auto
  then show ?case using \<open>i = length arr\<close> by (subst vpn_del_loop.simps) (simp add: filter_id_conv)
next
  case (Suc n)
  then have i: "i < length arr" by simp
  show ?case
  proof (cases "vn_id (h ! (arr ! i)) = cid")
    case False
    have "cid \<notin> (\<lambda>c. vn_id (h ! c)) ` set (take (i + 1) arr)"
      using Suc(4) False i by (auto simp: take_Suc_conv_app_nth)
    then have "vpn_del_loop h cid (i + 1) arr arr = filter (\<lambda>c. vn_id (h ! c) \<noteq> cid) arr"
      using Suc(1) [of "i + 1"] Suc(2) i by simp
    then show ?thesis using i False by (subst vpn_del_loop.simps) simp
  next
    case True
    let ?res = "take i arr @ drop (i + 1) arr"
    have split: "arr = take i arr @ arr ! i # drop (i + 1) arr" using i by (simp add: id_take_nth_drop)
    have "distinct (map (\<lambda>c. vn_id (h ! c)) (take i arr @ arr ! i # drop (i + 1) arr))"
      using assms(1) split by simp
    then have others: "cid \<notin> (\<lambda>c. vn_id (h ! c)) ` set (drop (i + 1) arr)"
      using True by auto
    have "filter (\<lambda>c. vn_id (h ! c) \<noteq> cid) (take i arr) = take i arr"
      and "filter (\<lambda>c. vn_id (h ! c) \<noteq> cid) (drop (i + 1) arr) = drop (i + 1) arr"
      using Suc(4) others by (auto simp only: filter_id_conv)
    moreover have "filter (\<lambda>c. vn_id (h ! c) \<noteq> cid) arr =
        filter (\<lambda>c. vn_id (h ! c) \<noteq> cid) (take i arr) @ filter (\<lambda>c. vn_id (h ! c) \<noteq> cid) (drop (i + 1) arr)"
      using True by (subst split) (simp only: filter_append filter.simps if_False simp_thms)
    ultimately have keep: "filter (\<lambda>c. vn_id (h ! c) \<noteq> cid) arr = ?res" by simp
    have "cid \<notin> (\<lambda>c. vn_id (h ! c)) ` set (drop (i + 1) (?res @ [last arr]))"
    proof (cases "i + 1 = length arr")
      case True
      then show ?thesis by simp
    next
      case False
      then have "last arr \<in> set (drop (i + 1) arr)" using i
        by (metis Suc_eq_plus1 Suc_leI drop_eq_Nil last_drop last_in_set le_neq_implies_less not_le)
      moreover have "set (drop (i + 1) ?res) \<subseteq> set (drop (i + 1) arr)"
        using i by (simp add: set_drop_subset_set_drop)
      ultimately show ?thesis using others i by (auto dest: in_set_dropD)
    qed
    moreover have "i + 1 \<le> length (?res @ [last arr])" using i by simp
    ultimately have "vpn_del_loop h cid (i + 1) (?res @ [last arr]) ?res = ?res"
      by (intro del_loop_after) auto
    then show ?thesis using i True keep by (subst vpn_del_loop.simps) (simp add: Let_def)
  qed
qed

lemma DelConnector_filter:
  assumes "distinct (map (\<lambda>c. vn_id (h ! c)) (r host))"
  shows "vpn_DelConnector h host cid r = r(host := filter (\<lambda>c. vn_id (h ! c) \<noteq> cid) (r host))"
  using del_loop_filter [OF assms, of 0 cid] by (simp add: vpn_DelConnector_def)

section \<open>Who gets a packet\<close>

lemma vpn_collect_in:
  "c \<in> fst ` set (snd (vpn_collect h is s)) \<Longrightarrow> c \<in> set is \<or> c \<in> fst ` set (snd s)"
proof (induction h "is" s rule: vpn_collect.induct)
  case (2 h i "is" found items)
  let ?w = "weight_or_one (vn_weight (h ! i))"
  let ?f = "fst (if ?w = MaxWeight \<and> \<not> found then (True, []) else (found, items))"
  let ?y = "snd (if ?w = MaxWeight \<and> \<not> found then (True, []) else (found, items))"
  have step: "vpn_collect h (i # is) (found, items) =
      vpn_collect h is (?f, if ?w = MaxWeight \<or> \<not> ?f then ?y @ [(i, uint ?w)] else ?y)"
    by (simp add: Let_def case_prod_beta)
  have "c \<in> set is \<or> c \<in> fst ` set (if ?w = MaxWeight \<or> \<not> ?f then ?y @ [(i, uint ?w)] else ?y)"
    using 2(1) [OF refl refl prod.collapse] 2(2) unfolding step by simp
  then show ?case by (auto split: if_splits)
qed simp

lemma vpn_GetConnector_in: "vpn_GetConnector draw h host r = Some c \<Longrightarrow> c \<in> set (r host)"
  using vpn_collect_in [of c h "r host" "(False, [])"]
  by (auto simp: vpn_GetConnector_def split: list.splits dest: rw_Next_in)

text \<open>Every router holds, for a host, exactly the connectors that joined there and have not left.\<close>

definition vpn_ok :: "vpn_pool \<Rightarrow> nat list \<Rightarrow> bool" where
  "vpn_ok p on \<longleftrightarrow>
     distinct (map vn_id (vp_store p)) \<and> (\<forall>c \<in> set on. c < length (vp_store p)) \<and>
     (\<forall>rid r host. vp_routers p rid = Some r \<longrightarrow> distinct (r host) \<and>
        (\<forall>c \<in> set (r host). c \<in> set on \<and> vn_rid (vp_store p ! c) = rid \<and> vn_host (vp_store p ! c) = host))"

lemma vpn_ok_start [simp]: "vpn_ok vpn_NewConnectorPool []"
  by (simp add: vpn_ok_def vpn_NewConnectorPool_def)

lemma vpn_ok_close: "vpn_ok p on \<Longrightarrow> vpn_ok (vpn_Close p) on"
  by (simp add: vpn_ok_def vpn_Close_def)

lemma vpn_ok_add:
  assumes ok: "vpn_ok p on" and new: "cid \<notin> vn_id ` set (vp_store p)"
  shows "vpn_ok (vpn_Add rid host cid w p) (on @ [length (vp_store p)])"
proof -
  let ?r = "case vp_routers p rid of None \<Rightarrow> vpn_NewRouter | Some r \<Rightarrow> r"
  have old: "c < length (vp_store p)" if "c \<in> set on" for c using ok that by (simp add: vpn_ok_def)
  have members: "distinct (?r host') \<and>
      (\<forall>c \<in> set (?r host'). c \<in> set on \<and> vn_rid (vp_store p ! c) = rid \<and> vn_host (vp_store p ! c) = host')" for host'
    using ok by (auto simp: vpn_ok_def vpn_NewRouter_def split: option.splits)
  have fresh: "length (vp_store p) \<notin> set (?r host')" for host' using members [of host'] old by blast
  have added: "distinct (vpn_AddConnector host (length (vp_store p)) ?r host') \<and>
      (\<forall>c \<in> set (vpn_AddConnector host (length (vp_store p)) ?r host').
         c \<in> set (on @ [length (vp_store p)]) \<and> vn_rid (vp_store (vpn_Add rid host cid w p) ! c) = rid \<and>
         vn_host (vp_store (vpn_Add rid host cid w p) ! c) = host')" for host'
  proof (cases "host' = host")
    case True
    then show ?thesis using members [of host] fresh [of host] old
      by (simp add: vpn_AddConnector_def vpn_Add_def Let_def nth_append)
  next
    case False
    then show ?thesis using members [of host'] old
      by (simp add: vpn_AddConnector_def vpn_Add_def Let_def nth_append)
  qed
  have others: "vn_rid (vp_store (vpn_Add rid host cid w p) ! c) = vn_rid (vp_store p ! c) \<and>
      vn_host (vp_store (vpn_Add rid host cid w p) ! c) = vn_host (vp_store p ! c)" if "c \<in> set on" for c
    using old [OF that] by (simp add: vpn_Add_def Let_def nth_append)
  have routers: "vp_routers (vpn_Add rid host cid w p) rid' =
      (if rid' = rid then Some (vpn_AddConnector host (length (vp_store p)) ?r) else vp_routers p rid')" for rid'
    by (simp add: vpn_Add_def Let_def)
  have "distinct (map vn_id (vp_store (vpn_Add rid host cid w p)))"
    using ok new by (simp add: vpn_ok_def vpn_Add_def Let_def)
  moreover have "\<forall>c \<in> set (on @ [length (vp_store p)]). c < length (vp_store (vpn_Add rid host cid w p))"
    using old by (auto simp: vpn_Add_def Let_def less_SucI)
  moreover have "distinct (r host') \<and> (\<forall>c \<in> set (r host'). c \<in> set (on @ [length (vp_store p)]) \<and>
      vn_rid (vp_store (vpn_Add rid host cid w p) ! c) = rid' \<and> vn_host (vp_store (vpn_Add rid host cid w p) ! c) = host')"
    if r: "vp_routers (vpn_Add rid host cid w p) rid' = Some r" for rid' r host'
  proof (cases "rid' = rid")
    case True
    then show ?thesis using r added [of host'] by (simp add: routers)
  next
    case False
    then have "vp_routers p rid' = Some r" using r by (simp add: routers)
    then show ?thesis using ok others by (auto simp: vpn_ok_def)
  qed
  ultimately show ?thesis unfolding vpn_ok_def by blast
qed

lemma vpn_ok_del:
  assumes ok: "vpn_ok p on" and c: "c \<in> set on" and v: "v = vp_store p ! c"
  shows "vpn_ok (vpn_Del (vn_rid v) (vn_host v) (vn_id v) p) (filter (\<lambda>x. x \<noteq> c) on)"
proof -
  have ids: "distinct (map vn_id (vp_store p))" and len: "\<forall>c \<in> set on. c < length (vp_store p)"
    using ok by (simp_all add: vpn_ok_def)
  have same: "vn_id (vp_store p ! x) = vn_id v \<longleftrightarrow> x = c" if "x \<in> set on" for x
    using nth_eq_iff_index_eq [OF ids, of x c] len that c v by auto
  show ?thesis
  proof (cases "vp_routers p (vn_rid v)")
    case None
    then show ?thesis using ok v by (auto simp: vpn_ok_def vpn_Del_def)
  next
    case (Some r)
    have r: "distinct (r host) \<and> (\<forall>x \<in> set (r host). x \<in> set on \<and>
        vn_rid (vp_store p ! x) = vn_rid v \<and> vn_host (vp_store p ! x) = host)" for host
      using ok Some by (auto simp: vpn_ok_def)
    have "distinct (map (\<lambda>x. vn_id (vp_store p ! x)) (r (vn_host v)))"
      using r [of "vn_host v"] nth_eq_iff_index_eq [OF ids] len by (auto simp: distinct_map inj_on_def)
    moreover have "filter (\<lambda>x. vn_id (vp_store p ! x) \<noteq> vn_id v) (r (vn_host v)) = filter (\<lambda>x. x \<noteq> c) (r (vn_host v))"
      using r [of "vn_host v"] same by (intro filter_cong) auto
    ultimately have "vpn_DelConnector (vp_store p) (vn_host v) (vn_id v) r =
        r(vn_host v := filter (\<lambda>x. x \<noteq> c) (r (vn_host v)))"
      by (simp add: DelConnector_filter)
    then have del: "vpn_Del (vn_rid v) (vn_host v) (vn_id v) p =
        p\<lparr>vp_routers := (vp_routers p)(vn_rid v \<mapsto> r(vn_host v := filter (\<lambda>x. x \<noteq> c) (r (vn_host v))))\<rparr>"
      by (simp add: vpn_Del_def Some)
    have stays: "distinct (r' host) \<and> (\<forall>x \<in> set (r' host). x \<in> set on \<and> x \<noteq> c \<and>
        vn_rid (vp_store p ! x) = rid \<and> vn_host (vp_store p ! x) = host)"
      if r': "((vp_routers p)(vn_rid v \<mapsto> r(vn_host v := filter (\<lambda>x. x \<noteq> c) (r (vn_host v))))) rid = Some r'"
      for rid r' host
    proof (cases "rid = vn_rid v \<and> host = vn_host v")
      case True
      then show ?thesis using r' r [of host] by auto
    next
      case False
      have "distinct (r' host) \<and> (\<forall>x \<in> set (r' host). x \<in> set on \<and>
          vn_rid (vp_store p ! x) = rid \<and> vn_host (vp_store p ! x) = host)"
      proof (cases "rid = vn_rid v")
        case True
        then show ?thesis using r' False r [of host] by auto
      next
        case False
        then have "vp_routers p rid = Some r'" using r' by simp
        then show ?thesis using ok by (simp add: vpn_ok_def)
      qed
      then show ?thesis using False v by auto
    qed
    let ?R = "(vp_routers p)(vn_rid v \<mapsto> r(vn_host v := filter (\<lambda>x. x \<noteq> c) (r (vn_host v))))"
    have "\<forall>rid r' host. ?R rid = Some r' \<longrightarrow> distinct (r' host) \<and> (\<forall>x \<in> set (r' host).
        x \<in> set (filter (\<lambda>x. x \<noteq> c) on) \<and> vn_rid (vp_store p ! x) = rid \<and> vn_host (vp_store p ! x) = host)"
    proof (intro allI impI)
      fix rid r' host assume "?R rid = Some r'"
      from stays [OF this, of host] show "distinct (r' host) \<and> (\<forall>x \<in> set (r' host).
          x \<in> set (filter (\<lambda>x. x \<noteq> c) on) \<and> vn_rid (vp_store p ! x) = rid \<and> vn_host (vp_store p ! x) = host)"
        by simp
    qed
    moreover have "\<forall>x \<in> set (filter (\<lambda>x. x \<noteq> c) on). x < length (vp_store p)" using len by simp
    moreover have "vp_routers (p\<lparr>vp_routers := R\<rparr>) = R" and "vp_store (p\<lparr>vp_routers := R\<rparr>) = vp_store p" for R
      by simp_all
    ultimately show ?thesis unfolding del vpn_ok_def using ids by (intro conjI) (simp_all only:)
  qed
qed

lemma getRoute_pool [simp]: "vs_pool (snd (getRoute M W rid dst s)) = vs_pool s"
  by (simp add: getRoute_def Let_def split: option.splits)

lemma getAddrforRoute_pool [simp]: "vs_pool (snd (getAddrforRoute M W rid gw s)) = vs_pool s"
  by (simp add: getAddrforRoute_def Let_def split: option.splits)

lemma handlePacket_pool [simp]: "vs_pool (snd (handlePacket M W draw rid data s)) = vs_pool s"
proof (cases "vw_dst W data")
  case None
  then show ?thesis by (simp add: handlePacket_def)
next
  case (Some dst)
  obtain q s1 where q: "getRoute M W rid dst s = (q, s1)" by fastforce
  have s1: "vs_pool s1 = vs_pool s" using getRoute_pool [of M W rid dst s] by (simp add: q)
  show ?thesis
  proof (cases q)
    case None
    then show ?thesis using Some q s1 by (simp add: handlePacket_def)
  next
    case (Some r)
    obtain a s2 where a: "getAddrforRoute M W rid (vr_gateway r) s1 = (a, s2)" by fastforce
    have "vs_pool s2 = vs_pool s1" using getAddrforRoute_pool [of M W rid "vr_gateway r" s1] by (simp add: a)
    then show ?thesis using \<open>vw_dst W data = Some dst\<close> Some q s1 a
      by (simp add: handlePacket_def split: option.split)
  qed
qed

lemma vpn_run_ok: "vpn_run M s on \<Longrightarrow> vpn_ok (vs_pool s) on"
proof (induction rule: vpn_run.induct)
  case (packet s on W draw rid data out s')
  then show ?case using handlePacket_pool [of M W draw rid data s] by simp
qed (simp_all add: vpn_ok_add vpn_ok_del vpn_ok_close)

lemma vpn_Get_member:
  assumes "vpn_ok p on" and "vpn_Get draw rid host p = Some c"
  shows "c \<in> set on \<and> vn_rid (vp_store p ! c) = rid \<and> vn_host (vp_store p ! c) = host"
  using assms by (auto simp: vpn_ok_def vpn_Get_def split: option.splits dest!: vpn_GetConnector_in)

lemma handlePacket_written:
  assumes "fst (handlePacket M W draw rid data s) = Written c d"
  shows "d = data \<and> (\<exists>dst r. vw_dst W data = Some dst \<and> fst (getRoute M W rid dst s) = Some r \<and>
           vpn_Get draw rid (vr_gateway r) (vs_pool s) = Some c)"
proof -
  obtain dst where dst: "vw_dst W data = Some dst"
    using assms by (cases "vw_dst W data") (simp_all add: handlePacket_def)
  obtain q s1 where q: "getRoute M W rid dst s = (q, s1)" by fastforce
  obtain r where r: "q = Some r" using assms dst q by (cases q) (simp_all add: handlePacket_def)
  have s1: "vs_pool s1 = vs_pool s" using getRoute_pool [of M W rid dst s] by (simp add: q)
  obtain a s2 where a: "getAddrforRoute M W rid (vr_gateway r) s1 = (a, s2)" by fastforce
  show ?thesis using assms dst q r a
    by (simp add: handlePacket_def s1 split: if_splits option.splits)
qed

text \<open>
  (C26) Whatever clients join, leave and send, and whatever the route and discovery caches hold: a
  packet that arrives for a router is written, unchanged, only to a connector that joined that very
  router under the gateway of the packet's route and that has not left; and a packet redirected by
  another node only to one that joined the router and gateway it names.
\<close>

theorem packet_stays_in_its_router:
  assumes "vpn_run M s on"
  shows "(fst (handlePacket M W draw rid data s) = Written c d \<longrightarrow>
      d = data \<and> c \<in> set on \<and> vn_rid (vp_store (vs_pool s) ! c) = rid \<and>
      (\<exists>dst r. vw_dst W data = Some dst \<and> fst (getRoute M W rid dst s) = Some r \<and>
         vn_host (vp_store (vs_pool s) ! c) = vr_gateway r)) \<and>
    (fst (handleEntrypoint request draw e (vs_pool s) buf) = Written c' d' \<longrightarrow>
      c' \<in> set on \<and> (\<exists>rid gw nn. request (take (length buf) e) = Some (rid, gw, nn) \<and>
         vn_rid (vp_store (vs_pool s) ! c') = rid \<and> vn_host (vp_store (vs_pool s) ! c') = gw))"
proof -
  have ok: "vpn_ok (vs_pool s) on" using assms by (rule vpn_run_ok)
  have packet: "d = data \<and> c \<in> set on \<and> vn_rid (vp_store (vs_pool s) ! c) = rid \<and>
      (\<exists>dst r. vw_dst W data = Some dst \<and> fst (getRoute M W rid dst s) = Some r \<and>
         vn_host (vp_store (vs_pool s) ! c) = vr_gateway r)"
    if "fst (handlePacket M W draw rid data s) = Written c d"
    using handlePacket_written [OF that] vpn_Get_member [OF ok] by blast
  have entry: "c' \<in> set on \<and> (\<exists>rid gw nn. request (take (length buf) e) = Some (rid, gw, nn) \<and>
         vn_rid (vp_store (vs_pool s) ! c') = rid \<and> vn_host (vp_store (vs_pool s) ! c') = gw)"
    if w: "fst (handleEntrypoint request draw e (vs_pool s) buf) = Written c' d'"
  proof -
    have "take (length e) (read_datagram e buf) = take (length buf) e"
      by (simp add: read_datagram_def min_def)
    then show ?thesis using w vpn_Get_member [OF ok]
      by (auto simp: handleEntrypoint_def Let_def split: option.splits)
  qed
  show ?thesis using packet entry by blast
qed

definition sample_vpn_world :: vpn_world where
  "sample_vpn_world = \<lparr>vw_now = 5, vw_registered = (\<lambda>rid dst. if rid = ''r'' then Some \<lparr>vr_dst = ''n'', vr_gateway = ''g''\<rparr> else None),
     vw_own = (\<lambda>rid dst. None), vw_dst = (\<lambda>data. Some (tl data)), vw_services = (\<lambda>k. []), vw_resolve = (\<lambda>a. None)\<rparr>"

definition sample_vpn_md :: vpn_md where
  "sample_vpn_md = \<lparr>vm_cached = True, vm_expiration = 3, vm_node = ''me'', vm_sd = False, vm_sd_expiration = 3\<rparr>"

definition vpn_empty :: vpn_state where
  "vpn_empty = \<lparr>vs_pool = vpn_NewConnectorPool, vs_routes = Map.empty, vs_sd = Map.empty\<rparr>"

definition vpn_joined :: vpn_state where
  "vpn_joined = vpn_empty\<lparr>vs_pool := vpn_Add ''r'' ''g'' ''u'' 1 vpn_NewConnectorPool\<rparr>"

lemmas vpn_sample_defs =
  vpn_joined_def vpn_empty_def vpn_NewConnectorPool_def vpn_Add_def vpn_AddConnector_def vpn_NewRouter_def
  sample_vpn_world_def sample_vpn_md_def Let_def

lemma packet_stays_in_its_router_witness:
  "fst (handlePacket sample_vpn_md sample_vpn_world (\<lambda>n. 0) ''r'' ''xd'' vpn_joined) = Written 0 ''xd'' \<and>
   vn_rid (vp_store (vs_pool vpn_joined) ! 0) = ''r'' \<and> 0 \<in> set [0::nat]"
proof -
  have "vpn_run sample_vpn_md (vpn_empty\<lparr>vs_pool := vpn_Add ''r'' ''g'' ''u'' 1 (vs_pool vpn_empty)\<rparr>)
      ([] @ [length (vp_store (vs_pool vpn_empty))])"
    unfolding vpn_empty_def by (rule vpn_run.join [OF vpn_run.start]) (simp add: vpn_NewConnectorPool_def)
  then have run: "vpn_run sample_vpn_md vpn_joined [0]"
    by (simp add: vpn_joined_def vpn_empty_def vpn_NewConnectorPool_def)
  have w: "fst (handlePacket sample_vpn_md sample_vpn_world (\<lambda>n. 0) ''r'' ''xd'' vpn_joined) = Written 0 ''xd''"
    by (simp add: vpn_sample_defs handlePacket_def getRoute_def lookup_route_def vpn_Get_def vpn_GetConnector_def NewItem_def)
  show ?thesis using packet_stays_in_its_router [OF run] w by blast
qed

section \<open>The caches\<close>

text \<open>
  The cache of routes has the destination as its key and not the router. The destination that one
  router has no route to is cut off for every other, until the entry expires, and a router without a
  route takes the one of another.
\<close>

lemma route_cache_mixes_routers:
  assumes "vm_cached M" and "\<not> item_Expired (vw_now W) (snd (NewItem (vw_now W) (vm_expiration M) r))"
    and "r = lookup_route W rid dst" and "vs_routes s dst = None"
  shows "fst (getRoute M W rid' dst (snd (getRoute M W rid dst s))) = lookup_route W rid dst"
  using assms by (simp add: getRoute_def Let_def NewItem_def)

lemma fresh_item [simp]: "\<not> item_Expired now (snd (NewItem now d v))"
  by (simp add: item_Expired_def NewItem_def)

text \<open>What the entry point writes is the packet with what earlier datagrams left in the buffer.\<close>

lemma entrypoint_adds_stale_bytes:
  assumes "fst (handleEntrypoint request draw d p buf) = Written c x" and "length d \<le> length buf"
    and "request d = Some (rid, gw, nn)" and "nn \<le> length d"
  shows "x = drop nn d @ drop (length d) buf"
  using assms by (auto simp: handleEntrypoint_def read_datagram_def Let_def split: option.splits)

text \<open>So every packet an entry point passes on has the length of the rest of the buffer.\<close>

corollary entrypoint_length:
  assumes "fst (handleEntrypoint request draw d p buf) = Written c x" and "length d \<le> length buf"
    and "request d = Some (rid, gw, nn)" and "nn \<le> length d"
  shows "length x = length buf - nn"
  using entrypoint_adds_stale_bytes [OF assms] assms(2,4) by simp

end
