(* ===== verification/Loader.thy ===== *)
theory Loader
  imports Registry "HOL-Library.Char_ord" "HOL-Library.List_Lexorder"
begin

text \<open>
  A whole configuration and its loading: the merging of two (\<open>x/config/parsing/parser/parser.go\<close>), the
  default TLS configuration (\<open>x/config/parsing/tls.go\<close>) and the filling of the registries
  (\<open>x/config/loader/loader.go\<close>).

  The items of a configuration are of a type \<open>'c\<close>, each with its name; the objects are of a type
  \<open>'o\<close>. What a parser does beside looking into the registries (files, sockets) and what closing an
  object does are effects on a state \<open>'s\<close>.
\<close>

section \<open>Configurations\<close>

datatype part =
  Services | Chains | Hops | Authers | Admissions | Bypasses | Resolvers | Hosts | Ingresses | Routers
| SDs | Recorders | Limiters | CLimiters | RLimiters | Observers | Loggers

record default_tls =
  dt_cert :: string
  dt_key :: string
  dt_ca :: string
  dt_validity :: int
  dt_org :: string
  dt_name :: string

record log_config =
  lg_output :: string
  lg_level :: string
  lg_format :: string

record api_config =
  ap_addr :: string
  ap_pathPrefix :: string
  ap_accessLog :: bool
  ap_auth :: "(string \<times> string) option"
  ap_auther :: string

record metrics_config =
  me_addr :: string
  me_path :: string
  me_auth :: "(string \<times> string) option"
  me_auther :: string

record 'c config =
  cf_items :: "part \<Rightarrow> (string \<times> 'c) list"
  cf_tls :: "default_tls option"
  cf_log :: "log_config option"
  cf_api :: "api_config option"
  cf_metrics :: "metrics_config option"
  cf_profiling :: "string option"

definition empty_config :: "'c config" where
  "empty_config = \<lparr>cf_items = (\<lambda>k. []), cf_tls = None, cf_log = None, cf_api = None, cf_metrics = None,
     cf_profiling = None\<rparr>"

definition or_else :: "'a option \<Rightarrow> 'a option \<Rightarrow> 'a option" where
  "or_else a b = (case a of None \<Rightarrow> b | Some x \<Rightarrow> Some x)"

definition merge_both :: "'c config \<Rightarrow> 'c config \<Rightarrow> 'c config" where
  "merge_both c1 c2 =
     \<lparr>cf_items = (\<lambda>k. cf_items c1 k @ cf_items c2 k), cf_tls = or_else (cf_tls c2) (cf_tls c1),
      cf_log = or_else (cf_log c2) (cf_log c1), cf_api = or_else (cf_api c2) (cf_api c1),
      cf_metrics = or_else (cf_metrics c2) (cf_metrics c1), cf_profiling = or_else (cf_profiling c2) (cf_profiling c1)\<rparr>"

definition mergeConfig :: "'c config option \<Rightarrow> 'c config option \<Rightarrow> 'c config option" where
  "mergeConfig cfg1 cfg2 =
     (case (cfg1, cfg2) of
        (None, _) \<Rightarrow> cfg2
      | (_, None) \<Rightarrow> cfg1
      | (Some c1, Some c2) \<Rightarrow> Some (merge_both c1 c2))"

lemma mergeConfig_assoc:
  "mergeConfig (mergeConfig a b) c = mergeConfig a (mergeConfig b c)"
  by (auto simp: mergeConfig_def merge_both_def or_else_def split: option.splits)

lemma mergeConfig_empty: "mergeConfig (Some c) (Some empty_config) = Some c"
  by (simp add: mergeConfig_def merge_both_def or_else_def empty_config_def split: option.splits)

section \<open>The default TLS configuration\<close>

text \<open>Loading the files and making a certificate are package \<open>crypto\<close>'s.\<close>

record 't tls_env =
  te_load :: "string \<Rightarrow> string \<Rightarrow> string \<Rightarrow> string + 't"
  te_make :: "int \<Rightarrow> string \<Rightarrow> string \<Rightarrow> string + 't"

definition one_year :: int where "one_year = 24 * 365 * 3600 * 1000000000"

definition genCertificate :: "'t tls_env \<Rightarrow> int \<Rightarrow> string \<Rightarrow> string \<Rightarrow> string + 't" where
  "genCertificate T validity org cn =
     te_make T (if validity \<le> 0 then one_year else validity) (if org = [] then ''GOST'' else org)
       (if cn = [] then ''gost.run'' else cn)"

definition BuildDefaultTLSConfig :: "'t tls_env \<Rightarrow> default_tls option \<Rightarrow> string + 't" where
  "BuildDefaultTLSConfig T cfg =
     (let c = (case cfg of
            None \<Rightarrow> \<lparr>dt_cert = ''cert.pem'', dt_key = ''key.pem'', dt_ca = ''ca.pem'', dt_validity = 0,
                       dt_org = [], dt_name = []\<rparr>
          | Some c \<Rightarrow> c)
      in case te_load T (dt_cert c) (dt_key c) (dt_ca c) of
           Inr t \<Rightarrow> Inr t
         | Inl e \<Rightarrow> genCertificate T (dt_validity c) (dt_org c) (dt_name c))"

section \<open>Filling the registries\<close>

type_synonym 'o registries = "part \<Rightarrow> 'o registry"

text \<open>A parser answers with an error, or with the object, which for a service may be none.\<close>

record ('c, 'o, 's) config_parsers =
  pa_parse :: "part \<Rightarrow> string \<Rightarrow> 'c \<Rightarrow> 'o registries \<Rightarrow> 's \<Rightarrow> (string + 'o option) \<times> 's"
  pa_close :: "'o \<Rightarrow> 's \<Rightarrow> 's"

text \<open>The order in which \<open>GetAll\<close> visits is left open: \<open>names\<close> lists what is registered.\<close>

fun unregister_all :: "('o \<Rightarrow> 's \<Rightarrow> 's) \<Rightarrow> string list \<Rightarrow> 'o registry \<Rightarrow> 's \<Rightarrow> 'o registry \<times> 's" where
  "unregister_all close [] m s = (m, s)"
| "unregister_all close (n # ns) m s =
     (case Unregister close n m s of (m', s') \<Rightarrow> unregister_all close ns m' s')"

fun register_all ::
    "('c, 'o, 's) config_parsers \<Rightarrow> part \<Rightarrow> (string \<times> 'c) list \<Rightarrow> 'o registries \<Rightarrow> 's \<Rightarrow> go_error \<times> 'o registries \<times> 's" where
  "register_all P k [] R s = (nil_error, R, s)"
| "register_all P k ((n, c) # cs) R s =
     (case pa_parse P k n c R s of
        (Inl e, s') \<Rightarrow> (Some e, R, s')
      | (Inr None, s') \<Rightarrow> register_all P k cs R s'
      | (Inr (Some v), s') \<Rightarrow>
          (case Register n v (R k) of
             (Some e, _) \<Rightarrow> (Some e, R, s')
           | (None, m) \<Rightarrow> register_all P k cs (R(k := m)) s'))"

definition load_kind ::
    "('c, 'o, 's) config_parsers \<Rightarrow> part \<Rightarrow> string list \<Rightarrow> (string \<times> 'c) list \<Rightarrow> 'o registries \<Rightarrow> 's \<Rightarrow>
       go_error \<times> 'o registries \<times> 's" where
  "load_kind P k names cs R s =
     (case unregister_all (pa_close P) names (R k) s of
        (m, s') \<Rightarrow> register_all P k cs (R(k := m)) s')"

definition load_order :: "part list" where
  "load_order = [Loggers, Authers, Admissions, Bypasses, Resolvers, Hosts, Ingresses, Routers, SDs, Observers,
     Recorders, Limiters, CLimiters, RLimiters, Hops, Chains, Services]"

fun register_kinds ::
    "('c, 'o, 's) config_parsers \<Rightarrow> (part \<Rightarrow> 'o registry \<Rightarrow> string list) \<Rightarrow> part list \<Rightarrow> 'c config \<Rightarrow> 'o registries \<Rightarrow> 's \<Rightarrow>
       go_error \<times> 'o registries \<times> 's" where
  "register_kinds P visit [] cfg R s = (nil_error, R, s)"
| "register_kinds P visit (k # ks) cfg R s =
     (case load_kind P k (visit k (R k)) (cf_items cfg k) R s of
        (Some e, R', s') \<Rightarrow> (Some e, R', s')
      | (None, R', s') \<Rightarrow> register_kinds P visit ks cfg R' s')"

definition register_config ::
    "('c, 'o, 's) config_parsers \<Rightarrow> (part \<Rightarrow> 'o registry \<Rightarrow> string list) \<Rightarrow> 'c config option \<Rightarrow> 'o registries \<Rightarrow> 's \<Rightarrow>
       go_error \<times> 'o registries \<times> 's" where
  "register_config P visit cfg R s =
     (case cfg of None \<Rightarrow> (nil_error, R, s) | Some c \<Rightarrow> register_kinds P visit load_order c R s)"

record ('t, 'o, 's) loaded =
  lo_log :: log_config
  lo_tls :: "'t option"
  lo_regs :: "'o registries"
  lo_out :: 's

definition default_log :: log_config where
  "default_log = \<lparr>lg_output = [], lg_level = [], lg_format = []\<rparr>"

definition Loader_Load ::
    "'t tls_env \<Rightarrow> ('c, 'o, 's) config_parsers \<Rightarrow> (part \<Rightarrow> 'o registry \<Rightarrow> string list) \<Rightarrow> 'c config \<Rightarrow>
       ('t, 'o, 's) loaded \<Rightarrow> go_error \<times> ('t, 'o, 's) loaded" where
  "Loader_Load T P visit cfg L =
     (let L1 = L\<lparr>lo_log := (case cf_log cfg of None \<Rightarrow> default_log | Some l \<Rightarrow> l)\<rparr>
      in case BuildDefaultTLSConfig T (cf_tls cfg) of
           Inl e \<Rightarrow> (Some e, L1)
         | Inr t \<Rightarrow>
             (case register_config P visit (Some cfg) (lo_regs L1) (lo_out L1) of
                (e, R, s) \<Rightarrow> (e, L1\<lparr>lo_tls := Some t, lo_regs := R, lo_out := s\<rparr>)))"

section \<open>What a load does\<close>

lemma unregister_all_regs: "fst (unregister_all close ns m s) = m |` (- set ns)"
  by (induction ns arbitrary: m s)
    (simp_all add: fst_Unregister case_prod_beta restrict_map_def fun_eq_iff)

text \<open>\<open>GetAll\<close> visits what is registered.\<close>

definition visits_all :: "(part \<Rightarrow> 'o registry \<Rightarrow> string list) \<Rightarrow> bool" where
  "visits_all visit \<longleftrightarrow> (\<forall>k m. finite (dom m) \<longrightarrow> set (visit k m) = dom m)"

text \<open>The object \<open>v\<close> comes from the item of its name, parsed with registries \<open>Rp\<close> that satisfy \<open>Q\<close>.\<close>

definition parsed_from ::
    "('c, 'o, 's) config_parsers \<Rightarrow> part \<Rightarrow> (string \<times> 'c) list \<Rightarrow> ('o registries \<Rightarrow> bool) \<Rightarrow> string \<Rightarrow> 'o \<Rightarrow> bool" where
  "parsed_from P k cs Q n v \<longleftrightarrow>
     (\<exists>c Rp s. (n, c) \<in> set cs \<and> Q Rp \<and> fst (pa_parse P k n c Rp s) = Inr (Some v))"

lemma parsed_from_mono:
  "parsed_from P k cs Q n v \<Longrightarrow> set cs \<subseteq> set cs' \<Longrightarrow> (\<And>R. Q R \<Longrightarrow> Q' R) \<Longrightarrow> parsed_from P k cs' Q' n v"
  unfolding parsed_from_def by blast

lemma register_all_step:
  assumes "register_all P k ((n, c) # cs) R s = (e, R', s')"
  obtains (failed) m where "fst (pa_parse P k n c R s) = Inl m" "R' = R" "e = Some m"
  | (none) s1 where "fst (pa_parse P k n c R s) = Inr None" "register_all P k cs R s1 = (e, R', s')"
  | (clash) v where "fst (pa_parse P k n c R s) = Inr (Some v)" "n \<noteq> []" "R k n \<noteq> None" "e = Some ErrDup" "R' = R"
  | (unnamed) v s1 where "fst (pa_parse P k n c R s) = Inr (Some v)" "n = []" "register_all P k cs R s1 = (e, R', s')"
  | (added) v s1 where "fst (pa_parse P k n c R s) = Inr (Some v)" "n \<noteq> []" "R k n = None"
      "register_all P k cs (R(k := (R k)(n \<mapsto> v))) s1 = (e, R', s')"
proof (cases "pa_parse P k n c R s")
  case (Pair r s1)
  show ?thesis
  proof (cases r)
    case (Inl m)
    then show ?thesis by (intro failed [of m]) (use assms Pair in simp_all)
  next
    case (Inr obj)
    show ?thesis
    proof (cases obj)
      case None
      then show ?thesis by (intro none [of s1]) (use assms Pair Inr in simp_all)
    next
      case (Some v)
      consider "n = []" | "n \<noteq> []" "R k n = None" | "n \<noteq> []" "R k n \<noteq> None" by blast
      then show ?thesis
      proof cases
        case 1
        then show ?thesis by (intro unnamed [of v s1]) (use assms Pair Inr Some in \<open>simp_all add: Register_def\<close>)
      next
        case 2
        then show ?thesis by (intro added [of v s1]) (use assms Pair Inr Some in \<open>simp_all add: Register_def\<close>)
      next
        case 3
        then show ?thesis
          by (intro clash [of v]) (use assms Pair Inr Some in \<open>auto simp: Register_def\<close>)
      qed
    qed
  qed
qed

lemma register_all_other:
  "register_all P k cs R s = (e, R', s') \<Longrightarrow> k' \<noteq> k \<Longrightarrow> R' k' = R k'"
proof (induction cs arbitrary: R s)
  case (Cons x cs)
  obtain n c where x: "x = (n, c)" by fastforce
  from Cons.prems(1) [unfolded x] show ?case
    by (cases rule: register_all_step) (use Cons in \<open>auto dest: Cons.IH\<close>)
qed simp

lemma register_all_keeps:
  "register_all P k cs R s = (e, R', s') \<Longrightarrow> R k n = Some w \<Longrightarrow> R' k n = Some w"
proof (induction cs arbitrary: R s)
  case (Cons x cs)
  obtain n1 c where x: "x = (n1, c)" by fastforce
  from Cons.prems(1) [unfolded x] show ?case
  proof (cases rule: register_all_step)
    case (added v s1)
    then show ?thesis using Cons.prems(2) by (intro Cons.IH [OF added(4)]) auto
  qed (use Cons in \<open>auto dest: Cons.IH\<close>)
qed simp

text \<open>What the registry of a kind holds after its items, however they end.\<close>

lemma register_all_from:
  assumes "register_all P k cs R s = (e, R', s')" and "\<And>Rp. (\<forall>k' \<noteq> k. Rp k' = R k') \<Longrightarrow> Q Rp"
    and "R' k n = Some v" and "R k n = None"
  shows "parsed_from P k cs Q n v"
  using assms
proof (induction cs arbitrary: R s)
  case (Cons x cs)
  obtain n1 c where x: "x = (n1, c)" by fastforce
  have here: "parsed_from P k (x # cs) Q n1 w" if "fst (pa_parse P k n1 c R s) = Inr (Some w)" for w
    unfolding parsed_from_def x using that Cons.prems(2) [of R]
    by (intro exI [of _ c] exI [of _ R] exI [of _ s]) simp
  have rest: "parsed_from P k (x # cs) Q n v" if "parsed_from P k cs Q n v"
    using that by (rule parsed_from_mono) auto
  from Cons.prems(1) [unfolded x] show ?case
  proof (cases rule: register_all_step)
    case (added w s1)
    show ?thesis
    proof (cases "n = n1")
      case True
      have "R' k n1 = Some w"
        using register_all_keeps [OF added(4), of n1 w] by simp
      then show ?thesis using True here [OF added(1)] Cons.prems(3) by simp
    next
      case False
      then show ?thesis
        using added Cons.prems by (intro rest Cons.IH [OF added(4)]) auto
    qed
  qed (use Cons.prems rest Cons.IH in auto)
qed simp

text \<open>On success every item that yields an object is registered, each under a name of its own.\<close>

definition always_some :: "('c, 'o, 's) config_parsers \<Rightarrow> part \<Rightarrow> (string \<times> 'c) list \<Rightarrow> bool" where
  "always_some P k cs \<longleftrightarrow> (\<forall>(n, c) \<in> set cs. \<forall>R s. fst (pa_parse P k n c R s) \<noteq> Inr None)"

lemma register_all_ok:
  assumes "register_all P k cs R s = (None, R', s')" and "always_some P k cs"
  shows "dom (R' k) = dom (R k) \<union> (fst ` set cs - {[]}) \<and>
    distinct (filter (\<lambda>n. n \<noteq> []) (map fst cs)) \<and> dom (R k) \<inter> (fst ` set cs - {[]}) = {}"
  using assms
proof (induction cs arbitrary: R s)
  case (Cons x cs)
  obtain n c where x: "x = (n, c)" by fastforce
  have rest: "always_some P k cs" using Cons.prems(2) by (simp add: always_some_def)
  from Cons.prems(1) [unfolded x] show ?case
  proof (cases rule: register_all_step)
    case (none s1)
    then show ?thesis using Cons.prems(2) x by (auto simp: always_some_def)
  next
    case (unnamed v s1)
    then show ?thesis using Cons.IH [OF unnamed(3) rest] x by auto
  next
    case (added v s1)
    have new: "n \<notin> dom (R k)" using added(3) by auto
    have "dom ((R(k := (R k)(n \<mapsto> v))) k) = insert n (dom (R k))" by simp
    from Cons.IH [OF added(4) rest, unfolded this] show ?thesis using new added(2) by (auto simp: x)
  qed simp_all
qed simp

text \<open>An error is the parser's, unless a name is taken.\<close>

lemma register_all_error:
  assumes "register_all P k cs R s = (Some e, R', s')"
    and "distinct (filter (\<lambda>n. n \<noteq> []) (map fst cs))" and "dom (R k) \<inter> fst ` set cs \<subseteq> {[]}"
  shows "\<exists>n c Rp sp. (n, c) \<in> set cs \<and> fst (pa_parse P k n c Rp sp) = Inl e"
  using assms
proof (induction cs arbitrary: R s)
  case (Cons x cs)
  obtain n c where x: "x = (n, c)" by fastforce
  have rest: ?case if "\<exists>n c Rp sp. (n, c) \<in> set cs \<and> fst (pa_parse P k n c Rp sp) = Inl e"
    using that by auto
  have d: "distinct (filter (\<lambda>n. n \<noteq> []) (map fst cs))" using Cons.prems(2) by (auto split: if_splits)
  from Cons.prems(1) [unfolded x] show ?case
  proof (cases rule: register_all_step)
    case (failed m)
    then have "(n, c) \<in> set (x # cs) \<and> fst (pa_parse P k n c R s) = Inl e" by (simp add: x)
    then show ?thesis by blast
  next
    case (none s1)
    then show ?thesis using Cons.prems by (intro rest Cons.IH [OF none(2) d]) auto
  next
    case (clash v)
    then have "n \<in> dom (R k) \<inter> fst ` set (x # cs)" using x by auto
    then show ?thesis using Cons.prems(3) clash(2) by blast
  next
    case (unnamed v s1)
    then show ?thesis using Cons.prems by (intro rest Cons.IH [OF unnamed(3) d]) auto
  next
    case (added v s1)
    have "dom (((R(k := (R k)(n \<mapsto> v))) k)) \<inter> fst ` set cs \<subseteq> {[]}"
      using Cons.prems(2,3) added(2) x by (auto simp: image_iff)
    then show ?thesis by (intro rest Cons.IH [OF added(4) d])
  qed
qed simp

lemma load_kind_split:
  assumes "load_kind P k names cs R s = (e, R', s')" and "set names = dom (R k)"
  obtains s1 where "register_all P k cs (R(k := Map.empty)) s1 = (e, R', s')"
proof -
  obtain m s1 where u: "unregister_all (pa_close P) names (R k) s = (m, s1)" by fastforce
  have "m = R k |` (- dom (R k))" using unregister_all_regs [of "pa_close P" names "R k" s] by (simp add: u assms(2))
  then have "m = Map.empty" by (auto simp: restrict_map_def fun_eq_iff domIff)
  then show ?thesis using assms(1) u that [of s1] by (simp add: load_kind_def)
qed

text \<open>
  A part that is loaded: its registry holds what its items gave, each parsed while the registries that
  satisfy \<open>Q\<close> were there.
\<close>

definition part_loaded ::
    "('c, 'o, 's) config_parsers \<Rightarrow> part \<Rightarrow> (string \<times> 'c) list \<Rightarrow> ('o registries \<Rightarrow> bool) \<Rightarrow> 'o registry \<Rightarrow> bool" where
  "part_loaded P k cs Q m \<longleftrightarrow>
     (\<forall>n v. m n = Some v \<longrightarrow> parsed_from P k cs Q n v) \<and>
     (always_some P k cs \<longrightarrow> dom m = fst ` set cs - {[]} \<and> distinct (filter (\<lambda>n. n \<noteq> []) (map fst cs)))"

lemma load_kind_ok:
  assumes "load_kind P k names cs R s = (None, R', s')" and "set names = dom (R k)"
  shows "part_loaded P k cs (\<lambda>Rp. \<forall>k'. k' \<noteq> k \<longrightarrow> Rp k' = R k') (R' k) \<and> (\<forall>k'. k' \<noteq> k \<longrightarrow> R' k' = R k')"
proof -
  obtain s1 where r: "register_all P k cs (R(k := Map.empty)) s1 = (None, R', s')"
    using load_kind_split [OF assms] .
  have "parsed_from P k cs (\<lambda>Rp. \<forall>k'. k' \<noteq> k \<longrightarrow> Rp k' = R k') n v" if "R' k n = Some v" for n v
    using that by (intro register_all_from [OF r]) auto
  moreover have "dom (R' k) = fst ` set cs - {[]} \<and> distinct (filter (\<lambda>n. n \<noteq> []) (map fst cs))" if "always_some P k cs"
    using register_all_ok [OF r that] by simp
  moreover have "R' k' = R k'" if "k' \<noteq> k" for k' using register_all_other [OF r that] that by simp
  ultimately show ?thesis by (simp add: part_loaded_def)
qed

lemma part_loaded_mono:
  "part_loaded P k cs Q m \<Longrightarrow> (\<And>R. Q R \<Longrightarrow> Q' R) \<Longrightarrow> part_loaded P k cs Q' m"
  unfolding part_loaded_def by (blast intro: parsed_from_mono)

text \<open>The parts that come after \<open>k\<close> in the order, and \<open>k\<close>.\<close>

definition not_before :: "part list \<Rightarrow> part \<Rightarrow> part set" where
  "not_before ks k = set (dropWhile (\<lambda>x. x \<noteq> k) ks)"

lemma finite_regs:
  assumes "register_all P k cs R s = (e, R', s')" and "finite (dom (R k))"
  shows "finite (dom (R' k))"
  using assms
proof (induction cs arbitrary: R s)
  case (Cons x cs)
  obtain n c where x: "x = (n, c)" by fastforce
  from Cons.prems(1) [unfolded x] show ?case
  proof (cases rule: register_all_step)
    case (added v s1)
    have "dom ((R(k := (R k)(n \<mapsto> v))) k) = insert n (dom (R k))" by simp
    then show ?thesis using Cons.prems(2) by (intro Cons.IH [OF added(4)]) (simp del: fun_upd_apply)
  qed (use Cons in \<open>auto dest: Cons.IH\<close>)
qed simp

lemma load_kind_finite:
  assumes "load_kind P k names cs R s = (e, R', s')" and "set names = dom (R k)" and "\<forall>k. finite (dom (R k))"
  shows "finite (dom (R' k'))"
proof -
  obtain s1 where r: "register_all P k cs (R(k := Map.empty)) s1 = (e, R', s')"
    using load_kind_split [OF assms(1,2)] .
  show ?thesis
    using finite_regs [OF r] register_all_other [OF r, of k'] assms(3) by (cases "k' = k") auto
qed

lemma register_kinds_ok:
  assumes "register_kinds P visit ks cfg R s = (None, R', s')" and "visits_all visit"
    and "\<forall>k. finite (dom (R k))" and "distinct ks"
  shows "(\<forall>k. finite (dom (R' k))) \<and> (\<forall>k. k \<notin> set ks \<longrightarrow> R' k = R k) \<and>
    (\<forall>k. k \<in> set ks \<longrightarrow> part_loaded P k (cf_items cfg k) (\<lambda>Rp. \<forall>k'. k' \<notin> not_before ks k \<longrightarrow> Rp k' = R' k') (R' k))"
  using assms(1,3,4)
proof (induction ks arbitrary: R s)
  case (Cons k ks)
  obtain e R1 s1 where l: "load_kind P k (visit k (R k)) (cf_items cfg k) R s = (e, R1, s1)" by (metis surj_pair)
  then have e: "e = None" and rest: "register_kinds P visit ks cfg R1 s1 = (None, R', s')"
    using Cons.prems(1) by (auto split: option.splits)
  have names: "set (visit k (R k)) = dom (R k)" using assms(2) Cons.prems(2) by (simp add: visits_all_def)
  have fin: "\<forall>k. finite (dom (R1 k))" using load_kind_finite [OF l names Cons.prems(2)] by blast
  have d: "distinct ks" "k \<notin> set ks" using Cons.prems(3) by simp_all
  note one = load_kind_ok [OF l [unfolded e] names]
  note ih = Cons.IH [OF rest fin d(1)]
  have k: "R' k = R1 k" using ih d by blast
  have other: "R' k' = R k'" if "k' \<notin> set (k # ks)" for k' using ih one that by auto
  have "part_loaded P k (cf_items cfg k) (\<lambda>Rp. \<forall>k'. k' \<notin> not_before (k # ks) k \<longrightarrow> Rp k' = R' k') (R' k)"
    unfolding k
  proof (rule part_loaded_mono)
    show "part_loaded P k (cf_items cfg k) (\<lambda>Rp. \<forall>k'. k' \<noteq> k \<longrightarrow> Rp k' = R k') (R1 k)" using one by blast
  qed (use other in \<open>auto simp: not_before_def\<close>)
  moreover have "part_loaded P k1 (cf_items cfg k1) (\<lambda>Rp. \<forall>k'. k' \<notin> not_before (k # ks) k1 \<longrightarrow> Rp k' = R' k') (R' k1)"
    if "k1 \<in> set ks" for k1
  proof -
    have "k1 \<noteq> k" using that d by auto
    then have "not_before (k # ks) k1 = not_before ks k1" by (simp add: not_before_def)
    then show ?thesis using ih that by simp
  qed
  ultimately show ?case using ih other by auto
qed simp

text \<open>A load that fails stops at a part: what comes after it is as it was.\<close>

lemma register_kinds_fail:
  assumes "register_kinds P visit ks cfg R s = (Some e, R', s')" and "visits_all visit"
    and "\<forall>k. finite (dom (R k))" and "distinct ks"
  shows "\<exists>k \<in> set ks. (\<forall>k' \<in> not_before ks k - {k}. R' k' = R k') \<and>
    (\<forall>n v. R' k n = Some v \<longrightarrow> parsed_from P k (cf_items cfg k) (\<lambda>_. True) n v) \<and>
    (\<forall>k' \<in> set ks - not_before ks k. part_loaded P k' (cf_items cfg k') (\<lambda>_. True) (R' k')) \<and>
    (\<forall>k'. k' \<notin> set ks \<longrightarrow> R' k' = R k')"
  using assms(1,3,4)
proof (induction ks arbitrary: R s)
  case (Cons k ks)
  obtain e1 R1 s1 where l: "load_kind P k (visit k (R k)) (cf_items cfg k) R s = (e1, R1, s1)" by (metis surj_pair)
  have names: "set (visit k (R k)) = dom (R k)" using assms(2) Cons.prems(2) by (simp add: visits_all_def)
  have here: "not_before (k # ks) k = set (k # ks)" by (simp add: not_before_def)
  show ?case
  proof (cases e1)
    case (Some e')
    then have R': "R' = R1" using l Cons.prems(1) by simp
    obtain s2 where r: "register_all P k (cf_items cfg k) (R(k := Map.empty)) s2 = (e1, R1, s1)"
      using load_kind_split [OF l names] .
    have "parsed_from P k (cf_items cfg k) (\<lambda>_. True) n v" if "R1 k n = Some v" for n v
      using that by (intro register_all_from [OF r]) auto
    moreover have "R1 k' = R k'" if "k' \<noteq> k" for k' using register_all_other [OF r that] that by simp
    ultimately show ?thesis using here by (intro bexI [of _ k]) (auto simp: R')
  next
    case None
    then have rest: "register_kinds P visit ks cfg R1 s1 = (Some e, R', s')" using l Cons.prems(1) by simp
    have d: "distinct ks" "k \<notin> set ks" using Cons.prems(3) by simp_all
    have fin: "\<forall>k. finite (dom (R1 k))" using load_kind_finite [OF l names Cons.prems(2)] by blast
    note one = load_kind_ok [OF l [unfolded None] names]
    obtain k1 where k1: "k1 \<in> set ks" "\<forall>k' \<in> not_before ks k1 - {k1}. R' k' = R1 k'"
      "\<forall>n v. R' k1 n = Some v \<longrightarrow> parsed_from P k1 (cf_items cfg k1) (\<lambda>_. True) n v"
      "\<forall>k' \<in> set ks - not_before ks k1. part_loaded P k' (cf_items cfg k') (\<lambda>_. True) (R' k')"
      "\<forall>k'. k' \<notin> set ks \<longrightarrow> R' k' = R1 k'"
      using Cons.IH [OF rest fin d(1)] by blast
    have nb: "not_before (k # ks) k1 = not_before ks k1" using k1(1) d by (auto simp: not_before_def)
    have sub: "not_before ks k1 \<subseteq> set ks" by (auto simp: not_before_def dest: set_dropWhileD)
    have "part_loaded P k (cf_items cfg k) (\<lambda>_. True) (R' k)"
      using one k1(5) d(2) by (auto intro: part_loaded_mono)
    then show ?thesis using k1 one d sub by (intro bexI [of _ k1]) (auto simp: nb)
  qed
qed simp

section \<open>Loading a configuration\<close>

lemma load_order: "distinct load_order" "set load_order = UNIV"
proof -
  show "distinct load_order" by (simp add: load_order_def)
  have "k \<in> set load_order" for k by (cases k) (simp_all add: load_order_def)
  then show "set load_order = UNIV" by blast
qed

lemma Loader_Load_regs:
  assumes "Loader_Load T P visit cfg L = (e, L')"
  shows "(\<exists>m. e = Some m \<and> BuildDefaultTLSConfig T (cf_tls cfg) = Inl m \<and> lo_regs L' = lo_regs L \<and> lo_out L' = lo_out L) \<or>
    (\<exists>t. BuildDefaultTLSConfig T (cf_tls cfg) = Inr t \<and>
      register_kinds P visit load_order cfg (lo_regs L) (lo_out L) = (e, lo_regs L', lo_out L'))"
  using assms by (auto simp: Loader_Load_def Let_def register_config_def split: sum.splits prod.splits)

text \<open>
  The kinds an object of a kind may ask for by name while it is made, other than by a reference that is
  looked up only when it is used, such as that of a name server to its chain.
\<close>

fun asks_for :: "part \<Rightarrow> part set" where
  "asks_for Services = - {Services}"
| "asks_for Chains = {Hops, Bypasses, Resolvers, Hosts}"
| "asks_for Hops = {Bypasses, Resolvers, Hosts}"
| "asks_for k = {}"

lemma asked_for_is_loaded: "k' \<in> asks_for k \<Longrightarrow> k' \<notin> not_before load_order k"
  by (cases k) (auto simp: not_before_def load_order_def)

lemma Loader_Load_ok:
  assumes "Loader_Load T P visit cfg L = (None, L')" and "visits_all visit" and "\<forall>k. finite (dom (lo_regs L k))"
  shows "part_loaded P k (cf_items cfg k) (\<lambda>Rp. \<forall>k' \<in> asks_for k. Rp k' = lo_regs L' k') (lo_regs L' k)"
proof -
  have "register_kinds P visit load_order cfg (lo_regs L) (lo_out L) = (None, lo_regs L', lo_out L')"
    using Loader_Load_regs [OF assms(1)] by auto
  from register_kinds_ok [OF this assms(2,3) load_order(1)] load_order(2)
  have "part_loaded P k (cf_items cfg k) (\<lambda>Rp. \<forall>k'. k' \<notin> not_before load_order k \<longrightarrow> Rp k' = lo_regs L' k') (lo_regs L' k)"
    by simp
  then show ?thesis by (rule part_loaded_mono) (use asked_for_is_loaded in blast)
qed

text \<open>
  (C9) After a configuration has been loaded without error, the registry of every kind holds exactly
  what the configuration lists, under names that are distinct; nothing of the configuration before is
  left; and every object was made from its own item while the registries it may look into already
  held the new objects.
\<close>

theorem load_replaces_everything:
  assumes "Loader_Load T P visit cfg L = (None, L')" and "visits_all visit" and "\<forall>k. finite (dom (lo_regs L k))"
  shows "part_loaded P k (cf_items cfg k) (\<lambda>Rp. \<forall>k' \<in> asks_for k. Rp k' = lo_regs L' k') (lo_regs L' k)"
  using assms by (rule Loader_Load_ok)

definition demo_tls :: "string tls_env" where
  "demo_tls = \<lparr>te_load = (\<lambda>c k a. Inl ''no file''), te_make = (\<lambda>v org cn. Inr cn)\<rparr>"

text \<open>Objects that are their items; the state is the list of closed objects. A service needs the hop \<open>h\<close>.\<close>

definition demo_parsers :: "(string, string, string list) config_parsers" where
  "demo_parsers = \<lparr>pa_parse = (\<lambda>k n c R s.
       if k = Services \<and> Get ''h'' (R Hops) = None then (Inl ''no hop'', s) else (Inr (Some c), s)),
     pa_close = (\<lambda>v s. s @ [v])\<rparr>"

definition demo_visit :: "part \<Rightarrow> string registry \<Rightarrow> string list" where
  "demo_visit k m = sorted_list_of_set (dom m)"

definition demo_loaded :: "(string, string, string list) loaded" where
  "demo_loaded = \<lparr>lo_log = default_log, lo_tls = None, lo_regs = (\<lambda>k. Map.empty), lo_out = []\<rparr>"

definition demo_items :: "bool \<Rightarrow> part \<Rightarrow> (string \<times> string) list" where
  "demo_items b k = (if k = Services then [(''s'', ''1'')] else if k = Hops \<and> b then [(''h'', ''2'')] else [])"

definition demo_config :: "bool \<Rightarrow> string config" where
  "demo_config b = empty_config\<lparr>cf_items := demo_items b\<rparr>"

lemma demo_visits: "visits_all demo_visit"
  by (simp add: visits_all_def demo_visit_def)

lemma load_replaces_everything_witness:
  "fst (Loader_Load demo_tls demo_parsers demo_visit (demo_config True) demo_loaded) = None \<and>
   dom (lo_regs (snd (Loader_Load demo_tls demo_parsers demo_visit (demo_config True) demo_loaded)) Services) = {''s''}"
proof -
  let ?L = "Loader_Load demo_tls demo_parsers demo_visit (demo_config True) demo_loaded"
  have ok: "fst ?L = None"
    by (simp add: Loader_Load_def BuildDefaultTLSConfig_def demo_tls_def genCertificate_def demo_config_def
      empty_config_def register_config_def load_order_def load_kind_def demo_visit_def demo_loaded_def demo_items_def
      demo_parsers_def Register_def Get_def)
  have "Loader_Load demo_tls demo_parsers demo_visit (demo_config True) demo_loaded = (None, snd ?L)"
    using ok by (metis prod.collapse)
  from load_replaces_everything [OF this demo_visits, of Services]
  have "part_loaded demo_parsers Services (demo_items True Services) (\<lambda>Rp. \<forall>k' \<in> asks_for Services. Rp k' = lo_regs (snd ?L) k')
      (lo_regs (snd ?L) Services)"
    by (simp add: demo_loaded_def demo_config_def)
  moreover have "always_some demo_parsers Services (demo_items True Services)" by (simp add: always_some_def demo_parsers_def)
  ultimately show ?thesis using ok by (simp add: part_loaded_def demo_items_def)
qed

text \<open>
  (C11) A load that fails leaves a mixture: either nothing is registered anew, when the TLS certificate
  could not be made, or there is a kind at which it stopped, the kinds before it are loaded from the new
  configuration, of that kind only objects of the new configuration are there, and the kinds after it
  still hold what they held.
\<close>

theorem failed_load_leaves_a_mixture:
  assumes "Loader_Load T P visit cfg L = (Some e, L')" and "visits_all visit" and "\<forall>k. finite (dom (lo_regs L k))"
  shows "BuildDefaultTLSConfig T (cf_tls cfg) = Inl e \<and> lo_regs L' = lo_regs L \<or>
    (\<exists>k. (\<forall>k' \<in> not_before load_order k - {k}. lo_regs L' k' = lo_regs L k') \<and>
      (\<forall>n v. lo_regs L' k n = Some v \<longrightarrow> parsed_from P k (cf_items cfg k) (\<lambda>_. True) n v) \<and>
      (\<forall>k'. k' \<notin> not_before load_order k \<longrightarrow> part_loaded P k' (cf_items cfg k') (\<lambda>_. True) (lo_regs L' k')))"
  using Loader_Load_regs [OF assms(1)]
proof
  assume "\<exists>t. BuildDefaultTLSConfig T (cf_tls cfg) = Inr t \<and>
    register_kinds P visit load_order cfg (lo_regs L) (lo_out L) = (Some e, lo_regs L', lo_out L')"
  then have "register_kinds P visit load_order cfg (lo_regs L) (lo_out L) = (Some e, lo_regs L', lo_out L')" by blast
  from register_kinds_fail [OF this assms(2,3) load_order(1)] load_order(2) show ?thesis by blast
qed auto

theorem failed_load_leaves_a_mixture_witness:
  "fst (Loader_Load demo_tls demo_parsers demo_visit (demo_config False) demo_loaded) = Some ''no hop'' \<and>
   (\<exists>k. \<forall>k' \<in> not_before load_order k - {k}.
      lo_regs (snd (Loader_Load demo_tls demo_parsers demo_visit (demo_config False) demo_loaded)) k' = lo_regs demo_loaded k')"
proof -
  let ?L = "Loader_Load demo_tls demo_parsers demo_visit (demo_config False) demo_loaded"
  have no: "fst ?L = Some ''no hop''"
    by (simp add: Loader_Load_def BuildDefaultTLSConfig_def demo_tls_def genCertificate_def demo_config_def
      empty_config_def register_config_def load_order_def load_kind_def demo_visit_def demo_loaded_def demo_items_def
      demo_parsers_def Register_def Get_def)
  have "Loader_Load demo_tls demo_parsers demo_visit (demo_config False) demo_loaded = (Some ''no hop'', snd ?L)"
    using no by (metis prod.collapse)
  moreover have "BuildDefaultTLSConfig demo_tls c \<noteq> Inl e" for c e
    by (simp add: BuildDefaultTLSConfig_def demo_tls_def genCertificate_def Let_def)
  moreover have "\<forall>k. finite (dom (lo_regs demo_loaded k))" by (simp add: demo_loaded_def)
  ultimately show ?thesis using no failed_load_leaves_a_mixture [OF _ demo_visits] by blast
qed

lemma register_kinds_error:
  assumes "register_kinds P visit ks cfg R s = (Some e, R', s')" and "visits_all visit"
    and "\<forall>k. finite (dom (R k))" and "\<forall>k. distinct (filter (\<lambda>n. n \<noteq> []) (map fst (cf_items cfg k)))"
  shows "\<exists>k n c Rp sp. (n, c) \<in> set (cf_items cfg k) \<and> fst (pa_parse P k n c Rp sp) = Inl e"
  using assms(1,3)
proof (induction ks arbitrary: R s)
  case (Cons k ks)
  obtain e1 R1 s1 where l: "load_kind P k (visit k (R k)) (cf_items cfg k) R s = (e1, R1, s1)" by (metis surj_pair)
  have names: "set (visit k (R k)) = dom (R k)" using assms(2) Cons.prems(2) by (simp add: visits_all_def)
  show ?case
  proof (cases e1)
    case (Some e')
    then have e: "e1 = Some e" using l Cons.prems(1) by simp
    obtain s2 where r: "register_all P k (cf_items cfg k) (R(k := Map.empty)) s2 = (e1, R1, s1)"
      using load_kind_split [OF l names] .
    have "\<exists>n c Rp sp. (n, c) \<in> set (cf_items cfg k) \<and> fst (pa_parse P k n c Rp sp) = Inl e"
      by (rule register_all_error [OF r [unfolded e]]) (use assms(4) in simp_all)
    then show ?thesis by blast
  next
    case None
    then have "register_kinds P visit ks cfg R1 s1 = (Some e, R', s')" using l Cons.prems(1) by simp
    moreover have "\<forall>k. finite (dom (R1 k))" using load_kind_finite [OF l names Cons.prems(2)] by blast
    ultimately show ?thesis by (rule Cons.IH)
  qed
qed simp

text \<open>Configurations whose names are distinct load unless a parser or the certificate fails.\<close>

lemma load_error_is_the_parsers:
  assumes "Loader_Load T P visit cfg L = (Some e, L')" and "visits_all visit" and "\<forall>k. finite (dom (lo_regs L k))"
    and "\<forall>k. distinct (filter (\<lambda>n. n \<noteq> []) (map fst (cf_items cfg k)))"
  shows "BuildDefaultTLSConfig T (cf_tls cfg) = Inl e \<or>
    (\<exists>k n c Rp sp. (n, c) \<in> set (cf_items cfg k) \<and> fst (pa_parse P k n c Rp sp) = Inl e)"
  using Loader_Load_regs [OF assms(1)]
proof
  assume "\<exists>t. BuildDefaultTLSConfig T (cf_tls cfg) = Inr t \<and>
    register_kinds P visit load_order cfg (lo_regs L) (lo_out L) = (Some e, lo_regs L', lo_out L')"
  then have "register_kinds P visit load_order cfg (lo_regs L) (lo_out L) = (Some e, lo_regs L', lo_out L')" by blast
  from register_kinds_error [OF this assms(2-4)] show ?thesis by (rule disjI2)
qed simp

end
