(* ===== verification/Startup.thy ===== *)
theory Startup
  imports Loader CmdConfigProps
begin

text \<open>
  Starting, reloading and stopping the program: the configuration put together from the file, the
  command line and the environment (\<open>x/config/parsing/parser/parser.go\<close>), and \<open>program.go\<close>.

  Reading files, the command line's URLs, listening and serving are parameters. A goroutine that
  serves a service or a server is an event of the trace at the place where it is started.
\<close>

section \<open>The configuration of the command line\<close>

text \<open>Items of a file are of a type \<open>'f\<close>; those of the command line are the ones of \<open>CmdConfig\<close>.\<close>

datatype 'f item =
  FromFile 'f | CmdChain "hop_cfg list" | CmdService cmd_service cmd_group | CmdRule rule_cfg
| CmdResolver resolver_cfg | CmdHosts hosts_cfg | CmdLimiter limiter_cfg

fun cmd_items :: "cmd_config \<Rightarrow> part \<Rightarrow> (string \<times> 'f item) list" where
  "cmd_items c Services = map (\<lambda>v. (vs_name v, CmdService v (cc_groups c ! vs_group v))) (cc_services c)"
| "cmd_items c Chains = (case cc_chain c of None \<Rightarrow> [] | Some (n, hops) \<Rightarrow> [(n, CmdChain hops)])"
| "cmd_items c Bypasses = map (\<lambda>r. (rc_name r, CmdRule r)) (ru_bypasses (cc_rules c))"
| "cmd_items c Admissions = map (\<lambda>r. (rc_name r, CmdRule r)) (ru_admissions (cc_rules c))"
| "cmd_items c Resolvers = map (\<lambda>r. (vc_name r, CmdResolver r)) (ru_resolvers (cc_rules c))"
| "cmd_items c Hosts = map (\<lambda>r. (hc_name r, CmdHosts r)) (ru_hosts (cc_rules c))"
| "cmd_items c Limiters = map (\<lambda>r. (mc_name r, CmdLimiter r)) (ru_limiters (cc_rules c))"
| "cmd_items c CLimiters = map (\<lambda>r. (mc_name r, CmdLimiter r)) (ru_climiters (cc_rules c))"
| "cmd_items c RLimiters = map (\<lambda>r. (mc_name r, CmdLimiter r)) (ru_rlimiters (cc_rules c))"
| "cmd_items c k = []"

definition cmd_as_config :: "cmd_config \<Rightarrow> 'f item config" where
  "cmd_as_config c = empty_config\<lparr>cf_items := cmd_items c\<rparr>"

section \<open>Parsing\<close>

record parse_args =
  pg_cfgFile :: string
  pg_services :: "string list"
  pg_nodes :: "string list"
  pg_debug :: bool
  pg_trace :: bool
  pg_apiAddr :: string
  pg_metricsAddr :: string

record 'f parse_env =
  pe_json :: "string \<Rightarrow> string + 'f item config"
  pe_file :: "string \<Rightarrow> string + 'f item config"
  pe_default :: "'f item config \<Rightarrow> string + 'f item config"
  pe_getenv :: "string \<Rightarrow> string"
  pe_cmd :: cmd_env
  pe_prefix :: string

definition read_config :: "'f parse_env \<Rightarrow> string \<Rightarrow> string + 'f item config" where
  "read_config E file =
     (if file = [] then Inr empty_config
      else
        (let f = TrimSpace file in
         if HasPrefix f ''{'' \<and> HasSuffix f ''}'' then pe_json E f else pe_file E f))"

definition with_level :: "string \<Rightarrow> log_config" where
  "with_level l = default_log\<lparr>lg_level := l\<rparr>"

definition with_api :: "string \<Rightarrow> api_config" where
  "with_api a = \<lparr>ap_addr = a, ap_pathPrefix = [], ap_accessLog = False, ap_auth = None, ap_auther = []\<rparr>"

definition with_metrics :: "string \<Rightarrow> metrics_config" where
  "with_metrics a = \<lparr>me_addr = a, me_path = [], me_auth = None, me_auther = []\<rparr>"

definition from_environment :: "(string \<Rightarrow> string) \<Rightarrow> 'c config \<Rightarrow> 'c config" where
  "from_environment env cfg =
     (let l = env ''GOST_LOGGER_LEVEL''; a = env ''GOST_API''; m = env ''GOST_METRICS''; p = env ''GOST_PROFILING'';
          c1 = (if l \<noteq> [] then cfg\<lparr>cf_log := Some (with_level l)\<rparr> else cfg);
          c2 = (if a \<noteq> [] then c1\<lparr>cf_api := Some (with_api a)\<rparr> else c1);
          c3 = (if m \<noteq> [] then c2\<lparr>cf_metrics := Some (with_metrics m)\<rparr> else c2)
      in if p \<noteq> [] then c3\<lparr>cf_profiling := Some p\<rparr> else c3)"

definition debug_level :: "parse_args \<Rightarrow> 'c config \<Rightarrow> 'c config" where
  "debug_level A cfg =
     (if pg_debug A \<or> pg_trace A then
        (let l = (case cf_log cfg of None \<Rightarrow> default_log | Some l \<Rightarrow> l)
         in cfg\<lparr>cf_log := Some (l\<lparr>lg_level := if pg_trace A then ''trace'' else ''debug''\<rparr>)\<rparr>)
      else cfg)"

definition api_of_arg :: "cmd_env \<Rightarrow> string \<Rightarrow> api_config" where
  "api_of_arg E a =
     (case Norm E a of
        Inl _ \<Rightarrow> with_api a
      | Inr u \<Rightarrow>
          (let md = md_of (query_md u)
           in (with_api (u_host u))\<lparr>ap_auth := u_user u, ap_pathPrefix := GetString md [''pathPrefix''],
                ap_accessLog := GetBool md [''accesslog'']\<rparr>))"

definition metrics_of_arg :: "cmd_env \<Rightarrow> string \<Rightarrow> metrics_config" where
  "metrics_of_arg E a =
     (case Norm E a of
        Inl _ \<Rightarrow> with_metrics a
      | Inr u \<Rightarrow> (with_metrics (u_host u))\<lparr>me_auth := u_user u, me_path := GetString (md_of (query_md u)) [''path'']\<rparr>)"

definition from_arguments :: "cmd_env \<Rightarrow> parse_args \<Rightarrow> 'c config \<Rightarrow> 'c config" where
  "from_arguments E A cfg =
     (let c1 = debug_level A cfg;
          c2 = (if pg_apiAddr A \<noteq> [] then c1\<lparr>cf_api := Some (api_of_arg E (pg_apiAddr A))\<rparr> else c1)
      in if pg_metricsAddr A \<noteq> [] then c2\<lparr>cf_metrics := Some (metrics_of_arg E (pg_metricsAddr A))\<rparr> else c2)"

text \<open>Without services and without an API the configuration in the default place is read over it.\<close>

definition Parser_Parse :: "'f parse_env \<Rightarrow> parse_args \<Rightarrow> string + 'f item config" where
  "Parser_Parse E A =
     (case read_config E (pg_cfgFile A) of
        Inl e \<Rightarrow> Inl e
      | Inr file \<Rightarrow>
          (case BuildConfigFromCmd (pe_cmd E) (pe_prefix E) (pg_services A) (pg_nodes A) of
             Inl e \<Rightarrow> Inl e
           | Inr c \<Rightarrow>
               (let cfg = merge_both file (cmd_as_config c)
                in case (if cf_items cfg Services = [] \<and> pg_apiAddr A = [] \<and> cf_api cfg = None then pe_default E cfg
                         else Inr cfg) of
                     Inl e \<Rightarrow> Inl e
                   | Inr cfg' \<Rightarrow> Inr (from_arguments (pe_cmd E) A (from_environment (pe_getenv E) cfg')))))"

section \<open>Servers\<close>

datatype role = ApiServer | MetricsServer | ProfilingServer

text \<open>The server_auth of a server: inline ones and those of a registered auther.\<close>

datatype server_auth = Inline string string | Named string

record server =
  sv_network :: string
  sv_addr :: string
  sv_path :: string
  sv_accessLog :: bool
  sv_auth :: "server_auth list"

definition inline_auther :: "(string \<times> string) option \<Rightarrow> server_auth list" where
  "inline_auther a =
     (case a of None \<Rightarrow> [] | Some (u, p) \<Rightarrow> if u = [] then [] else [Inline u p])"

definition network_of :: "string \<Rightarrow> string \<times> string" where
  "network_of addr =
     (if HasPrefix addr ''unix://'' then (''unix'', drop 7 addr) else (''tcp'', addr))"

definition api_server :: "api_config \<Rightarrow> server" where
  "api_server c =
     \<lparr>sv_network = fst (network_of (ap_addr c)), sv_addr = snd (network_of (ap_addr c)), sv_path = ap_pathPrefix c,
      sv_accessLog = ap_accessLog c,
      sv_auth = inline_auther (ap_auth c) @ (if ap_auther c \<noteq> [] then [Named (ap_auther c)] else [])\<rparr>"

definition metrics_server :: "metrics_config \<Rightarrow> server" where
  "metrics_server c =
     \<lparr>sv_network = fst (network_of (me_addr c)), sv_addr = snd (network_of (me_addr c)), sv_path = me_path c,
      sv_accessLog = False,
      sv_auth = (if me_auther c \<noteq> [] then [Named (me_auther c)] else inline_auther (me_auth c))\<rparr>"

definition profiling_server :: "string \<Rightarrow> server" where
  "profiling_server addr =
     \<lparr>sv_network = ''tcp'', sv_addr = (if addr = [] then '':6060'' else addr), sv_path = [], sv_accessLog = False,
      sv_auth = []\<rparr>"

section \<open>The program\<close>

text \<open>
  \<open>Serving\<close> names the services that are served from then on; \<open>Opened\<close> and \<open>Shut\<close> are of a server.
  A server of the API or of metrics listens when it is made, the profiling one in its goroutine.
\<close>

datatype 'o event = Serving "'o registry" | Opened role server | Shut role | ClosedServices "'o registry"

record ('f, 't, 'o, 's) program_env =
  px_parse :: "'f parse_env"
  px_args :: parse_args
  px_tls :: "'t tls_env"
  px_parsers :: "('f item, 'o, 's) config_parsers"
  px_visit :: "part \<Rightarrow> 'o registry \<Rightarrow> string list"
  px_listen :: "role \<Rightarrow> server \<Rightarrow> go_error"

record ('f, 't, 'o, 's) program =
  pr_config :: "'f item config"
  pr_loaded :: "('t, 'o, 's) loaded"
  pr_servers :: "role \<Rightarrow> server option"
  pr_metricsOn :: bool
  pr_events :: "'o event list"

definition emit :: "'o event \<Rightarrow> ('f, 't, 'o, 's) program \<Rightarrow> ('f, 't, 'o, 's) program" where
  "emit e p = p\<lparr>pr_events := pr_events p @ [e]\<rparr>"

definition shut_server :: "role \<Rightarrow> ('f, 't, 'o, 's) program \<Rightarrow> ('f, 't, 'o, 's) program" where
  "shut_server r p =
     (case pr_servers p r of
        None \<Rightarrow> p
      | Some _ \<Rightarrow> emit (Shut r) (p\<lparr>pr_servers := (pr_servers p)(r := None)\<rparr>))"

definition open_server :: "role \<Rightarrow> server \<Rightarrow> ('f, 't, 'o, 's) program \<Rightarrow> ('f, 't, 'o, 's) program" where
  "open_server r v p = emit (Opened r v) (p\<lparr>pr_servers := (pr_servers p)(r \<mapsto> v)\<rparr>)"

definition run_api ::
    "('f, 't, 'o, 's) program_env \<Rightarrow> 'f item config \<Rightarrow> ('f, 't, 'o, 's) program \<Rightarrow> go_error \<times> ('f, 't, 'o, 's) program" where
  "run_api X cfg p =
     (let q = shut_server ApiServer p in
      case cf_api cfg of
        None \<Rightarrow> (nil_error, q)
      | Some c \<Rightarrow>
          (case px_listen X ApiServer (api_server c) of
             Some e \<Rightarrow> (Some e, q)
           | None \<Rightarrow> (nil_error, open_server ApiServer (api_server c) q)))"

definition run_metrics ::
    "('f, 't, 'o, 's) program_env \<Rightarrow> 'f item config \<Rightarrow> ('f, 't, 'o, 's) program \<Rightarrow> go_error \<times> ('f, 't, 'o, 's) program" where
  "run_metrics X cfg p =
     (let q = shut_server MetricsServer (p\<lparr>pr_metricsOn := False\<rparr>) in
      case cf_metrics cfg of
        None \<Rightarrow> (nil_error, q)
      | Some c \<Rightarrow>
          if me_addr c = [] then (nil_error, q)
          else case px_listen X MetricsServer (metrics_server c) of
             Some e \<Rightarrow> (Some e, q)
           | None \<Rightarrow> (nil_error, (open_server MetricsServer (metrics_server c) q)\<lparr>pr_metricsOn := True\<rparr>))"

definition run_profiling :: "'f item config \<Rightarrow> ('f, 't, 'o, 's) program \<Rightarrow> ('f, 't, 'o, 's) program" where
  "run_profiling cfg p =
     (let q = shut_server ProfilingServer p in
      case cf_profiling cfg of None \<Rightarrow> q | Some a \<Rightarrow> open_server ProfilingServer (profiling_server a) q)"

definition program_run ::
    "('f, 't, 'o, 's) program_env \<Rightarrow> 'f item config \<Rightarrow> ('f, 't, 'o, 's) program \<Rightarrow> go_error \<times> ('f, 't, 'o, 's) program" where
  "program_run X cfg p =
     (let p1 = emit (Serving (GetAll (lo_regs (pr_loaded p) Services))) p in
      case run_api X cfg p1 of
        (Some e, p2) \<Rightarrow> (Some e, p2)
      | (None, p2) \<Rightarrow>
          (case run_metrics X cfg p2 of
             (Some e, p3) \<Rightarrow> (Some e, p3)
           | (None, p3) \<Rightarrow> (nil_error, run_profiling cfg p3)))"

text \<open>\<open>Start\<close>, where no output of the configuration is asked for, and a reload do the same.\<close>

definition reloadConfig ::
    "('f, 't, 'o, 's) program_env \<Rightarrow> ('f, 't, 'o, 's) program \<Rightarrow> go_error \<times> ('f, 't, 'o, 's) program" where
  "reloadConfig X p =
     (case Parser_Parse (px_parse X) (px_args X) of
        Inl e \<Rightarrow> (Some e, p)
      | Inr cfg \<Rightarrow>
          (case Loader_Load (px_tls X) (px_parsers X) (px_visit X) cfg (pr_loaded p) of
             (Some e, L) \<Rightarrow> (Some e, p\<lparr>pr_config := cfg, pr_loaded := L\<rparr>)
           | (None, L) \<Rightarrow> program_run X cfg (p\<lparr>pr_config := cfg, pr_loaded := L\<rparr>)))"

text \<open>Writing the configuration out instead of starting exits; \<open>write\<close> is the encoder with its output.\<close>

definition program_Start ::
    "('f, 't, 'o, 's) program_env \<Rightarrow> (string \<Rightarrow> 'f item config \<Rightarrow> go_error) \<Rightarrow> string \<Rightarrow> ('f, 't, 'o, 's) program \<Rightarrow>
       go_error \<times> bool \<times> ('f, 't, 'o, 's) program" where
  "program_Start X write outputFormat p =
     (if outputFormat \<noteq> [] then
        (case Parser_Parse (px_parse X) (px_args X) of
           Inl e \<Rightarrow> (Some e, False, p)
         | Inr cfg \<Rightarrow> (case write outputFormat cfg of Some e \<Rightarrow> (Some e, False, p) | None \<Rightarrow> (nil_error, True, p)))
      else (case reloadConfig X p of (e, q) \<Rightarrow> (e, False, q)))"

definition program_Stop :: "('f, 't, 'o, 's) program \<Rightarrow> ('f, 't, 'o, 's) program" where
  "program_Stop p =
     shut_server ProfilingServer (shut_server MetricsServer (shut_server ApiServer
       (emit (ClosedServices (GetAll (lo_regs (pr_loaded p) Services))) p)))"

definition new_program :: "('t, 'o, 's) loaded \<Rightarrow> ('f, 't, 'o, 's) program" where
  "new_program L = \<lparr>pr_config = empty_config, pr_loaded = L, pr_servers = (\<lambda>r. None), pr_metricsOn = False, pr_events = []\<rparr>"

text \<open>
  Runs of the program: it is started, reloads on a signal, and between reloads the API, the panel and
  the connections change what is registered in any way.
\<close>

inductive program_runs :: "('f, 't, 'o, 's) program_env \<Rightarrow> ('f, 't, 'o, 's) program \<Rightarrow> bool" for X where
  start: "reloadConfig X (new_program L) = (nil_error, p) \<Longrightarrow> program_runs X p"
| reload: "program_runs X p \<Longrightarrow> reloadConfig X p = (e, q) \<Longrightarrow> program_runs X q"
| work: "program_runs X p \<Longrightarrow> program_runs X (p\<lparr>pr_config := c, pr_loaded := L\<rparr>)"

section \<open>Servers that are open\<close>

text \<open>The servers that the events leave open, in the order they were opened.\<close>

fun open_after :: "role \<Rightarrow> 'o event list \<Rightarrow> server list \<Rightarrow> server list" where
  "open_after r [] vs = vs"
| "open_after r (Opened r' v # es) vs = open_after r es (if r' = r then vs @ [v] else vs)"
| "open_after r (Shut r' # es) vs = open_after r es (if r' = r then butlast vs else vs)"
| "open_after r (Serving m # es) vs = open_after r es vs"
| "open_after r (ClosedServices m # es) vs = open_after r es vs"

lemma open_after_append: "open_after r (es @ fs) vs = open_after r fs (open_after r es vs)"
  by (induction r es vs rule: open_after.induct) simp_all

definition servers_ok :: "('f, 't, 'o, 's) program \<Rightarrow> bool" where
  "servers_ok p \<longleftrightarrow>
     (\<forall>r. open_after r (pr_events p) [] = (case pr_servers p r of None \<Rightarrow> [] | Some v \<Rightarrow> [v])) \<and>
     (pr_metricsOn p \<longleftrightarrow> pr_servers p MetricsServer \<noteq> None)"

lemma servers_ok_D:
  "servers_ok p \<Longrightarrow> open_after r (pr_events p) [] = (case pr_servers p r of None \<Rightarrow> [] | Some v \<Rightarrow> [v])"
  by (simp add: servers_ok_def)

lemma emit_serving_ok: "servers_ok p \<Longrightarrow> servers_ok (emit (Serving m) p)"
  by (simp add: servers_ok_def emit_def open_after_append)

lemma shut_server_ok: "r \<noteq> MetricsServer \<Longrightarrow> servers_ok p \<Longrightarrow> servers_ok (shut_server r p)"
  by (auto simp: servers_ok_def shut_server_def emit_def open_after_append split: option.splits)

lemma shut_metrics_ok: "servers_ok p \<Longrightarrow> servers_ok (shut_server MetricsServer (p\<lparr>pr_metricsOn := False\<rparr>))"
  by (auto simp: servers_ok_def shut_server_def emit_def open_after_append split: option.splits)

lemma shut_server_none [simp]: "pr_servers (shut_server r p) r = None"
  by (simp add: shut_server_def emit_def split: option.split)

lemma shut_server_other [simp]: "r' \<noteq> r \<Longrightarrow> pr_servers (shut_server r p) r' = pr_servers p r'"
  by (simp add: shut_server_def emit_def split: option.split)

lemma open_server_ok:
  "r \<noteq> MetricsServer \<Longrightarrow> servers_ok p \<Longrightarrow> pr_servers p r = None \<Longrightarrow> servers_ok (open_server r v p)"
  by (auto simp: servers_ok_def open_server_def emit_def open_after_append split: option.splits)

lemma open_metrics_ok:
  "servers_ok p \<Longrightarrow> pr_servers p MetricsServer = None \<Longrightarrow>
     servers_ok ((open_server MetricsServer v p)\<lparr>pr_metricsOn := True\<rparr>)"
  by (auto simp: servers_ok_def open_server_def emit_def open_after_append split: option.splits)

lemma run_api_ok: "servers_ok p \<Longrightarrow> servers_ok (snd (run_api X cfg p))"
  by (simp add: run_api_def Let_def shut_server_ok open_server_ok split: option.split)

lemma run_metrics_ok: "servers_ok p \<Longrightarrow> servers_ok (snd (run_metrics X cfg p))"
  by (simp add: run_metrics_def Let_def shut_metrics_ok open_metrics_ok split: option.split)

lemma run_profiling_ok: "servers_ok p \<Longrightarrow> servers_ok (run_profiling cfg p)"
  by (simp add: run_profiling_def Let_def shut_server_ok open_server_ok split: option.split)

lemma program_run_ok:
  assumes "servers_ok p"
  shows "servers_ok (snd (program_run X cfg p))"
proof -
  let ?p1 = "emit (Serving (GetAll (lo_regs (pr_loaded p) Services))) p"
  have 2: "servers_ok (snd (run_api X cfg ?p1))" using assms by (intro run_api_ok emit_serving_ok)
  have 3: "servers_ok (snd (run_metrics X cfg (snd (run_api X cfg ?p1))))" using 2 by (rule run_metrics_ok)
  show ?thesis using 2 3 run_profiling_ok [OF 3]
    by (simp add: program_run_def Let_def case_prod_beta split: option.split)
qed

lemma servers_ok_set [simp]: "servers_ok (p\<lparr>pr_config := c, pr_loaded := L\<rparr>) = servers_ok p"
  by (simp add: servers_ok_def)

lemma reloadConfig_ok:
  assumes "servers_ok p"
  shows "servers_ok (snd (reloadConfig X p))"
  using assms program_run_ok [of "p\<lparr>pr_config := _, pr_loaded := _\<rparr>" X]
  by (auto simp: reloadConfig_def case_prod_beta split: sum.split option.split)

text \<open>
  Through any sequence of reloads, failed ones too, and whatever happens between them, at most one
  server of the API, of the metrics and of profiling is open, the one the program holds, and metrics
  are collected exactly while their server is open.
\<close>

theorem one_server_of_each_kind:
  assumes "program_runs X p"
  shows "open_after r (pr_events p) [] = (case pr_servers p r of None \<Rightarrow> [] | Some v \<Rightarrow> [v]) \<and>
    (pr_metricsOn p \<longleftrightarrow> pr_servers p MetricsServer \<noteq> None)"
proof -
  have "servers_ok p"
    using assms
  proof (induction rule: program_runs.induct)
    case (start L p)
    have "servers_ok (new_program L)" by (simp add: servers_ok_def new_program_def)
    from reloadConfig_ok [OF this, of X] start show ?case by simp
  next
    case (reload p e q)
    from reloadConfig_ok [OF reload(3), of X] reload(2) show ?case by simp
  qed simp
  then show ?thesis by (simp add: servers_ok_def)
qed

section \<open>What a reload changes\<close>

definition wanted_servers :: "'c config \<Rightarrow> role \<Rightarrow> server option" where
  "wanted_servers cfg r =
     (case r of
        ApiServer \<Rightarrow> map_option api_server (cf_api cfg)
      | MetricsServer \<Rightarrow> (case cf_metrics cfg of None \<Rightarrow> None | Some c \<Rightarrow> if me_addr c = [] then None else Some (metrics_server c))
      | ProfilingServer \<Rightarrow> map_option profiling_server (cf_profiling cfg))"

lemma shut_server_fields [simp]:
  "pr_loaded (shut_server r p) = pr_loaded p" "pr_config (shut_server r p) = pr_config p"
  by (simp_all add: shut_server_def emit_def split: option.split)

lemma open_server_fields [simp]:
  "pr_loaded (open_server r v p) = pr_loaded p" "pr_config (open_server r v p) = pr_config p"
  "pr_servers (open_server r v p) = (pr_servers p)(r \<mapsto> v)"
  by (simp_all add: open_server_def emit_def)

definition serves :: "'o event list \<Rightarrow> 'o registry list" where
  "serves es = concat (map (\<lambda>e. case e of Serving m \<Rightarrow> [m] | _ \<Rightarrow> []) es)"

lemma serves_append [simp]: "serves (es @ fs) = serves es @ serves fs"
  by (simp add: serves_def)

lemma serves_shut [simp]: "serves (pr_events (shut_server r p)) = serves (pr_events p)"
  by (simp add: shut_server_def emit_def serves_def split: option.split)

lemma serves_open [simp]: "serves (pr_events (open_server r v p)) = serves (pr_events p)"
  by (simp add: open_server_def emit_def serves_def)

lemma run_api_done:
  assumes "run_api X cfg p = (None, q)"
  shows "pr_loaded q = pr_loaded p \<and> pr_config q = pr_config p \<and> serves (pr_events q) = serves (pr_events p) \<and>
    pr_servers q = (pr_servers p)(ApiServer := map_option api_server (cf_api cfg))"
  using assms by (auto simp: run_api_def Let_def fun_eq_iff split: option.splits)

lemma run_metrics_done:
  assumes "run_metrics X cfg p = (None, q)"
  shows "pr_loaded q = pr_loaded p \<and> pr_config q = pr_config p \<and> serves (pr_events q) = serves (pr_events p) \<and>
    pr_servers q = (pr_servers p)(MetricsServer := wanted_servers cfg MetricsServer)"
proof -
  have "pr_servers (shut_server MetricsServer (p\<lparr>pr_metricsOn := False\<rparr>)) = (pr_servers p)(MetricsServer := None)"
    by (auto simp: fun_eq_iff shut_server_def emit_def split: option.splits)
  then show ?thesis
    using assms serves_shut [of MetricsServer "p\<lparr>pr_metricsOn := False\<rparr>"]
    by (auto simp: run_metrics_def Let_def wanted_servers_def split: option.splits if_splits)
qed

lemma run_profiling_done:
  "pr_loaded (run_profiling cfg p) = pr_loaded p \<and> pr_config (run_profiling cfg p) = pr_config p \<and>
   serves (pr_events (run_profiling cfg p)) = serves (pr_events p) \<and>
   pr_servers (run_profiling cfg p) = (pr_servers p)(ProfilingServer := map_option profiling_server (cf_profiling cfg))"
  by (auto simp: run_profiling_def Let_def fun_eq_iff split: option.splits)

lemma program_run_done:
  assumes "program_run X cfg p = (None, q)"
  shows "pr_loaded q = pr_loaded p \<and> pr_config q = pr_config p \<and> pr_servers q = wanted_servers cfg \<and>
    serves (pr_events q) = serves (pr_events p) @ [lo_regs (pr_loaded p) Services]"
proof -
  let ?p1 = "emit (Serving (GetAll (lo_regs (pr_loaded p) Services))) p"
  obtain p2 where 2: "run_api X cfg ?p1 = (None, p2)"
    using assms by (cases "run_api X cfg ?p1") (auto simp: program_run_def Let_def split: option.splits)
  obtain p3 where 3: "run_metrics X cfg p2 = (None, p3)"
    using assms 2 by (cases "run_metrics X cfg p2") (auto simp: program_run_def Let_def split: option.splits)
  have q: "q = run_profiling cfg p3" using assms 2 3 by (simp add: program_run_def Let_def)
  have "pr_servers q r = wanted_servers cfg r" for r
    using run_api_done [OF 2] run_metrics_done [OF 3] run_profiling_done [of cfg p3]
    by (cases r) (simp_all add: q wanted_servers_def)
  then show ?thesis
    using run_api_done [OF 2] run_metrics_done [OF 3] run_profiling_done [of cfg p3]
    by (auto simp: q emit_def serves_def GetAll_def)
qed

text \<open>
  (C10) A reload that succeeds puts the whole new configuration in force: it is the one the program
  reports, the registry of every kind holds what it lists, the servers are the ones it asks for, and
  the services registered are served.
\<close>

theorem reload_applies_the_configuration:
  assumes "reloadConfig X p = (None, q)" and "visits_all (px_visit X)" and "\<forall>k. finite (dom (lo_regs (pr_loaded p) k))"
  shows "Parser_Parse (px_parse X) (px_args X) = Inr (pr_config q) \<and>
    part_loaded (px_parsers X) k (cf_items (pr_config q) k)
      (\<lambda>Rp. \<forall>k' \<in> asks_for k. Rp k' = lo_regs (pr_loaded q) k') (lo_regs (pr_loaded q) k) \<and>
    pr_servers q = wanted_servers (pr_config q) \<and>
    serves (pr_events q) = serves (pr_events p) @ [lo_regs (pr_loaded q) Services]"
proof -
  obtain cfg where cfg: "Parser_Parse (px_parse X) (px_args X) = Inr cfg"
    using assms(1) by (cases "Parser_Parse (px_parse X) (px_args X)") (auto simp: reloadConfig_def)
  obtain L where L: "Loader_Load (px_tls X) (px_parsers X) (px_visit X) cfg (pr_loaded p) = (None, L)"
    using assms(1) cfg by (auto simp: reloadConfig_def split: prod.splits option.splits)
  have run: "program_run X cfg (p\<lparr>pr_config := cfg, pr_loaded := L\<rparr>) = (None, q)"
    using assms(1) cfg L by (simp add: reloadConfig_def)
  note d = program_run_done [OF run]
  have "part_loaded (px_parsers X) k (cf_items cfg k) (\<lambda>Rp. \<forall>k' \<in> asks_for k. Rp k' = lo_regs L k') (lo_regs L k)"
    by (rule Loader_Load_ok [OF L assms(2,3)])
  then show ?thesis using d cfg by simp
qed

text \<open>
  A reload that fails while it loads: the services that are registered then, closed and made anew up to
  the one that failed, are not served, but the program reports the new configuration.
\<close>

lemma failed_reload_serves_nothing:
  assumes "Parser_Parse (px_parse X) (px_args X) = Inr cfg"
    and "Loader_Load (px_tls X) (px_parsers X) (px_visit X) cfg (pr_loaded p) = (Some e, L)"
  shows "reloadConfig X p = (Some e, p\<lparr>pr_config := cfg, pr_loaded := L\<rparr>)"
    and "serves (pr_events (snd (reloadConfig X p))) = serves (pr_events p)"
  using assms by (simp_all add: reloadConfig_def)

section \<open>The items of the command line\<close>

text \<open>The prefixes of the names of each kind.\<close>

fun kind_prefix :: "part \<Rightarrow> string" where
  "kind_prefix Bypasses = ''bypass-''"
| "kind_prefix Admissions = ''admission-''"
| "kind_prefix Resolvers = ''resolver-''"
| "kind_prefix Hosts = ''hosts-''"
| "kind_prefix Limiters = ''limiter-''"
| "kind_prefix CLimiters = ''climiter-''"
| "kind_prefix RLimiters = ''rlimiter-''"
| "kind_prefix k = []"

lemma cmd_items_names:
  "kind_prefix k \<noteq> [] \<Longrightarrow> map fst (cmd_items c k) = names_of_kind (kind_prefix k) (cc_rules c)"
  by (cases k) (simp_all add: names_of_kind_def comp_def)

lemma items_unchanged [simp]:
  "cf_items (from_environment env cfg) = cf_items cfg"
  "cf_items (from_arguments E A cfg) = cf_items cfg"
  by (simp_all add: from_environment_def from_arguments_def debug_level_def Let_def)

lemma cmd_only_parse:
  assumes "pg_cfgFile A = []" and "BuildConfigFromCmd (pe_cmd E) (pe_prefix E) (pg_services A) (pg_nodes A) = Inr c"
    and "cc_services c \<noteq> []" and "Parser_Parse E A = Inr cfg"
  shows "cf_items cfg = cmd_items c"
proof -
  obtain M :: "'a item config" where M: "merge_both empty_config (cmd_as_config c) = M" by simp
  then have items: "cf_items M = cmd_items c" by (auto simp: merge_both_def cmd_as_config_def empty_config_def)
  then have "cf_items M Services \<noteq> []" using assms(3) by simp
  then have "Parser_Parse E A = Inr (from_arguments (pe_cmd E) A (from_environment (pe_getenv E) M))"
    by (simp add: Parser_Parse_def read_config_def assms(1,2) M Let_def)
  then show ?thesis using assms(4) items by auto
qed

lemma cmd_items_distinct:
  assumes "BuildConfigFromCmd E p services nodes = Inr c"
  shows "distinct (map fst (cmd_items c k))"
proof (cases "kind_prefix k = []")
  case False
  then show ?thesis using BuildConfigFromCmd_ok [OF assms] by (simp add: cmd_items_names)
next
  case True
  then show ?thesis using BuildConfigFromCmd_ok [OF assms]
    by (cases k) (auto simp: comp_def split: option.split)
qed

section \<open>Examples\<close>

definition plain_parsers :: "('c, string, string list) config_parsers" where
  "plain_parsers = \<lparr>pa_parse = (\<lambda>k n c R s. (Inr (Some n), s)), pa_close = (\<lambda>v s. s @ [v])\<rparr>"

definition demo_parse_env :: "unit parse_env" where
  "demo_parse_env = \<lparr>pe_json = (\<lambda>s. Inl s), pe_file = (\<lambda>s. Inl s), pe_default = Inr, pe_getenv = (\<lambda>s. []),
     pe_cmd = cmd_demo_env ''~a'', pe_prefix = []\<rparr>"

definition demo_args :: parse_args where
  "demo_args = \<lparr>pg_cfgFile = [], pg_services = [''http://:80-81?admission=~a''], pg_nodes = [], pg_debug = False,
     pg_trace = False, pg_apiAddr = [], pg_metricsAddr = []\<rparr>"

lemma demo_command:
  obtains c where "BuildConfigFromCmd (cmd_demo_env ''~a'') [] [''http://:80-81?admission=~a''] [] = Inr c"
    and "cc_services c \<noteq> []"
    and "Parser_Parse demo_parse_env demo_args = Inr (cmd_as_config c)"
proof -
  obtain c where c: "BuildConfigFromCmd (cmd_demo_env ''~a'') [] [''http://:80-81?admission=~a''] [] = Inr c"
    "map vs_addr (cc_services c) = ['':80'', '':81'']"
    using cmd_demo by (auto split: sum.splits)
  then have "Parser_Parse demo_parse_env demo_args = Inr (cmd_as_config c)"
    by (auto simp: Parser_Parse_def read_config_def demo_parse_env_def demo_args_def merge_both_def cmd_as_config_def
      empty_config_def from_arguments_def debug_level_def from_environment_def Let_def or_else_def)
  then show thesis using c that by fastforce
qed

lemma plain_no_error [simp]: "fst (pa_parse plain_parsers k n i R s) \<noteq> Inl m"
  by (simp add: plain_parsers_def)

lemma demo_tls_made [simp]: "BuildDefaultTLSConfig demo_tls c \<noteq> Inl m"
  by (simp add: BuildDefaultTLSConfig_def demo_tls_def genCertificate_def Let_def)

lemma demo_finite: "\<forall>k. finite (dom (lo_regs demo_loaded k))"
  by (simp add: demo_loaded_def)

definition demo_program :: "(unit, string, string, string list) program_env" where
  "demo_program = \<lparr>px_parse = demo_parse_env, px_args = demo_args, px_tls = demo_tls, px_parsers = plain_parsers,
     px_visit = demo_visit, px_listen = (\<lambda>r v. None)\<rparr>"

lemma demo_reload:
  obtains q where "reloadConfig demo_program (new_program demo_loaded) = (None, q)"
proof -
  obtain c where c: "BuildConfigFromCmd (cmd_demo_env ''~a'') [] [''http://:80-81?admission=~a''] [] = Inr c"
    "cc_services c \<noteq> []" "Parser_Parse demo_parse_env demo_args = Inr (cmd_as_config c)"
    by (rule demo_command)
  obtain L' where L: "Loader_Load demo_tls plain_parsers demo_visit (cmd_as_config c :: unit item config) demo_loaded = (None, L')"
  proof -
    obtain e L' where L: "Loader_Load demo_tls plain_parsers demo_visit (cmd_as_config c :: unit item config) demo_loaded = (e, L')"
      by fastforce
    have "\<forall>k. distinct (filter (\<lambda>n. n \<noteq> []) (map fst (cf_items (cmd_as_config c :: unit item config) k)))"
      using cmd_items_distinct [OF c(1)] by (auto simp: cmd_as_config_def intro: distinct_filter)
    then have "e = Some m \<Longrightarrow> False" for m
      using load_error_is_the_parsers [OF _ demo_visits demo_finite, of demo_tls plain_parsers "cmd_as_config c :: unit item config" m L'] L
      by simp
    then have "e = None" by (cases e) auto
    then show thesis using L that by blast
  qed
  have "fst (reloadConfig demo_program (new_program demo_loaded)) = None"
    using c(3) L
    by (simp add: reloadConfig_def demo_program_def new_program_def program_run_def run_api_def run_metrics_def
      cmd_as_config_def empty_config_def Let_def)
  then show thesis using that by (metis prod.collapse)
qed

theorem reload_applies_the_configuration_witness:
  "\<exists>q. reloadConfig demo_program (new_program demo_loaded) = (None, q) \<and>
     serves (pr_events q) = [lo_regs (pr_loaded q) Services]"
proof -
  obtain q where q: "reloadConfig demo_program (new_program demo_loaded) = (None, q)" by (rule demo_reload)
  have "serves (pr_events q) = serves (pr_events (new_program demo_loaded)) @ [lo_regs (pr_loaded q) Services]"
    using reload_applies_the_configuration [OF q] demo_visits demo_finite
    by (simp add: demo_program_def new_program_def)
  then show ?thesis using q by (simp add: new_program_def serves_def)
qed

theorem one_server_of_each_kind_witness:
  "\<exists>q. program_runs demo_program q \<and>
     open_after ApiServer (pr_events q) [] = (case pr_servers q ApiServer of None \<Rightarrow> [] | Some v \<Rightarrow> [v])"
proof -
  obtain q where q: "reloadConfig demo_program (new_program demo_loaded) = (None, q)" by (rule demo_reload)
  then have "program_runs demo_program q" by (rule program_runs.start)
  with one_server_of_each_kind [OF this] show ?thesis by blast
qed

end
