(* ===== verification/ObjectParse.thy ===== *)
theory ObjectParse
  imports Bypass NameTables RouterTable Authers Resolver CmdConfig
begin

text \<open>
  The parsers of the remaining objects, \<open>x/config/parsing\<close>: what each makes of its configuration for
  the component that is modelled in \<open>Bypass\<close>, \<open>NameTables\<close>, \<open>RouterTable\<close>, \<open>Authers\<close> and \<open>Resolver\<close>.
  A plugin, loaders and the reload period are kept as they are configured; what loaders bring is a
  parameter of those theories.
\<close>

section \<open>Plugins and loaders\<close>

record plugin_config =
  pl_type :: string
  pl_addr :: string
  pl_token :: string
  pl_tls :: "(string \<times> bool) option"
  pl_timeout :: int

text \<open>The TLS options are the server's name and whether its certificate is not verified.\<close>

datatype plugin_made =
  HttpPlugin string string "(string \<times> bool) option" int
| GrpcPlugin string string string "(string \<times> bool) option"

definition plugin_tls :: "plugin_config \<Rightarrow> (string \<times> bool) option" where
  "plugin_tls p = map_option (\<lambda>(server, secure). (server, \<not> secure)) (pl_tls p)"

definition make_plugin :: "(string \<Rightarrow> string) \<Rightarrow> string \<Rightarrow> plugin_config \<Rightarrow> plugin_made" where
  "make_plugin norm name p =
     (if norm (pl_type p) = ''http'' then HttpPlugin name (pl_addr p) (plugin_tls p) (pl_timeout p)
      else GrpcPlugin name (pl_addr p) (pl_token p) (plugin_tls p))"

datatype redis_kind = RedisSet | RedisList | RedisHash

record redis_config =
  rd_type :: string
  rd_addr :: string
  rd_db :: int
  rd_user :: string
  rd_pass :: string
  rd_key :: string

record sources =
  sr_plugin :: "plugin_config option"
  sr_file :: string
  sr_redis :: "redis_config option"
  sr_url :: string
  sr_reload :: int

datatype loader_spec = FileLoader string | RedisLoader redis_kind redis_config | HttpLoader string

definition loader_specs :: "(string \<Rightarrow> redis_kind) \<Rightarrow> sources \<Rightarrow> loader_spec list" where
  "loader_specs kind s =
     (if sr_file s \<noteq> [] then [FileLoader (sr_file s)] else []) @
     (case sr_redis s of
        None \<Rightarrow> []
      | Some r \<Rightarrow> if rd_addr r \<noteq> [] then [RedisLoader (kind (rd_type r)) r] else []) @
     (if sr_url s \<noteq> [] then [HttpLoader (sr_url s)] else [])"

datatype 'a made = ByPlugin plugin_made | Local 'a "loader_spec list" int

definition make_local :: "(string \<Rightarrow> redis_kind) \<Rightarrow> sources \<Rightarrow> 'a \<Rightarrow> 'a made" where
  "make_local kind s x = Local x (loader_specs kind s) (sr_reload s)"

definition make_object ::
    "(string \<Rightarrow> string) \<Rightarrow> (string \<Rightarrow> redis_kind) \<Rightarrow> string \<Rightarrow> sources \<Rightarrow> 'a \<Rightarrow> 'a made" where
  "make_object norm kind name s x =
     (case sr_plugin s of
        Some p \<Rightarrow> ByPlugin (make_plugin norm name p)
      | None \<Rightarrow> make_local kind s x)"

definition list_or_set :: "string \<Rightarrow> redis_kind" where
  "list_or_set t = (if t = ''list'' then RedisList else RedisSet)"

section \<open>The objects\<close>

text \<open>An admission or a bypass: its name, \<open>reverse\<close>, the whitelist flag and the matchers.\<close>

record rules_config =
  rf_name :: string
  rf_reverse :: bool
  rf_whitelist :: bool
  rf_matchers :: "string list"

definition ParseBypass :: "loaders \<Rightarrow> sources \<Rightarrow> rules_config \<Rightarrow> bypass_options made" where
  "ParseBypass l s c =
     make_object ToLower (\<lambda>_. RedisSet) (rf_name c) s
       \<lparr>bo_whitelist = rf_reverse c \<or> rf_whitelist c, bo_matchers = rf_matchers c, bo_loaders = l\<rparr>"

definition ParseAdmission :: "loaders \<Rightarrow> sources \<Rightarrow> rules_config \<Rightarrow> admission_options made" where
  "ParseAdmission l s c =
     make_object ToLower (\<lambda>_. RedisSet) (rf_name c) s
       \<lparr>ao_whitelist = rf_reverse c \<or> rf_whitelist c, ao_matchers = rf_matchers c, ao_loaders = l\<rparr>"

fun host_mappings :: "(string \<times> string) list \<Rightarrow> (string \<times> int) list" where
  "host_mappings [] = []"
| "host_mappings ((host, ip) # ms) =
     (if ip = [] \<or> host = [] then host_mappings ms
      else case ParseIP ip of None \<Rightarrow> host_mappings ms | Some n \<Rightarrow> (host, n) # host_mappings ms)"

definition ParseHostMapper :: "sources \<Rightarrow> string \<Rightarrow> (string \<times> string) list \<Rightarrow> (string \<times> int) list made" where
  "ParseHostMapper s name mappings = make_object ToLower list_or_set name s (host_mappings mappings)"

definition ingress_rules :: "ingress_rule list \<Rightarrow> ingress_rule list" where
  "ingress_rules rs = filter (\<lambda>r. \<not> (ir_host r = [] \<or> ir_endpoint r = [])) rs"

definition ParseIngress :: "sources \<Rightarrow> string \<Rightarrow> ingress_rule list \<Rightarrow> ingress_rule list made" where
  "ParseIngress s name rs =
     make_object ToLower (\<lambda>t. if t = ''set'' then RedisSet else RedisHash) name s (ingress_rules rs)"

text \<open>\<open>text\<close> is the text of a network. A route without a destination takes that of its network.\<close>

record route_config =
  ro_net :: string
  ro_dst :: string
  ro_gateway :: string

fun config_routes :: "(ip_net \<Rightarrow> string) \<Rightarrow> route_config option list \<Rightarrow> ip_route list" where
  "config_routes text [] = []"
| "config_routes text (None # rs) = config_routes text rs"
| "config_routes text (Some r # rs) =
     (let net = ParseCIDR (if ro_dst r \<noteq> [] then ro_dst r else ro_net r);
          dst = (if ro_dst r \<noteq> [] then ro_dst r else case net of None \<Rightarrow> [] | Some n \<Rightarrow> text n)
      in if dst = [] \<or> ro_gateway r = [] then config_routes text rs
         else \<lparr>rt_net = net, rt_dst = dst, rt_gateway = ro_gateway r\<rparr> # config_routes text rs)"

definition ParseRouter ::
    "(ip_net \<Rightarrow> string) \<Rightarrow> sources \<Rightarrow> string \<Rightarrow> route_config option list \<Rightarrow> ip_route list made" where
  "ParseRouter text s name rs =
     make_object ToLower (\<lambda>t. if t = ''list'' then RedisList else if t = ''set'' then RedisSet else RedisHash) name s
       (config_routes text rs)"

text \<open>The type of an auther's plugin is taken as it is written.\<close>

definition ParseAuther :: "sources \<Rightarrow> string \<Rightarrow> auth_cfg list \<Rightarrow> credentials made" where
  "ParseAuther s name auths =
     make_object id (\<lambda>_. RedisHash) name s
       (put_all (map (\<lambda>a. (ac_user a, ac_pass a)) (filter (\<lambda>a. ac_user a \<noteq> []) auths)) [])"

text \<open>The limits of a limiter; those of connections and of rates have no plugin.\<close>

definition ParseTrafficLimiter :: "sources \<Rightarrow> string \<Rightarrow> string list \<Rightarrow> string list made" where
  "ParseTrafficLimiter s name limits = make_object ToLower list_or_set name s limits"

definition ParseConnLimiter :: "sources \<Rightarrow> string list \<Rightarrow> string list made" where
  "ParseConnLimiter s limits = make_local list_or_set s limits"

definition ParseRateLimiter :: "sources \<Rightarrow> string list \<Rightarrow> string list made" where
  "ParseRateLimiter s limits = make_local list_or_set s limits"

text \<open>
  A resolver. What its name servers answer depends on all of their configuration: the chain, the time
  to wait, the client's address and the name they are asked under are those of the exchange.
\<close>

record nameserver_config =
  nv_addr :: string
  nv_chain :: string
  nv_prefer :: string
  nv_clientIP :: string
  nv_hostname :: string
  nv_ttl :: int
  nv_timeout :: int
  nv_async :: bool
  nv_only :: string

definition name_server_of ::
    "(nameserver_config \<Rightarrow> dns_question \<Rightarrow> string + dns_msg) \<Rightarrow> nameserver_config \<Rightarrow> name_server" where
  "name_server_of exchange c =
     \<lparr>ns_addr = nv_addr c, ns_ttl = nv_ttl c, ns_prefer = nv_prefer c, ns_only = nv_only c, ns_async = nv_async c,
      ns_exchange = exchange c\<rparr>"

definition ParseResolver ::
    "(nameserver_config \<Rightarrow> dns_question \<Rightarrow> string + dns_msg) \<Rightarrow> (string \<Rightarrow> bool) \<Rightarrow> string \<Rightarrow> plugin_config option \<Rightarrow>
       nameserver_config list \<Rightarrow> name_server list made" where
  "ParseResolver exchange can_exchange name plugin servers =
     (case plugin of
        Some p \<Rightarrow> ByPlugin (make_plugin ToLower name p)
      | None \<Rightarrow> Local (NewResolver can_exchange (map (name_server_of exchange) servers)) [] 0)"

definition ParseObserver :: "string \<Rightarrow> plugin_config option \<Rightarrow> plugin_made option" where
  "ParseObserver name p = map_option (make_plugin ToLower name) p"

section \<open>Recorders and loggers\<close>

text \<open>Files that cannot be opened leave a recorder that discards and a logger that writes to \<open>stderr\<close>.\<close>

datatype sink = Discard | Stdout | Stderr | Rotated string | Appended string

definition open_output :: "(string \<Rightarrow> bool) \<Rightarrow> sink \<Rightarrow> bool \<Rightarrow> string \<Rightarrow> sink" where
  "open_output can_open fallback rotation path =
     (if rotation then Rotated path else if can_open path then Appended path else fallback)"

record recorder_config =
  re_name :: string
  re_plugin :: "plugin_config option"
  re_file :: "(string \<times> bool \<times> string) option"
  re_tcp :: string
  re_url :: string
  re_redis :: "redis_config option"

datatype recorder_made =
  PluginRecorder plugin_made | FileRecorder sink string | TCPRecorder string | HTTPRecorder string
| RedisListRecorder redis_config | RedisSortedSetRecorder redis_config | RedisSetRecorder redis_config

definition redis_recorder :: "redis_config \<Rightarrow> recorder_made" where
  "redis_recorder r =
     (if rd_type r = ''list'' then RedisListRecorder r
      else if rd_type r = ''sset'' then RedisSortedSetRecorder r else RedisSetRecorder r)"

definition ParseRecorder :: "(string \<Rightarrow> bool) \<Rightarrow> recorder_config \<Rightarrow> recorder_made option" where
  "ParseRecorder can_open c =
     (case re_plugin c of
        Some p \<Rightarrow> Some (PluginRecorder (make_plugin ToLower (re_name c) p))
      | None \<Rightarrow>
          (case re_file c of
             Some (path, rotation, sep) \<Rightarrow>
               if path \<noteq> [] then Some (FileRecorder (open_output can_open Discard rotation path) sep)
               else if re_tcp c \<noteq> [] then Some (TCPRecorder (re_tcp c))
               else if re_url c \<noteq> [] then Some (HTTPRecorder (re_url c))
               else (case re_redis c of
                 None \<Rightarrow> None
               | Some r \<Rightarrow> if rd_addr r \<noteq> [] \<and> rd_key r \<noteq> [] then Some (redis_recorder r) else None)
           | None \<Rightarrow>
               if re_tcp c \<noteq> [] then Some (TCPRecorder (re_tcp c))
               else if re_url c \<noteq> [] then Some (HTTPRecorder (re_url c))
               else (case re_redis c of
                 None \<Rightarrow> None
               | Some r \<Rightarrow> if rd_addr r \<noteq> [] \<and> rd_key r \<noteq> [] then Some (redis_recorder r) else None)))"

datatype logger_made = NopLogger | Logger string string string sink

text \<open>A logger is configured by its output, level, format and whether the output rotates.\<close>

definition ParseLogger ::
    "(string \<Rightarrow> bool) \<Rightarrow> string \<Rightarrow> (string \<times> string \<times> string \<times> bool) option \<Rightarrow> logger_made option" where
  "ParseLogger can_open name c =
     (case c of
        None \<Rightarrow> None
      | Some (out, level, format, rotation) \<Rightarrow>
          Some (if out = ''none'' \<or> out = ''null'' then NopLogger
            else Logger name format level
              (if out = ''stdout'' then Stdout else if out = ''stderr'' \<or> out = [] then Stderr
               else open_output can_open Stderr rotation out)))"

section \<open>Addresses that are read\<close>

lemma octet_range: "octet f = Some a \<Longrightarrow> 0 \<le> a \<and> a < 256"
  by (auto simp: octet_def split: if_splits option.splits)

lemma parse_v4_range: "parse_v4 s = Some n \<Longrightarrow> 0 \<le> n \<and> n < 2 ^ 32"
proof -
  assume "parse_v4 s = Some n"
  then obtain a b c d where l: "map octet (Split s CHR ''.'') = [Some a, Some b, Some c, Some d]"
    and n: "n = ((a * 256 + b) * 256 + c) * 256 + d"
    by (auto simp: parse_v4_def split: list.splits option.splits)
  then have "\<forall>x \<in> {a, b, c, d}. \<exists>f. octet f = Some x" by (auto simp: map_eq_Cons_conv)
  then have "0 \<le> a \<and> a < 256" "0 \<le> b \<and> b < 256" "0 \<le> c \<and> c < 256" "0 \<le> d \<and> d < 256"
    by (meson insertCI octet_range)+
  then show ?thesis by (simp add: n)
qed

lemma hex_digit_range: "hex_digit c = Some d \<Longrightarrow> 0 \<le> d \<and> d < 16"
  by (auto simp: hex_digit_def Let_def split: if_splits)

lemma hex_value_range:
  "hex_value acc f = Some v \<Longrightarrow> 0 \<le> acc \<Longrightarrow> 0 \<le> v \<and> v < (acc + 1) * 16 ^ length f"
proof (induction f arbitrary: acc)
  case (Cons c f)
  then obtain d where d: "hex_digit c = Some d" "hex_value (acc * 16 + d) f = Some v" by (auto split: option.splits)
  have r: "0 \<le> d" "d < 16" using hex_digit_range [OF d(1)] by simp_all
  have "0 \<le> v \<and> v < (acc * 16 + d + 1) * 16 ^ length f" using Cons.IH [OF d(2)] Cons.prems(2) r by simp
  moreover have "(acc * 16 + d + 1) * 16 ^ length f \<le> ((acc + 1) * 16) * 16 ^ length f"
    by (rule mult_right_mono) (use r in auto)
  moreover have "((acc + 1) * 16) * 16 ^ length f = (acc + 1) * 16 ^ length (c # f)" by simp
  ultimately show ?case by linarith
qed simp

lemma hex_group_range: "hex_group f = Some g \<Longrightarrow> 0 \<le> g \<and> g < 65536"
proof -
  assume a: "hex_group f = Some g"
  then have l: "length f \<le> 4" and v: "hex_value 0 f = Some g" by (auto simp: hex_group_def split: if_splits)
  have "(16::int) ^ length f \<le> 16 ^ 4" using l by (intro power_increasing) auto
  then show ?thesis using hex_value_range [OF v] by simp
qed

lemma hex_groups_range: "hex_groups v4 fs = Some gs \<Longrightarrow> g \<in> set gs \<Longrightarrow> 0 \<le> g \<and> g < 65536"
proof (induction v4 fs arbitrary: gs rule: hex_groups.induct)
  case (2 v4 f fs)
  show ?case
  proof (cases "fs = [] \<and> v4 \<and> CHR ''.'' \<in> set f")
    case True
    then obtain n where "parse_v4 f = Some n" "g = n div 65536 \<or> g = n mod 65536" using 2 by auto
    then show ?thesis using parse_v4_range [of f n] by auto
  next
    case False
    then show ?thesis using 2 hex_group_range by (auto split: if_splits option.splits)
  qed
qed simp

lemma v6_groups_range: "v6_groups s = Some gs \<Longrightarrow> length gs = 8 \<and> (\<forall>g \<in> set gs. 0 \<le> g \<and> g < 65536)"
  by (auto simp: v6_groups_def hex_groups_range split: option.splits if_splits prod.splits)

lemma base_65536:
  "\<forall>g \<in> set gs. (0::int) \<le> g \<and> g < 65536 \<Longrightarrow> 0 \<le> a \<Longrightarrow>
     0 \<le> foldl (\<lambda>a g. a * 65536 + g) a gs \<and> foldl (\<lambda>a g. a * 65536 + g) a gs < (a + 1) * 65536 ^ length gs"
proof (induction gs arbitrary: a)
  case (Cons g gs)
  have "(a * 65536 + g + 1) * 65536 ^ length gs \<le> ((a + 1) * 65536) * 65536 ^ length gs"
    by (rule mult_right_mono) (use Cons.prems in auto)
  moreover have "((a + 1) * 65536) * 65536 ^ length gs = (a + 1) * 65536 ^ length (g # gs)" by simp
  moreover have "0 \<le> foldl (\<lambda>a g. a * 65536 + g) (a * 65536 + g) gs \<and>
      foldl (\<lambda>a g. a * 65536 + g) (a * 65536 + g) gs < (a * 65536 + g + 1) * 65536 ^ length gs"
    by (rule Cons.IH) (use Cons.prems in auto)
  ultimately show ?case unfolding foldl_Cons by linarith
qed simp

lemma ParseIP_is_address:
  assumes "ParseIP s = Some ip"
  shows "is_address ip"
proof -
  consider n where "ParseAddr s = Some (V4 n)" "ip = mapped_v4 n" | "ParseAddr s = Some (V6 ip [])"
    using assms by (auto simp: ParseIP_def split: option.splits addr.splits if_splits)
  then show ?thesis
  proof cases
    case (1 n)
    then have "parse_v4 s = Some n" by (auto simp: ParseAddr_def parse_v6_def split: option.splits if_splits)
    then show ?thesis using parse_v4_range [of s n] 1(2) by (simp add: is_address_def mapped_v4_def)
  next
    case 2
    then obtain t gs where "v6_groups t = Some gs" "ip = foldl (\<lambda>a g. a * 65536 + g) 0 gs"
      by (auto simp: ParseAddr_def parse_v6_def split: option.splits if_splits)
    then show ?thesis using v6_groups_range [of t gs] base_65536 [of gs 0] by (simp add: is_address_def)
  qed
qed

section \<open>An admission from the command line\<close>

text \<open>The IPv4 address \<open>n\<close> is meant by a pattern.\<close>

definition means :: "(string \<Rightarrow> int option) \<Rightarrow> string \<Rightarrow> int \<Rightarrow> bool" where
  "means dns p n \<longleftrightarrow>
     (case ParseIP p of
        Some ip \<Rightarrow> ip = mapped_v4 n
      | None \<Rightarrow>
          (case ParseCIDR p of
             Some net \<Rightarrow> in_bits net = 32 \<and> n div 2 ^ (32 - in_ones net) * 2 ^ (32 - in_ones net) = in_base net
           | None \<Rightarrow> dns p = Some (mapped_v4 n)))"

lemma sort_admissions_means:
  assumes "sort_admissions dns ps = (ips, nets)"
  shows "(\<exists>p \<in> set ps. means dns p n) \<longleftrightarrow> mapped_v4 n \<in> set ips \<or>
    (\<exists>net \<in> set nets. in_bits net = 32 \<and> n div 2 ^ (32 - in_ones net) * 2 ^ (32 - in_ones net) = in_base net)"
  using assms
proof (induction ps arbitrary: ips nets)
  case (Cons p ps)
  obtain ips' nets' where r: "sort_admissions dns ps = (ips', nets')" by fastforce
  show ?case using Cons.IH [OF r] Cons.prems r
    by (auto simp: means_def split: option.splits)
qed simp

lemma sort_admissions_addresses:
  "sort_admissions dns ps = (ips, nets) \<Longrightarrow> \<forall>p ip. dns p = Some ip \<longrightarrow> is_address ip \<Longrightarrow> \<forall>ip \<in> set ips. is_address ip"
proof (induction ps arbitrary: ips nets)
  case (Cons p ps)
  obtain ips' nets' where r: "sort_admissions dns ps = (ips', nets')" by fastforce
  show ?case using Cons.IH [OF r Cons.prems(2)] Cons.prems r ParseIP_is_address
    by (auto split: option.splits)
qed simp

text \<open>The options of an admission that the command line gives as \<open>v\<close>, and the one that is made of them.\<close>

definition rules_of_cmd :: "rule_cfg \<Rightarrow> rules_config" where
  "rules_of_cmd r = \<lparr>rf_name = rc_name r, rf_reverse = False, rf_whitelist = rc_whitelist r, rf_matchers = rc_matchers r\<rparr>"

definition no_sources :: sources where
  "no_sources = \<lparr>sr_plugin = None, sr_file = [], sr_redis = None, sr_url = [], sr_reload = 0\<rparr>"

definition option_patterns :: "string \<Rightarrow> string list" where
  "option_patterns v = filter (\<lambda>s. s \<noteq> []) (Split (if HasPrefix v ''~'' then tl v else v) CHR '','')"

lemma no_patterns [simp]: "load_patterns no_loaders = []"
  by (simp add: load_patterns_def no_loaders_def)

text \<open>
  An admission given on the command line guards as it is written: of the clients with an IPv4
  address it admits those meant by one of the patterns between its commas when it starts with a tilde,
  and otherwise those meant by none; a pattern means an address, a network, or the address its name
  resolves to.
\<close>

theorem command_line_admission:
  assumes "looks_up ranger" and "\<forall>p ip. dns p = Some ip \<longrightarrow> is_address ip" and "0 \<le> n" and "n < 2 ^ 32"
  shows "\<exists>opts. ParseAdmission no_loaders no_sources (rules_of_cmd (parse_rule name v)) = Local opts [] 0 \<and>
    (Admit ranger (admission_reload dns opts) (dotted n @ CHR '':'' # show_nat port) \<longleftrightarrow>
       (HasPrefix v ''~'' \<longleftrightarrow> (\<exists>p \<in> set (option_patterns v). means dns p n)))"
proof -
  let ?opts = "\<lparr>ao_whitelist = HasPrefix v ''~'', ao_matchers = option_patterns v, ao_loaders = no_loaders\<rparr>"
  have p: "ParseAdmission no_loaders no_sources (rules_of_cmd (parse_rule name v)) = Local ?opts [] 0"
    by (simp add: ParseAdmission_def rules_of_cmd_def parse_rule_def Let_def make_object_def no_sources_def make_local_def
      loader_specs_def option_patterns_def)
  obtain ips nets where r: "sort_admissions dns (option_patterns v) = (ips, nets)" by fastforce
  then have a: "admission_reload dns ?opts = \<lparr>la_whitelist = HasPrefix v ''~'', la_ips = ips, la_cidr = nets\<rparr>"
    by (simp add: admission_reload_def)
  have "Admit ranger (admission_reload dns ?opts) (dotted n @ CHR '':'' # show_nat port) \<longleftrightarrow>
      (HasPrefix v ''~'' \<longleftrightarrow> mapped_v4 n \<in> set ips \<or>
        (\<exists>net \<in> set nets. in_bits net = 32 \<and> n div 2 ^ (32 - in_ones net) * 2 ^ (32 - in_ones net) = in_base net))"
    using Admit_decides [OF assms(1) _ assms(3,4), of "admission_reload dns ?opts" port]
      sort_admissions_addresses [OF r assms(2)] by (simp add: a)
  then show ?thesis using p sort_admissions_means [OF r, of n] by blast
qed

definition demo_dns :: "string \<Rightarrow> int option" where
  "demo_dns p = (if p = ''h'' then Some (mapped_v4 5) else None)"

lemma demo_patterns: "option_patterns ''~h'' = [''h'']" "HasPrefix ''~h'' ''~''"
  by (simp_all add: option_patterns_def HasPrefix_def)

theorem command_line_admission_witness:
  "\<exists>opts. ParseAdmission no_loaders no_sources (rules_of_cmd (parse_rule ''a'' ''~h'')) = Local opts [] 0 \<and>
     Admit table_lookup (admission_reload demo_dns opts) (dotted 5 @ CHR '':'' # show_nat 80) \<and>
     \<not> Admit table_lookup (admission_reload demo_dns opts) (dotted 6 @ CHR '':'' # show_nat 80)"
proof -
  have l: "looks_up table_lookup" by (simp add: looks_up_def table_lookup_def)
  have d: "\<forall>p ip. demo_dns p = Some ip \<longrightarrow> is_address ip"
    by (simp add: demo_dns_def is_address_def mapped_v4_def)
  have m: "means demo_dns ''h'' n \<longleftrightarrow> n = 5" for n
    by (auto simp: means_def ParseIP_def ParseAddr_def ParseCIDR_def demo_dns_def mapped_v4_def)
  show ?thesis
    using command_line_admission [OF l d, of 5 "''a''" "''~h''" 80] command_line_admission [OF l d, of 6 "''a''" "''~h''" 80]
    by (auto simp: demo_patterns m)
qed

section \<open>Plugins\<close>

text \<open>The type of a plugin is not case sensitive, except for an auther: there \<open>HTTP\<close> means gRPC.\<close>

lemma auther_plugin_is_case_sensitive:
  assumes "sr_plugin s = Some p" and "pl_type p = ''HTTP''"
  shows "ParseAdmission l s c = ByPlugin (HttpPlugin (rf_name c) (pl_addr p) (plugin_tls p) (pl_timeout p))"
    and "ParseAuther s name auths = ByPlugin (GrpcPlugin name (pl_addr p) (pl_token p) (plugin_tls p))"
proof -
  have "ToLower ''HTTP'' = ''http''" by code_simp
  then show "ParseAdmission l s c = ByPlugin (HttpPlugin (rf_name c) (pl_addr p) (plugin_tls p) (pl_timeout p))"
    using assms by (simp add: ParseAdmission_def make_object_def make_plugin_def)
  show "ParseAuther s name auths = ByPlugin (GrpcPlugin name (pl_addr p) (pl_token p) (plugin_tls p))"
    using assms by (simp add: ParseAuther_def make_object_def make_plugin_def)
qed

text \<open>Limiters of connections and of rates do not look at the plugin they are configured with.\<close>

lemma limiter_plugin_ignored: "ParseConnLimiter (s\<lparr>sr_plugin := p\<rparr>) limits = ParseConnLimiter s limits"
  by (simp add: ParseConnLimiter_def make_local_def loader_specs_def)

end
