(* ===== verification/NodeParse.thy ===== *)
theory NodeParse
  imports Hop RuleMatcher Bypass CmdConfig
begin

text \<open>
  The parsers of nodes, hops and chains, \<open>x/config/parsing/node\<close>, \<open>hop\<close> and \<open>chain\<close>.

  They write defaults into the configuration they are given, which is the program's own and the one
  that is saved, so each also returns the configuration it leaves. Registries answer with wrappers
  that look a name up when they are used: a reference is its name. The registries of connector and
  dialer types, their initialisation, the loading of certificates and the syntax of rules are
  parameters.
\<close>

section \<open>Configurations\<close>

text \<open>A connector or a dialer.\<close>

record end_config =
  ec_type :: string
  ec_auth :: "auth_cfg option"
  ec_tls :: "tls_cfg option"
  ec_meta :: gomap

record http_config =
  hn_host :: string
  hn_header :: "(string \<times> string) list option"
  hn_requestHeader :: "(string \<times> string) list option"
  hn_responseHeader :: "(string \<times> string) list option"
  hn_rewrite :: "(string \<times> string) list option"
  hn_rewriteURL :: "(string \<times> string) list option"
  hn_rewriteBody :: "(string \<times> string \<times> string) list"
  hn_auth :: "auth_cfg option"

record tls_settings =
  ts_server :: string
  ts_secure :: bool
  ts_min :: string
  ts_max :: string
  ts_ciphers :: "string list"
  ts_alpn :: "string list"

record node_config =
  nn_name :: string
  nn_addr :: string
  nn_network :: string
  nn_bypass :: string
  nn_bypasses :: "string list"
  nn_resolver :: string
  nn_hosts :: string
  nn_connector :: "end_config option"
  nn_dialer :: "end_config option"
  nn_interface :: string
  nn_netns :: string
  nn_mark :: "int option"
  nn_filter :: "node_filter option"
  nn_matcher :: "(string \<times> int) option"
  nn_http :: "http_config option"
  nn_tls :: "tls_settings option"
  nn_meta :: gomap

record hop_config =
  hf_name :: string
  hf_interface :: string
  hf_mark :: "int option"
  hf_selector :: "(string \<times> int \<times> int) option"
  hf_bypass :: string
  hf_bypasses :: "string list"
  hf_resolver :: string
  hf_hosts :: string
  hf_nodes :: "node_config option list option"
  hf_file :: string
  hf_redis :: string
  hf_url :: string
  hf_plugin :: "string option"
  hf_meta :: gomap

section \<open>What is made of them\<close>

record http_settings =
  hs_host :: string
  hs_requestHeader :: "(string \<times> string) list option"
  hs_responseHeader :: "(string \<times> string) list option"
  hs_auther :: "(string \<times> string) option"
  hs_rewriteURL :: "(string \<times> string) list"
  hs_rewriteBody :: "(string \<times> string \<times> string) list"

record transport_spec =
  tp_connector :: end_config
  tp_connector_tls :: tls_cfg
  tp_dialer :: end_config
  tp_dialer_tls :: tls_cfg
  tp_proxyProtocol :: int
  tp_addr :: string
  tp_interface :: string
  tp_netns :: string
  tp_mark :: "int option"

text \<open>A reference to a registered object is its name, or none.\<close>

record parsed_node = node +
  pd_network :: string
  pd_resolver :: "string option"
  pd_hosts :: "string option"
  pd_transport :: transport_spec
  pd_http :: "http_settings option"
  pd_tls :: "tls_settings option"

record node_env =
  ne_connector :: "string \<Rightarrow> bool"
  ne_dialer :: "string \<Rightarrow> bool"
  ne_tls :: "tls_cfg \<Rightarrow> go_error"
  ne_init :: "bool \<Rightarrow> end_config \<Rightarrow> go_error"
  ne_contains :: "string \<Rightarrow> bypass_fn"
  ne_white :: "string \<Rightarrow> bool"
  ne_expr :: "string \<Rightarrow> expr option"
  ne_regexp :: regexps
  ne_request :: "select_options \<Rightarrow> request"

definition reference :: "string \<Rightarrow> string option" where
  "reference n = (if n = [] then None else Some n)"

definition bypass_List :: "string \<Rightarrow> string list \<Rightarrow> string list" where
  "bypass_List name names = filter (\<lambda>n. n \<noteq> []) (name # names)"

text \<open>The group of the bypasses of these names, whichever they are when it is asked.\<close>

definition named_group :: "node_env \<Rightarrow> string list \<Rightarrow> bypass_fn" where
  "named_group E names network addr host =
     bypassGroup_Contains
       (map (\<lambda>n. \<lparr>bp_contains = (\<lambda>a. ne_contains E n network a host), bp_white = ne_white E n\<rparr>) names) addr"

section \<open>Nodes\<close>

definition node_filter_of :: "node_filter \<Rightarrow> node_filter" where
  "node_filter_of f =
     f\<lparr>nf_host := (if HasPrefix (nf_host f) ''*'' then
          (let h = tl (nf_host f) in if HasPrefix h ''.'' then h else ''.'' @ h)
        else nf_host f)\<rparr>"

text \<open>The matcher of a rule. A rule that panics at a request ends the selection; here it does not match.\<close>

definition rule_matcher :: "node_env \<Rightarrow> string \<Rightarrow> (select_options \<Rightarrow> bool) option" where
  "rule_matcher E rule =
     (case ne_expr E rule of
        None \<Rightarrow> None
      | Some e \<Rightarrow>
          (case NewMatcher (ne_regexp E) e of
             Inl _ \<Rightarrow> None
           | Inr t \<Rightarrow> Some (\<lambda>opts. tree_match t (ne_request E opts) = Some True)))"

definition node_matcher :: "node_env \<Rightarrow> (string \<times> int) option \<Rightarrow> (select_options \<Rightarrow> bool) option \<times> int" where
  "node_matcher E m =
     (case m of
        None \<Rightarrow> (None, 0)
      | Some (text, priority) \<Rightarrow>
          if TrimSpace text = [] then (None, priority)
          else case rule_matcher E (TrimSpace text) of
            None \<Rightarrow> (None, -1)
          | Some f \<Rightarrow> (Some f, if priority = 0 then int (length text) else priority))"

definition http_settings_of :: "regexps \<Rightarrow> http_config \<Rightarrow> http_settings" where
  "http_settings_of rx c =
     \<lparr>hs_host = hn_host c,
      hs_requestHeader = (case hn_requestHeader c of None \<Rightarrow> hn_header c | Some h \<Rightarrow> Some h),
      hs_responseHeader = hn_responseHeader c,
      hs_auther = (case hn_auth c of
          None \<Rightarrow> None
        | Some a \<Rightarrow> if ac_user a = [] then None else Some (ac_user a, ac_pass a)),
      hs_rewriteURL = filter (\<lambda>r. rx (fst r) \<noteq> None)
        (case hn_rewriteURL c of Some rs \<Rightarrow> rs | None \<Rightarrow> (case hn_rewrite c of None \<Rightarrow> [] | Some rs \<Rightarrow> rs)),
      hs_rewriteBody = filter (\<lambda>r. rx (fst (snd r)) \<noteq> None) (hn_rewriteBody c)\<rparr>"

definition default_end :: "string \<Rightarrow> end_config" where
  "default_end type = \<lparr>ec_type = type, ec_auth = None, ec_tls = None, ec_meta = None\<rparr>"

definition no_tls :: tls_cfg where
  "no_tls = \<lparr>tc_cert = [], tc_key = [], tc_ca = [], tc_secure = False, tc_server = []\<rparr>"

definition with_server :: "string \<Rightarrow> tls_cfg \<Rightarrow> tls_cfg" where
  "with_server name t = (if tc_server t = [] then t\<lparr>tc_server := name\<rparr> else t)"

text \<open>Without a TLS configuration a new one is used, which the configuration does not get.\<close>

definition end_tls :: "string \<Rightarrow> end_config \<Rightarrow> tls_cfg" where
  "end_tls name c = with_server name (case ec_tls c of None \<Rightarrow> no_tls | Some t \<Rightarrow> t)"

definition named_end :: "string \<Rightarrow> end_config \<Rightarrow> end_config" where
  "named_end name c = c\<lparr>ec_tls := map_option (with_server name) (ec_tls c)\<rparr>"

definition with_meta :: "end_config \<Rightarrow> end_config" where
  "with_meta c = (case ec_meta c of None \<Rightarrow> c\<lparr>ec_meta := Some []\<rparr> | Some _ \<Rightarrow> c)"

text \<open>One end of a node, with the configuration it is left with.\<close>

definition make_end ::
    "node_env \<Rightarrow> bool \<Rightarrow> (string \<Rightarrow> bool) \<Rightarrow> string \<Rightarrow> string \<Rightarrow> end_config \<Rightarrow> go_error \<times> end_config" where
  "make_end E dialer registered kind server c =
     (let c1 = named_end server c in
      case ne_tls E (end_tls server c) of
        Some e \<Rightarrow> (Some e, c1)
      | None \<Rightarrow>
          if \<not> registered (ec_type c1) then (Some (''unregistered '' @ kind @ '': '' @ ec_type c1), c1)
          else (ne_init E dialer (with_meta c1), with_meta c1))"

definition node_of :: "node_env \<Rightarrow> nat \<Rightarrow> node_config \<Rightarrow> end_config \<Rightarrow> end_config \<Rightarrow> parsed_node" where
  "node_of E i c cr d =
     \<lparr>nd_name = nn_name c, nd_addr = nn_addr c,
      nd_bypass = Some (named_group E (bypass_List (nn_bypass c) (nn_bypasses c))),
      nd_matcher = fst (node_matcher E (nn_matcher c)), nd_filter = map_option node_filter_of (nn_filter c),
      nd_priority = snd (node_matcher E (nn_matcher c)), nd_meta = NewMetadata (nn_meta c),
      nd_marker = Some \<lparr>mk_count = 0, mk_time = 0\<rparr>, nd_transport = i,
      pd_network = nn_network c, pd_resolver = reference (nn_resolver c), pd_hosts = reference (nn_hosts c),
      pd_transport =
        \<lparr>tp_connector = cr, tp_connector_tls = end_tls (split_host (nn_addr c)) cr, tp_dialer = d,
         tp_dialer_tls = end_tls (split_host (nn_addr c)) d,
         tp_proxyProtocol = GetInt (NewMetadata (nn_meta c)) [''proxyProtocol''],
         tp_addr = nn_addr c, tp_interface = nn_interface c, tp_netns = nn_netns c, tp_mark = nn_mark c\<rparr>,
      pd_http = map_option (http_settings_of (ne_regexp E)) (nn_http c), pd_tls = nn_tls c\<rparr>"

definition or_default :: "string \<Rightarrow> end_config option \<Rightarrow> end_config" where
  "or_default type c = (case c of None \<Rightarrow> default_end type | Some x \<Rightarrow> x)"

definition ParseNode :: "node_env \<Rightarrow> nat \<Rightarrow> node_config \<Rightarrow> (string + parsed_node) \<times> node_config" where
  "ParseNode E i c =
     (let server = split_host (nn_addr c); cr = or_default ''http'' (nn_connector c);
          d = or_default ''tcp'' (nn_dialer c); c1 = c\<lparr>nn_connector := Some cr, nn_dialer := Some d\<rparr>
      in case make_end E False (ne_connector E) ''connector'' server cr of
           (Some e, cr') \<Rightarrow> (Inl e, c1\<lparr>nn_connector := Some cr'\<rparr>)
         | (None, cr') \<Rightarrow>
             (case make_end E True (ne_dialer E) ''dialer'' server d of
                (Some e, d') \<Rightarrow> (Inl e, c1\<lparr>nn_connector := Some cr', nn_dialer := Some d'\<rparr>)
              | (None, d') \<Rightarrow>
                  (Inr (node_of E i c cr' d'), c1\<lparr>nn_connector := Some cr', nn_dialer := Some d'\<rparr>)))"

section \<open>Hops\<close>

definition or_hop :: "string \<Rightarrow> string \<Rightarrow> string" where
  "or_hop own hops = (if own = [] then hops else own)"

definition typed_end :: "string \<Rightarrow> end_config option \<Rightarrow> end_config" where
  "typed_end type c =
     (let x = (case c of None \<Rightarrow> default_end [] | Some x \<Rightarrow> x)
      in if TrimSpace (ec_type x) = [] then x\<lparr>ec_type := type\<rparr> else x)"

definition hop_interface :: "hop_config \<Rightarrow> string" where
  "hop_interface h =
     (let v = GetString (NewMetadata (hf_meta h)) [''interface''] in if v = [] then hf_interface h else v)"

definition hop_netns :: "hop_config \<Rightarrow> string" where
  "hop_netns h = GetString (NewMetadata (hf_meta h)) [''netns'']"

text \<open>What a node takes over from its hop.\<close>

definition inherit :: "hop_config \<Rightarrow> node_config \<Rightarrow> node_config" where
  "inherit h v =
     v\<lparr>nn_resolver := or_hop (nn_resolver v) (hf_resolver h), nn_hosts := or_hop (nn_hosts v) (hf_hosts h),
       nn_interface := or_hop (nn_interface v) (hop_interface h), nn_netns := or_hop (nn_netns v) (hop_netns h),
       nn_mark := (case nn_mark v of None \<Rightarrow> hf_mark h | Some m \<Rightarrow> Some m),
       nn_connector := Some (typed_end ''http'' (nn_connector v)),
       nn_dialer := Some (typed_end ''tcp'' (nn_dialer v))\<rparr>"

text \<open>The nodes in their order; the first that fails ends it, and the later ones are left as they are.\<close>

fun parse_nodes ::
    "node_env \<Rightarrow> hop_config \<Rightarrow> nat \<Rightarrow> node_config option list \<Rightarrow> (string + parsed_node list) \<times> node_config option list" where
  "parse_nodes E h i [] = (Inr [], [])"
| "parse_nodes E h i (None # vs) = (case parse_nodes E h i vs of (r, vs') \<Rightarrow> (r, None # vs'))"
| "parse_nodes E h i (Some v # vs) =
     (case ParseNode E i (inherit h v) of
        (Inl e, v') \<Rightarrow> (Inl e, Some v' # vs)
      | (Inr n, v') \<Rightarrow>
          (case parse_nodes E h (i + 1) vs of (r, vs') \<Rightarrow> (map_sum id (\<lambda>ns. n # ns) r, Some v' # vs')))"

record parsed_hop = chainHop +
  ph_name :: string
  ph_parsed :: "parsed_node list"
  ph_loaders :: "(string \<times> string) list"

datatype hop_made = PluginHop string string | LocalHop parsed_hop

definition hop_loaders :: "hop_config \<Rightarrow> (string \<times> string) list" where
  "hop_loaders h =
     filter (\<lambda>l. snd l \<noteq> []) [(''file'', hf_file h), (''redis'', hf_redis h), (''http'', hf_url h)]"

text \<open>
  A hop has the nodes of its configuration and those its loaders bring, which it reads when it is made
  and again periodically (\<open>reload\<close>, \<open>load\<close> and \<open>parseNode\<close> of \<open>x/hop/hop.go\<close>). What a loader brings is a
  parameter: \<open>None\<close> when it has nothing or its text does not decode, and otherwise node configurations.
  A loaded node takes nothing over from its hop; the first that fails ends the reading of its list,
  without the others being lost.
\<close>

type_synonym brought = "string \<times> string \<Rightarrow> node_config option list option"

fun parse_loaded :: "node_env \<Rightarrow> nat \<Rightarrow> node_config option list \<Rightarrow> parsed_node list" where
  "parse_loaded E i [] = []"
| "parse_loaded E i (None # vs) = parse_loaded E i vs"
| "parse_loaded E i (Some v # vs) =
     (case fst (ParseNode E i v) of Inl e \<Rightarrow> [] | Inr n \<Rightarrow> n # parse_loaded E (i + 1) vs)"

definition hop_parseNode :: "node_env \<Rightarrow> nat \<Rightarrow> node_config option list option \<Rightarrow> parsed_node list" where
  "hop_parseNode E i r = (case r of None \<Rightarrow> [] | Some vs \<Rightarrow> parse_loaded E i vs)"

fun hop_load :: "node_env \<Rightarrow> nat \<Rightarrow> brought \<Rightarrow> (string \<times> string) list \<Rightarrow> parsed_node list" where
  "hop_load E i b [] = []"
| "hop_load E i b (l # ls) =
     (let ns = hop_parseNode E i (b l) in ns @ hop_load E (i + length ns) b ls)"

text \<open>The nodes are replaced, the rest of the hop stays; \<open>i\<close> numbers the transports that are made.\<close>

definition hop_reload :: "node_env \<Rightarrow> nat \<Rightarrow> brought \<Rightarrow> parsed_hop \<Rightarrow> parsed_hop" where
  "hop_reload E i b H =
     H\<lparr>ch_nodes := map (\<lambda>n. Some (node.truncate n)) (ph_parsed H @ hop_load E i b (ph_loaders H))\<rparr>"

definition ParseHop :: "node_env \<Rightarrow> brought \<Rightarrow> nat \<Rightarrow> hop_config \<Rightarrow> (string + hop_made) \<times> hop_config" where
  "ParseHop E b i h =
     (case hf_plugin h of
        Some type \<Rightarrow> (Inr (PluginHop (if ToLower type = ''http'' then ''http'' else ''grpc'') (hf_name h)), h)
      | None \<Rightarrow>
          (case parse_nodes E h i (case hf_nodes h of None \<Rightarrow> [] | Some vs \<Rightarrow> vs) of
             (Inl e, vs) \<Rightarrow> (Inl e, h\<lparr>hf_nodes := map_option (\<lambda>_. vs) (hf_nodes h)\<rparr>)
           | (Inr ns, vs) \<Rightarrow>
               (Inr (LocalHop (hop_reload E (i + length ns) b
                  \<lparr>ch_nodes = [],
                   ch_bypass = Some (named_group E (bypass_List (hf_bypass h) (hf_bypasses h))),
                   ch_selector = Some (case hf_selector h of
                       None \<Rightarrow> DefaultNodeSelector
                     | Some (s, f, t) \<Rightarrow> ParseSelector s f t),
                   ph_name = hf_name h, ph_parsed = ns, ph_loaders = hop_loaders h\<rparr>)),
                h\<lparr>hf_nodes := map_option (\<lambda>_. vs) (hf_nodes h)\<rparr>)))"

section \<open>Chains\<close>

text \<open>A hop with nodes or a plugin is made for the chain; any other is one that is registered.\<close>

datatype chain_hop = InlineHop hop_made | RegisteredHop string

fun ParseChain_hops ::
    "node_env \<Rightarrow> brought \<Rightarrow> nat \<Rightarrow> hop_config list \<Rightarrow> (string + chain_hop list) \<times> hop_config list" where
  "ParseChain_hops E b i [] = (Inr [], [])"
| "ParseChain_hops E b i (h # hs) =
     (if hf_nodes h \<noteq> None \<or> hf_plugin h \<noteq> None then
        (case ParseHop E b i h of
           (Inl e, h') \<Rightarrow> (Inl e, h' # hs)
         | (Inr m, h') \<Rightarrow>
             (case ParseChain_hops E b (i + (case m of LocalHop H \<Rightarrow> length (ch_nodes H) | PluginHop t n \<Rightarrow> 0)) hs of
                (r, hs') \<Rightarrow> (map_sum id (\<lambda>ms. InlineHop m # ms) r, h' # hs')))
      else
        (case ParseChain_hops E b i hs of
           (r, hs') \<Rightarrow> (map_sum id (\<lambda>ms. (if hf_name h = [] then [] else [RegisteredHop (hf_name h)]) @ ms) r, h # hs')))"

section \<open>Parsing again what a parse has left\<close>

text \<open>
  A node configuration that needs no defaults for its ends. The program saves the configuration that
  its parsers have written to.
\<close>

lemma with_server_twice [simp]: "with_server s (with_server s t) = with_server s t"
  by (simp add: with_server_def)

lemma end_tls_named [simp]: "end_tls s (named_end s c) = end_tls s c"
  by (simp add: end_tls_def named_end_def split: option.split)

lemma end_tls_meta [simp]: "end_tls s (with_meta c) = end_tls s c"
  by (simp add: end_tls_def with_meta_def split: option.split)

lemma named_end_twice [simp]: "named_end s (named_end s c) = named_end s c"
  by (cases "ec_tls c") (simp_all add: named_end_def)

lemma named_end_meta: "named_end s (with_meta c) = with_meta (named_end s c)"
  by (simp add: named_end_def with_meta_def split: option.split)

lemma with_meta_twice [simp]: "with_meta (with_meta c) = with_meta c"
  by (simp add: with_meta_def split: option.split)

lemma end_fields [simp]: "ec_type (named_end s c) = ec_type c" "ec_type (with_meta c) = ec_type c"
  by (simp_all add: named_end_def with_meta_def split: option.split)

lemma make_end_left: "make_end E b reg k s c = (None, c') \<Longrightarrow> c' = with_meta (named_end s c)"
  by (auto simp: make_end_def Let_def split: option.splits if_splits)

lemma make_end_again: "make_end E b reg k s c = (None, c') \<Longrightarrow> make_end E b reg k s c' = (None, c')"
  using make_end_left [of E b reg k s c c']
  by (auto simp: make_end_def Let_def named_end_meta split: option.splits if_splits)

lemma ParseNode_left:
  assumes "ParseNode E i c = (Inr n, c')"
  obtains cr d where "make_end E False (ne_connector E) ''connector'' (split_host (nn_addr c)) (or_default ''http'' (nn_connector c)) = (None, cr)"
    and "make_end E True (ne_dialer E) ''dialer'' (split_host (nn_addr c)) (or_default ''tcp'' (nn_dialer c)) = (None, d)"
    and "n = node_of E i c cr d" and "c' = c\<lparr>nn_connector := Some cr, nn_dialer := Some d\<rparr>"
  using assms by (auto simp: ParseNode_def Let_def split: prod.splits option.splits)

lemma node_of_ends [simp]: "node_of E i (c\<lparr>nn_connector := x, nn_dialer := y\<rparr>) cr d = node_of E i c cr d"
  by (simp add: node_of_def)

lemma ParseNode_again:
  assumes "ParseNode E i c = (Inr n, c')"
  shows "ParseNode E i c' = (Inr n, c')"
proof -
  obtain cr d where e: "make_end E False (ne_connector E) ''connector'' (split_host (nn_addr c)) (or_default ''http'' (nn_connector c)) = (None, cr)"
    "make_end E True (ne_dialer E) ''dialer'' (split_host (nn_addr c)) (or_default ''tcp'' (nn_dialer c)) = (None, d)"
    "n = node_of E i c cr d" "c' = c\<lparr>nn_connector := Some cr, nn_dialer := Some d\<rparr>"
    by (rule ParseNode_left [OF assms])
  show ?thesis
    using make_end_again [OF e(1)] make_end_again [OF e(2)] e(3,4)
    by (simp add: ParseNode_def Let_def or_default_def)
qed

lemma typed_end_type: "TrimSpace t \<noteq> [] \<Longrightarrow> TrimSpace (ec_type (typed_end t c)) \<noteq> []"
  by (simp add: typed_end_def Let_def)

lemma typed_end_same: "TrimSpace (ec_type x) \<noteq> [] \<Longrightarrow> typed_end t (Some x) = x"
  by (simp add: typed_end_def)

lemma inherit_again:
  assumes "ParseNode E i (inherit h v) = (Inr n, v')"
  shows "inherit h v' = v'"
proof -
  obtain cr d where e: "make_end E False (ne_connector E) ''connector'' (split_host (nn_addr (inherit h v)))
      (or_default ''http'' (nn_connector (inherit h v))) = (None, cr)"
    "make_end E True (ne_dialer E) ''dialer'' (split_host (nn_addr (inherit h v)))
      (or_default ''tcp'' (nn_dialer (inherit h v))) = (None, d)"
    "v' = (inherit h v)\<lparr>nn_connector := Some cr, nn_dialer := Some d\<rparr>"
    by (rule ParseNode_left [OF assms]) blast
  have "ec_type cr = ec_type (typed_end ''http'' (nn_connector v))"
    using make_end_left [OF e(1)] by (simp add: inherit_def or_default_def)
  moreover have "ec_type d = ec_type (typed_end ''tcp'' (nn_dialer v))"
    using make_end_left [OF e(2)] by (simp add: inherit_def or_default_def)
  moreover have "TrimSpace ''http'' \<noteq> []" "TrimSpace ''tcp'' \<noteq> []" by code_simp+
  ultimately have "typed_end ''http'' (Some cr) = cr" "typed_end ''tcp'' (Some d) = d"
    using typed_end_type by (simp_all add: typed_end_same)
  then show ?thesis by (simp add: e(3) inherit_def or_hop_def split: option.split)
qed

lemma parse_nodes_again:
  "parse_nodes E h i vs = (Inr ns, vs') \<Longrightarrow> parse_nodes E h i vs' = (Inr ns, vs')"
proof (induction vs arbitrary: i ns vs')
  case (Cons x vs)
  show ?case
  proof (cases x)
    case None
    obtain r ws where r: "parse_nodes E h i vs = (r, ws)" by fastforce
    then have "r = Inr ns" "vs' = None # ws" using Cons.prems None by simp_all
    moreover have "parse_nodes E h i ws = (Inr ns, ws)" using r \<open>r = Inr ns\<close> by (intro Cons.IH) simp
    ultimately show ?thesis by simp
  next
    case (Some v)
    obtain q v' where pq: "ParseNode E i (inherit h v) = (q, v')" by fastforce
    obtain n where "q = Inr n" using Cons.prems by (cases q) (simp_all add: pq Some)
    then have p: "ParseNode E i (inherit h v) = (Inr n, v')" using pq by simp
    obtain r ws where r: "parse_nodes E h (i + 1) vs = (r, ws)" by fastforce
    have all: "map_sum id (\<lambda>ns. n # ns) r = Inr ns" "vs' = Some v' # ws"
      using Cons.prems unfolding Some parse_nodes.simps p using r by simp_all
    obtain ms where m: "r = Inr ms" using all(1) by (cases r) simp_all
    have "parse_nodes E h (i + 1) ws = (Inr ms, ws)" using r m by (intro Cons.IH) simp
    moreover have "ParseNode E i (inherit h v') = (Inr n, v')"
      using inherit_again [OF p] ParseNode_again [OF p] by simp
    ultimately show ?thesis using all m by simp
  qed
qed simp

lemma inherit_nodes [simp]: "inherit (h\<lparr>hf_nodes := x\<rparr>) = inherit h"
proof
  fix v
  show "inherit (h\<lparr>hf_nodes := x\<rparr>) v = inherit h v"
    by (cases "nn_mark v") (simp_all add: inherit_def hop_interface_def hop_netns_def Let_def)
qed

lemma parse_nodes_nodes [simp]: "parse_nodes E (h\<lparr>hf_nodes := x\<rparr>) i vs = parse_nodes E h i vs"
  by (induction E h i vs rule: parse_nodes.induct) (simp_all split: prod.split sum.split)

text \<open>
  What the parser of a hop writes into the configuration does not change its meaning: the
  configuration that is left, and saved, gives the same hop with the same nodes, connectors and
  dialers, and is left as it is.
\<close>

theorem saved_hop_is_the_same:
  assumes "ParseHop E b i h = (Inr m, h')"
  shows "ParseHop E b i h' = (Inr m, h')"
proof (cases "hf_plugin h")
  case (Some p)
  then have "h' = h" using assms by (simp add: ParseHop_def)
  then show ?thesis using assms by simp
next
  case None
  let ?vs = "case hf_nodes h of None \<Rightarrow> [] | Some vs \<Rightarrow> vs"
  obtain ns ws where p: "parse_nodes E h i ?vs = (Inr ns, ws)"
    using assms None by (cases "parse_nodes E h i ?vs") (auto simp: ParseHop_def split: sum.splits)
  have h': "h' = h\<lparr>hf_nodes := map_option (\<lambda>_. ws) (hf_nodes h)\<rparr>"
    using assms None p by (simp add: ParseHop_def)
  have ws: "(case hf_nodes h' of None \<Rightarrow> [] | Some vs \<Rightarrow> vs) = ws"
    using p by (cases "hf_nodes h") (simp_all add: h')
  have "parse_nodes E h' i ws = (Inr ns, ws)" using parse_nodes_again [OF p] by (simp add: h')
  moreover have "h'\<lparr>hf_nodes := map_option (\<lambda>_. ws) (hf_nodes h')\<rparr>  = h'"
    by (cases "hf_nodes h") (simp_all add: h')
  ultimately show ?thesis using assms None p ws by (simp add: ParseHop_def h' hop_loaders_def)
qed

section \<open>What a node accepts\<close>

text \<open>The hosts of a filter as the configuration writes them.\<close>

definition host_accepted :: "string \<Rightarrow> string \<Rightarrow> bool" where
  "host_accepted pat host \<longleftrightarrow>
     pat = [] \<or> (host \<noteq> [] \<and>
       (let h = (if split_host host \<noteq> [] then split_host host else host)
        in if HasPrefix pat ''*'' then HasSuffix h (if HasPrefix (tl pat) ''.'' then tl (tl pat) else tl pat)
           else pat = h \<or> (hd pat = CHR ''.'' \<and> HasSuffix h (tl pat))))"

definition filter_accepts :: "node_filter option \<Rightarrow> select_options \<Rightarrow> bool" where
  "filter_accepts f opts \<longleftrightarrow>
     (case f of
        None \<Rightarrow> True
      | Some f \<Rightarrow> host_accepted (nf_host f) (so_host opts) \<and>
          (nf_protocol f = [] \<or> nf_protocol f = so_protocol opts) \<and>
          (nf_path f = [] \<or> HasPrefix (so_path opts) (nf_path f)))"

text \<open>The rule of a node, when it is written and is not refused.\<close>

definition config_rule :: "node_env \<Rightarrow> node_config \<Rightarrow> expr option" where
  "config_rule E c =
     (case nn_matcher c of
        None \<Rightarrow> None
      | Some (text, _) \<Rightarrow>
          if TrimSpace text = [] then None
          else case ne_expr E (TrimSpace text) of
            None \<Rightarrow> None
          | Some e \<Rightarrow> if \<exists>k \<in> set (calls e). refused_call (ne_regexp E) k then None else Some e)"

definition config_accepts :: "node_env \<Rightarrow> node_config \<Rightarrow> select_options \<Rightarrow> bool" where
  "config_accepts E c opts \<longleftrightarrow>
     \<not> named_group E (bypass_List (nn_bypass c) (nn_bypasses c)) (so_network opts) (so_addr opts) (so_host opts) \<and>
     (case config_rule E c of
        Some e \<Rightarrow> eval (ne_regexp E) e (ne_request E opts) = Some True
      | None \<Rightarrow> filter_accepts (nn_filter c) opts)"

lemma HasPrefix_hd: "HasPrefix s [c] \<longleftrightarrow> s \<noteq> [] \<and> hd s = c"
  by (cases s) (auto simp: HasPrefix_def)

lemma HasSuffix_self: "HasSuffix (c # h) h"
  by (simp add: HasSuffix_def HasPrefix_def)

lemma node_filter_host:
  assumes "nd_filter n = Some (node_filter_of f)"
  shows "checkHost host n \<longleftrightarrow> host_accepted (nf_host f) host"
proof (cases "HasPrefix (nf_host f) ''*''")
  case False
  then show ?thesis using assms by (simp add: checkHost_def host_accepted_def node_filter_of_def Let_def eq_commute)
next
  case True
  then have ne: "nf_host f \<noteq> []" by (simp add: HasPrefix_hd)
  let ?d = "if HasPrefix (tl (nf_host f)) ''.'' then tl (tl (nf_host f)) else tl (nf_host f)"
  have v: "nf_host (node_filter_of f) = CHR ''.'' # ?d"
    using True by (auto simp: node_filter_of_def HasPrefix_hd) (metis list.collapse)
  have dot: "(CHR ''.'' # d = h \<or> HasSuffix h d) = HasSuffix h d" for d h using HasSuffix_self by metis
  have "checkHost host n \<longleftrightarrow> host \<noteq> [] \<and> HasSuffix (if split_host host \<noteq> [] then split_host host else host) ?d"
    using assms by (simp only: checkHost_def v option.case list.simps list.sel simp_thms Let_def dot if_False)
      (cases "host = []"; simp only: simp_thms if_True if_False)
  then show ?thesis using ne True by (simp only: host_accepted_def Let_def if_True simp_thms)
qed

lemma filter_eligible:
  assumes "nd_filter n = map_option node_filter_of f"
  shows "isEligible n opts \<longleftrightarrow> filter_accepts f opts"
proof (cases f)
  case None
  then show ?thesis using assms by (simp add: isEligible_def filter_accepts_def)
next
  case (Some g)
  then have n: "nd_filter n = Some (node_filter_of g)" using assms by simp
  have "nf_protocol (node_filter_of g) = nf_protocol g" "nf_path (node_filter_of g) = nf_path g"
    by (simp_all add: node_filter_of_def)
  then show ?thesis using Some n node_filter_host [OF n]
    by (simp add: isEligible_def filter_accepts_def checkProtocol_def checkPath_def Let_def)
qed

lemma node_matcher_rule:
  "fst (node_matcher E (nn_matcher c)) =
     (case config_rule E c of
        None \<Rightarrow> None
      | Some e \<Rightarrow> Some (\<lambda>opts. eval (ne_regexp E) e (ne_request E opts) = Some True))"
proof (cases "nn_matcher c")
  case None
  then show ?thesis by (simp add: node_matcher_def config_rule_def)
next
  case (Some m)
  obtain tx pr where m: "m = (tx, pr)" by fastforce
  show ?thesis
  proof (cases "TrimSpace tx = []")
    case True
    then show ?thesis by (simp add: Some m node_matcher_def config_rule_def)
  next
    case False
    show ?thesis
    proof (cases "ne_expr E (TrimSpace tx)")
      case None
      then show ?thesis using False by (simp add: Some m node_matcher_def config_rule_def rule_matcher_def)
    next
      case (Some e)
      have "agrees (ne_regexp E) e (NewMatcher (ne_regexp E) e)" by (rule NewMatcher_agrees)
      then show ?thesis using False Some \<open>nn_matcher c = Some m\<close>
        by (cases "NewMatcher (ne_regexp E) e")
          (auto simp: m agrees_def node_matcher_def config_rule_def rule_matcher_def)
    qed
  qed
qed

lemma node_of_candidate: "candidate opts (node.truncate (node_of E i c cr d)) \<longleftrightarrow> config_accepts E c opts"
proof -
  let ?n = "node.truncate (node_of E i c cr d)"
  have "nd_filter ?n = map_option node_filter_of (nn_filter c)" by (simp add: node_of_def node.truncate_def)
  then have "isEligible ?n opts \<longleftrightarrow> filter_accepts (nn_filter c) opts" by (rule filter_eligible)
  moreover have "nd_matcher ?n = (case config_rule E c of
      None \<Rightarrow> None | Some e \<Rightarrow> Some (\<lambda>opts. eval (ne_regexp E) e (ne_request E opts) = Some True))"
    by (simp add: node_of_def node.truncate_def node_matcher_rule)
  moreover have "nd_bypass ?n = Some (named_group E (bypass_List (nn_bypass c) (nn_bypasses c)))"
    by (simp add: node_of_def node.truncate_def)
  ultimately show ?thesis
    by (cases "config_rule E c") (simp_all add: candidate_def bypassed_def config_accepts_def)
qed

text \<open>The nodes of a hop, in the order of their configurations.\<close>

lemma parse_nodes_from:
  assumes "parse_nodes E h i vs = (Inr ns, vs')"
  shows "map nd_name ns = map nn_name (map the (filter (\<lambda>v. v \<noteq> None) vs)) \<and>
    (\<forall>n \<in> set ns. \<exists>v j cr d. Some v \<in> set vs \<and> n = node_of E j (inherit h v) cr d)"
  using assms
proof (induction vs arbitrary: i ns vs')
  case (Cons x vs)
  show ?case
  proof (cases x)
    case None
    then obtain ws where "parse_nodes E h i vs = (Inr ns, ws)"
      using Cons.prems by (cases "parse_nodes E h i vs") auto
    from Cons.IH [OF this] None show ?thesis by auto
  next
    case (Some v)
    obtain q v' where pq: "ParseNode E i (inherit h v) = (q, v')" by fastforce
    obtain n where "q = Inr n" using Cons.prems by (cases q) (simp_all add: pq Some)
    then have p: "ParseNode E i (inherit h v) = (Inr n, v')" using pq by simp
    obtain r ws where r: "parse_nodes E h (i + 1) vs = (r, ws)" by fastforce
    have all: "map_sum id (\<lambda>ns. n # ns) r = Inr ns"
      using Cons.prems unfolding Some parse_nodes.simps p using r by simp
    obtain ms where m: "r = Inr ms" using all by (cases r) simp_all
    obtain cr d where n: "n = node_of E i (inherit h v) cr d" using ParseNode_left [OF p] by metis
    have "nd_name n = nn_name v" by (simp add: n node_of_def inherit_def)
    then have "map nd_name ns = map nn_name (map the (filter (\<lambda>v. v \<noteq> None) (x # vs)))"
      using Cons.IH [OF r [unfolded m]] all m Some by auto
    moreover have "\<exists>v j cr d. Some v \<in> set (x # vs) \<and> k = node_of E j (inherit h v) cr d" if "k \<in> set ns" for k
    proof (cases "k = n")
      case True
      then show ?thesis using n Some by (metis list.set_intros(1))
    next
      case False
      then have "k \<in> set ms" using that all m by auto
      then show ?thesis using Cons.IH [OF r [unfolded m]] by (metis list.set_intros(2))
    qed
    ultimately show ?thesis by blast
  qed
qed simp

lemma inherit_fields [simp]:
  "nn_bypass (inherit h v) = nn_bypass v" "nn_bypasses (inherit h v) = nn_bypasses v"
  "nn_matcher (inherit h v) = nn_matcher v" "nn_filter (inherit h v) = nn_filter v"
  by (simp_all add: inherit_def)

lemma inherit_accepts [simp]: "config_accepts E (inherit h v) opts = config_accepts E v opts"
  unfolding config_accepts_def config_rule_def inherit_fields ..

text \<open>The nodes that loaders bring come from what they bring.\<close>

lemma parse_loaded_from:
  "n \<in> set (parse_loaded E i vs) \<Longrightarrow> \<exists>v j cr d. Some v \<in> set vs \<and> n = node_of E j v cr d"
proof (induction E i vs rule: parse_loaded.induct)
  case (3 E i v vs)
  obtain q v' where p: "ParseNode E i v = (q, v')" by fastforce
  then obtain m where q: "q = Inr m" using 3(2) by (cases q) auto
  obtain cr d where "m = node_of E i v cr d" using ParseNode_left [OF p [unfolded q]] by metis
  moreover have "n = m \<or> n \<in> set (parse_loaded E (i + 1) vs)" using 3(2) p q by simp
  ultimately show ?case using 3(1) [of m] p q by auto
qed auto

lemma hop_load_from:
  "n \<in> set (hop_load E i b ls) \<Longrightarrow>
     \<exists>l vs v j cr d. l \<in> set ls \<and> b l = Some vs \<and> Some v \<in> set vs \<and> n = node_of E j v cr d"
proof (induction ls arbitrary: i)
  case (Cons l ls)
  show ?case
  proof (cases "n \<in> set (hop_parseNode E i (b l))")
    case True
    then obtain vs where "b l = Some vs" "n \<in> set (parse_loaded E i vs)"
      using that by (cases "b l") (auto simp: hop_parseNode_def)
    then show ?thesis using parse_loaded_from [of n E i vs] by (metis list.set_intros(1))
  next
    case False
    then have "n \<in> set (hop_load E (i + length (hop_parseNode E i (b l))) b ls)"
      using Cons.prems by (auto simp: Let_def)
    from Cons.IH [OF this] show ?thesis by (metis list.set_intros(2))
  qed
qed simp

text \<open>A hop reloads any number of times, each time with what its loaders bring then.\<close>

definition hop_reloads :: "node_env \<Rightarrow> (nat \<times> brought) list \<Rightarrow> parsed_hop \<Rightarrow> parsed_hop" where
  "hop_reloads E bs H = fold (\<lambda>(i, b). hop_reload E i b) bs H"

lemma hop_reload_fields [simp]:
  "ph_parsed (hop_reload E i b H) = ph_parsed H" "ph_loaders (hop_reload E i b H) = ph_loaders H"
  "ch_bypass (hop_reload E i b H) = ch_bypass H"
  by (simp_all add: hop_reload_def)

lemma hop_reload_last: "hop_reload E i b (hop_reload E j b' H) = hop_reload E i b H"
  by (simp add: hop_reload_def)

lemma hop_reloads_last:
  "\<exists>j. hop_reloads E bs (hop_reload E i b H) = hop_reload E j (last (b # map snd bs)) H"
proof (induction bs rule: rev_induct)
  case (snoc x bs)
  then obtain j where "hop_reloads E bs (hop_reload E i b H) = hop_reload E j (last (b # map snd bs)) H" by blast
  then show ?case by (cases x) (auto simp: hop_reloads_def hop_reload_last)
qed (auto simp: hop_reloads_def)

text \<open>
  (C12) A hop made from its configuration connects as it is written, at any time: however often it has
  read its loaders, and whatever its selector has seen, a node it selects is one of the configured nodes
  or one that a configured loader brought the last time; and the request is one that this node's
  configuration accepts, namely outside the node's and the hop's bypasses, and satisfying the rule of its
  matcher as the expression reads, or, where there is no rule or it is refused, the host pattern,
  protocol and path of its filter.
\<close>

theorem hop_follows_its_configuration:
  assumes "ParseHop E b i h = (Inr (LocalHop H), h')"
    and "hop_Select srt cx opts ((chainHop.truncate (hop_reloads E bs H))\<lparr>ch_selector := sel\<rparr>) = (Some n, H')"
    and "sorts_nodes srt" and "draws_below (cx_draw cx)"
  shows "\<exists>v. (Some v \<in> set (case hf_nodes h of None \<Rightarrow> [] | Some vs \<Rightarrow> vs) \<or>
      (\<exists>l \<in> set (hop_loaders h). \<exists>vs. last (b # map snd bs) l = Some vs \<and> Some v \<in> set vs)) \<and>
    nd_name n = nn_name v \<and> nd_addr n = nn_addr v \<and> config_accepts E v opts \<and>
    \<not> named_group E (bypass_List (hf_bypass h) (hf_bypasses h)) (so_network opts) (so_addr opts) (so_host opts)"
proof -
  let ?vs = "case hf_nodes h of None \<Rightarrow> [] | Some vs \<Rightarrow> vs" and ?b = "last (b # map snd bs)"
  have plug: "hf_plugin h = None" using assms(1) by (cases "hf_plugin h") (simp_all add: ParseHop_def)
  obtain ns ws where p: "parse_nodes E h i ?vs = (Inr ns, ws)"
    using assms(1) plug by (cases "parse_nodes E h i ?vs") (auto simp: ParseHop_def split: sum.splits)
  define H0 where "H0 = \<lparr>ch_nodes = [], ch_bypass = Some (named_group E (bypass_List (hf_bypass h) (hf_bypasses h))),
    ch_selector = Some (case hf_selector h of None \<Rightarrow> DefaultNodeSelector | Some (s, f, t) \<Rightarrow> ParseSelector s f t),
    ph_name = hf_name h, ph_parsed = ns, ph_loaders = hop_loaders h\<rparr>"
  have "H = hop_reload E (i + length ns) b H0" using assms(1) plug p by (auto simp: ParseHop_def H0_def)
  then obtain j where Hr: "hop_reloads E bs H = hop_reload E j ?b H0" using hop_reloads_last by metis
  let ?H = "(chainHop.truncate (hop_reload E j ?b H0))\<lparr>ch_selector := sel\<rparr>"
  have H: "ch_nodes ?H = map (\<lambda>n. Some (node.truncate n)) (ns @ hop_load E j ?b (hop_loaders h))"
    "ch_bypass ?H = Some (named_group E (bypass_List (hf_bypass h) (hf_bypasses h)))"
    by (simp_all add: hop_reload_def H0_def chainHop.defs)
  note f = hop_Select_facts [OF assms(2) [unfolded Hr] assms(3,4)]
  obtain m where m: "m \<in> set (ns @ hop_load E j ?b (hop_loaders h))" "n = node.truncate m" using f H(1) by auto
  have "\<exists>v k w cr d. (Some v \<in> set ?vs \<or> (\<exists>l \<in> set (hop_loaders h). \<exists>us. ?b l = Some us \<and> Some v \<in> set us)) \<and>
      (w = inherit h v \<or> w = v) \<and> m = node_of E k w cr d"
  proof (cases "m \<in> set ns")
    case True
    then show ?thesis using parse_nodes_from [OF p] by blast
  next
    case False
    then have "m \<in> set (hop_load E j ?b (hop_loaders h))" using m(1) by simp
    from hop_load_from [OF this] show ?thesis by blast
  qed
  then obtain v k w cr d where v: "Some v \<in> set ?vs \<or> (\<exists>l \<in> set (hop_loaders h). \<exists>us. ?b l = Some us \<and> Some v \<in> set us)"
    "w = inherit h v \<or> w = v" "m = node_of E k w cr d" by blast
  have "config_accepts E v opts"
    using f node_of_candidate [of opts E k w cr d] v(2) by (auto simp: m(2) v(3))
  moreover have "nd_name n = nn_name v" "nd_addr n = nn_addr v"
    using v(2) by (auto simp: m(2) v(3) node.truncate_def node_of_def inherit_def)
  moreover have "\<not> named_group E (bypass_List (hf_bypass h) (hf_bypasses h)) (so_network opts) (so_addr opts) (so_host opts)"
    using f H(2) by (simp add: bypassed_def)
  ultimately show ?thesis using v(1) by blast
qed

definition demo_node_env :: node_env where
  "demo_node_env = \<lparr>ne_connector = (\<lambda>t. t = ''http''), ne_dialer = (\<lambda>t. t = ''tcp''), ne_tls = (\<lambda>t. None),
     ne_init = (\<lambda>b c. None), ne_contains = (\<lambda>n net a host. n = ''deny''), ne_white = (\<lambda>n. False),
     ne_expr = (\<lambda>r. None), ne_regexp = (\<lambda>r. None),
     ne_request = (\<lambda>q. \<lparr>rq_clientIP = None, rq_host = [], rq_protocol = [], rq_method = [], rq_path = [],
       rq_header = None, rq_query = None\<rparr>)\<rparr>"

definition demo_node_config :: node_config where
  "demo_node_config = \<lparr>nn_name = ''n'', nn_addr = [], nn_network = [], nn_bypass = [], nn_bypasses = [],
     nn_resolver = [], nn_hosts = [], nn_connector = None, nn_dialer = None, nn_interface = [], nn_netns = [],
     nn_mark = None, nn_filter = Some \<lparr>nf_host = [], nf_protocol = ''http'', nf_path = []\<rparr>,
     nn_matcher = Some (''?'', 7), nn_http = None, nn_tls = None, nn_meta = None\<rparr>"

definition demo_hop_config :: hop_config where
  "demo_hop_config = \<lparr>hf_name = ''h'', hf_interface = ''eth0'', hf_mark = None, hf_selector = None, hf_bypass = [],
     hf_bypasses = [], hf_resolver = ''r'', hf_hosts = [], hf_nodes = Some [None, Some demo_node_config],
     hf_file = ''f'', hf_redis = [], hf_url = [], hf_plugin = None, hf_meta = None\<rparr>"

lemma demo_trim: "TrimSpace ''http'' = ''http''" "TrimSpace ''tcp'' = ''tcp''" "TrimSpace ''?'' = ''?''" "TrimSpace [] = []"
  by (simp_all add: TrimSpace_def TrimLeft_def isSpace_def)

lemma demo_hop_parsed:
  obtains H h' where "ParseHop demo_node_env (\<lambda>l. None) 0 demo_hop_config = (Inr (LocalHop H), h')"
    and "map nd_name (ph_parsed H) = [''n'']" and "map nd_priority (ph_parsed H) = [-1]"
    and "ch_nodes H = map (\<lambda>n. Some (node.truncate n)) (ph_parsed H)"
    and "ch_bypass H = Some (named_group demo_node_env [])"
    and "ph_loaders H = hop_loaders demo_hop_config"
    and "\<forall>n \<in> set (ph_parsed H). candidate (sample_opts\<lparr>so_protocol := ''http''\<rparr>) (node.truncate n)"
proof -
  let ?p = "parse_nodes demo_node_env demo_hop_config 0 [None, Some demo_node_config]"
  let ?c = "inherit demo_hop_config demo_node_config"
  obtain q c' where pn: "ParseNode demo_node_env 0 ?c = (q, c')" by fastforce
  have "\<exists>cr d. q = Inr (node_of demo_node_env 0 ?c cr d)"
    using pn by (auto simp: ParseNode_def Let_def make_end_def demo_node_env_def or_default_def inherit_def typed_end_def
      default_end_def demo_node_config_def TrimSpace_def TrimLeft_def)
  then obtain cr d where q: "q = Inr (node_of demo_node_env 0 ?c cr d)" by blast
  let ?n = "node_of demo_node_env 0 ?c cr d"
  have p: "?p = (Inr [?n], [None, Some c'])" by (simp add: pn q)
  have "nd_name ?n = ''n''" by (simp add: node_of_def inherit_def demo_node_config_def)
  moreover have "nd_priority ?n = -1"
    by (simp add: node_of_def node_matcher_def demo_node_config_def demo_trim rule_matcher_def demo_node_env_def)
  moreover have "config_accepts demo_node_env demo_node_config (sample_opts\<lparr>so_protocol := ''http''\<rparr>)"
    by (simp add: config_accepts_def config_rule_def demo_node_config_def demo_trim demo_node_env_def filter_accepts_def
      host_accepted_def sample_opts_def named_group_def bypass_List_def bypassGroup_Contains_def)
  then have "candidate (sample_opts\<lparr>so_protocol := ''http''\<rparr>) (node.truncate ?n)" by (simp add: node_of_candidate)
  moreover have f: "hf_nodes demo_hop_config = Some [None, Some demo_node_config]" "hf_plugin demo_hop_config = None"
    "hf_bypass demo_hop_config = []" "hf_bypasses demo_hop_config = []" "hf_selector demo_hop_config = None"
    by (simp_all add: demo_hop_config_def)
  have "ParseHop demo_node_env (\<lambda>l. None) 0 demo_hop_config =
      (Inr (LocalHop \<lparr>ch_nodes = [Some (node.truncate ?n)], ch_bypass = Some (named_group demo_node_env []),
         ch_selector = Some DefaultNodeSelector, ph_name = hf_name demo_hop_config, ph_parsed = [?n],
         ph_loaders = hop_loaders demo_hop_config\<rparr>), demo_hop_config\<lparr>hf_nodes := Some [None, Some c']\<rparr>)"
    using p by (simp add: ParseHop_def f bypass_List_def hop_reload_def hop_parseNode_def Let_def hop_loaders_def
      demo_hop_config_def)
  ultimately show thesis using that by fastforce
qed

theorem hop_follows_its_configuration_witness:
  "\<exists>H h' n H'. ParseHop demo_node_env (\<lambda>l. None) 0 demo_hop_config = (Inr (LocalHop H), h') \<and>
     hop_Select stable_priority sample_ctx (sample_opts\<lparr>so_protocol := ''http''\<rparr>)
       ((chainHop.truncate (hop_reloads demo_node_env [(1, \<lambda>l. None)] H))\<lparr>ch_selector := None\<rparr>) = (Some n, H') \<and>
     nd_name n = ''n''"
proof -
  obtain H h' where H: "ParseHop demo_node_env (\<lambda>l. None) 0 demo_hop_config = (Inr (LocalHop H), h')"
    "map nd_name (ph_parsed H) = [''n'']"
    "ch_nodes H = map (\<lambda>n. Some (node.truncate n)) (ph_parsed H)" "ch_bypass H = Some (named_group demo_node_env [])"
    "ph_loaders H = hop_loaders demo_hop_config"
    "\<forall>n \<in> set (ph_parsed H). candidate (sample_opts\<lparr>so_protocol := ''http''\<rparr>) (node.truncate n)"
    by (rule demo_hop_parsed)
  obtain m where m: "ph_parsed H = [m]" using H(2) by (cases "ph_parsed H") auto
  let ?H = "(chainHop.truncate (hop_reloads demo_node_env [(1, \<lambda>l. None)] H))\<lparr>ch_selector := None\<rparr>"
  have "ch_nodes ?H = [Some (node.truncate m)]" "ch_bypass ?H = Some (named_group demo_node_env [])"
    using H(4,5) m by (simp_all add: hop_reloads_def hop_reload_def hop_parseNode_def Let_def hop_loaders_def
      demo_hop_config_def chainHop.defs)
  then have s: "hop_Select stable_priority sample_ctx (sample_opts\<lparr>so_protocol := ''http''\<rparr>) ?H =
      (Some (node.truncate m), ?H)"
    using H(6) m by (simp add: hop_Select_def bypassed_def named_group_def bypassGroup_Contains_def)
  from hop_follows_its_configuration [OF H(1) s sorts_stable sample_draws]
  have "nd_name (node.truncate m) = ''n''" by (auto simp: demo_hop_config_def demo_node_config_def)
  then show ?thesis using H(1) s by blast
qed

theorem saved_hop_is_the_same_witness:
  "\<exists>H h'. ParseHop demo_node_env (\<lambda>l. None) 0 demo_hop_config = (Inr (LocalHop H), h') \<and>
     ParseHop demo_node_env (\<lambda>l. None) 0 h' = (Inr (LocalHop H), h')"
proof -
  obtain H h' where H: "ParseHop demo_node_env (\<lambda>l. None) 0 demo_hop_config = (Inr (LocalHop H), h')"
    by (rule demo_hop_parsed)
  with saved_hop_is_the_same [OF this] show ?thesis by blast
qed

section \<open>Two surprises\<close>

text \<open>
  A comment says that \<open>*example.com\<close> becomes \<open>example.com\<close>; it becomes \<open>.example.com\<close>, which accepts
  every host that ends so.
\<close>

lemma star_becomes_suffix:
  "\<not> HasPrefix d ''.'' \<Longrightarrow> nf_host f = CHR ''*'' # d \<Longrightarrow> nf_host (node_filter_of f) = CHR ''.'' # d"
  by (simp add: node_filter_of_def HasPrefix_def)

text \<open>
  A node whose rule is refused is kept, with its filter alone and the priority -1: without a filter it
  accepts what the rule was to keep away.
\<close>

lemma refused_rule_accepts_everything:
  assumes "nn_matcher c = Some (tx, pr)" and "TrimSpace tx \<noteq> []" and "ne_expr E (TrimSpace tx) = None"
    and "nn_filter c = None" and "nn_bypass c = []" and "nn_bypasses c = []"
  shows "config_accepts E c opts \<and> snd (node_matcher E (nn_matcher c)) = -1"
  using assms by (simp add: config_accepts_def config_rule_def filter_accepts_def named_group_def bypass_List_def
    bypassGroup_Contains_def node_matcher_def rule_matcher_def)

end
