(* ===== verification/CommandLine.thy ===== *)
theory CommandLine
  imports Startup ObjectParse NodeParse
begin

text \<open>
  A program started with services and nodes on its command line: the parsers that the loader of
  \<open>x/config/loader/loader.go\<close> calls for what \<open>x/config/cmd/cmd.go\<close> has built, and what the services
  find registered under the names they are given.
\<close>

section \<open>The items of the command line as configurations\<close>

text \<open>
  The theories \<open>CmdConfig\<close> and \<open>NodeParse\<close> each have a part of \<open>HopConfig\<close> and \<open>NodeConfig\<close>: what
  the command line leaves alone is empty.
\<close>

definition cmd_node :: "node_cfg \<Rightarrow> node_config" where
  "cmd_node n =
     \<lparr>nn_name = nc_name n, nn_addr = nc_addr n, nn_network = [], nn_bypass = [], nn_bypasses = [], nn_resolver = [],
      nn_hosts = [],
      nn_connector = Some \<lparr>ec_type = nc_connector n, ec_auth = nc_connector_auth n, ec_tls = None, ec_meta = Some (nc_md n)\<rparr>,
      nn_dialer = Some \<lparr>ec_type = nc_dialer n, ec_auth = nc_dialer_auth n, ec_tls = nc_tls n, ec_meta = Some (nc_md n)\<rparr>,
      nn_interface = [], nn_netns = [], nn_mark = None, nn_filter = None, nn_matcher = None, nn_http = None,
      nn_tls = None, nn_meta = Some (nc_md n)\<rparr>"

definition cmd_hop :: "hop_cfg \<Rightarrow> hop_config" where
  "cmd_hop h =
     \<lparr>hf_name = oc_name h, hf_interface = oc_interface h, hf_mark = oc_mark h,
      hf_selector = map_option (\<lambda>s. (lc_strategy s, lc_maxFails s, lc_failTimeout s)) (oc_selector h),
      hf_bypass = oc_bypass h, hf_bypasses = [], hf_resolver = oc_resolver h, hf_hosts = oc_hosts h,
      hf_nodes = (if oc_nodes h = [] then None else Some (map (Some \<circ> cmd_node) (oc_nodes h))),
      hf_file = [], hf_redis = [], hf_url = [], hf_plugin = None, hf_meta = Some (oc_md h)\<rparr>"

definition cmd_server :: "string \<times> string \<Rightarrow> nameserver_config" where
  "cmd_server s =
     \<lparr>nv_addr = fst s, nv_chain = [], nv_prefer = snd s, nv_clientIP = [], nv_hostname = [], nv_ttl = 0,
      nv_timeout = 0, nv_async = False, nv_only = []\<rparr>"

section \<open>The parsers\<close>

record cmd_world =
  cw_nodes :: node_env
  cw_exchanger :: "string \<Rightarrow> bool"
  cw_exchange :: "nameserver_config \<Rightarrow> dns_question \<Rightarrow> string + dns_msg"

datatype cmd_object =
  BypassObject "bypass_options made" | AdmissionObject "admission_options made"
| ResolverObject "name_server list made" | HostsObject "(string \<times> int) list made"
| LimiterObject "string list made" | ChainObject string "chain_hop list"

text \<open>What the loader makes of an item, if it is one of the command line and not a service.\<close>

definition cmd_object_of :: "cmd_world \<Rightarrow> part \<Rightarrow> string \<Rightarrow> 'f item \<Rightarrow> (string + cmd_object) option" where
  "cmd_object_of W k n i =
     (case i of
        CmdRule r \<Rightarrow>
          if k = Bypasses then Some (Inr (BypassObject (ParseBypass no_loaders no_sources (rules_of_cmd r))))
          else if k = Admissions then Some (Inr (AdmissionObject (ParseAdmission no_loaders no_sources (rules_of_cmd r))))
          else None
      | CmdResolver r \<Rightarrow>
          if k = Resolvers then
            Some (Inr (ResolverObject
              (ParseResolver (cw_exchange W) (cw_exchanger W) (vc_name r) None (map cmd_server (vc_servers r)))))
          else None
      | CmdHosts r \<Rightarrow>
          if k = Hosts then Some (Inr (HostsObject (ParseHostMapper no_sources (hc_name r) (hc_mappings r)))) else None
      | CmdLimiter r \<Rightarrow>
          if k = Limiters then Some (Inr (LimiterObject (ParseTrafficLimiter no_sources (mc_name r) (mc_limits r))))
          else if k = CLimiters then Some (Inr (LimiterObject (ParseConnLimiter no_sources (mc_limits r))))
          else if k = RLimiters then Some (Inr (LimiterObject (ParseRateLimiter no_sources (mc_limits r))))
          else None
      | CmdChain hops \<Rightarrow>
          if k = Chains then
            Some (map_sum id (ChainObject n) (fst (ParseChain_hops (cw_nodes W) (\<lambda>l. None) 0 (map cmd_hop hops))))
          else None
      | FromFile f \<Rightarrow> None
      | CmdService v g \<Rightarrow> None)"

text \<open>
  The parsers of the program: of the items of the command line those above, whose objects are objects
  of the registries by \<open>wrap\<close>; the parser of services and those of the items of files are \<open>P\<close>'s.
\<close>

definition program_parsers ::
    "cmd_world \<Rightarrow> (cmd_object \<Rightarrow> 'o) \<Rightarrow> ('f item, 'o, 's) config_parsers \<Rightarrow> ('f item, 'o, 's) config_parsers" where
  "program_parsers W wrap P =
     P\<lparr>pa_parse := (\<lambda>k n i R s.
         case cmd_object_of W k n i of
           None \<Rightarrow> pa_parse P k n i R s
         | Some (Inl e) \<Rightarrow> (Inl e, s)
         | Some (Inr x) \<Rightarrow> (Inr (Some (wrap x)), s))\<rparr>"

section \<open>The chain of the command line\<close>

text \<open>With nodes on the command line every service is given the chain, its listener or its handler.\<close>

definition chained :: "string option \<Rightarrow> cmd_group \<Rightarrow> bool" where
  "chained chain g \<longleftrightarrow>
     (case chain of
        None \<Rightarrow> True
      | Some c \<Rightarrow> (if gg_listener g \<in> {''rtcp'', ''rudp''} then gg_listener_chain g else gg_handler_chain g) = c)"

lemma finish_group_chained [simp]: "chained c ((finish_group c g)\<lparr>gg_md := m\<rparr>)"
  by (auto simp: chained_def finish_group_def Let_def split: option.split)

lemma finish_services_chained:
  "finish_services E p c i vs gs R = (vs1, gs1, R1) \<Longrightarrow> list_all (\<lambda>v. vs_group v < length gs) vs \<Longrightarrow>
     (\<exists>v \<in> set vs. vs_group v = j) \<or> chained c (gs ! j) \<Longrightarrow> chained c (gs1 ! j)"
proof (induction E p c i vs gs R arbitrary: vs1 gs1 R1 rule: finish_services.induct)
  case (2 E p c i v vs gs R)
  let ?g = "gs ! vs_group v"
  obtain v1 m1 R2 where f: "finish_service E p i v (gg_md ?g) R = (v1, m1, R2)" by (metis surj_pair)
  let ?gs = "gs[vs_group v := (finish_group c ?g)\<lparr>gg_md := m1\<rparr>]"
  obtain vs2 gs2 R3 where r: "finish_services E p c (i + 1) vs ?gs R2 = (vs2, gs2, R3)" by (metis surj_pair)
  have eq: "gs1 = gs2" using 2(2) f r by (simp add: Let_def)
  have l: "list_all (\<lambda>v. vs_group v < length ?gs) vs" and v: "vs_group v < length gs" using 2(3) by simp_all
  have "(\<exists>v \<in> set vs. vs_group v = j) \<or> chained c (?gs ! j)"
    using 2(4) v by (cases "j = vs_group v") auto
  from 2(1) [OF refl f [symmetric] refl r l this] show ?case by (simp add: eq)
qed simp

lemma command_chained:
  assumes "BuildConfigFromCmd E p services nodes = Inr c" and "v \<in> set (cc_services c)"
  shows "chained (if nodes = [] then None else Some (numbered p ''chain-'' 0)) (cc_groups c ! vs_group v) \<and>
    map_option fst (cc_chain c) = (if nodes = [] then None else Some (numbered p ''chain-'' 0))"
proof -
  let ?ch = "if nodes = [] then None else Some (numbered p ''chain-'' 0)"
  obtain hops R where h: "buildHops E p 0 nodes no_rules = Inr (hops, R)"
    using assms(1) by (auto simp: BuildConfigFromCmd_def Let_def split: sum.splits)
  obtain vs gs where b: "buildServices E p 0 services = Inr (vs, gs)"
    using assms(1) h by (auto simp: BuildConfigFromCmd_def Let_def split: sum.splits)
  obtain vs1 gs1 R1 where f: "finish_services E p ?ch 0 vs gs R = (vs1, gs1, R1)" by (metis surj_pair)
  have c: "c = \<lparr>cc_chain = map_option (\<lambda>n. (n, hops)) ?ch, cc_services = vs1, cc_groups = gs1, cc_rules = R1\<rparr>"
    using assms(1) h b f by (simp add: BuildConfigFromCmd_def)
  note sok = buildServices_ok [OF b, of ?ch]
  have rok: "rules_ok p R" using buildHops_ok [OF h rules_ok_no_rules] by blast
  have "map vs_group vs1 = map vs_group vs"
    using finish_services_ok [OF f rok] sok by simp
  moreover have "vs_group v \<in> set (map vs_group vs1)" using assms(2) by (simp add: c)
  ultimately have "\<exists>w \<in> set vs. vs_group w = vs_group v" by auto
  then have "chained ?ch (gs1 ! vs_group v)"
    using finish_services_chained [OF f] sok by (auto simp: list_all_iff)
  then show ?thesis by (simp add: c)
qed

section \<open>What is registered\<close>

lemma program_parsers_some:
  "always_some (program_parsers W wrap P) k (cmd_items c k :: (string \<times> 'f item) list)" if "k \<noteq> Services"
  using that
  by (cases k) (auto simp: always_some_def program_parsers_def cmd_object_of_def split: option.splits sum.splits)

lemma referred_is_registered:
  assumes "n \<in> fst ` set (cmd_items c k :: (string \<times> 'f item) list)"
    and "part_loaded P k (cmd_items c k :: (string \<times> 'f item) list) Q m" and "always_some P k (cmd_items c k)"
  shows "n = [] \<or> Get n m \<noteq> None"
proof (cases "n = []")
  case False
  then have "n \<in> dom m" using assms by (simp add: part_loaded_def)
  then show ?thesis by (auto simp: Get_def)
qed simp

text \<open>
  Every object that the configuration of the command line names for a service, its handler, its
  listener or a hop is registered, and every service has the chain where there are nodes.
\<close>

definition service_references :: "cmd_config \<Rightarrow> cmd_service \<Rightarrow> (part \<times> string) list" where
  "service_references c v =
     [(Admissions, vs_admission v), (Bypasses, vs_bypass v), (Resolvers, vs_resolver v), (Hosts, vs_hosts v),
      (Limiters, vs_limiter v), (CLimiters, vs_climiter v), (RLimiters, vs_rlimiter v),
      (Chains, gg_handler_chain (cc_groups c ! vs_group v)), (Chains, gg_listener_chain (cc_groups c ! vs_group v))]"

definition hop_references :: "hop_cfg \<Rightarrow> (part \<times> string) list" where
  "hop_references h = [(Bypasses, oc_bypass h), (Resolvers, oc_resolver h), (Hosts, oc_hosts h)]"

definition references_registered :: "cmd_config \<Rightarrow> 'o registries \<Rightarrow> bool" where
  "references_registered c R \<longleftrightarrow>
     (\<forall>v \<in> set (cc_services c). \<forall>(k, n) \<in> set (service_references c v). n = [] \<or> Get n (R k) \<noteq> None) \<and>
     (\<forall>v \<in> set (cc_services c). chained (map_option fst (cc_chain c)) (cc_groups c ! vs_group v)) \<and>
     (case cc_chain c of
        None \<Rightarrow> True
      | Some (_, hops) \<Rightarrow> (\<forall>h \<in> set hops. \<forall>(k, n) \<in> set (hop_references h). n = [] \<or> Get n (R k) \<noteq> None))"

lemma references_found:
  assumes cmd: "BuildConfigFromCmd E p services nodes = Inr c"
    and loaded: "\<And>k. k \<noteq> Services \<Longrightarrow>
      part_loaded P k (cmd_items c k :: (string \<times> 'f item) list) (Q k) (R k) \<and> always_some P k (cmd_items c k)"
  shows "references_registered c R"
proof -
  have ok: "config_ok c" using BuildConfigFromCmd_ok [OF cmd] by blast
  have found: "n = [] \<or> Get n (R k) \<noteq> None" if "refers (kind_prefix k) (cc_rules c) n" "kind_prefix k \<noteq> []" for k n
  proof (cases "n = []")
    case False
    have "n \<in> fst ` set (cmd_items c k :: (string \<times> 'f item) list)"
      using that False cmd_items_names [OF that(2), of c] by (metis list.set_map refers_def)
    moreover have "k \<noteq> Services" using that(2) by auto
    ultimately show ?thesis using loaded referred_is_registered by blast
  qed simp
  have chain: "n = [] \<or> Get n (R Chains) \<noteq> None" if "map_option fst (cc_chain c) = Some n" for n
  proof -
    have "n \<in> fst ` set (cmd_items c Chains :: (string \<times> 'f item) list)" using that by (cases "cc_chain c") auto
    then show ?thesis using loaded [of Chains] referred_is_registered by blast
  qed
  have "list_all (\<lambda>(k, n). n = [] \<or> Get n (R k) \<noteq> None) (service_references c v)" if v: "v \<in> set (cc_services c)" for v
  proof -
    have h: "gg_handler_chain (cc_groups c ! vs_group v) = [] \<or> Get (gg_handler_chain (cc_groups c ! vs_group v)) (R Chains) \<noteq> None"
      and l: "gg_listener_chain (cc_groups c ! vs_group v) = [] \<or> Get (gg_listener_chain (cc_groups c ! vs_group v)) (R Chains) \<noteq> None"
      using ok v chain by (auto simp: config_ok_def list_all_iff chains_ok_def simp del: map_option_eq_Some)
    have "service_ok (cc_rules c) v" using ok v by (simp add: config_ok_def list_all_iff)
    note s = this [unfolded service_ok_def]
    show ?thesis
      unfolding service_references_def list.pred_inject prod.case
      by (intro conjI h l; (rule found; use s in simp)?) simp
  qed
  moreover have "n = [] \<or> Get n (R k) \<noteq> None"
    if "cc_chain c = Some (m, hops)" "h \<in> set hops" "(k, n) \<in> set (hop_references h)" for m hops h k n
  proof -
    have "hop_ok (cc_rules c) h" using ok that by (simp add: config_ok_def list_all_iff)
    then show ?thesis using that(3) found [of Bypasses] found [of Resolvers] found [of Hosts]
      by (auto simp: hop_references_def hop_ok_def)
  qed
  moreover have "chained (map_option fst (cc_chain c)) (cc_groups c ! vs_group v)" if "v \<in> set (cc_services c)" for v
    using command_chained [OF cmd that] by simp
  ultimately show ?thesis
    unfolding references_registered_def list_all_iff by (cases "cc_chain c") fastforce+
qed

text \<open>Only nodes and services can be refused by their parsers.\<close>

lemma program_parsers_error:
  assumes "(n, i) \<in> set (cmd_items c k)" and "fst (pa_parse (program_parsers W wrap P) k n i R s) = Inl m"
  shows "(\<exists>name hops. cc_chain c = Some (name, hops) \<and>
      fst (ParseChain_hops (cw_nodes W) (\<lambda>l. None) 0 (map cmd_hop hops)) = Inl m) \<or>
    (\<exists>v \<in> set (cc_services c). \<exists>R s.
      fst (pa_parse P Services (vs_name v) (CmdService v (cc_groups c ! vs_group v)) R s) = Inl m)"
proof (cases "k = Services")
  case True
  then obtain v where "v \<in> set (cc_services c)" "n = vs_name v" "i = CmdService v (cc_groups c ! vs_group v)"
    using assms(1) by auto
  moreover have "fst (pa_parse P Services n i R s) = Inl m"
    using assms(2) True calculation(3) by (simp add: program_parsers_def cmd_object_of_def)
  ultimately show ?thesis by blast
next
  case False
  have "\<exists>hops. cc_chain c = Some (n, hops) \<and> i = CmdChain hops \<and> k = Chains"
    using assms False by (cases k) (auto simp: program_parsers_def cmd_object_of_def split: option.splits)
  then obtain hops where "cc_chain c = Some (n, hops)" "i = CmdChain hops" "k = Chains" by blast
  then show ?thesis
    using assms(2) by (cases "fst (ParseChain_hops (cw_nodes W) (\<lambda>l. None) 0 (map cmd_hop hops))")
      (auto simp: program_parsers_def cmd_object_of_def)
qed

text \<open>
  (C8) A program started with services and perhaps nodes on its command line and no file. Loading cannot
  fail over a name that is taken, nor over anything but the certificate, a node or a service. Once it has
  succeeded every bypass, admission, resolver, host table, limiter and chain that the configuration names
  for a service, its handler, its listener or a hop is registered, and where there are nodes every
  service goes through their chain.
\<close>

theorem command_line_references_are_registered:
  assumes "pg_cfgFile A = []" and "BuildConfigFromCmd (pe_cmd E) (pe_prefix E) (pg_services A) (pg_nodes A) = Inr c"
    and "cc_services c \<noteq> []" and "Parser_Parse E A = Inr cfg"
    and "Loader_Load T (program_parsers W wrap P) visit cfg L = (e, L')" and "visits_all visit"
    and "\<forall>k. finite (dom (lo_regs L k))"
  shows "case e of
      None \<Rightarrow> references_registered c (lo_regs L') \<and> (pg_nodes A \<noteq> [] \<longrightarrow> cc_chain c \<noteq> None)
    | Some m \<Rightarrow> BuildDefaultTLSConfig T (cf_tls cfg) = Inl m \<or>
        (\<exists>name hops. cc_chain c = Some (name, hops) \<and>
          fst (ParseChain_hops (cw_nodes W) (\<lambda>l. None) 0 (map cmd_hop hops)) = Inl m) \<or>
        (\<exists>v \<in> set (cc_services c). \<exists>R s.
          fst (pa_parse P Services (vs_name v) (CmdService v (cc_groups c ! vs_group v)) R s) = Inl m)"
proof (cases e)
  case None
  have items: "cf_items cfg = cmd_items c" by (rule cmd_only_parse [OF assms(1-4)])
  have "references_registered c (lo_regs L')"
  proof (rule references_found [OF assms(2)])
    show "part_loaded (program_parsers W wrap P) k (cmd_items c k) (\<lambda>Rp. \<forall>k' \<in> asks_for k. Rp k' = lo_regs L' k') (lo_regs L' k) \<and>
        always_some (program_parsers W wrap P) k (cmd_items c k)" if "k \<noteq> Services" for k
      using Loader_Load_ok [OF assms(5) [unfolded None] assms(6,7), of k] program_parsers_some [OF that] by (simp add: items)
  qed
  moreover obtain v where "v \<in> set (cc_services c)" using assms(3) by (cases "cc_services c") auto
  from command_chained [OF assms(2) this] have "pg_nodes A \<noteq> [] \<longrightarrow> cc_chain c \<noteq> None" by auto
  ultimately show ?thesis by (simp add: None)
next
  case (Some m)
  have items: "cf_items cfg = cmd_items c" by (rule cmd_only_parse [OF assms(1-4)])
  have "\<forall>k. distinct (filter (\<lambda>n. n \<noteq> []) (map fst (cf_items cfg k)))"
    unfolding items by (intro allI distinct_filter cmd_items_distinct [OF assms(2)])
  from load_error_is_the_parsers [OF assms(5) [unfolded Some] assms(6,7) this] show ?thesis
    unfolding Some items option.case using program_parsers_error by fast
qed

text \<open>Two services with an admission, and a node.\<close>

definition line_env :: cmd_env where
  "line_env = (cmd_demo_env [])\<lparr>ce_parse := (\<lambda>s. Inr \<lparr>u_scheme = ''http+tcp'', u_user = None,
     u_host = if s = ''http://p:1'' then ''p:1'' else [], u_hostname = if s = ''http://p:1'' then ''p'' else [],
     u_path = [], u_query = if s = ''http://p:1'' then [] else [(''admission'', [''~a''])]\<rparr>)\<rparr>"

definition line_parse_env :: "unit parse_env" where
  "line_parse_env = demo_parse_env\<lparr>pe_cmd := line_env\<rparr>"

definition line_args :: parse_args where
  "line_args = demo_args\<lparr>pg_nodes := [''http://p:1'']\<rparr>"

definition line_world :: cmd_world where
  "line_world = \<lparr>cw_nodes = demo_node_env, cw_exchanger = (\<lambda>a. True), cw_exchange = (\<lambda>s q. Inl ''refused'')\<rparr>"

definition line_parsers :: "(unit item, cmd_object + string, string list) config_parsers" where
  "line_parsers = \<lparr>pa_parse = (\<lambda>k n c R s. (Inr (Some (Inr n)), s)), pa_close = (\<lambda>v s. s)\<rparr>"

definition line_visit :: "part \<Rightarrow> 'o registry \<Rightarrow> string list" where
  "line_visit k m = sorted_list_of_set (dom m)"

definition line_start :: "(string, cmd_object + string, string list) loaded" where
  "line_start = \<lparr>lo_log = default_log, lo_tls = None, lo_regs = (\<lambda>k. Map.empty), lo_out = []\<rparr>"

lemma line_command:
  "case BuildConfigFromCmd line_env [] [''http://:80-81?admission=~a''] [''http://p:1''] of
     Inl e \<Rightarrow> False
   | Inr c \<Rightarrow>
       map vs_admission (cc_services c) = [''admission-0'', []] \<and>
       map (\<lambda>v. gg_handler_chain (cc_groups c ! vs_group v)) (cc_services c) = [''chain-0'', ''chain-0''] \<and>
       (case cc_chain c of None \<Rightarrow> False
        | Some (n, hops) \<Rightarrow>
            (case ParseChain_hops demo_node_env (\<lambda>l. None) 0 (map cmd_hop hops) of (Inl e, hs) \<Rightarrow> False | (Inr ms, hs) \<Rightarrow> True))"
  by code_simp

theorem command_line_references_are_registered_witness:
  "\<exists>c L'. BuildConfigFromCmd line_env [] [''http://:80-81?admission=~a''] [''http://p:1''] = Inr c \<and>
     Loader_Load demo_tls (program_parsers line_world Inl line_parsers) line_visit
       (cmd_as_config c :: unit item config) line_start = (None, L') \<and>
     references_registered c (lo_regs L') \<and> cc_chain c \<noteq> None"
proof -
  obtain c where c: "BuildConfigFromCmd line_env [] [''http://:80-81?admission=~a''] [''http://p:1''] = Inr c"
    "cc_services c \<noteq> []"
    and ch: "\<And>n hops m. cc_chain c = Some (n, hops) \<Longrightarrow>
      fst (ParseChain_hops demo_node_env (\<lambda>l. None) 0 (map cmd_hop hops)) \<noteq> Inl m"
    using line_command by (auto split: sum.splits option.splits prod.splits)
  have p: "Parser_Parse line_parse_env line_args = Inr (cmd_as_config c)"
    using c by (auto simp: Parser_Parse_def read_config_def line_parse_env_def line_args_def demo_parse_env_def demo_args_def
      merge_both_def cmd_as_config_def empty_config_def from_arguments_def debug_level_def from_environment_def Let_def or_else_def)
  obtain e L' where L: "Loader_Load demo_tls (program_parsers line_world Inl line_parsers) line_visit
      (cmd_as_config c :: unit item config) line_start = (e, L')" by fastforce
  have v: "visits_all (line_visit :: part \<Rightarrow> (cmd_object + string) registry \<Rightarrow> string list)"
    by (simp add: visits_all_def line_visit_def)
  have f: "\<forall>k. finite (dom (lo_regs line_start k))" by (simp add: line_start_def)
  note claim = command_line_references_are_registered [OF _ _ c(2) p L v f]
  have "case e of
      None \<Rightarrow> references_registered c (lo_regs L') \<and> cc_chain c \<noteq> None
    | Some m \<Rightarrow> False"
    using claim c(1) ch
    by (cases e) (auto simp: line_args_def line_parse_env_def demo_args_def demo_parse_env_def line_world_def line_parsers_def)
  then show ?thesis using c(1) L by (auto split: option.splits)
qed

section \<open>A node without a host\<close>

text \<open>
  A node without a host makes a hop without nodes. The chain then looks the hop up under its name, and
  the command line registers no hops: the hop selects no node, and as a chain whose first hop selects
  none connects directly, the node the user wanted to go through is passed by in silence.
\<close>

lemma node_without_host_is_looked_up:
  assumes "nc_addr n = []"
  shows "fst (ParseChain_hops W b j [cmd_hop (fst (buildHop E p i u n R))]) = Inr [RegisteredHop (numbered p ''hop-'' i)]"
proof -
  have "oc_nodes (fst (buildHop E p i u n R)) = []"
    using assms by (simp add: buildHop_def hop_nodes_def Let_def case_prod_beta)
  then show ?thesis using buildHop_name [of E p i u n R] by (simp add: cmd_hop_def numbered_def)
qed

lemma command_line_registers_no_hops:
  assumes "pg_cfgFile A = []" and "BuildConfigFromCmd (pe_cmd E) (pe_prefix E) (pg_services A) (pg_nodes A) = Inr c"
    and "cc_services c \<noteq> []" and "Parser_Parse E A = Inr cfg"
    and "Loader_Load T P visit cfg L = (None, L')" and "visits_all visit" and "\<forall>k. finite (dom (lo_regs L k))"
  shows "lo_regs L' Hops n = None"
proof (rule ccontr)
  assume "lo_regs L' Hops n \<noteq> None"
  then show False
    using Loader_Load_ok [OF assms(5-7), of Hops] cmd_only_parse [OF assms(1-4)]
    by (auto simp: part_loaded_def parsed_from_def)
qed

end
