(* ===== verification/MuxDialer.thy ===== *)
theory MuxDialer
  imports Prelude "HOL-Library.Multiset"
begin

text \<open>
  The dialers that carry many connections over one: \<open>mtcp\<close>, \<open>mtls\<close> and \<open>mws\<close>
  (\<open>x/dialer/{mtcp,mtls,mws}\<close>). Each keeps a table of sessions by address under one mutex, so that
  \<open>Dial\<close> and \<open>Handshake\<close> are atomic, but a caller runs them one after the other and others come in
  between. \<open>Dial\<close> opens the connection and files it without a session; \<open>Handshake\<close> starts the session
  and opens a stream of it.

  A connection is compared by identity: a raw connection has a number, and a TLS or WebSocket
  connection is a new one over another. What the network does (the raw dialer, the TLS and WebSocket
  handshakes, \<open>mux.ClientSession\<close>, opening a stream) is a parameter of the operations.
\<close>

section \<open>The operations\<close>

datatype mconn = Raw nat | Over mconn nat

fun root :: "mconn \<Rightarrow> nat" where
  "root (Raw n) = n"
| "root (Over c _) = root c"

record mux_sess =
  ms_conn :: mconn
  ms_session :: "nat option"

text \<open>The table, and the connections and sessions the dialer has closed.\<close>

record mux_state =
  mx_sessions :: "string \<rightharpoonup> mux_sess"
  mx_closed :: "mconn list"
  mx_ended :: "nat list"

definition mux_IsClosed :: "(nat \<Rightarrow> bool) \<Rightarrow> mux_sess \<Rightarrow> bool" where
  "mux_IsClosed dead s = (case ms_session s of None \<Rightarrow> True | Some sid \<Rightarrow> dead sid)"

definition mux_Close :: "mux_sess \<Rightarrow> mux_state \<Rightarrow> mux_state" where
  "mux_Close s st = (case ms_session s of None \<Rightarrow> st | Some sid \<Rightarrow> st\<lparr>mx_ended := sid # mx_ended st\<rparr>)"

definition mux_Dial :: "(nat \<Rightarrow> bool) \<Rightarrow> string + mconn \<Rightarrow> string \<Rightarrow> mux_state \<Rightarrow> (string + mconn) \<times> mux_state" where
  "mux_Dial dead dialled addr st =
     (case mx_sessions st addr of
        Some s \<Rightarrow>
          if \<not> mux_IsClosed dead s then (Inr (ms_conn s), st)
          else (case dialled of
                  Inl e \<Rightarrow> (Inl e, st\<lparr>mx_sessions := (mx_sessions st)(addr := None)\<rparr>)
                | Inr c \<Rightarrow> (Inr c, st\<lparr>mx_sessions := (mx_sessions st)(addr \<mapsto> \<lparr>ms_conn = c, ms_session = None\<rparr>)\<rparr>))
      | None \<Rightarrow>
          (case dialled of
             Inl e \<Rightarrow> (Inl e, st)
           | Inr c \<Rightarrow> (Inr c, st\<lparr>mx_sessions := (mx_sessions st)(addr \<mapsto> \<lparr>ms_conn = c, ms_session = None\<rparr>)\<rparr>)))"

text \<open>
  \<open>initSession\<close> of the three dialers. \<open>tls\<close> and \<open>ws\<close> give the connection over the dialled one,
  \<open>mux\<close> the session. \<open>mws\<close> asks for the host of its metadata or else the address of the node.
\<close>

definition new_session :: "(mconn \<Rightarrow> string + nat) \<Rightarrow> mconn \<Rightarrow> string + mux_sess" where
  "new_session mux c =
     (case mux c of Inl e \<Rightarrow> Inl e | Inr sid \<Rightarrow> Inr \<lparr>ms_conn = c, ms_session = Some sid\<rparr>)"

definition mtcp_initSession :: "(mconn \<Rightarrow> string + nat) \<Rightarrow> mconn \<Rightarrow> string + mux_sess" where
  "mtcp_initSession mux c = new_session mux c"

definition mtls_initSession :: "(mconn \<Rightarrow> string + mconn) \<Rightarrow> (mconn \<Rightarrow> string + nat) \<Rightarrow> mconn \<Rightarrow> string + mux_sess" where
  "mtls_initSession tls mux c = (case tls c of Inl e \<Rightarrow> Inl e | Inr c' \<Rightarrow> new_session mux c')"

record mws_md =
  wm_host :: string
  wm_path :: string

definition mws_url :: "bool \<Rightarrow> mws_md \<Rightarrow> string \<Rightarrow> string \<times> string \<times> string" where
  "mws_url tlsEnabled md addr =
     ((if tlsEnabled then ''wss'' else ''ws''), (if wm_host md = [] then addr else wm_host md), wm_path md)"

definition mws_initSession ::
  "bool \<Rightarrow> mws_md \<Rightarrow> (string \<times> string \<times> string \<Rightarrow> mconn \<Rightarrow> string + mconn) \<Rightarrow> (mconn \<Rightarrow> string + nat) \<Rightarrow>
   string \<Rightarrow> mconn \<Rightarrow> string + mux_sess" where
  "mws_initSession tlsEnabled md ws mux addr c =
     (case ws (mws_url tlsEnabled md addr) c of Inl e \<Rightarrow> Inl e | Inr c' \<Rightarrow> new_session mux c')"

text \<open>\<open>Handshake\<close>; \<open>stream\<close> is \<open>GetConn\<close> of a session.\<close>

definition mux_open :: "(nat \<Rightarrow> string + nat) \<Rightarrow> string \<Rightarrow> mux_sess \<Rightarrow> mux_state \<Rightarrow> (string + nat) \<times> mux_state" where
  "mux_open stream addr s st =
     (case ms_session s of
        None \<Rightarrow> (Inl ''nil session'', st)
      | Some sid \<Rightarrow>
          (case stream sid of
             Inl e \<Rightarrow> (Inl e, (mux_Close s st)\<lparr>mx_sessions := (mx_sessions st)(addr := None)\<rparr>)
           | Inr y \<Rightarrow> (Inr y, st)))"

definition mux_start ::
  "(mconn \<Rightarrow> string + mux_sess) \<Rightarrow> (nat \<Rightarrow> string + nat) \<Rightarrow> string \<Rightarrow> mconn \<Rightarrow> mux_state \<Rightarrow> (string + nat) \<times> mux_state" where
  "mux_start init stream addr c st =
     (case init c of
        Inl e \<Rightarrow> (Inl e, st\<lparr>mx_closed := c # mx_closed st, mx_sessions := (mx_sessions st)(addr := None)\<rparr>)
      | Inr s \<Rightarrow> mux_open stream addr s (st\<lparr>mx_sessions := (mx_sessions st)(addr \<mapsto> s)\<rparr>))"

definition unrecognized :: string where
  "unrecognized = ''mtls: unrecognized connection''"

definition mux_Handshake ::
  "string \<Rightarrow> (mconn \<Rightarrow> string + mux_sess) \<Rightarrow> (nat \<Rightarrow> string + nat) \<Rightarrow> string \<Rightarrow> mconn \<Rightarrow> mux_state \<Rightarrow> (string + nat) \<times> mux_state" where
  "mux_Handshake msg init stream addr c st =
     (case mx_sessions st addr of
        None \<Rightarrow> mux_start init stream addr c st
      | Some s \<Rightarrow>
          if ms_conn s \<noteq> c then (Inl msg, st\<lparr>mx_closed := c # mx_closed st\<rparr>)
          else if ms_session s = None then mux_start init stream addr c st
          else mux_open stream addr s st)"

text \<open>The three dialers' own handshakes. They differ in the session and in the text of the refusal.\<close>

definition mtcp_Handshake ::
  "(mconn \<Rightarrow> string + nat) \<Rightarrow> (nat \<Rightarrow> string + nat) \<Rightarrow> string \<Rightarrow> mconn \<Rightarrow> mux_state \<Rightarrow> (string + nat) \<times> mux_state" where
  "mtcp_Handshake mux = mux_Handshake unrecognized (mtcp_initSession mux)"

definition mtls_Handshake ::
  "(mconn \<Rightarrow> string + mconn) \<Rightarrow> (mconn \<Rightarrow> string + nat) \<Rightarrow> (nat \<Rightarrow> string + nat) \<Rightarrow> string \<Rightarrow> mconn \<Rightarrow> mux_state \<Rightarrow>
   (string + nat) \<times> mux_state" where
  "mtls_Handshake tls mux = mux_Handshake unrecognized (mtls_initSession tls mux)"

definition mws_Handshake ::
  "bool \<Rightarrow> mws_md \<Rightarrow> (string \<times> string \<times> string \<Rightarrow> mconn \<Rightarrow> string + mconn) \<Rightarrow> (mconn \<Rightarrow> string + nat) \<Rightarrow>
   (nat \<Rightarrow> string + nat) \<Rightarrow> string \<Rightarrow> mconn \<Rightarrow> mux_state \<Rightarrow> (string + nat) \<times> mux_state" where
  "mws_Handshake tlsEnabled md ws mux stream addr =
     mux_Handshake ''mws: unrecognized connection'' (mws_initSession tlsEnabled md ws mux addr) stream addr"

section \<open>Callers\<close>

text \<open>
  The history of one dialer. It belongs to a node: its handshakes are for the address of the node,
  \<open>h\<close>, while the addresses dialled, \<open>D\<close>, are what the address of the node is resolved to
  (\<open>chainRoute.connect\<close>). \<open>mw_down\<close> are the raw connections closed or broken, \<open>mw_dead\<close> the sessions
  closed, \<open>mw_made\<close> the connection under each session, \<open>mw_pending\<close> what callers got from \<open>Dial\<close> and
  have not handshaken.
\<close>

record mux_world =
  mw_st :: mux_state
  mw_down :: "nat set"
  mw_dead :: "nat set"
  mw_made :: "nat \<rightharpoonup> nat"
  mw_opened :: "nat set"
  mw_pending :: "mconn multiset"

definition mux_empty :: mux_state where
  "mux_empty = \<lparr>mx_sessions = Map.empty, mx_closed = [], mx_ended = []\<rparr>"

definition mw_init :: mux_world where
  "mw_init = \<lparr>mw_st = mux_empty, mw_down = {}, mw_dead = {}, mw_made = Map.empty, mw_opened = {}, mw_pending = {#}\<rparr>"

text \<open>What an \<open>initSession\<close> can give, whichever of the three it is.\<close>

definition init_ok :: "mux_world \<Rightarrow> mconn \<Rightarrow> string + mux_sess \<Rightarrow> bool" where
  "init_ok w c i = (case i of Inl _ \<Rightarrow> True
     | Inr s \<Rightarrow> root (ms_conn s) = root c \<and>
         (case ms_session s of None \<Rightarrow> False | Some sid \<Rightarrow> mw_made w sid = None \<and> sid \<notin> mw_dead w))"

text \<open>Whether \<open>Handshake\<close> starts a session.\<close>

definition starts :: "mux_world \<Rightarrow> string \<Rightarrow> mconn \<Rightarrow> bool" where
  "starts w h c = (case mx_sessions (mw_st w) h of None \<Rightarrow> True
                   | Some s \<Rightarrow> ms_conn s = c \<and> ms_session s = None)"

definition made_by :: "mux_world \<Rightarrow> string \<Rightarrow> mconn \<Rightarrow> string + mux_sess \<Rightarrow> nat \<rightharpoonup> nat" where
  "made_by w h c i =
     (if starts w h c
      then (case i of Inl _ \<Rightarrow> mw_made w
            | Inr s \<Rightarrow> (case ms_session s of None \<Rightarrow> mw_made w | Some sid \<Rightarrow> (mw_made w)(sid \<mapsto> root c)))
      else mw_made w)"

text \<open>Closing a session closes the connection under it.\<close>

definition after_handshake :: "mux_world \<Rightarrow> string \<Rightarrow> mconn \<Rightarrow> string + mux_sess \<Rightarrow> mux_state \<Rightarrow> mux_world" where
  "after_handshake w h c i st =
     w\<lparr>mw_st := st, mw_made := made_by w h c i,
       mw_dead := mw_dead w \<union> set (mx_ended st),
       mw_down := mw_down w \<union> root ` set (mx_closed st) \<union>
                  {n. \<exists>sid \<in> set (mx_ended st). made_by w h c i sid = Some n},
       mw_pending := mw_pending w - {#c#}\<rparr>"

inductive mux_step :: "string set \<Rightarrow> string \<Rightarrow> mux_world \<Rightarrow> mux_world \<Rightarrow> bool" for D h where
  dial: "\<lbrakk> d \<in> D; n \<notin> mw_opened w;
          mux_Dial (\<lambda>sid. sid \<in> mw_dead w) (Inr (Raw n)) d (mw_st w) = (Inr c, st) \<rbrakk> \<Longrightarrow>
         mux_step D h w (w\<lparr>mw_st := st, mw_opened := insert (root c) (mw_opened w),
                            mw_pending := mw_pending w + {#c#}\<rparr>)"
| dial_fails: "\<lbrakk> d \<in> D; mux_Dial (\<lambda>sid. sid \<in> mw_dead w) (Inl e) d (mw_st w) = (Inl e, st) \<rbrakk> \<Longrightarrow>
         mux_step D h w (w\<lparr>mw_st := st\<rparr>)"
| handshake: "\<lbrakk> c \<in># mw_pending w; init_ok w c i;
          mux_Handshake msg (\<lambda>_. i) (\<lambda>_. g) h c (mw_st w) = (r, st);
          \<And>y s. r = Inr y \<Longrightarrow> mx_sessions st h = Some s \<Longrightarrow> root (ms_conn s) \<notin> mw_down w \<rbrakk> \<Longrightarrow>
         mux_step D h w (after_handshake w h c i st)"
| dies: "mw_made w sid = Some n \<Longrightarrow>
         mux_step D h w (w\<lparr>mw_dead := insert sid (mw_dead w), mw_down := insert n (mw_down w)\<rparr>)"

inductive mux_run :: "string set \<Rightarrow> string \<Rightarrow> mux_world \<Rightarrow> bool" for D h where
  start: "mux_run D h mw_init"
| step: "mux_run D h w \<Longrightarrow> mux_step D h w w' \<Longrightarrow> mux_run D h w'"

text \<open>The sessions of the three dialers are of the kind the history allows.\<close>

lemma new_session_ok:
  assumes "\<And>sid. mux c' = Inr sid \<Longrightarrow> mw_made w sid = None \<and> sid \<notin> mw_dead w" and "root c' = root c"
  shows "init_ok w c (new_session mux c')"
  using assms by (auto simp: new_session_def init_ok_def split: sum.splits)

lemma initSession_ok:
  assumes "\<And>c' sid. mux c' = Inr sid \<Longrightarrow> mw_made w sid = None \<and> sid \<notin> mw_dead w"
    and "\<And>c c'. over c = Inr c' \<Longrightarrow> root c' = root c"
  shows "init_ok w c (mtcp_initSession mux c)" "init_ok w c (mtls_initSession over mux c)"
    "init_ok w c (mws_initSession secure md (\<lambda>_. over) mux addr c)"
proof -
  show "init_ok w c (mtcp_initSession mux c)"
    using assms(1) by (simp add: mtcp_initSession_def new_session_ok)
  show "init_ok w c (mtls_initSession over mux c)"
    using assms by (auto simp: mtls_initSession_def init_ok_def [of w c "Inl _"] intro!: new_session_ok split: sum.splits)
  show "init_ok w c (mws_initSession secure md (\<lambda>_. over) mux addr c)"
    using assms by (auto simp: mws_initSession_def init_ok_def [of w c "Inl _"] intro!: new_session_ok split: sum.splits)
qed

section \<open>The invariant\<close>

text \<open>
  When the address of the node is dialled as it is, one entry of the table matters, \<open>e\<close>. The parts of
  the invariant: every session that is not closed is the one of the entry; an entry without a session
  has a caller that will come back for it; a caller whose connection still works either shares the one
  of the entry or is alone on it.
\<close>

definition made_ok :: "mux_sess option \<Rightarrow> nat set \<Rightarrow> nat set \<Rightarrow> (nat \<rightharpoonup> nat) \<Rightarrow> bool" where
  "made_ok e down dead made \<longleftrightarrow>
     (\<forall>sid n. made sid = Some n \<longrightarrow>
        (if sid \<in> dead then n \<in> down
         else n \<notin> down \<and> (\<exists>s. e = Some s \<and> ms_session s = Some sid)))"

definition entry_ok :: "mux_sess option \<Rightarrow> mconn multiset \<Rightarrow> (nat \<rightharpoonup> nat) \<Rightarrow> nat set \<Rightarrow> bool" where
  "entry_ok e P made opened \<longleftrightarrow>
     (\<forall>s. e = Some s \<longrightarrow> root (ms_conn s) \<in> opened \<and>
        (case ms_session s of None \<Rightarrow> ms_conn s \<in># P | Some sid \<Rightarrow> made sid = Some (root (ms_conn s))))"

definition shares :: "mux_sess option \<Rightarrow> mconn \<Rightarrow> bool" where
  "shares e c \<longleftrightarrow> (\<exists>s. e = Some s \<and> ms_conn s = c \<and> ms_session s \<noteq> None)"

definition alone :: "mux_sess option \<Rightarrow> mconn multiset \<Rightarrow> mconn \<Rightarrow> bool" where
  "alone e P c \<longleftrightarrow> size (filter_mset (\<lambda>c'. root c' = root c) P) = 1 \<and>
     (\<forall>s. e = Some s \<longrightarrow> ms_session s \<noteq> None \<longrightarrow> root (ms_conn s) \<noteq> root c)"

definition pending_ok :: "mux_sess option \<Rightarrow> mconn multiset \<Rightarrow> nat set \<Rightarrow> nat set \<Rightarrow> bool" where
  "pending_ok e P down opened \<longleftrightarrow>
     (\<forall>c. c \<in># P \<longrightarrow> root c \<in> opened \<and> (root c \<notin> down \<longrightarrow> shares e c \<or> alone e P c))"

definition accounted :: "mux_sess option \<Rightarrow> mconn multiset \<Rightarrow> nat set \<Rightarrow> nat set \<Rightarrow> bool" where
  "accounted e P down opened \<longleftrightarrow>
     (\<forall>n. n \<in> opened \<longrightarrow> n \<in> down \<or> (\<exists>s. e = Some s \<and> root (ms_conn s) = n) \<or> (\<exists>c. c \<in># P \<and> root c = n))"

definition mux_inv :: "mux_sess option \<Rightarrow> mconn multiset \<Rightarrow> nat set \<Rightarrow> nat set \<Rightarrow> (nat \<rightharpoonup> nat) \<Rightarrow> nat set \<Rightarrow> bool" where
  "mux_inv e P down dead made opened \<longleftrightarrow>
     made_ok e down dead made \<and> entry_ok e P made opened \<and> pending_ok e P down opened \<and>
     accounted e P down opened"

lemmas mux_inv_defs = mux_inv_def made_ok_def entry_ok_def pending_ok_def accounted_def

text \<open>A new connection is filed: the entry there was is without a session, or its session is closed.\<close>

lemma alone_add: "root c \<noteq> n \<Longrightarrow> alone e P c \<Longrightarrow> alone (Some \<lparr>ms_conn = Raw n, ms_session = None\<rparr>) (add_mset (Raw n) P) c"
  by (auto simp: alone_def)

lemma alone_new: "\<forall>c. c \<in># P \<longrightarrow> root c \<noteq> n \<Longrightarrow> alone (Some \<lparr>ms_conn = Raw n, ms_session = None\<rparr>) (add_mset (Raw n) P) (Raw n)"
  by (auto simp: alone_def)

lemma dead_entry_down:
  assumes "mux_inv e P down dead made opened" "e = Some s" "ms_session s = Some sid" "sid \<in> dead"
  shows "root (ms_conn s) \<in> down"
  using assms by (fastforce simp: mux_inv_defs)

lemma live_entry_up:
  assumes "mux_inv e P down dead made opened" "e = Some s" "ms_session s = Some sid" "sid \<notin> dead"
  shows "root (ms_conn s) \<notin> down"
  using assms by (fastforce simp: mux_inv_defs)

lemma made_dead:
  assumes "mux_inv e P down dead made opened" "made sid = Some m" "sid \<in> dead"
  shows "m \<in> down"
  using assms unfolding mux_inv_def made_ok_def by metis

lemma made_live:
  assumes "mux_inv e P down dead made opened" "made sid = Some m" "sid \<notin> dead"
  shows "m \<notin> down \<and> (\<exists>s. e = Some s \<and> ms_session s = Some sid)"
  using assms unfolding mux_inv_def made_ok_def by metis

definition all_dead :: "mux_sess option \<Rightarrow> nat set \<Rightarrow> bool" where
  "all_dead e dead \<longleftrightarrow> (\<forall>s sid. e = Some s \<longrightarrow> ms_session s = Some sid \<longrightarrow> sid \<in> dead)"

lemma all_dead_made:
  assumes "mux_inv e P down dead made opened" "all_dead e dead"
  shows "made_ok e' down dead made"
proof -
  have "sid \<in> dead \<and> m \<in> down" if "made sid = Some m" for sid m
    using made_dead [OF assms(1) that] made_live [OF assms(1) that] assms(2)
    unfolding all_dead_def by blast
  then show ?thesis by (simp add: made_ok_def)
qed

lemma all_dead_alone:
  assumes "mux_inv e P down dead made opened" "all_dead e dead" "c \<in># P" "root c \<notin> down"
  shows "alone e P c"
proof -
  have "\<not> shares e c"
    using assms dead_entry_down [OF assms(1)] unfolding shares_def all_dead_def by blast
  then show ?thesis using assms by (auto simp: mux_inv_defs)
qed

lemma all_dead_entry:
  assumes "mux_inv e P down dead made opened" "all_dead e dead" "e = Some s"
  shows "root (ms_conn s) \<in> down \<or> ms_conn s \<in># P"
  using assms dead_entry_down [OF assms(1,3)] by (cases "ms_session s") (auto simp: mux_inv_defs all_dead_def)

lemma mux_inv_file:
  assumes inv: "mux_inv e P down dead made opened" and n: "n \<notin> opened" and e: "all_dead e dead"
  shows "mux_inv (Some \<lparr>ms_conn = Raw n, ms_session = None\<rparr>) (add_mset (Raw n) P) down dead made (insert n opened)"
proof -
  let ?e = "Some \<lparr>ms_conn = Raw n, ms_session = None\<rparr>"
  have pend: "root c \<in> opened" if "c \<in># P" for c using inv that by (auto simp: mux_inv_defs)
  have "pending_ok ?e (add_mset (Raw n) P) down (insert n opened)"
    using pend n all_dead_alone [OF inv e] by (auto simp: pending_ok_def intro!: alone_add alone_new)
  moreover have "entry_ok ?e (add_mset (Raw n) P) made (insert n opened)"
    by (simp add: entry_ok_def)
  moreover have "accounted ?e (add_mset (Raw n) P) down (insert n opened)"
    using inv all_dead_entry [OF inv e] by (auto simp: mux_inv_def accounted_def)
  ultimately show ?thesis using all_dead_made [OF inv e] by (simp add: mux_inv_def)
qed

text \<open>The entry is dropped because its session is closed or nobody answers the dial.\<close>

lemma mux_inv_drop:
  assumes inv: "mux_inv e P down dead made opened" and e: "all_dead e dead"
  shows "mux_inv None P down dead made opened"
proof -
  have "pending_ok None P down opened"
    using inv all_dead_alone [OF inv e] by (auto simp: mux_inv_def pending_ok_def alone_def)
  moreover have "accounted None P down opened"
    using inv all_dead_entry [OF inv e] by (auto simp: mux_inv_def accounted_def)
  ultimately show ?thesis using all_dead_made [OF inv e] by (simp add: mux_inv_def entry_ok_def)
qed

text \<open>The connection of a live session is handed out once more.\<close>

lemma mux_inv_reuse:
  assumes inv: "mux_inv (Some s) P down dead made opened" and s: "ms_session s = Some sid" "sid \<notin> dead"
  shows "mux_inv (Some s) (add_mset (ms_conn s) P) down dead made (insert (root (ms_conn s)) opened)"
proof -
  have "root (ms_conn s) \<in> opened" using inv by (simp add: mux_inv_defs)
  moreover have "pending_ok (Some s) (add_mset (ms_conn s) P) down opened"
    using inv s by (auto simp: mux_inv_defs shares_def alone_def)
  moreover have "entry_ok (Some s) (add_mset (ms_conn s) P) made opened"
    using inv by (auto simp: mux_inv_defs split: option.splits)
  moreover have "accounted (Some s) (add_mset (ms_conn s) P) down opened"
    using inv by (auto simp: mux_inv_defs)
  ultimately show ?thesis using inv by (auto simp: mux_inv_def insert_absorb)
qed

text \<open>A session ends from outside.\<close>

lemma mux_inv_die:
  assumes inv: "mux_inv e P down dead made opened" and m: "made sid = Some n"
  shows "mux_inv e P (insert n down) (insert sid dead) made opened"
proof -
  have one: "sid' = sid" if "made sid' = Some n" "sid' \<notin> dead" for sid'
    using made_dead [OF inv m] made_live [OF inv m] made_live [OF inv that] by fastforce
  have "made_ok e (insert n down) (insert sid dead) made"
  proof -
    have "m \<in> insert n down" if "made sd = Some m" "sd \<in> insert sid dead" for sd m
      using made_dead [OF inv that(1)] that m by auto
    moreover have "m \<notin> insert n down \<and> (\<exists>s. e = Some s \<and> ms_session s = Some sd)"
      if "made sd = Some m" "sd \<notin> insert sid dead" for sd m
      using made_live [OF inv that(1)] that one by auto
    ultimately show ?thesis unfolding made_ok_def by simp
  qed
  then show ?thesis using inv by (auto simp: mux_inv_def entry_ok_def pending_ok_def accounted_def)
qed

text \<open>A caller leaves; its connection is shared, or broken.\<close>

lemma size_filter_diff:
  "\<not> Q c \<Longrightarrow> size (filter_mset Q (P - {#c#})) = size (filter_mset Q P)"
  by (simp add: filter_diff_mset)

lemma alone_diff:
  assumes "root c' \<noteq> root c" "alone e P c'"
  shows "alone e (P - {#c#}) c'"
  using assms by (simp add: alone_def size_filter_diff)

lemma alone_once:
  assumes "alone e P c" "c \<in># P"
  shows "\<forall>c'. c' \<in># P - {#c#} \<longrightarrow> root c' \<noteq> root c"
proof (intro allI impI notI)
  fix c' assume c': "c' \<in># P - {#c#}" and r: "root c' = root c"
  have "P = add_mset c (P - {#c#})" using assms(2) by simp
  moreover have "P - {#c#} = add_mset c' (P - {#c#} - {#c'#})" by (rule insert_DiffM [OF c', symmetric])
  ultimately have P: "P = add_mset c (add_mset c' (P - {#c#} - {#c'#}))" by metis
  have "size (filter_mset (\<lambda>x. root x = root c) P) = 1" using assms(1) by (simp add: alone_def)
  then show False by (subst (asm) P) (simp add: r)
qed

lemma stays_pending: "x \<in># P \<Longrightarrow> x \<noteq> c \<Longrightarrow> x \<in># P - {#c#}"
  by (simp add: in_diff_count)

lemma accounted_leave:
  assumes "accounted e P down opened" and "root c \<in> down' \<or> (\<exists>s. e' = Some s \<and> root (ms_conn s) = root c)"
    and "down \<subseteq> down'" and "\<And>s. e = Some s \<Longrightarrow> e' = e \<or> root (ms_conn s) = root c"
  shows "accounted e' (P - {#c#}) down' opened"
  unfolding accounted_def
proof (intro allI impI)
  fix n assume "n \<in> opened"
  then consider "n \<in> down" | s where "e = Some s" "root (ms_conn s) = n" | x where "x \<in># P" "root x = n"
    using assms(1) unfolding accounted_def by blast
  then show "n \<in> down' \<or> (\<exists>s. e' = Some s \<and> root (ms_conn s) = n) \<or> (\<exists>x. x \<in># P - {#c#} \<and> root x = n)"
  proof cases
    case 3
    show ?thesis
    proof (cases "x = c")
      case False
      then show ?thesis using stays_pending [OF 3(1)] 3(2) by blast
    qed (use assms(2) 3 in auto)
  qed (use assms in auto)
qed

lemma mux_inv_leave:
  assumes inv: "mux_inv e P down dead made opened" and c: "c \<in># P"
    and up: "\<And>s sid. e = Some s \<Longrightarrow> ms_session s = Some sid \<Longrightarrow> sid \<notin> dead \<Longrightarrow> root (ms_conn s) \<noteq> root c"
    and other: "\<And>s. e = Some s \<Longrightarrow> ms_conn s \<noteq> c"
  shows "mux_inv e (P - {#c#}) (insert (root c) down) dead made opened"
proof -
  have P: "x \<in># P" if "x \<in># P - {#c#}" for x using that by (rule in_diffD)
  have "made_ok e (insert (root c) down) dead made"
  proof -
    have "m \<noteq> root c" if live: "made sd = Some m" "sd \<notin> dead" for sd m
    proof -
      obtain s where s: "e = Some s" "ms_session s = Some sd" using made_live [OF inv live] by blast
      then have "made sd = Some (root (ms_conn s))" using inv by (simp add: mux_inv_def entry_ok_def)
      then show ?thesis using live up [OF s] by simp
    qed
    then show ?thesis
      unfolding made_ok_def using made_dead [OF inv] made_live [OF inv] by simp
  qed
  moreover have "entry_ok e (P - {#c#}) made opened"
    using inv other by (auto simp: mux_inv_def entry_ok_def in_diff_count split: option.splits)
  moreover have "pending_ok e (P - {#c#}) (insert (root c) down) opened"
    using inv P by (auto simp: mux_inv_def pending_ok_def intro: alone_diff)
  moreover have "accounted e (P - {#c#}) (insert (root c) down) opened"
    using inv by (auto simp: mux_inv_def intro: accounted_leave)
  ultimately show ?thesis by (simp add: mux_inv_def)
qed

text \<open>A session is started and stays, or is closed at once.\<close>

lemma mux_inv_establish:
  assumes inv: "mux_inv e P down dead made opened" and c: "c \<in># P" and e: "\<And>s. e = Some s \<Longrightarrow> ms_session s = None"
    and eq: "\<And>s. e = Some s \<Longrightarrow> ms_conn s = c"
    and new: "made sid = None" "sid \<notin> dead" and r: "root (ms_conn s') = root c" "ms_session s' = Some sid"
    and up: "root c \<notin> down"
  shows "mux_inv (Some s') (P - {#c#}) down dead (made(sid \<mapsto> root c)) opened"
proof -
  have all: "all_dead e dead" using e by (simp add: all_dead_def)
  have dead: "sd \<in> dead" if m: "made sd = Some m" for sd m
    using made_live [OF inv m] e by fastforce
  have once: "\<forall>c'. c' \<in># P - {#c#} \<longrightarrow> root c' \<noteq> root c"
    using all_dead_alone [OF inv all c up] c by (rule alone_once)
  have "made_ok (Some s') down dead (made(sid \<mapsto> root c))"
    unfolding made_ok_def using new r up made_dead [OF inv] dead by simp
  moreover have "entry_ok (Some s') (P - {#c#}) (made(sid \<mapsto> root c)) opened"
    using inv c r by (simp add: mux_inv_def entry_ok_def pending_ok_def)
  moreover have "pending_ok (Some s') (P - {#c#}) down opened"
  proof -
    have "root c' \<in> opened \<and> (root c' \<notin> down \<longrightarrow> alone (Some s') (P - {#c#}) c')" if c': "c' \<in># P - {#c#}" for c'
    proof -
      have p: "c' \<in># P" using c' by (rule in_diffD)
      have ne: "root c' \<noteq> root c" using once c' by blast
      have "alone (Some s') (P - {#c#}) c'" if "root c' \<notin> down"
        using alone_diff [OF ne all_dead_alone [OF inv all p that]] ne r by (auto simp: alone_def)
      then show ?thesis using inv p by (simp add: mux_inv_def pending_ok_def)
    qed
    then show ?thesis by (simp add: pending_ok_def)
  qed
  moreover have "accounted (Some s') (P - {#c#}) down opened"
    using inv r eq unfolding mux_inv_def by (auto intro!: accounted_leave [of e P down])
  ultimately show ?thesis by (simp add: mux_inv_def)
qed

lemma mux_inv_dead_session:
  assumes inv: "mux_inv e P down dead made opened" and new: "made sid = None" "n \<in> down"
  shows "mux_inv e P down (insert sid dead) (made(sid \<mapsto> n)) opened"
proof -
  have "made_ok e down (insert sid dead) (made(sid \<mapsto> n))"
    using inv new unfolding mux_inv_def made_ok_def by auto
  moreover have "entry_ok e P (made(sid \<mapsto> n)) opened"
    using inv new by (auto simp: mux_inv_def entry_ok_def split: option.splits)
  ultimately show ?thesis using inv by (simp add: mux_inv_def)
qed

lemma mux_inv_share:
  assumes inv: "mux_inv (Some s) P down dead made opened" and s: "ms_session s = Some sid"
    and up: "root (ms_conn s) \<notin> down"
  shows "mux_inv (Some s) (P - {#ms_conn s#}) down dead made opened"
proof -
  let ?P = "P - {#ms_conn s#}"
  have P: "x \<in># P" if "x \<in># ?P" for x using that by (rule in_diffD)
  have "shares (Some s) c' \<or> alone (Some s) ?P c'" if c': "c' \<in># ?P" "root c' \<notin> down" for c'
  proof -
    have "shares (Some s) c' \<or> alone (Some s) P c'"
      using inv P c' by (simp add: mux_inv_def pending_ok_def)
    then show ?thesis
    proof
      assume a: "alone (Some s) P c'"
      then have "root c' \<noteq> root (ms_conn s)" using s by (auto simp: alone_def)
      then show ?thesis using alone_diff a by blast
    qed simp
  qed
  then have "pending_ok (Some s) ?P down opened"
    using inv P by (simp add: mux_inv_def pending_ok_def)
  moreover have "entry_ok (Some s) ?P made opened"
    using inv s by (simp add: mux_inv_def entry_ok_def)
  moreover have "accounted (Some s) ?P down opened"
    using inv unfolding mux_inv_def by (auto intro!: accounted_leave [of "Some s" P down])
  ultimately show ?thesis using inv by (simp add: mux_inv_def)
qed

section \<open>Histories keep the invariant\<close>

lemma Dial_cases:
  assumes "mux_Dial dead dialled h st = (r, st')"
  obtains (shared) s sid where "mx_sessions st h = Some s" "ms_session s = Some sid" "\<not> dead sid"
      "r = Inr (ms_conn s)" "st' = st"
  | (filed) c where "dialled = Inr c" "r = Inr c" "all_dead (mx_sessions st h) {sid. dead sid}"
      "st' = st\<lparr>mx_sessions := (mx_sessions st)(h \<mapsto> \<lparr>ms_conn = c, ms_session = None\<rparr>)\<rparr>"
  | (failed) e where "dialled = Inl e" "r = Inl e" "all_dead (mx_sessions st h) {sid. dead sid}"
      "st' = st\<lparr>mx_sessions := (mx_sessions st)(h := None)\<rparr>"
  using assms
  by (auto simp: mux_Dial_def mux_IsClosed_def all_dead_def fun_upd_idem split: option.splits sum.splits if_splits)

lemma Handshake_cases:
  assumes "mux_Handshake msg (\<lambda>_. i) (\<lambda>_. g) h c st = (r, st')"
  obtains (refused) s where "mx_sessions st h = Some s" "ms_conn s \<noteq> c" "r = Inl msg"
      "st' = st\<lparr>mx_closed := c # mx_closed st\<rparr>"
  | (not_started) e where "mx_sessions st h = None \<or> (\<exists>s. mx_sessions st h = Some s \<and> ms_conn s = c \<and> ms_session s = None)"
      "i = Inl e" "st' = st\<lparr>mx_closed := c # mx_closed st, mx_sessions := (mx_sessions st)(h := None)\<rparr>" "r = Inl e"
  | (started) s where "mx_sessions st h = None \<or> (\<exists>s. mx_sessions st h = Some s \<and> ms_conn s = c \<and> ms_session s = None)"
      "i = Inr s" "(r, st') = mux_open (\<lambda>_. g) h s (st\<lparr>mx_sessions := (mx_sessions st)(h \<mapsto> s)\<rparr>)"
  | (open_) s sid where "mx_sessions st h = Some s" "ms_conn s = c" "ms_session s = Some sid"
      "(r, st') = mux_open (\<lambda>_. g) h s st"
  using assms
  by (auto simp: mux_Handshake_def mux_start_def split: option.splits sum.splits if_splits)

definition world_inv :: "string \<Rightarrow> mux_world \<Rightarrow> bool" where
  "world_inv h w \<longleftrightarrow>
     mux_inv (mx_sessions (mw_st w) h) (mw_pending w) (mw_down w) (mw_dead w) (mw_made w) (mw_opened w) \<and>
     set (mx_ended (mw_st w)) \<subseteq> mw_dead w \<and> root ` set (mx_closed (mw_st w)) \<subseteq> mw_down w"

lemma world_inv_init: "world_inv h mw_init"
  by (simp add: world_inv_def mw_init_def mux_empty_def mux_inv_defs)

lemma world_inv_dial:
  assumes inv: "world_inv h w" and n: "n \<notin> mw_opened w"
    and d: "mux_Dial (\<lambda>sid. sid \<in> mw_dead w) (Inr (Raw n)) h (mw_st w) = (Inr c, st)"
  shows "world_inv h (w\<lparr>mw_st := st, mw_opened := insert (root c) (mw_opened w), mw_pending := mw_pending w + {#c#}\<rparr>)"
  using d
proof (cases rule: Dial_cases)
  case (shared s sid)
  then show ?thesis using inv mux_inv_reuse by (simp add: world_inv_def)
next
  case (filed c')
  then show ?thesis using inv n by (auto simp: world_inv_def intro: mux_inv_file)
qed simp

lemma world_inv_dial_fails:
  assumes inv: "world_inv h w"
    and d: "mux_Dial (\<lambda>sid. sid \<in> mw_dead w) (Inl e) h (mw_st w) = (Inl e, st)"
  shows "world_inv h (w\<lparr>mw_st := st\<rparr>)"
  using d
proof (cases rule: Dial_cases)
  case (failed e')
  then show ?thesis using inv by (auto simp: world_inv_def intro: mux_inv_drop)
qed simp_all

text \<open>What a handshake adds to the closed connections and sessions.\<close>

lemma after_handshake_sets:
  assumes inv: "world_inv h w" and made: "\<And>sid. sid \<in> mw_dead w \<Longrightarrow> made_by w h c i sid = mw_made w sid"
    and st: "mx_closed st = cs @ mx_closed (mw_st w)" "mx_ended st = es @ mx_ended (mw_st w)"
  shows "mw_dead (after_handshake w h c i st) = mw_dead w \<union> set es"
    "mw_down (after_handshake w h c i st) =
     mw_down w \<union> root ` set cs \<union> {n. \<exists>sid \<in> set es. made_by w h c i sid = Some n}"
proof -
  have e: "set (mx_ended (mw_st w)) \<subseteq> mw_dead w" and d: "root ` set (mx_closed (mw_st w)) \<subseteq> mw_down w"
    and m: "mux_inv (mx_sessions (mw_st w) h) (mw_pending w) (mw_down w) (mw_dead w) (mw_made w) (mw_opened w)"
    using inv by (simp_all add: world_inv_def)
  show "mw_dead (after_handshake w h c i st) = mw_dead w \<union> set es"
    using e st by (auto simp: after_handshake_def)
  have "n \<in> mw_down w" if "sid \<in> set (mx_ended (mw_st w))" "made_by w h c i sid = Some n" for sid n
    using made_dead [OF m] made e that by fastforce
  then show "mw_down (after_handshake w h c i st) =
     mw_down w \<union> root ` set cs \<union> {n. \<exists>sid \<in> set es. made_by w h c i sid = Some n}"
    using d st by (auto simp: after_handshake_def image_Un)
qed

lemma made_by_dead: "init_ok w c i \<Longrightarrow> sid \<in> mw_dead w \<Longrightarrow> made_by w h c i sid = mw_made w sid"
  by (auto simp: made_by_def init_ok_def split: sum.splits option.splits)

lemma after_handshake_rest [simp]:
  "mw_st (after_handshake w h c i st) = st" "mw_made (after_handshake w h c i st) = made_by w h c i"
  "mw_pending (after_handshake w h c i st) = mw_pending w - {#c#}" "mw_opened (after_handshake w h c i st) = mw_opened w"
  by (simp_all add: after_handshake_def)

text \<open>So the invariant of the new world is one about the entry, and what was closed.\<close>

lemma world_inv_after:
  assumes inv: "world_inv h w" and i: "init_ok w c i"
    and st: "mx_closed st = cs @ mx_closed (mw_st w)" "mx_ended st = es @ mx_ended (mw_st w)"
    and new: "mux_inv (mx_sessions st h) (mw_pending w - {#c#})
                (mw_down w \<union> root ` set cs \<union> {n. \<exists>sid \<in> set es. made_by w h c i sid = Some n})
                (mw_dead w \<union> set es) (made_by w h c i) (mw_opened w)"
  shows "world_inv h (after_handshake w h c i st)"
proof -
  have e: "mw_dead (after_handshake w h c i st) = mw_dead w \<union> set es"
    and d: "mw_down (after_handshake w h c i st) =
      mw_down w \<union> root ` set cs \<union> {n. \<exists>sid \<in> set es. made_by w h c i sid = Some n}"
    using after_handshake_sets [OF inv _ st] made_by_dead [OF i] by blast+
  have "set (mx_ended st) \<subseteq> mw_dead w \<union> set es" using inv st by (auto simp: world_inv_def)
  moreover have "root ` set (mx_closed st) \<subseteq> mw_down w \<union> root ` set cs"
    using inv st by (auto simp: world_inv_def)
  ultimately show ?thesis using new by (auto simp: world_inv_def e d)
qed

lemma mux_inv_unrecognized:
  assumes inv: "mux_inv (Some s) P down dead made opened" and c: "c \<in># P" and ne: "ms_conn s \<noteq> c"
  shows "mux_inv (Some s) (P - {#c#}) (insert (root c) down) dead made opened"
proof (rule mux_inv_leave [OF inv c])
  fix s' sid assume s: "Some s = Some s'" "ms_session s' = Some sid" "sid \<notin> dead"
  show "root (ms_conn s') \<noteq> root c"
  proof
    assume r: "root (ms_conn s') = root c"
    then have "root c \<notin> down" using live_entry_up [OF inv s] by simp
    then have "shares (Some s) c \<or> alone (Some s) P c" using inv c by (simp add: mux_inv_def pending_ok_def)
    then show False using ne r s by (auto simp: shares_def alone_def)
  qed
qed (use ne in simp)

lemma world_inv_handshake:
  assumes inv: "world_inv h w" and c: "c \<in># mw_pending w" and i: "init_ok w c i"
    and hs: "mux_Handshake msg (\<lambda>_. i) (\<lambda>_. g) h c (mw_st w) = (r, st)"
    and up: "\<And>y s. r = Inr y \<Longrightarrow> mx_sessions st h = Some s \<Longrightarrow> root (ms_conn s) \<notin> mw_down w"
  shows "world_inv h (after_handshake w h c i st)"
proof -
  have m: "mux_inv (mx_sessions (mw_st w) h) (mw_pending w) (mw_down w) (mw_dead w) (mw_made w) (mw_opened w)"
    using inv by (simp add: world_inv_def)
  show ?thesis
    using hs
  proof (cases rule: Handshake_cases)
    case (refused s)
    then have "made_by w h c i = mw_made w" by (auto simp: made_by_def starts_def)
    then show ?thesis
      using refused m by (auto intro!: world_inv_after [OF inv i, where cs = "[c]" and es = "[]"] mux_inv_unrecognized [OF _ c])
  next
    case (not_started e)
    have none: "all_dead (mx_sessions (mw_st w) h) (mw_dead w)" using not_started(1) by (auto simp: all_dead_def)
    have "made_by w h c i = mw_made w" using not_started by (auto simp: made_by_def)
    moreover have "mux_inv None (mw_pending w - {#c#}) (insert (root c) (mw_down w)) (mw_dead w) (mw_made w) (mw_opened w)"
      by (rule mux_inv_leave [OF mux_inv_drop [OF m none] c]) simp_all
    ultimately show ?thesis
      using not_started(3) by (intro world_inv_after [OF inv i, where cs = "[c]" and es = "[]"]) simp_all
  next
    case (started s)
    obtain sid where s: "root (ms_conn s) = root c" "ms_session s = Some sid" "mw_made w sid = None" "sid \<notin> mw_dead w"
      using i started(2) by (auto simp: init_ok_def split: option.splits)
    have made: "made_by w h c i = (mw_made w)(sid \<mapsto> root c)"
      using started s by (auto simp: made_by_def starts_def)
    have none: "all_dead (mx_sessions (mw_st w) h) (mw_dead w)" using started(1) by (auto simp: all_dead_def)
    show ?thesis
    proof (cases g)
      case (Inl e)
      have "mux_inv None (mw_pending w - {#c#}) (insert (root c) (mw_down w)) (mw_dead w) (mw_made w) (mw_opened w)"
        by (rule mux_inv_leave [OF mux_inv_drop [OF m none] c]) simp_all
      then have "mux_inv None (mw_pending w - {#c#}) (insert (root c) (mw_down w)) (insert sid (mw_dead w))
          ((mw_made w)(sid \<mapsto> root c)) (mw_opened w)"
        using s by (auto intro: mux_inv_dead_session)
      then show ?thesis
        using started(3) Inl s made
        by (auto simp: mux_open_def mux_Close_def intro!: world_inv_after [OF inv i, where cs = "[]" and es = "[sid]"])
    next
      case (Inr y)
      then have o: "r = Inr y" "st = (mw_st w)\<lparr>mx_sessions := (mx_sessions (mw_st w))(h \<mapsto> s)\<rparr>"
        using started(3) s by (simp_all add: mux_open_def)
      then have "root c \<notin> mw_down w" using up s by fastforce
      then have "mux_inv (Some s) (mw_pending w - {#c#}) (mw_down w) (mw_dead w) ((mw_made w)(sid \<mapsto> root c)) (mw_opened w)"
        by (intro mux_inv_establish [OF m c]) (use started(1) s in auto)
      then show ?thesis
        using o made by (auto intro!: world_inv_after [OF inv i, where cs = "[]" and es = "[]"])
    qed
  next
    case (open_ s sid)
    have made: "made_by w h c i = mw_made w" using open_ by (auto simp: made_by_def starts_def)
    have ms: "mw_made w sid = Some (root c)" using m open_ by (auto simp: mux_inv_def entry_ok_def)
    show ?thesis
    proof (cases g)
      case (Inl e)
      have "mux_inv (mx_sessions (mw_st w) h) (mw_pending w) (insert (root c) (mw_down w)) (insert sid (mw_dead w)) (mw_made w) (mw_opened w)"
        using m ms by (rule mux_inv_die)
      then have "mux_inv None (mw_pending w) (insert (root c) (mw_down w)) (insert sid (mw_dead w)) (mw_made w) (mw_opened w)"
        by (rule mux_inv_drop) (use open_ in \<open>simp add: all_dead_def\<close>)
      then have "mux_inv None (mw_pending w - {#c#}) (insert (root c) (insert (root c) (mw_down w))) (insert sid (mw_dead w)) (mw_made w) (mw_opened w)"
        by (rule mux_inv_leave [OF _ c]) simp_all
      moreover have "st = (mw_st w)\<lparr>mx_ended := sid # mx_ended (mw_st w), mx_sessions := (mx_sessions (mw_st w))(h := None)\<rparr>"
        using open_ Inl by (simp add: mux_open_def mux_Close_def)
      ultimately show ?thesis
        using ms made by (intro world_inv_after [OF inv i, where cs = "[]" and es = "[sid]"]) simp_all
    next
      case (Inr y)
      then have o: "r = Inr y" "st = mw_st w" using open_ by (simp_all add: mux_open_def)
      then have "root (ms_conn s) \<notin> mw_down w" using up open_ by fastforce
      then have "mux_inv (Some s) (mw_pending w - {#c#}) (mw_down w) (mw_dead w) (mw_made w) (mw_opened w)"
        using mux_inv_share [of s] m open_ by auto
      then show ?thesis
        using o made open_(1,2) by (intro world_inv_after [OF inv i, where cs = "[]" and es = "[]"]) simp_all
    qed
  qed
qed

lemma world_inv_dies:
  assumes inv: "world_inv h w" and m: "mw_made w sid = Some n"
  shows "world_inv h (w\<lparr>mw_dead := insert sid (mw_dead w), mw_down := insert n (mw_down w)\<rparr>)"
  using inv m by (auto simp: world_inv_def intro: mux_inv_die)

lemma mux_step_inv:
  assumes "mux_step {h} h w w'" "world_inv h w"
  shows "world_inv h w'"
  using assms
proof (induction rule: mux_step.induct)
  case (dial d n w c st)
  then show ?case using world_inv_dial [of h w n c st] by simp
next
  case (handshake c w i g r st)
  then show ?case by (intro world_inv_handshake)
qed (auto intro: world_inv_dial_fails world_inv_dies)

lemma mux_run_inv: "mux_run {h} h w \<Longrightarrow> world_inv h w"
  by (induction rule: mux_run.induct) (auto intro: world_inv_init mux_step_inv)

lemma live_session_up:
  assumes "mux_run {h} h w" and "mx_sessions (mw_st w) h = Some s" "ms_session s = Some sid" "sid \<notin> mw_dead w"
  shows "root (ms_conn s) \<notin> root ` set (mx_closed (mw_st w))"
proof -
  have "world_inv h w" using assms(1) by (rule mux_run_inv)
  then show ?thesis
    using assms live_entry_up [of "Some s"] unfolding world_inv_def by (metis subsetD)
qed

lemma connection_accounted:
  assumes "mux_run {h} h w" and "n \<in> mw_opened w"
  shows "n \<in> mw_down w \<or> (\<exists>s. mx_sessions (mw_st w) h = Some s \<and> root (ms_conn s) = n) \<or>
         (\<exists>c. c \<in># mw_pending w \<and> root c = n)"
  using mux_run_inv [OF assms(1)] assms(2) by (auto simp: world_inv_def mux_inv_def accounted_def)

text \<open>
  (C6) A connection is never closed while a session runs over it: whatever the order in which callers
  dial, handshake and fail, and whichever sessions end meanwhile, the connections \<open>Handshake\<close> closes
  are not the one under the session in the table, as long as that session is not closed. It is
  \<open>IsClosed\<close> being true of an entry without a session that gives this: nobody else gets the connection
  of an unfinished handshake.
\<close>

theorem live_session_keeps_its_connection:
  assumes "mux_run {h} h w" and "mx_sessions (mw_st w) h = Some s" "ms_session s = Some sid" "sid \<notin> mw_dead w"
  shows "root (ms_conn s) \<notin> root ` set (mx_closed (mw_st w))"
  using assms by (rule live_session_up)

text \<open>And no connection is lost: it is broken, in the table, or with a caller.\<close>

lemma no_connection_is_lost:
  assumes "mux_run {h} h w" and "n \<in> mw_opened w" "n \<notin> mw_down w" "mw_pending w = {#}"
  shows "\<exists>s. mx_sessions (mw_st w) h = Some s \<and> root (ms_conn s) = n"
  using connection_accounted [OF assms(1,2)] assms(3,4) by simp

corollary at_most_one_connection:
  assumes "mux_run {h} h w" and "mw_pending w = {#}" and "n \<in> mw_opened w - mw_down w" "m \<in> mw_opened w - mw_down w"
  shows "n = m"
proof -
  obtain s where "mx_sessions (mw_st w) h = Some s" "root (ms_conn s) = n"
    using no_connection_is_lost [OF assms(1) _ _ assms(2), of n] assms(3) by blast
  moreover obtain s' where "mx_sessions (mw_st w) h = Some s'" "root (ms_conn s') = m"
    using no_connection_is_lost [OF assms(1) _ _ assms(2), of m] assms(4) by blast
  ultimately show ?thesis by simp
qed

section \<open>A node whose address is resolved\<close>

text \<open>
  The route dials what the address of the node resolves to, but the transport handshakes for the
  address as configured. When they differ, the entry \<open>Dial\<close> looks at never gets its session, so every
  dial opens a connection of its own, and the entry \<open>Handshake\<close> looks at is that of the first.
\<close>

definition apart :: "string set \<Rightarrow> string \<Rightarrow> mux_world \<Rightarrow> bool" where
  "apart D h w \<longleftrightarrow>
     (\<forall>d \<in> D. \<forall>s. mx_sessions (mw_st w) d = Some s \<longrightarrow> ms_session s = None) \<and>
     (\<forall>c. c \<in># mw_pending w \<longrightarrow> root c \<in> mw_opened w \<and> size (filter_mset (\<lambda>c'. root c' = root c) (mw_pending w)) = 1) \<and>
     (\<forall>s. mx_sessions (mw_st w) h = Some s \<longrightarrow> root (ms_conn s) \<in> mw_opened w \<and> ms_session s \<noteq> None \<and>
        (\<forall>c. c \<in># mw_pending w \<longrightarrow> root c \<noteq> root (ms_conn s)))"

lemma size_root_diff:
  assumes "c' \<in># P - {#c#}" "size (filter_mset (\<lambda>x. root x = root c') P) = 1" "c \<in># P"
  shows "root c' \<noteq> root c"
proof
  assume r: "root c' = root c"
  have "alone None P c" using assms(2) r by (simp add: alone_def)
  then show False using alone_once [OF _ assms(3)] assms(1) r by blast
qed

lemma apart_dial:
  assumes a: "apart D h w" and h: "h \<notin> D" "d \<in> D" and n: "n \<notin> mw_opened w"
    and dial: "mux_Dial (\<lambda>sid. sid \<in> mw_dead w) (Inr (Raw n)) d (mw_st w) = (Inr c, st)"
  shows "c = Raw n" "apart D h (w\<lparr>mw_st := st, mw_opened := insert (root c) (mw_opened w),
                            mw_pending := mw_pending w + {#c#}\<rparr>)" "mx_sessions st h = mx_sessions (mw_st w) h"
proof -
  have c: "c = Raw n \<and> st = (mw_st w)\<lparr>mx_sessions := (mx_sessions (mw_st w))(d \<mapsto> \<lparr>ms_conn = Raw n, ms_session = None\<rparr>)\<rparr>"
    using dial
  proof (cases rule: Dial_cases)
    case (shared s sid)
    then show ?thesis using a h(2) by (auto simp: apart_def)
  qed auto
  then show "c = Raw n" "mx_sessions st h = mx_sessions (mw_st w) h" using h by auto
  have p: "root x \<in> mw_opened w" if "x \<in># mw_pending w" for x using a that by (auto simp: apart_def)
  have none: "filter_mset (\<lambda>x. root x = n) (mw_pending w) = {#}"
    by (rule multiset_eqI) (use p n in \<open>auto simp: count_eq_zero_iff\<close>)
  have dh: "d \<noteq> h" using h by auto
  show "apart D h (w\<lparr>mw_st := st, mw_opened := insert (root c) (mw_opened w), mw_pending := mw_pending w + {#c#}\<rparr>)"
    unfolding apart_def
  proof (intro conjI ballI allI impI; (elim conjE)?)
    fix x s assume x: "x \<in> D" "mx_sessions (mw_st (w\<lparr>mw_st := st, mw_opened := insert (root c) (mw_opened w), mw_pending := mw_pending w + {#c#}\<rparr>)) x = Some s"
    then show "ms_session s = None" using a c by (auto simp: apart_def split: if_splits)
  qed (use a c n p none dh in \<open>auto simp: apart_def\<close>)
qed

lemma apart_handshake:
  assumes a: "apart D h w" and h: "h \<notin> D" and c: "c \<in># mw_pending w" and i: "init_ok w c i"
    and hs: "mux_Handshake msg (\<lambda>_. i) (\<lambda>_. g) h c (mw_st w) = (r, st)"
  shows "apart D h (after_handshake w h c i st)"
    "mx_sessions (mw_st w) h = Some s \<Longrightarrow> r = Inl msg \<and> mx_sessions st h = Some s"
proof -
  have P: "x \<in># mw_pending w" if "x \<in># mw_pending w - {#c#}" for x using that by (rule in_diffD)
  have ne: "root x \<noteq> root c" if "x \<in># mw_pending w - {#c#}" for x
    using size_root_diff [OF that] a c P [OF that] by (auto simp: apart_def)
  have one: "root x \<in> mw_opened w \<and> size (filter_mset (\<lambda>y. root y = root x) (mw_pending w - {#c#})) = 1"
    if x: "x \<in># mw_pending w - {#c#}" for x
    using a P [OF x] ne [OF x] by (auto simp: apart_def size_filter_diff)
  have other: "ms_conn s \<noteq> c" if "mx_sessions (mw_st w) h = Some s" for s
    using a c that by (auto simp: apart_def)
  show "mx_sessions (mw_st w) h = Some s \<Longrightarrow> r = Inl msg \<and> mx_sessions st h = Some s"
    using hs other by (auto simp: mux_Handshake_def)
  have keep: "\<forall>d \<in> D. mx_sessions st d = mx_sessions (mw_st w) d"
    using hs h by (cases rule: Handshake_cases) (auto simp: mux_open_def mux_Close_def split: sum.splits option.splits)
  have entry: "mx_sessions st h = mx_sessions (mw_st w) h \<or> mx_sessions st h = None \<or>
      (\<exists>s. mx_sessions st h = Some s \<and> i = Inr s)"
    using hs by (cases rule: Handshake_cases) (auto simp: mux_open_def mux_Close_def split: sum.splits option.splits)
  have "root (ms_conn s) \<in> mw_opened w \<and> ms_session s \<noteq> None \<and> (\<forall>x. x \<in># mw_pending w - {#c#} \<longrightarrow> root x \<noteq> root (ms_conn s))"
    if s: "mx_sessions st h = Some s" for s
  proof (cases "i = Inr s")
    case True
    then show ?thesis using i ne a c by (auto simp: init_ok_def apart_def split: option.splits)
  next
    case False
    then have "mx_sessions (mw_st w) h = Some s" using entry s by auto
    then show ?thesis using a P by (auto simp: apart_def)
  qed
  then show "apart D h (after_handshake w h c i st)"
    using keep one a by (auto simp: apart_def)
qed

lemma apart_step:
  assumes "mux_step D h w w'" "h \<notin> D" "apart D h w"
  shows "apart D h w' \<and> (\<forall>s. mx_sessions (mw_st w) h = Some s \<longrightarrow> mx_sessions (mw_st w') h = Some s)"
  using assms
proof (induction rule: mux_step.induct)
  case (dial d n w c st)
  then show ?case using apart_dial [of D h w d n c st] by simp
next
  case (dial_fails d w e st)
  show ?case
    using dial_fails(2)
  proof (cases rule: Dial_cases)
    case (failed e')
    then show ?thesis using dial_fails by (auto simp: apart_def)
  qed simp_all
next
  case (handshake c w i g r st)
  then show ?case using apart_handshake [OF handshake(6,5,1,2,3)] by simp
next
  case (dies w sid n)
  then show ?case by (simp add: apart_def)
qed

lemma apart_run: "mux_run D h w \<Longrightarrow> h \<notin> D \<Longrightarrow> apart D h w"
proof (induction rule: mux_run.induct)
  case start
  then show ?case by (simp add: apart_def mw_init_def mux_empty_def)
next
  case (step w w')
  then show ?case using apart_step by blast
qed

text \<open>
  A node whose address resolves to another one works once. After the first handshake that gave a
  session, no history brings the entry away, whether the session lives or not, and every other caller is
  refused.
\<close>

theorem resolved_node_works_once:
  assumes "mux_run D h w" and "h \<notin> D" and "mx_sessions (mw_st w) h = Some s" and "c \<in># mw_pending w"
  shows "fst (mux_Handshake msg init stream h c (mw_st w)) = Inl msg \<and>
         (\<forall>w'. (mux_step D h)\<^sup>*\<^sup>* w w' \<longrightarrow> mx_sessions (mw_st w') h = Some s)"
proof -
  have a: "apart D h w" using assms(1,2) by (rule apart_run)
  have "apart D h w' \<and> mx_sessions (mw_st w') h = Some s" if "(mux_step D h)\<^sup>*\<^sup>* w w'" for w'
    using that
  proof induction
    case base
    then show ?case using a assms(3) by simp
  next
    case (step y z)
    then show ?case using apart_step [OF step(2) assms(2)] by blast
  qed
  moreover have "ms_conn s \<noteq> c" using a assms(3,4) by (auto simp: apart_def)
  ultimately show ?thesis using assms(3) by (simp add: mux_Handshake_def)
qed

section \<open>One caller, and two\<close>

text \<open>A caller alone opens the connection, and the next one shares it.\<close>

lemma lone_caller:
  assumes "mx_sessions st a = None" and "init c = Inr \<lparr>ms_conn = c', ms_session = Some sid\<rparr>" and "stream sid = Inr y"
    and "\<not> dead sid"
  shows "fst (mux_Dial dead (Inr c) a st) = Inr c"
    and "fst (mux_Handshake msg init stream a c (snd (mux_Dial dead (Inr c) a st))) = Inr y"
    and "fst (mux_Dial dead dialled a (snd (mux_Handshake msg init stream a c (snd (mux_Dial dead (Inr c) a st))))) = Inr c'"
  using assms by (simp_all add: mux_Dial_def mux_Handshake_def mux_start_def mux_open_def mux_IsClosed_def)

text \<open>
  Two callers that find no session both open a connection, and the one that dialled first is refused
  when it handshakes, before the other has or after.
\<close>

lemma overlapping_first_dials:
  assumes "mx_sessions st a = None" and "c1 \<noteq> c2"
    and "st2 = snd (mux_Dial dead (Inr c2) a (snd (mux_Dial dead (Inr c1) a st)))"
  shows "mux_Handshake msg init stream a c1 st2 = (Inl msg, st2\<lparr>mx_closed := c1 # mx_closed st2\<rparr>)"
  using assms by (auto simp: mux_Dial_def mux_Handshake_def mux_IsClosed_def)

text \<open>
  \<open>Transport.Handshake\<close>, the dialer's and then the connector's, and the first hop of
  \<open>chainRoute.connect\<close>, which closes what it dialled when either fails.
\<close>

definition Transport_Handshake ::
  "(mux_state \<Rightarrow> (string + nat) \<times> mux_state) \<Rightarrow> (nat \<Rightarrow> string + nat) \<Rightarrow> mux_state \<Rightarrow> (string + nat) \<times> mux_state" where
  "Transport_Handshake dialer connector st =
     (case dialer st of
        (Inl e, st1) \<Rightarrow> (Inl e, st1)
      | (Inr y, st1) \<Rightarrow> (connector y, st1))"

definition connect_first ::
  "(nat \<Rightarrow> bool) \<Rightarrow> string + mconn \<Rightarrow> (mconn \<Rightarrow> string + mux_sess) \<Rightarrow> (nat \<Rightarrow> string + nat) \<Rightarrow> (nat \<Rightarrow> string + nat) \<Rightarrow>
   string \<Rightarrow> string \<Rightarrow> mux_state \<Rightarrow> (string + nat) \<times> mux_state" where
  "connect_first dead dialled init stream connector addr haddr st =
     (case mux_Dial dead dialled addr st of
        (Inl e, st1) \<Rightarrow> (Inl e, st1)
      | (Inr cc, st1) \<Rightarrow>
          (case Transport_Handshake (mux_Handshake unrecognized init stream haddr cc) connector st1 of
             (Inl e, st2) \<Rightarrow> (Inl e, st2\<lparr>mx_closed := cc # mx_closed st2\<rparr>)
           | (Inr y, st2) \<Rightarrow> (Inr y, st2)))"

text \<open>
  What it dialled may be the connection of a session others use: one connector that fails its handshake
  closes it for all of them, and the table goes on handing it out.
\<close>

lemma failed_connector_closes_shared_connection:
  assumes "mx_sessions st a = Some s" "ms_session s = Some sid" "\<not> dead sid" and "stream sid = Inr y" and "connector y = Inl e"
  shows "connect_first dead dialled init stream connector a a st = (Inl e, st\<lparr>mx_closed := ms_conn s # mx_closed st\<rparr>)"
  using assms
  by (simp add: connect_first_def Transport_Handshake_def mux_Dial_def mux_Handshake_def mux_open_def mux_IsClosed_def)

section \<open>Sample histories\<close>

definition after_dial :: "string \<Rightarrow> nat \<Rightarrow> mux_world \<Rightarrow> mux_world" where
  "after_dial d n w =
     w\<lparr>mw_st := snd (mux_Dial (\<lambda>sid. sid \<in> mw_dead w) (Inr (Raw n)) d (mw_st w)),
       mw_opened := insert n (mw_opened w), mw_pending := mw_pending w + {#Raw n#}\<rparr>"

definition after_good_handshake :: "string \<Rightarrow> nat \<Rightarrow> nat \<Rightarrow> mux_world \<Rightarrow> mux_world" where
  "after_good_handshake h n sid w =
     (let i = Inr \<lparr>ms_conn = Over (Raw n) 0, ms_session = Some sid\<rparr> in
      after_handshake w h (Raw n) i (snd (mux_Handshake unrecognized (\<lambda>_. i) (\<lambda>_. Inr 5) h (Raw n) (mw_st w))))"

lemma run_dial:
  assumes "mux_run D h w" "d \<in> D" "n \<notin> mw_opened w"
    and e: "\<And>s. mx_sessions (mw_st w) d = Some s \<Longrightarrow> ms_session s = None"
  shows "mux_run D h (after_dial d n w)"
proof -
  have "fst (mux_Dial (\<lambda>sid. sid \<in> mw_dead w) (Inr (Raw n)) d (mw_st w)) = Inr (Raw n)"
    using e by (simp add: mux_Dial_def mux_IsClosed_def split: option.split)
  then have "mux_Dial (\<lambda>sid. sid \<in> mw_dead w) (Inr (Raw n)) d (mw_st w) =
      (Inr (Raw n), snd (mux_Dial (\<lambda>sid. sid \<in> mw_dead w) (Inr (Raw n)) d (mw_st w)))"
    by (simp add: prod_eq_iff)
  from mux_step.dial [OF assms(2,3) this] show ?thesis
    unfolding after_dial_def root.simps by (rule mux_run.step [OF assms(1)])
qed

lemma run_good_handshake:
  assumes "mux_run D h w" "Raw n \<in># mw_pending w" "mw_made w sid = None" "sid \<notin> mw_dead w" "n \<notin> mw_down w"
    and e: "mx_sessions (mw_st w) h = None \<or> mx_sessions (mw_st w) h = Some \<lparr>ms_conn = Raw n, ms_session = None\<rparr>"
  shows "mux_run D h (after_good_handshake h n sid w)"
proof -
  define i :: "string + mux_sess" where "i = Inr \<lparr>ms_conn = Over (Raw n) 0, ms_session = Some sid\<rparr>"
  define st where "st = (mw_st w)\<lparr>mx_sessions := (mx_sessions (mw_st w))(h \<mapsto> \<lparr>ms_conn = Over (Raw n) 0, ms_session = Some sid\<rparr>)\<rparr>"
  have hs: "mux_Handshake unrecognized (\<lambda>_. i) (\<lambda>_. Inr 5) h (Raw n) (mw_st w) = (Inr 5, st)"
    using e by (auto simp: i_def st_def mux_Handshake_def mux_start_def mux_open_def)
  have "mux_step D h w (after_handshake w h (Raw n) i st)"
    by (rule mux_step.handshake [OF assms(2) _ hs]) (use assms in \<open>auto simp: i_def st_def init_ok_def\<close>)
  then have "mux_run D h (after_handshake w h (Raw n) i st)" by (rule mux_run.step [OF assms(1)])
  then show ?thesis using hs by (simp add: after_good_handshake_def i_def)
qed

lemmas world_eval = after_good_handshake_def after_dial_def mw_init_def mux_empty_def mux_Dial_def mux_Handshake_def
  mux_start_def mux_open_def mux_IsClosed_def after_handshake_def made_by_def starts_def Let_def

definition w_overlap :: mux_world where
  "w_overlap = after_dial ''a:1'' 1 (after_dial ''a:1'' 0 mw_init)"

lemma w_overlap_eq:
  "w_overlap = mw_init\<lparr>mw_st := mux_empty\<lparr>mx_sessions := [''a:1'' \<mapsto> \<lparr>ms_conn = Raw 1, ms_session = None\<rparr>]\<rparr>,
     mw_opened := {1, 0}, mw_pending := {#Raw 1, Raw 0#}\<rparr>"
  by (simp add: w_overlap_def world_eval)

definition w_refused :: mux_world where
  "w_refused = after_handshake w_overlap ''a:1'' (Raw 0) (Inl [])
     (snd (mux_Handshake unrecognized (\<lambda>_. Inl []) (\<lambda>_. Inl []) ''a:1'' (Raw 0) (mw_st w_overlap)))"

lemma w_refused_eq:
  "w_refused = mw_init\<lparr>mw_st := \<lparr>mx_sessions = [''a:1'' \<mapsto> \<lparr>ms_conn = Raw 1, ms_session = None\<rparr>], mx_closed = [Raw 0], mx_ended = []\<rparr>,
     mw_down := {0}, mw_opened := {1, 0}, mw_pending := {#Raw 1#}\<rparr>"
  by (simp add: w_refused_def w_overlap_eq world_eval)

lemma run_refused: "mux_run {''a:1''} ''a:1'' w_refused"
proof -
  have "mux_run {''a:1''} ''a:1'' w_overlap"
    unfolding w_overlap_def by (intro run_dial mux_run.start) (auto simp: world_eval)
  moreover have "mux_step {''a:1''} ''a:1'' w_overlap w_refused"
    unfolding w_refused_def
    by (rule mux_step.handshake [where r = "Inl unrecognized" and g = "Inl []"])
       (simp_all add: w_overlap_eq world_eval init_ok_def)
  ultimately show ?thesis by (rule mux_run.step)
qed

lemma live_session_keeps_its_connection_witness:
  "mx_closed (mw_st (after_good_handshake ''a:1'' 1 7 w_refused)) = [Raw 0] \<and>
   root (Over (Raw 1) 0) \<notin> root ` set (mx_closed (mw_st (after_good_handshake ''a:1'' 1 7 w_refused)))"
proof -
  have run: "mux_run {''a:1''} ''a:1'' (after_good_handshake ''a:1'' 1 7 w_refused)"
    by (rule run_good_handshake [OF run_refused]) (simp_all add: w_refused_eq mw_init_def)
  have "mx_sessions (mw_st (after_good_handshake ''a:1'' 1 7 w_refused)) ''a:1'' =
      Some \<lparr>ms_conn = Over (Raw 1) 0, ms_session = Some 7\<rparr>"
    and "7 \<notin> mw_dead (after_good_handshake ''a:1'' 1 7 w_refused)"
    and "mx_closed (mw_st (after_good_handshake ''a:1'' 1 7 w_refused)) = [Raw 0]"
    by (simp_all add: w_refused_eq world_eval)
  with live_session_keeps_its_connection [OF run this(1) _ this(2)] show ?thesis by simp
qed

definition w_twice :: mux_world where
  "w_twice = after_dial ''9.9.9.9:1'' 1 (after_good_handshake ''a:1'' 0 7 (after_dial ''9.9.9.9:1'' 0 mw_init))"

lemma resolved_node_works_once_witness:
  "fst (mux_Handshake unrecognized (\<lambda>_. Inl []) (\<lambda>_. Inr 5) ''a:1'' (Raw 1) (mw_st w_twice)) = Inl unrecognized"
proof -
  have "mux_run {''9.9.9.9:1''} ''a:1'' w_twice"
    unfolding w_twice_def
    by (intro run_dial run_good_handshake mux_run.start) (auto simp: world_eval)
  moreover have "mx_sessions (mw_st w_twice) ''a:1'' = Some \<lparr>ms_conn = Over (Raw 0) 0, ms_session = Some 7\<rparr>"
    and "Raw 1 \<in># mw_pending w_twice"
    by (simp_all add: w_twice_def world_eval)
  ultimately show ?thesis using resolved_node_works_once by blast
qed

end
