(* ===== verification/SessionDialers.thy ===== *)
theory SessionDialers
  imports GoNet "HOL-Library.Sublist"
begin

text \<open>
  The dialers that do everything in \<open>Dial\<close>: \<open>kcp\<close>, \<open>quic\<close>, \<open>icmp\<close>, \<open>ssh\<close> and \<open>sshd\<close>
  (\<open>x/dialer/{kcp,quic,icmp,ssh,sshd}\<close>). Each keeps a session per address and opens a stream of it for
  every call; and the keep-alive of an SSH session (\<open>x/internal/util/ssh/session.go\<close>).

  A session is a number. The network is a parameter: resolving an address, the packet connection or
  the raw connection, \<open>initSession\<close>, opening a stream, whether a session is closed.
\<close>

section \<open>The table of sessions\<close>

record sd_state =
  sd_sessions :: "string \<rightharpoonup> nat"
  sd_closed_conns :: "nat list"
  sd_closed_sessions :: "nat list"

definition sd_delete :: "string \<Rightarrow> sd_state \<Rightarrow> sd_state" where
  "sd_delete a st = st\<lparr>sd_sessions := (sd_sessions st)(a := None)\<rparr>"

definition sd_file :: "string \<Rightarrow> nat \<Rightarrow> sd_state \<Rightarrow> sd_state" where
  "sd_file a s st = st\<lparr>sd_sessions := (sd_sessions st)(a \<mapsto> s)\<rparr>"

definition sd_close_conn :: "nat \<Rightarrow> sd_state \<Rightarrow> sd_state" where
  "sd_close_conn c st = st\<lparr>sd_closed_conns := c # sd_closed_conns st\<rparr>"

definition sd_close_session :: "nat \<Rightarrow> sd_state \<Rightarrow> sd_state" where
  "sd_close_session s st = st\<lparr>sd_closed_sessions := s # sd_closed_sessions st\<rparr>"

lemmas sd_defs = sd_delete_def sd_file_def sd_close_conn_def sd_close_session_def

text \<open>What one call meets; \<open>sx_udp\<close> and \<open>sx_tcp\<close> say whether the connection is a packet connection.\<close>

record sd_env =
  sx_resolve :: "string \<Rightarrow> string + string"
  sx_raw :: "string + nat"
  sx_net :: "string + nat \<times> bool"
  sx_init :: "nat \<Rightarrow> string + nat"
  sx_stream :: "nat \<Rightarrow> string + nat"
  sx_dead :: "nat \<Rightarrow> bool"

text \<open>The end of \<open>Dial\<close> of \<open>kcp\<close>, \<open>quic\<close> and \<open>icmp\<close>: a session that gives no stream is dropped.\<close>

definition stream_or_drop :: "sd_env \<Rightarrow> string \<Rightarrow> nat \<Rightarrow> sd_state \<Rightarrow> (string + nat) \<times> sd_state" where
  "stream_or_drop E a s st =
     (case sx_stream E s of
        Inr y \<Rightarrow> (Inr y, st)
      | Inl e \<Rightarrow> (Inl e, sd_delete a (sd_close_session s st)))"

text \<open>And what comes before it: \<open>initSession\<close> over the packet connection, which is closed on failure.\<close>

definition session_over :: "sd_env \<Rightarrow> string \<Rightarrow> nat \<Rightarrow> sd_state \<Rightarrow> (string + nat) \<times> sd_state" where
  "session_over E a pc st =
     (case sx_init E pc of
        Inl e \<Rightarrow> (Inl e, sd_close_conn pc st)
      | Inr s \<Rightarrow> stream_or_drop E a s (sd_file a s st))"

definition kcp_wrong_type :: string where
  "kcp_wrong_type = ''quic: wrong connection type''"

definition packet_conn :: "string + nat \<times> bool \<Rightarrow> sd_state \<Rightarrow> (string + nat) \<times> sd_state" where
  "packet_conn c st =
     (case c of
        Inl e \<Rightarrow> (Inl e, st)
      | Inr (n, is_packet) \<Rightarrow> if is_packet then (Inr n, st) else (Inl kcp_wrong_type, sd_close_conn n st))"

section \<open>kcp\<close>

definition kcp_Dial :: "bool \<Rightarrow> sd_env \<Rightarrow> string \<Rightarrow> sd_state \<Rightarrow> (string + nat) \<times> sd_state" where
  "kcp_Dial tcp E addr st =
     (case sx_resolve E addr of
        Inl e \<Rightarrow> (Inl e, st)
      | Inr _ \<Rightarrow>
          (let found = sd_sessions st addr;
               st1 = (case found of Some s \<Rightarrow> if sx_dead E s then sd_delete addr st else st | None \<Rightarrow> st) in
           case sd_sessions st1 addr of
             Some s \<Rightarrow> stream_or_drop E addr s st1
           | None \<Rightarrow>
               (case (if tcp then (sx_raw E, st1) else packet_conn (sx_net E) st1) of
                  (Inl e, st2) \<Rightarrow> (Inl e, st2)
                | (Inr pc, st2) \<Rightarrow> session_over E addr pc st2)))"

section \<open>quic and icmp\<close>

text \<open>Both add port 0 to an address without one; the session is filed under the address that gives.\<close>

definition with_zero_port :: "string \<Rightarrow> string" where
  "with_zero_port addr = (if SplitHostPort addr = None then JoinHostPort addr ''0'' else addr)"

definition quic_Dial :: "sd_env \<Rightarrow> string \<Rightarrow> sd_state \<Rightarrow> (string + nat) \<times> sd_state" where
  "quic_Dial E addr0 st =
     (let addr = with_zero_port addr0 in
      case sx_resolve E addr of
        Inl e \<Rightarrow> (Inl e, st)
      | Inr _ \<Rightarrow>
          (case sd_sessions st addr of
             Some s \<Rightarrow> stream_or_drop E addr s st
           | None \<Rightarrow>
               (case packet_conn (sx_net E) st of
                  (Inl e, st1) \<Rightarrow> (Inl e, st1)
                | (Inr pc, st1) \<Rightarrow> session_over E addr pc st1)))"

text \<open>\<open>icmp\<close> listens itself; the port of the address, or a random number, is the identifier of its echoes.\<close>

definition echo_id :: "nat \<Rightarrow> nat \<Rightarrow> nat" where
  "echo_id port rnd = (if port = 0 then rnd mod 65535 + 1 else port)"

definition icmp_Dial :: "(nat \<Rightarrow> nat \<Rightarrow> nat) \<Rightarrow> nat \<Rightarrow> nat \<Rightarrow> sd_env \<Rightarrow> string \<Rightarrow> sd_state \<Rightarrow> (string + nat) \<times> sd_state" where
  "icmp_Dial client_conn port rnd E addr0 st =
     (let addr = with_zero_port addr0 in
      case sx_resolve E addr of
        Inl e \<Rightarrow> (Inl e, st)
      | Inr _ \<Rightarrow>
          (case sd_sessions st addr of
             Some s \<Rightarrow> stream_or_drop E addr s st
           | None \<Rightarrow>
               (case sx_raw E of
                  Inl e \<Rightarrow> (Inl e, st)
                | Inr pc \<Rightarrow> session_over E addr (client_conn pc (echo_id port rnd)) st)))"

section \<open>ssh and sshd\<close>

text \<open>Both file the session before they use it, after the handshake over the raw connection.\<close>

definition ssh_session :: "sd_env \<Rightarrow> string \<Rightarrow> sd_state \<Rightarrow> (string + nat) \<times> sd_state" where
  "ssh_session E addr st =
     (let st1 = (case sd_sessions st addr of Some s \<Rightarrow> if sx_dead E s then sd_delete addr st else st | None \<Rightarrow> st) in
      case sd_sessions st1 addr of
        Some s \<Rightarrow> (Inr s, st1)
      | None \<Rightarrow>
          (case sx_raw E of
             Inl e \<Rightarrow> (Inl e, st1)
           | Inr c \<Rightarrow>
               (case sx_init E c of
                  Inl e \<Rightarrow> (Inl e, sd_close_conn c st1)
                | Inr s \<Rightarrow> (Inr s, sd_file addr s st1))))"

definition ssh_Dial :: "sd_env \<Rightarrow> string \<Rightarrow> sd_state \<Rightarrow> (string + nat) \<times> sd_state" where
  "ssh_Dial E addr st =
     (case ssh_session E addr st of
        (Inl e, st1) \<Rightarrow> (Inl e, st1)
      | (Inr s, st1) \<Rightarrow> (sx_stream E s, st1))"

definition sshd_Dial :: "sd_env \<Rightarrow> string \<Rightarrow> sd_state \<Rightarrow> (string + nat) \<times> sd_state" where
  "sshd_Dial E addr st = ssh_session E addr st"

text \<open>The authentication methods offered; \<open>sshd\<close> adds those of a running agent.\<close>

datatype ssh_method = SshPassword string | SshKey nat | SshAgent

record ssh_opts =
  so_auth :: "(string \<times> string) option"
  so_signer :: "nat option"

definition ssh_config :: "ssh_opts \<Rightarrow> string \<times> ssh_method list" where
  "ssh_config p =
     ((case so_auth p of None \<Rightarrow> [] | Some (u, _) \<Rightarrow> u),
      (case so_auth p of None \<Rightarrow> [] | Some (_, pw) \<Rightarrow> if pw = [] then [] else [SshPassword pw]) @
      (case so_signer p of None \<Rightarrow> [] | Some k \<Rightarrow> [SshKey k]))"

definition sshd_config :: "bool \<Rightarrow> ssh_opts \<Rightarrow> string \<times> ssh_method list" where
  "sshd_config agent p = (fst (ssh_config p), snd (ssh_config p) @ (if agent then [SshAgent] else []))"

section \<open>What the five have in common\<close>

text \<open>
  Calls for one address leave the sessions of others alone; after a call that gave a connection there
  is a session; while it lives and gives streams it is the one used.
\<close>

locale session_dialer =
  fixes dial :: "sd_env \<Rightarrow> string \<Rightarrow> sd_state \<Rightarrow> (string + nat) \<times> sd_state"
    and key :: "string \<Rightarrow> string"
    and usable :: "sd_env \<Rightarrow> nat \<Rightarrow> bool"
  assumes dial_frame: "b \<noteq> key a \<Longrightarrow> sd_sessions (snd (dial E a st)) b = sd_sessions st b"
    and dial_files: "fst (dial E a st) = Inr y \<Longrightarrow> sd_sessions (snd (dial E a st)) (key a) \<noteq> None"
    and dial_shares: "\<lbrakk> sd_sessions st (key a) = Some s; usable E s; fst (dial E a st) = Inr y \<rbrakk> \<Longrightarrow> snd (dial E a st) = st"
begin

text \<open>A history of calls, each with what it meets.\<close>

fun calls :: "(sd_env \<times> string) list \<Rightarrow> sd_state \<Rightarrow> sd_state" where
  "calls [] st = st"
| "calls ((E, a) # cs) st = calls cs (snd (dial E a st))"

lemma calls_elsewhere:
  "\<forall>c \<in> set cs. key (snd c) \<noteq> b \<Longrightarrow> sd_sessions (calls cs st) b = sd_sessions st b"
proof (induction cs arbitrary: st)
  case (Cons c cs)
  obtain E a where c: "c = (E, a)" by fastforce
  have "sd_sessions (calls cs (snd (dial E a st))) b = sd_sessions (snd (dial E a st)) b"
    using Cons by simp
  also have "\<dots> = sd_sessions st b" by (rule dial_frame) (use Cons.prems c in auto)
  finally show ?case by (simp add: c)
qed simp

text \<open>
  So one session serves all successful calls for an address while it lives, whatever is called for
  other addresses in between.
\<close>

lemma session_is_shared:
  assumes "sd_sessions st (key a) = Some s"
    and "\<forall>E b. (E, b) \<in> set cs \<longrightarrow> key b = key a \<longrightarrow> usable E s \<and> (\<forall>st'. sd_sessions st' (key a) = Some s \<longrightarrow> (\<exists>y. fst (dial E b st') = Inr y))"
  shows "sd_sessions (calls cs st) (key a) = Some s"
  using assms
proof (induction cs arbitrary: st)
  case (Cons c cs)
  obtain E b where c: "c = (E, b)" by fastforce
  have "sd_sessions (snd (dial E b st)) (key a) = Some s"
  proof (cases "key b = key a")
    case True
    have "(E, b) \<in> set (c # cs)" using c by simp
    then have u: "usable E s" "\<exists>y. fst (dial E b st) = Inr y"
      using Cons.prems True by blast+
    have "snd (dial E b st) = st"
      using dial_shares [of st b s E] u Cons.prems(1) True by auto
    then show ?thesis using Cons.prems(1) by simp
  next
    case False
    then show ?thesis using Cons.prems(1) dial_frame by simp
  qed
  then have "sd_sessions (calls cs (snd (dial E b st))) (key a) = Some s"
    using Cons.prems(2) by (intro Cons.IH) auto
  then show ?case by (simp add: c)
qed simp

end

lemmas dialer_defs = stream_or_drop_def session_over_def packet_conn_def sd_defs Let_def

interpretation kcpd: session_dialer "kcp_Dial tcp" "\<lambda>a. a" "\<lambda>E s. \<not> sx_dead E s" for tcp
  by unfold_locales (auto simp: kcp_Dial_def dialer_defs split: sum.splits option.splits if_splits prod.splits)

interpretation quicd: session_dialer quic_Dial with_zero_port "\<lambda>E s. True"
  by unfold_locales (auto simp: quic_Dial_def dialer_defs split: sum.splits option.splits if_splits prod.splits)

interpretation icmpd: session_dialer "icmp_Dial cc port rnd" with_zero_port "\<lambda>E s. True" for cc port rnd
  by unfold_locales (auto simp: icmp_Dial_def dialer_defs split: sum.splits option.splits if_splits prod.splits)

interpretation sshc: session_dialer ssh_Dial "\<lambda>a. a" "\<lambda>E s. \<not> sx_dead E s"
  by unfold_locales (auto simp: ssh_Dial_def ssh_session_def dialer_defs split: sum.splits option.splits if_splits prod.splits)

interpretation sshdc: session_dialer sshd_Dial "\<lambda>a. a" "\<lambda>E s. \<not> sx_dead E s"
  by unfold_locales (auto simp: sshd_Dial_def ssh_session_def dialer_defs split: sum.splits option.splits if_splits prod.splits)

section \<open>Dead sessions\<close>

text \<open>
  \<open>kcp\<close>, \<open>ssh\<close> and \<open>sshd\<close> look whether the session is closed and open another in the same call.
  \<open>quic\<close> and \<open>icmp\<close> do not: the call that meets a dead session fails and drops it, and the next one
  opens another.
\<close>

lemma kcp_reopens:
  assumes "sx_resolve E a = Inr r" "sd_sessions st a = Some s" "sx_dead E s" and "sx_raw E = Inr c" "sx_init E c = Inr s'"
    and "sx_stream E s' = Inr y"
  shows "kcp_Dial True E a st = (Inr y, sd_file a s' st)"
  using assms by (simp add: kcp_Dial_def dialer_defs)

lemma quic_dead_session_costs_a_call:
  assumes "sx_resolve E (with_zero_port a) = Inr r" "sd_sessions st (with_zero_port a) = Some s" "sx_stream E s = Inl e"
  shows "quic_Dial E a st = (Inl e, sd_delete (with_zero_port a) (sd_close_session s st))"
  using assms by (simp add: quic_Dial_def dialer_defs)

text \<open>
  An SSH session that refuses channels but is not closed stays: no call ever gets another, as long as it
  is so.
\<close>

lemma ssh_refusing_session_stays:
  assumes "sd_sessions st a = Some s" and "\<forall>E \<in> set Es. \<not> sx_dead E s \<and> (\<exists>e. sx_stream E s = Inl e)" and "E \<in> set Es"
  shows "(\<exists>e. fst (ssh_Dial E a (foldl (\<lambda>x E'. snd (ssh_Dial E' a x)) st Es)) = Inl e) \<and>
         foldl (\<lambda>x E'. snd (ssh_Dial E' a x)) st Es = st"
proof -
  have one: "snd (ssh_Dial E' a st) = st" if "\<not> sx_dead E' s" for E'
    using assms(1) that by (simp add: ssh_Dial_def ssh_session_def)
  have "foldl (\<lambda>x E'. snd (ssh_Dial E' a x)) st Es = st"
    using assms(2) one by (induction Es) auto
  then show ?thesis using assms by (auto simp: ssh_Dial_def ssh_session_def)
qed

text \<open>A session of \<open>kcp\<close>, \<open>quic\<close> or \<open>icmp\<close> that gives no stream is closed and no longer filed.\<close>

lemma stream_or_drop_fails:
  "fst (stream_or_drop E a s st) = Inl e \<Longrightarrow>
   sd_sessions (snd (stream_or_drop E a s st)) a = None \<and> s \<in> set (sd_closed_sessions (snd (stream_or_drop E a s st)))"
  by (auto simp: stream_or_drop_def sd_defs split: sum.splits)

lemma echo_id_range:
  assumes "port < 65536"
  shows "1 \<le> echo_id port rnd \<and> echo_id port rnd < 65536"
  using assms by (auto simp: echo_id_def intro: le_less_trans [of _ 65534])

section \<open>Keep-alive of an SSH session\<close>

text \<open>\<open>Session.Keepalive\<close>: the ticks with what their ping gave, and the end of the session.\<close>

datatype ka_event = KaTick bool | KaClosed

definition ka_retries :: "int \<Rightarrow> nat" where
  "ka_retries retries = (if retries \<le> 0 then 1 else nat retries)"

text \<open>The loop; true when it returned, and with it the session is dead.\<close>

fun ka_loop :: "nat \<Rightarrow> nat \<Rightarrow> ka_event list \<Rightarrow> bool" where
  "ka_loop retries count [] = False"
| "ka_loop retries count (KaClosed # es) = True"
| "ka_loop retries count (KaTick True # es) = ka_loop retries retries es"
| "ka_loop retries count (KaTick False # es) = (if count - 1 = 0 then True else ka_loop retries (count - 1) es)"

definition Keepalive :: "int \<Rightarrow> ka_event list \<Rightarrow> bool" where
  "Keepalive retries es = ka_loop (ka_retries retries) (ka_retries retries) es"

lemma prefix_replicate_le: "k \<le> m \<Longrightarrow> prefix (replicate m x) ys \<Longrightarrow> prefix (replicate k x) ys"
  by (rule prefix_order.trans [of _ "replicate m x"]) (auto simp: prefix_def replicate_add [symmetric] intro: exI [of _ "replicate (m - k) x"])

lemma ka_loop_spec:
  assumes "0 < k" "k \<le> r"
  shows "ka_loop r k es \<longleftrightarrow>
     KaClosed \<in> set es \<or> prefix (replicate k (KaTick False)) es \<or> sublist (replicate r (KaTick False)) es"
  using assms
proof (induction es arbitrary: k)
  case Nil
  then show ?case by simp
next
  case (Cons e es)
  then obtain r' k' where r: "r = Suc r'" "k = Suc k'" by (metis gr0_implies_Suc gr0_conv_Suc less_le_trans)
  show ?case
  proof (cases e)
    case KaClosed
    then show ?thesis by simp
  next
    case (KaTick ok)
    show ?thesis
    proof (cases ok)
      case True
      then have "ka_loop r k (e # es) = ka_loop r r es" using KaTick by simp
      also have "\<dots> \<longleftrightarrow> KaClosed \<in> set es \<or> sublist (replicate r (KaTick False)) es"
        using Cons.IH [of r] r by (auto simp: prefix_imp_sublist)
      finally show ?thesis using KaTick True r by (simp add: sublist_Cons_right)
    next
      case False
      show ?thesis
      proof (cases "k' = 0")
        case True
        then show ?thesis using KaTick False r by simp
      next
        case k': False
        have "ka_loop r k (e # es) = ka_loop r k' es" using KaTick False r k' by simp
        also have "\<dots> \<longleftrightarrow> KaClosed \<in> set es \<or> prefix (replicate k' (KaTick False)) es \<or> sublist (replicate r (KaTick False)) es"
          using Cons.IH [of k'] Cons.prems r k' by simp
        finally show ?thesis
          using KaTick False r prefix_replicate_le [of k' r' "KaTick False" es] Cons.prems by (auto simp: sublist_Cons_right)
      qed
    qed
  qed
qed

text \<open>
  The keep-alive gives a session up exactly when so many pings in a row as configured (one, when it is
  not) went unanswered; an answered ping starts the count again. It also ends with the session.
\<close>

theorem keepalive_gives_up_on_consecutive_misses:
  "Keepalive retries es \<longleftrightarrow>
     KaClosed \<in> set es \<or> sublist (replicate (ka_retries retries) (KaTick False)) es"
  using ka_loop_spec [of "ka_retries retries" "ka_retries retries" es]
  by (auto simp: Keepalive_def ka_retries_def prefix_imp_sublist)

end
