(* ===== verification/ForwardSniffer.thy ===== *)
theory ForwardSniffer
  imports Sniffing "HOL-Library.Sublist"
begin

text \<open>
  The sniffer of the forwarding handlers, \<open>x/internal/util/forwarder\<close>: HTTP requests are taken to a
  node chosen by the first of them and changed by the node's settings, HTTP/2 with prior knowledge is
  relayed request by request, TLS is copied or terminated.

  What a node's settings hold (authenticator, regular expressions) and the hop, the bypass, the dialer
  and the exchange with the node are functions. Header keys are in canonical form. Recording,
  statistics and logging are left out.
\<close>

section \<open>Nodes, requests and responses\<close>

text \<open>\<open>chain.HTTPNodeSettings\<close>; a rewrite is the test of its pattern and the replacement by it.\<close>

record node_http =
  nh_auther :: "(string \<Rightarrow> string \<Rightarrow> string \<times> bool) option"
  nh_host :: string
  nh_request :: "(string \<times> string) list"
  nh_rewriteURL :: "((string \<Rightarrow> bool) \<times> (string \<Rightarrow> string)) list"
  nh_response :: "(string \<times> string) list"
  nh_rewriteBody :: "(string \<times> (string \<Rightarrow> string)) list"

record fs_node =
  sn_addr :: string
  sn_network :: string
  sn_marker :: bool
  sn_tls :: bool
  sn_http :: "node_http option"

text \<open>\<open>sq_auth\<close> is what \<open>BasicAuth\<close> gives; \<open>sp_broken\<close> the error reading a body ends with.\<close>

record fs_req = http_req +
  sq_path :: string
  sq_uri :: string
  sq_auth :: "string \<times> string"
  sq_http2 :: bool

record fs_resp = http_resp +
  sp_body :: "string option"
  sp_broken :: go_error

text \<open>\<open>fw_exchange\<close> writes the request to the node and reads its response.\<close>

record fs_world =
  fw_bypass :: "(string \<Rightarrow> string \<Rightarrow> string \<Rightarrow> bool) option"
  fw_hop :: "(string \<Rightarrow> string \<Rightarrow> string \<Rightarrow> string \<Rightarrow> fs_node option) option"
  fw_dial :: "string \<Rightarrow> string \<Rightarrow> go_error"
  fw_exchange :: "fs_req \<Rightarrow> string + fs_resp"
  fw_write :: "fs_resp \<Rightarrow> go_error"
  fw_tokens :: "http_header \<Rightarrow> bool"

text \<open>What a run does: dials, the node's marker, what is sent to the node and written to the client.\<close>

datatype fs_action =
  FsDial string string
| FsMark
| FsReset
| FsSent fs_req
| FsReply fs_resp
| FsSwitched
| FsCopied string
| FsTerminated string
| FsClosed

definition fs_plain :: "int \<Rightarrow> fs_resp" where
  "fs_plain code = \<lparr>hs_code = code, hs_status = [], hs_header = Map.empty, hs_length = 0, hs_close = False, sp_body = None, sp_broken = None\<rparr>"

section \<open>The node's settings\<close>

definition set_headers :: "(string \<times> string) list \<Rightarrow> http_header \<Rightarrow> http_header" where
  "set_headers kvs h = fold (\<lambda>(k, v). hdr_Set k v) kvs h"

text \<open>The first pattern that matches and gives a path.\<close>

fun rewrite_path :: "((string \<Rightarrow> bool) \<times> (string \<Rightarrow> string)) list \<Rightarrow> string \<Rightarrow> string" where
  "rewrite_path [] p = p"
| "rewrite_path ((matches, replace) # rs) p = (if matches p \<and> replace p \<noteq> [] then replace p else rewrite_path rs p)"

definition fs_http10 :: "fs_req \<Rightarrow> fs_req" where
  "fs_http10 q =
     (if hq_http10 q then
        q\<lparr>hq_header := (if ToLower (hdr_Get (hq_header q) ''Connection'') = ''keep-alive''
                        then hdr_Del ''Connection'' (hq_header q)
                        else hdr_Set ''Connection'' ''close'' (hq_header q))\<rparr>
      else q)"

definition apply_settings :: "node_http option \<Rightarrow> fs_req \<Rightarrow> fs_req" where
  "apply_settings s q =
     (case s of None \<Rightarrow> q
      | Some h \<Rightarrow>
          q\<lparr>hq_host := (if nh_host h = [] then hq_host q else nh_host h),
            hq_header := set_headers (nh_request h) (hq_header q),
            sq_path := rewrite_path (nh_rewriteURL h) (sq_path q)\<rparr>)"

text \<open>Whether the node's authenticator, when there is one, lets the request through.\<close>

definition node_admits :: "fs_node \<Rightarrow> fs_req \<Rightarrow> bool" where
  "node_admits n q =
     (case sn_http n of None \<Rightarrow> True
      | Some h \<Rightarrow> (case nh_auther h of None \<Rightarrow> True | Some A \<Rightarrow> snd (A (fst (sq_auth q)) (snd (sq_auth q)))))"

definition unauthorized :: fs_resp where
  "unauthorized = (fs_plain 401)\<lparr>hs_header := hdr_Set ''WWW-Authenticate'' ''Basic'' Map.empty\<rparr>"

text \<open>\<open>strings.Cut\<close> at a semicolon, its first part.\<close>

definition media_type :: "string \<Rightarrow> string" where
  "media_type s = takeWhile (\<lambda>c. c \<noteq> CHR '';'') s"

text \<open>\<open>strings.Contains(rewriteType, contentType)\<close>.\<close>

definition rewrites_type :: "string \<Rightarrow> string \<Rightarrow> bool" where
  "rewrites_type rewriteType contentType =
     (let t = (if rewriteType = [] then ''text/html'' else rewriteType) in t = ''*'' \<or> sublist contentType t)"

fun rewrite_body :: "(string \<times> (string \<Rightarrow> string)) list \<Rightarrow> string \<Rightarrow> string \<Rightarrow> string" where
  "rewrite_body [] ct b = b"
| "rewrite_body ((t, replace) # rs) ct b = rewrite_body rs ct (if rewrites_type t ct then replace b else b)"

definition rewriteRespBody :: "(string \<times> (string \<Rightarrow> string)) list \<Rightarrow> fs_resp \<Rightarrow> string + fs_resp" where
  "rewriteRespBody rewrites r =
     (if rewrites = [] \<or> hs_length r \<le> 0 \<or> hdr_Get (hs_header r) ''Content-Encoding'' \<noteq> [] then Inr r
      else case sp_body r of
        None \<Rightarrow> Inr r
      | Some b \<Rightarrow>
          (case sp_broken r of
             Some e \<Rightarrow> Inl e
           | None \<Rightarrow>
               (let b' = rewrite_body rewrites (media_type (hdr_Get (hs_header r) ''Content-Type'')) b in
                Inr (r\<lparr>sp_body := Some b', hs_length := int (length b')\<rparr>))))"

section \<open>One request\<close>

definition fs_upgradeType :: "fs_world \<Rightarrow> http_header \<Rightarrow> string" where
  "fs_upgradeType W h = (if fw_tokens W h then hdr_Get h ''Upgrade'' else [])"

text \<open>Its error is dropped by the caller.\<close>

definition fs_handleUpgrade :: "fs_world \<Rightarrow> fs_req \<Rightarrow> fs_resp \<Rightarrow> fs_action list" where
  "fs_handleUpgrade W q r =
     (if \<not> EqualFold (fs_upgradeType W (hq_header q)) (fs_upgradeType W (hs_header r)) then []
      else let r' = r\<lparr>sp_body := None\<rparr> in
        (case fw_write W r' of Some e \<Rightarrow> [FsReply r'] | None \<Rightarrow> [FsReply r', FsSwitched]))"

text \<open>What is written back of a response that is not a switch of protocols.\<close>

definition fs_response :: "bool \<Rightarrow> node_http option \<Rightarrow> fs_req \<Rightarrow> fs_resp \<Rightarrow> string + fs_resp" where
  "fs_response keepalive s q r =
     (let r1 = (if hq_http10 q \<and> \<not> hs_close r
                then r\<lparr>hs_header := hdr_Set ''Connection'' ''keep-alive'' (hs_header r)\<rparr> else r);
          r2 = (if keepalive then r1 else r1\<lparr>hs_header := hdr_Set ''Connection'' ''close'' (hs_header r1)\<rparr>)
      in case s of None \<Rightarrow> Inr r2 | Some h \<Rightarrow> rewriteRespBody (nh_rewriteBody h) r2)"

text \<open>What was done, whether the connection ends, and the error.\<close>

definition fs_httpRoundTrip :: "bool \<Rightarrow> fs_world \<Rightarrow> fs_node \<Rightarrow> fs_req \<Rightarrow> fs_action list \<times> bool \<times> go_error" where
  "fs_httpRoundTrip keepalive W n q =
     (let q1 = fs_http10 q in
      if \<not> node_admits n q1 then ([FsReply unauthorized], True, Some ''unauthorized'')
      else
        (let q2 = apply_settings (sn_http n) q1 in
         case fw_exchange W q2 of
           Inl e \<Rightarrow> ([FsSent q2, FsReply (fs_plain 503)], True, Some e)
         | Inr r \<Rightarrow>
             (let r1 = (case sn_http n of None \<Rightarrow> r
                        | Some h \<Rightarrow> r\<lparr>hs_header := set_headers (nh_response h) (hs_header r)\<rparr>) in
              if hs_code r1 = 101 then (FsSent q2 # fs_handleUpgrade W q2 r1, True, nil_error)
              else
                (case fs_response keepalive (sn_http n) q2 r1 of
                   Inl e \<Rightarrow> ([FsSent q2], True, Some e)
                 | Inr r2 \<Rightarrow>
                     (case fw_write W r2 of
                        Some e \<Rightarrow> ([FsSent q2, FsReply r2], True, Some e)
                      | None \<Rightarrow> ([FsSent q2, FsReply r2], if hs_length r2 \<ge> 0 then hs_close r2 else True, nil_error))))))"

text \<open>The requests on a connection; the last read ends with \<open>fin\<close>.\<close>

fun fs_requests :: "bool \<Rightarrow> fs_node \<Rightarrow> go_error \<Rightarrow> (fs_req \<times> fs_world) list \<Rightarrow> fs_action list \<times> go_error" where
  "fs_requests keepalive n fin [] = ([], fin)"
| "fs_requests keepalive n fin ((q, W) # qs) =
     (case fs_httpRoundTrip keepalive W n q of
        (as, close, e) \<Rightarrow>
          if e \<noteq> None \<or> close then (as, e)
          else (as @ fst (fs_requests keepalive n fin qs), snd (fs_requests keepalive n fin qs)))"

section \<open>The node of a connection\<close>

text \<open>The first request decides; \<open>Inl\<close> is the error of a connection without a node.\<close>

definition connect_node :: "fs_world \<Rightarrow> bool \<Rightarrow> string \<Rightarrow> string \<Rightarrow> fs_node \<Rightarrow> fs_action list \<times> (string + fs_node)" where
  "connect_node W answers network a n =
     (case fw_dial W network a of
        Some e \<Rightarrow> (FsDial network a # (if sn_marker n then [FsMark] else []) @ (if answers then [FsReply (fs_plain 503)] else []), Inl e)
      | None \<Rightarrow> (FsDial network a # (if sn_marker n then [FsReset] else []), Inr n))"

definition given_node :: "fs_world \<Rightarrow> fs_node \<Rightarrow> fs_action list \<times> (string + fs_node)" where
  "given_node W n =
     ([FsDial ''tcp'' (sn_addr n)],
      case fw_dial W ''tcp'' (sn_addr n) of Some e \<Rightarrow> Inl e | None \<Rightarrow> Inr n)"

definition bare_node :: "string \<Rightarrow> fs_node" where
  "bare_node host = \<lparr>sn_addr = host, sn_network = [], sn_marker = False, sn_tls = False, sn_http = None\<rparr>"

definition fs_dial :: "fs_world \<Rightarrow> fs_node option \<Rightarrow> fs_req \<Rightarrow> fs_action list \<times> (string + fs_node)" where
  "fs_dial W given q =
     (case given of
        Some n \<Rightarrow> given_node W n
      | None \<Rightarrow>
          (let host = (if hq_host q = [] then [] else default_port (hq_host q) ''80'') in
           if hq_host q \<noteq> [] \<and> (case fw_bypass W of None \<Rightarrow> False | Some b \<Rightarrow> b ''tcp'' host (sq_uri q))
           then ([FsReply (fs_plain 403)], Inl ErrBypass)
           else
             (case (case fw_hop W of None \<Rightarrow> Some (bare_node host) | Some sel \<Rightarrow> sel ''http'' host (hq_method q) (sq_path q)) of
                None \<Rightarrow> ([FsReply (fs_plain 502)], Inl ''node not available'')
              | Some n \<Rightarrow> connect_node W True ''tcp'' (sn_addr n) n)))"

definition tls_addr :: "fs_node \<Rightarrow> string" where
  "tls_addr n =
     (if sn_network n = ''unix'' then sn_addr n
      else if SplitHostPort (sn_addr n) = None then sn_addr n @ '':443'' else sn_addr n)"

text \<open>For TLS the network is the node's when it is a Unix socket, else the handler's, \<open>net\<close>.\<close>

definition fs_dialTLS :: "fs_world \<Rightarrow> fs_node option \<Rightarrow> string \<Rightarrow> string \<Rightarrow> fs_action list \<times> (string + fs_node)" where
  "fs_dialTLS W given net host =
     (case given of
        Some n \<Rightarrow> given_node W n
      | None \<Rightarrow>
          (case (case fw_hop W of
                   None \<Rightarrow> if host = [] then None else Some (bare_node host)
                 | Some sel \<Rightarrow> sel ''tls'' host [] []) of
             None \<Rightarrow> ([], Inl ''node not available'')
           | Some n \<Rightarrow> connect_node W False (if sn_network n = ''unix'' then ''unix'' else net) (tls_addr n) n))"

section \<open>HTTP/2 with prior knowledge\<close>

text \<open>
  After the preface every stream's request is made by a transport that dials the node for the host of
  its URL; what the settings of the node say plays no part. (A connection kept by the transport is not
  dialled again; that is a parameter, \<open>idle\<close>.)
\<close>

definition h2_ServeHTTP :: "fs_world \<Rightarrow> fs_node option \<Rightarrow> string \<Rightarrow> bool \<Rightarrow> fs_req \<Rightarrow> fs_action list" where
  "h2_ServeHTTP W given net idle q =
     (let r = q\<lparr>hq_scheme := ''https'', hq_url := hq_host q\<rparr>;
          send = (case fw_exchange W r of Inl e \<Rightarrow> [FsSent r, FsReply (fs_plain 503)] | Inr p \<Rightarrow> [FsSent r, FsReply p])
      in if idle then send
         else case fs_dialTLS W given net (default_port (hq_host q) ''443'') of
           (as, Inl e) \<Rightarrow> as @ [FsReply (fs_plain 503)]
         | (as, Inr n) \<Rightarrow> as @ send)"

definition fs_serveH2 :: "fs_world \<Rightarrow> fs_node option \<Rightarrow> string \<Rightarrow> go_error \<Rightarrow> (bool \<times> fs_req) list \<Rightarrow> fs_action list \<times> go_error" where
  "fs_serveH2 W given net preface streams =
     (case preface of
        Some e \<Rightarrow> ([], Some e)
      | None \<Rightarrow> (concat (map (\<lambda>(idle, q). h2_ServeHTTP W given net idle q) streams), nil_error))"

section \<open>HTTP\<close>

definition is_preface :: "fs_req \<Rightarrow> bool" where
  "is_preface q \<longleftrightarrow> hq_method q = ''PRI'' \<and> hq_header q = Map.empty \<and> sq_path q = ''*'' \<and> sq_http2 q"

record fs_client =
  sl_first :: "string + fs_req"
  sl_requests :: "(fs_req \<times> fs_world) list"
  sl_fin :: go_error
  sl_preface :: go_error
  sl_streams :: "(bool \<times> fs_req) list"

definition fs_HandleHTTP :: "bool \<Rightarrow> fs_world \<Rightarrow> fs_node option \<Rightarrow> string \<Rightarrow> fs_client \<Rightarrow> fs_action list \<times> go_error" where
  "fs_HandleHTTP keepalive W given net c =
     (case sl_first c of
        Inl e \<Rightarrow> ([], Some e)
      | Inr q \<Rightarrow>
          if is_preface q then fs_serveH2 W given net (sl_preface c) (sl_streams c)
          else case fs_dial W given q of
            (as, Inl e) \<Rightarrow> (as, Some e)
          | (as, Inr n) \<Rightarrow>
              (case fs_requests keepalive n (sl_fin c) ((q, W) # sl_requests c) of
                 (bs, e) \<Rightarrow> (as @ bs @ [FsClosed], e)))"

section \<open>TLS\<close>

text \<open>
  \<open>sv_copied\<close> is the error of copying the hellos, \<open>sv_end\<close> that of the server's hello, which is returned
  after the copy. For a connection that is terminated: the handshake with the node, by the protocols
  offered, with the protocol agreed on and the common name of its certificate; the handshake with the
  client, by the host the certificate is made for and the protocols accepted; and what it then sends.
\<close>

record tls_served =
  sv_copied :: go_error
  sv_end :: go_error
  sv_handshake :: "string list \<Rightarrow> string + string \<times> string"
  sv_client :: "string \<Rightarrow> string list \<Rightarrow> go_error"
  sv_http :: fs_client

text \<open>The protocols offered to the node, the host certificates are made for, those offered to the client.\<close>

definition offered_protos :: "string \<Rightarrow> string list \<Rightarrow> string list" where
  "offered_protos negotiated protos = (if negotiated = [] then protos else [negotiated])"

definition cert_host :: "string \<Rightarrow> string \<Rightarrow> string \<Rightarrow> string" where
  "cert_host name cn recorded =
     (let host = (if name \<noteq> [] then name else if cn \<noteq> [] then cn else recorded)
      in if split_host host \<noteq> [] then split_host host else host)"

definition client_protos :: "string \<Rightarrow> string \<Rightarrow> string list" where
  "client_protos configured negotiated =
     (let p = (if configured = [] then negotiated else configured) in if p = [] then [] else [p])"

text \<open>\<open>terminateTLS\<close>: the requests are served over the connection to the node, without hop or bypass.\<close>

definition fs_terminateTLS ::
  "fs_world \<Rightarrow> fs_node \<Rightarrow> string \<Rightarrow> string \<Rightarrow> tls_client \<Rightarrow> string \<Rightarrow> tls_served \<Rightarrow> fs_action list \<times> go_error" where
  "fs_terminateTLS W n net configured c recorded s =
     (case sv_handshake s (offered_protos configured (tc_protos c)) of
        Inl e \<Rightarrow> ([], Some e)
      | Inr (negotiated, cn) \<Rightarrow>
          (case sv_client s (cert_host (tc_name c) cn recorded) (client_protos configured negotiated) of
             Some e \<Rightarrow> ([], Some e)
           | None \<Rightarrow>
               fs_HandleHTTP True (W\<lparr>fw_bypass := None, fw_hop := None, fw_dial := (\<lambda>_ _. None)\<rparr>) (Some n) net (sv_http s)))"

text \<open>\<open>configured\<close> is the protocol to negotiate, \<open>rec0\<close> the host recorded when the sniffer is called.\<close>

definition fs_HandleTLS ::
  "tls_md \<Rightarrow> fs_world \<Rightarrow> fs_node option \<Rightarrow> string \<Rightarrow> string \<Rightarrow> string \<Rightarrow> string + tls_client \<Rightarrow> tls_served \<Rightarrow>
   fs_action list \<times> go_error" where
  "fs_HandleTLS M W given net configured rec0 hello s =
     (case hello of
        Inl e \<Rightarrow> ([], Some e)
      | Inr c \<Rightarrow>
          (let host = (if tc_name c = [] then [] else default_port (tc_name c) ''443'') in
           if tc_name c \<noteq> [] \<and> (case fw_bypass W of None \<Rightarrow> False | Some b \<Rightarrow> b ''tcp'' host [])
           then ([], Some ErrBypass)
           else case fs_dialTLS W given net host of
             (as, Inl e) \<Rightarrow> (as, Some e)
           | (as, Inr n) \<Rightarrow>
               (let recorded = (if given = None then tls_addr n else if host = [] then rec0 else host);
                    h = (if host = [] then recorded else host) in
                if mitm_wanted M c \<and> (case tm_mitmBypass M of None \<Rightarrow> True | Some contains \<Rightarrow> \<not> contains ''tcp'' h)
                then (case fs_terminateTLS W n net configured c recorded s of (bs, e) \<Rightarrow> (as @ FsTerminated h # bs @ [FsClosed], e))
                else (case sv_copied s of
                        Some e \<Rightarrow> (as @ [FsClosed], Some e)
                      | None \<Rightarrow> (as @ [FsCopied h, FsClosed], sv_end s)))))"

section \<open>Certificates\<close>

text \<open>
  \<open>GetCertificate\<close> of a terminated connection over the pool of certificates. A certificate is a value of
  \<open>'c\<close>; \<open>verifies\<close> checks it for a name under the configured authority, \<open>generate\<close> makes one.
\<close>

definition GetCertificate ::
  "('c \<Rightarrow> string \<Rightarrow> bool) \<Rightarrow> (string \<Rightarrow> string + 'c) \<Rightarrow> string \<Rightarrow> string \<Rightarrow> (string \<rightharpoonup> 'c option) \<Rightarrow>
   (string + 'c) \<times> (string \<rightharpoonup> 'c option)" where
  "GetCertificate verifies generate host sni pool =
     (let name = (if sni = [] then host else sni);
          cached = (case pool name of Some (Some c) \<Rightarrow> if verifies c name then Some c else None | _ \<Rightarrow> None)
      in case cached of
           Some c \<Rightarrow> (Inr c, pool)
         | None \<Rightarrow>
             (case generate name of
                Inl e \<Rightarrow> (Inl e, pool(name \<mapsto> None))
              | Inr c \<Rightarrow> (Inr c, pool(name \<mapsto> Some c))))"

section \<open>What reaches a node\<close>

definition selected_node :: "fs_world \<Rightarrow> fs_node option \<Rightarrow> fs_req \<Rightarrow> fs_node \<Rightarrow> bool" where
  "selected_node W given q n \<longleftrightarrow>
     given = Some n \<or>
     given = None \<and>
       (let host = (if hq_host q = [] then [] else default_port (hq_host q) ''80'') in
        (hq_host q = [] \<or> \<not> (\<exists>b. fw_bypass W = Some b \<and> b ''tcp'' host (sq_uri q))) \<and>
        (case fw_hop W of None \<Rightarrow> n = bare_node host | Some sel \<Rightarrow> sel ''http'' host (hq_method q) (sq_path q) = Some n))"

lemma fs_dial_selects: "snd (fs_dial W given q) = Inr n \<Longrightarrow> selected_node W given q n"
  by (auto simp: fs_dial_def selected_node_def connect_node_def given_node_def Let_def
      split: option.splits if_splits)

lemma fs_dial_sends_nothing: "FsSent r \<notin> set (fst (fs_dial W given q))"
  by (auto simp: fs_dial_def connect_node_def given_node_def Let_def split: option.splits)

lemma node_admits_http10 [simp]: "node_admits n (fs_http10 q) = node_admits n q"
  by (simp add: node_admits_def fs_http10_def split: option.split)

lemma roundtrip_sends:
  assumes "FsSent r \<in> set (fst (fs_httpRoundTrip k W n q))"
  shows "node_admits n q \<and> r = apply_settings (sn_http n) (fs_http10 q)"
  using assms
  by (auto simp: fs_httpRoundTrip_def fs_handleUpgrade_def Let_def split: if_splits sum.splits option.splits)

lemma requests_send:
  assumes "FsSent r \<in> set (fst (fs_requests k n fin qs))"
  shows "\<exists>q \<in> fst ` set qs. node_admits n q \<and> r = apply_settings (sn_http n) (fs_http10 q)"
  using assms
proof (induction qs)
  case (Cons x qs)
  obtain q W where x: "x = (q, W)" by fastforce
  obtain as close e where r: "fs_httpRoundTrip k W n q = (as, close, e)" by (metis prod_cases3)
  have "FsSent r \<in> set as \<or> FsSent r \<in> set (fst (fs_requests k n fin qs))"
    using Cons.prems x r by (auto split: if_splits)
  then show ?case
  proof
    assume "FsSent r \<in> set as"
    then show ?thesis using roundtrip_sends [of r k W n q] r x by auto
  next
    assume "FsSent r \<in> set (fst (fs_requests k n fin qs))"
    then show ?thesis using Cons.IH by auto
  qed
qed simp

lemma HandleHTTP_sends:
  assumes "FsSent r \<in> set (fst (fs_HandleHTTP k W given net c))" and "sl_first c = Inr q0" "\<not> is_preface q0"
  shows "\<exists>n q. q \<in> insert q0 (fst ` set (sl_requests c)) \<and> node_admits n q \<and>
           r = apply_settings (sn_http n) (fs_http10 q) \<and> selected_node W given q0 n"
proof -
  obtain as d where d: "fs_dial W given q0 = (as, d)" by fastforce
  have none: "FsSent r \<notin> set as" using fs_dial_sends_nothing [of r W given q0] d by simp
  show ?thesis
  proof (cases d)
    case (Inl e)
    then show ?thesis using assms d none by (simp add: fs_HandleHTTP_def)
  next
    case (Inr n)
    obtain bs e where b: "fs_requests k n (sl_fin c) ((q0, W) # sl_requests c) = (bs, e)" by fastforce
    have "fs_HandleHTTP k W given net c = (as @ bs @ [FsClosed], e)"
      using assms(2,3) d Inr b by (simp add: fs_HandleHTTP_def del: fs_requests.simps)
    then have "FsSent r \<in> set (fst (fs_requests k n (sl_fin c) ((q0, W) # sl_requests c)))"
      using assms(1) none b by simp
    from requests_send [OF this] obtain q where "q \<in> fst ` set ((q0, W) # sl_requests c)" "node_admits n q"
        "r = apply_settings (sn_http n) (fs_http10 q)"
      by blast
    moreover have "selected_node W given q0 n" using fs_dial_selects [of W given q0 n] d Inr by simp
    ultimately show ?thesis by auto
  qed
qed

text \<open>
  (C7) What reaches a node over HTTP/1 is authorised: every request sent was made by the client on this
  connection with credentials the node's authenticator accepts, it carries the node's rewrites, and the
  node is the one given, or the one the hop has for the first request, whose host is not bypassed.
\<close>

theorem forwarded_request_is_authorised:
  assumes "FsSent r \<in> set (fst (fs_HandleHTTP k W given net c))" and "sl_first c = Inr q0" "\<not> is_preface q0"
  shows "\<exists>n q. q \<in> insert q0 (fst ` set (sl_requests c)) \<and> node_admits n q \<and>
           r = apply_settings (sn_http n) (fs_http10 q) \<and> selected_node W given q0 n"
  using assms by (rule HandleHTTP_sends)

text \<open>What reaches a node out of a terminated TLS connection is authorised by that node.\<close>

lemma terminated_request_is_authorised:
  assumes "FsSent r \<in> set (fst (fs_terminateTLS W n net p c rec s))"
    and first: "sl_first (sv_http s) = Inr q0" "\<not> is_preface q0"
  shows "\<exists>q. node_admits n q \<and> r = apply_settings (sn_http n) (fs_http10 q)"
proof -
  have "FsSent r \<in> set (fst (fs_HandleHTTP True (W\<lparr>fw_bypass := None, fw_hop := None, fw_dial := (\<lambda>_ _. None)\<rparr>) (Some n) net (sv_http s)))"
    using assms(1) by (auto simp: fs_terminateTLS_def split: sum.splits option.splits)
  from HandleHTTP_sends [OF this first] show ?thesis by (auto simp: selected_node_def)
qed

text \<open>A terminated connection is not opened to the client before the node has answered, nor a bypassed one dialled.\<close>

lemma bypassed_name_not_dialled:
  assumes "fw_bypass W = Some b" "b ''tcp'' (default_port (tc_name c) ''443'') []" "tc_name c \<noteq> []"
  shows "fs_HandleTLS M W given net p rec (Inr c) s = ([], Some ErrBypass)"
  using assms by (simp add: fs_HandleTLS_def)

text \<open>None of this holds for HTTP/2 with prior knowledge: the streams reach the node as they come.\<close>

lemma h2_evades_node_settings:
  assumes "sl_first c = Inr q0" "is_preface q0" "sl_preface c = None" and "(True, q) \<in> set (sl_streams c)"
  shows "FsSent (q\<lparr>hq_scheme := ''https'', hq_url := hq_host q\<rparr>) \<in> set (fst (fs_HandleHTTP k W given net c))"
proof -
  have "FsSent (q\<lparr>hq_scheme := ''https'', hq_url := hq_host q\<rparr>) \<in> set (h2_ServeHTTP W given net True q)"
    by (simp add: h2_ServeHTTP_def Let_def split: sum.split)
  then show ?thesis using assms by (force simp: fs_HandleHTTP_def fs_serveH2_def)
qed

text \<open>Nor are the later requests on a connection held against the bypass or the hop.\<close>

lemma later_request_is_not_routed:
  assumes "snd (fs_dial W given q0) = Inr n" "sl_first c = Inr q0" "\<not> is_preface q0"
    and "fs_httpRoundTrip k W n q0 = (as, False, None)" and "sl_requests c = (q, W') # qs" "node_admits n q"
  shows "FsSent (apply_settings (sn_http n) (fs_http10 q)) \<in> set (fst (fs_HandleHTTP k W given net c))"
proof -
  obtain ds where d: "fs_dial W given q0 = (ds, Inr n)" using assms(1) by (metis prod.collapse)
  obtain bs close e where r: "fs_httpRoundTrip k W' n q = (bs, close, e)" by (metis prod_cases3)
  have "FsSent (apply_settings (sn_http n) (fs_http10 q)) \<in> set bs"
    using r assms(6) by (auto simp: fs_httpRoundTrip_def Let_def split: sum.splits option.splits if_splits)
  then show ?thesis using assms d r by (simp add: fs_HandleHTTP_def split: prod.split)
qed

text \<open>A node on a Unix socket is dialled over TCP for HTTP; for TLS it is not.\<close>

lemma unix_node_dialled_over_tcp:
  assumes "fw_hop W = Some sel" "sel ''http'' (default_port (hq_host q) ''80'') (hq_method q) (sq_path q) = Some n"
    and "hq_host q \<noteq> []" "fw_bypass W = None"
  shows "FsDial ''tcp'' (sn_addr n) \<in> set (fst (fs_dial W None q))"
  using assms by (auto simp: fs_dial_def connect_node_def split: option.splits)

section \<open>Responses\<close>

text \<open>A response with a body of known length announces that length.\<close>

definition framed :: "fs_resp \<Rightarrow> bool" where
  "framed r \<longleftrightarrow> (\<forall>b. sp_body r = Some b \<longrightarrow> hs_length r < 0 \<or> hs_length r = int (length b))"

lemma framed_header [simp]: "framed (r\<lparr>hs_header := h\<rparr>) = framed r"
  by (simp add: framed_def)

lemma rewritten_framed: "framed r \<Longrightarrow> rewriteRespBody rs r = Inr r' \<Longrightarrow> framed r'"
  by (auto simp: rewriteRespBody_def framed_def Let_def split: if_splits option.splits)

lemma response_framed: "framed r \<Longrightarrow> fs_response k s q r = Inr r' \<Longrightarrow> framed r'"
  by (auto simp: fs_response_def Let_def split: option.splits if_splits dest!: rewritten_framed [rotated])

lemma roundtrip_framed:
  assumes "FsReply p \<in> set (fst (fs_httpRoundTrip k W n q))"
    and ok: "\<And>r. fw_exchange W (apply_settings (sn_http n) (fs_http10 q)) = Inr r \<Longrightarrow> framed r"
  shows "framed p"
proof -
  have plain: "framed (fs_plain c)" "framed unauthorized" for c
    by (simp_all add: framed_def fs_plain_def unauthorized_def)
  show ?thesis
    using assms(1)
  proof (cases "fw_exchange W (apply_settings (sn_http n) (fs_http10 q))")
    case (Inl e)
    then show ?thesis using assms(1) plain by (auto simp: fs_httpRoundTrip_def Let_def split: if_splits)
  next
    case (Inr r)
    define r1 where "r1 = (case sn_http n of None \<Rightarrow> r
        | Some h \<Rightarrow> r\<lparr>hs_header := set_headers (nh_response h) (hs_header r)\<rparr>)"
    have f: "framed r1" using ok [OF Inr] by (simp add: r1_def split: option.split)
    have "p = unauthorized \<or> p = r1\<lparr>sp_body := None\<rparr> \<or>
        fs_response k (sn_http n) (apply_settings (sn_http n) (fs_http10 q)) r1 = Inr p"
      using assms(1) Inr
      by (auto simp: fs_httpRoundTrip_def fs_handleUpgrade_def Let_def r1_def [symmetric]
          split: if_splits sum.splits option.splits)
    then show ?thesis using plain f response_framed by (auto simp: framed_def [of "_\<lparr>sp_body := None\<rparr>"])
  qed
qed

text \<open>Only a body that is not encoded and has a length is changed.\<close>

lemma encoded_body_kept:
  "hdr_Get (hs_header r) ''Content-Encoding'' \<noteq> [] \<or> hs_length r \<le> 0 \<Longrightarrow> rewriteRespBody rs r = Inr r"
  by (auto simp: rewriteRespBody_def)

text \<open>A response without a content type is rewritten by every rule, one of a narrower rule's by none.\<close>

lemma untyped_body_rewritten: "rewrites_type t []"
  by (simp add: rewrites_type_def Let_def)

lemma prefix_type_never_rewritten: "\<not> rewrites_type ''text'' ''text/html''"
  by code_simp

section \<open>Certificates\<close>

lemma certificate_for_name:
  assumes "fst (GetCertificate verifies generate host sni pool) = Inr c"
  shows "let name = (if sni = [] then host else sni) in verifies c name \<or> generate name = Inr c"
  using assms by (auto simp: GetCertificate_def Let_def split: option.splits if_splits sum.splits)

text \<open>A certificate that verifies is made once; the pool is not used for any other name.\<close>

lemma certificate_stored:
  assumes "fst (GetCertificate verifies generate host sni pool) = Inr c"
  shows "snd (GetCertificate verifies generate host sni pool) (if sni = [] then host else sni) = Some (Some c)"
  using assms by (auto simp: GetCertificate_def Let_def split: option.splits if_splits sum.splits)

lemma certificate_reused:
  assumes "pool (if sni = [] then host else sni) = Some (Some c)" and "verifies c (if sni = [] then host else sni)"
  shows "GetCertificate verifies generate host sni pool = (Inr c, pool)"
  using assms by (simp add: GetCertificate_def Let_def)

lemma certificate_made_once:
  assumes "fst (GetCertificate verifies generate host sni pool) = Inr c" and "verifies c (if sni = [] then host else sni)"
  shows "GetCertificate verifies generate' host sni (snd (GetCertificate verifies generate host sni pool)) =
         (Inr c, snd (GetCertificate verifies generate host sni pool))"
  using certificate_stored [OF assms(1)] assms(2) by (rule certificate_reused)

lemma certificate_pool_frame:
  "m \<noteq> (if sni = [] then host else sni) \<Longrightarrow> snd (GetCertificate verifies generate host sni pool) m = pool m"
  by (auto simp: GetCertificate_def Let_def split: option.splits sum.splits if_splits)

section \<open>A sample\<close>

definition sample_http :: node_http where
  "sample_http = \<lparr>nh_auther = Some (\<lambda>u p. (u, p = ''pw'')), nh_host = ''in'', nh_request = [(''X'', ''1'')],
     nh_rewriteURL = [(\<lambda>p. p = ''/a'', \<lambda>p. ''/b'')], nh_response = [], nh_rewriteBody = []\<rparr>"

definition sample_fs_node :: fs_node where
  "sample_fs_node = \<lparr>sn_addr = ''10.0.0.1:80'', sn_network = [], sn_marker = False, sn_tls = False, sn_http = Some sample_http\<rparr>"

definition sample_fs_world :: fs_world where
  "sample_fs_world = \<lparr>fw_bypass = Some (\<lambda>n a u. a = ''bad:80''), fw_hop = Some (\<lambda>p h m u. Some sample_fs_node),
     fw_dial = (\<lambda>n a. None), fw_exchange = (\<lambda>q. Inl ''eof''), fw_write = (\<lambda>r. None), fw_tokens = (\<lambda>h. False)\<rparr>"

definition sample_fs_req :: fs_req where
  "sample_fs_req = \<lparr>hq_method = ''GET'', hq_scheme = [], hq_url = [], hq_host = ''ok'', hq_header = Map.empty, hq_http10 = False,
     sq_path = ''/a'', sq_uri = ''/a'', sq_auth = (''u'', ''pw''), sq_http2 = False\<rparr>"

definition sample_fs_client :: fs_client where
  "sample_fs_client = \<lparr>sl_first = Inr sample_fs_req, sl_requests = [], sl_fin = None, sl_preface = None, sl_streams = []\<rparr>"

lemma forwarded_request_is_authorised_witness:
  "\<exists>n. node_admits n sample_fs_req \<and>
       sample_fs_req\<lparr>hq_host := ''in'', hq_header := [''X'' \<mapsto> [''1'']], sq_path := ''/b''\<rparr> = apply_settings (sn_http n) sample_fs_req \<and>
       selected_node sample_fs_world None sample_fs_req n"
proof -
  have h: "fs_http10 sample_fs_req = sample_fs_req" by (simp add: fs_http10_def sample_fs_req_def)
  have p: "\<not> is_preface sample_fs_req" by (simp add: is_preface_def sample_fs_req_def)
  have d: "fs_dial sample_fs_world None sample_fs_req = ([FsDial ''tcp'' ''10.0.0.1:80''], Inr sample_fs_node)"
    by (simp add: fs_dial_def sample_fs_world_def sample_fs_req_def connect_node_def sample_fs_node_def
        default_port_def SplitHostPort_plain JoinHostPort_def trim_brackets_def)
  have "FsSent (sample_fs_req\<lparr>hq_host := ''in'', hq_header := [''X'' \<mapsto> [''1'']], sq_path := ''/b''\<rparr>)
      \<in> set (fst (fs_HandleHTTP False sample_fs_world None ''tcp'' sample_fs_client))"
    using p d h
    by (simp add: fs_HandleHTTP_def sample_fs_client_def fs_httpRoundTrip_def node_admits_def sample_fs_node_def
        sample_http_def apply_settings_def set_headers_def hdr_Set_def sample_fs_world_def sample_fs_req_def)
  from forwarded_request_is_authorised [OF this _ p] show ?thesis
    by (auto simp: sample_fs_client_def h)
qed

end
