(* ===== verification/TlsConfig.thy ===== *)
theory TlsConfig
  imports Loader CmdConfig GoNet "HOL-Library.Word"
begin

text \<open>
  The TLS configurations of \<open>x/internal/util/tls/tls.go\<close>: names of versions and cipher suites, the
  options, the configuration of servers and clients from certificate files, and the certificates made
  for intercepted connections.

  Reading files and checking certificates are parameters; the numbers of versions and suites are those
  of package \<open>crypto/tls\<close>.
\<close>

section \<open>Names\<close>

definition cipherSuites :: "(16 word \<times> string) list" where
  "cipherSuites =
    [(0x0005, ''TLS_RSA_WITH_RC4_128_SHA''),
     (0x000a, ''TLS_RSA_WITH_3DES_EDE_CBC_SHA''),
     (0x002f, ''TLS_RSA_WITH_AES_128_CBC_SHA''),
     (0x0035, ''TLS_RSA_WITH_AES_256_CBC_SHA''),
     (0x003c, ''TLS_RSA_WITH_AES_128_CBC_SHA256''),
     (0x009c, ''TLS_RSA_WITH_AES_128_GCM_SHA256''),
     (0x009d, ''TLS_RSA_WITH_AES_256_GCM_SHA384''),
     (0xc007, ''TLS_ECDHE_ECDSA_WITH_RC4_128_SHA''),
     (0xc009, ''TLS_ECDHE_ECDSA_WITH_AES_128_CBC_SHA''),
     (0xc00a, ''TLS_ECDHE_ECDSA_WITH_AES_256_CBC_SHA''),
     (0xc011, ''TLS_ECDHE_RSA_WITH_RC4_128_SHA''),
     (0xc012, ''TLS_ECDHE_RSA_WITH_3DES_EDE_CBC_SHA''),
     (0xc013, ''TLS_ECDHE_RSA_WITH_AES_128_CBC_SHA''),
     (0xc014, ''TLS_ECDHE_RSA_WITH_AES_256_CBC_SHA''),
     (0xc023, ''TLS_ECDHE_ECDSA_WITH_AES_128_CBC_SHA256''),
     (0xc027, ''TLS_ECDHE_RSA_WITH_AES_128_CBC_SHA256''),
     (0xc02f, ''TLS_ECDHE_RSA_WITH_AES_128_GCM_SHA256''),
     (0xc02b, ''TLS_ECDHE_ECDSA_WITH_AES_128_GCM_SHA256''),
     (0xc030, ''TLS_ECDHE_RSA_WITH_AES_256_GCM_SHA384''),
     (0xc02c, ''TLS_ECDHE_ECDSA_WITH_AES_256_GCM_SHA384''),
     (0xcca8, ''TLS_ECDHE_RSA_WITH_CHACHA20_POLY1305_SHA256''),
     (0xcca9, ''TLS_ECDHE_ECDSA_WITH_CHACHA20_POLY1305_SHA256''),
     (0x1301, ''TLS_AES_128_GCM_SHA256''),
     (0x1302, ''TLS_AES_256_GCM_SHA384''),
     (0x1303, ''TLS_CHACHA20_POLY1305_SHA256'')]"

definition tls_versions :: "(16 word \<times> string) list" where
  "tls_versions =
    [(0x0300, ''sslv3''), (0x0301, ''tls1.0''), (0x0302, ''tls1.1''), (0x0303, ''tls1.2''), (0x0304, ''tls1.3'')]"

definition CipherSuite_String :: "16 word \<Rightarrow> string" where
  "CipherSuite_String cs = (case map_of cipherSuites cs of Some v \<Rightarrow> v | None \<Rightarrow> show_nat (unat cs))"

definition Version_String :: "16 word \<Rightarrow> string" where
  "Version_String v = (case map_of tls_versions v of Some s \<Rightarrow> s | None \<Rightarrow> show_nat (unat v))"

section \<open>Options\<close>

record tls_options =
  to_min :: string
  to_max :: string
  to_suites :: "string list"
  to_alpn :: "string list"

text \<open>A configuration; \<open>'p\<close> is a pool of authorities, and \<open>0\<close> a version that is not set.\<close>

record 'p tls_config =
  tg_cert :: "(string \<times> string) option"
  tg_clientCAs :: "'p option"
  tg_clientAuth :: bool
  tg_rootCAs :: "'p option"
  tg_serverName :: string
  tg_skipVerify :: bool
  tg_verify :: "'p option"
  tg_min :: "16 word"
  tg_max :: "16 word"
  tg_suites :: "16 word list"
  tg_protos :: "string list"

definition empty_tls :: "'p tls_config" where
  "empty_tls = \<lparr>tg_cert = None, tg_clientCAs = None, tg_clientAuth = False, tg_rootCAs = None, tg_serverName = [],
     tg_skipVerify = False, tg_verify = None, tg_min = 0, tg_max = 0, tg_suites = [], tg_protos = []\<rparr>"

definition version_of :: "16 word \<Rightarrow> string \<Rightarrow> 16 word" where
  "version_of old s =
     (let v = ToLower s in
      if v = ToLower ''VersionTLS10'' then 0x0301
      else if v = ToLower ''VersionTLS11'' then 0x0302
      else if v = ToLower ''VersionTLS12'' then 0x0303
      else if v = ToLower ''VersionTLS13'' then 0x0304
      else old)"

text \<open>The cases of the switch over the names of suites, in their order.\<close>

definition suite_cases :: "(string \<times> 16 word) list" where
  "suite_cases =
    [(''TLS_RSA_WITH_RC4_128_SHA'', 0x0005),
     (''TLS_RSA_WITH_3DES_EDE_CBC_SHA'', 0x000a),
     (''TLS_RSA_WITH_AES_128_CBC_SHA'', 0x002f),
     (''TLS_RSA_WITH_AES_256_CBC_SHA'', 0x0035),
     (''TLS_RSA_WITH_AES_128_CBC_SHA256'', 0x003c),
     (''TLS_RSA_WITH_AES_128_GCM_SHA256'', 0x009c),
     (''TLS_RSA_WITH_AES_256_GCM_SHA384'', 0x009d),
     (''TLS_ECDHE_ECDSA_WITH_RC4_128_SHA'', 0xc007),
     (''TLS_ECDHE_ECDSA_WITH_AES_128_CBC_SHA'', 0xc009),
     (''TLS_ECDHE_ECDSA_WITH_AES_256_CBC_SHA'', 0xc00a),
     (''TLS_ECDHE_RSA_WITH_RC4_128_SHA'', 0xc011),
     (''TLS_ECDHE_RSA_WITH_3DES_EDE_CBC_SHA'', 0xc012),
     (''TLS_ECDHE_RSA_WITH_AES_128_CBC_SHA'', 0xc013),
     (''TLS_ECDHE_RSA_WITH_AES_256_CBC_SHA'', 0xc014),
     (''TLS_ECDHE_ECDSA_WITH_AES_128_CBC_SHA256'', 0xc023),
     (''TLS_ECDHE_RSA_WITH_AES_128_CBC_SHA256'', 0xc027),
     (''TLS_ECDHE_RSA_WITH_AES_128_GCM_SHA256'', 0xc02f),
     (''TLS_ECDHE_ECDSA_WITH_AES_128_GCM_SHA256'', 0xc02b),
     (''TLS_ECDHE_RSA_WITH_AES_256_GCM_SHA384'', 0xc030),
     (''TLS_ECDHE_ECDSA_WITH_AES_256_GCM_SHA384'', 0xc02c),
     (''TLS_ECDHE_RSA_WITH_CHACHA20_POLY1305_SHA256'', 0xcca8),
     (''TLS_ECDHE_ECDSA_WITH_CHACHA20_POLY1305_SHA256'', 0xcca9)]"

definition suites_of :: "string list \<Rightarrow> 16 word list" where
  "suites_of names = concat (map (\<lambda>v. case map_of suite_cases (ToUpper v) of Some s \<Rightarrow> [s] | None \<Rightarrow> []) names)"

definition SetTLSOptions :: "tls_options option \<Rightarrow> 'p tls_config \<Rightarrow> 'p tls_config" where
  "SetTLSOptions opts cfg =
     (case opts of
        None \<Rightarrow> cfg
      | Some p \<Rightarrow>
          cfg\<lparr>tg_min := version_of (tg_min cfg) (to_min p), tg_max := version_of (tg_max cfg) (to_max p),
              tg_suites := tg_suites cfg @ suites_of (to_suites p), tg_protos := to_alpn p\<rparr>)"

section \<open>Configurations from files\<close>

text \<open>\<open>tx_pair\<close> is \<open>LoadX509KeyPair\<close>, \<open>tx_read\<close> reads a file, \<open>tx_pem\<close> is \<open>AppendCertsFromPEM\<close>.\<close>

record 'p tls_files =
  tx_pair :: "string \<Rightarrow> string \<Rightarrow> go_error"
  tx_read :: "string \<Rightarrow> string + string"
  tx_pem :: "string \<Rightarrow> 'p option"

definition loadCA :: "'p tls_files \<Rightarrow> string \<Rightarrow> string + 'p option" where
  "loadCA F caFile =
     (if caFile = [] then Inr None
      else case tx_read F caFile of
        Inl e \<Rightarrow> Inl e
      | Inr data \<Rightarrow>
          (case tx_pem F data of
             None \<Rightarrow> Inl (''loadCA '' @ caFile @ '': AppendCertsFromPEM failed'')
           | Some p \<Rightarrow> Inr (Some p)))"

definition with_client_CAs :: "'p option \<Rightarrow> 'p tls_config \<Rightarrow> 'p tls_config" where
  "with_client_CAs pool cfg =
     (case pool of None \<Rightarrow> cfg | Some p \<Rightarrow> cfg\<lparr>tg_clientCAs := Some p, tg_clientAuth := True\<rparr>)"

definition LoadDefaultConfig :: "'p tls_files \<Rightarrow> string \<Rightarrow> string \<Rightarrow> string \<Rightarrow> string + 'p tls_config" where
  "LoadDefaultConfig F certFile keyFile caFile =
     (case tx_pair F certFile keyFile of
        Some e \<Rightarrow> Inl e
      | None \<Rightarrow>
          Inr (with_client_CAs (case loadCA F caFile of Inl _ \<Rightarrow> None | Inr p \<Rightarrow> p)
                (empty_tls\<lparr>tg_cert := Some (certFile, keyFile)\<rparr>)))"

text \<open>\<open>Inr None\<close>: no configuration, and no error.\<close>

definition LoadServerConfig :: "'p tls_files \<Rightarrow> tls_cfg \<Rightarrow> tls_options option \<Rightarrow> string + 'p tls_config option" where
  "LoadServerConfig F c opts =
     (if tc_cert c = [] \<and> tc_key c = [] then Inr None
      else case tx_pair F (tc_cert c) (tc_key c) of
        Some e \<Rightarrow> Inl e
      | None \<Rightarrow>
          (case loadCA F (tc_ca c) of
             Inl e \<Rightarrow> Inl e
           | Inr pool \<Rightarrow>
               Inr (Some (SetTLSOptions opts
                 (with_client_CAs pool (empty_tls\<lparr>tg_cert := Some (tc_cert c, tc_key c)\<rparr>))))))"

definition LoadClientConfig :: "'p tls_files \<Rightarrow> tls_cfg \<Rightarrow> tls_options option \<Rightarrow> string + 'p tls_config" where
  "LoadClientConfig F c opts =
     (case (if tc_cert c = [] \<and> tc_key c = [] then Inr empty_tls
            else case tx_pair F (tc_cert c) (tc_key c) of
              Some e \<Rightarrow> Inl e
            | None \<Rightarrow> Inr (empty_tls\<lparr>tg_cert := Some (tc_cert c, tc_key c)\<rparr>)) of
        Inl e \<Rightarrow> Inl e
      | Inr cfg \<Rightarrow>
          (case loadCA F (tc_ca c) of
             Inl e \<Rightarrow> Inl e
           | Inr pool \<Rightarrow>
               (let cfg1 = SetTLSOptions opts
                      (cfg\<lparr>tg_rootCAs := pool, tg_serverName := tc_server c, tg_skipVerify := \<not> tc_secure c\<rparr>)
                in Inr (if pool \<noteq> None \<and> \<not> tc_secure c then cfg1\<lparr>tg_verify := pool\<rparr> else cfg1))))"

text \<open>
  What \<open>crypto/tls\<close> makes of a client's configuration: unless told to skip it, it verifies the server's
  certificates for the name under the authorities given (or the system's, \<open>None\<close>), and it calls
  \<open>VerifyConnection\<close>, which verifies them for no name.
\<close>

definition accepts_server :: "('p option \<Rightarrow> string \<Rightarrow> 'c \<Rightarrow> bool) \<Rightarrow> 'p tls_config \<Rightarrow> 'c \<Rightarrow> bool" where
  "accepts_server verifies cfg chain \<longleftrightarrow>
     (tg_skipVerify cfg \<or> verifies (tg_rootCAs cfg) (tg_serverName cfg) chain) \<and>
     (\<forall>p. tg_verify cfg = Some p \<longrightarrow> verifies (Some p) [] chain)"

text \<open>And of a server's, of the client's certificates (none: \<open>None\<close>).\<close>

definition accepts_client :: "('p option \<Rightarrow> string \<Rightarrow> 'c \<Rightarrow> bool) \<Rightarrow> 'p tls_config \<Rightarrow> 'c option \<Rightarrow> bool" where
  "accepts_client verifies cfg client \<longleftrightarrow>
     (tg_clientAuth cfg \<longrightarrow> (\<exists>chain. client = Some chain \<and> verifies (tg_clientCAs cfg) [] chain))"

section \<open>Certificates that are made\<close>

record cert_template =
  ct_ip :: "int option"
  ct_cn :: string
  ct_dns :: "string list"
  ct_before :: int
  ct_after :: int

definition cert_template_for :: "int \<Rightarrow> string \<Rightarrow> int \<Rightarrow> cert_template" where
  "cert_template_for now serverName0 validity =
     (let serverName = (if split_host serverName0 \<noteq> [] then split_host serverName0 else serverName0) in
      case ParseIP serverName of
        Some ip \<Rightarrow> \<lparr>ct_ip = Some ip, ct_cn = [], ct_dns = [], ct_before = now - validity, ct_after = now + validity\<rparr>
      | None \<Rightarrow> \<lparr>ct_ip = None, ct_cn = serverName, ct_dns = [serverName], ct_before = now - validity, ct_after = now + validity\<rparr>)"

definition GenerateCertificate :: "(cert_template \<Rightarrow> string + 'c) \<Rightarrow> bool \<Rightarrow> int \<Rightarrow> string \<Rightarrow> int \<Rightarrow> string + 'c" where
  "GenerateCertificate sign key_ok now serverName validity =
     (if \<not> key_ok then Inl ''invalid private key type'' else sign (cert_template_for now serverName validity))"

section \<open>Names and numbers\<close>

text \<open>Every suite that can be written down is read back, in any case, and nothing else is.\<close>

lemma suite_cases_are_the_named: "map (\<lambda>(n, s). (s, n)) suite_cases = take 22 cipherSuites"
  by (simp add: suite_cases_def cipherSuites_def)

lemma suites_distinct: "distinct (map fst suite_cases)" "distinct (map snd suite_cases)"
  by (simp_all add: suite_cases_def)

lemma upper_lower_char: "upper_char (lower_char c) = upper_char c"
  by (auto simp: upper_char_def lower_char_def)

lemma ToUpper_ToLower [simp]: "ToUpper (ToLower s) = ToUpper s"
  by (simp add: ToUpper_def ToLower_def upper_lower_char o_def)

lemma suite_names_upper: "\<forall>(n, s) \<in> set suite_cases. ToUpper n = n"
  by (simp add: suite_cases_def) (simp add: ToUpper_def upper_char_def)

lemma suite_read_back:
  assumes "(s, n) \<in> set (take 22 cipherSuites)" and "ToUpper v = n"
  shows "suites_of [v] = [s] \<and> CipherSuite_String s = n"
proof -
  have "(n, s) \<in> set suite_cases"
    using assms(1) by (simp add: suite_cases_are_the_named [symmetric]) auto
  then have "map_of suite_cases n = Some s" using suites_distinct(1) by simp
  moreover have "distinct (map fst cipherSuites)" by (simp add: cipherSuites_def)
  then have "map_of cipherSuites s = Some n"
    using assms(1) by (meson in_set_takeD map_of_is_SomeI)
  ultimately show ?thesis using assms(2) by (simp add: suites_of_def CipherSuite_String_def)
qed

text \<open>A suite of TLS 1.3 or a misspelt one is left out; when all are, the defaults of the package stay in force.\<close>

lemma unknown_suites_dropped:
  assumes "\<forall>v \<in> set names. ToUpper v \<notin> fst ` set suite_cases"
  shows "suites_of names = []"
  using assms by (force simp: suites_of_def map_of_eq_None_iff [symmetric] split: option.splits)

lemma tls13_suites_ignored:
  "suites_of [''TLS_AES_128_GCM_SHA256'', ''TLS_AES_256_GCM_SHA384'', ''TLS_CHACHA20_POLY1305_SHA256''] = []"
  by code_simp

text \<open>The name of a version that is recorded is not one that can be configured.\<close>

lemma version_name_not_read_back:
  assumes "(n, s) \<in> set tls_versions"
  shows "version_of 0 s = 0"
proof -
  have "length s \<noteq> 12" using assms by (auto simp: tls_versions_def)
  then show ?thesis by (auto simp: version_of_def Let_def ToLower_def dest: arg_cong [where f = length])
qed

section \<open>Who is accepted\<close>

lemma loadCA_ok:
  assumes "loadCA F f = Inr pool" "f \<noteq> []"
  shows "\<exists>data p. tx_read F f = Inr data \<and> tx_pem F data = Some p \<and> pool = Some p"
  using assms unfolding loadCA_def by (cases "tx_read F f"; cases "tx_pem F (projr (tx_read F f))") auto

text \<open>
  (C13) A client whose configuration names an authority accepts no server without a certificate of that
  authority, whether or not it is told to be secure; a secure one accepts none without the configured name
  either. An authority that cannot be read is an error.
\<close>

theorem ca_binds_server:
  assumes "LoadClientConfig F c opts = Inr cfg" and "tc_ca c \<noteq> []" and "accepts_server verifies cfg chain"
    and unnamed: "\<And>p n ch. verifies p n ch \<Longrightarrow> verifies p [] ch"
  shows "\<exists>data p. tx_read F (tc_ca c) = Inr data \<and> tx_pem F data = Some p \<and> verifies (Some p) [] chain \<and>
           (if tc_secure c then verifies (Some p) (tc_server c) chain else True)"
proof -
  obtain pool where "loadCA F (tc_ca c) = Inr pool"
    using assms(1) by (cases "loadCA F (tc_ca c)") (auto simp: LoadClientConfig_def split: sum.splits)
  then obtain data p where ca: "tx_read F (tc_ca c) = Inr data" "tx_pem F data = Some p"
    using loadCA_ok assms(2) by blast
  then have l: "loadCA F (tc_ca c) = Inr (Some p)" using assms(2) by (simp add: loadCA_def)
  have "tg_rootCAs cfg = Some p" "tg_serverName cfg = tc_server c" "tg_skipVerify cfg \<longleftrightarrow> \<not> tc_secure c"
    "\<not> tc_secure c \<longrightarrow> tg_verify cfg = Some p"
    using assms(1) l
    by (auto simp: LoadClientConfig_def SetTLSOptions_def Let_def split: sum.splits option.splits if_splits)
  then show ?thesis using assms(3) ca unnamed by (auto simp: accepts_server_def)
qed

text \<open>A server's configuration with an authority accepts only clients of that authority.\<close>

lemma server_ca_binds_client:
  assumes "LoadServerConfig F c opts = Inr (Some cfg)" and "tc_ca c \<noteq> []" and "accepts_client verifies cfg client"
  shows "\<exists>data p chain. tx_read F (tc_ca c) = Inr data \<and> tx_pem F data = Some p \<and> client = Some chain \<and>
           verifies (Some p) [] chain"
  using assms
  by (auto simp: LoadServerConfig_def loadCA_def with_client_CAs_def SetTLSOptions_def accepts_client_def empty_tls_def
      split: sum.splits option.splits if_splits)

text \<open>
  The default configuration does not hold to that: when the file of the authority cannot be read or holds
  no certificate, it accepts every client; and so does the certificate made in the place of one that
  cannot be loaded.
\<close>

lemma default_with_unreadable_ca_accepts_all:
  assumes "tx_pair F cert key = None" and "loadCA F ca = Inl e"
  shows "\<exists>cfg. LoadDefaultConfig F cert key ca = Inr cfg \<and> accepts_client verifies cfg client"
  using assms by (simp add: LoadDefaultConfig_def with_client_CAs_def accepts_client_def empty_tls_def)

lemma default_made_accepts_all:
  assumes "tx_pair F (dt_cert d) (dt_key d) = Some e"
    and "BuildDefaultTLSConfig \<lparr>te_load = LoadDefaultConfig F, te_make = \<lambda>v o' n. Inr (empty_tls :: 'p tls_config)\<rparr> (Some d) = Inr cfg"
  shows "accepts_client verifies cfg client"
  using assms by (simp add: BuildDefaultTLSConfig_def LoadDefaultConfig_def genCertificate_def accepts_client_def)
    (auto simp: empty_tls_def)

text \<open>The certificate made for an intercepted name is valid at the moment, for exactly that host.\<close>

lemma template_names_host:
  assumes "0 < validity"
  shows "ct_before (cert_template_for now n validity) < now \<and> now < ct_after (cert_template_for now n validity) \<and>
         (ct_dns (cert_template_for now n validity) = [] \<longleftrightarrow> ct_ip (cert_template_for now n validity) \<noteq> None)"
  using assms by (auto simp: cert_template_for_def Let_def split: option.split)

definition sample_tls_files :: "nat tls_files" where
  "sample_tls_files = \<lparr>tx_pair = (\<lambda>c k. None), tx_read = (\<lambda>f. Inr f), tx_pem = (\<lambda>d. Some (length d))\<rparr>"

definition sample_tls_cfg :: tls_cfg where
  "sample_tls_cfg = \<lparr>tc_cert = [], tc_key = [], tc_ca = ''ca.pem'', tc_secure = True, tc_server = ''h''\<rparr>"

lemma ca_binds_server_witness:
  "\<exists>cfg. LoadClientConfig sample_tls_files sample_tls_cfg None = Inr cfg \<and>
     accepts_server (\<lambda>p n ch. p = Some (6::nat) \<and> (n = [] \<or> n = ch)) cfg ''h'' \<and>
     \<not> accepts_server (\<lambda>p n ch. p = Some (7::nat) \<and> (n = [] \<or> n = ch)) cfg ''h''"
proof -
  let ?cfg = "(empty_tls :: nat tls_config)\<lparr>tg_rootCAs := Some 6, tg_serverName := ''h'', tg_skipVerify := False\<rparr>"
  have l: "LoadClientConfig sample_tls_files sample_tls_cfg None = Inr ?cfg"
    by (simp add: LoadClientConfig_def sample_tls_files_def sample_tls_cfg_def loadCA_def SetTLSOptions_def)
  have "\<not> accepts_server (\<lambda>p n ch. p = Some (7::nat) \<and> (n = [] \<or> n = ch)) ?cfg ''h''"
  proof
    assume a: "accepts_server (\<lambda>p n ch. p = Some (7::nat) \<and> (n = [] \<or> n = ch)) ?cfg ''h''"
    show False using ca_binds_server [OF l _ a] by (simp add: sample_tls_cfg_def sample_tls_files_def)
  qed
  moreover have "accepts_server (\<lambda>p n ch. p = Some (6::nat) \<and> (n = [] \<or> n = ch)) ?cfg ''h''"
    by (simp add: accepts_server_def empty_tls_def)
  ultimately show ?thesis using l by blast
qed

end
