(* ===== verification/Entrypoint.thy ===== *)
theory Entrypoint
  imports TunnelRoute HttpHandler
begin

text \<open>
  A connection to the public entry point of the tunnel handler, \<open>x/handler/tunnel/entrypoint.go\<close>: which
  of the three protocols it speaks, the requests of an HTTP connection, TLS and the relay protocol, the
  dial of a tunnel and what the tunnel is told of the client; the client's address as an HTTP request
  gives it and the recorded part of a body (\<open>x/internal/net/http\<close>).

  The dial of a tunnel, the exchange with it, and writes to the client are parameters; so is whether the
  HTTP transport has an idle connection for the host.
\<close>

section \<open>HTTP requests\<close>

text \<open>\<open>GetClientIP\<close>, by header keys in canonical form; \<open>ip_text\<close> is \<open>IP.String\<close>.\<close>

definition first_forwarded :: "http_header \<Rightarrow> string" where
  "first_forwarded h = hd (Split (hdr_Get h ''X-Forwarded-For'') CHR '','')"

definition GetClientIP :: "http_header \<Rightarrow> int option" where
  "GetClientIP h =
     (let cf = hdr_Get h ''Cf-Connecting-Ip'';
          sip = (if cf = [] then first_forwarded h else cf);
          sip' = (if sip = [] then hdr_Get h ''X-Real-Ip'' else sip)
      in ParseIP sip')"

text \<open>The client's address as the tunnel is told: that of the header, with the port of the connection.\<close>

definition client_addr :: "(int \<Rightarrow> string) \<Rightarrow> string \<Rightarrow> string \<Rightarrow> http_header \<Rightarrow> string" where
  "client_addr ip_text remote recorded h =
     (let ip = (case GetClientIP h of None \<Rightarrow> recorded | Some i \<Rightarrow> ip_text i) in
      if ip \<noteq> [] \<and> split_port remote \<noteq> [] then JoinHostPort ip (split_port remote) else remote)"

text \<open>A body that is read in pieces, with the part that is recorded.\<close>

record http_body =
  hb_buf :: string
  hb_length :: int
  hb_record :: int

definition NewBody :: "int \<Rightarrow> http_body" where
  "NewBody maxRecordSize = \<lparr>hb_buf = [], hb_length = 0, hb_record = maxRecordSize\<rparr>"

definition body_Read :: "string \<Rightarrow> http_body \<Rightarrow> http_body" where
  "body_Read piece b =
     (let b1 = b\<lparr>hb_length := hb_length b + int (length piece)\<rparr> in
      if hb_record b > 0 then
        b1\<lparr>hb_buf := hb_buf b @ (if int (length piece) > hb_record b then take (nat (hb_record b)) piece else piece),
           hb_record := hb_record b - int (length piece)\<rparr>
      else b1)"

section \<open>The world of a connection\<close>

datatype 't ep_action =
  EpOpened 't
| EpTold string string
| EpClosed
| EpSent http_req
| EpReply int http_header
| EpStatus nat
| EpSwitched
| EpTransfer

text \<open>\<open>ep_open\<close> gives the node whose connector took the connection; \<open>ep_tell\<close> the error of telling the tunnel.\<close>

record ('u, 't) ep_world =
  ep_handler :: "('u, 't) tunnel_handler"
  ep_node :: string
  ep_open :: "string \<Rightarrow> 't \<Rightarrow> string + string"
  ep_tell :: "string \<Rightarrow> string \<Rightarrow> go_error"
  ep_exchange :: "http_req \<Rightarrow> string + http_resp"
  ep_write :: "http_resp \<Rightarrow> go_error"
  ep_tokens :: "http_header \<Rightarrow> bool"

definition ep_dial :: "('u, 't) ep_world \<Rightarrow> string \<Rightarrow> string \<Rightarrow> 't ep_action list \<times> (string \<times> bool) option" where
  "ep_dial W client a =
     (case entrypoint_dial (ep_handler W) a of
        Refused e \<Rightarrow> ([], Some (e, True))
      | Bound t h n \<Rightarrow> ([], Some ([], True))
      | Reached tid \<Rightarrow>
          (case ep_open W ''tcp'' tid of
             Inl e \<Rightarrow> ([], Some (e, False))
           | Inr node \<Rightarrow>
               if node = ep_node W then
                 (case ep_tell W client a of
                    Some e \<Rightarrow> ([EpOpened tid, EpTold client a, EpClosed], Some (e, False))
                  | None \<Rightarrow> ([EpOpened tid, EpTold client a], None))
               else ([EpOpened tid], None)))"

section \<open>HTTP\<close>

definition ep_host :: "string \<Rightarrow> string" where
  "ep_host host = (if split_port host = [] then JoinHostPort (trim_brackets host) ''80'' else host)"

definition ep_request :: "string \<Rightarrow> string \<Rightarrow> http_req \<Rightarrow> http_req" where
  "ep_request node sid q =
     (let h = (if hdr_Get (hq_header q) ''Gost-Sid'' \<noteq> [] then hq_header q else hdr_Set ''Gost-Sid'' sid (hq_header q)) in
      q\<lparr>hq_header := hdr_Set ''Gost-Forwarded-Node'' node h,
        hq_scheme := (if hq_scheme q = [] then ''http'' else hq_scheme q),
        hq_url := (if hq_url q = [] then hq_host q else hq_url q)\<rparr>)"

definition ep_upgradeType :: "('u, 't) ep_world \<Rightarrow> http_header \<Rightarrow> string" where
  "ep_upgradeType W h = (if ep_tokens W h then hdr_Get h ''Upgrade'' else [])"

definition ep_handleUpgrade :: "('u, 't) ep_world \<Rightarrow> http_req \<Rightarrow> http_resp \<Rightarrow> 't ep_action list \<times> go_error" where
  "ep_handleUpgrade W q r =
     (if \<not> EqualFold (ep_upgradeType W (hq_header q)) (ep_upgradeType W (hs_header r))
      then ([], Some ''backend tried to switch protocol'')
      else case ep_write W r of
        Some e \<Rightarrow> ([EpReply (hs_code r) (hs_header r), EpClosed], Some (''response write: '' @ e))
      | None \<Rightarrow> ([EpReply (hs_code r) (hs_header r), EpSwitched, EpClosed], nil_error))"

text \<open>
  One request. The transport dials the tunnel of the host of the URL, unless it has an idle connection
  (\<open>idle\<close>). \<open>rec\<close> is the client's address recorded before.
\<close>

definition ep_httpRoundTrip ::
  "('u, 't) ep_world \<Rightarrow> (int \<Rightarrow> string) \<Rightarrow> string \<Rightarrow> string \<Rightarrow> string \<Rightarrow> bool \<Rightarrow> http_req \<Rightarrow> 't ep_action list \<times> go_error" where
  "ep_httpRoundTrip W ip_text remote rec sid idle q =
     (let q1 = ep_request (ep_node W) sid q;
          dialled = (if idle then ([], None)
                     else ep_dial W (client_addr ip_text remote rec (hq_header q1)) (ep_host (hq_url q1)))
      in case dialled of
           (as, Some (e, no_route)) \<Rightarrow>
             (as @ [EpReply (if no_route then 502 else 503) Map.empty], Some e)
         | (as, None) \<Rightarrow>
             (case ep_exchange W q1 of
                Inl e \<Rightarrow> (as @ [EpSent q1, EpReply 503 Map.empty], Some e)
              | Inr r \<Rightarrow>
                  if hs_code r = 101 then
                    (as @ EpSent q1 # fst (ep_handleUpgrade W q1 r), snd (ep_handleUpgrade W q1 r))
                  else
                    (as @ [EpSent q1, EpReply (hs_code r) (hs_header r)],
                     map_option (\<lambda>e. ''write response: '' @ e) (ep_write W r))))"

text \<open>The requests of a connection, each with its world, until one fails; the last read ends with \<open>fin\<close>.\<close>

fun ep_requests ::
  "(int \<Rightarrow> string) \<Rightarrow> string \<Rightarrow> string \<Rightarrow> string \<Rightarrow> go_error \<Rightarrow> (('u, 't) ep_world \<times> bool \<times> http_req) list \<Rightarrow>
   't ep_action list \<times> go_error" where
  "ep_requests ip_text remote rec sid fin [] = ([], fin)"
| "ep_requests ip_text remote rec sid fin ((W, idle, q) # qs) =
     (case ep_httpRoundTrip W ip_text remote rec sid idle q of
        (as, Some e) \<Rightarrow> (as, Some e)
      | (as, None) \<Rightarrow>
          (as @ fst (ep_requests ip_text remote rec sid fin qs), snd (ep_requests ip_text remote rec sid fin qs)))"

section \<open>TLS and relay\<close>

definition ep_HandleTLS :: "('u, 't) ep_world \<Rightarrow> string \<Rightarrow> string + string \<Rightarrow> go_error \<times> go_error \<Rightarrow> 't ep_action list \<times> go_error" where
  "ep_HandleTLS W remote hello copy =
     (case hello of
        Inl e \<Rightarrow> ([], Some e)
      | Inr name \<Rightarrow>
          (let host = (if name = [] then [] else if SplitHostPort name = None then JoinHostPort (trim_brackets name) ''443'' else name) in
           case ep_dial W remote host of
             (as, Some (e, _)) \<Rightarrow> (as, Some e)
           | (as, None) \<Rightarrow>
               (case fst copy of
                  Some e \<Rightarrow> (as @ [EpClosed], Some e)
                | None \<Rightarrow> (as @ [EpTransfer, EpClosed], snd copy))))"

text \<open>The statuses of the relay protocol are those of its package.\<close>

record relay_status =
  rs_ok :: nat
  rs_bad :: nat
  rs_unavailable :: nat

definition ep_handleConnect ::
  "('u, 't) ep_world \<Rightarrow> relay_status \<Rightarrow> string + 't feature list \<Rightarrow> go_error \<Rightarrow> 't ep_action list \<times> go_error" where
  "ep_handleConnect W S req answered =
     (case req of
        Inl e \<Rightarrow> ([], Some e)
      | Inr fs \<Rightarrow>
          (case entrypoint_connect (th_ids (ep_handler W)) fs of
             Reached tid \<Rightarrow>
               (let q = read_features (th_ids (ep_handler W)) (filter (\<lambda>f. case f of UserAuth _ _ \<Rightarrow> False | _ \<Rightarrow> True) fs) in
                case ep_open W (tq_network q) tid of
                  Inl e \<Rightarrow> ([EpStatus (rs_unavailable S)], Some e)
                | Inr node \<Rightarrow>
                    (case answered of
                       Some e \<Rightarrow> ([EpOpened tid, EpStatus (rs_ok S), EpClosed], Some e)
                     | None \<Rightarrow>
                         ([EpOpened tid, EpStatus (rs_ok S), EpTold (tq_src q) (tq_dst q), EpTransfer, EpClosed], nil_error)))
           | _ \<Rightarrow> ([EpStatus (rs_bad S)], Some ''invalid tunnel ID'')))"

section \<open>A connection\<close>

text \<open>The first byte decides: the version of the relay protocol, a TLS handshake, or else HTTP.\<close>

record ('u, 't) ep_client =
  ec_first :: "string + nat"
  ec_relay :: "string + 't feature list"
  ec_answered :: go_error
  ec_hello :: "string + string"
  ec_copy :: "go_error \<times> go_error"
  ec_requests :: "string + (('u, 't) ep_world \<times> bool \<times> http_req) list"
  ec_fin :: go_error

definition ep_Handle ::
  "nat \<Rightarrow> nat \<Rightarrow> relay_status \<Rightarrow> ('u, 't) ep_world \<Rightarrow> (int \<Rightarrow> string) \<Rightarrow> string \<Rightarrow> string \<Rightarrow> ('u, 't) ep_client \<Rightarrow>
   't ep_action list \<times> go_error" where
  "ep_Handle version handshake S W ip_text remote sid c =
     (case ec_first c of
        Inl e \<Rightarrow> ([], Some e)
      | Inr b \<Rightarrow>
          if b = version then ep_handleConnect W S (ec_relay c) (ec_answered c)
          else if b = handshake then ep_HandleTLS W remote (ec_hello c) (ec_copy c)
          else (case ec_requests c of
            Inl e \<Rightarrow> ([], Some e)
          | Inr qs \<Rightarrow> ep_requests ip_text remote (split_host remote) sid (ec_fin c) qs))"

section \<open>Properties\<close>

text \<open>The record holds the first bytes of the body up to its size, and the length of all of it.\<close>

definition read_all :: "string list \<Rightarrow> http_body \<Rightarrow> http_body" where
  "read_all pieces b = fold body_Read pieces b"

lemma read_all_record:
  "hb_buf (read_all ps b) = hb_buf b @ take (nat (hb_record b)) (concat ps) \<and>
   hb_length (read_all ps b) = hb_length b + int (length (concat ps))"
proof (induction ps arbitrary: b)
  case (Cons p ps)
  have "read_all (p # ps) b = read_all ps (body_Read p b)" by (simp add: read_all_def)
  then show ?case
    using Cons [of "body_Read p b"] by (auto simp: body_Read_def Let_def nat_diff_distrib take_append)
qed (simp add: read_all_def)

corollary recorded_body_is_prefix:
  "hb_buf (read_all ps (NewBody n)) = take (nat n) (concat ps)"
  using read_all_record [of ps "NewBody n"] by (simp add: NewBody_def)

text \<open>What is opened over HTTP and TLS is a public tunnel that a rule of the ingress gives for a host.\<close>

definition public_tunnel :: "('u, 't) ep_world \<Rightarrow> 't \<Rightarrow> bool" where
  "public_tunnel W t \<longleftrightarrow> (\<exists>host. entrypoint_dial (ep_handler W) host = Reached t)"

lemma public_tunnel_is_public:
  assumes "public_tunnel W t"
  shows "\<not> ri_private (th_ids (ep_handler W)) t \<and> \<not> ri_zero (th_ids (ep_handler W)) t"
  using assms by (auto simp: public_tunnel_def entrypoint_dial_def Let_def split: if_splits)

lemma public_tunnel_has_rule:
  assumes "public_tunnel W t" and "ri_zero (th_ids (ep_handler W)) (ri_none (th_ids (ep_handler W)))"
  shows "\<exists>get host r. th_ingress (ep_handler W) = Some get \<and> get host = Some r \<and>
           t = parseTunnelID (th_ids (ep_handler W)) (ir_endpoint r)"
  using assms by (auto simp: public_tunnel_def entrypoint_dial_def Let_def split: if_splits option.splits)

lemma ep_dial_opens: "EpOpened t \<in> set (fst (ep_dial W client a)) \<Longrightarrow> public_tunnel W t"
  by (auto simp: ep_dial_def public_tunnel_def split: reached.splits sum.splits option.splits if_splits)

lemma roundtrip_opens:
  assumes "EpOpened t \<in> set (fst (ep_httpRoundTrip W ip_text remote rec sid idle q))"
  shows "public_tunnel W t"
proof -
  obtain as d where d: "ep_dial W (client_addr ip_text remote rec (hq_header (ep_request (ep_node W) sid q)))
      (ep_host (hq_url (ep_request (ep_node W) sid q))) = (as, d)" by fastforce
  have u: "EpOpened t \<notin> set (fst (ep_handleUpgrade W q' r))" for q' r
    by (auto simp: ep_handleUpgrade_def split: option.splits)
  have "EpOpened t \<in> set as \<and> \<not> idle"
    using assms d u by (auto simp: ep_httpRoundTrip_def Let_def split: if_splits option.splits sum.splits)
  then have "EpOpened t \<in> set (fst (ep_dial W (client_addr ip_text remote rec (hq_header (ep_request (ep_node W) sid q)))
      (ep_host (hq_url (ep_request (ep_node W) sid q)))))" using d by simp
  then show ?thesis by (rule ep_dial_opens)
qed

lemma requests_open:
  "EpOpened t \<in> set (fst (ep_requests ip_text remote rec sid fin qs)) \<Longrightarrow> \<exists>x \<in> set qs. public_tunnel (fst x) t"
proof (induction qs)
  case (Cons x qs)
  obtain W idle q where x: "x = (W, idle, q)" by (metis prod_cases3)
  obtain as e where r: "ep_httpRoundTrip W ip_text remote rec sid idle q = (as, e)" by fastforce
  have "EpOpened t \<in> set as \<or> EpOpened t \<in> set (fst (ep_requests ip_text remote rec sid fin qs))"
    using Cons.prems x r by (cases e) auto
  then show ?case
  proof
    assume "EpOpened t \<in> set as"
    then show ?thesis using roundtrip_opens [of t W ip_text remote rec sid idle q] r x by auto
  next
    assume "EpOpened t \<in> set (fst (ep_requests ip_text remote rec sid fin qs))"
    then show ?thesis using Cons.IH by auto
  qed
qed simp

text \<open>
  Over HTTP and TLS the entry point opens only public tunnels, each by a rule of the ingress; only the
  relay protocol opens the tunnel its client names.
\<close>

theorem entrypoint_opens_public_tunnels:
  assumes "EpOpened t \<in> set (fst (ep_Handle version handshake S W ip_text remote sid c))"
  shows "(\<exists>fs. ec_first c = Inr version \<and> ec_relay c = Inr fs \<and> entrypoint_connect (th_ids (ep_handler W)) fs = Reached t) \<or>
         public_tunnel W t \<or>
         (\<exists>qs. ec_requests c = Inr qs \<and> (\<exists>x \<in> set qs. public_tunnel (fst x) t))"
proof -
  have relay: "\<exists>fs. req = Inr fs \<and> entrypoint_connect (th_ids (ep_handler W)) fs = Reached t"
    if "EpOpened t \<in> set (fst (ep_handleConnect W S req a))" for req a
    using that by (auto simp: ep_handleConnect_def Let_def split: sum.splits reached.splits option.splits)
  have tls: "public_tunnel W t" if opened: "EpOpened t \<in> set (fst (ep_HandleTLS W remote hello copy))" for hello copy
  proof -
    obtain name where n: "hello = Inr name"
      using opened by (auto simp: ep_HandleTLS_def split: sum.splits)
    define host where "host = (if name = [] then [] else if SplitHostPort name = None then JoinHostPort (trim_brackets name) ''443'' else name)"
    obtain as d where d: "ep_dial W remote host = (as, d)" by fastforce
    have "EpOpened t \<in> set as"
      using opened n d by (auto simp: ep_HandleTLS_def host_def [symmetric] Let_def split: option.splits)
    then show ?thesis using ep_dial_opens [of t W remote host] d by simp
  qed
  show ?thesis
    using assms relay tls
    by (auto simp: ep_Handle_def split: sum.splits if_splits dest!: requests_open)
qed

text \<open>Every request names the node and a session id, which the client can choose.\<close>

lemma request_names_node:
  "hdr_Get (hq_header (ep_request node sid q)) ''Gost-Forwarded-Node'' = node \<and>
   (hdr_Get (hq_header q) ''Gost-Sid'' = [] \<longrightarrow> hdr_Get (hq_header (ep_request node sid q)) ''Gost-Sid'' = sid)"
  by (simp add: ep_request_def hdr_Get_def hdr_Set_def Let_def)

text \<open>
  A response whose body ends with the connection does not end it: the entry point goes on reading
  requests, where the proxies close.
\<close>

lemma entrypoint_outlives_unframed_response:
  assumes "ep_exchange W (ep_request (ep_node W) sid q) = Inr r" "hs_code r \<noteq> 101" "hs_length r = -1" "hs_close r"
    and "ep_write W r = None"
  shows "ep_requests ip_text remote rec sid fin ((W, True, q) # qs) =
         ([EpSent (ep_request (ep_node W) sid q), EpReply (hs_code r) (hs_header r)] @ fst (ep_requests ip_text remote rec sid fin qs),
          snd (ep_requests ip_text remote rec sid fin qs))"
  using assms by (simp add: ep_httpRoundTrip_def Let_def)

lemma proxy_closes_unframed_response:
  assumes "ow_roundtrip W (forwarded q) = Inr r" "hq_url (forwarded q) \<noteq> []" "hs_code r \<noteq> 101" "hs_length r = -1"
    and "md_bypass M = None" "\<And>x. ow_write W x = None"
  shows "fst (snd (proxyRoundTrip M W q))"
  using assms by (simp add: proxyRoundTrip_def RoundTrip_def Let_def)

text \<open>The address the tunnel is told is the one the client writes into its request.\<close>

lemma client_names_its_address:
  assumes "hdr_Get (hq_header q) ''Cf-Connecting-Ip'' = s" "s \<noteq> []" "ParseIP s = Some ip" "ip_text ip \<noteq> []" "split_port remote \<noteq> []"
  shows "client_addr ip_text remote rec (hq_header q) = JoinHostPort (ip_text ip) (split_port remote)"
  using assms by (simp add: client_addr_def GetClientIP_def Let_def)

text \<open>An idle connection is used without the rule: a tunnel stays reachable after its rule is gone.\<close>

lemma idle_connection_needs_no_rule:
  assumes "ep_exchange W (ep_request (ep_node W) sid q) = Inr r" "hs_code r \<noteq> 101"
  shows "EpReply (hs_code r) (hs_header r) \<in> set (fst (ep_httpRoundTrip W ip_text remote rec sid True q))"
  using assms by (simp add: ep_httpRoundTrip_def Let_def)

end
