(* ===== verification/PlainTunnel.thy ===== *)
theory PlainTunnel
  imports Base64 GoNet
begin

text \<open>
  The plain HTTP tunnel, \<open>x/internal/util/pht\<close>: a connection as a series of HTTP requests. The client
  gets a token, pushes what it writes in one request each and pulls what it reads in long requests,
  whose answer is a line of base64 for each piece; the server joins the requests of a token to one side
  of a pipe, whose other side it hands to the listener.

  The pipe's reads and writes and the carriage of the requests are parameters. Bytes are characters.
\<close>

section \<open>The standard encoding\<close>

fun std_chars :: "nat list \<Rightarrow> string" where
  "std_chars [] = []"
| "std_chars [a] = map ((!) b64_std) (to_sextets [a]) @ ''==''"
| "std_chars [a, b] = map ((!) b64_std) (to_sextets [a, b]) @ ''=''"
| "std_chars (a # b # c # r) = map ((!) b64_std) (to_sextets [a, b, c]) @ std_chars r"

definition Std_Encode :: "string \<Rightarrow> string" where
  "Std_Encode s = std_chars (nats_of s)"

section \<open>The server\<close>

text \<open>
  \<open>pt_conns\<close> is the map of tokens, \<open>pt_queue\<close> the connections not yet accepted, \<open>pt_down\<close> the pipes the
  handlers have closed.
\<close>

record pt_server =
  pt_conns :: "string \<rightharpoonup> nat"
  pt_queue :: "nat list"
  pt_backlog :: nat
  pt_closed :: bool
  pt_down :: "nat list"

definition pt_NewServer :: "int \<Rightarrow> pt_server" where
  "pt_NewServer backlog =
     \<lparr>pt_conns = Map.empty, pt_queue = [], pt_backlog = (if backlog \<le> 0 then 128 else nat backlog),
      pt_closed = False, pt_down = []\<rparr>"

definition pt_handleAuthorize :: "nat \<Rightarrow> string \<Rightarrow> pt_server \<Rightarrow> (int \<times> string) \<times> pt_server" where
  "pt_handleAuthorize n cid s =
     (if length (pt_queue s) < pt_backlog s
      then ((200, ''token='' @ cid), s\<lparr>pt_queue := pt_queue s @ [n], pt_conns := (pt_conns s)(cid \<mapsto> n)\<rparr>)
      else ((429, []), s\<lparr>pt_down := n # pt_down s\<rparr>))"

text \<open>\<open>Accept\<close>; a connection waiting may be given even when the server is closed.\<close>

definition pt_Accept :: "pt_server \<Rightarrow> (string + nat) option \<times> pt_server" where
  "pt_Accept s =
     (case pt_queue s of
        n # ns \<Rightarrow> (Some (Inr n), s\<lparr>pt_queue := ns\<rparr>)
      | [] \<Rightarrow> ((if pt_closed s then Some (Inl ''http: Server closed'') else None), s))"

definition pt_drop :: "string \<Rightarrow> nat \<Rightarrow> pt_server \<Rightarrow> pt_server" where
  "pt_drop cid n s = s\<lparr>pt_conns := (pt_conns s)(cid := None), pt_down := n # pt_down s\<rparr>"

text \<open>\<open>ReadString\<close> up to a line end; \<open>fin\<close> is how the body ends without one, \<open>None\<close> for its plain end.\<close>

datatype line_read = Line string | NoLine go_error

definition ReadLine :: "string \<Rightarrow> go_error \<Rightarrow> line_read" where
  "ReadLine body fin =
     (if CHR 0x0A \<in> set body then Line (takeWhile (\<lambda>c. c \<noteq> CHR 0x0A) body) else NoLine fin)"

text \<open>
  The status of the answer, what is written to the pipe, and the server after it. \<open>token\<close> is \<open>None\<close>
  when the form cannot be parsed.
\<close>

definition pt_handlePush ::
  "string \<Rightarrow> string option \<Rightarrow> string \<Rightarrow> go_error \<Rightarrow> (string \<Rightarrow> go_error) \<Rightarrow> pt_server \<Rightarrow> (int \<times> (nat \<times> string) list) \<times> pt_server" where
  "pt_handlePush method token body fin pipe s =
     (if method \<noteq> ''POST'' then ((400, []), s)
      else case token of
        None \<Rightarrow> ((400, []), s)
      | Some cid \<Rightarrow>
          (case pt_conns s cid of
             None \<Rightarrow> ((403, []), s)
           | Some n \<Rightarrow>
               (case ReadLine body fin of
                  NoLine e \<Rightarrow> ((if e = None then 200 else 206, []), pt_drop cid n s)
                | Line l \<Rightarrow>
                    if l = [] then ((200, []), s)
                    else case Std_Decode l of
                      None \<Rightarrow> ((400, []), pt_drop cid n s)
                    | Some b \<Rightarrow>
                        (case pipe b of
                           None \<Rightarrow> ((200, [(n, b)]), s)
                         | Some e \<Rightarrow> ((410, []), pt_drop cid n s)))))"

text \<open>What a read of the pipe gives, and whether the line for it could be flushed to the client.\<close>

datatype pipe_read = Piece string bool | TimedOut | AtEnd | Broken

fun pt_pull_loop :: "string \<Rightarrow> nat \<Rightarrow> pipe_read list \<Rightarrow> pt_server \<Rightarrow> string list \<times> pt_server" where
  "pt_pull_loop cid n [] s = ([], s)"
| "pt_pull_loop cid n (Piece b flushed # rs) s =
     (if flushed then (Std_Encode b # fst (pt_pull_loop cid n rs s), snd (pt_pull_loop cid n rs s)) else ([], s))"
| "pt_pull_loop cid n (TimedOut # rs) s = ([[]], s)"
| "pt_pull_loop cid n (AtEnd # rs) s = ([], s)"
| "pt_pull_loop cid n (Broken # rs) s = ([], pt_drop cid n s)"

definition pt_handlePull :: "string \<Rightarrow> string option \<Rightarrow> pipe_read list \<Rightarrow> pt_server \<Rightarrow> (int \<times> string list) \<times> pt_server" where
  "pt_handlePull method token reads s =
     (if method \<noteq> ''GET'' then ((400, []), s)
      else case token of
        None \<Rightarrow> ((400, []), s)
      | Some cid \<Rightarrow>
          (case pt_conns s cid of
             None \<Rightarrow> ((403, []), s)
           | Some n \<Rightarrow> ((200, fst (pt_pull_loop cid n reads s)), snd (pt_pull_loop cid n reads s))))"

section \<open>The client's connection\<close>

text \<open>\<open>pk_loop\<close>: the goroutine that pulls is running; \<open>pk_rx\<close> is the channel it fills.\<close>

record pt_conn =
  pk_closed :: bool
  pk_buf :: string
  pk_rx :: "string list"
  pk_loop :: bool

datatype read_result = Got string | ReadError string | Blocked

definition ErrClosedPipe :: string where
  "ErrClosedPipe = ''io: read/write on closed pipe''"

definition copy_out :: "nat \<Rightarrow> string \<Rightarrow> pt_conn \<Rightarrow> read_result \<times> pt_conn" where
  "copy_out k b c = (Got (take k b), c\<lparr>pk_buf := drop k b\<rparr>)"

text \<open>\<open>Read\<close> into \<open>k\<close> bytes. When a piece waits and the connection is closed the choice is free.\<close>

definition pt_Read :: "bool \<Rightarrow> nat \<Rightarrow> pt_conn \<Rightarrow> read_result \<times> pt_conn" where
  "pt_Read prefer_closed k c =
     (if pk_buf c \<noteq> [] then copy_out k (pk_buf c) c
      else case pk_rx c of
        b # bs \<Rightarrow>
          if pk_closed c \<and> prefer_closed then (ReadError ErrClosedPipe, c)
          else copy_out k b (c\<lparr>pk_rx := bs\<rparr>)
      | [] \<Rightarrow> if pk_closed c then (ReadError ErrClosedPipe, c) else (Blocked, c))"

text \<open>\<open>write\<close>: the bytes written, the error, and the bodies of the requests sent.\<close>

definition pt_write :: "(string \<Rightarrow> string + int) \<Rightarrow> string \<Rightarrow> pt_conn \<Rightarrow> nat \<times> go_error \<times> string list" where
  "pt_write push b c =
     (if pk_closed c then (0, Some ErrClosedPipe, [])
      else
        (let body = (if b = [] then [] else Std_Encode b @ [CHR 0x0A]) in
         case push body of
           Inl e \<Rightarrow> (0, Some e, [body])
         | Inr status \<Rightarrow> if status \<noteq> 200 then (0, Some ''status'', [body]) else (length b, None, [body])))"

definition pt_Write :: "(string \<Rightarrow> string + int) \<Rightarrow> string \<Rightarrow> pt_conn \<Rightarrow> nat \<times> go_error \<times> string list" where
  "pt_Write push b c = (if b = [] then (0, None, []) else pt_write push b c)"

definition pt_Close :: "(string \<Rightarrow> string + int) \<Rightarrow> pt_conn \<Rightarrow> (go_error \<times> string list) \<times> pt_conn" where
  "pt_Close push c =
     (if pk_closed c then ((None, []), c)
      else
        (let c1 = c\<lparr>pk_closed := True\<rparr> in
         case pt_write push [] c1 of (n, e, sent) \<Rightarrow> ((e, sent), c1)))"

text \<open>
  The lines of one answer: a blank one is skipped, one that does not decode or exceeds the scanner's
  token size ends it with an error. The pieces received, and whether all went well.
\<close>

definition MaxScanTokenSize :: nat where
  "MaxScanTokenSize = 65536"

fun pt_scan_lines :: "string list \<Rightarrow> string list \<times> bool" where
  "pt_scan_lines [] = ([], True)"
| "pt_scan_lines (l # ls) =
     (if length l \<ge> MaxScanTokenSize then ([], False)
      else if l = [] then pt_scan_lines ls
      else case Std_Decode l of
        None \<Rightarrow> ([], False)
      | Some b \<Rightarrow> (b # fst (pt_scan_lines ls), snd (pt_scan_lines ls)))"

text \<open>The loop over the answers: an error, or status, lines and how the body ended.\<close>

fun pt_readLoop :: "(string + int \<times> string list \<times> go_error) list \<Rightarrow> pt_conn \<Rightarrow> pt_conn" where
  "pt_readLoop [] c = c"
| "pt_readLoop (r # rs) c =
     (if pk_closed c then c\<lparr>pk_loop := False\<rparr>
      else case r of
        Inl e \<Rightarrow> c\<lparr>pk_closed := True, pk_loop := False\<rparr>
      | Inr (status, ls, fin) \<Rightarrow>
          if status \<noteq> 200 then c\<lparr>pk_closed := True, pk_loop := False\<rparr>
          else
            (let c1 = c\<lparr>pk_rx := pk_rx c @ fst (pt_scan_lines ls)\<rparr> in
             if \<not> snd (pt_scan_lines ls) \<or> fin \<noteq> None then c1\<lparr>pk_closed := True, pk_loop := False\<rparr>
             else if ls = [] then c1\<lparr>pk_loop := False\<rparr>
             else pt_readLoop rs c1))"

section \<open>The client\<close>

definition pt_token :: "string \<Rightarrow> string + string" where
  "pt_token body =
     (let token = (if HasPrefix body ''token='' then drop 6 body else []) in
      if token = [] then Inl ''authorize failed'' else Inr token)"

definition pt_url :: "bool \<Rightarrow> string \<Rightarrow> string \<Rightarrow> string \<Rightarrow> string" where
  "pt_url tls addr path token =
     (if tls then ''https'' else ''http'') @ ''://'' @ addr @ path @ ''?token='' @ token"

definition pt_new_conn :: pt_conn where
  "pt_new_conn = \<lparr>pk_closed = False, pk_buf = [], pk_rx = [], pk_loop = True\<rparr>"

text \<open>\<open>port\<close> is that of the resolved address; \<open>get\<close> fetches the body of the authorisation.\<close>

definition pt_Dial ::
  "bool \<Rightarrow> string \<Rightarrow> string \<Rightarrow> string \<Rightarrow> string \<Rightarrow> (string \<Rightarrow> string + nat) \<Rightarrow> (string \<Rightarrow> string + string) \<Rightarrow> string \<Rightarrow>
   string + pt_conn \<times> string \<times> string" where
  "pt_Dial tls host authorizePath pushPath pullPath port get addr =
     (case port addr of
        Inl e \<Rightarrow> Inl e
      | Inr p \<Rightarrow>
          (let a = (if host = [] then addr else JoinHostPort host (show_nat p)) in
           case get ((if tls then ''https'' else ''http'') @ ''://'' @ a @ authorizePath) of
             Inl e \<Rightarrow> Inl e
           | Inr body \<Rightarrow>
               (case pt_token body of
                  Inl e \<Rightarrow> Inl e
                | Inr token \<Rightarrow> Inr (pt_new_conn, pt_url tls a pushPath token, pt_url tls a pullPath token))))"

section \<open>The encoding\<close>

lemma std_index: "i < 64 \<Longrightarrow> IndexByte b64_std (b64_std ! i) = Some i"
proof -
  have "list_all (\<lambda>i. IndexByte b64_std (b64_std ! i) = Some i) [0..<64]" by code_simp
  then show "i < 64 \<Longrightarrow> ?thesis" by (simp add: list_all_iff)
qed

lemma std_plain: "i < 64 \<Longrightarrow> b64_std ! i \<noteq> CHR 0x0A \<and> b64_std ! i \<noteq> CHR 0x0D \<and> b64_std ! i \<noteq> CHR ''=''"
proof -
  have "list_all (\<lambda>i. b64_std ! i \<noteq> CHR 0x0A \<and> b64_std ! i \<noteq> CHR 0x0D \<and> b64_std ! i \<noteq> CHR ''='') [0..<64]" by code_simp
  then show "i < 64 \<Longrightarrow> ?thesis" by (simp add: list_all_iff)
qed

lemma sextets_in_std: "\<forall>x\<in>set xs. x < 64 \<Longrightarrow> sextets_in b64_std (map ((!) b64_std) xs) = Some xs"
  by (induction xs) (auto simp: sextets_in_def std_index)

lemma std_chars_clean: "\<forall>b\<in>set bs. b < 256 \<Longrightarrow> CHR 0x0A \<notin> set (std_chars bs) \<and> CHR 0x0D \<notin> set (std_chars bs)"
proof (induction bs rule: std_chars.induct)
  case (4 a b c r)
  have "\<forall>x \<in> set (to_sextets [a, b, c]). b64_std ! x \<noteq> CHR 0x0A \<and> b64_std ! x \<noteq> CHR 0x0D"
    using sextets_bound [of "[a, b, c]"] 4 std_plain by auto
  then show ?case using 4 by auto
next
  case (2 a)
  have "\<forall>x \<in> set (to_sextets [a]). b64_std ! x \<noteq> CHR 0x0A \<and> b64_std ! x \<noteq> CHR 0x0D"
    using sextets_bound [of "[a]"] 2 std_plain by auto
  then show ?case by auto
next
  case (3 a b)
  have "\<forall>x \<in> set (to_sextets [a, b]). b64_std ! x \<noteq> CHR 0x0A \<and> b64_std ! x \<noteq> CHR 0x0D"
    using sextets_bound [of "[a, b]"] 3 std_plain by auto
  then show ?case by auto
qed simp

lemma std_groups_chars: "\<forall>b\<in>set bs. b < 256 \<Longrightarrow> std_groups (std_chars bs) = Some bs"
proof (induction bs rule: std_chars.induct)
  case (2 a)
  have "sextets_in b64_std (map ((!) b64_std) (to_sextets [a])) = Some (to_sextets [a])"
    using sextets_bound [of "[a]"] 2 by (intro sextets_in_std) auto
  then show ?case using of_to_sextets [of "[a]"] 2 by simp
next
  case (3 a b)
  have "sextets_in b64_std (map ((!) b64_std) (to_sextets [a, b])) = Some (to_sextets [a, b])"
    using sextets_bound [of "[a, b]"] 3 by (intro sextets_in_std) auto
  moreover have "b64_std ! (b mod 16 * 4) \<noteq> CHR ''=''" by (intro conjunct2 [OF conjunct2 [OF std_plain]]) simp
  ultimately show ?case using of_to_sextets [of "[a, b]"] 3 by simp
next
  case (4 a b c r)
  have "sextets_in b64_std (map ((!) b64_std) (to_sextets [a, b, c])) = Some (to_sextets [a, b, c])"
    using sextets_bound [of "[a, b, c]"] 4 by (intro sextets_in_std) auto
  moreover have "b64_std ! (c mod 64) \<noteq> CHR ''=''" using std_plain [of "c mod 64"] by simp
  ultimately show ?case using of_to_sextets [of "[a, b, c]"] 4 by simp
qed simp

lemma no_newlines_id: "CHR 0x0A \<notin> set s \<Longrightarrow> CHR 0x0D \<notin> set s \<Longrightarrow> no_newlines s = s"
  by (induction s) (auto simp: no_newlines_def)

lemma Std_Encode_clean: "CHR 0x0A \<notin> set (Std_Encode s)" "CHR 0x0D \<notin> set (Std_Encode s)"
  using std_chars_clean [of "nats_of s"] nats_of_bound by (auto simp: Std_Encode_def)

lemma Std_roundtrip [simp]: "Std_Decode (Std_Encode s) = Some s"
proof -
  have "std_groups (no_newlines (Std_Encode s)) = Some (nats_of s)"
    using std_groups_chars [of "nats_of s"] nats_of_bound Std_Encode_clean [of s]
    by (simp add: no_newlines_id Std_Encode_def)
  then show ?thesis by (simp add: Std_Decode_def)
qed

lemma length_std_chars: "length (std_chars bs) = 4 * ((length bs + 2) div 3)"
proof (induction bs rule: std_chars.induct)
  case (4 a b c r)
  have "(length (a # b # c # r) + 2) div 3 = Suc ((length r + 2) div 3)" by simp
  then show ?case using 4 by simp
qed simp_all

lemma length_Std_Encode: "length (Std_Encode s) = 4 * ((length s + 2) div 3)"
  by (simp add: Std_Encode_def length_std_chars)

lemma Std_Encode_nonempty: "s \<noteq> [] \<Longrightarrow> Std_Encode s \<noteq> []"
  using length_Std_Encode [of s] by (cases s) auto

section \<open>Streams\<close>

text \<open>A client's writes, each carried to the server at once; what the pipe gets and the errors returned.\<close>

fun carry_writes :: "string \<Rightarrow> string list \<Rightarrow> pt_conn \<Rightarrow> pt_server \<Rightarrow> (nat \<times> string) list \<times> go_error list \<times> pt_server" where
  "carry_writes cid [] c s = ([], [], s)"
| "carry_writes cid (b # bs) c s =
     (case pt_Write (\<lambda>body. Inr (fst (fst (pt_handlePush ''POST'' (Some cid) body None (\<lambda>_. None) s)))) b c of
        (k, e, sent) \<Rightarrow>
          (case pt_handlePush ''POST'' (Some cid) (concat sent) None (\<lambda>_. None) s of
             ((status, ws), s1) \<Rightarrow>
               (case carry_writes cid bs c s1 of (ws', es, s2) \<Rightarrow> (ws @ ws', e # es, s2))))"

lemma push_line:
  assumes "pt_conns s cid = Some n" "b \<noteq> []"
  shows "pt_handlePush ''POST'' (Some cid) (Std_Encode b @ [CHR 0x0A]) fin (\<lambda>_. None) s = ((200, [(n, b)]), s)"
proof -
  have "takeWhile (\<lambda>c. c \<noteq> CHR 0x0A) (Std_Encode b @ [CHR 0x0A]) = Std_Encode b"
    using Std_Encode_clean(1) [of b] by (subst takeWhile_append2) auto
  then show ?thesis using assms Std_Encode_nonempty by (simp add: pt_handlePush_def ReadLine_def)
qed

lemma writes_arrive:
  assumes "pt_conns s cid = Some n" "\<not> pk_closed c" "[] \<notin> set bs"
  shows "carry_writes cid bs c s = (map (\<lambda>b. (n, b)) bs, map (\<lambda>_. None) bs, s)"
  using assms(3)
proof (induction bs)
  case (Cons b bs)
  then have b: "b \<noteq> []" by auto
  show ?case using Cons assms(1,2) b push_line [OF assms(1) b] by (simp add: pt_Write_def pt_write_def)
qed simp

text \<open>The server's pulls: each gives pieces that are flushed and ends without one in time.\<close>

definition pull_of :: "string list \<Rightarrow> pipe_read list" where
  "pull_of bs = map (\<lambda>b. Piece b True) bs @ [TimedOut]"

lemma pull_lines: "pt_pull_loop cid n (pull_of bs) s = (map Std_Encode bs @ [[]], s)"
  by (induction bs) (simp_all add: pull_of_def)

lemma scan_encoded:
  assumes "\<forall>b \<in> set bs. b \<noteq> [] \<and> length b \<le> 49149"
  shows "pt_scan_lines (map Std_Encode bs @ [[]]) = (bs, True)"
  using assms
proof (induction bs)
  case (Cons b bs)
  have "(length b + 2) div 3 < 16384" using Cons.prems by (simp add: div_less_iff_less_mult)
  then show ?case using Cons Std_Encode_nonempty [of b] by (simp add: length_Std_Encode MaxScanTokenSize_def)
qed (simp add: MaxScanTokenSize_def)

lemma pieces_arrive:
  assumes "pt_conns s cid = Some n" "\<not> pk_closed c" "\<forall>bs \<in> set pulls. \<forall>b \<in> set bs. b \<noteq> [] \<and> length b \<le> 49149"
  shows "pt_readLoop (map (\<lambda>bs. Inr (200, snd (fst (pt_handlePull ''GET'' (Some cid) (pull_of bs) s)), None)) pulls) c =
         c\<lparr>pk_rx := pk_rx c @ concat pulls\<rparr>"
  using assms(2,3)
proof (induction pulls arbitrary: c)
  case (Cons bs pulls)
  have "snd (fst (pt_handlePull ''GET'' (Some cid) (pull_of bs) s)) = map Std_Encode bs @ [[]]"
    using assms(1) by (simp add: pt_handlePull_def pull_lines)
  then show ?case using Cons scan_encoded [of bs] by simp
qed simp

text \<open>
  (C29) The tunnel is a stream both ways. What the client of a token writes, in pieces that are not empty,
  is written to the server's pipe piece by piece and in order; what the server reads from the pipe, in
  pieces of at most 49149 bytes spread over any number of pulls, waits at the client in the same order;
  and the server's record of the token is as it was.
\<close>

theorem plain_tunnel_carries_streams:
  assumes "pt_conns s cid = Some n" "\<not> pk_closed c" "[] \<notin> set ws"
    and "\<forall>bs \<in> set pulls. \<forall>b \<in> set bs. b \<noteq> [] \<and> length b \<le> 49149"
  shows "carry_writes cid ws c s = (map (\<lambda>b. (n, b)) ws, map (\<lambda>_. None) ws, s) \<and>
         pk_rx (pt_readLoop (map (\<lambda>bs. Inr (200, snd (fst (pt_handlePull ''GET'' (Some cid) (pull_of bs) s)), None)) pulls) c) =
         pk_rx c @ concat pulls"
  using writes_arrive [OF assms(1,2,3)] pieces_arrive [OF assms(1,2,4)] by simp

text \<open>The default size of the server's buffer is within the bound, a larger one need not be.\<close>

lemma default_buffer_within_bound: "length b \<le> 32 * 1024 \<Longrightarrow> length b \<le> 49149"
  by simp

lemma long_line_ends_connection:
  assumes "49150 \<le> length b" "\<not> pk_closed c"
  shows "pk_closed (pt_readLoop (Inr (200, [Std_Encode b], None) # rs) c)"
proof -
  have "16384 \<le> (length b + 2) div 3" using assms(1) by (simp add: less_eq_div_iff_mult_less_eq)
  then show ?thesis using assms(2) by (simp add: length_Std_Encode MaxScanTokenSize_def)
qed

text \<open>What the client reads off it are the bytes in order, whatever the sizes of its reads.\<close>

definition pending :: "pt_conn \<Rightarrow> string" where
  "pending c = pk_buf c @ concat (pk_rx c)"

lemma read_takes_prefix:
  assumes "\<not> pk_closed c" "pt_Read p k c = (Got x, c')"
  shows "pending c = x @ pending c' \<and> length x \<le> k \<and> \<not> pk_closed c'"
  using assms by (auto simp: pt_Read_def copy_out_def pending_def split: if_splits list.splits)

fun reads :: "nat list \<Rightarrow> pt_conn \<Rightarrow> string" where
  "reads [] c = []"
| "reads (k # ks) c = (case pt_Read False k c of (Got x, c') \<Rightarrow> x @ reads ks c' | _ \<Rightarrow> [])"

lemma reads_prefix: "\<not> pk_closed c \<Longrightarrow> \<exists>rest. pending c = reads ks c @ rest"
proof (induction ks arbitrary: c)
  case (Cons k ks)
  obtain r c' where r: "pt_Read False k c = (r, c')" by fastforce
  show ?case
  proof (cases r)
    case (Got x)
    then show ?thesis using read_takes_prefix [of c False k x c'] r Cons by fastforce
  qed (simp_all add: r)
qed simp

section \<open>Ends\<close>

text \<open>
  Closing sends nothing: the connection is marked closed before the empty push that would tell the
  server, which the mark then forbids. The server keeps the token, and the caller gets an error.
\<close>

lemma close_is_never_sent:
  "\<not> pk_closed c \<Longrightarrow> fst (pt_Close push c) = (Some ErrClosedPipe, [])"
  by (simp add: pt_Close_def pt_write_def Let_def)

lemma empty_push_would_close:
  "pt_conns s cid = Some n \<Longrightarrow> pt_conns (snd (pt_handlePush ''POST'' (Some cid) [] None pipe s)) cid = None"
  by (simp add: pt_handlePush_def ReadLine_def pt_drop_def)

text \<open>
  When the server's side of the pipe is closed, the pull ends with no line; the client's loop stops
  without closing the connection, and its reads block for ever. The token stays.
\<close>

lemma server_end_blocks_reader:
  assumes "pt_conns s cid = Some n" "\<not> pk_closed c" "pk_rx c = []" "pk_buf c = []"
  shows "pt_handlePull ''GET'' (Some cid) [AtEnd] s = ((200, []), s)"
    and "pt_readLoop (Inr (200, [], None) # rs) c = c\<lparr>pk_loop := False\<rparr>"
    and "fst (pt_Read p k (pt_readLoop (Inr (200, [], None) # rs) c)) = Blocked"
  using assms by (simp_all add: pt_handlePull_def pt_Read_def)

text \<open>A piece that cannot be flushed is lost, while the token goes on.\<close>

lemma unflushed_piece_is_lost:
  assumes "pt_conns s cid = Some n"
  shows "pt_handlePull ''GET'' (Some cid) (Piece b False # rs) s = ((200, []), s)"
  using assms by (simp add: pt_handlePull_def)

text \<open>Tokens: a push or pull touches no pipe but the one of its token.\<close>

lemma push_only_own_pipe:
  assumes "pt_handlePush method token body fin pipe s = ((status, ws), s')"
  shows "\<forall>(n, b) \<in> set ws. \<exists>cid. token = Some cid \<and> pt_conns s cid = Some n"
  using assms by (auto simp: pt_handlePush_def split: if_splits option.splits line_read.splits)

lemma queue_bounded:
  assumes "length (pt_queue s) \<le> pt_backlog s"
  shows "length (pt_queue (snd (pt_handleAuthorize n cid s))) \<le> pt_backlog s"
  using assms by (simp add: pt_handleAuthorize_def)

lemma token_roundtrip: "cid \<noteq> [] \<Longrightarrow> pt_token (''token='' @ cid) = Inr cid"
  by (simp add: pt_token_def HasPrefix_def)

definition sample_pt_server :: pt_server where
  "sample_pt_server = snd (pt_handleAuthorize 0 ''t'' (pt_NewServer 0))"

lemma plain_tunnel_carries_streams_witness:
  "fst (carry_writes ''t'' [''ab'', ''c''] pt_new_conn sample_pt_server) = [(0, ''ab''), (0, ''c'')]"
proof -
  have "pt_conns sample_pt_server ''t'' = Some 0" by (simp add: sample_pt_server_def pt_handleAuthorize_def pt_NewServer_def)
  then show ?thesis
    using plain_tunnel_carries_streams [of sample_pt_server "''t''" 0 pt_new_conn "[''ab'', ''c'']" "[[''xy''], [''z'', ''w'']]"]
    by (simp add: pt_new_conn_def)
qed

end
