(* ===== verification/ListenerSetup.thy ===== *)
theory ListenerSetup
  imports HttpHandler Metadata
begin

text \<open>
  How the listeners of \<open>x/listener\<close> are set up: the socket \<open>Init\<close> opens, the layers it puts around it and
  the layers \<open>Accept\<close> puts around each connection. Opening sockets, resolving addresses and starting the
  packages that serve them are parameters; the sockets left open are part of the result.
\<close>

section \<open>The configuration of KCP\<close>

text \<open>
  The configuration of KCP, \<open>x/internal/util/kcp/config.go\<close>, and how a listener and a dialer come by
  theirs (\<open>parseMetadata\<close> of \<open>x/listener/kcp\<close> and \<open>x/dialer/kcp\<close>). A configuration is reached through a
  pointer, and the default one is a package variable: the store below is the list of all
  configurations, the default one at place 0. Reading a file and turning a map into a configuration
  are parameters.
\<close>

section \<open>Configurations\<close>

record kcp_config =
  kc_Key :: string
  kc_Crypt :: string
  kc_Mode :: string
  kc_MTU :: int
  kc_SndWnd :: int
  kc_RcvWnd :: int
  kc_DataShard :: int
  kc_ParityShard :: int
  kc_DSCP :: int
  kc_NoComp :: bool
  kc_AckNodelay :: bool
  kc_NoDelay :: int
  kc_Interval :: int
  kc_Resend :: int
  kc_NoCongestion :: int
  kc_SockBuf :: int
  kc_SmuxBuf :: int
  kc_StreamBuf :: int
  kc_SmuxVer :: int
  kc_KeepAlive :: int
  kc_SnmpLog :: string
  kc_SnmpPeriod :: int
  kc_Signal :: bool
  kc_TCP :: bool

definition DefaultConfig :: kcp_config where
  "DefaultConfig =
     \<lparr>kc_Key = [CHR ''i'', CHR ''t'', CHR 0x27] @ ''s a secrect'', kc_Crypt = ''aes'', kc_Mode = ''fast'',
      kc_MTU = 1350, kc_SndWnd = 1024, kc_RcvWnd = 1024, kc_DataShard = 10, kc_ParityShard = 3, kc_DSCP = 0,
      kc_NoComp = False, kc_AckNodelay = False, kc_NoDelay = 0, kc_Interval = 50, kc_Resend = 0,
      kc_NoCongestion = 0, kc_SockBuf = 4194304, kc_SmuxBuf = 4194304, kc_StreamBuf = 2097152, kc_SmuxVer = 1,
      kc_KeepAlive = 10, kc_SnmpLog = [], kc_SnmpPeriod = 60, kc_Signal = False, kc_TCP = False\<rparr>"

definition with_pace :: "int \<Rightarrow> int \<Rightarrow> int \<Rightarrow> int \<Rightarrow> kcp_config \<Rightarrow> kcp_config" where
  "with_pace a b c d k = k\<lparr>kc_NoDelay := a, kc_Interval := b, kc_Resend := c, kc_NoCongestion := d\<rparr>"

definition kcp_Init :: "kcp_config \<Rightarrow> kcp_config" where
  "kcp_Init k0 =
     (let k1 = (if kc_Mode k0 = ''normal'' then with_pace 0 40 2 1 k0
                else if kc_Mode k0 = ''fast'' then with_pace 0 30 2 1 k0
                else if kc_Mode k0 = ''fast2'' then with_pace 1 20 2 1 k0
                else if kc_Mode k0 = ''fast3'' then with_pace 1 10 2 1 k0
                else k0);
          k2 = (if kc_SmuxVer k1 \<le> 0 then k1\<lparr>kc_SmuxVer := 1\<rparr> else k1);
          k3 = (if kc_SmuxBuf k2 \<le> 0 then k2\<lparr>kc_SmuxBuf := kc_SockBuf k2\<rparr> else k2)
      in if kc_StreamBuf k3 \<le> 0 then k3\<lparr>kc_StreamBuf := kc_SockBuf k3 div 2\<rparr> else k3)"

text \<open>The cipher of a name with the bytes it takes from the derived key of 32.\<close>

definition BlockCrypt :: "string \<Rightarrow> string \<times> nat" where
  "BlockCrypt crypt =
     (if crypt = ''sm4'' then (''SM4'', 16)
      else if crypt = ''tea'' then (''TEA'', 16)
      else if crypt = ''xor'' then (''SimpleXOR'', 32)
      else if crypt = ''none'' then (''None'', 32)
      else if crypt = ''aes-128'' then (''AES'', 16)
      else if crypt = ''aes-192'' then (''AES'', 24)
      else if crypt = ''blowfish'' then (''Blowfish'', 32)
      else if crypt = ''twofish'' then (''Twofish'', 32)
      else if crypt = ''cast5'' then (''Cast5'', 16)
      else if crypt = ''3des'' then (''TripleDES'', 24)
      else if crypt = ''xtea'' then (''XTEA'', 16)
      else if crypt = ''salsa20'' then (''Salsa20'', 32)
      else (''AES'', 32))"

section \<open>From the metadata\<close>

text \<open>What is assigned to the fields whatever the configuration came from.\<close>

definition assign_metadata :: "metadata \<Rightarrow> kcp_config \<Rightarrow> kcp_config" where
  "assign_metadata md k =
     k\<lparr>kc_TCP := GetBool md [''kcp.tcp'', ''tcp''],
       kc_Key := GetString md [''kcp.key''],
       kc_Crypt := GetString md [''kcp.crypt''],
       kc_Mode := GetString md [''kcp.mode''],
       kc_KeepAlive := GetInt md [''kcp.keepalive''],
       kc_Interval := GetInt md [''kcp.interval''],
       kc_MTU := GetInt md [''kcp.mtu''],
       kc_RcvWnd := GetInt md [''kcp.rcvwnd''],
       kc_SndWnd := GetInt md [''kcp.sndwnd''],
       kc_SmuxVer := GetInt md [''kcp.smuxver''],
       kc_SmuxBuf := GetInt md [''kcp.smuxbuf''],
       kc_StreamBuf := GetInt md [''kcp.streambuf''],
       kc_NoComp := GetBool md [''kcp.nocomp'']\<rparr>"

text \<open>
  The pointer a metadata leads to, and the store after it: a file's configuration is a new object, the
  one of a map another, and without both it is the default.
\<close>

definition kcp_source ::
    "(string \<Rightarrow> string + kcp_config) \<Rightarrow> (metadata \<Rightarrow> (string + kcp_config) option) \<Rightarrow> metadata \<Rightarrow>
       kcp_config list \<Rightarrow> (string + nat) \<times> kcp_config list" where
  "kcp_source from_file from_map md h =
     (let file = GetString md [''kcp.configFile'', ''configFile'', ''c''] in
      case (if file \<noteq> [] then (case from_file file of
               Inl e \<Rightarrow> (Inl e, h)
             | Inr k \<Rightarrow> (Inr (Some (length h)), h @ [k]))
            else (Inr None, h)) of
        (Inl e, h') \<Rightarrow> (Inl e, h')
      | (Inr a, h') \<Rightarrow>
          (case from_map md of
             Some (Inl e) \<Rightarrow> (Inl e, h')
           | Some (Inr k) \<Rightarrow> (Inr (length h'), h' @ [k])
           | None \<Rightarrow> (Inr (case a of None \<Rightarrow> 0 | Some i \<Rightarrow> i), h')))"

definition kcp_parseMetadata ::
    "(string \<Rightarrow> string + kcp_config) \<Rightarrow> (metadata \<Rightarrow> (string + kcp_config) option) \<Rightarrow> metadata \<Rightarrow>
       kcp_config list \<Rightarrow> (string + nat) \<times> kcp_config list" where
  "kcp_parseMetadata from_file from_map md h =
     (case kcp_source from_file from_map md h of
        (Inl e, h') \<Rightarrow> (Inl e, h')
      | (Inr a, h') \<Rightarrow> (Inr a, h'[a := assign_metadata md (h' ! a)]))"

definition defaultBacklog :: int where "defaultBacklog = 128"

definition backlog_of :: "metadata \<Rightarrow> string list \<Rightarrow> int" where
  "backlog_of md keys = (if GetInt md keys \<le> 0 then defaultBacklog else GetInt md keys)"

definition kcp_listener_md ::
    "(string \<Rightarrow> string + kcp_config) \<Rightarrow> (metadata \<Rightarrow> (string + kcp_config) option) \<Rightarrow> metadata \<Rightarrow>
       kcp_config list \<Rightarrow> (string + nat \<times> int) \<times> kcp_config list" where
  "kcp_listener_md from_file from_map md h =
     (case kcp_parseMetadata from_file from_map md h of
        (Inl e, h') \<Rightarrow> (Inl e, h')
      | (Inr a, h') \<Rightarrow> (Inr (a, backlog_of md [''backlog'']), h'))"

section \<open>Which settings count\<close>

lemma backlog_positive [simp]: "0 < backlog_of md keys"
  by (simp add: backlog_of_def defaultBacklog_def)

lemma kcp_source_in_store:
  assumes "kcp_source F M md h = (Inr a, h')" "h \<noteq> []"
  shows "a < length h' \<and> take (length h) h' = h"
  using assms
  by (auto simp: kcp_source_def Let_def split: if_splits sum.splits option.splits)

lemma kcp_parse_entry:
  assumes "kcp_parseMetadata F M md h = (Inr a, h')" "h \<noteq> []"
  obtains g where "kcp_source F M md h = (Inr a, g)" "a < length h'" "h' = g[a := assign_metadata md (g ! a)]"
    "h' ! a = assign_metadata md (g ! a)"
proof -
  obtain r g where s: "kcp_source F M md h = (r, g)" by fastforce
  from assms(1) s have "r = Inr a" "h' = g[a := assign_metadata md (g ! a)]"
    by (auto simp: kcp_parseMetadata_def split: sum.splits)
  with kcp_source_in_store [of F M md h a g] s assms(2) that show thesis by simp
qed

text \<open>
  Whatever file or map a KCP configuration is read from, its key, cipher and mode are those of the
  metadata \<open>kcp.key\<close>, \<open>kcp.crypt\<close> and \<open>kcp.mode\<close>, and nothing when these are missing: a key that
  stands in the file is never used.
\<close>

theorem kcp_key_is_from_metadata:
  assumes "kcp_listener_md F M md h = (Inr (a, backlog), h')" and "h \<noteq> []"
  shows "kc_Key (kcp_Init (h' ! a)) = GetString md [''kcp.key''] \<and>
    kc_Crypt (kcp_Init (h' ! a)) = GetString md [''kcp.crypt''] \<and>
    kc_Mode (kcp_Init (h' ! a)) = GetString md [''kcp.mode''] \<and> 0 < backlog"
proof -
  have p: "kcp_parseMetadata F M md h = (Inr a, h')" and b: "backlog = backlog_of md [''backlog'']"
    using assms(1) by (auto simp: kcp_listener_md_def split: prod.splits sum.splits)
  have init: "kc_Key (kcp_Init k) = kc_Key k" "kc_Crypt (kcp_Init k) = kc_Crypt k"
    "kc_Mode (kcp_Init k) = kc_Mode k" for k
    by (simp_all add: kcp_Init_def with_pace_def Let_def)
  obtain g where "h' ! a = assign_metadata md (g ! a)" using kcp_parse_entry [OF p assms(2)] by metis
  then show ?thesis by (simp only: init b backlog_positive) (simp add: assign_metadata_def)
qed

definition secret_file :: "string \<Rightarrow> string + kcp_config" where
  "secret_file f = Inr (DefaultConfig\<lparr>kc_Key := ''hunter2''\<rparr>)"

definition file_md :: metadata where
  "file_md = NewMetadata (Some [(''c'', VStr ''kcp.json'')])"

theorem kcp_key_is_from_metadata_witness:
  "\<exists>a backlog h. kcp_listener_md secret_file (\<lambda>md. None) file_md [DefaultConfig] = (Inr (a, backlog), h) \<and>
     kc_Key (kcp_Init (h ! a)) = []"
proof -
  have k: "GetString file_md [''kcp.configFile'', ''configFile'', ''c''] = ''kcp.json''"
    "GetString file_md [''kcp.key''] = []" by code_simp+
  obtain h where r: "kcp_listener_md secret_file (\<lambda>md. None) file_md [DefaultConfig] =
      (Inr (1, backlog_of file_md [''backlog'']), h)"
    by (simp add: kcp_listener_md_def kcp_parseMetadata_def kcp_source_def secret_file_def k Let_def)
  from kcp_key_is_from_metadata [OF this] k(2) r show ?thesis by auto
qed

text \<open>
  Two ends without a file and a map have the default configuration, one object: the settings of the one
  that is parsed last are those of both.
\<close>

lemma kcp_default_is_shared:
  assumes "GetString md1 [''kcp.configFile'', ''configFile'', ''c''] = []" "M md1 = None"
    and "GetString md2 [''kcp.configFile'', ''configFile'', ''c''] = []" "M md2 = None" and "h \<noteq> []"
  shows "\<exists>h1 h2. kcp_parseMetadata F M md1 h = (Inr 0, h1) \<and> kcp_parseMetadata F M md2 h1 = (Inr 0, h2) \<and>
    h2 ! 0 = assign_metadata md2 (h ! 0)"
  using assms by (cases h) (simp_all add: kcp_parseMetadata_def kcp_source_def assign_metadata_def)

text \<open>A configuration that leaves the multiplexer open still gets a valid one.\<close>

lemma kcp_Init_valid:
  "1 \<le> kc_SmuxVer (kcp_Init k) \<and> (0 < kc_SockBuf k \<longrightarrow> 0 < kc_SmuxBuf (kcp_Init k))"
  by (auto simp: kcp_Init_def with_pace_def Let_def)

lemma default_is_overwritten:
  "kc_MTU (assign_metadata (Some Map.empty) DefaultConfig) = 0 \<and> kc_SndWnd (assign_metadata (Some Map.empty) DefaultConfig) = 0 \<and>
   kc_Key (assign_metadata (Some Map.empty) DefaultConfig) = []"
  by (simp add: assign_metadata_def GetInt_def GetString_def md_IsExists_def)

text \<open>An unknown cipher is AES with the whole key.\<close>

lemma BlockCrypt_key_fits: "snd (BlockCrypt c) \<le> 32"
  by (simp add: BlockCrypt_def)


section \<open>Layers and sockets\<close>

text \<open>The wrappers, in the order in which they are put around a socket.\<close>

datatype layer = LProxyProtocol | LMetrics | LStats | LAdmission | LTraffic | LConns | LTls | LCipher

record setup_env =
  se_listen :: "string \<Rightarrow> string \<Rightarrow> bool \<Rightarrow> go_error"
  se_packet :: "string \<Rightarrow> string \<Rightarrow> go_error"
  se_resolve :: "string \<Rightarrow> string \<Rightarrow> string + string"
  se_serve :: go_error
  se_configure :: go_error

record setup_opts =
  so_md :: go_error
  so_addr :: string
  so_mptcp :: bool
  so_backlog :: int
  so_proxy :: int
  so_cipher :: bool
  so_tcp :: bool
  so_mode :: string

record socket_setup =
  lu_network :: string
  lu_addr :: string
  lu_layers :: "layer list"
  lu_each :: "layer list"
  lu_cap :: nat

type_synonym set_up = "(string + socket_setup) \<times> (string \<times> string) list"

definition IsIPv4 :: "string \<Rightarrow> bool" where
  "IsIPv4 addr = (addr \<noteq> [] \<and> hd addr \<noteq> CHR '':'' \<and> hd addr \<noteq> CHR ''['')"

definition net4_of :: "string \<Rightarrow> string \<Rightarrow> string" where
  "net4_of base addr = (if IsIPv4 addr then base @ ''4'' else base)"

definition proxy_layer :: "int \<Rightarrow> layer list" where
  "proxy_layer ppv = (if ppv \<le> 0 then [] else [LProxyProtocol])"

definition stream_layers :: "setup_opts \<Rightarrow> layer list" where
  "stream_layers X = proxy_layer (so_proxy X) @ [LMetrics, LStats, LAdmission, LTraffic, LConns]"

definition packet_layers :: "layer list" where
  "packet_layers = [LMetrics, LStats, LAdmission, LTraffic]"

definition backlog_cap :: "int \<Rightarrow> nat" where
  "backlog_cap n = nat (if n \<le> 0 then defaultBacklog else n)"

section \<open>Listeners on TCP\<close>

definition stream_setup :: "setup_opts \<Rightarrow> layer list \<Rightarrow> socket_setup" where
  "stream_setup X ls =
     \<lparr>lu_network = net4_of ''tcp'' (so_addr X), lu_addr = so_addr X, lu_layers = stream_layers X @ ls,
      lu_each = [LTraffic], lu_cap = backlog_cap (so_backlog X)\<rparr>"

definition listen_tcp :: "setup_env \<Rightarrow> setup_opts \<Rightarrow> layer list \<Rightarrow> set_up" where
  "listen_tcp E X ls =
     (let n = net4_of ''tcp'' (so_addr X) in
      case se_listen E n (so_addr X) (so_mptcp X) of
        Some e \<Rightarrow> (Inl e, [])
      | None \<Rightarrow> (Inr (stream_setup X ls), [(n, so_addr X)]))"

definition checked :: "setup_opts \<Rightarrow> set_up \<Rightarrow> set_up" where
  "checked X r = (case so_md X of Some e \<Rightarrow> (Inl e, []) | None \<Rightarrow> r)"

definition mtcp_Init :: "setup_env \<Rightarrow> setup_opts \<Rightarrow> set_up" where
  "mtcp_Init E X = checked X (listen_tcp E X [])"

definition mtls_Init :: "setup_env \<Rightarrow> setup_opts \<Rightarrow> set_up" where
  "mtls_Init E X = checked X (listen_tcp E X [LTls])"

definition tls_Init :: "setup_env \<Rightarrow> setup_opts \<Rightarrow> set_up" where
  "tls_Init E X = checked X (listen_tcp E X [LTls])"

definition ws_Init :: "bool \<Rightarrow> setup_env \<Rightarrow> setup_opts \<Rightarrow> set_up" where
  "ws_Init tlsEnabled E X = checked X (listen_tcp E X (if tlsEnabled then [LTls] else []))"

definition mws_Init :: "bool \<Rightarrow> setup_env \<Rightarrow> setup_opts \<Rightarrow> set_up" where
  "mws_Init tlsEnabled E X = checked X (listen_tcp E X (if tlsEnabled then [LTls] else []))"

definition grpc_Init :: "setup_env \<Rightarrow> setup_opts \<Rightarrow> set_up" where
  "grpc_Init E X = checked X (listen_tcp E X [])"

definition ssh_Init :: "setup_env \<Rightarrow> setup_opts \<Rightarrow> set_up" where
  "ssh_Init E X = checked X (listen_tcp E X [])"

definition sshd_Init :: "setup_env \<Rightarrow> setup_opts \<Rightarrow> set_up" where
  "sshd_Init E X = checked X (listen_tcp E X [])"

text \<open>HTTP/2 configures its server before it listens, the tunnel over HTTP/2 afterwards.\<close>

definition http2_Init :: "setup_env \<Rightarrow> setup_opts \<Rightarrow> set_up" where
  "http2_Init E X = checked X
     (case se_configure E of
        Some e \<Rightarrow> (Inl e, [])
      | None \<Rightarrow> listen_tcp E X [LTls])"

definition h2_Init :: "bool \<Rightarrow> setup_env \<Rightarrow> setup_opts \<Rightarrow> set_up" where
  "h2_Init h2c E X = checked X
     (case listen_tcp E X (if h2c then [] else [LTls]) of
        (Inl e, s) \<Rightarrow> (Inl e, s)
      | (Inr u, s) \<Rightarrow>
          (if h2c then (Inr u, s)
           else (case se_configure E of Some e \<Rightarrow> (Inl e, []) | None \<Rightarrow> (Inr u, s))))"

section \<open>Listeners on packets\<close>

definition packet_setup :: "string \<Rightarrow> string \<Rightarrow> layer list \<Rightarrow> layer list \<Rightarrow> setup_opts \<Rightarrow> socket_setup" where
  "packet_setup n a ls each X =
     \<lparr>lu_network = n, lu_addr = a, lu_layers = ls, lu_each = each, lu_cap = backlog_cap (so_backlog X)\<rparr>"

text \<open>A socket with the server on top; when that fails the socket stays.\<close>

definition serve_packets :: "setup_env \<Rightarrow> string \<Rightarrow> string \<Rightarrow> layer list \<Rightarrow> setup_opts \<Rightarrow> set_up" where
  "serve_packets E n a ls X =
     (case se_packet E n a of
        Some e \<Rightarrow> (Inl e, [])
      | None \<Rightarrow>
          (case se_serve E of
             Some e \<Rightarrow> (Inl e, [(n, a)])
           | None \<Rightarrow> (Inr (packet_setup n a ls [LTraffic] X), [(n, a)])))"

definition resolved :: "setup_env \<Rightarrow> string \<Rightarrow> string \<Rightarrow> (string \<Rightarrow> set_up) \<Rightarrow> set_up" where
  "resolved E n a k = (case se_resolve E n a of Inl e \<Rightarrow> (Inl e, []) | Inr b \<Rightarrow> k b)"

definition kcp_Listener_Init :: "setup_env \<Rightarrow> setup_opts \<Rightarrow> set_up" where
  "kcp_Listener_Init E X = checked X
     (if so_tcp X then serve_packets E (net4_of ''tcp'' (so_addr X)) (so_addr X) packet_layers X
      else (let n = net4_of ''udp'' (so_addr X) in
            resolved E n (so_addr X) (\<lambda>b. serve_packets E n b packet_layers X)))"

definition quic_Init :: "setup_env \<Rightarrow> setup_opts \<Rightarrow> set_up" where
  "quic_Init E X = checked X
     (let a = (if SplitHostPort (so_addr X) = None then JoinHostPort (trim_brackets (so_addr X)) ''0'' else so_addr X);
          n = net4_of ''udp'' a
      in resolved E n a (\<lambda>b. serve_packets E n b ((if so_cipher X then [LCipher] else []) @ packet_layers) X))"

definition icmp_Init :: "bool \<Rightarrow> setup_env \<Rightarrow> setup_opts \<Rightarrow> set_up" where
  "icmp_Init ip6 E X = checked X
     (let a = (case SplitHostPort (so_addr X) of None \<Rightarrow> so_addr X | Some (h, p) \<Rightarrow> h)
      in serve_packets E (if ip6 then ''ip6:ipv6-icmp'' else ''ip4:icmp'') a packet_layers X)"

text \<open>WebTransport serves in the background: what goes wrong there is only logged.\<close>

definition wt_Init :: "setup_env \<Rightarrow> setup_opts \<Rightarrow> set_up" where
  "wt_Init E X = checked X
     (let a = (if so_addr X = [] then '':https'' else so_addr X);
          n = net4_of ''udp'' a
      in resolved E n a (\<lambda>b.
           (case se_packet E n b of
              Some e \<Rightarrow> (Inl e, [])
            | None \<Rightarrow> (Inr (packet_setup n b packet_layers [LTraffic] X), [(n, b)]))))"

text \<open>The socket of HTTP/3 belongs to the QUIC package.\<close>

definition http3_Init :: "setup_env \<Rightarrow> setup_opts \<Rightarrow> set_up" where
  "http3_Init E X = checked X
     (let a = (if so_addr X = [] then '':https'' else so_addr X);
          n = net4_of ''udp'' a
      in resolved E n a (\<lambda>b.
           (case se_serve E of
              Some e \<Rightarrow> (Inl e, [])
            | None \<Rightarrow> (Inr (packet_setup n b [] [] X), [(n, b)]))))"

text \<open>The plain HTTP tunnel binds in the background: \<open>Init\<close> only resolves the address.\<close>

definition pht_Init :: "bool \<Rightarrow> setup_env \<Rightarrow> setup_opts \<Rightarrow> set_up" where
  "pht_Init h3 E X = checked X
     (let n = net4_of (if h3 then ''udp'' else ''tcp'') (so_addr X)
      in resolved E n (so_addr X) (\<lambda>b. (Inr (packet_setup n b [] packet_layers X), [])))"

text \<open>The DNS listener has only the traffic limiter around its socket and the rest around each query.\<close>

definition dns_stream :: "setup_env \<Rightarrow> setup_opts \<Rightarrow> layer list \<Rightarrow> set_up" where
  "dns_stream E X ls =
     resolved E ''tcp'' (so_addr X) (\<lambda>b.
       (let n = net4_of ''tcp'' (so_addr X) in
        case se_listen E n (so_addr X) (so_mptcp X) of
          Some e \<Rightarrow> (Inl e, [])
        | None \<Rightarrow> (Inr (packet_setup n b (ls @ [LTraffic]) packet_layers X), [(n, so_addr X)])))"

definition dns_Init :: "setup_env \<Rightarrow> setup_opts \<Rightarrow> set_up" where
  "dns_Init E X = checked X
     (let m = ToLower (so_mode X) in
      if m = ''tcp'' then dns_stream E X []
      else if m = ''tls'' \<or> m = ''https'' then dns_stream E X [LTls]
      else resolved E ''udp'' (so_addr X) (\<lambda>b.
        (let n = net4_of ''udp'' (so_addr X) in
         case se_packet E n (so_addr X) of
           Some e \<Rightarrow> (Inl e, [])
         | None \<Rightarrow> (Inr (packet_setup n b [LTraffic] packet_layers X), [(n, so_addr X)]))))"

section \<open>The TLS listener\<close>

text \<open>
  \<open>Accept\<close> of the TLS listener takes connections off the socket until one of them completes its
  handshake, which it waits for at most ten seconds. A connection is its client, whether its handshake
  succeeds and how many nanoseconds it takes. The result is the error or the client, the connections
  closed, the time spent in handshakes and what is left on the socket.
\<close>

definition handshake_limit :: int where "handshake_limit = 10 * second"

fun silent_Accept ::
    "(string + string \<times> bool \<times> int) list \<Rightarrow>
       ((string + string) \<times> string list \<times> int \<times> (string + string \<times> bool \<times> int) list) option" where
  "silent_Accept [] = None"
| "silent_Accept (Inl e # xs) = Some (Inl e, [], 0, xs)"
| "silent_Accept (Inr (c, ok, t) # xs) =
     (if ok \<and> t \<le> handshake_limit then Some (Inr c, [], t, xs)
      else map_option (\<lambda>(r, closed, d, rest). (r, c # closed, min t handshake_limit + d, rest)) (silent_Accept xs))"

section \<open>What every listener puts in the way\<close>

datatype listener_kind =
  Mtcp | Mtls | Tls | Ws bool | Mws bool | Grpc | Ssh | Sshd | Http2 | H2 bool |
  Kcp | Quic | Icmp bool | Wt | Http3 | Pht bool | Dns

fun listener_Init :: "listener_kind \<Rightarrow> setup_env \<Rightarrow> setup_opts \<Rightarrow> set_up" where
  "listener_Init Mtcp = mtcp_Init"
| "listener_Init Mtls = mtls_Init"
| "listener_Init Tls = tls_Init"
| "listener_Init (Ws b) = ws_Init b"
| "listener_Init (Mws b) = mws_Init b"
| "listener_Init Grpc = grpc_Init"
| "listener_Init Ssh = ssh_Init"
| "listener_Init Sshd = sshd_Init"
| "listener_Init Http2 = http2_Init"
| "listener_Init (H2 b) = h2_Init b"
| "listener_Init Kcp = kcp_Listener_Init"
| "listener_Init Quic = quic_Init"
| "listener_Init (Icmp b) = icmp_Init b"
| "listener_Init Wt = wt_Init"
| "listener_Init Http3 = http3_Init"
| "listener_Init (Pht b) = pht_Init b"
| "listener_Init Dns = dns_Init"

fun over_tcp :: "listener_kind \<Rightarrow> bool" where
  "over_tcp Kcp = False" | "over_tcp Quic = False" | "over_tcp (Icmp b) = False" | "over_tcp Wt = False"
| "over_tcp Http3 = False" | "over_tcp (Pht b) = False" | "over_tcp Dns = False" | "over_tcp _ = True"

lemmas tcp_Inits = mtcp_Init_def mtls_Init_def tls_Init_def ws_Init_def mws_Init_def grpc_Init_def ssh_Init_def
  sshd_Init_def http2_Init_def h2_Init_def

lemmas packet_Inits = kcp_Listener_Init_def quic_Init_def icmp_Init_def wt_Init_def http3_Init_def pht_Init_def
  dns_Init_def

lemma checked_Inr: "checked X r = (Inr u, s) \<longleftrightarrow> so_md X = None \<and> r = (Inr u, s)"
  by (auto simp: checked_def split: option.splits)

lemma listen_tcp_Inr:
  "listen_tcp E X ls = (Inr u, s) \<Longrightarrow> u = stream_setup X ls \<and> s = [(lu_network u, so_addr X)]"
  by (auto simp: listen_tcp_def stream_setup_def Let_def split: option.splits)

lemma tcp_setup:
  assumes "over_tcp K" "listener_Init K E X = (Inr u, s)"
  shows "u = stream_setup X [] \<or> u = stream_setup X [LTls]"
  using assms
  by (cases K) (auto simp: tcp_Inits checked_Inr dest!: listen_tcp_Inr split: option.splits if_splits prod.splits sum.splits)

lemma serve_packets_Inr:
  "serve_packets E n a ls X = (Inr u, s) \<Longrightarrow> u = packet_setup n a ls [LTraffic] X"
  by (auto simp: serve_packets_def split: option.splits)

lemma resolved_Inr: "resolved E n a k = (Inr u, s) \<longleftrightarrow> (\<exists>b. se_resolve E n a = Inr b \<and> k b = (Inr u, s))"
  by (auto simp: resolved_def split: sum.splits)

lemma packet_setup_of:
  assumes "\<not> over_tcp K" "listener_Init K E X = (Inr u, s)"
  shows "LConns \<notin> set (lu_layers u) \<union> set (lu_each u) \<and>
    (set packet_layers \<subseteq> set (lu_layers u) \<union> set (lu_each u) \<longleftrightarrow> K \<noteq> Http3) \<and> lu_cap u = backlog_cap (so_backlog X)"
proof (cases K)
  case Dns
  with assms(2) show ?thesis
    by (auto simp: dns_Init_def dns_stream_def checked_Inr resolved_Inr Let_def packet_layers_def packet_setup_def
        split: if_splits option.splits)
next
  case Wt
  with assms(2) show ?thesis
    by (auto simp: wt_Init_def checked_Inr resolved_Inr Let_def packet_layers_def packet_setup_def split: option.splits)
next
  case Http3
  with assms(2) show ?thesis
    by (auto simp: http3_Init_def checked_Inr resolved_Inr Let_def packet_layers_def packet_setup_def split: option.splits)
next
  case (Pht b)
  with assms(2) show ?thesis
    by (auto simp: pht_Init_def checked_Inr resolved_Inr Let_def packet_layers_def packet_setup_def)
next
  case Kcp
  with assms(2) show ?thesis
    by (auto simp: kcp_Listener_Init_def checked_Inr resolved_Inr Let_def packet_layers_def packet_setup_def
        dest!: serve_packets_Inr split: if_splits)
next
  case Quic
  with assms(2) show ?thesis
    by (auto simp: quic_Init_def checked_Inr resolved_Inr Let_def packet_layers_def packet_setup_def
        dest!: serve_packets_Inr split: if_splits)
next
  case (Icmp b)
  with assms(2) show ?thesis
    by (auto simp: icmp_Init_def checked_Inr Let_def packet_layers_def packet_setup_def dest!: serve_packets_Inr)
qed (use assms in auto)

text \<open>
  Between the socket of a listener and the connections it hands out stand the counters, the admission
  and the traffic limiter of its service, whatever the transport, with the one exception of HTTP/3; the
  connection limiter stands there exactly for the transports over TCP. Every listener has room for at
  least one waiting connection.
\<close>

theorem layers_of_every_listener:
  assumes "listener_Init K E X = (Inr u, s)"
  shows "(set packet_layers \<subseteq> set (lu_layers u) \<union> set (lu_each u) \<longleftrightarrow> K \<noteq> Http3) \<and>
    (LConns \<in> set (lu_layers u) \<union> set (lu_each u) \<longleftrightarrow> over_tcp K) \<and> 0 < lu_cap u"
proof (cases "over_tcp K")
  case True
  then have "K \<noteq> Http3" by auto
  with True tcp_setup [OF True assms] show ?thesis
    by (auto simp: stream_setup_def stream_layers_def packet_layers_def backlog_cap_def defaultBacklog_def)
next
  case False
  with packet_setup_of [OF False assms] show ?thesis
    by (simp add: backlog_cap_def defaultBacklog_def)
qed

definition plain_setup_env :: setup_env where
  "plain_setup_env = \<lparr>se_listen = \<lambda>n a m. None, se_packet = \<lambda>n a. None, se_resolve = \<lambda>n a. Inr a, se_serve = None,
     se_configure = None\<rparr>"

definition plain_setup_opts :: setup_opts where
  "plain_setup_opts = \<lparr>so_md = None, so_addr = '':443'', so_mptcp = False, so_backlog = 0, so_proxy = 0,
     so_cipher = False, so_tcp = False, so_mode = []\<rparr>"

theorem layers_of_every_listener_witness:
  "\<exists>u s. listener_Init Quic plain_setup_env plain_setup_opts = (Inr u, s) \<and>
     LConns \<notin> set (lu_layers u) \<union> set (lu_each u)"
proof -
  obtain u s where r: "listener_Init Quic plain_setup_env plain_setup_opts = (Inr u, s)"
    by (auto simp: quic_Init_def checked_def resolved_def serve_packets_def plain_setup_env_def
        plain_setup_opts_def Let_def)
  from layers_of_every_listener [OF r] r show ?thesis by auto
qed

text \<open>
  A listener that cannot be set up leaves no socket behind, except for the three whose server is started
  on a socket of their own: there the address stays taken.
\<close>

lemma failed_setup_leaves_no_socket:
  assumes "listener_Init K E X = (Inl e, s)" "K \<noteq> Kcp" "K \<noteq> Quic" "\<And>b. K \<noteq> Icmp b"
  shows "s = []"
  using assms
  by (cases K) (auto simp: tcp_Inits packet_Inits checked_def listen_tcp_def resolved_def dns_stream_def Let_def
      split: option.splits if_splits sum.splits)

lemma failed_quic_setup_keeps_socket:
  assumes "se_serve E = Some e" "so_md X = None" "se_resolve E = (\<lambda>n a. Inr a)" "se_packet E = (\<lambda>n a. None)"
  shows "\<exists>n a. listener_Init Quic E X = (Inl e, [(n, a)])"
  using assms by (auto simp: quic_Init_def checked_def resolved_def serve_packets_def Let_def)

text \<open>
  Accepting over TLS: what comes back is the first client whose handshake succeeds, every one before it
  is closed, and all of their handshakes are waited for one after the other.
\<close>

lemma silent_Accept_ok:
  assumes "\<forall>x \<in> set xs. case x of Inl e \<Rightarrow> False | Inr (c, ok, t) \<Rightarrow> \<not> (ok \<and> t \<le> handshake_limit) \<and> 0 \<le> t"
    and "ok" "t \<le> handshake_limit"
  shows "silent_Accept (xs @ Inr (c, ok, t) # ys) =
    Some (Inr c, map (fst \<circ> projr) xs, (\<Sum>x\<leftarrow>xs. min (snd (snd (projr x))) handshake_limit) + t, ys)"
  using assms by (induction xs) (auto split: sum.splits)

lemma silent_client_blocks_listener:
  "silent_Accept [Inr (a, False, 60 * second), Inr (b, True, 0)] = Some (Inr b, [a], 10 * second, [])"
  by (simp add: handshake_limit_def second_def)

end
