(* ===== verification/QueueListener.thy ===== *)
theory QueueListener
  imports ListenerSetup Base64 "HOL-Library.Sublist"
begin

text \<open>
  The queue between the goroutines of a listener that take connections and the service that asks for
  them: the channels \<open>cqueue\<close> and \<open>errChan\<close> of \<open>x/listener\<close>, \<open>Accept\<close>, and what each listener does when
  its socket ends or it is closed. A channel is the list of what is in it; a \<open>select\<close> with several
  ready cases takes any of them, which a choice given to the function decides.
\<close>

section \<open>The queue\<close>

record 'c queue =
  qu_cap :: nat
  qu_items :: "'c list"
  qu_errs :: "go_error list"
  qu_over :: bool
  qu_handed :: "'c list"
  qu_refused :: "'c list"

definition new_queue :: "nat \<Rightarrow> 'c queue" where
  "new_queue n = \<lparr>qu_cap = n, qu_items = [], qu_errs = [], qu_over = False, qu_handed = [], qu_refused = []\<rparr>"

text \<open>A connection that finds the queue full is closed or, by some, just left.\<close>

definition q_refuse :: "'c \<Rightarrow> 'c queue \<Rightarrow> 'c queue" where
  "q_refuse c q = q\<lparr>qu_refused := qu_refused q @ [c]\<rparr>"

definition offer :: "'c \<Rightarrow> 'c queue \<Rightarrow> 'c queue" where
  "offer c q = (if length (qu_items q) < qu_cap q then q\<lparr>qu_items := qu_items q @ [c]\<rparr> else q_refuse c q)"

text \<open>A stream of KCP and QUIC may have died before it is queued; then both cases of the \<open>select\<close> are ready.\<close>

definition offer_stream :: "bool \<Rightarrow> bool \<Rightarrow> 'c \<Rightarrow> 'c queue \<Rightarrow> 'c queue" where
  "offer_stream died pick c q = (if died \<and> pick then q_refuse c q else offer c q)"

text \<open>
  \<open>Accept\<close>: a connection, an error (perhaps \<open>nil\<close>), or waiting. The error of a closed listener is
  one of a package outside the repository, a parameter.
\<close>

datatype 'c got = Waits | Got "'c option" go_error

definition queue_Accept :: "string \<Rightarrow> bool \<Rightarrow> 'c queue \<Rightarrow> 'c got \<times> 'c queue" where
  "queue_Accept ErrClosed pick q =
     (if qu_items q \<noteq> [] \<and> (pick \<or> qu_errs q = [] \<and> \<not> qu_over q) then
        (Got (Some (hd (qu_items q))) nil_error,
         q\<lparr>qu_items := tl (qu_items q), qu_handed := qu_handed q @ [hd (qu_items q)]\<rparr>)
      else if qu_errs q \<noteq> [] then (Got None (hd (qu_errs q)), q\<lparr>qu_errs := tl (qu_errs q)\<rparr>)
      else if qu_over q then (Got None (Some ErrClosed), q)
      else (Waits, q))"

lemma offer_keeps [simp]:
  "qu_over (offer c q) = qu_over q" "qu_errs (offer c q) = qu_errs q"
  "qu_over (offer_stream d p c q) = qu_over q" "qu_errs (offer_stream d p c q) = qu_errs q"
  by (simp_all add: offer_def offer_stream_def q_refuse_def)

section \<open>Streams of a session\<close>

datatype mux_close = CloseConn | CloseSession | CloseWith nat

text \<open>The loop of \<open>mux\<close> over the streams until \<open>Accept\<close> of the session fails, with what is closed in the end.\<close>

definition server_mux :: "go_error \<Rightarrow> 'c list \<Rightarrow> 'c queue \<Rightarrow> 'c queue \<times> mux_close list" where
  "server_mux created streams q =
     (case created of
        Some e \<Rightarrow> (q, [CloseConn])
      | None \<Rightarrow> (fold offer streams q, [CloseSession, CloseConn]))"

definition kcp_mux :: "go_error \<Rightarrow> (bool \<times> bool \<times> 'c) list \<Rightarrow> 'c queue \<Rightarrow> 'c queue \<times> mux_close list" where
  "kcp_mux created streams q =
     (case created of
        Some e \<Rightarrow> (q, [CloseConn])
      | None \<Rightarrow> (fold (\<lambda>(died, pick, c). offer_stream died pick c) streams q, [CloseSession, CloseConn]))"

definition quic_mux :: "(bool \<times> bool \<times> 'c) list \<Rightarrow> 'c queue \<Rightarrow> 'c queue \<times> mux_close list" where
  "quic_mux streams q = (fold (\<lambda>(died, pick, c). offer_stream died pick c) streams q, [CloseWith 0])"

definition wt_mux :: "go_error \<Rightarrow> 'c list \<Rightarrow> 'c queue \<Rightarrow> 'c queue \<times> mux_close list" where
  "wt_mux err streams q = (fold offer streams q, [CloseWith (if err \<noteq> None then 1 else 0)])"

section \<open>The end of a listener\<close>

text \<open>\<open>listenLoop\<close> leaves the error of the socket, the servers one only if there is one.\<close>

definition loop_ends :: "go_error \<Rightarrow> 'c queue \<Rightarrow> 'c queue" where
  "loop_ends err q = q\<lparr>qu_errs := qu_errs q @ [err], qu_over := True\<rparr>"

definition serve_ends :: "go_error \<Rightarrow> 'c queue \<Rightarrow> 'c queue" where
  "serve_ends err q =
     (case err of
        Some e \<Rightarrow> q\<lparr>qu_errs := qu_errs q @ [Some e], qu_over := True\<rparr>
      | None \<Rightarrow> q\<lparr>qu_over := True\<rparr>)"

text \<open>
  \<open>Close\<close> of the listeners on HTTP/2 and HTTP/3 writes to the channel itself; a later one takes what is
  left in it. The argument is what closing the server returns.
\<close>

definition http2_Close :: "go_error \<Rightarrow> 'c queue \<Rightarrow> go_error \<times> 'c queue" where
  "http2_Close err q =
     (if qu_errs q \<noteq> [] then (nil_error, q\<lparr>qu_errs := tl (qu_errs q)\<rparr>)
      else if qu_over q then (nil_error, q)
      else (err, q\<lparr>qu_errs := [Some ''http: Server closed''], qu_over := True\<rparr>))"

definition h2_Close :: "go_error \<Rightarrow> 'c queue \<Rightarrow> go_error \<times> 'c queue" where
  "h2_Close err q =
     (if qu_errs q \<noteq> [] then (nil_error, q\<lparr>qu_errs := tl (qu_errs q)\<rparr>)
      else if qu_over q then (nil_error, q)
      else (nil_error, q\<lparr>qu_errs := [err], qu_over := True\<rparr>))"

definition wt_Close :: "go_error \<Rightarrow> 'c queue \<Rightarrow> go_error \<times> 'c queue" where
  "wt_Close err q = (err, q)"

fun listener_ends :: "listener_kind \<Rightarrow> go_error \<Rightarrow> 'c queue \<Rightarrow> 'c queue" where
  "listener_ends (Ws b) err q = serve_ends err q"
| "listener_ends (Mws b) err q = serve_ends err q"
| "listener_ends Grpc err q = serve_ends err q"
| "listener_ends Dns err q = serve_ends err q"
| "listener_ends Http2 err q = snd (http2_Close err q)"
| "listener_ends (H2 b) err q = snd (h2_Close err q)"
| "listener_ends Http3 err q = snd (h2_Close err q)"
| "listener_ends Wt err q = snd (wt_Close err q)"
| "listener_ends K err q = loop_ends err q"


text \<open>The error that ends a loop over \<open>Accept\<close> of a socket is not \<open>nil\<close>.\<close>

fun possible_end :: "listener_kind \<Rightarrow> go_error \<Rightarrow> bool" where
  "possible_end (Ws b) err = True" | "possible_end (Mws b) err = True" | "possible_end Grpc err = True"
| "possible_end Dns err = True" | "possible_end Http2 err = True" | "possible_end (H2 b) err = True"
| "possible_end Http3 err = True" | "possible_end Wt err = True" | "possible_end K err = (err \<noteq> None)"

fun streams_die :: "listener_kind \<Rightarrow> bool" where
  "streams_die Kcp = True" | "streams_die Quic = True" | "streams_die (Icmp b) = True" | "streams_die _ = False"

text \<open>Every history of a listener, with the connections that have reached its queue.\<close>

inductive queue_run :: "listener_kind \<Rightarrow> 'c list \<Rightarrow> 'c queue \<Rightarrow> bool" for K where
  start: "queue_run K [] (new_queue n)"
| arrive: "queue_run K cs q \<Longrightarrow> queue_run K (cs @ [c]) (offer c q)"
| die: "queue_run K cs q \<Longrightarrow> streams_die K \<Longrightarrow> queue_run K (cs @ [c]) (offer_stream True pick c q)"
| accept: "queue_run K cs q \<Longrightarrow> queue_Accept ErrClosed pick q = (r, q') \<Longrightarrow> queue_run K cs q'"
| finish: "queue_run K cs q \<Longrightarrow> \<not> qu_over q \<Longrightarrow> possible_end K err \<Longrightarrow> queue_run K cs (listener_ends K err q)"

section \<open>Connections in order\<close>

lemma ends_keep [simp]:
  "qu_items (listener_ends K err q) = qu_items q" "qu_handed (listener_ends K err q) = qu_handed q"
  "qu_refused (listener_ends K err q) = qu_refused q" "qu_cap (listener_ends K err q) = qu_cap q"
  by (cases K; simp add: loop_ends_def serve_ends_def http2_Close_def h2_Close_def wt_Close_def split: option.split)+

definition queue_ok :: "'c list \<Rightarrow> 'c queue \<Rightarrow> bool" where
  "queue_ok cs q \<longleftrightarrow> length (qu_items q) \<le> qu_cap q \<and>
     (\<exists>bs. length bs = length cs \<and> qu_handed q @ qu_items q = map fst (filter snd (zip cs bs)) \<and>
       qu_refused q = map fst (filter (Not \<circ> snd) (zip cs bs)))"

lemma queue_ok_refuse: "queue_ok cs q \<Longrightarrow> queue_ok (cs @ [c]) (q_refuse c q)"
proof -
  assume "queue_ok cs q"
  then obtain bs where "length bs = length cs" "qu_handed q @ qu_items q = map fst (filter snd (zip cs bs))"
    "qu_refused q = map fst (filter (Not \<circ> snd) (zip cs bs))" "length (qu_items q) \<le> qu_cap q"
    by (auto simp: queue_ok_def)
  then show ?thesis by (auto simp: queue_ok_def q_refuse_def intro!: exI [of _ "bs @ [False]"])
qed

lemma queue_ok_offer: "queue_ok cs q \<Longrightarrow> queue_ok (cs @ [c]) (offer c q)"
proof (cases "length (qu_items q) < qu_cap q")
  case True
  assume "queue_ok cs q"
  then obtain bs where "length bs = length cs" "qu_handed q @ qu_items q = map fst (filter snd (zip cs bs))"
    "qu_refused q = map fst (filter (Not \<circ> snd) (zip cs bs))"
    by (auto simp: queue_ok_def)
  with True show ?thesis
    by (auto simp: queue_ok_def offer_def simp flip: append_assoc intro!: exI [of _ "bs @ [True]"])
qed (simp add: offer_def queue_ok_refuse)

lemma queue_run_ok: "queue_run K cs q \<Longrightarrow> queue_ok cs q"
proof (induction rule: queue_run.induct)
  case (start n)
  show ?case by (simp add: queue_ok_def new_queue_def)
next
  case (accept cs q pick r q')
  then show ?case by (auto simp: queue_ok_def queue_Accept_def split: if_splits)
next
  case (finish cs q err)
  then show ?case by (simp add: queue_ok_def)
qed (simp_all add: queue_ok_offer queue_ok_refuse offer_stream_def)

text \<open>
  Of the connections that reach the queue, those it takes are handed out in the order of their arrival,
  and never more wait than the backlog allows.
\<close>

lemma queue_keeps_order:
  assumes "queue_run K cs q" "distinct cs"
  shows "qu_handed q @ qu_items q = filter (\<lambda>c. c \<notin> set (qu_refused q)) cs \<and>
    set cs = set (qu_handed q) \<union> set (qu_items q) \<union> set (qu_refused q) \<and> length (qu_items q) \<le> qu_cap q"
proof -
  obtain bs where bs: "length bs = length cs" "qu_handed q @ qu_items q = map fst (filter snd (zip cs bs))"
    "qu_refused q = map fst (filter (Not \<circ> snd) (zip cs bs))" and len: "length (qu_items q) \<le> qu_cap q"
    using queue_run_ok [OF assms(1)] by (auto simp: queue_ok_def)
  have split: "map fst (filter snd (zip cs bs)) =
      filter (\<lambda>c. c \<notin> set (map fst (filter (Not \<circ> snd) (zip cs bs)))) cs \<and>
      set cs = set (map fst (filter snd (zip cs bs))) \<union> set (map fst (filter (Not \<circ> snd) (zip cs bs)))"
    using bs(1) assms(2)
  proof (induction bs cs rule: list_induct2)
    case (Cons b bs c cs)
    have "c \<notin> set (map fst (filter (Not \<circ> snd) (zip cs bs)))" using Cons by (auto dest: set_zip_leftD)
    moreover have "filter (\<lambda>x. x \<noteq> c \<and> P x) cs = filter P cs" for P
      using Cons.prems by (intro filter_cong) auto
    ultimately show ?case using Cons by auto
  qed simp
  then have f: "qu_handed q @ qu_items q = filter (\<lambda>c. c \<notin> set (qu_refused q)) cs"
    and "set cs = set (qu_handed q @ qu_items q) \<union> set (qu_refused q)"
    by (simp_all only: bs(2,3))
  then show ?thesis using len unfolding set_append by blast
qed

section \<open>The service behind\<close>

text \<open>
  What the loop of a service makes of a result. It hands a connection to the handler, or closes it when
  the admission of the service refuses it; at a temporary error it sleeps, for up to five seconds, and
  asks again; at any other it stops; and it asks the connection of neither for its address, which panics.
  Which errors are temporary and which connections are admitted are parameters.
\<close>

datatype 'c service_turn = Handles 'c | Refuses 'c | Retries nat | Stops string | Panics

definition next_delay :: "nat \<Rightarrow> nat" where
  "next_delay d = min 5 (if d = 0 then 1 else 2 * d)"

fun use_accepted :: "(string \<Rightarrow> bool) \<Rightarrow> ('c \<Rightarrow> bool) \<Rightarrow> nat \<Rightarrow> 'c option \<Rightarrow> go_error \<Rightarrow> 'c service_turn" where
  "use_accepted temporary admitted d c (Some e) = (if temporary e then Retries (next_delay d) else Stops e)"
| "use_accepted temporary admitted d (Some c) None = (if admitted c then Handles c else Refuses c)"
| "use_accepted temporary admitted d None None = Panics"

text \<open>
  The turns of the loop. Before each, connections may reach the queue from the goroutines of the
  listener, which run on when its socket has ended; the choice is that of the \<open>select\<close>. Where the loop
  waits, it goes on with what arrives next.
\<close>

type_synonym 'c stream = "bool \<times> bool \<times> 'c"

definition offer_all :: "'c stream list \<Rightarrow> 'c queue \<Rightarrow> 'c queue" where
  "offer_all cs q = fold (\<lambda>(died, pick, c). offer_stream died pick c) cs q"

fun service_turns ::
    "(string \<Rightarrow> bool) \<Rightarrow> ('c \<Rightarrow> bool) \<Rightarrow> string \<Rightarrow> nat \<Rightarrow> ('c stream list \<times> bool) list \<Rightarrow> 'c queue \<Rightarrow> 'c service_turn list" where
  "service_turns temporary admitted ErrClosed d [] q = []"
| "service_turns temporary admitted ErrClosed d ((cs, p) # sched) q =
     (case queue_Accept ErrClosed p (offer_all cs q) of
        (Waits, q') \<Rightarrow> service_turns temporary admitted ErrClosed d sched q'
      | (Got c e, q') \<Rightarrow>
          (case use_accepted temporary admitted d c e of
             Stops e' \<Rightarrow> [Stops e']
           | Panics \<Rightarrow> [Panics]
           | Retries d' \<Rightarrow> Retries d' # service_turns temporary admitted ErrClosed d' sched q'
           | t \<Rightarrow> t # service_turns temporary admitted ErrClosed 0 sched q'))"









lemma offer_all_keeps [simp]: "qu_over (offer_all cs q) = qu_over q" "qu_errs (offer_all cs q) = qu_errs q"
  by (induction cs arbitrary: q) (auto simp: offer_all_def)









text \<open>
  Closing a listener on HTTP/3 or the tunnel over HTTP/2 whose server closes without an error makes
  \<open>Accept\<close> return neither a connection nor an error: the service panics, and with it the program.
\<close>

lemma h2_close_panics:
  assumes "\<not> qu_over q" "qu_errs q = []" "qu_items q = []"
  shows "service_turns temporary admitted ErrClosed d [([], pick)] (snd (h2_Close None q)) = [Panics]"
  using assms by (simp add: h2_Close_def queue_Accept_def offer_all_def)

text \<open>Nobody tells a service on WebTransport that its listener is closed.\<close>

lemma wt_service_waits:
  assumes "\<not> qu_over q" "qu_errs q = []" "qu_items q = []"
  shows "queue_Accept ErrClosed pick (snd (wt_Close err q)) = (Waits, q)"
  using assms by (simp add: wt_Close_def queue_Accept_def)

text \<open>Connections that wait when the service stops are not handed to anyone, and nothing closes them.\<close>

lemma waiting_connections_are_left:
  "\<not> temporary e \<Longrightarrow> service_turns temporary admitted ErrClosed d [([], False), ([], True)]
     (loop_ends (Some e) (offer c (new_queue 8))) = [Stops e]"
  by (simp add: loop_ends_def offer_def new_queue_def queue_Accept_def offer_all_def)

section \<open>Requests as connections\<close>

text \<open>
  The handlers of the HTTP servers: the reply they give, or the connection they wait for. A server
  answers 200 when its handler returns without a status.
\<close>

datatype reply = Status int | ServedBy

definition http2_handleFunc :: "'c \<Rightarrow> 'c queue \<Rightarrow> reply \<times> 'c queue" where
  "http2_handleFunc c q =
     (if length (qu_items q) < qu_cap q then (ServedBy, offer c q) else (Status 200, offer c q))"

definition h2_upgrade :: "string \<Rightarrow> string \<Rightarrow> string \<Rightarrow> int + unit" where
  "h2_upgrade path method uri =
     (if path = [] \<and> method \<noteq> ''CONNECT'' then Inl 405
      else if path \<noteq> [] \<and> uri \<noteq> path then Inl 400
      else Inr ())"

definition h2_handleFunc :: "string \<Rightarrow> string \<Rightarrow> string \<Rightarrow> 'c \<Rightarrow> 'c queue \<Rightarrow> reply \<times> 'c queue" where
  "h2_handleFunc path method uri c q =
     (case h2_upgrade path method uri of
        Inl s \<Rightarrow> (Status s, q)
      | Inr _ \<Rightarrow> ((if length (qu_items q) < qu_cap q then ServedBy else Status 200), offer c q))"

text \<open>The messages of DNS queries are the connections of the DNS listener.\<close>

definition dns_serve :: "'c \<Rightarrow> 'c queue \<Rightarrow> go_error \<times> 'c queue" where
  "dns_serve c q =
     (if length (qu_items q) < qu_cap q then (nil_error, offer c q)
      else (Some ''connection queue is full'', offer c q))"

definition ServeDNS :: "string + string \<Rightarrow> string queue \<Rightarrow> string queue" where
  "ServeDNS packed q = (case packed of Inl e \<Rightarrow> q | Inr b \<Rightarrow> snd (dns_serve b q))"

definition doh_message ::
    "string \<Rightarrow> string \<Rightarrow> string \<Rightarrow> (string + string) \<Rightarrow> int + string" where
  "doh_message method param contentType body =
     (if method = ''GET'' then
        (case RawURL_Decode param of
           None \<Rightarrow> Inl 400
         | Some b \<Rightarrow> if b = [] then Inl 400 else Inr b)
      else if method = ''POST'' then
        (if contentType \<noteq> ''application/dns-message'' then Inl 415
         else case body of Inl e \<Rightarrow> Inl 500 | Inr b \<Rightarrow> Inr b)
      else Inl 405)"

definition doh_ServeHTTP ::
    "(string \<Rightarrow> bool) \<Rightarrow> string \<Rightarrow> string \<Rightarrow> string \<Rightarrow> (string + string) \<Rightarrow> string queue \<Rightarrow> reply \<times> string queue" where
  "doh_ServeHTTP unpacks method param contentType body q =
     (case doh_message method param contentType body of
        Inl s \<Rightarrow> (Status s, q)
      | Inr b \<Rightarrow>
          (if \<not> unpacks b then (Status 400, q)
           else case dns_serve b q of
                  (Some e, q') \<Rightarrow> (Status 500, q')
                | (None, q') \<Rightarrow> (ServedBy, q')))"

text \<open>A query sent by GET arrives as it was encoded, and as it would have by POST.\<close>

lemma doh_get_is_post:
  assumes "m \<noteq> []"
  shows "doh_message ''GET'' (RawURL_Encode m) ct b = doh_message ''POST'' p ''application/dns-message'' (Inr m)"
  using assms by (simp add: doh_message_def RawURL_roundtrip)

lemma doh_queues_message:
  assumes "unpacks m" "m \<noteq> []" "length (qu_items q) < qu_cap q"
  shows "doh_ServeHTTP unpacks ''GET'' (RawURL_Encode m) ct b q = (ServedBy, q\<lparr>qu_items := qu_items q @ [m]\<rparr>)"
  using assms by (simp add: doh_ServeHTTP_def doh_message_def RawURL_roundtrip dns_serve_def offer_def)

text \<open>
  A client of the HTTP/2 proxy that finds the queue full is told that all is well: for a CONNECT that
  means a tunnel.
\<close>

lemma full_http2_answers_ok:
  assumes "length (qu_items q) = qu_cap q"
  shows "fst (http2_handleFunc c q) = Status 200"
  using assms by (simp add: http2_handleFunc_def)

end
