(* ===== verification/SshListener.thy ===== *)
theory SshListener
  imports QueueListener Authers
begin

text \<open>
  The SSH listeners, \<open>x/listener/ssh\<close> and \<open>sshd\<close> with \<open>x/internal/util/ssh/ssh.go\<close>: who is let in, the keys
  they read, and what becomes of the channels and requests of a session. The SSH package is outside the
  repository: which connections it lets in under a configuration is a parameter.
\<close>

section \<open>Who is let in\<close>

type_synonym password_callback = "string \<Rightarrow> string \<Rightarrow> go_error"

definition PasswordCallback :: "auther option \<Rightarrow> password_callback option" where
  "PasswordCallback au =
     (case au of
        None \<Rightarrow> None
      | Some a \<Rightarrow> Some (\<lambda>user password.
          if snd (a user password) then nil_error else Some (''password rejected for '' @ user)))"

definition PublicKeyCallback :: "(string \<Rightarrow> string) \<Rightarrow> string list \<Rightarrow> password_callback option" where
  "PublicKeyCallback quote keys =
     (if keys = [] then None
      else Some (\<lambda>user key. if key \<in> set keys then nil_error else Some (''unknown public key for '' @ quote user)))"

record ssh_server_config =
  sc_password :: "password_callback option"
  sc_publicKey :: "password_callback option"
  sc_noClientAuth :: bool

definition ssh_server_config_of ::
    "(string \<Rightarrow> string) \<Rightarrow> auther option \<Rightarrow> string list \<Rightarrow> ssh_server_config" where
  "ssh_server_config_of quote au keys =
     \<lparr>sc_password = PasswordCallback au, sc_publicKey = PublicKeyCallback quote keys,
      sc_noClientAuth = (au = None \<and> keys = [])\<rparr>"

datatype ssh_attempt = WithNothing | WithPassword string string | WithKey string string

text \<open>
  What the SSH package documents: a callback that is missing admits nobody, one that is there those for
  whom it returns no error.
\<close>

definition asks_callbacks :: "(ssh_server_config \<Rightarrow> ssh_attempt \<Rightarrow> bool) \<Rightarrow> bool" where
  "asks_callbacks admits \<longleftrightarrow> (\<forall>cfg a. admits cfg a \<longrightarrow>
     (case a of
        WithNothing \<Rightarrow> sc_noClientAuth cfg
      | WithPassword u p \<Rightarrow> (\<exists>f. sc_password cfg = Some f \<and> f u p = None)
      | WithKey u k \<Rightarrow> (\<exists>f. sc_publicKey cfg = Some f \<and> f u k = None)))"

text \<open>
  (C5) A client of an SSH listener gets in without credentials only when neither users nor keys are
  configured, with a password only when the authenticator accepts it, and with a key only when it is one
  of the authorised keys.
\<close>

theorem ssh_access:
  assumes "asks_callbacks admits" "admits (ssh_server_config_of quote au keys) a"
  shows "case a of
      WithNothing \<Rightarrow> au = None \<and> keys = []
    | WithPassword u p \<Rightarrow> (\<exists>f. au = Some f \<and> snd (f u p))
    | WithKey u k \<Rightarrow> k \<in> set keys"
proof -
  have "case a of WithNothing \<Rightarrow> sc_noClientAuth (ssh_server_config_of quote au keys)
      | WithPassword u p \<Rightarrow> (\<exists>f. sc_password (ssh_server_config_of quote au keys) = Some f \<and> f u p = None)
      | WithKey u k \<Rightarrow> (\<exists>f. sc_publicKey (ssh_server_config_of quote au keys) = Some f \<and> f u k = None)"
    using assms unfolding asks_callbacks_def by blast
  then show ?thesis
    by (cases a)
      (auto simp: ssh_server_config_of_def PasswordCallback_def PublicKeyCallback_def split: option.splits if_splits)
qed

definition strict_server :: "ssh_server_config \<Rightarrow> ssh_attempt \<Rightarrow> bool" where
  "strict_server cfg a =
     (case a of
        WithNothing \<Rightarrow> sc_noClientAuth cfg
      | WithPassword u p \<Rightarrow> (case sc_password cfg of None \<Rightarrow> False | Some f \<Rightarrow> f u p = None)
      | WithKey u k \<Rightarrow> (case sc_publicKey cfg of None \<Rightarrow> False | Some f \<Rightarrow> f u k = None))"

theorem ssh_access_witness:
  "strict_server (ssh_server_config_of id None [''k1'']) (WithKey ''root'' ''k1'') \<and> ''k1'' \<in> set [''k1'']"
proof -
  have "asks_callbacks strict_server" by (auto simp: asks_callbacks_def strict_server_def split: ssh_attempt.splits option.splits)
  moreover have a: "strict_server (ssh_server_config_of id None [''k1'']) (WithKey ''root'' ''k1'')"
    by (simp add: strict_server_def ssh_server_config_of_def PublicKeyCallback_def)
  ultimately have "case WithKey ''root'' ''k1'' of WithNothing \<Rightarrow> (None :: auther option) = None \<and> [''k1''] = []
    | WithPassword u p \<Rightarrow> (\<exists>f. (None :: auther option) = Some f \<and> snd (f u p)) | WithKey u k \<Rightarrow> k \<in> set [''k1'']"
    by (rule ssh_access)
  with a show ?thesis by simp
qed

section \<open>Keys\<close>

text \<open>
  The keys of a file, one after the other. \<open>ParseAuthorizedKey\<close> takes a key off the front of the text;
  when nothing but comments is left it fails.
\<close>

partial_function (option) authorized_keys ::
    "(string \<Rightarrow> string + string \<times> string) \<Rightarrow> string \<Rightarrow> string list \<Rightarrow> (string + string list) option" where
  "authorized_keys parse data keys =
     (if data = [] then Some (Inr keys)
      else case parse data of
             Inl e \<Rightarrow> Some (Inl e)
           | Inr (k, rest) \<Rightarrow> authorized_keys parse rest (keys @ [k]))"

definition ParseAuthorizedKeysFile ::
    "(string \<Rightarrow> string + string) \<Rightarrow> (string \<Rightarrow> string + string \<times> string) \<Rightarrow> string \<Rightarrow> (string + string list) option" where
  "ParseAuthorizedKeysFile read parse name =
     (case read name of Inl e \<Rightarrow> Some (Inl e) | Inr data \<Rightarrow> authorized_keys parse data [])"

lemma authorized_keys_end:
  assumes shrinks: "\<And>d k r. parse d = Inr (k, r) \<Longrightarrow> length r < length d"
  shows "\<exists>y. authorized_keys parse data keys = Some y"
proof (induction data arbitrary: keys rule: length_induct)
  case (1 data)
  show ?case
  proof (cases "parse data")
    case (Inr kr)
    obtain k r where kr: "kr = (k, r)" by (cases kr)
    show ?thesis
    proof (cases "data = []")
      case False
      then show ?thesis
        using 1 [rule_format, OF shrinks [OF Inr [unfolded kr]], of "keys @ [k]"] Inr kr
        by (subst authorized_keys.simps) auto
    qed (simp add: authorized_keys.simps)
  qed (auto simp: authorized_keys.simps)
qed

text \<open>A blank line or a comment after the last key makes the whole file unreadable.\<close>

lemma trailing_comment_refuses_file:
  assumes "parse (k @ comment) = Inr (key, comment)" "k \<noteq> []" "comment \<noteq> []" "parse comment = Inl e"
    "read name = Inr (k @ comment)"
  shows "ParseAuthorizedKeysFile read parse name = Some (Inl e)"
  using assms by (simp add: ParseAuthorizedKeysFile_def authorized_keys.simps)

text \<open>
  The metadata of the listeners: the signer is the one of the key file or else that of the certificate.
  The pass phrase of \<open>sshd\<close> may come from the keyring.
\<close>

record ssh_env =
  se_expand :: "string \<Rightarrow> string + string"
  se_read :: "string \<Rightarrow> string + string"
  se_key :: "string option \<Rightarrow> string \<Rightarrow> string + string"
  se_certificate :: "string + string"
  se_keyring :: "string \<Rightarrow> string \<Rightarrow> string + string"
  se_user :: string
  se_authorized :: "string \<Rightarrow> string + string list"

record ssh_listener_md =
  sm_signer :: string
  sm_keys :: "string list"
  sm_backlog :: int
  sm_mptcp :: bool

text \<open>What follows the pass phrase is the same in both.\<close>

definition ssh_rest :: "ssh_env \<Rightarrow> metadata \<Rightarrow> string option \<Rightarrow> string + ssh_listener_md" where
  "ssh_rest E md signer =
     (case (case signer of Some s \<Rightarrow> Inr s | None \<Rightarrow> se_certificate E) of
        Inl e \<Rightarrow> Inl e
      | Inr s \<Rightarrow>
          (let name = GetString md [''authorizedKeys''] in
           case (if name \<noteq> [] then se_authorized E name else Inr []) of
             Inl e \<Rightarrow> Inl e
           | Inr keys \<Rightarrow> Inr \<lparr>sm_signer = s, sm_keys = keys, sm_backlog = backlog_of md [''backlog''],
                               sm_mptcp = GetBool md [''mptcp'']\<rparr>))"

definition key_file ::
    "ssh_env \<Rightarrow> metadata \<Rightarrow> (string \<Rightarrow> string + string) \<Rightarrow> string + string option" where
  "key_file E md phrase =
     (let key = GetString md [''privateKeyFile''] in
      if key = [] then Inr None
      else case se_expand E key of
             Inl e \<Rightarrow> Inl e
           | Inr key' \<Rightarrow>
               (case se_read E key' of
                  Inl e \<Rightarrow> Inl e
                | Inr data \<Rightarrow>
                    (case phrase key' of
                       Inl e \<Rightarrow> Inl e
                     | Inr pp \<Rightarrow> map_sum id Some (se_key E (if pp = [] then None else Some pp) data))))"

definition ssh_parseMetadata :: "ssh_env \<Rightarrow> metadata \<Rightarrow> string + ssh_listener_md" where
  "ssh_parseMetadata E md =
     (case key_file E md (\<lambda>key. Inr (GetString md [''passphrase''])) of
        Inl e \<Rightarrow> Inl e
      | Inr signer \<Rightarrow> ssh_rest E md signer)"

definition sshd_parseMetadata :: "ssh_env \<Rightarrow> metadata \<Rightarrow> string + ssh_listener_md" where
  "sshd_parseMetadata E md =
     (case key_file E md (\<lambda>key.
         if GetBool md [''passphraseFromKeyring''] then
           (case se_keyring E (''SSH '' @ key) (se_user E) of
              Inl e \<Rightarrow> Inl (''unable to get secret('' @ key @ '') from keyring: '' @ e)
            | Inr pp \<Rightarrow> Inr pp)
         else Inr (GetString md [''passphrase''])) of
        Inl e \<Rightarrow> Inl e
      | Inr signer \<Rightarrow> ssh_rest E md signer)"

text \<open>An unreadable file of authorised keys is an error, never an empty list of keys.\<close>

lemma authorized_keys_are_those_of_the_file:
  assumes "ssh_parseMetadata E md = Inr m" "GetString md [''authorizedKeys''] \<noteq> []"
  shows "se_authorized E (GetString md [''authorizedKeys'']) = Inr (sm_keys m)"
  using assms by (auto simp: ssh_parseMetadata_def ssh_rest_def Let_def split: sum.splits option.splits)

section \<open>Channels and requests\<close>

text \<open>
  A new channel of a session: its type, the error of accepting it and the connection it becomes. The
  replies are what the peer hears.
\<close>

datatype ssh_reply = Accepts | RejectsFull | RejectsType string | Replies bool string

definition queued_or :: "ssh_reply list \<Rightarrow> 'c \<Rightarrow> 'c queue \<Rightarrow> ssh_reply list \<times> 'c queue" where
  "queued_or refusal c q = (if length (qu_items q) < qu_cap q then [] else refusal, offer c q)"

definition ssh_channel ::
    "string \<Rightarrow> go_error \<Rightarrow> 'c \<Rightarrow> 'c queue \<Rightarrow> ssh_reply list \<times> 'c queue" where
  "ssh_channel t err c q =
     (if t = ''gost-tunnel'' then
        (case err of
           Some e \<Rightarrow> ([], q)
         | None \<Rightarrow> apfst ((#) Accepts) (queued_or [RejectsFull] c q))
      else ([RejectsType t], q))"

datatype forward_conn = DirectForward string | RemoteForward

definition direct_address :: "string \<Rightarrow> nat \<Rightarrow> string" where
  "direct_address host port = JoinHostPort (if host = ''<nil>'' then [] else host) (show_nat port)"

definition sshd_channel ::
    "string \<Rightarrow> go_error \<Rightarrow> string \<Rightarrow> nat \<Rightarrow> forward_conn queue \<Rightarrow> ssh_reply list \<times> forward_conn queue" where
  "sshd_channel t err host port q =
     (if t = ''direct-tcpip'' then
        (case err of
           Some e \<Rightarrow> ([], q)
         | None \<Rightarrow> apfst ((#) Accepts) (queued_or [RejectsFull] (DirectForward (direct_address host port)) q))
      else ([RejectsType t], q))"

definition sshd_request :: "string \<Rightarrow> forward_conn queue \<Rightarrow> ssh_reply list \<times> forward_conn queue" where
  "sshd_request t q =
     (if t = ''tcpip-forward'' then queued_or [Replies False ''connection queue is full''] RemoteForward q
      else if t = ''ping'' then ([Replies True ''pong''], q)
      else ([Replies False []], q))"

text \<open>Every request is either answered at once or waits for the service, and then only once.\<close>

lemma sshd_request_answered_or_queued:
  "sshd_request t q = (rs, q') \<Longrightarrow>
   (rs = [] \<and> qu_items q' = qu_items q @ [RemoteForward]) \<or> (length rs = 1 \<and> qu_items q' = qu_items q)"
  by (auto simp: sshd_request_def queued_or_def offer_def q_refuse_def split: if_splits)

text \<open>A channel that is refused for want of room has been accepted before, so its peer is never told.\<close>

lemma refusal_comes_after_acceptance:
  "length (qu_items q) = qu_cap q \<Longrightarrow>
   fst (sshd_channel ''direct-tcpip'' None host port q) = [Accepts, RejectsFull]"
  by (simp add: sshd_channel_def queued_or_def)

end
