(* ===== verification/BindListener.thy ===== *)
theory BindListener
  imports ListenerSetup
begin

text \<open>
  The listeners that bind through a chain, \<open>x/listener/rtcp\<close> and \<open>rudp\<close>: they have no socket of their own
  but ask the router for one when the service accepts, and again when it fails. \<open>Accept\<close> and \<open>Close\<close>
  run on different goroutines; each call on the channel, the lock or the bound listener is a step here.
\<close>

section \<open>Setting up\<close>

text \<open>The address that is asked for: a resolved one, or the text as it is.\<close>

definition bind_laddr :: "string \<Rightarrow> (string \<Rightarrow> string \<Rightarrow> string + string) \<Rightarrow> string \<Rightarrow> string" where
  "bind_laddr base resolve_addr addr =
     (case resolve_addr (net4_of base addr) addr of Inr a \<Rightarrow> a | Inl e \<Rightarrow> addr)"

definition rtcp_Init :: "go_error \<Rightarrow> (string \<Rightarrow> string \<Rightarrow> string + string) \<Rightarrow> string \<Rightarrow> string + string" where
  "rtcp_Init md resolve_addr addr =
     (case md of Some e \<Rightarrow> Inl e | None \<Rightarrow> Inr (bind_laddr ''tcp'' resolve_addr addr))"

definition rudp_Init :: "go_error \<Rightarrow> (string \<Rightarrow> string \<Rightarrow> string + string) \<Rightarrow> string \<Rightarrow> string + string" where
  "rudp_Init md resolve_addr addr =
     (case md of Some e \<Rightarrow> Inl e | None \<Rightarrow> Inr (bind_laddr ''udp'' resolve_addr addr))"

record rudp_md =
  rm_ttl :: int
  rm_bufferSize :: int
  rm_queueSize :: int
  rm_backlog :: int

definition positive_or :: "int \<Rightarrow> int \<Rightarrow> int" where
  "positive_or d n = (if n \<le> 0 then d else n)"

definition rudp_parseMetadata :: "(string \<Rightarrow> int option) \<Rightarrow> Metadata.metadata \<Rightarrow> rudp_md" where
  "rudp_parseMetadata parseDuration md =
     \<lparr>rm_ttl = positive_or (5 * second) (GetDuration parseDuration md [''ttl'']),
      rm_bufferSize = positive_or 8192 (GetInt md [''readBufferSize'']),
      rm_queueSize = positive_or 1024 (GetInt md [''readQueueSize'']),
      rm_backlog = backlog_of md [''backlog'']\<rparr>"

text \<open>The layers around what is bound and around a connection.\<close>

definition rtcp_layers :: "layer list \<times> layer list" where
  "rtcp_layers = ([LMetrics, LStats, LAdmission, LTraffic, LConns], [LTraffic])"

definition rudp_layers :: "bool \<Rightarrow> layer list \<times> layer list" where
  "rudp_layers is_packet = ([LTraffic, LConns], if is_packet then packet_layers else [])"

section \<open>Accepting and closing\<close>

record bind_state =
  bd_closed :: bool
  bd_ln :: "nat option"
  bd_open :: "nat set"
  bd_next :: nat

text \<open>Where \<open>Accept\<close> and \<open>Close\<close> stand.\<close>

datatype accept_at =
  AIdle
| AChecked
| ABinding
| ABound nat
| AHas nat
| AWaiting nat
| AFailed nat
| AClosed nat

datatype close_at = CNone | CMarked | CHas nat | CDone

text \<open>
  What \<open>Accept\<close> returns: \<open>net.ErrClosed\<close>, which ends the service, a temporary error, after which the service
  asks again, or a connection.
\<close>

datatype bind_outcome = BClosed | BTemporary string | BConn

definition accept_check :: "bind_state \<Rightarrow> accept_at \<times> bind_outcome option" where
  "accept_check st = (if bd_closed st then (AIdle, Some BClosed) else (AChecked, None))"

definition accept_get :: "bind_state \<Rightarrow> accept_at" where
  "accept_get st = (case bd_ln st of None \<Rightarrow> ABinding | Some l \<Rightarrow> AHas l)"

definition accept_bind :: "go_error \<Rightarrow> bind_state \<Rightarrow> accept_at \<times> bind_outcome option \<times> bind_state" where
  "accept_bind err st =
     (case err of
        Some e \<Rightarrow> (AIdle, Some (BTemporary e), st)
      | None \<Rightarrow> (ABound (bd_next st), None, st\<lparr>bd_open := insert (bd_next st) (bd_open st), bd_next := Suc (bd_next st)\<rparr>))"

definition accept_recheck :: "nat \<Rightarrow> bind_state \<Rightarrow> accept_at \<times> bind_outcome option \<times> bind_state" where
  "accept_recheck l st =
     (if bd_closed st then (AIdle, Some BClosed, st\<lparr>bd_open := bd_open st - {l}\<rparr>) else (AWaiting l, None, st))"

inductive bind_step :: "accept_at \<times> close_at \<times> bind_state \<Rightarrow> accept_at \<times> close_at \<times> bind_state \<Rightarrow> bool" where
  check: "accept_check st = (a, r) \<Longrightarrow> bind_step (AIdle, c, st) (a, c, st)"
| getln: "bind_step (AChecked, c, st) (accept_get st, c, st)"
| bind: "accept_bind err st = (a, r, st') \<Longrightarrow> bind_step (ABinding, c, st) (a, c, st')"
| setln: "bind_step (ABound l, c, st) (AHas l, c, st\<lparr>bd_ln := Some l\<rparr>)"
| recheck: "accept_recheck l st = (a, r, st') \<Longrightarrow> bind_step (AHas l, c, st) (a, c, st')"
| conn: "bind_step (AWaiting l, c, st) (AIdle, c, st)"
| fails: "bind_step (AWaiting l, c, st) (AFailed l, c, st)"
| closes: "bind_step (AFailed l, c, st) (AClosed l, c, st\<lparr>bd_open := bd_open st - {l}\<rparr>)"
| clears: "bind_step (AClosed l, c, st) (AIdle, c, st\<lparr>bd_ln := None\<rparr>)"
| mark: "bind_step (a, CNone, st) (a, if bd_closed st then CDone else CMarked, st\<lparr>bd_closed := True\<rparr>)"
| found: "bind_step (a, CMarked, st) (a, case bd_ln st of None \<Rightarrow> CDone | Some l \<Rightarrow> CHas l, st)"
| shut: "bind_step (a, CHas l, st) (a, CDone, st\<lparr>bd_open := bd_open st - {l}\<rparr>)"

inductive bind_run :: "accept_at \<times> close_at \<times> bind_state \<Rightarrow> bool" where
  start: "bind_run (AIdle, CNone, \<lparr>bd_closed = False, bd_ln = None, bd_open = {}, bd_next = 0\<rparr>)"
| step: "bind_run s \<Longrightarrow> bind_step s s' \<Longrightarrow> bind_run s'"

section \<open>Nothing is left bound\<close>

text \<open>The listener \<open>Accept\<close> has in hand and \<open>Close\<close> need not see.\<close>

fun in_hand :: "accept_at \<Rightarrow> nat set" where
  "in_hand (ABound l) = {l}"
| "in_hand (AHas l) = {l}"
| "in_hand _ = {}"

fun holding :: "accept_at \<Rightarrow> nat option" where
  "holding (AHas l) = Some l" | "holding (AWaiting l) = Some l" | "holding (AFailed l) = Some l" | "holding (AClosed l) = Some l"
| "holding _ = None"

fun without_listener :: "accept_at \<Rightarrow> bool" where
  "without_listener ABinding = True" | "without_listener (ABound l) = True" | "without_listener _ = False"

fun left_open :: "close_at \<Rightarrow> nat option \<Rightarrow> nat set" where
  "left_open (CHas l) ln = {l}"
| "left_open CDone ln = {}"
| "left_open _ ln = set_option ln"

definition bind_ok :: "accept_at \<times> close_at \<times> bind_state \<Rightarrow> bool" where
  "bind_ok s \<longleftrightarrow> (case s of (a, c, st) \<Rightarrow>
     bd_open st \<subseteq> in_hand a \<union> left_open c (bd_ln st) \<and>
     (holding a \<noteq> None \<longrightarrow> bd_ln st = holding a) \<and>
     (without_listener a \<longrightarrow> bd_ln st = None) \<and>
     (c \<noteq> CNone \<longleftrightarrow> bd_closed st) \<and>
     (\<forall>l. a = AClosed l \<longrightarrow> l \<notin> bd_open st))"

lemma bind_step_ok:
  assumes "bind_ok (a, c, st)" "bind_step (a, c, st) s'"
  shows "bind_ok s'"
  using assms(2)
proof (cases rule: bind_step.cases)
  case (check a' r)
  then show ?thesis using assms(1) by (auto simp: bind_ok_def accept_check_def split: if_splits)
next
  case getln
  then show ?thesis using assms(1) by (auto simp: bind_ok_def accept_get_def split: option.splits)
next
  case (bind err a' r st')
  then show ?thesis using assms(1) by (cases c) (auto simp: bind_ok_def accept_bind_def split: option.splits)
next
  case (setln l)
  then show ?thesis using assms(1) by (cases c) (auto simp: bind_ok_def)
next
  case (recheck l a' r st')
  then show ?thesis using assms(1) by (cases c) (auto simp: bind_ok_def accept_recheck_def split: if_splits)
next
  case (clears l)
  then show ?thesis using assms(1) by (cases c) (auto simp: bind_ok_def)
next
  case found
  then show ?thesis using assms(1) by (auto simp: bind_ok_def split: option.splits)
qed (use assms(1) in \<open>auto simp: bind_ok_def\<close>)

lemma bind_run_ok: "bind_run s \<Longrightarrow> bind_ok s"
proof (induction rule: bind_run.induct)
  case (step s s')
  obtain a c st where "s = (a, c, st)" by (rule prod_cases3)
  then show ?case using step.IH step.hyps(2) bind_step_ok by blast
qed (simp add: bind_ok_def)

text \<open>
  (C4) However \<open>Close\<close> falls between the steps of \<open>Accept\<close>, once it is done and \<open>Accept\<close> has returned nothing is
  left bound at the other end of the chain, and asking again returns \<open>net.ErrClosed\<close>.
\<close>

theorem closing_leaves_nothing_bound:
  assumes "bind_run (AIdle, CDone, st)"
  shows "bd_open st = {} \<and> accept_check st = (AIdle, Some BClosed)"
  using bind_run_ok [OF assms] by (auto simp: bind_ok_def accept_check_def)

theorem closing_leaves_nothing_bound_witness:
  "\<exists>st. bind_run (AIdle, CDone, st) \<and> bd_next st = 1 \<and> bd_open st = {}"
proof -
  let ?s0 = "\<lparr>bd_closed = False, bd_ln = None, bd_open = {}, bd_next = 0\<rparr>"
  have "bind_run (AChecked, CNone, ?s0)"
    by (rule step [OF start check]) (simp add: accept_check_def)
  then have "bind_run (ABinding, CNone, ?s0)"
    using step [OF _ getln [of CNone ?s0]] by (simp add: accept_get_def)
  then have "bind_run (ABound 0, CNone, \<lparr>bd_closed = False, bd_ln = None, bd_open = {0}, bd_next = 1\<rparr>)"
    by (rule step) (rule bind [of None _ _ None], simp add: accept_bind_def)
  then have "bind_run (ABound 0, CMarked, \<lparr>bd_closed = True, bd_ln = None, bd_open = {0}, bd_next = 1\<rparr>)"
    using step [OF _ mark] by fastforce
  then have "bind_run (ABound 0, CDone, \<lparr>bd_closed = True, bd_ln = None, bd_open = {0}, bd_next = 1\<rparr>)"
    using step [OF _ found] by fastforce
  then have "bind_run (AHas 0, CDone, \<lparr>bd_closed = True, bd_ln = Some 0, bd_open = {0}, bd_next = 1\<rparr>)"
    using step [OF _ setln] by fastforce
  then have r: "bind_run (AIdle, CDone, \<lparr>bd_closed = True, bd_ln = Some 0, bd_open = {}, bd_next = 1\<rparr>)"
    by (rule step) (rule recheck [of _ _ _ "Some BClosed"], simp add: accept_recheck_def)
  from closing_leaves_nothing_bound [OF this] r show ?thesis by auto
qed

text \<open>After a failure to bind or to accept nothing is kept, so that the next call binds anew.\<close>

lemma failure_binds_anew:
  "accept_bind (Some e) st = (a, r, st') \<Longrightarrow> st' = st \<and> r = Some (BTemporary e)"
  "accept_get (st\<lparr>bd_ln := None\<rparr>) = ABinding"
  by (auto simp: accept_bind_def accept_get_def)

lemma rudp_metadata_positive:
  "0 < rm_ttl (rudp_parseMetadata D md) \<and> 0 < rm_bufferSize (rudp_parseMetadata D md) \<and>
   0 < rm_queueSize (rudp_parseMetadata D md) \<and> 0 < rm_backlog (rudp_parseMetadata D md)"
  by (auto simp: rudp_parseMetadata_def positive_or_def second_def)

end
