(* ===== verification/TunTap.thy ===== *)
theory TunTap
  imports Bytes Metadata Authers
begin

text \<open>
  The handlers of virtual devices, \<open>x/handler/tun\<close> and \<open>x/handler/tap\<close>: packets between a device and the
  peers of a UDP socket. A client registers its addresses with a keep-alive message under a pass phrase;
  the server learns from it which peer an address is reached by. Reading the headers of packets and
  frames, the text of an address and the routing table are parameters.
\<close>

section \<open>Addresses\<close>

text \<open>An IP address of four or sixteen bytes, in sixteen.\<close>

definition ip_To16 :: "bytes \<Rightarrow> bytes" where
  "ip_To16 ip =
     (if length ip = 4 then replicate 10 0 @ [0xFF, 0xFF] @ ip
      else if length ip = 16 then ip
      else [])"

definition ipToTunRouteKey :: "bytes \<Rightarrow> bytes" where
  "ipToTunRouteKey ip = fill (ip_To16 ip) (replicate 16 0)"

definition IPv6zero :: bytes where "IPv6zero = replicate 16 0"

definition keepAliveHeaderLength :: nat where "keepAliveHeaderLength = 20"

definition magicHeader :: bytes where "magicHeader = [0x47, 0x4F, 0x53, 0x54]"

text \<open>The addresses of a message, sixteen bytes each.\<close>

function split16 :: "bytes \<Rightarrow> bytes list" where
  "split16 b = (if b = [] then [] else take 16 b # split16 (drop 16 b))"
  by pat_completeness auto
termination by (relation "measure length") auto

declare split16.simps [simp del]

definition peer_ips :: "bytes \<Rightarrow> bytes list" where
  "peer_ips b = (let data = drop keepAliveHeaderLength b in if length data mod 16 = 0 then split16 data else [])"

definition is_keepalive :: "bytes \<Rightarrow> bool" where
  "is_keepalive b = (length b > keepAliveHeaderLength \<and> take 4 b = magicHeader)"

text \<open>The pass phrase of a message without the zeros after it.\<close>

definition trim_zeros :: "bytes \<Rightarrow> bytes" where
  "trim_zeros b = rev (dropWhile (\<lambda>x. x = 0) (rev b))"

definition keepalive_key :: "bytes \<Rightarrow> bytes" where
  "keepalive_key b = trim_zeros (take 16 (drop 4 b))"

definition bytes_text :: "bytes \<Rightarrow> string" where
  "bytes_text b = map (\<lambda>x. char_of (unat x)) b"

section \<open>The server\<close>

record tun_server =
  tu_own :: "bytes list"
  tu_p2p :: bool
  tu_auther :: "auther option"
  tu_gateway :: "(string \<Rightarrow> bytes option) option"
  tu_text :: "bytes \<Rightarrow> string"
  tu_dst :: "bytes \<Rightarrow> bytes option"
  tu_addr :: "string \<Rightarrow> bytes option"
  tu_writes :: "string \<Rightarrow> bytes \<Rightarrow> go_error"

type_synonym tun_routes = "bytes \<rightharpoonup> string"

definition route_key :: "tun_server \<Rightarrow> bytes \<Rightarrow> bytes" where
  "route_key T ip = ipToTunRouteKey (if tu_p2p T then IPv6zero else ip)"

definition updateRoute :: "tun_server \<Rightarrow> string \<Rightarrow> bytes \<Rightarrow> tun_routes \<Rightarrow> tun_routes" where
  "updateRoute T addr ip routes =
     (case routes (route_key T ip) of
        None \<Rightarrow> routes(route_key T ip \<mapsto> addr)
      | Some old \<Rightarrow> if old \<noteq> addr then routes(route_key T ip \<mapsto> addr) else routes)"

definition findRouteFor :: "tun_server \<Rightarrow> bytes \<Rightarrow> tun_routes \<Rightarrow> string option" where
  "findRouteFor T dst routes =
     (case routes (route_key T dst) of
        Some a \<Rightarrow> Some a
      | None \<Rightarrow>
          (if tu_p2p T then None
           else case tu_gateway T of
             None \<Rightarrow> None
           | Some g \<Rightarrow>
               (case g (tu_text T dst) of
                  None \<Rightarrow> None
                | Some gw \<Rightarrow> routes (ipToTunRouteKey gw))))"

datatype tun_out = ToPeer string bytes | ToDevice bytes

text \<open>One packet off the device.\<close>

definition server_from_device :: "tun_server \<Rightarrow> bytes \<Rightarrow> tun_routes \<Rightarrow> tun_out list \<times> go_error" where
  "server_from_device T b routes =
     (if b = [] then ([], nil_error)
      else case tu_dst T b of
        None \<Rightarrow> ([], nil_error)
      | Some dst \<Rightarrow>
          (case findRouteFor T dst routes of
             None \<Rightarrow> ([], nil_error)
           | Some addr \<Rightarrow>
               (case tu_writes T addr b of
                  Some e \<Rightarrow> ([], Some e)
                | None \<Rightarrow> ([ToPeer addr b], nil_error))))"

definition authentic :: "tun_server \<Rightarrow> bytes \<Rightarrow> bytes \<Rightarrow> bool" where
  "authentic T ip b =
     (case tu_auther T of
        None \<Rightarrow> True
      | Some au \<Rightarrow> snd (au (tu_text T ip) (bytes_text (keepalive_key b))))"

definition server_keepalive :: "tun_server \<Rightarrow> string \<Rightarrow> bytes \<Rightarrow> tun_routes \<Rightarrow> tun_out list \<times> tun_routes" where
  "server_keepalive T addr b routes =
     (let ips = peer_ips b in
      if ips = [] then ([], routes)
      else if \<exists>n \<in> set (tu_own T). \<exists>ip \<in> set ips. ip_To16 ip = ip_To16 n then ([], routes)
      else if \<not> list_all (\<lambda>ip. authentic T ip b) ips then ([], routes)
      else case tu_addr T addr of
        None \<Rightarrow> ([], routes)
      | Some a16 \<Rightarrow>
          (case tu_writes T addr (magicHeader @ a16) of
             Some e \<Rightarrow> ([], routes)
           | None \<Rightarrow> ([ToPeer addr (magicHeader @ a16)], fold (updateRoute T addr) ips routes)))"

text \<open>One datagram of a peer; the device may refuse it.\<close>

definition ErrTun :: string where "ErrTun = ''tun device error''"

definition server_from_peer ::
    "tun_server \<Rightarrow> bool \<Rightarrow> string \<Rightarrow> bytes \<Rightarrow> tun_routes \<Rightarrow> tun_out list \<times> go_error \<times> tun_routes" where
  "server_from_peer T device_ok addr b routes =
     (if b = [] then ([], nil_error, routes)
      else if is_keepalive b then
        (case server_keepalive T addr b routes of (outs, r) \<Rightarrow> (outs, nil_error, r))
      else case tu_dst T b of
        None \<Rightarrow> ([], nil_error, routes)
      | Some dst \<Rightarrow>
          (case (if tu_p2p T then None else findRouteFor T dst routes) of
             Some a \<Rightarrow>
               (case tu_writes T a b of
                  Some e \<Rightarrow> ([], Some e, routes)
                | None \<Rightarrow> ([ToPeer a b], nil_error, routes))
           | None \<Rightarrow>
               (if device_ok then ([ToDevice b], nil_error, routes) else ([], Some ErrTun, routes))))"

section \<open>The client\<close>

text \<open>
  The keep-alive message is written over a buffer of a pool; what the pass phrase does not cover keeps
  what the buffer held.
\<close>

definition keepalive_message :: "bytes \<Rightarrow> bytes \<Rightarrow> bytes list \<Rightarrow> bytes" where
  "keepalive_message buf pass ips =
     magicHeader @ fill (take 16 pass) (take 16 (drop 4 buf)) @ concat (map (\<lambda>ip. fill (ip_To16 ip) (replicate 16 0)) ips)"

definition client_from_device :: "(bytes \<Rightarrow> bytes option) \<Rightarrow> bytes \<Rightarrow> bytes option" where
  "client_from_device header b = (if header b = None then None else Some b)"

text \<open>A datagram of the server: the reply to a keep-alive, a packet for the device, or nothing.\<close>

datatype client_in = Alive bytes | Packet bytes | Discarded

definition client_from_server :: "(bytes \<Rightarrow> bytes option) \<Rightarrow> bytes \<Rightarrow> client_in" where
  "client_from_server header b =
     (if length b = keepAliveHeaderLength \<and> take 4 b = magicHeader then Alive (drop 4 b)
      else if header b = None then Discarded
      else Packet b)"

record tun_md =
  tm_keepAlivePeriod :: int
  tm_passphrase :: string
  tm_p2p :: bool

definition tun_parseMetadata :: "(string \<Rightarrow> int option) \<Rightarrow> Metadata.metadata \<Rightarrow> tun_md" where
  "tun_parseMetadata parseDuration md =
     \<lparr>tm_keepAlivePeriod =
        (if GetBool md [''tun.keepalive'', ''keepalive'']
         then (let d = GetDuration parseDuration md [''tun.ttl'', ''ttl''] in if d \<le> 0 then 10 * second else d)
         else 0),
      tm_passphrase = GetString md [''tun.token'', ''token'', ''passphrase''],
      tm_p2p = GetBool md [''tun.p2p'', ''p2p'']\<rparr>"

text \<open>Which side a handler is: a client of the node its hop selects, over UDP or bare IP, or the server.\<close>

datatype tun_side = TunClient string string | TunServer | TunWrongType

definition tun_Handle :: "bool \<Rightarrow> string option \<Rightarrow> (string \<Rightarrow> bool) \<Rightarrow> tun_side" where
  "tun_Handle metadatable target has_port =
     (if \<not> metadatable then TunWrongType
      else case target of
        None \<Rightarrow> TunServer
      | Some a \<Rightarrow> TunClient (if has_port a then ''udp'' else ''ip'') a)"

section \<open>Who gets which packet\<close>

lemma length_ip_To16: "length (ip_To16 ip) \<le> 16"
  by (simp add: ip_To16_def)

lemma updateRoute_eq: "updateRoute T addr ip routes = routes(route_key T ip \<mapsto> addr)"
  by (auto simp: updateRoute_def split: option.split)

lemma routes_after:
  "fold (updateRoute T addr) ips routes k =
     (if k \<in> route_key T ` set ips then Some addr else routes k)"
  by (induction ips arbitrary: routes) (auto simp: updateRoute_eq)

text \<open>What has arrived from peers so far, and the table it leads to.\<close>

inductive tun_run :: "tun_server \<Rightarrow> (string \<times> bytes) list \<Rightarrow> tun_routes \<Rightarrow> bool" for T where
  start: "tun_run T [] Map.empty"
| peer: "tun_run T hist routes \<Longrightarrow> server_from_peer T ok addr b routes = (outs, e, routes') \<Longrightarrow>
    tun_run T (hist @ [(addr, b)]) routes'"

text \<open>A peer has registered an address: with a keep-alive that names it, under a key that is accepted.\<close>

definition registered :: "tun_server \<Rightarrow> (string \<times> bytes) list \<Rightarrow> string \<Rightarrow> bytes \<Rightarrow> bool" where
  "registered T hist addr ip \<longleftrightarrow> (\<exists>b. (addr, b) \<in> set hist \<and> is_keepalive b \<and> ip \<in> set (peer_ips b) \<and>
     authentic T ip b \<and> (\<forall>n \<in> set (tu_own T). ip_To16 ip \<noteq> ip_To16 n))"

lemma registered_mono: "registered T hist addr ip \<Longrightarrow> registered T (hist @ more_hist) addr ip"
  by (auto simp: registered_def)

lemma keepalive_registers:
  assumes "server_keepalive T addr b routes = (outs, routes')" "is_keepalive b"
    and "routes' k = Some a" "routes k \<noteq> Some a"
  shows "a = addr \<and> (\<exists>ip. k = route_key T ip \<and> registered T (hist @ [(addr, b)]) addr ip)"
proof -
  have r: "routes' = fold (updateRoute T addr) (peer_ips b) routes" "list_all (\<lambda>ip. authentic T ip b) (peer_ips b)"
    "\<forall>n \<in> set (tu_own T). \<forall>ip \<in> set (peer_ips b). ip_To16 ip \<noteq> ip_To16 n"
    using assms(1,3,4) by (auto simp: server_keepalive_def Let_def split: if_splits option.splits)
  with assms(3,4) obtain ip where ip: "ip \<in> set (peer_ips b)" "k = route_key T ip" and a: "a = addr"
    by (auto simp: routes_after split: if_splits)
  have "registered T (hist @ [(addr, b)]) addr ip"
    unfolding registered_def using r(2,3) assms(2) ip(1) by (intro exI [of _ b]) (auto simp: list_all_iff)
  with a ip(2) show ?thesis by blast
qed

lemma tun_run_registered:
  "tun_run T hist routes \<Longrightarrow> routes k = Some a \<Longrightarrow> \<exists>ip. k = route_key T ip \<and> registered T hist a ip"
proof (induction arbitrary: k a rule: tun_run.induct)
  case (peer hist routes ok addr b outs e routes')
  show ?case
  proof (cases "routes k = Some a")
    case True
    then show ?thesis using peer.IH registered_mono by blast
  next
    case False
    then have "is_keepalive b" "\<exists>outs. server_keepalive T addr b routes = (outs, routes')"
      using peer.hyps(2) peer.prems
      by (auto simp: server_from_peer_def split: if_splits option.splits prod.splits)
    then show ?thesis using keepalive_registers peer.prems False by blast
  qed
qed simp

text \<open>
  (C2) A packet from the device of a server leaves only to a peer that has registered the address it is
  meant for, or the gateway of its route, with a key the authenticator accepts for that address; none of
  the server's own addresses can be registered by anyone. Point to point, any registered peer will do.
\<close>

theorem packets_go_to_registered_peers:
  assumes "tun_run T hist routes" "tu_dst T b = Some dst" "ToPeer a d \<in> set (fst (server_from_device T b routes))"
  shows "d = b \<and> (\<exists>ip. registered T hist a ip \<and>
    (tu_p2p T \<or> ipToTunRouteKey ip = ipToTunRouteKey dst \<or>
      (\<exists>g gw. tu_gateway T = Some g \<and> g (tu_text T dst) = Some gw \<and> ipToTunRouteKey ip = ipToTunRouteKey gw)))"
proof -
  have d: "d = b" and f: "findRouteFor T dst routes = Some a"
    using assms(2,3) by (auto simp: server_from_device_def split: if_splits option.splits)
  from f obtain k where k: "routes k = Some a" "k = route_key T dst \<or>
      (\<not> tu_p2p T \<and> (\<exists>g gw. tu_gateway T = Some g \<and> g (tu_text T dst) = Some gw \<and> k = ipToTunRouteKey gw))"
    by (auto simp: findRouteFor_def split: option.splits if_splits)
  from tun_run_registered [OF assms(1) k(1)] obtain ip where "k = route_key T ip" "registered T hist a ip" by blast
  with d k(2) show ?thesis by (auto simp: route_key_def)
qed

definition plain_tun :: tun_server where
  "plain_tun = \<lparr>tu_own = [], tu_p2p = False, tu_auther = Some (\<lambda>u p. (u, p = ''pw'')), tu_gateway = None,
     tu_text = \<lambda>ip. [], tu_dst = \<lambda>b. Some (replicate 16 7), tu_addr = \<lambda>a. Some (replicate 16 0), tu_writes = \<lambda>a b. None\<rparr>"

definition plain_keepalive :: bytes where
  "plain_keepalive = keepalive_message (replicate 36 0) [0x70, 0x77] [replicate 16 7]"

theorem packets_go_to_registered_peers_witness:
  "\<exists>routes. tun_run plain_tun [(''peer'', plain_keepalive)] routes \<and>
     fst (server_from_device plain_tun [0x45] routes) = [ToPeer ''peer'' [0x45]] \<and>
     (\<exists>ip. registered plain_tun [(''peer'', plain_keepalive)] ''peer'' ip)"
proof -
  let ?r = "Map.empty(replicate 16 7 \<mapsto> ''peer'')"
  have ips: "peer_ips plain_keepalive = [replicate 16 7]" by code_simp
  have "is_keepalive plain_keepalive" "plain_keepalive \<noteq> []" "bytes_text (keepalive_key plain_keepalive) = ''pw''"
    "ipToTunRouteKey (replicate 16 7) = replicate 16 7"
    by code_simp+
  then have "server_from_peer plain_tun True ''peer'' plain_keepalive Map.empty =
      ([ToPeer ''peer'' (magicHeader @ replicate 16 0)], None, ?r)"
    by (simp add: server_from_peer_def server_keepalive_def ips authentic_def updateRoute_eq route_key_def plain_tun_def)
  from tun_run.peer [OF tun_run.start this] have run: "tun_run plain_tun [(''peer'', plain_keepalive)] ?r" by simp
  have "ipToTunRouteKey (replicate 16 7) = replicate 16 7" by code_simp
  then have out: "fst (server_from_device plain_tun [0x45] ?r) = [ToPeer ''peer'' [0x45]]"
    by (simp add: server_from_device_def findRouteFor_def route_key_def plain_tun_def)
  have "tu_dst plain_tun [0x45] = Some (replicate 16 7)" by (simp add: plain_tun_def)
  from packets_go_to_registered_peers [OF run this, of "''peer''" "[0x45]"] out run show ?thesis by auto
qed

section \<open>Keep-alive messages\<close>

lemma split16_append: "length x = 16 \<Longrightarrow> split16 (x @ b) = x # split16 b"
  by (subst split16.simps) auto

lemma split16_concat: "\<forall>x \<in> set xs. length x = 16 \<Longrightarrow> split16 (concat xs) = xs"
  by (induction xs) (simp_all add: split16_append split16.simps [of "[]"])

lemma length_filled: "length (fill (ip_To16 ip) (replicate 16 0)) = 16"
  using length_ip_To16 [of ip] by simp

lemma length_concat_16: "\<forall>x \<in> set xs. length x = 16 \<Longrightarrow> length (concat xs) = 16 * length xs"
  by (induction xs) auto

lemma keepalive_parts:
  assumes "20 \<le> length buf"
  shows "take 4 (keepalive_message buf pass ips) = magicHeader"
    "take 16 (drop 4 (keepalive_message buf pass ips)) = fill (take 16 pass) (take 16 (drop 4 buf))"
    "drop keepAliveHeaderLength (keepalive_message buf pass ips) =
       concat (map (\<lambda>ip. fill (ip_To16 ip) (replicate 16 0)) ips)"
proof -
  have "length (fill (take 16 pass) (take 16 (drop 4 buf))) = 16" using assms by (subst length_fill) auto
  then show "take 4 (keepalive_message buf pass ips) = magicHeader"
    "take 16 (drop 4 (keepalive_message buf pass ips)) = fill (take 16 pass) (take 16 (drop 4 buf))"
    "drop keepAliveHeaderLength (keepalive_message buf pass ips) =
       concat (map (\<lambda>ip. fill (ip_To16 ip) (replicate 16 0)) ips)"
    by (simp_all add: keepalive_message_def magicHeader_def keepAliveHeaderLength_def)
qed

lemma trim_zeros_id: "x = [] \<or> last x \<noteq> 0 \<Longrightarrow> trim_zeros (x @ replicate n 0) = x"
proof -
  assume "x = [] \<or> last x \<noteq> 0"
  then have "dropWhile (\<lambda>y. y = 0) (rev x) = rev x" by (cases x rule: rev_cases) auto
  moreover have "dropWhile (\<lambda>y. y = 0) (replicate n 0 @ ys) = dropWhile (\<lambda>y. y = 0) ys" for ys :: bytes
    by (induction n) auto
  ultimately show ?thesis by (simp add: trim_zeros_def)
qed

lemma trim_zeros_snoc: "x \<noteq> 0 \<Longrightarrow> trim_zeros (xs @ x # replicate n 0) = xs @ [x]"
  using trim_zeros_id [of "xs @ [x]" n] by simp

lemma trim_zeros_parts: "\<exists>n. b = trim_zeros b @ replicate n 0"
proof (induction b rule: rev_induct)
  case (snoc x b)
  then obtain n where n: "b = trim_zeros b @ replicate n 0" by blast
  show ?case
  proof (cases "x = 0")
    case True
    have "trim_zeros (b @ [x]) = trim_zeros b" using True by (simp add: trim_zeros_def)
    moreover have "b @ [x] = trim_zeros b @ replicate (Suc n) 0"
      using n True by (simp add: replicate_append_same [symmetric])
    ultimately show ?thesis by metis
  next
    case False
    then show ?thesis by (intro exI [of _ 0]) (simp add: trim_zeros_def)
  qed
qed (simp add: trim_zeros_def)

text \<open>What follows the pass phrase is trimmed away exactly if it is all zeros.\<close>

lemma trim_zeros_append:
  assumes "x = [] \<or> last x \<noteq> 0"
  shows "trim_zeros (x @ s) = x \<longleftrightarrow> (\<forall>y \<in> set s. y = 0)"
proof
  assume t: "trim_zeros (x @ s) = x"
  obtain n where "x @ s = x @ replicate n 0" using trim_zeros_parts [of "x @ s"] t by auto
  then show "\<forall>y \<in> set s. y = 0" by simp
next
  assume "\<forall>y \<in> set s. y = 0"
  then have "s = replicate (length s) 0" by (simp add: replicate_length_same)
  then show "trim_zeros (x @ s) = x" using trim_zeros_id [OF assms] by metis
qed

text \<open>
  (C40) What a client writes over a buffer of the pool, whatever that held before, the server takes for a
  keep-alive message, and reads back from it the client's addresses, each in sixteen bytes. The key it
  reads is the pass phrase, cut to its first sixteen bytes, exactly if the buffer held nothing but zeros
  in the part of the key that the pass phrase leaves. A pass phrase whose first sixteen bytes end in a
  zero is left out, since the server trims zeros.
\<close>

theorem keepalive_roundtrip:
  assumes "ips \<noteq> []" "\<forall>ip \<in> set ips. length ip \<in> {4, 16}" "length buf = 20 + 16 * length ips"
    and "pass = [] \<or> last (take 16 pass) \<noteq> 0"
  shows "is_keepalive (keepalive_message buf pass ips) \<and>
    peer_ips (keepalive_message buf pass ips) = map ip_To16 ips \<and>
    (keepalive_key (keepalive_message buf pass ips) = take 16 pass \<longleftrightarrow>
       (\<forall>x \<in> set (drop (length pass) (take 16 (drop 4 buf))). x = 0))"
proof -
  let ?m = "keepalive_message buf pass ips"
  let ?c = "map (\<lambda>ip. fill (ip_To16 ip) (replicate 16 0)) ips"
  have l: "\<forall>x \<in> set ?c. length x = 16" using length_filled by auto
  have k: "take 4 ?m = magicHeader" "take 16 (drop 4 ?m) = fill (take 16 pass) (take 16 (drop 4 buf))"
    "drop keepAliveHeaderLength ?m = concat ?c"
    using keepalive_parts [of buf pass ips] assms(3) by simp_all
  have "?c = map ip_To16 ips" using assms(2) by (auto simp: ip_To16_def fill_def)
  then have "peer_ips ?m = map ip_To16 ips"
    using split16_concat [OF l] length_concat_16 [OF l] by (simp add: peer_ips_def k(3) Let_def)
  moreover have "length ?m > keepAliveHeaderLength"
    using arg_cong [OF k(3), of length] length_concat_16 [OF l] assms(1) by (cases ips) auto
  moreover have "drop (length (take 16 pass)) (take 16 (drop 4 buf)) = drop (length pass) (take 16 (drop 4 buf))"
    by (cases "length pass \<le> 16") simp_all
  then have "keepalive_key ?m = take 16 pass \<longleftrightarrow> (\<forall>x \<in> set (drop (length pass) (take 16 (drop 4 buf))). x = 0)"
    using trim_zeros_append [of "take 16 pass" "drop (length (take 16 pass)) (take 16 (drop 4 buf))"] assms(4)
    by (auto simp: keepalive_key_def k(2) fill_def)
  ultimately show ?thesis by (simp add: is_keepalive_def k(1))
qed

theorem keepalive_roundtrip_witness:
  "keepalive_key (keepalive_message (replicate 36 0) [0x70, 0x77] [replicate 16 7]) = [0x70, 0x77] \<and>
   keepalive_key (keepalive_message (replicate 36 1) [0x70, 0x77] [replicate 16 7]) \<noteq> [0x70, 0x77]"
  using keepalive_roundtrip [of "[replicate 16 7]" "replicate 36 0" "[0x70, 0x77]"]
    keepalive_roundtrip [of "[replicate 16 7]" "replicate 36 1" "[0x70, 0x77]"] by simp

text \<open>A buffer that is not clean changes the key: the server is asked about another pass phrase.\<close>

lemma stale_buffer_changes_key:
  "keepalive_key (keepalive_message (replicate 36 1) [0x70, 0x77] [replicate 16 7]) = [0x70, 0x77] @ replicate 14 1"
  by code_simp

text \<open>
  Packets for the device need no registration: point to point, or without a route, whoever sends one has
  it delivered.
\<close>

lemma anyone_reaches_device:
  assumes "b \<noteq> []" "\<not> is_keepalive b" "tu_dst T b = Some dst" "tu_p2p T \<or> findRouteFor T dst routes = None"
  shows "server_from_peer T True addr b routes = ([ToDevice b], nil_error, routes)"
  using assms by (auto simp: server_from_peer_def)

text \<open>
  An IPv4 packet with seven words of header, type of service 0x4F and 21332 bytes begins like a
  keep-alive message and never reaches the device.
\<close>

lemma keepalive_lookalike_is_lost:
  assumes "length b = 21332" "take 4 b = [0x47, 0x4F, 0x53, 0x54]" "length (drop 20 b) mod 16 \<noteq> 0"
  shows "server_from_peer T True addr b routes = ([], nil_error, routes)"
proof -
  have "is_keepalive b" "peer_ips b = []"
    using assms by (simp_all add: is_keepalive_def keepAliveHeaderLength_def magicHeader_def peer_ips_def Let_def)
  then show ?thesis using assms(1) by (auto simp: server_from_peer_def server_keepalive_def)
qed

text \<open>
  When the socket of a server fails it is opened again, with a new goroutine on the device; the old one
  still waits there, takes the next packet and fails to write it.
\<close>

definition read_device :: "bool \<Rightarrow> tun_server \<Rightarrow> bytes \<Rightarrow> tun_routes \<Rightarrow> tun_out list \<times> go_error" where
  "read_device socket_open T b routes =
     server_from_device
       (if socket_open then T else T\<lparr>tu_writes := \<lambda>a d. Some ''use of closed network connection''\<rparr>) b routes"

lemma old_reader_loses_packet:
  "fst (read_device False T b routes) = []"
  by (simp add: read_device_def server_from_device_def split: option.split)

section \<open>Tap devices\<close>

text \<open>
  Frames are switched by their hardware addresses: a server learns who is behind which peer from every
  frame, a client passes everything on. The addresses of a frame are read by a package outside.
\<close>

record tap_server =
  tp_src :: "bytes \<Rightarrow> bytes"
  tp_dst :: "bytes \<Rightarrow> bytes"
  tp_broadcast :: "bytes \<Rightarrow> bool"

type_synonym tap_routes = "(bytes \<times> string) list"

definition hwAddrToTapRouteKey :: "bytes \<Rightarrow> bytes" where
  "hwAddrToTapRouteKey a = fill (take 6 a) (replicate 6 0)"

definition tap_from_device :: "tap_server \<Rightarrow> string option \<Rightarrow> bytes \<Rightarrow> tap_routes \<Rightarrow> tun_out list" where
  "tap_from_device T raddr b routes =
     (if b = [] then []
      else case raddr of
        Some a \<Rightarrow> [ToPeer a b]
      | None \<Rightarrow>
          (if tp_broadcast T (tp_dst T b) then map (\<lambda>(k, a). ToPeer a b) routes
           else case map_of routes (hwAddrToTapRouteKey (tp_dst T b)) of
             Some a \<Rightarrow> [ToPeer a b]
           | None \<Rightarrow> []))"

definition tap_learn :: "bytes \<Rightarrow> string \<Rightarrow> tap_routes \<Rightarrow> tap_routes" where
  "tap_learn k addr routes = AList.update k addr routes"

definition tap_from_peer ::
    "tap_server \<Rightarrow> string option \<Rightarrow> string \<Rightarrow> bytes \<Rightarrow> tap_routes \<Rightarrow> tun_out list \<times> tap_routes" where
  "tap_from_peer T raddr addr b routes =
     (if b = [] then ([], routes)
      else case raddr of
        Some a \<Rightarrow> ([ToDevice b], routes)
      | None \<Rightarrow>
          (let k = hwAddrToTapRouteKey (tp_src T b);
               r = tap_learn k addr routes;
               flood = (if tp_broadcast T (tp_dst T b) then map (\<lambda>(k', a). ToPeer a b) (filter (\<lambda>(k', a). k' \<noteq> k) r) else [])
           in (flood @ (case map_of r (hwAddrToTapRouteKey (tp_dst T b)) of Some a \<Rightarrow> [ToPeer a b] | None \<Rightarrow> [ToDevice b]), r)))"

text \<open>The pauses between attempts: doubled, up to six seconds.\<close>

definition tap_delay :: "int \<Rightarrow> int" where
  "tap_delay d = min (if d = 0 then second else d * 2) (6 * second)"

text \<open>However the handler ends, the program ends with it.\<close>

definition tap_Handle :: "bool \<Rightarrow> (string option \<Rightarrow> string + string option) \<Rightarrow> string option \<Rightarrow> (go_error \<times> string option) \<times> bool" where
  "tap_Handle metadatable resolve_addr target =
     (if \<not> metadatable then ((Some ''tap: wrong connection type'', None), True)
      else case resolve_addr target of
        Inl e \<Rightarrow> ((Some e, None), True)
      | Inr a \<Rightarrow> ((nil_error, a), True))"

text \<open>
  A reply finds the peer its question came from: once a frame of an address has come from a peer, frames
  for that address go to that peer, until a frame of the same address comes from another.
\<close>

lemma tap_reply_finds_peer:
  assumes "q \<noteq> []" "tap_from_peer T None addr q routes = (outs, r)" "tp_dst T d = tp_src T q" "d \<noteq> []"
    "\<not> tp_broadcast T (tp_dst T d)"
  shows "tap_from_device T None d r = [ToPeer addr d]"
  using assms by (auto simp: tap_from_peer_def tap_from_device_def tap_learn_def Let_def update_conv)

text \<open>A broadcast does not go back to the address it came from, but reaches the device and all others.\<close>

lemma tap_broadcast_reaches_others:
  assumes "b \<noteq> []" "tp_broadcast T (tp_dst T b)" "(k, a) \<in> set routes" "distinct (map fst routes)"
    "k \<noteq> hwAddrToTapRouteKey (tp_src T b)"
  shows "ToPeer a b \<in> set (fst (tap_from_peer T None addr b routes))"
proof -
  have "map_of (AList.update (hwAddrToTapRouteKey (tp_src T b)) addr routes) k = Some a"
    using assms(3-5) by (simp add: update_conv)
  then have "(k, a) \<in> set (AList.update (hwAddrToTapRouteKey (tp_src T b)) addr routes)" by (rule map_of_SomeD)
  then show ?thesis
    using assms(1,2,5) by (force simp: tap_from_peer_def tap_learn_def Let_def image_iff)
qed

lemma tap_handler_ends_program: "snd (tap_Handle m r t)"
  by (simp add: tap_Handle_def split: sum.split)

lemma tap_delay_bounds: "0 \<le> d \<Longrightarrow> 0 < tap_delay d \<and> tap_delay d \<le> 6 * second"
  by (auto simp: tap_delay_def second_def)

end
