(* ===== verification/PanelReport.thy ===== *)
theory PanelReport
  imports PlainTunnel Stats AgentSession
begin

text \<open>
  What the agent sends to its panel: reports over HTTP (\<open>x/service/traffic_reporter.go\<close>) and answers and
  system information over the websocket (\<open>x/socket/websocket_reporter.go\<close>), all through the same
  encryption (\<open>x/internal/util/crypto/aes.go\<close>). Sealing and opening under a key, the digest that makes a key of
  a secret, and writing JSON are parameters.
\<close>

section \<open>Encryption\<close>

record aes =
  ae_seal :: "string \<Rightarrow> string \<Rightarrow> string \<Rightarrow> string"
  ae_open :: "string \<Rightarrow> string \<Rightarrow> string \<Rightarrow> string option"
  ae_digest :: "string \<Rightarrow> string"
  ae_nonceSize :: nat

text \<open>What the package promises: what was sealed under a key and a nonce opens under them, and nonces are not empty.\<close>

definition aes_laws :: "aes \<Rightarrow> bool" where
  "aes_laws A \<longleftrightarrow> 0 < ae_nonceSize A \<and> (\<forall>k n d. ae_open A k n (ae_seal A k n d) = Some d)"

datatype crypto_error = EmptySecret | EmptyData | NoNonce | BadBase64 | TooShort | NotAuthentic

definition NewAESCrypto :: "aes \<Rightarrow> string \<Rightarrow> crypto_error + string" where
  "NewAESCrypto A secret = (if secret = [] then Inl EmptySecret else Inr (ae_digest A secret))"

definition aes_Encrypt :: "aes \<Rightarrow> string \<Rightarrow> string option \<Rightarrow> string \<Rightarrow> crypto_error + string" where
  "aes_Encrypt A key rnd data =
     (if data = [] then Inl EmptyData
      else case rnd of
        None \<Rightarrow> Inl NoNonce
      | Some nonce \<Rightarrow> Inr (Std_Encode (nonce @ ae_seal A key nonce data)))"

definition aes_Decrypt :: "aes \<Rightarrow> string \<Rightarrow> string \<Rightarrow> crypto_error + string" where
  "aes_Decrypt A key text =
     (if text = [] then Inl EmptyData
      else case Std_Decode text of
        None \<Rightarrow> Inl BadBase64
      | Some b \<Rightarrow>
          (if length b < ae_nonceSize A then Inl TooShort
           else case ae_open A key (take (ae_nonceSize A) b) (drop (ae_nonceSize A) b) of
             None \<Rightarrow> Inl NotAuthentic
           | Some d \<Rightarrow> Inr d))"

section \<open>The wrapping of a message\<close>

record sender =
  sr_aes :: aes
  sr_key :: "string option"
  sr_random :: "string option"
  sr_now :: int
  sr_wrapper :: "string \<Rightarrow> int \<Rightarrow> string option"

text \<open>
  The body of a report or a frame: the wrapper around the encrypted text, or the data themselves when
  there is no key, encrypting fails or the wrapper cannot be written.
\<close>

definition wrap_message :: "sender \<Rightarrow> string \<Rightarrow> string" where
  "wrap_message S data =
     (case sr_key S of
        None \<Rightarrow> data
      | Some key \<Rightarrow>
          (case aes_Encrypt (sr_aes S) key (sr_random S) data of
             Inl e \<Rightarrow> data
           | Inr enc \<Rightarrow> (case sr_wrapper S enc (sr_now S) of None \<Rightarrow> data | Some m \<Rightarrow> m)))"

section \<open>Reports over HTTP\<close>

record reporter =
  rp_trafficURL :: string
  rp_configURL :: string
  rp_crypto :: "string option"

definition report_url :: "string \<Rightarrow> string \<Rightarrow> string \<Rightarrow> string" where
  "report_url addr path secret = ''http://'' @ addr @ path @ ''?secret='' @ secret"

definition SetHTTPReportURL :: "aes \<Rightarrow> string \<Rightarrow> string \<Rightarrow> reporter" where
  "SetHTTPReportURL A addr secret =
     \<lparr>rp_trafficURL = report_url addr ''/flow/upload'' secret, rp_configURL = report_url addr ''/flow/config'' secret,
      rp_crypto = (case NewAESCrypto A secret of Inl e \<Rightarrow> None | Inr k \<Rightarrow> Some k)\<rparr>"

datatype report_error =
  UrlUnset | NoJson string | NoRequest string | NotSent string | BadStatus int string | BadBody string | NotOk string

text \<open>What becomes of the request: no reply, or a status with its text and a body.\<close>

type_synonym http_exchange = "string \<Rightarrow> string \<Rightarrow> string + int \<times> string \<times> (string + string)"

definition report_reply :: "string + int \<times> string \<times> (string + string) \<Rightarrow> bool \<times> report_error option" where
  "report_reply r =
     (case r of
        Inl e \<Rightarrow> (False, Some (NotSent e))
      | Inr (code, status, body) \<Rightarrow>
          (if code \<noteq> 200 then (False, Some (BadStatus code status))
           else case body of
             Inl e \<Rightarrow> (False, Some (BadBody e))
           | Inr t \<Rightarrow> if TrimSpace t = ''ok'' then (True, None) else (False, Some (NotOk (TrimSpace t)))))"

definition post_report ::
    "sender \<Rightarrow> (string \<Rightarrow> go_error) \<Rightarrow> http_exchange \<Rightarrow> string \<Rightarrow> string \<Rightarrow> (bool \<times> report_error option) \<times> (string \<times> string) list" where
  "post_report S new_request exchange url data =
     (let body = wrap_message S data in
      case new_request url of
        Some e \<Rightarrow> ((False, Some (NoRequest e)), [])
      | None \<Rightarrow> (report_reply (exchange url body), [(url, body)]))"

definition sendTrafficReport ::
    "reporter \<Rightarrow> sender \<Rightarrow> (string \<Rightarrow> go_error) \<Rightarrow> http_exchange \<Rightarrow> string + string \<Rightarrow> (bool \<times> report_error option) \<times> (string \<times> string) list" where
  "sendTrafficReport R S new_request exchange json =
     (case json of
        Inl e \<Rightarrow> ((False, Some (NoJson e)), [])
      | Inr data \<Rightarrow> post_report (S\<lparr>sr_key := rp_crypto R\<rparr>) new_request exchange (rp_trafficURL R) data)"

definition sendConfigReport ::
    "reporter \<Rightarrow> sender \<Rightarrow> (string \<Rightarrow> go_error) \<Rightarrow> http_exchange \<Rightarrow> string \<Rightarrow> (bool \<times> report_error option) \<times> (string \<times> string) list" where
  "sendConfigReport R S new_request exchange data =
     (if rp_configURL R = [] then ((False, Some UrlUnset), [])
      else post_report (S\<lparr>sr_key := rp_crypto R\<rparr>) new_request exchange (rp_configURL R) data)"

text \<open>The reporter of the configuration: once at the start and once at every tick until it is stopped.\<close>

datatype tick = Tick | Stop

fun config_reports :: "tick list \<Rightarrow> nat" where
  "config_reports [] = 0"
| "config_reports (Tick # ts) = Suc (config_reports ts)"
| "config_reports (Stop # ts) = 0"

definition StartConfigReporter :: "reporter \<Rightarrow> tick list \<Rightarrow> nat" where
  "StartConfigReporter R ts = (if rp_configURL R = [] then 0 else Suc (config_reports ts))"

section \<open>The configuration that is reported\<close>

text \<open>
  The status of every configured service that runs is put into the configuration; one that does not run
  keeps the status it had. A running service has its times, its state, its counters if it counts, and its
  events, of which empty ones are left out.
\<close>

record service_status =
  ss_createTime :: int
  ss_state :: string
  ss_stats :: "stats option"
  ss_events :: "(int \<times> string) list"

definition reported_status :: "int \<Rightarrow> service_status \<Rightarrow> service_status" where
  "reported_status zero s = s\<lparr>ss_events := filter (\<lambda>(t, m). t \<noteq> zero) (ss_events s)\<rparr>"

definition getConfigData ::
    "int \<Rightarrow> (string \<Rightarrow> service_status option) \<Rightarrow> (string \<times> service_status option) option list \<Rightarrow>
       (string \<times> service_status option) option list" where
  "getConfigData zero running services =
     map (map_option (\<lambda>(name, old).
       (name, case running name of None \<Rightarrow> old | Some s \<Rightarrow> Some (reported_status zero s)))) services"

section \<open>Frames over the websocket\<close>

record ws_link =
  wl_conn :: bool
  wl_connected :: bool
  wl_sent :: "string list"

definition ws_write :: "go_error \<Rightarrow> string \<Rightarrow> ws_link \<Rightarrow> ws_link" where
  "ws_write err m L = (case err of None \<Rightarrow> L\<lparr>wl_sent := wl_sent L @ [m]\<rparr> | Some e \<Rightarrow> L\<lparr>wl_connected := False\<rparr>)"

datatype send_error = NotConnected | NotSerialised string | NotWritten string

definition sendSystemInfo ::
    "sender \<Rightarrow> (string \<Rightarrow> go_error) \<Rightarrow> string + string \<Rightarrow> ws_link \<Rightarrow> send_error option \<times> ws_link" where
  "sendSystemInfo S write json L =
     (if \<not> wl_conn L \<or> \<not> wl_connected L then (Some NotConnected, L)
      else case json of
        Inl e \<Rightarrow> (Some (NotSerialised e), L)
      | Inr data \<Rightarrow>
          (let m = wrap_message S data
           in (map_option NotWritten (write m), ws_write (write m) m L)))"

text \<open>The timeout of an answer grows with its size.\<close>

definition response_timeout :: "nat \<Rightarrow> int" where
  "response_timeout n = (if n > 1024 * 1024 then 30 * second else 5 * second)"

definition sendResponse :: "sender \<Rightarrow> (int \<Rightarrow> string \<Rightarrow> go_error) \<Rightarrow> string + string \<Rightarrow> ws_link \<Rightarrow> ws_link" where
  "sendResponse S write json L =
     (if \<not> wl_conn L \<or> \<not> wl_connected L then L
      else case json of
        Inl e \<Rightarrow> L
      | Inr data \<Rightarrow>
          (let m = wrap_message S data in ws_write (write (response_timeout (length m)) m) m L))"

section \<open>Laws\<close>

lemma Std_Encode_Nil_iff [simp]: "Std_Encode s = [] \<longleftrightarrow> s = []"
proof
  assume "Std_Encode s = []"
  then have "Std_Decode [] = Some s" using Std_roundtrip [of s] by (simp only:)
  moreover have "Std_Decode [] = Some []" using Std_roundtrip [of "[]"] by (simp add: Std_Encode_def nats_of_def)
  ultimately show "s = []" by simp
qed (simp add: Std_Encode_def nats_of_def)

text \<open>
  What one side encrypts the other decrypts to the same text, whenever both have the same secret;
  nothing is encrypted that is empty, and no other key is needed than the digest of the secret.
\<close>

theorem encryption_roundtrip:
  assumes "aes_laws A" "NewAESCrypto A secret = Inr key" "aes_Encrypt A key rnd data = Inr enc"
    and "\<And>n. rnd = Some n \<Longrightarrow> length n = ae_nonceSize A"
  shows "NewAESCrypto A secret = Inr (ae_digest A secret) \<and> data \<noteq> [] \<and> aes_Decrypt A (ae_digest A secret) enc = Inr data"
proof -
  have k: "key = ae_digest A secret" and new: "NewAESCrypto A secret = Inr (ae_digest A secret)"
    using assms(2) by (auto simp: NewAESCrypto_def split: if_splits)
  obtain n where n: "rnd = Some n" "data \<noteq> []" "enc = Std_Encode (n @ ae_seal A key n data)"
    using assms(3) by (auto simp: aes_Encrypt_def split: if_splits option.splits)
  have "ae_open A key n (ae_seal A key n data) = Some data" using assms(1) by (simp add: aes_laws_def)
  moreover have "n \<noteq> []" using assms(1) assms(4) [OF n(1)] by (auto simp: aes_laws_def)
  ultimately have "aes_Decrypt A key enc = Inr data"
    using assms(4) [OF n(1)] by (simp add: aes_Decrypt_def n(3))
  then show ?thesis using k new n(2) by simp
qed

definition toy_aes :: aes where
  "toy_aes = \<lparr>ae_seal = \<lambda>k n d. k @ d, ae_open = \<lambda>k n c. if take (length k) c = k then Some (drop (length k) c) else None,
     ae_digest = id, ae_nonceSize = 1\<rparr>"

lemma toy_aes_laws: "aes_laws toy_aes"
  by (simp add: aes_laws_def toy_aes_def)

theorem encryption_roundtrip_witness:
  "\<exists>enc. aes_Encrypt toy_aes ''k'' (Some ''n'') ''data'' = Inr enc \<and> aes_Decrypt toy_aes ''k'' enc = Inr ''data''"
proof -
  obtain enc where e: "aes_Encrypt toy_aes ''k'' (Some ''n'') ''data'' = Inr enc" by (simp add: aes_Encrypt_def)
  have "NewAESCrypto toy_aes ''k'' = Inr ''k''" by (simp add: NewAESCrypto_def toy_aes_def)
  from encryption_roundtrip [OF toy_aes_laws this e] e show ?thesis by (simp add: toy_aes_def)
qed

text \<open>
  The secret stands in the address of every report, so whoever sees a request has the key as well: it
  is the digest of what follows the equals sign.
\<close>

definition secret_in :: "string \<Rightarrow> string" where
  "secret_in url = tl (dropWhile (\<lambda>c. c \<noteq> CHR ''='') url)"

lemma secret_in_url:
  assumes "CHR ''='' \<notin> set addr" "CHR ''='' \<notin> set path"
  shows "secret_in (report_url addr path secret) = secret"
proof -
  have "dropWhile (\<lambda>c. c \<noteq> CHR ''='') (xs @ CHR ''='' # ys) = CHR ''='' # ys" if "CHR ''='' \<notin> set xs" for xs ys
    using that by (induction xs) auto
  from this [of "''http://'' @ addr @ path @ ''?secret''" secret] show ?thesis
    using assms by (simp add: secret_in_def report_url_def)
qed

lemma observer_reads_report:
  assumes "aes_laws A" "secret \<noteq> []" "CHR ''='' \<notin> set addr"
    and "aes_Encrypt A (ae_digest A secret) (Some n) data = Inr enc" "length n = ae_nonceSize A"
  shows "aes_Decrypt A (ae_digest A (secret_in (rp_configURL (SetHTTPReportURL A addr secret)))) enc = Inr data"
proof -
  have s: "secret_in (rp_configURL (SetHTTPReportURL A addr secret)) = secret"
    unfolding SetHTTPReportURL_def using secret_in_url [OF assms(3), of "''/flow/config''" secret] by simp
  have "n \<noteq> []" using assms(1,5) by (auto simp: aes_laws_def)
  then show ?thesis unfolding s using assms(1,4,5) by (auto simp: aes_Encrypt_def aes_Decrypt_def aes_laws_def split: if_splits)
qed

text \<open>A message that cannot be encrypted is sent as it is.\<close>

lemma unencrypted_when_no_nonce:
  assumes "sr_random S = None" "data \<noteq> []"
  shows "wrap_message S data = data"
  using assms by (simp add: wrap_message_def aes_Encrypt_def split: option.split)

text \<open>A report succeeds exactly when the panel answers 200 and \<open>ok\<close>.\<close>

lemma report_succeeds_iff:
  "fst (fst (post_report S new_request ex url data)) \<longleftrightarrow>
     new_request url = None \<and> (\<exists>status t. ex url (wrap_message S data) = Inr (200, status, Inr t) \<and> TrimSpace t = ''ok'')"
  by (auto simp: post_report_def report_reply_def Let_def split: option.splits sum.splits)

lemma report_error_iff:
  "(fst (fst (post_report S new_request ex url data)) \<longleftrightarrow> snd (fst (post_report S new_request ex url data)) = None)"
  by (auto simp: post_report_def report_reply_def Let_def split: option.splits sum.splits)

text \<open>After a write has failed nothing more is sent until the connection is made anew.\<close>

lemma nothing_sent_after_failure:
  assumes "write (wrap_message S d) = Some e" "wl_connected L" "wl_conn L"
  shows "sendResponse S' w' j (snd (sendSystemInfo S write (Inr d) L)) = snd (sendSystemInfo S write (Inr d) L)"
  using assms by (simp add: sendSystemInfo_def sendResponse_def ws_write_def Let_def)

text \<open>Reporting the configuration changes no name and adds no service; reporting again changes nothing.\<close>

lemma getConfigData_names:
  "map (map_option fst) (getConfigData z running cs) = map (map_option fst) cs"
  by (simp add: getConfigData_def option.map_comp comp_def case_prod_beta)

lemma getConfigData_idem:
  "getConfigData z running (getConfigData z running cs) = getConfigData z running cs"
  by (auto simp: getConfigData_def option.map_comp comp_def case_prod_beta split: option.split intro!: option.map_cong)

text \<open>A service that has ended keeps the status it was last reported with.\<close>

lemma ended_service_keeps_status:
  "running name = None \<Longrightarrow> getConfigData z running [Some (name, Some s)] = [Some (name, Some s)]"
  by (simp add: getConfigData_def)

end
