(* ===== verification/Spec2Isabelle.thy ===== *)
theory Spec2Isabelle
  imports ApiServicesProps ApiRace ConnLimiterRace ChainRoute ServiceRuntime Stats AgentInvariant AgentConnection ListenerStack TrafficRules RouterTable RateLimiter LateBinding TunnelRoute RuleMatcher WsFrame RelayConn HttpAccess UdpListener DnsHandler Socks RelayHandler Http2Handler Sniffing ForwardHandlers CmdConfigProps VpnRouter CommandLine NodeParse ObjectParse MuxDialer SessionDialers ForwardSniffer TlsConfig Entrypoint PlainTunnel ListenerSetup QueueListener SshListener BindListener TunTap PanelReport
begin

text \<open>
  This development models the Go agent of the panel, \<open>go-gost/\<close> and its module \<open>go-gost/x\<close>: a
  proxy whose services, chains and rules are kept in registries beside a global configuration,
  changed over a REST API and over the websocket of the panel, and used by the connections it
  carries.

  \<^bold>\<open>Parts and theories.\<close>

  \<^item> Shared vocabulary. \<open>Prelude\<close> has Go's error results, the bytes of package \<open>strings\<close> and lemmas
    on maps and lists; \<open>Strconv\<close> and \<open>GoNet\<close> model the parts of \<open>strconv\<close>, \<open>strings\<close>, \<open>net\<close> and
    \<open>netip\<close> the code calls, with the text of an address, \<open>Json\<close> the values and small
    decoders of \<open>encoding/json\<close>.
  \<^item> Registries and configuration. \<open>Registry\<close> (\<open>x/registry/registry.go\<close>) states the contract of a
    registry as the locale \<open>registry_api\<close> and interprets it; \<open>Metadata\<close> (\<open>x/metadata\<close>);
    \<open>ServiceWorld\<close> has the registry of services, the configuration (\<open>x/config/config.go\<close>), the
    bound listeners and the trace of calls on service instances, and the building of a service
    (\<open>x/config/parsing/service/parse.go\<close>).
  \<^item> Service commands. \<open>SocketServices\<close> (\<open>x/socket/service.go\<close>) has the commands with their phases
    and rollbacks; \<open>SocketCreate\<close>, \<open>SocketCommands\<close> and \<open>SocketResume\<close> show what
    each does when it succeeds and when it fails, and which runs keep registry and configuration
    in step.
  \<^item> REST API. \<open>ApiObjects\<close> (\<open>x/api/error.go\<close> and the fifteen \<open>x/api/config_*.go\<close> files
    and their routes), \<open>ObjectStore\<close> (the contract \<open>object_api\<close> of create, update and delete, and
    whole request sequences), \<open>ApiRace\<close> (the handlers cut into atomic steps), \<open>ApiServices\<close> and
    \<open>ApiServicesProps\<close> (\<open>x/api/config_service.go\<close>), \<open>SocketObjects\<close> (\<open>x/socket/chain.go\<close>,
    \<open>limiter.go\<close>).
  \<^item> The agent. \<open>AgentCommands\<close>, \<open>AgentSession\<close> and \<open>AgentConnection\<close> model
    \<open>x/socket/websocket_reporter.go\<close>: the routing of commands, the wrapping of messages and the
    goroutines of the connection; \<open>AgentInvariant\<close> ties the stores and the saved file together.
  \<^item> Choosing a way. \<open>Selector\<close> (\<open>x/selector\<close>), \<open>Hop\<close> (\<open>x/hop/hop.go\<close>, with the locale
    \<open>slice_sort\<close> for the unstable sort of Go) and \<open>ChainRoute\<close> (\<open>x/chain\<close>).
  \<^item> Rules. \<open>Loaders\<close>, \<open>Matcher\<close> (\<open>x/internal/matcher\<close>, \<open>x/internal/net/addr.go\<close>) and \<open>Bypass\<close>
    (\<open>x/bypass\<close>, \<open>x/admission\<close>).
  \<^item> Limits and accounts. \<open>ConnLimiter\<close>, \<open>ConnLimiterProps\<close> and \<open>ConnLimiterRace\<close>
    (\<open>x/limiter/conn\<close>), \<open>LimitedConn\<close> and \<open>TrafficRules\<close> (\<open>x/limiter/traffic\<close>), \<open>RateLimiter\<close>
    (\<open>x/limiter/rate\<close>), \<open>Stats\<close> (\<open>x/observer/stats\<close> and the report of \<open>x/service\<close>),
    \<open>ServiceRuntime\<close> (\<open>x/service\<close>), \<open>ListenerStack\<close> (how a listener stacks
    counting, admission and the limiter around its socket).
  \<^item> Tables and accounts of users. \<open>NameTables\<close> (\<open>x/hosts\<close>, \<open>x/ingress\<close>), \<open>RouterTable\<close>
    (\<open>x/router\<close>), \<open>Authers\<close> (\<open>x/auth\<close>), \<open>Resolver\<close> (\<open>x/resolver\<close> and its cache) and
    \<open>LateBinding\<close> (the wrappers of \<open>x/registry\<close> that look an object up at each use).
  \<^item> Wire formats. \<open>Bytes\<close>, \<open>Base64\<close>, \<open>WsFrame\<close> (\<open>x/internal/util/ws\<close>), \<open>RelayConn\<close> (datagrams
    over streams), \<open>UdpListener\<close> (\<open>x/internal/net/udp\<close>), \<open>PlainTunnel\<close> (\<open>x/internal/util/pht\<close>),
    \<open>TlsConfig\<close> (\<open>x/internal/util/tls\<close>).
  \<^item> Handlers. \<open>FrontEnd\<close> has what every proxy handler does with a client, as the locales
    \<open>rated_front_end\<close>, \<open>front_end\<close>, \<open>tidy_rated_front_end\<close> and \<open>tidy_front_end\<close>, interpreted on
    the handlers of \<open>Socks\<close>, \<open>RelayHandler\<close>, \<open>HttpHandler\<close> with \<open>HttpAccess\<close>, \<open>Http2Handler\<close> and
    \<open>ForwardHandlers\<close>; \<open>DnsHandler\<close>; \<open>RuleMatcher\<close> (\<open>x/routing\<close>); \<open>Sniffing\<close> and
    \<open>ForwardSniffer\<close> (the two sniffers); \<open>TunnelPool\<close>, \<open>TunnelRoute\<close> and \<open>Entrypoint\<close>
    (\<open>x/handler/tunnel\<close>); \<open>VpnRouter\<close> (\<open>x/handler/router\<close>); \<open>TunTap\<close> (\<open>x/handler/tun\<close>, \<open>tap\<close>).
  \<^item> Dialers and listeners. \<open>MuxDialer\<close> and \<open>SessionDialers\<close> (locale \<open>session_dialer\<close>) have the
    dialers that keep sessions; \<open>ListenerSetup\<close> the \<open>Init\<close> of the listeners
    and the configuration of KCP, \<open>QueueListener\<close>
    (locale \<open>stopping_listener\<close>) their queues, \<open>SshListener\<close> and \<open>BindListener\<close> the two families
    with rules of their own.
  \<^item> Configuration and program. \<open>CmdConfig\<close> and \<open>CmdConfigProps\<close> (the command line), \<open>NodeParse\<close> and
    \<open>ObjectParse\<close> (\<open>x/config/parsing\<close>), \<open>Loader\<close> (merging and loading), \<open>Startup\<close>
    (\<open>program.go\<close>), \<open>CommandLine\<close> (what the loader makes of the items of the command line, and the
    references between them), \<open>PanelReport\<close> (what is sent to the panel and how it is encrypted).

  \<^bold>\<open>How code becomes definitions.\<close> A Go method is a function of its receiver's state that returns
  its results and the new state; an error result is an option, \<open>nil\<close> being \<open>None\<close>; a handler's
  reply is its status, code and message. Registries are maps, configurations are lists in their
  order. What is reached through shared pointers (limiters, transports) lives in a store indexed
  by numbers. Goroutines are step functions under a schedule. Counters of 64 bits are words where
  wrapping matters. Packages that are not in the repository are parameters: their documented laws
  (\<open>cache_laws\<close>, \<open>looks_up\<close>, \<open>from_entries\<close>, \<open>gzip_has_magic\<close>, \<open>visits_all\<close>, \<open>asks_callbacks\<close>, \<open>aes_laws\<close>) are hypotheses that a concrete instance meets in the witness of each
  theorem that uses them.

  \<^bold>\<open>What the lemmas show.\<close> Every run of the agent that does not fail in the two commands that are
  not atomic keeps the live objects, the configurations and the saved file in step; a refused
  request changes nothing; the REST way and the websocket way agree except for pausing; creations
  may interleave freely, an update and a delete may not. A selected node is eligible and of the
  highest priority, round robin is fair, weights are proportional, connecting opens, closes and
  marks what it should. Limits on connections hold under every interleaving, a
  limited stream is delivered intact, and every byte of traffic is booked once, outside the
  window the theorems name. Each proxy handler dials only for a client that passed its limits, its
  authentication and its bypass; SSH lets in only whom its configuration names; packets of virtual
  devices and routers stay with the peers that registered for them. A listener that ends stops the
  loop of its service, whatever still arrives and also over a temporary error. Frames, datagrams, tunnelled
  streams and keep-alive messages are read back as they were written. Loading a configuration
  leaves in the registries what the configuration says, and the command line yields one whose
  references, to chains too, are registered once it is loaded; a hop selects by its configuration
  however often it reads its loaders. Where the code misses what it promises, a theorem shows the case.

  \<^bold>\<open>Bounds and fuel.\<close> Loops over lists recurse on the list. The retry loops of dialling and binding
  recurse on the number of retries left; the path of a route is followed with fuel, and the
  theorem on a shared transport shows that no fuel suffices there. Schedules are finite lists of
  any length.

  \<^bold>\<open>Not modelled.\<close> The handlers \<open>file\<close>, \<open>serial\<close>, \<open>metrics\<close>, \<open>api\<close>, \<open>http3\<close> and \<open>unix\<close>,
  most connectors and the dialers that only pass a connection through a transport package,
  obfuscation and the devices themselves: calls to packages outside the repository or to the
  system. What loaders read from files, redis and
  HTTP, plugins, loggers, recorders and metrics: I/O. The panel's backend (Java) and its
  frontend.
\<close>

end
